(* ===== verification/Prelude.thy ===== *)
theory Prelude
  imports Main "HOL-Library.Word"
begin

text \<open>
  Shared vocabulary of the development: the machine-integer types, the result type of a
  fallible Rust function, the sequencing of fallible calls that pass a mutable state
  (Rust's question-mark operator over \<open>&mut self\<close>), loops over slices, and the generic
  lemmas the component theories use. Nothing here is specific to one component.
\<close>

unbundle bit_operations_syntax

type_synonym u8 = "8 word"
type_synonym u16 = "16 word"
type_synonym u32 = "32 word"
type_synonym u64 = "64 word"

text \<open>\<open>Result<T, E>\<close> is \<open>E + T\<close>: \<open>Inl\<close> is \<open>Err\<close>, \<open>Inr\<close> is \<open>Ok\<close>.\<close>

type_synonym ('e, 'a) result = "'e + 'a"

text \<open>A fallible method on a mutable receiver: the state changes whether or not it fails.\<close>

type_synonym ('s, 'e, 'a) action = "'s \<Rightarrow> ('e, 'a) result \<times> 's"

named_theorems action_simps \<open>unfolding of the sequencing combinators\<close>

named_theorems keeps_intros \<open>invariant preservation by the sequencing combinators\<close>

subsection \<open>Sequencing of fallible state-passing calls\<close>

definition ok :: "'a \<Rightarrow> ('s, 'e, 'a) action" where
  [action_simps]: "ok a s = (Inr a, s)"

definition err :: "'e \<Rightarrow> ('s, 'e, 'a) action" where
  [action_simps]: "err e s = (Inl e, s)"

definition modify :: "('s \<Rightarrow> 's) \<Rightarrow> ('s, 'e, unit) action" where
  [action_simps]: "modify f s = (Inr (), f s)"

text \<open>\<open>m?; k\<close>: an error of \<open>m\<close> is returned with the state \<open>m\<close> left behind.\<close>

definition and_then :: "('s, 'e, 'a) action \<Rightarrow> ('a \<Rightarrow> ('s, 'e, 'b) action) \<Rightarrow> ('s, 'e, 'b) action" where
  [action_simps]: "and_then m k s = (case m s of (Inl e, s') \<Rightarrow> (Inl e, s') | (Inr a, s') \<Rightarrow> k a s')"

text \<open>A \<open>for\<close> loop over a slice whose body may return early with an error.\<close>

primrec for_each :: "('x \<Rightarrow> ('s, 'e, unit) action) \<Rightarrow> 'x list \<Rightarrow> ('s, 'e, unit) action" where
  "for_each f [] = ok ()"
| "for_each f (x # xs) = and_then (f x) (\<lambda>_. for_each f xs)"

definition is_ok :: "('e, 'a) result \<Rightarrow> bool" where
  "is_ok r \<longleftrightarrow> (case r of Inl _ \<Rightarrow> False | Inr _ \<Rightarrow> True)"

lemma is_ok_simps [simp]: "is_ok (Inr a)" "\<not> is_ok (Inl e)"
  by (simp_all add: is_ok_def)

lemma is_ok_iff: "is_ok r \<longleftrightarrow> (\<exists>a. r = Inr a)"
  by (cases r) simp_all

lemma ok_apply [simp]: "ok a s = (Inr a, s)"
  by (simp add: ok_def)

lemma err_apply [simp]: "err e s = (Inl e, s)"
  by (simp add: err_def)

lemma modify_apply [simp]: "modify f s = (Inr (), f s)"
  by (simp add: modify_def)

lemma and_then_ok_iff:
  "and_then m k s = (Inr b, t) \<longleftrightarrow> (\<exists>a s'. m s = (Inr a, s') \<and> k a s' = (Inr b, t))"
  by (auto simp: and_then_def split: prod.splits sum.splits)

lemma and_then_err_iff:
  "and_then m k s = (Inl e, t) \<longleftrightarrow>
     m s = (Inl e, t) \<or> (\<exists>a s'. m s = (Inr a, s') \<and> k a s' = (Inl e, t))"
  by (auto simp: and_then_def split: prod.splits sum.splits)

lemma and_then_Inr [simp]: "m s = (Inr a, s') \<Longrightarrow> and_then m k s = k a s'"
  by (simp add: and_then_def)

lemma and_then_Inl [simp]: "m s = (Inl e, s') \<Longrightarrow> and_then m k s = (Inl e, s')"
  by (simp add: and_then_def)

subsection \<open>Invariants of fallible calls\<close>

text \<open>\<open>keeps P m\<close>: from a state with \<open>P\<close>, \<open>m\<close> ends in a state with \<open>P\<close>, error or not.\<close>

definition keeps :: "('s \<Rightarrow> bool) \<Rightarrow> ('s, 'e, 'a) action \<Rightarrow> bool" where
  "keeps P m \<longleftrightarrow> (\<forall>s. P s \<longrightarrow> P (snd (m s)))"

lemma keepsI: "(\<And>s. P s \<Longrightarrow> P (snd (m s))) \<Longrightarrow> keeps P m"
  by (simp add: keeps_def)

lemma keepsD: "keeps P m \<Longrightarrow> P s \<Longrightarrow> P (snd (m s))"
  by (simp add: keeps_def)

lemma keepsD_eq: "keeps P m \<Longrightarrow> P s \<Longrightarrow> m s = (r, t) \<Longrightarrow> P t"
  by (auto dest: keepsD)

lemma keeps_ok [keeps_intros]: "keeps P (ok a)"
  by (simp add: keeps_def)

lemma keeps_err [keeps_intros]: "keeps P (err e)"
  by (simp add: keeps_def)

lemma keeps_modify [keeps_intros]: "(\<And>s. P s \<Longrightarrow> P (f s)) \<Longrightarrow> keeps P (modify f)"
  by (simp add: keeps_def)

lemma keeps_and_then [keeps_intros]:
  "keeps P m \<Longrightarrow> (\<And>a. keeps P (k a)) \<Longrightarrow> keeps P (and_then m k)"
  by (fastforce simp: keeps_def and_then_def split: prod.splits sum.splits)

lemma keeps_for_each [keeps_intros]:
  "(\<And>x. x \<in> set xs \<Longrightarrow> keeps P (f x)) \<Longrightarrow> keeps P (for_each f xs)"
  by (induction xs) (auto intro!: keeps_intros)

subsection \<open>Triples\<close>

text \<open>\<open>triple P m Q E\<close>: from a state with \<open>P\<close>, \<open>m\<close> either returns \<open>a\<close> in a state with
  \<open>Q a\<close> or fails in a state with \<open>E\<close>.\<close>

definition triple ::
  "('s \<Rightarrow> bool) \<Rightarrow> ('s, 'e, 'a) action \<Rightarrow> ('a \<Rightarrow> 's \<Rightarrow> bool) \<Rightarrow> ('s \<Rightarrow> bool) \<Rightarrow> bool" where
  "triple P m Q E \<longleftrightarrow>
     (\<forall>s. P s \<longrightarrow> (case m s of (Inr a, t) \<Rightarrow> Q a t | (Inl e, t) \<Rightarrow> E t))"

named_theorems triple_intros \<open>rules for triples\<close>

lemma tripleI:
  "(\<And>s a t. P s \<Longrightarrow> m s = (Inr a, t) \<Longrightarrow> Q a t) \<Longrightarrow> (\<And>s e t. P s \<Longrightarrow> m s = (Inl e, t) \<Longrightarrow> E t)
     \<Longrightarrow> triple P m Q E"
  by (auto simp: triple_def split: prod.splits sum.splits)

lemma tripleD_ok: "triple P m Q E \<Longrightarrow> P s \<Longrightarrow> m s = (Inr a, t) \<Longrightarrow> Q a t"
  by (fastforce simp: triple_def)

lemma tripleD_err: "triple P m Q E \<Longrightarrow> P s \<Longrightarrow> m s = (Inl e, t) \<Longrightarrow> E t"
  by (fastforce simp: triple_def)

lemma tripleD_any: "triple P m (\<lambda>_. Q) Q \<Longrightarrow> P s \<Longrightarrow> Q (snd (m s))"
  by (cases "m s") (auto simp: triple_def split: sum.splits)

lemma triple_weaken:
  "triple P' m Q' E' \<Longrightarrow> (\<And>s. P s \<Longrightarrow> P' s) \<Longrightarrow> (\<And>a s. Q' a s \<Longrightarrow> Q a s) \<Longrightarrow> (\<And>s. E' s \<Longrightarrow> E s)
     \<Longrightarrow> triple P m Q E"
  by (fastforce simp: triple_def split: prod.splits sum.splits)

lemma triple_keeps:
  "keeps P m \<Longrightarrow> (\<And>s. P s \<Longrightarrow> E s) \<Longrightarrow> triple P m (\<lambda>_. P) E"
  by (fastforce simp: triple_def keeps_def split: prod.splits sum.splits dest: spec)

lemma triple_ok [triple_intros]: "(\<And>s. P s \<Longrightarrow> Q a s) \<Longrightarrow> triple P (ok a) Q E"
  by (simp add: triple_def)

lemma triple_modify [triple_intros]: "(\<And>s. P s \<Longrightarrow> Q () (f s)) \<Longrightarrow> triple P (modify f) Q E"
  by (simp add: triple_def)

lemma triple_and_then:
  "triple P m Q E \<Longrightarrow> (\<And>a. triple (Q a) (k a) R E) \<Longrightarrow> triple P (and_then m k) R E"
  by (fastforce simp: triple_def and_then_def split: prod.splits sum.splits)

text \<open>A call chosen by a component of the current state.\<close>

lemma triple_read: "(\<And>x. triple P (f x) Q E) \<Longrightarrow> triple P (\<lambda>s. f (g s) s) Q E"
  by (simp add: triple_def)

lemma keeps_read: "(\<And>x. keeps P (f x)) \<Longrightarrow> keeps P (\<lambda>s. f (g s) s)"
  by (simp add: keeps_def)

subsection \<open>Machine integers\<close>

lemma unat_lt_pow: "unat (x :: 'w::len word) < 2 ^ LENGTH('w)"
  by (rule unsigned_less)

lemma unat_u8_less: "unat (x :: u8) < 256"
  using unat_lt_pow[of x] by simp

lemma unat_u16_less: "unat (x :: u16) < 65536"
  using unat_lt_pow[of x] by simp

lemma unat_u32_less: "unat (x :: u32) < 4294967296"
  using unat_lt_pow[of x] by simp

lemma unat_u32_max: "unat (- 1 :: u32) = 2 ^ 32 - 1"
  by (simp add: unsigned_minus_1_eq_mask mask_eq_exp_minus_1)

lemma unat_ucast_widen:
  fixes x :: "'v::len word"
  assumes "LENGTH('v) \<le> LENGTH('w::len)"
  shows "unat (ucast x :: 'w word) = unat x"
proof -
  have "unat x < 2 ^ LENGTH('w)"
    by (rule less_le_trans [OF unat_lt_pow]) (simp add: assms)
  then show ?thesis
    by (simp add: unsigned_ucast_eq take_bit_nat_eq_self)
qed

lemma unat_ucast_8_16 [simp]: "unat (ucast (x :: u8) :: u16) = unat x"
  by (rule unat_ucast_widen) simp

lemma unat_ucast_8_32 [simp]: "unat (ucast (x :: u8) :: u32) = unat x"
  by (rule unat_ucast_widen) simp

lemma unat_ucast_16_32 [simp]: "unat (ucast (x :: u16) :: u32) = unat x"
  by (rule unat_ucast_widen) simp

text \<open>\<open>core::cmp::Ordering\<close> and the comparison of unsigned integers.\<close>

datatype ordering = Less | Equal | Greater

definition cmp_word :: "'w::len word \<Rightarrow> 'w word \<Rightarrow> ordering" where
  "cmp_word a b = (if a < b then Less else if a = b then Equal else Greater)"

lemma cmp_word_simps [simp]:
  "cmp_word a b = Less \<longleftrightarrow> a < b"
  "cmp_word a b = Equal \<longleftrightarrow> a = b"
  "cmp_word a b = Greater \<longleftrightarrow> b < a"
  by (auto simp: cmp_word_def)

definition cmp_bool :: "bool \<Rightarrow> bool \<Rightarrow> ordering" where
  "cmp_bool a b = (if a = b then Equal else if b then Less else Greater)"

text \<open>\<open>Ordering::then\<close>: the lexicographic combination that tuple comparison uses.\<close>

fun ordering_then :: "ordering \<Rightarrow> ordering \<Rightarrow> ordering" where
  "ordering_then Equal o2 = o2"
| "ordering_then o1 _ = o1"

instantiation ordering :: linorder
begin

definition less_eq_ordering :: "ordering \<Rightarrow> ordering \<Rightarrow> bool" where
  "a \<le> b \<longleftrightarrow> a = Less \<or> b = Greater \<or> a = b"

definition less_ordering :: "ordering \<Rightarrow> ordering \<Rightarrow> bool" where
  "a < b \<longleftrightarrow> (a :: ordering) \<le> b \<and> \<not> b \<le> a"

instance
proof
  fix a b c :: ordering
  show "a < b \<longleftrightarrow> a \<le> b \<and> \<not> b \<le> a" by (rule less_ordering_def)
  show "a \<le> a" by (simp add: less_eq_ordering_def)
  show "a \<le> b \<Longrightarrow> b \<le> c \<Longrightarrow> a \<le> c" by (auto simp: less_eq_ordering_def)
  show "a \<le> b \<Longrightarrow> b \<le> a \<Longrightarrow> a = b" by (auto simp: less_eq_ordering_def)
  show "a \<le> b \<or> b \<le> a" by (cases a; cases b) (auto simp: less_eq_ordering_def)
qed

end

end
