(* ===== verification/Capability.thy ===== *)
theory Capability
  imports Prelude
begin

text \<open>
  Power capabilities and their flags: \<open>power-policy-interface/src/capability.rs\<close>.
  Voltages and currents are \<open>u16\<close> and the power is computed in \<open>u32\<close>, as in the code.
\<close>

record PowerCapability =
  voltage_mv :: u16
  current_ma :: u16

definition max_power_mw :: "PowerCapability \<Rightarrow> u32" where
  "max_power_mw c = ucast (voltage_mv c) * ucast (current_ma c) div 1000"

text \<open>\<open>impl Ord for PowerCapability\<close>: capabilities are compared by their power only.\<close>

definition cmp_capability :: "PowerCapability \<Rightarrow> PowerCapability \<Rightarrow> ordering" where
  "cmp_capability a b = cmp_word (max_power_mw a) (max_power_mw b)"

datatype PsuType = TypeC | DcJack | Custom0 | Custom1 | Custom2 | Custom3

record ConsumerFlags =
  unconstrained_power :: bool
  consumer_psu_type :: "PsuType option"

record ProviderFlags =
  provider_psu_type :: "PsuType option"

record ConsumerPowerCapability =
  consumer_capability :: PowerCapability
  consumer_flags :: ConsumerFlags

record ProviderPowerCapability =
  provider_capability :: PowerCapability
  provider_flags :: ProviderFlags

definition consumer_flags_default :: ConsumerFlags where
  "consumer_flags_default = \<lparr>unconstrained_power = False, consumer_psu_type = None\<rparr>"

definition provider_flags_default :: ProviderFlags where
  "provider_flags_default = \<lparr>provider_psu_type = None\<rparr>"

definition consumer_from_capability :: "PowerCapability \<Rightarrow> ConsumerPowerCapability" where
  "consumer_from_capability c =
     \<lparr>consumer_capability = c, consumer_flags = consumer_flags_default\<rparr>"

definition provider_from_capability :: "PowerCapability \<Rightarrow> ProviderPowerCapability" where
  "provider_from_capability c =
     \<lparr>provider_capability = c, provider_flags = provider_flags_default\<rparr>"

datatype DisconnectReason =
    ReasonDetached | Switching | AutoRenegotiation | ManualRenegotiation | RoleSwap | ReasonReset

fun is_renegotiation :: "DisconnectReason \<Rightarrow> bool" where
  "is_renegotiation AutoRenegotiation = True"
| "is_renegotiation ManualRenegotiation = True"
| "is_renegotiation _ = False"

record DisconnectFlags =
  reason :: "DisconnectReason option"

definition disconnect_flags_default :: DisconnectFlags where
  "disconnect_flags_default = \<lparr>reason = None\<rparr>"

subsection \<open>The power never overflows\<close>

lemma u16_product_bound:
  fixes x y :: u16
  shows "unat x * unat y \<le> 65535 * 65535"
  by (rule mult_le_mono) (use unat_u16_less[of x] unat_u16_less[of y] in simp_all)

lemma unat_max_power_mw:
  "unat (max_power_mw c) = unat (voltage_mv c) * unat (current_ma c) div 1000"
proof -
  have "unat (voltage_mv c) * unat (current_ma c) < 2 ^ 32"
    using u16_product_bound[of "voltage_mv c" "current_ma c"] by simp
  then have "unat (ucast (voltage_mv c) * ucast (current_ma c) :: u32)
      = unat (voltage_mv c) * unat (current_ma c)"
    by (simp add: unat_word_ariths)
  then show ?thesis
    by (simp add: max_power_mw_def unat_div_distrib)
qed

lemma max_power_mw_bound: "unat (max_power_mw c) \<le> 4294836"
proof -
  have "unat (voltage_mv c) * unat (current_ma c) div 1000 \<le> 65535 * 65535 div 1000"
    by (rule div_le_mono) (rule u16_product_bound)
  then show ?thesis by (simp add: unat_max_power_mw)
qed

text \<open>The power of any capability is the exact product in milliwatts, rounded down: the
  32-bit product of two 16-bit values never wraps, and it is at most 4294836 mW.\<close>

theorem max_power_exact:
  "unat (max_power_mw c) = unat (voltage_mv c) * unat (current_ma c) div 1000
   \<and> unat (max_power_mw c) \<le> 4294836"
  by (simp add: unat_max_power_mw max_power_mw_bound [simplified unat_max_power_mw])

subsection \<open>Comparison of capabilities\<close>

lemma cmp_capability_iff [simp]:
  "cmp_capability a b = Less \<longleftrightarrow> max_power_mw a < max_power_mw b"
  "cmp_capability a b = Equal \<longleftrightarrow> max_power_mw a = max_power_mw b"
  "cmp_capability a b = Greater \<longleftrightarrow> max_power_mw b < max_power_mw a"
  by (simp_all add: cmp_capability_def)

end
