(* ===== verification/Charger.thy ===== *)
theory Charger
  imports Capability
begin

text \<open>
  The charger state machine: \<open>power-policy-interface/src/charger/mod.rs\<close> and
  \<open>charger/event.rs\<close>. Each method of \<open>State\<close> is one definition; the methods that return
  a \<open>Result\<close> are \<open>action\<close>s, the infallible ones are plain functions on the state.
  \<open>diagram_edge\<close> is the state diagram of \<open>docs/power-policy.md\<close>, which the methods refine.
\<close>

datatype ChargerPsuState = PsuAttached | PsuDetached

fun psu_state_from_bool :: "bool \<Rightarrow> ChargerPsuState" where
  "psu_state_from_bool True = PsuAttached"
| "psu_state_from_bool False = PsuDetached"

datatype PoweredSubstate = Init | SubPsuAttached | SubPsuDetached

datatype InternalState = Unpowered | Powered PoweredSubstate

datatype ChargerError = ChargerInvalidState InternalState | ChargerTimeout | BusError | UnknownEvent

record ChargerState =
  charger_state :: InternalState
  charger_capability :: "ConsumerPowerCapability option"

definition charger_default :: ChargerState where
  "charger_default = \<lparr>charger_state = Unpowered, charger_capability = None\<rparr>"

definition on_initialized :: "ChargerPsuState \<Rightarrow> (ChargerState, ChargerError, unit) action" where
  "on_initialized psu s =
     (case charger_state s of
        Powered Init \<Rightarrow>
          (Inr (), s\<lparr>charger_state := (case psu of PsuAttached \<Rightarrow> Powered SubPsuAttached
                                               | PsuDetached \<Rightarrow> Powered SubPsuDetached)\<rparr>)
      | other \<Rightarrow> (Inl (ChargerInvalidState other), s))"

definition on_psu_state_change :: "ChargerPsuState \<Rightarrow> (ChargerState, ChargerError, unit) action" where
  "on_psu_state_change psu s =
     (case charger_state s of
        Powered SubPsuAttached \<Rightarrow>
          (Inr (), if psu = PsuDetached then s\<lparr>charger_state := Powered SubPsuDetached\<rparr> else s)
      | Powered SubPsuDetached \<Rightarrow>
          (Inr (), if psu = PsuAttached then s\<lparr>charger_state := Powered SubPsuAttached\<rparr> else s)
      | other \<Rightarrow> (Inl (ChargerInvalidState other), s))"

definition on_timeout :: "ChargerState \<Rightarrow> ChargerState" where
  "on_timeout s = s\<lparr>charger_state := Unpowered, charger_capability := None\<rparr>"

definition on_ready_success :: "ChargerState \<Rightarrow> ChargerState" where
  "on_ready_success s =
     (if charger_state s = Unpowered
      then s\<lparr>charger_state := Powered Init, charger_capability := None\<rparr> else s)"

definition on_ready_failure :: "ChargerState \<Rightarrow> ChargerState" where
  "on_ready_failure s =
     (case charger_state s of Powered _ \<Rightarrow> s\<lparr>charger_state := Unpowered\<rparr> | Unpowered \<Rightarrow> s)"

definition on_policy_attach :: "ConsumerPowerCapability \<Rightarrow> ChargerState \<Rightarrow> ChargerState" where
  "on_policy_attach c s = s\<lparr>charger_capability := Some c\<rparr>"

definition on_policy_detach :: "ChargerState \<Rightarrow> ChargerState" where
  "on_policy_detach s = s\<lparr>charger_capability := None\<rparr>"

definition is_unpowered :: "ChargerState \<Rightarrow> bool" where
  "is_unpowered s \<longleftrightarrow> charger_state s = Unpowered"

lemmas charger_op_defs =
  on_initialized_def on_psu_state_change_def on_timeout_def on_ready_success_def
  on_ready_failure_def on_policy_attach_def on_policy_detach_def is_unpowered_def

subsection \<open>Refinement of the documented state diagram\<close>

text \<open>The calls a driver can make on its charger's state, and their effect.\<close>

datatype ChargerCall =
    CallInitialized ChargerPsuState
  | CallPsuStateChange ChargerPsuState
  | CallTimeout
  | CallReadySuccess
  | CallReadyFailure
  | CallPolicyAttach ConsumerPowerCapability
  | CallPolicyDetach

fun charger_call :: "ChargerCall \<Rightarrow> (ChargerState, ChargerError, unit) action" where
  "charger_call (CallInitialized p) = on_initialized p"
| "charger_call (CallPsuStateChange p) = on_psu_state_change p"
| "charger_call CallTimeout = modify on_timeout"
| "charger_call CallReadySuccess = modify on_ready_success"
| "charger_call CallReadyFailure = modify on_ready_failure"
| "charger_call (CallPolicyAttach c) = modify (on_policy_attach c)"
| "charger_call CallPolicyDetach = modify on_policy_detach"

text \<open>The edges of the diagram in \<open>docs/power-policy.md\<close>, labelled as there.\<close>

inductive diagram_edge :: "InternalState \<Rightarrow> ChargerCall \<Rightarrow> InternalState \<Rightarrow> bool" where
  ready: "diagram_edge Unpowered CallReadySuccess (Powered Init)"
| init_attached: "diagram_edge (Powered Init) (CallInitialized PsuAttached) (Powered SubPsuAttached)"
| init_detached: "diagram_edge (Powered Init) (CallInitialized PsuDetached) (Powered SubPsuDetached)"
| psu_detach:
    "diagram_edge (Powered SubPsuAttached) (CallPsuStateChange PsuDetached) (Powered SubPsuDetached)"
| psu_attach:
    "diagram_edge (Powered SubPsuDetached) (CallPsuStateChange PsuAttached) (Powered SubPsuAttached)"
| time_out: "diagram_edge (Powered p) CallTimeout Unpowered"
| ready_fail: "diagram_edge (Powered p) CallReadyFailure Unpowered"

inductive_simps diagram_edge_simps [simp]:
  "diagram_edge a (CallInitialized p) b"
  "diagram_edge a (CallPsuStateChange p) b"
  "diagram_edge a CallTimeout b"
  "diagram_edge a CallReadySuccess b"
  "diagram_edge a CallReadyFailure b"
  "diagram_edge a (CallPolicyAttach c) b"
  "diagram_edge a CallPolicyDetach b"

text \<open>The charger methods implement exactly the documented state diagram: a call changes the
  internal state from one state to another if and only if the diagram has the edge with that
  label, and every call that returns an error leaves the whole charger state unchanged.\<close>

theorem charger_refines_diagram:
  "(charger_state (snd (charger_call c s)) = t \<and> t \<noteq> charger_state s)
     = diagram_edge (charger_state s) c t
   \<and> (is_ok (fst (charger_call c s)) \<or> snd (charger_call c s) = s)"
proof (cases c)
  case (CallInitialized p)
  then show ?thesis
    by (cases p)
      (auto simp: on_initialized_def split: InternalState.splits PoweredSubstate.splits)
next
  case (CallPsuStateChange p)
  then show ?thesis
    by (cases p)
      (auto simp: on_psu_state_change_def split: InternalState.splits PoweredSubstate.splits)
next
  case CallTimeout
  then show ?thesis by (cases "charger_state s") (auto simp: on_timeout_def)
qed (auto simp: charger_op_defs split: InternalState.splits)

subsection \<open>Errors and the cached capability\<close>

text \<open>The states in which \<open>on_initialized\<close> and \<open>on_psu_state_change\<close> are accepted.\<close>

lemma on_initialized_ok_iff:
  "is_ok (fst (on_initialized p s)) \<longleftrightarrow> charger_state s = Powered Init"
  by (auto simp: on_initialized_def split: InternalState.splits PoweredSubstate.splits)

lemma on_psu_state_change_ok_iff:
  "is_ok (fst (on_psu_state_change p s))
     \<longleftrightarrow> charger_state s \<in> {Powered SubPsuAttached, Powered SubPsuDetached}"
  by (auto simp: on_psu_state_change_def split: InternalState.splits PoweredSubstate.splits)

text \<open>A run of calls, ignoring the returned errors as a driver may.\<close>

definition charger_run :: "ChargerCall list \<Rightarrow> ChargerState \<Rightarrow> ChargerState" where
  "charger_run cs s = fold (\<lambda>c s. snd (charger_call c s)) cs s"

abbreviation psu_substates :: "InternalState set" where
  "psu_substates \<equiv> {Powered SubPsuAttached, Powered SubPsuDetached}"

lemma charger_run_simps [simp]:
  "charger_run [] s = s"
  "charger_run (cs @ [c]) s = snd (charger_call c (charger_run cs s))"
  by (simp_all add: charger_run_def)

lemma charger_call_to_psu_substate:
  assumes "charger_state (snd (charger_call c s)) \<in> psu_substates"
    and "charger_state s \<notin> psu_substates"
  shows "\<exists>p. c = CallInitialized p \<and> charger_state s = Powered Init"
  using assms
  by (cases c) (auto simp: charger_op_defs split: InternalState.splits PoweredSubstate.splits if_splits)

lemma charger_call_power_down:
  "charger_state (snd (charger_call c s)) \<in> psu_substates \<Longrightarrow> c \<notin> {CallTimeout, CallReadyFailure}"
  by (auto simp: on_timeout_def on_ready_failure_def split: InternalState.splits)

text \<open>C9. A charger that starts from its default state is in a PSU substate (ready to charge) only
  after \<open>on_initialized\<close> was called in \<open>Powered(Init)\<close>, with no timeout and no failed readiness
  check since.\<close>

theorem charger_initialized_since_power_up:
  assumes "charger_state (charger_run cs charger_default) \<in> psu_substates"
  shows "\<exists>pre p post. cs = pre @ CallInitialized p # post
    \<and> charger_state (charger_run pre charger_default) = Powered Init
    \<and> CallTimeout \<notin> set post \<and> CallReadyFailure \<notin> set post"
  using assms
proof (induction cs rule: rev_induct)
  case Nil
  then show ?case by (simp add: charger_default_def)
next
  case (snoc c cs)
  let ?s = "charger_run cs charger_default"
  have down: "c \<notin> {CallTimeout, CallReadyFailure}"
    using charger_call_power_down[of c ?s] snoc.prems by simp
  show ?case
  proof (cases "charger_state ?s \<in> psu_substates")
    case True
    then obtain pre p post where "cs = pre @ CallInitialized p # post"
      "charger_state (charger_run pre charger_default) = Powered Init"
      "CallTimeout \<notin> set post" "CallReadyFailure \<notin> set post"
      using snoc.IH by blast
    with down show ?thesis
      by (intro exI[of _ pre] exI[of _ p] exI[of _ "post @ [c]"]) auto
  next
    case False
    with snoc.prems obtain p where "c = CallInitialized p" "charger_state ?s = Powered Init"
      using charger_call_to_psu_substate[of c ?s] by auto
    then show ?thesis
      by (intro exI[of _ cs] exI[of _ p] exI[of _ "[]"]) simp
  qed
qed

theorem charger_initialized_since_power_up_witness:
  "\<exists>pre p post. [CallReadySuccess, CallInitialized PsuAttached] = pre @ CallInitialized p # post
    \<and> charger_state (charger_run pre charger_default) = Powered Init
    \<and> CallTimeout \<notin> set post \<and> CallReadyFailure \<notin> set post"
  by (rule charger_initialized_since_power_up)
    (simp add: charger_run_def charger_default_def on_ready_success_def on_initialized_def)

end
