(* ===== verification/Psu.thy ===== *)
theory Psu
  imports Charger
begin

text \<open>
  The per-device power state machine: \<open>power-policy-interface/src/psu/mod.rs\<close>, and the events
  a device sends (\<open>psu/event.rs\<close>). Each method of \<open>psu::State\<close> is one definition. A method
  that returns an error after it has changed the state keeps both: the error in the result, the
  new state in the state.
\<close>

datatype StateKind = KindDetached | KindIdle | KindConnectedProvider | KindConnectedConsumer

datatype PsuError =
    InvalidDevice
  | CannotProvide "PowerCapability option"
  | CannotConsume "PowerCapability option"
  | InvalidState "StateKind list" StateKind
  | InvalidResponse
  | Busy
  | Timeout
  | Bus
  | ChargerErr ChargerError
  | Failed

datatype PsuState =
    Idle
  | ConnectedProvider ProviderPowerCapability
  | ConnectedConsumer ConsumerPowerCapability
  | Detached

fun kind :: "PsuState \<Rightarrow> StateKind" where
  "kind Idle = KindIdle"
| "kind (ConnectedProvider _) = KindConnectedProvider"
| "kind (ConnectedConsumer _) = KindConnectedConsumer"
| "kind Detached = KindDetached"

record State =
  psu_state :: PsuState
  psu_consumer_capability :: "ConsumerPowerCapability option"
  requested_provider_capability :: "ProviderPowerCapability option"

definition psu_default :: State where
  "psu_default =
     \<lparr>psu_state = Detached, psu_consumer_capability = None, requested_provider_capability = None\<rparr>"

definition attach :: "(State, PsuError, unit) action" where
  "attach s =
     ((if psu_state s = Detached then Inr ()
       else Inl (InvalidState [KindDetached] (kind (psu_state s)))),
      s\<lparr>psu_state := Idle\<rparr>)"

definition detach :: "State \<Rightarrow> State" where
  "detach s = s\<lparr>psu_state := Detached, psu_consumer_capability := None,
                requested_provider_capability := None\<rparr>"

definition disconnect :: "bool \<Rightarrow> (State, PsuError, unit) action" where
  "disconnect clear_caps s =
     ((case psu_state s of
         Detached \<Rightarrow> Inl (InvalidState [KindConnectedConsumer, KindConnectedProvider, KindIdle]
                            (kind (psu_state s)))
       | _ \<Rightarrow> Inr ()),
      (let s' = s\<lparr>psu_state := Idle\<rparr>
       in if clear_caps
          then s'\<lparr>psu_consumer_capability := None, requested_provider_capability := None\<rparr>
          else s'))"

definition update_consumer_power_capability ::
  "ConsumerPowerCapability option \<Rightarrow> (State, PsuError, unit) action" where
  "update_consumer_power_capability cap s =
     ((case psu_state s of
         Detached \<Rightarrow> Inl (InvalidState [KindIdle, KindConnectedConsumer, KindConnectedProvider]
                            (kind (psu_state s)))
       | _ \<Rightarrow> Inr ()),
      s\<lparr>psu_consumer_capability := cap\<rparr>)"

definition update_requested_provider_power_capability ::
  "ProviderPowerCapability option \<Rightarrow> (State, PsuError, unit) action" where
  "update_requested_provider_power_capability cap s =
     (if requested_provider_capability s = cap then (Inr (), s)
      else
        ((case psu_state s of
            Detached \<Rightarrow> Inl (InvalidState [KindIdle, KindConnectedProvider, KindConnectedConsumer]
                               (kind (psu_state s)))
          | _ \<Rightarrow> Inr ()),
         s\<lparr>requested_provider_capability := cap\<rparr>))"

definition can_connect_consumer :: "State \<Rightarrow> (PsuError, unit) result" where
  "can_connect_consumer s =
     (case psu_state s of
        Idle \<Rightarrow> Inr ()
      | ConnectedConsumer _ \<Rightarrow> Inr ()
      | p \<Rightarrow> Inl (InvalidState [KindIdle, KindConnectedConsumer] (kind p)))"

definition connect_consumer :: "ConsumerPowerCapability \<Rightarrow> (State, PsuError, unit) action" where
  "connect_consumer cap s =
     (case can_connect_consumer s of
        Inl e \<Rightarrow> (Inl e, s)
      | Inr _ \<Rightarrow> (Inr (), s\<lparr>psu_state := ConnectedConsumer cap\<rparr>))"

definition can_connect_provider :: "State \<Rightarrow> (PsuError, unit) result" where
  "can_connect_provider s =
     (case psu_state s of
        Idle \<Rightarrow> Inr ()
      | ConnectedProvider _ \<Rightarrow> Inr ()
      | p \<Rightarrow> Inl (InvalidState [KindIdle, KindConnectedProvider] (kind p)))"

definition connect_provider :: "ProviderPowerCapability \<Rightarrow> (State, PsuError, unit) action" where
  "connect_provider cap s =
     (case can_connect_provider s of
        Inl e \<Rightarrow> (Inl e, s)
      | Inr _ \<Rightarrow> (Inr (), s\<lparr>psu_state := ConnectedProvider cap\<rparr>))"

definition connected_provider_capability :: "State \<Rightarrow> ProviderPowerCapability option" where
  "connected_provider_capability s =
     (case psu_state s of ConnectedProvider c \<Rightarrow> Some c | _ \<Rightarrow> None)"

text \<open>\<open>psu::event::EventData\<close>.\<close>

datatype PsuEventData =
    EvAttached
  | UpdatedConsumerCapability "ConsumerPowerCapability option"
  | RequestedProviderCapability "ProviderPowerCapability option"
  | EvDisconnected DisconnectFlags
  | EvDetached

lemmas psu_op_defs =
  attach_def detach_def disconnect_def update_consumer_power_capability_def
  update_requested_provider_power_capability_def can_connect_consumer_def connect_consumer_def
  can_connect_provider_def connect_provider_def connected_provider_capability_def Let_def

lemma connect_consumer_Inr:
  "connect_consumer c s = (Inr u, t) \<longleftrightarrow>
     can_connect_consumer s = Inr () \<and> t = s\<lparr>psu_state := ConnectedConsumer c\<rparr>"
  by (auto simp: connect_consumer_def split: sum.splits)

lemma connect_provider_Inr:
  "connect_provider c s = (Inr u, t) \<longleftrightarrow>
     can_connect_provider s = Inr () \<and> t = s\<lparr>psu_state := ConnectedProvider c\<rparr>"
  by (auto simp: connect_provider_def split: sum.splits)

lemma disconnect_fields [simp]:
  "psu_state (snd (disconnect b s)) = Idle"
  "psu_consumer_capability (snd (disconnect False s)) = psu_consumer_capability s"
  by (simp_all add: disconnect_def Let_def)

subsection \<open>The calls on a device state\<close>

datatype PsuCall =
    CallAttach
  | CallDetach
  | CallDisconnect bool
  | CallUpdateConsumer "ConsumerPowerCapability option"
  | CallUpdateProvider "ProviderPowerCapability option"
  | CallConnectConsumer ConsumerPowerCapability
  | CallConnectProvider ProviderPowerCapability

fun psu_call :: "PsuCall \<Rightarrow> (State, PsuError, unit) action" where
  "psu_call CallAttach = attach"
| "psu_call CallDetach = modify detach"
| "psu_call (CallDisconnect b) = disconnect b"
| "psu_call (CallUpdateConsumer c) = update_consumer_power_capability c"
| "psu_call (CallUpdateProvider c) = update_requested_provider_power_capability c"
| "psu_call (CallConnectConsumer c) = connect_consumer c"
| "psu_call (CallConnectProvider c) = connect_provider c"

text \<open>The edges of the device diagram in \<open>docs/power-policy.md\<close>, between state kinds, plus the
  self-loops the code accepts: a connected device can be connected again in the same role, and
  disconnecting an idle device is not an error.\<close>

inductive psu_edge :: "StateKind \<Rightarrow> PsuCall \<Rightarrow> StateKind \<Rightarrow> bool" where
  edge_attach: "psu_edge KindDetached CallAttach KindIdle"
| edge_detach: "psu_edge k CallDetach KindDetached"
| edge_consume: "k \<in> {KindIdle, KindConnectedConsumer} \<Longrightarrow>
    psu_edge k (CallConnectConsumer c) KindConnectedConsumer"
| edge_provide: "k \<in> {KindIdle, KindConnectedProvider} \<Longrightarrow>
    psu_edge k (CallConnectProvider p) KindConnectedProvider"
| edge_disconnect: "k \<noteq> KindDetached \<Longrightarrow> psu_edge k (CallDisconnect b) KindIdle"
| edge_update_consumer: "k \<noteq> KindDetached \<Longrightarrow> psu_edge k (CallUpdateConsumer c') k"
| edge_update_provider: "k \<noteq> KindDetached \<Longrightarrow> psu_edge k (CallUpdateProvider p') k"

inductive_simps psu_edge_simps [simp]:
  "psu_edge k CallAttach k'"
  "psu_edge k CallDetach k'"
  "psu_edge k (CallDisconnect b) k'"
  "psu_edge k (CallUpdateConsumer c) k'"
  "psu_edge k (CallUpdateProvider p) k'"
  "psu_edge k (CallConnectConsumer c) k'"
  "psu_edge k (CallConnectProvider p) k'"

lemma kind_simps [simp]:
  "kind p = KindIdle \<longleftrightarrow> p = Idle"
  "kind p = KindDetached \<longleftrightarrow> p = Detached"
  "kind p = KindConnectedProvider \<longleftrightarrow> (\<exists>c. p = ConnectedProvider c)"
  "kind p = KindConnectedConsumer \<longleftrightarrow> (\<exists>c. p = ConnectedConsumer c)"
  "KindIdle = kind p \<longleftrightarrow> p = Idle"
  "KindDetached = kind p \<longleftrightarrow> p = Detached"
  "KindConnectedProvider = kind p \<longleftrightarrow> (\<exists>c. p = ConnectedProvider c)"
  "KindConnectedConsumer = kind p \<longleftrightarrow> (\<exists>c. p = ConnectedConsumer c)"
  by (cases p; simp)+

text \<open>A call on a device's state succeeds exactly when the state diagram has an edge for it
  from the current state, with one exception: an update of the requested provider capability to
  the value already held succeeds in every state. When it succeeds the device enters the state the
  edge leads to; the capability a connected state carries is the one given in the call.\<close>

theorem psu_call_follows_diagram:
  fixes s :: State
  shows "(is_ok (fst (psu_call c s)) \<longleftrightarrow>
      (\<exists>k. psu_edge (kind (psu_state s)) c k) \<or> c = CallUpdateProvider (requested_provider_capability s))
    \<and> (\<forall>k. psu_edge (kind (psu_state s)) c k \<longrightarrow> kind (psu_state (snd (psu_call c s))) = k)
    \<and> (\<forall>cap. c = CallConnectConsumer cap \<and> is_ok (fst (psu_call c s)) \<longrightarrow>
         psu_state (snd (psu_call c s)) = ConnectedConsumer cap)
    \<and> (\<forall>cap. c = CallConnectProvider cap \<and> is_ok (fst (psu_call c s)) \<longrightarrow>
         psu_state (snd (psu_call c s)) = ConnectedProvider cap)"
  by (cases c; cases "psu_state s") (auto simp: psu_op_defs)

text \<open>Connecting an idle device as a 15 W consumer.\<close>

theorem psu_call_follows_diagram_witness:
  "let c = consumer_from_capability \<lparr>voltage_mv = 5000, current_ma = 3000\<rparr>
   in psu_state (snd (psu_call (CallConnectConsumer c) (psu_default\<lparr>psu_state := Idle\<rparr>))) = ConnectedConsumer c"
  using psu_call_follows_diagram [of "CallConnectConsumer (consumer_from_capability
      \<lparr>voltage_mv = 5000, current_ma = 3000\<rparr>)" "psu_default\<lparr>psu_state := Idle\<rparr>"]
  by (simp add: Let_def)

text \<open>What a failing call leaves behind. The documentation of \<open>psu::State\<close> says that the desired
  state is always entered; that holds for every method but the two connect methods, which leave
  the state as it was.\<close>

definition desired_state :: "PsuCall \<Rightarrow> PsuState \<Rightarrow> PsuState" where
  "desired_state c p =
     (case c of
        CallAttach \<Rightarrow> Idle
      | CallDetach \<Rightarrow> Detached
      | CallDisconnect _ \<Rightarrow> Idle
      | CallConnectConsumer cap \<Rightarrow> ConnectedConsumer cap
      | CallConnectProvider cap \<Rightarrow> ConnectedProvider cap
      | _ \<Rightarrow> p)"

text \<open>A failing call enters the desired state of the call all the same, unless it is a connect
  request: a refused connect request leaves the whole device state unchanged.\<close>

theorem psu_failed_call:
  fixes s :: State
  assumes "\<not> is_ok (fst (psu_call c s))"
  shows "(if (\<exists>cap. c = CallConnectConsumer cap) \<or> (\<exists>cap. c = CallConnectProvider cap)
          then snd (psu_call c s) = s \<and> psu_state s \<noteq> desired_state c (psu_state s)
          else psu_state (snd (psu_call c s)) = desired_state c (psu_state s))"
  using assms by (cases c; cases "psu_state s") (auto simp: psu_op_defs desired_state_def)

theorem psu_failed_call_witness:
  "snd (psu_call (CallConnectConsumer (consumer_from_capability \<lparr>voltage_mv = 5000, current_ma = 3000\<rparr>))
      psu_default) = psu_default"
  using psu_failed_call[of "CallConnectConsumer (consumer_from_capability
      \<lparr>voltage_mv = 5000, current_ma = 3000\<rparr>)" psu_default]
  by (simp add: psu_op_defs psu_default_def)

end
