(* ===== verification/Power_State.thy ===== *)
theory Power_State
  imports Psu
begin

text \<open>
  The data of the power policy service: \<open>power-policy-service/src/service/mod.rs\<close>,
  \<open>config.rs\<close>, \<open>registration.rs\<close> and the event types of
  \<open>power-policy-interface/src/service\<close>.

  Devices are known by their identity (the code compares references with \<open>ptr::eq\<close>), a natural
  number here. What the service reaches through the traits \<open>Psu\<close> and \<open>Charger\<close> is a
  parameter: \<open>drivers\<close> holds one function per trait method. A driver call acts on all the
  devices, so that a driver may have any hidden hardware state and any side effect; the laws a
  well-behaved driver obeys are the locale \<open>power_drivers\<close>. \<open>heapless::FnvIndexSet\<close> is a
  parameter in the same way, with its documented laws in the locale \<open>index_set\<close>.
\<close>

subsection \<open>Devices and drivers\<close>

type_synonym psu_id = nat
type_synonym charger_id = nat

record 'h devices =
  psus :: "psu_id \<Rightarrow> State"
  chargers :: "charger_id \<Rightarrow> ChargerState"
  hardware :: 'h

record 'h drivers =
  drv_disconnect :: "psu_id \<Rightarrow> ('h devices, PsuError, unit) action"
  drv_connect_provider ::
    "psu_id \<Rightarrow> ProviderPowerCapability \<Rightarrow> ('h devices, PsuError, unit) action"
  drv_connect_consumer ::
    "psu_id \<Rightarrow> ConsumerPowerCapability \<Rightarrow> ('h devices, PsuError, unit) action"
  chg_is_ready :: "charger_id \<Rightarrow> ('h devices, ChargerError, unit) action"
  chg_init_charger :: "charger_id \<Rightarrow> ('h devices, ChargerError, ChargerPsuState) action"
  chg_attach_handler ::
    "charger_id \<Rightarrow> ConsumerPowerCapability \<Rightarrow> ('h devices, ChargerError, unit) action"
  chg_detach_handler :: "charger_id \<Rightarrow> ('h devices, ChargerError, unit) action"

record 'set set_ops =
  set_new :: 'set
  set_insert :: "nat \<Rightarrow> 'set \<Rightarrow> bool \<times> 'set"   \<comment> \<open>False: the set is full\<close>
  set_remove :: "nat \<Rightarrow> 'set \<Rightarrow> bool \<times> 'set"   \<comment> \<open>True: the value was present\<close>

subsection \<open>Service data\<close>

record Config =
  limited_power_threshold_mw :: u32
  provider_unlimited :: PowerCapability
  provider_limited :: PowerCapability
  min_consumer_threshold_mw :: "u32 option"

definition config_default :: Config where
  "config_default =
     \<lparr>limited_power_threshold_mw = 15000,
      provider_unlimited = \<lparr>voltage_mv = 5000, current_ma = 3000\<rparr>,
      provider_limited = \<lparr>voltage_mv = 5000, current_ma = 1500\<rparr>,
      min_consumer_threshold_mw = None\<rparr>"

record AvailableConsumer =
  consumer_psu :: psu_id
  consumer_power_capability :: ConsumerPowerCapability

datatype PowerState = Unlimited | Limited

record UnconstrainedState =
  unconstrained :: bool
  available :: nat

definition unconstrained_default :: UnconstrainedState where
  "unconstrained_default = \<lparr>unconstrained = False, available = 0\<rparr>"

datatype ServiceEvent =
    ConsumerDisconnected psu_id DisconnectFlags
  | ConsumerConnected psu_id ConsumerPowerCapability
  | ProviderDisconnected psu_id
  | ProviderConnected psu_id ProviderPowerCapability
  | UnconstrainedChanged UnconstrainedState

record Registration =
  reg_psus :: "psu_id list"
  reg_chargers :: "charger_id list"

text \<open>The service with the devices it drives. \<open>broadcasts\<close> lists what was sent to the registered
  notifiers, oldest first; every notifier is sent every event, and an error a notifier returns is
  only logged.\<close>

record ('h, 'set) Service =
  devs :: "'h devices"
  registration :: Registration
  config :: Config
  current_consumer_state :: "AvailableConsumer option"
  current_provider_state :: PowerState
  unconstrained_state :: UnconstrainedState
  connected_providers :: 'set
  broadcasts :: "ServiceEvent list"

definition new_service :: "'set set_ops \<Rightarrow> Registration \<Rightarrow> Config \<Rightarrow> 'h devices \<Rightarrow> ('h, 'set) Service" where
  "new_service ops reg cfg d =
     \<lparr>devs = d, registration = reg, config = cfg, current_consumer_state = None,
      current_provider_state = Unlimited, unconstrained_state = unconstrained_default,
      connected_providers = set_new ops, broadcasts = []\<rparr>"

subsection \<open>Reading and calling the devices\<close>

abbreviation psu_of :: "('h, 'set) Service \<Rightarrow> psu_id \<Rightarrow> State" where
  "psu_of s p \<equiv> psus (devs s) p"

abbreviation charger_of :: "('h, 'set) Service \<Rightarrow> charger_id \<Rightarrow> ChargerState" where
  "charger_of s c \<equiv> chargers (devs s) c"

definition psu_do ::
  "('h devices, PsuError, 'a) action \<Rightarrow> (('h, 'set) Service, PsuError, 'a) action" where
  "psu_do m s = (case m (devs s) of (r, d) \<Rightarrow> (r, s\<lparr>devs := d\<rparr>))"

text \<open>\<open>map_err(|e| Error::Charger(e.into()))\<close>.\<close>

definition charger_do ::
  "('h devices, ChargerError, 'a) action \<Rightarrow> (('h, 'set) Service, PsuError, 'a) action" where
  "charger_do m s =
     (case m (devs s) of
        (Inl e, d) \<Rightarrow> (Inl (ChargerErr e), s\<lparr>devs := d\<rparr>)
      | (Inr a, d) \<Rightarrow> (Inr a, s\<lparr>devs := d\<rparr>))"

definition broadcast :: "ServiceEvent \<Rightarrow> (('h, 'set) Service, PsuError, unit) action" where
  "broadcast ev = modify (\<lambda>s. s\<lparr>broadcasts := broadcasts s @ [ev]\<rparr>)"

lemma broadcast_apply [simp]: "broadcast ev s = (Inr (), s\<lparr>broadcasts := broadcasts s @ [ev]\<rparr>)"
  by (simp add: broadcast_def)

lemma snd_psu_do [simp]: "snd (psu_do m s) = s\<lparr>devs := snd (m (devs s))\<rparr>"
  by (simp add: psu_do_def split: prod.split)

lemma snd_charger_do [simp]: "snd (charger_do m s) = s\<lparr>devs := snd (m (devs s))\<rparr>"
  by (auto simp: charger_do_def split: prod.split sum.split)

lemma keeps_psu_do [keeps_intros]:
  "(\<And>s. P s \<Longrightarrow> P (s\<lparr>devs := snd (m (devs s))\<rparr>)) \<Longrightarrow> keeps P (psu_do m)"
  by (simp add: keeps_def)

lemma keeps_charger_do [keeps_intros]:
  "(\<And>s. P s \<Longrightarrow> P (s\<lparr>devs := snd (m (devs s))\<rparr>)) \<Longrightarrow> keeps P (charger_do m)"
  by (simp add: keeps_def)

lemma keeps_broadcast [keeps_intros]:
  assumes "\<And>s. P s \<Longrightarrow> P (s\<lparr>broadcasts := broadcasts s @ [ev]\<rparr>)"
  shows "keeps P (broadcast ev)"
  unfolding broadcast_def by (rule keeps_modify) (rule assms)

subsection \<open>Total power provided\<close>

definition provider_power :: "State \<Rightarrow> u32" where
  "provider_power st =
     (case connected_provider_capability st of
        None \<Rightarrow> 0 | Some cap \<Rightarrow> max_power_mw (provider_capability cap))"

definition compute_total_provider_power_mw :: "('h, 'set) Service \<Rightarrow> u32" where
  "compute_total_provider_power_mw s =
     fold (\<lambda>p total. total + provider_power (psu_of s p)) (reg_psus (registration s)) 0"

text \<open>A sum of powers does not wrap while there are at most 1000 summands.\<close>

lemma unat_fold_power:
  fixes f :: "'p \<Rightarrow> u32"
  assumes "\<And>p. unat (f p) \<le> 4294836"
    and "unat t + 4294836 * length ps < 2 ^ 32"
  shows "unat (fold (\<lambda>p total. total + f p) ps t) = unat t + (\<Sum>p\<leftarrow>ps. unat (f p))"
  using assms(2)
proof (induction ps arbitrary: t)
  case Nil
  then show ?case by simp
next
  case (Cons p ps)
  have le: "unat (f p) \<le> 4294836" by (rule assms(1))
  have "unat (t + f p) = unat t + unat (f p)"
    using Cons.prems le by (simp add: unat_word_ariths)
  with Cons.IH[of "t + f p"] Cons.prems le show ?case by simp
qed

lemma provider_power_bound: "unat (provider_power st) \<le> 4294836"
  by (auto simp: provider_power_def max_power_mw_bound split: option.splits)

subsection \<open>Contracts of the parameters\<close>

text \<open>What the service relies on from a driver: it touches no other device; a successful call has
  the effect of the corresponding method of \<open>psu::State\<close>; a failed connect leaves the device as it
  was; a failed disconnect leaves the device as it was or idle; charger calls do not touch PSUs.\<close>

locale power_drivers =
  fixes drv :: "'h drivers"
  assumes disconnect_frame:
      "drv_disconnect drv p d = (r, d') \<Longrightarrow> q \<noteq> p \<Longrightarrow> psus d' q = psus d q"
    and disconnect_ok:
      "drv_disconnect drv p d = (Inr u, d') \<Longrightarrow> psus d' p = snd (disconnect False (psus d p))"
    and disconnect_err:
      "drv_disconnect drv p d = (Inl e, d') \<Longrightarrow>
         psus d' p = psus d p \<or> psus d' p = (psus d p)\<lparr>psu_state := Idle\<rparr>"
    and consumer_frame:
      "drv_connect_consumer drv p c d = (r, d') \<Longrightarrow> q \<noteq> p \<Longrightarrow> psus d' q = psus d q"
    and consumer_ok:
      "drv_connect_consumer drv p c d = (Inr u, d') \<Longrightarrow>
         connect_consumer c (psus d p) = (Inr (), psus d' p)"
    and consumer_err:
      "drv_connect_consumer drv p c d = (Inl e, d') \<Longrightarrow> psus d' p = psus d p"
    and provider_frame:
      "drv_connect_provider drv p c' d = (r, d') \<Longrightarrow> q \<noteq> p \<Longrightarrow> psus d' q = psus d q"
    and provider_ok:
      "drv_connect_provider drv p c' d = (Inr u, d') \<Longrightarrow>
         connect_provider c' (psus d p) = (Inr (), psus d' p)"
    and provider_err:
      "drv_connect_provider drv p c' d = (Inl e, d') \<Longrightarrow> psus d' p = psus d p"
    and charger_frame:
      "psus (snd (chg_is_ready drv k d)) = psus d"
      "psus (snd (chg_init_charger drv k d)) = psus d"
      "psus (snd (chg_attach_handler drv k c d)) = psus d"
      "psus (snd (chg_detach_handler drv k d)) = psus d"

text \<open>A fixed-capacity set of numbers.\<close>

locale index_set =
  fixes ops :: "'set set_ops" and elems :: "'set \<Rightarrow> nat set" and capacity :: nat
  assumes elems_new: "elems (set_new ops) = {}"
    and elems_insert:
      "elems (snd (set_insert ops x a)) =
         (if x \<in> elems a \<or> card (elems a) < capacity then insert x (elems a) else elems a)"
    and insert_result:
      "fst (set_insert ops x a) \<longleftrightarrow> x \<in> elems a \<or> card (elems a) < capacity"
    and elems_remove: "elems (snd (set_remove ops x a)) = elems a - {x}"
    and remove_result: "fst (set_remove ops x a) \<longleftrightarrow> x \<in> elems a"
begin

lemma insert_full:
  "card (elems a) = capacity \<Longrightarrow> x \<notin> elems a \<Longrightarrow>
     \<not> fst (set_insert ops x a) \<and> elems (snd (set_insert ops x a)) = elems a"
  by (simp add: elems_insert insert_result)

end

text \<open>The set as a list without duplicates, an instance of the contract.\<close>

definition list_set_ops :: "nat \<Rightarrow> nat list set_ops" where
  "list_set_ops n =
     \<lparr>set_new = [],
      set_insert = (\<lambda>x xs. if x \<in> set xs then (True, xs)
                           else if length (remdups xs) < n then (True, xs @ [x]) else (False, xs)),
      set_remove = (\<lambda>x xs. (x \<in> set xs, removeAll x xs))\<rparr>"

interpretation list_set: index_set "list_set_ops n" set n
  by unfold_locales (auto simp: list_set_ops_def length_remdups_card_conv)

end
