(* ===== verification/Power_Selection.thy ===== *)
theory Power_Selection
  imports Power_State
begin

text \<open>
  The choice of the best consumer: \<open>find_best_consumer_default\<close> and
  \<open>cmp_consumer_capability_default\<close> of \<open>power-policy-service/src/service/consumer.rs\<close> and the hook
  of \<open>customization.rs\<close>. The loop takes any comparison, as the code does; what a comparison must
  be for the loop to find a maximum is the locale \<open>consumer_comparison\<close>.
\<close>

subsection \<open>Choosing the best consumer\<close>

type_synonym consumer_cmp =
  "ConsumerPowerCapability \<Rightarrow> bool \<Rightarrow> ConsumerPowerCapability \<Rightarrow> bool \<Rightarrow> ordering"

definition cmp_consumer_capability_default :: consumer_cmp where
  "cmp_consumer_capability_default a a_is_current b b_is_current =
     ordering_then (cmp_capability (consumer_capability a) (consumer_capability b))
       (cmp_bool a_is_current b_is_current)"

text \<open>Below the configured minimum a consumer is not considered.\<close>

definition below_threshold :: "Config \<Rightarrow> ConsumerPowerCapability option \<Rightarrow> bool" where
  "below_threshold cfg cap =
     (case (cap, min_consumer_threshold_mw cfg) of
        (Some c, Some m) \<Rightarrow> max_power_mw (consumer_capability c) < m
      | _ \<Rightarrow> False)"

fun find_best_loop ::
  "Config \<Rightarrow> (psu_id \<Rightarrow> State) \<Rightarrow> psu_id option \<Rightarrow> consumer_cmp \<Rightarrow> AvailableConsumer option
     \<Rightarrow> psu_id list \<Rightarrow> AvailableConsumer option" where
  "find_best_loop cfg st current cmp best [] = best"
| "find_best_loop cfg st current cmp best (p # ps) =
     (let cap = psu_consumer_capability (st p)
      in if below_threshold cfg cap then find_best_loop cfg st current cmp best ps
         else find_best_loop cfg st current cmp
           (case (best, cap) of
              (None, None) \<Rightarrow> None
            | (None, Some c) \<Rightarrow> Some \<lparr>consumer_psu = p, consumer_power_capability = c\<rparr>
            | (Some _, None) \<Rightarrow> best
            | (Some b, Some c) \<Rightarrow>
                if cmp c (current = Some p) (consumer_power_capability b)
                     (current = Some (consumer_psu b)) = Greater
                then Some \<lparr>consumer_psu = p, consumer_power_capability = c\<rparr>
                else best) ps)"

definition find_best_consumer_default ::
  "consumer_cmp \<Rightarrow> ('h, 'set) Service \<Rightarrow> AvailableConsumer option" where
  "find_best_consumer_default cmp s =
     find_best_loop (config s) (psus (devs s)) (map_option consumer_psu (current_consumer_state s))
       cmp None (reg_psus (registration s))"

text \<open>\<open>Customization::find_best_consumer\<close>, the hook a platform may override; its default.\<close>

type_synonym ('h, 'set) customization =
  "('h, 'set) Service \<Rightarrow> (PsuError, AvailableConsumer option) result"

definition default_customization :: "('h, 'set) customization" where
  "default_customization s = Inr (find_best_consumer_default cmp_consumer_capability_default s)"

subsection \<open>The loop finds the first maximum\<close>

text \<open>The consumers the loop considers, in registration order.\<close>

definition candidate :: "Config \<Rightarrow> (psu_id \<Rightarrow> State) \<Rightarrow> psu_id \<Rightarrow> AvailableConsumer list" where
  "candidate cfg st p =
     (case psu_consumer_capability (st p) of
        None \<Rightarrow> []
      | Some c \<Rightarrow> if below_threshold cfg (Some c) then []
                  else [\<lparr>consumer_psu = p, consumer_power_capability = c\<rparr>])"

definition candidates :: "Config \<Rightarrow> (psu_id \<Rightarrow> State) \<Rightarrow> psu_id list \<Rightarrow> AvailableConsumer list" where
  "candidates cfg st ps = concat (map (candidate cfg st) ps)"

lemma below_threshold_None [simp]: "\<not> below_threshold cfg None"
  by (simp add: below_threshold_def split: option.splits)

lemma mem_candidates:
  "c \<in> set (candidates cfg st ps) \<longleftrightarrow>
     consumer_psu c \<in> set ps
     \<and> psu_consumer_capability (st (consumer_psu c)) = Some (consumer_power_capability c)
     \<and> \<not> below_threshold cfg (Some (consumer_power_capability c))"
  by (cases c) (force simp: candidates_def candidate_def split: option.splits if_splits)

definition pick :: "('c \<Rightarrow> nat) \<Rightarrow> 'c \<Rightarrow> 'c option \<Rightarrow> 'c option" where
  "pick R c best =
     (case best of None \<Rightarrow> Some c | Some b \<Rightarrow> if R b < R c then Some c else Some b)"

definition first_max :: "('c \<Rightarrow> nat) \<Rightarrow> 'c list \<Rightarrow> 'c \<Rightarrow> bool" where
  "first_max R cs m \<longleftrightarrow> (\<exists>pre post. cs = pre @ m # post
     \<and> (\<forall>c \<in> set pre. R c < R m) \<and> (\<forall>c \<in> set post. R c \<le> R m))"

lemma first_maxI:
  "cs = pre @ m # post \<Longrightarrow> (\<And>c. c \<in> set pre \<Longrightarrow> R c < R m) \<Longrightarrow> (\<And>c. c \<in> set post \<Longrightarrow> R c \<le> R m)
     \<Longrightarrow> first_max R cs m"
  by (auto simp: first_max_def)

lemma first_max_mem: "first_max R cs m \<Longrightarrow> m \<in> set cs"
  by (auto simp: first_max_def)

lemma first_max_ge: "first_max R cs m \<Longrightarrow> c \<in> set cs \<Longrightarrow> R c \<le> R m"
  by (force simp: first_max_def)

lemma first_max_snoc:
  assumes "first_max R cs m"
  shows "first_max R (cs @ [c]) (if R m < R c then c else m)"
proof (cases "R m < R c")
  case True
  then have "x \<in> set cs \<Longrightarrow> R x < R c" for x
    using first_max_ge[OF assms, of x] by simp
  with True show ?thesis by (auto intro: first_maxI[of _ cs c "[]"])
next
  case False
  obtain pre post where "cs = pre @ m # post" "\<forall>c \<in> set pre. R c < R m" "\<forall>c \<in> set post. R c \<le> R m"
    using assms by (auto simp: first_max_def)
  with False show ?thesis
    by (auto intro!: first_maxI[of _ pre m "post @ [c]"])
qed

lemma fold_pick_None_iff: "fold (pick R) cs None = None \<longleftrightarrow> cs = []"
  by (cases cs rule: rev_cases) (auto simp: pick_def split: option.splits)

lemma fold_pick_first_max: "fold (pick R) cs None = Some m \<Longrightarrow> first_max R cs m"
proof (induction cs arbitrary: m rule: rev_induct)
  case Nil
  then show ?case by simp
next
  case (snoc c cs)
  show ?case
  proof (cases "fold (pick R) cs None")
    case None
    then have "cs = []" by (simp add: fold_pick_None_iff)
    with snoc.prems show ?thesis
      by (auto simp: pick_def intro: first_maxI[of _ "[]" _ "[]"])
  next
    case (Some b)
    then have "first_max R (cs @ [c]) (if R b < R c then c else b)"
      by (intro first_max_snoc snoc.IH)
    moreover have "m = (if R b < R c then c else b)"
      using snoc.prems by (simp add: Some) (simp add: pick_def split: if_splits)
    ultimately show ?thesis by simp
  qed
qed

text \<open>A comparison that orders (capability, is-current) pairs by a rank.\<close>

locale consumer_comparison =
  fixes cmp :: consumer_cmp and rank :: "ConsumerPowerCapability \<Rightarrow> bool \<Rightarrow> nat"
  assumes cmp_Greater: "cmp a ac b bc = Greater \<longleftrightarrow> rank b bc < rank a ac"
begin

definition consumer_rank :: "psu_id option \<Rightarrow> AvailableConsumer \<Rightarrow> nat" where
  "consumer_rank current c = rank (consumer_power_capability c) (current = Some (consumer_psu c))"

lemma find_best_loop_fold:
  "find_best_loop cfg st current cmp best ps
     = fold (pick (consumer_rank current)) (candidates cfg st ps) best"
  by (induction ps arbitrary: best)
    (auto simp: candidates_def candidate_def pick_def consumer_rank_def cmp_Greater Let_def
      split: option.splits)

lemma find_best_None_iff:
  "find_best_loop cfg st current cmp None ps = None \<longleftrightarrow> candidates cfg st ps = []"
  by (simp add: find_best_loop_fold fold_pick_None_iff)

lemma find_best_first_max:
  "find_best_loop cfg st current cmp None ps = Some b
     \<Longrightarrow> first_max (consumer_rank current) (candidates cfg st ps) b"
  by (simp add: find_best_loop_fold fold_pick_first_max)

end

text \<open>The default comparison ranks by power first; at equal power the current consumer wins.\<close>

definition default_rank :: "ConsumerPowerCapability \<Rightarrow> bool \<Rightarrow> nat" where
  "default_rank c is_current =
     2 * unat (max_power_mw (consumer_capability c)) + (if is_current then 1 else 0)"

interpretation default_cmp: consumer_comparison cmp_consumer_capability_default default_rank
proof unfold_locales
  fix a b :: ConsumerPowerCapability and ac bc :: bool
  show "cmp_consumer_capability_default a ac b bc = Greater \<longleftrightarrow> default_rank b bc < default_rank a ac"
    by (auto simp: cmp_consumer_capability_default_def default_rank_def cmp_bool_def
        cmp_capability_def cmp_word_def word_less_nat_alt linorder_neq_iff[of "max_power_mw _"])
qed

definition consumer_preference :: "('h, 'set) Service \<Rightarrow> AvailableConsumer \<Rightarrow> nat" where
  "consumer_preference s c = default_rank (consumer_power_capability c)
     (map_option consumer_psu (current_consumer_state s) = Some (consumer_psu c))"

text \<open>C10. The default selection returns nothing exactly when no registered device offers a
  consumer capability at or above the configured minimum. Otherwise it returns an offered
  capability of maximal power; at equal power the current consumer is preferred, and between
  devices that are equal in both the one registered first is chosen.\<close>

theorem best_consumer_is_first_maximum:
  "case find_best_consumer_default cmp_consumer_capability_default s of
      None \<Rightarrow> candidates (config s) (psus (devs s)) (reg_psus (registration s)) = []
    | Some b \<Rightarrow> first_max (consumer_preference s)
        (candidates (config s) (psus (devs s)) (reg_psus (registration s))) b"
  unfolding find_best_consumer_default_def consumer_preference_def [abs_def]
  by (auto simp: default_cmp.find_best_None_iff
      dest!: default_cmp.find_best_first_max
      simp: default_cmp.consumer_rank_def [abs_def] split: option.split)

end
