(* ===== verification/Power_Consumer.thy ===== *)
theory Power_Consumer
  imports Power_Selection
begin

text \<open>
  The consumer side of the power policy: \<open>power-policy-service/src/service/consumer.rs\<close>. The switch from one consumer to another (disconnect,
  charger notifications, broadcasts, connect) and the unconstrained-power state, each step in the
  order of the code; every early return of a question mark is an \<open>Inl\<close> result that keeps the
  state reached so far.
\<close>

subsection \<open>Unconstrained power\<close>

definition is_unconstrained :: "State \<Rightarrow> bool" where
  "is_unconstrained st =
     (case psu_consumer_capability st of
        None \<Rightarrow> False | Some c \<Rightarrow> unconstrained_power (consumer_flags c))"

definition compute_unconstrained :: "('h, 'set) Service \<Rightarrow> UnconstrainedState" where
  "compute_unconstrained s =
     \<lparr>unconstrained =
        (case current_consumer_state s of
           None \<Rightarrow> False
         | Some c \<Rightarrow> unconstrained_power (consumer_flags (consumer_power_capability c))),
      available = fold (\<lambda>p n. if is_unconstrained (psu_of s p) then n + 1 else n)
        (reg_psus (registration s)) 0\<rparr>"

definition update_unconstrained_state :: "(('h, 'set) Service, PsuError, unit) action" where
  "update_unconstrained_state s =
     (let new = compute_unconstrained s
      in if new \<noteq> unconstrained_state s
         then broadcast (UnconstrainedChanged new) (s\<lparr>unconstrained_state := new\<rparr>)
         else (Inr (), s))"

subsection \<open>Switching consumers\<close>

definition attach_charger ::
  "'h drivers \<Rightarrow> ConsumerPowerCapability \<Rightarrow> charger_id \<Rightarrow> (('h, 'set) Service, PsuError, unit) action" where
  "attach_charger drv cap k =
     and_then
       (\<lambda>s. if is_unpowered (charger_of s k)
            then and_then (charger_do (chg_is_ready drv k))
                   (\<lambda>_. and_then (charger_do (chg_init_charger drv k)) (\<lambda>_. ok ())) s
            else (Inr (), s))
       (\<lambda>_. charger_do (chg_attach_handler drv k cap))"

definition post_consumer_connected ::
  "'h drivers \<Rightarrow> AvailableConsumer \<Rightarrow> (('h, 'set) Service, PsuError, unit) action" where
  "post_consumer_connected drv c =
     and_then (modify (\<lambda>s. s\<lparr>current_consumer_state := Some c\<rparr>)) (\<lambda>_.
     and_then (\<lambda>s. for_each (attach_charger drv (consumer_power_capability c))
         (reg_chargers (registration s)) s) (\<lambda>_.
     broadcast (ConsumerConnected (consumer_psu c) (consumer_power_capability c))))"

definition detach_charger :: "'h drivers \<Rightarrow> charger_id \<Rightarrow> (('h, 'set) Service, PsuError, unit) action" where
  "detach_charger drv k s =
     (if \<not> is_unpowered (charger_of s k) then charger_do (chg_detach_handler drv k) s else (Inr (), s))"

definition disconnect_chargers :: "'h drivers \<Rightarrow> (('h, 'set) Service, PsuError, unit) action" where
  "disconnect_chargers drv s = for_each (detach_charger drv) (reg_chargers (registration s)) s"

definition disconnect_if_consuming ::
  "'h drivers \<Rightarrow> psu_id \<Rightarrow> (('h, 'set) Service, PsuError, unit) action" where
  "disconnect_if_consuming drv p s =
     (case psu_state (psu_of s p) of
        ConnectedConsumer _ \<Rightarrow> psu_do (drv_disconnect drv p) s
      | _ \<Rightarrow> (Inr (), s))"

definition switch_reason :: "psu_id \<Rightarrow> psu_id \<Rightarrow> DisconnectFlags \<Rightarrow> DisconnectReason" where
  "switch_reason current_psu new_psu flags =
     (if current_psu = new_psu then AutoRenegotiation
      else case reason flags of Some r \<Rightarrow> r | None \<Rightarrow> Switching)"

text \<open>The first half of \<open>connect_new_consumer\<close>: tear down the current consumer.\<close>

definition release_current_consumer ::
  "'h drivers \<Rightarrow> AvailableConsumer \<Rightarrow> AvailableConsumer \<Rightarrow> DisconnectFlags
     \<Rightarrow> (('h, 'set) Service, PsuError, unit) action" where
  "release_current_consumer drv cur new flags =
     and_then (modify (\<lambda>s. s\<lparr>current_consumer_state := None\<rparr>)) (\<lambda>_.
     and_then (disconnect_if_consuming drv (consumer_psu cur)) (\<lambda>_.
     and_then (disconnect_chargers drv) (\<lambda>_.
     broadcast (ConsumerDisconnected (consumer_psu cur)
       \<lparr>reason = Some (switch_reason (consumer_psu cur) (consumer_psu new) flags)\<rparr>))))"

text \<open>The second half: connect the new consumer if its device can be.\<close>

definition connect_available_consumer ::
  "'h drivers \<Rightarrow> AvailableConsumer \<Rightarrow> (('h, 'set) Service, PsuError, unit) action" where
  "connect_available_consumer drv new s =
     (case can_connect_consumer (psu_of s (consumer_psu new)) of
        Inl e \<Rightarrow> (Inl e, s)
      | Inr _ \<Rightarrow>
          and_then (psu_do (drv_connect_consumer drv (consumer_psu new) (consumer_power_capability new)))
            (\<lambda>_. post_consumer_connected drv new) s)"

definition connect_new_consumer ::
  "'h drivers \<Rightarrow> AvailableConsumer \<Rightarrow> DisconnectFlags \<Rightarrow> (('h, 'set) Service, PsuError, unit) action" where
  "connect_new_consumer drv new flags s =
     (case current_consumer_state s of
        None \<Rightarrow> connect_available_consumer drv new s
      | Some cur \<Rightarrow>
          if cur = new then (Inr (), s)
          else and_then (release_current_consumer drv cur new flags)
                 (\<lambda>_. connect_available_consumer drv new) s)"

definition drop_current_consumer ::
  "'h drivers \<Rightarrow> DisconnectFlags \<Rightarrow> (('h, 'set) Service, PsuError, unit) action" where
  "drop_current_consumer drv flags s =
     and_then
       (case current_consumer_state s of
          None \<Rightarrow> ok ()
        | Some cur \<Rightarrow> and_then (disconnect_chargers drv)
            (\<lambda>_. broadcast (ConsumerDisconnected (consumer_psu cur) flags)))
       (\<lambda>_. modify (\<lambda>s. s\<lparr>current_consumer_state := None\<rparr>)) s"

definition update_current_consumer ::
  "'h drivers \<Rightarrow> ('h, 'set) customization \<Rightarrow> DisconnectFlags \<Rightarrow> (('h, 'set) Service, PsuError, unit) action" where
  "update_current_consumer drv cust flags s =
     (case cust s of
        Inl e \<Rightarrow> (Inl e, s)
      | Inr best \<Rightarrow>
          and_then
            (case best of
               Some b \<Rightarrow> connect_new_consumer drv b flags
             | None \<Rightarrow> drop_current_consumer drv flags)
            (\<lambda>_. update_unconstrained_state) s)"

lemmas consumer_defs =
  update_current_consumer_def drop_current_consumer_def connect_new_consumer_def
  connect_available_consumer_def release_current_consumer_def disconnect_if_consuming_def
  disconnect_chargers_def detach_charger_def post_consumer_connected_def attach_charger_def

subsection \<open>What every consumer operation leaves alone\<close>

definition same_setup :: "Registration \<Rightarrow> Config \<Rightarrow> ('h, 'set) Service \<Rightarrow> bool" where
  "same_setup r g s \<longleftrightarrow> registration s = r \<and> config s = g"

text \<open>A property of the service that no device change affects is kept by every driver call.\<close>

definition dev_free :: "(('h, 'set) Service \<Rightarrow> bool) \<Rightarrow> bool" where
  "dev_free P \<longleftrightarrow> (\<forall>s d. P (s\<lparr>devs := d\<rparr>) = P s)"

lemma keeps_disconnect_if_consuming:
  assumes "keeps P (psu_do (drv_disconnect drv p))"
  shows "keeps P (disconnect_if_consuming drv p)"
  using assms by (auto simp: keeps_def disconnect_if_consuming_def split: PsuState.split)

lemma keeps_attach_charger:
  assumes "\<And>k. keeps P (charger_do (chg_is_ready drv k))"
    and "\<And>k. keeps P (charger_do (chg_init_charger drv k))"
    and "\<And>k c. keeps P (charger_do (chg_attach_handler drv k c))"
  shows "keeps P (attach_charger drv cap k)"
proof -
  let ?ready = "and_then (charger_do (chg_is_ready drv k))
    (\<lambda>_. and_then (charger_do (chg_init_charger drv k)) (\<lambda>_. ok ()))"
  have ready: "keeps P ?ready" by (intro keeps_intros assms)
  have "keeps P (\<lambda>s. if is_unpowered (charger_of s k) then ?ready s else (Inr (), s))"
    using ready by (simp add: keeps_def)
  then show ?thesis
    unfolding attach_charger_def by (rule keeps_and_then) (rule assms)
qed

lemma keeps_disconnect_chargers:
  assumes "\<And>k. keeps P (charger_do (chg_detach_handler drv k))"
  shows "keeps P (disconnect_chargers drv)"
proof -
  have "keeps P (detach_charger drv k)" for k
    using assms[of k] by (simp add: keeps_def detach_charger_def)
  then have "keeps P (for_each (detach_charger drv) ks)" for ks
    by (intro keeps_intros)
  then show ?thesis by (simp add: keeps_def disconnect_chargers_def)
qed

lemma keeps_attach_chargers:
  assumes "\<And>k. keeps P (attach_charger drv cap k)"
  shows "keeps P (\<lambda>s. for_each (attach_charger drv cap) (reg_chargers (registration s)) s)"
proof -
  have "keeps P (for_each (attach_charger drv cap) ks)" for ks
    by (intro keeps_intros assms)
  then show ?thesis by (simp add: keeps_def)
qed

lemma dev_free_keeps:
  assumes "dev_free P"
  shows "keeps P (psu_do m)" and "keeps P (charger_do n)"
  using assms by (auto simp: dev_free_def intro!: keeps_intros)

lemma dev_free_keeps_chargers:
  assumes "dev_free P"
  shows "keeps P (disconnect_chargers drv)" and "keeps P (attach_charger drv cap k)"
  by (rule keeps_disconnect_chargers keeps_attach_charger; rule dev_free_keeps [OF assms])+

end
