(* ===== verification/Power_Consumer_Props.thy ===== *)
theory Power_Consumer_Props
  imports Power_Consumer
begin

text \<open>
  What the consumer side of the power policy guarantees: the broadcasts let a listener reconstruct
  the current consumer, the unconstrained state is kept up to date and announced, and, for drivers
  that obey their contract, every device that consumes power is the one the service tracks.
\<close>

subsection \<open>The announced consumer\<close>

text \<open>A listener's view of the consumer events: connect and disconnect alternate, and a disconnect
  names the device that was connected. \<open>None\<close> marks a broken alternation.\<close>

fun hear :: "ServiceEvent \<Rightarrow> AvailableConsumer option option \<Rightarrow> AvailableConsumer option option" where
  "hear (ConsumerConnected p c) (Some None) =
     Some (Some \<lparr>consumer_psu = p, consumer_power_capability = c\<rparr>)"
| "hear (ConsumerConnected p c) (Some (Some _)) = None"
| "hear (ConsumerDisconnected p f) (Some (Some a)) = (if p = consumer_psu a then Some None else None)"
| "hear (ConsumerDisconnected p f) (Some None) = None"
| "hear _ v = v"

definition heard :: "ServiceEvent list \<Rightarrow> AvailableConsumer option option" where
  "heard evs = fold hear evs (Some None)"

lemma heard_Nil [simp]: "heard [] = Some None"
  by (simp add: heard_def)

lemma heard_snoc [simp]: "heard (evs @ [e]) = hear e (heard evs)"
  by (simp add: heard_def)

definition announced :: "('h, 'set) Service \<Rightarrow> bool" where
  "announced s \<longleftrightarrow> heard (broadcasts s) = Some (current_consumer_state s)"

text \<open>The tracked and the announced consumer, separately, for the intermediate states.\<close>

definition tracks_heard ::
  "AvailableConsumer option \<Rightarrow> AvailableConsumer option \<Rightarrow> ('h, 'set) Service \<Rightarrow> bool" where
  "tracks_heard a b s \<longleftrightarrow> current_consumer_state s = a \<and> heard (broadcasts s) = Some b"

lemma announced_iff: "announced s \<longleftrightarrow> tracks_heard (current_consumer_state s) (current_consumer_state s) s"
  by (auto simp: announced_def tracks_heard_def)

lemma dev_free_tracks_heard: "dev_free (tracks_heard a b)"
  by (simp add: dev_free_def tracks_heard_def)

lemma triple_dev_free:
  assumes "dev_free P"
  shows "triple P (psu_do m) (\<lambda>_. P) (\<lambda>_. True)" and "triple P (disconnect_if_consuming drv p) (\<lambda>_. P) (\<lambda>_. True)"
    and "triple P (disconnect_chargers drv) (\<lambda>_. P) (\<lambda>_. True)"
    and "triple P (\<lambda>s. for_each (attach_charger drv cap) (reg_chargers (registration s)) s) (\<lambda>_. P) (\<lambda>_. True)"
  by (rule triple_keeps dev_free_keeps keeps_disconnect_if_consuming dev_free_keeps_chargers
      keeps_attach_chargers assms TrueI)+

lemma triple_broadcast:
  "(\<And>s. P s \<Longrightarrow> Q (s\<lparr>broadcasts := broadcasts s @ [ev]\<rparr>)) \<Longrightarrow> triple P (broadcast ev) (\<lambda>_. Q) E"
  by (simp add: triple_def)

lemma release_heard:
  "triple (tracks_heard (Some cur) (Some cur)) (release_current_consumer drv cur new flags)
     (\<lambda>_. tracks_heard None None) (\<lambda>_. True)"
proof -
  note dev = triple_dev_free [OF dev_free_tracks_heard, of None "Some cur"]
  show ?thesis
    unfolding release_current_consumer_def
    by (rule triple_and_then, rule triple_modify [where Q = "\<lambda>_. tracks_heard None (Some cur)"],
        simp add: tracks_heard_def)
      (rule triple_and_then dev(2,3) triple_broadcast | simp add: tracks_heard_def)+
qed

lemma connect_heard:
  "triple (tracks_heard None None) (connect_available_consumer drv new) (\<lambda>_. tracks_heard (Some new) (Some new))
     (\<lambda>_. True)"
proof -
  have post: "triple (tracks_heard None None) (post_consumer_connected drv new)
      (\<lambda>_. tracks_heard (Some new) (Some new)) (\<lambda>_. True)"
    unfolding post_consumer_connected_def
    by (rule triple_and_then, rule triple_modify [where Q = "\<lambda>_. tracks_heard (Some new) None"],
        simp add: tracks_heard_def)
      (rule triple_and_then triple_dev_free [OF dev_free_tracks_heard] triple_broadcast
        | simp add: tracks_heard_def)+
  have "triple (tracks_heard None None)
      (and_then (psu_do (drv_connect_consumer drv (consumer_psu new) (consumer_power_capability new)))
         (\<lambda>_. post_consumer_connected drv new))
      (\<lambda>_. tracks_heard (Some new) (Some new)) (\<lambda>_. True)"
    by (rule triple_and_then [OF triple_dev_free(1) [OF dev_free_tracks_heard] post])
  then show ?thesis
    by (auto simp: triple_def connect_available_consumer_def split: sum.splits prod.splits)
qed

lemma connect_new_heard: "triple announced (connect_new_consumer drv new flags) (\<lambda>_. announced) (\<lambda>_. True)"
proof (rule tripleI)
  fix s :: "('a, 'b) Service" and a t
  assume ann: "announced s" and run: "connect_new_consumer drv new flags s = (Inr a, t)"
  show "announced t"
  proof (cases "current_consumer_state s")
    case None
    with ann have "tracks_heard None None s" by (simp add: announced_iff)
    then have "tracks_heard (Some new) (Some new) t"
      using run None by (intro tripleD_ok [OF connect_heard]) (auto simp: connect_new_consumer_def)
    then show ?thesis by (simp add: announced_def tracks_heard_def)
  next
    case (Some cur)
    show ?thesis
    proof (cases "cur = new")
      case True
      with run Some ann show ?thesis by (simp add: connect_new_consumer_def)
    next
      case False
      have "triple (tracks_heard (Some cur) (Some cur))
          (and_then (release_current_consumer drv cur new flags) (\<lambda>_. connect_available_consumer drv new))
          (\<lambda>_. tracks_heard (Some new) (Some new)) (\<lambda>_. True)"
        by (rule triple_and_then [OF release_heard connect_heard])
      moreover have "tracks_heard (Some cur) (Some cur) s"
        using ann Some by (simp add: announced_iff)
      ultimately have "tracks_heard (Some new) (Some new) t"
        using run Some False by (auto simp: connect_new_consumer_def intro: tripleD_ok)
      then show ?thesis by (simp add: announced_def tracks_heard_def)
    qed
  qed
qed (rule TrueI)

lemma drop_heard: "triple announced (drop_current_consumer drv flags) (\<lambda>_. announced) (\<lambda>_. True)"
proof (rule tripleI)
  fix s :: "('a, 'b) Service" and a t
  assume ann: "announced s" and run: "drop_current_consumer drv flags s = (Inr a, t)"
  show "announced t"
  proof (cases "current_consumer_state s")
    case None
    with ann run show ?thesis by (auto simp: announced_def drop_current_consumer_def)
  next
    case (Some cur)
    have "triple (tracks_heard (Some cur) (Some cur))
        (and_then (and_then (disconnect_chargers drv) (\<lambda>_. broadcast (ConsumerDisconnected (consumer_psu cur) flags)))
           (\<lambda>_. modify (\<lambda>s. s\<lparr>current_consumer_state := None\<rparr>)))
        (\<lambda>_. tracks_heard None None) (\<lambda>_. True)"
      by (rule triple_and_then triple_dev_free(3) [OF dev_free_tracks_heard]
          triple_broadcast [where Q = "tracks_heard (Some cur) None"] triple_modify
          | simp add: tracks_heard_def)+
    moreover have "tracks_heard (Some cur) (Some cur) s"
      using ann Some by (simp add: announced_iff)
    ultimately have "tracks_heard None None t"
      using run Some by (auto simp: drop_current_consumer_def intro: tripleD_ok)
    then show ?thesis by (simp add: announced_def tracks_heard_def)
  qed
qed (rule TrueI)

lemma keeps_announced_unconstrained: "keeps announced update_unconstrained_state"
  by (simp add: keeps_def update_unconstrained_state_def Let_def announced_def)

text \<open>\<open>update_current_consumer\<close> as one case distinction on what the selection returned.\<close>

definition apply_best ::
  "'h drivers \<Rightarrow> DisconnectFlags \<Rightarrow> AvailableConsumer option \<Rightarrow> (('h, 'set) Service, PsuError, unit) action" where
  "apply_best drv flags best =
     (case best of Some b \<Rightarrow> connect_new_consumer drv b flags | None \<Rightarrow> drop_current_consumer drv flags)"

lemma update_current_consumer_eq:
  "update_current_consumer drv cust flags s =
     (case cust s of
        Inl e \<Rightarrow> (Inl e, s)
      | Inr best \<Rightarrow> and_then (apply_best drv flags best) (\<lambda>_. update_unconstrained_state) s)"
  by (simp add: update_current_consumer_def apply_best_def split: sum.split)

lemma triple_update_current_consumer:
  assumes "\<And>best. triple (\<lambda>s. P s \<and> cust s = Inr best)
      (and_then (apply_best drv flags best) (\<lambda>_. update_unconstrained_state)) Q E"
    and "\<And>s. P s \<Longrightarrow> E s"
  shows "triple P (update_current_consumer drv cust flags) Q E"
proof -
  have "case update_current_consumer drv cust flags s of (Inr a, t) \<Rightarrow> Q a t | (Inl e, t) \<Rightarrow> E t"
    if "P s" for s
  proof (cases "cust s")
    case (Inl e)
    with that assms(2) show ?thesis by (simp add: update_current_consumer_eq)
  next
    case (Inr best)
    with that assms(1)[of best] show ?thesis
      by (simp add: update_current_consumer_eq triple_def)
  qed
  then show ?thesis by (simp add: triple_def)
qed

lemma update_consumer_heard:
  "triple announced (update_current_consumer drv cust flags) (\<lambda>_. announced) (\<lambda>_. True)"
proof (rule triple_update_current_consumer)
  fix best
  show "triple (\<lambda>s. announced s \<and> cust s = Inr best)
      (and_then (apply_best drv flags best) (\<lambda>_. update_unconstrained_state)) (\<lambda>_. announced) (\<lambda>_. True)"
    by (rule triple_and_then [where Q = "\<lambda>_. announced"])
      (auto simp: apply_best_def split: option.split
        intro: triple_weaken [OF connect_new_heard] triple_weaken [OF drop_heard]
        triple_keeps [OF keeps_announced_unconstrained])
qed simp

subsection \<open>The unconstrained state\<close>

fun hear_unconstrained :: "ServiceEvent \<Rightarrow> UnconstrainedState \<Rightarrow> UnconstrainedState" where
  "hear_unconstrained (UnconstrainedChanged u) _ = u"
| "hear_unconstrained _ u = u"

definition heard_unconstrained :: "ServiceEvent list \<Rightarrow> UnconstrainedState" where
  "heard_unconstrained evs = fold hear_unconstrained evs unconstrained_default"

lemma heard_unconstrained_snoc [simp]:
  "heard_unconstrained (evs @ [e]) = hear_unconstrained e (heard_unconstrained evs)"
  by (simp add: heard_unconstrained_def)

definition unconstrained_announced :: "('h, 'set) Service \<Rightarrow> bool" where
  "unconstrained_announced s \<longleftrightarrow> heard_unconstrained (broadcasts s) = unconstrained_state s"

lemma dev_free_unconstrained: "dev_free unconstrained_announced"
  by (simp add: dev_free_def unconstrained_announced_def)

text \<open>A property is kept by a change of consumer when its building blocks keep it.\<close>

lemma keeps_apply_best:
  fixes P :: "('h, 'set) Service \<Rightarrow> bool"
  assumes disc: "\<And>p. keeps P (psu_do (drv_disconnect drv p))"
    and conn: "\<And>p c. keeps P (psu_do (drv_connect_consumer drv p c))"
    and detach: "keeps P (disconnect_chargers drv)"
    and attach: "\<And>cap k. keeps P (attach_charger drv cap k)"
    and quiet: "\<And>p c. keeps P (broadcast (ConsumerConnected p c))"
      "\<And>p f. keeps P (broadcast (ConsumerDisconnected p f))"
    and set_current: "\<And>c. keeps P (modify (\<lambda>s. s\<lparr>current_consumer_state := c\<rparr>)
      :: (('h, 'set) Service, PsuError, unit) action)"
  shows "keeps P (apply_best drv flags best)"
proof -
  have release: "keeps P (release_current_consumer drv cur new flags)" for cur new
    unfolding release_current_consumer_def
    by (intro keeps_and_then set_current keeps_disconnect_if_consuming disc detach quiet)
  have post: "keeps P (post_consumer_connected drv new)" for new
    unfolding post_consumer_connected_def
    by (intro keeps_and_then set_current keeps_attach_chargers attach quiet)
  have "keeps P (and_then (psu_do (drv_connect_consumer drv p c)) (\<lambda>_. post_consumer_connected drv new))"
    for p c new by (intro keeps_and_then conn post)
  then have connect: "keeps P (connect_available_consumer drv new)" for new
    by (simp add: keeps_def connect_available_consumer_def split: sum.split)
  have "keeps P (and_then (release_current_consumer drv cur new flags) (\<lambda>_. connect_available_consumer drv new))"
    for cur new by (intro keeps_and_then release connect)
  then have new: "keeps P (connect_new_consumer drv new flags)" for new
    using connect
    by (simp add: keeps_def connect_new_consumer_def split: option.split)
  have "keeps P (and_then (case c of None \<Rightarrow> ok ()
      | Some cur \<Rightarrow> and_then (disconnect_chargers drv)
          (\<lambda>_. broadcast (ConsumerDisconnected (consumer_psu cur) flags)))
      (\<lambda>_. modify (\<lambda>s. s\<lparr>current_consumer_state := None\<rparr>)))" for c
    by (cases c) (auto intro!: keeps_and_then keeps_ok detach quiet set_current)
  then have "keeps P (drop_current_consumer drv flags)"
    unfolding drop_current_consumer_def [abs_def]
    by (rule keeps_read [where g = current_consumer_state])
  with new show ?thesis by (simp add: apply_best_def split: option.split)
qed

lemma keeps_unconstrained_apply_best: "keeps unconstrained_announced (apply_best drv flags best)"
  by (rule keeps_apply_best)
    (rule dev_free_keeps dev_free_keeps_chargers keeps_broadcast keeps_modify dev_free_unconstrained
      | simp add: unconstrained_announced_def)+

lemma update_unconstrained_effect:
  "update_unconstrained_state s = (r, t) \<Longrightarrow>
     r = Inr () \<and> unconstrained_state t = compute_unconstrained t \<and> devs t = devs s
     \<and> current_consumer_state t = current_consumer_state s
     \<and> (unconstrained_announced s \<longrightarrow> unconstrained_announced t)"
  by (auto simp: update_unconstrained_state_def Let_def compute_unconstrained_def
      unconstrained_announced_def split: if_splits)

lemma update_consumer_unconstrained:
  "triple unconstrained_announced (update_current_consumer drv cust flags)
     (\<lambda>_ s. unconstrained_announced s \<and> unconstrained_state s = compute_unconstrained s)
     unconstrained_announced"
proof (rule triple_update_current_consumer)
  fix best
  have "triple unconstrained_announced update_unconstrained_state
      (\<lambda>_ s. unconstrained_announced s \<and> unconstrained_state s = compute_unconstrained s)
      unconstrained_announced"
    by (rule tripleI) (auto dest: update_unconstrained_effect)
  moreover have "triple (\<lambda>s. unconstrained_announced s \<and> cust s = Inr best) (apply_best drv flags best)
      (\<lambda>_. unconstrained_announced) unconstrained_announced"
    by (rule triple_weaken [OF triple_keeps [OF keeps_unconstrained_apply_best]]) simp_all
  ultimately show "triple (\<lambda>s. unconstrained_announced s \<and> cust s = Inr best)
      (and_then (apply_best drv flags best) (\<lambda>_. update_unconstrained_state))
      (\<lambda>_ s. unconstrained_announced s \<and> unconstrained_state s = compute_unconstrained s)
      unconstrained_announced"
    by (rule triple_and_then [rotated])
qed simp

subsection \<open>The device that consumes is the one the service tracks\<close>

definition tracked :: "('h, 'set) Service \<Rightarrow> bool" where
  "tracked s \<longleftrightarrow> (\<forall>p c. psu_state (psu_of s p) = ConnectedConsumer c \<longrightarrow>
     map_option consumer_psu (current_consumer_state s) = Some p)"

text \<open>A connected consumer still offers a capability the selection accepts.\<close>

definition consumers_eligible :: "('h, 'set) Service \<Rightarrow> bool" where
  "consumers_eligible s \<longleftrightarrow> (\<forall>p c. psu_state (psu_of s p) = ConnectedConsumer c \<longrightarrow>
     candidates (config s) (psus (devs s)) (reg_psus (registration s)) \<noteq> [])"

definition only_consuming :: "psu_id \<Rightarrow> ('h, 'set) Service \<Rightarrow> bool" where
  "only_consuming p s \<longleftrightarrow> (\<forall>q c. psu_state (psu_of s q) = ConnectedConsumer c \<longrightarrow> q = p)"

definition nobody_consuming :: "('h, 'set) Service \<Rightarrow> bool" where
  "nobody_consuming s \<longleftrightarrow> (\<forall>q c. psu_state (psu_of s q) \<noteq> ConnectedConsumer c)"

lemma nobody_consuming_tracked: "nobody_consuming s \<Longrightarrow> tracked s"
  by (simp add: nobody_consuming_def tracked_def)

lemma tracked_None: "tracked s \<Longrightarrow> current_consumer_state s = None \<Longrightarrow> nobody_consuming s"
  by (simp add: tracked_def nobody_consuming_def)

lemma tracked_Some:
  "tracked s \<Longrightarrow> current_consumer_state s = Some cur \<Longrightarrow> only_consuming (consumer_psu cur) s"
  by (auto simp: tracked_def only_consuming_def)

subsection \<open>The offered capabilities do not change\<close>

text \<open>No consumer operation changes what the devices offer, so the candidates stay the same.\<close>

definition offers :: "('h, 'set) Service \<Rightarrow> AvailableConsumer list" where
  "offers s = candidates (config s) (psus (devs s)) (reg_psus (registration s))"

lemma candidates_cong:
  assumes "\<And>p. psu_consumer_capability (st p) = psu_consumer_capability (st' p)"
  shows "candidates cfg st ps = candidates cfg st' ps"
proof -
  have "candidate cfg st = candidate cfg st'"
    by (rule ext) (simp add: candidate_def assms)
  then show ?thesis by (simp add: candidates_def)
qed

lemma offers_devs:
  "(\<And>p. psu_consumer_capability (psus d p) = psu_consumer_capability (psu_of s p))
     \<Longrightarrow> offers (s\<lparr>devs := d\<rparr>) = offers s"
  by (auto simp: offers_def intro: candidates_cong)

lemma offers_fields [simp]:
  "offers (s\<lparr>current_consumer_state := c\<rparr>) = offers s"
  "offers (s\<lparr>current_provider_state := p\<rparr>) = offers s"
  "offers (s\<lparr>unconstrained_state := u\<rparr>) = offers s"
  "offers (s\<lparr>connected_providers := cp\<rparr>) = offers s"
  "offers (s\<lparr>broadcasts := bs\<rparr>) = offers s"
  by (simp_all add: offers_def)

text \<open>A property of the PSU states alone is kept by the charger calls of a lawful driver.\<close>

context power_drivers
begin

lemma keeps_psu_only:
  assumes "\<And>s d. psus d = psus (devs s) \<Longrightarrow> P s \<Longrightarrow> P (s\<lparr>devs := d\<rparr>)"
  shows "keeps P (disconnect_chargers drv)" and "keeps P (attach_charger drv cap k)"
proof -
  show "keeps P (disconnect_chargers drv)"
    by (rule keeps_disconnect_chargers, rule keeps_charger_do) (rule assms, rule charger_frame)
  show "keeps P (attach_charger drv cap k)"
    by (rule keeps_attach_charger; rule keeps_charger_do) (rule assms, rule charger_frame, assumption)+
qed

lemma keeps_tracked_chargers:
  "keeps tracked (disconnect_chargers drv)" "keeps tracked (attach_charger drv cap k)"
  by (rule keeps_psu_only; simp add: tracked_def)+

lemma release_tracked:
  assumes never_fails: "\<And>p d c. psu_state (psus d p) = ConnectedConsumer c \<Longrightarrow> is_ok (fst (drv_disconnect drv p d))"
  shows "triple (only_consuming (consumer_psu cur)) (release_current_consumer drv cur new flags)
    (\<lambda>_ s. nobody_consuming s \<and> current_consumer_state s = None) nobody_consuming"
proof -
  let ?Q = "\<lambda>s. nobody_consuming s \<and> current_consumer_state s = None"
  have disc: "triple (\<lambda>s. only_consuming (consumer_psu cur) s \<and> current_consumer_state s = None)
      (disconnect_if_consuming drv (consumer_psu cur)) (\<lambda>_. ?Q) nobody_consuming"
  proof (rule tripleI)
    fix s a t
    assume s: "only_consuming (consumer_psu cur) s \<and> current_consumer_state s = None"
      and run: "disconnect_if_consuming drv (consumer_psu cur) s = (Inr a, t)"
    show "?Q t"
    proof (cases "\<exists>c. psu_state (psu_of s (consumer_psu cur)) = ConnectedConsumer c")
      case True
      with run obtain d where d: "drv_disconnect drv (consumer_psu cur) (devs s) = (Inr (), d)" "t = s\<lparr>devs := d\<rparr>"
        by (auto simp: disconnect_if_consuming_def psu_do_def split: prod.splits)
      have "psu_state (psus d q) \<noteq> ConnectedConsumer c" for q c
        using s disconnect_ok[OF d(1)] disconnect_frame[OF d(1), of q]
        by (cases "q = consumer_psu cur") (auto simp: only_consuming_def disconnect_def Let_def)
      with d(2) s show ?thesis by (simp add: nobody_consuming_def)
    next
      case False
      with run s show ?thesis
        by (auto simp: disconnect_if_consuming_def only_consuming_def nobody_consuming_def
            split: PsuState.splits)
    qed
  next
    fix s e t
    assume "disconnect_if_consuming drv (consumer_psu cur) s = (Inl e, t)"
    with never_fails[of "devs s" "consumer_psu cur"] show "nobody_consuming t"
      by (auto simp: disconnect_if_consuming_def psu_do_def is_ok_iff split: PsuState.splits prod.splits)
  qed
  have chg: "triple ?Q (disconnect_chargers drv) (\<lambda>_. ?Q) nobody_consuming"
    by (rule triple_keeps [OF keeps_psu_only(1)]) (simp_all add: nobody_consuming_def)
  have unset: "triple (only_consuming (consumer_psu cur)) (modify (\<lambda>s. s\<lparr>current_consumer_state := None\<rparr>))
      (\<lambda>_ s. only_consuming (consumer_psu cur) s \<and> current_consumer_state s = None) nobody_consuming"
    by (rule triple_modify) (simp add: only_consuming_def)
  have bc: "triple ?Q (broadcast ev) (\<lambda>_. ?Q) nobody_consuming" for ev
    by (rule triple_broadcast) (simp add: nobody_consuming_def)
  show ?thesis
    unfolding release_current_consumer_def
    by (rule triple_and_then [OF unset triple_and_then [OF disc triple_and_then [OF chg bc]]])
qed

lemma connect_tracked:
  "triple nobody_consuming (connect_available_consumer drv new) (\<lambda>_. tracked) tracked"
proof -
  have post: "triple (only_consuming (consumer_psu new)) (post_consumer_connected drv new) (\<lambda>_. tracked) tracked"
  proof -
    have track: "triple (only_consuming (consumer_psu new))
        (modify (\<lambda>s. s\<lparr>current_consumer_state := Some new\<rparr>)) (\<lambda>_. tracked) tracked"
      by (rule triple_modify) (simp add: tracked_def only_consuming_def)
    have bc: "triple tracked (broadcast ev) (\<lambda>_. tracked) tracked" for ev
      by (rule triple_broadcast) (simp add: tracked_def)
    show ?thesis
      unfolding post_consumer_connected_def
      by (rule triple_and_then [OF track triple_and_then
            [OF triple_keeps [OF keeps_attach_chargers [OF keeps_tracked_chargers(2)]] bc]])
  qed
  have psu: "triple nobody_consuming
      (psu_do (drv_connect_consumer drv (consumer_psu new) (consumer_power_capability new)))
      (\<lambda>_. only_consuming (consumer_psu new)) tracked"
  proof (rule tripleI)
    fix s a t
    assume s: "nobody_consuming s"
      and "psu_do (drv_connect_consumer drv (consumer_psu new) (consumer_power_capability new)) s = (Inr a, t)"
    then show "only_consuming (consumer_psu new) t"
      by (auto simp: psu_do_def nobody_consuming_def only_consuming_def split: prod.splits
          dest: consumer_frame)
  next
    fix s e t
    assume s: "nobody_consuming s"
      and "psu_do (drv_connect_consumer drv (consumer_psu new) (consumer_power_capability new)) s = (Inl e, t)"
    then have "psus (devs t) q = psu_of s q" for q
      by (cases "q = consumer_psu new")
        (auto simp: psu_do_def split: prod.splits dest: consumer_frame consumer_err)
    with s show "tracked t" by (simp add: nobody_consuming_def tracked_def)
  qed
  note both = triple_and_then [OF psu post]
  show ?thesis
  proof (rule tripleI)
    fix s a t
    assume "nobody_consuming s" and "connect_available_consumer drv new s = (Inr a, t)"
    then show "tracked t"
      by (auto simp: connect_available_consumer_def split: sum.splits intro: tripleD_ok [OF both])
  next
    fix s e t
    assume "nobody_consuming s" and "connect_available_consumer drv new s = (Inl e, t)"
    then show "tracked t"
      by (auto simp: connect_available_consumer_def split: sum.splits
          intro: tripleD_err [OF both] nobody_consuming_tracked)
  qed
qed

lemma connect_new_tracked:
  assumes never_fails: "\<And>p d c. psu_state (psus d p) = ConnectedConsumer c \<Longrightarrow> is_ok (fst (drv_disconnect drv p d))"
  shows "triple tracked (connect_new_consumer drv new flags) (\<lambda>_. tracked) tracked"
proof -
  have switch: "triple (only_consuming (consumer_psu cur))
      (and_then (release_current_consumer drv cur new flags) (\<lambda>_. connect_available_consumer drv new))
      (\<lambda>_. tracked) tracked" for cur
    by (rule triple_and_then [where Q = "\<lambda>_. nobody_consuming"])
      (auto intro: triple_weaken [OF release_tracked [OF never_fails]] nobody_consuming_tracked connect_tracked)
  show ?thesis
  proof (rule tripleI)
    fix s a t
    assume s: "tracked s" and run: "connect_new_consumer drv new flags s = (Inr a, t)"
    then show "tracked t"
      by (auto simp: connect_new_consumer_def split: option.splits if_splits
          intro: tripleD_ok [OF connect_tracked] tripleD_ok [OF switch] tracked_None tracked_Some)
  next
    fix s e t
    assume s: "tracked s" and run: "connect_new_consumer drv new flags s = (Inl e, t)"
    then show "tracked t"
      by (auto simp: connect_new_consumer_def split: option.splits if_splits
          intro: tripleD_err [OF connect_tracked] tripleD_err [OF switch] tracked_None tracked_Some)
  qed
qed

lemma update_tracked:
  assumes never_fails: "\<And>p d c. psu_state (psus d p) = ConnectedConsumer c \<Longrightarrow> is_ok (fst (drv_disconnect drv p d))"
  shows "triple (\<lambda>s. tracked s \<and> consumers_eligible s)
    (update_current_consumer drv default_customization flags) (\<lambda>_. tracked) tracked"
proof (rule triple_update_current_consumer)
  fix best
  have unconstrained: "triple tracked update_unconstrained_state (\<lambda>_. tracked) tracked"
    by (rule tripleI) (auto simp: tracked_def dest: update_unconstrained_effect)
  let ?P = "\<lambda>s. (tracked s \<and> consumers_eligible s) \<and> default_customization s = Inr best"
  have "triple ?P (apply_best drv flags best) (\<lambda>_. tracked) tracked"
  proof (cases best)
    case None
    have "nobody_consuming s" if "?P s" for s
      using that None
      by (auto simp: default_customization_def find_best_consumer_default_def default_cmp.find_best_None_iff
          consumers_eligible_def nobody_consuming_def)
    moreover have "triple nobody_consuming (drop_current_consumer drv flags) (\<lambda>_. nobody_consuming) nobody_consuming"
    proof -
      have bc: "triple nobody_consuming (broadcast ev) (\<lambda>_. nobody_consuming) nobody_consuming" for ev
        by (rule triple_broadcast) (simp add: nobody_consuming_def)
      have chg: "triple nobody_consuming (disconnect_chargers drv) (\<lambda>_. nobody_consuming) nobody_consuming"
        by (rule triple_keeps [OF keeps_psu_only(1)]) (simp_all add: nobody_consuming_def)
      have unset: "triple nobody_consuming (modify (\<lambda>s. s\<lparr>current_consumer_state := None\<rparr>))
          (\<lambda>_. nobody_consuming) nobody_consuming"
        by (rule triple_modify) (simp add: nobody_consuming_def)
      have "triple nobody_consuming (and_then (case c of None \<Rightarrow> ok ()
          | Some cur \<Rightarrow> and_then (disconnect_chargers drv)
              (\<lambda>_. broadcast (ConsumerDisconnected (consumer_psu cur) flags)))
          (\<lambda>_. modify (\<lambda>s. s\<lparr>current_consumer_state := None\<rparr>))) (\<lambda>_. nobody_consuming) nobody_consuming" for c
        by (cases c) (auto intro!: triple_and_then [OF _ unset] triple_and_then [OF chg bc] triple_ok)
      then show ?thesis
        unfolding drop_current_consumer_def [abs_def]
        by (rule triple_read [where g = current_consumer_state])
    qed
    ultimately show ?thesis
      by (auto simp: apply_best_def None intro: triple_weaken nobody_consuming_tracked)
  next
    case (Some b)
    then show ?thesis
      by (auto simp: apply_best_def intro: triple_weaken [OF connect_new_tracked [OF never_fails]])
  qed
  then show "triple ?P (and_then (apply_best drv flags best) (\<lambda>_. update_unconstrained_state))
      (\<lambda>_. tracked) tracked"
    by (rule triple_and_then) (rule unconstrained)
qed simp

lemma disconnect_caps:
  assumes "drv_disconnect drv p d = (r, d')"
  shows "psu_consumer_capability (psus d' q) = psu_consumer_capability (psus d q)"
proof (cases "q = p")
  case True
  show ?thesis
  proof (cases r)
    case (Inl e)
    with True assms disconnect_err[of p d e d'] show ?thesis by auto
  next
    case (Inr u)
    with True assms disconnect_ok[of p d u d'] show ?thesis by simp
  qed
qed (simp add: disconnect_frame [OF assms])

lemma consumer_caps:
  assumes "drv_connect_consumer drv p c d = (r, d')"
  shows "psu_consumer_capability (psus d' q) = psu_consumer_capability (psus d q)"
proof (cases "q = p")
  case True
  show ?thesis
  proof (cases r)
    case (Inl e)
    with True assms consumer_err[of p c d e d'] show ?thesis by simp
  next
    case (Inr u)
    with True assms consumer_ok[of p c d u d'] show ?thesis by (simp add: connect_consumer_Inr)
  qed
qed (simp add: consumer_frame [OF assms])

lemma provider_caps:
  assumes "drv_connect_provider drv p c d = (r, d')"
  shows "psu_consumer_capability (psus d' q) = psu_consumer_capability (psus d q)"
proof (cases "q = p")
  case True
  show ?thesis
  proof (cases r)
    case (Inl e)
    with True assms provider_err[of p c d e d'] show ?thesis by simp
  next
    case (Inr u)
    with True assms provider_ok[of p c d u d'] show ?thesis by (simp add: connect_provider_Inr)
  qed
qed (simp add: provider_frame [OF assms])

lemma keeps_offers_psu_do:
  fixes m :: "('h devices, PsuError, 'r) action"
  assumes caps: "\<And>d r d' q. m d = (r, d') \<Longrightarrow> psu_consumer_capability (psus d' q) = psu_consumer_capability (psus d q)"
  shows "keeps (\<lambda>s :: ('h, 'set) Service. offers s = C) (psu_do m)"
proof (rule keeps_psu_do)
  fix s :: "('h, 'set) Service"
  assume "offers s = C"
  moreover have "offers (s\<lparr>devs := snd (m (devs s))\<rparr>) = offers s"
    by (rule offers_devs) (rule caps [OF surjective_pairing])
  ultimately show "offers (s\<lparr>devs := snd (m (devs s))\<rparr>) = C" by simp
qed

lemma keeps_offers_apply_best: "keeps (\<lambda>s. offers s = C) (apply_best drv flags best)"
proof (rule keeps_apply_best)
  show "keeps (\<lambda>s. offers s = C) (psu_do (drv_disconnect drv p))" for p
    by (rule keeps_offers_psu_do) (rule disconnect_caps)
  show "keeps (\<lambda>s. offers s = C) (psu_do (drv_connect_consumer drv p c))" for p c
    by (rule keeps_offers_psu_do) (rule consumer_caps)
  show "keeps (\<lambda>s. offers s = C) (disconnect_chargers drv)"
    and "keeps (\<lambda>s. offers s = C) (attach_charger drv cap k)" for cap k
    by (rule keeps_psu_only; simp add: offers_devs)+
qed (rule keeps_broadcast keeps_modify, simp)+

end

end
