(* ===== verification/Power_Provider.thy ===== *)
theory Power_Provider
  imports Power_Consumer_Props
begin

text \<open>
  The provider side of the power policy: \<open>power-policy-service/src/service/provider.rs\<close>. How
  much power is granted to a requester, the system's power state, and the set of tracked providers,
  which is a fixed-capacity set with the contract \<open>index_set\<close>.
\<close>

text \<open>The total the requester's demand would lead to: its own request, and what each other
  registered device is currently providing.\<close>

definition requested_total :: "psu_id \<Rightarrow> ProviderPowerCapability \<Rightarrow> ('h, 'set) Service \<Rightarrow> u32" where
  "requested_total requester req s =
     fold (\<lambda>p total. total + (if p = requester then max_power_mw (provider_capability req)
                              else provider_power (psu_of s p)))
       (reg_psus (registration s)) 0"

definition power_state_for :: "Config \<Rightarrow> u32 \<Rightarrow> PowerState" where
  "power_state_for cfg total_mw = (if limited_power_threshold_mw cfg < total_mw then Limited else Unlimited)"

definition target_power :: "Config \<Rightarrow> PowerState \<Rightarrow> ProviderPowerCapability \<Rightarrow> ProviderPowerCapability" where
  "target_power cfg st req =
     (case st of
        Limited \<Rightarrow> \<lparr>provider_capability = provider_limited cfg, provider_flags = provider_flags req\<rparr>
      | Unlimited \<Rightarrow>
          if max_power_mw (provider_capability req) < max_power_mw (provider_unlimited cfg) then req
          else \<lparr>provider_capability = provider_unlimited cfg, provider_flags = provider_flags req\<rparr>)"

definition post_provider_connected ::
  "'set set_ops \<Rightarrow> psu_id \<Rightarrow> ProviderPowerCapability \<Rightarrow> (('h, 'set) Service, PsuError, unit) action" where
  "post_provider_connected ops requester target =
     and_then (modify (\<lambda>s. s\<lparr>connected_providers := snd (set_insert ops requester (connected_providers s))\<rparr>))
       (\<lambda>_. broadcast (ProviderConnected requester target))"

definition provide ::
  "'h drivers \<Rightarrow> 'set set_ops \<Rightarrow> psu_id \<Rightarrow> ProviderPowerCapability \<Rightarrow> (('h, 'set) Service, PsuError, unit) action" where
  "provide drv ops requester target s =
     (case can_connect_provider (psu_of s requester) of
        Inl e \<Rightarrow> (Inl e, s)
      | Inr _ \<Rightarrow> and_then (psu_do (drv_connect_provider drv requester target))
                   (\<lambda>_. post_provider_connected ops requester target) s)"

definition policy_connect_provider ::
  "'h drivers \<Rightarrow> 'set set_ops \<Rightarrow> psu_id \<Rightarrow> (('h, 'set) Service, PsuError, unit) action" where
  "policy_connect_provider drv ops requester s =
     (case requested_provider_capability (psu_of s requester) of
        None \<Rightarrow> (Inr (), s)
      | Some req \<Rightarrow>
          (let st = power_state_for (config s) (requested_total requester req s)
           in provide drv ops requester (target_power (config s) st req) (s\<lparr>current_provider_state := st\<rparr>)))"

definition post_provider_removed ::
  "'set set_ops \<Rightarrow> psu_id \<Rightarrow> (('h, 'set) Service, PsuError, bool) action" where
  "post_provider_removed ops p s =
     (case set_remove ops p (connected_providers s) of
        (True, set') \<Rightarrow>
          (let s1 = s\<lparr>connected_providers := set'\<rparr>;
               s2 = s1\<lparr>current_provider_state :=
                       power_state_for (config s1) (compute_total_provider_power_mw s1)\<rparr>
           in and_then (broadcast (ProviderDisconnected p)) (\<lambda>_. ok True) s2)
      | (False, set') \<Rightarrow> (Inr False, s\<lparr>connected_providers := set'\<rparr>))"

subsection \<open>Bounds on what is granted\<close>

lemma power_sum_list_bound:
  fixes f :: "'p \<Rightarrow> u32"
  assumes "\<And>p. unat (f p) \<le> 4294836" and "length ps \<le> 1000"
  shows "unat (fold (\<lambda>p total. total + f p) ps 0) = (\<Sum>p\<leftarrow>ps. unat (f p))"
  using unat_fold_power[of f 0 ps] assms by simp

text \<open>With at most 1000 registered devices neither total of the provider code wraps around:
  both the power being provided and the demand a request leads to are the exact sums.\<close>

theorem provider_totals_exact:
  assumes "length (reg_psus (registration s)) \<le> 1000"
  shows "unat (compute_total_provider_power_mw s)
      = (\<Sum>p\<leftarrow>reg_psus (registration s). unat (provider_power (psu_of s p)))
    \<and> unat (requested_total requester req s)
      = (\<Sum>p\<leftarrow>reg_psus (registration s).
          unat (if p = requester then max_power_mw (provider_capability req)
                else provider_power (psu_of s p)))"
  unfolding compute_total_provider_power_mw_def requested_total_def
  by (intro conjI power_sum_list_bound assms) (simp_all add: max_power_mw_bound provider_power_bound)

text \<open>One of two registered ports provides 15 W.\<close>

theorem provider_totals_exact_witness:
  "unat (compute_total_provider_power_mw
      (new_service (list_set_ops 4) \<lparr>reg_psus = [0, 1], reg_chargers = []\<rparr> config_default
        \<lparr>psus = (\<lambda>p. if p = 0 then psu_default\<lparr>psu_state := ConnectedProvider
             (provider_from_capability \<lparr>voltage_mv = 5000, current_ma = 3000\<rparr>)\<rparr> else psu_default),
         chargers = (\<lambda>_. charger_default), hardware = ()\<rparr>)) = 15000"
proof -
  let ?cap = "provider_from_capability \<lparr>voltage_mv = 5000, current_ma = 3000\<rparr>"
  let ?s = "new_service (list_set_ops 4) \<lparr>reg_psus = [0, 1], reg_chargers = []\<rparr> config_default
        \<lparr>psus = (\<lambda>p. if p = 0 then psu_default\<lparr>psu_state := ConnectedProvider ?cap\<rparr> else psu_default),
         chargers = (\<lambda>_. charger_default), hardware = ()\<rparr>"
  have "length (reg_psus (registration ?s)) \<le> 1000" by (simp add: new_service_def)
  from provider_totals_exact [OF this, THEN conjunct1] show ?thesis
    by (simp add: new_service_def provider_power_def connected_provider_capability_def psu_default_def
        unat_max_power_mw provider_from_capability_def)
qed

lemma target_power_cases:
  "max_power_mw (provider_capability (target_power cfg st req)) =
     (case st of Limited \<Rightarrow> max_power_mw (provider_limited cfg)
      | Unlimited \<Rightarrow> min (max_power_mw (provider_capability req)) (max_power_mw (provider_unlimited cfg)))"
  by (auto simp: target_power_def min_def split: PowerState.split)

lemma provide_effect:
  assumes "power_drivers drv" and "provide drv ops p target s = (Inr u, t)"
  shows "psu_state (psu_of t p) = ConnectedProvider target"
    and "q \<noteq> p \<Longrightarrow> psu_of t q = psu_of s q"
    and "connected_providers t = snd (set_insert ops p (connected_providers s))"
    and "broadcasts t = broadcasts s @ [ProviderConnected p target]"
    and "current_consumer_state t = current_consumer_state s"
    and "current_provider_state t = current_provider_state s"
    and "psu_state (psu_of s p) = Idle \<or> (\<exists>c. psu_state (psu_of s p) = ConnectedProvider c)"
proof -
  obtain d where d: "drv_connect_provider drv p target (devs s) = (Inr (), d)"
    and t: "t = s\<lparr>devs := d, connected_providers := snd (set_insert ops p (connected_providers s)),
      broadcasts := broadcasts s @ [ProviderConnected p target]\<rparr>"
    using assms(2)
    by (auto simp: provide_def and_then_ok_iff psu_do_def post_provider_connected_def
        split: sum.splits prod.splits)
  have con: "connect_provider target (psus (devs s) p) = (Inr (), psus d p)"
    by (rule power_drivers.provider_ok [OF assms(1) d])
  then show "psu_state (psu_of t p) = ConnectedProvider target"
    by (simp add: connect_provider_Inr t)
  from con show "psu_state (psu_of s p) = Idle \<or> (\<exists>c. psu_state (psu_of s p) = ConnectedProvider c)"
    by (auto simp: connect_provider_Inr can_connect_provider_def split: PsuState.splits)
  show "q \<noteq> p \<Longrightarrow> psu_of t q = psu_of s q"
    using power_drivers.provider_frame [OF assms(1) d, of q] by (simp add: t)
qed (use assms(2) in \<open>auto simp: provide_def and_then_ok_iff psu_do_def post_provider_connected_def
      split: sum.splits prod.splits\<close>)

end
