(* ===== verification/Type_C_Psu.thy ===== *)
theory Type_C_Psu
  imports Power_State
begin

text \<open>
  The PSU that the firmware really registers: the Type-C port,
  \<open>impl Psu for Port\<close> in \<open>type-c-service/src/controller/power.rs\<close>, with the error conversion of
  \<open>type-c-interface/src/util.rs\<close>, and the no-op charger of
  \<open>power-policy-interface/src/charger/mock.rs\<close>. The PD controller behind the port is a
  parameter: \<open>enable_sink_path\<close> acts on the hardware state in any way and may fail with any error of
  the USB-PD crate, of which the code names two values.
\<close>

record 'e pd_errors =
  pd_busy :: 'e
  pd_timeout :: 'e

definition power_policy_error_from_pd_error :: "'e pd_errors \<Rightarrow> 'e \<Rightarrow> PsuError" where
  "power_policy_error_from_pd_error pe e =
     (if e = pd_busy pe then Busy else if e = pd_timeout pe then Timeout else Failed)"

type_synonym ('h, 'e) sink_path = "psu_id \<Rightarrow> bool \<Rightarrow> ('h, 'e, unit) action"

text \<open>Run a method of the port's \<open>psu::State\<close>.\<close>

definition on_psu :: "psu_id \<Rightarrow> (State, PsuError, unit) action \<Rightarrow> ('h devices, PsuError, unit) action" where
  "on_psu p m d = (case m (psus d p) of (r, st) \<Rightarrow> (r, d\<lparr>psus := (psus d)(p := st)\<rparr>))"

definition sink_path_do ::
  "'e pd_errors \<Rightarrow> ('h, 'e) sink_path \<Rightarrow> psu_id \<Rightarrow> bool \<Rightarrow> ('h devices, PsuError, unit) action" where
  "sink_path_do pe esp p b d =
     (case esp p b (hardware d) of
        (Inl e, h) \<Rightarrow> (Inl (power_policy_error_from_pd_error pe e), d\<lparr>hardware := h\<rparr>)
      | (Inr u, h) \<Rightarrow> (Inr u, d\<lparr>hardware := h\<rparr>))"

definition port_disconnect ::
  "'e pd_errors \<Rightarrow> ('h, 'e) sink_path \<Rightarrow> psu_id \<Rightarrow> ('h devices, PsuError, unit) action" where
  "port_disconnect pe esp p =
     and_then (sink_path_do pe esp p False) (\<lambda>_. on_psu p (disconnect False))"

definition port_connect_provider ::
  "psu_id \<Rightarrow> ProviderPowerCapability \<Rightarrow> ('h devices, PsuError, unit) action" where
  "port_connect_provider p c = on_psu p (connect_provider c)"

definition port_connect_consumer ::
  "'e pd_errors \<Rightarrow> ('h, 'e) sink_path \<Rightarrow> psu_id \<Rightarrow> ConsumerPowerCapability
     \<Rightarrow> ('h devices, PsuError, unit) action" where
  "port_connect_consumer pe esp p c =
     and_then (sink_path_do pe esp p True) (\<lambda>_. on_psu p (connect_consumer c))"

text \<open>\<open>NoopCharger\<close>: every request succeeds and changes nothing; initialisation reports an
  attached PSU; \<open>is_ready\<close> is the default of the \<open>Charger\<close> trait.\<close>

definition noop_is_ready :: "charger_id \<Rightarrow> ('h devices, ChargerError, unit) action" where
  "noop_is_ready k = ok ()"

definition noop_init_charger :: "charger_id \<Rightarrow> ('h devices, ChargerError, ChargerPsuState) action" where
  "noop_init_charger k = ok PsuAttached"

definition noop_attach_handler ::
  "charger_id \<Rightarrow> ConsumerPowerCapability \<Rightarrow> ('h devices, ChargerError, unit) action" where
  "noop_attach_handler k c = ok ()"

definition noop_detach_handler :: "charger_id \<Rightarrow> ('h devices, ChargerError, unit) action" where
  "noop_detach_handler k = ok ()"

definition port_drivers :: "'e pd_errors \<Rightarrow> ('h, 'e) sink_path \<Rightarrow> 'h drivers" where
  "port_drivers pe esp =
     \<lparr>drv_disconnect = port_disconnect pe esp,
      drv_connect_provider = port_connect_provider,
      drv_connect_consumer = port_connect_consumer pe esp,
      chg_is_ready = noop_is_ready,
      chg_init_charger = noop_init_charger,
      chg_attach_handler = noop_attach_handler,
      chg_detach_handler = noop_detach_handler\<rparr>"

lemmas port_defs =
  port_drivers_def port_disconnect_def port_connect_provider_def port_connect_consumer_def
  sink_path_do_def on_psu_def noop_is_ready_def noop_init_charger_def noop_attach_handler_def
  noop_detach_handler_def

lemma sink_path_do_psus: "sink_path_do pe esp p b d = (r, d') \<Longrightarrow> psus d' = psus d"
  by (auto simp: sink_path_do_def split: sum.splits prod.splits)

lemma and_then_cases:
  assumes "and_then m k s = (r, t)"
  obtains (first) e where "m s = (Inl e, t)" "r = Inl e"
    | (second) a s' where "m s = (Inr a, s')" "k a s' = (r, t)"
  using assms by (auto simp: and_then_def split: prod.splits sum.splits)

lemma on_psu_frame: "on_psu p m d = (r, d') \<Longrightarrow> q \<noteq> p \<Longrightarrow> psus d' q = psus d q"
  by (auto simp: on_psu_def split: prod.splits)

lemma on_psu_result: "on_psu p m d = (r, d') \<Longrightarrow> m (psus d p) = (r, psus d' p)"
  by (auto simp: on_psu_def split: prod.splits)

text \<open>The port obeys the driver contract whatever the PD controller does.\<close>

interpretation port: power_drivers "port_drivers pe esp"
proof
  fix p q d r d' u e c c' k
  show "psus d' q = psus d q"
    if "drv_disconnect (port_drivers pe esp) p d = (r, d')" "q \<noteq> p"
    using that by (auto simp: port_drivers_def port_disconnect_def on_psu_frame sink_path_do_psus
        elim!: and_then_cases)
  show "psus d' p = snd (disconnect False (psus d p))"
    if "drv_disconnect (port_drivers pe esp) p d = (Inr u, d')"
    using that by (auto simp: port_drivers_def port_disconnect_def sink_path_do_psus
        elim!: and_then_cases dest!: on_psu_result)
  show "psus d' p = psus d p \<or> psus d' p = psus d p\<lparr>psu_state := Idle\<rparr>"
    if "drv_disconnect (port_drivers pe esp) p d = (Inl e, d')"
    using that by (auto simp: port_drivers_def port_disconnect_def sink_path_do_psus disconnect_def Let_def
        elim!: and_then_cases dest!: on_psu_result)
  show "psus d' q = psus d q"
    if "drv_connect_consumer (port_drivers pe esp) p c d = (r, d')" "q \<noteq> p"
    using that by (auto simp: port_drivers_def port_connect_consumer_def on_psu_frame sink_path_do_psus
        elim!: and_then_cases)
  show "connect_consumer c (psus d p) = (Inr (), psus d' p)"
    if "drv_connect_consumer (port_drivers pe esp) p c d = (Inr u, d')"
    using that by (auto simp: port_drivers_def port_connect_consumer_def sink_path_do_psus
        elim!: and_then_cases dest!: on_psu_result)
  show "psus d' p = psus d p"
    if "drv_connect_consumer (port_drivers pe esp) p c d = (Inl e, d')"
    using that by (auto simp: port_drivers_def port_connect_consumer_def sink_path_do_psus connect_consumer_def
        split: sum.splits elim!: and_then_cases dest!: on_psu_result)
  show "psus d' q = psus d q"
    if "drv_connect_provider (port_drivers pe esp) p c' d = (r, d')" "q \<noteq> p"
    using that by (auto simp: port_drivers_def port_connect_provider_def on_psu_frame)
  show "connect_provider c' (psus d p) = (Inr (), psus d' p)"
    if "drv_connect_provider (port_drivers pe esp) p c' d = (Inr u, d')"
    using that by (auto simp: port_drivers_def port_connect_provider_def dest!: on_psu_result)
  show "psus d' p = psus d p"
    if "drv_connect_provider (port_drivers pe esp) p c' d = (Inl e, d')"
    using that by (auto simp: port_drivers_def port_connect_provider_def connect_provider_def
        split: sum.splits dest!: on_psu_result)
qed (simp_all add: port_defs)

end
