(* ===== verification/Power_Policy.thy ===== *)
theory Power_Policy
  imports Power_Provider Type_C_Psu
begin

text \<open>
  The power policy service as a whole: the event handlers of
  \<open>power-policy-service/src/service/mod.rs\<close>, the steps of the system of service and devices, and
  the properties of its runs. The enums of PSU and charger events are \<open>non_exhaustive\<close>; their
  wildcard arms have no event today and so no branch here.
\<close>

subsection \<open>Event handlers\<close>

definition process_notify_detached ::
  "'h drivers \<Rightarrow> 'set set_ops \<Rightarrow> ('h, 'set) customization \<Rightarrow> psu_id \<Rightarrow> (('h, 'set) Service, PsuError, unit) action" where
  "process_notify_detached drv ops cust p =
     and_then (post_provider_removed ops p) (\<lambda>_.
     update_current_consumer drv cust \<lparr>reason = Some ReasonDetached\<rparr>)"

definition process_notify_disconnected ::
  "'h drivers \<Rightarrow> 'set set_ops \<Rightarrow> ('h, 'set) customization \<Rightarrow> psu_id \<Rightarrow> DisconnectFlags
     \<Rightarrow> (('h, 'set) Service, PsuError, unit) action" where
  "process_notify_disconnected drv ops cust p flags =
     and_then (post_provider_removed ops p) (\<lambda>_. update_current_consumer drv cust flags)"

fun process_psu_event ::
  "'h drivers \<Rightarrow> 'set set_ops \<Rightarrow> ('h, 'set) customization \<Rightarrow> psu_id \<Rightarrow> PsuEventData
     \<Rightarrow> (('h, 'set) Service, PsuError, unit) action" where
  "process_psu_event drv ops cust p EvAttached = ok ()"
| "process_psu_event drv ops cust p EvDetached = process_notify_detached drv ops cust p"
| "process_psu_event drv ops cust p (UpdatedConsumerCapability _) =
     update_current_consumer drv cust disconnect_flags_default"
| "process_psu_event drv ops cust p (RequestedProviderCapability _) = policy_connect_provider drv ops p"
| "process_psu_event drv ops cust p (EvDisconnected flags) = process_notify_disconnected drv ops cust p flags"

datatype ChargerEventData = PsuStateChange ChargerPsuState

definition process_psu_state_change ::
  "charger_id \<Rightarrow> ChargerPsuState \<Rightarrow> (('h, 'set) Service, PsuError, unit) action" where
  "process_psu_state_change k p = ok ()"

fun process_charger_event ::
  "charger_id \<Rightarrow> ChargerEventData \<Rightarrow> (('h, 'set) Service, PsuError, unit) action" where
  "process_charger_event k (PsuStateChange p) = process_psu_state_change k p"

lemmas handler_defs = process_notify_detached_def process_notify_disconnected_def
  process_psu_state_change_def

subsection \<open>Steps of the whole system\<close>

text \<open>Between service calls a device changes its own state through the methods its driver uses (all
  but the two connect methods, which only the service calls), and chargers and hardware change in
  any way. A service call handles one event and may fail; whatever it did stays.\<close>

fun driver_call :: "PsuCall \<Rightarrow> bool" where
  "driver_call (CallConnectConsumer _) = False"
| "driver_call (CallConnectProvider _) = False"
| "driver_call _ = True"

definition device_call :: "psu_id \<Rightarrow> PsuCall \<Rightarrow> ('h, 'set) Service \<Rightarrow> ('h, 'set) Service" where
  "device_call p c s =
     s\<lparr>devs := (devs s)\<lparr>psus := (psu_of s)(p := snd (psu_call c (psu_of s p)))\<rparr>\<rparr>"

datatype PolicyLabel =
    DeviceCalls psu_id PsuCall
  | Environment
  | PsuEvent psu_id PsuEventData "(PsuError, unit) result"
  | ChargerEvent charger_id ChargerEventData "(PsuError, unit) result"

inductive policy_step ::
  "'h drivers \<Rightarrow> 'set set_ops \<Rightarrow> ('h, 'set) customization
     \<Rightarrow> ('h, 'set) Service \<Rightarrow> PolicyLabel \<Rightarrow> ('h, 'set) Service \<Rightarrow> bool"
  for drv ops cust where
  device: "driver_call c \<Longrightarrow> policy_step drv ops cust s (DeviceCalls p c) (device_call p c s)"
| environment: "psus d = psu_of s \<Longrightarrow> policy_step drv ops cust s Environment (s\<lparr>devs := d\<rparr>)"
| psu_event: "process_psu_event drv ops cust p ev s = (r, t) \<Longrightarrow>
    policy_step drv ops cust s (PsuEvent p ev r) t"
| charger_event: "process_charger_event k ev s = (r, t) \<Longrightarrow>
    policy_step drv ops cust s (ChargerEvent k ev r) t"

inductive_cases policy_stepE: "policy_step drv ops cust s l t"

inductive policy_run ::
  "'h drivers \<Rightarrow> 'set set_ops \<Rightarrow> ('h, 'set) customization
     \<Rightarrow> ('h, 'set) Service \<Rightarrow> (PolicyLabel \<times> ('h, 'set) Service) list \<Rightarrow> ('h, 'set) Service \<Rightarrow> bool"
  for drv ops cust s0 where
  run_Nil: "policy_run drv ops cust s0 [] s0"
| run_snoc: "policy_run drv ops cust s0 tr s \<Longrightarrow> policy_step drv ops cust s l t \<Longrightarrow>
    policy_run drv ops cust s0 (tr @ [(l, t)]) t"

lemma policy_run_induct [consumes 1, case_names Nil snoc]:
  assumes "policy_run drv ops cust s0 tr s" and "P [] s0"
    and "\<And>tr s l t. policy_run drv ops cust s0 tr s \<Longrightarrow> P tr s \<Longrightarrow> policy_step drv ops cust s l t
      \<Longrightarrow> P (tr @ [(l, t)]) t"
  shows "P tr s"
  using assms by induction auto

fun label_ok :: "PolicyLabel \<Rightarrow> bool" where
  "label_ok (PsuEvent p ev r) = is_ok r"
| "label_ok (ChargerEvent k ev r) = is_ok r"
| "label_ok _ = True"

lemma process_charger_event_id [simp]: "process_charger_event k ev s = (Inr (), s)"
  by (cases ev) (simp add: process_psu_state_change_def)

text \<open>A property that only reads what no device change touches, along one step.\<close>

lemma device_call_devs: "\<exists>d. device_call p c s = s\<lparr>devs := d\<rparr>"
  by (auto simp: device_call_def)

lemma dev_free_step:
  assumes "dev_free P" and "policy_step drv ops cust s l t" and "P s"
    and "\<And>p ev r. l = PsuEvent p ev r \<Longrightarrow> process_psu_event drv ops cust p ev s = (r, t) \<Longrightarrow> P t"
  shows "P t"
proof -
  have dev: "P (s\<lparr>devs := d\<rparr>)" for d
    using assms(1,3) by (simp add: dev_free_def)
  then have "P (device_call p c s)" for p c
    using device_call_devs[of p c s] by auto
  with dev assms(2,3,4) show ?thesis
    by (auto elim: policy_stepE)
qed

subsection \<open>What listeners hear\<close>

lemma keeps_post_provider_removed:
  assumes "\<And>s set' st. P s \<Longrightarrow>
      P (s\<lparr>connected_providers := set', current_provider_state := st,
           broadcasts := broadcasts s @ [ProviderDisconnected p]\<rparr>)"
    and "\<And>s set'. P s \<Longrightarrow> P (s\<lparr>connected_providers := set'\<rparr>)"
  shows "keeps P (post_provider_removed ops p)"
  by (rule keepsI) (auto simp: post_provider_removed_def Let_def assms split: prod.split bool.split)

lemma keeps_policy_connect_provider:
  fixes P :: "('h, 'set) Service \<Rightarrow> bool"
  assumes "\<And>s st. P s \<Longrightarrow> P (s\<lparr>current_provider_state := st\<rparr>)"
    and "\<And>c. keeps P (psu_do (drv_connect_provider drv p c))"
    and "\<And>s c. P s \<Longrightarrow>
      P (s\<lparr>connected_providers := snd (set_insert ops p (connected_providers s)),
           broadcasts := broadcasts s @ [ProviderConnected p c]\<rparr>)"
  shows "keeps P (policy_connect_provider drv ops p)"
proof -
  have post: "keeps P (post_provider_connected ops p c)" for c
    by (rule keepsI) (simp add: post_provider_connected_def assms(3))
  have "keeps P (and_then (psu_do (drv_connect_provider drv p c)) (\<lambda>_. post_provider_connected ops p c))" for c
    by (intro keeps_and_then assms(2) post)
  then have "keeps P (provide drv ops p c)" for c
    by (simp add: keeps_def provide_def split: sum.split)
  then show ?thesis
    using assms(1) by (simp add: keeps_def policy_connect_provider_def Let_def split: option.split)
qed

lemma dev_free_announced: "dev_free announced"
  by (simp add: dev_free_def announced_def)

lemma keeps_removed_announced: "keeps announced (post_provider_removed ops p)"
  by (rule keeps_post_provider_removed) (simp_all add: announced_def)

lemma keeps_connect_announced: "keeps announced (policy_connect_provider drv ops p)"
  by (rule keeps_policy_connect_provider)
    (auto intro: dev_free_keeps simp: announced_def dev_free_def)

lemma process_psu_event_announced:
  "triple announced (process_psu_event drv ops cust p ev) (\<lambda>_. announced) (\<lambda>_. True)"
proof (cases ev)
  case EvDetached
  then show ?thesis
    by (auto simp: process_notify_detached_def
        intro!: triple_and_then [OF triple_keeps [OF keeps_removed_announced]] update_consumer_heard)
next
  case (EvDisconnected flags)
  then show ?thesis
    by (auto simp: process_notify_disconnected_def
        intro!: triple_and_then [OF triple_keeps [OF keeps_removed_announced]] update_consumer_heard)
qed (auto intro!: triple_ok update_consumer_heard triple_keeps keeps_connect_announced)

text \<open>C3. As long as every event is handled without an error, the consumer events that listeners
  receive alternate between connected and disconnected, every disconnect names the device of the
  connect before it, and the last of them tells exactly the device and capability the service
  holds as its current consumer.\<close>

theorem listeners_know_current_consumer:
  assumes "policy_run drv ops cust (new_service ops reg cfg d) tr s"
    and "\<And>l t. (l, t) \<in> set tr \<Longrightarrow> label_ok l"
  shows "heard (broadcasts s) = Some (current_consumer_state s)"
proof -
  have "(\<forall>(l, t) \<in> set tr. label_ok l) \<longrightarrow> announced s"
    using assms(1)
  proof (induction rule: policy_run_induct)
    case Nil
    show ?case by (simp add: announced_def new_service_def)
  next
    case (snoc tr s l t)
    show ?case
    proof
      assume ok: "\<forall>(l, t) \<in> set (tr @ [(l, t)]). label_ok l"
      with snoc.IH have "announced s" by auto
      moreover have "announced t"
        if "l = PsuEvent p ev r" "process_psu_event drv ops cust p ev s = (r, t)" "announced s" for p ev r
        using that ok by (auto simp: is_ok_iff dest: tripleD_ok [OF process_psu_event_announced])
      ultimately show "announced t"
        using dev_free_step [OF dev_free_announced snoc.hyps(2)] by blast
    qed
  qed
  with assms(2) show ?thesis by (auto simp: announced_def)
qed

lemma keeps_removed_unconstrained: "keeps unconstrained_announced (post_provider_removed ops p)"
  by (rule keeps_post_provider_removed) (simp_all add: unconstrained_announced_def)

lemma keeps_connect_unconstrained: "keeps unconstrained_announced (policy_connect_provider drv ops p)"
  by (rule keeps_policy_connect_provider)
    (auto intro: dev_free_keeps dev_free_unconstrained simp: unconstrained_announced_def)

fun selects :: "PsuEventData \<Rightarrow> bool" where
  "selects EvDetached = True"
| "selects (UpdatedConsumerCapability _) = True"
| "selects (EvDisconnected _) = True"
| "selects _ = False"

lemma process_psu_event_unconstrained:
  "triple unconstrained_announced (process_psu_event drv ops cust p ev)
     (\<lambda>_ s. unconstrained_announced s \<and> (selects ev \<longrightarrow> unconstrained_state s = compute_unconstrained s))
     unconstrained_announced"
proof -
  note after = triple_and_then [OF triple_keeps [OF keeps_removed_unconstrained] update_consumer_unconstrained]
  show ?thesis
  proof (cases ev)
    case (RequestedProviderCapability c)
    then show ?thesis
      by (auto intro: triple_weaken [OF triple_keeps [OF keeps_connect_unconstrained]])
  qed (auto intro!: triple_ok intro: after update_consumer_unconstrained simp: handler_defs)
qed

text \<open>Whatever fails, the last unconstrained-power event that listeners received is the state
  the service holds; and after an event that selects a consumer was handled without an error, that
  state is the one computed from the current consumer and the registered devices.\<close>

theorem listeners_know_unconstrained:
  assumes "policy_run drv ops cust (new_service ops reg cfg d) tr s"
  shows "heard_unconstrained (broadcasts s) = unconstrained_state s
    \<and> (\<forall>p ev t. selects ev \<and> process_psu_event drv ops cust p ev s = (Inr (), t) \<longrightarrow>
        heard_unconstrained (broadcasts t) = compute_unconstrained t)"
proof -
  have now: "unconstrained_announced s"
    using assms
  proof (induction rule: policy_run_induct)
    case Nil
    show ?case by (simp add: unconstrained_announced_def new_service_def heard_unconstrained_def)
  next
    case (snoc tr s l t)
    have "unconstrained_announced t" if "process_psu_event drv ops cust p ev s = (r, t)" for p ev r
      using that snoc.IH process_psu_event_unconstrained[of drv ops cust p ev]
      by (cases r) (auto dest: tripleD_ok tripleD_err)
    then show ?case
      using dev_free_step [OF dev_free_unconstrained snoc.hyps(2) snoc.IH] by blast
  qed
  have "heard_unconstrained (broadcasts t) = compute_unconstrained t"
    if "selects ev" "process_psu_event drv ops cust p ev s = (Inr (), t)" for p ev t
    using tripleD_ok [OF process_psu_event_unconstrained now that(2)] that(1)
    by (auto simp: unconstrained_announced_def)
  with now show ?thesis
    by (auto simp: unconstrained_announced_def)
qed

end
