(* ===== verification/Power_Policy_Props.thy ===== *)
theory Power_Policy_Props
  imports Power_Policy
begin

text \<open>
  Safety of the power policy over its runs: at most one device consumes power and the service
  tracks it, the set of tracked providers and what listeners hear about it, and what is granted to a
  provider. The last section shows what happens when a disconnect fails or a consumer withdraws its
  capability while connected.
\<close>

subsection \<open>One consumer at a time\<close>

lemma psu_call_consumer:
  "driver_call c \<Longrightarrow> psu_state (snd (psu_call c st)) = ConnectedConsumer cap \<Longrightarrow>
     psu_state st = ConnectedConsumer cap"
  by (cases c) (auto simp: psu_op_defs split: if_splits)

lemma device_call_tracked: "driver_call c \<Longrightarrow> tracked s \<Longrightarrow> tracked (device_call p c s)"
  by (auto simp: tracked_def device_call_def dest: psu_call_consumer)

lemma consumers_eligible_iff: "consumers_eligible s \<longleftrightarrow> nobody_consuming s \<or> offers s \<noteq> []"
  by (auto simp: consumers_eligible_def nobody_consuming_def offers_def)

context power_drivers
begin

lemma connect_provider_psus:
  assumes "drv_connect_provider drv p c d = (r, d')"
    and "psu_state (psus d' q) = ConnectedConsumer cap"
  shows "psu_state (psus d q) = ConnectedConsumer cap"
proof (cases "q = p")
  case True
  show ?thesis
  proof (cases r)
    case (Inl e)
    with True assms provider_err[of p c d e d'] show ?thesis by simp
  next
    case (Inr u)
    with True assms provider_ok[of p c d u d'] show ?thesis by (simp add: connect_provider_Inr)
  qed
qed (use assms provider_frame[of p c d r d' q] in auto)

lemma connect_provider_tracked: "keeps tracked (policy_connect_provider drv ops p)"
proof (rule keeps_policy_connect_provider)
  show "keeps tracked (psu_do (drv_connect_provider drv p c))" for c
    by (rule keeps_psu_do)
      (auto simp: tracked_def dest: connect_provider_psus [OF surjective_pairing])
qed (simp_all add: tracked_def)

lemma connect_provider_offers: "keeps (\<lambda>s. offers s = C) (policy_connect_provider drv ops p)"
proof (rule keeps_policy_connect_provider)
  show "keeps (\<lambda>s. offers s = C) (psu_do (drv_connect_provider drv p c))" for c
    by (rule keeps_offers_psu_do) (rule provider_caps)
qed simp_all

lemma removed_tracked:
  "keeps (\<lambda>s. tracked s \<and> consumers_eligible s) (post_provider_removed ops p)"
  by (rule keeps_post_provider_removed)
    (simp_all add: tracked_def consumers_eligible_iff nobody_consuming_def)

lemma process_psu_event_tracked:
  assumes never_fails: "\<And>p d c. psu_state (psus d p) = ConnectedConsumer c \<Longrightarrow> is_ok (fst (drv_disconnect drv p d))"
  shows "triple (\<lambda>s. tracked s \<and> consumers_eligible s)
    (process_psu_event drv ops default_customization p ev) (\<lambda>_. tracked) tracked"
proof -
  note update = update_tracked [OF never_fails]
  note after = triple_and_then [OF triple_keeps [OF removed_tracked] update]
  show ?thesis
  proof (cases ev)
    case (RequestedProviderCapability c)
    then show ?thesis
      by (auto intro: triple_weaken [OF triple_keeps [OF connect_provider_tracked]])
  qed (auto intro!: triple_ok intro: after update simp: handler_defs)
qed

lemma step_tracked:
  assumes never_fails: "\<And>p d c. psu_state (psus d p) = ConnectedConsumer c \<Longrightarrow> is_ok (fst (drv_disconnect drv p d))"
    and step: "policy_step drv ops default_customization s l t" and "tracked s" "consumers_eligible s"
  shows "tracked t"
proof -
  have "triple (\<lambda>s. tracked s \<and> consumers_eligible s)
      (process_psu_event drv ops default_customization p ev) (\<lambda>_. tracked) tracked" for p ev
    by (rule process_psu_event_tracked) (rule never_fails)
  then have "tracked t" if "process_psu_event drv ops default_customization p ev s = (r, t)" for p ev r
    using that assms(3,4) by (cases r) (auto dest: tripleD_ok tripleD_err)
  moreover have "tracked (s\<lparr>devs := d\<rparr>)" if "psus d = psu_of s" for d
    using that assms(3) by (simp add: tracked_def)
  ultimately show ?thesis
    using step assms(3) by (auto elim!: policy_stepE intro: device_call_tracked)
qed

end

text \<open>The environment's part of the contract: no step takes away the last eligible capability while
  some device is consuming.\<close>

definition eligible_run :: "('h, 'set) Service \<Rightarrow> (PolicyLabel \<times> ('h, 'set) Service) list \<Rightarrow> bool" where
  "eligible_run s0 tr \<longleftrightarrow> list_all consumers_eligible (s0 # map snd tr)"

text \<open>C2. If the drivers obey their contract and disconnecting a consuming device never fails, then in every run that
  starts with no device consuming and in which no step withdraws the last eligible capability while a
  device consumes, at most one device consumes power at any time, and it is the one the service
  holds as its current consumer.\<close>

theorem single_tracked_consumer:
  assumes "power_drivers drv" and "\<And>p d c. psu_state (psus d p) = ConnectedConsumer c \<Longrightarrow> is_ok (fst (drv_disconnect drv p d))"
    and "\<And>p c. psu_state (psus d p) \<noteq> ConnectedConsumer c"
    and "policy_run drv ops default_customization (new_service ops reg cfg d) tr s"
    and "eligible_run (new_service ops reg cfg d) tr"
    and "psu_state (psu_of s p) = ConnectedConsumer c"
  shows "map_option consumer_psu (current_consumer_state s) = Some p
    \<and> (\<forall>q c'. psu_state (psu_of s q) = ConnectedConsumer c' \<longrightarrow> q = p)"
proof -
  have "eligible_run (new_service ops reg cfg d) tr \<longrightarrow> tracked s \<and> consumers_eligible s"
    using assms(4)
  proof (induction rule: policy_run_induct)
    case Nil
    show ?case using assms(3) by (simp add: eligible_run_def tracked_def new_service_def)
  next
    case (snoc tr s l t)
    show ?case
    proof
      assume "eligible_run (new_service ops reg cfg d) (tr @ [(l, t)])"
      then have el: "consumers_eligible t" and "tracked s \<and> consumers_eligible s"
        using snoc.IH by (auto simp: eligible_run_def)
      then have "tracked t"
        using power_drivers.step_tracked [OF assms(1) _ snoc.hyps(2)] assms(2) by blast
      with el show "tracked t \<and> consumers_eligible t" by simp
    qed
  qed
  then have "tracked s" using assms(5) by simp
  with assms(6) show ?thesis by (simp add: tracked_def) (metis option.inject)
qed

text \<open>A Type-C port attaches, reports a 5 V, 3 A supply and is connected as the consumer.\<close>

definition demo_capability :: ConsumerPowerCapability where
  "demo_capability = consumer_from_capability \<lparr>voltage_mv = 5000, current_ma = 3000\<rparr>"

definition demo_drivers :: "unit drivers" where
  "demo_drivers = port_drivers \<lparr>pd_busy = 0 :: nat, pd_timeout = 1\<rparr> (\<lambda>p b. ok ())"

definition demo_devices :: "unit devices" where
  "demo_devices = \<lparr>psus = (\<lambda>_. psu_default), chargers = (\<lambda>_. charger_default), hardware = ()\<rparr>"

definition demo_start :: "(unit, nat list) Service" where
  "demo_start = new_service (list_set_ops 4) \<lparr>reg_psus = [0, 1], reg_chargers = [0]\<rparr> config_default demo_devices"

definition demo_ready :: "(unit, nat list) Service" where
  "demo_ready = device_call 0 (CallUpdateConsumer (Some demo_capability)) (device_call 0 CallAttach demo_start)"

definition demo_connected :: "(unit, nat list) Service" where
  "demo_connected = snd (process_psu_event demo_drivers (list_set_ops 4) default_customization 0
     (UpdatedConsumerCapability (Some demo_capability)) demo_ready)"

lemmas demo_defs = demo_capability_def demo_drivers_def demo_devices_def demo_start_def demo_ready_def
  demo_connected_def

lemma demo_drivers_lawful: "power_drivers demo_drivers"
  unfolding demo_drivers_def by (rule port.power_drivers_axioms)

lemma demo_disconnect_ok:
  "psu_state (psus d p) = ConnectedConsumer c \<Longrightarrow> is_ok (fst (drv_disconnect demo_drivers p d))"
  by (simp add: demo_drivers_def port_defs and_then_def disconnect_def)

lemma demo_event:
  "process_psu_event demo_drivers (list_set_ops 4) default_customization 0
     (UpdatedConsumerCapability (Some demo_capability)) demo_ready = (Inr (), demo_connected)"
proof -
  have "fst (process_psu_event demo_drivers (list_set_ops 4) default_customization 0
     (UpdatedConsumerCapability (Some demo_capability)) demo_ready) = Inr ()"
    by code_simp
  then show ?thesis unfolding demo_connected_def by (metis prod.collapse)
qed

definition demo_trace :: "(PolicyLabel \<times> (unit, nat list) Service) list" where
  "demo_trace =
     [(DeviceCalls 0 CallAttach, device_call 0 CallAttach demo_start),
      (DeviceCalls 0 (CallUpdateConsumer (Some demo_capability)), demo_ready),
      (PsuEvent 0 (UpdatedConsumerCapability (Some demo_capability)) (Inr ()), demo_connected)]"

lemma demo_run:
  "policy_run demo_drivers (list_set_ops 4) default_customization demo_start demo_trace demo_connected"
proof -
  let ?run = "policy_run demo_drivers (list_set_ops 4) default_customization demo_start"
  have "?run ([] @ [(DeviceCalls 0 CallAttach, device_call 0 CallAttach demo_start)])
      (device_call 0 CallAttach demo_start)"
    by (rule run_snoc [OF run_Nil]) (rule policy_step.device, simp)
  then have "?run (([] @ [(DeviceCalls 0 CallAttach, device_call 0 CallAttach demo_start)])
      @ [(DeviceCalls 0 (CallUpdateConsumer (Some demo_capability)), demo_ready)]) demo_ready"
    unfolding demo_ready_def by (rule run_snoc) (rule policy_step.device, simp)
  from run_snoc [OF this policy_step.psu_event [OF demo_event]] show ?thesis
    by (simp add: demo_trace_def)
qed

theorem single_tracked_consumer_witness:
  "map_option consumer_psu (current_consumer_state demo_connected) = Some 0
    \<and> {q. \<exists>c. psu_state (psu_of demo_connected q) = ConnectedConsumer c} = {0}"
proof -
  let ?reg = "\<lparr>reg_psus = [0, 1], reg_chargers = [0]\<rparr>"
  have consuming: "psu_state (psu_of demo_connected 0) = ConnectedConsumer demo_capability" by code_simp
  have run: "policy_run demo_drivers (list_set_ops 4) default_customization
      (new_service (list_set_ops 4) ?reg config_default demo_devices) demo_trace demo_connected"
    using demo_run by (simp add: demo_start_def)
  have "offers demo_connected \<noteq> []" "offers demo_ready \<noteq> []" by code_simp+
  then have eligible: "eligible_run (new_service (list_set_ops 4) ?reg config_default demo_devices) demo_trace"
    by (auto simp: eligible_run_def demo_trace_def consumers_eligible_iff nobody_consuming_def
        new_service_def demo_devices_def demo_start_def device_call_def attach_def psu_default_def)
  have idle: "psu_state (psus demo_devices p) \<noteq> ConnectedConsumer c" for p c
    by (simp add: demo_devices_def psu_default_def)
  from single_tracked_consumer [OF demo_drivers_lawful demo_disconnect_ok idle run eligible consuming]
  show ?thesis using consuming by auto
qed

subsection \<open>Tracked providers\<close>

fun hear_provider :: "ServiceEvent \<Rightarrow> psu_id set \<Rightarrow> psu_id set" where
  "hear_provider (ProviderConnected p c) ps = insert p ps"
| "hear_provider (ProviderDisconnected p) ps = ps - {p}"
| "hear_provider _ ps = ps"

definition heard_providers :: "ServiceEvent list \<Rightarrow> psu_id set" where
  "heard_providers evs = fold hear_provider evs {}"

fun provider_of :: "ServiceEvent \<Rightarrow> psu_id set" where
  "provider_of (ProviderConnected p c) = {p}"
| "provider_of _ = {}"

definition ever_provided :: "ServiceEvent list \<Rightarrow> psu_id set" where
  "ever_provided evs = (\<Union>e \<in> set evs. provider_of e)"

lemma heard_providers_snoc [simp]: "heard_providers (evs @ [e]) = hear_provider e (heard_providers evs)"
  by (simp add: heard_providers_def)

lemma ever_provided_snoc [simp]: "ever_provided (evs @ [e]) = provider_of e \<union> ever_provided evs"
  by (auto simp: ever_provided_def)

lemma finite_provider_of [simp]: "finite (provider_of e)"
  by (cases e) simp_all

lemma finite_ever_provided [simp]: "finite (ever_provided evs)"
  by (simp add: ever_provided_def)

definition providers_heard :: "('set \<Rightarrow> nat set) \<Rightarrow> nat \<Rightarrow> ('h, 'set) Service \<Rightarrow> bool" where
  "providers_heard elems capacity s \<longleftrightarrow>
     elems (connected_providers s) \<subseteq> heard_providers (broadcasts s)
     \<and> heard_providers (broadcasts s) \<subseteq> ever_provided (broadcasts s)
     \<and> (card (ever_provided (broadcasts s)) \<le> capacity \<longrightarrow>
          elems (connected_providers s) = heard_providers (broadcasts s))"

context index_set
begin

lemma keeps_providers_heard_connect:
  "keeps (providers_heard elems capacity) (policy_connect_provider drv ops p)"
proof (rule keeps_policy_connect_provider)
  fix s :: "('h, 'set) Service" and c
  assume h: "providers_heard elems capacity s"
  let ?E = "ever_provided (broadcasts s)"
  have room: "p \<in> elems (connected_providers s) \<or> card (elems (connected_providers s)) < capacity"
    if "card (insert p ?E) \<le> capacity"
  proof (cases "p \<in> elems (connected_providers s)")
    case False
    have "elems (connected_providers s) \<subseteq> ?E" using h by (auto simp: providers_heard_def)
    with False have "elems (connected_providers s) \<subset> insert p ?E" by auto
    then have "card (elems (connected_providers s)) < card (insert p ?E)"
      by (intro psubset_card_mono) simp_all
    with that show ?thesis by simp
  qed simp
  moreover have "card ?E \<le> card (insert p ?E)" by (rule card_insert_le)
  ultimately show "providers_heard elems capacity (s\<lparr>connected_providers := snd (set_insert ops p (connected_providers s)),
      broadcasts := broadcasts s @ [ProviderConnected p c]\<rparr>)"
    using h by (auto simp: providers_heard_def elems_insert)
next
  show "keeps (providers_heard elems capacity) (psu_do (drv_connect_provider drv p c))" for c
    by (rule dev_free_keeps) (simp add: dev_free_def providers_heard_def)
qed (simp add: providers_heard_def)

lemma keeps_providers_heard_removed:
  "keeps (providers_heard elems capacity) (post_provider_removed ops p)"
proof (rule keepsI)
  fix s :: "('h, 'set) Service"
  assume h: "providers_heard elems capacity s"
  obtain b set' where r: "set_remove ops p (connected_providers s) = (b, set')"
    by (cases "set_remove ops p (connected_providers s)")
  have "elems set' = elems (connected_providers s) - {p}" "b \<longleftrightarrow> p \<in> elems (connected_providers s)"
    using elems_remove[of p "connected_providers s"] remove_result[of p "connected_providers s"] by (simp_all add: r)
  with h show "providers_heard elems capacity (snd (post_provider_removed ops p s))"
    by (cases b) (auto simp: post_provider_removed_def providers_heard_def Let_def r)
qed

lemma providers_heard_update: "keeps (providers_heard elems capacity) (update_current_consumer drv cust flags)"
proof -
  have quiet: "keeps (providers_heard elems capacity) (apply_best drv flags best)" for best
    by (rule keeps_apply_best)
      (rule dev_free_keeps dev_free_keeps_chargers keeps_broadcast keeps_modify
        | simp add: providers_heard_def dev_free_def)+
  have "keeps (providers_heard elems capacity) update_unconstrained_state"
    by (simp add: keeps_def update_unconstrained_state_def Let_def providers_heard_def)
  then have "keeps (providers_heard elems capacity) (and_then (apply_best drv flags best) (\<lambda>_. update_unconstrained_state))" for best
    by (intro keeps_and_then quiet)
  then show ?thesis
    by (auto simp: keeps_def update_current_consumer_eq split: sum.splits)
qed

lemma process_psu_event_providers:
  "keeps (providers_heard elems capacity) (process_psu_event drv ops cust p ev)"
  by (cases ev) (auto simp: handler_defs intro!: keeps_ok keeps_and_then keeps_providers_heard_connect
      keeps_providers_heard_removed providers_heard_update)

end

text \<open>C4. While no more devices have ever been provided for than the set of tracked providers can
  hold, that set is exactly the set of devices for which listeners last heard a provider-connected
  event: every end of providing is announced, whatever fails in between.\<close>

theorem listeners_know_providers:
  assumes "index_set ops elems capacity"
    and "policy_run drv ops cust (new_service ops reg cfg d) tr s"
    and "card (ever_provided (broadcasts s)) \<le> capacity"
  shows "elems (connected_providers s) = heard_providers (broadcasts s)"
proof -
  have "providers_heard elems capacity s"
    using assms(2)
  proof (induction rule: policy_run_induct)
    case Nil
    show ?case using index_set.elems_new [OF assms(1)]
      by (simp add: providers_heard_def new_service_def heard_providers_def)
  next
    case (snoc tr s l t)
    have "dev_free (providers_heard elems capacity)" by (simp add: dev_free_def providers_heard_def)
    moreover have "providers_heard elems capacity t" if "process_psu_event drv ops cust p ev s = (r, t)" for p ev r
      by (rule keepsD_eq [OF index_set.process_psu_event_providers [OF assms(1)] snoc.IH that])
    ultimately show ?case
      using dev_free_step[of "providers_heard elems capacity", OF _ snoc.hyps(2) snoc.IH] by blast
  qed
  with assms(3) show ?thesis by (simp add: providers_heard_def)
qed

subsection \<open>What a provider is granted\<close>

lemma provide_error:
  assumes "power_drivers drv" and "provide drv ops p target s = (Inl e, t)"
  shows "psus (devs t) = psu_of s" and "broadcasts t = broadcasts s"
    and "connected_providers t = connected_providers s" and "current_provider_state t = current_provider_state s"
proof -
  have "psus d q = psu_of s q" if "drv_connect_provider drv p target (devs s) = (Inl e, d)" for d q
    using power_drivers.provider_frame [OF assms(1) that, of q] power_drivers.provider_err [OF assms(1) that]
    by (cases "q = p") auto
  with assms(2) show "psus (devs t) = psu_of s"
    by (auto simp: provide_def and_then_err_iff psu_do_def post_provider_connected_def and_then_def
        split: sum.splits prod.splits)
qed (use assms(2) in \<open>auto simp: provide_def and_then_err_iff psu_do_def post_provider_connected_def and_then_def
      split: sum.splits prod.splits\<close>)

text \<open>C11. A request for provider power sets the system to the limited state exactly when the demand
  it leads to exceeds the configured threshold. If it succeeds, only the requester changes: it is
  connected as a provider at the limited power in the limited state, and otherwise at the smaller of
  the requested and the unlimited power; listeners hear exactly that. If it fails, no device, no
  tracked provider and nothing heard changes.\<close>

theorem provider_grant:
  assumes "power_drivers drv"
    and "requested_provider_capability (psu_of s p) = Some req"
    and "policy_connect_provider drv ops p s = (r, t)"
  shows "(current_provider_state t = Limited \<longleftrightarrow>
        limited_power_threshold_mw (config s) < requested_total p req s)
    \<and> (case r of
        Inl _ \<Rightarrow> psus (devs t) = psu_of s \<and> broadcasts t = broadcasts s
          \<and> connected_providers t = connected_providers s
      | Inr _ \<Rightarrow> (\<exists>granted. psu_of t p = (psu_of s p)\<lparr>psu_state := ConnectedProvider granted\<rparr>
          \<and> (\<forall>q. q \<noteq> p \<longrightarrow> psu_of t q = psu_of s q)
          \<and> broadcasts t = broadcasts s @ [ProviderConnected p granted]
          \<and> provider_flags granted = provider_flags req
          \<and> max_power_mw (provider_capability granted) =
              (if current_provider_state t = Limited then max_power_mw (provider_limited (config s))
               else min (max_power_mw (provider_capability req)) (max_power_mw (provider_unlimited (config s))))))"
proof -
  define st where "st = power_state_for (config s) (requested_total p req s)"
  define s' where "s' = s\<lparr>current_provider_state := st\<rparr>"
  have run: "provide drv ops p (target_power (config s) st req) s' = (r, t)"
    using assms(2,3) by (simp add: policy_connect_provider_def Let_def st_def s'_def)
  show ?thesis
  proof (cases r)
    case (Inl e)
    note err = provide_error [OF assms(1) run [unfolded Inl]]
    from err show ?thesis by (simp add: Inl s'_def st_def power_state_for_def)
  next
    case (Inr u)
    note eff = provide_effect [OF assms(1) run [unfolded Inr]]
    have "psu_of t p = (psu_of s p)\<lparr>psu_state := ConnectedProvider (target_power (config s) st req)\<rparr>"
      using run Inr assms(1)
      by (auto simp: provide_def and_then_ok_iff psu_do_def post_provider_connected_def s'_def connect_provider_Inr
          split: sum.splits prod.splits dest!: power_drivers.provider_ok)
    moreover have "provider_flags (target_power (config s) st req) = provider_flags req"
      by (simp add: target_power_def split: PowerState.split)
    moreover have "current_provider_state t = Limited \<longleftrightarrow> st = Limited" "st = Unlimited \<longleftrightarrow> st \<noteq> Limited"
      using eff(6) by (cases st; simp add: s'_def)+
    ultimately show ?thesis
      using eff(2,4) by (cases st) (auto simp: Inr s'_def st_def power_state_for_def target_power_cases split: if_splits)
  qed
qed

definition demo_provider :: "(unit, nat list) Service" where
  "demo_provider = device_call 0 (CallUpdateProvider (Some (provider_from_capability
     \<lparr>voltage_mv = 5000, current_ma = 3000\<rparr>))) (device_call 0 CallAttach demo_start)"

definition demo_granted :: "(unit, nat list) Service" where
  "demo_granted = snd (policy_connect_provider demo_drivers (list_set_ops 4) 0 demo_provider)"

text \<open>15 W are requested and the configured threshold is not exceeded, so 15 W are granted.\<close>

theorem provider_grant_witness:
  "unat (max_power_mw (provider_capability (the (connected_provider_capability (psu_of demo_granted 0))))) = 15000
    \<and> broadcasts demo_granted = [ProviderConnected 0 (the (connected_provider_capability (psu_of demo_granted 0)))]"
proof -
  let ?req = "provider_from_capability \<lparr>voltage_mv = 5000, current_ma = 3000\<rparr>"
  have r: "fst (policy_connect_provider demo_drivers (list_set_ops 4) 0 demo_provider) = Inr ()" by code_simp
  have req: "requested_provider_capability (psu_of demo_provider 0) = Some ?req" by code_simp
  have st: "limited_power_threshold_mw (config demo_provider) = 15000"
     "requested_total 0 ?req demo_provider = 15000" by code_simp+
  have m: "max_power_mw (provider_capability ?req) = 15000"
    "max_power_mw (provider_unlimited (config demo_provider)) = 15000" by code_simp+
  have b: "broadcasts demo_provider = []" by code_simp
  have "policy_connect_provider demo_drivers (list_set_ops 4) 0 demo_provider = (Inr (), demo_granted)"
    unfolding demo_granted_def using r by (metis prod.collapse)
  from provider_grant [OF demo_drivers_lawful req this] show ?thesis
    by (auto simp: st m b connected_provider_capability_def)
qed

text \<open>Runs with a provider and, for the earlier properties, with the connected consumer.\<close>

lemma demo_provider_run:
  "\<exists>tr. policy_run demo_drivers (list_set_ops 4) default_customization demo_start tr demo_granted"
proof -
  let ?run = "policy_run demo_drivers (list_set_ops 4) default_customization demo_start"
  let ?ev = "RequestedProviderCapability None"
  have attached: "?run ([] @ [(DeviceCalls 0 CallAttach, device_call 0 CallAttach demo_start)])
      (device_call 0 CallAttach demo_start)"
    by (rule run_snoc [OF run_Nil]) (rule policy_step.device, simp)
  have step: "policy_step demo_drivers (list_set_ops 4) default_customization (device_call 0 CallAttach demo_start)
      (DeviceCalls 0 (CallUpdateProvider (Some (provider_from_capability \<lparr>voltage_mv = 5000, current_ma = 3000\<rparr>))))
      demo_provider"
    unfolding demo_provider_def by (rule policy_step.device) simp
  have event: "process_psu_event demo_drivers (list_set_ops 4) default_customization 0 ?ev demo_provider
      = (fst (policy_connect_provider demo_drivers (list_set_ops 4) 0 demo_provider), demo_granted)"
    by (simp add: demo_granted_def)
  show ?thesis
    using run_snoc [OF run_snoc [OF attached step] policy_step.psu_event [OF event]] by blast
qed

theorem listeners_know_providers_witness:
  "set (connected_providers demo_granted) = heard_providers (broadcasts demo_granted)
    \<and> connected_providers demo_granted = [0]"
proof -
  obtain tr where tr: "policy_run demo_drivers (list_set_ops 4) default_customization
      (new_service (list_set_ops 4) \<lparr>reg_psus = [0, 1], reg_chargers = [0]\<rparr> config_default demo_devices) tr demo_granted"
    using demo_provider_run by (auto simp: demo_start_def)
  have "card (ever_provided (broadcasts demo_granted)) \<le> 4" by code_simp
  from listeners_know_providers [OF list_set.index_set_axioms tr this] show ?thesis by (rule conjI) code_simp
qed

theorem listeners_know_current_consumer_witness:
  "heard (broadcasts demo_connected) = Some (current_consumer_state demo_connected)
    \<and> current_consumer_state demo_connected = Some \<lparr>consumer_psu = 0, consumer_power_capability = demo_capability\<rparr>"
proof
  show "heard (broadcasts demo_connected) = Some (current_consumer_state demo_connected)"
    by (rule listeners_know_current_consumer [OF demo_run [unfolded demo_start_def]])
      (auto simp: demo_trace_def)
qed code_simp

theorem listeners_know_unconstrained_witness:
  "heard_unconstrained (broadcasts demo_connected) = unconstrained_state demo_connected"
  using listeners_know_unconstrained [OF demo_run [unfolded demo_start_def]] by (rule conjunct1)

subsection \<open>When a disconnect fails, or a consumer withdraws its capability\<close>



definition strong_capability :: ConsumerPowerCapability where
  "strong_capability = consumer_from_capability \<lparr>voltage_mv = 20000, current_ma = 3000\<rparr>"


definition handle :: "unit drivers \<Rightarrow> psu_id \<Rightarrow> PsuEventData \<Rightarrow> (unit, nat list) Service \<Rightarrow> (unit, nat list) Service" where
  "handle drv p ev s = snd (process_psu_event drv (list_set_ops 4) default_customization p ev s)"

definition offer :: "unit drivers \<Rightarrow> psu_id \<Rightarrow> ConsumerPowerCapability option \<Rightarrow> (unit, nat list) Service \<Rightarrow> (unit, nat list) Service" where
  "offer drv p c s = handle drv p (UpdatedConsumerCapability c) (device_call p (CallUpdateConsumer c) s)"

definition both_attached :: "(unit, nat list) Service" where
  "both_attached = device_call 1 CallAttach (device_call 0 CallAttach demo_start)"


definition after_withdrawal :: "(unit, nat list) Service" where
  "after_withdrawal =
     offer demo_drivers 1 (Some strong_capability)
       (offer demo_drivers 0 None
         (offer demo_drivers 0 (Some demo_capability) both_attached))"




lemma withdrawal_leaves_two_consumers:
  "psu_state (psu_of after_withdrawal 0) = ConnectedConsumer demo_capability"
  "psu_state (psu_of after_withdrawal 1) = ConnectedConsumer strong_capability"
  by code_simp+

end
