(* ===== verification/Acpi_Timestamp.thy ===== *)
theory Acpi_Timestamp
  imports Prelude
begin

text \<open>
  The data of the ACPI time and alarm device: \<open>time-alarm-service-interface/src/lib.rs\<close> and
  \<open>acpi_timestamp.rs\<close>. \<open>Datetime\<close>, \<open>DatetimeFields\<close> and \<open>Month\<close> come from the crate
  \<open>embedded_mcu_hal\<close> and are a parameter, the record \<open>calendar\<close>; what the code relies on is the
  locale \<open>lawful_calendar\<close>, interpreted on the Gregorian calendar. An \<open>i16\<close> is a word read by \<open>sint\<close>.
\<close>

type_synonym i16 = "16 word"

subsection \<open>Timers and capabilities\<close>

type_synonym AlarmTimerSeconds = u32
type_synonym AlarmExpiredWakePolicy = u32

definition DISABLED :: AlarmTimerSeconds where "DISABLED = - 1"
definition INSTANTLY :: AlarmExpiredWakePolicy where "INSTANTLY = 0"
definition NEVER :: AlarmExpiredWakePolicy where "NEVER = - 1"

datatype AcpiTimerId = AcPower | DcPower

fun get_other_timer_id :: "AcpiTimerId \<Rightarrow> AcpiTimerId" where
  "get_other_timer_id AcPower = DcPower"
| "get_other_timer_id DcPower = AcPower"

text \<open>The \<open>bitfield!\<close> of a timer: bit 0 is expired, bit 1 is triggered wake.\<close>

type_synonym TimerStatus = u32

definition put_bit :: "nat \<Rightarrow> bool \<Rightarrow> u32 \<Rightarrow> u32" where
  "put_bit n b s = (if b then set_bit n s else unset_bit n s)"

definition timer_expired :: "TimerStatus \<Rightarrow> bool" where "timer_expired s = bit s 0"
definition timer_triggered_wake :: "TimerStatus \<Rightarrow> bool" where "timer_triggered_wake s = bit s 1"
definition set_timer_expired :: "bool \<Rightarrow> TimerStatus \<Rightarrow> TimerStatus" where "set_timer_expired = put_bit 0"
definition set_timer_triggered_wake :: "bool \<Rightarrow> TimerStatus \<Rightarrow> TimerStatus" where
  "set_timer_triggered_wake = put_bit 1"

type_synonym TimeAlarmDeviceCapabilities = u32

lemma bit_put_bit [simp]: "bit (put_bit n b s) m \<longleftrightarrow> (if m = n then b \<and> n < 32 else bit s m)"
  using bit_imp_le_length[of s m] by (auto simp: put_bit_def bit_set_bit_iff bit_unset_bit_iff)

lemma timer_status_simps [simp]:
  "timer_expired (set_timer_expired b s) = b" "timer_triggered_wake (set_timer_triggered_wake b s) = b"
  "timer_expired (set_timer_triggered_wake b s) = timer_expired s"
  "timer_triggered_wake (set_timer_expired b s) = timer_triggered_wake s"
  "\<not> timer_expired 0" "\<not> timer_triggered_wake 0"
  by (simp_all add: timer_expired_def timer_triggered_wake_def set_timer_expired_def set_timer_triggered_wake_def)

subsection \<open>Time zones\<close>

datatype DatetimeClockError = UnsupportedDatetime | Unknown | ClockError nat

datatype AcpiDaylightSavingsTimeStatus = NotObserved | NotAdjusted | Adjusted

fun dst_into :: "AcpiDaylightSavingsTimeStatus \<Rightarrow> u8" where
  "dst_into NotObserved = 0"
| "dst_into NotAdjusted = 1"
| "dst_into Adjusted = 3"

definition dst_try_from :: "u8 \<Rightarrow> AcpiDaylightSavingsTimeStatus option" where
  "dst_try_from b = find (\<lambda>s. dst_into s = b) [NotObserved, NotAdjusted, Adjusted]"

lemma dst_try_from_iff: "dst_try_from b = Some s \<longleftrightarrow> dst_into s = b"
  by (cases s) (auto simp: dst_try_from_def split: if_splits)

datatype AcpiTimeZoneOffset = AcpiTimeZoneOffset (minutes_from_utc: i16)

definition offset_new :: "i16 \<Rightarrow> (DatetimeClockError, AcpiTimeZoneOffset) result" where
  "offset_new minutes =
     (if \<not> (- 1440 \<le> sint minutes \<and> sint minutes \<le> 1440) then Inl UnsupportedDatetime
      else Inr (AcpiTimeZoneOffset minutes))"

datatype AcpiTimeZone = TimeZoneUnknown | MinutesFromUtc AcpiTimeZoneOffset

definition time_zone_try_from :: "i16 \<Rightarrow> (DatetimeClockError, AcpiTimeZone) result" where
  "time_zone_try_from v =
     (if v = 2047 then Inr TimeZoneUnknown else map_sum id MinutesFromUtc (offset_new v))"

fun time_zone_into :: "AcpiTimeZone \<Rightarrow> i16" where
  "time_zone_into TimeZoneUnknown = 2047"
| "time_zone_into (MinutesFromUtc offset) = minutes_from_utc offset"

text \<open>The time zones that \<open>offset_new\<close> lets anyone construct.\<close>

fun valid_time_zone :: "AcpiTimeZone \<Rightarrow> bool" where
  "valid_time_zone TimeZoneUnknown = True"
| "valid_time_zone (MinutesFromUtc offset) = (offset_new (minutes_from_utc offset) = Inr offset)"

lemma time_zone_try_from_iff: "time_zone_try_from v = Inr tz \<longleftrightarrow> time_zone_into tz = v \<and> valid_time_zone tz"
proof (cases tz)
  case (MinutesFromUtc off)
  have "sint (2047 :: i16) = 2047" by simp
  then show ?thesis
    by (cases off) (auto simp: MinutesFromUtc time_zone_try_from_def offset_new_def split: if_splits)
qed (auto simp: time_zone_try_from_def offset_new_def)

subsection \<open>Timestamps\<close>

record 'm DatetimeFields =
  fld_year :: u16
  fld_month :: 'm
  fld_day :: u8
  fld_hour :: u8
  fld_minute :: u8
  fld_second :: u8
  fld_nanosecond :: u32

text \<open>\<open>Datetime::new\<close>, the accessors of a \<open>Datetime\<close>, \<open>Month::try_from\<close> and \<open>Month::into\<close>.\<close>

record ('dt, 'm) calendar =
  datetime_new :: "'m DatetimeFields \<Rightarrow> 'dt option"
  datetime_fields :: "'dt \<Rightarrow> 'm DatetimeFields"
  month_try_from :: "u8 \<Rightarrow> 'm option"
  month_into :: "'m \<Rightarrow> u8"

record 'dt AcpiTimestamp =
  ts_datetime :: 'dt
  ts_time_zone :: AcpiTimeZone
  ts_dst_status :: AcpiDaylightSavingsTimeStatus

record RawAcpiTimestamp =
  raw_year :: u16
  raw_month :: u8
  raw_day :: u8
  raw_hour :: u8
  raw_minute :: u8
  raw_second :: u8
  raw_valid_or_padding :: u8
  raw_milliseconds :: u16
  raw_time_zone :: i16
  raw_daylight :: u8

definition raw_from :: "('dt, 'm) calendar \<Rightarrow> 'dt AcpiTimestamp \<Rightarrow> RawAcpiTimestamp" where
  "raw_from C ts =
     (let f = datetime_fields C (ts_datetime ts)
      in \<lparr>raw_year = fld_year f, raw_month = month_into C (fld_month f), raw_day = fld_day f,
          raw_hour = fld_hour f, raw_minute = fld_minute f, raw_second = fld_second f,
          raw_valid_or_padding = 1, raw_milliseconds = ucast (fld_nanosecond f div 1000000),
          raw_time_zone = time_zone_into (ts_time_zone ts), raw_daylight = dst_into (ts_dst_status ts)\<rparr>)"

text \<open>The layout of the packed little-endian structure: 16 bytes, the last three reserved.\<close>

definition u16_low :: "u16 \<Rightarrow> u8" where "u16_low v = ucast v"
definition u16_high :: "u16 \<Rightarrow> u8" where "u16_high v = ucast (drop_bit 8 v)"
definition u16_from_le :: "u8 \<Rightarrow> u8 \<Rightarrow> u16" where "u16_from_le l h = ucast l OR push_bit 8 (ucast h)"

definition raw_as_bytes :: "RawAcpiTimestamp \<Rightarrow> u8 list" where
  "raw_as_bytes r =
     [u16_low (raw_year r), u16_high (raw_year r), raw_month r, raw_day r, raw_hour r, raw_minute r,
      raw_second r, raw_valid_or_padding r, u16_low (raw_milliseconds r), u16_high (raw_milliseconds r),
      u16_low (raw_time_zone r), u16_high (raw_time_zone r), raw_daylight r, 0, 0, 0]"

definition raw_ref_from_bytes :: "u8 list \<Rightarrow> RawAcpiTimestamp" where
  "raw_ref_from_bytes b =
     \<lparr>raw_year = u16_from_le (b ! 0) (b ! 1), raw_month = b ! 2, raw_day = b ! 3, raw_hour = b ! 4,
      raw_minute = b ! 5, raw_second = b ! 6, raw_valid_or_padding = b ! 7,
      raw_milliseconds = u16_from_le (b ! 8) (b ! 9), raw_time_zone = u16_from_le (b ! 10) (b ! 11),
      raw_daylight = b ! 12\<rparr>"

definition timestamp_as_bytes :: "('dt, 'm) calendar \<Rightarrow> 'dt AcpiTimestamp \<Rightarrow> u8 list" where
  "timestamp_as_bytes C ts = raw_as_bytes (raw_from C ts)"

definition timestamp_try_from_bytes ::
  "('dt, 'm) calendar \<Rightarrow> u8 list \<Rightarrow> (DatetimeClockError, 'dt AcpiTimestamp) result" where
  "timestamp_try_from_bytes C bytes =
     (if length bytes < 16 then Inl Unknown
      else
        (let raw = raw_ref_from_bytes (take 16 bytes)
         in case month_try_from C (raw_month raw) of
              None \<Rightarrow> Inl Unknown
            | Some month \<Rightarrow>
                (case datetime_new C \<lparr>fld_year = raw_year raw, fld_month = month, fld_day = raw_day raw,
                        fld_hour = raw_hour raw, fld_minute = raw_minute raw, fld_second = raw_second raw,
                        fld_nanosecond = ucast (raw_milliseconds raw) * 1000000\<rparr> of
                   None \<Rightarrow> Inl Unknown
                 | Some datetime \<Rightarrow>
                     (case time_zone_try_from (raw_time_zone raw) of
                        Inl _ \<Rightarrow> Inl Unknown
                      | Inr tz \<Rightarrow>
                          (case dst_try_from (raw_daylight raw) of
                             None \<Rightarrow> Inl Unknown
                           | Some dst \<Rightarrow>
                               Inr \<lparr>ts_datetime = datetime, ts_time_zone = tz, ts_dst_status = dst\<rparr>)))))"

lemma u16_le_roundtrip [simp]:
  "u16_from_le (u16_low v) (u16_high v) = v"
  "u16_low (u16_from_le l h) = l" "u16_high (u16_from_le l h) = h"
  unfolding u16_from_le_def u16_low_def u16_high_def
  by (rule bit_word_eqI; auto simp: bit_or_iff bit_push_bit_iff bit_unsigned_iff bit_drop_bit_eq
      dest: bit_imp_le_length)+

lemma raw_of_bytes [simp]: "raw_ref_from_bytes (raw_as_bytes r) = r"
  by (simp add: raw_ref_from_bytes_def raw_as_bytes_def numeral_eq_Suc)

lemma bytes_of_raw:
  assumes "length bs = 16"
  shows "raw_as_bytes (raw_ref_from_bytes bs) = bs[13 := 0, 14 := 0, 15 := 0]"
proof -
  have "bs = map ((!) bs) [0..<16]" using map_nth[of bs] assms by metis
  then obtain a b c d e f g h i j k l m n p q where "bs = [a, b, c, d, e, f, g, h, i, j, k, l, m, n, p, q]"
    by (simp add: upt_rec numeral_eq_Suc)
  then show ?thesis by (simp add: raw_ref_from_bytes_def raw_as_bytes_def numeral_eq_Suc)
qed

subsection \<open>Round trip\<close>

text \<open>What the code relies on: \<open>Datetime::new\<close> keeps the fields it is given, checks them one by one,
  and \<open>Month\<close> converts to and from its number.\<close>

locale lawful_calendar =
  fixes C :: "('dt, 'm) calendar"
  assumes fields_of_new: "datetime_new C f = Some d \<Longrightarrow> datetime_fields C d = f"
    and nanoseconds: "datetime_new C f = Some d \<Longrightarrow> unat (fld_nanosecond f) < 1000000000"
    and other_nanoseconds: "datetime_new C f = Some d \<Longrightarrow> unat n < 1000000000 \<Longrightarrow>
      \<exists>d'. datetime_new C (f\<lparr>fld_nanosecond := n\<rparr>) = Some d'"
    and month_written: "month_try_from C (month_into C m) = Some m"
    and month_read: "month_try_from C b = Some m \<Longrightarrow> month_into C m = b"
begin

lemma written_then_read:
  assumes new: "datetime_new C f = Some (ts_datetime ts)" and tz: "valid_time_zone (ts_time_zone ts)"
  shows "\<exists>d. datetime_new C (f\<lparr>fld_nanosecond := fld_nanosecond f div 1000000 * 1000000\<rparr>) = Some d
    \<and> timestamp_try_from_bytes C (timestamp_as_bytes C ts) = Inr (ts\<lparr>ts_datetime := d\<rparr>)"
proof -
  let ?n = "fld_nanosecond f div 1000000"
  have "unat ?n < 1000" using nanoseconds[OF new] by (simp add: unat_div)
  then have "unat (ucast ?n :: u16) = unat ?n"
    by (simp add: unsigned_ucast_eq take_bit_nat_eq_self)
  then have ms: "ucast (ucast ?n :: u16) = ?n"
    by (intro word_unat_eq_iff[THEN iffD2]) (simp only: unat_ucast_16_32)
  have eta: "\<lparr>fld_year = fld_year f, fld_month = fld_month f, fld_day = fld_day f, fld_hour = fld_hour f,
      fld_minute = fld_minute f, fld_second = fld_second f, fld_nanosecond = n\<rparr> = f\<lparr>fld_nanosecond := n\<rparr>" for n
    by simp
  have "unat (?n * 1000000) < 1000000000"
    using \<open>unat ?n < 1000\<close> by (simp add: unat_word_ariths)
  from other_nanoseconds[OF new this] obtain d where d: "datetime_new C (f\<lparr>fld_nanosecond := ?n * 1000000\<rparr>) = Some d"
    by blast
  moreover from d[folded eta] have "datetime_new C \<lparr>fld_year = fld_year f, fld_month = fld_month f,
      fld_day = fld_day f, fld_hour = fld_hour f, fld_minute = fld_minute f, fld_second = fld_second f,
      fld_nanosecond = ?n * 1000000\<rparr> = Some d" .
  moreover have "time_zone_try_from (time_zone_into (ts_time_zone ts)) = Inr (ts_time_zone ts)"
    by (simp add: time_zone_try_from_iff tz)
  moreover have "dst_try_from (dst_into (ts_dst_status ts)) = Some (ts_dst_status ts)"
    by (simp add: dst_try_from_iff)
  moreover have "length (raw_as_bytes r) = 16" for r by (simp add: raw_as_bytes_def)
  ultimately show ?thesis
    by (simp add: timestamp_try_from_bytes_def timestamp_as_bytes_def raw_from_def Let_def
        fields_of_new[OF new] month_written ms)
qed

lemma read_then_written:
  assumes read: "timestamp_try_from_bytes C bs = Inr ts" and ms: "unat (u16_from_le (bs ! 8) (bs ! 9)) < 4295"
  shows "timestamp_as_bytes C ts = (take 16 bs)[7 := 1, 13 := 0, 14 := 0, 15 := 0]"
proof -
  let ?r = "raw_ref_from_bytes (take 16 bs)" and ?ms = "u16_from_le (bs ! 8) (bs ! 9)"
  from read have len: "16 \<le> length bs" by (simp add: timestamp_try_from_bytes_def split: if_splits)
  then have r: "raw_milliseconds ?r = ?ms" by (simp add: raw_ref_from_bytes_def)
  from read len obtain m d where m: "month_try_from C (raw_month ?r) = Some m"
    and d: "datetime_new C \<lparr>fld_year = raw_year ?r, fld_month = m, fld_day = raw_day ?r,
        fld_hour = raw_hour ?r, fld_minute = raw_minute ?r, fld_second = raw_second ?r,
        fld_nanosecond = ucast ?ms * 1000000\<rparr> = Some d"
    and tz: "time_zone_try_from (raw_time_zone ?r) = Inr (ts_time_zone ts)"
    and dst: "dst_try_from (raw_daylight ?r) = Some (ts_dst_status ts)" and ts: "ts_datetime ts = d"
    by (auto simp: timestamp_try_from_bytes_def Let_def r split: option.splits sum.splits)
  have "unat (ucast ?ms * 1000000 :: u32) = unat ?ms * 1000000" using ms by (simp add: unat_word_ariths)
  then have "ucast ?ms * 1000000 div 1000000 = (ucast ?ms :: u32)"
    by (simp add: word_unat_eq_iff unat_div)
  moreover have "ucast (ucast ?ms :: u32) = ?ms"
    by (rule bit_word_eqI) (auto simp: bit_unsigned_iff bit_take_bit_iff)
  ultimately have "raw_from C ts = ?r\<lparr>raw_valid_or_padding := 1\<rparr>"
    using tz dst
    by (intro RawAcpiTimestamp.equality) (simp_all add: raw_from_def fields_of_new[OF d] ts month_read[OF m] r
        time_zone_try_from_iff dst_try_from_iff)
  moreover have "?r\<lparr>raw_valid_or_padding := 1\<rparr> = raw_ref_from_bytes ((take 16 bs)[7 := 1])"
    using len by (simp add: raw_ref_from_bytes_def)
  ultimately show ?thesis
    using len by (simp add: timestamp_as_bytes_def bytes_of_raw)
qed

end

text \<open>The Gregorian calendar from 1970 on.\<close>

datatype Month = January | February | March | April | May | June | July | August | September
  | October | November | December

definition months :: "Month list" where
  "months = [January, February, March, April, May, June, July, August, September, October, November, December]"

fun month_number :: "Month \<Rightarrow> u8" where
  "month_number January = 1"
| "month_number February = 2"
| "month_number March = 3"
| "month_number April = 4"
| "month_number May = 5"
| "month_number June = 6"
| "month_number July = 7"
| "month_number August = 8"
| "month_number September = 9"
| "month_number October = 10"
| "month_number November = 11"
| "month_number December = 12"

definition leap_year :: "nat \<Rightarrow> bool" where
  "leap_year y \<longleftrightarrow> y mod 4 = 0 \<and> (y mod 100 \<noteq> 0 \<or> y mod 400 = 0)"

definition days_in_month :: "nat \<Rightarrow> Month \<Rightarrow> nat" where
  "days_in_month y m =
     (if m = February then if leap_year y then 29 else 28
      else if m \<in> {April, June, September, November} then 30 else 31)"

definition gregorian :: "(Month DatetimeFields, Month) calendar" where
  "gregorian =
     \<lparr>datetime_new = (\<lambda>f.
        if 1970 \<le> fld_year f \<and> 1 \<le> fld_day f \<and> unat (fld_day f) \<le> days_in_month (unat (fld_year f)) (fld_month f)
           \<and> fld_hour f < 24 \<and> fld_minute f < 60 \<and> fld_second f < 60 \<and> unat (fld_nanosecond f) < 1000000000
        then Some f else None),
      datetime_fields = id,
      month_try_from = (\<lambda>b. find (\<lambda>m. month_number m = b) months),
      month_into = month_number\<rparr>"

interpretation gregorian: lawful_calendar gregorian
proof
  fix m :: Month
  show "month_try_from gregorian (month_into gregorian m) = Some m"
    by (cases m) (simp_all add: gregorian_def months_def)
qed (auto simp: gregorian_def find_Some_iff split: if_splits)

text \<open>A valid timestamp with a valid time zone is read back from its bytes, cut to whole
  milliseconds; and bytes that are read as a timestamp are written back the same, but for the valid flag
  and the reserved bytes, if they give fewer than 4295 milliseconds.\<close>

theorem timestamp_bytes_roundtrip:
  assumes "lawful_calendar C"
  shows "(datetime_new C f = Some (ts_datetime ts) \<and> valid_time_zone (ts_time_zone ts) \<longrightarrow>
      (\<exists>d. datetime_new C (f\<lparr>fld_nanosecond := fld_nanosecond f div 1000000 * 1000000\<rparr>) = Some d
        \<and> timestamp_try_from_bytes C (timestamp_as_bytes C ts) = Inr (ts\<lparr>ts_datetime := d\<rparr>)))
    \<and> (timestamp_try_from_bytes C bs = Inr ts' \<and> unat (u16_from_le (bs ! 8) (bs ! 9)) < 4295 \<longrightarrow>
      timestamp_as_bytes C ts' = (take 16 bs)[7 := 1, 13 := 0, 14 := 0, 15 := 0])"
  using lawful_calendar.written_then_read[OF assms] lawful_calendar.read_then_written[OF assms] by blast

text \<open>The leap day of 2024, with nanoseconds; and 4295 milliseconds, which wrap around in 32 bits.\<close>

definition leap_day :: "Month DatetimeFields" where
  "leap_day = \<lparr>fld_year = 2024, fld_month = February, fld_day = 29, fld_hour = 12, fld_minute = 34,
     fld_second = 56, fld_nanosecond = 789012345\<rparr>"

definition leap_timestamp :: "Month DatetimeFields AcpiTimestamp" where
  "leap_timestamp = \<lparr>ts_datetime = leap_day, ts_time_zone = MinutesFromUtc (AcpiTimeZoneOffset (- 300)),
     ts_dst_status = Adjusted\<rparr>"

lemma leap_day_exists: "datetime_new gregorian leap_day = Some leap_day"
  by (simp add: gregorian_def leap_day_def days_in_month_def leap_year_def)

theorem timestamp_bytes_roundtrip_witness:
  "timestamp_try_from_bytes gregorian (timestamp_as_bytes gregorian leap_timestamp)
     = Inr (leap_timestamp\<lparr>ts_datetime := leap_day\<lparr>fld_nanosecond := 789000000\<rparr>\<rparr>)"
proof -
  have "datetime_new gregorian leap_day = Some (ts_datetime leap_timestamp)"
    "valid_time_zone (ts_time_zone leap_timestamp)"
    by (simp_all add: leap_day_exists leap_timestamp_def offset_new_def)
  with timestamp_bytes_roundtrip [OF gregorian.lawful_calendar_axioms, of leap_day leap_timestamp]
  obtain d where "datetime_new gregorian (leap_day\<lparr>fld_nanosecond := 789000000\<rparr>) = Some d"
    "timestamp_try_from_bytes gregorian (timestamp_as_bytes gregorian leap_timestamp)
       = Inr (leap_timestamp\<lparr>ts_datetime := d\<rparr>)"
    by (auto simp: leap_day_def)
  moreover have "datetime_new gregorian f = Some d \<Longrightarrow> d = f" for f d
    by (simp add: gregorian_def split: if_splits)
  ultimately show ?thesis by blast
qed

lemma wrapped_milliseconds_are_accepted:
  "timestamp_try_from_bytes gregorian [0xE8, 7, 2, 29, 12, 34, 56, 1, 0xC7, 0x10, 0xD4, 0xFE, 3, 0, 0, 0]
     = Inr (leap_timestamp\<lparr>ts_datetime := leap_day\<lparr>fld_nanosecond := 32704\<rparr>\<rparr>)"
proof -
  have fields: "u16_from_le 0xE8 7 = 2024" "u16_from_le 0xC7 0x10 = 4295" "u16_from_le 0xD4 0xFE = - 300"
    by (simp_all add: u16_from_le_def)
  have "month_try_from gregorian 2 = Some February" by (simp add: gregorian_def months_def)
  moreover have "datetime_new gregorian \<lparr>fld_year = 2024, fld_month = February, fld_day = 29, fld_hour = 12,
      fld_minute = 34, fld_second = 56, fld_nanosecond = 32704\<rparr> = Some (leap_day\<lparr>fld_nanosecond := 32704\<rparr>)"
    by (simp add: gregorian_def leap_day_def days_in_month_def leap_year_def)
  moreover have "time_zone_try_from (- 300) = Inr (MinutesFromUtc (AcpiTimeZoneOffset (- 300)))"
    by (simp add: time_zone_try_from_def offset_new_def)
  moreover have "dst_try_from 3 = Some Adjusted" by (simp add: dst_try_from_def)
  moreover have wrap: "(4295000000 :: u32) = 32704" by simp
  ultimately show ?thesis
    by (simp add: timestamp_try_from_bytes_def raw_ref_from_bytes_def fields leap_timestamp_def Let_def wrap)
qed

end
