(* ===== verification/Alarm_Timer.thy ===== *)
theory Alarm_Timer
  imports Acpi_Timestamp
begin

text \<open>
  One wake timer of the time-alarm service: \<open>time-alarm-service/src/timer.rs\<close>. The clock, the
  non-volatile storage and \<open>Datetime\<close> come from \<open>embedded_mcu_hal\<close> and are the parameter \<open>hal\<close>; a
  \<open>Signal\<close> holds the last value signalled until it is taken. A method that runs under the lock of the timer
  is one call; \<open>wait_until_wake\<close> gives up the processor only where it awaits, so it is a state of
  its own (\<open>Waiter\<close>) with a step for each way an await ends. Arithmetic on \<open>u32\<close> wraps as in a
  release build.
\<close>

subsection \<open>Parameters\<close>

record ('ck, 'dt, 'n) hal =
  clock_now :: "'ck \<Rightarrow> (DatetimeClockError, 'dt) result"
  clock_set :: "'dt \<Rightarrow> ('ck, DatetimeClockError, unit) action"
  nv_read :: "'n \<Rightarrow> u32"
  nv_write :: "u32 \<Rightarrow> 'n \<Rightarrow> 'n"
  unix_timestamp :: "'dt \<Rightarrow> u64"
  from_unix_timestamp :: "u64 \<Rightarrow> 'dt"

definition saturating_sub :: "'w::len word \<Rightarrow> 'w word \<Rightarrow> 'w word" where
  "saturating_sub a b = (if a < b then 0 else a - b)"

subsection \<open>State\<close>

datatype 'dt WakeState =
    Clear
  | Armed
  | ExpiredWaitingForPolicyDelay 'dt u32
  | ExpiredWaitingForPowerSource u32
  | ExpiredOrphaned

record ('dt, 'n) Timer =
  expiration_time_storage :: 'n
  wake_policy_storage :: 'n
  wake_state :: "'dt WakeState"
  timer_status :: TimerStatus
  timer_active :: bool
  timer_signal :: "u32 option option"

definition timer_new :: "'n \<Rightarrow> 'n \<Rightarrow> ('dt, 'n) Timer" where
  "timer_new expiration policy =
     \<lparr>expiration_time_storage = expiration, wake_policy_storage = policy, wake_state = Clear,
      timer_status = 0, timer_active = False, timer_signal = None\<rparr>"

definition signal :: "u32 option \<Rightarrow> ('dt, 'n) Timer \<Rightarrow> ('dt, 'n) Timer" where
  "signal d t = t\<lparr>timer_signal := Some d\<rparr>"

definition NO_EXPIRATION_TIME :: u32 where "NO_EXPIRATION_TIME = - 1"

definition get_timer_wake_policy :: "('ck, 'dt, 'n) hal \<Rightarrow> ('dt, 'n) Timer \<Rightarrow> AlarmExpiredWakePolicy" where
  "get_timer_wake_policy H t = nv_read H (wake_policy_storage t)"

definition store_wake_policy ::
  "('ck, 'dt, 'n) hal \<Rightarrow> AlarmExpiredWakePolicy \<Rightarrow> ('dt, 'n) Timer \<Rightarrow> ('dt, 'n) Timer" where
  "store_wake_policy H p t = t\<lparr>wake_policy_storage := nv_write H p (wake_policy_storage t)\<rparr>"

definition get_expiration_time :: "('ck, 'dt, 'n) hal \<Rightarrow> ('dt, 'n) Timer \<Rightarrow> 'dt option" where
  "get_expiration_time H t =
     (let secs = nv_read H (expiration_time_storage t)
      in if secs = NO_EXPIRATION_TIME then None else Some (from_unix_timestamp H (ucast secs)))"

definition store_expiration_time :: "('ck, 'dt, 'n) hal \<Rightarrow> 'dt option \<Rightarrow> ('dt, 'n) Timer \<Rightarrow> ('dt, 'n) Timer" where
  "store_expiration_time H e t =
     t\<lparr>expiration_time_storage :=
         nv_write H (case e of Some dt \<Rightarrow> ucast (unix_timestamp H dt) | None \<Rightarrow> NO_EXPIRATION_TIME)
           (expiration_time_storage t)\<rparr>"

subsection \<open>Operations\<close>

definition clear_expiration_time :: "('ck, 'dt, 'n) hal \<Rightarrow> ('dt, 'n) Timer \<Rightarrow> ('dt, 'n) Timer" where
  "clear_expiration_time H t = signal None ((store_expiration_time H None t)\<lparr>wake_state := Clear\<rparr>)"

definition clear_wake_status :: "('dt, 'n) Timer \<Rightarrow> ('dt, 'n) Timer" where
  "clear_wake_status t = t\<lparr>timer_status := 0\<rparr>"

definition set_timer_wake_policy ::
  "('ck, 'dt, 'n) hal \<Rightarrow> 'ck \<Rightarrow> AlarmExpiredWakePolicy \<Rightarrow> (('dt, 'n) Timer, DatetimeClockError, unit) action" where
  "set_timer_wake_policy H ck wake_policy t =
     (case wake_state t of
        ExpiredWaitingForPolicyDelay _ _ \<Rightarrow>
          (case clock_now H ck of
             Inl e \<Rightarrow> (Inl e, t)
           | Inr now \<Rightarrow>
               (Inr (), store_wake_policy H wake_policy
                  (signal (Some wake_policy) (t\<lparr>wake_state := ExpiredWaitingForPolicyDelay now 0\<rparr>))))
      | _ \<Rightarrow> (Inr (), store_wake_policy H wake_policy t))"

definition set_expiration_time ::
  "('ck, 'dt, 'n) hal \<Rightarrow> 'ck \<Rightarrow> 'dt option \<Rightarrow> (('dt, 'n) Timer, DatetimeClockError, unit) action" where
  "set_expiration_time H ck expiration_time t =
     (let t = t\<lparr>timer_status := 0\<rparr>
      in case expiration_time of
           None \<Rightarrow> (Inr (), clear_expiration_time H t)
         | Some dt \<Rightarrow>
             (case clock_now H ck of
                Inl e \<Rightarrow> (Inl e, t)
              | Inr now \<Rightarrow>
                  (Inr (),
                   (store_expiration_time H expiration_time
                      (signal (Some (ucast (saturating_sub (unix_timestamp H dt) (unix_timestamp H now)))) t))
                     \<lparr>wake_state := Armed\<rparr>)))"

definition set_active :: "('ck, 'dt, 'n) hal \<Rightarrow> 'ck \<Rightarrow> bool \<Rightarrow> ('dt, 'n) Timer \<Rightarrow> ('dt, 'n) Timer" where
  "set_active H ck active t =
     (let was_active = timer_active t;
          t = t\<lparr>timer_active := active\<rparr>
      in if was_active = active then t
         else if \<not> was_active
         then (case wake_state t of
                 ExpiredWaitingForPowerSource elapsed \<Rightarrow>
                   (case clock_now H ck of
                      Inr now \<Rightarrow>
                        signal (Some (saturating_sub (get_timer_wake_policy H t) elapsed))
                          (t\<lparr>wake_state := ExpiredWaitingForPolicyDelay now elapsed\<rparr>)
                    | Inl _ \<Rightarrow> signal (Some 0) (t\<lparr>wake_state := Armed\<rparr>))
               | _ \<Rightarrow> t)
         else (case wake_state t of
                 ExpiredWaitingForPolicyDelay start before \<Rightarrow>
                   (let total = (case clock_now H ck of
                                   Inr now \<Rightarrow>
                                     before + ucast (saturating_sub (unix_timestamp H now) (unix_timestamp H start))
                                 | Inl _ \<Rightarrow> - 1)
                    in signal None (t\<lparr>wake_state := ExpiredWaitingForPowerSource total\<rparr>))
               | _ \<Rightarrow> t))"

definition timer_start ::
  "('ck, 'dt, 'n) hal \<Rightarrow> 'ck \<Rightarrow> bool \<Rightarrow> (('dt, 'n) Timer, DatetimeClockError, unit) action" where
  "timer_start H ck active =
     and_then (\<lambda>t. set_timer_wake_policy H ck (get_timer_wake_policy H t) t) (\<lambda>_.
     and_then (\<lambda>t. set_expiration_time H ck (get_expiration_time H t) t) (\<lambda>_.
     modify (set_active H ck active)))"

text \<open>The part of \<open>process_expired_timer\<close> after the checks: the alarm has expired.\<close>

definition expire :: "('ck, 'dt, 'n) hal \<Rightarrow> ('dt, 'n) Timer \<Rightarrow> bool \<times> ('dt, 'n) Timer" where
  "expire H t =
     (let t = t\<lparr>timer_status := set_timer_expired True (timer_status t)\<rparr>
      in if timer_active t
         then (True, clear_expiration_time H
                 (store_wake_policy H NEVER (t\<lparr>timer_status := set_timer_triggered_wake True (timer_status t)\<rparr>)))
         else if get_timer_wake_policy H t = NEVER then (False, t\<lparr>wake_state := ExpiredOrphaned\<rparr>)
         else (False, t\<lparr>wake_state := ExpiredWaitingForPowerSource
                          (case wake_state t of
                             ExpiredWaitingForPolicyDelay _ _ \<Rightarrow> get_timer_wake_policy H t
                           | _ \<Rightarrow> 0)\<rparr>))"

text \<open>The states in which an elapsed sleep is the alarm.\<close>

fun pending :: "'dt WakeState \<Rightarrow> bool" where
  "pending Armed = True"
| "pending (ExpiredWaitingForPolicyDelay _ _) = True"
| "pending _ = False"

definition process_expired_timer ::
  "('ck, 'dt, 'n) hal \<Rightarrow> 'ck \<Rightarrow> ('dt, 'n) Timer \<Rightarrow> bool \<times> ('dt, 'n) Timer" where
  "process_expired_timer H ck t =
     (if \<not> pending (wake_state t) then (False, t)
      else case get_expiration_time H t of
             None \<Rightarrow> (False, t)
           | Some expiration \<Rightarrow>
               (case clock_now H ck of
                  Inr now \<Rightarrow>
                    if unix_timestamp H now < unix_timestamp H expiration
                    then (False, signal (Some (ucast (saturating_sub (unix_timestamp H expiration) (unix_timestamp H now))))
                                   (t\<lparr>wake_state := Armed\<rparr>))
                    else expire H t
                | Inl _ \<Rightarrow> expire H t))"

subsection \<open>The waiting task\<close>

text \<open>\<open>wait_until_wake\<close> awaits the signal, or a sleep of some seconds until a deadline and the signal.\<close>

datatype Waiter = AwaitSignal | Sleeping nat u32

definition start_wait :: "nat \<Rightarrow> u32 option \<Rightarrow> Waiter" where
  "start_wait time d = (case d of None \<Rightarrow> AwaitSignal | Some seconds \<Rightarrow> Sleeping (time + unat seconds) seconds)"

datatype wait_event = SignalTaken | SleepElapsed

text \<open>What an event makes of the waiter and the timer, and whether \<open>wait_until_wake\<close> returns; it is
  then called again. \<open>None\<close>: the event cannot happen.\<close>

definition wait_step ::
  "('ck, 'dt, 'n) hal \<Rightarrow> 'ck \<Rightarrow> nat \<Rightarrow> wait_event \<Rightarrow> Waiter \<times> ('dt, 'n) Timer
     \<Rightarrow> (bool \<times> Waiter \<times> ('dt, 'n) Timer) option" where
  "wait_step H ck time ev = (\<lambda>(w, t).
     case ev of
       SignalTaken \<Rightarrow> map_option (\<lambda>d. (False, start_wait time d, t\<lparr>timer_signal := None\<rparr>)) (timer_signal t)
     | SleepElapsed \<Rightarrow>
         (case w of
            AwaitSignal \<Rightarrow> None
          | Sleeping deadline seconds \<Rightarrow>
              if time < deadline then None
              else (case process_expired_timer H ck t of
                      (True, t') \<Rightarrow> Some (True, AwaitSignal, t')
                    | (False, t') \<Rightarrow> Some (False, start_wait time (Some seconds), t'))))"

end
