(* ===== verification/Time_Alarm.thy ===== *)
theory Time_Alarm
  imports Alarm_Timer
begin

text \<open>
  The time-alarm service: \<open>time-alarm-service/src/lib.rs\<close>, the mock hardware of \<open>mock.rs\<close>, and the
  service as it runs: its two timer tasks, its power source task, the calls of its clients and the
  passing of time, interleaved at will.
\<close>

subsection \<open>Time zone storage\<close>

text \<open>\<open>RawTimeZoneData\<close> as the \<open>u32\<close> it is transmuted to: the time zone in the lower half, the
  daylight savings status in the third byte.\<close>

definition set_data ::
  "('ck, 'dt, 'n) hal \<Rightarrow> AcpiTimeZone \<Rightarrow> AcpiDaylightSavingsTimeStatus \<Rightarrow> 'n \<Rightarrow> 'n" where
  "set_data H tz dst = nv_write H (ucast (time_zone_into tz) OR push_bit 16 (ucast (dst_into dst)))"

definition get_data :: "('ck, 'dt, 'n) hal \<Rightarrow> 'n \<Rightarrow> AcpiTimeZone \<times> AcpiDaylightSavingsTimeStatus" where
  "get_data H storage =
     (let representation = nv_read H storage
      in (case time_zone_try_from (ucast representation) of Inr tz \<Rightarrow> tz | Inl _ \<Rightarrow> TimeZoneUnknown,
          case dst_try_from (ucast (drop_bit 16 representation)) of Some dst \<Rightarrow> dst | None \<Rightarrow> NotObserved))"

subsection \<open>The service\<close>

record ('ck, 'dt, 'n) ServiceInner =
  datetime_clock :: 'ck
  tz_data :: 'n
  power_source_signal :: "AcpiTimerId option"
  ac_timer :: "('dt, 'n) Timer"
  dc_timer :: "('dt, 'n) Timer"
  service_capabilities :: TimeAlarmDeviceCapabilities

fun get_timer :: "AcpiTimerId \<Rightarrow> ('ck, 'dt, 'n) ServiceInner \<Rightarrow> ('dt, 'n) Timer" where
  "get_timer AcPower s = ac_timer s"
| "get_timer DcPower s = dc_timer s"

text \<open>The service after a call on one of its timers.\<close>

fun put_timer :: "AcpiTimerId \<Rightarrow> ('dt, 'n) Timer \<Rightarrow> ('ck, 'dt, 'n) ServiceInner \<Rightarrow> ('ck, 'dt, 'n) ServiceInner" where
  "put_timer AcPower t s = s\<lparr>ac_timer := t\<rparr>"
| "put_timer DcPower t s = s\<lparr>dc_timer := t\<rparr>"

definition on_timer ::
  "AcpiTimerId \<Rightarrow> (('dt, 'n) Timer, 'e, 'a) action \<Rightarrow> (('ck, 'dt, 'n) ServiceInner, 'e, 'a) action" where
  "on_timer tid m s = (case m (get_timer tid s) of (r, t) \<Rightarrow> (r, put_timer tid t s))"

definition all_capabilities :: TimeAlarmDeviceCapabilities where
  "all_capabilities =
     put_bit 8 True (put_bit 7 True (put_bit 6 True (put_bit 5 True (put_bit 4 True
       (put_bit 3 False (put_bit 2 True (put_bit 1 True (put_bit 0 True 0))))))))"

definition service_new ::
  "('ck, 'dt, 'n) hal \<Rightarrow> 'ck \<Rightarrow> 'n \<Rightarrow> 'n \<Rightarrow> 'n \<Rightarrow> 'n \<Rightarrow> 'n
     \<Rightarrow> (DatetimeClockError, ('ck, 'dt, 'n) ServiceInner) result" where
  "service_new H ck tz ac_expiration ac_policy dc_expiration dc_policy =
     (case timer_start H ck True (timer_new ac_expiration ac_policy) of
        (Inl e, _) \<Rightarrow> Inl e
      | (Inr _, ac) \<Rightarrow>
          (case timer_start H ck False (timer_new dc_expiration dc_policy) of
             (Inl e, _) \<Rightarrow> Inl e
           | (Inr _, dc) \<Rightarrow>
               Inr \<lparr>datetime_clock = ck, tz_data = tz, power_source_signal = None, ac_timer = ac,
                    dc_timer = dc, service_capabilities = all_capabilities\<rparr>))"

definition get_real_time ::
  "('ck, 'dt, 'n) hal \<Rightarrow> ('ck, 'dt, 'n) ServiceInner \<Rightarrow> (DatetimeClockError, 'dt AcpiTimestamp) result" where
  "get_real_time H s =
     map_sum (\<lambda>e. e) (\<lambda>datetime. case get_data H (tz_data s) of (tz, dst) \<Rightarrow>
         \<lparr>ts_datetime = datetime, ts_time_zone = tz, ts_dst_status = dst\<rparr>)
       (clock_now H (datetime_clock s))"

definition set_real_time ::
  "('ck, 'dt, 'n) hal \<Rightarrow> 'dt AcpiTimestamp \<Rightarrow> (('ck, 'dt, 'n) ServiceInner, DatetimeClockError, unit) action" where
  "set_real_time H ts s =
     (case clock_set H (ts_datetime ts) (datetime_clock s) of
        (Inl e, ck) \<Rightarrow> (Inl e, s\<lparr>datetime_clock := ck\<rparr>)
      | (Inr _, ck) \<Rightarrow>
          (Inr (), s\<lparr>datetime_clock := ck, tz_data := set_data H (ts_time_zone ts) (ts_dst_status ts) (tz_data s)\<rparr>))"

definition get_wake_status :: "AcpiTimerId \<Rightarrow> ('ck, 'dt, 'n) ServiceInner \<Rightarrow> TimerStatus" where
  "get_wake_status tid s = timer_status (get_timer tid s)"

definition service_clear_wake_status :: "AcpiTimerId \<Rightarrow> ('ck, 'dt, 'n) ServiceInner \<Rightarrow> ('ck, 'dt, 'n) ServiceInner" where
  "service_clear_wake_status tid s = put_timer tid (clear_wake_status (get_timer tid s)) s"

definition set_expired_timer_policy ::
  "('ck, 'dt, 'n) hal \<Rightarrow> AcpiTimerId \<Rightarrow> AlarmExpiredWakePolicy
     \<Rightarrow> (('ck, 'dt, 'n) ServiceInner, DatetimeClockError, unit) action" where
  "set_expired_timer_policy H tid policy s = on_timer tid (set_timer_wake_policy H (datetime_clock s) policy) s"

definition get_expired_timer_policy ::
  "('ck, 'dt, 'n) hal \<Rightarrow> AcpiTimerId \<Rightarrow> ('ck, 'dt, 'n) ServiceInner \<Rightarrow> AlarmExpiredWakePolicy" where
  "get_expired_timer_policy H tid s = get_timer_wake_policy H (get_timer tid s)"

definition set_timer_value ::
  "('ck, 'dt, 'n) hal \<Rightarrow> AcpiTimerId \<Rightarrow> AlarmTimerSeconds
     \<Rightarrow> (('ck, 'dt, 'n) ServiceInner, DatetimeClockError, unit) action" where
  "set_timer_value H tid v s =
     (if v = DISABLED then on_timer tid (set_expiration_time H (datetime_clock s) None) s
      else case clock_now H (datetime_clock s) of
             Inl e \<Rightarrow> (Inl e, s)
           | Inr now \<Rightarrow>
               on_timer tid (set_expiration_time H (datetime_clock s)
                 (Some (from_unix_timestamp H (unix_timestamp H now + ucast v)))) s)"

definition get_timer_value ::
  "('ck, 'dt, 'n) hal \<Rightarrow> AcpiTimerId \<Rightarrow> ('ck, 'dt, 'n) ServiceInner \<Rightarrow> (DatetimeClockError, AlarmTimerSeconds) result" where
  "get_timer_value H tid s =
     (case get_expiration_time H (get_timer tid s) of
        None \<Rightarrow> Inr DISABLED
      | Some e \<Rightarrow>
          map_sum (\<lambda>e. e) (\<lambda>now. ucast (saturating_sub (unix_timestamp H e) (unix_timestamp H now)))
            (clock_now H (datetime_clock s)))"

subsection \<open>The running service\<close>

record ('ck, 'dt, 'n) Runner =
  service :: "('ck, 'dt, 'n) ServiceInner"
  ac_waiter :: Waiter
  dc_waiter :: Waiter
  uptime :: nat

fun get_waiter :: "AcpiTimerId \<Rightarrow> ('ck, 'dt, 'n) Runner \<Rightarrow> Waiter" where
  "get_waiter AcPower r = ac_waiter r"
| "get_waiter DcPower r = dc_waiter r"

fun put_waiter :: "AcpiTimerId \<Rightarrow> Waiter \<Rightarrow> ('ck, 'dt, 'n) Runner \<Rightarrow> ('ck, 'dt, 'n) Runner" where
  "put_waiter AcPower w r = r\<lparr>ac_waiter := w\<rparr>"
| "put_waiter DcPower w r = r\<lparr>dc_waiter := w\<rparr>"

definition run :: "('ck, 'dt, 'n) ServiceInner \<Rightarrow> ('ck, 'dt, 'n) Runner" where
  "run s = \<lparr>service = s, ac_waiter = AwaitSignal, dc_waiter = AwaitSignal, uptime = 0\<rparr>"

text \<open>\<open>handle_power_source_updates\<close>, from taking the signal on.\<close>

definition handle_power_source_update ::
  "('ck, 'dt, 'n) hal \<Rightarrow> AcpiTimerId \<Rightarrow> ('ck, 'dt, 'n) ServiceInner \<Rightarrow> ('ck, 'dt, 'n) ServiceInner" where
  "handle_power_source_update H new s =
     (let ck = datetime_clock s; other = get_other_timer_id new;
          s = put_timer other (set_active H ck False (get_timer other s)) (s\<lparr>power_source_signal := None\<rparr>)
      in put_timer new (set_active H ck True (get_timer new s)) s)"

text \<open>\<open>handle_timer\<close> after \<open>wait_until_wake\<close> has returned.\<close>

definition after_wake ::
  "('ck, 'dt, 'n) hal \<Rightarrow> AcpiTimerId \<Rightarrow> ('ck, 'dt, 'n) ServiceInner \<Rightarrow> ('ck, 'dt, 'n) ServiceInner" where
  "after_wake H tid s =
     snd (on_timer (get_other_timer_id tid) (set_timer_wake_policy H (datetime_clock s) NEVER) s)"

definition timer_task ::
  "('ck, 'dt, 'n) hal \<Rightarrow> AcpiTimerId \<Rightarrow> wait_event \<Rightarrow> ('ck, 'dt, 'n) Runner
     \<Rightarrow> (bool \<times> ('ck, 'dt, 'n) Runner) option" where
  "timer_task H tid ev r =
     map_option (\<lambda>(woken, w, t).
         let s = put_timer tid t (service r)
         in (woken, put_waiter tid w (r\<lparr>service := if woken then after_wake H tid s else s\<rparr>)))
       (wait_step H (datetime_clock (service r)) (uptime r) ev (get_waiter tid r, get_timer tid (service r)))"

text \<open>What can happen: the calls of \<open>TimeAlarmService\<close> that change the state, a change of the power
  source and its handling, an event of a timer task, and time: the clock moves on in any way.\<close>

datatype ('ck, 'dt) event =
    SetRealTime "'dt AcpiTimestamp"
  | ClearWakeStatus AcpiTimerId
  | SetExpiredTimerPolicy AcpiTimerId AlarmExpiredWakePolicy
  | SetTimerValue AcpiTimerId AlarmTimerSeconds
  | PowerSourceSignalled AcpiTimerId
  | PowerSourceHandled
  | TimerTask AcpiTimerId wait_event
  | Elapse 'ck nat

fun run_step ::
  "('ck, 'dt, 'n) hal \<Rightarrow> ('ck, 'dt) event \<Rightarrow> ('ck, 'dt, 'n) Runner \<Rightarrow> ('ck, 'dt, 'n) Runner option" where
  "run_step H (SetRealTime ts) r = Some (r\<lparr>service := snd (set_real_time H ts (service r))\<rparr>)"
| "run_step H (ClearWakeStatus tid) r = Some (r\<lparr>service := service_clear_wake_status tid (service r)\<rparr>)"
| "run_step H (SetExpiredTimerPolicy tid p) r =
     Some (r\<lparr>service := snd (set_expired_timer_policy H tid p (service r))\<rparr>)"
| "run_step H (SetTimerValue tid v) r = Some (r\<lparr>service := snd (set_timer_value H tid v (service r))\<rparr>)"
| "run_step H (PowerSourceSignalled tid) r = Some (r\<lparr>service := (service r)\<lparr>power_source_signal := Some tid\<rparr>\<rparr>)"
| "run_step H PowerSourceHandled r =
     map_option (\<lambda>tid. r\<lparr>service := handle_power_source_update H tid (service r)\<rparr>)
       (power_source_signal (service r))"
| "run_step H (TimerTask tid ev) r = map_option snd (timer_task H tid ev r)"
| "run_step H (Elapse ck n) r = Some (r\<lparr>service := (service r)\<lparr>datetime_clock := ck\<rparr>, uptime := uptime r + n\<rparr>)"

fun run_steps ::
  "('ck, 'dt, 'n) hal \<Rightarrow> ('ck, 'dt) event list \<Rightarrow> ('ck, 'dt, 'n) Runner \<Rightarrow> ('ck, 'dt, 'n) Runner option" where
  "run_steps H [] r = Some r"
| "run_steps H (ev # evs) r = (case run_step H ev r of None \<Rightarrow> None | Some r' \<Rightarrow> run_steps H evs r')"

definition reached :: "('ck, 'dt, 'n) hal \<Rightarrow> ('ck, 'dt, 'n) Runner \<Rightarrow> bool" where
  "reached H r \<longleftrightarrow>
     (\<exists>ck tz ae ap de dp s evs. service_new H ck tz ae ap de dp = Inr s \<and> run_steps H evs (run s) = Some r)"

subsection \<open>Mock hardware\<close>

text \<open>\<open>MockDatetimeClock\<close> and \<open>MockNvramStorage\<close> of \<open>mock.rs\<close>, at \<open>Datetime\<close>s that are whole seconds
  since 1970. The state of the clock holds what \<open>now_seconds\<close> returns.\<close>

datatype MockDatetimeClock = ClockRunning u64 | ClockPaused u64

record MockClock =
  now_seconds :: u64
  mock_mode :: MockDatetimeClock

definition mock_now :: "MockClock \<Rightarrow> (DatetimeClockError, u64) result" where
  "mock_now c = Inr (case mock_mode c of ClockPaused frozen \<Rightarrow> frozen | ClockRunning offset \<Rightarrow> now_seconds c + offset)"

definition mock_set :: "u64 \<Rightarrow> (MockClock, DatetimeClockError, unit) action" where
  "mock_set datetime c =
     (Inr (), c\<lparr>mock_mode := (case mock_mode c of
                               ClockPaused _ \<Rightarrow> ClockPaused datetime
                             | ClockRunning _ \<Rightarrow> ClockRunning (datetime - now_seconds c))\<rparr>)"

definition mock_hal :: "(MockClock, u64, u32) hal" where
  "mock_hal = \<lparr>clock_now = mock_now, clock_set = mock_set, nv_read = (\<lambda>n. n), nv_write = (\<lambda>v n. v),
     unix_timestamp = (\<lambda>t. t), from_unix_timestamp = (\<lambda>t. t)\<rparr>"

end
