(* ===== verification/Time_Alarm_Props.thy ===== *)
theory Time_Alarm_Props
  imports Time_Alarm
begin

text \<open>
  What holds of the time-alarm service however its tasks and its clients are interleaved: an armed
  timer is always watched by its task, a wake is due, an alarm does ring; and what does not: a policy
  delay after a sleep of no length.
\<close>

subsection \<open>Hardware\<close>

text \<open>The storage returns what was written, a \<open>Datetime\<close> keeps its seconds (until 2514), and a clock
  that has been set shows the time it was set to.\<close>

locale lawful_hal =
  fixes H :: "('ck, 'dt, 'n) hal"
  assumes nv_read_written [simp]: "nv_read H (nv_write H v n) = v"
    and unix_timestamp_from: "x < 2 ^ 34 \<Longrightarrow> unix_timestamp H (from_unix_timestamp H x) = x"
    and clock_shows: "clock_set H dt ck = (Inr (), ck') \<Longrightarrow>
      \<exists>now. clock_now H ck' = Inr now \<and> unix_timestamp H now = unix_timestamp H dt"
begin

lemma expiration_after_clear [simp]: "get_expiration_time H (clear_expiration_time H t) = None"
  by (simp add: get_expiration_time_def clear_expiration_time_def signal_def store_expiration_time_def)

text \<open>What the storage makes of a time: the seconds modulo \<open>2 ^ 32\<close>, with the last one standing for none.\<close>

lemma stored_expiration:
  "get_expiration_time H (store_expiration_time H (Some dt) t) =
     (if ucast (unix_timestamp H dt) = NO_EXPIRATION_TIME then None
      else Some (from_unix_timestamp H (ucast (ucast (unix_timestamp H dt) :: u32))))"
  by (simp add: get_expiration_time_def store_expiration_time_def Let_def)

end

interpretation mock: lawful_hal mock_hal
proof
  show "\<exists>now. clock_now mock_hal ck' = Inr now \<and> unix_timestamp mock_hal now = unix_timestamp mock_hal dt"
    if "clock_set mock_hal dt ck = (Inr (), ck')" for dt ck ck'
    using that by (auto simp: mock_hal_def mock_set_def mock_now_def split: MockDatetimeClock.splits)
qed (simp_all add: mock_hal_def)

subsection \<open>Watched timers\<close>

text \<open>
  What holds of a timer and its task: a pending timer has a wait in its signal that the task has yet to
  take, or the task sleeps; a policy delay runs only on the timer's own power source, and a wait for
  the power source only off it; a timer that has woken the host is cleared; a cleared timer has no
  expiration time.
\<close>

fun on_source :: "'dt WakeState \<Rightarrow> bool \<Rightarrow> bool" where
  "on_source (ExpiredWaitingForPolicyDelay _ _) active = active"
| "on_source (ExpiredWaitingForPowerSource _) active = (\<not> active)"
| "on_source _ active = True"

fun wait_ahead :: "Waiter \<Rightarrow> u32 option option \<Rightarrow> bool" where
  "wait_ahead w None = (w \<noteq> AwaitSignal)"
| "wait_ahead w (Some d) = (d \<noteq> None)"

definition watched :: "('ck, 'dt, 'n) hal \<Rightarrow> Waiter \<Rightarrow> ('dt, 'n) Timer \<Rightarrow> bool" where
  "watched H w t \<longleftrightarrow>
     (pending (wake_state t) \<longrightarrow> wait_ahead w (timer_signal t))
     \<and> on_source (wake_state t) (timer_active t)
     \<and> (timer_triggered_wake (timer_status t) \<longrightarrow> timer_expired (timer_status t) \<and> wake_state t = Clear)
     \<and> (wake_state t = Clear \<longrightarrow> get_expiration_time H t = None)"

lemmas timer_defs = signal_def store_wake_policy_def clear_wake_status_def

lemma get_expiration_cong [simp]:
  "get_expiration_time H (t\<lparr>wake_state := s\<rparr>) = get_expiration_time H t"
  "get_expiration_time H (t\<lparr>timer_status := st\<rparr>) = get_expiration_time H t"
  "get_expiration_time H (t\<lparr>timer_active := a\<rparr>) = get_expiration_time H t"
  "get_expiration_time H (t\<lparr>timer_signal := d\<rparr>) = get_expiration_time H t"
  "get_expiration_time H (t\<lparr>wake_policy_storage := n\<rparr>) = get_expiration_time H t"
  by (simp_all add: get_expiration_time_def)

lemma process_outcome:
  assumes "process_expired_timer H ck t = (b, t')"
  shows "(t' = t \<and> \<not> b) \<or> (pending (wake_state t) \<and> expire H t = (b, t'))
    \<or> (\<exists>x. pending (wake_state t) \<and> \<not> b \<and> t' = signal (Some x) (t\<lparr>wake_state := Armed\<rparr>))"
proof (cases "pending (wake_state t)")
  case True
  with assms show ?thesis
    by (cases "get_expiration_time H t"; cases "clock_now H ck") (auto simp: process_expired_timer_def split: if_splits)
qed (use assms in \<open>simp add: process_expired_timer_def\<close>)

context lawful_hal begin

lemma watched_clear_expiration: "timer_triggered_wake (timer_status t) \<longrightarrow> timer_expired (timer_status t)
    \<Longrightarrow> watched H w (clear_expiration_time H t)"
  using expiration_after_clear[of t]
  by (simp add: watched_def clear_expiration_time_def timer_defs store_expiration_time_def)

lemma watched_clear_status: "watched H w t \<Longrightarrow> watched H w (clear_wake_status t)"
  by (simp add: watched_def timer_defs)

lemma watched_set_policy: "watched H w t \<Longrightarrow> watched H w (snd (set_timer_wake_policy H ck p t))"
  by (auto simp: watched_def set_timer_wake_policy_def timer_defs split: WakeState.splits sum.splits option.splits)

lemma set_expiration_ok: "set_expiration_time H ck e t = (Inr (), u) \<Longrightarrow> watched H w u"
proof (cases e)
  case None
  then show "set_expiration_time H ck e t = (Inr (), u) \<Longrightarrow> ?thesis"
    using watched_clear_expiration[of "t\<lparr>timer_status := 0\<rparr>" w] by (auto simp: set_expiration_time_def)
next
  case (Some dt)
  then show "set_expiration_time H ck e t = (Inr (), u) \<Longrightarrow> ?thesis"
    by (auto simp: set_expiration_time_def Let_def watched_def timer_defs store_expiration_time_def split: sum.splits)
qed

lemma watched_set_expiration:
  assumes "watched H w t"
  shows "watched H w (snd (set_expiration_time H ck e t))"
proof (cases "set_expiration_time H ck e t")
  case (Pair r u)
  show ?thesis
  proof (cases r)
    case (Inl err)
    then have "u = t\<lparr>timer_status := 0\<rparr>"
      using Pair by (auto simp: set_expiration_time_def Let_def split: option.splits sum.splits)
    then show ?thesis using assms Pair by (simp add: watched_def)
  next
    case (Inr a)
    then show ?thesis using Pair set_expiration_ok by auto
  qed
qed

lemma watched_set_active: "watched H w t \<Longrightarrow> watched H w (set_active H ck a t)"
  by (auto simp: watched_def set_active_def timer_defs Let_def
      split: WakeState.splits sum.splits option.splits if_splits)

lemma watched_start:
  assumes "timer_start H ck a (timer_new e p) = (Inr (), t)"
  shows "watched H AwaitSignal t"
proof -
  let ?t = "store_wake_policy H (get_timer_wake_policy H (timer_new e p)) (timer_new e p)"
  obtain u where u: "set_expiration_time H ck (get_expiration_time H ?t) ?t = (Inr (), u)" "t = set_active H ck a u"
    using assms by (auto simp: timer_start_def and_then_def set_timer_wake_policy_def timer_new_def
        split: prod.splits sum.splits)
  then have "watched H AwaitSignal u" using set_expiration_ok by blast
  then show ?thesis using u(2) watched_set_active by simp
qed

lemma watched_expire:
  assumes "watched H w t" "pending (wake_state t)" "expire H t = (b, t')"
  shows "watched H w' t'"
proof (cases "timer_active t")
  case True
  then show ?thesis
    using assms(3) by (auto simp: expire_def Let_def store_wake_policy_def intro!: watched_clear_expiration)
next
  case False
  have "\<not> timer_triggered_wake (timer_status t)" using assms by (auto simp: watched_def)
  then show ?thesis
    using False assms(3) by (auto simp: expire_def Let_def watched_def split: if_splits)
qed

lemma watched_process:
  assumes "watched H w t" "w \<noteq> AwaitSignal" "process_expired_timer H ck t = (b, t')" "w' \<noteq> AwaitSignal \<or> b"
  shows "watched H w' t'"
proof -
  consider "t' = t" "\<not> b" | "expire H t = (b, t')" "pending (wake_state t)"
    | x where "pending (wake_state t)" "\<not> b" "t' = signal (Some x) (t\<lparr>wake_state := Armed\<rparr>)"
    using process_outcome[OF assms(3)] by blast
  then show ?thesis
  proof cases
    case 1
    then show ?thesis using assms by (cases "timer_signal t") (auto simp: watched_def)
  next
    case 2
    then show ?thesis using watched_expire[OF assms(1)] by blast
  next
    case 3
    then show ?thesis using assms(1) by (auto simp: watched_def timer_defs)
  qed
qed

lemma watched_wait_step:
  assumes "watched H w t" "wait_step H ck time ev (w, t) = Some (b, w', t')"
  shows "watched H w' t'"
proof (cases ev)
  case SignalTaken
  with assms(2) obtain d where d: "timer_signal t = Some d" "w' = start_wait time d" "t' = t\<lparr>timer_signal := None\<rparr>"
    by (auto simp: wait_step_def)
  with assms(1) show ?thesis by (auto simp: watched_def start_wait_def split: option.splits)
next
  case SleepElapsed
  with assms(2) obtain dl secs where w: "w = Sleeping dl secs" and
    p: "process_expired_timer H ck t = (b, t')" "w' = (if b then AwaitSignal else start_wait time (Some secs))"
    by (auto simp: wait_step_def split: Waiter.splits if_splits prod.splits bool.splits)
  show ?thesis
    by (rule watched_process[OF assms(1) _ p(1)]) (auto simp: w p(2) start_wait_def)
qed

end

subsection \<open>Which timer is active\<close>

lemma active_kept [simp]:
  "timer_active (snd (set_timer_wake_policy H ck p t)) = timer_active t"
  "timer_active (snd (set_expiration_time H ck e t)) = timer_active t"
  "timer_active (clear_wake_status t) = timer_active t"
  "timer_active (set_active H ck a t) = a"
  "timer_active (clear_expiration_time H t) = timer_active t"
  by (auto simp: set_timer_wake_policy_def set_expiration_time_def set_active_def clear_expiration_time_def
      timer_defs store_expiration_time_def Let_def split: WakeState.splits sum.splits option.splits)

lemma active_process: "process_expired_timer H ck t = (b, t') \<Longrightarrow> timer_active t' = timer_active t"
  using process_outcome[of H ck t b t']
  by (auto simp: expire_def Let_def timer_defs split: if_splits)

lemma active_wait_step: "wait_step H ck time ev (w, t) = Some (b, w', t') \<Longrightarrow> timer_active t' = timer_active t"
  by (auto simp: wait_step_def active_process split: wait_event.splits Waiter.splits if_splits prod.splits bool.splits)

lemma active_start: "timer_start H ck a t = (Inr (), t') \<Longrightarrow> timer_active t' = a"
  by (auto simp: timer_start_def and_then_def split: prod.splits sum.splits)

subsection \<open>The service\<close>

lemma get_put_timer [simp]: "get_timer i (put_timer j t s) = (if i = j then t else get_timer i s)"
  by (cases i; cases j) simp_all

lemma get_put_waiter [simp]: "get_waiter i (put_waiter j w r) = (if i = j then w else get_waiter i r)"
  by (cases i; cases j) simp_all

lemma put_kept [simp]:
  "datetime_clock (put_timer i t s) = datetime_clock s" "tz_data (put_timer i t s) = tz_data s"
  "power_source_signal (put_timer i t s) = power_source_signal s"
  "service (put_waiter i w r) = service r" "uptime (put_waiter i w r) = uptime r"
  "get_waiter i (r\<lparr>service := s'\<rparr>) = get_waiter i r" "get_waiter i (r\<lparr>uptime := n\<rparr>) = get_waiter i r"
  "get_timer i (s\<lparr>datetime_clock := ck\<rparr>) = get_timer i s" "get_timer i (s\<lparr>tz_data := z\<rparr>) = get_timer i s"
  "get_timer i (s\<lparr>power_source_signal := p\<rparr>) = get_timer i s"
  by (cases i; simp)+

lemma other_timer [simp]: "get_other_timer_id i \<noteq> i" "i \<noteq> get_other_timer_id i"
  by (cases i; simp)+

lemma snd_on_timer [simp]: "snd (on_timer i m s) = put_timer i (snd (m (get_timer i s))) s"
  by (simp add: on_timer_def split: prod.splits)

definition running_ok :: "('ck, 'dt, 'n) hal \<Rightarrow> ('ck, 'dt, 'n) Runner \<Rightarrow> bool" where
  "running_ok H r \<longleftrightarrow>
     (\<forall>i. watched H (get_waiter i r) (get_timer i (service r)))
     \<and> timer_active (ac_timer (service r)) \<noteq> timer_active (dc_timer (service r))"

lemma running_ok_same_active:
  assumes "running_ok H r" and "\<And>i. watched H (get_waiter i r') (get_timer i (service r'))"
    and "\<And>i. timer_active (get_timer i (service r')) = timer_active (get_timer i (service r))"
  shows "running_ok H r'"
  using assms(1,2) assms(3)[of AcPower] assms(3)[of DcPower] by (simp add: running_ok_def)

lemma running_okD: "running_ok H r \<Longrightarrow> watched H (get_waiter i r) (get_timer i (service r))"
  by (simp add: running_ok_def)

context lawful_hal begin

lemma running_ok_start: "service_new H ck tz ae ap de dp = Inr s \<Longrightarrow> running_ok H (run s)"
  unfolding running_ok_def
proof (intro conjI allI)
  assume "service_new H ck tz ae ap de dp = Inr s"
  then obtain ac dc where "timer_start H ck True (timer_new ae ap) = (Inr (), ac)"
    "timer_start H ck False (timer_new de dp) = (Inr (), dc)" "ac_timer s = ac" "dc_timer s = dc"
    by (auto simp: service_new_def split: prod.splits sum.splits)
  then show "watched H (get_waiter i (run s)) (get_timer i (service (run s)))"
    "timer_active (ac_timer (service (run s))) \<noteq> timer_active (dc_timer (service (run s)))" for i
    using watched_start active_start by (cases i; fastforce simp: run_def)+
qed

lemma running_ok_timer_task:
  assumes "running_ok H r" "timer_task H i ev r = Some (b, r')"
  shows "running_ok H r'"
proof -
  obtain w t where step: "wait_step H (datetime_clock (service r)) (uptime r) ev (get_waiter i r, get_timer i (service r))
      = Some (b, w, t)"
    and r': "r' = put_waiter i w (r\<lparr>service := if b then after_wake H i (put_timer i t (service r))
                                  else put_timer i t (service r)\<rparr>)"
    using assms(2) by (auto simp: timer_task_def Let_def)
  have "watched H w t" "timer_active t = timer_active (get_timer i (service r))"
    using watched_wait_step[OF _ step] active_wait_step[OF step] assms(1) by (auto simp: running_ok_def)
  then show ?thesis
    by (intro running_ok_same_active[OF assms(1)])
      (auto simp: r' after_wake_def watched_set_policy running_okD[OF assms(1)])
qed

lemma running_ok_power_source:
  assumes "running_ok H r"
  shows "running_ok H (r\<lparr>service := handle_power_source_update H i (service r)\<rparr>)"
proof -
  have "watched H (get_waiter j r) (get_timer j (handle_power_source_update H i (service r)))" for j
    using running_okD[OF assms]
    by (cases "j = i"; cases "j = get_other_timer_id i") (auto simp: handle_power_source_update_def Let_def watched_set_active)
  moreover have "timer_active (get_timer AcPower (handle_power_source_update H i (service r)))
      \<noteq> timer_active (get_timer DcPower (handle_power_source_update H i (service r)))"
    by (cases i) (auto simp: handle_power_source_update_def Let_def)
  ultimately show ?thesis by (simp add: running_ok_def)
qed

lemma running_ok_step:
  assumes "running_ok H r" "run_step H ev r = Some r'"
  shows "running_ok H r'"
proof (cases ev)
  case PowerSourceHandled
  then show ?thesis using assms running_ok_power_source by auto
next
  case (TimerTask i ev')
  then show ?thesis using assms running_ok_timer_task by auto
next
  case (SetTimerValue i v)
  then show ?thesis
    using assms(2) running_okD[OF assms(1)]
    by (intro running_ok_same_active[OF assms(1)])
      (auto simp: set_timer_value_def watched_set_expiration split: sum.splits if_splits)
qed (use assms(2) running_okD[OF assms(1)] in \<open>auto intro!: running_ok_same_active[OF assms(1)]
      simp: service_clear_wake_status_def set_expired_timer_policy_def set_real_time_def
        watched_clear_status watched_set_policy split: prod.splits sum.splits if_splits\<close>)

lemma running_ok_steps: "running_ok H r \<Longrightarrow> run_steps H evs r = Some r' \<Longrightarrow> running_ok H r'"
  by (induction evs arbitrary: r) (auto split: option.splits dest: running_ok_step)

lemma reached_ok: "reached H r \<Longrightarrow> running_ok H r"
  using running_ok_start running_ok_steps unfolding reached_def by blast

lemma wake_outcome:
  assumes "wait_step H ck time ev (w, t) = Some (True, w', t')"
  shows "timer_active t \<and> pending (wake_state t) \<and> w' = AwaitSignal
    \<and> (\<exists>e. get_expiration_time H t = Some e
         \<and> (\<forall>now. clock_now H ck = Inr now \<longrightarrow> unix_timestamp H e \<le> unix_timestamp H now))
    \<and> timer_expired (timer_status t') \<and> timer_triggered_wake (timer_status t')
    \<and> wake_state t' = Clear \<and> get_expiration_time H t' = None \<and> get_timer_wake_policy H t' = NEVER"
proof -
  have p: "process_expired_timer H ck t = (True, t')" "w' = AwaitSignal"
    using assms by (auto simp: wait_step_def split: wait_event.splits Waiter.splits if_splits prod.splits bool.splits)
  then have "expire H t = (True, t')" "pending (wake_state t)"
    using process_outcome[OF p(1)] by (auto simp: timer_defs)
  moreover from this have "timer_active t" by (auto simp: expire_def Let_def split: if_splits)
  moreover have "\<exists>e. get_expiration_time H t = Some e
      \<and> (\<forall>now. clock_now H ck = Inr now \<longrightarrow> unix_timestamp H e \<le> unix_timestamp H now)"
    using p(1) by (auto simp: process_expired_timer_def not_less split: if_splits option.splits sum.splits)
  moreover have "timer_expired (timer_status t') \<and> timer_triggered_wake (timer_status t')
      \<and> wake_state t' = Clear \<and> get_timer_wake_policy H t' = NEVER"
    using \<open>expire H t = (True, t')\<close>
    by (auto simp: expire_def Let_def clear_expiration_time_def timer_defs store_expiration_time_def
        get_timer_wake_policy_def split: if_splits)
  moreover have "get_expiration_time H t' = None"
    using \<open>expire H t = (True, t')\<close> by (auto simp: expire_def Let_def split: if_splits)
  ultimately show ?thesis using p(2) by blast
qed

lemma due_alarm_expires:
  assumes "pending (wake_state t)" "timer_active t" "get_expiration_time H t = Some e"
    "clock_now H ck = Inr now" "unix_timestamp H e \<le> unix_timestamp H now" "deadline \<le> time"
  shows "\<exists>t'. wait_step H ck time SleepElapsed (Sleeping deadline seconds, t) = Some (True, AwaitSignal, t')"
  using assms by (auto simp: wait_step_def process_expired_timer_def expire_def Let_def not_le[symmetric])

end

subsection \<open>Properties\<close>

text \<open>However clients, power source changes and the two timer tasks are interleaved: an armed timer and
  one in its policy delay always have a wait ahead, in the signal or in a sleeping task; a policy delay
  only runs on the timer's own power source; a timer that reports a wake is cleared; a cleared timer has no
  expiration time; and exactly one of the two timers is active.\<close>

theorem timers_are_watched:
  assumes "lawful_hal H" and "reached H r"
  shows "watched H (get_waiter i r) (get_timer i (service r))
    \<and> timer_active (ac_timer (service r)) \<noteq> timer_active (dc_timer (service r))"
  using lawful_hal.reached_ok[OF assms] by (simp add: running_ok_def)

text \<open>C5. A timer task wakes the host only when its timer is active and armed (or in its policy delay) and
  the expiration time has come, unless the clock fails; afterwards the timer reports expiry and wake, has no
  expiration time, is cleared, and both timers have the policy never to wake, if the clock works.\<close>

theorem wake_is_due:
  assumes "lawful_hal H" and "timer_task H i ev r = Some (True, r')"
  shows "let t = get_timer i (service r); t' = get_timer i (service r'); clock = clock_now H (datetime_clock (service r))
    in timer_active t \<and> pending (wake_state t)
     \<and> (\<exists>e. get_expiration_time H t = Some e
          \<and> (\<forall>now. clock = Inr now \<longrightarrow> unix_timestamp H e \<le> unix_timestamp H now))
     \<and> timer_expired (timer_status t') \<and> timer_triggered_wake (timer_status t')
     \<and> wake_state t' = Clear \<and> get_expiration_time H t' = None \<and> get_expired_timer_policy H i (service r') = NEVER
     \<and> (is_ok clock \<longrightarrow> get_expired_timer_policy H (get_other_timer_id i) (service r') = NEVER)"
proof -
  obtain w t where step: "wait_step H (datetime_clock (service r)) (uptime r) ev (get_waiter i r, get_timer i (service r))
      = Some (True, w, t)"
    and r': "r' = put_waiter i w (r\<lparr>service := after_wake H i (put_timer i t (service r))\<rparr>)"
    using assms(2) by (auto simp: timer_task_def Let_def split: if_splits)
  have "is_ok (clock_now H (datetime_clock (service r))) \<longrightarrow>
      get_timer_wake_policy H (snd (set_timer_wake_policy H (datetime_clock (service r)) NEVER u)) = NEVER" for u
    using lawful_hal.nv_read_written[OF assms(1)]
    by (auto simp: set_timer_wake_policy_def get_timer_wake_policy_def timer_defs
        split: WakeState.splits sum.splits)
  then show ?thesis
    using lawful_hal.wake_outcome[OF assms(1) step]
    by (simp add: r' after_wake_def get_expired_timer_policy_def Let_def)
qed

text \<open>C6. An alarm rings when it is due: the timer of the current power source that is set to go off in \<open>v\<close> seconds wakes the
  host when its task has slept for exactly \<open>v\<close> seconds and the clock has gone as far, and not after any shorter time. The
  clock works, and the expiry is before the last second of the 32-bit storage.\<close>

theorem alarm_rings:
  assumes "lawful_hal H" and "timer_active (get_timer i (service r))" and "v \<noteq> DISABLED"
    and "clock_now H (datetime_clock (service r)) = Inr start" and "unat (unix_timestamp H start) + unat v < 2 ^ 32 - 1"
    and "clock_now H ck = Inr now" and "unat (unix_timestamp H now) = unat (unix_timestamp H start) + unat v"
  shows "(\<exists>r'. run_steps H [SetTimerValue i v, TimerTask i SignalTaken, Elapse ck (unat v), TimerTask i SleepElapsed] r = Some r'
      \<and> timer_triggered_wake (get_wake_status i (service r')))
    \<and> (\<forall>ck' n. n < unat v \<longrightarrow> run_steps H [SetTimerValue i v, TimerTask i SignalTaken, Elapse ck' n, TimerTask i SleepElapsed] r = None)"
proof -
  let ?due = "unix_timestamp H start + ucast v"
  let ?t = "(store_expiration_time H (Some (from_unix_timestamp H ?due)) ((get_timer i (service r))\<lparr>timer_status := 0, timer_signal := None\<rparr>))
    \<lparr>wake_state := Armed\<rparr>"
  let ?q = "put_waiter i (Sleeping (uptime r + unat v) v) (r\<lparr>service := put_timer i ?t (service r)\<rparr>)"
  have fits: "unat ?due < 2 ^ 32 - 1" and due: "unat ?due = unat (unix_timestamp H start) + unat v"
    using assms(5) by (simp_all add: unat_word_ariths unsigned_ucast_eq take_bit_eq_mod)
  have seconds: "unix_timestamp H (from_unix_timestamp H ?due) = ?due"
    using fits by (intro lawful_hal.unix_timestamp_from[OF assms(1)]) (simp add: word_less_nat_alt)
  have wait: "ucast (saturating_sub ?due (unix_timestamp H start)) = v"
    using due by (simp add: saturating_sub_def word_less_nat_alt ucast_up_ucast_id is_up)
  have narrow: "unat (ucast ?due :: u32) = unat ?due"
    using fits unfolding unsigned_ucast_eq by (intro take_bit_nat_eq_self) simp
  have "unat NO_EXPIRATION_TIME = 2 ^ 32 - 1" by (simp add: NO_EXPIRATION_TIME_def unsigned_minus_1_eq_mask mask_eq_exp_minus_1)
  then have low: "ucast ?due \<noteq> NO_EXPIRATION_TIME" using narrow fits by auto
  have back_up: "ucast (ucast ?due :: u32) = ?due"
    using narrow by (simp add: word_unat_eq_iff unsigned_ucast_eq unsigned_take_bit_eq)
  have expiration: "get_expiration_time H ?t = Some (from_unix_timestamp H ?due)"
    using lawful_hal.stored_expiration[OF assms(1)] seconds low back_up by simp
  have asleep: "run_steps H [SetTimerValue i v, TimerTask i SignalTaken] r = Some ?q"
    using assms(3,4) seconds wait
    by (cases i) (simp_all add: set_timer_value_def on_timer_def set_expiration_time_def signal_def store_expiration_time_def
        timer_task_def wait_step_def start_wait_def Let_def)
  have rest: "run_steps H (SetTimerValue i v # TimerTask i SignalTaken # evs) r = run_steps H evs ?q" for evs
    using asleep by (auto simp del: run_step.simps split: option.splits)
  have "unix_timestamp H (from_unix_timestamp H ?due) \<le> unix_timestamp H now"
    using assms(7) due seconds by (simp add: word_le_nat_alt)
  from lawful_hal.due_alarm_expires[OF assms(1) _ _ expiration assms(6) this, of "uptime r + unat v" "uptime r + unat v" v] assms(2)
  obtain t' where woken: "wait_step H ck (uptime r + unat v) SleepElapsed (Sleeping (uptime r + unat v) v, ?t) = Some (True, AwaitSignal, t')"
    by (auto simp: store_expiration_time_def)
  then have "timer_triggered_wake (timer_status t')" using lawful_hal.wake_outcome[OF assms(1)] by blast
  then have "\<exists>r'. run_steps H [Elapse ck (unat v), TimerTask i SleepElapsed] ?q = Some r' \<and> timer_triggered_wake (get_wake_status i (service r'))"
    using woken by (simp add: timer_task_def Let_def after_wake_def get_wake_status_def)
  moreover have "run_steps H [Elapse ck' n, TimerTask i SleepElapsed] ?q = None" if "n < unat v" for ck' n
    using that by (simp add: timer_task_def wait_step_def)
  ultimately show ?thesis by (simp only: rest) blast
qed

text \<open>What \<open>get_timer_value\<close> returns after a successful \<open>set_timer_value\<close>: the value that was set, as
  long as its expiry is before the last second of the 32-bit storage (in 2106); else the value is lost.\<close>

theorem timer_value_reads_back:
  assumes "lawful_hal H" and "clock_now H (datetime_clock s) = Inr now" and "unat (unix_timestamp H now) < 2 ^ 32"
    and "set_timer_value H i v s = (Inr (), s')"
  shows "get_timer_value H i s' = Inr v \<longleftrightarrow>
    v = DISABLED \<or> unat (unix_timestamp H now) + unat v < 2 ^ 32 - 1"
proof (cases "v = DISABLED")
  case True
  with assms(4) show ?thesis
    using lawful_hal.expiration_after_clear[OF assms(1)]
    by (auto simp: set_timer_value_def on_timer_def set_expiration_time_def get_timer_value_def)
next
  case False
  let ?now = "unix_timestamp H now" and ?e = "from_unix_timestamp H (unix_timestamp H now + ucast v)"
  have sum: "unat (?now + ucast v) = unat ?now + unat v"
    using assms(3) unat_u32_less[of v] by (simp add: unat_word_ariths unat_ucast_widen)
  then have e: "unix_timestamp H ?e = ?now + ucast v"
    using assms(3) unat_u32_less[of v]
    by (intro lawful_hal.unix_timestamp_from[OF assms(1)]) (simp add: word_less_nat_alt)
  obtain u where s': "s' = put_timer i (u\<lparr>wake_state := Armed\<rparr>) s"
    and u: "get_expiration_time H u = (let w = ucast (unix_timestamp H ?e) :: u32
      in if w = NO_EXPIRATION_TIME then None else Some (from_unix_timestamp H (ucast w)))"
    using assms(2,4) False lawful_hal.stored_expiration[OF assms(1)]
    by (auto simp: set_timer_value_def on_timer_def set_expiration_time_def Let_def)
  have w: "unat (ucast (?now + ucast v) :: u32) = (unat ?now + unat v) mod 2 ^ 32"
    by (simp add: unsigned_ucast_eq take_bit_eq_mod sum)
  let ?N = "unat ?now" and ?V = "unat v" and ?w = "ucast (?now + ucast v) :: u32"
  have V: "?V < 2 ^ 32" "?V \<noteq> 2 ^ 32 - 1"
    using unat_u32_less[of v] False by (auto simp: DISABLED_def word_unat_eq_iff unat_u32_max)
  show ?thesis
  proof (cases "?w = NO_EXPIRATION_TIME")
    case True
    then have "get_timer_value H i s' = Inr DISABLED" using u e by (simp add: s' get_timer_value_def)
    moreover have "(?N + ?V) mod 2 ^ 32 = 2 ^ 32 - 1"
      using True w by (simp add: NO_EXPIRATION_TIME_def unat_u32_max)
    then have "\<not> ?N + ?V < 2 ^ 32 - 1" by (intro notI) simp
    ultimately show ?thesis using False by simp
  next
    case w': False
    have "unat (ucast ?w :: u64) < 2 ^ 34" using unat_u32_less[of ?w] by (simp add: unat_ucast_widen)
    then have "unix_timestamp H (from_unix_timestamp H (ucast ?w)) = ucast ?w"
      by (intro lawful_hal.unix_timestamp_from[OF assms(1)]) (simp add: word_less_nat_alt)
    then have got: "get_timer_value H i s' = Inr (ucast (saturating_sub (ucast ?w) ?now))"
      using u e w' assms(2) by (simp add: s' get_timer_value_def)
    have wide: "unat (ucast ?w :: u64) = (?N + ?V) mod 2 ^ 32" using w by (simp add: unat_ucast_widen)
    show ?thesis
    proof (cases "?N + ?V < 2 ^ 32")
      case True
      then have "?N + ?V \<noteq> 2 ^ 32 - 1"
        using w w' by (auto simp: NO_EXPIRATION_TIME_def word_unat_eq_iff unat_u32_max)
      moreover have "\<not> (ucast ?w :: u64) < ?now" using wide True by (simp add: word_less_nat_alt)
      then have "unat (saturating_sub (ucast ?w) ?now) = ?V"
        using wide True by (simp add: saturating_sub_def unat_sub word_le_nat_alt)
      then have "unat (ucast (saturating_sub (ucast ?w) ?now) :: u32) = ?V"
        using V(1) by (simp add: unsigned_ucast_eq take_bit_nat_eq_self)
      then have "ucast (saturating_sub (ucast ?w) ?now) = v" by (simp add: word_unat_eq_iff)
      ultimately show ?thesis using got True by simp
    next
      case False
      then have "(?N + ?V) mod 2 ^ 32 = ?N + ?V - 2 ^ 32" using assms(3) V(1) by (simp add: mod_if)
      then have "(ucast ?w :: u64) < ?now" using wide V(1) False by (simp add: word_less_nat_alt)
      then have "get_timer_value H i s' = Inr 0" using got by (simp add: saturating_sub_def)
      moreover have "v \<noteq> 0" using False assms(3) by auto
      ultimately show ?thesis using False \<open>v \<noteq> DISABLED\<close> by simp
    qed
  qed
qed

text \<open>A time that was set is read back, with its time zone and daylight savings status.\<close>

theorem real_time_reads_back:
  assumes "lawful_hal H" and "set_real_time H ts s = (Inr (), s')" and "valid_time_zone (ts_time_zone ts)"
  shows "\<exists>dt. get_real_time H s' = Inr (ts\<lparr>ts_datetime := dt\<rparr>) \<and> unix_timestamp H dt = unix_timestamp H (ts_datetime ts)"
proof -
  obtain ck where ck: "clock_set H (ts_datetime ts) (datetime_clock s) = (Inr (), ck)"
    and s': "s' = s\<lparr>datetime_clock := ck, tz_data := set_data H (ts_time_zone ts) (ts_dst_status ts) (tz_data s)\<rparr>"
    using assms(2) by (auto simp: set_real_time_def split: prod.splits sum.splits)
  from lawful_hal.clock_shows[OF assms(1) ck] obtain dt
    where "clock_now H ck = Inr dt" "unix_timestamp H dt = unix_timestamp H (ts_datetime ts)" by blast
  moreover have "get_data H (set_data H tz dst n) = (tz, dst)" if "valid_time_zone tz" for tz dst n
  proof -
    have "ucast (ucast (time_zone_into tz) OR push_bit 16 (ucast (dst_into dst)) :: u32) = time_zone_into tz"
      by (rule bit_word_eqI) (auto simp: bit_or_iff bit_push_bit_iff bit_unsigned_iff)
    moreover have "ucast (drop_bit 16 (ucast (time_zone_into tz) OR push_bit 16 (ucast (dst_into dst)) :: u32)) = dst_into dst"
      by (rule bit_word_eqI) (auto simp: bit_or_iff bit_push_bit_iff bit_unsigned_iff bit_drop_bit_eq dest: bit_imp_le_length)
    ultimately show ?thesis
      using that lawful_hal.nv_read_written[OF assms(1)] time_zone_try_from_iff[of "time_zone_into tz" tz]
        dst_try_from_iff[of "dst_into dst" dst]
      by (simp add: get_data_def set_data_def Let_def)
  qed
  ultimately show ?thesis using assms(3) by (intro exI[of _ dt]) (simp add: get_real_time_def s')
qed

text \<open>A task that sleeps for no time at all (after an alarm was set in the past, on the other power source)
  never gets off its processor: its sleep ends again and again without any change; and when its power source
  comes back, it wakes the host at once, whatever the policy delay.\<close>

theorem zero_wait_skips_policy:
  assumes "lawful_hal H" and "t = get_timer i (service r)" and "wake_state t = ExpiredWaitingForPowerSource k"
    and "\<not> timer_active t" and "timer_signal t = None"
    and "get_waiter i r = Sleeping (uptime r) 0" and "get_expiration_time H t = Some e"
    and "clock_now H (datetime_clock (service r)) = Inr now" and "unix_timestamp H e \<le> unix_timestamp H now"
  shows "run_step H (TimerTask i SleepElapsed) r = Some r
    \<and> (\<exists>r1 r2. run_steps H [PowerSourceSignalled i, PowerSourceHandled] r = Some r1
        \<and> wake_state (get_timer i (service r1)) = ExpiredWaitingForPolicyDelay now k
        \<and> run_step H (TimerTask i SleepElapsed) r1 = Some r2
        \<and> timer_triggered_wake (get_wake_status i (service r2)))"
proof -
  have stay: "put_waiter i (get_waiter i r) (r\<lparr>service := put_timer i (get_timer i (service r)) (service r)\<rparr>) = r"
    by (cases i) simp_all
  have "process_expired_timer H (datetime_clock (service r)) t = (False, t)"
    using assms(3) by (simp add: process_expired_timer_def)
  then have stay': "run_step H (TimerTask i SleepElapsed) r = Some r"
    using stay assms(2,6) by (simp add: timer_task_def wait_step_def start_wait_def Let_def)
  moreover define r1 where "r1 = r\<lparr>service := handle_power_source_update H i ((service r)\<lparr>power_source_signal := Some i\<rparr>)\<rparr>"
  have power: "run_steps H [PowerSourceSignalled i, PowerSourceHandled] r = Some r1" by (simp add: r1_def)
  moreover let ?u = "get_timer i (service r1)"
  have u: "?u = set_active H (datetime_clock (service r)) True t" and ck: "datetime_clock (service r1) = datetime_clock (service r)"
    using assms(2) by (simp_all add: r1_def handle_power_source_update_def Let_def)
  then have u': "wake_state ?u = ExpiredWaitingForPolicyDelay now k" "get_expiration_time H ?u = Some e"
    using assms(3,4,7,8) by (auto simp: set_active_def Let_def timer_defs)
  moreover from u' u have "pending (wake_state ?u)" "timer_active ?u" by simp_all
  moreover have "get_waiter i r1 = Sleeping (uptime r1) 0" using assms(6) by (simp add: r1_def)
  moreover obtain u' where "wait_step H (datetime_clock (service r1)) (uptime r1) SleepElapsed (Sleeping (uptime r1) 0, ?u)
      = Some (True, AwaitSignal, u')"
    using lawful_hal.due_alarm_expires[OF assms(1) calculation(5,6) u'(2) assms(8,9) order.refl] ck by metis
  moreover from this have "timer_triggered_wake (timer_status u')"
    using lawful_hal.wake_outcome[OF assms(1)] by blast
  moreover define r2 where "r2 = put_waiter i AwaitSignal (r1\<lparr>service := after_wake H i (put_timer i u' (service r1))\<rparr>)"
  ultimately have "run_step H (TimerTask i SleepElapsed) r1 = Some r2" "timer_triggered_wake (get_wake_status i (service r2))"
    by (simp_all add: timer_task_def Let_def after_wake_def get_wake_status_def)
  then show ?thesis using stay' power u'(1) by blast
qed

subsection \<open>Witnesses\<close>

text \<open>A service that starts at time 1000 with an alarm on external power that was due at 900, and one on
  battery power that was due at 500 and has a policy delay of 100 seconds.\<close>

definition demo_clock :: MockClock where
  "demo_clock = \<lparr>now_seconds = 1000, mock_mode = ClockPaused 1000\<rparr>"

definition demo_service :: "(MockClock, u64, u32) ServiceInner" where
  "demo_service =
     \<lparr>datetime_clock = demo_clock, tz_data = 0, power_source_signal = None,
      ac_timer = \<lparr>expiration_time_storage = 900, wake_policy_storage = 0, wake_state = Armed, timer_status = 0,
        timer_active = True, timer_signal = Some (Some 0)\<rparr>,
      dc_timer = \<lparr>expiration_time_storage = 500, wake_policy_storage = 100, wake_state = Armed, timer_status = 0,
        timer_active = False, timer_signal = Some (Some 0)\<rparr>,
      service_capabilities = all_capabilities\<rparr>"

lemmas mock_simps = mock_hal_def mock_now_def mock_set_def demo_clock_def

lemmas timer_op_simps = set_timer_wake_policy_def set_expiration_time_def set_active_def get_timer_wake_policy_def
  get_expiration_time_def store_expiration_time_def signal_def store_wake_policy_def saturating_sub_def
  NO_EXPIRATION_TIME_def Let_def

lemma demo_new: "service_new mock_hal demo_clock 0 900 0 500 100 = Inr demo_service"
  by (simp add: service_new_def timer_start_def timer_new_def mock_simps timer_op_simps demo_service_def)

lemma demo_reached: "reached mock_hal (run demo_service)"
  unfolding reached_def using demo_new by (intro exI conjI) (assumption, rule run_steps.simps(1))

lemma demo_expirations [simp]:
  "get_expiration_time mock_hal (ac_timer demo_service) = Some 900"
  "get_expiration_time mock_hal (dc_timer demo_service) = Some 500"
  by (simp_all add: get_expiration_time_def mock_hal_def demo_service_def NO_EXPIRATION_TIME_def)

lemma demo_time [simp]: "clock_now mock_hal demo_clock = Inr 1000" "unix_timestamp mock_hal x = x"
  by (simp_all add: mock_simps)

theorem timers_are_watched_witness:
  "watched mock_hal AwaitSignal (dc_timer demo_service) \<and> timer_active (ac_timer demo_service) \<noteq> timer_active (dc_timer demo_service)"
  using timers_are_watched [OF mock.lawful_hal_axioms demo_reached, of DcPower] by (simp add: run_def)

theorem alarm_rings_witness:
  "\<exists>r'. run_steps mock_hal [SetTimerValue AcPower 60, TimerTask AcPower SignalTaken,
        Elapse (demo_clock\<lparr>mock_mode := ClockPaused 1060\<rparr>) 60, TimerTask AcPower SleepElapsed] (run demo_service) = Some r'
    \<and> timer_triggered_wake (get_wake_status AcPower (service r'))"
proof -
  have "timer_active (get_timer AcPower (service (run demo_service)))"
    "clock_now mock_hal (datetime_clock (service (run demo_service))) = Inr 1000"
    "clock_now mock_hal (demo_clock\<lparr>mock_mode := ClockPaused 1060\<rparr>) = Inr 1060"
    by (simp_all add: run_def demo_service_def mock_hal_def mock_now_def demo_clock_def)
  from alarm_rings [OF mock.lawful_hal_axioms this(1) _ this(2) _ this(3), of 60] show ?thesis
    by (simp add: DISABLED_def del: run_steps.simps)
qed

text \<open>The states after a timer task has taken its signal, and after the sleep of no length.\<close>

definition demo_asleep :: "AcpiTimerId \<Rightarrow> (MockClock, u64, u32) Runner" where
  "demo_asleep i = put_waiter i (Sleeping 0 0)
     ((run demo_service)\<lparr>service := put_timer i ((get_timer i demo_service)\<lparr>timer_signal := None\<rparr>) demo_service\<rparr>)"

definition demo_expired :: "(MockClock, u64, u32) Runner" where
  "demo_expired = (demo_asleep DcPower)\<lparr>service := demo_service\<lparr>dc_timer := (dc_timer demo_service)
     \<lparr>timer_signal := None, timer_status := 1, wake_state := ExpiredWaitingForPowerSource 0\<rparr>\<rparr>\<rparr>"

lemma demo_expired_reached: "reached mock_hal demo_expired"
proof -
  have "run_step mock_hal (TimerTask DcPower SignalTaken) (run demo_service) = Some (demo_asleep DcPower)"
    by (simp add: timer_task_def wait_step_def start_wait_def run_def demo_asleep_def demo_service_def Let_def)
  moreover have "run_step mock_hal (TimerTask DcPower SleepElapsed) (demo_asleep DcPower) = Some demo_expired"
    by (simp add: timer_task_def wait_step_def start_wait_def run_def demo_asleep_def demo_expired_def Let_def
        process_expired_timer_def expire_def demo_service_def mock_simps timer_op_simps NEVER_def
        set_timer_expired_def put_bit_def)
  ultimately have "run_steps mock_hal [TimerTask DcPower SignalTaken, TimerTask DcPower SleepElapsed] (run demo_service)
      = Some demo_expired" by (simp del: run_step.simps)
  then show ?thesis unfolding reached_def using demo_new by blast
qed

theorem wake_is_due_witness:
  "\<exists>r'. timer_task mock_hal AcPower SleepElapsed (demo_asleep AcPower) = Some (True, r')
    \<and> timer_triggered_wake (timer_status (ac_timer (service r')))
    \<and> get_expired_timer_policy mock_hal DcPower (service r') = NEVER"
proof -
  obtain r' where "timer_task mock_hal AcPower SleepElapsed (demo_asleep AcPower) = Some (True, r')"
    by (simp add: timer_task_def wait_step_def start_wait_def run_def demo_asleep_def Let_def
        process_expired_timer_def expire_def demo_service_def mock_simps timer_op_simps)
  moreover have "datetime_clock (service (demo_asleep AcPower)) = demo_clock"
    by (simp add: demo_asleep_def demo_service_def run_def)
  ultimately show ?thesis
    using wake_is_due [OF mock.lawful_hal_axioms, of AcPower SleepElapsed "demo_asleep AcPower" r'] by (simp add: Let_def)
qed

theorem timer_value_reads_back_witness:
  "get_timer_value mock_hal DcPower (snd (set_timer_value mock_hal DcPower 60 demo_service)) = Inr 60"
proof -
  obtain s' where "set_timer_value mock_hal DcPower 60 demo_service = (Inr (), s')"
    by (cases "set_timer_value mock_hal DcPower 60 demo_service")
      (auto simp: set_timer_value_def demo_service_def mock_simps timer_op_simps on_timer_def DISABLED_def)
  with timer_value_reads_back [OF mock.lawful_hal_axioms _ _ this, of 1000] show ?thesis
    by (simp add: demo_service_def)
qed

theorem real_time_reads_back_witness:
  "\<exists>s'. set_real_time mock_hal \<lparr>ts_datetime = 1234, ts_time_zone = TimeZoneUnknown, ts_dst_status = Adjusted\<rparr> demo_service
      = (Inr (), s')
    \<and> get_real_time mock_hal s' = Inr \<lparr>ts_datetime = 1234, ts_time_zone = TimeZoneUnknown, ts_dst_status = Adjusted\<rparr>"
proof -
  let ?ts = "\<lparr>ts_datetime = 1234 :: u64, ts_time_zone = TimeZoneUnknown, ts_dst_status = Adjusted\<rparr>"
  obtain s' where "set_real_time mock_hal ?ts demo_service = (Inr (), s')"
    by (auto simp: set_real_time_def mock_simps)
  with real_time_reads_back [OF mock.lawful_hal_axioms this] show ?thesis by auto
qed

theorem zero_wait_skips_policy_witness:
  "reached mock_hal demo_expired \<and> get_expired_timer_policy mock_hal DcPower (service demo_expired) = 100
    \<and> (\<exists>r2. run_steps mock_hal [PowerSourceSignalled DcPower, PowerSourceHandled, TimerTask DcPower SleepElapsed] demo_expired
          = Some r2 \<and> timer_triggered_wake (get_wake_status DcPower (service r2)))"
proof -
  have "get_expiration_time mock_hal (dc_timer (service demo_expired)) = Some 500"
    by (simp add: demo_expired_def)
  then have "\<exists>r1 r2. run_steps mock_hal [PowerSourceSignalled DcPower, PowerSourceHandled] demo_expired = Some r1
      \<and> run_step mock_hal (TimerTask DcPower SleepElapsed) r1 = Some r2
      \<and> timer_triggered_wake (get_wake_status DcPower (service r2))"
    using zero_wait_skips_policy [OF mock.lawful_hal_axioms refl, of DcPower demo_expired 0 500 1000]
    by (auto simp: demo_expired_def demo_asleep_def demo_service_def run_def simp del: run_steps.simps run_step.simps)
  moreover have "get_expired_timer_policy mock_hal DcPower (service demo_expired) = 100"
    by (simp add: get_expired_timer_policy_def get_timer_wake_policy_def demo_expired_def demo_service_def mock_hal_def)
  ultimately show ?thesis using demo_expired_reached by (auto split: option.splits)
qed

end
