(* ===== verification/Mctp_Encoding.thy ===== *)
theory Mctp_Encoding
  imports Prelude
begin

text \<open>
  Byte-stuffing: \<open>mctp-rs/src/buffer_encoding.rs\<close> and \<open>SerialEncoding\<close> of
  \<open>medium/serial.rs\<close>. A \<open>BufferEncoding\<close> implementation is a record of its three associated
  functions; a mutable wire slice is a byte list that a write returns updated. The contract of the
  trait is the locale \<open>buffer_encoding\<close>, stated against the wire bytes \<open>stuff b\<close> of each payload
  byte, and both implementations are interpretations of it. The encoder and decoder cursors are
  proved against that contract once.
\<close>

datatype EncodeError = BufferFull

datatype DecodeError = PrematureEnd | InvalidEscape

text \<open>A write returns the number of wire bytes and the updated slice.\<close>

record encoding =
  enc_write_byte :: "u8 list \<Rightarrow> u8 \<Rightarrow> (EncodeError, nat \<times> u8 list) result"
  enc_read_byte :: "u8 list \<Rightarrow> (DecodeError, u8 \<times> nat) result"
  enc_wire_size_of :: "u8 list \<Rightarrow> nat"

subsection \<open>Passthrough\<close>

fun passthrough_write_byte :: "u8 list \<Rightarrow> u8 \<Rightarrow> (EncodeError, nat \<times> u8 list) result" where
  "passthrough_write_byte (_ # rest) b = Inr (1, b # rest)"
| "passthrough_write_byte [] b = Inl BufferFull"

fun passthrough_read_byte :: "u8 list \<Rightarrow> (DecodeError, u8 \<times> nat) result" where
  "passthrough_read_byte (b # _) = Inr (b, 1)"
| "passthrough_read_byte [] = Inl PrematureEnd"

definition passthrough_wire_size_of :: "u8 list \<Rightarrow> nat" where
  "passthrough_wire_size_of decoded = length decoded"

definition passthrough :: encoding where
  "passthrough = \<lparr>enc_write_byte = passthrough_write_byte, enc_read_byte = passthrough_read_byte,
     enc_wire_size_of = passthrough_wire_size_of\<rparr>"

subsection \<open>DSP0253 serial stuffing\<close>

definition serial_write_byte :: "u8 list \<Rightarrow> u8 \<Rightarrow> (EncodeError, nat \<times> u8 list) result" where
  "serial_write_byte wire_buf byte =
     (if byte = 0x7E then
        (if length wire_buf < 2 then Inl BufferFull else Inr (2, wire_buf[0 := 0x7D, 1 := 0x5E]))
      else if byte = 0x7D then
        (if length wire_buf < 2 then Inl BufferFull else Inr (2, wire_buf[0 := 0x7D, 1 := 0x5D]))
      else (case wire_buf of
          _ # rest \<Rightarrow> Inr (1, byte # rest)
        | [] \<Rightarrow> Inl BufferFull))"

definition serial_read_byte :: "u8 list \<Rightarrow> (DecodeError, u8 \<times> nat) result" where
  "serial_read_byte wire_buf =
     (case wire_buf of
        [] \<Rightarrow> Inl PrematureEnd
      | b # rest \<Rightarrow>
          if b = 0x7D then
            (case rest of
               [] \<Rightarrow> Inl PrematureEnd
             | c # _ \<Rightarrow>
                 if c = 0x5E then Inr (0x7E, 2)
                 else if c = 0x5D then Inr (0x7D, 2)
                 else Inl InvalidEscape)
          else Inr (b, 1))"

definition serial_wire_size_of :: "u8 list \<Rightarrow> nat" where
  "serial_wire_size_of decoded = (\<Sum>b\<leftarrow>decoded. if b = 0x7E \<or> b = 0x7D then 2 else 1)"

definition serial_encoding :: encoding where
  "serial_encoding = \<lparr>enc_write_byte = serial_write_byte, enc_read_byte = serial_read_byte,
     enc_wire_size_of = serial_wire_size_of\<rparr>"

subsection \<open>Cursors\<close>

record EncodingDecoder =
  dec_buf :: "u8 list"
  dec_wire_pos :: nat

definition decoder_new :: "u8 list \<Rightarrow> EncodingDecoder" where
  "decoder_new buf = \<lparr>dec_buf = buf, dec_wire_pos = 0\<rparr>"

definition read_decoded :: "encoding \<Rightarrow> (EncodingDecoder, DecodeError, u8) action" where
  "read_decoded E d =
     (case enc_read_byte E (drop (dec_wire_pos d) (dec_buf d)) of
        Inl e \<Rightarrow> (Inl e, d)
      | Inr (byte, n) \<Rightarrow> (Inr byte, d\<lparr>dec_wire_pos := dec_wire_pos d + n\<rparr>))"

record EncodingEncoder =
  enc_buf :: "u8 list"
  enc_wire_pos :: nat

definition encoder_new :: "u8 list \<Rightarrow> EncodingEncoder" where
  "encoder_new buf = \<lparr>enc_buf = buf, enc_wire_pos = 0\<rparr>"

definition write_encoded :: "encoding \<Rightarrow> u8 \<Rightarrow> (EncodingEncoder, EncodeError, unit) action" where
  "write_encoded E byte e =
     (case enc_write_byte E (drop (enc_wire_pos e) (enc_buf e)) byte of
        Inl x \<Rightarrow> (Inl x, e)
      | Inr (n, rest) \<Rightarrow>
          (Inr (), e\<lparr>enc_buf := take (enc_wire_pos e) (enc_buf e) @ rest,
                     enc_wire_pos := enc_wire_pos e + n\<rparr>))"

definition write_all :: "encoding \<Rightarrow> u8 list \<Rightarrow> (EncodingEncoder, EncodeError, unit) action" where
  "write_all E bytes = for_each (write_encoded E) bytes"

definition remaining_wire :: "EncodingEncoder \<Rightarrow> nat" where
  "remaining_wire e = length (enc_buf e) - enc_wire_pos e"

text \<open>Reading \<open>n\<close> decoded bytes, the loop every reader of a decoder runs.\<close>

primrec read_n :: "encoding \<Rightarrow> nat \<Rightarrow> (EncodingDecoder, DecodeError, u8 list) action" where
  "read_n E 0 = ok []"
| "read_n E (Suc n) = and_then (read_decoded E) (\<lambda>b. and_then (read_n E n) (\<lambda>bs. ok (b # bs)))"

subsection \<open>The contract of an encoding\<close>

locale buffer_encoding =
  fixes E :: encoding and stuff :: "u8 \<Rightarrow> u8 list"
  assumes write_byte: "enc_write_byte E buf b =
      (if length (stuff b) \<le> length buf
       then Inr (length (stuff b), stuff b @ drop (length (stuff b)) buf) else Inl BufferFull)"
    and read_stuffed: "enc_read_byte E (stuff b @ rest) = Inr (b, length (stuff b))"
    and read_empty: "enc_read_byte E [] = Inl PrematureEnd"
    and stuff_nonempty: "stuff b \<noteq> []"
    and wire_size_of: "enc_wire_size_of E bs = length (concat (map stuff bs))"
begin

definition stuffs :: "u8 list \<Rightarrow> u8 list" where
  "stuffs bs = concat (map stuff bs)"

lemma stuffs_simps [simp]:
  "stuffs [] = []" "stuffs (b # bs) = stuff b @ stuffs bs" "stuffs (bs @ cs) = stuffs bs @ stuffs cs"
  by (simp_all add: stuffs_def)

lemma wire_size_stuffs: "enc_wire_size_of E bs = length (stuffs bs)"
  by (simp add: wire_size_of stuffs_def)

lemma length_stuffs: "length bs \<le> length (stuffs bs)"
proof (induction bs)
  case (Cons b bs)
  then show ?case using stuff_nonempty[of b] by (cases "stuff b") auto
qed simp

lemma write_all_ok:
  assumes "enc_wire_pos e + length (stuffs bs) \<le> length (enc_buf e)"
  shows "write_all E bs e = (Inr (), e\<lparr>enc_buf := take (enc_wire_pos e) (enc_buf e) @ stuffs bs
            @ drop (enc_wire_pos e + length (stuffs bs)) (enc_buf e),
          enc_wire_pos := enc_wire_pos e + length (stuffs bs)\<rparr>)"
  using assms
proof (induction bs arbitrary: e)
  case Nil
  then show ?case by (simp add: write_all_def)
next
  case (Cons b bs)
  let ?e = "e\<lparr>enc_buf := take (enc_wire_pos e) (enc_buf e) @ stuff b
      @ drop (enc_wire_pos e + length (stuff b)) (enc_buf e), enc_wire_pos := enc_wire_pos e + length (stuff b)\<rparr>"
  have w: "write_encoded E b e = (Inr (), ?e)"
    using Cons.prems by (simp add: write_encoded_def write_byte add.commute)
  show ?case
    using Cons.prems Cons.IH[of ?e] w by (simp add: write_all_def ac_simps)
qed

lemma write_all_full:
  assumes "length (enc_buf e) < enc_wire_pos e + length (stuffs bs)" and "enc_wire_pos e \<le> length (enc_buf e)"
  shows "fst (write_all E bs e) = Inl BufferFull"
  using assms
proof (induction bs arbitrary: e)
  case Nil
  then show ?case by simp
next
  case (Cons b bs)
  show ?case
  proof (cases "enc_wire_pos e + length (stuff b) \<le> length (enc_buf e)")
    case True
    let ?e = "e\<lparr>enc_buf := take (enc_wire_pos e) (enc_buf e) @ stuff b
        @ drop (enc_wire_pos e + length (stuff b)) (enc_buf e), enc_wire_pos := enc_wire_pos e + length (stuff b)\<rparr>"
    have w: "write_encoded E b e = (Inr (), ?e)"
      using True by (simp add: write_encoded_def write_byte add.commute)
    from Cons.prems True Cons.IH[of ?e] w show ?thesis by (simp add: write_all_def)
  next
    case False
    then have "write_encoded E b e = (Inl BufferFull, e)"
      using Cons.prems by (simp add: write_encoded_def write_byte)
    then show ?thesis by (simp add: write_all_def)
  qed
qed

lemma read_n_stuffs:
  "read_n E (length bs) \<lparr>dec_buf = pre @ stuffs bs @ post, dec_wire_pos = length pre\<rparr>
     = (Inr bs, \<lparr>dec_buf = pre @ stuffs bs @ post, dec_wire_pos = length pre + length (stuffs bs)\<rparr>)"
proof (induction bs arbitrary: pre)
  case Nil
  then show ?case by simp
next
  case (Cons b bs)
  have r: "read_decoded E \<lparr>dec_buf = pre @ stuffs (b # bs) @ post, dec_wire_pos = length pre\<rparr>
      = (Inr b, \<lparr>dec_buf = (pre @ stuff b) @ stuffs bs @ post, dec_wire_pos = length (pre @ stuff b)\<rparr>)"
    by (simp add: read_decoded_def read_stuffed)
  show ?case
    using Cons.IH[of "pre @ stuff b"] by (simp add: r [simplified] add.assoc)
qed

lemma read_end:
  "read_decoded E \<lparr>dec_buf = buf, dec_wire_pos = length buf\<rparr> = (Inl PrematureEnd, \<lparr>dec_buf = buf, dec_wire_pos = length buf\<rparr>)"
  by (simp add: read_decoded_def read_empty)

end

interpretation passthrough: buffer_encoding passthrough "\<lambda>b. [b]"
proof
  fix buf :: "u8 list" and b :: u8 and bs rest :: "u8 list"
  show "enc_write_byte passthrough buf b = (if length [b] \<le> length buf
      then Inr (length [b], [b] @ drop (length [b]) buf) else Inl BufferFull)"
    by (cases buf) (simp_all add: passthrough_def)
  show "enc_wire_size_of passthrough bs = length (concat (map (\<lambda>b. [b]) bs))"
    by (simp add: passthrough_def passthrough_wire_size_of_def)
qed (simp_all add: passthrough_def)

text \<open>The wire bytes of one payload byte on the serial medium.\<close>

definition serial_stuff :: "u8 \<Rightarrow> u8 list" where
  "serial_stuff b = (if b = 0x7E then [0x7D, 0x5E] else if b = 0x7D then [0x7D, 0x5D] else [b])"

interpretation serial: buffer_encoding serial_encoding serial_stuff
proof
  fix buf :: "u8 list" and b :: u8 and bs rest :: "u8 list"
  show "enc_write_byte serial_encoding buf b = (if length (serial_stuff b) \<le> length buf
      then Inr (length (serial_stuff b), serial_stuff b @ drop (length (serial_stuff b)) buf) else Inl BufferFull)"
    by (cases buf; cases "tl buf") (auto simp: serial_encoding_def serial_write_byte_def serial_stuff_def)
  show "enc_read_byte serial_encoding (serial_stuff b @ rest) = Inr (b, length (serial_stuff b))"
    by (simp add: serial_encoding_def serial_read_byte_def serial_stuff_def)
  show "enc_wire_size_of serial_encoding bs = length (concat (map serial_stuff bs))"
    by (induction bs) (auto simp: serial_encoding_def serial_wire_size_of_def serial_stuff_def)
qed (simp_all add: serial_encoding_def serial_read_byte_def serial_stuff_def)

lemma passthrough_stuffs [simp]: "passthrough.stuffs bs = bs"
  by (simp add: passthrough.stuffs_def)

text \<open>Stuffing hides the end flag.\<close>

lemma flag_notin_stuff: "0x7E \<notin> set (serial_stuff b)"
  by (simp add: serial_stuff_def)

lemma flag_notin_stuffs: "0x7E \<notin> set (serial.stuffs bs)"
  by (auto simp: serial.stuffs_def flag_notin_stuff)

lemma length_serial_stuff: "length (serial_stuff b) \<le> 2"
  by (simp add: serial_stuff_def)

text \<open>What a successful read of the serial medium says about the wire bytes.\<close>

lemma serial_read_stuffed_form:
  assumes "serial_read_byte w = Inr (b, n)" and "\<not> (b = 0x7E \<and> n = 1)"
  shows "\<exists>rest. w = serial_stuff b @ rest" and "n = length (serial_stuff b)"
  using assms by (auto simp: serial_read_byte_def serial_stuff_def split: list.splits if_splits)

subsection \<open>Properties\<close>

text \<open>Whatever fits into the wire buffer is written completely and read back unchanged: writing
  payload bytes through the serial encoder from the start of a buffer that is large enough for
  their stuffed form succeeds and a decoder over the bytes written returns exactly the
  payload, then reports the end of the data; a buffer that is too small is reported as full.\<close>

theorem serial_write_read:
  "(if length (serial.stuffs bs) \<le> length buf
    then \<exists>e. write_all serial_encoding bs (encoder_new buf) = (Inr (), e)
      \<and> enc_wire_pos e = enc_wire_size_of serial_encoding bs
      \<and> (let d = decoder_new (take (enc_wire_pos e) (enc_buf e))
         in \<exists>d'. read_n serial_encoding (length bs) d = (Inr bs, d')
              \<and> fst (read_decoded serial_encoding d') = Inl PrematureEnd)
      \<and> 0x7E \<notin> set (take (enc_wire_pos e) (enc_buf e))
    else fst (write_all serial_encoding bs (encoder_new buf)) = Inl BufferFull)"
proof (cases "length (serial.stuffs bs) \<le> length buf")
  case True
  then show ?thesis
    using serial.write_all_ok[of "encoder_new buf" bs] serial.read_n_stuffs[of bs "[]" "[]"]
      serial.read_end[of "serial.stuffs bs"]
    by (simp add: encoder_new_def decoder_new_def serial.wire_size_stuffs flag_notin_stuffs)
next
  case False
  then show ?thesis
    using serial.write_all_full[of "encoder_new buf" bs] by (simp add: encoder_new_def)
qed

text \<open>The serial decoder accepts exactly the stuffed bytes, apart from a bare end flag, which the
  framing rejects: a successful read consumed either the stuffed form of the byte it returned, or a
  bare 0x7E.\<close>

theorem serial_read_is_strict:
  "serial_read_byte w = Inr (b, n) \<longleftrightarrow>
     (take n w = serial_stuff b \<and> n = length (serial_stuff b) \<and> n \<le> length w)
     \<or> (b = 0x7E \<and> n = 1 \<and> take 1 w = [0x7E])"
  by (cases w; cases "tl w") (auto simp: serial_read_byte_def serial_stuff_def split: if_splits)

end
