(* ===== verification/Mctp_Types.thy ===== *)
theory Mctp_Types
  imports Mctp_Encoding
begin

text \<open>
  The value types of MCTP: \<open>mctp-rs/src/endpoint_id.rs\<close>, \<open>mctp_sequence_number.rs\<close>,
  \<open>mctp_message_tag.rs\<close>, \<open>mctp_command_code.rs\<close>, \<open>mctp_completion_code.rs\<close>, \<open>error.rs\<close>,
  \<open>medium/util.rs\<close> and the transport header of \<open>mctp_transport_header.rs\<close>. The conversion of the
  header to and from 32 bits is generated by the macro \<open>bit_register!\<close> of a crate outside the
  repository: it is a parameter, with the law \<open>header_codec\<close>; \<open>layout_codec\<close> is an instance that
  places each field at the bits the declaration names.
\<close>

type_synonym 'a bits_result = "(string, 'a) result"

subsection \<open>Endpoint ids, tags and sequence numbers\<close>

datatype EndpointId = Null | Broadcast | Id u8

definition endpoint_id_try_from_bits :: "u32 \<Rightarrow> EndpointId bits_result" where
  "endpoint_id_try_from_bits bits =
     (if bits = 0x00 then Inr Null
      else if bits = 0xFF then Inr Broadcast
      else if 0x08 \<le> bits \<and> bits \<le> 0xFE then Inr (Id (ucast bits))
      else Inl ''Invalid endpoint ID'')"

definition endpoint_id_try_from :: "u8 \<Rightarrow> EndpointId bits_result" where
  "endpoint_id_try_from v = endpoint_id_try_from_bits (ucast v)"

fun endpoint_id_try_into_bits :: "EndpointId \<Rightarrow> u32 bits_result" where
  "endpoint_id_try_into_bits Null = Inr 0x00"
| "endpoint_id_try_into_bits Broadcast = Inr 0xFF"
| "endpoint_id_try_into_bits (Id i) = Inr (ucast i)"

text \<open>\<open>MctpSequenceNumber(u8)\<close>. The addition is a \<open>u8\<close> addition; modulo 4 it cannot be told from an
  unbounded one.\<close>

datatype MctpSequenceNumber = MctpSequenceNumber u8

definition seq_max :: u8 where
  "seq_max = 4"

fun seq_next :: "MctpSequenceNumber \<Rightarrow> MctpSequenceNumber" where
  "seq_next (MctpSequenceNumber n) = MctpSequenceNumber ((n + 1) mod seq_max)"

definition seq_inc :: "MctpSequenceNumber \<Rightarrow> MctpSequenceNumber \<times> MctpSequenceNumber" where
  "seq_inc s = (seq_next s, seq_next s)"

fun seq_try_into_bits :: "MctpSequenceNumber \<Rightarrow> u32 bits_result" where
  "seq_try_into_bits (MctpSequenceNumber n) = Inr (ucast n)"

definition seq_try_from_bits :: "u32 \<Rightarrow> MctpSequenceNumber bits_result" where
  "seq_try_from_bits bits =
     (if ucast seq_max \<le> bits then Inl ''sequence number out of range''
      else Inr (MctpSequenceNumber (ucast bits)))"

datatype MctpMessageTag = MctpMessageTag u8

definition tag_try_from :: "u8 \<Rightarrow> MctpMessageTag bits_result" where
  "tag_try_from v = (if 7 < v then Inl ''Invalid message tag'' else Inr (MctpMessageTag v))"

definition tag_try_from_bits :: "u32 \<Rightarrow> MctpMessageTag bits_result" where
  "tag_try_from_bits bits = tag_try_from (ucast bits)"

fun tag_try_into_bits :: "MctpMessageTag \<Rightarrow> u32 bits_result" where
  "tag_try_into_bits (MctpMessageTag v) = Inr (ucast v)"

text \<open>The unit types of reserved bits.\<close>

definition zero_try_from_bits :: "u32 \<Rightarrow> unit bits_result" where
  "zero_try_from_bits bits = (if bits \<noteq> 0 then Inl ''Bits must be 0'' else Inr ())"

definition one_try_from_bits :: "u32 \<Rightarrow> unit bits_result" where
  "one_try_from_bits bits = (if bits \<noteq> 1 then Inl ''Value must be 1'' else Inr ())"

subsection \<open>Command and completion codes\<close>

datatype MctpControlCommandCode =
    Reserved | SetEndpointId | GetEndpointId | GetEndpointUuid | GetMctpVersionSupport
  | GetMessageTypeSupport | GetVendorDefinedMessageSupport | ResolveEndpointId | AllocateEndpointIds
  | RoutingInformationUpdate | GetRoutingTableEntries | PrepareForEndpointDiscovery
  | EndpointDiscovery | DiscoveryNotify | GetNetworkId | QueryHop | ResolveUuid | QueryRateLimit
  | RequestTxRateLimit | UpdateRateLimit | QuerySupportedInterfaces

definition command_codes :: "MctpControlCommandCode list" where
  "command_codes =
     [Reserved, SetEndpointId, GetEndpointId, GetEndpointUuid, GetMctpVersionSupport,
      GetMessageTypeSupport, GetVendorDefinedMessageSupport, ResolveEndpointId, AllocateEndpointIds,
      RoutingInformationUpdate, GetRoutingTableEntries, PrepareForEndpointDiscovery,
      EndpointDiscovery, DiscoveryNotify, GetNetworkId, QueryHop, ResolveUuid, QueryRateLimit,
      RequestTxRateLimit, UpdateRateLimit, QuerySupportedInterfaces]"

fun command_code_to_u8 :: "MctpControlCommandCode \<Rightarrow> u8" where
  "command_code_to_u8 Reserved = 0x00"
| "command_code_to_u8 SetEndpointId = 0x01"
| "command_code_to_u8 GetEndpointId = 0x02"
| "command_code_to_u8 GetEndpointUuid = 0x03"
| "command_code_to_u8 GetMctpVersionSupport = 0x04"
| "command_code_to_u8 GetMessageTypeSupport = 0x05"
| "command_code_to_u8 GetVendorDefinedMessageSupport = 0x06"
| "command_code_to_u8 ResolveEndpointId = 0x07"
| "command_code_to_u8 AllocateEndpointIds = 0x08"
| "command_code_to_u8 RoutingInformationUpdate = 0x09"
| "command_code_to_u8 GetRoutingTableEntries = 0x0A"
| "command_code_to_u8 PrepareForEndpointDiscovery = 0x0B"
| "command_code_to_u8 EndpointDiscovery = 0x0C"
| "command_code_to_u8 DiscoveryNotify = 0x0D"
| "command_code_to_u8 GetNetworkId = 0x0E"
| "command_code_to_u8 QueryHop = 0x0F"
| "command_code_to_u8 ResolveUuid = 0x10"
| "command_code_to_u8 QueryRateLimit = 0x11"
| "command_code_to_u8 RequestTxRateLimit = 0x12"
| "command_code_to_u8 UpdateRateLimit = 0x13"
| "command_code_to_u8 QuerySupportedInterfaces = 0x14"

text \<open>The derived \<open>TryFromPrimitive\<close>: the variant with that discriminant, if there is one.\<close>

definition command_code_try_from :: "u8 \<Rightarrow> MctpControlCommandCode option" where
  "command_code_try_from v = find (\<lambda>c. command_code_to_u8 c = v) command_codes"

definition command_code_try_from_bits :: "u32 \<Rightarrow> MctpControlCommandCode bits_result" where
  "command_code_try_from_bits bits =
     (if 0xFF < bits then Inl ''Out of range value for MCTP command code''
      else (case command_code_try_from (ucast bits) of
              None \<Rightarrow> Inl ''Invalid value for MCTP command code''
            | Some c \<Rightarrow> Inr c))"

datatype MctpCompletionCode =
    Success | Error | ErrorInvalidData | ErrorInvalidLength | ErrorNotReady | ErrorUnsupportedCmd
  | CommandSpecific u8

fun completion_code_to_u8 :: "MctpCompletionCode \<Rightarrow> u8" where
  "completion_code_to_u8 Success = 0x00"
| "completion_code_to_u8 Error = 0x01"
| "completion_code_to_u8 ErrorInvalidData = 0x02"
| "completion_code_to_u8 ErrorInvalidLength = 0x03"
| "completion_code_to_u8 ErrorNotReady = 0x04"
| "completion_code_to_u8 ErrorUnsupportedCmd = 0x05"
| "completion_code_to_u8 (CommandSpecific code) = code"

definition completion_code_try_from :: "u8 \<Rightarrow> MctpCompletionCode bits_result" where
  "completion_code_try_from v =
     (if v = 0x00 then Inr Success
      else if v = 0x01 then Inr Error
      else if v = 0x02 then Inr ErrorInvalidData
      else if v = 0x03 then Inr ErrorInvalidLength
      else if v = 0x04 then Inr ErrorNotReady
      else if v = 0x05 then Inr ErrorUnsupportedCmd
      else if v \<le> 0x7F then Inl ''Invalid value for MCTP completion code - reserved range''
      else Inr (CommandSpecific v))"

definition completion_code_try_from_bits :: "u32 \<Rightarrow> MctpCompletionCode bits_result" where
  "completion_code_try_from_bits bits =
     (if 0xFF < bits then Inl ''Out of range value for MCTP completion code''
      else completion_code_try_from (ucast bits))"

subsection \<open>Errors\<close>

datatype ProtocolError =
    ExpectedStartOfMessage
  | UnexpectedStartOfMessage
  | MessageTagMismatch MctpMessageTag MctpMessageTag
  | TagOwnerMismatch u8 u8
  | SourceEndpointIdMismatch EndpointId EndpointId
  | UnexpectedPacketSequenceNumber MctpSequenceNumber MctpSequenceNumber
  | CompletionCodeOnRequestMessage MctpCompletionCode
  | SendMessageWhileAssembling
  | SendingMessageWhileReceiving

text \<open>Both media of the crate use \<open>&'static str\<close> as their error type.\<close>

datatype MctpPacketError =
    HeaderParseError string
  | CommandParseError string
  | SerializeError string
  | UnsupportedMessageType u8
  | ProtocolErr ProtocolError
  | MediumError string

subsection \<open>The transport header\<close>

record MctpTransportHeader =
  hdr_reserved :: u8
  header_version :: u8
  destination_endpoint_id :: EndpointId
  source_endpoint_id :: EndpointId
  start_of_message :: u8
  end_of_message :: u8
  packet_sequence_number :: MctpSequenceNumber
  tag_owner :: u8
  message_tag :: MctpMessageTag

fun valid_eid :: "EndpointId \<Rightarrow> bool" where
  "valid_eid (Id i) \<longleftrightarrow> 0x08 \<le> i \<and> i \<le> 0xFE"
| "valid_eid _ \<longleftrightarrow> True"

fun valid_seq :: "MctpSequenceNumber \<Rightarrow> bool" where
  "valid_seq (MctpSequenceNumber n) \<longleftrightarrow> n < 4"

fun valid_tag :: "MctpMessageTag \<Rightarrow> bool" where
  "valid_tag (MctpMessageTag v) \<longleftrightarrow> v \<le> 7"

text \<open>A header whose fields fit the bits declared for them.\<close>

definition valid_header :: "MctpTransportHeader \<Rightarrow> bool" where
  "valid_header h \<longleftrightarrow>
     hdr_reserved h < 16 \<and> header_version h < 16
     \<and> valid_eid (destination_endpoint_id h) \<and> valid_eid (source_endpoint_id h)
     \<and> start_of_message h < 2 \<and> end_of_message h < 2 \<and> valid_seq (packet_sequence_number h)
     \<and> tag_owner h < 2 \<and> valid_tag (message_tag h)"

record header_codec =
  header_to_u32 :: "MctpTransportHeader \<Rightarrow> u32 bits_result"
  header_from_u32 :: "u32 \<Rightarrow> MctpTransportHeader bits_result"

text \<open>The law the packet code relies on: a header that fits its bits survives the conversion.\<close>

locale lawful_header_codec =
  fixes hc :: header_codec
  assumes header_roundtrip: "valid_header h \<Longrightarrow> \<exists>v. header_to_u32 hc h = Inr v \<and> header_from_u32 hc v = Inr h"

text \<open>\<open>u32::to_be_bytes\<close> and \<open>u32::from_be_bytes\<close>.\<close>

definition to_be_bytes :: "u32 \<Rightarrow> u8 list" where
  "to_be_bytes v = [ucast (drop_bit 24 v), ucast (drop_bit 16 v), ucast (drop_bit 8 v), ucast v]"

fun from_be_bytes :: "u8 list \<Rightarrow> u32" where
  "from_be_bytes [a, b, c, d] =
     push_bit 24 (ucast a) OR push_bit 16 (ucast b) OR push_bit 8 (ucast c) OR ucast d"
| "from_be_bytes _ = 0"

lemma length_to_be_bytes [simp]: "length (to_be_bytes v) = 4"
  by (simp add: to_be_bytes_def)

lemma from_to_be_bytes [simp]: "from_be_bytes (to_be_bytes v) = v"
  unfolding to_be_bytes_def from_be_bytes.simps
proof (rule bit_word_eqI)
  fix n
  assume "n < LENGTH(32)"
  then consider "n < 8" | "8 \<le> n" "n < 16" | "16 \<le> n" "n < 24" | "24 \<le> n" "n < 32" by force
  then show "bit (push_bit 24 (ucast (ucast (drop_bit 24 v) :: u8) :: u32) OR push_bit 16 (ucast (ucast (drop_bit 16 v) :: u8))
      OR push_bit 8 (ucast (ucast (drop_bit 8 v) :: u8)) OR ucast (ucast v :: u8)) n \<longleftrightarrow> bit v n"
    by cases (auto simp: bit_simps)
qed

text \<open>The bits \<open>[lo:hi]\<close> of a value, and a value at bit \<open>lo\<close>.\<close>

definition field :: "nat \<Rightarrow> nat \<Rightarrow> u32 \<Rightarrow> u32" where
  "field lo n v = take_bit n (drop_bit lo v)"

definition place :: "nat \<Rightarrow> u8 \<Rightarrow> u32" where
  "place lo v = push_bit lo (ucast v)"

fun eid_bits :: "EndpointId \<Rightarrow> u8" where
  "eid_bits Null = 0"
| "eid_bits Broadcast = 0xFF"
| "eid_bits (Id i) = i"

fun seq_bits :: "MctpSequenceNumber \<Rightarrow> u8" where
  "seq_bits (MctpSequenceNumber n) = n"

fun tag_bits :: "MctpMessageTag \<Rightarrow> u8" where
  "tag_bits (MctpMessageTag v) = v"

definition layout_to_u32 :: "MctpTransportHeader \<Rightarrow> u32 bits_result" where
  "layout_to_u32 h = Inr
     (place 28 (hdr_reserved h) OR place 24 (header_version h)
      OR place 16 (eid_bits (destination_endpoint_id h)) OR place 8 (eid_bits (source_endpoint_id h))
      OR place 7 (start_of_message h) OR place 6 (end_of_message h)
      OR place 4 (seq_bits (packet_sequence_number h)) OR place 3 (tag_owner h) OR place 0 (tag_bits (message_tag h)))"

definition layout_from_u32 :: "u32 \<Rightarrow> MctpTransportHeader bits_result" where
  "layout_from_u32 v =
     (case (endpoint_id_try_from_bits (field 16 8 v), endpoint_id_try_from_bits (field 8 8 v),
            seq_try_from_bits (field 4 2 v), tag_try_from_bits (field 0 3 v)) of
        (Inr dst, Inr src, Inr sq, Inr tag) \<Rightarrow>
          Inr \<lparr>hdr_reserved = ucast (field 28 4 v), header_version = ucast (field 24 4 v),
               destination_endpoint_id = dst, source_endpoint_id = src,
               start_of_message = ucast (field 7 1 v), end_of_message = ucast (field 6 1 v),
               packet_sequence_number = sq, tag_owner = ucast (field 3 1 v), message_tag = tag\<rparr>
      | _ \<Rightarrow> Inl ''Invalid transport header'')"

definition layout_codec :: header_codec where
  "layout_codec = \<lparr>header_to_u32 = layout_to_u32, header_from_u32 = layout_from_u32\<rparr>"

text \<open>Each declared bit range reads back what was placed there.\<close>

lemma bit_u8_small:
  fixes v :: u8
  assumes "v < 2 ^ k" "k < 8" "k \<le> n"
  shows "\<not> bit v n"
proof -
  have "take_bit k v = v"
    using assms(1,2) by (simp add: take_bit_eq_mask less_mask_eq)
  then have "bit v n \<longleftrightarrow> n < k \<and> bit v n" by (metis bit_take_bit_iff)
  with assms(3) show ?thesis by simp
qed

lemma bit_place: "bit (place lo v) n \<longleftrightarrow> lo \<le> n \<and> n < 32 \<and> bit v (n - lo)"
  by (auto simp: place_def bit_simps)

lemma bit_field: "bit (field lo k v) n \<longleftrightarrow> n < k \<and> bit v (lo + n)"
  by (auto simp: field_def bit_simps)

lemma bit_u8_ge: "8 \<le> n \<Longrightarrow> \<not> bit (v :: u8) n"
  by (simp add: impossible_bit)

lemma bit_u8_lt:
  fixes v :: u8
  shows "v < 2 ^ k \<Longrightarrow> k < 8 \<Longrightarrow> bit v n \<Longrightarrow> n < k"
  using bit_u8_small[of v k n] by fastforce

lemma bit_u8_lt8: "bit (v :: u8) n \<Longrightarrow> n < 8"
  using bit_u8_ge[of n v] by fastforce

definition places :: "u8 \<Rightarrow> u8 \<Rightarrow> u8 \<Rightarrow> u8 \<Rightarrow> u8 \<Rightarrow> u8 \<Rightarrow> u8 \<Rightarrow> u8 \<Rightarrow> u8 \<Rightarrow> u32" where
  "places rsv ver dst src som eom sq own tag =
     place 28 rsv OR place 24 ver OR place 16 dst OR place 8 src OR place 7 som OR place 6 eom
     OR place 4 sq OR place 3 own OR place 0 tag"

lemma field_eqI:
  fixes v :: u8
  assumes "v < 2 ^ k" "\<And>n. n < k \<Longrightarrow> bit x (lo + n) \<longleftrightarrow> bit v n" "k < 8"
  shows "field lo k x = ucast v"
proof (rule bit_word_eqI)
  fix n
  assume "n < LENGTH(32)"
  then show "bit (field lo k x) n \<longleftrightarrow> bit (ucast v :: u32) n"
    using assms(2)[of n] bit_u8_lt[OF assms(1,3), of n] by (auto simp: bit_field bit_ucast_iff)
qed

lemma field_places:
  assumes "rsv < 2 ^ 4" "ver < 2 ^ 4" "som < 2 ^ 1" "eom < 2 ^ 1" "sq < 2 ^ 2" "own < 2 ^ 1" "tag < 2 ^ 3"
  shows "field 28 4 (places rsv ver dst src som eom sq own tag) = ucast rsv"
    and "field 24 4 (places rsv ver dst src som eom sq own tag) = ucast ver"
    and "field 16 8 (places rsv ver dst src som eom sq own tag) = ucast dst"
    and "field 8 8 (places rsv ver dst src som eom sq own tag) = ucast src"
    and "field 7 1 (places rsv ver dst src som eom sq own tag) = ucast som"
    and "field 6 1 (places rsv ver dst src som eom sq own tag) = ucast eom"
    and "field 4 2 (places rsv ver dst src som eom sq own tag) = ucast sq"
    and "field 3 1 (places rsv ver dst src som eom sq own tag) = ucast own"
    and "field 0 3 (places rsv ver dst src som eom sq own tag) = ucast tag"
proof -
  note small = assms [THEN bit_u8_small] bit_u8_ge
  note lt = assms [THEN bit_u8_lt] bit_u8_lt8
  note bits = places_def bit_field bit_or_iff bit_place bit_ucast_iff small
  show "field 28 4 (places rsv ver dst src som eom sq own tag) = ucast rsv"
    by (rule bit_word_eqI) (auto simp: bits not_less intro: lt)
  show "field 24 4 (places rsv ver dst src som eom sq own tag) = ucast ver"
    by (rule bit_word_eqI) (auto simp: bits not_less intro: lt)
  show "field 16 8 (places rsv ver dst src som eom sq own tag) = ucast dst"
    by (rule bit_word_eqI) (auto simp: bits not_less intro: lt)
  show "field 8 8 (places rsv ver dst src som eom sq own tag) = ucast src"
    by (rule bit_word_eqI) (auto simp: bits not_less intro: lt)
  show "field 7 1 (places rsv ver dst src som eom sq own tag) = ucast som"
    by (rule field_eqI [OF assms(3)]) (simp_all add: bits)
  show "field 6 1 (places rsv ver dst src som eom sq own tag) = ucast eom"
    by (rule field_eqI [OF assms(4)]) (simp_all add: bits)
  show "field 4 2 (places rsv ver dst src som eom sq own tag) = ucast sq"
  proof (rule field_eqI [OF assms(5)])
    fix n :: nat
    assume "n < 2"
    then consider "n = 0" | "n = 1" by linarith
    then show "bit (places rsv ver dst src som eom sq own tag) (4 + n) \<longleftrightarrow> bit sq n"
      by cases (simp_all add: bits)
  qed simp
  show "field 3 1 (places rsv ver dst src som eom sq own tag) = ucast own"
    by (rule field_eqI [OF assms(6)]) (simp_all add: bits)
  show "field 0 3 (places rsv ver dst src som eom sq own tag) = ucast tag"
  proof (rule field_eqI [OF assms(7)])
    fix n :: nat
    assume "n < 3"
    then consider "n = 0" | "n = 1" | "n = 2" by linarith
    then show "bit (places rsv ver dst src som eom sq own tag) (0 + n) \<longleftrightarrow> bit tag n"
      by cases (simp_all add: bits numeral_2_eq_2)
  qed simp
qed

text \<open>The instance reads back every header that fits its bits.\<close>

lemma ucast_u8_u32_u8 [simp]: "ucast (ucast (v :: u8) :: u32) = v"
  by (rule bit_word_eqI) (auto simp: bit_simps)

lemma eid_roundtrip: "valid_eid e \<Longrightarrow> endpoint_id_try_from_bits (ucast (eid_bits e)) = Inr e"
proof (cases e)
  case (Id i)
  assume "valid_eid e"
  with Id have "8 \<le> unat i" "unat i \<le> 254" by (simp_all add: word_le_nat_alt)
  then have "(ucast i :: u32) \<noteq> 0" "(ucast i :: u32) \<noteq> 0xFF" "8 \<le> (ucast i :: u32)" "(ucast i :: u32) \<le> 0xFE"
    by (auto simp: word_le_nat_alt word_unat_eq_iff)
  with Id show ?thesis by (simp add: endpoint_id_try_from_bits_def)
qed (simp_all add: endpoint_id_try_from_bits_def)

lemma seq_roundtrip: "valid_seq q \<Longrightarrow> seq_try_from_bits (ucast (seq_bits q)) = Inr q"
  by (cases q) (auto simp: seq_try_from_bits_def seq_max_def word_le_nat_alt word_less_nat_alt)

lemma tag_roundtrip: "valid_tag t \<Longrightarrow> tag_try_from_bits (ucast (tag_bits t)) = Inr t"
  by (cases t) (auto simp: tag_try_from_bits_def tag_try_from_def)

interpretation layout: lawful_header_codec layout_codec
proof
  fix h
  assume h: "valid_header h"
  let ?v = "places (hdr_reserved h) (header_version h) (eid_bits (destination_endpoint_id h))
    (eid_bits (source_endpoint_id h)) (start_of_message h) (end_of_message h)
    (seq_bits (packet_sequence_number h)) (tag_owner h) (tag_bits (message_tag h))"
  have sq: "seq_bits (packet_sequence_number h) < 2 ^ 2"
    using h by (cases "packet_sequence_number h") (simp add: valid_header_def)
  have tg: "tag_bits (message_tag h) < 2 ^ 3"
    using h by (cases "message_tag h") (simp add: valid_header_def word_le_nat_alt word_less_nat_alt)
  have rest: "hdr_reserved h < 2 ^ 4" "header_version h < 2 ^ 4" "start_of_message h < 2 ^ 1"
    "end_of_message h < 2 ^ 1" "tag_owner h < 2 ^ 1"
    using h by (simp_all add: valid_header_def)
  note fields = field_places [OF rest(1,2,3,4) sq rest(5) tg]
  have "layout_from_u32 ?v = Inr h"
    using h by (simp add: layout_from_u32_def fields eid_roundtrip seq_roundtrip tag_roundtrip valid_header_def
      del: One_nat_def)
  moreover have "layout_to_u32 h = Inr ?v"
    by (simp add: layout_to_u32_def places_def)
  ultimately show "\<exists>v. header_to_u32 layout_codec h = Inr v \<and> header_from_u32 layout_codec v = Inr h"
    by (simp add: layout_codec_def)
qed

subsection \<open>Properties\<close>

lemma u32_of_u8_simps [simp]:
  "(ucast (v :: u8) :: u32) = 0 \<longleftrightarrow> v = 0"
  "(ucast (v :: u8) :: u32) = 0xFF \<longleftrightarrow> v = 0xFF"
  "8 \<le> (ucast (v :: u8) :: u32) \<longleftrightarrow> 8 \<le> v"
  "(ucast (v :: u8) :: u32) \<le> 0xFE \<longleftrightarrow> v \<le> 0xFE"
  by (simp_all add: word_unat_eq_iff word_le_nat_alt)

lemma u8_gt_FE: "\<not> v \<le> (0xFE :: u8) \<longleftrightarrow> v = 0xFF"
  using unat_u8_less[of v] by (auto simp: word_unat_eq_iff word_le_nat_alt)

lemma u32_of_u8_eq: "(ucast (v :: u8) :: u32) = ucast w \<longleftrightarrow> v = w"
  by (simp add: word_unat_eq_iff)

lemma endpoint_id_try_from_eq:
  "endpoint_id_try_from v = (if v = 0 then Inr Null else if v = 0xFF then Inr Broadcast
     else if 8 \<le> v then Inr (Id v) else Inl ''Invalid endpoint ID'')"
  using u8_gt_FE[of v] by (simp add: endpoint_id_try_from_def endpoint_id_try_from_bits_def)

lemma command_code_find: "command_code_try_from v = Some k \<longleftrightarrow> command_code_to_u8 k = v"
proof
  assume "command_code_to_u8 k = v"
  then show "command_code_try_from v = Some k"
    by (cases k) (auto simp: command_code_try_from_def command_codes_def)
qed (auto simp: command_code_try_from_def find_Some_iff)

lemma completion_code_read:
  "completion_code_try_from v = Inr c \<longleftrightarrow> completion_code_to_u8 c = v \<and> c \<notin> CommandSpecific ` {x. x < 0x80}"
  by (cases c) (auto simp: completion_code_try_from_def word_unat_eq_iff word_less_nat_alt word_le_nat_alt)

lemma command_code_range: "(\<exists>k. command_code_to_u8 k = v) \<longleftrightarrow> v < 0x15"
proof
  show "v < 0x15" if "\<exists>k. command_code_to_u8 k = v"
    using that by (elim exE) (case_tac k; auto)
  assume v: "v < 0x15"
  have "unat v \<in> set [0..<21]" using v by (simp add: word_less_nat_alt)
  then have "word_of_nat (unat v) \<in> (word_of_nat :: nat \<Rightarrow> u8) ` set [0..<21]" by (rule imageI)
  then have "v \<in> command_code_to_u8 ` set command_codes"
    by (simp add: command_codes_def upt_rec)
  then show "\<exists>k. command_code_to_u8 k = v" by blast
qed

text \<open>Every accepted endpoint id, sequence number and message tag converts back to the bits it was
  read from, and they are accepted exactly in their ranges: endpoint ids are all of 0 and 0x08 to
  0xFF, sequence numbers are below 4 and tags below 8.\<close>

theorem ids_convert_back:
  "(endpoint_id_try_from v = Inr e \<longleftrightarrow> endpoint_id_try_into_bits e = Inr (ucast v) \<and> valid_eid e)
   \<and> (\<exists>e. endpoint_id_try_from v = Inr e) = (v = 0 \<or> 8 \<le> v)
   \<and> (bits < 4 \<longleftrightarrow> (\<exists>q. seq_try_from_bits bits = Inr q \<and> seq_try_into_bits q = Inr bits))
   \<and> (v < 8 \<longleftrightarrow> (\<exists>t. tag_try_from v = Inr t \<and> tag_try_into_bits t = Inr (ucast v)))"
proof (intro conjI)
  show "endpoint_id_try_from v = Inr e \<longleftrightarrow> endpoint_id_try_into_bits e = Inr (ucast v) \<and> valid_eid e"
    using u8_gt_FE[of v] by (cases e) (auto simp: endpoint_id_try_from_eq u32_of_u8_eq word_less_nat_alt)
  show "(\<exists>e. endpoint_id_try_from v = Inr e) = (v = 0 \<or> 8 \<le> v)"
    by (auto simp: endpoint_id_try_from_eq)
  have "ucast (ucast bits :: u8) = bits" if "bits < 4"
    using that by (simp add: word_unat_eq_iff word_less_nat_alt unsigned_ucast_eq unsigned_take_bit_eq take_bit_nat_eq_self)
  then show "bits < 4 \<longleftrightarrow> (\<exists>q. seq_try_from_bits bits = Inr q \<and> seq_try_into_bits q = Inr bits)"
    by (auto simp: seq_try_from_bits_def seq_max_def not_le)
  show "v < 8 \<longleftrightarrow> (\<exists>t. tag_try_from v = Inr t \<and> tag_try_into_bits t = Inr (ucast v))"
    by (auto simp: tag_try_from_def word_less_nat_alt)
qed

text \<open>Completion and command codes are encoded injectively and every value that is accepted is the
  code of what it was read as; the completion codes rejected are exactly 0x06 to 0x7F and the
  command codes rejected exactly those from 0x15 on. A command specific completion code below 0x80
  is the one value that does not survive.\<close>

theorem codes_convert_back:
  "(completion_code_try_from v = Inr c \<longleftrightarrow>
      completion_code_to_u8 c = v \<and> c \<notin> CommandSpecific ` {x. x < 0x80})
   \<and> (\<exists>c. completion_code_try_from v = Inr c) = (v < 6 \<or> 0x80 \<le> v)
   \<and> (command_code_try_from v = Some k \<longleftrightarrow> command_code_to_u8 k = v)
   \<and> (\<exists>k. command_code_try_from v = Some k) = (v < 0x15)"
proof (intro conjI)
  show "(\<exists>c. completion_code_try_from v = Inr c) = (v < 6 \<or> 0x80 \<le> v)"
    by (auto simp: completion_code_try_from_def word_unat_eq_iff word_less_nat_alt word_le_nat_alt)
qed (simp_all only: completion_code_read command_code_find command_code_range)

end
