(* ===== verification/Mctp_Medium.thy ===== *)
theory Mctp_Medium
  imports Mctp_Types
begin

text \<open>
  The trait \<open>MctpMedium\<close> of \<open>mctp-rs/src/medium/mod.rs\<close> as a record of its methods, and the contract
  the packet code relies on as the locale \<open>lawful_medium\<close>. \<open>serialize\<close> calls back a closure that
  writes through the encoder and mutates what it captures: the closure is an action on the captured
  state and the encoder, and \<open>serialize\<close> returns the packet, the buffer and the captured state.
\<close>

record ('frame, 'rc, 'c) medium =
  med_encoding :: encoding
  max_message_body_size :: nat
  med_deserialize :: "u8 list \<Rightarrow> (MctpPacketError, 'frame \<times> EncodingDecoder) result"
  med_serialize :: "'rc \<Rightarrow> u8 list \<Rightarrow> ('c \<times> EncodingEncoder, MctpPacketError, unit) action \<Rightarrow> 'c
     \<Rightarrow> (MctpPacketError, u8 list) result \<times> u8 list \<times> 'c"
  frame_complete :: "u8 list \<Rightarrow> (MctpPacketError, nat option) result"
  packet_size :: "'frame \<Rightarrow> nat"
  frame_reply_context :: "'frame \<Rightarrow> 'rc"

text \<open>The part of a buffer between \<open>pre\<close> leading and \<open>post\<close> trailing bytes.\<close>

definition region :: "nat \<Rightarrow> nat \<Rightarrow> u8 list \<Rightarrow> u8 list" where
  "region pre post buf = take (length buf - post - pre) (drop pre buf)"

lemma length_region [simp]: "length (region pre post buf) = length buf - post - pre"
  by (simp add: region_def)

text \<open>Put a written region back.\<close>

definition splice :: "nat \<Rightarrow> nat \<Rightarrow> u8 list \<Rightarrow> u8 list \<Rightarrow> u8 list" where
  "splice pre post buf body = take pre buf @ body @ drop (length buf - post) buf"

lemma length_splice [simp]:
  "pre + post \<le> length buf \<Longrightarrow> length body = length buf - post - pre \<Longrightarrow> length (splice pre post buf body) = length buf"
  by (simp add: splice_def)

lemma splice_parts:
  assumes "pre \<le> length buf"
  shows "take pre (splice pre post buf body) = take pre buf"
    and "drop pre (splice pre post buf body) = body @ drop (length buf - post) buf"
  using assms by (simp_all add: splice_def)

text \<open>What a medium promises. It leaves \<open>pre\<close> bytes before and \<open>post\<close> bytes after the encoder's
  region. If the closure wrote the stuffed form of \<open>bs\<close> within the budget, the packet that
  \<open>serialize\<close> returns is one that \<open>deserialize\<close> accepts, with a decoder over exactly the bytes
  written and a frame that tells the number of decoded bytes. An error of the closure is passed on.\<close>

locale lawful_medium =
  buffer_encoding "med_encoding M" stuff
  for M :: "('frame, 'rc, 'c) medium" and stuff +
  fixes pre post :: nat and valid_rc :: "'rc \<Rightarrow> bool"
  assumes writer_error:
      "pre + post \<le> length buf \<Longrightarrow> w (c, encoder_new (region pre post buf)) = (Inl e, (c', enc)) \<Longrightarrow>
       length (enc_buf enc) = length (region pre post buf) \<Longrightarrow>
       \<exists>buf'. med_serialize M rc buf w c = (Inl e, buf', c') \<and> length buf' = length buf"
    and writer_ok:
      "pre + post \<le> length buf \<Longrightarrow> valid_rc rc \<Longrightarrow>
       w (c, encoder_new (region pre post buf)) = (Inr (), (c', enc)) \<Longrightarrow>
       length (enc_buf enc) = length (region pre post buf) \<Longrightarrow>
       enc_wire_pos enc \<le> length (region pre post buf) \<Longrightarrow>
       take (enc_wire_pos enc) (enc_buf enc) = concat (map stuff bs) \<Longrightarrow>
       enc_wire_pos enc \<le> max_message_body_size M \<Longrightarrow>
       \<exists>pkt buf' frame. med_serialize M rc buf w c = (Inr pkt, buf', c') \<and> length buf' = length buf
         \<and> med_deserialize M pkt = Inr (frame, decoder_new (concat (map stuff bs)))
         \<and> packet_size M frame = length bs"

text \<open>The closure body every sender ends with: write all bytes, \<open>map_err\<close> a full buffer.\<close>

definition map_encode_err :: "EncodeError \<Rightarrow> MctpPacketError" where
  "map_encode_err e = (case e of BufferFull \<Rightarrow> SerializeError ''encoding: buffer full'')"

definition write_through :: "encoding \<Rightarrow> u8 list \<Rightarrow> ('c \<times> EncodingEncoder, MctpPacketError, unit) action" where
  "write_through E bs ce =
     (case write_all E bs (snd ce) of
        (Inl e, enc) \<Rightarrow> (Inl (map_encode_err e), (fst ce, enc))
      | (Inr u, enc) \<Rightarrow> (Inr u, (fst ce, enc)))"

end
