(* ===== verification/Mctp_Serial.thy ===== *)
theory Mctp_Serial
  imports Mctp_Medium
begin

text \<open>
  The DSP0253 serial medium: \<open>MctpSerialMedium\<close> of \<open>mctp-rs/src/medium/serial.rs\<close>. The frame
  check sequence is computed by the \<open>crc\<close> crate and is a parameter \<open>fcs_algo\<close>, any function of the
  bytes. The walks over the body are recursions; \<open>packet[i..]\<close> is \<open>drop i packet\<close>, and every index
  the code uses is within the slice.
\<close>

definition SERIAL_REVISION :: u8 where "SERIAL_REVISION = 0x01"
definition END_FLAG :: u8 where "END_FLAG = 0x7E"
definition CONST_MTU :: nat where "CONST_MTU = 251"
definition HEADER_LEN :: nat where "HEADER_LEN = 2"
definition MAX_TRAILER_WIRE :: nat where "MAX_TRAILER_WIRE = 5"

lemmas serial_consts = SERIAL_REVISION_def END_FLAG_def CONST_MTU_def HEADER_LEN_def MAX_TRAILER_WIRE_def

record MctpSerialMediumFrame =
  revision :: u8
  serial_byte_count :: u8
  fcs :: u16

definition u16_from_be_bytes :: "u8 \<Rightarrow> u8 \<Rightarrow> u16" where
  "u16_from_be_bytes msb lsb = push_bit 8 (ucast msb) OR ucast lsb"

definition u16_msb :: "u16 \<Rightarrow> u8" where "u16_msb v = ucast (drop_bit 8 v)"
definition u16_lsb :: "u16 \<Rightarrow> u8" where "u16_lsb v = ucast v"

lemma u16_be_roundtrip [simp]: "u16_from_be_bytes (u16_msb v) (u16_lsb v) = v"
  unfolding u16_from_be_bytes_def u16_msb_def u16_lsb_def
proof (rule bit_word_eqI)
  fix n
  assume "n < LENGTH(16)"
  then consider "n < 8" | "8 \<le> n" "n < 16" by force
  then show "bit (push_bit 8 (ucast (ucast (drop_bit 8 v) :: u8) :: u16) OR ucast (ucast v :: u8)) n \<longleftrightarrow> bit v n"
    by cases (auto simp: bit_simps)
qed

subsection \<open>Receiving\<close>

text \<open>Un-stuff \<open>n\<close> body bytes from position \<open>pos\<close>: the bytes and the position after them.\<close>

fun unstuff_body :: "u8 list \<Rightarrow> nat \<Rightarrow> nat \<Rightarrow> (MctpPacketError, u8 list \<times> nat) result" where
  "unstuff_body packet 0 pos = Inr ([], pos)"
| "unstuff_body packet (Suc n) pos =
     (case serial_read_byte (drop pos packet) of
        Inl PrematureEnd \<Rightarrow> Inl (MediumError ''premature end in body'')
      | Inl InvalidEscape \<Rightarrow> Inl (MediumError ''invalid escape in body'')
      | Inr (b, k) \<Rightarrow>
          if b = END_FLAG \<and> k = 1 then Inl (MediumError ''unexpected 0x7E in body'')
          else (case unstuff_body packet n (pos + k) of
                  Inl e \<Rightarrow> Inl e
                | Inr (bs, pos') \<Rightarrow> Inr (b # bs, pos')))"

text \<open>The trailer after the body: check sequence and end flag, and nothing behind it.\<close>

definition serial_trailer :: "u8 list \<Rightarrow> nat \<Rightarrow> (MctpPacketError, u16) result" where
  "serial_trailer packet body_wire_end =
     (case serial_read_byte (drop body_wire_end packet) of
        Inl _ \<Rightarrow> Inl (MediumError ''invalid escape in fcs'')
      | Inr (fcs_msb, n_msb) \<Rightarrow>
          (case serial_read_byte (drop (body_wire_end + n_msb) packet) of
             Inl _ \<Rightarrow> Inl (MediumError ''invalid escape in fcs'')
           | Inr (fcs_lsb, n_lsb) \<Rightarrow>
               (let trailer_pos = body_wire_end + n_msb + n_lsb
                in if length packet \<le> trailer_pos \<or> packet ! trailer_pos \<noteq> END_FLAG
                   then Inl (MediumError ''missing end flag'')
                   else if trailer_pos + 1 \<noteq> length packet
                   then Inl (MediumError ''trailing bytes after end flag'')
                   else Inr (u16_from_be_bytes fcs_msb fcs_lsb))))"

definition serial_deserialize ::
  "(u8 list \<Rightarrow> u16) \<Rightarrow> u8 list \<Rightarrow> (MctpPacketError, MctpSerialMediumFrame \<times> EncodingDecoder) result" where
  "serial_deserialize fcs_algo packet =
     (if length packet < HEADER_LEN + 3 then Inl (MediumError ''packet too short for serial frame'')
      else if packet ! 0 \<noteq> SERIAL_REVISION then Inl (MediumError ''unsupported serial revision'')
      else if CONST_MTU < unat (packet ! 1) then Inl (MediumError ''byte_count exceeds MTU'')
      else (case unstuff_body packet (unat (packet ! 1)) HEADER_LEN of
              Inl e \<Rightarrow> Inl e
            | Inr (decoded, body_wire_end) \<Rightarrow>
                (case serial_trailer packet body_wire_end of
                   Inl e \<Rightarrow> Inl e
                 | Inr wire_fcs \<Rightarrow>
                     if wire_fcs \<noteq> fcs_algo ([packet ! 0, packet ! 1] @ decoded)
                     then Inl (MediumError ''fcs mismatch'')
                     else Inr (\<lparr>revision = packet ! 0, serial_byte_count = packet ! 1, fcs = wire_fcs\<rparr>,
                               decoder_new (take (body_wire_end - HEADER_LEN) (drop HEADER_LEN packet))))))"

subsection \<open>Sending\<close>

text \<open>The second walk over the written body, which recovers the decoded bytes.\<close>

function redecode :: "u8 list \<Rightarrow> nat \<Rightarrow> (MctpPacketError, u8 list) result" where
  "redecode body decoded_len =
     (if body = [] then Inr []
      else (case serial_read_byte body of
              Inl _ \<Rightarrow> Inl (MediumError ''internal: failed to re-decode body'')
            | Inr (b, n) \<Rightarrow>
                if CONST_MTU \<le> decoded_len then Inl (MediumError ''body exceeds MTU'')
                else (case redecode (drop n body) (decoded_len + 1) of
                        Inl e \<Rightarrow> Inl e
                      | Inr bs \<Rightarrow> Inr (b # bs))))"
  by pat_completeness auto

lemma serial_read_byte_progress: "serial_read_byte w = Inr (b, n) \<Longrightarrow> 1 \<le> n \<and> n \<le> length w"
  by (auto simp: serial_read_byte_def split: list.splits if_splits)

termination redecode
  by (relation "measure (\<lambda>(body, _). length body)") (auto dest!: serial_read_byte_progress)

declare redecode.simps [simp del]

definition serial_serialize ::
  "(u8 list \<Rightarrow> u16) \<Rightarrow> unit \<Rightarrow> u8 list \<Rightarrow> ('c \<times> EncodingEncoder, MctpPacketError, unit) action \<Rightarrow> 'c
     \<Rightarrow> (MctpPacketError, u8 list) result \<times> u8 list \<times> 'c" where
  "serial_serialize fcs_algo rc buffer message_writer c =
     (if length buffer < HEADER_LEN + MAX_TRAILER_WIRE
      then (Inl (MediumError ''buffer too small for serial frame''), buffer, c)
      else (case message_writer (c, encoder_new (region HEADER_LEN MAX_TRAILER_WIRE buffer)) of
              (r, c', enc) \<Rightarrow>
                (let buffer = splice HEADER_LEN MAX_TRAILER_WIRE buffer (enc_buf enc);
                     body_wire_len = enc_wire_pos enc
                 in case r of
                      Inl e \<Rightarrow> (Inl e, buffer, c')
                    | Inr _ \<Rightarrow>
                        (case redecode (take body_wire_len (drop HEADER_LEN buffer)) 0 of
                           Inl e \<Rightarrow> (Inl e, buffer, c')
                         | Inr decoded \<Rightarrow>
                             if 255 < length decoded
                             then (Inl (MediumError ''body exceeds byte_count u8 cap''), buffer, c')
                             else
                               (let byte_count = of_nat (length decoded);
                                    fcs = fcs_algo ([SERIAL_REVISION, byte_count] @ decoded);
                                    buffer = buffer[0 := SERIAL_REVISION, 1 := byte_count];
                                    fcs_start = HEADER_LEN + body_wire_len
                                in case serial_write_byte (drop fcs_start buffer) (u16_msb fcs) of
                                     Inl _ \<Rightarrow> (Inl (MediumError ''internal: failed to encode fcs''), buffer, c')
                                   | Inr (n_msb, rest) \<Rightarrow>
                                       (let buffer = take fcs_start buffer @ rest
                                        in case serial_write_byte (drop (fcs_start + n_msb) buffer) (u16_lsb fcs) of
                                             Inl _ \<Rightarrow> (Inl (MediumError ''internal: failed to encode fcs''), buffer, c')
                                           | Inr (n_lsb, rest') \<Rightarrow>
                                               (let buffer = take (fcs_start + n_msb) buffer @ rest';
                                                    end_pos = fcs_start + n_msb + n_lsb;
                                                    buffer = buffer[end_pos := END_FLAG]
                                                in (Inr (take (end_pos + 1) buffer), buffer, c'))))))))"

text \<open>The index of the first end flag: \<open>iter().position\<close>.\<close>

fun flag_position :: "u8 list \<Rightarrow> nat option" where
  "flag_position [] = None"
| "flag_position (b # bs) = (if b = END_FLAG then Some 0 else map_option Suc (flag_position bs))"

definition serial_frame_complete :: "u8 list \<Rightarrow> (MctpPacketError, nat option) result" where
  "serial_frame_complete buf =
     (if buf = [] then Inr None
      else (let body_start = if hd buf = END_FLAG then 1 else 0
            in if length buf \<le> body_start then Inr None
               else (case flag_position (drop body_start buf) of
                       Some idx \<Rightarrow> Inr (Some (body_start + idx + 1))
                     | None \<Rightarrow> Inr None)))"

definition MctpSerialMedium :: "(u8 list \<Rightarrow> u16) \<Rightarrow> (MctpSerialMediumFrame, unit, 'c) medium" where
  "MctpSerialMedium fcs_algo =
     \<lparr>med_encoding = serial_encoding, max_message_body_size = CONST_MTU,
      med_deserialize = serial_deserialize fcs_algo, med_serialize = serial_serialize fcs_algo,
      frame_complete = serial_frame_complete,
      packet_size = (\<lambda>f. unat (serial_byte_count f)), frame_reply_context = (\<lambda>_. ())\<rparr>"

subsection \<open>The frame that is sent is the frame that is accepted\<close>

lemma serial_write_byte_eq:
  "length (serial_stuff b) \<le> length w \<Longrightarrow>
     serial_write_byte w b = Inr (length (serial_stuff b), serial_stuff b @ drop (length (serial_stuff b)) w)"
  using serial.write_byte[of w b] by (simp add: serial_encoding_def)

lemma serial_read_stuffed [simp]: "serial_read_byte (serial_stuff b @ rest) = Inr (b, length (serial_stuff b))"
  using serial.read_stuffed[of b rest] by (simp add: serial_encoding_def)

lemma redecode_stuffs: "k + length bs \<le> CONST_MTU \<Longrightarrow> redecode (serial.stuffs bs) k = Inr bs"
proof (induction bs arbitrary: k)
  case (Cons b bs)
  then show ?case
    using serial.stuff_nonempty[of b] by (subst redecode.simps) simp
qed (simp add: redecode.simps)

lemma unstuff_body_stuffs:
  "unstuff_body (pre @ serial.stuffs bs @ rest) (length bs) (length pre)
     = Inr (bs, length pre + length (serial.stuffs bs))"
proof (induction bs arbitrary: pre)
  case (Cons b bs)
  have "\<not> (b = END_FLAG \<and> length (serial_stuff b) = 1)"
    by (auto simp: serial_stuff_def END_FLAG_def)
  then show ?case using Cons.IH[of "pre @ serial_stuff b"] by (simp add: add.assoc)
qed simp

lemma serial_trailer_ok:
  "serial_trailer (pre @ serial_stuff m @ serial_stuff l @ [END_FLAG]) (length pre) = Inr (u16_from_be_bytes m l)"
  by (simp add: serial_trailer_def nth_append Let_def)

text \<open>The frame for a decoded body.\<close>

definition serial_frame :: "(u8 list \<Rightarrow> u16) \<Rightarrow> u8 list \<Rightarrow> u8 list" where
  "serial_frame fcs_algo bs =
     (let bc = of_nat (length bs); fcs = fcs_algo ([SERIAL_REVISION, bc] @ bs)
      in [SERIAL_REVISION, bc] @ serial.stuffs bs @ serial_stuff (u16_msb fcs) @ serial_stuff (u16_lsb fcs) @ [END_FLAG])"

lemma serial_deserialize_frame:
  assumes "length bs \<le> CONST_MTU"
  shows "serial_deserialize fcs_algo (serial_frame fcs_algo bs) =
    Inr (\<lparr>revision = SERIAL_REVISION, serial_byte_count = of_nat (length bs),
          fcs = fcs_algo ([SERIAL_REVISION, of_nat (length bs)] @ bs)\<rparr>, decoder_new (serial.stuffs bs))"
proof -
  define f where "f = fcs_algo ([SERIAL_REVISION, of_nat (length bs)] @ bs)"
  let ?hdr = "[SERIAL_REVISION, of_nat (length bs)] :: u8 list"
  let ?p = "?hdr @ serial.stuffs bs @ serial_stuff (u16_msb f) @ serial_stuff (u16_lsb f) @ [END_FLAG]"
  have frame: "serial_frame fcs_algo bs = ?p" by (simp add: serial_frame_def Let_def f_def)
  have bc: "unat (of_nat (length bs) :: u8) = length bs"
    using assms by (simp add: unat_of_nat CONST_MTU_def)
  have ne: "serial_stuff (u16_msb f) \<noteq> []" "serial_stuff (u16_lsb f) \<noteq> []" by (rule serial.stuff_nonempty)+
  then have len: "\<not> length ?p < HEADER_LEN + 3"
    by (cases "serial_stuff (u16_msb f)"; cases "serial_stuff (u16_lsb f)") (auto simp: HEADER_LEN_def)
  have body: "unstuff_body ?p (length bs) HEADER_LEN = Inr (bs, HEADER_LEN + length (serial.stuffs bs))"
    using unstuff_body_stuffs[of ?hdr bs] by (simp add: HEADER_LEN_def numeral_2_eq_2)
  have trailer: "serial_trailer ?p (HEADER_LEN + length (serial.stuffs bs)) = Inr f"
    using serial_trailer_ok[of "?hdr @ serial.stuffs bs" "u16_msb f" "u16_lsb f"] by (simp add: HEADER_LEN_def)
  have inner: "take (length (serial.stuffs bs)) (drop HEADER_LEN ?p) = serial.stuffs bs"
    by (simp add: HEADER_LEN_def)
  show ?thesis
    unfolding frame serial_deserialize_def
    using len body trailer inner assms by (simp add: bc f_def)
qed

lemma serial_emit:
  assumes "5 \<le> length T"
  shows "(case serial_write_byte (drop (length X) (X @ T)) m of
      Inl _ \<Rightarrow> (Inl e, X @ T, c)
    | Inr (n_msb, rest) \<Rightarrow>
        (let buffer = take (length X) (X @ T) @ rest
         in case serial_write_byte (drop (length X + n_msb) buffer) l of
              Inl _ \<Rightarrow> (Inl e, buffer, c)
            | Inr (n_lsb, rest') \<Rightarrow>
                (let buffer = take (length X + n_msb) buffer @ rest';
                     end_pos = length X + n_msb + n_lsb;
                     buffer = buffer[end_pos := END_FLAG]
                 in (Inr (take (end_pos + 1) buffer), buffer, c))))
    = (Inr (X @ serial_stuff m @ serial_stuff l @ [END_FLAG]),
       X @ serial_stuff m @ serial_stuff l @ END_FLAG # drop (length (serial_stuff m) + length (serial_stuff l) + 1) T, c)"
proof -
  let ?km = "length (serial_stuff m)" and ?kl = "length (serial_stuff l)"
  have k: "?km \<le> 2" "?kl \<le> 2" by (rule length_serial_stuff)+
  have "drop (?km + ?kl) T \<noteq> []" using k assms by simp
  then obtain t U where U: "drop (?km + ?kl) T = t # U" by (cases "drop (?km + ?kl) T") auto
  have tl: "drop (?km + ?kl + 1) T = U"
  proof -
    have "drop (?km + ?kl + 1) T = drop 1 (drop (?km + ?kl) T)" by (simp add: add.commute)
    then show ?thesis by (simp add: U)
  qed
  have m: "serial_write_byte T m = Inr (?km, serial_stuff m @ drop ?km T)"
    by (rule serial_write_byte_eq) (use k assms in linarith)
  have l: "serial_write_byte (drop ?km T) l = Inr (?kl, serial_stuff l @ drop ?kl (drop ?km T))"
    by (rule serial_write_byte_eq) (use k assms in simp)
  have dd: "drop ?kl (drop ?km T) = t # U" "drop (?kl + ?km) T = t # U" using U by (simp_all add: add.commute)
  show ?thesis
    by (simp add: m l dd Let_def list_update_append tl[simplified])
qed

lemma serial_serialize_ok:
  assumes "HEADER_LEN + MAX_TRAILER_WIRE \<le> length buf"
    and "w (c, encoder_new (region HEADER_LEN MAX_TRAILER_WIRE buf)) = (Inr (), (c', enc))"
    and "length (enc_buf enc) = length (region HEADER_LEN MAX_TRAILER_WIRE buf)"
    and "enc_wire_pos enc \<le> length (region HEADER_LEN MAX_TRAILER_WIRE buf)"
    and "take (enc_wire_pos enc) (enc_buf enc) = serial.stuffs bs" and "length bs \<le> CONST_MTU"
  shows "\<exists>buf'. serial_serialize fcs_algo rc buf w c = (Inr (serial_frame fcs_algo bs), buf', c') \<and> length buf' = length buf"
proof -
  let ?n = "enc_wire_pos enc"
  let ?bc = "of_nat (length bs) :: u8"
  define f where "f = fcs_algo ([SERIAL_REVISION, ?bc] @ bs)"
  define T where "T = drop ?n (enc_buf enc) @ drop (length buf - MAX_TRAILER_WIRE) buf"
  obtain x y where xy: "take 2 buf = [x, y]"
    using assms(1) by (cases buf; cases "tl buf") (auto simp: serial_consts)
  have n: "?n = length (serial.stuffs bs)"
    using arg_cong[OF assms(5), of length] assms(3,4) by simp
  have "splice HEADER_LEN MAX_TRAILER_WIRE buf (enc_buf enc) = [x, y] @ serial.stuffs bs @ T"
    using append_take_drop_id[of ?n "enc_buf enc"] xy
    by (simp add: splice_def T_def HEADER_LEN_def assms(5) flip: append_assoc)
  moreover have "5 \<le> length T"
    using assms(1) by (simp add: T_def serial_consts)
  ultimately have written: "splice HEADER_LEN MAX_TRAILER_WIRE buf (enc_buf enc) = [x, y] @ serial.stuffs bs @ T"
    and T: "5 \<le> length T" by simp_all
  have body: "take ?n (drop HEADER_LEN ([x, y] @ serial.stuffs bs @ T)) = serial.stuffs bs"
    by (simp add: HEADER_LEN_def n)
  have hdr: "([x, y] @ serial.stuffs bs @ T)[0 := SERIAL_REVISION, 1 := ?bc]
      = ([SERIAL_REVISION, ?bc] @ serial.stuffs bs) @ T" by simp
  have start: "HEADER_LEN + ?n = length ([SERIAL_REVISION, ?bc] @ serial.stuffs bs)"
    by (simp add: HEADER_LEN_def n)
  have re: "redecode (serial.stuffs bs) 0 = Inr bs" by (rule redecode_stuffs) (use assms(6) in simp)
  have "serial_serialize fcs_algo rc buf w c =
      (Inr (([SERIAL_REVISION, ?bc] @ serial.stuffs bs) @ serial_stuff (u16_msb f) @ serial_stuff (u16_lsb f) @ [END_FLAG]),
       ([SERIAL_REVISION, ?bc] @ serial.stuffs bs) @ serial_stuff (u16_msb f) @ serial_stuff (u16_lsb f) @ END_FLAG
         # drop (length (serial_stuff (u16_msb f)) + length (serial_stuff (u16_lsb f)) + 1) T, c')"
    using assms(1,6)
    by (simp only: serial_serialize_def assms(2) written body re hdr start Let_def prod.case sum.case
        serial_emit [OF T, unfolded Let_def] if_False not_less not_le CONST_MTU_def f_def) (simp add: f_def)
  moreover have "length buf = 2 + ?n + length T"
    using assms(1,3,4) by (simp add: T_def serial_consts)
  ultimately show ?thesis
    using T length_serial_stuff[of "u16_msb f"] length_serial_stuff[of "u16_lsb f"]
    by (simp add: serial_frame_def Let_def f_def n)
qed

interpretation serial_medium: lawful_medium
  "MctpSerialMedium fcs_algo :: (MctpSerialMediumFrame, unit, 'c) medium" serial_stuff
  HEADER_LEN MAX_TRAILER_WIRE "\<lambda>_. True"
proof -
  let ?M = "MctpSerialMedium fcs_algo :: (MctpSerialMediumFrame, unit, 'c) medium"
  have enc: "buffer_encoding (med_encoding ?M) serial_stuff"
    by (simp add: MctpSerialMedium_def serial.buffer_encoding_axioms)
  show "lawful_medium ?M serial_stuff HEADER_LEN MAX_TRAILER_WIRE (\<lambda>_. True)"
  proof (intro lawful_medium.intro enc lawful_medium_axioms.intro)
    fix buf c e c' enc rc and w :: "('c \<times> EncodingEncoder, MctpPacketError, unit) action"
    assume "HEADER_LEN + MAX_TRAILER_WIRE \<le> length buf"
      and "w (c, encoder_new (region HEADER_LEN MAX_TRAILER_WIRE buf)) = (Inl e, c', enc)"
      and "length (enc_buf enc) = length (region HEADER_LEN MAX_TRAILER_WIRE buf)"
    then show "\<exists>buf'. med_serialize (MctpSerialMedium fcs_algo) rc buf w c = (Inl e, buf', c') \<and> length buf' = length buf"
      by (simp add: MctpSerialMedium_def serial_serialize_def Let_def)
  next
    fix buf c c' enc bs rc and w :: "('c \<times> EncodingEncoder, MctpPacketError, unit) action"
    assume a: "HEADER_LEN + MAX_TRAILER_WIRE \<le> length buf"
      "w (c, encoder_new (region HEADER_LEN MAX_TRAILER_WIRE buf)) = (Inr (), c', enc)"
      "length (enc_buf enc) = length (region HEADER_LEN MAX_TRAILER_WIRE buf)"
      "enc_wire_pos enc \<le> length (region HEADER_LEN MAX_TRAILER_WIRE buf)"
      "take (enc_wire_pos enc) (enc_buf enc) = concat (map serial_stuff bs)"
      "enc_wire_pos enc \<le> max_message_body_size (MctpSerialMedium fcs_algo)"
    have "length bs \<le> enc_wire_pos enc"
      using serial.length_stuffs[of bs] arg_cong[OF a(5), of length] a(3,4) by (simp add: serial.stuffs_def)
    then have bs: "length bs \<le> CONST_MTU" using a(6) by (simp add: MctpSerialMedium_def)
    obtain buf' where "serial_serialize fcs_algo rc buf w c = (Inr (serial_frame fcs_algo bs), buf', c')"
      "length buf' = length buf"
      using serial_serialize_ok [where w = w and c = c, OF a(1-4) a(5) [folded serial.stuffs_def] bs, of fcs_algo rc] by blast
    then show "\<exists>pkt buf' frame. med_serialize (MctpSerialMedium fcs_algo) rc buf w c = (Inr pkt, buf', c')
        \<and> length buf' = length buf
        \<and> med_deserialize (MctpSerialMedium fcs_algo) pkt = Inr (frame, decoder_new (concat (map serial_stuff bs)))
        \<and> packet_size (MctpSerialMedium fcs_algo) frame = length bs"
      using serial_deserialize_frame[OF bs, of fcs_algo] bs
      by (simp add: MctpSerialMedium_def serial.stuffs_def unat_of_nat CONST_MTU_def)
  qed
qed

subsection \<open>Properties\<close>

lemma serialize_write_through:
  assumes "length bs \<le> CONST_MTU" and "length (serial.stuffs bs) + HEADER_LEN + MAX_TRAILER_WIRE \<le> length buf"
  shows "\<exists>buf'. serial_serialize fcs_algo rc buf (write_through serial_encoding bs) c
    = (Inr (serial_frame fcs_algo bs), buf', c) \<and> length buf' = length buf"
proof -
  let ?r = "region HEADER_LEN MAX_TRAILER_WIRE buf"
  have fits: "length (serial.stuffs bs) \<le> length ?r" using assms(2) by simp
  let ?enc = "encoder_new ?r\<lparr>enc_buf := serial.stuffs bs @ drop (length (serial.stuffs bs)) ?r,
      enc_wire_pos := length (serial.stuffs bs)\<rparr>"
  have "write_through serial_encoding bs (c, encoder_new ?r) = (Inr (), (c, ?enc))"
    using serial.write_all_ok[of "encoder_new ?r" bs] fits by (simp add: write_through_def encoder_new_def)
  note ok = serial_serialize_ok [where w = "write_through serial_encoding bs" and c = c and buf = buf, OF _ this]
  show ?thesis by (rule ok) (use assms fits in simp_all)
qed

text \<open>A body of at most 251 bytes whose stuffed form fits into the buffer is sent as a frame that the
  receiver accepts, whatever the check sequence function; the frame tells the number of decoded
  bytes, and reading that many bytes from the decoder returns exactly the body.\<close>

theorem serial_packet_roundtrip:
  assumes "length bs \<le> CONST_MTU" and "length (serial.stuffs bs) + HEADER_LEN + MAX_TRAILER_WIRE \<le> length buf"
  shows "\<exists>pkt buf' frame d.
      serial_serialize fcs_algo () buf (write_through serial_encoding bs) c = (Inr pkt, buf', c)
      \<and> serial_deserialize fcs_algo pkt = Inr (frame, d)
      \<and> unat (serial_byte_count frame) = length bs
      \<and> fst (read_n serial_encoding (length bs) d) = Inr bs"
proof -
  obtain buf' where "serial_serialize fcs_algo () buf (write_through serial_encoding bs) c
      = (Inr (serial_frame fcs_algo bs), buf', c)"
    using serialize_write_through [OF assms, of fcs_algo "()" c] by blast
  with serial_deserialize_frame[OF assms(1), of fcs_algo] serial.read_n_stuffs[of bs "[]" "[]"] assms(1)
  show ?thesis by (simp add: unat_of_nat CONST_MTU_def decoder_new_def)
qed

theorem serial_packet_roundtrip_witness:
  "\<exists>pkt buf' frame d.
      serial_serialize (\<lambda>_. 0x7E7D) () (replicate 11 0) (write_through serial_encoding [0x7E, 0x41]) () = (Inr pkt, buf', ())
      \<and> serial_deserialize (\<lambda>_. 0x7E7D) pkt = Inr (frame, d)
      \<and> unat (serial_byte_count frame) = length [0x7E, 0x41 :: u8]
      \<and> fst (read_n serial_encoding (length [0x7E, 0x41 :: u8]) d) = Inr [0x7E, 0x41]"
proof (rule serial_packet_roundtrip)
  have "serial_stuff 0x7E = [0x7D, 0x5E]" "serial_stuff 0x41 = [0x41]" by (simp_all add: serial_stuff_def)
  then show "length (serial.stuffs [0x7E, 0x41]) + HEADER_LEN + MAX_TRAILER_WIRE \<le> length (replicate 11 (0 :: u8))"
    by (simp add: serial_consts)
qed (simp add: serial_consts)

lemma flag_position_append: "0x7E \<notin> set xs \<Longrightarrow> flag_position (xs @ END_FLAG # ys) = Some (length xs)"
  by (induction xs) (auto simp: END_FLAG_def)

text \<open>\<open>frame_complete\<close> finds the exact length of every frame that \<open>serialize\<close> produced at the
  start of a stream, except for bodies of 126 decoded bytes: their byte count, which is sent
  without stuffing, equals the end flag, and the frame is cut after two bytes.\<close>

theorem serial_frame_complete_length:
  assumes "serial_serialize fcs_algo () buf (write_through serial_encoding bs) c = (Inr pkt, buf', c')"
    and "length bs \<le> CONST_MTU" and "length (serial.stuffs bs) + HEADER_LEN + MAX_TRAILER_WIRE \<le> length buf"
  shows "serial_frame_complete (pkt @ rest) = Inr (Some (if length bs = 126 then 2 else length pkt))"
proof -
  define f where "f = fcs_algo ([SERIAL_REVISION, of_nat (length bs)] @ bs)"
  let ?body = "serial.stuffs bs @ serial_stuff (u16_msb f) @ serial_stuff (u16_lsb f)"
  have pkt: "pkt = SERIAL_REVISION # of_nat (length bs) # ?body @ [END_FLAG]"
    using assms(1) serialize_write_through[OF assms(2,3), of fcs_algo "()" c]
    by (auto simp: serial_frame_def Let_def f_def)
  have rev: "SERIAL_REVISION \<noteq> END_FLAG" by (simp add: serial_consts)
  have bc: "(of_nat (length bs) :: u8) = END_FLAG \<longleftrightarrow> length bs = 126"
    using assms(2) by (simp add: word_unat_eq_iff unat_of_nat END_FLAG_def CONST_MTU_def)
  have "flag_position (?body @ END_FLAG # rest) = Some (length ?body)"
    by (rule flag_position_append) (simp add: flag_notin_stuffs flag_notin_stuff)
  then show ?thesis
    by (auto simp: pkt serial_frame_complete_def rev bc)
qed

theorem serial_frame_complete_length_witness:
  "serial_frame_complete ((SERIAL_REVISION # 126 # replicate 126 0x41 @ [0x01, 0x02, END_FLAG]) @ [5])
    = Inr (Some (if length (replicate 126 (0x41 :: u8)) = 126 then 2 else 131))"
proof -
  let ?bs = "replicate 126 (0x41 :: u8)"
  have st1: "serial_stuff 0x41 = [0x41]" "serial_stuff 1 = [1]" "serial_stuff 2 = [2]" by (simp_all add: serial_stuff_def)
  have fcs: "u16_msb 0x0102 = 1" "u16_lsb 0x0102 = 2" by code_simp+
  have st: "serial.stuffs (replicate n 0x41) = replicate n 0x41" for n
    by (induction n) (simp_all add: st1)
  have fits: "length ?bs \<le> CONST_MTU" "length (serial.stuffs ?bs) + HEADER_LEN + MAX_TRAILER_WIRE \<le> length (replicate 200 (0 :: u8))"
    by (simp_all add: serial_consts st)
  obtain buf' where "serial_serialize (\<lambda>_. 0x0102) () (replicate 200 0) (write_through serial_encoding ?bs) ()
      = (Inr (serial_frame (\<lambda>_. 0x0102) ?bs), buf', ())"
    using serialize_write_through [OF fits, of "\<lambda>_. 0x0102" "()" "()"] by blast
  from serial_frame_complete_length[OF this fits, of "[5]"] show ?thesis
    by (simp add: serial_frame_def Let_def st fcs st1 serial_consts del: replicate.simps)
qed

lemma unstuff_body_Inr:
  "unstuff_body packet n pos = Inr (bs, pos') \<Longrightarrow> pos \<le> length packet \<Longrightarrow>
     length bs = n \<and> pos' = pos + length (serial.stuffs bs)
     \<and> (\<exists>rest. drop pos packet = serial.stuffs bs @ rest)"
proof (induction packet n pos arbitrary: bs pos' rule: unstuff_body.induct)
  case (2 packet n pos)
  from 2(2) obtain b k cs where read: "serial_read_byte (drop pos packet) = Inr (b, k)"
    and flag: "\<not> (b = END_FLAG \<and> k = 1)"
    and rec: "unstuff_body packet n (pos + k) = Inr (cs, pos')" and bs: "bs = b # cs"
    by (auto split: sum.splits DecodeError.splits prod.splits if_splits)
  obtain rest where w: "drop pos packet = serial_stuff b @ rest" and k: "k = length (serial_stuff b)"
    using serial_read_stuffed_form[OF read] flag by (auto simp: END_FLAG_def)
  have "pos + k \<le> length packet"
    using arg_cong[OF w, of length] k 2(3) by simp
  with 2(1)[OF read refl flag rec] obtain rest' where "length cs = n"
    "pos' = pos + k + length (serial.stuffs cs)" "drop (pos + k) packet = serial.stuffs cs @ rest'"
    by blast
  moreover have "drop (pos + k) packet = rest"
    using arg_cong[OF w, of "drop k"] by (simp add: k add.commute)
  ultimately have "drop pos packet = serial.stuffs bs @ rest'" "length bs = Suc n" "pos' = pos + length (serial.stuffs bs)"
    using w by (simp_all add: bs k)
  then show ?case by blast
qed auto

text \<open>The receiver accepts only checked frames: an accepted packet is the revision byte, the number
  of body bytes, the stuffed body and a trailer that ends in the end flag at the very end; the check
  sequence it carries is the one computed over the header and the body; and the decoder it returns
  reads exactly that body.\<close>

theorem serial_accepts_checked_frames:
  assumes "serial_deserialize fcs_algo packet = Inr (frame, d)"
  shows "\<exists>bs trailer. packet = [SERIAL_REVISION, of_nat (length bs)] @ serial.stuffs bs @ trailer @ [END_FLAG]
    \<and> length bs \<le> CONST_MTU \<and> unat (serial_byte_count frame) = length bs
    \<and> fcs frame = fcs_algo ([SERIAL_REVISION, of_nat (length bs)] @ bs)
    \<and> fst (read_n serial_encoding (length bs) d) = Inr bs"
proof -
  obtain x bc body where p: "packet = x # bc # body"
    using assms by (cases packet; cases "tl packet") (auto simp: serial_deserialize_def serial_consts)
  from assms obtain bs end_pos wire where
    x: "x = SERIAL_REVISION" and bc: "unat bc \<le> CONST_MTU"
    and walk: "unstuff_body packet (unat bc) HEADER_LEN = Inr (bs, end_pos)"
    and trailer: "serial_trailer packet end_pos = Inr wire"
    and fcs: "wire = fcs_algo ([x, bc] @ bs)" and frame: "frame = \<lparr>revision = x, serial_byte_count = bc, fcs = wire\<rparr>"
    and d: "d = decoder_new (take (end_pos - HEADER_LEN) (drop HEADER_LEN packet))"
    by (auto simp: serial_deserialize_def p split: if_splits sum.splits prod.splits)
  from unstuff_body_Inr[OF walk] obtain rest where bs: "length bs = unat bc"
    "end_pos = HEADER_LEN + length (serial.stuffs bs)" "body = serial.stuffs bs @ rest"
    by (auto simp: p HEADER_LEN_def)
  have cnt: "of_nat (length bs) = bc" by (simp add: bs)
  obtain t where t: "t + 1 = length packet" "packet ! t = END_FLAG" "end_pos \<le> t"
    using trailer by (auto simp: serial_trailer_def Let_def split: sum.splits prod.splits if_splits)
  then have "rest \<noteq> []" and last: "last packet = END_FLAG"
    using bs by (auto simp: p HEADER_LEN_def last_conv_nth)
  then obtain tr where "rest = tr @ [END_FLAG]"
    by (cases rest rule: rev_cases) (auto simp: p bs)
  moreover have "fst (read_n serial_encoding (length bs) d) = Inr bs"
    using serial.read_n_stuffs[of bs "[]" "[]"] by (simp add: d p bs HEADER_LEN_def decoder_new_def)
  ultimately show ?thesis
    using bc bs(1) cnt
    by (intro exI[of _ bs] exI[of _ tr]) (simp add: p x bs(3) frame fcs)
qed

theorem serial_accepts_checked_frames_witness:
  "\<exists>bs trailer. [0x01, 0x01, 0x7D, 0x5E, 0x01, 0x02, 0x7E] = [SERIAL_REVISION, of_nat (length bs)] @ serial.stuffs bs @ trailer @ [END_FLAG]
    \<and> length bs \<le> CONST_MTU \<and> unat (1 :: u8) = length bs
    \<and> (0x0102 :: u16) = (\<lambda>_. 0x0102) ([SERIAL_REVISION, of_nat (length bs)] @ bs)
    \<and> fst (read_n serial_encoding (length bs) (decoder_new [0x7D, 0x5E])) = Inr bs"
proof -
  have "serial_deserialize (\<lambda>_. 0x0102) [0x01, 0x01, 0x7D, 0x5E, 0x01, 0x02, 0x7E]
      = Inr (\<lparr>revision = 1, serial_byte_count = 1, fcs = 0x0102\<rparr>, decoder_new [0x7D, 0x5E])" by code_simp
  from serial_accepts_checked_frames[OF this] show ?thesis by simp
qed

end
