(* ===== verification/Mctp_Smbus.thy ===== *)
theory Mctp_Smbus
  imports Mctp_Medium
begin

text \<open>
  The SMBus/eSPI medium: \<open>mctp-rs/src/medium/smbus_espi.rs\<close>. The packet error code is computed by the
  \<open>smbus_pec\<close> crate and the header conversion is generated by \<open>bit_register!\<close>: both are parameters,
  the latter with the law \<open>lawful_smbus_codec\<close> and an instance that follows the declared bits.
\<close>

record SmbusEspiReplyContext =
  destination_slave_address :: u8
  source_slave_address :: u8

datatype SmbusCommandCode = Mctp

fun smbus_command_code_to_u8 :: "SmbusCommandCode \<Rightarrow> u8" where
  "smbus_command_code_to_u8 Mctp = 0x0F"

definition smbus_command_code_try_from_bits :: "u32 \<Rightarrow> SmbusCommandCode bits_result" where
  "smbus_command_code_try_from_bits bits =
     (if 0xFF < bits then Inl ''Command code out of range''
      else if (ucast bits :: u8) = 0x0F then Inr Mctp else Inl ''Invalid command code'')"

record SmbusEspiMediumHeader =
  hdr_destination_slave_address :: u8
  hdr_command_code :: SmbusCommandCode
  hdr_byte_count :: u8
  hdr_source_slave_address :: u8

record SmbusEspiMediumFrame =
  smbus_header :: SmbusEspiMediumHeader
  pec :: u8

definition reply_context_new :: "SmbusEspiMediumFrame \<Rightarrow> SmbusEspiReplyContext" where
  "reply_context_new frame =
     \<lparr>destination_slave_address = hdr_destination_slave_address (smbus_header frame),
      source_slave_address = hdr_source_slave_address (smbus_header frame)\<rparr>"

record smbus_codec =
  smbus_to_u32 :: "SmbusEspiMediumHeader \<Rightarrow> u32 bits_result"
  smbus_from_u32 :: "u32 \<Rightarrow> SmbusEspiMediumHeader bits_result"

definition valid_smbus_header :: "SmbusEspiMediumHeader \<Rightarrow> bool" where
  "valid_smbus_header h \<longleftrightarrow> hdr_destination_slave_address h < 128 \<and> hdr_source_slave_address h < 128"

definition valid_smbus_rc :: "SmbusEspiReplyContext \<Rightarrow> bool" where
  "valid_smbus_rc rc \<longleftrightarrow> destination_slave_address rc < 128 \<and> source_slave_address rc < 128"

text \<open>A header that fits its bits survives the conversion, and the byte count is the third byte on
  the wire, where \<open>frame_complete\<close> reads it.\<close>

locale lawful_smbus_codec =
  fixes sc :: smbus_codec
  assumes smbus_roundtrip: "valid_smbus_header h \<Longrightarrow>
    \<exists>v. smbus_to_u32 sc h = Inr v \<and> smbus_from_u32 sc v = Inr h \<and> to_be_bytes v ! 2 = hdr_byte_count h"

subsection \<open>The medium\<close>

definition smbus_deserialize ::
  "smbus_codec \<Rightarrow> u8 list \<Rightarrow> (MctpPacketError, SmbusEspiMediumFrame \<times> EncodingDecoder) result" where
  "smbus_deserialize sc packet =
     (if length packet < 4 then Inl (MediumError ''Packet too short to parse smbus header'')
      else (let header_value = from_be_bytes (take 4 packet);
                packet = drop 4 packet
            in case smbus_from_u32 sc header_value of
                 Inl _ \<Rightarrow> Inl (MediumError ''Invalid smbus header'')
               | Inr header \<Rightarrow>
                   if length packet < unat (hdr_byte_count header) + 1
                   then Inl (MediumError ''Packet too short to parse smbus body and PEC'')
                   else Inr (\<lparr>smbus_header = header, pec = packet ! unat (hdr_byte_count header)\<rparr>,
                             decoder_new (take (unat (hdr_byte_count header)) packet))))"

definition smbus_serialize ::
  "smbus_codec \<Rightarrow> (u8 list \<Rightarrow> u8) \<Rightarrow> SmbusEspiReplyContext \<Rightarrow> u8 list
     \<Rightarrow> ('c \<times> EncodingEncoder, MctpPacketError, unit) action \<Rightarrow> 'c
     \<Rightarrow> (MctpPacketError, u8 list) result \<times> u8 list \<times> 'c" where
  "smbus_serialize sc smbus_pec rc buffer message_writer c =
     (if length buffer < 5 then (Inl (MediumError ''Buffer too small for smbus frame''), buffer, c)
      else (case message_writer (c, encoder_new (region 4 1 buffer)) of
              (r, c', enc) \<Rightarrow>
                (let buffer = splice 4 1 buffer (enc_buf enc);
                     body_wire_len = enc_wire_pos enc
                 in case r of
                      Inl e \<Rightarrow> (Inl e, buffer, c')
                    | Inr _ \<Rightarrow>
                        (case smbus_to_u32 sc
                             \<lparr>hdr_destination_slave_address = source_slave_address rc,
                              hdr_command_code = Mctp, hdr_byte_count = of_nat body_wire_len,
                              hdr_source_slave_address = destination_slave_address rc\<rparr> of
                           Inl e \<Rightarrow> (Inl (MediumError e), buffer, c')
                         | Inr header_value \<Rightarrow>
                             (let buffer = to_be_bytes header_value @ drop 4 buffer;
                                  pec_value = smbus_pec (take (4 + body_wire_len) buffer);
                                  buffer = buffer[4 + body_wire_len := pec_value]
                              in (Inr (take (4 + body_wire_len + 1) buffer), buffer, c'))))))"

definition smbus_frame_complete :: "u8 list \<Rightarrow> (MctpPacketError, nat option) result" where
  "smbus_frame_complete buf =
     (if length buf < 4 then Inr None
      else (let total = 4 + unat (buf ! 2) + 1
            in if length buf < total then Inr None else Inr (Some total)))"

definition SMBUS_MTU :: nat where "SMBUS_MTU = 32"

definition SmbusEspiMedium ::
  "smbus_codec \<Rightarrow> (u8 list \<Rightarrow> u8) \<Rightarrow> (SmbusEspiMediumFrame, SmbusEspiReplyContext, 'c) medium" where
  "SmbusEspiMedium sc smbus_pec =
     \<lparr>med_encoding = passthrough, max_message_body_size = SMBUS_MTU,
      med_deserialize = smbus_deserialize sc, med_serialize = smbus_serialize sc smbus_pec,
      frame_complete = smbus_frame_complete,
      packet_size = (\<lambda>f. unat (hdr_byte_count (smbus_header f))),
      frame_reply_context = reply_context_new\<rparr>"

subsection \<open>The frame that is sent is the frame that is accepted\<close>

definition smbus_reply_header :: "SmbusEspiReplyContext \<Rightarrow> nat \<Rightarrow> SmbusEspiMediumHeader" where
  "smbus_reply_header rc n =
     \<lparr>hdr_destination_slave_address = source_slave_address rc, hdr_command_code = Mctp,
      hdr_byte_count = of_nat n, hdr_source_slave_address = destination_slave_address rc\<rparr>"

lemma valid_smbus_reply_header: "valid_smbus_rc rc \<Longrightarrow> valid_smbus_header (smbus_reply_header rc n)"
  by (simp add: valid_smbus_rc_def valid_smbus_header_def smbus_reply_header_def)

lemma smbus_serialize_ok:
  assumes "4 + 1 \<le> length buf"
    and w: "w (c, encoder_new (region 4 1 buf)) = (Inr (), (c', enc))"
    and len: "length (enc_buf enc) = length (region 4 1 buf)" "enc_wire_pos enc \<le> length (region 4 1 buf)"
    and bs: "take (enc_wire_pos enc) (enc_buf enc) = bs"
    and v: "smbus_to_u32 sc (smbus_reply_header rc (length bs)) = Inr v"
  shows "\<exists>buf'. smbus_serialize sc smbus_pec rc buf w c
      = (Inr (to_be_bytes v @ bs @ [smbus_pec (to_be_bytes v @ bs)]), buf', c') \<and> length buf' = length buf"
proof -
  let ?n = "enc_wire_pos enc"
  define T where "T = drop ?n (enc_buf enc) @ drop (length buf - 1) buf"
  have n: "?n = length bs" using arg_cong[OF bs, of length] len by simp
  have T: "drop 4 (splice 4 1 buf (enc_buf enc)) = bs @ T"
    using assms(1) append_take_drop_id[of ?n "enc_buf enc"] bs
    by (simp add: splice_parts T_def flip: append_assoc)
  have lenT: "1 \<le> length T" "length buf = 4 + length bs + length T"
    using assms(1) len by (simp_all add: T_def n)
  then obtain t U where U: "T = t # U" by (cases T) auto
  have "smbus_serialize sc smbus_pec rc buf w c
      = (Inr (to_be_bytes v @ bs @ [smbus_pec (to_be_bytes v @ bs)]),
         to_be_bytes v @ bs @ smbus_pec (to_be_bytes v @ bs) # U, c')"
    using assms(1) v
    by (simp add: smbus_serialize_def w Let_def T n smbus_reply_header_def U list_update_append
        del: One_nat_def)
  then show ?thesis using lenT U by simp
qed

lemma smbus_deserialize_frame:
  assumes "smbus_from_u32 sc v = Inr h" and "unat (hdr_byte_count h) = length bs"
  shows "smbus_deserialize sc (to_be_bytes v @ bs @ [p]) = Inr (\<lparr>smbus_header = h, pec = p\<rparr>, decoder_new bs)"
  using assms by (simp add: smbus_deserialize_def Let_def)

context lawful_smbus_codec
begin

lemma lawful_smbus_medium:
  fixes smbus_pec :: "u8 list \<Rightarrow> u8"
  shows "lawful_medium (SmbusEspiMedium sc smbus_pec :: (SmbusEspiMediumFrame, SmbusEspiReplyContext, 'c) medium)
    (\<lambda>b. [b]) 4 1 valid_smbus_rc"
proof -
  let ?M = "SmbusEspiMedium sc smbus_pec :: (SmbusEspiMediumFrame, SmbusEspiReplyContext, 'c) medium"
  have enc: "buffer_encoding (med_encoding ?M) (\<lambda>b. [b])"
    by (simp add: SmbusEspiMedium_def passthrough.buffer_encoding_axioms)
  show ?thesis
  proof (intro lawful_medium.intro enc lawful_medium_axioms.intro)
    fix buf c e c' enc rc and w :: "('c \<times> EncodingEncoder, MctpPacketError, unit) action"
    assume "4 + 1 \<le> length buf" and "w (c, encoder_new (region 4 1 buf)) = (Inl e, c', enc)"
      and "length (enc_buf enc) = length (region 4 1 buf)"
    then show "\<exists>buf'. med_serialize ?M rc buf w c = (Inl e, buf', c') \<and> length buf' = length buf"
      by (simp add: SmbusEspiMedium_def smbus_serialize_def Let_def)
  next
    fix buf c c' enc bs rc and w :: "('c \<times> EncodingEncoder, MctpPacketError, unit) action"
    assume a: "4 + 1 \<le> length buf" "w (c, encoder_new (region 4 1 buf)) = (Inr (), c', enc)"
      "length (enc_buf enc) = length (region 4 1 buf)" "enc_wire_pos enc \<le> length (region 4 1 buf)"
      "take (enc_wire_pos enc) (enc_buf enc) = concat (map (\<lambda>b. [b]) bs)"
      "enc_wire_pos enc \<le> max_message_body_size ?M" and rc: "valid_smbus_rc rc"
    have bs: "take (enc_wire_pos enc) (enc_buf enc) = bs" using a(5) by simp
    then have "length bs \<le> SMBUS_MTU" using a(6) by (auto simp: SmbusEspiMedium_def)
    then have cnt: "unat (of_nat (length bs) :: u8) = length bs" by (simp add: unat_of_nat SMBUS_MTU_def)
    obtain v where v: "smbus_to_u32 sc (smbus_reply_header rc (length bs)) = Inr v"
      "smbus_from_u32 sc v = Inr (smbus_reply_header rc (length bs))"
      using smbus_roundtrip [OF valid_smbus_reply_header [OF rc]] by blast
    obtain buf' where "smbus_serialize sc smbus_pec rc buf w c
        = (Inr (to_be_bytes v @ bs @ [smbus_pec (to_be_bytes v @ bs)]), buf', c')" "length buf' = length buf"
      using smbus_serialize_ok [where w = w and c = c, OF a(1-4) bs v(1)] by blast
    with smbus_deserialize_frame [OF v(2), of bs] cnt
    show "\<exists>pkt buf' frame. med_serialize ?M rc buf w c = (Inr pkt, buf', c') \<and> length buf' = length buf
        \<and> med_deserialize ?M pkt = Inr (frame, decoder_new (concat (map (\<lambda>b. [b]) bs)))
        \<and> packet_size ?M frame = length bs"
      by (simp add: SmbusEspiMedium_def smbus_reply_header_def)
  qed
qed

end

subsection \<open>The declared layout\<close>

definition smbus_layout_to_u32 :: "SmbusEspiMediumHeader \<Rightarrow> u32 bits_result" where
  "smbus_layout_to_u32 h = Inr
     (place 25 (hdr_destination_slave_address h) OR place 16 (smbus_command_code_to_u8 (hdr_command_code h))
      OR place 8 (hdr_byte_count h) OR place 1 (hdr_source_slave_address h) OR place 0 1)"

definition smbus_layout_from_u32 :: "u32 \<Rightarrow> SmbusEspiMediumHeader bits_result" where
  "smbus_layout_from_u32 v =
     (case (zero_try_from_bits (field 24 1 v), smbus_command_code_try_from_bits (field 16 8 v), one_try_from_bits (field 0 1 v)) of
        (Inr _, Inr cc, Inr _) \<Rightarrow>
          Inr \<lparr>hdr_destination_slave_address = ucast (field 25 7 v), hdr_command_code = cc,
               hdr_byte_count = ucast (field 8 8 v), hdr_source_slave_address = ucast (field 1 7 v)\<rparr>
      | _ \<Rightarrow> Inl ''invalid smbus header'')"

definition smbus_layout_codec :: smbus_codec where
  "smbus_layout_codec = \<lparr>smbus_to_u32 = smbus_layout_to_u32, smbus_from_u32 = smbus_layout_from_u32\<rparr>"

definition smbus_places :: "u8 \<Rightarrow> u8 \<Rightarrow> u8 \<Rightarrow> u8 \<Rightarrow> u8 \<Rightarrow> u32" where
  "smbus_places dst cc bc src one = place 25 dst OR place 16 cc OR place 8 bc OR place 1 src OR place 0 one"

lemma smbus_fields:
  assumes "dst < 2 ^ 7" "src < 2 ^ 7" "one < 2 ^ 1"
  shows "field 25 7 (smbus_places dst cc bc src one) = ucast dst"
    and "field 24 1 (smbus_places dst cc bc src one) = 0"
    and "field 16 8 (smbus_places dst cc bc src one) = ucast cc"
    and "field 8 8 (smbus_places dst cc bc src one) = ucast bc"
    and "field 1 7 (smbus_places dst cc bc src one) = ucast src"
    and "field 0 1 (smbus_places dst cc bc src one) = ucast one"
proof -
  note bits = smbus_places_def bit_field bit_or_iff bit_place bit_ucast_iff bit_u8_ge assms [THEN bit_u8_small]
  note lt = assms [THEN bit_u8_lt] bit_u8_lt8
  show "field 25 7 (smbus_places dst cc bc src one) = ucast dst"
    by (rule bit_word_eqI) (auto simp: bits not_less intro: lt)
  show "field 24 1 (smbus_places dst cc bc src one) = 0"
    by (rule bit_word_eqI) (auto simp: bits not_less)
  show "field 16 8 (smbus_places dst cc bc src one) = ucast cc"
    by (rule bit_word_eqI) (auto simp: bits not_less intro: lt)
  show "field 8 8 (smbus_places dst cc bc src one) = ucast bc"
    by (rule bit_word_eqI) (auto simp: bits not_less intro: lt)
  show "field 1 7 (smbus_places dst cc bc src one) = ucast src"
    by (rule bit_word_eqI) (auto simp: bits not_less intro: lt)
  show "field 0 1 (smbus_places dst cc bc src one) = ucast one"
    by (rule field_eqI [OF assms(3)]) (simp_all add: bits)
qed

interpretation smbus_layout: lawful_smbus_codec smbus_layout_codec
proof
  fix h
  assume h: "valid_smbus_header h"
  let ?v = "smbus_places (hdr_destination_slave_address h) 0x0F (hdr_byte_count h) (hdr_source_slave_address h) 1"
  have fields: "hdr_destination_slave_address h < 2 ^ 7" "hdr_source_slave_address h < 2 ^ 7" "(1 :: u8) < 2 ^ 1"
    using h by (simp_all add: valid_smbus_header_def)
  have cc: "hdr_command_code h = Mctp" by (cases "hdr_command_code h")
  have "smbus_layout_from_u32 ?v = Inr h"
    by (simp add: smbus_layout_from_u32_def smbus_fields [OF fields] zero_try_from_bits_def one_try_from_bits_def
        smbus_command_code_try_from_bits_def cc del: One_nat_def)
  moreover have "smbus_layout_to_u32 h = Inr ?v"
    by (simp add: smbus_layout_to_u32_def smbus_places_def cc)
  moreover have "to_be_bytes ?v ! 2 = ucast (field 8 8 ?v)"
    by (rule bit_word_eqI) (auto simp: to_be_bytes_def field_def bit_simps)
  ultimately show "\<exists>v. smbus_to_u32 smbus_layout_codec h = Inr v
      \<and> smbus_from_u32 smbus_layout_codec v = Inr h \<and> to_be_bytes v ! 2 = hdr_byte_count h"
    by (simp add: smbus_layout_codec_def smbus_fields [OF fields])
qed

interpretation smbus_medium: lawful_medium "SmbusEspiMedium smbus_layout_codec smbus_pec" "\<lambda>b. [b]" 4 1 valid_smbus_rc
  by (rule smbus_layout.lawful_smbus_medium)

subsection \<open>Properties\<close>

text \<open>A body of at most 255 bytes that fits into the buffer is sent as a packet that the receiver
  accepts: the packet addresses the reply to the requester, the decoder returns exactly the body,
  and \<open>frame_complete\<close> finds the exact length of the packet at the start of a stream, but not
  before all of it has arrived.\<close>

theorem smbus_packet_roundtrip:
  assumes "lawful_smbus_codec sc" and "valid_smbus_rc rc" and "length bs \<le> 255" and "length bs + 5 \<le> length buf"
  shows "\<exists>pkt buf' frame.
      smbus_serialize sc smbus_pec rc buf (write_through passthrough bs) c = (Inr pkt, buf', c)
      \<and> smbus_deserialize sc pkt = Inr (frame, decoder_new bs)
      \<and> pec frame = smbus_pec (butlast pkt)
      \<and> destination_slave_address (reply_context_new frame) = source_slave_address rc
      \<and> source_slave_address (reply_context_new frame) = destination_slave_address rc
      \<and> smbus_frame_complete (pkt @ rest) = Inr (Some (length pkt))
      \<and> smbus_frame_complete (butlast pkt) = Inr None"
proof -
  let ?r = "region 4 1 buf"
  have fits: "length bs \<le> length ?r" using assms(4) by simp
  have cnt: "unat (of_nat (length bs) :: u8) = length bs" using assms(3) by (simp add: unat_of_nat)
  obtain v where v: "smbus_to_u32 sc (smbus_reply_header rc (length bs)) = Inr v"
    "smbus_from_u32 sc v = Inr (smbus_reply_header rc (length bs))" "to_be_bytes v ! 2 = of_nat (length bs)"
    using lawful_smbus_codec.smbus_roundtrip [OF assms(1) valid_smbus_reply_header [OF assms(2)], of "length bs"]
    by (auto simp: smbus_reply_header_def)
  let ?enc = "encoder_new ?r\<lparr>enc_buf := bs @ drop (length bs) ?r, enc_wire_pos := length bs\<rparr>"
  have w: "write_through passthrough bs (c, encoder_new ?r) = (Inr (), (c, ?enc))"
    using passthrough.write_all_ok[of "encoder_new ?r" bs] fits by (simp add: write_through_def encoder_new_def)
  have "\<exists>buf'. smbus_serialize sc smbus_pec rc buf (write_through passthrough bs) c
      = (Inr (to_be_bytes v @ bs @ [smbus_pec (to_be_bytes v @ bs)]), buf', c) \<and> length buf' = length buf"
    by (rule smbus_serialize_ok [where w = "write_through passthrough bs" and c = c, OF _ w _ _ _ v(1)])
      (use assms(4) fits in simp_all)
  then obtain buf' where run: "smbus_serialize sc smbus_pec rc buf (write_through passthrough bs) c
      = (Inr (to_be_bytes v @ bs @ [smbus_pec (to_be_bytes v @ bs)]), buf', c)" by blast
  have des: "smbus_deserialize sc (to_be_bytes v @ bs @ [smbus_pec (to_be_bytes v @ bs)])
      = Inr (\<lparr>smbus_header = smbus_reply_header rc (length bs), pec = smbus_pec (to_be_bytes v @ bs)\<rparr>, decoder_new bs)"
    by (rule smbus_deserialize_frame [OF v(2)]) (simp add: smbus_reply_header_def cnt)
  have complete: "smbus_frame_complete ((to_be_bytes v @ bs @ [p]) @ rest) = Inr (Some (length bs + 5))"
    "smbus_frame_complete (to_be_bytes v @ bs) = Inr None" for p
    using v(3) cnt by (simp_all add: smbus_frame_complete_def nth_append Let_def)
  show ?thesis
    using run des complete by (simp add: butlast_append reply_context_new_def smbus_reply_header_def)
qed

theorem smbus_packet_roundtrip_witness:
  "\<exists>pkt buf' frame.
      smbus_serialize smbus_layout_codec (\<lambda>_. 0x55) \<lparr>destination_slave_address = 0x10, source_slave_address = 0x20\<rparr>
        (replicate 8 0) (write_through passthrough [1, 2, 3]) () = (Inr pkt, buf', ())
      \<and> smbus_deserialize smbus_layout_codec pkt = Inr (frame, decoder_new [1, 2, 3])
      \<and> pec frame = (\<lambda>_. 0x55) (butlast pkt)
      \<and> destination_slave_address (reply_context_new frame) = 0x20
      \<and> source_slave_address (reply_context_new frame) = 0x10
      \<and> smbus_frame_complete (pkt @ [9]) = Inr (Some (length pkt))
      \<and> smbus_frame_complete (butlast pkt) = Inr None"
  using smbus_packet_roundtrip [OF smbus_layout.lawful_smbus_codec_axioms,
      of "\<lparr>destination_slave_address = 0x10, source_slave_address = 0x20\<rparr>" "[1, 2, 3]" "replicate 8 0" "\<lambda>_. 0x55" "()" "[9]"]
  by (simp add: valid_smbus_rc_def)

text \<open>The packet error code is not checked: whatever byte takes its place, the packet is accepted
  with the same body.\<close>

theorem smbus_pec_is_ignored:
  "smbus_deserialize sc (packet @ [p]) = Inr (frame, d) \<Longrightarrow> length packet = 4 + unat (hdr_byte_count (smbus_header frame)) \<Longrightarrow>
     smbus_deserialize sc (packet @ [q]) = Inr (frame\<lparr>pec := q\<rparr>, d)"
  by (auto simp: smbus_deserialize_def Let_def nth_append split: if_splits sum.splits)

theorem smbus_pec_is_ignored_witness:
  "smbus_deserialize smbus_layout_codec ([0x20, 0x0F, 0x01, 0x21, 0xAA] @ [0xFF])
    = Inr (\<lparr>smbus_header = \<lparr>hdr_destination_slave_address = 0x10, hdr_command_code = Mctp, hdr_byte_count = 1,
        hdr_source_slave_address = 0x10\<rparr>, pec = 0x00\<rparr>\<lparr>pec := 0xFF\<rparr>, decoder_new [0xAA])"
  by (rule smbus_pec_is_ignored [where p = 0]) code_simp+

end
