(* ===== verification/Mctp_Context.thy ===== *)
theory Mctp_Context
  imports Mctp_Serial Mctp_Smbus
begin

text \<open>
  Assembling messages from packets and splitting them into packets:
  \<open>mctp-rs/src/mctp_packet_context.rs\<close>, \<open>deserialize.rs\<close>, \<open>serialize.rs\<close> and the message types of
  \<open>lib.rs\<close>. The medium and the conversion of the transport header are parameters of every
  definition; a mutable buffer is a byte list in the state. \<open>current_packet_num\<close> is a \<open>u8\<close> whose
  increment wraps (a debug build would panic instead).
\<close>

record 'rc MctpReplyContext =
  rc_destination_endpoint_id :: EndpointId
  rc_source_endpoint_id :: EndpointId
  rc_packet_sequence_number :: MctpSequenceNumber
  rc_message_tag :: MctpMessageTag
  medium_context :: 'rc

record MctpMessageBuffer =
  integrity_check :: u8
  message_type :: u8
  rest :: "u8 list"

record 'rc MctpMessage =
  reply_context :: "'rc MctpReplyContext"
  message_buffer :: MctpMessageBuffer
  message_integrity_check :: "u8 option"

record AssemblingState =
  asm_message_tag :: MctpMessageTag
  asm_tag_owner :: u8
  asm_source_endpoint_id :: EndpointId
  asm_packet_sequence_number :: MctpSequenceNumber
  packet_assembly_buffer_index :: nat

datatype AssemblyState = AssemblyIdle | Receiving AssemblingState

record MctpPacketContext =
  assembly_state :: AssemblyState
  packet_assembly_buffer :: "u8 list"

definition packet_context_new :: "u8 list \<Rightarrow> MctpPacketContext" where
  "packet_context_new buffer = \<lparr>assembly_state = AssemblyIdle, packet_assembly_buffer = buffer\<rparr>"

subsection \<open>Receiving\<close>

definition map_decode_err :: "string \<Rightarrow> string \<Rightarrow> DecodeError \<Rightarrow> MctpPacketError" where
  "map_decode_err on_premature on_escape e =
     (case e of PrematureEnd \<Rightarrow> HeaderParseError on_premature | InvalidEscape \<Rightarrow> HeaderParseError on_escape)"

definition parse_transport_header ::
  "encoding \<Rightarrow> header_codec \<Rightarrow> (EncodingDecoder, MctpPacketError, MctpTransportHeader) action" where
  "parse_transport_header E hc d =
     (case read_n E 4 d of
        (Inl e, d') \<Rightarrow>
          (Inl (map_decode_err ''Packet is too small, cannot parse transport header''
                 ''Invalid encoding escape sequence in transport header'' e), d')
      | (Inr header_bytes, d') \<Rightarrow>
          (case header_from_u32 hc (from_be_bytes header_bytes) of
             Inl _ \<Rightarrow> (Inl (HeaderParseError ''Invalid transport header''), d')
           | Inr h \<Rightarrow> (Inr h, d')))"

definition parse_message_body :: "u8 list \<Rightarrow> (MctpPacketError, MctpMessageBuffer \<times> u8 option) result" where
  "parse_message_body packet =
     (case packet of
        [] \<Rightarrow> Inl (HeaderParseError ''packet too small to extract message type from header'')
      | b # packet \<Rightarrow>
          Inr (\<lparr>integrity_check = b AND 0x80, message_type = b AND 0x7F, rest = packet\<rparr>, None))"

text \<open>The checks on a packet against the state of the assembly.\<close>

definition next_assembling ::
  "AssemblyState \<Rightarrow> MctpTransportHeader \<Rightarrow> (ProtocolError, AssemblingState) result" where
  "next_assembling st h =
     (case st of
        AssemblyIdle \<Rightarrow>
          if start_of_message h = 0 then Inl ExpectedStartOfMessage
          else Inr \<lparr>asm_message_tag = message_tag h, asm_tag_owner = tag_owner h,
                    asm_source_endpoint_id = source_endpoint_id h,
                    asm_packet_sequence_number = packet_sequence_number h,
                    packet_assembly_buffer_index = 0\<rparr>
      | Receiving a \<Rightarrow>
          if start_of_message h \<noteq> 0 then Inl UnexpectedStartOfMessage
          else if asm_message_tag a \<noteq> message_tag h
          then Inl (MessageTagMismatch (asm_message_tag a) (message_tag h))
          else if asm_tag_owner a \<noteq> tag_owner h then Inl (TagOwnerMismatch (asm_tag_owner a) (tag_owner h))
          else if asm_source_endpoint_id a \<noteq> source_endpoint_id h
          then Inl (SourceEndpointIdMismatch (asm_source_endpoint_id a) (source_endpoint_id h))
          else (let expected_sequence_number = seq_next (asm_packet_sequence_number a)
                in if expected_sequence_number \<noteq> packet_sequence_number h
                   then Inl (UnexpectedPacketSequenceNumber expected_sequence_number (packet_sequence_number h))
                   else Inr a))"

text \<open>Decode \<open>n\<close> bytes into the buffer from index \<open>idx\<close> on, as far as they decode.\<close>

primrec copy_decoded ::
  "encoding \<Rightarrow> nat \<Rightarrow> nat \<Rightarrow> EncodingDecoder \<Rightarrow> u8 list \<Rightarrow> (MctpPacketError, unit) result \<times> u8 list" where
  "copy_decoded E 0 idx d buf = (Inr (), buf)"
| "copy_decoded E (Suc n) idx d buf =
     (case read_decoded E d of
        (Inl e, _) \<Rightarrow>
          (Inl (map_decode_err ''packet body too short to extract expected decoded bytes''
                 ''Invalid encoding escape sequence in packet body'' e), buf)
      | (Inr b, d') \<Rightarrow> copy_decoded E n (idx + 1) d' (buf[idx := b]))"

definition finish_packet ::
  "('frame, 'rc, 'c) medium \<Rightarrow> 'frame \<Rightarrow> MctpTransportHeader \<Rightarrow> AssemblingState
     \<Rightarrow> (MctpPacketContext, MctpPacketError, 'rc MctpMessage option) action" where
  "finish_packet M frame h state ctx =
     (if end_of_message h = 1 then
        (let ctx = ctx\<lparr>assembly_state := AssemblyIdle\<rparr>
         in case parse_message_body (take (packet_assembly_buffer_index state) (packet_assembly_buffer ctx)) of
              Inl e \<Rightarrow> (Inl e, ctx)
            | Inr (message_body, mic) \<Rightarrow>
                (Inr (Some
                   \<lparr>reply_context =
                      \<lparr>rc_destination_endpoint_id = destination_endpoint_id h,
                       rc_source_endpoint_id = source_endpoint_id h,
                       rc_packet_sequence_number = packet_sequence_number h,
                       rc_message_tag = message_tag h,
                       medium_context = frame_reply_context M frame\<rparr>,
                    message_buffer = message_body,
                    message_integrity_check = mic\<rparr>), ctx))
      else (Inr None, ctx\<lparr>assembly_state := Receiving state\<rparr>))"

definition deserialize_packet ::
  "('frame, 'rc, 'c) medium \<Rightarrow> header_codec \<Rightarrow> u8 list
     \<Rightarrow> (MctpPacketContext, MctpPacketError, 'rc MctpMessage option) action" where
  "deserialize_packet M hc packet ctx =
     (case med_deserialize M packet of
        Inl e \<Rightarrow> (Inl e, ctx)
      | Inr (medium_frame, decoder) \<Rightarrow>
          (case parse_transport_header (med_encoding M) hc decoder of
             (Inl e, _) \<Rightarrow> (Inl e, ctx)
           | (Inr h, decoder) \<Rightarrow>
               (case next_assembling (assembly_state ctx) h of
                  Inl e \<Rightarrow> (Inl (ProtocolErr e), ctx)
                | Inr state \<Rightarrow>
                    (let buffer_idx = packet_assembly_buffer_index state;
                         packet_size = packet_size M medium_frame
                     in if packet_size < 4
                        then (Inl (HeaderParseError ''transport frame indicated packet length < 4''), ctx)
                        else
                          (let packet_size = packet_size - 4
                           in if length (packet_assembly_buffer ctx) < buffer_idx + packet_size
                              then (Inl (HeaderParseError ''packet assembly buffer overflow - insufficient space''), ctx)
                              else
                                (case copy_decoded (med_encoding M) packet_size buffer_idx decoder
                                        (packet_assembly_buffer ctx) of
                                   (Inl e, buf) \<Rightarrow> (Inl e, ctx\<lparr>packet_assembly_buffer := buf\<rparr>)
                                 | (Inr _, buf) \<Rightarrow>
                                     finish_packet M medium_frame h
                                       (state\<lparr>packet_assembly_buffer_index := buffer_idx + packet_size\<rparr>)
                                       (ctx\<lparr>packet_assembly_buffer := buf\<rparr>)))))))"

subsection \<open>Sending\<close>

record 'rc SerializePacketState =
  sps_reply_context :: "'rc MctpReplyContext"
  current_packet_num :: u8
  sps_message_buffer :: "u8 list"
  assembly_buffer :: "u8 list"

text \<open>What the closure captures mutably.\<close>

record capture =
  cap_sequence_number :: MctpSequenceNumber
  cap_message :: "u8 list"

definition packet_header ::
  "'rc MctpReplyContext \<Rightarrow> MctpSequenceNumber \<Rightarrow> u8 \<Rightarrow> u8 \<Rightarrow> MctpTransportHeader" where
  "packet_header rc sq som eom =
     \<lparr>hdr_reserved = 0, header_version = 1, destination_endpoint_id = rc_source_endpoint_id rc,
      source_endpoint_id = rc_destination_endpoint_id rc, start_of_message = som,
      end_of_message = eom, packet_sequence_number = sq, tag_owner = 0,
      message_tag = rc_message_tag rc\<rparr>"

text \<open>The body bytes that fit into the wire budget: their wire size and their number.\<close>

fun fitting :: "encoding \<Rightarrow> nat \<Rightarrow> u8 list \<Rightarrow> nat \<Rightarrow> nat \<Rightarrow> nat \<times> nat" where
  "fitting E budget [] consumed_wire message_size = (consumed_wire, message_size)"
| "fitting E budget (b # bs) consumed_wire message_size =
     (let cost = enc_wire_size_of E [b]
      in if budget < consumed_wire + cost then (consumed_wire, message_size)
         else fitting E budget bs (consumed_wire + cost) (message_size + 1))"

definition final_header_bytes ::
  "encoding \<Rightarrow> header_codec \<Rightarrow> MctpTransportHeader \<Rightarrow> nat \<Rightarrow> nat \<Rightarrow> (MctpPacketError, u8 list) result" where
  "final_header_bytes E hc h consumed_wire max_wire =
     (case header_to_u32 hc h of
        Inl e \<Rightarrow> Inl (SerializeError e)
      | Inr v \<Rightarrow>
          if max_wire < enc_wire_size_of E (to_be_bytes v) + consumed_wire
          then Inl (SerializeError ''assembly buffer too small after EOM bit set'')
          else Inr (to_be_bytes v))"

definition chunk_writer ::
  "('frame, 'rc, capture) medium \<Rightarrow> header_codec \<Rightarrow> 'rc MctpReplyContext \<Rightarrow> u8
     \<Rightarrow> (capture \<times> EncodingEncoder, MctpPacketError, unit) action" where
  "chunk_writer M hc rc packet_num = (\<lambda>(c, enc).
     (let E = med_encoding M;
          max_wire = min (max_message_body_size M) (remaining_wire enc);
          som = (if packet_num = 0 then 1 else 0);
          (sq, sq') = seq_inc (cap_sequence_number c);
          c = c\<lparr>cap_sequence_number := sq'\<rparr>
      in case header_to_u32 hc (packet_header rc sq som 0) of
           Inl e \<Rightarrow> (Inl (SerializeError e), (c, enc))
         | Inr v \<Rightarrow>
             (let header_wire_cost = enc_wire_size_of E (to_be_bytes v)
              in if max_wire < header_wire_cost
                 then (Inl (SerializeError ''assembly buffer too small for mctp transport header''), (c, enc))
                 else
                   (let (consumed_wire, message_size) = fitting E (max_wire - header_wire_cost) (cap_message c) 0 0
                    in if message_size = 0 \<and> cap_message c \<noteq> []
                       then (Inl (SerializeError ''assembly buffer too small for non-empty message body''), (c, enc))
                       else
                         (let body = take message_size (cap_message c);
                              c = c\<lparr>cap_message := drop message_size (cap_message c)\<rparr>
                          in case (if cap_message c = []
                                   then final_header_bytes E hc (packet_header rc sq som 1) consumed_wire max_wire
                                   else Inr (to_be_bytes v)) of
                               Inl e \<Rightarrow> (Inl e, (c, enc))
                             | Inr header_bytes \<Rightarrow>
                                 and_then (write_through E header_bytes) (\<lambda>_. write_through E body) (c, enc))))))"

definition next_packet ::
  "('frame, 'rc, capture) medium \<Rightarrow> header_codec \<Rightarrow> 'rc SerializePacketState
     \<Rightarrow> (MctpPacketError, u8 list) result option \<times> 'rc SerializePacketState" where
  "next_packet M hc s =
     (if sps_message_buffer s = [] then (None, s)
      else (case med_serialize M (medium_context (sps_reply_context s)) (assembly_buffer s)
                   (chunk_writer M hc (sps_reply_context s) (current_packet_num s))
                   \<lparr>cap_sequence_number = rc_packet_sequence_number (sps_reply_context s),
                    cap_message = sps_message_buffer s\<rparr> of
              (packet, buf, c) \<Rightarrow>
                (Some packet,
                 s\<lparr>sps_reply_context := (sps_reply_context s)\<lparr>rc_packet_sequence_number := cap_sequence_number c\<rparr>,
                   sps_message_buffer := cap_message c,
                   assembly_buffer := buf,
                   current_packet_num :=
                     (if is_ok packet then current_packet_num s + 1 else current_packet_num s)\<rparr>)))"

text \<open>\<open>serialize_packet\<close> for a message type: its type byte and the two \<open>serialize\<close> methods, which
  write to the start of a slice and return the number of bytes and the slice. \<open>None\<close> is a panic:
  an index or a slice bound outside the buffer.\<close>

type_synonym slice_writer = "u8 list \<Rightarrow> (MctpPacketError, nat \<times> u8 list) result"

definition serialize_packet ::
  "u8 \<Rightarrow> slice_writer \<Rightarrow> slice_writer \<Rightarrow> 'rc MctpReplyContext \<Rightarrow> MctpPacketContext
     \<Rightarrow> ((MctpPacketError, 'rc SerializePacketState) result \<times> MctpPacketContext) option" where
  "serialize_packet type_byte header_serialize body_serialize rc ctx =
     (case assembly_state ctx of
        Receiving _ \<Rightarrow> Some (Inl (ProtocolErr SendMessageWhileAssembling), ctx)
      | AssemblyIdle \<Rightarrow>
          if packet_assembly_buffer ctx = [] then None
          else
            (let buf = (packet_assembly_buffer ctx)[0 := type_byte]
             in case header_serialize (drop 1 buf) of
                  Inl e \<Rightarrow> Some (Inl e, ctx\<lparr>packet_assembly_buffer := buf\<rparr>)
                | Inr (header_size, written) \<Rightarrow>
                    (let buf = take 1 buf @ written
                     in if length buf < header_size + 1 then None
                        else case body_serialize (drop (header_size + 1) buf) of
                               Inl e \<Rightarrow> Some (Inl e, ctx\<lparr>packet_assembly_buffer := buf\<rparr>)
                             | Inr (body_size, written) \<Rightarrow>
                                 (let buf = take (header_size + 1) buf @ written
                                  in if length buf < header_size + body_size + 1 then None
                                     else Some
                                       (Inr \<lparr>sps_reply_context = rc, current_packet_num = 0,
                                             sps_message_buffer = take (header_size + body_size + 1) buf,
                                             assembly_buffer = drop (header_size + body_size + 1) buf\<rparr>,
                                        ctx\<lparr>packet_assembly_buffer := buf\<rparr>)))))"

end
