(* ===== verification/Mctp_Transfer.thy ===== *)
theory Mctp_Transfer
  imports Mctp_Context
begin

text \<open>
  From one packet context to another: what a sender that calls \<open>next_packet\<close> until the message is
  used up puts on the wire, and what a receiver makes of it. Everything is proved once for any
  medium and header conversion that obey the locale \<open>packet_transfer\<close>, which is interpreted on the
  serial and on the SMBus medium.
\<close>

subsection \<open>What a packet carries\<close>

definition carries ::
  "('frame, 'rc, 'c) medium \<Rightarrow> header_codec \<Rightarrow> u8 list \<Rightarrow> MctpTransportHeader \<Rightarrow> u8 list \<Rightarrow> bool" where
  "carries M hc pkt h body \<longleftrightarrow>
     (\<exists>frame d d'. med_deserialize M pkt = Inr (frame, d)
        \<and> parse_transport_header (med_encoding M) hc d = (Inr h, d')
        \<and> packet_size M frame = 4 + length body
        \<and> fst (read_n (med_encoding M) (length body) d') = Inr body)"

text \<open>The packets of a message: consecutive sequence numbers, non-empty bodies, start of message when
  the packet number is 0, end of message on the last.\<close>

fun sends ::
  "('frame, 'rc, 'c) medium \<Rightarrow> header_codec \<Rightarrow> 'rc MctpReplyContext \<Rightarrow> MctpSequenceNumber \<Rightarrow> u8
     \<Rightarrow> u8 list list \<Rightarrow> u8 list list \<Rightarrow> bool" where
  "sends M hc rc sq num [] [] = True"
| "sends M hc rc sq num (p # ps) (b # bs) =
     (b \<noteq> [] \<and> carries M hc p (packet_header rc (seq_next sq) (if num = 0 then 1 else 0) (if bs = [] then 1 else 0)) b
      \<and> sends M hc rc (seq_next sq) (num + 1) ps bs)"
| "sends M hc rc sq num _ _ = False"

text \<open>A sender's loop: the packets until there are none left, \<open>None\<close> if one of them fails or the fuel
  runs out.\<close>

fun send_all ::
  "('frame, 'rc, capture) medium \<Rightarrow> header_codec \<Rightarrow> nat \<Rightarrow> 'rc SerializePacketState \<Rightarrow> u8 list list option" where
  "send_all M hc fuel s =
     (case next_packet M hc s of
        (None, s') \<Rightarrow> Some []
      | (Some (Inl e), s') \<Rightarrow> None
      | (Some (Inr pkt), s') \<Rightarrow>
          (case fuel of
             0 \<Rightarrow> None
           | Suc n \<Rightarrow> map_option (\<lambda>ps. pkt # ps) (send_all M hc n s')))"

declare send_all.simps [simp del]

text \<open>A receiver's loop: the results of the packets in order.\<close>

fun receive_all ::
  "('frame, 'rc, 'c) medium \<Rightarrow> header_codec \<Rightarrow> u8 list list \<Rightarrow> MctpPacketContext
     \<Rightarrow> (MctpPacketError, 'rc MctpMessage option) result list \<times> MctpPacketContext" where
  "receive_all M hc [] ctx = ([], ctx)"
| "receive_all M hc (p # ps) ctx =
     (let (r, ctx) = deserialize_packet M hc p ctx;
          (rs, ctx) = receive_all M hc ps ctx
      in (r # rs, ctx))"

definition valid_reply :: "('rc \<Rightarrow> bool) \<Rightarrow> 'rc MctpReplyContext \<Rightarrow> bool" where
  "valid_reply valid_rc rc \<longleftrightarrow>
     valid_eid (rc_destination_endpoint_id rc) \<and> valid_eid (rc_source_endpoint_id rc)
     \<and> valid_tag (rc_message_tag rc) \<and> valid_rc (medium_context rc)"

lemma valid_seq_next [simp]: "valid_seq (seq_next q)"
  by (cases q) (simp add: seq_max_def word_less_nat_alt unat_mod_distrib)

lemma valid_packet_header:
  "valid_reply vr rc \<Longrightarrow> som < 2 \<Longrightarrow> eom < 2 \<Longrightarrow> valid_header (packet_header rc (seq_next q) som eom)"
  by (simp add: valid_reply_def valid_header_def packet_header_def)

subsection \<open>The sender\<close>

locale packet_transfer =
  lawful_medium M stuff pre post valid_rc + lawful_header_codec hc
  for M :: "('frame, 'rc, capture) medium" and stuff pre post valid_rc and hc +
  assumes mtu: "10 \<le> max_message_body_size M"
    and stuff_length: "length (stuff b) \<le> 2"
    and eom_cost: "valid_header h \<Longrightarrow> tag_owner h = 0 \<Longrightarrow> header_to_u32 hc (h\<lparr>end_of_message := 0\<rparr>) = Inr v \<Longrightarrow>
      header_to_u32 hc (h\<lparr>end_of_message := 1\<rparr>) = Inr v' \<Longrightarrow>
      length (concat (map stuff (to_be_bytes v'))) = length (concat (map stuff (to_be_bytes v)))"
begin

lemma length_stuffs_le: "length (stuffs bs) \<le> 2 * length bs"
proof (induction bs)
  case (Cons b bs)
  then show ?case using stuff_length[of b] by simp
qed simp

lemma fitting_ex:
  assumes "consumed \<le> budget"
  shows "\<exists>k. fitting (med_encoding M) budget bs consumed n = (consumed + length (stuffs (take k bs)), n + k)
    \<and> k \<le> length bs \<and> consumed + length (stuffs (take k bs)) \<le> budget
    \<and> (bs \<noteq> [] \<longrightarrow> consumed + 2 \<le> budget \<longrightarrow> 0 < k)
    \<and> (consumed + length (stuffs bs) \<le> budget \<longrightarrow> k = length bs)"
  using assms
proof (induction bs arbitrary: consumed n)
  case Nil
  then show ?case by simp
next
  case (Cons b bs)
  show ?case
  proof (cases "budget < consumed + length (stuff b)")
    case True
    then show ?thesis
      using stuff_length[of b] Cons.prems by (intro exI[of _ 0]) (simp add: wire_size_stuffs)
  next
    case False
    then obtain k where "fitting (med_encoding M) budget bs (consumed + length (stuff b)) (n + 1)
        = (consumed + length (stuff b) + length (stuffs (take k bs)), n + 1 + k)" "k \<le> length bs"
      "consumed + length (stuff b) + length (stuffs (take k bs)) \<le> budget"
      "consumed + length (stuff b) + length (stuffs bs) \<le> budget \<longrightarrow> k = length bs"
      using Cons.IH[of "consumed + length (stuff b)" "n + 1"] by auto
    with False show ?thesis by (intro exI[of _ "Suc k"]) (simp add: wire_size_stuffs add.assoc)
  qed
qed

lemma header_bytes:
  assumes "valid_header h"
  obtains v where "header_to_u32 hc h = Inr v" "header_from_u32 hc v = Inr h"
  using header_roundtrip[OF assms] by blast

lemma write_twice:
  assumes "length (stuffs (xs @ ys)) \<le> length r"
  shows "\<exists>enc. and_then (write_through (med_encoding M) xs) (\<lambda>_. write_through (med_encoding M) ys) (c, encoder_new r)
      = (Inr (), (c, enc)) \<and> length (enc_buf enc) = length r \<and> enc_wire_pos enc = length (stuffs (xs @ ys))
      \<and> take (enc_wire_pos enc) (enc_buf enc) = stuffs (xs @ ys)"
proof -
  let ?e = "encoder_new r\<lparr>enc_buf := stuffs xs @ drop (length (stuffs xs)) r, enc_wire_pos := length (stuffs xs)\<rparr>"
  have "write_all (med_encoding M) xs (encoder_new r) = (Inr (), ?e)"
    using write_all_ok[of "encoder_new r" xs] assms by (simp add: encoder_new_def)
  moreover have "write_all (med_encoding M) ys ?e = (Inr (), ?e\<lparr>enc_buf := stuffs xs @ stuffs ys
      @ drop (length (stuffs ys) + length (stuffs xs)) r, enc_wire_pos := length (stuffs xs) + length (stuffs ys)\<rparr>)"
    using write_all_ok[of ?e ys] assms by simp
  ultimately show ?thesis
    using assms by (simp add: write_through_def and_then_def)
qed

text \<open>One call writes the header and a non-empty part of the message.\<close>

lemma chunk_written:
  assumes "valid_reply valid_rc rc" and "msg \<noteq> []" and "10 \<le> length r"
  shows "\<exists>k v enc. 0 < k \<and> k \<le> length msg
    \<and> chunk_writer M hc rc num (\<lparr>cap_sequence_number = q, cap_message = msg\<rparr>, encoder_new r)
        = (Inr (), (\<lparr>cap_sequence_number = seq_next q, cap_message = drop k msg\<rparr>, enc))
    \<and> header_to_u32 hc (packet_header rc (seq_next q) (if num = 0 then 1 else 0) (if drop k msg = [] then 1 else 0)) = Inr v
    \<and> length (enc_buf enc) = length r \<and> enc_wire_pos enc \<le> length r \<and> enc_wire_pos enc \<le> max_message_body_size M
    \<and> take (enc_wire_pos enc) (enc_buf enc) = stuffs (to_be_bytes v @ take k msg)
    \<and> (8 + 2 * length msg \<le> min (max_message_body_size M) (length r) \<longrightarrow> k = length msg)"
proof -
  define som :: u8 where "som = (if num = 0 then 1 else 0)"
  define max_wire where "max_wire = min (max_message_body_size M) (length r)"
  have wire: "10 \<le> max_wire" using mtu assms(3) by (simp add: max_wire_def)
  have valid: "valid_header (packet_header rc (seq_next q) som eom)" if "eom < 2" for eom
    using that by (intro valid_packet_header [OF assms(1)]) (simp_all add: som_def)
  obtain v where v: "header_to_u32 hc (packet_header rc (seq_next q) som 0) = Inr v"
    using header_bytes[OF valid[of 0]] by auto
  obtain v1 where v1: "header_to_u32 hc (packet_header rc (seq_next q) som 1) = Inr v1"
    using header_bytes[OF valid[of 1]] by auto
  have cost: "length (stuffs (to_be_bytes v1)) = length (stuffs (to_be_bytes v))"
    using eom_cost[OF valid[of 0], of v v1] v v1 by (simp add: packet_header_def stuffs_def)
  have hdr: "length (stuffs (to_be_bytes v)) \<le> 8" using length_stuffs_le[of "to_be_bytes v"] by simp
  let ?budget = "max_wire - length (stuffs (to_be_bytes v))"
  obtain k where fit: "fitting (med_encoding M) ?budget msg 0 0 = (length (stuffs (take k msg)), k)"
    and k: "k \<le> length msg" "length (stuffs (take k msg)) \<le> ?budget" "0 < k"
      "length (stuffs msg) \<le> ?budget \<longrightarrow> k = length msg"
    using fitting_ex[of 0 ?budget msg 0] assms(2) wire hdr by auto
  have whole: "k = length msg" if "8 + 2 * length msg \<le> max_wire"
    using k(4) that hdr length_stuffs_le[of msg] by simp
  define w where "w = (if drop k msg = [] then v1 else v)"
  have w: "header_to_u32 hc (packet_header rc (seq_next q) som (if drop k msg = [] then 1 else 0)) = Inr w"
    by (simp add: w_def v v1)
  have wcost: "length (stuffs (to_be_bytes w)) = length (stuffs (to_be_bytes v))"
    by (simp add: w_def cost)
  have len: "length (stuffs (to_be_bytes w @ take k msg)) \<le> max_wire"
    using k(2) hdr wire wcost by simp
  then have "length (stuffs (to_be_bytes w @ take k msg)) \<le> length r" by (simp add: max_wire_def)
  then obtain enc where enc:
    "and_then (write_through (med_encoding M) (to_be_bytes w)) (\<lambda>_. write_through (med_encoding M) (take k msg))
       (\<lparr>cap_sequence_number = seq_next q, cap_message = drop k msg\<rparr>, encoder_new r)
     = (Inr (), (\<lparr>cap_sequence_number = seq_next q, cap_message = drop k msg\<rparr>, enc))"
    "length (enc_buf enc) = length r" "enc_wire_pos enc = length (stuffs (to_be_bytes w @ take k msg))"
    "take (enc_wire_pos enc) (enc_buf enc) = stuffs (to_be_bytes w @ take k msg)"
    using write_twice[of "to_be_bytes w" "take k msg" r
        "\<lparr>cap_sequence_number = seq_next q, cap_message = drop k msg\<rparr>"] by blast
  have "chunk_writer M hc rc num (\<lparr>cap_sequence_number = q, cap_message = msg\<rparr>, encoder_new r)
      = (Inr (), (\<lparr>cap_sequence_number = seq_next q, cap_message = drop k msg\<rparr>, enc))"
  proof -
    have m: "min (max_message_body_size M) (remaining_wire (encoder_new r)) = max_wire"
      by (simp add: max_wire_def remaining_wire_def encoder_new_def)
    have ok: "\<not> max_wire < length (stuffs (to_be_bytes v))" using hdr wire by simp
    have eom: "final_header_bytes (med_encoding M) hc (packet_header rc (seq_next q) som 1)
        (length (stuffs (take k msg))) max_wire = Inr (to_be_bytes v1)"
      using k(2) hdr wire cost by (simp add: final_header_bytes_def v1 wire_size_stuffs)
    show ?thesis
      using enc(1) k(3) unfolding chunk_writer_def
      by (simp add: m som_def[symmetric] seq_inc_def v wire_size_stuffs ok fit eom w_def Let_def
          del: drop_eq_Nil split: if_splits)
  qed
  with k w enc len whole show ?thesis unfolding som_def
    by (intro exI[of _ k] exI[of _ w] exI[of _ enc]) (simp add: max_wire_def)
qed

text \<open>What the receiving side finds in the packet.\<close>

lemma carriesI:
  assumes "valid_header h" and "header_to_u32 hc h = Inr v"
    and "med_deserialize M pkt = Inr (frame, decoder_new (stuffs (to_be_bytes v @ body)))"
    and "packet_size M frame = length (to_be_bytes v @ body)"
  shows "carries M hc pkt h body"
proof -
  let ?w = "stuffs (to_be_bytes v @ body)"
  let ?d' = "\<lparr>dec_buf = ?w, dec_wire_pos = length (stuffs (to_be_bytes v))\<rparr>"
  have "read_n (med_encoding M) 4 (decoder_new ?w) = (Inr (to_be_bytes v), ?d')"
    using read_n_stuffs[of "to_be_bytes v" "[]" "stuffs body"] by (simp add: decoder_new_def)
  moreover have "header_from_u32 hc v = Inr h"
    using header_roundtrip[OF assms(1)] assms(2) by simp
  ultimately have "parse_transport_header (med_encoding M) hc (decoder_new ?w) = (Inr h, ?d')"
    by (simp add: parse_transport_header_def)
  moreover have "fst (read_n (med_encoding M) (length body) ?d') = Inr body"
    using read_n_stuffs[of body "stuffs (to_be_bytes v)" "[]"] by simp
  ultimately show ?thesis using assms(3,4) by (auto simp: carries_def)
qed

lemma next_packet_sends:
  assumes rc: "valid_reply valid_rc (sps_reply_context s)" and msg: "sps_message_buffer s \<noteq> []"
    and buf: "pre + post + 10 \<le> length (assembly_buffer s)"
  shows "\<exists>k pkt buf'. 0 < k \<and> k \<le> length (sps_message_buffer s) \<and> length buf' = length (assembly_buffer s)
    \<and> next_packet M hc s = (Some (Inr pkt),
        s\<lparr>sps_reply_context := (sps_reply_context s)\<lparr>rc_packet_sequence_number :=
              seq_next (rc_packet_sequence_number (sps_reply_context s))\<rparr>,
          sps_message_buffer := drop k (sps_message_buffer s), assembly_buffer := buf',
          current_packet_num := current_packet_num s + 1\<rparr>)
    \<and> carries M hc pkt
        (packet_header (sps_reply_context s) (seq_next (rc_packet_sequence_number (sps_reply_context s)))
          (if current_packet_num s = 0 then 1 else 0) (if drop k (sps_message_buffer s) = [] then 1 else 0))
        (take k (sps_message_buffer s))"
proof -
  let ?rc = "sps_reply_context s" and ?msg = "sps_message_buffer s" and ?num = "current_packet_num s"
  let ?q = "rc_packet_sequence_number ?rc" and ?r = "region pre post (assembly_buffer s)"
  let ?c = "\<lparr>cap_sequence_number = ?q, cap_message = ?msg\<rparr>"
  have "10 \<le> length ?r" using buf by simp
  from chunk_written[OF rc msg this, of ?num ?q] obtain k v enc where k: "0 < k" "k \<le> length ?msg"
    and w: "chunk_writer M hc ?rc ?num (?c, encoder_new ?r)
        = (Inr (), (\<lparr>cap_sequence_number = seq_next ?q, cap_message = drop k ?msg\<rparr>, enc))"
    and v: "header_to_u32 hc (packet_header ?rc (seq_next ?q) (if ?num = 0 then 1 else 0) (if drop k ?msg = [] then 1 else 0)) = Inr v"
    and enc: "length (enc_buf enc) = length ?r" "enc_wire_pos enc \<le> length ?r"
      "enc_wire_pos enc \<le> max_message_body_size M"
      "take (enc_wire_pos enc) (enc_buf enc) = stuffs (to_be_bytes v @ take k ?msg)"
    by blast
  have "pre + post \<le> length (assembly_buffer s)" using buf by simp
  moreover have "valid_rc (medium_context ?rc)" using rc by (simp add: valid_reply_def)
  ultimately obtain pkt buf' frame where
    ser: "med_serialize M (medium_context ?rc) (assembly_buffer s) (chunk_writer M hc ?rc ?num) ?c
        = (Inr pkt, buf', \<lparr>cap_sequence_number = seq_next ?q, cap_message = drop k ?msg\<rparr>)"
      "length buf' = length (assembly_buffer s)"
    and des: "med_deserialize M pkt = Inr (frame, decoder_new (stuffs (to_be_bytes v @ take k ?msg)))"
      "packet_size M frame = length (to_be_bytes v @ take k ?msg)"
    using writer_ok [where w = "chunk_writer M hc ?rc ?num" and c = ?c, OF _ _ w enc(1,2) enc(4) [unfolded stuffs_def] enc(3)]
    unfolding stuffs_def by blast
  have "valid_header (packet_header ?rc (seq_next ?q) (if ?num = 0 then 1 else 0) (if drop k ?msg = [] then 1 else 0))"
    by (rule valid_packet_header[OF rc]) simp_all
  from carriesI[OF this v des] ser k msg show ?thesis
    by (intro exI[of _ k] exI[of _ pkt] exI[of _ buf']) (simp add: next_packet_def)
qed

lemma send_all_sends:
  assumes "valid_reply valid_rc (sps_reply_context s)" and "pre + post + 10 \<le> length (assembly_buffer s)"
    and "length (sps_message_buffer s) \<le> fuel"
  shows "\<exists>pkts bodies. send_all M hc fuel s = Some pkts \<and> concat bodies = sps_message_buffer s
    \<and> sends M hc (sps_reply_context s) (rc_packet_sequence_number (sps_reply_context s)) (current_packet_num s) pkts bodies"
  using assms
proof (induction fuel arbitrary: s)
  case 0
  then show ?case by (intro exI[of _ "[]"]) (simp add: send_all.simps next_packet_def)
next
  case (Suc fuel)
  show ?case
  proof (cases "sps_message_buffer s = []")
    case True
    then show ?thesis by (intro exI[of _ "[]"]) (simp add: send_all.simps next_packet_def)
  next
    case False
    let ?rc = "sps_reply_context s" and ?msg = "sps_message_buffer s" and ?num = "current_packet_num s"
    let ?q = "rc_packet_sequence_number ?rc"
    from next_packet_sends[OF Suc.prems(1) False Suc.prems(2)] obtain k pkt buf' where k: "0 < k" "k \<le> length ?msg"
      and buf': "length buf' = length (assembly_buffer s)"
      and nxt: "next_packet M hc s = (Some (Inr pkt),
        s\<lparr>sps_reply_context := ?rc\<lparr>rc_packet_sequence_number := seq_next ?q\<rparr>,
          sps_message_buffer := drop k ?msg, assembly_buffer := buf', current_packet_num := ?num + 1\<rparr>)"
      and carries: "carries M hc pkt (packet_header ?rc (seq_next ?q) (if ?num = 0 then 1 else 0)
          (if drop k ?msg = [] then 1 else 0)) (take k ?msg)" by blast
    let ?s' = "s\<lparr>sps_reply_context := ?rc\<lparr>rc_packet_sequence_number := seq_next ?q\<rparr>,
        sps_message_buffer := drop k ?msg, assembly_buffer := buf', current_packet_num := ?num + 1\<rparr>"
    have "\<exists>pkts bodies. send_all M hc fuel ?s' = Some pkts \<and> concat bodies = drop k ?msg
        \<and> sends M hc (?rc\<lparr>rc_packet_sequence_number := seq_next ?q\<rparr>) (seq_next ?q) (?num + 1) pkts bodies"
      using Suc.IH[of ?s'] Suc.prems buf' k by (simp add: valid_reply_def)
    then obtain pkts bodies where rec: "send_all M hc fuel ?s' = Some pkts" "concat bodies = drop k ?msg"
      "sends M hc (?rc\<lparr>rc_packet_sequence_number := seq_next ?q\<rparr>) (seq_next ?q) (?num + 1) pkts bodies" by blast
    have same: "sends M hc (?rc\<lparr>rc_packet_sequence_number := x\<rparr>) q' n ps bs = sends M hc ?rc q' n ps bs" for x q' n ps bs
      by (induction M hc ?rc q' n ps bs rule: sends.induct) (simp_all add: packet_header_def)
    have "bodies = [] \<longleftrightarrow> drop k ?msg = []"
      using rec(2,3) by (cases bodies; cases pkts) auto
    then show ?thesis
      using nxt carries rec k False
      by (intro exI[of _ "pkt # pkts"] exI[of _ "take k ?msg # bodies"])
        (simp add: send_all.simps[of _ _ "Suc fuel"] same)
  qed
qed

end

subsection \<open>The receiver\<close>

lemma copy_decoded_read_n:
  assumes "fst (read_n E n d) = Inr bs" and "idx + n \<le> length buf"
  shows "copy_decoded E n idx d buf = (Inr (), take idx buf @ bs @ drop (idx + n) buf) \<and> length bs = n"
  using assms
proof (induction n arbitrary: idx d buf bs)
  case 0
  then show ?case by simp
next
  case (Suc n)
  then obtain b d' cs where read: "read_decoded E d = (Inr b, d')" and rec: "fst (read_n E n d') = Inr cs" and bs: "bs = b # cs"
    by (auto simp: and_then_def split: prod.splits sum.splits)
  have "copy_decoded E n (Suc idx) d' (buf[idx := b])
      = (Inr (), take (Suc idx) (buf[idx := b]) @ cs @ drop (Suc idx + n) (buf[idx := b])) \<and> length cs = n"
    using Suc.IH[OF rec, of "Suc idx" "buf[idx := b]"] Suc.prems(2) by simp
  moreover have "take (Suc idx) (buf[idx := b]) = take idx buf @ [b]"
    using Suc.prems(2) by (simp add: take_Suc_conv_app_nth)
  ultimately show ?case using read bs by simp
qed

lemma deserialize_carried:
  assumes "carries M hc pkt h body"
  shows "next_assembling (assembly_state ctx) h = Inl e \<Longrightarrow>
      deserialize_packet M hc pkt ctx = (Inl (ProtocolErr e), ctx)"
    and "next_assembling (assembly_state ctx) h = Inr a \<Longrightarrow>
      packet_assembly_buffer_index a + length body \<le> length (packet_assembly_buffer ctx) \<Longrightarrow>
      \<exists>frame. deserialize_packet M hc pkt ctx = finish_packet M frame h
        (a\<lparr>packet_assembly_buffer_index := packet_assembly_buffer_index a + length body\<rparr>)
        (ctx\<lparr>packet_assembly_buffer := take (packet_assembly_buffer_index a) (packet_assembly_buffer ctx) @ body
           @ drop (packet_assembly_buffer_index a + length body) (packet_assembly_buffer ctx)\<rparr>)"
proof -
  obtain frame d d' where p: "med_deserialize M pkt = Inr (frame, d)"
    "parse_transport_header (med_encoding M) hc d = (Inr h, d')" "packet_size M frame = 4 + length body"
    and body: "fst (read_n (med_encoding M) (length body) d') = Inr body"
    using assms by (auto simp: carries_def)
  show "deserialize_packet M hc pkt ctx = (Inl (ProtocolErr e), ctx)" if "next_assembling (assembly_state ctx) h = Inl e"
    using that by (simp add: deserialize_packet_def p)
  assume a: "next_assembling (assembly_state ctx) h = Inr a"
    and room: "packet_assembly_buffer_index a + length body \<le> length (packet_assembly_buffer ctx)"
  have "deserialize_packet M hc pkt ctx = finish_packet M frame h
        (a\<lparr>packet_assembly_buffer_index := packet_assembly_buffer_index a + length body\<rparr>)
        (ctx\<lparr>packet_assembly_buffer := take (packet_assembly_buffer_index a) (packet_assembly_buffer ctx) @ body
           @ drop (packet_assembly_buffer_index a + length body) (packet_assembly_buffer ctx)\<rparr>)"
    using a room copy_decoded_read_n[OF body room] by (simp add: deserialize_packet_def p Let_def)
  then show "\<exists>frame. deserialize_packet M hc pkt ctx = finish_packet M frame h
        (a\<lparr>packet_assembly_buffer_index := packet_assembly_buffer_index a + length body\<rparr>)
        (ctx\<lparr>packet_assembly_buffer := take (packet_assembly_buffer_index a) (packet_assembly_buffer ctx) @ body
           @ drop (packet_assembly_buffer_index a + length body) (packet_assembly_buffer ctx)\<rparr>)" by blast
qed

text \<open>The assembly after the first packet of a sender that started from sequence number \<open>q\<close>, with the
  bytes received so far.\<close>

definition assembling :: "'rc MctpReplyContext \<Rightarrow> MctpSequenceNumber \<Rightarrow> nat \<Rightarrow> AssemblingState" where
  "assembling rc q n =
     \<lparr>asm_message_tag = rc_message_tag rc, asm_tag_owner = 0,
      asm_source_endpoint_id = rc_destination_endpoint_id rc, asm_packet_sequence_number = seq_next q,
      packet_assembly_buffer_index = n\<rparr>"

definition received :: "'rc MctpReplyContext \<Rightarrow> MctpSequenceNumber \<Rightarrow> u8 list \<Rightarrow> nat \<Rightarrow> MctpPacketContext \<Rightarrow> bool" where
  "received rc q bs room ctx \<longleftrightarrow>
     assembly_state ctx = (if bs = [] then AssemblyIdle else Receiving (assembling rc q (length bs)))
     \<and> take (length bs) (packet_assembly_buffer ctx) = bs \<and> length bs + room \<le> length (packet_assembly_buffer ctx)"

text \<open>The message a complete assembly gives.\<close>

definition message_of :: "'rc MctpReplyContext \<Rightarrow> u8 list \<Rightarrow> 'rc2 MctpMessage \<Rightarrow> bool" where
  "message_of rc bs m \<longleftrightarrow>
     message_type (message_buffer m) = hd bs AND 0x7F \<and> integrity_check (message_buffer m) = hd bs AND 0x80
     \<and> rest (message_buffer m) = tl bs
     \<and> rc_source_endpoint_id (reply_context m) = rc_destination_endpoint_id rc
     \<and> rc_destination_endpoint_id (reply_context m) = rc_source_endpoint_id rc
     \<and> rc_message_tag (reply_context m) = rc_message_tag rc"

lemma finish_message:
  assumes "body \<noteq> []" and "take n (packet_assembly_buffer ctx) = body" and "n = packet_assembly_buffer_index a"
  shows "\<exists>m. finish_packet M frame (packet_header rc sq som 1) a ctx
    = (Inr (Some m), ctx\<lparr>assembly_state := AssemblyIdle\<rparr>) \<and> message_of rc body m"
  using assms by (cases body) (simp_all add: finish_packet_def parse_message_body_def packet_header_def message_of_def)

lemma finish_partial:
  "finish_packet M frame (packet_header rc sq som 0) a ctx = (Inr None, ctx\<lparr>assembly_state := Receiving a\<rparr>)"
  by (simp add: finish_packet_def packet_header_def)

text \<open>A packet in sequence: the first one, or any whose number follows that of the \<open>first\<close>.\<close>

lemma receive_in_sequence:
  assumes carries: "carries M hc pkt (packet_header rc sq (if bs = [] then 1 else 0) eom) body"
    and got: "received rc q bs room ctx" and room: "length body \<le> room"
    and sq: "sq = (if bs = [] then seq_next q else seq_next (seq_next q))"
    and body: "body \<noteq> []"
  shows "eom = 0 \<Longrightarrow> \<exists>ctx'. deserialize_packet M hc pkt ctx = (Inr None, ctx') \<and> received rc q (bs @ body) (room - length body) ctx'"
    and "eom = 1 \<Longrightarrow> \<exists>m ctx'. deserialize_packet M hc pkt ctx = (Inr (Some m), ctx') \<and> message_of rc (bs @ body) m
      \<and> assembly_state ctx' = AssemblyIdle"
proof -
  let ?h = "packet_header rc sq (if bs = [] then 1 else 0) eom"
  let ?a = "assembling rc q (length bs)"
  have na: "next_assembling (assembly_state ctx) ?h = Inr ?a"
    using got sq by (simp add: received_def next_assembling_def packet_header_def assembling_def Let_def)
  have fits: "packet_assembly_buffer_index ?a + length body \<le> length (packet_assembly_buffer ctx)"
    using got room by (simp add: received_def assembling_def)
  let ?ctx = "ctx\<lparr>packet_assembly_buffer := take (length bs) (packet_assembly_buffer ctx) @ body
      @ drop (length bs + length body) (packet_assembly_buffer ctx)\<rparr>"
  have idx: "packet_assembly_buffer_index ?a = length bs"
    "?a\<lparr>packet_assembly_buffer_index := length bs + length body\<rparr> = assembling rc q (length bs + length body)"
    by (simp_all add: assembling_def)
  obtain frame where run: "deserialize_packet M hc pkt ctx
      = finish_packet M frame ?h (assembling rc q (length bs + length body)) ?ctx"
    using deserialize_carried(2)[OF carries na fits] by (auto simp: idx)
  have buf: "take (length bs + length body) (packet_assembly_buffer ?ctx) = bs @ body"
    using got by (simp add: received_def)
  have len: "length (packet_assembly_buffer ?ctx) = length (packet_assembly_buffer ctx)"
    using got room by (simp add: received_def)
  show "\<exists>ctx'. deserialize_packet M hc pkt ctx = (Inr None, ctx') \<and> received rc q (bs @ body) (room - length body) ctx'"
    if "eom = 0"
    using run buf len that got room body by (simp add: finish_partial received_def)
  show "\<exists>m ctx'. deserialize_packet M hc pkt ctx = (Inr (Some m), ctx') \<and> message_of rc (bs @ body) m
      \<and> assembly_state ctx' = AssemblyIdle" if "eom = 1"
  proof -
    have "\<exists>m. finish_packet M frame (packet_header rc sq (if bs = [] then 1 else 0) 1) (assembling rc q (length bs + length body)) ?ctx
        = (Inr (Some m), ?ctx\<lparr>assembly_state := AssemblyIdle\<rparr>) \<and> message_of rc (bs @ body) m"
      by (rule finish_message[OF _ buf]) (simp_all add: body assembling_def)
    then obtain m where "finish_packet M frame (packet_header rc sq (if bs = [] then 1 else 0) 1) (assembling rc q (length bs + length body)) ?ctx
        = (Inr (Some m), ?ctx\<lparr>assembly_state := AssemblyIdle\<rparr>)" "message_of rc (bs @ body) m" by blast
    then show ?thesis unfolding run that by (intro exI[of _ m] exI[of _ "?ctx\<lparr>assembly_state := AssemblyIdle\<rparr>"] conjI) (assumption | simp)+
  qed
qed

text \<open>Any other packet of the same sender is out of sequence.\<close>

lemma receive_out_of_sequence:
  assumes "carries M hc pkt (packet_header rc sq 0 eom) body" and "received rc q bs room ctx" and "bs \<noteq> []"
    and "sq \<noteq> seq_next (seq_next q)"
  shows "deserialize_packet M hc pkt ctx = (Inl (ProtocolErr (UnexpectedPacketSequenceNumber (seq_next (seq_next q)) sq)), ctx)"
  by (rule deserialize_carried(1)[OF assms(1)])
    (use assms(2-4) in \<open>simp add: received_def next_assembling_def packet_header_def assembling_def Let_def\<close>)

subsection \<open>The two media of the crate\<close>

lemma drop_places_eom:
  assumes "eom < 2"
  shows "drop_bit 8 (places rsv ver dst src som eom sq own tag) = drop_bit 8 (places rsv ver dst src som 0 sq own tag)"
proof (rule bit_word_eqI)
  fix n
  show "bit (drop_bit 8 (places rsv ver dst src som eom sq own tag)) n
      \<longleftrightarrow> bit (drop_bit 8 (places rsv ver dst src som 0 sq own tag)) n"
    using bit_u8_small[of eom 1 "2 + n"] assms
    by (auto simp: places_def bit_drop_bit_eq bit_or_iff bit_place)
qed

lemma places_bit3:
  assumes "tag < 8"
  shows "\<not> bit (places rsv ver dst src som eom sq 0 tag) 3"
  using bit_u8_small[of tag 3 3] assms by (simp add: places_def bit_or_iff bit_place)

lemma serial_stuff_plain: "\<not> bit b 3 \<Longrightarrow> length (serial_stuff b) = 1"
proof -
  have "bit (0x7E :: u8) 3" "bit (0x7D :: u8) 3" by code_simp+
  then show "\<not> bit b 3 \<Longrightarrow> length (serial_stuff b) = 1" by (auto simp: serial_stuff_def)
qed

lemma layout_places:
  "layout_to_u32 h = Inr (places (hdr_reserved h) (header_version h) (eid_bits (destination_endpoint_id h))
    (eid_bits (source_endpoint_id h)) (start_of_message h) (end_of_message h)
    (seq_bits (packet_sequence_number h)) (tag_owner h) (tag_bits (message_tag h)))"
  by (simp add: layout_to_u32_def places_def)

lemma layout_eom_cost:
  assumes "valid_header h" and "tag_owner h = 0"
    and "layout_to_u32 (h\<lparr>end_of_message := 0\<rparr>) = Inr v" and "layout_to_u32 (h\<lparr>end_of_message := 1\<rparr>) = Inr v'"
  shows "length (concat (map serial_stuff (to_be_bytes v'))) = length (concat (map serial_stuff (to_be_bytes v)))"
proof -
  let ?p = "\<lambda>eom. places (hdr_reserved h) (header_version h) (eid_bits (destination_endpoint_id h))
    (eid_bits (source_endpoint_id h)) (start_of_message h) eom (seq_bits (packet_sequence_number h)) 0 (tag_bits (message_tag h))"
  have v: "v = ?p 0" "v' = ?p 1" using assms(2-4) by (simp_all add: layout_places)
  have hi: "drop_bit 8 v' = drop_bit 8 v" unfolding v by (rule drop_places_eom) simp
  have "drop_bit 16 v' = drop_bit 16 v" "drop_bit 24 v' = drop_bit 24 v"
    using arg_cong[OF hi, of "drop_bit 8"] arg_cong[OF hi, of "drop_bit 16"] by simp_all
  moreover have "tag_bits (message_tag h) < 8"
    using assms(1) by (cases "message_tag h") (simp add: valid_header_def word_le_nat_alt word_less_nat_alt)
  then have "\<not> bit v 3" "\<not> bit v' 3" unfolding v by (simp_all add: places_bit3)
  then have "length (serial_stuff (ucast v)) = 1" "length (serial_stuff (ucast v')) = 1"
    by (simp_all add: serial_stuff_plain bit_ucast_iff)
  ultimately show ?thesis using hi by (simp add: to_be_bytes_def)
qed

interpretation serial_transfer: packet_transfer "MctpSerialMedium fcs_algo" serial_stuff
  HEADER_LEN MAX_TRAILER_WIRE "\<lambda>_. True" layout_codec
  by unfold_locales
    (simp_all add: MctpSerialMedium_def CONST_MTU_def length_serial_stuff layout_codec_def layout_eom_cost)

interpretation smbus_transfer: packet_transfer "SmbusEspiMedium smbus_layout_codec smbus_pec" "\<lambda>b. [b]"
  4 1 valid_smbus_rc layout_codec
  by unfold_locales (simp_all add: SmbusEspiMedium_def SMBUS_MTU_def)

subsection \<open>Properties\<close>

text \<open>C12. Over any lawful medium and from a buffer with room for at least ten bytes in the medium's
  region, sending a message always ends without an error, after at most as many packets as the
  message has bytes. The packets carry non-empty bodies whose concatenation is the message, with
  consecutive sequence numbers modulo 4, the end of message bit on exactly the last packet, and the
  start of message bit on those whose number, counted in a byte, is 0.\<close>

theorem every_message_is_sent:
  assumes "packet_transfer M stuff pre post valid_rc hc" and "valid_reply valid_rc (sps_reply_context s)"
    and "pre + post + 10 \<le> length (assembly_buffer s)"
  shows "\<exists>pkts bodies. send_all M hc (length (sps_message_buffer s)) s = Some pkts
    \<and> concat bodies = sps_message_buffer s
    \<and> sends M hc (sps_reply_context s) (rc_packet_sequence_number (sps_reply_context s)) (current_packet_num s) pkts bodies"
  by (rule packet_transfer.send_all_sends [OF assms]) simp

text \<open>A sender at the start of a message.\<close>

definition fresh_sender :: "('rc \<Rightarrow> bool) \<Rightarrow> nat \<Rightarrow> 'rc SerializePacketState \<Rightarrow> bool" where
  "fresh_sender valid_rc overhead s \<longleftrightarrow>
     valid_reply valid_rc (sps_reply_context s) \<and> sps_message_buffer s \<noteq> [] \<and> current_packet_num s = 0
     \<and> overhead + 10 \<le> length (assembly_buffer s)"

lemma fresh_sends:
  assumes "packet_transfer M stuff pre post valid_rc hc" and "fresh_sender valid_rc (pre + post) s"
    and "send_all M hc (length (sps_message_buffer s)) s = Some pkts"
  obtains bodies where "concat bodies = sps_message_buffer s"
    "sends M hc (sps_reply_context s) (rc_packet_sequence_number (sps_reply_context s)) 0 pkts bodies"
  using packet_transfer.send_all_sends[OF assms(1), of s "length (sps_message_buffer s)"] assms(2,3)
  by (auto simp: fresh_sender_def)

lemma received_start:
  "assembly_state ctx = AssemblyIdle \<Longrightarrow> room \<le> length (packet_assembly_buffer ctx) \<Longrightarrow> received rc q [] room ctx"
  by (simp add: received_def)

lemma seq_eq_iff: "q = q' \<longleftrightarrow> unat (seq_bits q) = unat (seq_bits q')"
  by (cases q; cases q') (simp add: word_unat_eq_iff)

lemma unat_seq_next: "unat (seq_bits (seq_next q)) = (unat (seq_bits q) + 1) mod 4"
proof (cases q)
  case (MctpSequenceNumber n)
  have "unat (n + 1) mod 4 = (unat n + 1) mod 256 mod 4" by (simp add: unat_word_ariths)
  also have "\<dots> = (unat n + 1) mod 4" by (simp add: mod_mod_cancel)
  finally show ?thesis by (simp add: MctpSequenceNumber seq_max_def unat_mod_distrib)
qed

lemma seq_next_distinct:
  "seq_next (seq_next (seq_next q)) \<noteq> seq_next (seq_next q)"
  "seq_next (seq_next (seq_next (seq_next q))) \<noteq> seq_next (seq_next q)"
  "seq_next (seq_next (seq_next (seq_next (seq_next q)))) \<noteq> seq_next (seq_next q)"
  "seq_next (seq_next (seq_next (seq_next (seq_next (seq_next q))))) = seq_next (seq_next q)"
  unfolding seq_eq_iff unat_seq_next by presburger+

text \<open>C13. A message that is sent in one or two packets arrives: the receiver, idle and with an assembly
  buffer at least as long as the message, reports nothing for the first of two packets and for the last
  one exactly the message, split into type, integrity bit and body, with the endpoint ids and the
  tag of the sender, and is idle again.\<close>

theorem short_message_arrives:
  assumes "packet_transfer M stuff pre post valid_rc hc" and "fresh_sender valid_rc (pre + post) s"
    and "send_all M hc (length (sps_message_buffer s)) s = Some pkts" and "length pkts \<le> 2"
    and "assembly_state ctx = AssemblyIdle" and "length (sps_message_buffer s) \<le> length (packet_assembly_buffer ctx)"
  shows "\<exists>m ctx'. receive_all M hc pkts ctx = (replicate (length pkts - 1) (Inr None) @ [Inr (Some m)], ctx')
    \<and> message_of (sps_reply_context s) (sps_message_buffer s) m \<and> assembly_state ctx' = AssemblyIdle"
proof -
  let ?rc = "sps_reply_context s" and ?msg = "sps_message_buffer s"
  let ?q = "rc_packet_sequence_number ?rc"
  obtain bodies where c: "concat bodies = ?msg" and snd: "sends M hc ?rc ?q 0 pkts bodies"
    using fresh_sends[OF assms(1-3)] by blast
  have "?msg \<noteq> []" using assms(2) by (simp add: fresh_sender_def)
  then consider p b where "pkts = [p]" "bodies = [b]" | p1 p2 b1 b2 where "pkts = [p1, p2]" "bodies = [b1, b2]"
    using snd c assms(4)
    by (cases pkts; cases bodies; cases "tl pkts"; cases "tl bodies"; cases "tl (tl pkts)"; cases "tl (tl bodies)") auto
  then show ?thesis
  proof cases
    case (1 p b)
    have b: "b \<noteq> []" "carries M hc p (packet_header ?rc (seq_next ?q) (if [] = ([] :: u8 list) then 1 else 0) 1) b"
      using snd 1 by simp_all
    have start: "received ?rc ?q [] (length b) ctx" using assms(5,6) c 1 by (intro received_start) auto
    show ?thesis using receive_in_sequence(2)[OF b(2) start _ _ b(1)] 1 c by auto
  next
    case (2 p1 p2 b1 b2)
    have b: "b1 \<noteq> []" "b2 \<noteq> []" "carries M hc p1 (packet_header ?rc (seq_next ?q) (if [] = ([] :: u8 list) then 1 else 0) 0) b1"
      "carries M hc p2 (packet_header ?rc (seq_next (seq_next ?q)) (if b1 = [] then 1 else 0) 1) b2"
      using snd 2 by simp_all
    have "length (concat bodies) \<le> length (packet_assembly_buffer ctx)" using assms(6) c by simp
    then have start: "received ?rc ?q [] (length b1 + length b2) ctx" using assms(5) 2 by (intro received_start) auto
    obtain ctx1 where 1: "deserialize_packet M hc p1 ctx = (Inr None, ctx1)"
      "received ?rc ?q b1 (length b2) ctx1"
      using receive_in_sequence(1)[OF b(3) start _ _ b(1)] by auto
    obtain m ctx2 where "deserialize_packet M hc p2 ctx1 = (Inr (Some m), ctx2)" "message_of ?rc (b1 @ b2) m"
      "assembly_state ctx2 = AssemblyIdle"
      using receive_in_sequence(2)[OF b(4) 1(2) _ _ b(2)] b(1) by auto
    with 1 2 c show ?thesis by auto
  qed
qed

text \<open>The first two packets of a longer message, and any packets that do not follow.\<close>

lemma receive_two:
  assumes "sends M hc rc q 0 (p1 # p2 # p3 # pkts) (b1 # b2 # b3 # bs)" and "assembly_state ctx = AssemblyIdle"
    and "length b1 + length b2 + room \<le> length (packet_assembly_buffer ctx)"
  shows "\<exists>ctx'. receive_all M hc [p1, p2] ctx = ([Inr None, Inr None], ctx') \<and> received rc q (b1 @ b2) room ctx'"
proof -
  have b: "b1 \<noteq> []" "b2 \<noteq> []" "carries M hc p1 (packet_header rc (seq_next q) (if [] = ([] :: u8 list) then 1 else 0) 0) b1"
    "carries M hc p2 (packet_header rc (seq_next (seq_next q)) (if b1 = [] then 1 else 0) 0) b2"
    using assms(1) by simp_all
  have start: "received rc q [] (length b1 + length b2 + room) ctx" using assms(2,3) by (intro received_start) auto
  obtain ctx1 where 1: "deserialize_packet M hc p1 ctx = (Inr None, ctx1)" "received rc q b1 (length b2 + room) ctx1"
    using receive_in_sequence(1)[OF b(3) start _ _ b(1)] by auto
  obtain ctx2 where "deserialize_packet M hc p2 ctx1 = (Inr None, ctx2)" "received rc q (b1 @ b2) room ctx2"
    using receive_in_sequence(1)[OF b(4) 1(2) _ _ b(2)] b(1) by auto
  with 1 show ?thesis by simp
qed

lemma receive_all_append:
  "receive_all M hc (ps @ qs) ctx =
     (let (rs, ctx) = receive_all M hc ps ctx; (rs', ctx) = receive_all M hc qs ctx in (rs @ rs', ctx))"
  by (induction ps arbitrary: ctx) (simp_all add: Let_def case_prod_beta)

lemma receive_third:
  assumes "sends M hc rc q 0 (p1 # p2 # p3 # pkts) (b1 # b2 # b3 # bs)" and "received rc q (b1 @ b2) room ctx"
  shows "deserialize_packet M hc p3 ctx
    = (Inl (ProtocolErr (UnexpectedPacketSequenceNumber (seq_next (seq_next q)) (seq_next (seq_next (seq_next q))))), ctx)"
proof -
  have "b1 @ b2 \<noteq> []" "\<exists>eom. carries M hc p3 (packet_header rc (seq_next (seq_next (seq_next q))) 0 eom) b3"
    using assms(1) by (auto split: if_splits)
  then show ?thesis
    using receive_out_of_sequence[OF _ assms(2)] seq_next_distinct(1)[of q] by blast
qed

text \<open>A longer message does not: the receiver never advances the sequence number it expects beyond
  that of the second packet, so it rejects the third packet of every message.\<close>

theorem third_packet_is_rejected:
  assumes "packet_transfer M stuff pre post valid_rc hc" and "fresh_sender valid_rc (pre + post) s"
    and "send_all M hc (length (sps_message_buffer s)) s = Some (p1 # p2 # p3 # pkts)"
    and "assembly_state ctx = AssemblyIdle" and "length (sps_message_buffer s) \<le> length (packet_assembly_buffer ctx)"
  shows "let q = rc_packet_sequence_number (sps_reply_context s); expected = seq_next (seq_next q)
    in fst (receive_all M hc [p1, p2, p3] ctx) =
      [Inr None, Inr None, Inl (ProtocolErr (UnexpectedPacketSequenceNumber expected (seq_next expected)))]"
proof -
  let ?rc = "sps_reply_context s" and ?msg = "sps_message_buffer s"
  let ?q = "rc_packet_sequence_number ?rc"
  obtain bodies where c: "concat bodies = ?msg" and snd: "sends M hc ?rc ?q 0 (p1 # p2 # p3 # pkts) bodies"
    using fresh_sends[OF assms(1-3)] by blast
  then obtain b1 b2 b3 bs where b: "bodies = b1 # b2 # b3 # bs"
    by (cases bodies; cases "tl bodies"; cases "tl (tl bodies)") auto
  have "length (concat bodies) \<le> length (packet_assembly_buffer ctx)" using assms(5) c by simp
  then have "length b1 + length b2 + 0 \<le> length (packet_assembly_buffer ctx)" by (simp add: b)
  from receive_two[OF snd[unfolded b] assms(4) this] obtain ctx' where
    two: "receive_all M hc [p1, p2] ctx = ([Inr None, Inr None], ctx')" and got: "received ?rc ?q (b1 @ b2) 0 ctx'" by blast
  show ?thesis
    using receive_third[OF snd[unfolded b] got] receive_all_append[of M hc "[p1, p2]" "[p3]" ctx]
    by (simp add: two Let_def del: receive_all.simps(2)) simp
qed

text \<open>When a message takes exactly six packets, the receiver takes the sixth for the third: it reports
  a complete message that consists of the first two and the last packet only.\<close>

theorem six_packets_are_corrupted:
  assumes "packet_transfer M stuff pre post valid_rc hc" and "fresh_sender valid_rc (pre + post) s"
    and "send_all M hc (length (sps_message_buffer s)) s = Some pkts" and "length pkts = 6"
    and "assembly_state ctx = AssemblyIdle" and "length (sps_message_buffer s) \<le> length (packet_assembly_buffer ctx)"
  shows "\<exists>b1 b2 lost b6 m. sps_message_buffer s = b1 @ b2 @ lost @ b6 \<and> lost \<noteq> []
    \<and> last (fst (receive_all M hc pkts ctx)) = Inr (Some m) \<and> message_of (sps_reply_context s) (b1 @ b2 @ b6) m"
proof -
  let ?rc = "sps_reply_context s" and ?msg = "sps_message_buffer s"
  let ?q = "rc_packet_sequence_number ?rc"
  obtain bodies where c: "concat bodies = ?msg" and snd: "sends M hc ?rc ?q 0 pkts bodies"
    using fresh_sends[OF assms(1-3)] by blast
  obtain p1 p2 p3 p4 p5 p6 where p: "pkts = [p1, p2, p3, p4, p5, p6]"
    using assms(4) by (auto simp: length_Suc_conv numeral_eq_Suc)
  with snd obtain b1 b2 b3 b4 b5 b6 where b: "bodies = [b1, b2, b3, b4, b5, b6]"
    by (cases bodies; cases "tl bodies"; cases "tl (tl bodies)"; cases "tl (tl (tl bodies))";
        cases "tl (tl (tl (tl bodies)))"; cases "tl (tl (tl (tl (tl bodies))))";
        cases "tl (tl (tl (tl (tl (tl bodies)))))") auto
  let ?sq = "\<lambda>n. (seq_next ^^ n) ?q"
  have snd': "sends M hc ?rc ?q 0 (p1 # p2 # p3 # [p4, p5, p6]) (b1 # b2 # b3 # [b4, b5, b6])"
    using snd by (simp only: p b)
  have "length (concat bodies) \<le> length (packet_assembly_buffer ctx)" using assms(6) c by simp
  then have "length b1 + length b2 + length b6 \<le> length (packet_assembly_buffer ctx)" by (simp add: b)
  from receive_two[OF snd' assms(5) this] obtain ctx' where
    two: "receive_all M hc [p1, p2] ctx = ([Inr None, Inr None], ctx')"
    and got: "received ?rc ?q (b1 @ b2) (length b6) ctx'" by blast
  have ne: "b1 @ b2 \<noteq> []" "b3 \<noteq> []" "b6 \<noteq> []" and late:
    "carries M hc p4 (packet_header ?rc (seq_next (seq_next (seq_next (seq_next ?q)))) 0 0) b4"
    "carries M hc p5 (packet_header ?rc (seq_next (seq_next (seq_next (seq_next (seq_next ?q))))) 0 0) b5"
    "carries M hc p6 (packet_header ?rc (seq_next (seq_next (seq_next (seq_next (seq_next (seq_next ?q)))))) 0 1) b6"
    using snd' by simp_all
  have 3: "fst (deserialize_packet M hc p3 ctx') \<noteq> Inr (Some m)" "snd (deserialize_packet M hc p3 ctx') = ctx'" for m
    using receive_third[OF snd' got] by simp_all
  have 4: "snd (deserialize_packet M hc p4 ctx') = ctx'" "snd (deserialize_packet M hc p5 ctx') = ctx'"
    using receive_out_of_sequence[OF late(1) got ne(1) seq_next_distinct(2)]
      receive_out_of_sequence[OF late(2) got ne(1) seq_next_distinct(3)] by simp_all
  have p6: "carries M hc p6 (packet_header ?rc (seq_next (seq_next ?q)) (if b1 @ b2 = [] then 1 else 0) 1) b6"
    using late(3) ne(1) unfolding seq_next_distinct(4) by auto
  obtain m ctx6 where "deserialize_packet M hc p6 ctx' = (Inr (Some m), ctx6)" "message_of ?rc ((b1 @ b2) @ b6) m"
    using receive_in_sequence(2)[OF p6 got _ _ ne(3)] ne(1) by auto
  with 3 4 have "last (fst (receive_all M hc pkts ctx)) = Inr (Some m)" "message_of ?rc (b1 @ b2 @ b6) m"
    using receive_all_append[of M hc "[p1, p2]" "[p3, p4, p5, p6]" ctx]
    by (simp_all add: p two Let_def case_prod_beta del: receive_all.simps(2)) (simp add: case_prod_beta Let_def)
  moreover have "?msg = b1 @ b2 @ (b3 @ b4 @ b5) @ b6" using c b by simp
  ultimately show ?thesis using ne(2) by blast
qed

text \<open>Messages of 10, 16 and 36 bytes over SMBus, from a sender with room for six body bytes a packet.\<close>

definition demo_medium :: "(SmbusEspiMediumFrame, SmbusEspiReplyContext, capture) medium" where
  "demo_medium = SmbusEspiMedium smbus_layout_codec (\<lambda>_. 0)"

definition demo_sender :: "u8 list \<Rightarrow> SmbusEspiReplyContext SerializePacketState" where
  "demo_sender msg =
     \<lparr>sps_reply_context =
        \<lparr>rc_destination_endpoint_id = Id 0x20, rc_source_endpoint_id = Id 0x21,
         rc_packet_sequence_number = MctpSequenceNumber 3, rc_message_tag = MctpMessageTag 1,
         medium_context = \<lparr>destination_slave_address = 0x10, source_slave_address = 0x11\<rparr>\<rparr>,
      current_packet_num = 0, sps_message_buffer = msg, assembly_buffer = replicate 15 0\<rparr>"

definition demo_receiver :: MctpPacketContext where
  "demo_receiver = packet_context_new (replicate 40 0)"

definition demo_packets :: "nat \<Rightarrow> u8 list list option" where
  "demo_packets n = send_all demo_medium layout_codec n (demo_sender (replicate n 0x41))"

lemma demo_transfer: "packet_transfer demo_medium (\<lambda>b. [b]) 4 1 valid_smbus_rc layout_codec"
  unfolding demo_medium_def by (rule smbus_transfer.packet_transfer_axioms)

lemma demo_fresh: "n \<noteq> 0 \<Longrightarrow> fresh_sender valid_smbus_rc (4 + 1) (demo_sender (replicate n 0x41))"
  by (simp add: fresh_sender_def demo_sender_def valid_reply_def valid_smbus_rc_def)

lemma demo_counts:
  "map_option length (demo_packets 10) = Some 2" "map_option length (demo_packets 16) = Some 3"
  "map_option length (demo_packets 36) = Some 6"
  by code_simp+

lemma demo_sent:
  assumes "map_option length (demo_packets n) = Some k"
  shows "\<exists>pkts. send_all demo_medium layout_codec (length (sps_message_buffer (demo_sender (replicate n 0x41))))
    (demo_sender (replicate n 0x41)) = Some pkts \<and> length pkts = k"
  using assms by (auto simp: demo_packets_def demo_sender_def)

lemma demo_idle: "assembly_state demo_receiver = AssemblyIdle" "length (packet_assembly_buffer demo_receiver) = 40"
  by (simp_all add: demo_receiver_def packet_context_new_def)

theorem every_message_is_sent_witness:
  "\<exists>pkts bodies. send_all demo_medium layout_codec (length (sps_message_buffer (demo_sender [1, 2, 3]))) (demo_sender [1, 2, 3]) = Some pkts
    \<and> concat bodies = sps_message_buffer (demo_sender [1, 2, 3])
    \<and> sends demo_medium layout_codec (sps_reply_context (demo_sender [1, 2, 3]))
        (rc_packet_sequence_number (sps_reply_context (demo_sender [1, 2, 3])))
        (current_packet_num (demo_sender [1, 2, 3])) pkts bodies"
  by (rule every_message_is_sent [OF demo_transfer]) (simp_all add: demo_sender_def valid_reply_def valid_smbus_rc_def)

theorem short_message_arrives_witness:
  "\<exists>pkts m ctx'. length pkts = 2
    \<and> receive_all demo_medium layout_codec pkts demo_receiver = ([Inr None, Inr (Some m)], ctx')
    \<and> message_of (sps_reply_context (demo_sender (replicate 10 0x41))) (replicate 10 0x41) m"
proof -
  let ?s = "demo_sender (replicate 10 0x41)"
  obtain pkts where sent: "send_all demo_medium layout_codec (length (sps_message_buffer ?s)) ?s = Some pkts"
    and n: "length pkts = 2" using demo_sent[OF demo_counts(1)] by blast
  have "length pkts \<le> 2" "length (sps_message_buffer ?s) \<le> length (packet_assembly_buffer demo_receiver)"
    using n by (simp_all add: demo_idle) (simp add: demo_sender_def)
  from short_message_arrives [OF demo_transfer demo_fresh sent this(1) demo_idle(1) this(2)] n
  show ?thesis by (auto simp: demo_sender_def)
qed

theorem third_packet_is_rejected_witness:
  "\<exists>p1 p2 p3. fst (receive_all demo_medium layout_codec [p1, p2, p3] demo_receiver) =
      [Inr None, Inr None, Inl (ProtocolErr (UnexpectedPacketSequenceNumber (MctpSequenceNumber 1) (MctpSequenceNumber 2)))]"
proof -
  let ?s = "demo_sender (replicate 16 0x41)"
  obtain pkts where sent: "send_all demo_medium layout_codec (length (sps_message_buffer ?s)) ?s = Some pkts"
    and n: "length pkts = 3" using demo_sent[OF demo_counts(2)] by blast
  from n obtain p1 p2 p3 where p: "pkts = [p1, p2, p3]" by (auto simp: length_Suc_conv numeral_eq_Suc)
  have room: "length (sps_message_buffer ?s) \<le> length (packet_assembly_buffer demo_receiver)"
    by (simp add: demo_idle) (simp add: demo_sender_def)
  have sq: "seq_next (seq_next (rc_packet_sequence_number (sps_reply_context ?s))) = MctpSequenceNumber 1"
    "seq_next (MctpSequenceNumber 1) = MctpSequenceNumber 2" by (simp_all add: demo_sender_def seq_max_def)
  from third_packet_is_rejected [OF demo_transfer demo_fresh[of 16] sent[unfolded p] demo_idle(1) room] show ?thesis
    unfolding Let_def sq by (auto simp del: receive_all.simps)
qed

theorem six_packets_are_corrupted_witness:
  "\<exists>pkts b1 b2 lost b6 m. replicate 36 (0x41 :: u8) = b1 @ b2 @ lost @ b6 \<and> lost \<noteq> []
    \<and> last (fst (receive_all demo_medium layout_codec pkts demo_receiver)) = Inr (Some m)
    \<and> message_of (sps_reply_context (demo_sender (replicate 36 0x41))) (b1 @ b2 @ b6) m"
proof -
  let ?s = "demo_sender (replicate 36 0x41)"
  obtain pkts where sent: "send_all demo_medium layout_codec (length (sps_message_buffer ?s)) ?s = Some pkts"
    and n: "length pkts = 6" using demo_sent[OF demo_counts(3)] by blast
  have room: "length (sps_message_buffer ?s) \<le> length (packet_assembly_buffer demo_receiver)"
    by (simp add: demo_idle) (simp add: demo_sender_def)
  have msg: "sps_message_buffer ?s = replicate 36 0x41" by (simp add: demo_sender_def)
  from six_packets_are_corrupted [OF demo_transfer demo_fresh sent n demo_idle(1) room] show ?thesis
    unfolding msg by fastforce
qed

end
