(* ===== verification/Mctp_Framing.thy ===== *)
theory Mctp_Framing
  imports Mctp_Transfer
begin

text \<open>
  Packets on a byte stream: a medium whose \<open>frame_complete\<close> tells where a packet of
  \<open>mctp_packet_context.rs\<close> ends. \<open>framed\<close> says for which body lengths it does: the serial medium
  misses the end of 126-byte bodies, see \<open>serial_frame_complete_length\<close>.
\<close>

locale framed_medium =
  packet_transfer M stuff pre post valid_rc hc
  for M :: "('frame, 'rc, capture) medium" and stuff pre post valid_rc hc +
  fixes framed :: "nat \<Rightarrow> bool"
  assumes frame_found:
      "pre + post \<le> length buf \<Longrightarrow> valid_rc rc \<Longrightarrow>
       w (c, encoder_new (region pre post buf)) = (Inr (), (c', enc)) \<Longrightarrow>
       length (enc_buf enc) = length (region pre post buf) \<Longrightarrow>
       enc_wire_pos enc \<le> length (region pre post buf) \<Longrightarrow>
       take (enc_wire_pos enc) (enc_buf enc) = concat (map stuff bs) \<Longrightarrow>
       enc_wire_pos enc \<le> max_message_body_size M \<Longrightarrow> framed (length bs) \<Longrightarrow>
       med_serialize M rc buf w c = (Inr pkt, buf', c') \<Longrightarrow>
       frame_complete M pkt = Inr (Some (length pkt))
         \<and> (\<forall>n < length pkt. frame_complete M (take n pkt) = Inr None)
         \<and> 0 < length pkt \<and> length pkt \<le> pre + post + enc_wire_pos enc"
begin

definition frame :: "u8 list \<Rightarrow> bool" where
  "frame pkt \<longleftrightarrow> 0 < length pkt \<and> frame_complete M pkt = Inr (Some (length pkt))
     \<and> (\<forall>n < length pkt. frame_complete M (take n pkt) = Inr None)"

text \<open>A short message takes one packet, which \<open>frame_complete\<close> finds.\<close>

lemma single_packet:
  assumes rc: "valid_reply valid_rc (sps_reply_context s)" and msg: "sps_message_buffer s \<noteq> []"
    and buf: "pre + post + 8 + 2 * length (sps_message_buffer s) \<le> length (assembly_buffer s)"
    and mtu_ok: "8 + 2 * length (sps_message_buffer s) \<le> max_message_body_size M"
    and fr: "framed (4 + length (sps_message_buffer s))"
  shows "\<exists>pkt s'. next_packet M hc s = (Some (Inr pkt), s') \<and> sps_message_buffer s' = []
    \<and> carries M hc pkt (packet_header (sps_reply_context s)
        (seq_next (rc_packet_sequence_number (sps_reply_context s))) (if current_packet_num s = 0 then 1 else 0) 1)
        (sps_message_buffer s)
    \<and> frame pkt \<and> length pkt \<le> pre + post + 8 + 2 * length (sps_message_buffer s)"
proof -
  let ?rc = "sps_reply_context s" and ?msg = "sps_message_buffer s" and ?num = "current_packet_num s"
  let ?q = "rc_packet_sequence_number ?rc" and ?r = "region pre post (assembly_buffer s)"
  let ?c = "\<lparr>cap_sequence_number = ?q, cap_message = ?msg\<rparr>"
  have len: "1 \<le> length ?msg" using msg by (cases ?msg) simp_all
  then have "10 \<le> length ?r" using buf by simp
  from chunk_written[OF rc msg this, of ?num ?q] obtain k v enc where
    w: "chunk_writer M hc ?rc ?num (?c, encoder_new ?r)
        = (Inr (), (\<lparr>cap_sequence_number = seq_next ?q, cap_message = drop k ?msg\<rparr>, enc))"
    and enc: "length (enc_buf enc) = length ?r" "enc_wire_pos enc \<le> length ?r"
      "take (enc_wire_pos enc) (enc_buf enc) = stuffs (to_be_bytes v @ take k ?msg)"
      "enc_wire_pos enc \<le> max_message_body_size M"
    and whole: "8 + 2 * length ?msg \<le> min (max_message_body_size M) (length ?r) \<longrightarrow> k = length ?msg"
    by blast
  have k: "k = length ?msg" using whole mtu_ok buf by simp
  have room: "pre + post \<le> length (assembly_buffer s)" and valid: "valid_rc (medium_context ?rc)"
    using buf rc by (simp_all add: valid_reply_def)
  have "pre + post + 10 \<le> length (assembly_buffer s)" using buf len by simp
  from next_packet_sends[OF rc msg this] obtain k' pkt buf' where
    nxt: "next_packet M hc s = (Some (Inr pkt),
        s\<lparr>sps_reply_context := ?rc\<lparr>rc_packet_sequence_number := seq_next ?q\<rparr>,
          sps_message_buffer := drop k' ?msg, assembly_buffer := buf', current_packet_num := ?num + 1\<rparr>)"
    and k': "k' \<le> length ?msg"
    and carries: "carries M hc pkt (packet_header ?rc (seq_next ?q) (if ?num = 0 then 1 else 0)
        (if drop k' ?msg = [] then 1 else 0)) (take k' ?msg)" by blast
  obtain r b c' where ser: "med_serialize M (medium_context ?rc) (assembly_buffer s) (chunk_writer M hc ?rc ?num) ?c = (r, b, c')"
    by (metis prod_cases3)
  note ok = writer_ok [where w = "chunk_writer M hc ?rc ?num" and c = ?c, OF room valid w enc(1,2) enc(3) [unfolded stuffs_def] enc(4)]
  have c': "c' = \<lparr>cap_sequence_number = seq_next ?q, cap_message = drop k ?msg\<rparr>" "r = Inr pkt"
    using nxt ser msg ok by (auto simp: next_packet_def)
  have "drop k' ?msg = drop k ?msg"
    using arg_cong[OF nxt, of "\<lambda>x. sps_message_buffer (snd x)"] ser c' msg by (simp add: next_packet_def)
  with k k' have k'': "k' = length ?msg" by simp
  have wl: "enc_wire_pos enc \<le> 8 + 2 * length ?msg"
  proof -
    have "enc_wire_pos enc = length (stuffs (to_be_bytes v @ take k ?msg))"
      using arg_cong[OF enc(3), of length] enc(1,2) by simp
    also have "\<dots> \<le> 2 * length (to_be_bytes v @ take k ?msg)" by (rule length_stuffs_le)
    finally show ?thesis by (simp add: k)
  qed
  have "framed (length (to_be_bytes v @ take k ?msg))" using fr by (simp add: k)
  from frame_found [where w = "chunk_writer M hc ?rc ?num" and c = ?c, OF room valid w enc(1,2) enc(3) [unfolded stuffs_def] enc(4) this]
    ser c' have "frame pkt" "length pkt \<le> pre + post + enc_wire_pos enc"
    by (auto simp: frame_def)
  with nxt carries wl k'' show ?thesis by simp
qed

end

subsection \<open>The serial medium\<close>

lemma flag_position_notin: "END_FLAG \<notin> set xs \<Longrightarrow> flag_position xs = None"
  by (induction xs) auto

lemma serial_frame_found:
  assumes "length bs \<le> CONST_MTU" and "length bs \<noteq> 126"
  shows "serial_frame_complete (serial_frame fcs_algo bs) = Inr (Some (length (serial_frame fcs_algo bs)))"
    and "n < length (serial_frame fcs_algo bs) \<Longrightarrow> serial_frame_complete (take n (serial_frame fcs_algo bs)) = Inr None"
    and "length (serial_frame fcs_algo bs) \<le> 7 + length (serial.stuffs bs)"
proof -
  define f where "f = fcs_algo ([SERIAL_REVISION, of_nat (length bs)] @ bs)"
  define inner where "inner = of_nat (length bs) # serial.stuffs bs @ serial_stuff (u16_msb f) @ serial_stuff (u16_lsb f)"
  have pkt: "serial_frame fcs_algo bs = SERIAL_REVISION # inner @ [END_FLAG]"
    by (simp add: serial_frame_def Let_def f_def inner_def)
  have rev: "SERIAL_REVISION \<noteq> END_FLAG" by (simp add: serial_consts)
  have "(of_nat (length bs) :: u8) \<noteq> 0x7E"
    using assms by (simp add: word_unat_eq_iff unat_of_nat CONST_MTU_def)
  then have free: "0x7E \<notin> set inner"
    using flag_notin_stuffs flag_notin_stuff by (auto simp: inner_def)
  have full: "flag_position (inner @ [END_FLAG]) = Some (length inner)"
    using flag_position_append[OF free, of "[]"] by simp
  show "serial_frame_complete (serial_frame fcs_algo bs) = Inr (Some (length (serial_frame fcs_algo bs)))"
    using full by (simp add: pkt serial_frame_complete_def rev)
  show "serial_frame_complete (take n (serial_frame fcs_algo bs)) = Inr None" if "n < length (serial_frame fcs_algo bs)"
  proof (cases n)
    case (Suc m)
    have "END_FLAG \<notin> set (take m inner)" using free set_take_subset[of m inner] by (auto simp: END_FLAG_def)
    moreover have "take m (inner @ [END_FLAG]) = take m inner" using that Suc by (simp add: pkt)
    ultimately show ?thesis
      by (simp add: pkt Suc serial_frame_complete_def rev flag_position_notin)
  qed (simp add: serial_frame_complete_def)
  show "length (serial_frame fcs_algo bs) \<le> 7 + length (serial.stuffs bs)"
    using length_serial_stuff[of "u16_msb f"] length_serial_stuff[of "u16_lsb f"]
    by (simp add: pkt inner_def)
qed

interpretation serial_framing: framed_medium "MctpSerialMedium fcs_algo" serial_stuff
  HEADER_LEN MAX_TRAILER_WIRE "\<lambda>_. True" layout_codec "\<lambda>n. n \<noteq> 126"
proof (intro framed_medium.intro framed_medium_axioms.intro serial_transfer.packet_transfer_axioms)
  fix buf c c' enc bs rc pkt buf' and w :: "(capture \<times> EncodingEncoder, MctpPacketError, unit) action"
  assume a: "HEADER_LEN + MAX_TRAILER_WIRE \<le> length buf"
    "w (c, encoder_new (region HEADER_LEN MAX_TRAILER_WIRE buf)) = (Inr (), c', enc)"
    "length (enc_buf enc) = length (region HEADER_LEN MAX_TRAILER_WIRE buf)"
    "enc_wire_pos enc \<le> length (region HEADER_LEN MAX_TRAILER_WIRE buf)"
    "take (enc_wire_pos enc) (enc_buf enc) = concat (map serial_stuff bs)"
    "enc_wire_pos enc \<le> max_message_body_size (MctpSerialMedium fcs_algo :: (MctpSerialMediumFrame, unit, capture) medium)"
    and bs126: "length bs \<noteq> 126"
    and ser: "med_serialize (MctpSerialMedium fcs_algo) rc buf w c = (Inr pkt, buf', c')"
  have n: "enc_wire_pos enc = length (serial.stuffs bs)"
    using arg_cong[OF a(5), of length] a(3,4) by (simp add: serial.stuffs_def)
  have bs: "length bs \<le> CONST_MTU"
    using serial.length_stuffs[of bs] a(6) n by (simp add: MctpSerialMedium_def)
  have "pkt = serial_frame fcs_algo bs"
    using serial_serialize_ok [where w = w and c = c, OF a(1-4) a(5) [folded serial.stuffs_def] bs, of fcs_algo rc] ser
    by (auto simp: MctpSerialMedium_def)
  then show "frame_complete (MctpSerialMedium fcs_algo :: (MctpSerialMediumFrame, unit, capture) medium) pkt = Inr (Some (length pkt))
      \<and> (\<forall>n < length pkt. frame_complete (MctpSerialMedium fcs_algo :: (MctpSerialMediumFrame, unit, capture) medium) (take n pkt) = Inr None)
      \<and> 0 < length pkt \<and> length pkt \<le> HEADER_LEN + MAX_TRAILER_WIRE + enc_wire_pos enc"
    using serial_frame_found(1,3)[OF bs bs126, of fcs_algo] serial_frame_found(2)[OF bs bs126, of _ fcs_algo] by (auto simp: MctpSerialMedium_def n HEADER_LEN_def MAX_TRAILER_WIRE_def serial_frame_def Let_def)
qed

end
