(* ===== verification/Mctp_Messages.thy ===== *)
theory Mctp_Messages
  imports Mctp_Transfer
begin

text \<open>
  The message types: \<open>mctp-rs/src/message_type/mctp_control.rs\<close>, \<open>vendor_defined_pci.rs\<close> and
  \<open>MctpMessage::parse_as\<close> of \<open>lib.rs\<close>. A \<open>serialize\<close> method writes to the start of a slice and
  returns the number of bytes and the slice; a message type is a record of its trait items.
\<close>

subsection \<open>Control messages\<close>

record MctpControlHeader =
  request_bit :: bool
  datagram_bit :: bool
  instance_id :: u8
  command_code :: MctpControlCommandCode
  completion_code :: MctpCompletionCode

datatype MctpControl =
    SetEndpointIdRequest u8 u8
  | SetEndpointIdResponse u8 u8 u8
  | GetEndpointIdRequest
  | GetEndpointIdResponse u8 u8 u8

definition check_request_and_completion_code :: "bool \<Rightarrow> MctpCompletionCode \<Rightarrow> (MctpPacketError, unit) result" where
  "check_request_and_completion_code request code =
     (if request \<and> code \<noteq> Success then Inl (ProtocolErr (CompletionCodeOnRequestMessage code)) else Inr ())"

definition control_header_serialize :: "MctpControlHeader \<Rightarrow> slice_writer" where
  "control_header_serialize h buffer =
     (if length buffer < 3 then Inl (SerializeError ''buffer too small for mctp control header'')
      else case check_request_and_completion_code (request_bit h) (completion_code h) of
             Inl e \<Rightarrow> Inl e
           | Inr _ \<Rightarrow>
               Inr (3, buffer[0 := push_bit 7 (of_bool (request_bit h)) OR push_bit 6 (of_bool (datagram_bit h))
                                     OR (instance_id h AND 0x1F),
                              1 := command_code_to_u8 (command_code h),
                              2 := completion_code_to_u8 (completion_code h)]))"

definition control_header_deserialize ::
  "u8 list \<Rightarrow> (MctpPacketError, MctpControlHeader \<times> u8 list) result" where
  "control_header_deserialize buffer =
     (if length buffer < 3 then Inl (HeaderParseError ''buffer too small for mctp control header'')
      else
        (let request = (buffer ! 0 AND 0x80 \<noteq> 0);
             datagram = (buffer ! 0 AND 0x40 \<noteq> 0);
             instance_id = buffer ! 0 AND 0x1F
         in case command_code_try_from (buffer ! 1) of
              None \<Rightarrow> Inl (HeaderParseError ''invalid mctp command code'')
            | Some cmd \<Rightarrow>
                (case completion_code_try_from (buffer ! 2) of
                   Inl _ \<Rightarrow> Inl (HeaderParseError ''invalid mctp completion code'')
                 | Inr code \<Rightarrow>
                     (case check_request_and_completion_code request code of
                        Inl e \<Rightarrow> Inl e
                      | Inr _ \<Rightarrow>
                          Inr (\<lparr>request_bit = request, datagram_bit = datagram, instance_id = instance_id,
                                command_code = cmd, completion_code = code\<rparr>, drop 3 buffer)))))"

definition copy_and_check_len :: "u8 list \<Rightarrow> slice_writer" where
  "copy_and_check_len data buffer =
     (if length buffer < length data then Inl (SerializeError ''buffer too small for mctp control message'')
      else Inr (length data, data @ drop (length data) buffer))"

fun control_serialize :: "MctpControl \<Rightarrow> slice_writer" where
  "control_serialize (SetEndpointIdRequest a b) buffer = copy_and_check_len [a, b] buffer"
| "control_serialize (SetEndpointIdResponse a b c) buffer = copy_and_check_len [a, b, c] buffer"
| "control_serialize GetEndpointIdRequest buffer = copy_and_check_len [] buffer"
| "control_serialize (GetEndpointIdResponse a b c) buffer = copy_and_check_len [a, b, c] buffer"

text \<open>\<open>try_into_array\<close> for two and three bytes.\<close>

fun try_into_array2 :: "u8 list \<Rightarrow> (MctpPacketError, u8 \<times> u8) result" where
  "try_into_array2 (a # b # _) = Inr (a, b)"
| "try_into_array2 _ = Inl (HeaderParseError ''buffer too small for mctp control message'')"

fun try_into_array3 :: "u8 list \<Rightarrow> (MctpPacketError, u8 \<times> u8 \<times> u8) result" where
  "try_into_array3 (a # b # c # _) = Inr (a, b, c)"
| "try_into_array3 _ = Inl (HeaderParseError ''buffer too small for mctp control message'')"

definition control_deserialize :: "MctpControlHeader \<Rightarrow> u8 list \<Rightarrow> (MctpPacketError, MctpControl) result" where
  "control_deserialize h buffer =
     (case (request_bit h, command_code h) of
        (True, SetEndpointId) \<Rightarrow> map_sum id (\<lambda>(a, b). SetEndpointIdRequest a b) (try_into_array2 buffer)
      | (True, GetEndpointId) \<Rightarrow> Inr GetEndpointIdRequest
      | (False, SetEndpointId) \<Rightarrow> map_sum id (\<lambda>(a, b, c). SetEndpointIdResponse a b c) (try_into_array3 buffer)
      | (False, GetEndpointId) \<Rightarrow> map_sum id (\<lambda>(a, b, c). GetEndpointIdResponse a b c) (try_into_array3 buffer)
      | _ \<Rightarrow> Inl (HeaderParseError ''invalid mctp control command code''))"

subsection \<open>Vendor defined PCI messages\<close>

datatype VendorDefinedPciHeader = VendorDefinedPciHeader u16
datatype VendorDefinedPci = VendorDefinedPci "u8 list"

fun vendor_header_serialize :: "VendorDefinedPciHeader \<Rightarrow> slice_writer" where
  "vendor_header_serialize (VendorDefinedPciHeader v) buffer =
     (if length buffer < 2 then Inl (SerializeError ''buffer too small for vendor defined pci header'')
      else Inr (2, [u16_msb v, u16_lsb v] @ drop 2 buffer))"

fun vendor_header_deserialize :: "u8 list \<Rightarrow> (MctpPacketError, VendorDefinedPciHeader \<times> u8 list) result" where
  "vendor_header_deserialize (a # b # bs) = Inr (VendorDefinedPciHeader (u16_from_be_bytes a b), bs)"
| "vendor_header_deserialize _ = Inl (HeaderParseError ''buffer too small for vendor defined pci header'')"

fun vendor_serialize :: "VendorDefinedPci \<Rightarrow> slice_writer" where
  "vendor_serialize (VendorDefinedPci data) buffer =
     (if length buffer < length data then Inl (SerializeError ''buffer too small for vendor defined pci message'')
      else Inr (length data, data @ drop (length data) buffer))"

definition vendor_deserialize :: "VendorDefinedPciHeader \<Rightarrow> u8 list \<Rightarrow> (MctpPacketError, VendorDefinedPci) result" where
  "vendor_deserialize h buffer = Inr (VendorDefinedPci buffer)"

subsection \<open>Message kinds\<close>

record ('h, 'b) message_kind =
  MESSAGE_TYPE :: u8
  kind_header_serialize :: "'h \<Rightarrow> slice_writer"
  kind_serialize :: "'b \<Rightarrow> slice_writer"
  kind_header_deserialize :: "u8 list \<Rightarrow> (MctpPacketError, 'h \<times> u8 list) result"
  kind_deserialize :: "'h \<Rightarrow> u8 list \<Rightarrow> (MctpPacketError, 'b) result"

definition control_kind :: "(MctpControlHeader, MctpControl) message_kind" where
  "control_kind = \<lparr>MESSAGE_TYPE = 0x00, kind_header_serialize = control_header_serialize,
     kind_serialize = control_serialize, kind_header_deserialize = control_header_deserialize,
     kind_deserialize = control_deserialize\<rparr>"

definition vendor_kind :: "(VendorDefinedPciHeader, VendorDefinedPci) message_kind" where
  "vendor_kind = \<lparr>MESSAGE_TYPE = 0x7E, kind_header_serialize = vendor_header_serialize,
     kind_serialize = vendor_serialize, kind_header_deserialize = vendor_header_deserialize,
     kind_deserialize = vendor_deserialize\<rparr>"

definition can_parse_as :: "('h, 'b) message_kind \<Rightarrow> 'rc MctpMessage \<Rightarrow> bool" where
  "can_parse_as P m \<longleftrightarrow> message_type (message_buffer m) = MESSAGE_TYPE P"

definition parse_as :: "('h, 'b) message_kind \<Rightarrow> 'rc MctpMessage \<Rightarrow> (MctpPacketError, 'h \<times> 'b) result" where
  "parse_as P m =
     (if \<not> can_parse_as P m then Inl (HeaderParseError ''message type mismatch'')
      else (case kind_header_deserialize P (rest (message_buffer m)) of
              Inl e \<Rightarrow> Inl e
            | Inr (header, body) \<Rightarrow>
                (case kind_deserialize P header body of Inl e \<Rightarrow> Inl e | Inr message \<Rightarrow> Inr (header, message))))"

text \<open>\<open>serialize_packet\<close> at a message kind.\<close>

definition serialize_message ::
  "('h, 'b) message_kind \<Rightarrow> 'rc MctpReplyContext \<Rightarrow> 'h \<times> 'b \<Rightarrow> MctpPacketContext
     \<Rightarrow> ((MctpPacketError, 'rc SerializePacketState) result \<times> MctpPacketContext) option" where
  "serialize_message P rc m =
     serialize_packet (MESSAGE_TYPE P) (kind_header_serialize P (fst m)) (kind_serialize P (snd m)) rc"

subsection \<open>Round trips\<close>

text \<open>What a message kind promises: header and body write a fixed byte sequence, which is read back.\<close>

locale message_codec =
  fixes P :: "('h, 'b) message_kind" and fits :: "'h \<Rightarrow> 'b \<Rightarrow> bool"
    and header_bytes :: "'h \<Rightarrow> u8 list" and body_bytes :: "'b \<Rightarrow> u8 list"
  assumes header_written: "fits h b \<Longrightarrow> length (header_bytes h) \<le> length buffer \<Longrightarrow>
      kind_header_serialize P h buffer
        = Inr (length (header_bytes h), header_bytes h @ drop (length (header_bytes h)) buffer)"
    and body_written: "fits h b \<Longrightarrow> length (body_bytes b) \<le> length buffer \<Longrightarrow>
      kind_serialize P b buffer = Inr (length (body_bytes b), body_bytes b @ drop (length (body_bytes b)) buffer)"
    and header_read: "fits h b \<Longrightarrow> kind_header_deserialize P (header_bytes h @ bs) = Inr (h, bs)"
    and body_read: "fits h b \<Longrightarrow> kind_deserialize P h (body_bytes b) = Inr b"
    and type_byte: "MESSAGE_TYPE P AND 0x7F = MESSAGE_TYPE P"
begin

lemma serialized:
  assumes "fits h b" and "assembly_state ctx = AssemblyIdle"
    and "1 + length (header_bytes h) + length (body_bytes b) \<le> length (packet_assembly_buffer ctx)"
  shows "\<exists>s ctx'. serialize_message P rc (h, b) ctx = Some (Inr s, ctx')
    \<and> sps_message_buffer s = MESSAGE_TYPE P # header_bytes h @ body_bytes b
    \<and> sps_reply_context s = rc \<and> current_packet_num s = 0
    \<and> length (assembly_buffer s) = length (packet_assembly_buffer ctx)
        - (1 + length (header_bytes h) + length (body_bytes b))"
proof -
  obtain x xs where buf: "packet_assembly_buffer ctx = x # xs"
    using assms(3) by (cases "packet_assembly_buffer ctx") auto
  have len: "length (header_bytes h) + length (body_bytes b) \<le> length xs" using assms(3) buf by simp
  then have "kind_header_serialize P h xs
      = Inr (length (header_bytes h), header_bytes h @ drop (length (header_bytes h)) xs)"
    by (intro header_written[OF assms(1)]) simp
  moreover have "kind_serialize P b (drop (length (header_bytes h)) xs)
      = Inr (length (body_bytes b), body_bytes b @ drop (length (body_bytes b)) (drop (length (header_bytes h)) xs))"
    by (rule body_written[OF assms(1)]) (use len in simp)
  ultimately show ?thesis
    using assms(2) len by (auto simp add: serialize_message_def serialize_packet_def buf Let_def)
qed

lemma parsed:
  assumes "fits h b" and "message_of rc (MESSAGE_TYPE P # header_bytes h @ body_bytes b) m"
  shows "parse_as P m = Inr (h, b)"
  using assms(2)
  by (simp add: parse_as_def can_parse_as_def message_of_def type_byte header_read[OF assms(1)] body_read[OF assms(1)])

end

definition control_fits :: "MctpControlHeader \<Rightarrow> MctpControl \<Rightarrow> bool" where
  "control_fits h m \<longleftrightarrow>
     instance_id h < 32 \<and> (request_bit h \<longrightarrow> completion_code h = Success)
     \<and> completion_code h \<notin> CommandSpecific ` {x. x < 0x80}
     \<and> (case m of
          SetEndpointIdRequest _ _ \<Rightarrow> request_bit h \<and> command_code h = SetEndpointId
        | SetEndpointIdResponse _ _ _ \<Rightarrow> \<not> request_bit h \<and> command_code h = SetEndpointId
        | GetEndpointIdRequest \<Rightarrow> request_bit h \<and> command_code h = GetEndpointId
        | GetEndpointIdResponse _ _ _ \<Rightarrow> \<not> request_bit h \<and> command_code h = GetEndpointId)"

definition control_header_bytes :: "MctpControlHeader \<Rightarrow> u8 list" where
  "control_header_bytes h =
     [push_bit 7 (of_bool (request_bit h)) OR push_bit 6 (of_bool (datagram_bit h)) OR (instance_id h AND 0x1F),
      command_code_to_u8 (command_code h), completion_code_to_u8 (completion_code h)]"

fun control_body_bytes :: "MctpControl \<Rightarrow> u8 list" where
  "control_body_bytes (SetEndpointIdRequest a b) = [a, b]"
| "control_body_bytes (SetEndpointIdResponse a b c) = [a, b, c]"
| "control_body_bytes GetEndpointIdRequest = []"
| "control_body_bytes (GetEndpointIdResponse a b c) = [a, b, c]"

lemma control_flags:
  fixes i b :: u8 and r d :: bool
  assumes "i < 32"
  defines "b \<equiv> push_bit 7 (of_bool r) OR push_bit 6 (of_bool d) OR (i AND 0x1F)"
  shows "b AND 0x80 \<noteq> 0 \<longleftrightarrow> r" and "b AND 0x40 \<noteq> 0 \<longleftrightarrow> d" and "b AND 0x1F = i"
proof -
  have m: "(0x1F :: u8) = mask 5" "(0x80 :: u8) = 2 ^ 7" "(0x40 :: u8) = 2 ^ 6"
    by (simp_all add: mask_eq_exp_minus_1)
  have i: "\<not> bit i n" if "5 \<le> n" for n
    using bit_u8_small[of i 5 n] assms(1) that by simp
  have bits: "bit b n \<longleftrightarrow> (n = 7 \<and> r) \<or> (n = 6 \<and> d) \<or> (n < 5 \<and> bit i n)" for n
    by (auto simp: b_def m(1) bit_or_iff bit_and_iff bit_push_bit_iff bit_mask_iff bit_of_bool_iff)
  show "b AND 0x80 \<noteq> 0 \<longleftrightarrow> r"
    using bits[of 7] unfolding m(2) and_exp_eq_0_iff_not_bit by simp
  show "b AND 0x40 \<noteq> 0 \<longleftrightarrow> d"
    using bits[of 6] unfolding m(3) and_exp_eq_0_iff_not_bit by simp
  show "b AND 0x1F = i"
    by (rule bit_word_eqI) (use i not_le in \<open>auto simp: m(1) bit_and_iff bit_mask_iff bits\<close>)
qed

lemma control_header_read:
  assumes "instance_id h < 32" and "request_bit h \<longrightarrow> completion_code h = Success"
    and "completion_code h \<notin> CommandSpecific ` {x. x < 0x80}"
  shows "control_header_deserialize (control_header_bytes h @ bs) = Inr (h, bs)"
proof -
  define f where "f = push_bit 7 (of_bool (request_bit h)) OR push_bit 6 (of_bool (datagram_bit h))
      OR (instance_id h AND 0x1F)"
  note flags = control_flags[OF assms(1), of "request_bit h" "datagram_bit h", folded f_def]
  have bytes: "control_header_bytes h
      = [f, command_code_to_u8 (command_code h), completion_code_to_u8 (completion_code h)]"
    by (simp only: control_header_bytes_def f_def)
  have "command_code_try_from (command_code_to_u8 (command_code h)) = Some (command_code h)"
    by (simp add: command_code_find)
  moreover have "completion_code_try_from (completion_code_to_u8 (completion_code h)) = Inr (completion_code h)"
    using assms(3) by (simp add: completion_code_read)
  ultimately show ?thesis
    using assms(2) flags
    by (simp add: control_header_deserialize_def bytes Let_def
        check_request_and_completion_code_def)
qed

interpretation control: message_codec control_kind control_fits control_header_bytes control_body_bytes
proof
  fix h m buffer bs
  assume fits: "control_fits h m"
  show "kind_header_serialize control_kind h buffer
      = Inr (length (control_header_bytes h), control_header_bytes h @ drop (length (control_header_bytes h)) buffer)"
    if len: "length (control_header_bytes h) \<le> length buffer"
  proof -
    obtain x y z zs where "buffer = x # y # z # zs"
      using len by (auto simp: control_header_bytes_def numeral_3_eq_3 Suc_le_length_iff)
    then show ?thesis
      using fits by (auto simp: control_kind_def control_header_serialize_def control_header_bytes_def
          control_fits_def check_request_and_completion_code_def numeral_2_eq_2)
  qed
  show "kind_serialize control_kind m buffer
      = Inr (length (control_body_bytes m), control_body_bytes m @ drop (length (control_body_bytes m)) buffer)"
    if "length (control_body_bytes m) \<le> length buffer"
    using that by (cases m) (auto simp: control_kind_def copy_and_check_len_def)
  show "kind_header_deserialize control_kind (control_header_bytes h @ bs) = Inr (h, bs)"
    using fits by (simp add: control_kind_def control_header_read control_fits_def)
  show "kind_deserialize control_kind h (control_body_bytes m) = Inr m"
    using fits by (cases m) (auto simp: control_kind_def control_deserialize_def control_fits_def)
qed (simp add: control_kind_def)

fun vendor_header_bytes :: "VendorDefinedPciHeader \<Rightarrow> u8 list" where
  "vendor_header_bytes (VendorDefinedPciHeader v) = [u16_msb v, u16_lsb v]"

fun vendor_body_bytes :: "VendorDefinedPci \<Rightarrow> u8 list" where
  "vendor_body_bytes (VendorDefinedPci data) = data"

interpretation vendor: message_codec vendor_kind "\<lambda>_ _. True" vendor_header_bytes vendor_body_bytes
proof
  fix h :: VendorDefinedPciHeader and b :: VendorDefinedPci and buffer bs :: "u8 list"
  show "kind_header_serialize vendor_kind h buffer
      = Inr (length (vendor_header_bytes h), vendor_header_bytes h @ drop (length (vendor_header_bytes h)) buffer)"
    if "length (vendor_header_bytes h) \<le> length buffer"
    using that by (cases h) (simp add: vendor_kind_def numeral_2_eq_2)
  show "kind_serialize vendor_kind b buffer
      = Inr (length (vendor_body_bytes b), vendor_body_bytes b @ drop (length (vendor_body_bytes b)) buffer)"
    if "length (vendor_body_bytes b) \<le> length buffer"
    using that by (cases b) (simp add: vendor_kind_def)
  show "kind_header_deserialize vendor_kind (vendor_header_bytes h @ bs) = Inr (h, bs)"
    by (cases h) (simp add: vendor_kind_def)
  show "kind_deserialize vendor_kind h (vendor_body_bytes b) = Inr b"
    by (cases b) (simp add: vendor_kind_def vendor_deserialize_def)
qed (simp add: vendor_kind_def)

subsection \<open>Properties\<close>

text \<open>A well-formed control message (a five-bit instance id, no error code on a request, body and
  command code that belong together) survives: what \<open>serialize_packet\<close> puts into the message buffer
  is, once it has been received as a message, parsed back to the same header and body.\<close>

theorem control_message_roundtrip:
  assumes "control_fits h m" and "assembly_state ctx = AssemblyIdle" and "7 \<le> length (packet_assembly_buffer ctx)"
  shows "\<exists>s ctx'. serialize_message control_kind rc (h, m) ctx = Some (Inr s, ctx')
    \<and> (\<forall>msg. message_of rc (sps_message_buffer s) msg \<longrightarrow> parse_as control_kind msg = Inr (h, m))"
proof -
  have "1 + length (control_header_bytes h) + length (control_body_bytes m) \<le> length (packet_assembly_buffer ctx)"
    using assms(3) by (cases m) (simp_all add: control_header_bytes_def)
  from control.serialized[OF assms(1,2) this, of rc] show ?thesis
    using control.parsed[OF assms(1)] by fastforce
qed

text \<open>A request that reports anything but success is refused by both sides.\<close>

theorem control_request_with_error_refused:
  assumes "completion_code h \<noteq> Success" and "request_bit h" and "3 \<le> length buffer"
  shows "control_header_serialize h buffer = Inl (ProtocolErr (CompletionCodeOnRequestMessage (completion_code h)))
    \<and> (\<forall>h' bs. control_header_deserialize buffer = Inr (h', bs) \<longrightarrow> request_bit h' \<longrightarrow> completion_code h' = Success)"
  using assms
  by (auto simp: control_header_serialize_def control_header_deserialize_def check_request_and_completion_code_def
      Let_def split: option.splits sum.splits if_splits)

text \<open>The two properties at a request for an endpoint id; \<open>arrived\<close> is the message as the receiver holds it.\<close>

definition get_endpoint_id_header :: MctpControlHeader where
  "get_endpoint_id_header = \<lparr>request_bit = True, datagram_bit = False, instance_id = 9,
     command_code = GetEndpointId, completion_code = Success\<rparr>"

definition arrived :: "'rc MctpReplyContext \<Rightarrow> u8 list \<Rightarrow> 'rc MctpMessage" where
  "arrived rc bs =
     \<lparr>reply_context = rc\<lparr>rc_destination_endpoint_id := rc_source_endpoint_id rc,
                         rc_source_endpoint_id := rc_destination_endpoint_id rc\<rparr>,
      message_buffer = \<lparr>integrity_check = hd bs AND 0x80, message_type = hd bs AND 0x7F, rest = tl bs\<rparr>,
      message_integrity_check = None\<rparr>"

theorem control_message_roundtrip_witness:
  "\<exists>s ctx'. serialize_message control_kind (sps_reply_context (demo_sender []))
       (get_endpoint_id_header, GetEndpointIdRequest) (packet_context_new (replicate 20 0)) = Some (Inr s, ctx')
    \<and> parse_as control_kind (arrived (sps_reply_context (demo_sender [])) (sps_message_buffer s))
        = Inr (get_endpoint_id_header, GetEndpointIdRequest)"
proof -
  have "control_fits get_endpoint_id_header GetEndpointIdRequest"
    by (auto simp: control_fits_def get_endpoint_id_header_def)
  moreover have "assembly_state (packet_context_new (replicate 20 0)) = AssemblyIdle"
    "7 \<le> length (packet_assembly_buffer (packet_context_new (replicate 20 0)))"
    by (simp_all add: packet_context_new_def)
  ultimately obtain s ctx' where
    "serialize_message control_kind (sps_reply_context (demo_sender []))
       (get_endpoint_id_header, GetEndpointIdRequest) (packet_context_new (replicate 20 0)) = Some (Inr s, ctx')"
    and parsed: "\<And>msg :: SmbusEspiReplyContext MctpMessage.
      message_of (sps_reply_context (demo_sender [])) (sps_message_buffer s) msg
        \<Longrightarrow> parse_as control_kind msg = Inr (get_endpoint_id_header, GetEndpointIdRequest)"
    using control_message_roundtrip by blast
  moreover have "message_of (sps_reply_context (demo_sender [])) (sps_message_buffer s)
      (arrived (sps_reply_context (demo_sender [])) (sps_message_buffer s))"
    by (simp add: message_of_def arrived_def)
  ultimately show ?thesis using parsed by blast
qed

theorem control_request_with_error_refused_witness:
  "control_header_serialize (get_endpoint_id_header\<lparr>completion_code := ErrorNotReady\<rparr>) [0, 0, 0]
     = Inl (ProtocolErr (CompletionCodeOnRequestMessage ErrorNotReady))"
  using control_request_with_error_refused
    [of "get_endpoint_id_header\<lparr>completion_code := ErrorNotReady\<rparr>" "[0, 0, 0]"]
  by (simp add: get_endpoint_id_header_def)

end
