(* ===== verification/Relay_Mctp.thy ===== *)
theory Relay_Mctp
  imports Mctp_Messages
begin

text \<open>
  Messages of the services relayed over MCTP: \<open>embedded-service/src/relay/mctp.rs\<close>. A
  \<open>SerializableMessage\<close> type is a record of its three functions. The macro
  \<open>impl_odp_mctp_relay_handler\<close> is a function of its service list: \<open>'s\<close> names the services, and the
  requests and results of all services have one type each, of which a service uses its part.
\<close>

subsection \<open>Serializable messages\<close>

datatype MessageSerializationError =
    InvalidPayload string
  | UnknownMessageDiscriminant u16
  | BufferTooSmall
  | OtherError string

type_synonym message_writer = "u8 list \<Rightarrow> (MessageSerializationError, nat \<times> u8 list) result"

record 'm serializable =
  sm_serialize :: "'m \<Rightarrow> message_writer"
  sm_discriminant :: "'m \<Rightarrow> u16"
  sm_deserialize :: "u16 \<Rightarrow> u8 list \<Rightarrow> (MessageSerializationError, 'm) result"

definition result_discriminant :: "'t serializable \<Rightarrow> 'e serializable \<Rightarrow> ('e, 't) result \<Rightarrow> u16" where
  "result_discriminant T E r = (case r of Inr t \<Rightarrow> sm_discriminant T t | Inl e \<Rightarrow> sm_discriminant E e)"

definition result_serialize :: "'t serializable \<Rightarrow> 'e serializable \<Rightarrow> ('e, 't) result \<Rightarrow> message_writer" where
  "result_serialize T E r = (case r of Inr t \<Rightarrow> sm_serialize T t | Inl e \<Rightarrow> sm_serialize E e)"

definition result_deserialize ::
  "'t serializable \<Rightarrow> 'e serializable \<Rightarrow> bool \<Rightarrow> u16 \<Rightarrow> u8 list
     \<Rightarrow> (MessageSerializationError, ('e, 't) result) result" where
  "result_deserialize T E is_error d buffer =
     (if is_error then map_sum (\<lambda>e. e) Inl (sm_deserialize E d buffer)
      else map_sum (\<lambda>e. e) Inr (sm_deserialize T d buffer))"

subsection \<open>The relay of a list of services\<close>

record ('s, 'rq, 't, 'e) relay =
  services :: "'s list"
  service_name :: "'s \<Rightarrow> string"
  service_id :: "'s \<Rightarrow> u8"
  request_codec :: "'s \<Rightarrow> 'rq serializable"
  success_codec :: "'s \<Rightarrow> 't serializable"
  error_codec :: "'s \<Rightarrow> 'e serializable"

definition odp_service_try_from :: "('s, 'rq, 't, 'e) relay \<Rightarrow> u8 \<Rightarrow> (u8, 's) result" where
  "odp_service_try_from R v =
     (case find (\<lambda>s. service_id R s = v) (services R) of Some s \<Rightarrow> Inr s | None \<Rightarrow> Inl v)"

datatype OdpMessageType = Request | Result bool

record 's OdpHeader =
  odp_message_type :: OdpMessageType
  odp_service :: 's
  odp_message_id :: u16

text \<open>The \<open>bitfield!\<close> \<open>OdpHeaderWireFormat\<close>: a setter keeps the bits its field has room for.\<close>

definition wire_new :: "bool \<Rightarrow> u8 \<Rightarrow> bool \<Rightarrow> u16 \<Rightarrow> u32" where
  "wire_new is_request service is_error message_id =
     push_bit 25 (of_bool is_request) OR push_bit 16 (ucast service) OR push_bit 15 (of_bool is_error)
       OR (ucast message_id AND 0x7FFF)"

definition wire_is_request :: "u32 \<Rightarrow> bool" where "wire_is_request w = bit w 25"
definition wire_service_id :: "u32 \<Rightarrow> u8" where "wire_service_id w = ucast (drop_bit 16 w)"
definition wire_is_error :: "u32 \<Rightarrow> bool" where "wire_is_error w = bit w 15"
definition wire_message_id :: "u32 \<Rightarrow> u16" where "wire_message_id w = ucast (w AND 0x7FFF)"

definition wire_from_header :: "('s, 'rq, 't, 'e) relay \<Rightarrow> 's OdpHeader \<Rightarrow> u32" where
  "wire_from_header R h =
     wire_new (odp_message_type h = Request) (service_id R (odp_service h))
       (case odp_message_type h of Request \<Rightarrow> False | Result is_error \<Rightarrow> is_error) (odp_message_id h)"

definition header_try_from :: "('s, 'rq, 't, 'e) relay \<Rightarrow> u32 \<Rightarrow> (MctpPacketError, 's OdpHeader) result" where
  "header_try_from R w =
     (case odp_service_try_from R (wire_service_id w) of
        Inl _ \<Rightarrow> Inl (HeaderParseError ''invalid odp service in odp header'')
      | Inr service \<Rightarrow>
          Inr \<lparr>odp_message_type = (if wire_is_request w then Request else Result (wire_is_error w)),
               odp_service = service, odp_message_id = wire_message_id w\<rparr>)"

definition odp_header_serialize :: "('s, 'rq, 't, 'e) relay \<Rightarrow> 's OdpHeader \<Rightarrow> slice_writer" where
  "odp_header_serialize R h buffer =
     (if length buffer < 4 then Inl (SerializeError ''buffer too small for odp header'')
      else Inr (4, to_be_bytes (wire_from_header R h) @ drop 4 buffer))"

definition odp_header_deserialize ::
  "('s, 'rq, 't, 'e) relay \<Rightarrow> u8 list \<Rightarrow> (MctpPacketError, 's OdpHeader \<times> u8 list) result" where
  "odp_header_deserialize R buffer =
     (if length buffer < 4 then Inl (HeaderParseError ''buffer too small for odp header'')
      else case header_try_from R (from_be_bytes (take 4 buffer)) of
             Inl _ \<Rightarrow> Inl (HeaderParseError ''invalid odp header received'')
           | Inr h \<Rightarrow> Inr (h, drop 4 buffer))"

datatype ('s, 'rq) HostRequest = HostRequest 's 'rq
datatype ('s, 't, 'e) HostResult = HostResult 's "('e, 't) result"

fun host_request_serialize :: "('s, 'rq, 't, 'e) relay \<Rightarrow> ('s, 'rq) HostRequest \<Rightarrow> slice_writer" where
  "host_request_serialize R (HostRequest s request) buffer =
     map_sum (\<lambda>_. SerializeError (''Failed to serialize '' @ service_name R s @ '' request'')) (\<lambda>r. r)
       (sm_serialize (request_codec R s) request buffer)"

definition host_request_deserialize ::
  "('s, 'rq, 't, 'e) relay \<Rightarrow> 's OdpHeader \<Rightarrow> u8 list \<Rightarrow> (MctpPacketError, ('s, 'rq) HostRequest) result" where
  "host_request_deserialize R h buffer =
     map_sum (\<lambda>_. CommandParseError (''Could not parse '' @ service_name R (odp_service h) @ '' request''))
       (HostRequest (odp_service h)) (sm_deserialize (request_codec R (odp_service h)) (odp_message_id h) buffer)"

fun create_header :: "('s, 'rq, 't, 'e) relay \<Rightarrow> 's \<Rightarrow> ('s, 't, 'e) HostResult \<Rightarrow> 's OdpHeader" where
  "create_header R service (HostResult s result) =
     \<lparr>odp_message_type = Result (\<not> is_ok result), odp_service = service,
      odp_message_id = result_discriminant (success_codec R s) (error_codec R s) result\<rparr>"

fun host_result_serialize :: "('s, 'rq, 't, 'e) relay \<Rightarrow> ('s, 't, 'e) HostResult \<Rightarrow> slice_writer" where
  "host_result_serialize R (HostResult s result) buffer =
     map_sum (\<lambda>_. SerializeError (''Failed to serialize '' @ service_name R s @ '' result'')) (\<lambda>r. r)
       (result_serialize (success_codec R s) (error_codec R s) result buffer)"

definition host_result_deserialize ::
  "('s, 'rq, 't, 'e) relay \<Rightarrow> 's OdpHeader \<Rightarrow> u8 list \<Rightarrow> (MctpPacketError, ('s, 't, 'e) HostResult) result" where
  "host_result_deserialize R h buffer =
     (let s = odp_service h
      in case odp_message_type h of
           Request \<Rightarrow> Inl (CommandParseError (''Received '' @ service_name R s @ '' request when expecting result''))
         | Result is_error \<Rightarrow>
             map_sum (\<lambda>_. CommandParseError (''Could not parse '' @ service_name R s @ '' result'')) (HostResult s)
               (result_deserialize (success_codec R s) (error_codec R s) is_error (odp_message_id h) buffer))"

definition host_request_kind :: "('s, 'rq, 't, 'e) relay \<Rightarrow> ('s OdpHeader, ('s, 'rq) HostRequest) message_kind" where
  "host_request_kind R =
     \<lparr>MESSAGE_TYPE = 0x7D, kind_header_serialize = odp_header_serialize R,
      kind_serialize = host_request_serialize R, kind_header_deserialize = odp_header_deserialize R,
      kind_deserialize = host_request_deserialize R\<rparr>"

definition host_result_kind :: "('s, 'rq, 't, 'e) relay \<Rightarrow> ('s OdpHeader, ('s, 't, 'e) HostResult) message_kind" where
  "host_result_kind R =
     \<lparr>MESSAGE_TYPE = 0x7D, kind_header_serialize = odp_header_serialize R,
      kind_serialize = host_result_serialize R, kind_header_deserialize = odp_header_deserialize R,
      kind_deserialize = host_result_deserialize R\<rparr>"

text \<open>\<open>process_request\<close> of the generated handler, over the handlers of the services.\<close>

fun relay_process_request ::
  "('s \<Rightarrow> 'rq \<Rightarrow> 'st \<Rightarrow> ('e, 't) result \<times> 'st) \<Rightarrow> ('s, 'rq) HostRequest \<Rightarrow> 'st \<Rightarrow> ('s, 't, 'e) HostResult \<times> 'st" where
  "relay_process_request handler (HostRequest s request) st =
     (case handler s request st of (result, st) \<Rightarrow> (HostResult s result, st))"

subsection \<open>Headers\<close>

lemma wire_fields [simp]:
  "wire_is_request (wire_new r s e m) = r" "wire_service_id (wire_new r s e m) = s"
  "wire_is_error (wire_new r s e m) = e" "wire_message_id (wire_new r s e m) = m AND 0x7FFF"
proof -
  have mask: "(0x7FFF :: u32) = mask 15" "(0x7FFF :: u16) = mask 15" by (simp_all add: mask_eq_exp_minus_1)
  note bits = wire_new_def mask bit_or_iff bit_and_iff bit_push_bit_iff bit_mask_iff bit_of_bool_iff bit_unsigned_iff
  have s: "\<not> bit s n" if "8 \<le> n" for n using that bit_imp_le_length[of s n] by auto
  show "wire_is_request (wire_new r s e m) = r" "wire_is_error (wire_new r s e m) = e"
    using s by (auto simp: wire_is_request_def wire_is_error_def bits)
  show "wire_service_id (wire_new r s e m) = s"
    by (rule bit_word_eqI) (auto simp: wire_service_id_def bits bit_drop_bit_eq)
  show "wire_message_id (wire_new r s e m) = m AND 0x7FFF"
    by (rule bit_word_eqI) (auto simp: wire_message_id_def bits)
qed

text \<open>Two gaps: a request is parsed whatever its header says it is, and a discriminant loses its top bit.\<close>

lemma message_type_ignored:
  "host_request_deserialize R (h\<lparr>odp_message_type := t\<rparr>) buffer = host_request_deserialize R h buffer"
  by (simp add: host_request_deserialize_def)

lemma long_discriminants_collide: "wire_message_id (wire_new r s e (m OR 0x8000)) = wire_message_id (wire_new r s e m)"
  by (simp add: bit.conj_disj_distrib2)

subsection \<open>The contract of a message type and of a relay\<close>

text \<open>A message type promises to write fixed bytes to any buffer with room for them, and to read the message
  back from these bytes and its discriminant, which fits into the header.\<close>

locale serializable_message =
  fixes P :: "'m serializable" and fits :: "'m \<Rightarrow> bool" and bytes :: "'m \<Rightarrow> u8 list"
  assumes message_written: "fits m \<Longrightarrow> length (bytes m) \<le> length buffer \<Longrightarrow>
      sm_serialize P m buffer = Inr (length (bytes m), bytes m @ drop (length (bytes m)) buffer)"
    and message_read: "fits m \<Longrightarrow> sm_deserialize P (sm_discriminant P m) (bytes m) = Inr m"
    and discriminant_fits: "fits m \<Longrightarrow> sm_discriminant P m AND 0x7FFF = sm_discriminant P m"

text \<open>The header and the requests and results that the relay carries, and their bytes.\<close>

definition odp_header_bytes :: "('s, 'rq, 't, 'e) relay \<Rightarrow> 's OdpHeader \<Rightarrow> u8 list" where
  "odp_header_bytes R h = to_be_bytes (wire_from_header R h)"

fun request_fits ::
  "('s, 'rq, 't, 'e) relay \<Rightarrow> ('s \<Rightarrow> 'rq \<Rightarrow> bool) \<Rightarrow> 's OdpHeader \<Rightarrow> ('s, 'rq) HostRequest \<Rightarrow> bool" where
  "request_fits R rq_fits h (HostRequest s rq) \<longleftrightarrow> s \<in> set (services R) \<and> rq_fits s rq
     \<and> h = \<lparr>odp_message_type = Request, odp_service = s, odp_message_id = sm_discriminant (request_codec R s) rq\<rparr>"

fun request_bytes :: "('s \<Rightarrow> 'rq \<Rightarrow> u8 list) \<Rightarrow> ('s, 'rq) HostRequest \<Rightarrow> u8 list" where
  "request_bytes rq_bytes (HostRequest s rq) = rq_bytes s rq"

fun result_fits ::
  "('s, 'rq, 't, 'e) relay \<Rightarrow> ('s \<Rightarrow> 't \<Rightarrow> bool) \<Rightarrow> ('s \<Rightarrow> 'e \<Rightarrow> bool) \<Rightarrow> 's OdpHeader
     \<Rightarrow> ('s, 't, 'e) HostResult \<Rightarrow> bool" where
  "result_fits R ok_fits err_fits h (HostResult s r) \<longleftrightarrow> s \<in> set (services R)
     \<and> h = create_header R s (HostResult s r) \<and> (case r of Inr t \<Rightarrow> ok_fits s t | Inl e \<Rightarrow> err_fits s e)"

fun result_bytes ::
  "('s \<Rightarrow> 't \<Rightarrow> u8 list) \<Rightarrow> ('s \<Rightarrow> 'e \<Rightarrow> u8 list) \<Rightarrow> ('s, 't, 'e) HostResult \<Rightarrow> u8 list" where
  "result_bytes ok_bytes err_bytes (HostResult s r) = (case r of Inr t \<Rightarrow> ok_bytes s t | Inl e \<Rightarrow> err_bytes s e)"

lemma length_odp_header_bytes [simp]: "length (odp_header_bytes R h) = 4"
  by (simp add: odp_header_bytes_def)

lemma odp_header_written:
  "4 \<le> length buffer \<Longrightarrow> odp_header_serialize R h buffer = Inr (4, odp_header_bytes R h @ drop 4 buffer)"
  by (simp add: odp_header_serialize_def odp_header_bytes_def)

locale relay_services =
  fixes R :: "('s, 'rq, 't, 'e) relay"
    and rq_fits :: "'s \<Rightarrow> 'rq \<Rightarrow> bool" and rq_bytes :: "'s \<Rightarrow> 'rq \<Rightarrow> u8 list"
    and ok_fits :: "'s \<Rightarrow> 't \<Rightarrow> bool" and ok_bytes :: "'s \<Rightarrow> 't \<Rightarrow> u8 list"
    and err_fits :: "'s \<Rightarrow> 'e \<Rightarrow> bool" and err_bytes :: "'s \<Rightarrow> 'e \<Rightarrow> u8 list"
  assumes requests: "s \<in> set (services R) \<Longrightarrow> serializable_message (request_codec R s) (rq_fits s) (rq_bytes s)"
    and successes: "s \<in> set (services R) \<Longrightarrow> serializable_message (success_codec R s) (ok_fits s) (ok_bytes s)"
    and errors: "s \<in> set (services R) \<Longrightarrow> serializable_message (error_codec R s) (err_fits s) (err_bytes s)"
    and ids_differ: "inj_on (service_id R) (set (services R))"
begin

lemma service_found: "s \<in> set (services R) \<Longrightarrow> odp_service_try_from R (service_id R s) = Inr s"
proof -
  assume s: "s \<in> set (services R)"
  then obtain s' where s': "find (\<lambda>s'. service_id R s' = service_id R s) (services R) = Some s'"
    by (cases "find (\<lambda>s'. service_id R s' = service_id R s) (services R)") (auto simp: find_None_iff)
  then have "s' \<in> set (services R)" "service_id R s' = service_id R s" by (auto simp: find_Some_iff)
  then show ?thesis using s s' ids_differ by (auto simp: odp_service_try_from_def inj_on_def)
qed

lemma header_read:
  assumes "odp_service h \<in> set (services R)" and "odp_message_id h AND 0x7FFF = odp_message_id h"
  shows "odp_header_deserialize R (odp_header_bytes R h @ bs) = Inr (h, bs)"
  using assms service_found
  by (cases h; cases "odp_message_type h")
    (auto simp: odp_header_deserialize_def odp_header_bytes_def header_try_from_def wire_from_header_def)

end

sublocale relay_services \<subseteq> request: message_codec "host_request_kind R" "request_fits R rq_fits"
    "odp_header_bytes R" "request_bytes rq_bytes"
proof
  fix h b buffer bs
  assume fits: "request_fits R rq_fits h b"
  obtain s rq where b: "b = HostRequest s rq" by (cases b)
  with fits have s: "s \<in> set (services R)" "rq_fits s rq"
    and h: "h = \<lparr>odp_message_type = Request, odp_service = s, odp_message_id = sm_discriminant (request_codec R s) rq\<rparr>"
    by simp_all
  note law = requests[OF s(1)]
  show "kind_header_serialize (host_request_kind R) h buffer
      = Inr (length (odp_header_bytes R h), odp_header_bytes R h @ drop (length (odp_header_bytes R h)) buffer)"
    if "length (odp_header_bytes R h) \<le> length buffer"
    using that by (simp add: host_request_kind_def odp_header_written)
  show "kind_serialize (host_request_kind R) b buffer
      = Inr (length (request_bytes rq_bytes b), request_bytes rq_bytes b @ drop (length (request_bytes rq_bytes b)) buffer)"
    if "length (request_bytes rq_bytes b) \<le> length buffer"
    using that serializable_message.message_written[OF law s(2)] by (simp add: host_request_kind_def b)
  show "kind_header_deserialize (host_request_kind R) (odp_header_bytes R h @ bs) = Inr (h, bs)"
    using header_read s serializable_message.discriminant_fits[OF law s(2)] by (simp add: host_request_kind_def h)
  show "kind_deserialize (host_request_kind R) h (request_bytes rq_bytes b) = Inr b"
    using serializable_message.message_read[OF law s(2)]
    by (simp add: host_request_kind_def host_request_deserialize_def b h)
qed (simp add: host_request_kind_def)

context relay_services
begin

lemma request_law:
  "message_codec (host_request_kind R) (request_fits R rq_fits) (odp_header_bytes R) (request_bytes rq_bytes)"
  by (rule request.message_codec_axioms)

end

sublocale relay_services \<subseteq> outcome: message_codec "host_result_kind R" "result_fits R ok_fits err_fits"
    "odp_header_bytes R" "result_bytes ok_bytes err_bytes"
proof
  fix h b buffer bs
  assume fits: "result_fits R ok_fits err_fits h b"
  obtain s r where b: "b = HostResult s r" by (cases b)
  with fits have s: "s \<in> set (services R)" and h: "h = create_header R s (HostResult s r)"
    and r: "case r of Inr t \<Rightarrow> ok_fits s t | Inl e \<Rightarrow> err_fits s e"
    by simp_all
  note ok = successes[OF s] and err = errors[OF s]
  show "kind_header_serialize (host_result_kind R) h buffer
      = Inr (length (odp_header_bytes R h), odp_header_bytes R h @ drop (length (odp_header_bytes R h)) buffer)"
    if "length (odp_header_bytes R h) \<le> length buffer"
    using that by (simp add: host_result_kind_def odp_header_written)
  show "kind_serialize (host_result_kind R) b buffer = Inr (length (result_bytes ok_bytes err_bytes b),
      result_bytes ok_bytes err_bytes b @ drop (length (result_bytes ok_bytes err_bytes b)) buffer)"
    if "length (result_bytes ok_bytes err_bytes b) \<le> length buffer"
    using that r serializable_message.message_written[OF ok] serializable_message.message_written[OF err]
    by (simp add: host_result_kind_def b result_serialize_def split: sum.splits)
  show "kind_header_deserialize (host_result_kind R) (odp_header_bytes R h @ bs) = Inr (h, bs)"
    using header_read s r serializable_message.discriminant_fits[OF ok] serializable_message.discriminant_fits[OF err]
    by (simp add: host_result_kind_def h result_discriminant_def split: sum.splits)
  show "kind_deserialize (host_result_kind R) h (result_bytes ok_bytes err_bytes b) = Inr b"
    using r serializable_message.message_read[OF ok] serializable_message.message_read[OF err]
    by (cases r) (simp_all add: host_result_kind_def host_result_deserialize_def b h result_deserialize_def
        result_discriminant_def Let_def)
qed (simp add: host_result_kind_def)

context relay_services
begin

lemma outcome_law: "message_codec (host_result_kind R) (result_fits R ok_fits err_fits) (odp_header_bytes R)
    (result_bytes ok_bytes err_bytes)"
  by (rule outcome.message_codec_axioms)

end

end
