(* ===== verification/Uart_Service.thy ===== *)
theory Uart_Service
  imports Mctp_Framing Relay_Mctp
begin

text \<open>
  The UART service: \<open>uart-service/src/lib.rs\<close> and \<open>task.rs\<close>. The medium, the header conversion, the
  relay and the handlers of its services are parameters. The UART driver is a \<open>port\<close>: \<open>rx\<close> lists what
  the reads to come find, an error or the bytes at hand, of which a read takes as many as it has room
  for; a read of \<open>Inr []\<close> is one of length 0, and when the list is empty the read waits. \<open>tx_faults\<close>
  tells which of the next calls of \<open>write_all\<close> fail; what a failing call has written is not modelled.
\<close>

definition BUF_SIZE :: nat where "BUF_SIZE = 256"
definition HOST_TX_QUEUE_SIZE :: nat where "HOST_TX_QUEUE_SIZE = 5"

datatype UartError =
    Comms
  | Uart
  | Mctp MctpPacketError
  | Serialize string

record port =
  rx :: "(unit, u8 list) result list"
  tx :: "u8 list"
  tx_faults :: "bool list"

record ('s, 't, 'e) HostResultMessage =
  handler_service_id :: 's
  message :: "('s, 't, 'e) HostResult"

record ('s, 't, 'e, 'st, 'rc) UartService =
  host_tx_queue :: "('s, 't, 'e) HostResultMessage list"
  relay_handler :: 'st
  stored_reply_context :: "'rc MctpReplyContext"

definition uart_new :: "'st \<Rightarrow> 'rc MctpReplyContext \<Rightarrow> ('s, 't, 'e, 'st, 'rc) UartService" where
  "uart_new st rc = \<lparr>host_tx_queue = [], relay_handler = st, stored_reply_context = rc\<rparr>"

definition SP_EID :: EndpointId where "SP_EID = Id 0x08"
definition EC_EID :: EndpointId where "EC_EID = Id 0x0A"

definition default_mctp_serial :: "'st \<Rightarrow> ('s, 't, 'e, 'st, unit) UartService" where
  "default_mctp_serial st =
     uart_new st
       \<lparr>rc_destination_endpoint_id = SP_EID, rc_source_endpoint_id = EC_EID,
        rc_packet_sequence_number = MctpSequenceNumber 0, rc_message_tag = MctpMessageTag 0,
        medium_context = ()\<rparr>" \<comment> \<open>sends to \<open>SP_EID\<close> until a response overrides it\<close>

subsection \<open>Requests\<close>

definition uart_read :: "nat \<Rightarrow> port \<Rightarrow> ((unit, u8 list) result \<times> port) option" where
  "uart_read n p =
     (case rx p of
        [] \<Rightarrow> None
      | Inl e # rs \<Rightarrow> Some (Inl e, p\<lparr>rx := rs\<rparr>)
      | Inr bs # rs \<Rightarrow>
          Some (Inr (take n bs), p\<lparr>rx := (if length bs \<le> n then rs else Inr (drop n bs) # rs)\<rparr>))"

text \<open>The loop that reads a frame: its length and the bytes read so far. \<open>None\<close> waits.\<close>

function read_frame ::
  "('frame, 'rc, 'c) medium \<Rightarrow> u8 list \<Rightarrow> port \<Rightarrow> ((UartError, nat \<times> u8 list) result \<times> port) option" where
  "read_frame M buf p =
     (if BUF_SIZE \<le> length buf then Some (Inl (Serialize ''frame exceeds BUF_SIZE''), p)
      else case uart_read (BUF_SIZE - length buf) p of
             None \<Rightarrow> None
           | Some (Inl _, p) \<Rightarrow> Some (Inl Uart, p)
           | Some (Inr [], p) \<Rightarrow> Some (Inl Comms, p)
           | Some (Inr (b # bs), p) \<Rightarrow>
               (case frame_complete M (buf @ b # bs) of
                  Inl e \<Rightarrow> Some (Inl (Mctp e), p)
                | Inr (Some len) \<Rightarrow> Some (Inr (len, buf @ b # bs), p)
                | Inr None \<Rightarrow> read_frame M (buf @ b # bs) p))"
  by pat_completeness auto
termination by (relation "measure (\<lambda>(_, buf, _). BUF_SIZE - length buf)") auto

declare read_frame.simps [simp del]

definition handle_frame ::
  "('frame, 'rc, 'c) medium \<Rightarrow> header_codec \<Rightarrow> ('s, 'rq, 't, 'e) relay
     \<Rightarrow> ('s \<Rightarrow> 'rq \<Rightarrow> 'st \<Rightarrow> ('e, 't) result \<times> 'st) \<Rightarrow> nat \<Rightarrow> u8 list
     \<Rightarrow> (('s, 't, 'e, 'st, 'rc) UartService, UartError, unit) action" where
  "handle_frame M hc R handler packet_len buf s =
     (if length buf < packet_len then (Inl (Serialize ''frame exceeds BUF_SIZE''), s)
      else case fst (deserialize_packet M hc (take packet_len buf) (packet_context_new (replicate BUF_SIZE 0))) of
             Inl e \<Rightarrow> (Inl (Mctp e), s)
           | Inr None \<Rightarrow> (Inl (Serialize ''Partial message not supported''), s)
           | Inr (Some msg) \<Rightarrow>
               (case parse_as (host_request_kind R) msg of
                  Inl e \<Rightarrow> (Inl (Mctp e), s)
                | Inr (header, body) \<Rightarrow>
                    (case relay_process_request handler body (relay_handler s) of
                       (response, st) \<Rightarrow>
                         (let s = s\<lparr>relay_handler := st\<rparr>
                          in if HOST_TX_QUEUE_SIZE \<le> length (host_tx_queue s) then (Inl Comms, s)
                             else (Inr (), s\<lparr>host_tx_queue := host_tx_queue s
                                      @ [\<lparr>handler_service_id = odp_service header, message = response\<rparr>]\<rparr>)))))"

definition wait_for_request ::
  "('frame, 'rc, 'c) medium \<Rightarrow> header_codec \<Rightarrow> ('s, 'rq, 't, 'e) relay
     \<Rightarrow> ('s \<Rightarrow> 'rq \<Rightarrow> 'st \<Rightarrow> ('e, 't) result \<times> 'st) \<Rightarrow> port \<Rightarrow> ('s, 't, 'e, 'st, 'rc) UartService
     \<Rightarrow> ((UartError, unit) result \<times> port \<times> ('s, 't, 'e, 'st, 'rc) UartService) option" where
  "wait_for_request M hc R handler p s =
     (case read_frame M [] p of
        None \<Rightarrow> None
      | Some (Inl e, p) \<Rightarrow> Some (Inl e, p, s)
      | Some (Inr (packet_len, filled), p) \<Rightarrow>
          (let buf = filled @ replicate (BUF_SIZE - length filled) 0
           in case handle_frame M hc R handler packet_len buf s of (r, s) \<Rightarrow> Some (r, p, s)))"

subsection \<open>Responses\<close>

definition uart_write_all :: "u8 list \<Rightarrow> (port, unit, unit) action" where
  "uart_write_all bs p =
     (case tx_faults p of
        True # fs \<Rightarrow> (Inl (), p\<lparr>tx_faults := fs\<rparr>)
      | _ \<Rightarrow> (Inr (), p\<lparr>tx := tx p @ bs, tx_faults := tl (tx_faults p)\<rparr>))"

text \<open>The loop over the packets; \<open>None\<close> when the fuel runs out.\<close>

fun send_packets ::
  "('frame, 'rc, capture) medium \<Rightarrow> header_codec \<Rightarrow> nat \<Rightarrow> 'rc SerializePacketState \<Rightarrow> port
     \<Rightarrow> ((UartError, unit) result \<times> port) option" where
  "send_packets M hc fuel packet_state p =
     (case next_packet M hc packet_state of
        (None, _) \<Rightarrow> Some (Inr (), p)
      | (Some (Inl e), _) \<Rightarrow> Some (Inl (Mctp e), p)
      | (Some (Inr packet), packet_state) \<Rightarrow>
          (case uart_write_all packet p of
             (Inl _, p) \<Rightarrow> Some (Inl Uart, p)
           | (Inr _, p) \<Rightarrow>
               (case fuel of 0 \<Rightarrow> None | Suc n \<Rightarrow> send_packets M hc n packet_state p)))"

declare send_packets.simps [simp del]

text \<open>\<open>None\<close> is a panic of \<open>serialize_packet\<close>, or that the packets have not ended after one per byte of
  the buffer.\<close>

definition process_response ::
  "('frame, 'rc, capture) medium \<Rightarrow> header_codec \<Rightarrow> ('s, 'rq, 't, 'e) relay \<Rightarrow> 'rc MctpReplyContext
     \<Rightarrow> ('s, 't, 'e) HostResultMessage \<Rightarrow> port \<Rightarrow> ((UartError, unit) result \<times> port) option" where
  "process_response M hc R stored response p =
     (let sid = handler_service_id response;
          reply_context = stored\<lparr>rc_destination_endpoint_id := Id (service_id R sid)\<rparr>;
          header = create_header R sid (message response)
      in case serialize_message (host_result_kind R) reply_context (header, message response)
                (packet_context_new (replicate BUF_SIZE 0)) of
           None \<Rightarrow> None
         | Some (Inl e, _) \<Rightarrow> Some (Inl (Mctp e), p)
         | Some (Inr packet_state, _) \<Rightarrow> send_packets M hc BUF_SIZE packet_state p)"

subsection \<open>The task\<close>

text \<open>One round of \<open>uart_service\<close>: it waits for input, panics, or is done, with what it logged.\<close>

datatype 'a round = Waiting | Panicked | Done "(string \<times> UartError) option" 'a

definition uart_round ::
  "('frame, 'rc, capture) medium \<Rightarrow> header_codec \<Rightarrow> ('s, 'rq, 't, 'e) relay
     \<Rightarrow> ('s \<Rightarrow> 'rq \<Rightarrow> 'st \<Rightarrow> ('e, 't) result \<times> 'st) \<Rightarrow> port \<times> ('s, 't, 'e, 'st, 'rc) UartService
     \<Rightarrow> (port \<times> ('s, 't, 'e, 'st, 'rc) UartService) round" where
  "uart_round M hc R handler = (\<lambda>(p, s).
     (case wait_for_request M hc R handler p s of
        None \<Rightarrow> Waiting
      | Some (Inl e, p, s) \<Rightarrow> Done (Some (''request'', e)) (p, s)
      | Some (Inr _, p, s) \<Rightarrow>
          (case host_tx_queue s of
             [] \<Rightarrow> Waiting
           | host_msg # queue \<Rightarrow>
               (let s = s\<lparr>host_tx_queue := queue\<rparr>
                in case process_response M hc R (stored_reply_context s) host_msg p of
                     None \<Rightarrow> Panicked
                   | Some (Inl e, p) \<Rightarrow> Done (Some (''response'', e)) (p, s)
                   | Some (Inr _, p) \<Rightarrow> Done None (p, s)))))"

text \<open>The first \<open>n\<close> rounds, as far as there is input: the log and the state.\<close>

fun uart_service ::
  "nat \<Rightarrow> ('frame, 'rc, capture) medium \<Rightarrow> header_codec \<Rightarrow> ('s, 'rq, 't, 'e) relay
     \<Rightarrow> ('s \<Rightarrow> 'rq \<Rightarrow> 'st \<Rightarrow> ('e, 't) result \<times> 'st) \<Rightarrow> port \<times> ('s, 't, 'e, 'st, 'rc) UartService
     \<Rightarrow> (string \<times> UartError) option list \<times> port \<times> ('s, 't, 'e, 'st, 'rc) UartService" where
  "uart_service 0 M hc R handler ps = ([], ps)"
| "uart_service (Suc n) M hc R handler ps =
     (case uart_round M hc R handler ps of
        Done logged ps \<Rightarrow> (case uart_service n M hc R handler ps of (log, ps) \<Rightarrow> (logged # log, ps))
      | _ \<Rightarrow> ([], ps))"

subsection \<open>A frame is read whatever the chunks\<close>

lemma read_frame_chunks:
  assumes "frame_complete M pkt = Inr (Some (length pkt))"
    and "\<forall>n < length pkt. frame_complete M (take n pkt) = Inr None"
    and "buf @ concat chunks = pkt" and "length buf < length pkt" and "[] \<notin> set chunks"
    and "length pkt \<le> BUF_SIZE" and "rx p = map Inr chunks @ later"
  shows "read_frame M buf p = Some (Inr (length pkt, pkt), p\<lparr>rx := later\<rparr>)"
  using assms(3-)
proof (induction chunks arbitrary: buf p)
  case (Cons chunk chunks)
  obtain b bs where chunk: "chunk = b # bs" using Cons.prems(3) by (cases chunk) auto
  have fits: "length chunk \<le> BUF_SIZE - length buf" using Cons.prems(1,4) by (auto simp flip: Cons.prems(1))
  have read: "uart_read (BUF_SIZE - length buf) p = Some (Inr chunk, p\<lparr>rx := map Inr chunks @ later\<rparr>)"
    using Cons.prems(5) fits by (simp add: uart_read_def)
  have room: "\<not> BUF_SIZE \<le> length buf" using Cons.prems(2,4) by simp
  show ?case
  proof (cases "concat chunks = []")
    case True
    then have "chunks = []" using Cons.prems(3) by (cases chunks) auto
    moreover from this have "buf @ b # bs = pkt" using Cons.prems(1) chunk by simp
    ultimately have "buf @ b # bs = pkt" "chunks = []" by simp_all
    then show ?thesis
      using assms(1) room read by (subst read_frame.simps) (simp add: chunk)
  next
    case False
    then have l: "length (buf @ chunk) < length pkt"
      using arg_cong[OF Cons.prems(1), of length] by (cases "concat chunks") auto
    have "take (length (buf @ chunk)) pkt = buf @ chunk" by (simp flip: Cons.prems(1))
    then have "frame_complete M (buf @ b # bs) = Inr None" using assms(2) l chunk by fastforce
    then show ?thesis
      using Cons.IH[of "buf @ chunk" "p\<lparr>rx := map Inr chunks @ later\<rparr>"] Cons.prems l room read
      by (subst read_frame.simps) (simp add: chunk)
  qed
qed simp

end
