(* ===== verification/Relay_Bytes.thy ===== *)
theory Relay_Bytes
  imports Relay_Mctp
begin

text \<open>
  The byte accessors that the relay handlers share: little-endian integers, and checked reads and
  writes of a slice at an index. A writer that returns the sum of several writes is \<open>puts\<close>.
\<close>

definition to_le_bytes :: "u32 \<Rightarrow> u8 list" where "to_le_bytes v = rev (to_be_bytes v)"
definition from_le_bytes :: "u8 list \<Rightarrow> u32" where "from_le_bytes bs = from_be_bytes (rev bs)"

lemma le_bytes [simp]: "from_le_bytes (to_le_bytes v) = v" "length (to_le_bytes v) = 4"
  by (simp_all add: to_le_bytes_def from_le_bytes_def)

definition to_le_bytes16 :: "u16 \<Rightarrow> u8 list" where "to_le_bytes16 v = [u16_lsb v, u16_msb v]"
definition from_le_bytes16 :: "u8 list \<Rightarrow> u16" where "from_le_bytes16 bs = u16_from_be_bytes (bs ! 1) (bs ! 0)"

lemma le_bytes16 [simp]: "from_le_bytes16 (to_le_bytes16 v) = v" "length (to_le_bytes16 v) = 2"
  by (simp_all add: to_le_bytes16_def from_le_bytes16_def)

definition put_bytes :: "u8 list \<Rightarrow> nat \<Rightarrow> u8 list \<Rightarrow> (MessageSerializationError, nat \<times> u8 list) result" where
  "put_bytes buffer index bytes =
     (if length buffer < index + length bytes then Inl BufferTooSmall
      else Inr (length bytes, take index buffer @ bytes @ drop (index + length bytes) buffer))"

definition get_bytes :: "u8 list \<Rightarrow> nat \<Rightarrow> nat \<Rightarrow> (MessageSerializationError, u8 list) result" where
  "get_bytes buffer index n =
     (if length buffer < index + n then Inl BufferTooSmall else Inr (take n (drop index buffer)))"

fun puts :: "(nat \<times> u8 list) list \<Rightarrow> message_writer" where
  "puts [] buffer = Inr (0, buffer)"
| "puts ((index, bytes) # ps) buffer =
     (case put_bytes buffer index bytes of
        Inl e \<Rightarrow> Inl e
      | Inr (n, buffer) \<Rightarrow>
          (case puts ps buffer of Inl e \<Rightarrow> Inl e | Inr (m, buffer) \<Rightarrow> Inr (n + m, buffer)))"

text \<open>Writes that follow each other without a gap.\<close>

fun adjacent :: "nat \<Rightarrow> (nat \<times> u8 list) list \<Rightarrow> bool" where
  "adjacent k [] = True"
| "adjacent k ((i, bs) # ps) \<longleftrightarrow> i = k \<and> adjacent (k + length bs) ps"

definition content :: "(nat \<times> u8 list) list \<Rightarrow> u8 list" where
  "content ps = concat (map snd ps)"

lemma content_simps [simp]: "content [] = []" "content (p # ps) = snd p @ content ps"
  by (simp_all add: content_def)

lemma puts_adjacent:
  assumes "adjacent k ps" and "k + length (content ps) \<le> length buffer"
  shows "puts ps buffer = Inr (length (content ps), take k buffer @ content ps @ drop (k + length (content ps)) buffer)"
  using assms
proof (induction ps arbitrary: k buffer)
  case (Cons p ps)
  obtain i bs where p: "p = (i, bs)" by (cases p)
  let ?b = "take k buffer @ bs @ drop (k + length bs) buffer"
  have put: "put_bytes buffer k bs = Inr (length bs, ?b)" using Cons.prems p by (simp add: put_bytes_def)
  have "puts ps ?b = Inr (length (content ps), take (k + length bs) ?b @ content ps
      @ drop (k + length bs + length (content ps)) ?b)"
    using Cons.prems p by (intro Cons.IH) simp_all
  moreover have "take (k + length bs) ?b = take k buffer @ bs" using Cons.prems p by simp
  moreover have "drop (k + length bs + length (content ps)) ?b = drop (k + length bs + length (content ps)) buffer"
    using Cons.prems p by (simp add: add.commute)
  ultimately show ?case using Cons.prems put p by (simp add: add.assoc)
qed simp

lemma puts_content:
  "adjacent 0 ps \<Longrightarrow> length (content ps) \<le> length buffer \<Longrightarrow>
    puts ps buffer = Inr (length (content ps), content ps @ drop (length (content ps)) buffer)"
  using puts_adjacent[of 0 ps buffer] by simp

lemma get_bytes_append [simp]:
  "index = length pre \<Longrightarrow> n = length bs \<Longrightarrow> get_bytes (pre @ bs @ post) index n = Inr bs"
  by (simp add: get_bytes_def)

text \<open>Integers read at an index.\<close>

definition get_u8 :: "u8 list \<Rightarrow> nat \<Rightarrow> (MessageSerializationError, u8) result" where
  "get_u8 buffer i = map_sum (\<lambda>e. e) hd (get_bytes buffer i 1)"
definition get_u16 :: "u8 list \<Rightarrow> nat \<Rightarrow> (MessageSerializationError, u16) result" where
  "get_u16 buffer i = map_sum (\<lambda>e. e) from_le_bytes16 (get_bytes buffer i 2)"
definition get_dword :: "u8 list \<Rightarrow> nat \<Rightarrow> (MessageSerializationError, u32) result" where
  "get_dword buffer i = map_sum (\<lambda>e. e) from_le_bytes (get_bytes buffer i 4)"

text \<open>\<open>read?\<close>, then the rest.\<close>

definition then_read :: "('e, 'a) result \<Rightarrow> ('a \<Rightarrow> ('e, 'b) result) \<Rightarrow> ('e, 'b) result" where
  "then_read r k = (case r of Inl e \<Rightarrow> Inl e | Inr a \<Rightarrow> k a)"

lemma then_read_simps [simp]: "then_read (Inr a) k = k a" "then_read (Inl e) k = Inl e"
  by (simp_all add: then_read_def)

end
