(* ===== verification/Time_Alarm_Relay.thy ===== *)
theory Time_Alarm_Relay
  imports Time_Alarm Relay_Bytes
begin

text \<open>
  The time-alarm service over MCTP: \<open>time-alarm-service-relay/src/serialization.rs\<close> and \<open>lib.rs\<close>.
  The calendar \<open>C\<close> is the one of \<open>Acpi_Timestamp\<close>.
\<close>

subsection \<open>Bytes\<close>

definition safe_put_u32 :: "u8 list \<Rightarrow> nat \<Rightarrow> u32 \<Rightarrow> (MessageSerializationError, nat \<times> u8 list) result" where
  "safe_put_u32 buffer index val =
     (if length buffer < index + 4 then Inl BufferTooSmall
      else Inr (4, take index buffer @ to_le_bytes val @ drop (index + 4) buffer))"

definition safe_get_u32 :: "u8 list \<Rightarrow> nat \<Rightarrow> (MessageSerializationError, u32) result" where
  "safe_get_u32 buffer index =
     (if length buffer < index + 4 then Inl BufferTooSmall
      else Inr (from_le_bytes (take 4 (drop index buffer))))"

definition put_slice :: "u8 list \<Rightarrow> u8 list \<Rightarrow> (MessageSerializationError, nat \<times> u8 list) result" where
  "put_slice buffer bytes =
     (if length buffer < length bytes then Inl BufferTooSmall
      else Inr (length bytes, bytes @ drop (length bytes) buffer))"

subsection \<open>Requests\<close>

datatype 'dt AcpiTimeAlarmRequest =
    GetCapabilities
  | GetRealTime
  | SetRealTimeRequest "'dt AcpiTimestamp"
  | GetWakeStatus AcpiTimerId
  | ClearWakeStatusRequest AcpiTimerId
  | SetTimerValueRequest AcpiTimerId AlarmTimerSeconds
  | GetTimerValue AcpiTimerId
  | SetExpiredTimerPolicyRequest AcpiTimerId AlarmExpiredWakePolicy
  | GetExpiredTimerPolicy AcpiTimerId

fun timer_id_into :: "AcpiTimerId \<Rightarrow> u32" where
  "timer_id_into AcPower = 0"
| "timer_id_into DcPower = 1"

definition timer_id_try_from :: "u32 \<Rightarrow> AcpiTimerId option" where
  "timer_id_try_from v = (if v = 0 then Some AcPower else if v = 1 then Some DcPower else None)"

fun request_discriminant :: "'dt AcpiTimeAlarmRequest \<Rightarrow> u16" where
  "request_discriminant GetCapabilities = 1"
| "request_discriminant GetRealTime = 2"
| "request_discriminant (SetRealTimeRequest _) = 3"
| "request_discriminant (GetWakeStatus _) = 4"
| "request_discriminant (ClearWakeStatusRequest _) = 5"
| "request_discriminant (SetTimerValueRequest _ _) = 6"
| "request_discriminant (GetTimerValue _) = 7"
| "request_discriminant (SetExpiredTimerPolicyRequest _ _) = 8"
| "request_discriminant (GetExpiredTimerPolicy _) = 9"

text \<open>Two \<open>safe_put_u32\<close> calls, the second on the slice the first has left.\<close>

definition put_two :: "u8 list \<Rightarrow> u32 \<Rightarrow> u32 \<Rightarrow> (MessageSerializationError, nat \<times> u8 list) result" where
  "put_two buffer a b =
     (case safe_put_u32 buffer 0 a of
        Inl e \<Rightarrow> Inl e
      | Inr (_, buffer) \<Rightarrow>
          (case safe_put_u32 buffer 4 b of Inl e \<Rightarrow> Inl e | Inr (_, buffer) \<Rightarrow> Inr (8, buffer)))"

fun request_serialize :: "('dt, 'm) calendar \<Rightarrow> 'dt AcpiTimeAlarmRequest \<Rightarrow> message_writer" where
  "request_serialize C GetCapabilities buffer = Inr (0, buffer)"
| "request_serialize C GetRealTime buffer = Inr (0, buffer)"
| "request_serialize C (SetRealTimeRequest ts) buffer = put_slice buffer (timestamp_as_bytes C ts)"
| "request_serialize C (GetWakeStatus i) buffer = safe_put_u32 buffer 0 (timer_id_into i)"
| "request_serialize C (ClearWakeStatusRequest i) buffer = safe_put_u32 buffer 0 (timer_id_into i)"
| "request_serialize C (GetTimerValue i) buffer = safe_put_u32 buffer 0 (timer_id_into i)"
| "request_serialize C (GetExpiredTimerPolicy i) buffer = safe_put_u32 buffer 0 (timer_id_into i)"
| "request_serialize C (SetTimerValueRequest i v) buffer = put_two buffer (timer_id_into i) v"
| "request_serialize C (SetExpiredTimerPolicyRequest i p) buffer = put_two buffer (timer_id_into i) p"

text \<open>A \<open>u32\<close> that must fill the rest of the slice exactly (\<open>buffer.try_into()\<close>).\<close>

definition whole_u32 :: "u8 list \<Rightarrow> (MessageSerializationError, u32) result" where
  "whole_u32 buffer = (if length buffer \<noteq> 4 then Inl BufferTooSmall else Inr (from_le_bytes buffer))"

definition request_deserialize ::
  "('dt, 'm) calendar \<Rightarrow> u16 \<Rightarrow> u8 list \<Rightarrow> (MessageSerializationError, 'dt AcpiTimeAlarmRequest) result" where
  "request_deserialize C d buffer =
     (if \<not> (1 \<le> d \<and> d \<le> 9) then Inl (UnknownMessageDiscriminant d)
      else if d = 1 then Inr GetCapabilities
      else if d = 2 then Inr GetRealTime
      else if d = 3 then
        map_sum (\<lambda>_. InvalidPayload ''Could not deserialize timestamp'') SetRealTimeRequest
          (timestamp_try_from_bytes C buffer)
      else if length buffer < 4 then Inl BufferTooSmall
      else case timer_id_try_from (from_le_bytes (take 4 buffer)) of
             None \<Rightarrow> Inl (InvalidPayload ''Could not deserialize timer ID'')
           | Some i \<Rightarrow>
               (let buffer = drop 4 buffer
                in if d = 4 then Inr (GetWakeStatus i)
                   else if d = 5 then Inr (ClearWakeStatusRequest i)
                   else if d = 6 then map_sum (\<lambda>e. e) (SetTimerValueRequest i) (whole_u32 buffer)
                   else if d = 7 then Inr (GetTimerValue i)
                   else if d = 8 then map_sum (\<lambda>e. e) (SetExpiredTimerPolicyRequest i) (whole_u32 buffer)
                   else Inr (GetExpiredTimerPolicy i)))"

definition time_alarm_request :: "('dt, 'm) calendar \<Rightarrow> 'dt AcpiTimeAlarmRequest serializable" where
  "time_alarm_request C = \<lparr>sm_serialize = request_serialize C, sm_discriminant = request_discriminant,
     sm_deserialize = request_deserialize C\<rparr>"

subsection \<open>Results\<close>

datatype 'dt AcpiTimeAlarmResponse =
    Capabilities TimeAlarmDeviceCapabilities
  | RealTime "'dt AcpiTimestamp"
  | TimerStatusResponse TimerStatus
  | WakePolicy AlarmExpiredWakePolicy
  | TimerSeconds AlarmTimerSeconds
  | OkNoData

fun response_discriminant :: "'dt AcpiTimeAlarmResponse \<Rightarrow> u16" where
  "response_discriminant (Capabilities _) = 1"
| "response_discriminant (RealTime _) = 2"
| "response_discriminant (TimerStatusResponse _) = 3"
| "response_discriminant (WakePolicy _) = 4"
| "response_discriminant (TimerSeconds _) = 5"
| "response_discriminant OkNoData = 6"

fun response_serialize :: "('dt, 'm) calendar \<Rightarrow> 'dt AcpiTimeAlarmResponse \<Rightarrow> message_writer" where
  "response_serialize C (Capabilities v) buffer = safe_put_u32 buffer 0 v"
| "response_serialize C (RealTime ts) buffer = put_slice buffer (timestamp_as_bytes C ts)"
| "response_serialize C (TimerStatusResponse v) buffer = safe_put_u32 buffer 0 v"
| "response_serialize C (WakePolicy v) buffer = safe_put_u32 buffer 0 v"
| "response_serialize C (TimerSeconds v) buffer = safe_put_u32 buffer 0 v"
| "response_serialize C OkNoData buffer = Inr (0, buffer)"

definition response_deserialize ::
  "('dt, 'm) calendar \<Rightarrow> u16 \<Rightarrow> u8 list \<Rightarrow> (MessageSerializationError, 'dt AcpiTimeAlarmResponse) result" where
  "response_deserialize C d buffer =
     (if d = 1 then map_sum (\<lambda>e. e) Capabilities (safe_get_u32 buffer 0)
      else if d = 2 then map_sum (\<lambda>_. InvalidPayload ''invalid timestamp'') RealTime (timestamp_try_from_bytes C buffer)
      else if d = 3 then map_sum (\<lambda>e. e) TimerStatusResponse (safe_get_u32 buffer 0)
      else if d = 4 then map_sum (\<lambda>e. e) WakePolicy (safe_get_u32 buffer 0)
      else if d = 5 then map_sum (\<lambda>e. e) TimerSeconds (safe_get_u32 buffer 0)
      else if d = 6 then Inr OkNoData
      else Inl (UnknownMessageDiscriminant d))"

definition time_alarm_response :: "('dt, 'm) calendar \<Rightarrow> 'dt AcpiTimeAlarmResponse serializable" where
  "time_alarm_response C = \<lparr>sm_serialize = response_serialize C, sm_discriminant = response_discriminant,
     sm_deserialize = response_deserialize C\<rparr>"

datatype AcpiTimeAlarmError = UnspecifiedFailure

definition time_alarm_error :: "AcpiTimeAlarmError serializable" where
  "time_alarm_error =
     \<lparr>sm_serialize = (\<lambda>_ buffer. Inr (0, buffer)), sm_discriminant = (\<lambda>_. 1),
      sm_deserialize = (\<lambda>d _. if d = 1 then Inr UnspecifiedFailure else Inl (UnknownMessageDiscriminant d))\<rparr>"

subsection \<open>The handler\<close>

definition no_data :: "(DatetimeClockError, unit) result \<Rightarrow> (AcpiTimeAlarmError, 'dt AcpiTimeAlarmResponse) result" where
  "no_data = map_sum (\<lambda>_. UnspecifiedFailure) (\<lambda>_. OkNoData)"

fun time_alarm_process_request ::
  "('ck, 'dt, 'n) hal \<Rightarrow> 'dt AcpiTimeAlarmRequest
     \<Rightarrow> (('ck, 'dt, 'n) ServiceInner, AcpiTimeAlarmError, 'dt AcpiTimeAlarmResponse) action" where
  "time_alarm_process_request H GetCapabilities s = (Inr (Capabilities (service_capabilities s)), s)"
| "time_alarm_process_request H GetRealTime s =
     (map_sum (\<lambda>_. UnspecifiedFailure) RealTime (get_real_time H s), s)"
| "time_alarm_process_request H (SetRealTimeRequest ts) s =
     (case set_real_time H ts s of (r, s) \<Rightarrow> (no_data r, s))"
| "time_alarm_process_request H (GetWakeStatus i) s = (Inr (TimerStatusResponse (get_wake_status i s)), s)"
| "time_alarm_process_request H (ClearWakeStatusRequest i) s = (Inr OkNoData, service_clear_wake_status i s)"
| "time_alarm_process_request H (SetExpiredTimerPolicyRequest i p) s =
     (case set_expired_timer_policy H i p s of (r, s) \<Rightarrow> (no_data r, s))"
| "time_alarm_process_request H (GetExpiredTimerPolicy i) s = (Inr (WakePolicy (get_expired_timer_policy H i s)), s)"
| "time_alarm_process_request H (SetTimerValueRequest i v) s =
     (case set_timer_value H i v s of (r, s) \<Rightarrow> (no_data r, s))"
| "time_alarm_process_request H (GetTimerValue i) s =
     (map_sum (\<lambda>_. UnspecifiedFailure) TimerSeconds (get_timer_value H i s), s)"

subsection \<open>The contract of the message types\<close>

text \<open>Timestamps that survive their bytes: whole milliseconds, see \<open>timestamp_bytes_roundtrip\<close>.\<close>

definition timestamp_fits :: "('dt, 'm) calendar \<Rightarrow> 'dt AcpiTimestamp \<Rightarrow> bool" where
  "timestamp_fits C ts \<longleftrightarrow> timestamp_try_from_bytes C (timestamp_as_bytes C ts) = Inr ts"

fun time_request_fits :: "('dt, 'm) calendar \<Rightarrow> 'dt AcpiTimeAlarmRequest \<Rightarrow> bool" where
  "time_request_fits C (SetRealTimeRequest ts) = timestamp_fits C ts"
| "time_request_fits C _ = True"

fun time_request_bytes :: "('dt, 'm) calendar \<Rightarrow> 'dt AcpiTimeAlarmRequest \<Rightarrow> u8 list" where
  "time_request_bytes C GetCapabilities = []"
| "time_request_bytes C GetRealTime = []"
| "time_request_bytes C (SetRealTimeRequest ts) = timestamp_as_bytes C ts"
| "time_request_bytes C (GetWakeStatus i) = to_le_bytes (timer_id_into i)"
| "time_request_bytes C (ClearWakeStatusRequest i) = to_le_bytes (timer_id_into i)"
| "time_request_bytes C (GetTimerValue i) = to_le_bytes (timer_id_into i)"
| "time_request_bytes C (GetExpiredTimerPolicy i) = to_le_bytes (timer_id_into i)"
| "time_request_bytes C (SetTimerValueRequest i v) = to_le_bytes (timer_id_into i) @ to_le_bytes v"
| "time_request_bytes C (SetExpiredTimerPolicyRequest i p) = to_le_bytes (timer_id_into i) @ to_le_bytes p"

fun time_response_fits :: "('dt, 'm) calendar \<Rightarrow> 'dt AcpiTimeAlarmResponse \<Rightarrow> bool" where
  "time_response_fits C (RealTime ts) = timestamp_fits C ts"
| "time_response_fits C _ = True"

fun time_response_bytes :: "('dt, 'm) calendar \<Rightarrow> 'dt AcpiTimeAlarmResponse \<Rightarrow> u8 list" where
  "time_response_bytes C (Capabilities v) = to_le_bytes v"
| "time_response_bytes C (RealTime ts) = timestamp_as_bytes C ts"
| "time_response_bytes C (TimerStatusResponse v) = to_le_bytes v"
| "time_response_bytes C (WakePolicy v) = to_le_bytes v"
| "time_response_bytes C (TimerSeconds v) = to_le_bytes v"
| "time_response_bytes C OkNoData = []"

lemma length_timestamp [simp]: "length (timestamp_as_bytes C ts) = 16"
  by (simp add: timestamp_as_bytes_def raw_as_bytes_def)

lemma put_simps [simp]:
  "4 \<le> length buffer \<Longrightarrow> safe_put_u32 buffer 0 v = Inr (4, to_le_bytes v @ drop 4 buffer)"
  "8 \<le> length buffer \<Longrightarrow> put_two buffer v w = Inr (8, to_le_bytes v @ to_le_bytes w @ drop 8 buffer)"
  "length bs \<le> length buffer \<Longrightarrow> put_slice buffer bs = Inr (length bs, bs @ drop (length bs) buffer)"
  by (simp_all add: safe_put_u32_def put_two_def put_slice_def)

lemma timer_id_read [simp]: "timer_id_try_from (timer_id_into i) = Some i"
  by (cases i) (simp_all add: timer_id_try_from_def)

interpretation time_request: serializable_message "time_alarm_request C" "time_request_fits C" "time_request_bytes C"
  for C :: "('dt, 'm) calendar"
proof
  fix m :: "'dt AcpiTimeAlarmRequest" and buffer :: "u8 list"
  assume fits: "time_request_fits C m"
  show "sm_serialize (time_alarm_request C) m buffer
      = Inr (length (time_request_bytes C m), time_request_bytes C m @ drop (length (time_request_bytes C m)) buffer)"
    if "length (time_request_bytes C m) \<le> length buffer"
    using that by (cases m) (simp_all add: time_alarm_request_def)
  show "sm_deserialize (time_alarm_request C) (sm_discriminant (time_alarm_request C) m) (time_request_bytes C m) = Inr m"
    using fits by (cases m) (simp_all add: time_alarm_request_def request_deserialize_def whole_u32_def timestamp_fits_def)
  show "sm_discriminant (time_alarm_request C) m AND 0x7FFF = sm_discriminant (time_alarm_request C) m"
    by (cases m) (simp_all add: time_alarm_request_def)
qed

interpretation time_response: serializable_message "time_alarm_response C" "time_response_fits C" "time_response_bytes C"
  for C :: "('dt, 'm) calendar"
proof
  fix m :: "'dt AcpiTimeAlarmResponse" and buffer :: "u8 list"
  assume fits: "time_response_fits C m"
  show "sm_serialize (time_alarm_response C) m buffer
      = Inr (length (time_response_bytes C m), time_response_bytes C m @ drop (length (time_response_bytes C m)) buffer)"
    if "length (time_response_bytes C m) \<le> length buffer"
    using that by (cases m) (simp_all add: time_alarm_response_def)
  show "sm_deserialize (time_alarm_response C) (sm_discriminant (time_alarm_response C) m) (time_response_bytes C m) = Inr m"
    using fits by (cases m) (simp_all add: time_alarm_response_def response_deserialize_def safe_get_u32_def timestamp_fits_def)
  show "sm_discriminant (time_alarm_response C) m AND 0x7FFF = sm_discriminant (time_alarm_response C) m"
    by (cases m) (simp_all add: time_alarm_response_def)
qed

interpretation time_error: serializable_message time_alarm_error "\<lambda>_. True" "\<lambda>_. []"
proof
  fix m :: AcpiTimeAlarmError and buffer :: "u8 list"
  show "sm_deserialize time_alarm_error (sm_discriminant time_alarm_error m) [] = Inr m"
    by (cases m) (simp add: time_alarm_error_def)
qed (simp_all add: time_alarm_error_def)

end
