(* ===== verification/Uart_Relay.thy ===== *)
theory Uart_Relay
  imports Uart_Service Time_Alarm_Relay Time_Alarm_Props
begin

text \<open>
  The UART service answers requests: what a host that frames its request with \<open>mctp-rs\<close> gets back
  over the serial medium, for any relay whose message types obey \<open>relay_services\<close>. The relay of the
  example \<open>rt685s-evk/src/bin/time_alarm.rs\<close>, which carries the time-alarm service, interprets it.
\<close>

text \<open>The packets of a message that is serialized into a buffer of zeros.\<close>

definition host_packets ::
  "('frame, 'rc, capture) medium \<Rightarrow> header_codec \<Rightarrow> ('h, 'b) message_kind \<Rightarrow> 'rc MctpReplyContext
     \<Rightarrow> 'h \<times> 'b \<Rightarrow> u8 list list option" where
  "host_packets M hc P rc m =
     (case serialize_message P rc m (packet_context_new (replicate BUF_SIZE 0)) of
        Some (Inr st, _) \<Rightarrow> send_all M hc (length (sps_message_buffer st)) st
      | _ \<Rightarrow> None)"

definition host_request_header :: "('s, 'rq, 't, 'e) relay \<Rightarrow> 's \<Rightarrow> 'rq \<Rightarrow> 's OdpHeader" where
  "host_request_header R s rq =
     \<lparr>odp_message_type = Request, odp_service = s, odp_message_id = sm_discriminant (request_codec R s) rq\<rparr>"

subsection \<open>One packet each way\<close>

definition short_for :: "nat \<Rightarrow> ('frame, 'rc, 'c) medium \<Rightarrow> nat \<Rightarrow> bool" where
  "short_for overhead M n \<longleftrightarrow> 8 + 2 * n \<le> max_message_body_size M \<and> overhead + 8 + 3 * n \<le> BUF_SIZE"

context framed_medium
begin

lemma message_in_one_packet:
  assumes codec: "message_codec P fits header_bytes body_bytes" and fits: "fits h b"
    and n: "n = 1 + length (header_bytes h) + length (body_bytes b)"
    and short: "short_for (pre + post) M n" and framed: "framed (4 + n)" and rc: "valid_reply valid_rc rc"
  obtains st ctx pkt st' where
    "serialize_message P rc (h, b) (packet_context_new (replicate BUF_SIZE 0)) = Some (Inr st, ctx)"
    "next_packet M hc st = (Some (Inr pkt), st')" "sps_message_buffer st' = []"
    "length (sps_message_buffer st) = n" "frame pkt" "length pkt \<le> BUF_SIZE"
    "carries M hc pkt (packet_header rc (seq_next (rc_packet_sequence_number rc)) 1 1)
       (MESSAGE_TYPE P # header_bytes h @ body_bytes b)"
proof -
  let ?ctx = "packet_context_new (replicate BUF_SIZE 0)"
  have room: "n \<le> BUF_SIZE" using short by (simp add: short_for_def)
  have ctx: "assembly_state ?ctx = AssemblyIdle" "length (packet_assembly_buffer ?ctx) = BUF_SIZE"
    by (simp_all add: packet_context_new_def)
  from room have "1 + length (header_bytes h) + length (body_bytes b) \<le> length (packet_assembly_buffer ?ctx)"
    by (simp add: ctx n)
  from message_codec.serialized[OF codec fits ctx(1) this, of rc] obtain st ctx' where
    ser: "serialize_message P rc (h, b) ?ctx = Some (Inr st, ctx')"
    and st: "sps_message_buffer st = MESSAGE_TYPE P # header_bytes h @ body_bytes b"
      "sps_reply_context st = rc" "current_packet_num st = 0" "length (assembly_buffer st) = BUF_SIZE - n"
    by (auto simp: ctx n)
  have len: "length (sps_message_buffer st) = n" by (simp add: st n)
  have "\<exists>pkt s'. next_packet M hc st = (Some (Inr pkt), s') \<and> sps_message_buffer s' = []
    \<and> carries M hc pkt (packet_header rc (seq_next (rc_packet_sequence_number rc)) 1 1) (sps_message_buffer st)
    \<and> frame pkt \<and> length pkt \<le> pre + post + 8 + 2 * n"
  proof -
    have "sps_message_buffer st \<noteq> []" by (simp add: st(1))
    moreover have "pre + post + 8 + 2 * length (sps_message_buffer st) \<le> length (assembly_buffer st)"
      using short unfolding st(4) len short_for_def by linarith
    moreover have "8 + 2 * length (sps_message_buffer st) \<le> max_message_body_size M" "framed (4 + length (sps_message_buffer st))"
      using short framed by (simp_all add: short_for_def len)
    ultimately show ?thesis using single_packet[of st] rc unfolding len by (simp add: st(2,3))
  qed
  then show ?thesis using that ser len short by (auto simp: st short_for_def)
qed

lemma message_received:
  assumes codec: "message_codec P fits header_bytes body_bytes" and fits: "fits h b"
    and carries: "carries M hc pkt (packet_header rc (seq_next q) 1 1) (MESSAGE_TYPE P # header_bytes h @ body_bytes b)"
    and room: "1 + length (header_bytes h) + length (body_bytes b) \<le> n"
  obtains m where "fst (deserialize_packet M hc pkt (packet_context_new (replicate n 0))) = Inr (Some m)"
    "parse_as P m = Inr (h, b)"
proof -
  let ?ctx = "packet_context_new (replicate n 0)" and ?msg = "MESSAGE_TYPE P # header_bytes h @ body_bytes b"
  have "received rc q [] (length ?msg) ?ctx"
    using room by (intro received_start) (simp_all add: packet_context_new_def)
  then obtain m ctx' where "deserialize_packet M hc pkt ?ctx = (Inr (Some m), ctx')" "message_of rc ?msg m"
    using receive_in_sequence(2)[of M hc pkt rc "seq_next q" "[]" 1 ?msg q "length ?msg" ?ctx] carries by auto
  then show ?thesis using that message_codec.parsed[OF codec fits] by (metis fst_conv)
qed

end

subsection \<open>One round of the service\<close>

text \<open>What the round needs of the sizes: the request and the result take one packet each.\<close>

context framed_medium
begin

lemma send_all_single:
  assumes "next_packet M hc st = (Some (Inr pkt), st')" and "sps_message_buffer st' = []" and "0 < n"
  shows "send_all M hc n st = Some [pkt]"
proof -
  obtain k where "n = Suc k" using assms(3) by (cases n) auto
  then show ?thesis
    using assms(1,2) by (simp add: send_all.simps[of _ _ "Suc _"] send_all.simps[of _ _ _ st'] next_packet_def[of _ _ st'])
qed

lemma send_single:
  assumes "next_packet M hc st = (Some (Inr pkt), st')" and "sps_message_buffer st' = []" and "tx_faults p = []"
  shows "send_packets M hc (Suc n) st p = Some (Inr (), p\<lparr>tx := tx p @ pkt\<rparr>)"
  using assms by (simp add: send_packets.simps next_packet_def[of _ _ st'] uart_write_all_def)

lemma frame_handled:
  assumes R: "relay_services R rq_fits rq_bytes ok_fits ok_bytes err_fits err_bytes"
    and s: "s \<in> set (services R)" "rq_fits s rq" and room: "5 + length (rq_bytes s rq) \<le> BUF_SIZE"
    and carries: "carries M hc pkt (packet_header rc (seq_next q) 1 1)
      (0x7D # odp_header_bytes R (host_request_header R s rq) @ rq_bytes s rq)"
    and handler: "handler s rq (relay_handler svc) = (r, st')" and queue: "host_tx_queue svc = []"
  shows "handle_frame M hc R handler (length pkt) (pkt @ zs) svc
    = (Inr (), svc\<lparr>relay_handler := st', host_tx_queue := [\<lparr>handler_service_id = s, message = HostResult s r\<rparr>]\<rparr>)"
proof -
  let ?h = "host_request_header R s rq" and ?b = "HostRequest s rq"
  have kind: "MESSAGE_TYPE (host_request_kind R) = 0x7D" "request_bytes rq_bytes ?b = rq_bytes s rq"
    by (simp_all add: host_request_kind_def)
  have codec: "message_codec (host_request_kind R) (request_fits R rq_fits) (odp_header_bytes R) (request_bytes rq_bytes)"
    by (rule relay_services.request_law[OF R])
  have fits: "request_fits R rq_fits ?h ?b" using s by (simp add: host_request_header_def)
  obtain m where "fst (deserialize_packet M hc pkt (packet_context_new (replicate BUF_SIZE 0))) = Inr (Some m)"
    "parse_as (host_request_kind R) m = Inr (?h, ?b)"
    by (rule message_received[OF codec fits, of pkt rc q BUF_SIZE]) (use carries room in \<open>simp_all add: kind\<close>)
  then show ?thesis
    using handler queue by (simp add: handle_frame_def host_request_header_def HOST_TX_QUEUE_SIZE_def)
qed

lemma round_answers:
  assumes R: "relay_services R rq_fits rq_bytes ok_fits ok_bytes err_fits err_bytes"
    and s: "s \<in> set (services R)" "rq_fits s rq" and rc: "valid_reply valid_rc rc"
    and short: "short_for (pre + post) M (5 + length (rq_bytes s rq))" "framed (9 + length (rq_bytes s rq))"
    and handler: "handler s rq (relay_handler svc) = (r, st')"
    and r: "case r of Inr t \<Rightarrow> ok_fits s t | Inl e \<Rightarrow> err_fits s e"
    and short': "short_for (pre + post) M (5 + length (result_bytes ok_bytes err_bytes (HostResult s r)))"
      "framed (9 + length (result_bytes ok_bytes err_bytes (HostResult s r)))"
    and svc: "valid_reply valid_rc ((stored_reply_context svc)\<lparr>rc_destination_endpoint_id := Id (service_id R s)\<rparr>)"
      "host_tx_queue svc = []"
  obtains pkt answer m where
    "host_packets M hc (host_request_kind R) rc (host_request_header R s rq, HostRequest s rq) = Some [pkt]"
    "\<And>p chunks later. concat chunks = pkt \<Longrightarrow> [] \<notin> set chunks \<Longrightarrow> rx p = map Inr chunks @ later \<Longrightarrow>
       tx_faults p = [] \<Longrightarrow> uart_round M hc R handler (p, svc)
         = Done None (p\<lparr>rx := later, tx := tx p @ answer\<rparr>, svc\<lparr>relay_handler := st'\<rparr>)"
    "fst (deserialize_packet M hc answer (packet_context_new (replicate BUF_SIZE 0))) = Inr (Some m)"
    "parse_as (host_result_kind R) m = Inr (create_header R s (HostResult s r), HostResult s r)"
proof -
  let ?h = "host_request_header R s rq" and ?b = "HostRequest s rq" and ?r = "HostResult s r"
  let ?h' = "create_header R s ?r" and ?rc = "(stored_reply_context svc)\<lparr>rc_destination_endpoint_id := Id (service_id R s)\<rparr>"
  have kind: "MESSAGE_TYPE (host_request_kind R) = 0x7D" "MESSAGE_TYPE (host_result_kind R) = 0x7D"
    by (simp_all add: host_request_kind_def host_result_kind_def)
  have codec: "message_codec (host_request_kind R) (request_fits R rq_fits) (odp_header_bytes R) (request_bytes rq_bytes)"
    and codec': "message_codec (host_result_kind R) (result_fits R ok_fits err_fits) (odp_header_bytes R) (result_bytes ok_bytes err_bytes)"
    by (rule relay_services.request_law[OF R], rule relay_services.outcome_law[OF R])
  have fits: "request_fits R rq_fits ?h ?b" and fits': "result_fits R ok_fits err_fits ?h' ?r"
    using s r by (simp_all add: host_request_header_def)
  obtain st ctx pkt st2 where host: "serialize_message (host_request_kind R) rc (?h, ?b) (packet_context_new (replicate BUF_SIZE 0)) = Some (Inr st, ctx)"
    "next_packet M hc st = (Some (Inr pkt), st2)" "sps_message_buffer st2 = []"
    "length (sps_message_buffer st) = 5 + length (rq_bytes s rq)" and pkt: "frame pkt" "length pkt \<le> BUF_SIZE"
    "carries M hc pkt (packet_header rc (seq_next (rc_packet_sequence_number rc)) 1 1)
      (0x7D # odp_header_bytes R ?h @ rq_bytes s rq)"
    by (rule message_in_one_packet[OF codec fits _ _ _ rc, of "5 + length (rq_bytes s rq)"]) (use short in \<open>simp_all add: kind\<close>)
  obtain st3 ctx3 answer st4 where resp: "serialize_message (host_result_kind R) ?rc (?h', ?r) (packet_context_new (replicate BUF_SIZE 0)) = Some (Inr st3, ctx3)"
    "next_packet M hc st3 = (Some (Inr answer), st4)" "sps_message_buffer st4 = []"
    and answer: "carries M hc answer (packet_header ?rc (seq_next (rc_packet_sequence_number ?rc)) 1 1)
      (MESSAGE_TYPE (host_result_kind R) # odp_header_bytes R ?h' @ result_bytes ok_bytes err_bytes ?r)"
    by (rule message_in_one_packet[OF codec' fits' _ _ _ svc(1), of "5 + length (result_bytes ok_bytes err_bytes ?r)"])
      (use short' in simp_all)
  have size: "5 + length (rq_bytes s rq) \<le> BUF_SIZE" "5 + length (result_bytes ok_bytes err_bytes ?r) \<le> BUF_SIZE"
    using short(1) short'(1) by (simp_all add: short_for_def)
  have sent: "host_packets M hc (host_request_kind R) rc (?h, ?b) = Some [pkt]"
    using host(1,4) send_all_single[OF host(2,3)] by (simp add: host_packets_def)
  have answers: "uart_round M hc R handler (p, svc)
         = Done None (p\<lparr>rx := later, tx := tx p @ answer\<rparr>, svc\<lparr>relay_handler := st'\<rparr>)"
    if "concat chunks = pkt" "[] \<notin> set chunks" "rx p = map Inr chunks @ later" "tx_faults p = []" for p chunks later
  proof -
    have "read_frame M [] p = Some (Inr (length pkt, pkt), p\<lparr>rx := later\<rparr>)"
      by (rule read_frame_chunks[where chunks = chunks]) (use that pkt in \<open>simp_all add: frame_def\<close>)
    then have request: "wait_for_request M hc R handler p svc = Some (Inr (), p\<lparr>rx := later\<rparr>,
        svc\<lparr>relay_handler := st', host_tx_queue := [\<lparr>handler_service_id = s, message = ?r\<rparr>]\<rparr>)"
      by (simp add: wait_for_request_def frame_handled[where handler = handler and rq_fits = rq_fits and rq_bytes = rq_bytes and rq = rq and s = s and svc = svc, OF R s size(1) pkt(3) handler svc(2)])
    have "BUF_SIZE = Suc 255" by (simp add: BUF_SIZE_def)
    then have "process_response M hc R (stored_reply_context svc) \<lparr>handler_service_id = s, message = ?r\<rparr> (p\<lparr>rx := later\<rparr>)
        = Some (Inr (), p\<lparr>rx := later, tx := tx p @ answer\<rparr>)"
      using resp send_single[OF resp(2,3), of "p\<lparr>rx := later\<rparr>" 255] that(4) by (simp add: process_response_def)
    with request show ?thesis using svc(2) by (simp add: uart_round_def)
  qed
  obtain m where "fst (deserialize_packet M hc answer (packet_context_new (replicate BUF_SIZE 0))) = Inr (Some m)"
    "parse_as (host_result_kind R) m = Inr (?h', ?r)"
    by (rule message_received[OF codec' fits' answer, of BUF_SIZE]) (use size(2) in simp_all)
  with sent answers show ?thesis by (rule that)
qed

end

subsection \<open>The relay of the time-alarm example\<close>

datatype EvkService = TimeAlarm

definition espi_relay_handler ::
  "('dt, 'm) calendar \<Rightarrow> (EvkService, 'dt AcpiTimeAlarmRequest, 'dt AcpiTimeAlarmResponse, AcpiTimeAlarmError) relay" where
  "espi_relay_handler C =
     \<lparr>services = [TimeAlarm], service_name = (\<lambda>_. ''TimeAlarm''), service_id = (\<lambda>_. 0x0B),
      request_codec = (\<lambda>_. time_alarm_request C), success_codec = (\<lambda>_. time_alarm_response C),
      error_codec = (\<lambda>_. time_alarm_error)\<rparr>"

interpretation evk: relay_services "espi_relay_handler C" "\<lambda>_. time_request_fits C" "\<lambda>_. time_request_bytes C"
    "\<lambda>_. time_response_fits C" "\<lambda>_. time_response_bytes C" "\<lambda>_ _. True" "\<lambda>_ _. []"
  for C :: "('dt, 'm) calendar"
  by (rule relay_services.intro)
    (simp_all add: espi_relay_handler_def time_request.serializable_message_axioms
      time_response.serializable_message_axioms time_error.serializable_message_axioms)

lemma evk_relay_services: "relay_services (espi_relay_handler C) (\<lambda>_. time_request_fits C) (\<lambda>_. time_request_bytes C)
    (\<lambda>_. time_response_fits C) (\<lambda>_. time_response_bytes C) (\<lambda>_ _. True) (\<lambda>_ _. [])"
  by (rule evk.relay_services_axioms)

subsection \<open>What a round leaves unchanged\<close>

lemma read_frame_keeps_tx: "read_frame M buf p = Some (r, p') \<Longrightarrow> tx p' = tx p"
proof (induction M buf p rule: read_frame.induct)
  case (1 M buf p)
  from 1(2) show ?case
    by (subst (asm) read_frame.simps)
      (auto simp: uart_read_def split: if_splits list.splits sum.splits option.splits dest!: 1(1))
qed

lemma wait_for_request_effects:
  assumes "wait_for_request M hc R handler p s = Some (res, p', s')" and "host_tx_queue s = []"
  shows "case res of
      Inl _ \<Rightarrow> s' = s \<and> tx p' = tx p
    | Inr _ \<Rightarrow> (\<exists>msg st. s' = s\<lparr>relay_handler := st, host_tx_queue := [msg]\<rparr>
        \<and> (\<exists>srv rq r. handler srv rq (relay_handler s) = (r, st)))"
proof -
  have frame: "case res of Inl _ \<Rightarrow> s' = s
    | Inr _ \<Rightarrow> (\<exists>msg st. s' = s\<lparr>relay_handler := st, host_tx_queue := [msg]\<rparr>
        \<and> (\<exists>srv rq r. handler srv rq (relay_handler s) = (r, st)))"
    if "handle_frame M hc R handler n buf s = (res, s')" for n buf
  proof -
    have run: "relay_process_request handler b st = (r', st') \<Longrightarrow> \<exists>srv rq r. handler srv rq st = (r, st')" for b st r' st'
      by (cases b) (auto split: prod.splits)
    show ?thesis
      using that assms(2) run
      by (fastforce simp: handle_frame_def Let_def HOST_TX_QUEUE_SIZE_def split: if_splits sum.splits option.splits prod.splits)
  qed
  show ?thesis
    using assms(1) frame read_frame_keeps_tx
    by (fastforce simp: wait_for_request_def Let_def split: option.splits sum.splits prod.splits)
qed

subsection \<open>Properties\<close>

text \<open>C1. The serial UART service answers short requests: if the ID of a relayed service is an endpoint ID (8 or more),
  the request and the result of its handler have at most 75 bytes each and are within the contracts of
  their message types, and the reply context of the host is valid, then the host serializes the request into one packet;
  however its bytes are chunked by the reads, one round of the service, its queue empty and its writes without a
  fault, calls the handler of that service exactly once and writes one answer packet, which deserializes and parses
  to the handler's result under the header that \<open>create_header\<close> gives it.\<close>

theorem uart_answers_request:
  fixes R :: "('s, 'rq, 't, 'e) relay" and st :: 'st
  assumes "relay_services R rq_fits rq_bytes ok_fits ok_bytes err_fits err_bytes"
    and "s \<in> set (services R)" and "rq_fits s rq" and "length (rq_bytes s rq) \<le> 75"
    and "valid_reply (\<lambda>_. True) rc" and "valid_eid (Id (service_id R s))"
    and "handler s rq st = (r, st')"
    and "case r of Inr t \<Rightarrow> ok_fits s t | Inl e \<Rightarrow> err_fits s e"
    and "length (result_bytes ok_bytes err_bytes (HostResult s r)) \<le> 75"
  shows "\<exists>pkt answer m.
      host_packets (MctpSerialMedium fcs_algo) layout_codec (host_request_kind R) rc
        (host_request_header R s rq, HostRequest s rq) = Some [pkt]
    \<and> (\<forall>p chunks later. concat chunks = pkt \<and> [] \<notin> set chunks \<and> rx p = map Inr chunks @ later \<and> tx_faults p = [] \<longrightarrow>
        uart_round (MctpSerialMedium fcs_algo) layout_codec R handler (p, default_mctp_serial st)
          = Done None (p\<lparr>rx := later, tx := tx p @ answer\<rparr>, default_mctp_serial st'))
    \<and> fst (deserialize_packet (MctpSerialMedium fcs_algo :: (MctpSerialMediumFrame, unit, capture) medium) layout_codec
        answer (packet_context_new (replicate BUF_SIZE 0))) = Inr (Some m)
    \<and> parse_as (host_result_kind R) m = Inr (create_header R s (HostResult s r), HostResult s r)"
proof -
  have short: "short_for (HEADER_LEN + MAX_TRAILER_WIRE) (MctpSerialMedium fcs_algo) (5 + n)" if "n \<le> 75" for n
    using that by (simp add: short_for_def MctpSerialMedium_def serial_consts BUF_SIZE_def)
  let ?svc = "default_mctp_serial st :: ('s, 't, 'e, 'st, unit) UartService"
  have svc: "relay_handler ?svc = st" "host_tx_queue ?svc = []" "?svc\<lparr>relay_handler := st'\<rparr> = default_mctp_serial st'"
    "valid_reply (\<lambda>_. True) ((stored_reply_context ?svc)\<lparr>rc_destination_endpoint_id := Id (service_id R s)\<rparr>)"
    using assms(6) by (simp_all add: default_mctp_serial_def uart_new_def valid_reply_def EC_EID_def)
  obtain pkt answer m where
    "host_packets (MctpSerialMedium fcs_algo) layout_codec (host_request_kind R) rc
        (host_request_header R s rq, HostRequest s rq) = Some [pkt]"
    and rounds: "\<And>p chunks later. concat chunks = pkt \<Longrightarrow> [] \<notin> set chunks \<Longrightarrow> rx p = map Inr chunks @ later \<Longrightarrow>
       tx_faults p = [] \<Longrightarrow> uart_round (MctpSerialMedium fcs_algo) layout_codec R handler (p, ?svc)
         = Done None (p\<lparr>rx := later, tx := tx p @ answer\<rparr>, ?svc\<lparr>relay_handler := st'\<rparr>)"
    and "fst (deserialize_packet (MctpSerialMedium fcs_algo :: (MctpSerialMediumFrame, unit, capture) medium) layout_codec
        answer (packet_context_new (replicate BUF_SIZE 0))) = Inr (Some m)"
    "parse_as (host_result_kind R) m = Inr (create_header R s (HostResult s r), HostResult s r)"
    by (rule serial_framing.round_answers [where svc = ?svc and handler = handler, OF assms(1-3,5) short _ _ assms(8) short])
      (use assms(4,7,9) svc(1,2,4) in auto)
  moreover from rounds have "\<forall>p chunks later. concat chunks = pkt \<and> [] \<notin> set chunks \<and> rx p = map Inr chunks @ later \<and> tx_faults p = [] \<longrightarrow>
        uart_round (MctpSerialMedium fcs_algo) layout_codec R handler (p, default_mctp_serial st)
          = Done None (p\<lparr>rx := later, tx := tx p @ answer\<rparr>, default_mctp_serial st')"
    unfolding svc(3) by blast
  ultimately show ?thesis by blast
qed

text \<open>Between rounds the response queue is empty, so that a response never fails for a full queue.
  A round that fails on the request has not called a handler and has written nothing; one that fails on
  the response has taken it out of the queue all the same.\<close>

theorem uart_round_effects:
  assumes "host_tx_queue s = []" and "uart_round M hc R handler (p, s) = Done log (p', s')"
  shows "host_tx_queue s' = [] \<and> stored_reply_context s' = stored_reply_context s
    \<and> (\<forall>e. log = Some (''request'', e) \<longrightarrow> s' = s \<and> tx p' = tx p)
    \<and> (relay_handler s' \<noteq> relay_handler s \<longrightarrow>
        (\<exists>srv rq r. handler srv rq (relay_handler s) = (r, relay_handler s')))"
proof -
  obtain res p1 s1 where w: "wait_for_request M hc R handler p s = Some (res, p1, s1)"
    using assms(2) by (auto simp: uart_round_def split: option.splits)
  show ?thesis
  proof (cases res)
    case (Inl e)
    with w wait_for_request_effects[OF w assms(1)] assms show ?thesis
      by (auto simp: uart_round_def)
  next
    case (Inr u)
    with wait_for_request_effects[OF w assms(1)] obtain msg st where s1: "s1 = s\<lparr>relay_handler := st, host_tx_queue := [msg]\<rparr>"
      "\<exists>srv rq r. handler srv rq (relay_handler s) = (r, st)" by (simp only: sum.case) blast
    with w Inr assms(2) have "s' = s\<lparr>relay_handler := st, host_tx_queue := []\<rparr>" "\<forall>e. log \<noteq> Some (''request'', e)"
      by (auto simp: uart_round_def Let_def split: option.splits sum.splits)
    with s1(2) show ?thesis by simp
  qed
qed

text \<open>The time-alarm service behind a UART that delivers single bytes; the hardware is not asked.\<close>

definition evk_handler ::
  "('ck, 'dt, 'n) hal \<Rightarrow> EvkService \<Rightarrow> 'dt AcpiTimeAlarmRequest \<Rightarrow> ('ck, 'dt, 'n) ServiceInner
     \<Rightarrow> (AcpiTimeAlarmError, 'dt AcpiTimeAlarmResponse) result \<times> ('ck, 'dt, 'n) ServiceInner" where
  "evk_handler H s = time_alarm_process_request H"

definition still_hal :: "(unit, Month DatetimeFields, u32) hal" where
  "still_hal = \<lparr>clock_now = (\<lambda>_. Inl Unknown), clock_set = (\<lambda>_ c. (Inl Unknown, c)),
     nv_read = (\<lambda>n. n), nv_write = (\<lambda>v n. v), unix_timestamp = (\<lambda>_. 0), from_unix_timestamp = (\<lambda>_. leap_day)\<rparr>"

definition woken_service :: "(unit, Month DatetimeFields, u32) ServiceInner" where
  "woken_service =
     \<lparr>datetime_clock = (), tz_data = 0, power_source_signal = None, ac_timer = (timer_new 0 0)\<lparr>timer_status := 3\<rparr>,
      dc_timer = timer_new 0 0, service_capabilities = all_capabilities\<rparr>"

definition sp_context :: "unit MctpReplyContext" where
  "sp_context = \<lparr>rc_destination_endpoint_id = SP_EID, rc_source_endpoint_id = EC_EID,
     rc_packet_sequence_number = MctpSequenceNumber 2, rc_message_tag = MctpMessageTag 5, medium_context = ()\<rparr>"

theorem uart_answers_request_witness:
  "\<exists>pkt answer m.
      host_packets (MctpSerialMedium (\<lambda>_. 0)) layout_codec (host_request_kind (espi_relay_handler gregorian)) sp_context
        (host_request_header (espi_relay_handler gregorian) TimeAlarm (ClearWakeStatusRequest AcPower),
         HostRequest TimeAlarm (ClearWakeStatusRequest AcPower)) = Some [pkt]
    \<and> uart_round (MctpSerialMedium (\<lambda>_. 0)) layout_codec (espi_relay_handler gregorian) (evk_handler still_hal)
        (\<lparr>rx = map (\<lambda>b. Inr [b]) pkt, tx = [], tx_faults = []\<rparr>, default_mctp_serial woken_service)
        = Done None (\<lparr>rx = [], tx = answer, tx_faults = []\<rparr>,
            default_mctp_serial (service_clear_wake_status AcPower woken_service))
    \<and> parse_as (host_result_kind (espi_relay_handler gregorian)) (m :: unit MctpMessage)
        = Inr (create_header (espi_relay_handler gregorian) TimeAlarm (HostResult TimeAlarm (Inr OkNoData)),
            HostResult TimeAlarm (Inr OkNoData))"
proof -
  have c: "concat (map (\<lambda>b. [b]) xs) = xs" "map Inr (map (\<lambda>b. [b]) xs) @ [] = map (\<lambda>b. Inr [b]) xs"
    "[] \<notin> set (map (\<lambda>b. [b]) xs)" for xs :: "u8 list"
    by (induction xs) auto
  have sizes: "length (time_request_bytes gregorian (ClearWakeStatusRequest AcPower)) \<le> 75"
    "length (result_bytes (\<lambda>_. time_response_bytes gregorian) (\<lambda>_ _. []) (HostResult TimeAlarm (Inr OkNoData))) \<le> 75"
    by simp_all
  have ids: "valid_reply (\<lambda>_. True) sp_context" "valid_eid (Id (service_id (espi_relay_handler gregorian) TimeAlarm))"
    by (simp_all add: sp_context_def valid_reply_def SP_EID_def EC_EID_def espi_relay_handler_def)
  have handled: "evk_handler still_hal TimeAlarm (ClearWakeStatusRequest AcPower) woken_service
      = (Inr OkNoData, service_clear_wake_status AcPower woken_service)"
    by (simp add: evk_handler_def)
  obtain pkt answer m where sent: "host_packets (MctpSerialMedium (\<lambda>_. 0)) layout_codec (host_request_kind (espi_relay_handler gregorian)) sp_context
        (host_request_header (espi_relay_handler gregorian) TimeAlarm (ClearWakeStatusRequest AcPower),
         HostRequest TimeAlarm (ClearWakeStatusRequest AcPower)) = Some [pkt]"
    and rounds: "\<And>p chunks later. concat chunks = pkt \<and> [] \<notin> set chunks \<and> rx p = map Inr chunks @ later \<and> tx_faults p = []
      \<Longrightarrow> uart_round (MctpSerialMedium (\<lambda>_. 0)) layout_codec (espi_relay_handler gregorian) (evk_handler still_hal)
            (p, default_mctp_serial woken_service)
          = Done None (p\<lparr>rx := later, tx := tx p @ answer\<rparr>, default_mctp_serial (service_clear_wake_status AcPower woken_service))"
    and parsed: "parse_as (host_result_kind (espi_relay_handler gregorian)) (m :: unit MctpMessage)
        = Inr (create_header (espi_relay_handler gregorian) TimeAlarm (HostResult TimeAlarm (Inr OkNoData)),
            HostResult TimeAlarm (Inr OkNoData))"
    using uart_answers_request [where fcs_algo = "\<lambda>_. 0" and R = "espi_relay_handler gregorian" and s = TimeAlarm
        and rq = "ClearWakeStatusRequest AcPower" and handler = "evk_handler still_hal" and st = woken_service
        and r = "Inr OkNoData" and rq_bytes = "\<lambda>_. time_request_bytes gregorian"
        and ok_bytes = "\<lambda>_. time_response_bytes gregorian" and err_bytes = "\<lambda>_ _. []",
        OF evk_relay_services _ _ sizes(1) ids handled _ sizes(2)]
    by (auto simp: espi_relay_handler_def)
  have "uart_round (MctpSerialMedium (\<lambda>_. 0)) layout_codec (espi_relay_handler gregorian) (evk_handler still_hal)
        (\<lparr>rx = map (\<lambda>b. Inr [b]) pkt, tx = [], tx_faults = []\<rparr>, default_mctp_serial woken_service)
        = Done None (\<lparr>rx = [], tx = answer, tx_faults = []\<rparr>,
            default_mctp_serial (service_clear_wake_status AcPower woken_service))"
    using rounds[of "map (\<lambda>b. [b]) pkt" "\<lparr>rx = map (\<lambda>b. Inr [b]) pkt, tx = [], tx_faults = []\<rparr>" "[]"] c by simp
  with sent parsed show ?thesis by blast
qed

theorem uart_round_effects_witness:
  "\<exists>p s. uart_round (MctpSerialMedium (\<lambda>_. 0)) layout_codec (espi_relay_handler gregorian) (evk_handler still_hal)
      (\<lparr>rx = [Inr [1], Inr []], tx = [7], tx_faults = []\<rparr>, default_mctp_serial woken_service)
      = Done (Some (''request'', Comms)) (p, s) \<and> s = default_mctp_serial woken_service \<and> tx p = [7]"
proof -
  have "read_frame (MctpSerialMedium (\<lambda>_. 0) :: (MctpSerialMediumFrame, unit, capture) medium) [] \<lparr>rx = [Inr [1], Inr []], tx = [7], tx_faults = []\<rparr>
      = Some (Inl Comms, \<lparr>rx = [], tx = [7], tx_faults = []\<rparr>)"
    by (simp add: read_frame.simps uart_read_def MctpSerialMedium_def serial_frame_complete_def BUF_SIZE_def END_FLAG_def)
  then have "uart_round (MctpSerialMedium (\<lambda>_. 0)) layout_codec (espi_relay_handler gregorian) (evk_handler still_hal)
      (\<lparr>rx = [Inr [1], Inr []], tx = [7], tx_faults = []\<rparr>, default_mctp_serial woken_service)
      = Done (Some (''request'', Comms)) (\<lparr>rx = [], tx = [7], tx_faults = []\<rparr>, default_mctp_serial woken_service)"
    by (simp add: uart_round_def wait_for_request_def)
  with uart_round_effects [OF _ this] show ?thesis by (simp add: default_mctp_serial_def uart_new_def)
qed

end
