(* ===== verification/Float32.thy ===== *)
theory Float32
  imports Complex_Main Prelude
begin

text \<open>
  The \<open>f32\<close> of Rust, as far as the thermal code uses it: IEEE 754 single precision with rounding to
  nearest, ties to even. A finite value is the rational it stands for, so that the two zeros are one:
  no definition here can tell them apart, as comparisons do not and no divisor is a zero.
\<close>

datatype f32 = NaN | Infinity bool | Finite rat

subsection \<open>Rounding\<close>

text \<open>The binade of a magnitude: \<open>k\<close> for \<open>2\<^sup>k\<^sup>-\<^sup>1\<^sup>2\<^sup>6\<close> up to twice that, 0 for anything below.\<close>

primrec binade :: "nat \<Rightarrow> rat \<Rightarrow> nat" where
  "binade 0 a = 0"
| "binade (Suc k) a = (if 2 ^ Suc k / 2 ^ 126 \<le> a then Suc k else binade k a)"

definition ulp :: "rat \<Rightarrow> rat" where
  "ulp x = 2 ^ binade 253 \<bar>x\<bar> / 2 ^ 149"

definition round_even :: "rat \<Rightarrow> int" where
  "round_even x =
     (let n = \<lfloor>x\<rfloor>; r = x - of_int n
      in if r < 1 / 2 then n else if 1 / 2 < r then n + 1 else if even n then n else n + 1)"

definition rnd :: "rat \<Rightarrow> rat" where
  "rnd x = of_int (round_even (x / ulp x)) * ulp x"

definition to_f32 :: "rat \<Rightarrow> f32" where
  "to_f32 x = (if 2 ^ 128 \<le> rnd x then Infinity False else if rnd x \<le> - (2 ^ 128) then Infinity True else Finite (rnd x))"

subsection \<open>Operations\<close>

fun f_neg :: "f32 \<Rightarrow> f32" where
  "f_neg NaN = NaN"
| "f_neg (Infinity s) = Infinity (\<not> s)"
| "f_neg (Finite a) = Finite (- a)"

fun f_add :: "f32 \<Rightarrow> f32 \<Rightarrow> f32" where
  "f_add (Finite a) (Finite b) = to_f32 (a + b)"
| "f_add NaN _ = NaN"
| "f_add _ NaN = NaN"
| "f_add (Infinity s) (Infinity t) = (if s = t then Infinity s else NaN)"
| "f_add (Infinity s) _ = Infinity s"
| "f_add _ (Infinity s) = Infinity s"

definition f_sub :: "f32 \<Rightarrow> f32 \<Rightarrow> f32" where
  "f_sub a b = f_add a (f_neg b)"

fun f_mul :: "f32 \<Rightarrow> f32 \<Rightarrow> f32" where
  "f_mul (Finite a) (Finite b) = to_f32 (a * b)"
| "f_mul NaN _ = NaN"
| "f_mul _ NaN = NaN"
| "f_mul (Infinity s) (Infinity t) = Infinity (s \<noteq> t)"
| "f_mul (Infinity s) (Finite b) = (if b = 0 then NaN else Infinity (s \<noteq> (b < 0)))"
| "f_mul (Finite b) (Infinity s) = (if b = 0 then NaN else Infinity (s \<noteq> (b < 0)))"

fun f_div :: "f32 \<Rightarrow> f32 \<Rightarrow> f32" where
  "f_div (Finite a) (Finite b) =
     (if b \<noteq> 0 then to_f32 (a / b) else if a = 0 then NaN else Infinity (a < 0))"
| "f_div NaN _ = NaN"
| "f_div _ NaN = NaN"
| "f_div (Infinity _) (Infinity _) = NaN"
| "f_div (Infinity s) (Finite b) = Infinity (s \<noteq> (b < 0))"
| "f_div (Finite _) (Infinity _) = Finite 0"

fun f_le :: "f32 \<Rightarrow> f32 \<Rightarrow> bool" where
  "f_le (Finite a) (Finite b) \<longleftrightarrow> a \<le> b"
| "f_le NaN _ \<longleftrightarrow> False"
| "f_le _ NaN \<longleftrightarrow> False"
| "f_le (Infinity s) (Infinity t) \<longleftrightarrow> s \<or> \<not> t"
| "f_le (Infinity s) (Finite _) \<longleftrightarrow> s"
| "f_le (Finite _) (Infinity s) \<longleftrightarrow> \<not> s"

definition f_less :: "f32 \<Rightarrow> f32 \<Rightarrow> bool" where
  "f_less a b \<longleftrightarrow> f_le a b \<and> \<not> f_le b a"

definition of_word :: "'w::len word \<Rightarrow> f32" where
  "of_word w = to_f32 (of_nat (unat w))"

text \<open>\<open>as u16\<close> and \<open>as u32\<close>: truncation that saturates, and 0 for \<open>NaN\<close>.\<close>

fun as_word :: "f32 \<Rightarrow> 'w::len word" where
  "as_word NaN = 0"
| "as_word (Infinity s) = (if s then 0 else - 1)"
| "as_word (Finite a) =
     (if a < 0 then 0 else if 2 ^ LENGTH('w) \<le> a then - 1 else of_int \<lfloor>a\<rfloor>)"

definition f32_max :: f32 where "f32_max = Finite ((2 ^ 24 - 1) * 2 ^ 104)"
definition f32_min :: f32 where "f32_min = Finite (- ((2 ^ 24 - 1) * 2 ^ 104))"

subsection \<open>Rounding is monotone\<close>

lemma round_even_mono: "x \<le> y \<Longrightarrow> round_even x \<le> round_even y"
proof -
  assume xy: "x \<le> y"
  then have "\<lfloor>x\<rfloor> \<le> \<lfloor>y\<rfloor>" by (rule floor_mono)
  then consider "\<lfloor>x\<rfloor> = \<lfloor>y\<rfloor>" | "\<lfloor>x\<rfloor> + 1 \<le> \<lfloor>y\<rfloor>" by linarith
  then show ?thesis
    using xy by cases (auto simp: round_even_def Let_def)
qed

lemma round_even_int [simp]: "round_even (of_int n) = n"
  by (simp add: round_even_def)

lemma round_even_close: "\<bar>of_int (round_even x) - x\<bar> \<le> 1 / 2"
proof -
  have "of_int \<lfloor>x\<rfloor> \<le> x" "x < of_int \<lfloor>x\<rfloor> + 1" by linarith+
  then show ?thesis by (auto simp: round_even_def Let_def abs_le_iff)
qed

lemma round_even_minus [simp]: "round_even (- x) = - round_even x"
proof (cases "x \<in> \<int>")
  case True
  then show ?thesis by (auto elim!: Ints_cases simp flip: of_int_minus)
next
  case False
  have "\<lfloor>- x\<rfloor> = - \<lfloor>x\<rfloor> - 1"
    using False by (auto simp: floor_minus ceiling_altdef Ints_def)
  then show ?thesis by (auto simp: round_even_def Let_def)
qed

lemma binade_le: "binade n a \<le> n"
  by (induction n) (auto simp: le_Suc_eq)

lemma binade_lower: "binade n a = 0 \<or> 2 ^ binade n a / 2 ^ 126 \<le> a"
  by (induction n) simp_all

lemma binade_upper: "binade n a < n \<Longrightarrow> a < 2 ^ Suc (binade n a) / 2 ^ 126"
proof (induction n)
  case (Suc n)
  show ?case
  proof (cases "2 ^ Suc n / 2 ^ 126 \<le> a")
    case False
    then show ?thesis
      using Suc binade_le[of n a] by (cases "binade n a = n") (simp_all add: not_le)
  qed (use Suc.prems in simp)
qed simp

lemma binade_mono: "a \<le> b \<Longrightarrow> binade n a \<le> binade n b"
  by (induction n) (auto simp: le_SucI binade_le)

lemma ulp_pos [simp]: "0 < ulp x"
  by (simp add: ulp_def)

lemma ulp_minus [simp]: "ulp (- x) = ulp x"
  by (simp add: ulp_def)

lemma rnd_minus [simp]: "rnd (- x) = - rnd x"
  by (simp add: rnd_def)

lemma rnd_0 [simp]: "rnd 0 = 0"
  using round_even_int[of 0] by (simp add: rnd_def)

lemma rnd_nonneg: "0 \<le> x \<Longrightarrow> 0 \<le> rnd x"
proof -
  assume "0 \<le> x"
  then have "round_even 0 \<le> round_even (x / ulp x)" by (intro round_even_mono) (simp add: less_imp_le)
  then have "0 \<le> round_even (x / ulp x)" using round_even_int[of 0] by simp
  then show ?thesis by (simp add: rnd_def less_imp_le)
qed

lemma rnd_close: "\<bar>rnd x - x\<bar> \<le> ulp x / 2"
proof -
  have "rnd x - x = (of_int (round_even (x / ulp x)) - x / ulp x) * ulp x"
    using less_imp_neq[OF ulp_pos[of x]] by (simp add: rnd_def left_diff_distrib)
  then show ?thesis
    using mult_right_mono[OF round_even_close[of "x / ulp x"], of "ulp x"] by (simp add: abs_mult less_imp_le)
qed

text \<open>The border between two binades is a value, so that rounding does not cross it.\<close>

lemma rnd_mono_nonneg:
  assumes "0 \<le> x" and "x \<le> y"
  shows "rnd x \<le> rnd y"
proof (cases "binade 253 x = binade 253 y")
  case True
  then have u: "ulp x = ulp y" using assms by (simp add: ulp_def)
  have "x / ulp y \<le> y / ulp y" using assms(2) by (simp add: divide_right_mono less_imp_le)
  then show ?thesis using round_even_mono by (simp add: rnd_def u)
next
  case False
  define i j where "i = binade 253 x" and "j = binade 253 y"
  have ij: "i < j" using False binade_mono[OF assms(2), of 253] by (simp add: i_def j_def)
  have j: "j \<le> 253" by (simp add: j_def binade_le)
  have ux: "ulp x = 2 ^ i / 2 ^ 149" and uy: "ulp y = 2 ^ j / 2 ^ 149"
    using assms by (simp_all add: ulp_def i_def j_def)
  let ?b = "2 ^ Suc i / 2 ^ 126 :: rat"
  have "x < ?b" using binade_upper[of 253 x] ij j by (simp add: i_def)
  then have "x / ulp x \<le> ?b / ulp x" by (intro divide_right_mono) (simp_all add: less_imp_le)
  also have "\<dots> = of_int (2 ^ 24)" by (simp add: ux field_simps flip: power_add)
  finally have "round_even (x / ulp x) \<le> 2 ^ 24"
    using round_even_mono[of "x / ulp x" "of_int (2 ^ 24)"] by (simp only: round_even_int)
  then have "of_int (round_even (x / ulp x)) * ulp x \<le> of_int (2 ^ 24) * ulp x"
    by (intro mult_right_mono) (simp_all only: of_int_le_iff, simp add: less_imp_le)
  then have lo: "rnd x \<le> ?b" by (simp add: rnd_def ux field_simps flip: power_add)
  have "2 ^ j / 2 ^ 126 \<le> y" using binade_lower[of 253 y] ij by (auto simp: j_def)
  then have "2 ^ j / 2 ^ 126 / ulp y \<le> y / ulp y" by (intro divide_right_mono) (simp_all add: less_imp_le)
  moreover have "2 ^ j / 2 ^ 126 / ulp y = of_int (2 ^ 23)" by (simp add: uy)
  ultimately have "of_int (2 ^ 23) \<le> y / ulp y" by simp
  then have "2 ^ 23 \<le> round_even (y / ulp y)"
    using round_even_mono[of "of_int (2 ^ 23)" "y / ulp y"] by (simp only: round_even_int)
  then have "of_int (2 ^ 23) * ulp y \<le> of_int (round_even (y / ulp y)) * ulp y"
    by (intro mult_right_mono) (simp_all only: of_int_le_iff, simp add: less_imp_le)
  then have hi: "2 ^ j / 2 ^ 126 \<le> rnd y" by (simp add: rnd_def uy)
  have "?b \<le> 2 ^ j / 2 ^ 126" using ij by (intro divide_right_mono power_increasing) simp_all
  with lo hi show ?thesis by simp
qed

lemma rnd_mono: "x \<le> y \<Longrightarrow> rnd x \<le> rnd y"
proof -
  assume xy: "x \<le> y"
  consider "0 \<le> x" | "x < 0" "0 \<le> y" | "y < 0" by linarith
  then show ?thesis
  proof cases
    case 1
    then show ?thesis using rnd_mono_nonneg xy by blast
  next
    case 2
    then have "0 \<le> - rnd x" "0 \<le> rnd y" using rnd_nonneg[of "- x"] rnd_nonneg[of y] by simp_all
    then show ?thesis by simp
  next
    case 3
    then show ?thesis using rnd_mono_nonneg[of "- y" "- x"] xy by simp
  qed
qed

subsection \<open>Values that need no rounding\<close>

lemma rnd_exact:
  assumes "x / ulp x \<in> \<int>"
  shows "rnd x = x"
proof -
  obtain n where n: "x / ulp x = of_int n" using assms by (auto elim: Ints_cases)
  then have "rnd x = x / ulp x * ulp x" by (simp add: rnd_def)
  then show ?thesis using less_imp_neq[OF ulp_pos[of x]] by simp
qed

lemma rnd_of_int:
  assumes "\<bar>n\<bar> < 2 ^ 24"
  shows "rnd (of_int n) = of_int n"
proof (rule rnd_exact)
  let ?k = "binade 253 \<bar>of_int n\<bar>"
  have "of_int \<bar>n\<bar> < (2 ^ 24 :: rat)" using assms by (metis of_int_less_numeral_power_cancel_iff)
  then have "\<bar>of_int n\<bar> < (2 ^ 24 :: rat)" by simp
  moreover have "?k = 0 \<or> 2 ^ ?k / 2 ^ 126 \<le> \<bar>of_int n :: rat\<bar>" by (rule binade_lower)
  ultimately have "?k = 0 \<or> (2 ^ ?k :: rat) / 2 ^ 126 < 2 ^ 24" by linarith
  then have "?k = 0 \<or> (2 ^ ?k :: rat) < 2 ^ 150" by (simp add: divide_less_eq)
  moreover have "?k < 150" if "(2 ^ ?k :: rat) < 2 ^ 150"
    by (rule power_less_imp_less_exp[OF _ that]) simp
  ultimately have k: "?k \<le> 149" by linarith
  then obtain j where j: "149 = ?k + j" using le_Suc_ex by blast
  have "of_int n / ulp (of_int n) = of_int n * (2 ^ 149 / 2 ^ ?k)" by (simp add: ulp_def)
  also have "(2 ^ 149 :: rat) / 2 ^ ?k = 2 ^ j" by (subst j) (simp add: power_add)
  finally have "of_int n / ulp (of_int n) = of_int (n * 2 ^ j)" by simp
  then show "of_int n / ulp (of_int n) \<in> \<int>" by (metis Ints_of_int)
qed

lemma rnd_1 [simp]: "rnd 1 = 1"
  using rnd_of_int[of 1] by simp

lemma of_word_small:
  assumes "unat w < 2 ^ 24"
  shows "of_word w = Finite (of_nat (unat w))"
proof -
  have r: "rnd (of_int (int (unat w))) = of_int (int (unat w))"
  proof (rule rnd_of_int)
    have "int (unat w) < int (2 ^ 24)" using assms by (simp only: of_nat_less_iff)
    then show "\<bar>int (unat w)\<bar> < 2 ^ 24" by (simp only: abs_of_nat of_nat_power of_nat_numeral)
  qed
  have "(of_nat (unat w) :: rat) < of_nat (2 ^ 24)" using assms by (simp only: of_nat_less_iff)
  then have "\<not> 2 ^ 128 \<le> (of_nat (unat w) :: rat)" by simp
  moreover have "\<not> (of_nat (unat w) :: rat) \<le> - (2 ^ 128)" 
  proof -
    have "- (2 ^ 128) < (0 :: rat)" by simp
    then show ?thesis unfolding not_le by (rule less_le_trans) (rule of_nat_0_le_iff)
  qed
  ultimately show ?thesis using r by (simp only: of_word_def to_f32_def of_int_of_nat_eq if_False)
qed

lemma of_word_u16 [simp]: "of_word (w :: u16) = Finite (of_nat (unat w))"
proof (rule of_word_small)
  have "unat w < 2 ^ LENGTH(16)" by (rule unsigned_less)
  then show "unat w < 2 ^ 24" by simp
qed

lemma to_f32_int: "\<bar>n\<bar> < 2 ^ 24 \<Longrightarrow> to_f32 (of_int n) = Finite (of_int n)"
proof -
  assume n: "\<bar>n\<bar> < 2 ^ 24"
  then have "of_int \<bar>n\<bar> < (of_int (2 ^ 24) :: rat)" by (simp only: of_int_less_iff)
  then have "\<bar>of_int n :: rat\<bar> < 2 ^ 24" by simp
  then have "\<not> 2 ^ 128 \<le> (of_int n :: rat)" "\<not> of_int n \<le> - (2 ^ 128 :: rat)" by (simp_all add: abs_less_iff)
  then show ?thesis by (simp only: to_f32_def rnd_of_int[OF n] if_False)
qed

lemma to_f32_numeral: "(numeral k :: int) < 2 ^ 24 \<Longrightarrow> to_f32 (numeral k) = Finite (numeral k)"
  using to_f32_int[of "numeral k"] by simp

lemma to_f32_0 [simp]: "to_f32 0 = Finite 0"
  using to_f32_int[of 0] by simp

text \<open>How far rounding moves a value below a power of two.\<close>

lemma rnd_error:
  assumes "\<bar>x\<bar> < 2 ^ Suc n / 2 ^ 126" and "n \<le> 253"
  shows "\<bar>rnd x - x\<bar> \<le> 2 ^ n / 2 ^ 150"
proof -
  have "binade 253 \<bar>x\<bar> \<le> n"
  proof (rule ccontr)
    assume "\<not> binade 253 \<bar>x\<bar> \<le> n"
    then have "2 ^ Suc n / 2 ^ 126 \<le> (2 ^ binade 253 \<bar>x\<bar> / 2 ^ 126 :: rat)"
      by (intro divide_right_mono power_increasing) simp_all
    then show False using binade_lower[of 253 "\<bar>x\<bar>"] \<open>\<not> binade 253 \<bar>x\<bar> \<le> n\<close> assms(1) by auto
  qed
  then have "ulp x \<le> 2 ^ n / 2 ^ 149" by (simp add: ulp_def divide_right_mono power_increasing)
  then show ?thesis using rnd_close[of x] by simp
qed

subsection \<open>Comparisons\<close>

lemma f_le_refl [simp]: "f_le a a \<longleftrightarrow> a \<noteq> NaN"
  by (cases a) auto

lemma f_le_total: "a \<noteq> NaN \<Longrightarrow> b \<noteq> NaN \<Longrightarrow> f_le a b \<or> f_le b a"
  by (cases a; cases b) auto

lemma f_le_trans: "f_le a b \<Longrightarrow> f_le b c \<Longrightarrow> f_le a c"
  by (cases a; cases b; cases c) auto

lemma f_le_numbers: "f_le a b \<Longrightarrow> a \<noteq> NaN \<and> b \<noteq> NaN"
  by (cases a; cases b) auto

lemma f_less_not_le: "a \<noteq> NaN \<Longrightarrow> b \<noteq> NaN \<Longrightarrow> f_less a b \<longleftrightarrow> \<not> f_le b a"
  using f_le_total by (auto simp: f_less_def)

lemma f_le_to_f32: "x \<le> y \<Longrightarrow> f_le (to_f32 x) (to_f32 y)"
  using rnd_mono[of x y] by (auto simp: to_f32_def)

lemma to_f32_not_NaN [simp]: "to_f32 x \<noteq> NaN"
  by (simp add: to_f32_def)

lemma f_le_extremes [simp]: "f_le (Infinity True) a \<longleftrightarrow> a \<noteq> NaN" "f_le a (Infinity False) \<longleftrightarrow> a \<noteq> NaN"
  by (cases a; simp)+

text \<open>A rational that a variable of type \<open>f32\<close> can hold.\<close>

definition is_f32 :: "f32 \<Rightarrow> bool" where
  "is_f32 a \<longleftrightarrow> (case a of Finite x \<Rightarrow> rnd x = x \<and> \<bar>x\<bar> < 2 ^ 128 | _ \<Rightarrow> True)"

lemma is_f32_int: "\<bar>n\<bar> < 2 ^ 24 \<Longrightarrow> is_f32 (Finite (of_int n))"
proof -
  assume n: "\<bar>n\<bar> < 2 ^ 24"
  then have "of_int \<bar>n\<bar> < (of_int (2 ^ 24) :: rat)" by (simp only: of_int_less_iff)
  then have "\<bar>of_int n :: rat\<bar> < 2 ^ 128" by simp
  then show ?thesis using rnd_of_int[OF n] by (simp add: is_f32_def)
qed

lemma to_f32_value: "is_f32 (Finite x) \<Longrightarrow> to_f32 x = Finite x"
  by (auto simp: is_f32_def to_f32_def abs_less_iff)

text \<open>Subtracting a non-negative number goes down.\<close>

lemma f_sub_le: "is_f32 a \<Longrightarrow> a \<noteq> NaN \<Longrightarrow> f_le (Finite 0) h \<Longrightarrow> f_sub a h = NaN \<or> f_le (f_sub a h) a"
proof (cases a; cases h)
  fix x y assume a: "is_f32 a" "f_le (Finite 0) h" "a = Finite x" "h = Finite y"
  then have "f_le (to_f32 (x - y)) (to_f32 x)" by (intro f_le_to_f32) simp
  with a show ?thesis by (simp add: f_sub_def to_f32_value)
qed (auto simp: f_sub_def split: if_splits)

lemma f_le_add: "is_f32 a \<Longrightarrow> a \<noteq> NaN \<Longrightarrow> f_le (Finite 0) h \<Longrightarrow> f_add a h = NaN \<or> f_le a (f_add a h)"
proof (cases a; cases h)
  fix x y assume a: "is_f32 a" "f_le (Finite 0) h" "a = Finite x" "h = Finite y"
  then have "f_le (to_f32 x) (to_f32 (x + y))" by (intro f_le_to_f32) simp
  with a show ?thesis by (simp add: to_f32_value)
qed (auto split: if_splits)

text \<open>Evaluation: the binade of a number is given, not searched for.\<close>

lemma binade_eq:
  assumes "2 ^ k / 2 ^ 126 \<le> a" and "a < 2 ^ Suc k / 2 ^ 126" and "k \<le> n"
  shows "binade n a = k"
proof -
  have "k \<le> binade n a"
  proof (rule ccontr)
    assume l: "\<not> k \<le> binade n a"
    then have "a < 2 ^ Suc (binade n a) / 2 ^ 126" using assms(3) by (intro binade_upper) simp
    also have "\<dots> \<le> 2 ^ k / 2 ^ 126" using l by (intro divide_right_mono power_increasing) simp_all
    finally show False using assms(1) by simp
  qed
  moreover have "binade n a \<le> k"
  proof (rule ccontr)
    assume l: "\<not> binade n a \<le> k"
    then have "2 ^ Suc k / 2 ^ 126 \<le> (2 ^ binade n a / 2 ^ 126 :: rat)"
      by (intro divide_right_mono power_increasing) simp_all
    then show False using binade_lower[of n a] l assms(2) by auto
  qed
  ultimately show ?thesis by simp
qed

lemma rnd_eval:
  assumes "2 ^ k / 2 ^ 126 \<le> \<bar>x\<bar>" and "\<bar>x\<bar> < 2 ^ Suc k / 2 ^ 126" and "k \<le> 253"
  shows "rnd x = of_int (round_even (x * 2 ^ 149 / 2 ^ k)) * 2 ^ k / 2 ^ 149"
  using binade_eq[OF assms] by (simp add: rnd_def ulp_def)

end
