(* ===== verification/Thermal_Sensor.thy ===== *)
theory Thermal_Sensor
  imports Float32
begin

text \<open>
  The temperature sensor service: \<open>thermal-service/src/utils.rs\<close>, \<open>sensor.rs\<close> and the types of
  \<open>thermal-service-interface/src/sensor.rs\<close>. The runner is a state with a step for each bus access,
  each elapsed sleep and each signal; the calls of clients may come in between. A bus access that
  times out is one that fails. A \<open>Duration\<close> is a number of ticks.
\<close>

subsection \<open>Sample buffers\<close>

text \<open>A \<open>Deque\<close> of capacity \<open>n\<close>, front first.\<close>

definition sample_push :: "nat \<Rightarrow> 'a \<Rightarrow> 'a list \<Rightarrow> 'a list" where
  "sample_push n sample deque =
     (let deque = (if length deque = n then butlast deque else deque)
      in if length deque < n then sample # deque else deque)"

definition sample_recent :: "'a \<Rightarrow> 'a list \<Rightarrow> 'a" where
  "sample_recent d deque = (case deque of [] \<Rightarrow> d | x # _ \<Rightarrow> x)"

definition sample_average_f32 :: "f32 list \<Rightarrow> f32" where
  "sample_average_f32 deque =
     (let len = length deque
      in if len = 0 then Finite 0 else f_div (foldl f_add (Finite 0) deque) (to_f32 (of_nat len)))"

definition sample_average_u16 :: "u16 list \<Rightarrow> u16" where
  "sample_average_u16 deque =
     (let sum = (\<Sum>x\<leftarrow>deque. ucast x :: u32); len = (of_nat (length deque) :: u32)
      in ucast (if len = 0 then 0 else sum div len))"

subsection \<open>The service\<close>

datatype SensorError = SensorHardware | RetryExhausted

datatype Threshold = WarnLow | WarnHigh | Prochot | Critical

datatype SensorEvent =
    ThresholdExceeded Threshold
  | ThresholdCleared Threshold
  | SensorFailure SensorError

record SensorConfig =
  sample_period :: u64
  fast_sample_period :: u64
  sampling_enabled :: bool
  sensor_hysteresis :: f32
  warn_low_threshold :: f32
  warn_high_threshold :: f32
  prochot_threshold :: f32
  critical_threshold :: f32
  fast_sampling_threshold :: f32
  sensor_offset :: f32
  retry_attempts :: u8

text \<open>\<open>Duration::from_millis\<close> depends on the tick rate, which is a parameter.\<close>

definition sensor_config_default :: "(nat \<Rightarrow> u64) \<Rightarrow> SensorConfig" where
  "sensor_config_default from_millis =
     \<lparr>sample_period = from_millis 1000, fast_sample_period = from_millis 200, sampling_enabled = True,
      sensor_hysteresis = Finite 2, warn_low_threshold = f32_min, warn_high_threshold = f32_max,
      prochot_threshold = f32_max, critical_threshold = f32_max, fast_sampling_threshold = f32_max,
      sensor_offset = Finite 0, retry_attempts = 5\<rparr>"

record SensorService =
  sensor_en_signal :: bool
  sensor_config :: SensorConfig
  sensor_samples :: "f32 list"

definition sensor_new :: "SensorConfig \<Rightarrow> SensorService" where
  "sensor_new config = \<lparr>sensor_en_signal = False, sensor_config = config, sensor_samples = []\<rparr>"

text \<open>The macro \<open>with_retry\<close>, given what the bus answers to each access.\<close>

primrec retry :: "nat \<Rightarrow> (nat \<Rightarrow> 'a option) \<Rightarrow> (SensorError, 'a) result" where
  "retry 0 bus = Inl RetryExhausted"
| "retry (Suc attempts) bus =
     (case bus 0 of Some val \<Rightarrow> Inr val | None \<Rightarrow> retry attempts (\<lambda>i. bus (Suc i)))"

definition temperature :: "SensorService \<Rightarrow> f32" where
  "temperature s = sample_recent (Finite 0) (sensor_samples s)"

definition temperature_average :: "SensorService \<Rightarrow> f32" where
  "temperature_average s = sample_average_f32 (sensor_samples s)"

definition temperature_immediate :: "(nat \<Rightarrow> f32 option) \<Rightarrow> SensorService \<Rightarrow> (SensorError, f32) result" where
  "temperature_immediate bus s =
     map_sum (\<lambda>e. e) (\<lambda>temperature. f_add temperature (sensor_offset (sensor_config s)))
       (retry (unat (retry_attempts (sensor_config s))) bus)"

definition on_sensor_config :: "(SensorConfig \<Rightarrow> SensorConfig) \<Rightarrow> SensorService \<Rightarrow> SensorService" where
  "on_sensor_config f s = s\<lparr>sensor_config := f (sensor_config s)\<rparr>"

fun put_threshold :: "Threshold \<Rightarrow> f32 \<Rightarrow> SensorConfig \<Rightarrow> SensorConfig" where
  "put_threshold WarnLow v c = c\<lparr>warn_low_threshold := v\<rparr>"
| "put_threshold WarnHigh v c = c\<lparr>warn_high_threshold := v\<rparr>"
| "put_threshold Prochot v c = c\<lparr>prochot_threshold := v\<rparr>"
| "put_threshold Critical v c = c\<lparr>critical_threshold := v\<rparr>"

fun get_threshold :: "Threshold \<Rightarrow> SensorConfig \<Rightarrow> f32" where
  "get_threshold WarnLow c = warn_low_threshold c"
| "get_threshold WarnHigh c = warn_high_threshold c"
| "get_threshold Prochot c = prochot_threshold c"
| "get_threshold Critical c = critical_threshold c"

definition set_threshold :: "Threshold \<Rightarrow> f32 \<Rightarrow> SensorService \<Rightarrow> SensorService" where
  "set_threshold t v = on_sensor_config (put_threshold t v)"

definition threshold :: "Threshold \<Rightarrow> SensorService \<Rightarrow> f32" where
  "threshold t s = get_threshold t (sensor_config s)"

definition set_sample_period :: "u64 \<Rightarrow> SensorService \<Rightarrow> SensorService" where
  "set_sample_period period = on_sensor_config (\<lambda>c. c\<lparr>sample_period := period\<rparr>)"

definition enable_sampling :: "SensorService \<Rightarrow> SensorService" where
  "enable_sampling s = (on_sensor_config (\<lambda>c. c\<lparr>sampling_enabled := True\<rparr>) s)\<lparr>sensor_en_signal := True\<rparr>"

definition disable_sampling :: "SensorService \<Rightarrow> SensorService" where
  "disable_sampling = on_sensor_config (\<lambda>c. c\<lparr>sampling_enabled := False\<rparr>)"

subsection \<open>The runner\<close>

record SensorState =
  is_warn_low :: bool
  is_warn_high :: bool
  is_prochot :: bool
  is_critical :: bool

text \<open>Where the runner awaits: a bus access with the configuration of the round and the attempts left,
  a sleep, or the signal of \<open>enable_sampling\<close>.\<close>

datatype SensorPhase = Accessing SensorConfig nat | SensorSleep u64 | AwaitEnable

record SensorRunner =
  sensor :: SensorService
  sensor_state :: SensorState
  sensor_phase :: SensorPhase
  sensor_events :: "SensorEvent list" \<comment> \<open>broadcast so far; a sender that is full only logs\<close>

definition sensor_broadcast :: "SensorEvent \<Rightarrow> SensorRunner \<Rightarrow> SensorRunner" where
  "sensor_broadcast e r = r\<lparr>sensor_events := sensor_events r @ [e]\<rparr>"

text \<open>One of the four blocks of \<open>check_thresholds\<close>: the flag and the events.\<close>

definition check_high :: "Threshold \<Rightarrow> f32 \<Rightarrow> f32 \<Rightarrow> f32 \<Rightarrow> bool \<Rightarrow> bool \<times> SensorEvent list" where
  "check_high t limit hysteresis temp flag =
     (if f_le limit temp \<and> \<not> flag then (True, [ThresholdExceeded t])
      else if f_less temp (f_sub limit hysteresis) \<and> flag then (False, [ThresholdCleared t])
      else (flag, []))"

definition check_low :: "Threshold \<Rightarrow> f32 \<Rightarrow> f32 \<Rightarrow> f32 \<Rightarrow> bool \<Rightarrow> bool \<times> SensorEvent list" where
  "check_low t limit hysteresis temp flag =
     (if f_le temp limit \<and> \<not> flag then (True, [ThresholdExceeded t])
      else if f_less (f_add limit hysteresis) temp \<and> flag then (False, [ThresholdCleared t])
      else (flag, []))"

definition check_thresholds :: "f32 \<Rightarrow> SensorRunner \<Rightarrow> SensorRunner" where
  "check_thresholds temp r =
     (let config = sensor_config (sensor r); h = sensor_hysteresis config; st = sensor_state r;
          (warn_high, e1) = check_high WarnHigh (warn_high_threshold config) h temp (is_warn_high st);
          (warn_low, e2) = check_low WarnLow (warn_low_threshold config) h temp (is_warn_low st);
          (prochot, e3) = check_high Prochot (prochot_threshold config) h temp (is_prochot st);
          (critical, e4) = check_high Critical (critical_threshold config) h temp (is_critical st)
      in fold sensor_broadcast (e1 @ e2 @ e3 @ e4)
           (r\<lparr>sensor_state := \<lparr>is_warn_low = warn_low, is_warn_high = warn_high, is_prochot = prochot,
                is_critical = critical\<rparr>\<rparr>))"

text \<open>The top of the loop, up to the next await.\<close>

definition sensor_disable :: "SensorRunner \<Rightarrow> SensorRunner" where
  "sensor_disable r =
     sensor_broadcast (SensorFailure RetryExhausted)
       (r\<lparr>sensor := disable_sampling (sensor r), sensor_phase := AwaitEnable\<rparr>)"

definition sensor_loop :: "SensorRunner \<Rightarrow> SensorRunner" where
  "sensor_loop r =
     (let config = sensor_config (sensor r)
      in if sampling_enabled config then
           (if retry_attempts config = 0 then sensor_disable r
            else r\<lparr>sensor_phase := Accessing config (unat (retry_attempts config))\<rparr>)
         else r\<lparr>sensor_phase := AwaitEnable\<rparr>)"

definition sensor_reading :: "nat \<Rightarrow> SensorConfig \<Rightarrow> f32 \<Rightarrow> SensorRunner \<Rightarrow> SensorRunner" where
  "sensor_reading n config val r =
     (let temp = f_add val (sensor_offset config);
          r = r\<lparr>sensor := (sensor r)\<lparr>sensor_samples := sample_push n temp (sensor_samples (sensor r))\<rparr>\<rparr>;
          r = check_thresholds temp r;
          sleep_duration = (if f_le (fast_sampling_threshold config) temp then fast_sample_period config
                            else sample_period config)
      in r\<lparr>sensor_phase := SensorSleep sleep_duration\<rparr>)"

text \<open>What can happen: the bus answers or fails, the sleep is over, the signal is taken, a client calls.\<close>

datatype sensor_client =
    SetThreshold Threshold f32
  | SetSamplePeriod u64
  | EnableSampling
  | DisableSampling

fun sensor_call :: "sensor_client \<Rightarrow> SensorService \<Rightarrow> SensorService" where
  "sensor_call (SetThreshold t v) = set_threshold t v"
| "sensor_call (SetSamplePeriod period) = set_sample_period period"
| "sensor_call EnableSampling = enable_sampling"
| "sensor_call DisableSampling = disable_sampling"

datatype sensor_step = BusAnswer f32 | BusFailure | SensorWake | SignalTaken | SensorClient sensor_client

fun sensor_run_step :: "nat \<Rightarrow> sensor_step \<Rightarrow> SensorRunner \<Rightarrow> SensorRunner option" where
  "sensor_run_step n (BusAnswer v) r =
     (case sensor_phase r of Accessing config k \<Rightarrow> Some (sensor_reading n config v r) | _ \<Rightarrow> None)"
| "sensor_run_step n BusFailure r =
     (case sensor_phase r of
        Accessing config k \<Rightarrow>
          Some (if k \<le> 1 then sensor_disable r else r\<lparr>sensor_phase := Accessing config (k - 1)\<rparr>)
      | _ \<Rightarrow> None)"
| "sensor_run_step n SensorWake r = (case sensor_phase r of SensorSleep _ \<Rightarrow> Some (sensor_loop r) | _ \<Rightarrow> None)"
| "sensor_run_step n SignalTaken r =
     (if sensor_phase r = AwaitEnable \<and> sensor_en_signal (sensor r)
      then Some (sensor_loop (r\<lparr>sensor := (sensor r)\<lparr>sensor_en_signal := False\<rparr>\<rparr>)) else None)"
| "sensor_run_step n (SensorClient c) r = Some (r\<lparr>sensor := sensor_call c (sensor r)\<rparr>)"

fun sensor_run :: "nat \<Rightarrow> sensor_step list \<Rightarrow> SensorRunner \<Rightarrow> SensorRunner option" where
  "sensor_run n [] r = Some r"
| "sensor_run n (e # es) r = (case sensor_run_step n e r of None \<Rightarrow> None | Some r \<Rightarrow> sensor_run n es r)"

definition sensor_start :: "SensorConfig \<Rightarrow> SensorRunner" where
  "sensor_start config =
     sensor_loop \<lparr>sensor = sensor_new config,
       sensor_state = \<lparr>is_warn_low = False, is_warn_high = False, is_prochot = False, is_critical = False\<rparr>,
       sensor_phase = AwaitEnable, sensor_events = []\<rparr>"

subsection \<open>Sample buffers hold the last samples\<close>

lemma sample_push_take: "sample_push n x (take n xs) = take n (x # xs)"
proof (cases n)
  case (Suc m)
  then show ?thesis
    by (cases "length xs < n") (auto simp: sample_push_def Let_def butlast_take min_def not_less)
qed (simp add: sample_push_def)

lemma sample_pushes: "foldl (\<lambda>d x. sample_push n x d) (take n ys) xs = take n (rev xs @ ys)"
  by (induction xs arbitrary: ys) (simp_all add: sample_push_take)

lemma unat_u16: "unat (x :: u16) \<le> 65535"
proof -
  have "unat x < 2 ^ LENGTH(16)" by (rule unsigned_less)
  then show ?thesis by simp
qed

lemma unat_u16_up [simp]: "unat (ucast (x :: u16) :: u32) = unat x"
  using unat_u16[of x] by (simp add: unsigned_ucast_eq take_bit_nat_eq_self)

lemma sum_u16_le: "(\<Sum>x\<leftarrow>xs. unat (x :: u16)) \<le> 65535 * length xs"
proof (induction xs)
  case (Cons x xs)
  then show ?case using unat_u16[of x] by simp
qed simp

lemma sum_u16:
  assumes "length xs \<le> 65537"
  shows "unat (\<Sum>x\<leftarrow>xs. ucast (x :: u16) :: u32) = (\<Sum>x\<leftarrow>xs. unat x)"
  using assms
proof (induction xs)
  case (Cons x xs)
  have "unat x + (\<Sum>x\<leftarrow>xs. unat x) < 2 ^ 32"
    using sum_u16_le[of "x # xs"] Cons.prems by simp
  then show ?case using Cons by (simp add: unat_word_ariths)
qed simp

text \<open>The contract of the ring: the last \<open>n\<close> samples, latest first; the integer average is exact.\<close>

lemma average_u16:
  assumes "length xs \<le> 65537"
  shows "unat (sample_average_u16 xs) = (\<Sum>x\<leftarrow>xs. unat x) div length xs"
proof (cases "xs = []")
  case False
  let ?sum = "\<Sum>x\<leftarrow>xs. ucast x :: u32" and ?len = "of_nat (length xs) :: u32"
  have len: "unat ?len = length xs" using assms by (simp add: unat_of_nat)
  have "?len \<noteq> 0" using len False by (metis length_0_conv unat_0)
  moreover have q: "unat (?sum div ?len) = (\<Sum>x\<leftarrow>xs. unat x) div length xs"
    using sum_u16[OF assms] len by (simp add: unat_div_distrib)
  moreover have "(\<Sum>x\<leftarrow>xs. unat x) div length xs \<le> 65535"
    using div_le_mono[OF sum_u16_le[of xs], of "length xs"] False by simp
  ultimately show ?thesis
    by (simp add: sample_average_u16_def Let_def unsigned_ucast_eq take_bit_nat_eq_self)
qed (simp add: sample_average_u16_def)

subsection \<open>Thresholds\<close>

fun flag_of :: "Threshold \<Rightarrow> SensorState \<Rightarrow> bool" where
  "flag_of WarnLow s = is_warn_low s"
| "flag_of WarnHigh s = is_warn_high s"
| "flag_of Prochot s = is_prochot s"
| "flag_of Critical s = is_critical s"

text \<open>The events of a threshold, \<open>True\<close> for exceeded, and what they amount to.\<close>

definition crossings :: "Threshold \<Rightarrow> SensorEvent list \<Rightarrow> bool list" where
  "crossings t es =
     concat (map (\<lambda>e. case e of
        ThresholdExceeded t' \<Rightarrow> if t' = t then [True] else []
      | ThresholdCleared t' \<Rightarrow> if t' = t then [False] else []
      | SensorFailure _ \<Rightarrow> []) es)"

fun alternates :: "bool \<Rightarrow> bool list \<Rightarrow> bool" where
  "alternates b [] = True"
| "alternates b (x # xs) \<longleftrightarrow> x \<noteq> b \<and> alternates x xs"

lemma alternates_append: "alternates b (xs @ ys) \<longleftrightarrow> alternates b xs \<and> alternates (last (b # xs)) ys"
  by (induction xs arbitrary: b) auto

lemma last_Cons_append: "last (b # xs @ ys) = last (last (b # xs) # ys)"
  by simp

lemma crossings_simps [simp]:
  "crossings t [] = []" "crossings t (es @ es') = crossings t es @ crossings t es'"
  "crossings t (ThresholdExceeded t' # es) = (if t' = t then [True] else []) @ crossings t es"
  "crossings t (ThresholdCleared t' # es) = (if t' = t then [False] else []) @ crossings t es"
  "crossings t (SensorFailure e # es) = crossings t es"
  by (simp_all add: crossings_def)

definition flags_told :: "SensorRunner \<Rightarrow> bool" where
  "flags_told r \<longleftrightarrow>
     (\<forall>t. alternates False (crossings t (sensor_events r))
        \<and> flag_of t (sensor_state r) = last (False # crossings t (sensor_events r)))"

lemma fold_broadcast: "fold sensor_broadcast es r = r\<lparr>sensor_events := sensor_events r @ es\<rparr>"
  by (induction es arbitrary: r) (simp_all add: sensor_broadcast_def)

text \<open>The block of a threshold: its new flag and the events it causes.\<close>

definition check :: "Threshold \<Rightarrow> SensorConfig \<Rightarrow> f32 \<Rightarrow> bool \<Rightarrow> bool \<times> SensorEvent list" where
  "check t c temp =
     (if t = WarnLow then check_low t (get_threshold t c) (sensor_hysteresis c) temp
      else check_high t (get_threshold t c) (sensor_hysteresis c) temp)"

lemma check_outcomes:
  "check t c temp f = (f, []) \<or> \<not> f \<and> check t c temp f = (True, [ThresholdExceeded t])
    \<or> f \<and> check t c temp f = (False, [ThresholdCleared t])"
  by (simp add: check_def check_low_def check_high_def)

lemma check_cases:
  obtains "check t c temp f = (f, [])"
  | "\<not> f" "check t c temp f = (True, [ThresholdExceeded t])"
  | "f" "check t c temp f = (False, [ThresholdCleared t])"
  using check_outcomes by blast

lemma check_thresholds_eq:
  fixes r :: SensorRunner
  defines "c \<equiv> sensor_config (sensor r)" and "st \<equiv> sensor_state r"
  shows "\<exists>st'. check_thresholds temp r = r\<lparr>sensor_state := st', sensor_events := sensor_events r
        @ snd (check WarnHigh c temp (flag_of WarnHigh st)) @ snd (check WarnLow c temp (flag_of WarnLow st))
        @ snd (check Prochot c temp (flag_of Prochot st)) @ snd (check Critical c temp (flag_of Critical st))\<rparr>
    \<and> (\<forall>t. flag_of t st' = fst (check t c temp (flag_of t st)))"
proof -
  let ?st' = "\<lparr>is_warn_low = fst (check WarnLow c temp (flag_of WarnLow st)),
      is_warn_high = fst (check WarnHigh c temp (flag_of WarnHigh st)),
      is_prochot = fst (check Prochot c temp (flag_of Prochot st)),
      is_critical = fst (check Critical c temp (flag_of Critical st))\<rparr>"
  have "flag_of t ?st' = fst (check t c temp (flag_of t st))" for t by (cases t) simp_all
  then show ?thesis
    by (intro exI[of _ ?st'])
      (simp add: check_thresholds_def Let_def fold_broadcast case_prod_beta check_def c_def st_def)
qed

lemma crossings_check [simp]: "t' \<noteq> t \<Longrightarrow> crossings t (snd (check t' c temp f)) = []"
  by (rule check_cases[of t' c temp f]) auto

lemma check_thresholds_told: "flags_told r \<Longrightarrow> flags_told (check_thresholds temp r)"
proof -
  assume told: "flags_told r"
  let ?c = "sensor_config (sensor r)"
  obtain st' where r': "check_thresholds temp r = r\<lparr>sensor_state := st', sensor_events := sensor_events r
        @ snd (check WarnHigh ?c temp (flag_of WarnHigh (sensor_state r))) @ snd (check WarnLow ?c temp (flag_of WarnLow (sensor_state r)))
        @ snd (check Prochot ?c temp (flag_of Prochot (sensor_state r))) @ snd (check Critical ?c temp (flag_of Critical (sensor_state r)))\<rparr>"
    and st': "\<forall>t. flag_of t st' = fst (check t ?c temp (flag_of t (sensor_state r)))"
    using check_thresholds_eq[of temp r] by auto
  show ?thesis
    unfolding flags_told_def
  proof
    fix t
    let ?f = "flag_of t (sensor_state r)"
    have "crossings t (sensor_events (check_thresholds temp r)) = crossings t (sensor_events r) @ crossings t (snd (check t ?c temp ?f))"
      by (cases t) (simp_all add: r')
    then have "alternates False (crossings t (sensor_events (check_thresholds temp r)))
        \<longleftrightarrow> alternates ?f (crossings t (snd (check t ?c temp ?f)))"
      "last (False # crossings t (sensor_events (check_thresholds temp r))) = last (?f # crossings t (snd (check t ?c temp ?f)))"
      using told by (simp_all only: flags_told_def alternates_append last_Cons_append simp_thms)
    moreover have "flag_of t (sensor_state (check_thresholds temp r)) = fst (check t ?c temp ?f)" using st' by (simp add: r')
    ultimately show "alternates False (crossings t (sensor_events (check_thresholds temp r)))
        \<and> flag_of t (sensor_state (check_thresholds temp r)) = last (False # crossings t (sensor_events (check_thresholds temp r)))"
      by (cases rule: check_cases[of t ?c temp ?f]) simp_all
  qed
qed

lemma told_simps [simp]:
  "flags_told (r\<lparr>sensor := s\<rparr>) = flags_told r" "flags_told (r\<lparr>sensor_phase := p\<rparr>) = flags_told r"
  "flags_told (sensor_broadcast (SensorFailure e) r) = flags_told r"
  by (simp_all add: flags_told_def sensor_broadcast_def)

lemma sensor_loop_told [simp]: "flags_told (sensor_disable r) = flags_told r" "flags_told (sensor_loop r) = flags_told r"
  by (simp_all add: sensor_disable_def sensor_loop_def Let_def)

lemma sensor_step_told: "sensor_run_step n e r = Some r' \<Longrightarrow> flags_told r \<Longrightarrow> flags_told r'"
  by (cases e) (auto simp: sensor_reading_def Let_def check_thresholds_told split: SensorPhase.splits if_splits)

lemma sensor_run_told: "sensor_run n es r = Some r' \<Longrightarrow> flags_told r \<Longrightarrow> flags_told r'"
  by (induction n es r rule: sensor_run.induct) (auto split: option.splits dest: sensor_step_told)

lemma sensor_start_told: "flags_told (sensor_start config)"
proof -
  have "\<not> flag_of t \<lparr>is_warn_low = False, is_warn_high = False, is_prochot = False, is_critical = False\<rparr>" for t
    by (cases t) simp_all
  then show ?thesis by (simp add: sensor_start_def) (simp add: flags_told_def)
qed

lemma check_settled:
  assumes "is_f32 (get_threshold t c)" and "f_le (Finite 0) (sensor_hysteresis c)"
    and "check t c temp f = (f', es)"
  shows "check t c temp f' = (f', [])"
    and "t \<noteq> WarnLow \<Longrightarrow> f_le (get_threshold t c) temp \<Longrightarrow> f'"
    and "t \<noteq> WarnLow \<Longrightarrow> f_less temp (f_sub (get_threshold t c) (sensor_hysteresis c)) \<Longrightarrow> \<not> f'"
    and "f_le temp (get_threshold WarnLow c) \<Longrightarrow> t = WarnLow \<Longrightarrow> f'"
    and "f_less (f_add (get_threshold WarnLow c) (sensor_hysteresis c)) temp \<Longrightarrow> t = WarnLow \<Longrightarrow> \<not> f'"
proof -
  let ?l = "get_threshold t c" and ?h = "sensor_hysteresis c"
  have high: "\<not> f_less temp (f_sub ?l ?h)" if "f_le ?l temp"
    using that assms(2) f_sub_le[OF assms(1), of ?h] f_le_numbers f_le_trans unfolding f_less_def
    by (metis f_le.simps(2) f_le_total)
  have low: "\<not> f_less (f_add ?l ?h) temp" if "f_le temp ?l"
    using that assms(2) f_le_add[OF assms(1), of ?h] f_le_numbers f_le_trans unfolding f_less_def
    by (metis f_le.simps(2) f_le_total)
  show "check t c temp f' = (f', [])"
    and "t \<noteq> WarnLow \<Longrightarrow> f_le (get_threshold t c) temp \<Longrightarrow> f'"
    and "t \<noteq> WarnLow \<Longrightarrow> f_less temp (f_sub (get_threshold t c) (sensor_hysteresis c)) \<Longrightarrow> \<not> f'"
    and "f_le temp (get_threshold WarnLow c) \<Longrightarrow> t = WarnLow \<Longrightarrow> f'"
    and "f_less (f_add (get_threshold WarnLow c) (sensor_hysteresis c)) temp \<Longrightarrow> t = WarnLow \<Longrightarrow> \<not> f'"
    using assms(3) high low by (auto simp: check_def check_low_def check_high_def split: if_splits)
qed

lemma retry_failures:
  assumes "sensor_phase r = Accessing config k" and "j < k"
  shows "sensor_run n (replicate j BusFailure) r = Some (r\<lparr>sensor_phase := Accessing config (k - j)\<rparr>)"
  using assms
proof (induction j arbitrary: r k)
  case (Suc j)
  then show ?case by (cases k) (auto simp: not_le)
qed simp

lemma sensor_run_append:
  "sensor_run n (es @ es') r = (case sensor_run n es r of None \<Rightarrow> None | Some r \<Rightarrow> sensor_run n es' r)"
  by (induction n es r rule: sensor_run.induct) (simp_all split: option.splits)

subsection \<open>Properties\<close>

text \<open>C7. For every threshold the events alternate, exceeded first: whatever the readings, failures and
  calls of clients that change the limits, no event is sent twice in a row, and the flag of the runner
  tells which one was last.\<close>

theorem sensor_events_alternate:
  assumes "sensor_run n steps (sensor_start config) = Some r"
  shows "alternates False (crossings t (sensor_events r))
    \<and> flag_of t (sensor_state r) = last (False # crossings t (sensor_events r))"
  using sensor_run_told[OF assms sensor_start_told] by (simp add: flags_told_def)

text \<open>A check leaves the flag of a high limit set if the temperature is at or above it and clear if it
  is below by more than the hysteresis, dually for the low limit; a second check of the same temperature
  sends nothing, however \<open>f32\<close> rounds and even for limits that are infinite or not a number.\<close>

theorem sensor_check_settles:
  assumes "\<forall>t. is_f32 (threshold t (sensor r))" and "f_le (Finite 0) (sensor_hysteresis (sensor_config (sensor r)))"
  shows "let r' = check_thresholds temp r; h = sensor_hysteresis (sensor_config (sensor r))
    in check_thresholds temp r' = r'
     \<and> (\<forall>t. t \<noteq> WarnLow \<longrightarrow> f_le (threshold t (sensor r)) temp \<longrightarrow> flag_of t (sensor_state r'))
     \<and> (\<forall>t. t \<noteq> WarnLow \<longrightarrow> f_less temp (f_sub (threshold t (sensor r)) h) \<longrightarrow> \<not> flag_of t (sensor_state r'))
     \<and> (f_le temp (threshold WarnLow (sensor r)) \<longrightarrow> is_warn_low (sensor_state r'))
     \<and> (f_less (f_add (threshold WarnLow (sensor r)) h) temp \<longrightarrow> \<not> is_warn_low (sensor_state r'))"
proof -
  let ?c = "sensor_config (sensor r)" and ?r' = "check_thresholds temp r"
  obtain st' es where r': "?r' = r\<lparr>sensor_state := st', sensor_events := sensor_events r @ es\<rparr>"
    and st': "\<And>t. flag_of t st' = fst (check t ?c temp (flag_of t (sensor_state r)))"
    using check_thresholds_eq[of temp r] by auto
  have lim: "is_f32 (get_threshold t ?c)" for t using assms(1) by (simp add: threshold_def)
  note settled = check_settled[OF lim assms(2) prod.collapse[symmetric]]
  have again: "check t ?c temp (flag_of t st') = (flag_of t st', [])" for t
    using settled(1) by (simp add: st')
  note again_flags = again[of WarnHigh] again[of WarnLow] again[of Prochot] again[of Critical]
  obtain st'' where "check_thresholds temp ?r' = r\<lparr>sensor_state := st'', sensor_events := sensor_events r @ es\<rparr>"
    "\<And>t. flag_of t st'' = flag_of t st'"
    using check_thresholds_eq[of temp ?r'] again_flags by (auto simp: r' again)
  moreover from this(2)[of WarnLow] this(2)[of WarnHigh] this(2)[of Prochot] this(2)[of Critical] have "st'' = st'"
    by (cases st''; cases st') simp
  ultimately have same: "check_thresholds temp ?r' = ?r'" by (simp add: r')
  have "flag_of WarnLow st' = is_warn_low st'" by simp
  then show ?thesis
    using same settled(2-) st' by (auto simp: Let_def r' threshold_def)
qed

text \<open>A reading that fails is tried again as often as the configuration says: fewer failures in a row
  only use up attempts, as many disable sampling and send the failure once, and then nothing happens until
  \<open>enable_sampling\<close> has been called and its signal is taken, which resumes with all attempts.\<close>

theorem sensor_failures:
  assumes "sensor_phase r = Accessing config k" and "0 < k" and "retry_attempts (sensor_config (sensor r)) \<noteq> 0"
  shows "(\<forall>j < k. sensor_run n (replicate j BusFailure) r = Some (r\<lparr>sensor_phase := Accessing config (k - j)\<rparr>))
    \<and> sensor_run n (replicate k BusFailure) r = Some (sensor_disable r)
    \<and> sensor_events (sensor_disable r) = sensor_events r @ [SensorFailure RetryExhausted]
    \<and> (\<exists>r'. sensor_run n [SensorClient EnableSampling, SignalTaken] (sensor_disable r) = Some r'
        \<and> sensor_phase r' = Accessing (sensor_config (sensor r')) (unat (retry_attempts (sensor_config (sensor r)))))"
proof -
  have "sensor_run n (replicate (k - 1) BusFailure @ [BusFailure]) r = Some (sensor_disable r)"
    using retry_failures[OF assms(1), of "k - 1" n] assms(2)
    by (simp add: sensor_run_append sensor_disable_def sensor_broadcast_def)
  moreover have "replicate (k - 1) BusFailure @ [BusFailure] = replicate k BusFailure"
    using assms(2) by (metis Suc_diff_1 replicate_Suc replicate_append_same)
  ultimately show ?thesis
    using retry_failures[OF assms(1)] assms(3)
    by (simp add: sensor_disable_def sensor_broadcast_def enable_sampling_def disable_sampling_def on_sensor_config_def
        sensor_loop_def Let_def)
qed

text \<open>A sample buffer is the list of the last \<open>n\<close> samples, latest first, and its integer average is
  the quotient of their sum, without overflow up to 65537 samples.\<close>

theorem samples_are_the_last:
  fixes xs :: "u16 list"
  assumes "n \<le> 65537"
  shows "let buf = foldl (\<lambda>d x. sample_push n x d) [] xs
    in buf = take n (rev xs) \<and> sample_recent d buf = (if n = 0 \<or> xs = [] then d else last xs)
      \<and> unat (sample_average_u16 buf) = (\<Sum>x\<leftarrow>take n (rev xs). unat x) div min n (length xs)"
proof -
  have buf: "foldl (\<lambda>d x. sample_push n x d) [] xs = take n (rev xs)" using sample_pushes[of n "[]" xs] by simp
  have "length (take n (rev xs)) \<le> 65537" using assms by simp
  then show ?thesis
    using average_u16[of "take n (rev xs)"] unfolding Let_def buf
    by (cases n; cases xs rule: rev_cases) (simp_all add: sample_recent_def min.commute)
qed

text \<open>A sensor with a critical limit of 50 degrees and two attempts, which reads 60 and then 40 degrees.\<close>

definition hot_config :: SensorConfig where
  "hot_config = (sensor_config_default (\<lambda>n. of_nat n))\<lparr>critical_threshold := Finite 50, retry_attempts := 2\<rparr>"

lemma hot_config_simps [simp]:
  "sampling_enabled hot_config" "retry_attempts hot_config = 2" "sensor_hysteresis hot_config = Finite 2"
  "critical_threshold hot_config = Finite 50" "prochot_threshold hot_config = f32_max"
  "warn_high_threshold hot_config = f32_max" "warn_low_threshold hot_config = f32_min"
  "sensor_offset hot_config = Finite 0" "fast_sampling_threshold hot_config = f32_max"
  by (simp_all add: hot_config_def sensor_config_default_def)

lemma hot_start: "sensor_phase (sensor_start hot_config) = Accessing hot_config 2" "sensor (sensor_start hot_config) = sensor_new hot_config"
  by (simp_all add: sensor_start_def sensor_loop_def sensor_new_def Let_def)

lemma hot_run:
  "\<exists>r. sensor_run 4 [BusAnswer (Finite 60), SensorWake, BusFailure, BusAnswer (Finite 40)] (sensor_start hot_config) = Some r
    \<and> sensor_events r = [ThresholdExceeded Critical, ThresholdCleared Critical]"
  by (simp add: sensor_start_def sensor_loop_def sensor_new_def Let_def sensor_reading_def check_thresholds_def
      check_high_def check_low_def f32_max_def f32_min_def to_f32_numeral sensor_broadcast_def f_less_def f_sub_def)

theorem sensor_events_alternate_witness:
  "\<exists>r. sensor_run 4 [BusAnswer (Finite 60), SensorWake, BusFailure, BusAnswer (Finite 40)] (sensor_start hot_config) = Some r
    \<and> sensor_events r = [ThresholdExceeded Critical, ThresholdCleared Critical]
    \<and> alternates False (crossings Critical (sensor_events r)) \<and> \<not> is_critical (sensor_state r)"
proof -
  obtain r where r: "sensor_run 4 [BusAnswer (Finite 60), SensorWake, BusFailure, BusAnswer (Finite 40)] (sensor_start hot_config) = Some r"
    and es: "sensor_events r = [ThresholdExceeded Critical, ThresholdCleared Critical]" using hot_run by blast
  from sensor_events_alternate [OF r, of Critical] r show ?thesis by (simp add: es)
qed

theorem sensor_check_settles_witness:
  "flag_of Critical (sensor_state (check_thresholds (Finite 60) (sensor_start hot_config)))
    \<and> check_thresholds (Finite 60) (check_thresholds (Finite 60) (sensor_start hot_config))
        = check_thresholds (Finite 60) (sensor_start hot_config)"
proof -
  have max: "rnd ((2 ^ 24 - 1) * 2 ^ 104) = (2 ^ 24 - 1) * 2 ^ 104"
  proof -
    have "binade 253 ((2 ^ 24 - 1) * 2 ^ 104) = 253" by (rule binade_eq) simp_all
    then have "((2 ^ 24 - 1) * 2 ^ 104) / ulp ((2 ^ 24 - 1) * 2 ^ 104) = of_int (2 ^ 24 - 1)" by (simp add: ulp_def)
    then show ?thesis by (intro rnd_exact) (metis Ints_of_int)
  qed
  have fifty: "rnd 50 = 50" using rnd_of_int[of 50] by simp
  have "is_f32 f32_max" "is_f32 f32_min" "is_f32 (Finite 50)"
    using max fifty by (simp_all add: is_f32_def f32_max_def f32_min_def)
  moreover have "threshold t (sensor_new hot_config) = (if t = Critical then Finite 50 else if t = WarnLow then f32_min else f32_max)" for t
    by (cases t) (simp_all add: threshold_def sensor_new_def)
  ultimately have lim: "\<forall>t. is_f32 (threshold t (sensor (sensor_start hot_config)))" by (simp add: hot_start)
  have "f_le (Finite 0) (sensor_hysteresis (sensor_config (sensor (sensor_start hot_config))))"
    by (simp add: hot_start sensor_new_def)
  from sensor_check_settles [OF lim this, of "Finite 60"]
  have "Critical \<noteq> WarnLow \<longrightarrow> f_le (threshold Critical (sensor (sensor_start hot_config))) (Finite 60) \<longrightarrow>
      flag_of Critical (sensor_state (check_thresholds (Finite 60) (sensor_start hot_config)))"
    and same: "check_thresholds (Finite 60) (check_thresholds (Finite 60) (sensor_start hot_config))
        = check_thresholds (Finite 60) (sensor_start hot_config)"
    unfolding Let_def by blast+
  then show ?thesis by (simp add: hot_start sensor_new_def threshold_def)
qed

theorem sensor_failures_witness:
  "sensor_run 4 [BusFailure, BusFailure] (sensor_start hot_config) = Some (sensor_disable (sensor_start hot_config))
    \<and> sensor_events (sensor_disable (sensor_start hot_config)) = [SensorFailure RetryExhausted]"
proof -
  have "sensor_events (sensor_start hot_config) = []"
    by (simp add: sensor_start_def sensor_loop_def sensor_new_def)
  moreover have "retry_attempts (sensor_config (sensor (sensor_start hot_config))) \<noteq> 0"
    by (simp add: hot_start sensor_new_def)
  ultimately show ?thesis
    using sensor_failures [OF hot_start(1), of 4] by (simp add: numeral_2_eq_2)
qed

theorem samples_are_the_last_witness:
  "unat (sample_average_u16 (foldl (\<lambda>d x. sample_push 3 x d) [] [2, 4, 6, 9])) = 6"
proof -
  have "(3 :: nat) \<le> 65537" by simp
  from samples_are_the_last [OF this, of "[2, 4, 6, 9]" 0]
  have "unat (sample_average_u16 (foldl (\<lambda>d x. sample_push 3 x d) [] [2, 4, 6, 9]))
      = (\<Sum>x\<leftarrow>take 3 (rev [2, 4, 6, 9 :: u16]). unat x) div min 3 (length [2, 4, 6, 9 :: u16])"
    unfolding Let_def by blast
  also have "\<dots> = 6" by simp
  finally show ?thesis .
qed

end
