(* ===== verification/Thermal_Fan.thy ===== *)
theory Thermal_Fan
  imports Thermal_Sensor
begin

text \<open>
  The fan service: \<open>thermal-service/src/fan.rs\<close> and the types of \<open>thermal-service-interface/src/fan.rs\<close>.
  The driver is a record of its limits, the commands it has carried out and which of the next commands
  fail. The auto-control task decides on a state and then waits for the driver, which a client may be
  using: deciding and acting are two steps, with calls of clients in between.
\<close>

subsection \<open>The driver\<close>

datatype FanError = FanHardware
datatype FanEvent = FanFailure FanError

datatype fan_command = StartFan | StopFan | SetSpeedRpm u16 | SetSpeedPercent u8

record fan_driver =
  drv_min_rpm :: u16
  drv_max_rpm :: u16
  drv_min_start_rpm :: u16
  drv_commands :: "fan_command list"
  drv_faults :: "bool list"

definition drive :: "fan_command \<Rightarrow> (fan_driver, FanError, unit) action" where
  "drive c d =
     (case drv_faults d of
        True # fs \<Rightarrow> (Inl FanHardware, d\<lparr>drv_faults := fs\<rparr>)
      | _ \<Rightarrow> (Inr (), d\<lparr>drv_commands := drv_commands d @ [c], drv_faults := tl (drv_faults d)\<rparr>))"

subsection \<open>The service\<close>

datatype OnState = OnMin | OnRamping | OnMax
datatype FanState = FanOff | FanOn OnState

record FanConfig =
  fan_sample_period :: u64
  fan_update_period :: u64
  auto_control :: bool
  fan_hysteresis :: f32
  min_temp :: f32
  ramp_temp :: f32
  max_temp :: f32

definition fan_config_default :: "(nat \<Rightarrow> u64) \<Rightarrow> FanConfig" where
  "fan_config_default from_millis =
     \<lparr>fan_sample_period = from_millis 1000, fan_update_period = from_millis 1000, auto_control = True,
      fan_hysteresis = Finite 2, min_temp = Finite 25, ramp_temp = Finite 35, max_temp = Finite 45\<rparr>"

record FanService =
  fan_driver :: fan_driver
  fan_state :: FanState
  fan_en_signal :: bool
  fan_config :: FanConfig
  fan_samples :: "u16 list"

definition fan_new :: "fan_driver \<Rightarrow> FanConfig \<Rightarrow> FanService" where
  "fan_new driver config =
     \<lparr>fan_driver = driver, fan_state = FanOff, fan_en_signal = False, fan_config = config, fan_samples = []\<rparr>"

definition fan_drive :: "fan_command \<Rightarrow> (FanService, FanError, unit) action" where
  "fan_drive c s = (case drive c (fan_driver s) of (r, d) \<Rightarrow> (r, s\<lparr>fan_driver := d\<rparr>))"

definition on_fan_config :: "(FanConfig \<Rightarrow> FanConfig) \<Rightarrow> FanService \<Rightarrow> FanService" where
  "on_fan_config f s = s\<lparr>fan_config := f (fan_config s)\<rparr>"

definition change_state :: "FanState \<Rightarrow> (FanService, FanError, unit) action" where
  "change_state to =
     and_then
       (case to of
          FanOff \<Rightarrow> fan_drive StopFan
        | FanOn OnMin \<Rightarrow> fan_drive StartFan
        | FanOn OnRamping \<Rightarrow> ok ()
        | FanOn OnMax \<Rightarrow> (\<lambda>s. fan_drive (SetSpeedRpm (drv_max_rpm (fan_driver s))) s))
       (\<lambda>_. modify (\<lambda>s. s\<lparr>fan_state := to\<rparr>))"

text \<open>One round of \<open>handle_sampling\<close>: the tachometer reading, \<open>None\<close> for an error, which is only logged.\<close>

definition fan_sampling :: "nat \<Rightarrow> u16 option \<Rightarrow> FanService \<Rightarrow> FanService" where
  "fan_sampling n reading s =
     (case reading of Some rpm \<Rightarrow> s\<lparr>fan_samples := sample_push n rpm (fan_samples s)\<rparr> | None \<Rightarrow> s)"

definition enable_auto_control :: "(FanService, FanError, unit) action" where
  "enable_auto_control =
     and_then (change_state FanOff)
       (\<lambda>_. modify (\<lambda>s. (on_fan_config (\<lambda>c. c\<lparr>auto_control := True\<rparr>) s)\<lparr>fan_en_signal := True\<rparr>))"

definition fan_rpm :: "FanService \<Rightarrow> u16" where "fan_rpm s = sample_recent 0 (fan_samples s)"
definition fan_min_rpm :: "FanService \<Rightarrow> u16" where "fan_min_rpm s = drv_min_rpm (fan_driver s)"
definition fan_max_rpm :: "FanService \<Rightarrow> u16" where "fan_max_rpm s = drv_max_rpm (fan_driver s)"
definition fan_rpm_average :: "FanService \<Rightarrow> u16" where "fan_rpm_average s = sample_average_u16 (fan_samples s)"

definition fan_rpm_immediate :: "u16 option \<Rightarrow> (FanError, u16) result" where
  "fan_rpm_immediate reading = (case reading of Some rpm \<Rightarrow> Inr rpm | None \<Rightarrow> Inl FanHardware)"

text \<open>The manual commands \<open>set_rpm\<close>, \<open>set_duty_percent\<close> and \<open>stop\<close>.\<close>

definition manual :: "fan_command \<Rightarrow> (FanService, FanError, unit) action" where
  "manual c = and_then (fan_drive c) (\<lambda>_. modify (on_fan_config (\<lambda>c. c\<lparr>auto_control := False\<rparr>)))"

definition fan_set_rpm :: "u16 \<Rightarrow> (FanService, FanError, unit) action" where "fan_set_rpm rpm = manual (SetSpeedRpm rpm)"
definition fan_set_duty_percent :: "u8 \<Rightarrow> (FanService, FanError, unit) action" where
  "fan_set_duty_percent duty = manual (SetSpeedPercent duty)"
definition fan_stop :: "(FanService, FanError, unit) action" where "fan_stop = manual StopFan"

definition set_rpm_sampling_period :: "u64 \<Rightarrow> FanService \<Rightarrow> FanService" where
  "set_rpm_sampling_period p = on_fan_config (\<lambda>c. c\<lparr>fan_sample_period := p\<rparr>)"

definition set_rpm_update_period :: "u64 \<Rightarrow> FanService \<Rightarrow> FanService" where
  "set_rpm_update_period p = on_fan_config (\<lambda>c. c\<lparr>fan_update_period := p\<rparr>)"

definition state_temp :: "OnState \<Rightarrow> FanService \<Rightarrow> f32" where
  "state_temp on s =
     (case on of OnMin \<Rightarrow> min_temp (fan_config s) | OnRamping \<Rightarrow> ramp_temp (fan_config s)
      | OnMax \<Rightarrow> max_temp (fan_config s))"

definition set_state_temp :: "OnState \<Rightarrow> f32 \<Rightarrow> FanService \<Rightarrow> FanService" where
  "set_state_temp on temp =
     on_fan_config (\<lambda>c. case on of OnMin \<Rightarrow> c\<lparr>min_temp := temp\<rparr> | OnRamping \<Rightarrow> c\<lparr>ramp_temp := temp\<rparr>
       | OnMax \<Rightarrow> c\<lparr>max_temp := temp\<rparr>)"

subsection \<open>Auto control\<close>

text \<open>The speed of \<open>ramp_response\<close>; the subtraction and the addition of \<open>u16\<close>s wrap.\<close>

definition ramp_rpm :: "FanConfig \<Rightarrow> u16 \<Rightarrow> u16 \<Rightarrow> f32 \<Rightarrow> u16" where
  "ramp_rpm config min_rpm max_rpm temp =
     (if f_le temp (ramp_temp config) then min_rpm
      else if f_le (max_temp config) temp then max_rpm
      else (let ratio = f_div (f_sub temp (ramp_temp config)) (f_sub (max_temp config) (ramp_temp config));
                range = of_word (max_rpm - min_rpm)
            in min_rpm + as_word (f_mul ratio range)))"

definition ramp_response :: "FanConfig \<Rightarrow> f32 \<Rightarrow> (FanService, FanError, unit) action" where
  "ramp_response config temp s =
     fan_drive (SetSpeedRpm (ramp_rpm config (drv_min_start_rpm (fan_driver s)) (drv_max_rpm (fan_driver s)) temp)) s"

text \<open>What the handlers of the four states decide before they wait for the driver.\<close>

datatype fan_decision = Stay | ChangeTo FanState | Ramp FanConfig f32

definition handle_fan_off_state :: "FanConfig \<Rightarrow> f32 \<Rightarrow> fan_decision" where
  "handle_fan_off_state config temp = (if f_le (min_temp config) temp then ChangeTo (FanOn OnMin) else Stay)"

definition handle_fan_on_state :: "FanConfig \<Rightarrow> f32 \<Rightarrow> fan_decision" where
  "handle_fan_on_state config temp =
     (if f_less temp (f_sub (min_temp config) (fan_hysteresis config)) then ChangeTo FanOff
      else if f_le (ramp_temp config) temp then ChangeTo (FanOn OnRamping) else Stay)"

definition handle_fan_ramping_state :: "FanConfig \<Rightarrow> f32 \<Rightarrow> fan_decision" where
  "handle_fan_ramping_state config temp =
     (if f_less temp (f_sub (ramp_temp config) (fan_hysteresis config)) then ChangeTo (FanOn OnMin)
      else if f_le (max_temp config) temp then ChangeTo (FanOn OnMax)
      else Ramp config temp)"

definition handle_fan_max_state :: "FanConfig \<Rightarrow> f32 \<Rightarrow> fan_decision" where
  "handle_fan_max_state config temp =
     (if f_less temp (f_sub (max_temp config) (fan_hysteresis config)) then ChangeTo (FanOn OnRamping) else Stay)"

definition handle_fan_state :: "FanService \<Rightarrow> f32 \<Rightarrow> fan_decision" where
  "handle_fan_state s temp =
     (case fan_state s of
        FanOff \<Rightarrow> handle_fan_off_state (fan_config s) temp
      | FanOn OnMin \<Rightarrow> handle_fan_on_state (fan_config s) temp
      | FanOn OnRamping \<Rightarrow> handle_fan_ramping_state (fan_config s) temp
      | FanOn OnMax \<Rightarrow> handle_fan_max_state (fan_config s) temp)"

fun fan_act :: "fan_decision \<Rightarrow> (FanService, FanError, unit) action" where
  "fan_act Stay = ok ()"
| "fan_act (ChangeTo st) = change_state st"
| "fan_act (Ramp config temp) = ramp_response config temp"

text \<open>Where the task awaits: the temperature at the top of the loop, the driver, the sleep, the signal.\<close>

datatype fan_phase = FanDecide | FanAct fan_decision | FanSleep u64 | FanAwaitEnable

record FanRunner =
  fan :: FanService
  fan_phase :: fan_phase
  fan_events :: "FanEvent list"

definition fan_loop :: "FanRunner \<Rightarrow> FanRunner" where
  "fan_loop r = r\<lparr>fan_phase := (if auto_control (fan_config (fan r)) then FanDecide else FanAwaitEnable)\<rparr>"

definition fan_finish :: "fan_decision \<Rightarrow> FanRunner \<Rightarrow> FanRunner" where
  "fan_finish d r =
     (case fan_act d (fan r) of
        (Inr _, s) \<Rightarrow> r\<lparr>fan := s, fan_phase := FanSleep (fan_update_period (fan_config s))\<rparr>
      | (Inl e, s) \<Rightarrow>
          (let s = on_fan_config (\<lambda>c. c\<lparr>auto_control := False\<rparr>) s
           in r\<lparr>fan := s, fan_phase := FanSleep (fan_update_period (fan_config s)), fan_events := fan_events r @ [FanFailure e]\<rparr>))"

datatype fan_client =
    EnableAutoControl
  | ManualRpm u16
  | ManualDuty u8
  | ManualStop
  | SetStateTemp OnState f32
  | SetUpdatePeriod u64

fun fan_call :: "fan_client \<Rightarrow> FanService \<Rightarrow> FanService" where
  "fan_call EnableAutoControl s = snd (enable_auto_control s)"
| "fan_call (ManualRpm rpm) s = snd (fan_set_rpm rpm s)"
| "fan_call (ManualDuty duty) s = snd (fan_set_duty_percent duty s)"
| "fan_call ManualStop s = snd (fan_stop s)"
| "fan_call (SetStateTemp on temp) s = set_state_temp on temp s"
| "fan_call (SetUpdatePeriod p) s = set_rpm_update_period p s"

datatype fan_step = Temperature f32 | DriverFree | FanWake | FanSignal | FanClient fan_client

fun fan_run_step :: "fan_step \<Rightarrow> FanRunner \<Rightarrow> FanRunner option" where
  "fan_run_step (Temperature temp) r =
     (case fan_phase r of FanDecide \<Rightarrow> Some (r\<lparr>fan_phase := FanAct (handle_fan_state (fan r) temp)\<rparr>) | _ \<Rightarrow> None)"
| "fan_run_step DriverFree r = (case fan_phase r of FanAct d \<Rightarrow> Some (fan_finish d r) | _ \<Rightarrow> None)"
| "fan_run_step FanWake r = (case fan_phase r of FanSleep _ \<Rightarrow> Some (fan_loop r) | _ \<Rightarrow> None)"
| "fan_run_step FanSignal r =
     (if fan_phase r = FanAwaitEnable \<and> fan_en_signal (fan r)
      then Some (fan_loop (r\<lparr>fan := (fan r)\<lparr>fan_en_signal := False\<rparr>\<rparr>)) else None)"
| "fan_run_step (FanClient c) r = Some (r\<lparr>fan := fan_call c (fan r)\<rparr>)"

fun fan_run :: "fan_step list \<Rightarrow> FanRunner \<Rightarrow> FanRunner option" where
  "fan_run [] r = Some r"
| "fan_run (e # es) r = (case fan_run_step e r of None \<Rightarrow> None | Some r \<Rightarrow> fan_run es r)"

definition fan_start :: "fan_driver \<Rightarrow> FanConfig \<Rightarrow> FanRunner" where
  "fan_start driver config = fan_loop \<lparr>fan = fan_new driver config, fan_phase = FanAwaitEnable, fan_events = []\<rparr>"

subsection \<open>The ramp\<close>

text \<open>A ratio of differences is a number between 0 and 1, or \<open>NaN\<close>, which counts as 0.\<close>

definition number_of :: "f32 \<Rightarrow> rat" where
  "number_of a = (case a of Finite q \<Rightarrow> q | _ \<Rightarrow> 0)"

lemma number_of_simps [simp]: "number_of (Finite q) = q" "number_of NaN = 0"
  by (simp_all add: number_of_def)

lemma rnd_unit: "0 \<le> q \<Longrightarrow> q \<le> 1 \<Longrightarrow> 0 \<le> rnd q \<and> rnd q \<le> 1"
  using rnd_mono[of 0 q] rnd_mono[of q 1] by simp

lemma to_f32_unit: "0 \<le> q \<Longrightarrow> q \<le> 1 \<Longrightarrow> to_f32 q = Finite (rnd q)"
proof -
  assume "0 \<le> q" "q \<le> 1"
  then have "0 \<le> rnd q" "rnd q \<le> 1" using rnd_unit by blast+
  then show ?thesis by (auto simp: to_f32_def)
qed

lemma ratio_unit:
  assumes "f_le (Finite 0) a" and "f_le a b"
  shows "f_div a b = NaN \<or> (\<exists>q. f_div a b = Finite q \<and> 0 \<le> q \<and> q \<le> 1)"
proof (cases a; cases b)
  fix x y assume xy: "a = Finite x" "b = Finite y"
  then have "0 \<le> x" "x \<le> y" using assms by simp_all
  then have "y \<noteq> 0 \<Longrightarrow> 0 \<le> x / y \<and> x / y \<le> 1" by (simp add: divide_le_eq_1)
  then show ?thesis using xy \<open>0 \<le> x\<close> \<open>x \<le> y\<close> by (auto simp: to_f32_unit rnd_unit)
qed (use assms in auto)

lemma ratio_mono:
  assumes "f_le (Finite 0) a" and "f_le a a'" and "f_le a' b"
  shows "number_of (f_div a b) \<le> number_of (f_div a' b)"
proof (cases a; cases a'; cases b)
  fix x x' y assume xy: "a = Finite x" "a' = Finite x'" "b = Finite y"
  then have le: "0 \<le> x" "x \<le> x'" "x' \<le> y" using assms by simp_all
  show ?thesis
  proof (cases "y = 0")
    case False
    then have "x / y \<le> x' / y" "0 \<le> x / y" "x / y \<le> 1" "0 \<le> x' / y" "x' / y \<le> 1"
      using le by (simp_all add: divide_right_mono divide_le_eq_1)
    then show ?thesis using False xy by (simp add: to_f32_unit number_of_def rnd_mono)
  qed (use xy le in \<open>simp add: number_of_def\<close>)
qed (use assms in \<open>auto simp: number_of_def\<close>)

lemma unat_u16_int: "int (unat (x :: u16)) < 2 ^ 16"
proof -
  have "int (unat x) < int (2 ^ 16)" using unat_u16[of x] by (subst of_nat_less_iff) simp
  then show ?thesis by (simp only: of_nat_power of_nat_numeral)
qed

lemma unat_of_int_u16: "0 \<le> z \<Longrightarrow> z < 2 ^ 16 \<Longrightarrow> unat (of_int z :: u16) = nat z"
  by (simp add: unsigned_of_int take_bit_int_eq_self)

text \<open>The part of the range that is added, as a natural number.\<close>

lemma share_of_range:
  fixes range :: u16
  assumes "x = NaN \<or> (\<exists>q. x = Finite q \<and> 0 \<le> q \<and> q \<le> 1)"
  shows "unat (as_word (f_mul x (of_word range)) :: u16) = nat \<lfloor>rnd (number_of x * of_nat (unat range))\<rfloor>"
    and "nat \<lfloor>rnd (number_of x * of_nat (unat range))\<rfloor> \<le> unat range"
proof -
  let ?n = "of_nat (unat range) :: rat" and ?q = "number_of x"
  have q: "0 \<le> ?q" "?q \<le> 1" using assms by (auto simp: number_of_def)
  have "\<bar>int (unat range)\<bar> < 2 ^ 24"
    unfolding abs_of_nat by (rule less_trans[OF unat_u16_int]) simp
  from rnd_of_int[OF this] have n: "rnd ?n = ?n" by (simp only: of_int_of_nat_eq)
  have "?q * ?n \<le> 1 * ?n" by (rule mult_right_mono[OF q(2) of_nat_0_le_iff])
  then have le: "rnd (?q * ?n) \<le> ?n" using rnd_mono[of "?q * ?n" ?n] n by simp
  have ge: "0 \<le> rnd (?q * ?n)" by (intro rnd_nonneg mult_nonneg_nonneg q of_nat_0_le_iff)
  have "?n \<le> of_nat 65535" using unat_u16[of range] by (simp only: of_nat_le_iff)
  with le have small: "rnd (?q * ?n) \<le> 65535" by simp
  have "\<lfloor>rnd (?q * ?n)\<rfloor> \<le> \<lfloor>?n\<rfloor>" using le by (rule floor_mono)
  then have fl: "\<lfloor>rnd (?q * ?n)\<rfloor> \<le> int (unat range)" by (simp only: floor_of_nat)
  then show "nat \<lfloor>rnd (?q * ?n)\<rfloor> \<le> unat range" by linarith
  have word: "unat (of_int \<lfloor>rnd (?q * ?n)\<rfloor> :: u16) = nat \<lfloor>rnd (?q * ?n)\<rfloor>"
  proof (rule unat_of_int_u16)
    show "0 \<le> \<lfloor>rnd (?q * ?n)\<rfloor>" using ge by (simp only: zero_le_floor)
    have "int (unat range) < 2 ^ 16" using unat_u16_int[of range] .
    with fl show "\<lfloor>rnd (?q * ?n)\<rfloor> < 2 ^ 16" by (rule le_less_trans)
  qed
  show "unat (as_word (f_mul x (of_word range)) :: u16) = nat \<lfloor>rnd (?q * ?n)\<rfloor>"
  proof (cases "x = NaN")
    case True
    then show ?thesis by (simp add: number_of_def)
  next
    case False
    then obtain q where x: "x = Finite q" using assms by auto
    have "to_f32 (q * ?n) = Finite (rnd (q * ?n))"
      using small ge unfolding x number_of_simps by (auto simp: to_f32_def)
    then show ?thesis using word ge small unfolding x of_word_u16 number_of_simps by simp
  qed
qed

text \<open>Differences from below the ramp's start to its end.\<close>

lemma f_sub_mono: "f_le a b \<Longrightarrow> f_le (f_sub a (Finite h)) (f_sub b (Finite h))"
  by (cases a; cases b) (auto simp: f_sub_def f_le_to_f32)

lemma f_sub_self_le: "f_le a b \<Longrightarrow> f_le (Finite 0) (f_sub b a) \<or> f_sub b a = NaN"
proof (cases a; cases b)
  fix x y assume "f_le a b" "a = Finite x" "b = Finite y"
  then have "f_le (to_f32 0) (to_f32 (y - x))" by (intro f_le_to_f32) simp
  then show ?thesis by (simp add: f_sub_def \<open>a = Finite x\<close> \<open>b = Finite y\<close>)
qed (auto simp: f_sub_def)

text \<open>Within the ramp the ratios have the form the lemmas above need, unless a limit is not a number.\<close>

lemma ramp_differences:
  assumes "f_le r t" and "f_le t t'" and "f_le t' m"
  defines "a \<equiv> f_sub t r" and "a' \<equiv> f_sub t' r" and "b \<equiv> f_sub m r"
  shows "f_le (Finite 0) a \<and> f_le a a' \<and> f_le a' b
    \<or> number_of (f_div a b) = 0 \<and> (f_div a b = NaN \<or> f_div a b = Finite 0)
      \<and> (f_div a' b = NaN \<or> (\<exists>q. f_div a' b = Finite q \<and> 0 \<le> q \<and> q \<le> 1))"
proof (cases r)
  case (Finite x)
  have "f_le (Finite 0) a"
    using f_sub_self_le[OF assms(1)] assms(1) Finite unfolding a_def by (cases t) (auto simp: f_sub_def)
  then show ?thesis
    using f_sub_mono[OF assms(2), of x] f_sub_mono[OF assms(3), of x] by (simp add: a_def a'_def b_def Finite)
next
  case (Infinity s)
  then show ?thesis
    using assms(1-3) unfolding a_def a'_def b_def
    by (cases t; cases t'; cases m) (auto simp: f_sub_def split: if_splits)
qed (use assms in simp)

definition ramp_share :: "FanConfig \<Rightarrow> u16 \<Rightarrow> f32 \<Rightarrow> nat" where
  "ramp_share c width temp =
     unat (as_word (f_mul (f_div (f_sub temp (ramp_temp c)) (f_sub (max_temp c) (ramp_temp c))) (of_word width)) :: u16)"

lemma ramp_share_mono:
  assumes "f_le (ramp_temp c) t" and "f_le t t'" and "f_le t' (max_temp c)"
  shows "ramp_share c width t \<le> ramp_share c width t'" and "ramp_share c width t' \<le> unat width"
proof -
  let ?a = "f_sub t (ramp_temp c)" and ?a' = "f_sub t' (ramp_temp c)" and ?b = "f_sub (max_temp c) (ramp_temp c)"
  let ?n = "of_nat (unat width) :: rat"
  have unit: "f_div ?a ?b = NaN \<or> (\<exists>q. f_div ?a ?b = Finite q \<and> 0 \<le> q \<and> q \<le> 1)"
    "f_div ?a' ?b = NaN \<or> (\<exists>q. f_div ?a' ?b = Finite q \<and> 0 \<le> q \<and> q \<le> 1)"
    and le: "number_of (f_div ?a ?b) \<le> number_of (f_div ?a' ?b)"
    using ramp_differences[OF assms] ratio_unit[of ?a ?b] ratio_unit[of ?a' ?b] ratio_mono[of ?a ?a' ?b]
      f_le_trans[of ?a ?a' ?b] f_le_trans[of "Finite 0" ?a ?a'] by auto
  have "number_of (f_div ?a ?b) * ?n \<le> number_of (f_div ?a' ?b) * ?n" using le by (rule mult_right_mono) (rule of_nat_0_le_iff)
  then have "nat \<lfloor>rnd (number_of (f_div ?a ?b) * ?n)\<rfloor> \<le> nat \<lfloor>rnd (number_of (f_div ?a' ?b) * ?n)\<rfloor>"
    by (intro nat_mono floor_mono rnd_mono)
  then show "ramp_share c width t \<le> ramp_share c width t'"
    unfolding ramp_share_def share_of_range(1)[OF unit(1)] share_of_range(1)[OF unit(2)] .
  show "ramp_share c width t' \<le> unat width"
    unfolding ramp_share_def share_of_range(1)[OF unit(2)] by (rule share_of_range(2)[OF unit(2)])
qed

lemma ramp_share_0: "temp = NaN \<or> ramp_temp c = NaN \<or> max_temp c = NaN \<Longrightarrow> ramp_share c width temp = 0"
proof -
  assume nan: "temp = NaN \<or> ramp_temp c = NaN \<or> max_temp c = NaN"
  have sub: "f_sub NaN x = NaN" "f_sub x NaN = NaN" for x by (cases x; simp add: f_sub_def)+
  have div: "f_div NaN x = NaN" "f_div x NaN = NaN" for x by (cases x; simp)+
  from nan have "f_div (f_sub temp (ramp_temp c)) (f_sub (max_temp c) (ramp_temp c)) = NaN"
    by (auto simp: sub div)
  then show ?thesis by (simp add: ramp_share_def)
qed

lemma ramp_rpm_share:
  assumes "min_rpm \<le> max_rpm"
  shows "unat (ramp_rpm c min_rpm max_rpm temp) =
    (if f_le temp (ramp_temp c) then unat min_rpm else if f_le (max_temp c) temp then unat max_rpm
     else unat min_rpm + ramp_share c (max_rpm - min_rpm) temp)"
    and "ramp_share c (max_rpm - min_rpm) temp \<le> unat max_rpm - unat min_rpm \<or> f_le temp (ramp_temp c) \<or> f_le (max_temp c) temp"
proof -
  have range: "unat (max_rpm - min_rpm) = unat max_rpm - unat min_rpm"
    using assms by (simp add: unat_sub word_le_nat_alt)
  have le: "ramp_share c (max_rpm - min_rpm) temp \<le> unat max_rpm - unat min_rpm"
    if "\<not> f_le temp (ramp_temp c)" "\<not> f_le (max_temp c) temp"
  proof (cases "temp = NaN \<or> ramp_temp c = NaN \<or> max_temp c = NaN")
    case False
    then have "f_le (ramp_temp c) temp" "f_le temp (max_temp c)" "f_le temp temp" using that f_le_total by auto
    from ramp_share_mono(2)[OF this(1,3,2), of "max_rpm - min_rpm"] show ?thesis by (simp add: range)
  qed (simp add: ramp_share_0)
  then show "ramp_share c (max_rpm - min_rpm) temp \<le> unat max_rpm - unat min_rpm \<or> f_le temp (ramp_temp c) \<or> f_le (max_temp c) temp"
    by blast
  have "unat (min_rpm + w) = unat min_rpm + unat w" if "unat w \<le> unat max_rpm - unat min_rpm" for w :: u16
    using that assms unat_u16[of max_rpm] by (simp add: unat_word_ariths word_le_nat_alt)
  then show "unat (ramp_rpm c min_rpm max_rpm temp) =
    (if f_le temp (ramp_temp c) then unat min_rpm else if f_le (max_temp c) temp then unat max_rpm
     else unat min_rpm + ramp_share c (max_rpm - min_rpm) temp)"
    using le by (simp add: ramp_rpm_def Let_def ramp_share_def)
qed

end
