(* ===== verification/Thermal_Relay.thy ===== *)
theory Thermal_Relay
  imports Thermal_Fan Relay_Bytes
begin

text \<open>
  The thermal service over MCTP: \<open>thermal-service-relay/src/lib.rs\<close> and \<open>serialization.rs\<close>, over the list
  of sensors and fans of \<open>thermal-service/src/lib.rs\<close>. A UUID is its 16 bytes as \<open>to_bytes_le\<close> orders them.
\<close>

subsection \<open>The thermal service\<close>

record ThermalService =
  sensors :: "SensorService list"
  fans :: "FanService list"

definition nth_or_none :: "'a list \<Rightarrow> nat \<Rightarrow> 'a option" where
  "nth_or_none xs i = (if i < length xs then Some (xs ! i) else None)"

definition get_sensor :: "u8 \<Rightarrow> ThermalService \<Rightarrow> SensorService option" where
  "get_sensor i t = nth_or_none (sensors t) (unat i)"

definition get_fan :: "u8 \<Rightarrow> ThermalService \<Rightarrow> FanService option" where
  "get_fan i t = nth_or_none (fans t) (unat i)"

text \<open>The service after a call on one of its sensors or fans.\<close>

definition put_sensor :: "u8 \<Rightarrow> SensorService \<Rightarrow> ThermalService \<Rightarrow> ThermalService" where
  "put_sensor i s t = t\<lparr>sensors := (sensors t)[unat i := s]\<rparr>"

definition put_fan :: "u8 \<Rightarrow> FanService \<Rightarrow> ThermalService \<Rightarrow> ThermalService" where
  "put_fan i f t = t\<lparr>fans := (fans t)[unat i := f]\<rparr>"

subsection \<open>Temperatures on the wire\<close>

definition KELVIN :: f32 where "KELVIN = to_f32 (27315 / 100)"

definition from_celsius :: "f32 \<Rightarrow> u32" where
  "from_celsius c = as_word (f_mul (f_add c KELVIN) (to_f32 10))"

definition to_celsius :: "u32 \<Rightarrow> f32" where
  "to_celsius dk = f_sub (f_div (of_word dk) (to_f32 10)) KELVIN"

subsection \<open>Messages\<close>

datatype ThermalRequest =
    ThermalGetTmpRequest u8
  | ThermalSetThrsRequest u8 u32 u32 u32
  | ThermalGetThrsRequest u8
  | ThermalSetScpRequest u8 u32 u32 u32
  | ThermalGetVarRequest u8 u16 "u8 list"
  | ThermalSetVarRequest u8 u16 "u8 list" u32

datatype ThermalResponse =
    ThermalGetTmpResponse u32
  | ThermalSetThrsResponse
  | ThermalGetThrsResponse u32 u32 u32
  | ThermalSetScpResponse
  | ThermalGetVarResponse u32
  | ThermalSetVarResponse

datatype ThermalError = ThermalInvalidParameter | ThermalUnsupportedRevision | ThermalHardwareError

fun thermal_request_cmd :: "ThermalRequest \<Rightarrow> u16" where
  "thermal_request_cmd (ThermalGetTmpRequest _) = 1"
| "thermal_request_cmd (ThermalSetThrsRequest _ _ _ _) = 2"
| "thermal_request_cmd (ThermalGetThrsRequest _) = 3"
| "thermal_request_cmd (ThermalSetScpRequest _ _ _ _) = 4"
| "thermal_request_cmd (ThermalGetVarRequest _ _ _) = 5"
| "thermal_request_cmd (ThermalSetVarRequest _ _ _ _) = 6"

fun thermal_response_cmd :: "ThermalResponse \<Rightarrow> u16" where
  "thermal_response_cmd (ThermalGetTmpResponse _) = 1"
| "thermal_response_cmd ThermalSetThrsResponse = 2"
| "thermal_response_cmd (ThermalGetThrsResponse _ _ _) = 3"
| "thermal_response_cmd ThermalSetScpResponse = 4"
| "thermal_response_cmd (ThermalGetVarResponse _) = 5"
| "thermal_response_cmd ThermalSetVarResponse = 6"

fun thermal_error_code :: "ThermalError \<Rightarrow> u16" where
  "thermal_error_code ThermalInvalidParameter = 1"
| "thermal_error_code ThermalUnsupportedRevision = 2"
| "thermal_error_code ThermalHardwareError = 3"

text \<open>The bytes each message writes, and at which index.\<close>

fun thermal_request_puts :: "ThermalRequest \<Rightarrow> (nat \<times> u8 list) list" where
  "thermal_request_puts (ThermalGetTmpRequest i) = [(0, [i])]"
| "thermal_request_puts (ThermalSetThrsRequest i timeout low high) =
     [(0, [i]), (1, to_le_bytes timeout), (5, to_le_bytes low), (9, to_le_bytes high)]"
| "thermal_request_puts (ThermalGetThrsRequest i) = [(0, [i])]"
| "thermal_request_puts (ThermalSetScpRequest i policy_id acoustic_lim power_lim) =
     [(0, [i]), (1, to_le_bytes policy_id), (5, to_le_bytes acoustic_lim), (9, to_le_bytes power_lim)]"
| "thermal_request_puts (ThermalGetVarRequest i len var_uuid) = [(0, [i]), (1, to_le_bytes16 len), (3, var_uuid)]"
| "thermal_request_puts (ThermalSetVarRequest i len var_uuid set_var) =
     [(0, [i]), (1, to_le_bytes16 len), (3, var_uuid), (19, to_le_bytes set_var)]"

fun thermal_response_puts :: "ThermalResponse \<Rightarrow> (nat \<times> u8 list) list" where
  "thermal_response_puts (ThermalGetTmpResponse temp) = [(0, to_le_bytes temp)]"
| "thermal_response_puts (ThermalGetThrsResponse timeout low high) =
     [(0, to_le_bytes timeout), (4, to_le_bytes low), (8, to_le_bytes high)]"
| "thermal_response_puts (ThermalGetVarResponse val) = [(0, to_le_bytes val)]"
| "thermal_response_puts _ = []"

definition get_uuid :: "u8 list \<Rightarrow> nat \<Rightarrow> (MessageSerializationError, u8 list) result" where
  "get_uuid buffer i = get_bytes buffer i 16"

definition thermal_request_deserialize :: "u16 \<Rightarrow> u8 list \<Rightarrow> (MessageSerializationError, ThermalRequest) result" where
  "thermal_request_deserialize d b =
     (if d = 1 then map_sum (\<lambda>e. e) ThermalGetTmpRequest (get_u8 b 0)
      else if d = 2 then
        then_read (get_u8 b 0) (\<lambda>i. then_read (get_dword b 1) (\<lambda>timeout. then_read (get_dword b 5) (\<lambda>low.
          map_sum (\<lambda>e. e) (ThermalSetThrsRequest i timeout low) (get_dword b 9))))
      else if d = 3 then map_sum (\<lambda>e. e) ThermalGetThrsRequest (get_u8 b 0)
      else if d = 4 then
        then_read (get_u8 b 0) (\<lambda>i. then_read (get_dword b 1) (\<lambda>policy. then_read (get_dword b 5) (\<lambda>acoustic.
          map_sum (\<lambda>e. e) (ThermalSetScpRequest i policy acoustic) (get_dword b 9))))
      else if d = 5 then
        then_read (get_u8 b 0) (\<lambda>i. then_read (get_u16 b 1) (\<lambda>len.
          map_sum (\<lambda>e. e) (ThermalGetVarRequest i len) (get_uuid b 3)))
      else if d = 6 then
        then_read (get_u8 b 0) (\<lambda>i. then_read (get_u16 b 1) (\<lambda>len. then_read (get_uuid b 3) (\<lambda>var_uuid.
          map_sum (\<lambda>e. e) (ThermalSetVarRequest i len var_uuid) (get_dword b 19))))
      else Inl (UnknownMessageDiscriminant d))"

definition thermal_response_deserialize :: "u16 \<Rightarrow> u8 list \<Rightarrow> (MessageSerializationError, ThermalResponse) result" where
  "thermal_response_deserialize d b =
     (if d = 1 then map_sum (\<lambda>e. e) ThermalGetTmpResponse (get_dword b 0)
      else if d = 2 then Inr ThermalSetThrsResponse
      else if d = 3 then
        then_read (get_dword b 0) (\<lambda>timeout. then_read (get_dword b 4) (\<lambda>low.
          map_sum (\<lambda>e. e) (ThermalGetThrsResponse timeout low) (get_dword b 8)))
      else if d = 4 then Inr ThermalSetScpResponse
      else if d = 5 then map_sum (\<lambda>e. e) ThermalGetVarResponse (get_dword b 0)
      else if d = 6 then Inr ThermalSetVarResponse
      else Inl (UnknownMessageDiscriminant d))"

definition thermal_error_deserialize :: "u16 \<Rightarrow> u8 list \<Rightarrow> (MessageSerializationError, ThermalError) result" where
  "thermal_error_deserialize d b =
     (if d = 1 then Inr ThermalInvalidParameter else if d = 2 then Inr ThermalUnsupportedRevision
      else if d = 3 then Inr ThermalHardwareError else Inl (UnknownMessageDiscriminant d))"

definition thermal_request :: "ThermalRequest serializable" where
  "thermal_request = \<lparr>sm_serialize = \<lambda>m. puts (thermal_request_puts m), sm_discriminant = thermal_request_cmd,
     sm_deserialize = thermal_request_deserialize\<rparr>"

definition thermal_response :: "ThermalResponse serializable" where
  "thermal_response = \<lparr>sm_serialize = \<lambda>m. puts (thermal_response_puts m), sm_discriminant = thermal_response_cmd,
     sm_deserialize = thermal_response_deserialize\<rparr>"

definition thermal_error :: "ThermalError serializable" where
  "thermal_error = \<lparr>sm_serialize = (\<lambda>_ buffer. Inr (0, buffer)), sm_discriminant = thermal_error_code,
     sm_deserialize = thermal_error_deserialize\<rparr>"

subsection \<open>The handler\<close>

definition CRT_TEMP :: "u8 list" where
  "CRT_TEMP = [0xe7, 0x46, 0x82, 0x21, 0xf6, 0xba, 0xf1, 0x45, 0xaa, 0x13, 0x07, 0xe4, 0x84, 0x52, 0x56, 0xb8]"
definition PROC_HOT_TEMP :: "u8 list" where
  "PROC_HOT_TEMP = [0xd2, 0x52, 0xdc, 0x22, 0x0b, 0xfd, 0xab, 0x47, 0x95, 0xb8, 0x26, 0x55, 0x2f, 0x98, 0x31, 0xa5]"
definition FAN_MIN_TEMP :: "u8 list" where
  "FAN_MIN_TEMP = [0x67, 0xb5, 0x17, 0xba, 0x68, 0xc3, 0xd5, 0x48, 0xbc, 0x6f, 0xa3, 0x12, 0xa4, 0x15, 0x83, 0xc1]"
definition FAN_RAMP_TEMP :: "u8 list" where
  "FAN_RAMP_TEMP = [0x8c, 0x68, 0x62, 0x3a, 0x5b, 0xd9, 0x2d, 0x4d, 0xba, 0xcc, 0x90, 0xd7, 0xa5, 0x81, 0x6b, 0xcd]"
definition FAN_MAX_TEMP :: "u8 list" where
  "FAN_MAX_TEMP = [0xb1, 0x58, 0xb7, 0xdc, 0xfd, 0xf0, 0xc7, 0x4e, 0xb2, 0xc0, 0xef, 0x1e, 0x2a, 0x54, 0x7b, 0x76]"
definition FAN_MIN_RPM :: "u8 list" where
  "FAN_MIN_RPM = [0x77, 0x1c, 0x26, 0xdb, 0x4b, 0x93, 0xe2, 0x45, 0x97, 0x42, 0x25, 0x6c, 0x62, 0xba, 0xdb, 0x7a]"
definition FAN_MAX_RPM :: "u8 list" where
  "FAN_MAX_RPM = [0xdf, 0x39, 0xf8, 0x5c, 0xe7, 0x8b, 0xb9, 0x42, 0x9a, 0xc5, 0x34, 0x03, 0xca, 0x2c, 0x8a, 0x6a]"
definition FAN_CURRENT_RPM :: "u8 list" where
  "FAN_CURRENT_RPM = [0x92, 0x54, 0xf9, 0xad, 0x76, 0x07, 0xfc, 0x4f, 0x84, 0xf3, 0xb6, 0xc8, 0xb5, 0x26, 0x96, 0x83]"

lemmas uuid_defs = CRT_TEMP_def PROC_HOT_TEMP_def FAN_MIN_TEMP_def FAN_RAMP_TEMP_def FAN_MAX_TEMP_def
  FAN_MIN_RPM_def FAN_MAX_RPM_def FAN_CURRENT_RPM_def

type_synonym thermal_handler = "(ThermalService, ThermalError, ThermalResponse) action"

text \<open>\<open>ok_or(InvalidParameter)?\<close> on the sensor or fan, then a read or a call.\<close>

definition on_sensor :: "u8 \<Rightarrow> (SensorService \<Rightarrow> ThermalResponse) \<Rightarrow> thermal_handler" where
  "on_sensor i f t = (case get_sensor i t of None \<Rightarrow> (Inl ThermalInvalidParameter, t) | Some s \<Rightarrow> (Inr (f s), t))"

definition on_fan :: "u8 \<Rightarrow> (FanService \<Rightarrow> ThermalResponse) \<Rightarrow> thermal_handler" where
  "on_fan i f t = (case get_fan i t of None \<Rightarrow> (Inl ThermalInvalidParameter, t) | Some s \<Rightarrow> (Inr (f s), t))"

definition sensor_get_tmp :: "u8 \<Rightarrow> thermal_handler" where
  "sensor_get_tmp i = on_sensor i (\<lambda>s. ThermalGetTmpResponse (from_celsius (temperature s)))"

definition sensor_set_warn_thrs :: "u8 \<Rightarrow> u32 \<Rightarrow> u32 \<Rightarrow> thermal_handler" where
  "sensor_set_warn_thrs i low high t =
     (case get_sensor i t of
        None \<Rightarrow> (Inl ThermalInvalidParameter, t)
      | Some s \<Rightarrow>
          (Inr ThermalSetThrsResponse,
           put_sensor i (set_threshold WarnHigh (to_celsius high) (set_threshold WarnLow (to_celsius low) s)) t))"

definition sensor_set_thrs :: "u8 \<Rightarrow> Threshold \<Rightarrow> u32 \<Rightarrow> thermal_handler" where
  "sensor_set_thrs i th dk t =
     (case get_sensor i t of
        None \<Rightarrow> (Inl ThermalInvalidParameter, t)
      | Some s \<Rightarrow> (Inr ThermalSetVarResponse, put_sensor i (set_threshold th (to_celsius dk) s) t))"

definition sensor_get_thrs :: "u8 \<Rightarrow> Threshold \<Rightarrow> thermal_handler" where
  "sensor_get_thrs i th = on_sensor i (\<lambda>s. ThermalGetVarResponse (from_celsius (threshold th s)))"

definition sensor_get_warn_thrs :: "u8 \<Rightarrow> thermal_handler" where
  "sensor_get_warn_thrs i =
     on_sensor i (\<lambda>s. ThermalGetThrsResponse 0 (from_celsius (threshold WarnLow s)) (from_celsius (threshold WarnHigh s)))"

definition fan_get_state_temp :: "u8 \<Rightarrow> OnState \<Rightarrow> thermal_handler" where
  "fan_get_state_temp i on = on_fan i (\<lambda>f. ThermalGetVarResponse (from_celsius (state_temp on f)))"

definition fan_get_rpm :: "u8 \<Rightarrow> thermal_handler" where
  "fan_get_rpm i = on_fan i (\<lambda>f. ThermalGetVarResponse (ucast (fan_rpm f)))"

definition fan_get_min_rpm :: "u8 \<Rightarrow> thermal_handler" where
  "fan_get_min_rpm i = on_fan i (\<lambda>f. ThermalGetVarResponse (ucast (fan_min_rpm f)))"

definition fan_get_max_rpm :: "u8 \<Rightarrow> thermal_handler" where
  "fan_get_max_rpm i = on_fan i (\<lambda>f. ThermalGetVarResponse (ucast (fan_max_rpm f)))"

definition fan_set_state_temp :: "u8 \<Rightarrow> OnState \<Rightarrow> u32 \<Rightarrow> thermal_handler" where
  "fan_set_state_temp i on dk t =
     (case get_fan i t of
        None \<Rightarrow> (Inl ThermalInvalidParameter, t)
      | Some f \<Rightarrow> (Inr ThermalSetVarResponse, put_fan i (set_state_temp on (to_celsius dk) f) t))"

definition fan_set_rpm_handler :: "u8 \<Rightarrow> u16 \<Rightarrow> thermal_handler" where
  "fan_set_rpm_handler i rpm t =
     (case get_fan i t of
        None \<Rightarrow> (Inl ThermalInvalidParameter, t)
      | Some f \<Rightarrow>
          (case fan_set_rpm rpm f of
             (Inl _, f) \<Rightarrow> (Inl ThermalHardwareError, put_fan i f t)
           | (Inr _, f) \<Rightarrow> (Inr ThermalSetVarResponse, put_fan i f t)))"

definition get_var_handler :: "u8 \<Rightarrow> u8 list \<Rightarrow> thermal_handler" where
  "get_var_handler i var_uuid =
     (if var_uuid = CRT_TEMP then sensor_get_thrs i Critical
      else if var_uuid = PROC_HOT_TEMP then sensor_get_thrs i Prochot
      else if var_uuid = FAN_MIN_TEMP then fan_get_state_temp i OnMin
      else if var_uuid = FAN_RAMP_TEMP then fan_get_state_temp i OnRamping
      else if var_uuid = FAN_MAX_TEMP then fan_get_state_temp i OnMax
      else if var_uuid = FAN_MIN_RPM then fan_get_min_rpm i
      else if var_uuid = FAN_MAX_RPM then fan_get_max_rpm i
      else if var_uuid = FAN_CURRENT_RPM then fan_get_rpm i
      else err ThermalInvalidParameter)"

definition set_var_handler :: "u8 \<Rightarrow> u8 list \<Rightarrow> u32 \<Rightarrow> thermal_handler" where
  "set_var_handler i var_uuid set_var =
     (if var_uuid = CRT_TEMP then sensor_set_thrs i Critical set_var
      else if var_uuid = PROC_HOT_TEMP then sensor_set_thrs i Prochot set_var
      else if var_uuid = FAN_MIN_TEMP then fan_set_state_temp i OnMin set_var
      else if var_uuid = FAN_RAMP_TEMP then fan_set_state_temp i OnRamping set_var
      else if var_uuid = FAN_MAX_TEMP then fan_set_state_temp i OnMax set_var
      else if var_uuid = FAN_CURRENT_RPM then
        (if unat set_var < 2 ^ 16 then fan_set_rpm_handler i (ucast set_var) else err ThermalInvalidParameter)
      else err ThermalInvalidParameter)"

fun thermal_process_request :: "ThermalRequest \<Rightarrow> thermal_handler" where
  "thermal_process_request (ThermalGetTmpRequest i) = sensor_get_tmp i"
| "thermal_process_request (ThermalSetThrsRequest i _ low high) = sensor_set_warn_thrs i low high"
| "thermal_process_request (ThermalGetThrsRequest i) = sensor_get_warn_thrs i"
| "thermal_process_request (ThermalSetScpRequest _ _ _ _) = err ThermalInvalidParameter"
| "thermal_process_request (ThermalGetVarRequest i _ var_uuid) = get_var_handler i var_uuid"
| "thermal_process_request (ThermalSetVarRequest i _ var_uuid set_var) = set_var_handler i var_uuid set_var"

subsection \<open>The contract of the message types\<close>

fun thermal_request_fits :: "ThermalRequest \<Rightarrow> bool" where
  "thermal_request_fits (ThermalGetVarRequest _ _ var_uuid) \<longleftrightarrow> length var_uuid = 16"
| "thermal_request_fits (ThermalSetVarRequest _ _ var_uuid _) \<longleftrightarrow> length var_uuid = 16"
| "thermal_request_fits _ \<longleftrightarrow> True"

lemmas get_simps = get_u8_def get_u16_def get_dword_def get_uuid_def get_bytes_def

interpretation thermal_request: serializable_message thermal_request thermal_request_fits "\<lambda>m. content (thermal_request_puts m)"
proof
  fix m :: ThermalRequest and buffer :: "u8 list"
  assume fits: "thermal_request_fits m"
  have "adjacent 0 (thermal_request_puts m)" using fits by (cases m) simp_all
  then show "length (content (thermal_request_puts m)) \<le> length buffer \<Longrightarrow>
      sm_serialize thermal_request m buffer = Inr (length (content (thermal_request_puts m)),
        content (thermal_request_puts m) @ drop (length (content (thermal_request_puts m))) buffer)"
    using puts_content by (simp add: thermal_request_def)
  show "sm_deserialize thermal_request (sm_discriminant thermal_request m) (content (thermal_request_puts m)) = Inr m"
    using fits by (cases m) (simp_all add: thermal_request_def thermal_request_deserialize_def get_simps)
  show "sm_discriminant thermal_request m AND 0x7FFF = sm_discriminant thermal_request m"
    by (cases m) (simp_all add: thermal_request_def)
qed

interpretation thermal_response: serializable_message thermal_response "\<lambda>_. True" "\<lambda>m. content (thermal_response_puts m)"
proof
  fix m :: ThermalResponse and buffer :: "u8 list"
  have "adjacent 0 (thermal_response_puts m)" by (cases m) simp_all
  then show "length (content (thermal_response_puts m)) \<le> length buffer \<Longrightarrow>
      sm_serialize thermal_response m buffer = Inr (length (content (thermal_response_puts m)),
        content (thermal_response_puts m) @ drop (length (content (thermal_response_puts m))) buffer)"
    using puts_content by (simp add: thermal_response_def)
  show "sm_deserialize thermal_response (sm_discriminant thermal_response m) (content (thermal_response_puts m)) = Inr m"
    by (cases m) (simp_all add: thermal_response_def thermal_response_deserialize_def get_simps)
  show "sm_discriminant thermal_response m AND 0x7FFF = sm_discriminant thermal_response m"
    by (cases m) (simp_all add: thermal_response_def)
qed

interpretation thermal_error: serializable_message thermal_error "\<lambda>_. True" "\<lambda>_. []"
proof
  fix m :: ThermalError
  show "sm_deserialize thermal_error (sm_discriminant thermal_error m) [] = Inr m"
    by (cases m) (simp_all add: thermal_error_def thermal_error_deserialize_def)
  show "sm_discriminant thermal_error m AND 0x7FFF = sm_discriminant thermal_error m"
    by (cases m) (simp_all add: thermal_error_def)
qed (simp add: thermal_error_def)

end
