(* ===== verification/Thermal_Fan_Props.thy ===== *)
theory Thermal_Fan_Props
  imports Thermal_Fan
begin

text \<open>
  Properties of the fan service of \<open>Thermal_Fan\<close>: the ramp stays within the limits of the fan, a constant
  temperature settles within three rounds of the auto-control task, and what a failure of the driver and
  a client in the middle of a round cause.
\<close>

subsection \<open>Constant temperature\<close>

text \<open>One undisturbed round of the auto-control task at a temperature.\<close>

definition fan_round :: "f32 \<Rightarrow> fan_step list" where
  "fan_round temp = [Temperature temp, DriverFree, FanWake]"

definition next_state :: "FanConfig \<Rightarrow> f32 \<Rightarrow> FanState \<Rightarrow> FanState" where
  "next_state c temp st =
     (case (case st of
              FanOff \<Rightarrow> handle_fan_off_state c temp
            | FanOn OnMin \<Rightarrow> handle_fan_on_state c temp
            | FanOn OnRamping \<Rightarrow> handle_fan_ramping_state c temp
            | FanOn OnMax \<Rightarrow> handle_fan_max_state c temp) of
        ChangeTo st' \<Rightarrow> st' | _ \<Rightarrow> st)"

text \<open>Auto control is on, the driver works, and the task is about to ask for the temperature.\<close>

definition automatic :: "FanConfig \<Rightarrow> FanRunner \<Rightarrow> bool" where
  "automatic c r \<longleftrightarrow>
     fan_phase r = FanDecide \<and> fan_config (fan r) = c \<and> auto_control c \<and> drv_faults (fan_driver (fan r)) = []"

lemmas fan_simps = fan_drive_def drive_def change_state_def ramp_response_def and_then_def modify_def ok_def
  on_fan_config_def fan_finish_def fan_loop_def

lemma FanState_cases:
  obtains "st = FanOff" | "st = FanOn OnMin" | "st = FanOn OnRamping" | "st = FanOn OnMax"
  by (metis FanState.exhaust OnState.exhaust)

lemma fan_act_ok:
  assumes "drv_faults (fan_driver s) = []"
  shows "\<exists>s'. fan_act d s = (Inr (), s') \<and> fan_config s' = fan_config s \<and> drv_faults (fan_driver s') = []
    \<and> fan_state s' = (case d of ChangeTo st' \<Rightarrow> st' | _ \<Rightarrow> fan_state s)"
proof (cases d)
  case (ChangeTo st)
  then show ?thesis using assms by (cases st rule: FanState_cases) (simp_all add: fan_simps)
qed (use assms in \<open>simp_all add: fan_simps\<close>)

lemma fan_round_run:
  assumes "automatic c r"
  obtains r' where "fan_run (fan_round temp) r = Some r'" "automatic c r'"
    "fan_state (fan r') = next_state c temp (fan_state (fan r))" "fan_events r' = fan_events r"
proof -
  let ?d = "handle_fan_state (fan r) temp"
  obtain s where "fan_act ?d (fan r) = (Inr (), s)" "fan_config s = c" "drv_faults (fan_driver s) = []"
    "fan_state s = (case ?d of ChangeTo st' \<Rightarrow> st' | _ \<Rightarrow> fan_state (fan r))"
    using fan_act_ok[of "fan r" ?d] assms by (auto simp: automatic_def)
  moreover have "(case ?d of ChangeTo st' \<Rightarrow> st' | _ \<Rightarrow> fan_state (fan r)) = next_state c temp (fan_state (fan r))"
    using assms by (simp add: next_state_def handle_fan_state_def automatic_def split: FanState.splits OnState.splits)
  ultimately show ?thesis
    using assms that by (simp add: fan_round_def automatic_def fan_finish_def fan_loop_def)
qed

lemma fan_run_append: "fan_run (es @ es') r = (case fan_run es r of None \<Rightarrow> None | Some r \<Rightarrow> fan_run es' r)"
  by (induction es r rule: fan_run.induct) (simp_all split: option.splits)

lemma fan_rounds_run:
  assumes "automatic c r"
  shows "\<exists>r'. fan_run (concat (replicate n (fan_round temp))) r = Some r' \<and> automatic c r'
    \<and> fan_state (fan r') = (next_state c temp ^^ n) (fan_state (fan r)) \<and> fan_events r' = fan_events r"
  using assms
proof (induction n arbitrary: r)
  case (Suc n)
  from Suc.prems obtain r1 where r1: "fan_run (fan_round temp) r = Some r1" "automatic c r1"
    "fan_state (fan r1) = next_state c temp (fan_state (fan r))" "fan_events r1 = fan_events r"
    by (rule fan_round_run)
  from Suc.IH[OF r1(2)] show ?case using r1 by (simp add: fan_run_append funpow_swap1)
qed simp

text \<open>Limits in order and a finite hysteresis that is not negative.\<close>

definition sane :: "FanConfig \<Rightarrow> bool" where
  "sane c \<longleftrightarrow> is_f32 (min_temp c) \<and> is_f32 (ramp_temp c) \<and> is_f32 (max_temp c)
     \<and> f_le (min_temp c) (ramp_temp c) \<and> f_le (ramp_temp c) (max_temp c)
     \<and> (\<exists>h. fan_hysteresis c = Finite h \<and> 0 \<le> h)"

lemma below_band:
  assumes "is_f32 l" and "h \<ge> 0" and "f_less t (f_sub l (Finite h))"
  shows "\<not> f_le l t"
proof
  assume l: "f_le l t"
  have "f_le t (f_sub l (Finite h))" "\<not> f_le (f_sub l (Finite h)) t" using assms(3) by (simp_all add: f_less_def)
  moreover have "f_sub l (Finite h) = NaN \<or> f_le (f_sub l (Finite h)) l"
    using f_sub_le[OF assms(1), of "Finite h"] assms(2) f_le_numbers[OF l] by simp
  ultimately show False using l f_le_trans f_le_numbers by blast
qed

text \<open>What the comparisons of a round can say about a temperature.\<close>

lemma sane_facts:
  assumes "sane c" and "t \<noteq> NaN"
  defines "h \<equiv> fan_hysteresis c"
  shows "f_le (ramp_temp c) t \<Longrightarrow> f_le (min_temp c) t" and "f_le (max_temp c) t \<Longrightarrow> f_le (ramp_temp c) t"
    and "f_less t (f_sub (min_temp c) h) \<Longrightarrow> f_less t (f_sub (ramp_temp c) h)"
    and "f_less t (f_sub (ramp_temp c) h) \<Longrightarrow> f_less t (f_sub (max_temp c) h)"
    and "f_less t (f_sub (min_temp c) h) \<Longrightarrow> \<not> f_le (min_temp c) t"
    and "f_less t (f_sub (ramp_temp c) h) \<Longrightarrow> \<not> f_le (ramp_temp c) t"
    and "f_less t (f_sub (max_temp c) h) \<Longrightarrow> \<not> f_le (max_temp c) t"
proof -
  obtain k where k: "h = Finite k" "0 \<le> k" using assms(1) by (auto simp: sane_def h_def)
  have le: "f_le (min_temp c) (ramp_temp c)" "f_le (ramp_temp c) (max_temp c)"
    and fl: "is_f32 (min_temp c)" "is_f32 (ramp_temp c)" "is_f32 (max_temp c)" using assms(1) by (auto simp: sane_def)
  show "f_le (ramp_temp c) t \<Longrightarrow> f_le (min_temp c) t" "f_le (max_temp c) t \<Longrightarrow> f_le (ramp_temp c) t"
    using le f_le_trans by blast+
  have less: "f_less t (f_sub b h)" if "f_less t (f_sub a h)" "f_le a b" for a b
    using that f_sub_mono[of a b k] f_le_trans unfolding f_less_def k by blast
  show "f_less t (f_sub (min_temp c) h) \<Longrightarrow> f_less t (f_sub (ramp_temp c) h)"
    "f_less t (f_sub (ramp_temp c) h) \<Longrightarrow> f_less t (f_sub (max_temp c) h)"
    using less le by blast+
  show "f_less t (f_sub (min_temp c) h) \<Longrightarrow> \<not> f_le (min_temp c) t"
    "f_less t (f_sub (ramp_temp c) h) \<Longrightarrow> \<not> f_le (ramp_temp c) t"
    "f_less t (f_sub (max_temp c) h) \<Longrightarrow> \<not> f_le (max_temp c) t"
    using below_band[OF _ k(2)] fl unfolding k by blast+
qed

lemmas next_state_simps = next_state_def handle_fan_off_state_def handle_fan_on_state_def
  handle_fan_ramping_state_def handle_fan_max_state_def

lemma next_state_settles:
  fixes st :: FanState
  assumes "sane c" and "t \<noteq> NaN"
  defines "st3 \<equiv> next_state c t (next_state c t (next_state c t st))"
  shows "next_state c t st3 = st3"
    and "f_le (max_temp c) t \<Longrightarrow> st3 = FanOn OnMax"
    and "f_less t (f_sub (min_temp c) (fan_hysteresis c)) \<Longrightarrow> st3 = FanOff"
proof -
  show "next_state c t st3 = st3"
    using sane_facts[OF assms(1,2)] unfolding st3_def
    by (cases st rule: FanState_cases) (auto simp: next_state_simps)
  show "f_le (max_temp c) t \<Longrightarrow> st3 = FanOn OnMax"
    using sane_facts[OF assms(1,2)] unfolding st3_def
    by (cases st rule: FanState_cases) (auto simp: next_state_simps)
  show "f_less t (f_sub (min_temp c) (fan_hysteresis c)) \<Longrightarrow> st3 = FanOff"
    using sane_facts[OF assms(1,2)] unfolding st3_def
    by (cases st rule: FanState_cases) (auto simp: next_state_simps)
qed

subsection \<open>Properties\<close>

text \<open>If the fan's minimal start speed is at most its maximal speed, the ramp sets a speed between the
  two, whatever the temperature and the limits are, not-a-number included; and a higher temperature never
  sets a lower speed, in spite of the rounding of \<open>f32\<close>.\<close>

theorem ramp_within_limits:
  assumes "min_rpm \<le> max_rpm"
  shows "min_rpm \<le> ramp_rpm c min_rpm max_rpm t \<and> ramp_rpm c min_rpm max_rpm t \<le> max_rpm
    \<and> (f_le t t' \<longrightarrow> ramp_rpm c min_rpm max_rpm t \<le> ramp_rpm c min_rpm max_rpm t')"
proof -
  have le: "unat min_rpm \<le> unat max_rpm" using assms by (simp add: word_le_nat_alt)
  note share = ramp_rpm_share[OF assms, of c t] ramp_rpm_share[OF assms, of c t']
  have mono: "ramp_share c (max_rpm - min_rpm) t \<le> ramp_share c (max_rpm - min_rpm) t'"
    if "f_le t t'" "\<not> f_le t (ramp_temp c)" "\<not> f_le (max_temp c) t'"
  proof (cases "ramp_temp c = NaN \<or> max_temp c = NaN")
    case False
    then have "f_le (ramp_temp c) t" "f_le t' (max_temp c)"
      using that f_le_total f_le_numbers[OF that(1)] by blast+
    with that(1) show ?thesis by (intro ramp_share_mono(1))
  qed (use ramp_share_0 in auto)
  have "f_le t t' \<Longrightarrow> f_le t' (ramp_temp c) \<Longrightarrow> f_le t (ramp_temp c)" "f_le t t' \<Longrightarrow> f_le (max_temp c) t \<Longrightarrow> f_le (max_temp c) t'"
    using f_le_trans by blast+
  then show ?thesis
    using share le mono unfolding word_le_nat_alt by (auto split: if_splits)
qed

text \<open>C8. Auto control settles, if the temperature limits are numbers in order, the minimal at most the ramp and the
  ramp at most the maximal temperature, and the hysteresis is finite and not negative (\<open>sane\<close>): from any state, at a
  constant temperature that is a number and with a working driver, the state after three rounds is the state after any more
  rounds; it is the maximal one at the maximal temperature and above, off below the minimal temperature less the
  hysteresis, and no failure is sent. A client can set other limits: \<open>unordered_limits_keep_fan_off\<close>.\<close>

theorem fan_settles:
  assumes "sane c" and "automatic c r" and "temp \<noteq> NaN"
  shows "\<exists>st. (\<forall>n. \<exists>r'. fan_run (concat (replicate (3 + n) (fan_round temp))) r = Some r'
        \<and> fan_state (fan r') = st \<and> fan_events r' = fan_events r)
    \<and> (f_le (max_temp c) temp \<longrightarrow> st = FanOn OnMax)
    \<and> (f_less temp (f_sub (min_temp c) (fan_hysteresis c)) \<longrightarrow> st = FanOff)"
proof -
  let ?f = "next_state c temp" and ?s = "fan_state (fan r)"
  let ?st = "?f (?f (?f ?s))"
  note settled = next_state_settles[OF assms(1,3), of ?s]
  have "(?f ^^ n) ?st = ?st" for n by (induction n) (simp_all add: settled(1))
  moreover have "(?f ^^ (3 + n)) ?s = (?f ^^ n) ((?f ^^ 3) ?s)" for n
    by (subst add.commute) (simp only: funpow_add comp_def)
  moreover have "(?f ^^ 3) ?s = ?st" by (simp add: numeral_3_eq_3)
  ultimately have "(?f ^^ (3 + n)) ?s = ?st" for n by simp
  then show ?thesis
    using fan_rounds_run[OF assms(2), of "3 + _" temp] settled(2,3) by (intro exI[of _ ?st]) auto
qed

text \<open>The limits are not checked when they are set. With a maximal temperature below the minimal one the fan, once off,
  stays off at a temperature between them, which is above the maximum.\<close>

lemma unordered_limits_keep_fan_off:
  assumes "automatic c r" and "fan_state (fan r) = FanOff" and "f_le (max_temp c) temp" and "\<not> f_le (min_temp c) temp"
  shows "\<exists>r'. fan_run (concat (replicate n (fan_round temp))) r = Some r' \<and> fan_state (fan r') = FanOff"
proof -
  have "next_state c temp FanOff = FanOff" using assms(4) by (simp add: next_state_def handle_fan_off_state_def)
  then have "(next_state c temp ^^ n) FanOff = FanOff" for n by (induction n) simp_all
  then show ?thesis using fan_rounds_run[OF assms(1), of n temp] assms(2) by auto
qed

text \<open>When the driver fails in a round, auto control is switched off, one failure is sent, and the
  state stays what it was; once the sleep is over, the task waits for \<open>enable_auto_control\<close>.\<close>

theorem fan_failure_disables:
  assumes "fan_phase r = FanAct d" and "d \<noteq> Stay" and "d \<noteq> ChangeTo (FanOn OnRamping)"
    and "drv_faults (fan_driver (fan r)) = True # fs"
  shows "\<exists>r'. fan_run [DriverFree, FanWake] r = Some r' \<and> fan_phase r' = FanAwaitEnable
    \<and> \<not> auto_control (fan_config (fan r')) \<and> fan_state (fan r') = fan_state (fan r)
    \<and> drv_commands (fan_driver (fan r')) = drv_commands (fan_driver (fan r))
    \<and> fan_events r' = fan_events r @ [FanFailure FanHardware]"
  using assms by (cases d) (auto simp: fan_simps split: FanState.splits OnState.splits)

text \<open>A manual speed can be lost: if the task has already decided when a client sets the speed, the
  command of the task follows that of the client, although auto control is then off.\<close>

theorem manual_speed_is_lost:
  assumes "fan_phase r = FanAct (ChangeTo (FanOn OnMax))" and "drv_faults (fan_driver (fan r)) = []"
  shows "\<exists>r'. fan_run [FanClient (ManualRpm rpm), DriverFree] r = Some r'
    \<and> \<not> auto_control (fan_config (fan r')) \<and> fan_events r' = fan_events r
    \<and> drv_commands (fan_driver (fan r')) = drv_commands (fan_driver (fan r))
        @ [SetSpeedRpm rpm, SetSpeedRpm (drv_max_rpm (fan_driver (fan r)))]"
  using assms by (simp add: fan_simps fan_set_rpm_def manual_def)

text \<open>A fan of 800 to 5000 rotations per minute with the default configuration.\<close>

definition demo_fan :: "bool list \<Rightarrow> FanRunner" where
  "demo_fan faults =
     fan_start \<lparr>drv_min_rpm = 500, drv_max_rpm = 5000, drv_min_start_rpm = 800, drv_commands = [], drv_faults = faults\<rparr>
       (fan_config_default of_nat)"

lemma default_temps [simp]:
  "min_temp (fan_config_default t) = Finite 25" "ramp_temp (fan_config_default t) = Finite 35"
  "max_temp (fan_config_default t) = Finite 45" "fan_hysteresis (fan_config_default t) = Finite 2"
  "auto_control (fan_config_default t)"
  by (simp_all add: fan_config_default_def)

lemma sane_default: "sane (fan_config_default t)"
  using is_f32_int[of 25] is_f32_int[of 35] is_f32_int[of 45] by (simp add: sane_def)

lemma demo_fan_simps [simp]:
  "fan_phase (demo_fan fs) = FanDecide" "fan_config (fan (demo_fan fs)) = fan_config_default of_nat"
  "fan_state (fan (demo_fan fs)) = FanOff" "drv_faults (fan_driver (fan (demo_fan fs))) = fs"
  "fan_events (demo_fan fs) = []" "drv_commands (fan_driver (fan (demo_fan fs))) = []"
  "drv_max_rpm (fan_driver (fan (demo_fan fs))) = 5000"
  by (simp_all add: demo_fan_def fan_start_def fan_loop_def fan_new_def)

theorem ramp_within_limits_witness:
  "800 \<le> ramp_rpm (fan_config_default of_nat) 800 5000 (Finite 40)
    \<and> ramp_rpm (fan_config_default of_nat) 800 5000 (Finite 40) \<le> ramp_rpm (fan_config_default of_nat) 800 5000 (Finite 41)"
  using ramp_within_limits [of 800 5000 "fan_config_default of_nat" "Finite 40" "Finite 41"] by simp

theorem fan_settles_witness:
  "\<exists>r'. fan_run (concat (replicate (3 + 4) (fan_round (Finite 60)))) (demo_fan []) = Some r' \<and> fan_state (fan r') = FanOn OnMax"
proof -
  have "automatic (fan_config_default of_nat) (demo_fan [])" by (simp add: automatic_def)
  moreover have "Finite 60 \<noteq> NaN" by simp
  moreover have "f_le (max_temp (fan_config_default of_nat)) (Finite 60)" by simp
  ultimately show ?thesis using fan_settles [OF sane_default] by metis
qed

theorem fan_failure_disables_witness:
  "\<exists>r r'. fan_run [Temperature (Finite 30)] (demo_fan [True]) = Some r \<and> fan_run [DriverFree, FanWake] r = Some r'
    \<and> fan_phase r' = FanAwaitEnable \<and> fan_events r' = [FanFailure FanHardware]"
proof -
  let ?r = "(demo_fan [True])\<lparr>fan_phase := FanAct (ChangeTo (FanOn OnMin))\<rparr>"
  have run: "fan_run [Temperature (Finite 30)] (demo_fan [True]) = Some ?r"
    by (simp add: handle_fan_state_def handle_fan_off_state_def)
  have "fan_phase ?r = FanAct (ChangeTo (FanOn OnMin))" "drv_faults (fan_driver (fan ?r)) = True # []" by simp_all
  from fan_failure_disables [OF this(1) _ _ this(2)] obtain r' where "fan_run [DriverFree, FanWake] ?r = Some r'"
    "fan_phase r' = FanAwaitEnable" "fan_events r' = [FanFailure FanHardware]" by auto
  with run show ?thesis by blast
qed

theorem manual_speed_is_lost_witness:
  "\<exists>r r'. fan_run (fan_round (Finite 60) @ fan_round (Finite 60) @ [Temperature (Finite 60)]) (demo_fan []) = Some r
    \<and> fan_run [FanClient (ManualRpm 1000), DriverFree] r = Some r' \<and> \<not> auto_control (fan_config (fan r'))
    \<and> drv_commands (fan_driver (fan r')) = [StartFan, SetSpeedRpm 1000, SetSpeedRpm 5000]"
proof -
  have "\<exists>r. fan_run (fan_round (Finite 60) @ fan_round (Finite 60) @ [Temperature (Finite 60)]) (demo_fan []) = Some r
      \<and> fan_phase r = FanAct (ChangeTo (FanOn OnMax)) \<and> drv_faults (fan_driver (fan r)) = []
      \<and> drv_commands (fan_driver (fan r)) = [StartFan] \<and> drv_max_rpm (fan_driver (fan r)) = 5000"
    by (simp add: fan_round_def handle_fan_state_def handle_fan_off_state_def handle_fan_on_state_def
        handle_fan_ramping_state_def fan_simps f_sub_def to_f32_numeral f_less_def)
  then obtain r where r: "fan_run (fan_round (Finite 60) @ fan_round (Finite 60) @ [Temperature (Finite 60)]) (demo_fan []) = Some r"
    "fan_phase r = FanAct (ChangeTo (FanOn OnMax))" "drv_faults (fan_driver (fan r)) = []"
    "drv_commands (fan_driver (fan r)) = [StartFan]" "drv_max_rpm (fan_driver (fan r)) = 5000" by blast
  from manual_speed_is_lost [OF r(2,3), of 1000] r show ?thesis by auto
qed

end
