(* ===== verification/Thermal_Relay_Props.thy ===== *)
theory Thermal_Relay_Props
  imports Thermal_Relay Thermal_Fan_Props
begin

text \<open>
  Properties of the thermal relay of \<open>Thermal_Relay\<close>: its messages survive their bytes, what the host
  reads back of a temperature it has set, and which requests change which sensor or fan.
\<close>

subsection \<open>From deci-kelvin to degrees and back\<close>

lemma near_1024: "\<bar>x\<bar> < 1024 \<Longrightarrow> \<bar>rnd x - x\<bar> \<le> 1 / 32768"
  using rnd_error[of x 135] by simp

lemma near_16384: "\<bar>x\<bar> < 16384 \<Longrightarrow> \<bar>rnd x - x\<bar> \<le> 1 / 2048"
  using rnd_error[of x 139] by simp

lemma to_f32_small: "\<bar>x\<bar> < 16384 \<Longrightarrow> to_f32 x = Finite (rnd x)"
  using near_16384[of x] unfolding to_f32_def by (auto simp: abs_le_iff abs_less_iff)

text \<open>The value before truncation, for a rational in place of the word.\<close>

lemma celsius_there_and_back:
  assumes "0 \<le> n" and "n \<le> 10000"
  defines "K \<equiv> rnd (27315 / 100)"
  defines "e \<equiv> rnd (rnd (rnd (rnd (n / 10) - K) + K) * 10)"
  shows "\<bar>e - n\<bar> < 1 / 100" and "f_mul (f_add (f_sub (f_div (Finite n) (to_f32 10)) KELVIN) KELVIN) (to_f32 10) = Finite e"
proof -
  define b where "b = rnd (n / 10)"
  define c where "c = rnd (b - K)"
  define d where "d = rnd (c + K)"
  have e: "e = rnd (d * 10)" by (simp add: e_def b_def c_def d_def)
  have K: "\<bar>K - 27315 / 100\<bar> \<le> 1 / 32768" unfolding K_def by (rule near_1024) simp
  have b: "\<bar>b - n / 10\<bar> \<le> 1 / 32768" unfolding b_def by (rule near_1024) (use assms(1,2) in simp)
  have b': "\<bar>b - K\<bar> < 1024" using b K assms(1,2) by linarith
  have c: "\<bar>c - (b - K)\<bar> \<le> 1 / 32768" unfolding c_def by (rule near_1024[OF b'])
  have c': "\<bar>c + K\<bar> < 1024" using b c K assms(1,2) by linarith
  have d: "\<bar>d - (c + K)\<bar> \<le> 1 / 32768" unfolding d_def by (rule near_1024[OF c'])
  have d': "\<bar>d * 10\<bar> < 16384" using b c d assms(1,2) by linarith
  have "\<bar>e - d * 10\<bar> \<le> 1 / 2048" unfolding e by (rule near_16384[OF d'])
  then show "\<bar>e - n\<bar> < 1 / 100" using b c d by linarith
  have ten: "to_f32 10 = Finite 10" using to_f32_int[of 10] by simp
  have "to_f32 (27315 / 100) = Finite K" unfolding K_def by (rule to_f32_small) simp
  then have kelvin: "KELVIN = Finite K" by (simp add: KELVIN_def)
  have "f_div (Finite n) (to_f32 10) = Finite b"
    using to_f32_small[of "n / 10"] assms(1,2) by (simp add: ten b_def)
  moreover have "f_sub (Finite b) KELVIN = Finite c"
    using to_f32_small[of "b - K"] b' by (simp add: f_sub_def kelvin c_def)
  moreover have "f_add (Finite c) KELVIN = Finite d"
    using to_f32_small[of "c + K"] c' by (simp add: kelvin d_def)
  moreover have "f_mul (Finite d) (to_f32 10) = Finite e"
    using to_f32_small[OF d'] by (simp add: ten e)
  ultimately show "f_mul (f_add (f_sub (f_div (Finite n) (to_f32 10)) KELVIN) KELVIN) (to_f32 10) = Finite e" by simp
qed

lemma as_word_near:
  assumes "\<bar>e - of_nat n\<bar> < 1 / 100" and "n \<le> 10000"
  shows "unat (as_word (Finite e) :: u32) = n \<or> unat (as_word (Finite e) :: u32) = n - 1"
proof (cases "e < 0")
  case True
  then have "of_nat n < (1 :: rat)" using assms(1) by (simp add: abs_less_iff)
  then have "n = 0" by (metis less_one of_nat_1 of_nat_less_iff)
  then show ?thesis using True by simp
next
  case False
  have n: "of_nat n \<le> (10000 :: rat)" using assms(2) by (metis of_nat_le_iff of_nat_numeral)
  have "of_int (int n - 1) \<le> e" "e < of_int (int n + 1)" using assms(1) unfolding of_int_diff of_int_add of_int_of_nat_eq of_int_1 by linarith+
  then have "int n - 1 \<le> \<lfloor>e\<rfloor>" "\<lfloor>e\<rfloor> < int n + 1" by (simp_all only: le_floor_iff floor_less_iff)
  moreover have "0 \<le> \<lfloor>e\<rfloor>" using False by simp
  ultimately consider "\<lfloor>e\<rfloor> = int n" | "\<lfloor>e\<rfloor> = int (n - 1)" by linarith
  moreover have "e < 4294967296" using assms(1) n by linarith
  then have "\<not> 2 ^ LENGTH(32) \<le> e" by simp
  ultimately show ?thesis
    using False assms(2) by cases (simp_all add: unat_of_nat)
qed

lemma round_even_eq: "\<bar>of_int n - x\<bar> < 1 / 2 \<Longrightarrow> round_even x = n"
proof -
  assume "\<bar>of_int n - x\<bar> < 1 / 2"
  with round_even_close[of x] have "\<bar>of_int (round_even x) - of_int n :: rat\<bar> < 1" by linarith
  then have "\<bar>of_int (round_even x - n) :: rat\<bar> < of_int 1" by simp
  then show ?thesis by (simp only: of_int_abs[symmetric] of_int_less_iff)
qed

lemma to_f32_near:
  assumes "2 ^ k / 2 ^ 126 \<le> \<bar>x\<bar>" and "\<bar>x\<bar> < 2 ^ Suc k / 2 ^ 126" and "k \<le> 253" and "\<bar>x\<bar> < 16384"
    and "\<bar>of_int n - x * 2 ^ 149 / 2 ^ k\<bar> < 1 / 2" and "y = of_int n * 2 ^ k / 2 ^ 149"
  shows "to_f32 x = Finite y"
  using to_f32_small[OF assms(4)] rnd_eval[OF assms(1-3)] round_even_eq[OF assms(5)] assms(6) by simp

text \<open>3 deci-kelvin, of which rounding leaves a little less.\<close>

lemma three_deci_kelvin: "from_celsius (to_celsius 3) = 2"
proof -
  have ten: "to_f32 10 = Finite 10" using to_f32_int[of 10] by simp
  have three: "of_word (3 :: u32) = Finite 3" using of_word_small[of "3 :: u32"] by simp
  have K: "KELVIN = Finite (8950579 / 32768)"
    unfolding KELVIN_def by (rule to_f32_near[where k = 134 and n = 8950579]) simp_all
  have "to_f32 (3 / 10) = Finite (10066330 / 33554432)"
    by (rule to_f32_near[where k = 124 and n = 10066330]) simp_all
  moreover have "f_sub (Finite (10066330 / 33554432)) KELVIN = Finite (- 8940749 / 32768)"
    unfolding K f_sub_def f_neg.simps f_add.simps
    by (rule to_f32_near[where k = 134 and n = "- 8940749"]) simp_all
  moreover have "f_add (Finite (- 8940749 / 32768)) KELVIN = Finite (9830 / 32768)"
    unfolding K f_add.simps by (rule to_f32_near[where k = 124 and n = 10065920]) simp_all
  moreover have "to_f32 (9830 / 32768 * 10) = Finite (98300 / 32768)"
    by (rule to_f32_near[where k = 127 and n = 12582400]) simp_all
  moreover have "(as_word (Finite (98300 / 32768)) :: u32) = 2"
  proof -
    have "\<lfloor>98300 / 32768 :: rat\<rfloor> = 2" by (rule floor_unique) simp_all
    then show ?thesis by simp
  qed
  ultimately show ?thesis by (simp only: to_celsius_def from_celsius_def ten three f_div.simps f_mul.simps) simp
qed

subsection \<open>What set and get do to the lists\<close>

lemma get_put_sensor [simp]:
  "get_sensor j (put_sensor i s t) = (if j = i then map_option (\<lambda>_. s) (get_sensor i t) else get_sensor j t)"
  "get_fan j (put_sensor i s t) = get_fan j t"
  by (auto simp: get_sensor_def get_fan_def put_sensor_def nth_or_none_def word_unat_eq_iff)

lemma get_put_fan [simp]:
  "get_fan j (put_fan i f t) = (if j = i then map_option (\<lambda>_. f) (get_fan i t) else get_fan j t)"
  "get_sensor j (put_fan i f t) = get_sensor j t"
  by (auto simp: get_sensor_def get_fan_def put_fan_def nth_or_none_def word_unat_eq_iff)

lemma threshold_set [simp]: "threshold t (set_threshold t' v s) = (if t = t' then v else threshold t s)"
  by (cases t; cases t') (simp_all add: threshold_def set_threshold_def on_sensor_config_def)

lemma state_temp_set [simp]: "state_temp on (set_state_temp on' v s) = (if on = on' then v else state_temp on s)"
  by (cases on; cases on') (simp_all add: state_temp_def set_state_temp_def on_fan_config_def)

lemma uuids_differ:
  "distinct [CRT_TEMP, PROC_HOT_TEMP, FAN_MIN_TEMP, FAN_RAMP_TEMP, FAN_MAX_TEMP, FAN_MIN_RPM, FAN_MAX_RPM, FAN_CURRENT_RPM]"
  by (simp add: uuid_defs)

fun sensor_uuid :: "Threshold \<Rightarrow> u8 list" where
  "sensor_uuid Critical = CRT_TEMP"
| "sensor_uuid Prochot = PROC_HOT_TEMP"
| "sensor_uuid _ = []"

fun fan_uuid :: "OnState \<Rightarrow> u8 list" where
  "fan_uuid OnMin = FAN_MIN_TEMP"
| "fan_uuid OnRamping = FAN_RAMP_TEMP"
| "fan_uuid OnMax = FAN_MAX_TEMP"

lemma set_var_cases:
  assumes "set_var_handler i var_uuid v t = (Inr r, t')" and "var_uuid \<noteq> FAN_CURRENT_RPM"
  shows "(\<exists>th s. get_sensor i t = Some s \<and> t' = put_sensor i (set_threshold th (to_celsius v) s) t
      \<and> (th = Critical \<or> th = Prochot) \<and> var_uuid = sensor_uuid th)
    \<or> (\<exists>on f. get_fan i t = Some f \<and> t' = put_fan i (set_state_temp on (to_celsius v) f) t \<and> var_uuid = fan_uuid on)"
  using assms
  by (fastforce simp: set_var_handler_def sensor_set_thrs_def fan_set_state_temp_def err_def split: option.splits if_splits)

text \<open>Setting a state temperature leaves what the fan reports of its speeds.\<close>

lemma fan_speeds_set [simp]:
  "fan_rpm (set_state_temp on v f) = fan_rpm f" "fan_min_rpm (set_state_temp on v f) = fan_min_rpm f"
  "fan_max_rpm (set_state_temp on v f) = fan_max_rpm f"
  by (simp_all add: fan_rpm_def fan_min_rpm_def fan_max_rpm_def set_state_temp_def on_fan_config_def)

lemmas get_var_simps = get_var_handler_def sensor_get_thrs_def fan_get_state_temp_def fan_get_min_rpm_def
  fan_get_max_rpm_def fan_get_rpm_def on_sensor_def on_fan_def err_def

lemma fst_if_app: "fst ((if b then f else g) t) = (if b then fst (f t) else fst (g t))"
  by simp

lemma fst_sensor_get_thrs [simp]:
  "fst (sensor_get_thrs j th t) =
     (case get_sensor j t of None \<Rightarrow> Inl ThermalInvalidParameter
      | Some s \<Rightarrow> Inr (ThermalGetVarResponse (from_celsius (threshold th s))))"
  by (simp add: sensor_get_thrs_def on_sensor_def split: option.split)

lemma fst_fan_gets [simp]:
  "fst (fan_get_state_temp j on t) =
     (case get_fan j t of None \<Rightarrow> Inl ThermalInvalidParameter
      | Some f \<Rightarrow> Inr (ThermalGetVarResponse (from_celsius (state_temp on f))))"
  "fst (fan_get_rpm j t) =
     (case get_fan j t of None \<Rightarrow> Inl ThermalInvalidParameter | Some f \<Rightarrow> Inr (ThermalGetVarResponse (ucast (fan_rpm f))))"
  "fst (fan_get_min_rpm j t) =
     (case get_fan j t of None \<Rightarrow> Inl ThermalInvalidParameter | Some f \<Rightarrow> Inr (ThermalGetVarResponse (ucast (fan_min_rpm f))))"
  "fst (fan_get_max_rpm j t) =
     (case get_fan j t of None \<Rightarrow> Inl ThermalInvalidParameter | Some f \<Rightarrow> Inr (ThermalGetVarResponse (ucast (fan_max_rpm f))))"
  by (simp_all add: fan_get_state_temp_def fan_get_rpm_def fan_get_min_rpm_def fan_get_max_rpm_def on_fan_def split: option.split)

lemma fst_err [simp]: "fst (err e t) = Inl e"
  by (simp add: err_def)

lemmas uuid_neq = uuids_differ[simplified] uuids_differ[THEN distinct_rev[THEN iffD2], simplified]

text \<open>What a variable reads: a function of the one sensor and fan it is asked of.\<close>

lemma fst_get_var:
  "fst (get_var_handler j uuid t) =
     (if uuid = CRT_TEMP then fst (sensor_get_thrs j Critical t)
      else if uuid = PROC_HOT_TEMP then fst (sensor_get_thrs j Prochot t)
      else if uuid = FAN_MIN_TEMP then fst (fan_get_state_temp j OnMin t)
      else if uuid = FAN_RAMP_TEMP then fst (fan_get_state_temp j OnRamping t)
      else if uuid = FAN_MAX_TEMP then fst (fan_get_state_temp j OnMax t)
      else if uuid = FAN_MIN_RPM then fst (fan_get_min_rpm j t)
      else if uuid = FAN_MAX_RPM then fst (fan_get_max_rpm j t)
      else if uuid = FAN_CURRENT_RPM then fst (fan_get_rpm j t)
      else Inl ThermalInvalidParameter)"
  by (simp only: get_var_handler_def fst_if_app fst_err)

lemma get_var_after_sensor:
  assumes "get_sensor i t = Some s" and "th = Critical \<or> th = Prochot"
  shows "fst (get_var_handler j uuid (put_sensor i (set_threshold th v s) t)) =
    (if j = i \<and> uuid = sensor_uuid th then Inr (ThermalGetVarResponse (from_celsius v)) else fst (get_var_handler j uuid t))"
proof (cases "j = i")
  case True
  then show ?thesis using assms(2) uuid_neq unfolding fst_get_var by (elim disjE) (simp_all add: assms(1))
qed (simp add: fst_get_var)

lemma get_var_after_fan:
  assumes "get_fan i t = Some f"
  shows "fst (get_var_handler j uuid (put_fan i (set_state_temp on v f) t)) =
    (if j = i \<and> uuid = fan_uuid on then Inr (ThermalGetVarResponse (from_celsius v)) else fst (get_var_handler j uuid t))"
proof (cases "j = i")
  case True
  then show ?thesis using uuid_neq unfolding fst_get_var by (cases on) (simp_all add: assms)
qed (simp add: fst_get_var)

lemma handler_error:
  assumes "\<forall>f \<in> set (fans t). drv_faults (fan_driver f) = []" and "thermal_process_request m t = (Inl e, t')"
  shows "t' = t \<and> e = ThermalInvalidParameter"
proof -
  have "drv_faults (fan_driver f) = []" if "get_fan i t = Some f" for i f
    using assms(1) that by (auto simp: get_fan_def nth_or_none_def split: if_splits)
  then have works: "\<exists>f'. fan_set_rpm rpm f = (Inr (), f')" if "get_fan i t = Some f" for i f rpm
    using that by (simp add: fan_set_rpm_def manual_def and_then_def fan_drive_def drive_def modify_def)
  have set_rpm: "t' = t \<and> e = ThermalInvalidParameter" if "fan_set_rpm_handler i rpm t = (Inl e, t')" for i rpm
    using that works[of i _ rpm] by (fastforce simp: fan_set_rpm_handler_def split: option.splits)
  show ?thesis
    using assms(2) set_rpm
    by (cases m) (auto simp: sensor_get_tmp_def sensor_set_warn_thrs_def sensor_get_warn_thrs_def sensor_set_thrs_def
        set_var_handler_def fan_set_state_temp_def get_var_simps split: option.splits if_splits)
qed

subsection \<open>Properties\<close>

text \<open>Every thermal message with 16-byte UUIDs survives: written to a buffer of at least 23 bytes, it is
  read back from the bytes the writer reports under its discriminant, and so are responses and errors.\<close>

theorem thermal_messages_roundtrip:
  assumes "thermal_request_fits m" and "23 \<le> length buffer"
  shows "(\<exists>n buf. sm_serialize thermal_request m buffer = Inr (n, buf)
        \<and> sm_deserialize thermal_request (sm_discriminant thermal_request m) (take n buf) = Inr m)
    \<and> (\<exists>n buf. sm_serialize thermal_response r buffer = Inr (n, buf)
        \<and> sm_deserialize thermal_response (sm_discriminant thermal_response r) (take n buf) = Inr r)
    \<and> sm_deserialize thermal_error (sm_discriminant thermal_error e) [] = Inr e"
proof -
  have "length (content (thermal_request_puts m)) \<le> length buffer" using assms by (cases m) simp_all
  moreover have "length (content (thermal_response_puts r)) \<le> length buffer" using assms(2) by (cases r) simp_all
  ultimately show ?thesis
    using thermal_request.message_written[OF assms(1)] thermal_request.message_read[OF assms(1)]
      thermal_response.message_written[of r buffer] thermal_response.message_read[of r] thermal_error.message_read[of e]
    by auto
qed

text \<open>A temperature of up to 1000 kelvin that a host sets reads back the same or one tenth of a kelvin
  lower, never more; the lower reading happens, for example at 0.3 kelvin.\<close>

theorem temperature_reads_back:
  assumes "unat dk \<le> 10000"
  shows "(unat (from_celsius (to_celsius dk)) = unat dk \<or> unat (from_celsius (to_celsius dk)) = unat dk - 1)
    \<and> from_celsius (to_celsius 3) = 2"
proof -
  let ?n = "of_nat (unat dk) :: rat"
  have n: "0 \<le> ?n" "?n \<le> 10000"
    using assms by (rule_tac [!] of_nat_0_le_iff order_trans[of _ "of_nat 10000"]) (simp_all only: of_nat_le_iff of_nat_numeral order_refl)
  have "of_word dk = Finite ?n" using assms by (intro of_word_small) simp
  then show ?thesis
    using as_word_near[OF celsius_there_and_back(1)[OF n] assms] celsius_there_and_back(2)[OF n] three_deci_kelvin
    by (simp only: from_celsius_def to_celsius_def simp_thms)
qed

text \<open>With working drivers a request that is answered with an error has changed nothing, and the error
  is that of an invalid parameter. Setting a temperature variable of a sensor or fan that exists changes
  just this variable: it then reads back through the conversion, and every other variable of every
  instance as before.\<close>

theorem thermal_variables:
  assumes "\<forall>f \<in> set (fans t). drv_faults (fan_driver f) = []"
  shows "(\<forall>m e t'. thermal_process_request m t = (Inl e, t') \<longrightarrow> t' = t \<and> e = ThermalInvalidParameter)
    \<and> (\<forall>i var_uuid v r t'. var_uuid \<noteq> FAN_CURRENT_RPM \<longrightarrow> set_var_handler i var_uuid v t = (Inr r, t') \<longrightarrow>
        fst (get_var_handler i var_uuid t') = Inr (ThermalGetVarResponse (from_celsius (to_celsius v)))
        \<and> (\<forall>j uuid. (j, uuid) \<noteq> (i, var_uuid) \<longrightarrow> fst (get_var_handler j uuid t') = fst (get_var_handler j uuid t)))"
proof (intro conjI allI impI)
  show "t' = t" "e = ThermalInvalidParameter" if "thermal_process_request m t = (Inl e, t')" for m e t'
    using that handler_error[OF assms] by blast+
  fix i var_uuid v r t'
  assume var: "var_uuid \<noteq> FAN_CURRENT_RPM" and set: "set_var_handler i var_uuid v t = (Inr r, t')"
  have after: "fst (get_var_handler j uuid t') = (if j = i \<and> uuid = var_uuid
      then Inr (ThermalGetVarResponse (from_celsius (to_celsius v))) else fst (get_var_handler j uuid t))" for j uuid
    using set_var_cases[OF set var] by (elim disjE exE conjE) (simp_all only: get_var_after_sensor get_var_after_fan simp_thms)
  show "fst (get_var_handler i var_uuid t') = Inr (ThermalGetVarResponse (from_celsius (to_celsius v)))"
    by (simp add: after)
  show "fst (get_var_handler j uuid t') = fst (get_var_handler j uuid t)" if "(j, uuid) \<noteq> (i, var_uuid)" for j uuid
    using that by (auto simp: after)
qed

subsection \<open>The properties on concrete inputs\<close>

theorem thermal_messages_roundtrip_witness:
  "(\<exists>n buf. sm_serialize thermal_request (ThermalSetVarRequest 1 4 CRT_TEMP 3532) (replicate 23 0) = Inr (n, buf)
      \<and> sm_deserialize thermal_request 6 (take n buf) = Inr (ThermalSetVarRequest 1 4 CRT_TEMP 3532))
    \<and> (\<exists>n buf. sm_serialize thermal_response (ThermalGetThrsResponse 0 2731 3531) (replicate 23 0) = Inr (n, buf)
      \<and> sm_deserialize thermal_response 3 (take n buf) = Inr (ThermalGetThrsResponse 0 2731 3531))
    \<and> sm_deserialize thermal_error 3 [] = Inr ThermalHardwareError"
  using thermal_messages_roundtrip [of "ThermalSetVarRequest 1 4 CRT_TEMP 3532" "replicate 23 0"
      "ThermalGetThrsResponse 0 2731 3531" ThermalHardwareError]
  by (simp add: CRT_TEMP_def thermal_request_def thermal_response_def thermal_error_def)

theorem temperature_reads_back_witness:
  "unat (from_celsius (to_celsius 3532)) = 3532 \<or> unat (from_celsius (to_celsius 3532)) = 3531"
  using temperature_reads_back [of 3532] by simp

text \<open>A service of one sensor and one fan.\<close>

definition demo_thermal :: ThermalService where
  "demo_thermal = \<lparr>sensors = [sensor_new (sensor_config_default of_nat)], fans = [fan (demo_fan [])]\<rparr>"

theorem thermal_variables_witness:
  "\<exists>t'. set_var_handler 0 CRT_TEMP 3632 demo_thermal = (Inr ThermalSetVarResponse, t')
    \<and> fst (get_var_handler 0 CRT_TEMP t') = Inr (ThermalGetVarResponse (from_celsius (to_celsius 3632)))
    \<and> fst (get_var_handler 0 PROC_HOT_TEMP t') = fst (get_var_handler 0 PROC_HOT_TEMP demo_thermal)"
proof -
  obtain t' where "set_var_handler 0 CRT_TEMP 3632 demo_thermal = (Inr ThermalSetVarResponse, t')"
    by (simp add: set_var_handler_def sensor_set_thrs_def demo_thermal_def get_sensor_def nth_or_none_def)
  moreover have "\<forall>f \<in> set (fans demo_thermal). drv_faults (fan_driver f) = []" by (simp add: demo_thermal_def)
  moreover have "CRT_TEMP \<noteq> FAN_CURRENT_RPM" "(0, PROC_HOT_TEMP) \<noteq> (0, CRT_TEMP)" using uuid_neq by simp_all
  ultimately show ?thesis using thermal_variables [of demo_thermal] by blast
qed

end
