(* ===== verification/Cfu_Data.thy ===== *)
theory Cfu_Data
  imports Prelude
begin

text \<open>
  The requests and responses of the firmware update service: \<open>cfu-service/src/component.rs\<close>, \<open>responses.rs\<close>
  and \<open>lib.rs\<close>. The protocol definitions come from the crate \<open>embedded_cfu_protocol\<close>: of its structures
  only the fields that the sources read or write are named, a firmware version is its \<open>u32\<close>, and its
  constants and the answer to an offer are parameters.
\<close>

subsection \<open>Protocol definitions\<close>

type_synonym ComponentId = u8

record FwUpdateContentCommand =
  content_flags :: u8
  data_length :: u8
  sequence_num :: u16
  firmware_address :: u32
  content_data :: "u8 list"

datatype ContentStatus = ContentSuccess | ErrorPrepare | ErrorWrite | ErrorInvalid | OtherContentStatus u8

record FwUpdateContentResponse =
  response_sequence :: u16
  response_status :: ContentStatus

record FwUpdateOffer =
  offer_component_id :: ComponentId
  offer_rest :: "u8 list"

record FwVerComponentInfo =
  fw_version :: u32
  info_component_id :: ComponentId

record GetFwVersionResponse =
  component_count :: u8
  component_info :: "FwVerComponentInfo list"

text \<open>The flags of the first and the last block, the number of components of a version response, the
  rejection of an offer with the reason of an invalid component, and the default answer to an offer.\<close>

record 'r cfu_protocol =
  FIRST_BLOCK :: u8
  LAST_BLOCK :: u8
  MAX_CMPT_COUNT :: nat
  offer_rejection :: 'r
  offer_default :: 'r

subsection \<open>Requests and responses\<close>

datatype RequestData =
    FwVersionRequest
  | GiveOffer FwUpdateOffer
  | GiveContent FwUpdateContentCommand
  | GiveOfferExtended "u8 list"
  | GiveOfferInformation "u8 list"
  | PrepareComponentForUpdate
  | FinalizeUpdate
  | AbortUpdate

datatype 'r InternalResponseData =
    ComponentBusy
  | FwVersionResponse GetFwVersionResponse
  | OfferResponse 'r
  | ContentResponse FwUpdateContentResponse
  | PrimaryNeedsSubcomponentsPrepared "ComponentId list"
  | SubcomponentFwVersionResponse "FwVerComponentInfo list"
  | ComponentPrepared

datatype CfuError = BadImage | InvalidComponent | CfuComponentBusy | ProtocolError

definition is_first :: "'r cfu_protocol \<Rightarrow> FwUpdateContentCommand \<Rightarrow> bool" where
  "is_first K c \<longleftrightarrow> content_flags c AND FIRST_BLOCK K \<noteq> 0"

definition is_last :: "'r cfu_protocol \<Rightarrow> FwUpdateContentCommand \<Rightarrow> bool" where
  "is_last K c \<longleftrightarrow> content_flags c AND LAST_BLOCK K \<noteq> 0"

definition content_response :: "FwUpdateContentCommand \<Rightarrow> ContentStatus \<Rightarrow> 'r InternalResponseData" where
  "content_response c st = ContentResponse \<lparr>response_sequence = sequence_num c, response_status = st\<rparr>"

definition version_response :: "'r cfu_protocol \<Rightarrow> u32 \<Rightarrow> ComponentId \<Rightarrow> 'r InternalResponseData" where
  "version_response K version component_id =
     FwVersionResponse \<lparr>component_count = 1,
       component_info = replicate (MAX_CMPT_COUNT K) \<lparr>fw_version = version, info_component_id = component_id\<rparr>\<rparr>"

definition create_invalid_fw_version_response :: "'r cfu_protocol \<Rightarrow> ComponentId \<Rightarrow> 'r InternalResponseData" where
  "create_invalid_fw_version_response K component_id = version_response K 0xFFFFFFFF component_id"

definition create_content_rejection :: "u16 \<Rightarrow> 'r InternalResponseData" where
  "create_content_rejection sequence = ContentResponse \<lparr>response_sequence = sequence, response_status = ErrorInvalid\<rparr>"

text \<open>The protocol that the examples of the development use.\<close>

definition demo_protocol :: "nat cfu_protocol" where
  "demo_protocol = \<lparr>FIRST_BLOCK = 0x80, LAST_BLOCK = 0x40, MAX_CMPT_COUNT = 7, offer_rejection = 1, offer_default = 0\<rparr>"

end
