(* ===== verification/Cfu_Updater.thy ===== *)
theory Cfu_Updater
  imports Cfu_Data
begin

text \<open>
  The basic firmware updater: \<open>cfu-service/src/basic/mod.rs\<close>, \<open>state.rs\<close>, \<open>config.rs\<close> and
  \<open>event_receiver.rs\<close>, over the device trait of \<open>fw-update-interface/src/basic.rs\<close>. The device and the
  customization are parameters with a state. Instants and durations are numbers of ticks.
\<close>

subsection \<open>Devices, configuration and shared state\<close>

datatype FwError = UpdateInProgress | NeedsActiveUpdate | InvalidAddress nat | InvalidContent | FwTimeout | FwBusy | FwBus | FwFailed

record 'd fw_update =
  get_active_fw_version :: "('d, FwError, u32) action"
  start_fw_update :: "('d, FwError, unit) action"
  abort_fw_update :: "('d, FwError, unit) action"
  finalize_fw_update :: "('d, FwError, unit) action"
  write_fw_contents :: "nat \<Rightarrow> u8 list \<Rightarrow> ('d, FwError, unit) action"

record Recovery =
  tick_interval :: nat
  update_timeout_ticks :: u32

text \<open>5 seconds and 60 ticks; \<open>from_secs\<close> depends on the tick rate.\<close>

definition recovery_default :: "(nat \<Rightarrow> nat) \<Rightarrow> Recovery" where
  "recovery_default from_secs = \<lparr>tick_interval = from_secs 5, update_timeout_ticks = 60\<rparr>"

datatype FwUpdateState = FwIdle | InProgress u32 | InRecovery

definition INSTANT_MAX :: nat where "INSTANT_MAX = 2 ^ 64 - 1"

record SharedState =
  fw_update_state :: FwUpdateState
  next_recovery_tick :: nat

definition shared_new :: SharedState where
  "shared_new = \<lparr>fw_update_state = FwIdle, next_recovery_tick = INSTANT_MAX\<rparr>"

definition enter_idle :: "SharedState \<Rightarrow> SharedState" where
  "enter_idle s = s\<lparr>fw_update_state := FwIdle, next_recovery_tick := INSTANT_MAX\<rparr>"

definition enter_in_progress :: "nat \<Rightarrow> nat \<Rightarrow> SharedState \<Rightarrow> SharedState" where
  "enter_in_progress now d s = s\<lparr>fw_update_state := InProgress 0, next_recovery_tick := now + d\<rparr>"

definition enter_recovery :: "nat \<Rightarrow> SharedState \<Rightarrow> SharedState" where
  "enter_recovery now s =
     s\<lparr>fw_update_state := InRecovery,
       next_recovery_tick := (if next_recovery_tick s = INSTANT_MAX then now else next_recovery_tick s)\<rparr>"

subsection \<open>The updater\<close>

record ('c, 'd) Updater =
  updater_device :: 'd
  updater_component_id :: ComponentId
  updater_customization :: 'c
  shared_state :: SharedState
  updater_config :: Recovery

text \<open>\<open>validate\<close> of the customization.\<close>

type_synonym ('c, 'r) validator = "u32 \<Rightarrow> FwUpdateOffer \<Rightarrow> 'c \<Rightarrow> 'r \<times> 'c"

definition on_device :: "('d, 'e, 'a) action \<Rightarrow> (('c, 'd) Updater, 'e, 'a) action" where
  "on_device m u = (case m (updater_device u) of (r, d) \<Rightarrow> (r, u\<lparr>updater_device := d\<rparr>))"

definition on_shared :: "(SharedState \<Rightarrow> SharedState) \<Rightarrow> ('c, 'd) Updater \<Rightarrow> ('c, 'd) Updater" where
  "on_shared f u = u\<lparr>shared_state := f (shared_state u)\<rparr>"

definition process_get_fw_version ::
  "'r cfu_protocol \<Rightarrow> 'd fw_update \<Rightarrow> ('c, 'd) Updater \<Rightarrow> 'r InternalResponseData \<times> ('c, 'd) Updater" where
  "process_get_fw_version K ops u =
     (case on_device (get_active_fw_version ops) u of
        (Inl _, u) \<Rightarrow> (create_invalid_fw_version_response K (updater_component_id u), u)
      | (Inr version, u) \<Rightarrow> (version_response K version (updater_component_id u), u))"

definition process_give_offer ::
  "'r cfu_protocol \<Rightarrow> 'd fw_update \<Rightarrow> ('c, 'r) validator \<Rightarrow> FwUpdateOffer \<Rightarrow> ('c, 'd) Updater
     \<Rightarrow> 'r InternalResponseData \<times> ('c, 'd) Updater" where
  "process_give_offer K ops validate offer u =
     (if offer_component_id offer \<noteq> updater_component_id u then (OfferResponse (offer_rejection K), u)
      else case on_device (get_active_fw_version ops) u of
             (Inl _, u) \<Rightarrow> (OfferResponse (offer_rejection K), u)
           | (Inr version, u) \<Rightarrow>
               (case validate version offer (updater_customization u) of
                  (response, c) \<Rightarrow> (OfferResponse response, u\<lparr>updater_customization := c\<rparr>)))"

definition process_abort_update ::
  "'d fw_update \<Rightarrow> nat \<Rightarrow> ('c, 'd) Updater \<Rightarrow> 'r InternalResponseData \<times> ('c, 'd) Updater" where
  "process_abort_update ops now u =
     (case on_device (abort_fw_update ops) u of
        (Inr _, u) \<Rightarrow> (ComponentPrepared, on_shared enter_idle u)
      | (Inl _, u) \<Rightarrow> (ComponentPrepared, on_shared (enter_recovery now) u))"

text \<open>The three parts of \<open>process_give_content\<close>; an \<open>Inl\<close> is the status of an early return.\<close>

definition start_block ::
  "'r cfu_protocol \<Rightarrow> 'd fw_update \<Rightarrow> nat \<Rightarrow> FwUpdateContentCommand \<Rightarrow> (('c, 'd) Updater, ContentStatus, unit) action" where
  "start_block K ops now content u =
     (if is_first K content then
        (case on_device (start_fw_update ops) u of
           (Inl _, u) \<Rightarrow> (Inl ErrorPrepare, on_shared (enter_recovery now) u)
         | (Inr _, u) \<Rightarrow> (Inr (), on_shared (enter_in_progress now (tick_interval (updater_config u))) u))
      else (Inr (), u))"

definition write_block ::
  "'d fw_update \<Rightarrow> FwUpdateContentCommand \<Rightarrow> u8 list \<Rightarrow> (('c, 'd) Updater, ContentStatus, unit) action" where
  "write_block ops content data u =
     (case on_device (write_fw_contents ops (unat (firmware_address content)) data) u of
        (Inl _, u) \<Rightarrow> (Inl ErrorWrite, u)
      | (Inr _, u) \<Rightarrow> (Inr (), u))"

definition finish_block ::
  "'r cfu_protocol \<Rightarrow> 'd fw_update \<Rightarrow> nat \<Rightarrow> FwUpdateContentCommand \<Rightarrow> (('c, 'd) Updater, ContentStatus, unit) action" where
  "finish_block K ops now content u =
     (if is_last K content then
        (case on_device (finalize_fw_update ops) u of
           (Inl _, u) \<Rightarrow> (Inl ErrorWrite, on_shared (enter_recovery now) u)
         | (Inr _, u) \<Rightarrow> (Inr (), on_shared enter_idle u))
      else (Inr (), u))"

definition process_give_content ::
  "'r cfu_protocol \<Rightarrow> 'd fw_update \<Rightarrow> nat \<Rightarrow> FwUpdateContentCommand \<Rightarrow> ('c, 'd) Updater
     \<Rightarrow> 'r InternalResponseData \<times> ('c, 'd) Updater" where
  "process_give_content K ops now content u =
     (if length (content_data content) < unat (data_length content) then (content_response content ErrorPrepare, u)
      else case and_then (start_block K ops now content) (\<lambda>_.
                  and_then (write_block ops content (take (unat (data_length content)) (content_data content))) (\<lambda>_.
                  finish_block K ops now content)) u of
             (Inl status, u) \<Rightarrow> (content_response content status, u)
           | (Inr _, u) \<Rightarrow> (content_response content ContentSuccess, u))"

definition process_recovery_tick :: "'d fw_update \<Rightarrow> nat \<Rightarrow> ('c, 'd) Updater \<Rightarrow> ('c, 'd) Updater" where
  "process_recovery_tick ops now u =
     (case on_device (abort_fw_update ops) (on_shared (enter_recovery now) u) of
        (Inr _, u) \<Rightarrow> on_shared enter_idle u
      | (Inl _, u) \<Rightarrow> u)"

definition process_cfu_command ::
  "'r cfu_protocol \<Rightarrow> 'd fw_update \<Rightarrow> ('c, 'r) validator \<Rightarrow> nat \<Rightarrow> RequestData \<Rightarrow> ('c, 'd) Updater
     \<Rightarrow> 'r InternalResponseData \<times> ('c, 'd) Updater" where
  "process_cfu_command K ops validate now command u =
     (if fw_update_state (shared_state u) = InRecovery then (ComponentBusy, u)
      else case command of
             FwVersionRequest \<Rightarrow> process_get_fw_version K ops u
           | GiveOffer offer \<Rightarrow> process_give_offer K ops validate offer u
           | GiveContent content \<Rightarrow> process_give_content K ops now content u
           | AbortUpdate \<Rightarrow> process_abort_update ops now u
           | FinalizeUpdate \<Rightarrow> (ComponentPrepared, u)
           | PrepareComponentForUpdate \<Rightarrow> (ComponentPrepared, u)
           | GiveOfferExtended _ \<Rightarrow> (OfferResponse (offer_rejection K), u)
           | GiveOfferInformation _ \<Rightarrow> (OfferResponse (offer_rejection K), u))"

datatype CfuEvent = CfuRequest RequestData | RecoveryTick

datatype 'r Output = CfuResponse "'r InternalResponseData" | CfuRecovery

definition process_event ::
  "'r cfu_protocol \<Rightarrow> 'd fw_update \<Rightarrow> ('c, 'r) validator \<Rightarrow> nat \<Rightarrow> CfuEvent \<Rightarrow> ('c, 'd) Updater
     \<Rightarrow> 'r Output \<times> ('c, 'd) Updater" where
  "process_event K ops validate now event u =
     (case event of
        CfuRequest request \<Rightarrow>
          (case process_cfu_command K ops validate now request u of (response, u) \<Rightarrow> (CfuResponse response, u))
      | RecoveryTick \<Rightarrow> (CfuRecovery, process_recovery_tick ops now u))"

subsection \<open>The event receiver\<close>

text \<open>What ends an await of \<open>wait_next\<close>: a request of the host, or the timer. One turn of its loop either
  returns an event or has counted a tick and goes on.\<close>

datatype wakeup = HostRequest RequestData | TimerElapsed

definition wait_turn :: "Recovery \<Rightarrow> nat \<Rightarrow> wakeup \<Rightarrow> SharedState \<Rightarrow> (CfuEvent option \<times> SharedState) option" where
  "wait_turn config now w s =
     (case w of
        HostRequest request \<Rightarrow>
          (if fw_update_state s = InRecovery then None else Some (Some (CfuRequest request), s))
      | TimerElapsed \<Rightarrow>
          if now < next_recovery_tick s then None
          else let s' = s\<lparr>next_recovery_tick := now + tick_interval config\<rparr>
               in case fw_update_state s of
                    FwIdle \<Rightarrow> None
                  | InProgress ticks \<Rightarrow>
                      if ticks + 1 < update_timeout_ticks config
                      then Some (None, s'\<lparr>fw_update_state := InProgress (ticks + 1)\<rparr>)
                      else Some (Some RecoveryTick, s'\<lparr>fw_update_state := InRecovery\<rparr>)
                  | InRecovery \<Rightarrow> Some (Some RecoveryTick, s'))"

text \<open>The task: wait, process the event, send the response if there is one.\<close>

definition updater_turn ::
  "'r cfu_protocol \<Rightarrow> 'd fw_update \<Rightarrow> ('c, 'r) validator \<Rightarrow> nat \<times> wakeup \<Rightarrow> ('c, 'd) Updater
     \<Rightarrow> ('r InternalResponseData list \<times> ('c, 'd) Updater) option" where
  "updater_turn K ops validate = (\<lambda>(now, w) u.
     case wait_turn (updater_config u) now w (shared_state u) of
       None \<Rightarrow> None
     | Some (event, s) \<Rightarrow>
         (let u = u\<lparr>shared_state := s\<rparr>
          in case event of
               None \<Rightarrow> Some ([], u)
             | Some e \<Rightarrow>
                 (case process_event K ops validate now e u of
                    (CfuResponse response, u) \<Rightarrow> Some ([response], u)
                  | (CfuRecovery, u) \<Rightarrow> Some ([], u))))"

fun updater_run ::
  "'r cfu_protocol \<Rightarrow> 'd fw_update \<Rightarrow> ('c, 'r) validator \<Rightarrow> (nat \<times> wakeup) list \<Rightarrow> ('c, 'd) Updater
     \<Rightarrow> ('r InternalResponseData list \<times> ('c, 'd) Updater) option" where
  "updater_run K ops validate [] u = Some ([], u)"
| "updater_run K ops validate (w # ws) u =
     (case updater_turn K ops validate w u of
        None \<Rightarrow> None
      | Some (rs, u) \<Rightarrow> map_option (\<lambda>(rs', u). (rs @ rs', u)) (updater_run K ops validate ws u))"

definition updater_new :: "'d \<Rightarrow> Recovery \<Rightarrow> ComponentId \<Rightarrow> 'c \<Rightarrow> ('c, 'd) Updater" where
  "updater_new d config component_id c =
     \<lparr>updater_device = d, updater_component_id = component_id, updater_customization = c,
      shared_state = shared_new, updater_config = config\<rparr>"

end
