(* ===== verification/Cfu_Updater_Props.thy ===== *)
theory Cfu_Updater_Props
  imports Cfu_Updater
begin

text \<open>
  Properties of the basic firmware updater: a started update is never forgotten, a silent host leads to an
  abort, and what the device sees of the blocks of an update.
\<close>

subsection \<open>A record of the calls of the device\<close>

datatype fw_call = CallVersion | CallStart | CallAbort | CallFinalize | CallWrite nat "u8 list"

definition log_call :: "fw_call \<Rightarrow> ('d, 'e, 'a) action \<Rightarrow> ('d \<times> (fw_call \<times> bool) list, 'e, 'a) action" where
  "log_call c m = (\<lambda>(d, l). case m d of (r, d) \<Rightarrow> (r, (d, l @ [(c, is_ok r)])))"

text \<open>The device that also keeps its calls, and whether they worked.\<close>

definition logged :: "'d fw_update \<Rightarrow> ('d \<times> (fw_call \<times> bool) list) fw_update" where
  "logged ops =
     \<lparr>get_active_fw_version = log_call CallVersion (get_active_fw_version ops),
      start_fw_update = log_call CallStart (start_fw_update ops),
      abort_fw_update = log_call CallAbort (abort_fw_update ops),
      finalize_fw_update = log_call CallFinalize (finalize_fw_update ops),
      write_fw_contents = (\<lambda>a data. log_call (CallWrite a data) (write_fw_contents ops a data))\<rparr>"

lemma logged_sel [simp]:
  "get_active_fw_version (logged ops) = log_call CallVersion (get_active_fw_version ops)"
  "start_fw_update (logged ops) = log_call CallStart (start_fw_update ops)"
  "abort_fw_update (logged ops) = log_call CallAbort (abort_fw_update ops)"
  "finalize_fw_update (logged ops) = log_call CallFinalize (finalize_fw_update ops)"
  "write_fw_contents (logged ops) a data = log_call (CallWrite a data) (write_fw_contents ops a data)"
  by (simp_all add: logged_def)

text \<open>Whether the calls leave an update that was started and neither finalized nor aborted.\<close>

fun unfinished :: "bool \<Rightarrow> (fw_call \<times> bool) list \<Rightarrow> bool" where
  "unfinished b [] = b"
| "unfinished b ((c, works) # l) =
     unfinished (case c of CallStart \<Rightarrow> True | CallFinalize \<Rightarrow> \<not> works | CallAbort \<Rightarrow> b \<and> \<not> works | _ \<Rightarrow> b) l"

lemma unfinished_append [simp]: "unfinished b (l @ l') = unfinished (unfinished b l) l'"
  by (induction b l rule: unfinished.induct) simp_all

abbreviation calls :: "('c, 'd \<times> (fw_call \<times> bool) list) Updater \<Rightarrow> (fw_call \<times> bool) list" where
  "calls u \<equiv> snd (updater_device u)"

subsection \<open>The timer is armed as long as an update is not settled\<close>

definition settled :: "Recovery \<Rightarrow> ('c, 'd \<times> (fw_call \<times> bool) list) Updater \<Rightarrow> bool" where
  "settled config u \<longleftrightarrow>
     updater_config u = config
     \<and> (fw_update_state (shared_state u) = FwIdle \<longleftrightarrow> next_recovery_tick (shared_state u) = INSTANT_MAX)
     \<and> (unfinished False (calls u) \<longrightarrow> fw_update_state (shared_state u) \<noteq> FwIdle)
     \<and> (\<forall>n. fw_update_state (shared_state u) = InProgress n \<longrightarrow> n = 0 \<or> n < update_timeout_ticks config)"

definition in_time :: "Recovery \<Rightarrow> nat \<Rightarrow> bool" where
  "in_time config now \<longleftrightarrow> now + tick_interval config < INSTANT_MAX"

lemmas updater_simps = on_device_def on_shared_def log_call_def enter_idle_def enter_in_progress_def enter_recovery_def

lemma settled_shared:
  "settled config u \<Longrightarrow> \<not> unfinished False l \<Longrightarrow> settled config (on_shared enter_idle (u\<lparr>updater_device := (d, l)\<rparr>))"
  "in_time config now \<Longrightarrow> settled config u \<Longrightarrow> settled config (on_shared (enter_recovery now) u)"
  "in_time config now \<Longrightarrow> settled config u \<Longrightarrow>
     settled config (on_shared (enter_in_progress now (tick_interval (updater_config u))) (u\<lparr>updater_device := dev\<rparr>))"
  by (auto simp: settled_def updater_simps in_time_def)

text \<open>A call of the device changes the device and its log alone.\<close>

lemma on_device_log:
  "on_device (log_call c m) u =
     (case m (fst (updater_device u)) of (r, d) \<Rightarrow> (r, u\<lparr>updater_device := (d, calls u @ [(c, is_ok r)])\<rparr>))"
  by (simp add: on_device_def log_call_def case_prod_beta)

lemma settled_device:
  assumes "settled config u" and "c \<noteq> CallStart" and "c \<noteq> CallFinalize"
  shows "settled config (u\<lparr>updater_device := (d, calls u @ [(c, works)])\<rparr>)"
  using assms by (cases c) (auto simp: settled_def)

lemma settled_customization: "settled config (u\<lparr>updater_customization := c\<rparr>) = settled config u"
  by (simp add: settled_def)

lemma settled_dirty:
  assumes "settled config u" and "in_time config now"
  shows "settled config (on_shared (enter_recovery now) (u\<lparr>updater_device := d\<rparr>))"
  using assms by (auto simp: settled_def updater_simps in_time_def)

lemma settled_blocks [keeps_intros]:
  assumes "in_time config now"
  shows "keeps (settled config) (start_block K (logged ops) now content)"
    and "keeps (settled config) (write_block (logged ops) content data)"
    and "keeps (settled config) (finish_block K (logged ops) now content)"
proof -
  show "keeps (settled config) (start_block K (logged ops) now content)"
    by (rule keepsI) (auto simp: start_block_def on_device_log assms settled_dirty settled_shared(3)
        split: prod.splits sum.splits)
  show "keeps (settled config) (write_block (logged ops) content data)"
    by (rule keepsI) (auto simp: write_block_def on_device_log settled_device split: prod.splits sum.splits)
  show "keeps (settled config) (finish_block K (logged ops) now content)"
    by (rule keepsI) (auto simp: finish_block_def on_device_log assms settled_dirty settled_shared(1) 
        split: prod.splits sum.splits)
qed

lemma settled_content:
  assumes "settled config u" and "in_time config now"
  shows "settled config (snd (process_give_content K (logged ops) now content u))"
proof -
  let ?m = "and_then (start_block K (logged ops) now content) (\<lambda>_.
      and_then (write_block (logged ops) content (take (unat (data_length content)) (content_data content))) (\<lambda>_.
      finish_block K (logged ops) now content))"
  have "keeps (settled config) ?m" by (intro keeps_and_then settled_blocks[OF assms(2)])
  then have "settled config (snd (?m u))" using assms(1) by (rule keepsD)
  then show ?thesis using assms(1) by (auto simp: process_give_content_def split: prod.splits sum.splits)
qed

lemma settled_command:
  assumes "settled config u" and "in_time config now"
  shows "settled config (snd (process_cfu_command K (logged ops) validate now c u))"
proof (cases c)
  case (GiveContent content)
  then show ?thesis using assms settled_content[OF assms, of K ops content] by (simp add: process_cfu_command_def)
next
  case (GiveOffer offer)
  then show ?thesis
    using assms
    by (auto simp: process_cfu_command_def process_give_offer_def on_device_log settled_device settled_customization split: prod.splits sum.splits)
next
  case AbortUpdate
  then show ?thesis
    using assms
    by (auto simp: process_cfu_command_def process_abort_update_def on_device_log settled_dirty settled_shared(1)
        split: prod.splits sum.splits)
qed (use assms in \<open>auto simp: process_cfu_command_def process_get_fw_version_def on_device_log settled_device
      split: prod.splits sum.splits\<close>)

lemma settled_recovery:
  assumes "settled config u" and "in_time config now"
  shows "settled config (process_recovery_tick (logged ops) now u)"
  using assms
  by (auto simp: process_recovery_tick_def updater_simps settled_def in_time_def split: prod.splits sum.splits)

lemma settled_wait:
  assumes "settled config u" and "in_time config now" and "wait_turn config now w (shared_state u) = Some (e, s)"
  shows "settled config (u\<lparr>shared_state := s\<rparr>)"
  using assms
  by (auto simp: wait_turn_def settled_def in_time_def Let_def split: wakeup.splits if_splits FwUpdateState.splits)

lemma settled_turn:
  assumes "settled config u" and "in_time config (fst w)"
    and "updater_turn K (logged ops) validate w u = Some (rs, u')"
  shows "settled config u'"
proof -
  obtain now wake where w: "w = (now, wake)" by (cases w)
  have config: "updater_config u = config" using assms(1) by (simp add: settled_def)
  obtain e s where wait: "wait_turn config now wake (shared_state u) = Some (e, s)"
    using assms(3) by (auto simp: updater_turn_def w config split: option.splits)
  let ?u = "u\<lparr>shared_state := s\<rparr>"
  have s: "settled config ?u" using settled_wait[OF assms(1) _ wait] assms(2) by (simp add: w)
  consider "e = None" | c where "e = Some (CfuRequest c)" | "e = Some RecoveryTick"
    by (cases e) (auto intro: CfuEvent.exhaust)
  then show ?thesis
  proof cases
    case (2 c)
    then show ?thesis
      using assms(3) settled_command[OF s, of now K ops validate c] assms(2)
      by (auto simp: updater_turn_def w config wait process_event_def split: prod.splits)
  next
    case 3
    then show ?thesis
      using assms(3) settled_recovery[OF s, of now ops] assms(2)
      by (auto simp: updater_turn_def w config wait process_event_def)
  qed (use assms(3) s in \<open>auto simp: updater_turn_def w config wait\<close>)
qed

lemma settled_run:
  assumes "settled config u" and "\<forall>w \<in> set ws. in_time config (fst w)"
    and "updater_run K (logged ops) validate ws u = Some (rs, u')"
  shows "settled config u'"
  using assms
proof (induction ws arbitrary: u rs)
  case (Cons w ws)
  then obtain rs1 u1 rs2 where "updater_turn K (logged ops) validate w u = Some (rs1, u1)"
    and "updater_run K (logged ops) validate ws u1 = Some (rs2, u')"
    by (auto split: option.splits)
  then show ?case using Cons settled_turn by (metis list.set_intros)
qed simp

text \<open>C16. However the host's requests and the timer interleave and whatever fails on the device: an update
  that has been started and neither finalized nor aborted is not forgotten, since the updater is then not
  idle; the recovery timer runs exactly as long as the updater is not idle; and the ticks it has counted
  stay below the timeout.\<close>

theorem started_update_is_watched:
  assumes "updater_run K (logged ops) validate ws (updater_new (d, []) config i c) = Some (rs, u)"
    and "\<forall>w \<in> set ws. fst w + tick_interval config < INSTANT_MAX"
  shows "(unfinished False (calls u) \<longrightarrow> fw_update_state (shared_state u) \<noteq> FwIdle)
    \<and> (fw_update_state (shared_state u) = FwIdle \<longleftrightarrow> next_recovery_tick (shared_state u) = INSTANT_MAX)
    \<and> (\<forall>n. fw_update_state (shared_state u) = InProgress n \<longrightarrow> n = 0 \<or> n < update_timeout_ticks config)"
proof -
  have "settled config (updater_new (d, []) config i c)" by (simp add: settled_def updater_new_def shared_new_def)
  then have "settled config u" using settled_run assms by (metis in_time_def)
  then show ?thesis unfolding settled_def by blast
qed

subsection \<open>A host that falls silent\<close>

text \<open>\<open>n\<close> turns of the timer, each at the instant it is due.\<close>

fun silent :: "'r cfu_protocol \<Rightarrow> 'd fw_update \<Rightarrow> ('c, 'r) validator \<Rightarrow> nat \<Rightarrow> ('c, 'd) Updater \<Rightarrow> ('c, 'd) Updater option" where
  "silent K ops validate 0 u = Some u"
| "silent K ops validate (Suc n) u =
     (case updater_turn K ops validate (next_recovery_tick (shared_state u), TimerElapsed) u of
        None \<Rightarrow> None
      | Some (_, u) \<Rightarrow> silent K ops validate n u)"

lemma silent_add:
  "silent K ops validate (m + n) u = Option.bind (silent K ops validate m u) (silent K ops validate n)"
  by (induction m arbitrary: u) (auto split: option.split)

text \<open>The device after \<open>n\<close> calls of \<open>abort_fw_update\<close>.\<close>

definition aborts :: "'d fw_update \<Rightarrow> nat \<Rightarrow> 'd \<Rightarrow> 'd" where
  "aborts ops n = ((\<lambda>d. snd (abort_fw_update ops d)) ^^ n)"

lemma aborts_Suc: "aborts ops (Suc n) d = aborts ops n (snd (abort_fw_update ops d))"
  unfolding aborts_def funpow_Suc_right by simp

lemma recovery_turn:
  assumes "fw_update_state (shared_state u) = InRecovery \<or>
      (\<exists>n. fw_update_state (shared_state u) = InProgress n \<and> \<not> n + 1 < update_timeout_ticks (updater_config u))"
    and "next_recovery_tick (shared_state u) + tick_interval (updater_config u) < INSTANT_MAX"
  shows "\<exists>u'. updater_turn K ops validate (next_recovery_tick (shared_state u), TimerElapsed) u = Some ([], u')
    \<and> updater_config u' = updater_config u \<and> updater_device u' = snd (abort_fw_update ops (updater_device u))
    \<and> (if is_ok (fst (abort_fw_update ops (updater_device u))) then shared_state u' = shared_new
       else fw_update_state (shared_state u') = InRecovery
         \<and> next_recovery_tick (shared_state u') = next_recovery_tick (shared_state u) + tick_interval (updater_config u))"
  using assms
  by (cases "abort_fw_update ops (updater_device u)"; cases "fst (abort_fw_update ops (updater_device u))")
    (auto simp: updater_turn_def wait_turn_def process_event_def process_recovery_tick_def updater_simps shared_new_def)

lemma recovery_ends:
  assumes "fw_update_state (shared_state u) = InRecovery \<or>
      (\<exists>n. fw_update_state (shared_state u) = InProgress n \<and> \<not> n + 1 < update_timeout_ticks (updater_config u))"
    and "next_recovery_tick (shared_state u) + Suc k * tick_interval (updater_config u) < INSTANT_MAX"
    and "\<forall>j < k. \<not> is_ok (fst (abort_fw_update ops (aborts ops j (updater_device u))))"
    and "is_ok (fst (abort_fw_update ops (aborts ops k (updater_device u))))"
  shows "\<exists>u'. silent K ops validate (Suc k) u = Some u' \<and> shared_state u' = shared_new
    \<and> updater_device u' = aborts ops (Suc k) (updater_device u)"
  using assms
proof (induction k arbitrary: u)
  case 0
  then obtain u' where "updater_turn K ops validate (next_recovery_tick (shared_state u), TimerElapsed) u = Some ([], u')"
    "updater_device u' = snd (abort_fw_update ops (updater_device u))" "shared_state u' = shared_new"
    using recovery_turn[of u K ops validate] by (auto simp: aborts_def)
  then show ?case by (simp add: aborts_def)
next
  case (Suc k)
  have "next_recovery_tick (shared_state u) + tick_interval (updater_config u) < INSTANT_MAX" using Suc.prems(2) by simp
  moreover have "\<not> is_ok (fst (abort_fw_update ops (updater_device u)))" using Suc.prems(3) by (auto simp: aborts_def)
  ultimately obtain u1 where u1: "updater_turn K ops validate (next_recovery_tick (shared_state u), TimerElapsed) u = Some ([], u1)"
    "updater_config u1 = updater_config u" "updater_device u1 = snd (abort_fw_update ops (updater_device u))"
    "fw_update_state (shared_state u1) = InRecovery"
    "next_recovery_tick (shared_state u1) = next_recovery_tick (shared_state u) + tick_interval (updater_config u)"
    using recovery_turn[OF Suc.prems(1), of K ops validate] by auto
  have "\<exists>u'. silent K ops validate (Suc k) u1 = Some u' \<and> shared_state u' = shared_new
      \<and> updater_device u' = aborts ops (Suc k) (updater_device u1)"
  proof (rule Suc.IH)
    show "\<forall>j < k. \<not> is_ok (fst (abort_fw_update ops (aborts ops j (updater_device u1))))"
      using Suc.prems(3) by (auto simp: u1 simp flip: aborts_Suc)
    show "is_ok (fst (abort_fw_update ops (aborts ops k (updater_device u1))))"
      using Suc.prems(4) by (simp add: u1 aborts_Suc)
  qed (use Suc.prems(2) u1 in \<open>auto simp: algebra_simps\<close>)
  then show ?case using u1 by (simp add: aborts_Suc)
qed

lemma progress_turn:
  assumes "fw_update_state (shared_state u) = InProgress n" and "n + 1 < update_timeout_ticks (updater_config u)"
  shows "updater_turn K ops validate (next_recovery_tick (shared_state u), TimerElapsed) u =
    Some ([], u\<lparr>shared_state := \<lparr>fw_update_state = InProgress (n + 1),
      next_recovery_tick = next_recovery_tick (shared_state u) + tick_interval (updater_config u)\<rparr>\<rparr>)"
  using assms by (simp add: updater_turn_def wait_turn_def)

lemma ticks_pass:
  assumes "fw_update_state (shared_state u) = InProgress n" and "unat n + m < unat (update_timeout_ticks (updater_config u))"
  shows "silent K ops validate m u =
    Some (u\<lparr>shared_state := \<lparr>fw_update_state = InProgress (n + of_nat m),
      next_recovery_tick = next_recovery_tick (shared_state u) + m * tick_interval (updater_config u)\<rparr>\<rparr>)"
  using assms
proof (induction m arbitrary: u n)
  case 0
  then show ?case by (cases u; cases "shared_state u") simp
next
  case (Suc m)
  have "unat (update_timeout_ticks (updater_config u)) < 2 ^ LENGTH(32)" by (rule unsigned_less)
  then have "unat n + 1 < 2 ^ 32" using Suc.prems(2) by simp
  then have n: "unat (n + 1) = unat n + 1" by (simp add: unat_word_ariths)
  then have "n + 1 < update_timeout_ticks (updater_config u)" using Suc.prems(2) by (simp add: word_less_nat_alt)
  then show ?case
    using Suc.prems n
    by (simp add: progress_turn[OF Suc.prems(1)] Suc.IH[of _ "n + 1"] algebra_simps)
qed

text \<open>C17. A host that falls silent in an update does not leave the device in it: once the ticks that remain
  have passed, the update is aborted, again with every tick until the device accepts, and then the updater
  is idle. With \<open>k\<close> refusals that takes \<open>update_timeout_ticks - n + k\<close> turns of the timer.\<close>

theorem silent_host_is_aborted:
  assumes "fw_update_state (shared_state u) = InProgress n" and "n < update_timeout_ticks (updater_config u)"
    and "next_recovery_tick (shared_state u)
        + (unat (update_timeout_ticks (updater_config u)) + k) * tick_interval (updater_config u) < INSTANT_MAX"
    and "\<forall>j < k. \<not> is_ok (fst (abort_fw_update ops (aborts ops j (updater_device u))))"
    and "is_ok (fst (abort_fw_update ops (aborts ops k (updater_device u))))"
  shows "\<exists>u'. silent K ops validate (unat (update_timeout_ticks (updater_config u)) - unat n + k) u = Some u'
    \<and> fw_update_state (shared_state u') = FwIdle \<and> next_recovery_tick (shared_state u') = INSTANT_MAX
    \<and> updater_device u' = aborts ops (Suc k) (updater_device u)"
proof -
  let ?T = "unat (update_timeout_ticks (updater_config u))" and ?d = "tick_interval (updater_config u)"
  have n: "unat n < ?T" using assms(2) by (simp add: word_less_nat_alt)
  define m where "m = ?T - unat n - 1"
  let ?v = "u\<lparr>shared_state := \<lparr>fw_update_state = InProgress (n + of_nat m),
      next_recovery_tick = next_recovery_tick (shared_state u) + m * ?d\<rparr>\<rparr>"
  have "unat n + m < ?T" using n m_def by simp
  then have v: "silent K ops validate m u = Some ?v" by (rule ticks_pass[OF assms(1)])
  have T: "update_timeout_ticks (updater_config u) = n + of_nat m + 1"
    using n unsigned_less[of "update_timeout_ticks (updater_config u)", where 'a = nat]
    by (simp add: word_unat_eq_iff m_def unat_word_ariths unat_of_nat mod_simps)
  have "(m + Suc k) * ?d \<le> (?T + k) * ?d" using n by (intro mult_right_mono) (simp_all add: m_def)
  then have due: "next_recovery_tick (shared_state ?v) + Suc k * ?d < INSTANT_MAX"
    using assms(3) by (simp add: algebra_simps)
  have "\<exists>u'. silent K ops validate (Suc k) ?v = Some u' \<and> shared_state u' = shared_new
      \<and> updater_device u' = aborts ops (Suc k) (updater_device ?v)"
    by (rule recovery_ends) (use due assms(4,5) T in simp_all)
  moreover have "?T - unat n + k = m + Suc k" using n by (simp add: m_def)
  ultimately show ?thesis using v by (auto simp only: silent_add bind.bind_lunit) (auto simp: shared_new_def)
qed

subsection \<open>Blocks on a device that works\<close>

definition works :: "'d fw_update \<Rightarrow> bool" where
  "works ops \<longleftrightarrow> (\<forall>d. is_ok (fst (start_fw_update ops d)) \<and> is_ok (fst (abort_fw_update ops d))
     \<and> is_ok (fst (finalize_fw_update ops d)) \<and> (\<forall>a data. is_ok (fst (write_fw_contents ops a data d))))"

definition fits :: "FwUpdateContentCommand \<Rightarrow> bool" where
  "fits c \<longleftrightarrow> unat (data_length c) \<le> length (content_data c)"

text \<open>What a block asks of the device.\<close>

definition write_call :: "FwUpdateContentCommand \<Rightarrow> fw_call \<times> bool" where
  "write_call c = (CallWrite (unat (firmware_address c)) (take (unat (data_length c)) (content_data c)), True)"

definition block_calls :: "'r cfu_protocol \<Rightarrow> FwUpdateContentCommand \<Rightarrow> (fw_call \<times> bool) list" where
  "block_calls K c = (if is_first K c then [(CallStart, True)] else []) @ [write_call c]
     @ (if is_last K c then [(CallFinalize, True)] else [])"

definition state_after :: "'r cfu_protocol \<Rightarrow> FwUpdateContentCommand \<Rightarrow> FwUpdateState \<Rightarrow> FwUpdateState" where
  "state_after K c st = (if is_last K c then FwIdle else if is_first K c then InProgress 0 else st)"

definition blocks :: "(nat \<times> FwUpdateContentCommand) list \<Rightarrow> (nat \<times> wakeup) list" where
  "blocks = map (\<lambda>(now, c). (now, HostRequest (GiveContent c)))"

lemma ok_unit: "is_ok (fst r) \<Longrightarrow> \<exists>d. r = (Inr (), d)"
  by (cases r; cases "fst r") auto

lemma works_calls:
  assumes "works ops"
  shows "\<exists>d'. start_fw_update ops d = (Inr (), d')" and "\<exists>d'. abort_fw_update ops d = (Inr (), d')"
    and "\<exists>d'. finalize_fw_update ops d = (Inr (), d')" and "\<exists>d'. write_fw_contents ops a data d = (Inr (), d')"
  using assms by (auto simp: works_def intro!: ok_unit)

lemma block_turn:
  fixes u :: "('c, 'd \<times> (fw_call \<times> bool) list) Updater"
  assumes "works ops" and "fits c" and "fw_update_state (shared_state u) \<noteq> InRecovery"
  shows "\<exists>u'. updater_turn K (logged ops) validate (now, HostRequest (GiveContent c)) u = Some ([content_response c ContentSuccess], u')
    \<and> calls u' = calls u @ block_calls K c
    \<and> fw_update_state (shared_state u') = state_after K c (fw_update_state (shared_state u))"
proof -
  let ?data = "take (unat (data_length c)) (content_data c)"
  have start: "\<exists>v. start_block K (logged ops) now c u = (Inr (), v)
      \<and> calls v = calls u @ (if is_first K c then [(CallStart, True)] else [])
      \<and> fw_update_state (shared_state v) = (if is_first K c then InProgress 0 else fw_update_state (shared_state u))"
    using works_calls(1)[OF assms(1), of "fst (updater_device u)"]
    by (auto simp: start_block_def on_device_log on_shared_def enter_in_progress_def)
  have "write": "\<exists>w. write_block (logged ops) c ?data v = (Inr (), w) \<and> calls w = calls v @ [write_call c]
      \<and> shared_state w = shared_state v" for v :: "('c, 'd \<times> (fw_call \<times> bool) list) Updater"
    using works_calls(4)[OF assms(1), of "unat (firmware_address c)" ?data "fst (updater_device v)"]
    by (auto simp: write_block_def on_device_log write_call_def)
  have finish: "\<exists>w. finish_block K (logged ops) now c v = (Inr (), w)
      \<and> calls w = calls v @ (if is_last K c then [(CallFinalize, True)] else [])
      \<and> fw_update_state (shared_state w) = (if is_last K c then FwIdle else fw_update_state (shared_state v))"
    for v :: "('c, 'd \<times> (fw_call \<times> bool) list) Updater"
    using works_calls(3)[OF assms(1), of "fst (updater_device v)"]
    by (auto simp: finish_block_def on_device_log on_shared_def enter_idle_def)
  obtain v where v: "start_block K (logged ops) now c u = (Inr (), v)"
    "calls v = calls u @ (if is_first K c then [(CallStart, True)] else [])"
    "fw_update_state (shared_state v) = (if is_first K c then InProgress 0 else fw_update_state (shared_state u))"
    using start by blast
  obtain w where w: "write_block (logged ops) c ?data v = (Inr (), w)" "calls w = calls v @ [write_call c]"
    "shared_state w = shared_state v" using "write" by blast
  obtain x where x: "finish_block K (logged ops) now c w = (Inr (), x)"
    "calls x = calls w @ (if is_last K c then [(CallFinalize, True)] else [])"
    "fw_update_state (shared_state x) = (if is_last K c then FwIdle else fw_update_state (shared_state w))"
    using finish by blast
  have "process_give_content K (logged ops) now c u = (content_response c ContentSuccess, x)"
    using assms(2) v(1) w(1) x(1) by (simp add: process_give_content_def fits_def)
  then show ?thesis
    using assms(3) v w x
    by (simp add: updater_turn_def wait_turn_def process_event_def process_cfu_command_def block_calls_def state_after_def)
qed

lemma blocks_run:
  assumes "works ops" and "\<forall>(_, c) \<in> set cs. fits c" and "fw_update_state (shared_state u) \<noteq> InRecovery"
  shows "\<exists>u'. updater_run K (logged ops) validate (blocks cs) u
      = Some (map (\<lambda>(_, c). content_response c ContentSuccess) cs, u')
    \<and> calls u' = calls u @ concat (map (\<lambda>(_, c). block_calls K c) cs)
    \<and> fw_update_state (shared_state u') = fold (\<lambda>(_, c). state_after K c) cs (fw_update_state (shared_state u))"
  using assms(2,3)
proof (induction cs arbitrary: u)
  case (Cons tc cs)
  obtain now c where tc: "tc = (now, c)" by (cases tc)
  obtain v where v: "updater_turn K (logged ops) validate (now, HostRequest (GiveContent c)) u = Some ([content_response c ContentSuccess], v)"
    "calls v = calls u @ block_calls K c" "fw_update_state (shared_state v) = state_after K c (fw_update_state (shared_state u))"
    using block_turn[OF assms(1), of c u K validate now] Cons.prems by (auto simp: tc)
  have "fw_update_state (shared_state v) \<noteq> InRecovery" using v(3) Cons.prems(2) by (simp add: state_after_def)
  then show ?case using Cons.IH[of v] Cons.prems(1) v by (auto simp: tc blocks_def)
qed (simp add: blocks_def)

lemma middle_calls:
  assumes "\<forall>(_, c) \<in> set cs. \<not> is_first K c \<and> \<not> is_last K c"
  shows "concat (map (\<lambda>(_, c). block_calls K c) cs) = map (\<lambda>(_, c). write_call c) cs"
    and "fold (\<lambda>(_, c). state_after K c) cs st = st"
  using assms by (induction cs) (auto simp: block_calls_def state_after_def)

text \<open>An update whose first block alone carries the first flag and whose last block alone carries the last
  flag is, on a device that works, exactly: start, the blocks written in order at their addresses with the
  bytes that their length says, finalize; every block is answered with success under its own sequence
  number, whatever the time between them, and the updater ends idle.\<close>

theorem update_reaches_device:
  assumes "works ops" and "fw_update_state (shared_state u) \<noteq> InRecovery"
    and "\<forall>(_, c) \<in> set ((t, b) # cs @ [(t', e)]). fits c"
    and "is_first K b \<and> \<not> is_last K b" and "\<not> is_first K e \<and> is_last K e"
    and "\<forall>(_, c) \<in> set cs. \<not> is_first K c \<and> \<not> is_last K c"
  shows "\<exists>u'. updater_run K (logged ops) validate (blocks ((t, b) # cs @ [(t', e)])) u
      = Some (map (\<lambda>(_, c). content_response c ContentSuccess) ((t, b) # cs @ [(t', e)]), u')
    \<and> calls u' = calls u @ [(CallStart, True), write_call b] @ map (\<lambda>(_, c). write_call c) cs
        @ [write_call e, (CallFinalize, True)]
    \<and> fw_update_state (shared_state u') = FwIdle"
  using blocks_run[OF assms(1,3,2), of K validate] assms(4,5) middle_calls[OF assms(6)]
  by (simp add: block_calls_def state_after_def)

text \<open>An update that has timed out is aborted, but the updater does not remember it: the blocks that
  still arrive are written and, with the last, finalized with success, although the device has had no start
  since the abort. Only the device can refuse them.\<close>

theorem aborted_update_is_finalized:
  assumes "works ops" and "fw_update_state (shared_state u) = InProgress n"
    and "\<not> n + 1 < update_timeout_ticks (updater_config u)" and "next_recovery_tick (shared_state u) \<le> now"
    and "now + tick_interval (updater_config u) < INSTANT_MAX"
    and "\<forall>(_, c) \<in> set (cs @ [(t, e)]). fits c" and "\<not> is_first K e \<and> is_last K e"
    and "\<forall>(_, c) \<in> set cs. \<not> is_first K c \<and> \<not> is_last K c"
  shows "\<exists>u'. updater_run K (logged ops) validate ((now, TimerElapsed) # blocks (cs @ [(t, e)])) u
      = Some (map (\<lambda>(_, c). content_response c ContentSuccess) (cs @ [(t, e)]), u')
    \<and> calls u' = calls u @ [(CallAbort, True)] @ map (\<lambda>(_, c). write_call c) cs @ [write_call e, (CallFinalize, True)]
    \<and> fw_update_state (shared_state u') = FwIdle"
proof -
  obtain d where d: "abort_fw_update ops (fst (updater_device u)) = (Inr (), d)"
    using works_calls(2)[OF assms(1)] by blast
  let ?v = "u\<lparr>updater_device := (d, calls u @ [(CallAbort, True)]), shared_state := shared_new\<rparr>"
  have "updater_turn K (logged ops) validate (now, TimerElapsed) u = Some ([], ?v)"
    using assms(2-4) d
    by (simp add: updater_turn_def wait_turn_def process_event_def process_recovery_tick_def on_device_log
        on_shared_def enter_recovery_def enter_idle_def shared_new_def)
  moreover have "fw_update_state (shared_state ?v) \<noteq> InRecovery" by (simp add: shared_new_def)
  ultimately show ?thesis
    using blocks_run[OF assms(1,6), of ?v K validate] assms(7) middle_calls[OF assms(8)]
    by (auto simp: block_calls_def state_after_def shared_new_def)
qed

subsection \<open>The properties on a concrete device\<close>

text \<open>A device that accepts everything but, while its state is positive, refuses to abort.\<close>

definition demo_fw :: "nat fw_update" where
  "demo_fw = \<lparr>get_active_fw_version = ok 0x12345678, start_fw_update = ok (),
     abort_fw_update = (\<lambda>n. if n = 0 then (Inr (), 0) else (Inl FwBusy, n - 1)), finalize_fw_update = ok (),
     write_fw_contents = (\<lambda>_ _. ok ())\<rparr>"

definition demo_cfu :: "unit cfu_protocol" where
  "demo_cfu = \<lparr>FIRST_BLOCK = 0x80, LAST_BLOCK = 0x40, MAX_CMPT_COUNT = 7, offer_rejection = (), offer_default = ()\<rparr>"

definition demo_block :: "u8 \<Rightarrow> u16 \<Rightarrow> FwUpdateContentCommand" where
  "demo_block flags n = \<lparr>content_flags = flags, data_length = 2, sequence_num = n,
     firmware_address = ucast n * 2, content_data = [1, 2, 3]\<rparr>"

definition accept_all :: "(unit, unit) validator" where
  "accept_all _ _ c = ((), c)"

definition demo_recovery :: Recovery where
  "demo_recovery = \<lparr>tick_interval = 5, update_timeout_ticks = 3\<rparr>"

lemmas demo_defs = demo_fw_def demo_cfu_def demo_block_def accept_all_def demo_recovery_def is_first_def is_last_def

theorem started_update_is_watched_witness:
  "\<exists>rs u. updater_run demo_cfu (logged demo_fw) accept_all [(1, HostRequest (GiveContent (demo_block 0x80 0)))]
      (updater_new (0 :: nat, []) demo_recovery 5 ()) = Some (rs, u)
    \<and> unfinished False (calls u) \<and> next_recovery_tick (shared_state u) \<noteq> INSTANT_MAX"
proof -
  let ?u = "updater_new (0 :: nat, []) demo_recovery 5 ()"
  have "works (demo_fw\<lparr>abort_fw_update := ok ()\<rparr>)" by (simp add: works_def demo_fw_def)
  have run: "updater_run demo_cfu (logged demo_fw) accept_all [(1, HostRequest (GiveContent (demo_block 0x80 0)))] ?u
      = Some ([content_response (demo_block 0x80 0) ContentSuccess],
          ?u\<lparr>updater_device := (0, [(CallStart, True), (CallWrite 0 [1, 2], True)]),
            shared_state := \<lparr>fw_update_state = InProgress 0, next_recovery_tick = 6\<rparr>\<rparr>)"
    by (simp add: updater_turn_def wait_turn_def process_event_def process_cfu_command_def process_give_content_def
        start_block_def write_block_def finish_block_def updater_simps updater_new_def shared_new_def demo_defs)
  have "\<forall>w \<in> set [(1, HostRequest (GiveContent (demo_block 0x80 0)))]. fst w + tick_interval demo_recovery < INSTANT_MAX"
    by (simp add: demo_recovery_def INSTANT_MAX_def)
  from started_update_is_watched [OF run this] show ?thesis using run by simp
qed

theorem silent_host_is_aborted_witness:
  "\<exists>u'. silent demo_cfu demo_fw accept_all 5
      ((updater_new (2 :: nat) demo_recovery 5 ())\<lparr>shared_state := \<lparr>fw_update_state = InProgress 0, next_recovery_tick = 6\<rparr>\<rparr>) = Some u'
    \<and> fw_update_state (shared_state u') = FwIdle"
proof -
  let ?u = "(updater_new (2 :: nat) demo_recovery 5 ())\<lparr>shared_state := \<lparr>fw_update_state = InProgress 0, next_recovery_tick = 6\<rparr>\<rparr>"
  have "fw_update_state (shared_state ?u) = InProgress 0" by simp
  moreover have "0 < update_timeout_ticks (updater_config ?u)" by (simp add: updater_new_def demo_recovery_def)
  moreover have "next_recovery_tick (shared_state ?u)
      + (unat (update_timeout_ticks (updater_config ?u)) + 2) * tick_interval (updater_config ?u) < INSTANT_MAX"
    by (simp add: updater_new_def demo_recovery_def INSTANT_MAX_def)
  moreover have "\<forall>j < 2. \<not> is_ok (fst (abort_fw_update demo_fw (aborts demo_fw j (updater_device ?u))))"
    by (simp add: less_2_cases_iff updater_new_def demo_fw_def aborts_def)
  moreover have "is_ok (fst (abort_fw_update demo_fw (aborts demo_fw 2 (updater_device ?u))))"
    by (simp add: updater_new_def demo_fw_def aborts_def numeral_2_eq_2)
  ultimately have "\<exists>u'. silent demo_cfu demo_fw accept_all
        (unat (update_timeout_ticks (updater_config ?u)) - unat (0 :: u32) + 2) ?u = Some u' \<and> fw_update_state (shared_state u') = FwIdle"
    using silent_host_is_aborted [of ?u 0 2 demo_fw demo_cfu accept_all] by blast
  then show ?thesis by (simp add: updater_new_def demo_recovery_def)
qed

definition demo_willing :: "nat fw_update" where
  "demo_willing = demo_fw\<lparr>abort_fw_update := ok ()\<rparr>"

lemma demo_works: "works demo_willing"
  by (simp add: works_def demo_willing_def demo_fw_def)

theorem update_reaches_device_witness:
  "\<exists>rs u'. updater_run demo_cfu (logged demo_willing) accept_all
      (blocks ((1 :: nat, demo_block 0x80 0) # [(2 :: nat, demo_block 0 1)] @ [(3 :: nat, demo_block 0x40 2)])) (updater_new (0 :: nat, []) demo_recovery 5 ())
        = Some (rs, u')
    \<and> calls u' = [(CallStart, True), (CallWrite 0 [1, 2], True), (CallWrite 2 [1, 2], True),
        (CallWrite 4 [1, 2], True), (CallFinalize, True)]"
proof -
  let ?u = "updater_new (0 :: nat, []) demo_recovery 5 ()"
  have "fw_update_state (shared_state ?u) \<noteq> InRecovery" "calls ?u = []" by (simp_all add: updater_new_def shared_new_def)
  moreover have "\<forall>(_, c) \<in> set ((1 :: nat, demo_block 0x80 0) # [(2 :: nat, demo_block 0 1)] @ [(3 :: nat, demo_block 0x40 2)]). fits c"
    by (simp add: fits_def demo_block_def)
  moreover have "is_first demo_cfu (demo_block 0x80 0) \<and> \<not> is_last demo_cfu (demo_block 0x80 0)"
    "\<not> is_first demo_cfu (demo_block 0x40 2) \<and> is_last demo_cfu (demo_block 0x40 2)"
    "\<forall>(_, c) \<in> set [(2 :: nat, demo_block 0 1)]. \<not> is_first demo_cfu c \<and> \<not> is_last demo_cfu c"
    by (simp_all add: demo_defs)
  ultimately show ?thesis
    using update_reaches_device [OF demo_works, of ?u 1 "demo_block 0x80 0" "[(2 :: nat, demo_block 0 1)]" 3 "demo_block 0x40 2" demo_cfu accept_all]
    by (auto simp: write_call_def demo_block_def)
qed

theorem aborted_update_is_finalized_witness:
  "\<exists>rs u'. updater_run demo_cfu (logged demo_willing) accept_all
      ((6, TimerElapsed) # blocks ([(7 :: nat, demo_block 0 1)] @ [(8 :: nat, demo_block 0x40 2)]))
      ((updater_new (0 :: nat, [(CallStart, True)]) demo_recovery 5 ())
        \<lparr>shared_state := \<lparr>fw_update_state = InProgress 2, next_recovery_tick = 6\<rparr>\<rparr>) = Some (rs, u')
    \<and> calls u' = [(CallStart, True), (CallAbort, True), (CallWrite 2 [1, 2], True), (CallWrite 4 [1, 2], True),
        (CallFinalize, True)]"
proof -
  let ?u = "(updater_new (0 :: nat, [(CallStart, True)]) demo_recovery 5 ())
    \<lparr>shared_state := \<lparr>fw_update_state = InProgress 2, next_recovery_tick = 6\<rparr>\<rparr>"
  have calls: "calls ?u = [(CallStart, True)]" by (simp add: updater_new_def)
  have "fw_update_state (shared_state ?u) = InProgress 2" "\<not> 2 + 1 < update_timeout_ticks (updater_config ?u)"
    "next_recovery_tick (shared_state ?u) \<le> 6" "6 + tick_interval (updater_config ?u) < INSTANT_MAX"
    by (simp_all add: updater_new_def demo_recovery_def INSTANT_MAX_def)
  moreover have "\<forall>(_, c) \<in> set ([(7 :: nat, demo_block 0 1)] @ [(8 :: nat, demo_block 0x40 2)]). fits c"
    by (simp add: fits_def demo_block_def)
  moreover have "\<not> is_first demo_cfu (demo_block 0x40 2) \<and> is_last demo_cfu (demo_block 0x40 2)"
    "\<forall>(_, c) \<in> set [(7 :: nat, demo_block 0 1)]. \<not> is_first demo_cfu c \<and> \<not> is_last demo_cfu c"
    by (simp_all add: demo_defs)
  ultimately have "\<exists>u'. updater_run demo_cfu (logged demo_willing) accept_all
        ((6, TimerElapsed) # blocks ([(7 :: nat, demo_block 0 1)] @ [(8 :: nat, demo_block 0x40 2)])) ?u
        = Some (map (\<lambda>(_, c). content_response c ContentSuccess) ([(7 :: nat, demo_block 0 1)] @ [(8 :: nat, demo_block 0x40 2)]), u')
      \<and> calls u' = calls ?u @ [(CallAbort, True)] @ map (\<lambda>(_, c). write_call c) [(7 :: nat, demo_block 0 1)]
          @ [write_call (demo_block 0x40 2), (CallFinalize, True)]
      \<and> fw_update_state (shared_state u') = FwIdle"
    by (rule aborted_update_is_finalized [OF demo_works])
  then show ?thesis using calls by (auto simp: write_call_def demo_block_def updater_new_def simp del: updater_run.simps)
qed

end
