(* ===== verification/Intrusive_List.thy ===== *)
theory Intrusive_List
  imports Prelude
begin

text \<open>
  The intrusive lists of statically allocated nodes with which services register:
  \<open>embedded-service/src/intrusive_list.rs\<close>. An object and the node inside it are at one address; the
  memory holds every node and the head of every list. The contract is that of a table of lists, to which
  a pushed object is added in front unless it already is in some list.
\<close>

subsection \<open>Nodes and lists\<close>

type_synonym address = nat

datatype ListError = NodeAlreadyInList

record IntrusiveNode =
  address_of_data :: "address option" \<comment> \<open>\<open>None\<close> is the constant \<open>Node::INVALID\<close>\<close>
  node_next :: "address option"
  node_valid :: bool

record 'l Memory =
  node_at :: "address \<Rightarrow> IntrusiveNode"
  head_of :: "'l \<Rightarrow> address option"

definition node_empty :: IntrusiveNode where
  "node_empty = \<lparr>address_of_data = None, node_next = None, node_valid = False\<rparr>"

definition node_new :: "address \<Rightarrow> IntrusiveNode" where
  "node_new this = \<lparr>address_of_data = Some this, node_next = None, node_valid = True\<rparr>"

text \<open>All nodes as \<open>uninit\<close> leaves them, all lists as \<open>new\<close> does.\<close>

definition memory_new :: "'l Memory" where
  "memory_new = \<lparr>node_at = (\<lambda>_. node_empty), head_of = (\<lambda>_. None)\<rparr>"

text \<open>\<open>data::<T>()\<close>; the type of an object is its kind.\<close>

definition node_data :: "(address \<Rightarrow> 'k) \<Rightarrow> 'k \<Rightarrow> IntrusiveNode \<Rightarrow> address option" where
  "node_data kind_of k n =
     (if node_valid n then (case address_of_data n of Some a \<Rightarrow> if kind_of a = k then Some a else None | None \<Rightarrow> None)
      else None)"

definition push_front :: "'l \<Rightarrow> address \<Rightarrow> 'l Memory \<Rightarrow> 'l Memory" where
  "push_front l a m =
     (let m = (case head_of m l of
                 Some old_head \<Rightarrow> m\<lparr>node_at := (node_at m)(a := (node_at m a)\<lparr>node_next := Some old_head\<rparr>)\<rparr>
               | None \<Rightarrow> m)
      in m\<lparr>head_of := (head_of m)(l := Some a)\<rparr>)"

definition push :: "'l \<Rightarrow> address \<Rightarrow> ('l Memory, ListError, unit) action" where
  "push l a m =
     (if node_valid (node_at m a) then (Inl NodeAlreadyInList, m)
      else (Inr (), push_front l a (m\<lparr>node_at := (node_at m)(a := node_new a)\<rparr>)))"

text \<open>The iterator: its \<open>next\<close>, and what a loop over it sees; \<open>None\<close> is a loop that does not end.\<close>

definition iter_next :: "'l Memory \<Rightarrow> address option \<Rightarrow> IntrusiveNode option \<times> address option" where
  "iter_next m current =
     (case current of None \<Rightarrow> (None, None) | Some a \<Rightarrow> (Some (node_at m a), node_next (node_at m a)))"

partial_function (option) iterate :: "'l Memory \<Rightarrow> address option \<Rightarrow> IntrusiveNode list option" where
  "iterate m current =
     (case iter_next m current of
        (None, _) \<Rightarrow> Some []
      | (Some n, rest) \<Rightarrow> Option.bind (iterate m rest) (\<lambda>ns. Some (n # ns)))"

definition iter_only :: "(address \<Rightarrow> 'k) \<Rightarrow> 'k \<Rightarrow> 'l \<Rightarrow> 'l Memory \<Rightarrow> address list option" where
  "iter_only kind_of k l m = map_option (List.map_filter (node_data kind_of k)) (iterate m (head_of m l))"

subsection \<open>The lists that a memory holds\<close>

fun is_list :: "(address \<Rightarrow> IntrusiveNode) \<Rightarrow> address option \<Rightarrow> address list \<Rightarrow> bool" where
  "is_list h s [] \<longleftrightarrow> s = None"
| "is_list h s (a # xs) \<longleftrightarrow> s = Some a \<and> node_valid (h a) \<and> address_of_data (h a) = Some a \<and> is_list h (node_next (h a)) xs"

text \<open>A table of lists: without repetitions, disjoint, and of exactly the valid nodes.\<close>

definition holds :: "'l Memory \<Rightarrow> ('l \<Rightarrow> address list) \<Rightarrow> bool" where
  "holds m L \<longleftrightarrow>
     (\<forall>l. is_list (node_at m) (head_of m l) (L l) \<and> distinct (L l))
     \<and> (\<forall>l l' a. a \<in> set (L l) \<longrightarrow> a \<in> set (L l') \<longrightarrow> l = l')
     \<and> (\<forall>a. node_valid (node_at m a) \<longleftrightarrow> (\<exists>l. a \<in> set (L l)))"

lemma holdsD:
  assumes "holds m L"
  shows "is_list (node_at m) (head_of m l) (L l)" and "distinct (L l)"
  using assms by (auto simp: holds_def)

lemma is_list_update: "a \<notin> set xs \<Longrightarrow> is_list (h(a := n)) s xs = is_list h s xs"
  by (induction xs arbitrary: s) auto

lemma holds_new: "holds memory_new (\<lambda>_. [])"
  by (simp add: holds_def memory_new_def node_empty_def)

text \<open>The abstract push.\<close>

definition list_push :: "'l \<Rightarrow> address \<Rightarrow> ('l \<Rightarrow> address list, ListError, unit) action" where
  "list_push l a L = (if \<exists>l'. a \<in> set (L l') then (Inl NodeAlreadyInList, L) else (Inr (), L(l := a # L l)))"

lemma push_refines:
  assumes "holds m L"
  shows "fst (push l a m) = fst (list_push l a L)" and "holds (snd (push l a m)) (snd (list_push l a L))"
proof -
  have valid: "node_valid (node_at m a) \<longleftrightarrow> (\<exists>l. a \<in> set (L l))" using assms by (simp add: holds_def)
  then show "fst (push l a m) = fst (list_push l a L)" by (simp add: push_def list_push_def)
  show "holds (snd (push l a m)) (snd (list_push l a L))"
  proof (cases "\<exists>l. a \<in> set (L l)")
    case False
    let ?h = "(node_at m)(a := \<lparr>address_of_data = Some a, node_next = head_of m l, node_valid = True\<rparr>)"
    have "push l a m = (Inr (), \<lparr>node_at = ?h, head_of = (head_of m)(l := Some a)\<rparr>)"
      using False valid by (cases m) (auto simp: push_def push_front_def node_new_def Let_def split: option.split)
    moreover have "is_list ?h s (L l') = is_list (node_at m) s (L l')" for l' s
      using False by (intro is_list_update) auto
    moreover have "\<exists>k. (k = l \<longrightarrow> b \<in> set (L l)) \<and> (k \<noteq> l \<longrightarrow> b \<in> set (L k))" if "b \<in> set (L l')" for b l'
      using that by (intro exI[of _ l']) auto
    ultimately show ?thesis
      using assms False by (auto simp: holds_def list_push_def split: if_splits)
  qed (use assms valid in \<open>simp add: push_def list_push_def\<close>)
qed

lemma iterate_list:
  "is_list (node_at m) s xs \<Longrightarrow> iterate m s = Some (map (node_at m) xs)"
  by (induction xs arbitrary: s; subst iterate.simps) (auto simp: iter_next_def)

lemma list_data:
  "is_list (node_at m) s xs \<Longrightarrow>
     List.map_filter (node_data kind_of k) (map (node_at m) xs) = filter (\<lambda>a. kind_of a = k) xs"
  by (induction xs arbitrary: s) (auto simp: node_data_def List.map_filter_simps)

lemma iter_only_list: "holds m L \<Longrightarrow> iter_only kind_of k l m = Some (filter (\<lambda>a. kind_of a = k) (L l))"
  unfolding iter_only_def holds_def by (metis iterate_list list_data option.map(2))

subsection \<open>The contract\<close>

text \<open>Any sequence of registrations: the results, and the memory that is left.\<close>

fun adds :: "('l \<Rightarrow> address \<Rightarrow> ('m, ListError, unit) action) \<Rightarrow> ('l \<times> address) list \<Rightarrow> 'm \<Rightarrow> (ListError, unit) result list \<times> 'm" where
  "adds add [] m = ([], m)"
| "adds add ((l, a) # ps) m = (case add l a m of (r, m) \<Rightarrow> (case adds add ps m of (rs, m) \<Rightarrow> (r # rs, m)))"

text \<open>What registration relies on: memories that represent tables of lists.\<close>

locale registration_lists =
  fixes initial :: "'m"
    and add :: "'l \<Rightarrow> address \<Rightarrow> ('m, ListError, unit) action"
    and objects :: "(address \<Rightarrow> 'k) \<Rightarrow> 'k \<Rightarrow> 'l \<Rightarrow> 'm \<Rightarrow> address list option"
    and represents :: "'m \<Rightarrow> ('l \<Rightarrow> address list) \<Rightarrow> bool"
  assumes initial_empty: "represents initial (\<lambda>_. [])"
    and add_result: "represents m L \<Longrightarrow> fst (add l a m) = fst (list_push l a L)"
    and add_represents: "represents m L \<Longrightarrow> represents (snd (add l a m)) (snd (list_push l a L))"
    and objects_listed: "represents m L \<Longrightarrow> objects kind_of k l m = Some (filter (\<lambda>a. kind_of a = k) (L l))"
begin

lemma adds_simulate:
  assumes "represents m L"
  shows "fst (adds add ps m) = fst (adds list_push ps L)"
    and "represents (snd (adds add ps m)) (snd (adds list_push ps L))"
proof -
  have "fst (adds add ps m) = fst (adds list_push ps L) \<and> represents (snd (adds add ps m)) (snd (adds list_push ps L))"
    using assms
  proof (induction ps arbitrary: m L)
    case (Cons p ps)
    obtain l a where p: "p = (l, a)" by (cases p)
    obtain r m' where m': "add l a m = (r, m')" by fastforce
    obtain r' L' where L': "list_push l a L = (r', L')" by fastforce
    have "r = r'" "represents m' L'" using add_result[OF Cons.prems, of l a] add_represents[OF Cons.prems, of l a] m' L' by simp_all
    then show ?case using Cons.IH[of m' L'] by (simp add: p m' L' case_prod_beta)
  qed simp
  then show "fst (adds add ps m) = fst (adds list_push ps L)"
    "represents (snd (adds add ps m)) (snd (adds list_push ps L))" by simp_all
qed

text \<open>After any registrations: every loop over a list ends, and sees the objects of its kind.\<close>

lemma registered_objects:
  "objects kind_of k l (snd (adds add ps initial)) = Some (filter (\<lambda>a. kind_of a = k) (snd (adds list_push ps (\<lambda>_. [])) l))"
  by (rule objects_listed) (rule adds_simulate(2)[OF initial_empty])

end

interpretation intrusive: registration_lists memory_new push iter_only holds
  by unfold_locales (simp_all add: holds_new push_refines iter_only_list)

text \<open>C15. Pushing objects, in any order, on any of a set of intrusive lists does what it would do to a table of
  ordinary lists: an object that already is in a list is refused and changes nothing, every other becomes
  the head of its list, and no other list changes; and every loop over a list ends, having seen the objects
  of its type, latest first.\<close>

theorem intrusive_lists_are_lists:
  "let (results, m) = adds push ps memory_new; (results', L) = adds list_push ps (\<lambda>_. [])
    in results = results' \<and> holds m L
      \<and> (\<forall>l. iterate m (head_of m l) = Some (map (node_at m) (L l)))
      \<and> (\<forall>l kind_of k. iter_only kind_of k l m = Some (filter (\<lambda>a. kind_of a = k) (L l)))"
proof -
  obtain results m where m: "adds push ps memory_new = (results, m)" by fastforce
  obtain results' L where L: "adds list_push ps (\<lambda>_. []) = (results', L)" by fastforce
  have holds: "holds m L" using intrusive.adds_simulate(2)[OF holds_new, of ps] by (simp add: m L)
  have "results = results'" using intrusive.adds_simulate(1)[OF holds_new, of ps] by (simp add: m L)
  moreover have "iterate m (head_of m l) = Some (map (node_at m) (L l))" for l
    using holds by (simp add: holds_def iterate_list)
  ultimately show ?thesis using holds unfolding m L by (simp add: iter_only_list[OF holds])
qed

end
