(* ===== verification/Comms.thy ===== *)
theory Comms
  imports Intrusive_List
begin

text \<open>
  Services that keep their clients in intrusive lists: the routing of messages to endpoints of
  \<open>embedded-service/src/comms.rs\<close>, the activity publisher of \<open>activity.rs\<close> and the broadcaster of
  \<open>broadcaster/immediate.rs\<close>. Objects are addresses of one memory; what delegates and receivers have been
  given is a log.
\<close>

subsection \<open>Endpoints\<close>

type_synonym OemKey = int

datatype Internal =
    PlatformInfo | Keyboard | Hid | HostBoot | Power | Usbc | Thermal | Trackpad | Battery | Nonvol
  | InternalDebug | Security | InternalOem OemKey

datatype External = Host | ExternalDebug | ExternalOem OemKey

datatype EndpointID = Internal Internal | External External

text \<open>The statics of \<open>get_list\<close>: one list for each endpoint, and one for all keys of an OEM.\<close>

datatype endpoint_list =
    EXTERNAL_HOST | EXTERNAL_DEBUG | EXTERNAL_OEM
  | INTERNAL_LIST_PLATFORM_INFO | INTERNAL_LIST_KEYBOARD | INTERNAL_LIST_HID | INTERNAL_LIST_HOST_BOOT
  | INTERNAL_LIST_POWER | INTERNAL_LIST_USBC | INTERNAL_LIST_THERMAL | INTERNAL_LIST_TRACKPAD
  | INTERNAL_LIST_BATTERY | INTERNAL_LIST_NONVOL | INTERNAL_LIST_DEBUG | INTERNAL_LIST_SECURITY
  | INTERNAL_LIST_OEM

fun get_list :: "EndpointID \<Rightarrow> endpoint_list" where
  "get_list (External Host) = EXTERNAL_HOST"
| "get_list (External ExternalDebug) = EXTERNAL_DEBUG"
| "get_list (External (ExternalOem _)) = EXTERNAL_OEM"
| "get_list (Internal PlatformInfo) = INTERNAL_LIST_PLATFORM_INFO"
| "get_list (Internal Keyboard) = INTERNAL_LIST_KEYBOARD"
| "get_list (Internal Hid) = INTERNAL_LIST_HID"
| "get_list (Internal HostBoot) = INTERNAL_LIST_HOST_BOOT"
| "get_list (Internal Power) = INTERNAL_LIST_POWER"
| "get_list (Internal Usbc) = INTERNAL_LIST_USBC"
| "get_list (Internal Thermal) = INTERNAL_LIST_THERMAL"
| "get_list (Internal Trackpad) = INTERNAL_LIST_TRACKPAD"
| "get_list (Internal Battery) = INTERNAL_LIST_BATTERY"
| "get_list (Internal Nonvol) = INTERNAL_LIST_NONVOL"
| "get_list (Internal InternalDebug) = INTERNAL_LIST_DEBUG"
| "get_list (Internal Security) = INTERNAL_LIST_SECURITY"
| "get_list (Internal (InternalOem _)) = INTERNAL_LIST_OEM"

text \<open>All lists and all types of object that share the memory.\<close>

datatype registry = Endpoints endpoint_list | Subscribers | Receivers nat | CfuDevices nat

datatype object_kind = EndpointKind EndpointID | SubscriberKind | ReceiverKind | CfuDeviceKind

record 'm Message =
  msg_from :: EndpointID
  msg_to :: EndpointID
  msg_data :: 'm

text \<open>A delegate is a number; so is the instance of a subscriber and the channel of a receiver.\<close>

record 'm Comms =
  comms_memory :: "registry Memory"
  delegator :: "address \<Rightarrow> nat option"
  mailbox :: "(nat \<times> 'm) list"

definition comms_init :: "'m Comms" where
  "comms_init = \<lparr>comms_memory = memory_new, delegator = (\<lambda>_. None), mailbox = []\<rparr>"

lemma comms_init_simps [simp]:
  "comms_memory comms_init = memory_new" "delegator comms_init = (\<lambda>_. None)" "mailbox comms_init = []"
  by (simp_all add: comms_init_def)

definition register_at :: "registry \<Rightarrow> nat \<Rightarrow> address \<Rightarrow> ('m Comms, ListError, unit) action" where
  "register_at l this node s =
     (let s = s\<lparr>delegator := (delegator s)(node := Some this)\<rparr>
      in case push l node (comms_memory s) of (r, m) \<Rightarrow> (r, s\<lparr>comms_memory := m\<rparr>))"

definition register_endpoint :: "EndpointID \<Rightarrow> nat \<Rightarrow> address \<Rightarrow> ('m Comms, ListError, unit) action" where
  "register_endpoint i = register_at (Endpoints (get_list i))"

text \<open>\<open>process\<close>: the result of the delegate is dropped.\<close>

definition deliver :: "'m \<Rightarrow> address \<Rightarrow> 'm Comms \<Rightarrow> 'm Comms" where
  "deliver msg node s =
     (case delegator s node of None \<Rightarrow> s | Some d \<Rightarrow> s\<lparr>mailbox := mailbox s @ [(d, msg)]\<rparr>)"

text \<open>The identity of an endpoint is part of its object, and so of its kind here.\<close>

definition endpoint_data :: "(address \<Rightarrow> object_kind) \<Rightarrow> IntrusiveNode \<Rightarrow> (address \<times> EndpointID) option" where
  "endpoint_data kind_of n =
     (if node_valid n then
        (case address_of_data n of
           Some a \<Rightarrow> (case kind_of a of EndpointKind i \<Rightarrow> Some (a, i) | _ \<Rightarrow> None)
         | None \<Rightarrow> None)
      else None)"

definition route_node ::
  "(address \<Rightarrow> object_kind) \<Rightarrow> 'm Message \<Rightarrow> IntrusiveNode \<Rightarrow> 'm Message Comms \<Rightarrow> 'm Message Comms" where
  "route_node kind_of msg n s =
     (case endpoint_data kind_of n of
        Some (a, i) \<Rightarrow> if msg_to msg = i then deliver msg a s else s
      | None \<Rightarrow> s)"

definition route :: "(address \<Rightarrow> object_kind) \<Rightarrow> 'm Message \<Rightarrow> 'm Message Comms \<Rightarrow> 'm Message Comms option" where
  "route kind_of msg s =
     map_option (\<lambda>ns. fold (route_node kind_of msg) ns s)
       (iterate (comms_memory s) (head_of (comms_memory s) (Endpoints (get_list (msg_to msg)))))"

definition comms_send ::
  "(address \<Rightarrow> object_kind) \<Rightarrow> EndpointID \<Rightarrow> EndpointID \<Rightarrow> 'm \<Rightarrow> 'm Message Comms \<Rightarrow> 'm Message Comms option" where
  "comms_send kind_of from to data = route kind_of \<lparr>msg_from = from, msg_to = to, msg_data = data\<rparr>"

subsection \<open>Activity\<close>

datatype ActivityState = Active | Inactive | Disabled
datatype ActivityClass = KeyboardClass | TrackpadClass | OemClass u32

record Notification =
  activity_state :: ActivityState
  activity_class :: ActivityClass

definition register_subscriber :: "nat \<Rightarrow> address \<Rightarrow> ('m Comms, ListError, unit) action" where
  "register_subscriber = register_at Subscribers"

text \<open>\<open>publish\<close>: the assertion that a node is a subscriber is a panic, \<open>None\<close>.\<close>

fun publish_nodes :: "(address \<Rightarrow> object_kind) \<Rightarrow> 'm \<Rightarrow> IntrusiveNode list \<Rightarrow> 'm Comms \<Rightarrow> 'm Comms option" where
  "publish_nodes kind_of notif [] s = Some s"
| "publish_nodes kind_of notif (n # ns) s =
     (case node_data kind_of SubscriberKind n of
        None \<Rightarrow> None
      | Some a \<Rightarrow> publish_nodes kind_of notif ns (deliver notif a s))"

definition publish ::
  "(address \<Rightarrow> object_kind) \<Rightarrow> ActivityClass \<Rightarrow> ActivityState \<Rightarrow> Notification Comms \<Rightarrow> Notification Comms option" where
  "publish kind_of cls st s =
     (case iterate (comms_memory s) (head_of (comms_memory s) Subscribers) of
        None \<Rightarrow> None
      | Some ns \<Rightarrow> publish_nodes kind_of \<lparr>activity_state = st, activity_class = cls\<rparr> ns s)"

subsection \<open>Broadcasts\<close>

definition register_receiver :: "nat \<Rightarrow> address \<Rightarrow> ('m Comms, ListError, unit) action" where
  "register_receiver l node s =
     (case push (Receivers l) node (comms_memory s) of (r, m) \<Rightarrow> (r, s\<lparr>comms_memory := m\<rparr>))"

definition broadcast_node :: "(address \<Rightarrow> object_kind) \<Rightarrow> 'm \<Rightarrow> IntrusiveNode \<Rightarrow> 'm Comms \<Rightarrow> 'm Comms" where
  "broadcast_node kind_of msg n s =
     (case node_data kind_of ReceiverKind n of Some a \<Rightarrow> s\<lparr>mailbox := mailbox s @ [(a, msg)]\<rparr> | None \<Rightarrow> s)"

definition broadcast_message :: "(address \<Rightarrow> object_kind) \<Rightarrow> nat \<Rightarrow> 'm \<Rightarrow> 'm Comms \<Rightarrow> 'm Comms option" where
  "broadcast_message kind_of l msg s =
     map_option (\<lambda>ns. fold (broadcast_node kind_of msg) ns s)
       (iterate (comms_memory s) (head_of (comms_memory s) (Receivers l)))"

subsection \<open>What registrations leave in the lists\<close>

text \<open>Registrations, each a list, a delegate and a node.\<close>

fun registers :: "(registry \<times> nat \<times> address) list \<Rightarrow> 'm Comms \<Rightarrow> 'm Comms" where
  "registers [] s = s"
| "registers ((l, d, a) # ps) s = registers ps (snd (register_at l d a s))"

text \<open>A node is in the list of its first registration, with the delegate of its last.\<close>

definition members :: "(registry \<times> nat \<times> address) list \<Rightarrow> registry \<Rightarrow> address list" where
  "members ps l = snd (adds list_push (map (\<lambda>(l, _, a). (l, a)) ps) (\<lambda>_. [])) l"

lemma register_at_memory: "comms_memory (snd (register_at l d a s)) = snd (push l a (comms_memory s))"
  by (simp add: register_at_def case_prod_beta Let_def)

lemma adds_append: "snd (adds add (ps @ qs) m) = snd (adds add qs (snd (adds add ps m)))"
  by (induction ps arbitrary: m) (auto simp: case_prod_beta)

lemma registers_memory:
  "comms_memory (registers ps s) = snd (adds push (map (\<lambda>(l, _, a). (l, a)) ps) (comms_memory s))"
  by (induction ps arbitrary: s) (auto simp: register_at_memory split: prod.split)

lemma registers_delegator:
  "delegator (registers ps s) = (\<lambda>a. case map_of (rev (map (\<lambda>(_, d, a). (a, d)) ps)) a of Some d \<Rightarrow> Some d | None \<Rightarrow> delegator s a)"
  by (induction ps arbitrary: s)
    (auto simp: register_at_def case_prod_beta Let_def map_add_def fun_eq_iff split: option.split)

lemma registers_mailbox: "mailbox (registers ps s) = mailbox s"
  by (induction ps arbitrary: s) (auto simp: register_at_def case_prod_beta Let_def)

lemma registered_holds: "holds (comms_memory (registers ps comms_init)) (members ps)"
  unfolding members_def using intrusive.adds_simulate(2)[OF holds_new] by (simp add: registers_memory)

lemma list_push_subset:
  "a \<in> set (snd (adds list_push ps L) l) \<Longrightarrow> a \<in> set (L l) \<or> (l, a) \<in> set ps"
proof (induction ps arbitrary: L)
  case (Cons p ps)
  obtain k b where p: "p = (k, b)" by (cases p)
  have "a \<in> set (snd (list_push k b L) l) \<or> (l, a) \<in> set ps"
    using Cons.IH[of "snd (list_push k b L)"] Cons.prems by (simp add: p case_prod_beta)
  then show ?case by (auto simp: p list_push_def split: if_splits)
qed simp

lemma members_registered: "a \<in> set (members ps l) \<Longrightarrow> \<exists>d. (l, d, a) \<in> set ps"
  using list_push_subset[of a _ "\<lambda>_. []" l] by (fastforce simp: members_def)

lemma list_push_mono: "a \<in> set (L l) \<Longrightarrow> a \<in> set (snd (adds list_push ps L) l)"
proof (induction ps arbitrary: L)
  case (Cons p ps)
  obtain k b where p: "p = (k, b)" by (cases p)
  have "a \<in> set (snd (list_push k b L) l)" using Cons.prems by (auto simp: list_push_def)
  then show ?case using Cons.IH[of "snd (list_push k b L)"] by (simp add: p case_prod_beta)
qed simp

lemma list_push_somewhere: "(l, a) \<in> set ps \<Longrightarrow> \<exists>l'. a \<in> set (snd (adds list_push ps L) l')"
proof (induction ps arbitrary: L)
  case (Cons p ps)
  obtain k b where p: "p = (k, b)" by (cases p)
  have "\<exists>l'. b \<in> set (snd (list_push k b L) l')" by (auto simp: list_push_def)
  then have "\<exists>l'. b \<in> set (snd (adds list_push (p # ps) L) l')"
    using list_push_mono by (fastforce simp: p case_prod_beta)
  then show ?case using Cons by (auto simp: p case_prod_beta)
qed simp

subsection \<open>Who gets a message\<close>

lemma deliver_simps [simp]: "comms_memory (deliver m a s) = comms_memory s" "delegator (deliver m a s) = delegator s"
  by (simp_all add: deliver_def split: option.split)

definition told :: "(address \<Rightarrow> nat option) \<Rightarrow> 'm \<Rightarrow> address list \<Rightarrow> (nat \<times> 'm) list" where
  "told del msg as = List.map_filter (\<lambda>a. map_option (\<lambda>d. (d, msg)) (del a)) as"

lemma told_list [simp]:
  "told del msg [] = []" "told del msg (a # as) = (case del a of None \<Rightarrow> [] | Some d \<Rightarrow> [(d, msg)]) @ told del msg as"
  by (simp_all add: told_def List.map_filter_simps split: option.split)

lemma deliver_all: "fold (deliver msg) as s = s\<lparr>mailbox := mailbox s @ told (delegator s) msg as\<rparr>"
  by (induction as arbitrary: s) (simp_all add: deliver_def split: option.split)

lemma route_list:
  assumes "is_list (node_at m) h as" and "\<forall>a \<in> set as. \<exists>i. kind_of a = EndpointKind i"
  shows "fold (route_node kind_of msg) (map (node_at m) as) s
    = fold (deliver msg) (filter (\<lambda>a. kind_of a = EndpointKind (msg_to msg)) as) s"
  using assms
  by (induction as arbitrary: h s) (auto simp: route_node_def endpoint_data_def)

text \<open>Registrations of endpoints on their own list.\<close>

definition endpoint_regs :: "(EndpointID \<times> nat \<times> address) list \<Rightarrow> (registry \<times> nat \<times> address) list" where
  "endpoint_regs = map (\<lambda>(i, p). (Endpoints (get_list i), p))"

text \<open>Where every node is registered with one list only, the members are the registered nodes.\<close>

lemma members_exactly:
  assumes "\<forall>(l, d, a) \<in> set ps. l = f a"
  shows "set (members ps l) = {a. \<exists>d. (l, d, a) \<in> set ps}" and "distinct (members ps l)"
proof -
  show "distinct (members ps l)" by (rule holdsD(2)[OF registered_holds])
  show "set (members ps l) = {a. \<exists>d. (l, d, a) \<in> set ps}"
  proof (intro set_eqI iffI)
    fix a
    assume "a \<in> {a. \<exists>d. (l, d, a) \<in> set ps}"
    then obtain d where reg: "(l, d, a) \<in> set ps" by blast
    then have "(l, a) \<in> set (map (\<lambda>(l, _, a). (l, a)) ps)" by force
    from list_push_somewhere[OF this, of "\<lambda>_. []"] obtain l' where l': "a \<in> set (members ps l')"
      by (auto simp: members_def)
    from members_registered[OF l'] obtain d' where "(l', d', a) \<in> set ps" by blast
    with assms reg have "l' = f a" "l = f a" by auto
    with l' show "a \<in> set (members ps l)" by simp
  qed (use members_registered in blast)
qed

subsection \<open>Properties\<close>

text \<open>A message reaches exactly the endpoints that carry the identifier it is sent to, each once however
  often it was registered, at the delegate it was last registered with; endpoints of other OEM keys, which
  share a list, do not see it, and routing ends.\<close>

theorem messages_reach_endpoints:
  assumes "\<forall>(i, d, a) \<in> set regs. kind_of a = EndpointKind i"
  shows "let s = registers (endpoint_regs regs) comms_init; msg = \<lparr>msg_from = from, msg_to = to, msg_data = data\<rparr>
    in \<exists>as s'. comms_send kind_of from to data s = Some s' \<and> distinct as
      \<and> set as = {a. \<exists>d. (to, d, a) \<in> set regs} \<and> mailbox s' = told (delegator s) msg as
      \<and> delegator s = map_of (rev (map (\<lambda>(_, d, a). (a, d)) regs))"
proof -
  let ?ps = "endpoint_regs regs" and ?l = "Endpoints (get_list to)"
  let ?s = "registers ?ps comms_init :: 'a Message Comms" and ?msg = "\<lparr>msg_from = from, msg_to = to, msg_data = data\<rparr>"
  let ?as = "filter (\<lambda>a. kind_of a = EndpointKind to) (members ?ps ?l)"
  have own: "\<forall>(l, d, a) \<in> set ?ps. l = (case kind_of a of EndpointKind i \<Rightarrow> Endpoints (get_list i) | _ \<Rightarrow> Subscribers)"
    using assms by (auto simp: endpoint_regs_def)
  note members = members_exactly[OF own]
  have kinds: "\<exists>i. kind_of a = EndpointKind i" if "a \<in> set (members ?ps ?l)" for a
    using that assms unfolding members by (auto simp: endpoint_regs_def)
  have list: "is_list (node_at (comms_memory ?s)) (head_of (comms_memory ?s) ?l) (members ?ps ?l)"
    by (rule holdsD(1)[OF registered_holds])
  have "comms_send kind_of from to data ?s = Some (fold (deliver ?msg) ?as ?s)"
    using iterate_list[OF list] route_list[OF list, of kind_of ?msg ?s] kinds by (simp add: comms_send_def route_def)
  moreover have "mailbox (fold (deliver ?msg) ?as ?s) = told (delegator ?s) ?msg ?as"
    by (simp add: deliver_all registers_mailbox)
  moreover have "i = to" if "(i, d, a) \<in> set regs" and "kind_of a = EndpointKind to" for i d a
    using that assms by force
  then have "set ?as = {a. \<exists>d. (to, d, a) \<in> set regs}" using assms unfolding set_filter members(1) by (fastforce simp: endpoint_regs_def)
  moreover have "delegator ?s = map_of (rev (map (\<lambda>(_, d, a). (a, d)) regs))"
    by (rule ext) (simp add: registers_delegator endpoint_regs_def comp_def split_def split: option.split)
  ultimately show ?thesis using members(2) unfolding Let_def by (intro exI[of _ ?as]) simp
qed

text \<open>Published activity reaches every registered subscriber exactly once, at the delegate it was last
  registered with; the assertion of \<open>publish\<close>, that every node in the list is a subscriber, holds.\<close>

theorem everyone_is_told:
  assumes "\<forall>(l, d, a) \<in> set ps. kind_of a = SubscriberKind \<and> l = Subscribers"
    and "s = registers ps comms_init"
  shows "\<exists>as s'. publish kind_of cls st s = Some s' \<and> distinct as \<and> set as = {a. \<exists>d. (Subscribers, d, a) \<in> set ps}
    \<and> mailbox s' = told (delegator s) \<lparr>activity_state = st, activity_class = cls\<rparr> as"
proof -
  let ?as = "members ps Subscribers" and ?m = "node_at (comms_memory s)"
  have list: "is_list ?m (head_of (comms_memory s) Subscribers) ?as"
    using holdsD(1)[OF registered_holds] by (simp add: assms(2))
  have own: "\<forall>(l, d, a) \<in> set ps. l = (\<lambda>_. Subscribers) a" using assms(1) by auto
  note members = members_exactly[OF own]
  have kinds: "\<forall>a \<in> set ?as. kind_of a = SubscriberKind" using assms(1) by (auto simp: members)
  have "publish_nodes kind_of n (map ?m as) t = Some (fold (deliver n) as t)"
    if "is_list ?m h as" and "\<forall>a \<in> set as. kind_of a = SubscriberKind"
    for n :: Notification and h as t
    using that by (induction as arbitrary: h t) (auto simp: node_data_def)
  note publish = this[OF list kinds]
  have "mailbox s = []" by (simp add: assms(2) registers_mailbox)
  with publish show ?thesis
    using iterate_list[OF list] members by (intro exI[of _ ?as]) (simp add: publish_def deliver_all)
qed

subsection \<open>The properties on concrete inputs\<close>

definition demo_kind :: "address \<Rightarrow> object_kind" where
  "demo_kind a = (if a = 3 then SubscriberKind else EndpointKind (Internal (InternalOem (if a = 1 then 2 else 1))))"

definition demo_regs :: "(EndpointID \<times> nat \<times> address) list" where
  "demo_regs = [(Internal (InternalOem 1), 7, 0), (Internal (InternalOem 2), 8, 1), (Internal (InternalOem 1), 9, 0)]"

theorem messages_reach_endpoints_witness:
  "\<exists>s'. comms_send demo_kind (External Host) (Internal (InternalOem 1)) ''hi'' (registers (endpoint_regs demo_regs) comms_init) = Some s'
    \<and> mailbox s' = [(9, \<lparr>msg_from = External Host, msg_to = Internal (InternalOem 1), msg_data = ''hi''\<rparr>)]"
proof -
  have kinds: "\<forall>(i, d, a) \<in> set demo_regs. demo_kind a = EndpointKind i" by (simp add: demo_regs_def demo_kind_def)
  have "{a. \<exists>d. (Internal (InternalOem 1), d, a) \<in> set demo_regs} = {0}" by (auto simp: demo_regs_def)
  with messages_reach_endpoints [OF kinds, of "External Host" "Internal (InternalOem 1)" "''hi''"]
  obtain as s' where s': "comms_send demo_kind (External Host) (Internal (InternalOem 1)) ''hi'' (registers (endpoint_regs demo_regs) comms_init) = Some s'"
    "distinct as" "set as = {0}"
    "mailbox s' = told (map_of (rev (map (\<lambda>(_, d, a). (a, d)) demo_regs)))
      \<lparr>msg_from = External Host, msg_to = Internal (InternalOem 1), msg_data = ''hi''\<rparr> as"
    unfolding Let_def by auto
  have "as = [0]" using s'(2,3) by (cases as; cases "tl as") auto
  with s' show ?thesis by (simp add: demo_regs_def)
qed

theorem everyone_is_told_witness:
  "\<exists>s'. publish demo_kind KeyboardClass Active (registers [(Subscribers, 4, 3)] comms_init) = Some s'
    \<and> mailbox s' = [(4, \<lparr>activity_state = Active, activity_class = KeyboardClass\<rparr>)]"
proof -
  have "\<forall>(l, d, a) \<in> set [(Subscribers, 4, 3)]. demo_kind a = SubscriberKind \<and> l = Subscribers" by (simp add: demo_kind_def)
  from everyone_is_told [OF this refl, of KeyboardClass Active]
  obtain as s' where s': "publish demo_kind KeyboardClass Active (registers [(Subscribers, 4, 3)] comms_init) = Some s'"
    "distinct as" "set as = {3}"
    "mailbox s' = told (delegator (registers [(Subscribers, 4, 3)] (comms_init :: Notification Comms)))
      \<lparr>activity_state = Active, activity_class = KeyboardClass\<rparr> as"
    by auto
  have "as = [3]" using s'(2,3) by (cases as; cases "tl as") auto
  with s' show ?thesis by (simp add: register_at_def case_prod_beta)
qed

end
