(* ===== verification/Cfu_Splitter.thy ===== *)
theory Cfu_Splitter
  imports Cfu_Data Comms
begin

text \<open>
  Devices of the firmware update service: the registration and lookup of \<open>cfu-service/src/lib.rs\<close> over
  the intrusive list of devices, and the splitter of \<open>splitter.rs\<close>, which lets several devices share an
  identifier. What the devices answer to a request is a parameter; the splitter's functions return their
  response and the requests that went out.
\<close>

subsection \<open>Registered devices\<close>

text \<open>The list of one client; every device carries its identifier.\<close>

definition get_device ::
  "(address \<Rightarrow> object_kind) \<Rightarrow> (address \<Rightarrow> ComponentId) \<Rightarrow> nat \<Rightarrow> ComponentId \<Rightarrow> registry Memory
     \<Rightarrow> (CfuError, address) result option" where
  "get_device kind_of id_of l i m =
     map_option (\<lambda>ds. case List.find (\<lambda>a. id_of a = i) ds of Some a \<Rightarrow> Inr a | None \<Rightarrow> Inl InvalidComponent)
       (iter_only kind_of CfuDeviceKind (CfuDevices l) m)"

definition register_device ::
  "(address \<Rightarrow> object_kind) \<Rightarrow> (address \<Rightarrow> ComponentId) \<Rightarrow> nat \<Rightarrow> address \<Rightarrow> registry Memory
     \<Rightarrow> ((ListError, unit) result \<times> registry Memory) option" where
  "register_device kind_of id_of l a m =
     (case get_device kind_of id_of l (id_of a) m of
        None \<Rightarrow> None
      | Some (Inr _) \<Rightarrow> Some (Inl NodeAlreadyInList, m)
      | Some (Inl _) \<Rightarrow> Some (push (CfuDevices l) a m))"

text \<open>\<open>route_request\<close>: the device answers a request that reaches it.\<close>

definition route_request ::
  "(address \<Rightarrow> object_kind) \<Rightarrow> (address \<Rightarrow> ComponentId) \<Rightarrow> nat \<Rightarrow> registry Memory
     \<Rightarrow> (address \<Rightarrow> RequestData \<Rightarrow> 'r InternalResponseData) \<Rightarrow> ComponentId \<Rightarrow> RequestData
     \<Rightarrow> (CfuError, 'r InternalResponseData) result option" where
  "route_request kind_of id_of l m answer to request =
     map_option (map_sum (\<lambda>e. e) (\<lambda>a. answer a request)) (get_device kind_of id_of l to m)"

fun register_devices ::
  "(address \<Rightarrow> object_kind) \<Rightarrow> (address \<Rightarrow> ComponentId) \<Rightarrow> nat \<Rightarrow> address list \<Rightarrow> registry Memory \<Rightarrow> registry Memory option" where
  "register_devices kind_of id_of l [] m = Some m"
| "register_devices kind_of id_of l (a # as) m =
     (case register_device kind_of id_of l a m of None \<Rightarrow> None | Some (_, m) \<Rightarrow> register_devices kind_of id_of l as m)"

subsection \<open>Several requests at once\<close>

text \<open>\<open>map_slice_join\<close> over the zipped slices: groups of four are asked together, and a group without an
  answer of each ends the loop. The last component lists the items that have been asked.\<close>

fun join_groups :: "('i \<Rightarrow> 'o option) \<Rightarrow> ('i \<times> 'o) list \<Rightarrow> bool \<times> 'o list \<times> 'i list" where
  "join_groups f [] = (True, [], [])"
| "join_groups f [(i0, o0)] = (case f i0 of Some r \<Rightarrow> (True, [r], [i0]) | None \<Rightarrow> (False, [o0], [i0]))"
| "join_groups f [(i0, o0), (i1, o1)] =
     (case (f i0, f i1) of
        (Some r0, Some r1) \<Rightarrow> (True, [r0, r1], [i0, i1])
      | _ \<Rightarrow> (False, [o0, o1], [i0, i1]))"
| "join_groups f [(i0, o0), (i1, o1), (i2, o2)] =
     (case (f i0, f i1, f i2) of
        (Some r0, Some r1, Some r2) \<Rightarrow> (True, [r0, r1, r2], [i0, i1, i2])
      | _ \<Rightarrow> (False, [o0, o1, o2], [i0, i1, i2]))"
| "join_groups f ((i0, o0) # (i1, o1) # (i2, o2) # (i3, o3) # ps) =
     (case (f i0, f i1, f i2, f i3) of
        (Some r0, Some r1, Some r2, Some r3) \<Rightarrow>
          (case join_groups f ps of (b, rs, as) \<Rightarrow> (b, r0 # r1 # r2 # r3 # rs, i0 # i1 # i2 # i3 # as))
      | _ \<Rightarrow> (False, o0 # o1 # o2 # o3 # map snd ps, [i0, i1, i2, i3]))"

definition map_slice_join :: "('i \<Rightarrow> 'o option) \<Rightarrow> 'i list \<Rightarrow> 'o list \<Rightarrow> bool \<times> 'o list \<times> 'i list" where
  "map_slice_join f input output =
     (case join_groups f (zip input output) of
        (success, rs, asked) \<Rightarrow> (success, rs @ drop (length input) output, asked))"

subsection \<open>The splitter\<close>

record 'r splitter_customization =
  resolve_fw_versions :: "GetFwVersionResponse list \<Rightarrow> GetFwVersionResponse"
  resolve_offer_response :: "'r list \<Rightarrow> 'r"
  resolve_content_response :: "FwUpdateContentResponse list \<Rightarrow> FwUpdateContentResponse"

record Splitter =
  splitter_component_id :: ComponentId
  splitter_devices :: "ComponentId list"

definition MAX_SUPPORTED_DEVICES :: nat where "MAX_SUPPORTED_DEVICES = 4"

definition splitter_new :: "ComponentId \<Rightarrow> ComponentId list \<Rightarrow> Splitter option" where
  "splitter_new component_id devices =
     (if devices = [] \<or> MAX_SUPPORTED_DEVICES < length devices then None
      else Some \<lparr>splitter_component_id = component_id, splitter_devices = devices\<rparr>)"

type_synonym 'r answers = "ComponentId \<Rightarrow> RequestData \<Rightarrow> (CfuError, 'r InternalResponseData) result"

type_synonym requests = "(ComponentId \<times> RequestData) list"

definition default_version :: GetFwVersionResponse where
  "default_version = \<lparr>component_count = 0, component_info = []\<rparr>"

definition with_first_id :: "ComponentId \<Rightarrow> GetFwVersionResponse \<Rightarrow> GetFwVersionResponse" where
  "with_first_id i v = v\<lparr>component_info := (case component_info v of [] \<Rightarrow> [] | c # cs \<Rightarrow> c\<lparr>info_component_id := i\<rparr> # cs)\<rparr>"

definition split_get_fw_version ::
  "'r cfu_protocol \<Rightarrow> 'r splitter_customization \<Rightarrow> 'r answers \<Rightarrow> Splitter \<Rightarrow> 'r InternalResponseData \<times> requests" where
  "split_get_fw_version K C answers s =
     (let ask = (\<lambda>d. case answers d FwVersionRequest of Inr (FwVersionResponse v) \<Rightarrow> Some v | _ \<Rightarrow> None);
          (success, versions, asked) = map_slice_join ask (splitter_devices s) (replicate MAX_SUPPORTED_DEVICES default_version)
      in (if success
          then FwVersionResponse (with_first_id (splitter_component_id s)
                 (resolve_fw_versions C (take (length (splitter_devices s)) versions)))
          else create_invalid_fw_version_response K (splitter_component_id s),
          map (\<lambda>d. (d, FwVersionRequest)) asked))"

definition split_give_offer ::
  "'r cfu_protocol \<Rightarrow> 'r splitter_customization \<Rightarrow> 'r answers \<Rightarrow> FwUpdateOffer \<Rightarrow> Splitter \<Rightarrow> 'r InternalResponseData \<times> requests" where
  "split_give_offer K C answers offer s =
     (let request = (\<lambda>d. GiveOffer (offer\<lparr>offer_component_id := d\<rparr>));
          ask = (\<lambda>d. case answers d (request d) of Inr (OfferResponse r) \<Rightarrow> Some r | _ \<Rightarrow> None);
          (success, responses, asked) = map_slice_join ask (splitter_devices s) (replicate MAX_SUPPORTED_DEVICES (offer_default K))
      in (if success then OfferResponse (resolve_offer_response C (take (length (splitter_devices s)) responses))
          else create_invalid_fw_version_response K (splitter_component_id s),
          map (\<lambda>d. (d, request d)) asked))"

definition split_give_content ::
  "'r splitter_customization \<Rightarrow> 'r answers \<Rightarrow> FwUpdateContentCommand \<Rightarrow> Splitter \<Rightarrow> 'r InternalResponseData \<times> requests" where
  "split_give_content C answers content s =
     (let ask = (\<lambda>d. case answers d (GiveContent content) of Inr (ContentResponse r) \<Rightarrow> Some r | _ \<Rightarrow> None);
          (success, responses, asked) = map_slice_join ask (splitter_devices s)
             (replicate MAX_SUPPORTED_DEVICES \<lparr>response_sequence = 0, response_status = ContentSuccess\<rparr>)
      in (if success then ContentResponse (resolve_content_response C (take (length (splitter_devices s)) responses))
          else create_content_rejection (sequence_num content),
          map (\<lambda>d. (d, GiveContent content)) asked))"

definition split_process_request ::
  "'r cfu_protocol \<Rightarrow> 'r splitter_customization \<Rightarrow> 'r answers \<Rightarrow> RequestData \<Rightarrow> Splitter \<Rightarrow> 'r InternalResponseData \<times> requests" where
  "split_process_request K C answers request s =
     (case request of
        FwVersionRequest \<Rightarrow> split_get_fw_version K C answers s
      | GiveOffer offer \<Rightarrow> split_give_offer K C answers offer s
      | GiveContent content \<Rightarrow> split_give_content C answers content s
      | AbortUpdate \<Rightarrow> (ComponentPrepared, [])
      | FinalizeUpdate \<Rightarrow> (ComponentPrepared, [])
      | PrepareComponentForUpdate \<Rightarrow> (ComponentPrepared, [])
      | GiveOfferExtended _ \<Rightarrow> (OfferResponse (offer_rejection K), [])
      | GiveOfferInformation _ \<Rightarrow> (OfferResponse (offer_rejection K), []))"

subsection \<open>The groups are a map\<close>

text \<open>As if each item were asked on its own, as long as all of them answer.\<close>

lemma join_groups_all:
  "\<forall>(i, o') \<in> set ps. f i \<noteq> None \<Longrightarrow> join_groups f ps = (True, map (the \<circ> f \<circ> fst) ps, map fst ps)"
  by (induction f ps rule: join_groups.induct) (auto split: option.splits)

lemma join_groups_none:
  "\<exists>(i, o') \<in> set ps. f i = None \<Longrightarrow> fst (join_groups f ps) = False"
  by (induction f ps rule: join_groups.induct) (fastforce split: option.splits prod.splits)+

lemma join_groups_four: "length ps \<le> 4 \<Longrightarrow> snd (snd (join_groups f ps)) = map fst ps"
  by (induction f ps rule: join_groups.induct) (auto split: option.splits)

lemma map_fst_zip_le: "length xs \<le> length ys \<Longrightarrow> map fst (zip xs ys) = xs"
  by (simp add: map_fst_zip_take)

lemma map_slice_join_all:
  assumes "length input \<le> length output" and "\<forall>i \<in> set input. f i \<noteq> None"
  shows "map_slice_join f input output = (True, map (the \<circ> f) input @ drop (length input) output, input)"
proof -
  have "\<forall>(i, o') \<in> set (zip input output). f i \<noteq> None" using assms(2) by (auto dest: set_zip_leftD)
  from join_groups_all[OF this] show ?thesis
    using assms(1) by (simp add: map_slice_join_def map_fst_zip_le flip: map_map)
qed

lemma map_slice_join_none:
  assumes "length input \<le> length output" and "\<exists>i \<in> set input. f i = None"
  shows "fst (map_slice_join f input output) = False"
proof -
  have "set (map fst (zip input output)) = set input" using assms(1) by (simp only: map_fst_zip_le)
  then have "\<exists>(i, o') \<in> set (zip input output). f i = None" using assms(2) by (metis (mono_tags, lifting) case_prod_unfold imageE set_map)
  from join_groups_none[OF this] show ?thesis by (simp add: map_slice_join_def case_prod_beta)
qed

lemma map_slice_join_asked:
  "length input \<le> length output \<Longrightarrow> length input \<le> 4 \<Longrightarrow> snd (snd (map_slice_join f input output)) = input"
  using join_groups_four[of "zip input output" f] by (simp add: map_slice_join_def case_prod_beta map_fst_zip_le)

lemma those_all: "those (map f xs) = (if \<forall>x \<in> set xs. f x \<noteq> None then Some (map (the \<circ> f) xs) else None)"
  by (induction xs) (auto split: option.splits)

text \<open>On at most four devices: all are asked, and the result is that of asking one after the other.\<close>

lemma ask_devices:
  assumes "length ds \<le> 4" and "map_slice_join f ds (replicate 4 x) = (success, rs, asked)"
  shows "asked = ds" and "success \<longleftrightarrow> those (map f ds) \<noteq> None" and "success \<Longrightarrow> those (map f ds) = Some (take (length ds) rs)"
proof -
  show "asked = ds" using map_slice_join_asked[of ds "replicate 4 x" f] assms by simp
  have "(success \<longleftrightarrow> those (map f ds) \<noteq> None) \<and> (success \<longrightarrow> those (map f ds) = Some (take (length ds) rs))"
  proof (cases "\<forall>d \<in> set ds. f d \<noteq> None")
    case True
    then show ?thesis using map_slice_join_all[of ds "replicate 4 x" f] assms by (auto simp: those_all)
  next
    case False
    then show ?thesis using map_slice_join_none[of ds "replicate 4 x" f] assms by (auto simp: those_all)
  qed
  then show "success \<longleftrightarrow> those (map f ds) \<noteq> None" "success \<Longrightarrow> those (map f ds) = Some (take (length ds) rs)"
    by simp_all
qed

definition version_of :: "(CfuError, 'r InternalResponseData) result \<Rightarrow> GetFwVersionResponse option" where
  "version_of r = (case r of Inr (FwVersionResponse v) \<Rightarrow> Some v | _ \<Rightarrow> None)"
definition offer_of :: "(CfuError, 'r InternalResponseData) result \<Rightarrow> 'r option" where
  "offer_of r = (case r of Inr (OfferResponse v) \<Rightarrow> Some v | _ \<Rightarrow> None)"
definition content_of :: "(CfuError, 'r InternalResponseData) result \<Rightarrow> FwUpdateContentResponse option" where
  "content_of r = (case r of Inr (ContentResponse v) \<Rightarrow> Some v | _ \<Rightarrow> None)"

text \<open>A splitter asks every device exactly once, in whatever order and even if another does not answer,
  an offer under the device's own identifier; its response is the customization's choice of all answers, in
  the order of the devices, and a failure if any answer is missing or of another kind. The concurrent groups
  make no difference. Requests to abort, prepare or finalize reach no device.\<close>

theorem splitter_asks_all:
  assumes "splitter_new i ds = Some s"
  shows "split_process_request K C answers FwVersionRequest s =
      (case those (map (\<lambda>d. version_of (answers d FwVersionRequest)) ds) of
         Some vs \<Rightarrow> FwVersionResponse (with_first_id i (resolve_fw_versions C vs))
       | None \<Rightarrow> create_invalid_fw_version_response K i, map (\<lambda>d. (d, FwVersionRequest)) ds)
    \<and> split_process_request K C answers (GiveOffer offer) s =
      (case those (map (\<lambda>d. offer_of (answers d (GiveOffer (offer\<lparr>offer_component_id := d\<rparr>)))) ds) of
         Some rs \<Rightarrow> OfferResponse (resolve_offer_response C rs)
       | None \<Rightarrow> create_invalid_fw_version_response K i, map (\<lambda>d. (d, GiveOffer (offer\<lparr>offer_component_id := d\<rparr>))) ds)
    \<and> split_process_request K C answers (GiveContent content) s =
      (case those (map (\<lambda>d. content_of (answers d (GiveContent content))) ds) of
         Some rs \<Rightarrow> ContentResponse (resolve_content_response C rs)
       | None \<Rightarrow> create_content_rejection (sequence_num content), map (\<lambda>d. (d, GiveContent content)) ds)
    \<and> (\<forall>r \<in> {AbortUpdate, FinalizeUpdate, PrepareComponentForUpdate}.
         split_process_request K C answers r s = (ComponentPrepared, []))"
proof -
  have s: "s = \<lparr>splitter_component_id = i, splitter_devices = ds\<rparr>" and four: "length ds \<le> 4"
    using assms by (auto simp: splitter_new_def MAX_SUPPORTED_DEVICES_def split: if_splits)
  note ask = ask_devices[OF four]
  show ?thesis
    by (auto simp: split_process_request_def split_get_fw_version_def split_give_offer_def split_give_content_def s
        MAX_SUPPORTED_DEVICES_def version_of_def offer_of_def content_of_def Let_def dest: ask
        split: prod.split option.split)
qed

subsection \<open>The identifier of a device\<close>

text \<open>Which devices a list of registrations leaves: the first of each identifier.\<close>

fun first_of_each :: "(address \<Rightarrow> ComponentId) \<Rightarrow> address list \<Rightarrow> address list \<Rightarrow> address list" where
  "first_of_each id_of [] cur = cur"
| "first_of_each id_of (a # as) cur =
     first_of_each id_of as (if \<exists>b \<in> set cur. id_of b = id_of a then cur else a # cur)"

lemma find_first_of_each:
  "List.find (\<lambda>a. id_of a = i) (first_of_each id_of as cur) =
     (case List.find (\<lambda>a. id_of a = i) cur of Some a \<Rightarrow> Some a | None \<Rightarrow> List.find (\<lambda>a. id_of a = i) as)"
proof (induction as arbitrary: cur)
  case (Cons a as)
  have "(\<exists>b \<in> set cur. id_of b = id_of a) \<longleftrightarrow> List.find (\<lambda>b. id_of b = id_of a) cur \<noteq> None"
    by (auto simp: find_None_iff)
  then show ?case
    by (cases "id_of a = i"; cases "List.find (\<lambda>b. id_of b = i) cur") (auto simp: Cons.IH)
qed (simp split: option.split)

lemma find_filter_all: "\<forall>a \<in> set xs. P a \<Longrightarrow> filter P xs = xs"
  by simp

lemma get_device_listed:
  assumes "holds m L" and "\<forall>a \<in> set (L (CfuDevices l)). kind_of a = CfuDeviceKind"
  shows "get_device kind_of id_of l i m =
    Some (case List.find (\<lambda>a. id_of a = i) (L (CfuDevices l)) of Some a \<Rightarrow> Inr a | None \<Rightarrow> Inl InvalidComponent)"
  using assms by (simp add: get_device_def iter_only_list[OF assms(1)])

lemma register_devices_list:
  assumes "holds m ((\<lambda>_. [])(CfuDevices l := cur))" and "\<forall>a \<in> set cur \<union> set as. kind_of a = CfuDeviceKind"
  shows "\<exists>m'. register_devices kind_of id_of l as m = Some m'
    \<and> holds m' ((\<lambda>_. [])(CfuDevices l := first_of_each id_of as cur))"
  using assms
proof (induction as arbitrary: m cur)
  case (Cons a as)
  let ?L = "(\<lambda>_. [])(CfuDevices l := cur)"
  have kinds: "\<forall>a \<in> set (?L (CfuDevices l)). kind_of a = CfuDeviceKind" using Cons.prems(2) by simp
  note get = get_device_listed[OF Cons.prems(1) kinds, of id_of "id_of a"]
  show ?case
  proof (cases "\<exists>b \<in> set cur. id_of b = id_of a")
    case True
    then have "List.find (\<lambda>b. id_of b = id_of a) cur \<noteq> None" by (auto simp: find_None_iff)
    then obtain b where "List.find (\<lambda>b. id_of b = id_of a) cur = Some b" by blast
    then have "register_device kind_of id_of l a m = Some (Inl NodeAlreadyInList, m)"
      using get by (simp add: register_device_def)
    then show ?thesis using Cons True by simp
  next
    case False
    then have "List.find (\<lambda>b. id_of b = id_of a) cur = None" by (auto simp: find_None_iff)
    then have reg: "register_device kind_of id_of l a m = Some (push (CfuDevices l) a m)"
      using get by (simp add: register_device_def)
    have "a \<notin> set cur" using False by auto
    then have "snd (list_push (CfuDevices l) a ?L) = (\<lambda>_. [])(CfuDevices l := a # cur)"
      by (auto simp: list_push_def split: if_splits)
    then have "holds (snd (push (CfuDevices l) a m)) ((\<lambda>_. [])(CfuDevices l := a # cur))"
      using push_refines(2)[OF Cons.prems(1), of "CfuDevices l" a] by (simp only:)
    from Cons.IH[OF this] show ?thesis using Cons.prems(2) False reg by (simp add: case_prod_beta)
  qed
qed (auto simp: iter_only_def)

text \<open>Devices can be found by their identifiers: after any registrations the device with an identifier is
  the first that was registered with it, further ones have been refused, and a request to an identifier
  reaches this device; without one it fails.\<close>

theorem devices_are_found:
  assumes "\<forall>a \<in> set as. kind_of a = CfuDeviceKind"
  shows "\<exists>m. register_devices kind_of id_of l as memory_new = Some m
    \<and> get_device kind_of id_of l i m
        = Some (case List.find (\<lambda>a. id_of a = i) as of Some a \<Rightarrow> Inr a | None \<Rightarrow> Inl InvalidComponent)
    \<and> route_request kind_of id_of l m answer i request
        = Some (case List.find (\<lambda>a. id_of a = i) as of Some a \<Rightarrow> Inr (answer a request) | None \<Rightarrow> Inl InvalidComponent)"
proof -
  have "(\<lambda>_. [])(CfuDevices l := []) = (\<lambda>_ :: registry. [] :: address list)" by auto
  then have "holds memory_new ((\<lambda>_. [])(CfuDevices l := []))" using holds_new by simp
  then obtain m where m: "register_devices kind_of id_of l as memory_new = Some m"
    "holds m ((\<lambda>_. [])(CfuDevices l := first_of_each id_of as []))"
    using register_devices_list assms by fastforce
  have sub: "set (first_of_each id_of as cur) \<subseteq> set as \<union> set cur" for cur
  proof (induction as arbitrary: cur)
    case (Cons a as)
    then show ?case using Cons[of cur] Cons[of "a # cur"] by auto
  qed simp
  have "get_device kind_of id_of l i m
      = Some (case List.find (\<lambda>a. id_of a = i) as of Some a \<Rightarrow> Inr a | None \<Rightarrow> Inl InvalidComponent)"
    using get_device_listed[OF m(2), where kind_of = kind_of and id_of = id_of and i = i and l = l] sub[of "[]"] assms by (auto simp: find_first_of_each)
  then show ?thesis using m(1) by (auto simp: route_request_def split: option.split)
qed

subsection \<open>The properties on concrete inputs\<close>

text \<open>Two devices, of which the second does not answer to content, and a customization that takes the first answer.\<close>

definition demo_answers :: "nat answers" where
  "demo_answers d request =
     (case request of
        GiveContent c \<Rightarrow> if d = 0x20 then Inr (content_response c ContentSuccess) else Inl InvalidComponent
      | GiveOffer _ \<Rightarrow> Inr (OfferResponse 0)
      | _ \<Rightarrow> Inr ComponentPrepared)"

definition take_first :: "nat splitter_customization" where
  "take_first = \<lparr>resolve_fw_versions = hd, resolve_offer_response = hd, resolve_content_response = hd\<rparr>"

theorem splitter_asks_all_witness:
  "split_process_request demo_protocol take_first demo_answers
      (GiveContent \<lparr>content_flags = 0, data_length = 0, sequence_num = 7, firmware_address = 0, content_data = []\<rparr>)
      \<lparr>splitter_component_id = 6, splitter_devices = [0x20, 0x21]\<rparr>
    = (create_content_rejection 7, map (\<lambda>d. (d, GiveContent \<lparr>content_flags = 0, data_length = 0, sequence_num = 7,
        firmware_address = 0, content_data = []\<rparr>)) [0x20, 0x21])"
proof -
  have "splitter_new 6 [0x20, 0x21] = Some \<lparr>splitter_component_id = 6, splitter_devices = [0x20, 0x21]\<rparr>"
    by (simp add: splitter_new_def MAX_SUPPORTED_DEVICES_def)
  from splitter_asks_all [OF this, of demo_protocol take_first demo_answers "\<lparr>offer_component_id = 6, offer_rest = []\<rparr>"
      "\<lparr>content_flags = 0, data_length = 0, sequence_num = 7, firmware_address = 0, content_data = []\<rparr>"]
  show ?thesis by (simp add: demo_answers_def content_of_def content_response_def)
qed

theorem devices_are_found_witness:
  "\<exists>m. register_devices (\<lambda>_. CfuDeviceKind) (\<lambda>a. if a = 2 then 1 else of_nat a) 0 [1, 2, 3] memory_new = Some m
    \<and> get_device (\<lambda>_. CfuDeviceKind) (\<lambda>a. if a = 2 then 1 else of_nat a) 0 1 m = Some (Inr 1)"
proof -
  have "\<forall>a \<in> set [1, 2, 3]. (\<lambda>_ :: address. CfuDeviceKind) a = CfuDeviceKind" by simp
  from devices_are_found [OF this, of "\<lambda>a. if a = 2 then 1 else of_nat a" 0 1] show ?thesis by auto
qed

end
