(* ===== verification/Cfu_Buffer.thy ===== *)
theory Cfu_Buffer
  imports Cfu_Data
begin

text \<open>
  The buffer that answers for a component which is slow to take firmware content:
  \<open>cfu-service/src/buffer.rs\<close>, together with the channels of the \<open>CfuDevice\<close> of the component
  (\<open>component.rs\<close>), which hold one request and one response. The buffer's task, the component and the
  timeout take steps in any order; where the task awaits is its phase. Two histories record what the host
  has sent and what the component has taken.
\<close>

subsection \<open>State\<close>

text \<open>What \<open>route_request\<close> was called for, and what follows once a request could be sent.\<close>

datatype routed = RoutedVersion | RoutedAbort | RoutedOffer

datatype follow_up = ThenReply FwUpdateContentCommand | ThenRouted routed | ThenEvent

datatype buffer_phase =
    AtEvent
  | AwaitReply FwUpdateContentCommand
  | AwaitRouted routed
  | SendingContent FwUpdateContentCommand
  | SendingRequest RequestData follow_up

record buffer_config =
  external_id :: ComponentId
  buffered_id :: ComponentId
  buffer_capacity :: nat
  component_known :: bool \<comment> \<open>the component is registered with the client\<close>

record 'r Buffering =
  pending_response :: "'r InternalResponseData option"
  component_busy :: bool
  buffered :: "FwUpdateContentCommand list"
  buffer_phase :: buffer_phase
  request_channel :: "RequestData option"
  response_channel :: "'r InternalResponseData option"
  component_working :: "RequestData option"
  host_answers :: "'r InternalResponseData list"
  host_requests :: "RequestData list"
  component_taken :: "RequestData list"

definition buffering_new :: "'r Buffering" where
  "buffering_new =
     \<lparr>pending_response = None, component_busy = False, buffered = [], buffer_phase = AtEvent, request_channel = None,
      response_channel = None, component_working = None, host_answers = [], host_requests = [], component_taken = []\<rparr>"

subsection \<open>The buffer\<close>

definition answer_host :: "'r InternalResponseData \<Rightarrow> 'r Buffering \<Rightarrow> 'r Buffering" where
  "answer_host r s = s\<lparr>host_answers := host_answers s @ [r], buffer_phase := AtEvent\<rparr>"

definition continue_after :: "follow_up \<Rightarrow> 'r Buffering \<Rightarrow> 'r Buffering" where
  "continue_after k s =
     (case k of
        ThenReply c \<Rightarrow> s\<lparr>buffer_phase := AwaitReply c\<rparr>
      | ThenRouted q \<Rightarrow> s\<lparr>buffer_phase := AwaitRouted q\<rparr>
      | ThenEvent \<Rightarrow> s\<lparr>component_busy := True, buffer_phase := AtEvent\<rparr>)"

text \<open>\<open>send_request\<close> of the component's device waits for room in the channel.\<close>

definition send_device_request :: "RequestData \<Rightarrow> follow_up \<Rightarrow> 'r Buffering \<Rightarrow> 'r Buffering" where
  "send_device_request r k s =
     (case request_channel s of
        None \<Rightarrow> continue_after k (s\<lparr>request_channel := Some r\<rparr>)
      | Some _ \<Rightarrow> s\<lparr>buffer_phase := SendingRequest r k\<rparr>)"

definition with_external_id :: "buffer_config \<Rightarrow> GetFwVersionResponse \<Rightarrow> GetFwVersionResponse" where
  "with_external_id cfg v =
     v\<lparr>component_info := (case component_info v of [] \<Rightarrow> [] | c # cs \<Rightarrow> c\<lparr>info_component_id := external_id cfg\<rparr> # cs)\<rparr>"

fun routed_answer :: "'r cfu_protocol \<Rightarrow> buffer_config \<Rightarrow> routed \<Rightarrow> 'r InternalResponseData \<Rightarrow> 'r InternalResponseData" where
  "routed_answer K cfg RoutedVersion r =
     (case r of FwVersionResponse v \<Rightarrow> FwVersionResponse (with_external_id cfg v)
      | _ \<Rightarrow> create_invalid_fw_version_response K (external_id cfg))"
| "routed_answer K cfg RoutedAbort r = r"
| "routed_answer K cfg RoutedOffer r = (case r of OfferResponse _ \<Rightarrow> r | _ \<Rightarrow> OfferResponse (offer_rejection K))"

fun routed_failure :: "'r cfu_protocol \<Rightarrow> buffer_config \<Rightarrow> routed \<Rightarrow> 'r InternalResponseData" where
  "routed_failure K cfg RoutedVersion = create_invalid_fw_version_response K (external_id cfg)"
| "routed_failure K cfg RoutedAbort = ComponentBusy"
| "routed_failure K cfg RoutedOffer = OfferResponse (offer_rejection K)"

definition buffer_route :: "'r cfu_protocol \<Rightarrow> buffer_config \<Rightarrow> routed \<Rightarrow> RequestData \<Rightarrow> 'r Buffering \<Rightarrow> 'r Buffering" where
  "buffer_route K cfg q r s =
     (if component_known cfg then send_device_request r (ThenRouted q) s else answer_host (routed_failure K cfg q) s)"

definition buffer_give_content ::
  "'r cfu_protocol \<Rightarrow> buffer_config \<Rightarrow> FwUpdateContentCommand \<Rightarrow> 'r Buffering \<Rightarrow> 'r Buffering" where
  "buffer_give_content K cfg c s =
     (let s = (if is_first K c then s\<lparr>pending_response := None\<rparr> else s)
      in if component_busy s then
           (if length (buffered s) < buffer_capacity cfg then s\<lparr>buffered := buffered s @ [c], buffer_phase := AwaitReply c\<rparr>
            else s\<lparr>buffer_phase := SendingContent c\<rparr>)
         else if component_known cfg then send_device_request (GiveContent c) (ThenReply c) s
         else answer_host (create_content_rejection (sequence_num c)) s)"

definition buffer_process_request ::
  "'r cfu_protocol \<Rightarrow> buffer_config \<Rightarrow> RequestData \<Rightarrow> 'r Buffering \<Rightarrow> 'r Buffering" where
  "buffer_process_request K cfg r s =
     (case r of
        FwVersionRequest \<Rightarrow> buffer_route K cfg RoutedVersion FwVersionRequest s
      | GiveOffer offer \<Rightarrow> buffer_route K cfg RoutedOffer (GiveOffer (offer\<lparr>offer_component_id := buffered_id cfg\<rparr>)) s
      | GiveContent c \<Rightarrow> buffer_give_content K cfg c s
      | AbortUpdate \<Rightarrow> buffer_route K cfg RoutedAbort AbortUpdate s
      | FinalizeUpdate \<Rightarrow> answer_host ComponentPrepared s
      | PrepareComponentForUpdate \<Rightarrow> answer_host ComponentPrepared s
      | GiveOfferExtended _ \<Rightarrow> answer_host (OfferResponse (offer_rejection K)) s
      | GiveOfferInformation _ \<Rightarrow> answer_host (OfferResponse (offer_rejection K)) s)"

text \<open>A response of the component to one content, given to the host as that to another.\<close>

definition as_answer_to :: "FwUpdateContentCommand \<Rightarrow> 'r InternalResponseData \<Rightarrow> 'r InternalResponseData" where
  "as_answer_to c r =
     (case r of ContentResponse x \<Rightarrow> ContentResponse (x\<lparr>response_sequence := sequence_num c\<rparr>) | _ \<Rightarrow> r)"

definition buffer_timeout :: "FwUpdateContentCommand \<Rightarrow> 'r Buffering \<Rightarrow> 'r Buffering" where
  "buffer_timeout c s =
     (let s = s\<lparr>component_busy := True\<rparr>
      in case pending_response s of
           Some r \<Rightarrow> answer_host (as_answer_to c r) (s\<lparr>pending_response := None\<rparr>)
         | None \<Rightarrow> answer_host (content_response c ContentSuccess) s)"

text \<open>\<open>BufferedContent\<close>: on to the component, without waiting for its response.\<close>

definition take_buffered :: "buffer_config \<Rightarrow> FwUpdateContentCommand \<Rightarrow> 'r Buffering \<Rightarrow> 'r Buffering" where
  "take_buffered cfg c s =
     (if component_known cfg then send_device_request (GiveContent c) ThenEvent s
      else answer_host (create_content_rejection (sequence_num c)) s)"

subsection \<open>Steps\<close>

datatype 'r buffer_event =
    HostSends RequestData
  | TakeBuffered
  | TakeResponse
  | RequestSent
  | ContentSent
  | Reply
  | TimeoutPasses
  | ComponentTakes
  | ComponentAnswers "'r InternalResponseData"

text \<open>\<open>wait_event\<close> polls the buffered content first, unless the component is busy.\<close>

definition content_ready :: "'r Buffering \<Rightarrow> bool" where
  "content_ready s \<longleftrightarrow> \<not> component_busy s \<and> buffered s \<noteq> []"

fun buffer_step ::
  "'r cfu_protocol \<Rightarrow> buffer_config \<Rightarrow> 'r buffer_event \<Rightarrow> 'r Buffering \<Rightarrow> 'r Buffering option" where
  "buffer_step K cfg (HostSends r) s =
     (if buffer_phase s = AtEvent \<and> \<not> content_ready s
      then Some (buffer_process_request K cfg r (s\<lparr>host_requests := host_requests s @ [r]\<rparr>)) else None)"
| "buffer_step K cfg TakeBuffered s =
     (if buffer_phase s = AtEvent \<and> content_ready s
      then Some (take_buffered cfg (hd (buffered s)) (s\<lparr>buffered := tl (buffered s)\<rparr>)) else None)"
| "buffer_step K cfg TakeResponse s =
     (if buffer_phase s = AtEvent \<and> \<not> content_ready s then
        (if component_known cfg then
           map_option (\<lambda>r. s\<lparr>pending_response := Some r, component_busy := False, response_channel := None\<rparr>) (response_channel s)
         else Some (s\<lparr>pending_response := Some (create_content_rejection 0), component_busy := False\<rparr>))
      else None)"
| "buffer_step K cfg RequestSent s =
     (case buffer_phase s of
        SendingRequest r k \<Rightarrow>
          (if request_channel s = None then Some (continue_after k (s\<lparr>request_channel := Some r\<rparr>)) else None)
      | _ \<Rightarrow> None)"
| "buffer_step K cfg ContentSent s =
     (case buffer_phase s of
        SendingContent c \<Rightarrow>
          (if length (buffered s) < buffer_capacity cfg
           then Some (s\<lparr>buffered := buffered s @ [c], buffer_phase := AwaitReply c\<rparr>) else None)
      | _ \<Rightarrow> None)"
| "buffer_step K cfg Reply s =
     (case buffer_phase s of
        AwaitReply c \<Rightarrow>
          (if component_known cfg then
             map_option (\<lambda>r. answer_host (as_answer_to c r) (s\<lparr>component_busy := False, response_channel := None\<rparr>)) (response_channel s)
           else Some (answer_host (create_content_rejection (sequence_num c)) (s\<lparr>component_busy := False\<rparr>)))
      | AwaitRouted q \<Rightarrow>
          map_option (\<lambda>r. answer_host (routed_answer K cfg q r) (s\<lparr>response_channel := None\<rparr>)) (response_channel s)
      | _ \<Rightarrow> None)"
| "buffer_step K cfg TimeoutPasses s =
     (case buffer_phase s of
        AwaitReply c \<Rightarrow> (if response_channel s = None \<and> component_known cfg then Some (buffer_timeout c s) else None)
      | _ \<Rightarrow> None)"
| "buffer_step K cfg ComponentTakes s =
     (case (component_working s, request_channel s) of
        (None, Some r) \<Rightarrow>
          Some (s\<lparr>component_working := Some r, request_channel := None, component_taken := component_taken s @ [r]\<rparr>)
      | _ \<Rightarrow> None)"
| "buffer_step K cfg (ComponentAnswers r) s =
     (case (component_working s, response_channel s) of
        (Some _, None) \<Rightarrow> Some (s\<lparr>component_working := None, response_channel := Some r\<rparr>)
      | _ \<Rightarrow> None)"

fun buffer_run ::
  "'r cfu_protocol \<Rightarrow> buffer_config \<Rightarrow> 'r buffer_event list \<Rightarrow> 'r Buffering \<Rightarrow> 'r Buffering option" where
  "buffer_run K cfg [] s = Some s"
| "buffer_run K cfg (e # es) s = (case buffer_step K cfg e s of None \<Rightarrow> None | Some s \<Rightarrow> buffer_run K cfg es s)"

lemma buffer_run_append:
  "buffer_run K cfg (es @ fs) s = Option.bind (buffer_run K cfg es s) (buffer_run K cfg fs)"
  by (induction es arbitrary: s) (auto split: option.split)

lemma buffer_run_invariant:
  assumes "\<And>e s s'. P s \<Longrightarrow> buffer_step K cfg e s = Some s' \<Longrightarrow> P s'" and "buffer_run K cfg es s = Some s'" and "P s"
  shows "P s'"
  using assms(2,3)
proof (induction es arbitrary: s)
  case (Cons e es)
  then show ?case using assms(1) by (auto split: option.splits)
qed simp

subsection \<open>Content stays in order\<close>

fun contents :: "RequestData list \<Rightarrow> FwUpdateContentCommand list" where
  "contents [] = []"
| "contents (GiveContent c # rs) = c # contents rs"
| "contents (_ # rs) = contents rs"

lemma contents_append [simp]: "contents (rs @ rs') = contents rs @ contents rs'"
  by (induction rs rule: contents.induct) simp_all

definition on_the_way :: "'r Buffering \<Rightarrow> FwUpdateContentCommand list" where
  "on_the_way s =
     contents (case request_channel s of None \<Rightarrow> [] | Some r \<Rightarrow> [r])
     @ contents (case buffer_phase s of SendingRequest r _ \<Rightarrow> [r] | _ \<Rightarrow> [])
     @ buffered s @ (case buffer_phase s of SendingContent c \<Rightarrow> [c] | _ \<Rightarrow> [])"

definition in_order :: "'r Buffering \<Rightarrow> bool" where
  "in_order s \<longleftrightarrow> contents (component_taken s) @ on_the_way s = contents (host_requests s)"

lemmas buffer_defs = answer_host_def continue_after_def send_device_request_def buffer_route_def buffer_give_content_def
  buffer_process_request_def buffer_timeout_def take_buffered_def Let_def

text \<open>The steps by their outcomes.\<close>

lemma step_iffs:
  "buffer_step K cfg RequestSent s = Some s' \<longleftrightarrow>
     (\<exists>r k. buffer_phase s = SendingRequest r k \<and> request_channel s = None
       \<and> s' = continue_after k (s\<lparr>request_channel := Some r\<rparr>))"
  "buffer_step K cfg ContentSent s = Some s' \<longleftrightarrow>
     (\<exists>c. buffer_phase s = SendingContent c \<and> length (buffered s) < buffer_capacity cfg
       \<and> s' = s\<lparr>buffered := buffered s @ [c], buffer_phase := AwaitReply c\<rparr>)"
  "buffer_step K cfg TimeoutPasses s = Some s' \<longleftrightarrow>
     (\<exists>c. buffer_phase s = AwaitReply c \<and> response_channel s = None \<and> component_known cfg \<and> s' = buffer_timeout c s)"
  "buffer_step K cfg ComponentTakes s = Some s' \<longleftrightarrow>
     (\<exists>r. component_working s = None \<and> request_channel s = Some r
       \<and> s' = s\<lparr>component_working := Some r, request_channel := None, component_taken := component_taken s @ [r]\<rparr>)"
  "buffer_step K cfg (ComponentAnswers r) s = Some s' \<longleftrightarrow>
     component_working s \<noteq> None \<and> response_channel s = None
       \<and> s' = s\<lparr>component_working := None, response_channel := Some r\<rparr>"
  by (auto split: buffer_phase.split option.split)

lemma step_known_iffs:
  assumes "component_known cfg"
  shows "buffer_step K cfg TakeResponse s = Some s' \<longleftrightarrow>
      buffer_phase s = AtEvent \<and> \<not> content_ready s \<and> (\<exists>r. response_channel s = Some r
        \<and> s' = s\<lparr>pending_response := Some r, component_busy := False, response_channel := None\<rparr>)"
    and "buffer_step K cfg Reply s = Some s' \<longleftrightarrow>
      (\<exists>r. response_channel s = Some r \<and>
        ((\<exists>c. buffer_phase s = AwaitReply c
            \<and> s' = answer_host (as_answer_to c r) (s\<lparr>component_busy := False, response_channel := None\<rparr>))
        \<or> (\<exists>q. buffer_phase s = AwaitRouted q
            \<and> s' = answer_host (routed_answer K cfg q r) (s\<lparr>response_channel := None\<rparr>))))"
  using assms by (auto split: buffer_phase.split)

lemmas step_cases_iffs = step_iffs step_known_iffs

text \<open>The requests that the component still owes a response, and how many the buffer reckons with.\<close>

definition owed :: "'r Buffering \<Rightarrow> nat" where
  "owed s = (if component_working s = None then 0 else 1) + (if request_channel s = None then 0 else 1)
     + (if response_channel s = None then 0 else 1)"

fun reckoned :: "buffer_phase \<Rightarrow> bool \<Rightarrow> nat \<Rightarrow> bool" where
  "reckoned AtEvent busy n \<longleftrightarrow> n = (if busy then 1 else 0)"
| "reckoned (AwaitReply _) busy n \<longleftrightarrow> n = 1"
| "reckoned (AwaitRouted _) busy n \<longleftrightarrow> n = (if busy then 2 else 1)"
| "reckoned (SendingContent _) busy n \<longleftrightarrow> busy \<and> n = 1"
| "reckoned (SendingRequest _ (ThenRouted _)) busy n \<longleftrightarrow> busy \<and> n = 1"
| "reckoned (SendingRequest _ _) busy n \<longleftrightarrow> False"

definition buffer_tracked :: "'r Buffering \<Rightarrow> bool" where
  "buffer_tracked s \<longleftrightarrow> reckoned (buffer_phase s) (component_busy s) (owed s)"

lemma in_order_step:
  assumes "component_known cfg" and "in_order s" and "buffer_step K cfg e s = Some s'"
  shows "in_order s'"
proof (cases e)
  case (HostSends r)
  have ready: "buffer_phase s = AtEvent" "component_busy s \<or> buffered s = []"
    and s': "s' = buffer_process_request K cfg r (s\<lparr>host_requests := host_requests s @ [r]\<rparr>)"
    using assms(3) by (auto simp: HostSends content_ready_def split: if_splits)
  show ?thesis
    using assms(1,2) ready by (cases r) (auto simp: s' in_order_def on_the_way_def buffer_defs split: option.split)
next
  case TakeBuffered
  then obtain c cs where "buffer_phase s = AtEvent" "buffered s = c # cs" "s' = take_buffered cfg c (s\<lparr>buffered := cs\<rparr>)"
    using assms(3) by (cases "buffered s") (auto simp: content_ready_def split: if_splits)
  then show ?thesis
    using assms(1,2) by (auto simp: in_order_def on_the_way_def buffer_defs split: option.split)
next
  case RequestSent
  then obtain r k where "buffer_phase s = SendingRequest r k" "request_channel s = None"
    "s' = continue_after k (s\<lparr>request_channel := Some r\<rparr>)"
    using assms(3) by (auto simp only: step_iffs)
  then show ?thesis using assms(2) by (cases k) (auto simp: in_order_def on_the_way_def continue_after_def)
next
  case ComponentTakes
  then obtain r where "request_channel s = Some r"
    "s' = s\<lparr>component_working := Some r, request_channel := None, component_taken := component_taken s @ [r]\<rparr>"
    using assms(3) by (auto simp only: step_iffs)
  then show ?thesis using assms(2) by (simp add: in_order_def on_the_way_def)
next
  case TimeoutPasses
  then obtain c where "buffer_phase s = AwaitReply c" "s' = buffer_timeout c s"
    using assms(3) by (auto simp only: step_iffs)
  then show ?thesis
    using assms(2) by (cases "pending_response s") (auto simp: in_order_def on_the_way_def buffer_timeout_def answer_host_def Let_def)
next
  case Reply
  then show ?thesis
    using assms(2,3) by (auto simp only: step_known_iffs[OF assms(1)])
      (auto simp: in_order_def on_the_way_def answer_host_def)
next
  case ContentSent
  then obtain c where "buffer_phase s = SendingContent c" "s' = s\<lparr>buffered := buffered s @ [c], buffer_phase := AwaitReply c\<rparr>"
    using assms(3) by (auto simp only: step_iffs)
  then show ?thesis using assms(2) by (auto simp: in_order_def on_the_way_def)
next
  case (ComponentAnswers r)
  then have "s' = s\<lparr>component_working := None, response_channel := Some r\<rparr>" using assms(3) by (auto simp only: step_iffs)
  then show ?thesis using assms(2) by (auto simp: in_order_def on_the_way_def)
next
  case TakeResponse
  then obtain r where "s' = s\<lparr>pending_response := Some r, component_busy := False, response_channel := None\<rparr>"
    using assms(3) by (auto simp only: step_known_iffs[OF assms(1)])
  then show ?thesis using assms(2) by (auto simp: in_order_def on_the_way_def)
qed

lemma buffer_tracked_step:
  assumes "component_known cfg" and "buffer_tracked s" and "buffer_step K cfg e s = Some s'"
  shows "buffer_tracked s'"
proof (cases e)
  case (HostSends r)
  then have "buffer_phase s = AtEvent"
    and s': "s' = buffer_process_request K cfg r (s\<lparr>host_requests := host_requests s @ [r]\<rparr>)"
    using assms(3) by (auto split: if_splits)
  then show ?thesis
    using assms(1,2) by (cases r) (auto simp: buffer_tracked_def owed_def buffer_defs split: option.splits if_splits)
next
  case TakeBuffered
  then have "buffer_phase s = AtEvent" "\<not> component_busy s" "s' = take_buffered cfg (hd (buffered s)) (s\<lparr>buffered := tl (buffered s)\<rparr>)"
    using assms(3) by (auto simp: content_ready_def split: if_splits)
  then show ?thesis
    using assms(1,2) by (auto simp: buffer_tracked_def owed_def buffer_defs split: option.splits if_splits)
next
  case RequestSent
  then obtain r k where "buffer_phase s = SendingRequest r k" "request_channel s = None"
    "s' = continue_after k (s\<lparr>request_channel := Some r\<rparr>)"
    using assms(3) by (auto simp only: step_iffs)
  then show ?thesis using assms(2) by (cases k) (auto simp: buffer_tracked_def owed_def continue_after_def split: if_splits)
next
  case TimeoutPasses
  then obtain c where "buffer_phase s = AwaitReply c" "s' = buffer_timeout c s"
    using assms(3) by (auto simp only: step_iffs)
  then show ?thesis
    using assms(2) by (cases "pending_response s") (auto simp: buffer_tracked_def owed_def buffer_timeout_def answer_host_def Let_def)
next
  case ComponentTakes
  then have "owed s' = owed s" "buffer_phase s' = buffer_phase s" "component_busy s' = component_busy s"
    using assms(3) by (auto simp only: step_iffs) (simp_all add: owed_def)
  then show ?thesis using assms(2) by (simp add: buffer_tracked_def)
next
  case (ComponentAnswers r)
  then have "owed s' = owed s" "buffer_phase s' = buffer_phase s" "component_busy s' = component_busy s"
    using assms(3) by (auto simp only: step_iffs) (simp_all add: owed_def)
  then show ?thesis using assms(2) by (simp add: buffer_tracked_def)
next
  case TakeResponse
  then obtain r where "buffer_phase s = AtEvent" "response_channel s = Some r"
    "s' = s\<lparr>pending_response := Some r, component_busy := False, response_channel := None\<rparr>"
    using assms(3) by (auto simp only: step_known_iffs[OF assms(1)])
  then show ?thesis using assms(2) by (auto simp: buffer_tracked_def owed_def split: if_splits)
next
  case Reply
  then show ?thesis
    using assms(2,3) by (auto simp only: step_known_iffs[OF assms(1)])
      (auto simp: buffer_tracked_def owed_def answer_host_def split: if_splits)
next
  case ContentSent
  then obtain c where "buffer_phase s = SendingContent c" "s' = s\<lparr>buffered := buffered s @ [c], buffer_phase := AwaitReply c\<rparr>"
    using assms(3) by (auto simp only: step_iffs)
  then show ?thesis using assms(2) by (auto simp: buffer_tracked_def owed_def)
qed

subsection \<open>Properties\<close>

text \<open>C18. Firmware content reaches the component in the order in which the host sent it, none twice and none
  lost: what the component has taken, followed by what is on the way (in its channel, in the buffer, or
  waiting for room), is what the host has sent, however the buffer, the component and the timeouts
  interleave and whatever the component answers.\<close>

theorem content_in_order:
  assumes "component_known cfg" and "buffer_run K cfg es buffering_new = Some s"
  shows "contents (component_taken s) @ on_the_way s = contents (host_requests s)"
proof -
  have "in_order (buffering_new :: 'a Buffering)" by (simp add: in_order_def on_the_way_def buffering_new_def)
  with assms(2) have "in_order s"
    by (rule buffer_run_invariant[where P = in_order, rotated]) (rule in_order_step[OF assms(1)])
  then show ?thesis by (simp add: in_order_def)
qed

text \<open>The buffer knows what the component owes: between events exactly one response if it is marked busy
  and none otherwise. So the component never has two blocks of content to answer at once, and content never
  waits for room in the channel.\<close>

theorem component_busy_is_exact:
  assumes "component_known cfg" and "buffer_run K cfg es buffering_new = Some s"
  shows "(buffer_phase s = AtEvent \<longrightarrow> owed s = (if component_busy s then 1 else 0)) \<and> owed s \<le> 2
    \<and> (\<forall>c k. buffer_phase s \<noteq> SendingRequest (GiveContent c) (ThenReply k) \<and> buffer_phase s \<noteq> SendingRequest (GiveContent c) ThenEvent)"
proof -
  have "buffer_tracked (buffering_new :: 'a Buffering)" by (simp add: buffer_tracked_def owed_def buffering_new_def)
  with assms(2) have "buffer_tracked s"
    by (rule buffer_run_invariant[where P = buffer_tracked, rotated]) (rule buffer_tracked_step[OF assms(1)])
  then show ?thesis
    by (cases "(buffer_phase s, component_busy s, owed s)" rule: reckoned.cases) (auto simp: buffer_tracked_def split: if_splits)
qed

text \<open>Once content waits for room in the buffer it waits for ever: it is this task alone that takes content
  out of the buffer.\<close>

lemma waiting_step:
  assumes "component_known cfg" and "buffer_phase s = SendingContent c" and "buffer_capacity cfg \<le> length (buffered s)"
    and "buffer_step K cfg e s = Some s'"
  shows "buffer_phase s' = SendingContent c \<and> buffered s' = buffered s \<and> host_answers s' = host_answers s
    \<and> host_requests s' = host_requests s"
  using assms(2-4) by (cases e) (auto split: option.splits)

lemma waiting_run:
  assumes "component_known cfg" and "buffer_run K cfg es s = Some s'" and "buffer_phase s = SendingContent c"
    and "buffer_capacity cfg \<le> length (buffered s)"
  shows "buffer_phase s' = SendingContent c \<and> host_answers s' = host_answers s \<and> host_requests s' = host_requests s"
  using assms(2-4)
proof (induction es arbitrary: s)
  case (Cons e es)
  then obtain t where t: "buffer_step K cfg e s = Some t" "buffer_run K cfg es t = Some s'"
    by (auto split: option.splits)
  show ?case using Cons.IH[OF t(2)] waiting_step[OF assms(1) Cons.prems(2,3) t(1)] Cons.prems(3) by simp
qed simp

definition timed_out :: "FwUpdateContentCommand list \<Rightarrow> 'r buffer_event list" where
  "timed_out cs = concat (map (\<lambda>c. [HostSends (GiveContent c), TimeoutPasses]) cs)"

lemma timed_out_simps [simp]:
  "timed_out [] = []" "timed_out (c # cs) = HostSends (GiveContent c) # TimeoutPasses # timed_out cs"
  by (simp_all add: timed_out_def)

text \<open>The component has taken nothing since the first content.\<close>

definition filling :: "'r Buffering \<Rightarrow> bool" where
  "filling s \<longleftrightarrow> buffer_phase s = AtEvent \<and> component_busy s \<and> pending_response s = None \<and> response_channel s = None"

lemma filling_round:
  assumes "component_known cfg" and "filling s" and "length (buffered s) < buffer_capacity cfg"
  shows "\<exists>s'. buffer_run K cfg (timed_out [c]) s = Some s' \<and> filling s' \<and> buffered s' = buffered s @ [c]
    \<and> host_answers s' = host_answers s @ [content_response c ContentSuccess]"
  using assms by (simp add: filling_def content_ready_def buffer_defs)

lemma filling_rounds:
  assumes "component_known cfg" and "filling s" and "length (buffered s) + length cs \<le> buffer_capacity cfg"
  shows "\<exists>s'. buffer_run K cfg (timed_out cs) s = Some s' \<and> filling s' \<and> buffered s' = buffered s @ cs
    \<and> host_answers s' = host_answers s @ map (\<lambda>c. content_response c ContentSuccess) cs"
  using assms(2,3)
proof (induction cs arbitrary: s)
  case (Cons c cs)
  then obtain t where t: "buffer_run K cfg (timed_out [c]) s = Some t" "filling t" "buffered t = buffered s @ [c]"
    "host_answers t = host_answers s @ [content_response c ContentSuccess]"
    using filling_round[OF assms(1), of s K c] by auto
  have "length (buffered t) + length cs \<le> buffer_capacity cfg" using Cons.prems t(3) by simp
  from Cons.IH[OF t(2) this] show ?case
    using t(1,3,4) buffer_run_append[of K cfg "timed_out [c]" "timed_out cs" s] by (simp add: timed_out_def)
qed simp

lemma first_timeout:
  assumes "component_known cfg"
  shows "\<exists>s. buffer_run K cfg (timed_out [c]) buffering_new = Some s \<and> filling s \<and> buffered s = []
    \<and> host_answers s = [content_response c ContentSuccess]"
  using assms by (simp add: filling_def content_ready_def buffer_defs buffering_new_def)

lemma full_wait:
  assumes "filling s" and "buffer_capacity cfg \<le> length (buffered s)"
  shows "\<exists>s'. buffer_run K cfg [HostSends (GiveContent c)] s = Some s' \<and> buffer_phase s' = SendingContent c
    \<and> buffered s' = buffered s \<and> host_answers s' = host_answers s"
  using assms by (simp add: filling_def content_ready_def buffer_defs)

text \<open>C19. A component that is slow enough stops its buffer for good: when one content is under way, the buffer
  is full and the host sends more, the buffer waits for room that only itself could make. Whatever the
  component, the host and the clock do afterwards, the last content and all later requests get no answer;
  those before were all accepted.\<close>

theorem buffer_blocks_forever:
  assumes "component_known cfg" and "length cs = buffer_capacity cfg"
  shows "\<exists>s. buffer_run K cfg (timed_out (c # cs) @ [HostSends (GiveContent c')]) buffering_new = Some s
    \<and> host_answers s = map (\<lambda>c. content_response c ContentSuccess) (c # cs)
    \<and> (\<forall>es s'. buffer_run K cfg es s = Some s' \<longrightarrow>
         buffer_phase s' = SendingContent c' \<and> host_answers s' = host_answers s \<and> host_requests s' = host_requests s)"
proof -
  obtain s1 where s1: "buffer_run K cfg (timed_out [c]) buffering_new = Some s1" "filling s1" "buffered s1 = []"
    "host_answers s1 = [content_response c ContentSuccess]"
    using first_timeout[OF assms(1)] by blast
  obtain s2 where s2: "buffer_run K cfg (timed_out cs) s1 = Some s2" "filling s2" "buffered s2 = cs"
    "host_answers s2 = map (\<lambda>c. content_response c ContentSuccess) (c # cs)"
    using filling_rounds[OF assms(1) s1(2), of cs K] assms(2) s1(3,4) by auto
  obtain s3 where s3: "buffer_run K cfg [HostSends (GiveContent c')] s2 = Some s3" "buffer_phase s3 = SendingContent c'"
    "buffered s3 = cs" "host_answers s3 = host_answers s2"
    using full_wait[OF s2(2), of cfg K c'] assms(2) s2(3) by auto
  have "buffer_run K cfg (timed_out [c] @ timed_out cs @ [HostSends (GiveContent c')]) buffering_new = Some s3"
    unfolding buffer_run_append s1(1) bind.bind_lunit s2(1) s3(1) ..
  then show ?thesis
    using s2(4) s3(4) waiting_run[OF assms(1) _ s3(2)] s3(3) assms(2) by (intro exI[of _ s3]) simp
qed

text \<open>An abort is answered with the response to the content before it: when content timed out and the
  component answers it after the abort was sent, the host gets that response for its abort, which is still
  in the component's channel, and the component stays marked as busy.\<close>

theorem abort_gets_content_answer:
  assumes "component_known cfg"
  shows "\<exists>s. buffer_run K cfg [HostSends (GiveContent c), TimeoutPasses, ComponentTakes, HostSends AbortUpdate,
        ComponentAnswers x, Reply] buffering_new = Some s
    \<and> host_answers s = [content_response c ContentSuccess, x] \<and> request_channel s = Some AbortUpdate
    \<and> component_taken s = [GiveContent c] \<and> component_busy s"
  using assms by (simp add: content_ready_def buffer_defs buffering_new_def)

subsection \<open>A prompt component\<close>

text \<open>What a host gets from the component itself, behind the two identifiers.\<close>

fun forwarded :: "buffer_config \<Rightarrow> RequestData \<Rightarrow> RequestData option" where
  "forwarded cfg FwVersionRequest = Some FwVersionRequest"
| "forwarded cfg (GiveOffer offer) = Some (GiveOffer (offer\<lparr>offer_component_id := buffered_id cfg\<rparr>))"
| "forwarded cfg (GiveContent c) = Some (GiveContent c)"
| "forwarded cfg AbortUpdate = Some AbortUpdate"
| "forwarded cfg _ = None"

fun direct_answer ::
  "'r cfu_protocol \<Rightarrow> buffer_config \<Rightarrow> RequestData \<Rightarrow> 'r InternalResponseData \<Rightarrow> 'r InternalResponseData" where
  "direct_answer K cfg FwVersionRequest x = routed_answer K cfg RoutedVersion x"
| "direct_answer K cfg (GiveOffer _) x = routed_answer K cfg RoutedOffer x"
| "direct_answer K cfg (GiveContent c) x = as_answer_to c x"
| "direct_answer K cfg AbortUpdate x = x"
| "direct_answer K cfg FinalizeUpdate x = ComponentPrepared"
| "direct_answer K cfg PrepareComponentForUpdate x = ComponentPrepared"
| "direct_answer K cfg _ x = OfferResponse (offer_rejection K)"

definition prompt_round :: "buffer_config \<Rightarrow> RequestData \<times> 'r InternalResponseData \<Rightarrow> 'r buffer_event list" where
  "prompt_round cfg = (\<lambda>(r, x).
     (case forwarded cfg r of None \<Rightarrow> [HostSends r] | Some _ \<Rightarrow> [HostSends r, ComponentTakes, ComponentAnswers x, Reply]))"

definition idle_buffer :: "'r Buffering \<Rightarrow> bool" where
  "idle_buffer s \<longleftrightarrow> buffer_phase s = AtEvent \<and> \<not> component_busy s \<and> buffered s = [] \<and> pending_response s = None
     \<and> request_channel s = None \<and> response_channel s = None \<and> component_working s = None"

lemma prompt_round_idle:
  assumes "component_known cfg" and "idle_buffer s"
  shows "\<exists>s'. buffer_run K cfg (prompt_round cfg (r, x)) s = Some s' \<and> idle_buffer s'
    \<and> host_answers s' = host_answers s @ [direct_answer K cfg r x]
    \<and> component_taken s' = component_taken s @ (case forwarded cfg r of None \<Rightarrow> [] | Some q \<Rightarrow> [q])"
  using assms by (cases r) (simp_all add: prompt_round_def idle_buffer_def content_ready_def buffer_defs)

text \<open>A component that answers in time does not notice its buffer, nor does the host: through any sequence
  of requests the component gets each one that concerns it, offers under its own identifier, and the host
  gets the component's answer to each, versions under the buffer's identifier and content responses under
  the sequence number of the content.\<close>

theorem prompt_component_is_unbuffered:
  assumes "component_known cfg"
  shows "\<exists>s. buffer_run K cfg (concat (map (prompt_round cfg) rxs)) buffering_new = Some s
    \<and> host_answers s = map (\<lambda>(r, x). direct_answer K cfg r x) rxs
    \<and> component_taken s = List.map_filter (\<lambda>(r, _). forwarded cfg r) rxs \<and> \<not> component_busy s \<and> buffered s = []"
proof -
  have "\<exists>s'. buffer_run K cfg (concat (map (prompt_round cfg) rxs)) s = Some s' \<and> idle_buffer s'
    \<and> host_answers s' = host_answers s @ map (\<lambda>(r, x). direct_answer K cfg r x) rxs
    \<and> component_taken s' = component_taken s @ List.map_filter (\<lambda>(r, _). forwarded cfg r) rxs"
    if "idle_buffer s" for s :: "'a Buffering"
    using that
  proof (induction rxs arbitrary: s)
    case (Cons p rxs)
    obtain r x where p: "p = (r, x)" by (cases p)
    obtain t where t: "buffer_run K cfg (prompt_round cfg p) s = Some t" "idle_buffer t"
      "host_answers t = host_answers s @ [direct_answer K cfg r x]"
      "component_taken t = component_taken s @ (case forwarded cfg r of None \<Rightarrow> [] | Some q \<Rightarrow> [q])"
      using prompt_round_idle[OF assms Cons.prems] unfolding p by blast
    obtain u where u: "buffer_run K cfg (concat (map (prompt_round cfg) rxs)) t = Some u" "idle_buffer u"
      "host_answers u = host_answers t @ map (\<lambda>(r, x). direct_answer K cfg r x) rxs"
      "component_taken u = component_taken t @ List.map_filter (\<lambda>(r, _). forwarded cfg r) rxs"
      using Cons.IH[OF t(2)] by blast
    have "buffer_run K cfg (concat (map (prompt_round cfg) (p # rxs))) s = Some u"
      by (simp add: buffer_run_append t(1) u(1))
    then show ?case
      using u(2-4) t(3,4) p by (intro exI[of _ u]) (simp add: List.map_filter_simps split: option.split)
  qed (simp add: List.map_filter_simps)
  from this[of buffering_new] show ?thesis by (auto simp: idle_buffer_def buffering_new_def)
qed

subsection \<open>The properties on concrete inputs\<close>

definition demo_buffer :: buffer_config where
  "demo_buffer = \<lparr>external_id = 1, buffered_id = 2, buffer_capacity = 1, component_known = True\<rparr>"

definition demo_content :: "u16 \<Rightarrow> FwUpdateContentCommand" where
  "demo_content n = \<lparr>content_flags = 0, data_length = 1, sequence_num = n, firmware_address = 0, content_data = [7]\<rparr>"

definition demo_buffer_run :: "nat buffer_event list" where
  "demo_buffer_run = [HostSends (GiveContent (demo_content 1)), TimeoutPasses, HostSends (GiveContent (demo_content 2)),
     ComponentTakes, ComponentAnswers (content_response (demo_content 1) ErrorWrite), Reply, TakeBuffered]"

definition demo_buffered :: "nat Buffering" where
  "demo_buffered = \<lparr>pending_response = None, component_busy = True, buffered = [], buffer_phase = AtEvent,
     request_channel = Some (GiveContent (demo_content 2)), response_channel = None, component_working = None,
     host_answers = [content_response (demo_content 1) ContentSuccess, content_response (demo_content 2) ErrorWrite],
     host_requests = [GiveContent (demo_content 1), GiveContent (demo_content 2)],
     component_taken = [GiveContent (demo_content 1)]\<rparr>"

lemmas demo_buffer_defs = demo_buffer_def demo_protocol_def demo_content_def demo_buffer_run_def demo_buffered_def
  content_response_def is_first_def as_answer_to_def

lemma demo_buffer_known: "component_known demo_buffer"
  by (simp add: demo_buffer_def)

lemma demo_buffer_runs: "buffer_run demo_protocol demo_buffer demo_buffer_run buffering_new = Some demo_buffered"
  by (simp add: demo_buffer_defs content_ready_def buffer_defs buffering_new_def)

theorem content_in_order_witness:
  "buffer_run demo_protocol demo_buffer demo_buffer_run buffering_new = Some demo_buffered
    \<and> contents (component_taken demo_buffered) @ on_the_way demo_buffered = [demo_content 1, demo_content 2]"
  using demo_buffer_runs content_in_order [OF demo_buffer_known demo_buffer_runs]
  by (simp add: demo_buffered_def)

theorem component_busy_is_exact_witness: "owed demo_buffered = 1"
  using component_busy_is_exact [OF demo_buffer_known demo_buffer_runs] by (simp add: demo_buffered_def)

theorem buffer_blocks_forever_witness:
  "\<exists>s. buffer_run demo_protocol demo_buffer (timed_out [demo_content 1, demo_content 2] @ [HostSends (GiveContent (demo_content 3))])
        buffering_new = Some s
    \<and> (\<forall>es s'. buffer_run demo_protocol demo_buffer es s = Some s' \<longrightarrow> length (host_answers s') = 2)"
proof -
  have "length [demo_content 2] = buffer_capacity demo_buffer" by (simp add: demo_buffer_def)
  from buffer_blocks_forever [OF demo_buffer_known this, of demo_protocol "demo_content 1" "demo_content 3"]
  obtain s where s: "buffer_run demo_protocol demo_buffer
      (timed_out [demo_content 1, demo_content 2] @ [HostSends (GiveContent (demo_content 3))]) buffering_new = Some s"
    and answers: "length (host_answers s) = 2"
    and stuck: "\<forall>es s'. buffer_run demo_protocol demo_buffer es s = Some s' \<longrightarrow> host_answers s' = host_answers s"
    by auto
  show ?thesis
    using s stuck answers by metis
qed

theorem abort_gets_content_answer_witness:
  "\<exists>s. buffer_run demo_protocol demo_buffer [HostSends (GiveContent (demo_content 1)), TimeoutPasses, ComponentTakes,
        HostSends AbortUpdate, ComponentAnswers ComponentPrepared, Reply] buffering_new = Some s
    \<and> host_answers s = [content_response (demo_content 1) ContentSuccess, ComponentPrepared]
    \<and> request_channel s = Some AbortUpdate"
  using abort_gets_content_answer [OF demo_buffer_known, of demo_protocol "demo_content 1" ComponentPrepared] by blast

theorem prompt_component_is_unbuffered_witness:
  "\<exists>s. buffer_run demo_protocol demo_buffer
        (concat (map (prompt_round demo_buffer) [(AbortUpdate, ComponentPrepared), (FinalizeUpdate, ComponentBusy)])) buffering_new = Some s
    \<and> host_answers s = [ComponentPrepared, ComponentPrepared] \<and> component_taken s = [AbortUpdate]"
  using prompt_component_is_unbuffered
    [OF demo_buffer_known, of demo_protocol "[(AbortUpdate, ComponentPrepared), (FinalizeUpdate, ComponentBusy)]"]
  by (auto simp: List.map_filter_simps)

end
