(* ===== verification/Hid_Descriptor.thy ===== *)
theory Hid_Descriptor
  imports Prelude
begin

text \<open>
  HID report descriptors: the items of the byte stream and what is read off them, of
  \<open>embedded-service/src/relay/hid.rs\<close>. The iterator walks positions of the bytes; its specification is
  that the bytes are the concatenation of the raw items. Parsing folds the items over the global state,
  the stack of \<open>Push\<close> and \<open>Pop\<close> and one table entry for each report ID.
\<close>

subsection \<open>Items\<close>

datatype HidItemType = MainItem | GlobalItem | LocalItem | ReservedItem

definition item_type :: "u8 \<Rightarrow> HidItemType" where
  "item_type header =
     (let t = drop_bit 2 header AND 3
      in if t = 0 then MainItem else if t = 1 then GlobalItem else if t = 2 then LocalItem else ReservedItem)"

definition item_tag :: "u8 \<Rightarrow> u8" where "item_tag header = drop_bit 4 header"

definition LONG_ITEM_HEADER :: u8 where "LONG_ITEM_HEADER = 0xFE"

definition is_long_item :: "u8 \<Rightarrow> bool" where "is_long_item header \<longleftrightarrow> header = LONG_ITEM_HEADER"

text \<open>\<open>short_item_data_size\<close> and its \<open>data_bytes\<close>.\<close>

definition short_item_data_size :: "u8 \<Rightarrow> nat" where
  "short_item_data_size header =
     (let s = header AND 3 in if s = 0 then 0 else if s = 1 then 1 else if s = 2 then 2 else 4)"

definition TAG_REPORT_SIZE :: u8 where "TAG_REPORT_SIZE = 7"
definition TAG_REPORT_ID :: u8 where "TAG_REPORT_ID = 8"
definition TAG_REPORT_COUNT :: u8 where "TAG_REPORT_COUNT = 9"
definition TAG_PUSH :: u8 where "TAG_PUSH = 10"
definition TAG_POP :: u8 where "TAG_POP = 11"
definition TAG_INPUT :: u8 where "TAG_INPUT = 8"
definition TAG_OUTPUT :: u8 where "TAG_OUTPUT = 9"
definition TAG_FEATURE :: u8 where "TAG_FEATURE = 11"
definition COLLECTION_ITEM_TAG :: u8 where "COLLECTION_ITEM_TAG = 10"

lemmas tag_defs = TAG_REPORT_SIZE_def TAG_REPORT_ID_def TAG_REPORT_COUNT_def TAG_PUSH_def TAG_POP_def
  TAG_INPUT_def TAG_OUTPUT_def TAG_FEATURE_def COLLECTION_ITEM_TAG_def

definition is_report_id :: "u8 \<Rightarrow> bool" where
  "is_report_id header \<longleftrightarrow> item_type header = GlobalItem \<and> item_tag header = TAG_REPORT_ID"

definition is_collection :: "u8 \<Rightarrow> bool" where
  "is_collection header \<longleftrightarrow> item_type header = MainItem \<and> item_tag header = COLLECTION_ITEM_TAG"

text \<open>\<open>global\<close>: the header byte of a global item; the second argument is the encoded size.\<close>

definition global_header :: "u8 \<Rightarrow> u8 \<Rightarrow> u8" where
  "global_header tag sz = push_bit 4 tag OR push_bit 2 1 OR sz"

definition REPORT_ID_HEADER_SIZE1 :: u8 where "REPORT_ID_HEADER_SIZE1 = global_header TAG_REPORT_ID 1"
definition PUSH_HEADER :: u8 where "PUSH_HEADER = global_header TAG_PUSH 0"
definition POP_HEADER :: u8 where "POP_HEADER = global_header TAG_POP 0"

lemma framing_headers [simp]: "REPORT_ID_HEADER_SIZE1 = 0x85" "PUSH_HEADER = 0xA4" "POP_HEADER = 0xB4"
  by (simp_all add: REPORT_ID_HEADER_SIZE1_def PUSH_HEADER_def POP_HEADER_def global_header_def tag_defs)

datatype HidDescriptorError =
    TruncatedItem | UnsupportedReportId | TooManyReportIds | OutputBufferTooSmall nat
  | PushPopStackOverflow | UnbalancedPop

record DescriptorItem =
  item_header :: u8
  item_data :: "u8 list"
  item_raw :: "u8 list"

text \<open>\<open>bytes.get(a..b)\<close> where \<open>a \<le> b\<close>.\<close>

definition get_slice :: "'a list \<Rightarrow> nat \<Rightarrow> nat \<Rightarrow> 'a list option" where
  "get_slice bytes a b = (if b \<le> length bytes then Some (take (b - a) (drop a bytes)) else None)"

text \<open>The length of the header and of the data of the item at a position; \<open>None\<close> if a long item ends before
  its size.\<close>

definition item_sizes :: "u8 list \<Rightarrow> nat \<Rightarrow> u8 \<Rightarrow> (nat \<times> nat) option" where
  "item_sizes bytes pos header =
     (if is_long_item header then
        (if pos + 1 < length bytes then Some (3, unat (bytes ! (pos + 1))) else None)
      else Some (1, short_item_data_size header))"

text \<open>\<open>next\<close> at a position where the iterator is not done: the item and the position after it.\<close>

definition next_item :: "u8 list \<Rightarrow> nat \<Rightarrow> (HidDescriptorError, DescriptorItem \<times> nat) result" where
  "next_item bytes pos =
     (case item_sizes bytes pos (bytes ! pos) of
        None \<Rightarrow> Inl TruncatedItem
      | Some (header_len, data_size) \<Rightarrow>
          (let data_start = pos + header_len; data_end = data_start + data_size
           in case (get_slice bytes data_start data_end, get_slice bytes pos data_end) of
                (Some data, Some raw) \<Rightarrow> Inr (\<lparr>item_header = bytes ! pos, item_data = data, item_raw = raw\<rparr>, data_end)
              | _ \<Rightarrow> Inl TruncatedItem))"

lemma next_item_pos: "next_item bytes pos = Inr (item, pos') \<Longrightarrow> pos < pos' \<and> pos' \<le> length bytes"
  by (auto simp: next_item_def item_sizes_def get_slice_def Let_def split: option.splits if_splits)

text \<open>What a loop over the iterator gets: the items, and the error that ends it, if any.\<close>

function items_from :: "u8 list \<Rightarrow> nat \<Rightarrow> DescriptorItem list \<times> HidDescriptorError option" where
  "items_from bytes pos =
     (if length bytes \<le> pos then ([], None)
      else case next_item bytes pos of
             Inl e \<Rightarrow> ([], Some e)
           | Inr (item, pos') \<Rightarrow> (case items_from bytes pos' of (items, e) \<Rightarrow> (item # items, e)))"
  by pat_completeness auto
termination
  by (relation "measure (\<lambda>(bytes, pos). length bytes - pos)") (auto dest: next_item_pos)

declare items_from.simps [simp del]

definition descriptor_items :: "u8 list \<Rightarrow> DescriptorItem list \<times> HidDescriptorError option" where
  "descriptor_items bytes = items_from bytes 0"

text \<open>\<open>for item in items { let item = item?; \<dots> }\<close>\<close>

definition for_items ::
  "(DescriptorItem \<Rightarrow> ('s, HidDescriptorError, unit) action) \<Rightarrow> u8 list \<Rightarrow> ('s, HidDescriptorError, unit) action" where
  "for_items f bytes =
     (case descriptor_items bytes of
        (items, e) \<Rightarrow> and_then (for_each f items) (\<lambda>_. case e of None \<Rightarrow> ok () | Some e \<Rightarrow> err e))"

subsection \<open>Parsing\<close>

definition sat_mul :: "u32 \<Rightarrow> u32 \<Rightarrow> u32" where
  "sat_mul a b = (if unat a * unat b < 2 ^ 32 then a * b else - 1)"

definition sat_add :: "u32 \<Rightarrow> u32 \<Rightarrow> u32" where
  "sat_add a b = (if unat a + unat b < 2 ^ 32 then a + b else - 1)"

text \<open>\<open>try_value_as_int\<close>: the data of a short item as a little-endian number.\<close>

fun le_value :: "u8 list \<Rightarrow> u32" where
  "le_value [] = 0"
| "le_value (b # bs) = ucast b OR push_bit 8 (le_value bs)"

definition try_value_as_int :: "DescriptorItem \<Rightarrow> u32 option" where
  "try_value_as_int item = (if item_data item = [] \<or> 4 < length (item_data item) then None else Some (le_value (item_data item)))"

record GlobalItemState =
  report_size_bits :: u32
  report_count :: u32
  report_id :: u8

record ReportBits =
  input_bits :: u32
  output_bits :: u32
  feature_bits :: u32

record MaxReportSizes =
  max_input :: nat
  max_output :: nat
  max_feature :: nat

definition global_default :: GlobalItemState where
  "global_default = \<lparr>report_size_bits = 0, report_count = 0, report_id = 0\<rparr>"

definition no_bits :: ReportBits where
  "no_bits = \<lparr>input_bits = 0, output_bits = 0, feature_bits = 0\<rparr>"

text \<open>The locals of \<open>HidReportDescriptor::new\<close>; the array of 256 entries is indexed by the report ID.\<close>

record DescriptorParse =
  ids_implicit :: bool
  reports :: "u8 \<Rightarrow> ReportBits"
  global_state :: GlobalItemState
  global_stack :: "GlobalItemState list"

definition parse_start :: DescriptorParse where
  "parse_start = \<lparr>ids_implicit = True, reports = (\<lambda>_. no_bits), global_state = global_default, global_stack = []\<rparr>"

definition MAX_PUSH_POP_STACK_DEPTH :: nat where "MAX_PUSH_POP_STACK_DEPTH = 16"

definition set_global ::
  "DescriptorItem \<Rightarrow> (u32 \<Rightarrow> GlobalItemState \<Rightarrow> GlobalItemState) \<Rightarrow> (DescriptorParse, HidDescriptorError, unit) action" where
  "set_global item f p =
     (case try_value_as_int item of
        None \<Rightarrow> (Inl TruncatedItem, p)
      | Some v \<Rightarrow> (Inr (), p\<lparr>global_state := f v (global_state p)\<rparr>))"

definition global_item :: "DescriptorItem \<Rightarrow> (DescriptorParse, HidDescriptorError, unit) action" where
  "global_item item p =
     (let tag = item_tag (item_header item)
      in if tag = TAG_REPORT_SIZE then set_global item (\<lambda>v g. g\<lparr>report_size_bits := v\<rparr>) p
         else if tag = TAG_REPORT_COUNT then set_global item (\<lambda>v g. g\<lparr>report_count := v\<rparr>) p
         else if tag = TAG_REPORT_ID then
           (case item_data item of
              [i] \<Rightarrow> (Inr (), p\<lparr>ids_implicit := False, global_state := (global_state p)\<lparr>report_id := i\<rparr>\<rparr>)
            | _ \<Rightarrow> (Inl UnsupportedReportId, p))
         else if tag = TAG_PUSH then
           (if length (global_stack p) < MAX_PUSH_POP_STACK_DEPTH
            then (Inr (), p\<lparr>global_stack := global_state p # global_stack p\<rparr>) else (Inl PushPopStackOverflow, p))
         else if tag = TAG_POP then
           (case global_stack p of
              [] \<Rightarrow> (Inl UnbalancedPop, p)
            | g # gs \<Rightarrow> (Inr (), p\<lparr>global_state := g, global_stack := gs\<rparr>))
         else (Inr (), p))"

definition add_bits :: "u8 \<Rightarrow> u32 \<Rightarrow> ReportBits \<Rightarrow> ReportBits" where
  "add_bits tag bits r =
     (if tag = TAG_INPUT then r\<lparr>input_bits := sat_add (input_bits r) bits\<rparr>
      else if tag = TAG_OUTPUT then r\<lparr>output_bits := sat_add (output_bits r) bits\<rparr>
      else if tag = TAG_FEATURE then r\<lparr>feature_bits := sat_add (feature_bits r) bits\<rparr>
      else r)"

definition main_item :: "DescriptorItem \<Rightarrow> (DescriptorParse, HidDescriptorError, unit) action" where
  "main_item item p =
     (let g = global_state p; bits = sat_mul (report_size_bits g) (report_count g)
      in (Inr (), p\<lparr>reports := (reports p)(report_id g :=
                        add_bits (item_tag (item_header item)) bits (reports p (report_id g)))\<rparr>))"

definition parse_item :: "DescriptorItem \<Rightarrow> (DescriptorParse, HidDescriptorError, unit) action" where
  "parse_item item p =
     (if is_long_item (item_header item) then (Inr (), p)
      else case item_type (item_header item) of
             GlobalItem \<Rightarrow> global_item item p
           | MainItem \<Rightarrow> main_item item p
           | LocalItem \<Rightarrow> (Inr (), p)
           | ReservedItem \<Rightarrow> (Inr (), p))"

text \<open>\<open>bits.div_ceil(8) as usize\<close>\<close>

definition bits_to_bytes :: "u32 \<Rightarrow> nat" where "bits_to_bytes bits = (unat bits + 7) div 8"

definition max_bits :: "(ReportBits \<Rightarrow> u32) \<Rightarrow> (u8 \<Rightarrow> ReportBits) \<Rightarrow> u32" where
  "max_bits field rs = fold (\<lambda>i m. max m (field (rs (word_of_nat i)))) [0..<256] 0"

record HidReportDescriptor =
  descriptor_bytes :: "u8 list"
  report_ids_implicit :: bool
  max_report_sizes :: MaxReportSizes

definition sizes_of :: "(u8 \<Rightarrow> ReportBits) \<Rightarrow> MaxReportSizes" where
  "sizes_of rs = \<lparr>max_input = bits_to_bytes (max_bits input_bits rs), max_output = bits_to_bytes (max_bits output_bits rs),
     max_feature = bits_to_bytes (max_bits feature_bits rs)\<rparr>"

definition descriptor_new :: "u8 list \<Rightarrow> (HidDescriptorError, HidReportDescriptor) result" where
  "descriptor_new bytes =
     (case for_items parse_item bytes parse_start of
        (Inl e, _) \<Rightarrow> Inl e
      | (Inr _, p) \<Rightarrow> Inr \<lparr>descriptor_bytes = bytes, report_ids_implicit = ids_implicit p, max_report_sizes = sizes_of (reports p)\<rparr>)"

end
