(* ===== verification/Hid_Device.thy ===== *)
theory Hid_Device
  imports Hid_Descriptor
begin

text \<open>
  HID devices, of \<open>embedded-service/src/relay/hid.rs\<close>: reports, the trait \<open>HidDevice\<close> as a record of its
  operations on a state, and what its users rely on as a locale. An operation that hands a report to a
  callback returns the report, and the caller does what the callback did; a report that the device waits for
  without an end is \<open>None\<close>.
\<close>

subsection \<open>Reports\<close>

datatype HidError = TriggerReset

datatype HidDevicePowerState = HidOn | HidSleep | HidOff

record HidReport =
  hid_id :: u8
  hid_data :: "u8 list"

datatype SetHidReport = SetOutput HidReport | SetFeature HidReport

definition set_report_data :: "SetHidReport \<Rightarrow> u8 list" where
  "set_report_data r = (case r of SetOutput report \<Rightarrow> hid_data report | SetFeature report \<Rightarrow> hid_data report)"

definition set_id :: "SetHidReport \<Rightarrow> u8" where
  "set_id r = (case r of SetOutput report \<Rightarrow> hid_id report | SetFeature report \<Rightarrow> hid_id report)"

definition relabel :: "u8 \<Rightarrow> SetHidReport \<Rightarrow> SetHidReport" where
  "relabel i r =
     (case r of
        SetOutput report \<Rightarrow> SetOutput \<lparr>hid_id = i, hid_data = hid_data report\<rparr>
      | SetFeature report \<Rightarrow> SetFeature \<lparr>hid_id = i, hid_data = hid_data report\<rparr>)"

datatype GetHidReportType = GetInputType | GetFeatureType

datatype GetHidReport = GetInput HidReport | GetFeature HidReport

definition get_report_data :: "GetHidReport \<Rightarrow> u8 list" where
  "get_report_data r = (case r of GetInput report \<Rightarrow> hid_data report | GetFeature report \<Rightarrow> hid_data report)"

lemma relabel_simps [simp]: "set_id (relabel i r) = i" "set_report_data (relabel i r) = set_report_data r" "relabel i (relabel j r) = relabel i r"
  by (auto simp: set_id_def relabel_def set_report_data_def split: SetHidReport.split)

subsection \<open>The trait\<close>

record 'd hid_device =
  input_report_max :: nat
  output_report_max :: nat
  feature_report_max :: nat
  max_report_count :: nat
  max_descriptor_len :: nat
  report_descriptor :: "'d \<Rightarrow> HidReportDescriptor"
  get_report :: "GetHidReportType \<Rightarrow> u8 \<Rightarrow> ('d, HidError, GetHidReport) action"
  set_report :: "SetHidReport \<Rightarrow> ('d, HidError, unit) action"
  wait_for_report :: "'d \<Rightarrow> 'd option"
  has_pending :: "'d \<Rightarrow> bool \<times> 'd"
  next_report :: "'d \<Rightarrow> ((HidError, HidReport) result \<times> 'd) option"
  power_state :: "HidDevicePowerState \<Rightarrow> ('d, HidError, unit) action"
  reset_device :: "'d \<Rightarrow> 'd"

text \<open>What users rely on: asking for pending reports changes nothing that is seen, a wait ends with a pending
  report, and at once if there is one, a pending report can be taken, and the descriptor stays the same.\<close>

locale hid_device =
  fixes dev :: "'d hid_device"
  assumes pending_stable: "has_pending dev d = (b, d') \<Longrightarrow> has_pending dev d' = (b, d')"
    and wait_gives_pending: "wait_for_report dev d = Some d' \<Longrightarrow> fst (has_pending dev d')"
    and pending_ends_wait: "fst (has_pending dev d) \<Longrightarrow> \<exists>d'. wait_for_report dev d = Some d'"
    and pending_is_available: "fst (has_pending dev d) \<Longrightarrow> \<exists>r. next_report dev d = Some r"
    and descriptor_fixed:
      "report_descriptor dev (snd (has_pending dev d)) = report_descriptor dev d"
      "wait_for_report dev d = Some d' \<Longrightarrow> report_descriptor dev d' = report_descriptor dev d"
      "next_report dev d = Some (r, d') \<Longrightarrow> report_descriptor dev d' = report_descriptor dev d"
      "report_descriptor dev (snd (get_report dev t i d)) = report_descriptor dev d"
      "report_descriptor dev (snd (set_report dev s d)) = report_descriptor dev d"
      "report_descriptor dev (snd (power_state dev p d)) = report_descriptor dev d"
      "report_descriptor dev (reset_device dev d) = report_descriptor dev d"
begin

lemma pending_again: "has_pending dev (snd (has_pending dev d)) = has_pending dev d"
  by (cases "has_pending dev d") (simp add: pending_stable)

lemma asked_is_available: "has_pending dev d = (True, d') \<Longrightarrow> \<exists>r. next_report dev d' = Some r"
  using pending_stable pending_is_available by (metis fst_conv)

lemma waited_is_available: "wait_for_report dev d = Some d' \<Longrightarrow> \<exists>r. next_report dev d' = Some r"
  by (rule pending_is_available) (rule wait_gives_pending)

end

end
