(* ===== verification/Hid_Combine.thy ===== *)
theory Hid_Combine
  imports Hid_Descriptor
begin

text \<open>
  Combining report descriptors, and the map of report IDs between the host and the devices, of
  \<open>embedded-service/src/relay/hid.rs\<close>: the bounded writer, the builder of the map, \<open>ReportIdMap::combine\<close>
  and the two lookups. The arrays that the caller provides keep their length.
\<close>

subsection \<open>The writer\<close>

record BoundedWriter =
  out_buf :: "u8 list"
  out_pos :: nat

definition writer_push :: "u8 \<Rightarrow> (BoundedWriter, HidDescriptorError, unit) action" where
  "writer_push byte w =
     (if out_pos w < length (out_buf w) then (Inr (), w\<lparr>out_buf := (out_buf w)[out_pos w := byte], out_pos := out_pos w + 1\<rparr>)
      else (Inl (OutputBufferTooSmall (length (out_buf w))), w))"

definition writer_push_slice :: "u8 list \<Rightarrow> (BoundedWriter, HidDescriptorError, unit) action" where
  "writer_push_slice bytes w =
     (let end_pos = out_pos w + length bytes
      in if end_pos \<le> length (out_buf w)
         then (Inr (), w\<lparr>out_buf := take (out_pos w) (out_buf w) @ bytes @ drop end_pos (out_buf w), out_pos := end_pos\<rparr>)
         else (Inl (OutputBufferTooSmall (length (out_buf w))), w))"

subsection \<open>Blocks of report IDs\<close>

definition u8_try_from :: "nat \<Rightarrow> u8 option" where
  "u8_try_from n = (if n < 256 then Some (word_of_nat n) else None)"

fun position :: "('a \<Rightarrow> bool) \<Rightarrow> 'a list \<Rightarrow> nat option" where
  "position P [] = None"
| "position P (x # xs) = (if P x then Some 0 else map_option Suc (position P xs))"

fun rposition :: "('a \<Rightarrow> bool) \<Rightarrow> 'a list \<Rightarrow> nat option" where
  "rposition P [] = None"
| "rposition P (x # xs) = (case rposition P xs of Some i \<Rightarrow> Some (Suc i) | None \<Rightarrow> if P x then Some 0 else None)"

record BlockBoundaries =
  block_starts :: "u8 list"
  block_total :: u8

definition blocks_new :: "nat \<Rightarrow> BlockBoundaries" where
  "blocks_new owners = \<lparr>block_starts = replicate owners 0, block_total = 0\<rparr>"

definition owner_of :: "BlockBoundaries \<Rightarrow> nat \<Rightarrow> nat option" where
  "owner_of b report_index = rposition (\<lambda>start. unat start \<le> report_index) (block_starts b)"

definition block_bounds :: "BlockBoundaries \<Rightarrow> nat \<Rightarrow> (nat \<times> nat) option" where
  "block_bounds b owner =
     (if owner < length (block_starts b) then
        Some (unat (block_starts b ! owner),
              if owner + 1 < length (block_starts b) then unat (block_starts b ! (owner + 1)) else unat (block_total b))
      else None)"

definition set_start :: "nat \<Rightarrow> nat \<Rightarrow> (BlockBoundaries, HidDescriptorError, unit) action" where
  "set_start owner report_index b =
     (if owner < length (block_starts b) then
        (case u8_try_from report_index of
           Some v \<Rightarrow> (Inr (), b\<lparr>block_starts := (block_starts b)[owner := v]\<rparr>)
         | None \<Rightarrow> (Inl TooManyReportIds, b))
      else (Inl TooManyReportIds, b))"

definition set_total :: "nat \<Rightarrow> (BlockBoundaries, HidDescriptorError, unit) action" where
  "set_total n b =
     (case u8_try_from n of Some v \<Rightarrow> (Inr (), b\<lparr>block_total := v\<rparr>) | None \<Rightarrow> (Inl TooManyReportIds, b))"

subsection \<open>The builder of the map\<close>

record ReportIdMapBuilder =
  b_remaps :: "u8 list"
  b_blocks :: BlockBoundaries
  b_count :: nat
  b_input_start :: nat

definition builder_new :: "nat \<Rightarrow> nat \<Rightarrow> ReportIdMapBuilder" where
  "builder_new n owners = \<lparr>b_remaps = replicate n 0, b_blocks = blocks_new owners, b_count = 0, b_input_start = 0\<rparr>"

definition begin_input :: "nat \<Rightarrow> (ReportIdMapBuilder, HidDescriptorError, unit) action" where
  "begin_input input_index b =
     (case set_start input_index (b_count b) (b_blocks b) of
        (r, blocks) \<Rightarrow> (r, b\<lparr>b_input_start := b_count b, b_blocks := blocks\<rparr>))"

definition assigned :: "u8 \<Rightarrow> ReportIdMapBuilder \<Rightarrow> u8 option" where
  "assigned native_id b =
     Option.bind (get_slice (b_remaps b) (b_input_start b) (b_count b)) (\<lambda>block.
     Option.bind (position (\<lambda>i. i = native_id) block) (\<lambda>offset. u8_try_from (b_input_start b + offset + 1)))"

definition record_id :: "u8 \<Rightarrow> (ReportIdMapBuilder, HidDescriptorError, u8) action" where
  "record_id native_id b =
     (case u8_try_from (b_count b + 1) of
        None \<Rightarrow> (Inl TooManyReportIds, b)
      | Some new_id \<Rightarrow>
          if b_count b < length (b_remaps b)
          then (Inr new_id, b\<lparr>b_remaps := (b_remaps b)[b_count b := native_id], b_count := b_count b + 1\<rparr>)
          else (Inl TooManyReportIds, b))"

definition assign_id :: "u8 \<Rightarrow> (ReportIdMapBuilder, HidDescriptorError, u8) action" where
  "assign_id native_id b = (case assigned native_id b of Some i \<Rightarrow> (Inr i, b) | None \<Rightarrow> record_id native_id b)"

definition builder_finish :: "(ReportIdMapBuilder, HidDescriptorError, unit) action" where
  "builder_finish b = (case set_total (b_count b) (b_blocks b) of (r, blocks) \<Rightarrow> (r, b\<lparr>b_blocks := blocks\<rparr>))"

subsection \<open>Combining\<close>

record Combining =
  writer :: BoundedWriter
  builder :: ReportIdMapBuilder
  report_id_inserted :: bool

definition on_writer :: "(BoundedWriter, HidDescriptorError, 'a) action \<Rightarrow> (Combining, HidDescriptorError, 'a) action" where
  "on_writer m c = (case m (writer c) of (r, w) \<Rightarrow> (r, c\<lparr>writer := w\<rparr>))"

definition on_builder :: "(ReportIdMapBuilder, HidDescriptorError, 'a) action \<Rightarrow> (Combining, HidDescriptorError, 'a) action" where
  "on_builder m c = (case m (builder c) of (r, b) \<Rightarrow> (r, c\<lparr>builder := b\<rparr>))"

definition write_byte :: "u8 \<Rightarrow> (Combining, HidDescriptorError, unit) action" where
  "write_byte byte = on_writer (writer_push byte)"

text \<open>The body of the loop over the items of one input.\<close>

definition combine_item :: "bool \<Rightarrow> DescriptorItem \<Rightarrow> (Combining, HidDescriptorError, unit) action" where
  "combine_item implicit item c =
     (if is_report_id (item_header item) then
        (case item_data item of
           [old_id] \<Rightarrow>
             and_then (on_builder (assign_id old_id)) (\<lambda>new_id.
             and_then (write_byte (item_header item)) (\<lambda>_. write_byte new_id)) c
         | _ \<Rightarrow> (Inl UnsupportedReportId, c))
      else
        and_then (on_writer (writer_push_slice (item_raw item))) (\<lambda>_ c.
          if implicit \<and> \<not> report_id_inserted c \<and> is_collection (item_header item) then
            and_then (on_builder (record_id 0)) (\<lambda>inserted_id.
            and_then (write_byte REPORT_ID_HEADER_SIZE1) (\<lambda>_.
            and_then (write_byte inserted_id) (\<lambda>_. modify (report_id_inserted_update (\<lambda>_. True))))) c
          else (Inr (), c)) c)"

definition combine_input :: "nat \<times> HidReportDescriptor \<Rightarrow> (Combining, HidDescriptorError, unit) action" where
  "combine_input = (\<lambda>(input_index, input).
     and_then (on_builder (begin_input input_index)) (\<lambda>_.
     and_then (write_byte PUSH_HEADER) (\<lambda>_.
     and_then (modify (report_id_inserted_update (\<lambda>_. False))) (\<lambda>_.
     and_then (for_items (combine_item (report_ids_implicit input)) (descriptor_bytes input)) (\<lambda>_.
     write_byte POP_HEADER)))))"

record ReportIdMap =
  remaps :: "u8 list"
  map_blocks :: BlockBoundaries

definition MAX_DESCRIPTOR_FRAMING_OVERHEAD :: nat where "MAX_DESCRIPTOR_FRAMING_OVERHEAD = 4"

definition expected_size :: "HidReportDescriptor list \<Rightarrow> nat" where
  "expected_size inputs =
     sum_list (map (\<lambda>i. length (descriptor_bytes i)) inputs) + length inputs * MAX_DESCRIPTOR_FRAMING_OVERHEAD"

definition combine ::
  "nat \<Rightarrow> HidReportDescriptor list \<Rightarrow> u8 list \<Rightarrow> (HidDescriptorError, HidReportDescriptor \<times> ReportIdMap) result" where
  "combine capacity inputs out =
     (if length out < expected_size inputs then Inl (OutputBufferTooSmall (expected_size inputs))
      else case and_then (for_each combine_input (enumerate 0 inputs)) (\<lambda>_. on_builder builder_finish)
                  \<lparr>writer = \<lparr>out_buf = out, out_pos = 0\<rparr>, builder = builder_new capacity (length inputs),
                   report_id_inserted = False\<rparr> of
             (Inl e, _) \<Rightarrow> Inl e
           | (Inr _, c) \<Rightarrow>
               (case descriptor_new (take (out_pos (writer c)) (out_buf (writer c))) of
                  Inl e \<Rightarrow> Inl e
                | Inr d \<Rightarrow> Inr (d, \<lparr>remaps = b_remaps (builder c), map_blocks = b_blocks (builder c)\<rparr>)))"

subsection \<open>Lookups\<close>

definition map_len :: "ReportIdMap \<Rightarrow> nat" where "map_len m = unat (block_total (map_blocks m))"

definition index_of :: "ReportIdMap \<Rightarrow> u8 \<Rightarrow> nat option" where
  "index_of m h = (if unat h = 0 then None else if unat h - 1 < map_len m then Some (unat h - 1) else None)"

text \<open>\<open>ReportIdMap::route\<close> and \<open>host_id\<close>.\<close>

definition route_report :: "ReportIdMap \<Rightarrow> u8 \<Rightarrow> (nat \<times> u8) option" where
  "route_report m h =
     Option.bind (index_of m h) (\<lambda>index.
     Option.bind (owner_of (map_blocks m) index) (\<lambda>owner.
     if index < length (remaps m) then Some (owner, remaps m ! index) else None))"

definition host_id :: "ReportIdMap \<Rightarrow> nat \<Rightarrow> u8 \<Rightarrow> u8 option" where
  "host_id m owner native_id =
     Option.bind (block_bounds (map_blocks m) owner) (\<lambda>(start, end_index).
     Option.bind (if start \<le> end_index then get_slice (remaps m) start end_index else None) (\<lambda>block.
     Option.bind (position (\<lambda>i. i = native_id) block) (\<lambda>offset. u8_try_from (start + offset + 1))))"

end
