(* ===== verification/Hid_Descriptor_Props.thy ===== *)
theory Hid_Descriptor_Props
  imports Hid_Descriptor
begin

text \<open>
  What the iterator over a report descriptor yields: well-formed items whose raw bytes are the descriptor,
  and the items of a concatenation of well-formed items are these items.
\<close>

definition wf_item :: "DescriptorItem \<Rightarrow> bool" where
  "wf_item i \<longleftrightarrow>
     (if is_long_item (item_header i) then
        length (item_data i) < 256
        \<and> (\<exists>t. item_raw i = item_header i # word_of_nat (length (item_data i)) # t # item_data i)
      else item_raw i = item_header i # item_data i \<and> length (item_data i) = short_item_data_size (item_header i))"

definition raw_bytes :: "DescriptorItem list \<Rightarrow> u8 list" where
  "raw_bytes items = concat (map item_raw items)"

lemma raw_bytes_simps [simp]:
  "raw_bytes [] = []" "raw_bytes (i # items) = item_raw i @ raw_bytes items"
  "raw_bytes (items @ items') = raw_bytes items @ raw_bytes items'"
  by (simp_all add: raw_bytes_def)

lemma next_item_sound:
  assumes "next_item bytes pos = Inr (i, pos')"
  shows "wf_item i" and "item_raw i = take (pos' - pos) (drop pos bytes)"
proof -
  obtain n m where sizes: "item_sizes bytes pos (bytes ! pos) = Some (n, m)" and fits: "pos + n + m \<le> length bytes"
    and i: "i = \<lparr>item_header = bytes ! pos, item_data = take m (drop (pos + n) bytes), item_raw = take (n + m) (drop pos bytes)\<rparr>"
    and pos': "pos' = pos + n + m"
  proof (cases "item_sizes bytes pos (bytes ! pos)")
    case (Some nm)
    obtain n m where nm: "nm = (n, m)" by (cases nm)
    then have "pos + n + m \<le> length bytes" using assms Some by (simp add: next_item_def get_slice_def Let_def split: if_splits)
    then show thesis using assms Some nm by (intro that[of n m]) (auto simp: next_item_def get_slice_def Let_def)
  qed (use assms in \<open>simp add: next_item_def\<close>)
  show "item_raw i = take (pos' - pos) (drop pos bytes)" by (simp add: i pos')
  show "wf_item i"
  proof (cases "is_long_item (bytes ! pos)")
    case True
    then have n: "n = 3" "m = unat (bytes ! (pos + 1))" using sizes by (auto simp: item_sizes_def split: if_splits)
    then have "drop pos bytes = bytes ! pos # bytes ! (pos + 1) # bytes ! (pos + 2) # drop (pos + 3) bytes"
      using fits n(1) Cons_nth_drop_Suc[of pos bytes] Cons_nth_drop_Suc[of "pos + 1" bytes] Cons_nth_drop_Suc[of "pos + 2" bytes]
      by (simp add: numeral_3_eq_3)
    moreover have "length (take m (drop (pos + 3) bytes)) = m" using fits n(1) by simp
    ultimately show ?thesis
      using True n unat_u8_less[of "bytes ! (pos + 1)"] by (simp add: wf_item_def i numeral_3_eq_3)
  next
    case False
    then have "n = 1" "m = short_item_data_size (bytes ! pos)" using sizes by (auto simp: item_sizes_def)
    then show ?thesis using False fits Cons_nth_drop_Suc[of pos bytes] by (simp add: wf_item_def i take_Suc_conv_app_nth flip: take_Suc_Cons)
  qed
qed

lemma items_from_sound:
  assumes "items_from bytes pos = (items, None)"
  shows "raw_bytes items = drop pos bytes \<and> (\<forall>i \<in> set items. wf_item i)"
  using assms
proof (induction bytes pos arbitrary: items rule: items_from.induct)
  case (1 bytes pos)
  show ?case
  proof (cases "length bytes \<le> pos")
    case True
    then show ?thesis using 1(2) by (simp add: items_from.simps[of bytes pos])
  next
    case False
    then obtain i pos' items' where next_ok: "next_item bytes pos = Inr (i, pos')" and rest: "items_from bytes pos' = (items', None)"
      and items: "items = i # items'"
      using 1(2) by (auto simp: items_from.simps[of bytes pos] split: sum.splits prod.splits)
    have "raw_bytes items' = drop pos' bytes \<and> (\<forall>i \<in> set items'. wf_item i)" using 1(1)[OF False next_ok refl rest] .
    moreover have "drop pos bytes = take (pos' - pos) (drop pos bytes) @ drop pos' bytes"
      using next_item_pos[OF next_ok] by (metis append_take_drop_id drop_drop le_add_diff_inverse2 less_imp_le)
    ultimately show ?thesis using next_item_sound[OF next_ok] by (simp add: items)
  qed
qed

lemma next_item_complete:
  assumes "wf_item i"
  shows "next_item (pre @ item_raw i @ rest) (length pre) = Inr (i, length pre + length (item_raw i))"
proof (cases "is_long_item (item_header i)")
  case True
  then obtain t where "item_raw i = item_header i # word_of_nat (length (item_data i)) # t # item_data i" "length (item_data i) < 256"
    using assms by (auto simp: wf_item_def)
  then show ?thesis
    using True by (cases i) (simp add: next_item_def item_sizes_def get_slice_def nth_append unat_of_nat take_bit_nat_eq_self numeral_3_eq_3)
next
  case False
  then have "item_raw i = item_header i # item_data i" "length (item_data i) = short_item_data_size (item_header i)"
    using assms by (auto simp: wf_item_def)
  then show ?thesis using False by (cases i) (simp add: next_item_def item_sizes_def get_slice_def)
qed

lemma items_from_complete:
  assumes "\<forall>i \<in> set items. wf_item i"
  shows "items_from (pre @ raw_bytes items) (length pre) = (items, None)"
  using assms
proof (induction items arbitrary: pre)
  case Nil
  then show ?case by (simp add: items_from.simps)
next
  case (Cons i items)
  then have "item_raw i \<noteq> []" by (auto simp: wf_item_def split: if_splits)
  then show ?case
    using Cons next_item_complete[of i pre "raw_bytes items"] Cons(1)[of "pre @ item_raw i"]
    by (subst items_from.simps) simp
qed

lemma descriptor_items_sound:
  "descriptor_items bytes = (items, None) \<Longrightarrow> raw_bytes items = bytes \<and> (\<forall>i \<in> set items. wf_item i)"
  using items_from_sound[of bytes 0 items] by (simp add: descriptor_items_def)

lemma descriptor_items_complete:
  "\<forall>i \<in> set items. wf_item i \<Longrightarrow> descriptor_items (raw_bytes items) = (items, None)"
  using items_from_complete[of items "[]"] by (simp add: descriptor_items_def)

lemma for_each_append: "for_each f (xs @ ys) = and_then (for_each f xs) (\<lambda>_. for_each f ys)"
  by (rule ext, induction xs) (auto simp: and_then_def split: prod.split sum.split)

lemma for_items_ok:
  "for_items f bytes s = (Inr u, t) \<longleftrightarrow> (\<exists>items. descriptor_items bytes = (items, None) \<and> for_each f items s = (Inr (), t))"
  by (cases "descriptor_items bytes") (auto simp: for_items_def and_then_ok_iff split: option.split)

text \<open>The items that an accepted descriptor has, and what parsing them gives.\<close>

lemma descriptor_new_ok:
  "descriptor_new bytes = Inr d \<longleftrightarrow>
     (\<exists>items p. raw_bytes items = bytes \<and> (\<forall>i \<in> set items. wf_item i) \<and> for_each parse_item items parse_start = (Inr (), p)
       \<and> d = \<lparr>descriptor_bytes = bytes, report_ids_implicit = ids_implicit p, max_report_sizes = sizes_of (reports p)\<rparr>)"
proof -
  have "for_items parse_item bytes parse_start = (Inr (), p) \<longleftrightarrow>
      (\<exists>items. raw_bytes items = bytes \<and> (\<forall>i \<in> set items. wf_item i) \<and> for_each parse_item items parse_start = (Inr (), p))" for p
    unfolding for_items_ok using descriptor_items_sound descriptor_items_complete by blast
  moreover have "descriptor_new bytes = Inr d \<longleftrightarrow> (\<exists>p. for_items parse_item bytes parse_start = (Inr (), p)
      \<and> d = \<lparr>descriptor_bytes = bytes, report_ids_implicit = ids_implicit p, max_report_sizes = sizes_of (reports p)\<rparr>)"
    by (cases "for_items parse_item bytes parse_start") (auto simp: descriptor_new_def split: sum.splits)
  ultimately show ?thesis by blast
qed

subsection \<open>The effects of items\<close>

text \<open>What an item does to the parser, whatever its state.\<close>

datatype item_effect =
    Skip | SetSize u32 | SetCount u32 | SetId u8 | PushState | PopState | AddData u8 | Malformed HidDescriptorError

definition effect_of :: "DescriptorItem \<Rightarrow> item_effect" where
  "effect_of i =
     (let tag = item_tag (item_header i)
      in if is_long_item (item_header i) then Skip
         else case item_type (item_header i) of
                MainItem \<Rightarrow> AddData tag
              | GlobalItem \<Rightarrow>
                  if tag = TAG_REPORT_SIZE then (case try_value_as_int i of None \<Rightarrow> Malformed TruncatedItem | Some v \<Rightarrow> SetSize v)
                  else if tag = TAG_REPORT_COUNT then (case try_value_as_int i of None \<Rightarrow> Malformed TruncatedItem | Some v \<Rightarrow> SetCount v)
                  else if tag = TAG_REPORT_ID then (case item_data i of [n] \<Rightarrow> SetId n | _ \<Rightarrow> Malformed UnsupportedReportId)
                  else if tag = TAG_PUSH then PushState
                  else if tag = TAG_POP then PopState
                  else Skip
              | _ \<Rightarrow> Skip)"

fun apply_effect :: "item_effect \<Rightarrow> (DescriptorParse, HidDescriptorError, unit) action" where
  "apply_effect Skip p = (Inr (), p)"
| "apply_effect (SetSize v) p = (Inr (), p\<lparr>global_state := (global_state p)\<lparr>report_size_bits := v\<rparr>\<rparr>)"
| "apply_effect (SetCount v) p = (Inr (), p\<lparr>global_state := (global_state p)\<lparr>report_count := v\<rparr>\<rparr>)"
| "apply_effect (SetId n) p = (Inr (), p\<lparr>ids_implicit := False, global_state := (global_state p)\<lparr>report_id := n\<rparr>\<rparr>)"
| "apply_effect PushState p =
     (if length (global_stack p) < MAX_PUSH_POP_STACK_DEPTH
      then (Inr (), p\<lparr>global_stack := global_state p # global_stack p\<rparr>) else (Inl PushPopStackOverflow, p))"
| "apply_effect PopState p =
     (case global_stack p of [] \<Rightarrow> (Inl UnbalancedPop, p) | g # gs \<Rightarrow> (Inr (), p\<lparr>global_state := g, global_stack := gs\<rparr>))"
| "apply_effect (AddData tag) p =
     (Inr (), p\<lparr>reports := (reports p)(report_id (global_state p) :=
        add_bits tag (sat_mul (report_size_bits (global_state p)) (report_count (global_state p)))
          (reports p (report_id (global_state p))))\<rparr>)"
| "apply_effect (Malformed e) p = (Inl e, p)"

lemma parse_item_effect: "parse_item i p = apply_effect (effect_of i) p"
  by (simp add: parse_item_def effect_of_def global_item_def main_item_def set_global_def Let_def
      split: HidItemType.split option.split list.split)

lemma long_header_is_reserved: "is_long_item h \<Longrightarrow> item_type h = ReservedItem"
  by (simp add: is_long_item_def LONG_ITEM_HEADER_def item_type_def)

lemma effect_of_id: "is_report_id (item_header i) \<longleftrightarrow> (\<exists>n. effect_of i = SetId n) \<or> effect_of i = Malformed UnsupportedReportId"
  by (auto simp: effect_of_def is_report_id_def tag_defs Let_def dest: long_header_is_reserved
      split: HidItemType.splits option.splits list.splits if_splits)

lemma effect_of_id_data: "effect_of i = SetId n \<longleftrightarrow> is_report_id (item_header i) \<and> item_data i = [n]"
  by (auto simp: effect_of_def is_report_id_def tag_defs Let_def dest: long_header_is_reserved
      split: HidItemType.splits option.splits list.splits if_splits)

end
