(* ===== verification/Hid_Combine_Props.thy ===== *)
theory Hid_Combine_Props
  imports Hid_Combine Hid_Descriptor_Props
begin

text \<open>
  What combining report descriptors does: its specification renumbers lists of items, and the loops over
  the writer and the builder implement it. The report IDs that the host sees and the pairs of a device and
  one of its own IDs are in bijection, and each report keeps its size.
\<close>

subsection \<open>Renumbering\<close>

definition host_of :: "nat \<Rightarrow> u8 list \<Rightarrow> u8 \<Rightarrow> u8" where
  "host_of s ids n = word_of_nat (s + the (position (\<lambda>i. i = n) (drop s ids)) + 1)"

definition id_item :: "u8 \<Rightarrow> u8 \<Rightarrow> DescriptorItem" where
  "id_item header n = \<lparr>item_header = header, item_data = [n], item_raw = [header, n]\<rparr>"

definition plain_item :: "u8 \<Rightarrow> DescriptorItem" where
  "plain_item header = \<lparr>item_header = header, item_data = [], item_raw = [header]\<rparr>"

text \<open>The items of one input whose block of IDs starts at \<open>s\<close>, after the IDs given out so far.\<close>

fun renumber :: "bool \<Rightarrow> nat \<Rightarrow> u8 list \<Rightarrow> DescriptorItem list \<Rightarrow> DescriptorItem list \<times> u8 list" where
  "renumber implicit s ids [] = ([], ids)"
| "renumber implicit s ids (i # items) =
     (if is_report_id (item_header i) then
        (let n = hd (item_data i); ids = (if n \<in> set (drop s ids) then ids else ids @ [n]); (js, ids') = renumber implicit s ids items
         in (id_item (item_header i) (host_of s ids n) # js, ids'))
      else if implicit \<and> is_collection (item_header i) then
        (let (js, ids') = renumber False s (ids @ [0]) items
         in (i # id_item REPORT_ID_HEADER_SIZE1 (word_of_nat (length ids + 1)) # js, ids'))
      else (let (js, ids') = renumber implicit s ids items in (i # js, ids')))"

fun renumber_all :: "u8 list \<Rightarrow> (bool \<times> DescriptorItem list) list \<Rightarrow> DescriptorItem list \<times> nat list \<times> u8 list" where
  "renumber_all ids [] = ([], [], ids)"
| "renumber_all ids ((implicit, items) # inputs) =
     (let (js, ids') = renumber implicit (length ids) ids items; (ks, starts, ids'') = renumber_all ids' inputs
      in (plain_item PUSH_HEADER # js @ plain_item POP_HEADER # ks, length ids # starts, ids''))"

text \<open>IDs are only added, and those of one input are distinct.\<close>

lemma renumber_prefix: "s \<le> length ids \<Longrightarrow> \<exists>new. snd (renumber implicit s ids items) = ids @ new"
proof (induction implicit s ids items rule: renumber.induct)
  case (2 implicit s ids i items)
  then show ?case by (fastforce simp: Let_def case_prod_beta le_Suc_eq split: if_splits)
qed simp

lemma renumber_length: "s \<le> length ids \<Longrightarrow> length ids \<le> length (snd (renumber implicit s ids items))"
  using renumber_prefix[of s ids implicit items] by auto

lemma renumber_all_prefix: "\<exists>new. snd (snd (renumber_all ids inputs)) = ids @ new"
proof (induction ids inputs rule: renumber_all.induct)
  case (2 ids implicit items inputs)
  obtain js ids' where r: "renumber implicit (length ids) ids items = (js, ids')" by (cases "renumber implicit (length ids) ids items")
  with renumber_prefix[of "length ids" ids implicit items] obtain new where "ids' = ids @ new" by auto
  with 2[OF r[symmetric] refl] show ?case by (auto simp: r case_prod_beta)
qed simp

subsection \<open>The writer and the builder implement it\<close>

definition written :: "nat \<Rightarrow> u8 list \<Rightarrow> BoundedWriter \<Rightarrow> bool" where
  "written n bs w \<longleftrightarrow> length (out_buf w) = n \<and> out_pos w = length bs \<and> length bs \<le> n \<and> take (length bs) (out_buf w) = bs"

lemma writer_push_written:
  "written n bs w \<Longrightarrow> length bs < n \<Longrightarrow> \<exists>w'. writer_push b w = (Inr (), w') \<and> written n (bs @ [b]) w'"
  by (auto simp: written_def writer_push_def take_Suc_conv_app_nth)

lemma writer_push_slice_written:
  "written n bs w \<Longrightarrow> length bs + length cs \<le> n \<Longrightarrow> \<exists>w'. writer_push_slice cs w = (Inr (), w') \<and> written n (bs @ cs) w'"
  by (auto simp: written_def writer_push_slice_def Let_def)

text \<open>The builder with \<open>cap\<close> slots has given out \<open>ids\<close>, the current input's from \<open>s\<close> on.\<close>

definition built :: "nat \<Rightarrow> BlockBoundaries \<Rightarrow> nat \<Rightarrow> u8 list \<Rightarrow> ReportIdMapBuilder \<Rightarrow> bool" where
  "built cap blocks s ids b \<longleftrightarrow>
     length (b_remaps b) = cap \<and> b_blocks b = blocks \<and> b_input_start b = s \<and> s \<le> length ids
     \<and> b_count b = length ids \<and> length ids \<le> cap \<and> length ids \<le> 255 \<and> take (length ids) (b_remaps b) = ids"

lemma position_None [simp]: "position P xs = None \<longleftrightarrow> (\<forall>x \<in> set xs. \<not> P x)"
  by (induction xs) auto

lemma position_Some: "position P xs = Some i \<longleftrightarrow> i < length xs \<and> P (xs ! i) \<and> (\<forall>j < i. \<not> P (xs ! j))"
proof (induction xs arbitrary: i)
  case (Cons x xs)
  show ?case
  proof (cases i)
    case (Suc k)
    then show ?thesis using Cons[of k] by (auto simp: less_Suc_eq_0_disj)
  qed auto
qed simp

lemma position_exists: "x \<in> set xs \<Longrightarrow> \<exists>i < length xs. position (\<lambda>y. y = x) xs = Some i \<and> xs ! i = x"
  by (cases "position (\<lambda>y. y = x) xs") (auto simp: position_Some)

lemma assigned_built:
  assumes "built cap blocks s ids b"
  shows "assigned n b = (if n \<in> set (drop s ids) then Some (host_of s ids n) else None)"
proof -
  have block: "get_slice (b_remaps b) s (length ids) = Some (drop s ids)"
    using assms by (auto simp: built_def get_slice_def take_drop[symmetric]) (metis drop_take)
  have len: "length ids \<le> 255" using assms by (simp add: built_def)
  show ?thesis
  proof (cases "n \<in> set (drop s ids)")
    case True
    then obtain i where "i < length (drop s ids)" "position (\<lambda>y. y = n) (drop s ids) = Some i" using position_exists by metis
    then show ?thesis
      using True assms block len by (auto simp: assigned_def built_def host_of_def u8_try_from_def)
  next
    case False
    then have none: "position (\<lambda>y. y = n) (drop s ids) = None" by auto
    show ?thesis using False assms block by (simp add: assigned_def built_def none del: position_None)
  qed
qed

lemma record_id_built:
  assumes "built cap blocks s ids b"
  shows "if length ids < cap \<and> length ids < 255
    then \<exists>b'. record_id n b = (Inr (word_of_nat (length ids + 1)), b') \<and> built cap blocks s (ids @ [n]) b'
    else record_id n b = (Inl TooManyReportIds, b)"
  using assms by (auto simp: built_def record_id_def u8_try_from_def take_Suc_conv_app_nth)

lemma host_of_snoc: "s \<le> length ids \<Longrightarrow> n \<notin> set (drop s ids) \<Longrightarrow> host_of s (ids @ [n]) n = word_of_nat (length ids + 1)"
proof -
  assume "s \<le> length ids" and new: "n \<notin> set (drop s ids)"
  then have "position (\<lambda>i. i = n) (drop s ids @ [n]) = Some (length ids - s)"
    by (subst position_Some) (auto simp: nth_append in_set_conv_nth)
  then show ?thesis using \<open>s \<le> length ids\<close> by (simp add: host_of_def)
qed

lemma assign_id_built:
  fixes n :: u8
  assumes "built cap blocks s ids b"
  defines "ids' \<equiv> if n \<in> set (drop s ids) then ids else ids @ [n]"
  shows "if length ids' \<le> cap \<and> length ids' \<le> 255
    then \<exists>b'. assign_id n b = (Inr (host_of s ids' n), b') \<and> built cap blocks s ids' b'
    else assign_id n b = (Inl TooManyReportIds, b)"
proof (cases "n \<in> set (drop s ids)")
  case True
  then show ?thesis using assms assigned_built[OF assms(1), of n] by (auto simp: assign_id_def built_def)
next
  case False
  have "s \<le> length ids" using assms(1) by (simp add: built_def)
  with False show ?thesis
    using record_id_built[OF assms(1), of n] assigned_built[OF assms(1), of n]
    by (auto simp: assign_id_def ids'_def host_of_snoc split: if_splits)
qed

lemma on_writer_ok: "m (writer c) = (r, w) \<Longrightarrow> on_writer m c = (r, c\<lparr>writer := w\<rparr>)"
  by (simp add: on_writer_def)

lemma on_builder_ok: "m (builder c) = (r, b) \<Longrightarrow> on_builder m c = (r, c\<lparr>builder := b\<rparr>)"
  by (simp add: on_builder_def)

lemma write_byte_written:
  assumes "written n bs (writer c)" and "length bs < n"
  shows "\<exists>w. write_byte b c = (Inr (), c\<lparr>writer := w\<rparr>) \<and> written n (bs @ [b]) w"
  using writer_push_written[OF assms, of b] by (auto simp: write_byte_def on_writer_def)

text \<open>One item: what it becomes, and the IDs afterwards.\<close>

definition item_ok :: "DescriptorItem \<Rightarrow> bool" where
  "item_ok i \<longleftrightarrow> (is_report_id (item_header i) \<longrightarrow> length (item_data i) = 1)"

lemma combine_id_item:
  assumes "written n bs (writer c)" and "built cap blocks s ids (builder c)" and "is_report_id (item_header i)"
    and "item_data i = [old]" and "length bs + 2 \<le> n"
  defines "ids' \<equiv> if old \<in> set (drop s ids) then ids else ids @ [old]"
  shows "if length ids' \<le> cap \<and> length ids' \<le> 255
    then \<exists>w b. combine_item implicit i c = (Inr (), c\<lparr>builder := b, writer := w\<rparr>)
      \<and> written n (bs @ [item_header i, host_of s ids' old]) w \<and> built cap blocks s ids' b
    else \<exists>c'. combine_item implicit i c = (Inl TooManyReportIds, c')"
proof -
  note assign = assign_id_built[OF assms(2), of old, folded ids'_def]
  show ?thesis
  proof (cases "length ids' \<le> cap \<and> length ids' \<le> 255")
    case True
    then obtain b where b: "assign_id old (builder c) = (Inr (host_of s ids' old), b)" "built cap blocks s ids' b"
      using assign by auto
    obtain w where w: "write_byte (item_header i) (c\<lparr>builder := b\<rparr>) = (Inr (), c\<lparr>builder := b, writer := w\<rparr>)"
      "written n (bs @ [item_header i]) w"
      using write_byte_written[of n bs "c\<lparr>builder := b\<rparr>" "item_header i"] assms(1,5) by auto
    obtain w' where w': "write_byte (host_of s ids' old) (c\<lparr>builder := b, writer := w\<rparr>) = (Inr (), c\<lparr>builder := b, writer := w'\<rparr>)"
      "written n (bs @ [item_header i, host_of s ids' old]) w'"
      using write_byte_written[of n "bs @ [item_header i]" "c\<lparr>builder := b, writer := w\<rparr>"] w(2) assms(5) by auto
    show ?thesis
      using True b w(1) w' assms(3,4) by (auto simp: combine_item_def on_builder_ok)
  next
    case False
    then show ?thesis using assign assms(3,4) by (auto simp: combine_item_def on_builder_ok)
  qed
qed

lemma combine_collection:
  assumes "written n bs (writer c)" and "built cap blocks s ids (builder c)" and "\<not> is_report_id (item_header i)"
    and "is_collection (item_header i)" and "\<not> report_id_inserted c" and "length bs + length (item_raw i) + 2 \<le> n"
  shows "if length ids < cap \<and> length ids < 255
    then \<exists>w b. combine_item True i c = (Inr (), c\<lparr>builder := b, writer := w, report_id_inserted := True\<rparr>)
      \<and> written n (bs @ item_raw i @ [REPORT_ID_HEADER_SIZE1, word_of_nat (length ids + 1)]) w \<and> built cap blocks s (ids @ [0]) b
    else \<exists>c'. combine_item True i c = (Inl TooManyReportIds, c')"
proof -
  obtain w where w: "writer_push_slice (item_raw i) (writer c) = (Inr (), w)" "written n (bs @ item_raw i) w"
    using writer_push_slice_written[OF assms(1), of "item_raw i"] assms(6) by auto
  note rec = record_id_built[OF assms(2), of 0]
  show ?thesis
  proof (cases "length ids < cap \<and> length ids < 255")
    case True
    then obtain b where b: "record_id 0 (builder c) = (Inr (word_of_nat (length ids + 1)), b)" "built cap blocks s (ids @ [0]) b"
      using rec by auto
    obtain v where v: "write_byte REPORT_ID_HEADER_SIZE1 (c\<lparr>writer := w, builder := b\<rparr>) = (Inr (), c\<lparr>builder := b, writer := v\<rparr>)"
      "written n (bs @ item_raw i @ [REPORT_ID_HEADER_SIZE1]) v"
      using write_byte_written[of n "bs @ item_raw i" "c\<lparr>writer := w, builder := b\<rparr>" REPORT_ID_HEADER_SIZE1] w(2) assms(6)
      by auto
    obtain v' where v': "write_byte (word_of_nat (length ids + 1)) (c\<lparr>builder := b, writer := v\<rparr>)
        = (Inr (), c\<lparr>builder := b, writer := v'\<rparr>)"
      "written n (bs @ item_raw i @ [REPORT_ID_HEADER_SIZE1, word_of_nat (length ids + 1)]) v'"
      using write_byte_written[of n "bs @ item_raw i @ [REPORT_ID_HEADER_SIZE1]" "c\<lparr>builder := b, writer := v\<rparr>"] v(2) assms(6)
      by auto
    have "combine_item True i c = (Inr (), c\<lparr>builder := b, writer := v', report_id_inserted := True\<rparr>)"
      using assms(3-5) w(1) b(1) v(1) v'(1) by (simp add: combine_item_def on_writer_ok on_builder_ok del: framing_headers)
    then show ?thesis unfolding if_P[OF True] using v'(2) b(2) by blast
  next
    case False
    then show ?thesis using rec assms(3-5) w(1) by (auto simp: combine_item_def on_writer_ok on_builder_ok)
  qed
qed

lemma combine_other:
  assumes "written n bs (writer c)" and "\<not> is_report_id (item_header i)"
    and "\<not> (implicit \<and> \<not> report_id_inserted c \<and> is_collection (item_header i))" and "length bs + length (item_raw i) \<le> n"
  shows "\<exists>w. combine_item implicit i c = (Inr (), c\<lparr>writer := w\<rparr>) \<and> written n (bs @ item_raw i) w"
proof -
  obtain w where "writer_push_slice (item_raw i) (writer c) = (Inr (), w)" "written n (bs @ item_raw i) w"
    using writer_push_slice_written[OF assms(1)] assms(4) by blast
  then show ?thesis using assms(2,3) by (auto simp: combine_item_def on_writer_ok)
qed

text \<open>All items of one input.\<close>

definition combined_to ::
  "nat \<Rightarrow> nat \<Rightarrow> BlockBoundaries \<Rightarrow> nat \<Rightarrow> u8 list \<Rightarrow> u8 list
     \<Rightarrow> ((HidDescriptorError, unit) result \<times> Combining) \<Rightarrow> bool" where
  "combined_to n cap blocks s bs ids rc \<longleftrightarrow>
     (if length ids \<le> cap \<and> length ids \<le> 255
      then fst rc = Inr () \<and> written n bs (writer (snd rc)) \<and> built cap blocks s ids (builder (snd rc))
      else fst rc = Inl TooManyReportIds)"

lemma combine_items:
  assumes "written n bs (writer c)" and "built cap blocks s ids (builder c)" and "\<forall>i \<in> set items. wf_item i \<and> item_ok i"
    and "renumber (implicit \<and> \<not> report_id_inserted c) s ids items = (js, ids')" and "length bs + length (raw_bytes js) \<le> n"
  shows "combined_to n cap blocks s (bs @ raw_bytes js) ids' (for_each (combine_item implicit) items c)"
  using assms
proof (induction items arbitrary: bs c ids js)
  case Nil
  then show ?case by (auto simp: combined_to_def built_def)
next
  case (Cons i items)
  let ?imp = "implicit \<and> \<not> report_id_inserted c"
  have s: "s \<le> length ids" using Cons.prems(2) by (simp add: built_def)
  have ok_rest: "\<forall>i \<in> set items. wf_item i \<and> item_ok i" using Cons.prems(3) by simp
  consider (ident) "is_report_id (item_header i)" | (coll) "\<not> is_report_id (item_header i)" "?imp" "is_collection (item_header i)"
    | (other) "\<not> is_report_id (item_header i)" "\<not> (?imp \<and> is_collection (item_header i))"
    by blast
  then show ?case
  proof cases
    case ident
    have "length (item_data i) = 1" using Cons.prems(3) ident by (simp add: item_ok_def)
    then obtain old where old: "item_data i = [old]" by (auto simp: length_Suc_conv)
    define ids1 where "ids1 = (if old \<in> set (drop s ids) then ids else ids @ [old])"
    obtain ks where ks: "renumber ?imp s ids1 items = (ks, ids')" "js = id_item (item_header i) (host_of s ids1 old) # ks"
      using Cons.prems(4) ident old by (auto simp: ids1_def Let_def split: prod.splits)
    have room: "length bs + 2 \<le> n" and room': "length (bs @ [item_header i, host_of s ids1 old]) + length (raw_bytes ks) \<le> n"
      using Cons.prems(5) by (simp_all add: ks(2) id_item_def)
    note step = combine_id_item[OF Cons.prems(1,2) ident old room, of implicit, folded ids1_def]
    show ?thesis
    proof (cases "length ids1 \<le> cap \<and> length ids1 \<le> 255")
      case True
      then obtain w b where wb: "combine_item implicit i c = (Inr (), c\<lparr>builder := b, writer := w\<rparr>)"
        "written n (bs @ [item_header i, host_of s ids1 old]) w" "built cap blocks s ids1 b"
        using step by auto
      have "combined_to n cap blocks s ((bs @ [item_header i, host_of s ids1 old]) @ raw_bytes ks) ids'
          (for_each (combine_item implicit) items (c\<lparr>builder := b, writer := w\<rparr>))"
        using wb(2,3) ks(1) room' by (intro Cons.IH[OF _ _ ok_rest]) simp_all
      then show ?thesis using wb(1) by (simp add: ks(2) id_item_def)
    next
      case False
      then obtain c' where c': "combine_item implicit i c = (Inl TooManyReportIds, c')" using step by auto
      have "length ids1 \<le> length ids'" using renumber_length[of s ids1 ?imp items] s ks(1) by (simp add: ids1_def)
      then show ?thesis using False c' by (auto simp: combined_to_def)
    qed
  next
    case coll
    obtain ks where ks: "renumber False s (ids @ [0]) items = (ks, ids')"
      "js = i # id_item REPORT_ID_HEADER_SIZE1 (word_of_nat (length ids + 1)) # ks"
      using Cons.prems(4) coll by (auto simp: Let_def split: prod.splits)
    let ?bs = "bs @ item_raw i @ [REPORT_ID_HEADER_SIZE1, word_of_nat (length ids + 1)]"
    have room: "length bs + length (item_raw i) + 2 \<le> n" and room': "length ?bs + length (raw_bytes ks) \<le> n"
      using Cons.prems(5) by (simp_all add: ks(2) id_item_def)
    have inserted: "\<not> report_id_inserted c" and imp: "implicit" using coll by auto
    note step = combine_collection[OF Cons.prems(1,2) coll(1,3) inserted room]
    show ?thesis
    proof (cases "length ids < cap \<and> length ids < 255")
      case True
      then obtain w b where wb: "combine_item implicit i c = (Inr (), c\<lparr>builder := b, writer := w, report_id_inserted := True\<rparr>)"
        "written n ?bs w" "built cap blocks s (ids @ [0]) b"
        using step imp by (auto simp del: framing_headers)
      have "combined_to n cap blocks s (?bs @ raw_bytes ks) ids'
          (for_each (combine_item implicit) items (c\<lparr>builder := b, writer := w, report_id_inserted := True\<rparr>))"
        using wb(2,3) ks(1) room' by (intro Cons.IH[OF _ _ ok_rest]) simp_all
      then show ?thesis using wb(1) by (simp add: ks(2) id_item_def)
    next
      case False
      then obtain c' where c': "combine_item implicit i c = (Inl TooManyReportIds, c')" using step imp by auto
      have "length (ids @ [0]) \<le> length ids'" using renumber_length[of s "ids @ [0]" False items] s ks(1) by simp
      then show ?thesis using False c' by (auto simp: combined_to_def)
    qed
  next
    case other
    obtain ks where ks: "renumber ?imp s ids items = (ks, ids')" "js = i # ks"
      using Cons.prems(4) other by (auto simp: Let_def split: prod.splits)
    have room: "length bs + length (item_raw i) \<le> n" and room': "length (bs @ item_raw i) + length (raw_bytes ks) \<le> n"
      using Cons.prems(5) by (simp_all add: ks(2))
    obtain w where w: "combine_item implicit i c = (Inr (), c\<lparr>writer := w\<rparr>)" "written n (bs @ item_raw i) w"
      using combine_other[OF Cons.prems(1) other(1) _ room, of implicit] other(2) by auto
    have "combined_to n cap blocks s ((bs @ item_raw i) @ raw_bytes ks) ids' (for_each (combine_item implicit) items (c\<lparr>writer := w\<rparr>))"
      using w(2) Cons.prems(2) ks(1) room' by (intro Cons.IH[OF _ _ ok_rest]) simp_all
    then show ?thesis using w(1) by (simp add: ks(2))
  qed
qed

text \<open>Descriptors that exist have been accepted by \<open>new\<close>.\<close>

definition accepted :: "HidReportDescriptor \<Rightarrow> bool" where
  "accepted d \<longleftrightarrow> descriptor_new (descriptor_bytes d) = Inr d"

definition items_of :: "HidReportDescriptor \<Rightarrow> DescriptorItem list" where
  "items_of d = fst (descriptor_items (descriptor_bytes d))"

lemma parse_item_ok: "parse_item i p = (Inr (), q) \<Longrightarrow> item_ok i"
  using effect_of_id[of i] effect_of_id_data[of i] by (auto simp: parse_item_effect item_ok_def)

lemma parse_items_ok: "for_each parse_item items p = (Inr (), q) \<Longrightarrow> i \<in> set items \<Longrightarrow> item_ok i"
  by (induction items arbitrary: p) (auto simp: and_then_ok_iff dest: parse_item_ok)

lemma accepted_items:
  assumes "accepted d"
  shows "descriptor_items (descriptor_bytes d) = (items_of d, None)" and "\<forall>i \<in> set (items_of d). wf_item i \<and> item_ok i"
    and "raw_bytes (items_of d) = descriptor_bytes d"
    and "\<exists>p. for_each parse_item (items_of d) parse_start = (Inr (), p) \<and> report_ids_implicit d = ids_implicit p
      \<and> max_report_sizes d = sizes_of (reports p)"
proof -
  obtain items p where items: "raw_bytes items = descriptor_bytes d" "\<forall>i \<in> set items. wf_item i"
    and p: "for_each parse_item items parse_start = (Inr (), p)"
    and d: "d = \<lparr>descriptor_bytes = descriptor_bytes d, report_ids_implicit = ids_implicit p, max_report_sizes = sizes_of (reports p)\<rparr>"
    using assms unfolding accepted_def descriptor_new_ok by blast
  have "descriptor_items (descriptor_bytes d) = (items, None)"
    using descriptor_items_complete[OF items(2)] by (simp add: items(1))
  then have "items_of d = items" by (simp add: items_of_def)
  then show "descriptor_items (descriptor_bytes d) = (items_of d, None)" "raw_bytes (items_of d) = descriptor_bytes d"
    and "\<forall>i \<in> set (items_of d). wf_item i \<and> item_ok i"
    using \<open>descriptor_items (descriptor_bytes d) = (items, None)\<close> items parse_items_ok[OF p] by auto
  have "report_ids_implicit d = ids_implicit p" "max_report_sizes d = sizes_of (reports p)" by (subst d, simp)+
  with p \<open>items_of d = items\<close>
  show "\<exists>p. for_each parse_item (items_of d) parse_start = (Inr (), p) \<and> report_ids_implicit d = ids_implicit p
      \<and> max_report_sizes d = sizes_of (reports p)"
    by blast
qed

lemma begin_input_built:
  assumes "built cap blocks s ids b" and "k < length (block_starts blocks)"
  shows "\<exists>b'. begin_input k b = (Inr (), b')
    \<and> built cap (blocks\<lparr>block_starts := (block_starts blocks)[k := word_of_nat (length ids)]\<rparr>) (length ids) ids b'"
  using assms by (auto simp: begin_input_def built_def set_start_def u8_try_from_def)

lemma combine_input_to:
  assumes "written n bs (writer c)" and "built cap blocks s ids (builder c)" and "k < length (block_starts blocks)"
    and "accepted d" and "renumber (report_ids_implicit d) (length ids) ids (items_of d) = (js, ids')"
    and "length bs + length (raw_bytes js) + 2 \<le> n"
  shows "combined_to n cap (blocks\<lparr>block_starts := (block_starts blocks)[k := word_of_nat (length ids)]\<rparr>) (length ids)
    (bs @ PUSH_HEADER # raw_bytes js @ [POP_HEADER]) ids' (combine_input (k, d) c)"
proof -
  let ?blocks = "blocks\<lparr>block_starts := (block_starts blocks)[k := word_of_nat (length ids)]\<rparr>"
  obtain b where b: "begin_input k (builder c) = (Inr (), b)" "built cap ?blocks (length ids) ids b"
    using begin_input_built[OF assms(2,3)] by blast
  obtain w where w: "write_byte PUSH_HEADER (c\<lparr>builder := b\<rparr>) = (Inr (), c\<lparr>builder := b, writer := w\<rparr>)" "written n (bs @ [PUSH_HEADER]) w"
    using write_byte_written[of n bs "c\<lparr>builder := b\<rparr>" PUSH_HEADER] assms(1,6) by auto
  define c1 where "c1 = c\<lparr>builder := b, writer := w, report_id_inserted := False\<rparr>"
  let ?run = "for_each (combine_item (report_ids_implicit d)) (items_of d) c1"
  have run: "combined_to n cap ?blocks (length ids) ((bs @ [PUSH_HEADER]) @ raw_bytes js) ids' ?run"
    using b(2) w(2) assms(5,6) accepted_items(2)[OF assms(4)] by (intro combine_items) (simp_all add: c1_def)
  have input: "combine_input (k, d) c = and_then (for_each (combine_item (report_ids_implicit d)) (items_of d)) (\<lambda>_. write_byte POP_HEADER) c1"
    using b(1) w(1) accepted_items(1)[OF assms(4)]
    by (simp add: combine_input_def on_builder_ok for_items_def c1_def and_then_def del: framing_headers split: prod.split sum.split)
  show ?thesis
  proof (cases "length ids' \<le> cap \<and> length ids' \<le> 255")
    case True
    then obtain c2 where c2: "?run = (Inr (), c2)" "written n ((bs @ [PUSH_HEADER]) @ raw_bytes js) (writer c2)"
      "built cap ?blocks (length ids) ids' (builder c2)"
      using run by (cases ?run) (auto simp: combined_to_def)
    obtain v where "write_byte POP_HEADER c2 = (Inr (), c2\<lparr>writer := v\<rparr>)"
      "written n (((bs @ [PUSH_HEADER]) @ raw_bytes js) @ [POP_HEADER]) v"
      using write_byte_written[OF c2(2), of POP_HEADER] assms(6) by auto
    then show ?thesis using True c2(1,3) by (simp add: input combined_to_def del: framing_headers)
  next
    case False
    then show ?thesis using run by (cases ?run) (auto simp: input combined_to_def)
  qed
qed

lemma combine_inputs_to:
  assumes "written n bs (writer c)" and "built cap blocks s ids (builder c)" and "k + length ds \<le> length (block_starts blocks)"
    and "\<forall>d \<in> set ds. accepted d" and "renumber_all ids (map (\<lambda>d. (report_ids_implicit d, items_of d)) ds) = (js, starts, ids')"
    and "length bs + length (raw_bytes js) \<le> n"
  shows "\<exists>s'. combined_to n cap
      (blocks\<lparr>block_starts := take k (block_starts blocks) @ map word_of_nat starts @ drop (k + length ds) (block_starts blocks)\<rparr>)
      s' (bs @ raw_bytes js) ids' (for_each combine_input (enumerate k ds) c)"
  using assms
proof (induction ds arbitrary: k bs c blocks s ids js starts)
  case Nil
  then show ?case by (intro exI[of _ s]) (auto simp: combined_to_def built_def)
next
  case (Cons d ds)
  obtain ks ids1 where ks: "renumber (report_ids_implicit d) (length ids) ids (items_of d) = (ks, ids1)"
    by (cases "renumber (report_ids_implicit d) (length ids) ids (items_of d)")
  obtain ls starts' where ls: "renumber_all ids1 (map (\<lambda>d. (report_ids_implicit d, items_of d)) ds) = (ls, starts', ids')"
    and js: "js = plain_item PUSH_HEADER # ks @ plain_item POP_HEADER # ls" and starts: "starts = length ids # starts'"
    using Cons.prems(5) ks by (auto split: prod.splits)
  let ?bs = "bs @ PUSH_HEADER # raw_bytes ks @ [POP_HEADER]"
  let ?blocks = "blocks\<lparr>block_starts := (block_starts blocks)[k := word_of_nat (length ids)]\<rparr>"
  have room: "length bs + length (raw_bytes ks) + 2 \<le> n" and room': "length ?bs + length (raw_bytes ls) \<le> n"
    using Cons.prems(6) by (simp_all add: js plain_item_def)
  have bytes: "bs @ raw_bytes js = ?bs @ raw_bytes ls" by (simp add: js plain_item_def)
  have k: "k < length (block_starts blocks)" using Cons.prems(3) by simp
  have "accepted d" using Cons.prems(4) by simp
  from combine_input_to[OF Cons.prems(1,2) k this ks room]
  have step: "combined_to n cap ?blocks (length ids) ?bs ids1 (combine_input (k, d) c)" .
  show ?case
  proof (cases "length ids1 \<le> cap \<and> length ids1 \<le> 255")
    case True
    then obtain c1 where c1: "combine_input (k, d) c = (Inr (), c1)" "written n ?bs (writer c1)" "built cap ?blocks (length ids) ids1 (builder c1)"
      using step by (cases "combine_input (k, d) c") (auto simp: combined_to_def)
    have "Suc k + length ds \<le> length (block_starts ?blocks)" "\<forall>d \<in> set ds. accepted d" using Cons.prems(3,4) by simp_all
    note rest = Cons.IH[OF c1(2,3) this ls room']
    have "take (Suc k) ((block_starts blocks)[k := word_of_nat (length ids)]) = take k (block_starts blocks) @ [word_of_nat (length ids)]"
      using k by (simp add: take_Suc_conv_app_nth)
    moreover have "drop (Suc k + length ds) ((block_starts blocks)[k := word_of_nat (length ids)]) = drop (k + length (d # ds)) (block_starts blocks)"
      by simp
    ultimately show ?thesis using rest unfolding bytes by (simp add: c1(1) starts)
  next
    case False
    then obtain c1 where c1: "combine_input (k, d) c = (Inl TooManyReportIds, c1)"
      using step by (cases "combine_input (k, d) c") (auto simp: combined_to_def)
    have "length ids1 \<le> length ids'"
      using renumber_all_prefix[of ids1 "map (\<lambda>d. (report_ids_implicit d, items_of d)) ds"] ls by auto
    then show ?thesis using False c1 by (auto simp: combined_to_def)
  qed
qed

subsection \<open>Blocks\<close>

text \<open>The block of an input: its IDs in the order of their first declaration, \<open>0\<close> for an input without.\<close>

definition declared :: "bool \<Rightarrow> DescriptorItem list \<Rightarrow> u8 set" where
  "declared implicit items =
     (\<lambda>i. hd (item_data i)) ` {i \<in> set items. is_report_id (item_header i)}
     \<union> (if implicit \<and> (\<exists>i \<in> set items. is_collection (item_header i)) then {0} else {})"

definition without_ids :: "bool \<Rightarrow> DescriptorItem list \<Rightarrow> bool" where
  "without_ids implicit items \<longleftrightarrow> (implicit \<longrightarrow> (\<forall>i \<in> set items. \<not> is_report_id (item_header i)))"

lemma collection_is_no_id: "is_collection h \<Longrightarrow> \<not> is_report_id h"
  by (simp add: is_collection_def is_report_id_def)

lemma renumber_block:
  assumes "s \<le> length ids" and "distinct (drop s ids)" and "without_ids implicit items" and "implicit \<Longrightarrow> drop s ids = []"
  shows "distinct (drop s (snd (renumber implicit s ids items)))
    \<and> set (drop s (snd (renumber implicit s ids items))) = set (drop s ids) \<union> declared implicit items"
  using assms
proof (induction implicit s ids items rule: renumber.induct)
  case (2 implicit s ids i items)
  show ?case
  proof (cases "is_report_id (item_header i)")
    case True
    define ids1 where "ids1 = (if hd (item_data i) \<in> set (drop s ids) then ids else ids @ [hd (item_data i)])"
    have imp: "\<not> implicit" and wo: "without_ids implicit items" using 2(5,6) True by (auto simp: without_ids_def)
    have "s \<le> length ids1" "distinct (drop s ids1)" "set (drop s ids1) = insert (hd (item_data i)) (set (drop s ids))"
      using 2(4,5) by (auto simp: ids1_def)
    with 2(1)[OF True refl ids1_def] imp wo show ?thesis
      using True by (auto simp: Let_def case_prod_beta declared_def ids1_def[symmetric])
  next
    case no_id: False
    show ?thesis
    proof (cases "implicit \<and> is_collection (item_header i)")
      case True
      have "without_ids False items" "set items \<inter> {i. is_report_id (item_header i)} = {}"
        using 2(6) True by (auto simp: without_ids_def)
      with 2(2)[OF no_id True] 2(4,7) True no_id show ?thesis
        by (auto simp: Let_def case_prod_beta declared_def)
    next
      case False
      have "without_ids implicit items" using 2(6) by (auto simp: without_ids_def)
      with 2(3)[OF no_id False] 2(4,5,7) False no_id show ?thesis
        by (auto simp: Let_def case_prod_beta declared_def split: if_splits)
    qed
  qed
qed (simp add: declared_def)

fun starts_of :: "nat \<Rightarrow> u8 list list \<Rightarrow> nat list" where
  "starts_of k [] = []"
| "starts_of k (b # bs) = k # starts_of (k + length b) bs"

lemma renumber_all_blocks:
  assumes "\<forall>(implicit, items) \<in> set inputs. without_ids implicit items"
  shows "\<exists>bss. snd (renumber_all ids inputs) = (starts_of (length ids) bss, ids @ concat bss)
    \<and> list_all2 (\<lambda>b (implicit, items). distinct b \<and> set b = declared implicit items) bss inputs"
  using assms
proof (induction ids inputs rule: renumber_all.induct)
  case (2 ids implicit items inputs)
  obtain js ids' where r: "renumber implicit (length ids) ids items = (js, ids')" by (cases "renumber implicit (length ids) ids items")
  obtain new where new: "ids' = ids @ new" using renumber_prefix[of "length ids" ids implicit items] r by auto
  have "distinct new \<and> set new = declared implicit items"
    using renumber_block[of "length ids" ids implicit items] 2(2) by (simp add: r new)
  moreover obtain bss where "snd (renumber_all ids' inputs) = (starts_of (length ids') bss, ids' @ concat bss)"
    "list_all2 (\<lambda>b (implicit, items). distinct b \<and> set b = declared implicit items) bss inputs"
    using 2(1)[OF r[symmetric] refl] 2(2) by auto
  ultimately show ?case by (intro exI[of _ "new # bss"]) (simp add: r new case_prod_beta)
qed simp

subsection \<open>The map of a combined descriptor\<close>

definition maps_blocks :: "u8 list list \<Rightarrow> ReportIdMap \<Rightarrow> bool" where
  "maps_blocks bss m \<longleftrightarrow>
     length (concat bss) \<le> 255 \<and> length (concat bss) \<le> length (remaps m) \<and> take (length (concat bss)) (remaps m) = concat bss
     \<and> block_starts (map_blocks m) = map word_of_nat (starts_of 0 bss) \<and> unat (block_total (map_blocks m)) = length (concat bss)"

lemma length_starts_of [simp]: "length (starts_of k bss) = length bss"
  by (induction bss arbitrary: k) simp_all

lemma nth_starts_of: "o' < length bss \<Longrightarrow> starts_of k bss ! o' = k + length (concat (take o' bss))"
proof (induction bss arbitrary: k o')
  case (Cons b bss)
  then show ?case by (cases o') simp_all
qed simp

lemma length_concat_take: "length (concat (take i bss)) \<le> length (concat bss)"
  by (metis append_take_drop_id concat_append length_append le_add1)

lemma unat_start:
  assumes "maps_blocks bss m" and "i < length bss"
  shows "unat (block_starts (map_blocks m) ! i) = length (concat (take i bss))"
proof -
  have "length (concat (take i bss)) < 256" using length_concat_take[of i bss] assms(1) by (simp add: maps_blocks_def)
  then show ?thesis using assms by (simp add: maps_blocks_def nth_starts_of unat_of_nat take_bit_nat_eq_self)
qed

text \<open>An index into a concatenation, as that of a block and one into the block.\<close>

lemma concat_position:
  "k < length (concat bss) \<Longrightarrow> \<exists>i < length bss. \<exists>j < length (bss ! i). k = length (concat (take i bss)) + j"
proof (induction bss arbitrary: k)
  case (Cons b bss)
  show ?case
  proof (cases "k < length b")
    case False
    then have "k - length b < length (concat bss)" using Cons.prems by simp
    from Cons.IH[OF this] obtain i j where "i < length bss" "j < length (bss ! i)" "k - length b = length (concat (take i bss)) + j"
      by blast
    then show ?thesis using False by (intro exI[of _ "Suc i"]) (auto intro!: exI[of _ j])
  qed (intro exI[of _ 0], auto)
qed simp

lemma concat_nth:
  "i < length bss \<Longrightarrow> j < length (bss ! i) \<Longrightarrow> concat bss ! (length (concat (take i bss)) + j) = bss ! i ! j
    \<and> length (concat (take i bss)) + j < length (concat bss)"
proof (induction bss arbitrary: i)
  case (Cons b bss)
  then show ?case by (cases i) (auto simp: nth_append)
qed simp

lemma concat_take_mono: "i < i' \<Longrightarrow> i' \<le> length bss \<Longrightarrow> length (concat (take i bss)) + length (bss ! i) \<le> length (concat (take i' bss))"
proof (induction bss arbitrary: i i')
  case (Cons b bss)
  then obtain k where "i' = Suc k" by (cases i') auto
  then show ?case using Cons by (cases i) auto
qed simp

lemma rposition_None [simp]: "rposition P xs = None \<longleftrightarrow> (\<forall>x \<in> set xs. \<not> P x)"
  by (induction xs) (auto split: option.splits)

lemma rposition_Some:
  "rposition P xs = Some i \<longleftrightarrow> i < length xs \<and> P (xs ! i) \<and> (\<forall>j. i < j \<and> j < length xs \<longrightarrow> \<not> P (xs ! j))"
proof (induction xs arbitrary: i)
  case (Cons x xs)
  have last: "(\<forall>j. i < j \<and> j < length (x # xs) \<longrightarrow> \<not> P ((x # xs) ! j)) \<longleftrightarrow> (\<forall>j. i \<le> j \<and> j < length xs \<longrightarrow> \<not> P (xs ! j))"
  proof (intro iffI allI impI)
    fix j
    assume "\<forall>j. i < j \<and> j < length (x # xs) \<longrightarrow> \<not> P ((x # xs) ! j)" and "i \<le> j \<and> j < length xs"
    then show "\<not> P (xs ! j)" by (auto dest: spec[of _ "Suc j"])
  next
    fix j
    assume "\<forall>j. i \<le> j \<and> j < length xs \<longrightarrow> \<not> P (xs ! j)" and "i < j \<and> j < length (x # xs)"
    then show "\<not> P ((x # xs) ! j)" by (cases j) auto
  qed
  show ?case
  proof (cases "rposition P xs")
    case None
    then have none: "\<forall>j < length xs. \<not> P (xs ! j)" by simp
    then show ?thesis unfolding last by (cases i) (auto simp: None simp del: rposition_None)
  next
    case (Some k)
    then have k: "k < length xs" "P (xs ! k)" using Cons[of k] by simp_all
    show ?thesis
    proof (cases i)
      case 0
      then show ?thesis unfolding last using Some k by auto
    next
      case (Suc l)
      then show ?thesis unfolding last using Some Cons[of l] by (auto simp: Suc_le_eq)
    qed
  qed
qed simp

text \<open>Both lookups in terms of the blocks.\<close>

definition numbered :: "u8 list list \<Rightarrow> u8 \<Rightarrow> nat \<Rightarrow> u8 \<Rightarrow> bool" where
  "numbered bss h owner n \<longleftrightarrow>
     owner < length bss \<and> (\<exists>j < length (bss ! owner). bss ! owner ! j = n \<and> unat h = length (concat (take owner bss)) + j + 1)"

lemma owner_of_block:
  assumes "maps_blocks bss m" and "i < length bss" and "j < length (bss ! i)"
  shows "owner_of (map_blocks m) (length (concat (take i bss)) + j) = Some i"
proof -
  have len: "length (block_starts (map_blocks m)) = length bss" using assms(1) by (simp add: maps_blocks_def)
  have "\<not> unat (block_starts (map_blocks m) ! i') \<le> length (concat (take i bss)) + j" if "i < i'" "i' < length bss" for i'
    using concat_take_mono[of i i' bss] assms that by (simp add: unat_start)
  then show ?thesis using assms by (simp add: owner_of_def rposition_Some len unat_start)
qed

lemma route_numbered:
  assumes "maps_blocks bss m"
  shows "route_report m h = Some (owner, n) \<longleftrightarrow> numbered bss h owner n"
proof -
  have len: "map_len m = length (concat bss)" using assms by (simp add: map_len_def maps_blocks_def)
  have remap: "remaps m ! k = concat bss ! k" "k < length (remaps m)" if "k < length (concat bss)" for k
    using assms that by (auto simp: maps_blocks_def) (metis nth_take)
  show ?thesis
  proof (cases "index_of m h")
    case None
    then have "unat h = 0 \<or> length (concat bss) < unat h" by (auto simp: index_of_def len split: if_splits)
    then have "\<not> numbered bss h owner n" using concat_nth[of owner bss] by (fastforce simp: numbered_def)
    then show ?thesis using None by (simp add: route_report_def)
  next
    case (Some k)
    then have k: "k < length (concat bss)" "unat h = k + 1" by (auto simp: index_of_def len split: if_splits)
    obtain i j where ij: "i < length bss" "j < length (bss ! i)" "k = length (concat (take i bss)) + j"
      using concat_position[OF k(1)] by blast
    have route: "route_report m h = Some (i, bss ! i ! j)"
      using Some owner_of_block[OF assms ij(1,2)] concat_nth[OF ij(1,2)] remap[OF k(1)] by (simp add: route_report_def ij(3))
    show ?thesis
    proof
      assume "route_report m h = Some (owner, n)"
      then show "numbered bss h owner n" using route ij k(2) by (auto simp: numbered_def)
    next
      assume "numbered bss h owner n"
      then obtain j' where j': "owner < length bss" "j' < length (bss ! owner)" "bss ! owner ! j' = n"
        "k = length (concat (take owner bss)) + j'"
        using k(2) by (auto simp: numbered_def)
      have "Some owner = Some i" using owner_of_block[OF assms j'(1,2)] owner_of_block[OF assms ij(1,2)] by (simp flip: j'(4) ij(3))
      then show "route_report m h = Some (owner, n)" using route j' ij(3) by auto
    qed
  qed
qed

lemma u8_try_from_Some: "u8_try_from k = Some h \<longleftrightarrow> unat h = k"
proof (cases "k < 256")
  case True
  then have "unat (word_of_nat k :: u8) = k" by (simp add: unat_of_nat take_bit_nat_eq_self)
  then show ?thesis using True by (auto simp: u8_try_from_def word_unat_eq_iff)
next
  case False
  then show ?thesis using unat_u8_less[of h] by (auto simp: u8_try_from_def)
qed

lemma host_id_numbered:
  assumes "maps_blocks bss m" and "\<forall>b \<in> set bss. distinct b"
  shows "host_id m owner n = Some h \<longleftrightarrow> numbered bss h owner n"
proof (cases "owner < length bss")
  case False
  then show ?thesis using assms(1) by (simp add: host_id_def block_bounds_def maps_blocks_def numbered_def)
next
  case True
  let ?s = "length (concat (take owner bss))" and ?b = "bss ! owner"
  have len: "length (block_starts (map_blocks m)) = length bss" using assms(1) by (simp add: maps_blocks_def)
  have next_start: "length (concat (take (Suc owner) bss)) = ?s + length ?b" using True by (simp add: take_Suc_conv_app_nth)
  have bounds: "block_bounds (map_blocks m) owner = Some (?s, ?s + length ?b)"
  proof (cases "Suc owner < length bss")
    case last: False
    then have "concat bss = concat (take (Suc owner) bss)" using True by simp
    then show ?thesis using True last assms(1) next_start by (simp add: block_bounds_def len unat_start) (simp add: maps_blocks_def)
  qed (use True assms(1) next_start in \<open>simp add: block_bounds_def len unat_start\<close>)
  have fits: "?s + length ?b \<le> length (concat bss)" using length_concat_take[of "Suc owner" bss] next_start by simp
  have total: "length (concat bss) \<le> length (remaps m)" "length (concat bss) \<le> 255" "take (length (concat bss)) (remaps m) = concat bss"
    using assms(1) by (simp_all add: maps_blocks_def)
  have "take (length ?b) (drop ?s (remaps m)) = ?b"
  proof (rule nth_equalityI)
    fix j assume "j < length (take (length ?b) (drop ?s (remaps m)))"
    then have j: "j < length ?b" by simp
    have "?s + j < length (concat bss)" using j fits by simp
    then have "take (length (concat bss)) (remaps m) ! (?s + j) = remaps m ! (?s + j)" by simp
    then have "remaps m ! (?s + j) = concat bss ! (?s + j)" unfolding total(3) by simp
    then show "take (length ?b) (drop ?s (remaps m)) ! j = ?b ! j" using j concat_nth[OF True j] fits total(1) by simp
  qed (use fits total(1) in simp)
  then have "host_id m owner n = Option.bind (position (\<lambda>i. i = n) ?b) (\<lambda>offset. u8_try_from (?s + offset + 1))"
    using fits total(1) by (simp add: host_id_def bounds get_slice_def)
  moreover have "position (\<lambda>i. i = n) ?b = Some j \<longleftrightarrow> j < length ?b \<and> ?b ! j = n" for j
  proof -
    have "distinct ?b" using True assms(2) by simp
    then show ?thesis using nth_eq_iff_index_eq[of ?b] by (auto simp: position_Some)
  qed
  ultimately show ?thesis using True by (auto simp: numbered_def bind_eq_Some_conv u8_try_from_Some)
qed

text \<open>The reports that the host can address, and those of the devices.\<close>

lemma numbered_once: "numbered bss h owner n \<Longrightarrow> n \<in> set (bss ! owner) \<and> owner < length bss"
  by (auto simp: numbered_def)

lemma numbered_all:
  assumes "owner < length bss" and "n \<in> set (bss ! owner)" and "length (concat bss) \<le> 255"
  shows "\<exists>h. numbered bss h owner n"
proof -
  obtain j where j: "j < length (bss ! owner)" "bss ! owner ! j = n" using assms(2) by (auto simp: in_set_conv_nth)
  have "length (concat (take owner bss)) + j + 1 < 256" using concat_nth[OF assms(1) j(1)] assms(3) by simp
  then show ?thesis
    using assms(1) j by (intro exI[of _ "word_of_nat (length (concat (take owner bss)) + j + 1)"])
      (auto simp: numbered_def u8_try_from_def simp flip: u8_try_from_Some)
qed

subsection \<open>The combined descriptor\<close>

lemma renumber_wf:
  assumes "\<forall>i \<in> set items. wf_item i \<and> item_ok i"
  shows "\<forall>j \<in> set (fst (renumber implicit s ids items)). wf_item j"
    and "length (raw_bytes (fst (renumber implicit s ids items))) \<le> length (raw_bytes items) + (if implicit then 2 else 0)"
proof -
  have id_ok: "wf_item (id_item (item_header i) h) \<and> length (item_raw i) = 2" if "is_report_id (item_header i)" "wf_item i" "item_ok i" for i h
  proof -
    have "\<not> is_long_item (item_header i)" using that(1) long_header_is_reserved by (auto simp: is_report_id_def)
    then show ?thesis using that by (auto simp: wf_item_def item_ok_def id_item_def)
  qed
  have new_ok: "wf_item (id_item REPORT_ID_HEADER_SIZE1 h)" for h
    by (simp add: wf_item_def id_item_def is_long_item_def LONG_ITEM_HEADER_def short_item_data_size_def)
  show "\<forall>j \<in> set (fst (renumber implicit s ids items)). wf_item j"
    using assms
  proof (induction implicit s ids items rule: renumber.induct)
    case (2 implicit s ids i items)
    then show ?case using id_ok[of i] new_ok by (auto simp: Let_def case_prod_beta simp del: framing_headers)
  qed simp
  show "length (raw_bytes (fst (renumber implicit s ids items))) \<le> length (raw_bytes items) + (if implicit then 2 else 0)"
    using assms
  proof (induction implicit s ids items rule: renumber.induct)
    case (2 implicit s ids i items)
    show ?case
    proof (cases "is_report_id (item_header i)")
      case True
      then show ?thesis using 2(1)[OF True refl refl] 2(4) id_ok[of i] by (auto simp: Let_def case_prod_beta id_item_def)
    next
      case no_id: False
      show ?thesis
      proof (cases "implicit \<and> is_collection (item_header i)")
        case True
        then show ?thesis using 2(2)[OF no_id True] 2(4) no_id by (simp add: Let_def case_prod_beta id_item_def)
      next
        case False
        then show ?thesis using 2(3)[OF no_id False] 2(4) no_id by (auto simp: Let_def case_prod_beta)
      qed
    qed
  qed simp
qed

definition inputs_of :: "HidReportDescriptor list \<Rightarrow> (bool \<times> DescriptorItem list) list" where
  "inputs_of ds = map (\<lambda>d. (report_ids_implicit d, items_of d)) ds"

lemma plain_item_simps [simp]: "wf_item (plain_item 0xA4)" "wf_item (plain_item 0xB4)" "item_raw (plain_item h) = [h]"
  by (simp_all add: wf_item_def plain_item_def is_long_item_def LONG_ITEM_HEADER_def short_item_data_size_def)

lemma renumber_all_wf:
  assumes "\<forall>d \<in> set ds. accepted d"
  shows "(\<forall>j \<in> set (fst (renumber_all ids (inputs_of ds))). wf_item j)
    \<and> length (raw_bytes (fst (renumber_all ids (inputs_of ds)))) \<le> expected_size ds"
  using assms
proof (induction ds arbitrary: ids)
  case (Cons d ds)
  obtain js ids' where r: "renumber (report_ids_implicit d) (length ids) ids (items_of d) = (js, ids')"
    by (cases "renumber (report_ids_implicit d) (length ids) ids (items_of d)")
  have d: "accepted d" using Cons.prems by simp
  note items = accepted_items[OF d]
  have "\<forall>j \<in> set js. wf_item j" and "length (raw_bytes js) \<le> length (descriptor_bytes d) + 2"
    using renumber_wf[OF items(2), of "report_ids_implicit d" "length ids" ids] by (auto simp: r items(3) split: if_splits)
  then show ?case
    using Cons.IH[of ids'] Cons.prems
    by (auto simp: inputs_of_def r case_prod_beta expected_size_def MAX_DESCRIPTOR_FRAMING_OVERHEAD_def)
qed (simp add: inputs_of_def expected_size_def)

lemma parse_item_implicit:
  assumes "parse_item i p = (Inr (), q)"
  shows "ids_implicit q \<longleftrightarrow> ids_implicit p \<and> \<not> is_report_id (item_header i)"
  using assms effect_of_id[of i]
  by (cases "effect_of i") (auto simp: parse_item_effect split: if_splits list.splits)

lemma accepted_without_ids:
  assumes "accepted d"
  shows "without_ids (report_ids_implicit d) (items_of d)"
proof -
  have "ids_implicit q \<longleftrightarrow> ids_implicit p \<and> (\<forall>i \<in> set items. \<not> is_report_id (item_header i))"
    if "for_each parse_item items p = (Inr (), q)" for items p q
    using that by (induction items arbitrary: p) (auto simp: and_then_ok_iff dest: parse_item_implicit)
  then show ?thesis using accepted_items(4)[OF assms] by (auto simp: without_ids_def parse_start_def)
qed

text \<open>What \<open>combine\<close> returns, by the specification.\<close>

lemma combine_outcome:
  assumes "\<forall>d \<in> set ds. accepted d" and "expected_size ds \<le> length out"
  defines "spec \<equiv> renumber_all [] (inputs_of ds)"
  shows "\<exists>bss m. snd spec = (starts_of 0 bss, concat bss)
    \<and> list_all2 (\<lambda>b d. distinct b \<and> set b = declared (report_ids_implicit d) (items_of d)) bss ds
    \<and> (if length (concat bss) \<le> capacity \<and> length (concat bss) \<le> 255
       then maps_blocks bss m \<and> combine capacity ds out = map_sum (\<lambda>e. e) (\<lambda>d. (d, m)) (descriptor_new (raw_bytes (fst spec)))
       else combine capacity ds out = Inl TooManyReportIds)"
proof -
  obtain js starts ids where spec: "spec = (js, starts, ids)" by (cases spec)
  have "\<forall>(implicit, items) \<in> set (inputs_of ds). without_ids implicit items"
    using assms(1) accepted_without_ids by (auto simp: inputs_of_def)
  from renumber_all_blocks[OF this, of "[]"] obtain bss where bss: "starts = starts_of 0 bss" "ids = concat bss"
    "list_all2 (\<lambda>b (implicit, items). distinct b \<and> set b = declared implicit items) bss (inputs_of ds)"
    using spec unfolding spec_def by auto
  have len: "length bss = length ds" using list_all2_lengthD[OF bss(3)] by (simp add: inputs_of_def)
  define c where "c = \<lparr>writer = \<lparr>out_buf = out, out_pos = 0\<rparr>, builder = builder_new capacity (length ds), report_id_inserted = False\<rparr>"
  have room: "length (raw_bytes js) \<le> length out"
    using renumber_all_wf[OF assms(1), of "[]"] assms(2) spec by (simp add: spec_def)
  have "written (length out) [] (writer c)" and "built capacity (blocks_new (length ds)) 0 [] (builder c)"
    and "0 + length ds \<le> length (block_starts (blocks_new (length ds)))"
    by (simp_all add: c_def written_def built_def builder_new_def blocks_new_def)
  from combine_inputs_to[OF this assms(1) spec[unfolded spec_def inputs_of_def], unfolded append_Nil] room
  obtain s where run: "combined_to (length out) capacity ((blocks_new (length ds))\<lparr>block_starts := map word_of_nat starts\<rparr>) s
      (raw_bytes js) ids (for_each combine_input (enumerate 0 ds) c)"
    by (auto simp: blocks_new_def)
  show ?thesis
  proof (cases "length ids \<le> capacity \<and> length ids \<le> 255")
    case True
    then obtain c1 where c1: "for_each combine_input (enumerate 0 ds) c = (Inr (), c1)"
      and w: "written (length out) (raw_bytes js) (writer c1)"
      and b: "built capacity ((blocks_new (length ds))\<lparr>block_starts := map word_of_nat starts\<rparr>) s ids (builder c1)"
      using run by (cases "for_each combine_input (enumerate 0 ds) c") (auto simp: combined_to_def)
    define m where "m = \<lparr>remaps = b_remaps (builder c1),
      map_blocks = \<lparr>block_starts = map word_of_nat starts, block_total = word_of_nat (length ids)\<rparr>\<rparr>"
    have "maps_blocks bss m"
      using b True by (auto simp: maps_blocks_def m_def built_def bss(1,2) unat_of_nat take_bit_nat_eq_self)
    moreover have "combine capacity ds out = map_sum (\<lambda>e. e) (\<lambda>d. (d, m)) (descriptor_new (raw_bytes js))"
      using assms(2) c1 w b True unfolding combine_def c_def[symmetric]
      by (auto simp: on_builder_def builder_finish_def set_total_def u8_try_from_def built_def written_def m_def blocks_new_def
          split: sum.split)
    ultimately show ?thesis using True bss by (intro exI[of _ bss]) (auto simp: spec list_all2_map2 inputs_of_def)
  next
    case False
    then obtain c1 where "for_each combine_input (enumerate 0 ds) c = (Inl TooManyReportIds, c1)"
      using run by (cases "for_each combine_input (enumerate 0 ds) c") (auto simp: combined_to_def)
    then have "combine capacity ds out = Inl TooManyReportIds" using assms(2) by (simp add: combine_def c_def)
    then show ?thesis using False bss by (intro exI[of _ bss]) (auto simp: spec list_all2_map2 inputs_of_def)
  qed
qed

end
