(* ===== verification/Hid_Combine_Sizes.thy ===== *)
theory Hid_Combine_Sizes
  imports Hid_Combine_Props
begin

text \<open>
  Combining keeps the sizes of the reports: parsing the renumbered items of an input, between \<open>Push\<close> and
  \<open>Pop\<close>, simulates parsing the input alone, with each of its report IDs replaced by the one of the host.
  The table entries of different inputs are different, so the largest sizes of the combined descriptor are
  those of the inputs.
\<close>

subsection \<open>Inputs that can be wrapped\<close>

text \<open>An input pops what it pushes, leaves one level of the stack free, and every field of a report comes after
  the declaration of its report ID, which for an input without IDs is in its first collection. The arguments
  are whether a collection is still to come, whether an ID is in effect, and the same for the saved states.\<close>

definition carries_data :: "u8 \<Rightarrow> bool" where
  "carries_data tag \<longleftrightarrow> tag = TAG_INPUT \<or> tag = TAG_OUTPUT \<or> tag = TAG_FEATURE"

fun framed :: "bool \<Rightarrow> bool \<Rightarrow> bool list \<Rightarrow> DescriptorItem list \<Rightarrow> bool" where
  "framed imp decl st [] \<longleftrightarrow> st = []"
| "framed imp decl st (i # items) \<longleftrightarrow>
     (case effect_of i of
        SetId _ \<Rightarrow> framed imp True st items
      | PushState \<Rightarrow> length st < 15 \<and> framed imp decl (decl # st) items
      | PopState \<Rightarrow> (case st of [] \<Rightarrow> False | d # ds \<Rightarrow> framed imp d ds items)
      | AddData tag \<Rightarrow>
          (if imp \<and> tag = COLLECTION_ITEM_TAG then framed False True st items
           else (carries_data tag \<longrightarrow> decl) \<and> framed imp decl st items)
      | _ \<Rightarrow> framed imp decl st items)"

lemma collection_effect: "is_collection (item_header i) \<longleftrightarrow> effect_of i = AddData COLLECTION_ITEM_TAG"
  using long_header_is_reserved[of "item_header i"]
  by (auto simp: is_collection_def effect_of_def Let_def split: HidItemType.splits option.splits list.splits if_splits)

lemma add_no_data: "\<not> carries_data tag \<Longrightarrow> add_bits tag bits r = r"
  by (simp add: carries_data_def add_bits_def)

subsection \<open>The simulation\<close>

definition state_rel :: "bool \<Rightarrow> nat \<Rightarrow> u8 list \<Rightarrow> GlobalItemState \<Rightarrow> GlobalItemState \<Rightarrow> bool" where
  "state_rel decl s b g g' \<longleftrightarrow>
     report_size_bits g' = report_size_bits g \<and> report_count g' = report_count g
     \<and> (decl \<longrightarrow> (\<exists>j < length b. b ! j = report_id g \<and> report_id g' = word_of_nat (s + j + 1)))"

fun stack_rel :: "nat \<Rightarrow> u8 list \<Rightarrow> bool list \<Rightarrow> GlobalItemState list \<Rightarrow> GlobalItemState list \<Rightarrow> bool" where
  "stack_rel s b [] [] [] \<longleftrightarrow> True"
| "stack_rel s b (d # ds) (g # gs) (h # hs) \<longleftrightarrow> state_rel d s b g h \<and> stack_rel s b ds gs hs"
| "stack_rel s b _ _ _ \<longleftrightarrow> False"

definition table_rel :: "nat \<Rightarrow> u8 list \<Rightarrow> (u8 \<Rightarrow> ReportBits) \<Rightarrow> (u8 \<Rightarrow> ReportBits) \<Rightarrow> (u8 \<Rightarrow> ReportBits) \<Rightarrow> bool" where
  "table_rel s b before t t' \<longleftrightarrow>
     (\<forall>j < length b. t' (word_of_nat (s + j + 1)) = t (b ! j))
     \<and> (\<forall>n. n \<notin> set b \<longrightarrow> t n = no_bits)
     \<and> (\<forall>h. unat h \<le> s \<or> s + length b < unat h \<longrightarrow> t' h = before h)"

definition parse_rel ::
  "nat \<Rightarrow> u8 list \<Rightarrow> bool \<Rightarrow> bool list \<Rightarrow> (u8 \<Rightarrow> ReportBits) \<Rightarrow> GlobalItemState list \<Rightarrow> DescriptorParse \<Rightarrow> DescriptorParse \<Rightarrow> bool" where
  "parse_rel s b decl st before outer p q \<longleftrightarrow>
     distinct b \<and> s + length b \<le> 255 \<and> length outer \<le> 1
     \<and> state_rel decl s b (global_state p) (global_state q)
     \<and> (\<exists>gs. global_stack q = gs @ outer \<and> stack_rel s b st (global_stack p) gs)
     \<and> table_rel s b before (reports p) (reports q)"

lemma state_rel_snoc: "state_rel d s b g g' \<Longrightarrow> state_rel d s (b @ [n]) g g'"
  by (fastforce simp: state_rel_def nth_append)

lemma stack_rel_snoc: "stack_rel s b ds gs hs \<Longrightarrow> stack_rel s (b @ [n]) ds gs hs"
  by (induction s b ds gs hs rule: stack_rel.induct) (auto intro: state_rel_snoc)

lemma stack_rel_length: "stack_rel s b ds gs hs \<Longrightarrow> length gs = length ds \<and> length hs = length ds"
  by (induction s b ds gs hs rule: stack_rel.induct) auto

lemma unat_host: "s + j + 1 < 256 \<Longrightarrow> unat (word_of_nat (s + j + 1) :: u8) = s + j + 1"
  by (simp add: unat_of_nat take_bit_nat_eq_self del: of_nat_add of_nat_Suc)

text \<open>A new ID takes the next entry of the table, which is still empty.\<close>

lemma table_rel_snoc:
  assumes "table_rel s b before t t'" and "n \<notin> set b" and "s + length b < 255" and "\<forall>h. s < unat h \<longrightarrow> before h = no_bits"
  shows "table_rel s (b @ [n]) before t t'"
proof -
  let ?h = "word_of_nat (s + length b + 1) :: u8"
  have "unat ?h = s + length b + 1" using assms(3) by (intro unat_host) simp
  then have "t' ?h = no_bits" "t n = no_bits" using assms(1,2,4) by (auto simp: table_rel_def)
  then show ?thesis
    using assms(1) by (auto simp: table_rel_def nth_append less_Suc_eq simp del: of_nat_add of_nat_Suc)
qed

text \<open>Adding data under corresponding IDs.\<close>

lemma table_rel_add:
  assumes "table_rel s b before t t'" and "distinct b" and "s + length b \<le> 255" and "j < length b"
  shows "table_rel s b before (t(b ! j := f (t (b ! j)))) (t'(word_of_nat (s + j + 1) := f (t' (word_of_nat (s + j + 1)))))"
proof -
  have word: "unat (word_of_nat (s + i + 1) :: u8) = s + i + 1" if "i < length b" for i
    using that assms(3) by (intro unat_host) simp
  have eq: "word_of_nat (s + i + 1) = (word_of_nat (s + j + 1) :: u8) \<longleftrightarrow> i = j" if "i < length b" for i
    using word[OF that] word[OF assms(4)] by (metis add_left_cancel add_right_cancel)
  have "b ! i = b ! j \<longleftrightarrow> i = j" if "i < length b" for i using that assms(2,4) by (simp add: nth_eq_iff_index_eq)
  moreover have "h \<noteq> word_of_nat (s + j + 1)" if "unat h \<le> s \<or> s + length b < unat h" for h :: u8
    using that word[OF assms(4)] assms(4) by auto
  ultimately show ?thesis
    using assms(1,4) eq by (auto simp: table_rel_def simp del: of_nat_add of_nat_Suc)
qed

lemma parse_rel_snoc:
  assumes "parse_rel s b decl st before outer p q" and "n \<notin> set b" and "s + length b < 255"
    and "\<forall>h. s < unat h \<longrightarrow> before h = no_bits"
  shows "parse_rel s (b @ [n]) decl st before outer p q"
  using assms state_rel_snoc stack_rel_snoc table_rel_snoc[OF _ assms(2-4)] by (fastforce simp: parse_rel_def)

lemma effect_id_item [simp]: "is_report_id h \<Longrightarrow> effect_of (id_item h n) = SetId n"
  by (simp add: effect_of_id_data id_item_def)

lemma is_report_id_85 [simp]: "is_report_id 0x85"
  by (simp add: is_report_id_def item_type_def item_tag_def tag_defs)

text \<open>Declaring the report ID at index \<open>j\<close> of the block.\<close>

lemma parse_rel_id:
  assumes "parse_rel s b decl st before outer p q" and "j < length b" and "report_id (global_state p') = b ! j"
    and "p' = p\<lparr>ids_implicit := x, global_state := (global_state p)\<lparr>report_id := y\<rparr>\<rparr>"
  shows "parse_rel s b True st before outer p'
    (q\<lparr>ids_implicit := False, global_state := (global_state q)\<lparr>report_id := word_of_nat (s + j + 1)\<rparr>\<rparr>)"
  using assms by (auto simp: parse_rel_def state_rel_def)

definition implicit_state :: "DescriptorParse \<Rightarrow> bool" where
  "implicit_state p \<longleftrightarrow> report_id (global_state p) = 0 \<and> (\<forall>g \<in> set (global_stack p). report_id g = 0)"

lemma host_of_index:
  assumes "n \<in> set (drop s ids)"
  obtains j where "j < length (drop s ids)" "drop s ids ! j = n" "host_of s ids n = word_of_nat (s + j + 1)"
  using position_exists[OF assms] by (auto simp: host_of_def)

text \<open>The effects that carry over as they are.\<close>

lemma effect_step:
  assumes "parse_rel s b decl st before outer p q" and "apply_effect e p = (Inr (), p')" and "\<forall>n. e \<noteq> SetId n"
    and "framed imp decl st (i # items)" and "effect_of i = e" and "\<not> (imp \<and> e = AddData COLLECTION_ITEM_TAG)"
  shows "\<exists>q' decl' st'. apply_effect e q = (Inr (), q') \<and> parse_rel s b decl' st' before outer p' q' \<and> framed imp decl' st' items
    \<and> (implicit_state p \<longrightarrow> implicit_state p')"
proof (cases e)
  case Skip
  then show ?thesis using assms by (intro exI[of _ q] exI[of _ decl] exI[of _ st]) auto
next
  case (SetSize v)
  then show ?thesis
    using assms by (intro exI[of _ "q\<lparr>global_state := (global_state q)\<lparr>report_size_bits := v\<rparr>\<rparr>"] exI[of _ decl] exI[of _ st])
      (auto simp: parse_rel_def state_rel_def implicit_state_def)
next
  case (SetCount v)
  then show ?thesis
    using assms by (intro exI[of _ "q\<lparr>global_state := (global_state q)\<lparr>report_count := v\<rparr>\<rparr>"] exI[of _ decl] exI[of _ st])
      (auto simp: parse_rel_def state_rel_def implicit_state_def)
next
  case PushState
  then have p': "p' = p\<lparr>global_stack := global_state p # global_stack p\<rparr>" using assms(2) by (auto split: if_splits)
  obtain gs where gs: "global_stack q = gs @ outer" "stack_rel s b st (global_stack p) gs" using assms(1) by (auto simp: parse_rel_def)
  have "length (global_stack q) < MAX_PUSH_POP_STACK_DEPTH"
    using assms(1,4,5) PushState gs stack_rel_length[OF gs(2)] by (auto simp: parse_rel_def MAX_PUSH_POP_STACK_DEPTH_def)
  then show ?thesis
    using assms(1,4,5) PushState gs
    by (intro exI[of _ "q\<lparr>global_stack := global_state q # global_stack q\<rparr>"] exI[of _ decl] exI[of _ "decl # st"])
      (auto simp: p' parse_rel_def implicit_state_def)
next
  case PopState
  then obtain d ds where st: "st = d # ds" "framed imp d ds items" using assms(4,5) by (cases st) auto
  obtain gs where gs: "global_stack q = gs @ outer" "stack_rel s b st (global_stack p) gs" using assms(1) by (auto simp: parse_rel_def)
  then obtain g ps h hs where stacks: "global_stack p = g # ps" "gs = h # hs" "state_rel d s b g h" "stack_rel s b ds ps hs"
    unfolding st(1) by (cases "global_stack p"; cases gs) auto
  then show ?thesis
    using assms(1,2) PopState gs(1) st(2)
    by (intro exI[of _ "q\<lparr>global_state := h, global_stack := hs @ outer\<rparr>"] exI[of _ d] exI[of _ ds])
      (auto simp: parse_rel_def implicit_state_def)
next
  case (AddData tag)
  have framed: "carries_data tag \<longrightarrow> decl" "framed imp decl st items" using assms(4-6) AddData by auto
  show ?thesis
  proof (cases "carries_data tag")
    case False
    then have "p' = p" using assms(2) AddData by (simp add: add_no_data)
    then show ?thesis using assms(1) AddData False framed(2)
      by (intro exI[of _ q] exI[of _ decl] exI[of _ st]) (auto simp: add_no_data)
  next
    case True
    then have decl: "decl" using framed(1) by simp
    then obtain j where j: "j < length b" "b ! j = report_id (global_state p)" "report_id (global_state q) = word_of_nat (s + j + 1)"
      and same: "report_size_bits (global_state q) = report_size_bits (global_state p)" "report_count (global_state q) = report_count (global_state p)"
      using assms(1) by (auto simp: parse_rel_def state_rel_def)
    let ?f = "add_bits tag (sat_mul (report_size_bits (global_state p)) (report_count (global_state p)))"
    have "table_rel s b before (reports p) (reports q)" "distinct b" "s + length b \<le> 255"
      using assms(1) by (simp_all add: parse_rel_def)
    from table_rel_add[OF this j(1), of ?f] show ?thesis
      using assms(1,2) AddData framed(2) j same
      by (intro exI[of _ "snd (apply_effect e q)"] exI[of _ decl] exI[of _ st]) (auto simp: parse_rel_def implicit_state_def)
  qed
qed (use assms in auto)

text \<open>All items of an input.\<close>

lemma sim_items:
  assumes "parse_rel s (drop s ids) decl st before outer p q" and "framed imp decl st items" and "s \<le> length ids"
    and "renumber imp s ids items = (js, ids')" and "length ids' \<le> 255" and "for_each parse_item items p = (Inr (), p')"
    and "\<forall>h. s < unat h \<longrightarrow> before h = no_bits" and "without_ids imp items" and "imp \<Longrightarrow> drop s ids = [] \<and> implicit_state p"
  shows "\<exists>q' decl'. for_each parse_item js q = (Inr (), q') \<and> parse_rel s (drop s ids') decl' [] before outer p' q'"
  using assms
proof (induction items arbitrary: imp decl st ids js p q)
  case Nil
  then show ?case by (auto intro!: exI[of _ decl])
next
  case (Cons i items)
  obtain p1 where p1: "apply_effect (effect_of i) p = (Inr (), p1)" "for_each parse_item items p1 = (Inr (), p')"
    using Cons.prems(6) by (auto simp: and_then_ok_iff parse_item_effect[of i])
  have rest_ids: "without_ids imp items" using Cons.prems(8) by (simp add: without_ids_def)
  consider (ident) n where "effect_of i = SetId n" | (coll) "imp" "effect_of i = AddData COLLECTION_ITEM_TAG"
    | (other) "\<forall>n. effect_of i \<noteq> SetId n" "\<not> (imp \<and> effect_of i = AddData COLLECTION_ITEM_TAG)"
    by blast
  then show ?case
  proof cases
    case ident
    then have i: "is_report_id (item_header i)" "item_data i = [n]" by (simp_all add: effect_of_id_data)
    then have imp: "\<not> imp" using Cons.prems(8) by (auto simp: without_ids_def)
    define ids1 where "ids1 = (if n \<in> set (drop s ids) then ids else ids @ [n])"
    obtain ks where ks: "renumber imp s ids1 items = (ks, ids')" "js = id_item (item_header i) (host_of s ids1 n) # ks"
      using Cons.prems(4) i by (auto simp: ids1_def Let_def split: prod.splits)
    have s1: "s \<le> length ids1" using Cons.prems(3) by (simp add: ids1_def)
    have "length ids1 \<le> 255" using renumber_length[OF s1, of imp items] ks(1) Cons.prems(5) by simp
    then have rel1: "parse_rel s (drop s ids1) decl st before outer p q"
      using parse_rel_snoc[OF Cons.prems(1) _ _ Cons.prems(7), of n] Cons.prems(1,3) by (auto simp: ids1_def)
    have "n \<in> set (drop s ids1)" using Cons.prems(3) by (auto simp: ids1_def)
    then obtain j where j: "j < length (drop s ids1)" "drop s ids1 ! j = n" "host_of s ids1 n = word_of_nat (s + j + 1)"
      by (rule host_of_index)
    have p1': "p1 = p\<lparr>ids_implicit := False, global_state := (global_state p)\<lparr>report_id := n\<rparr>\<rparr>" using p1(1) ident by simp
    have "report_id (global_state p1) = drop s ids1 ! j" using p1' j(2) by simp
    from parse_rel_id[OF rel1 j(1) this p1']
    have "parse_rel s (drop s ids1) True st before outer p1
        (q\<lparr>ids_implicit := False, global_state := (global_state q)\<lparr>report_id := host_of s ids1 n\<rparr>\<rparr>)" by (simp only: j(3))
    moreover have "framed imp True st items" using Cons.prems(2) ident by simp
    ultimately have "\<exists>q' decl'. for_each parse_item ks
          (q\<lparr>ids_implicit := False, global_state := (global_state q)\<lparr>report_id := host_of s ids1 n\<rparr>\<rparr>) = (Inr (), q')
        \<and> parse_rel s (drop s ids') decl' [] before outer p' q'"
      using s1 ks(1) Cons.prems(5,7) p1(2) rest_ids imp
      by (intro Cons.IH[where ids = ids1 and imp = False]) simp_all
    then show ?thesis using i(1) by (simp add: ks(2) parse_item_effect[of "id_item _ _"])
  next
    case coll
    then have c: "is_collection (item_header i)" "\<not> is_report_id (item_header i)" and new: "drop s ids = []" "implicit_state p"
      using Cons.prems(9) collection_is_no_id by (auto simp: collection_effect)
    then have len: "length ids = s" using Cons.prems(3) by simp
    obtain ks where ks: "renumber False s (ids @ [0]) items = (ks, ids')"
      "js = i # id_item REPORT_ID_HEADER_SIZE1 (word_of_nat (length ids + 1)) # ks"
      using Cons.prems(4) c coll(1) by (auto simp: Let_def split: prod.splits)
    have "length (ids @ [0]) \<le> 255" using renumber_length[of s "ids @ [0]" False items] Cons.prems(3,5) ks(1) by simp
    then have rel1: "parse_rel s [0] decl st before outer p q"
      using parse_rel_snoc[OF Cons.prems(1) _ _ Cons.prems(7), of 0] new(1) len by simp
    have skip: "\<not> carries_data COLLECTION_ITEM_TAG" by (simp add: carries_data_def tag_defs)
    have p1': "p1 = p" using p1(1) coll(2) by (simp add: add_no_data[OF skip])
    have step: "parse_item i q = (Inr (), q)" using coll(2) by (simp add: parse_item_effect add_no_data[OF skip])
    let ?q = "q\<lparr>ids_implicit := False, global_state := (global_state q)\<lparr>report_id := word_of_nat (s + 0 + 1)\<rparr>\<rparr>"
    have "report_id (global_state p) = [0] ! 0" using new(2) by (simp add: implicit_state_def)
    from parse_rel_id[OF rel1 _ this, of 0 "ids_implicit p"] new(2)
    have "parse_rel s [0] True st before outer p ?q" by (cases p) (simp add: implicit_state_def)
    moreover have "framed False True st items" using Cons.prems(2) coll by simp
    moreover have "drop s (ids @ [0]) = [0]" using len new(1) by simp
    ultimately have "\<exists>q' decl'. for_each parse_item ks ?q = (Inr (), q') \<and> parse_rel s (drop s ids') decl' [] before outer p' q'"
      using len ks(1) Cons.prems(5,7) p1(2) by (intro Cons.IH[where ids = "ids @ [0]" and imp = False]) (simp_all add: p1' without_ids_def)
    then show ?thesis by (simp add: ks(2) step parse_item_effect[of "id_item _ _"] len)
  next
    case other
    then have no: "\<not> is_report_id (item_header i)" "\<not> (imp \<and> is_collection (item_header i))"
      using effect_of_id[of i] p1(1) by (auto simp: collection_effect)
    obtain ks where ks: "renumber imp s ids items = (ks, ids')" "js = i # ks"
      using Cons.prems(4) no by (auto simp: Let_def split: prod.splits)
    obtain q1 decl1 st1 where q1: "apply_effect (effect_of i) q = (Inr (), q1)" "parse_rel s (drop s ids) decl1 st1 before outer p1 q1"
      "framed imp decl1 st1 items" "implicit_state p \<longrightarrow> implicit_state p1"
      using effect_step[OF Cons.prems(1) p1(1) other(1) Cons.prems(2) refl other(2)] by blast
    have "\<exists>q' decl'. for_each parse_item ks q1 = (Inr (), q') \<and> parse_rel s (drop s ids') decl' [] before outer p' q'"
      using q1 ks(1) Cons.prems(3,5,7,9) p1(2) rest_ids
      by (intro Cons.IH[where ids = ids and imp = imp]) simp_all
    then show ?thesis using q1(1) by (simp add: ks(2) parse_item_effect[of i])
  qed
qed

text \<open>The tables hold the same entries.\<close>

lemma table_rel_range:
  assumes "table_rel s b before t t'" and "s + length b \<le> 255" and "\<forall>h. s < unat h \<longrightarrow> before h = no_bits"
  shows "insert no_bits (range t') = insert no_bits (range before) \<union> range t"
proof (intro equalityI subsetI)
  fix x assume "x \<in> insert no_bits (range t')"
  then consider "x = no_bits" | h where "x = t' h" by blast
  then show "x \<in> insert no_bits (range before) \<union> range t"
  proof cases
    case 2
    show ?thesis
    proof (cases "unat h \<le> s \<or> s + length b < unat h")
      case True
      then have "t' h = before h" using assms(1) unfolding table_rel_def by blast
      then show ?thesis using 2 by simp
    next
      case False
      then have "unat h - s - 1 < length b" "s + (unat h - s - 1) + 1 = unat h" by linarith+
      then have "t' (word_of_nat (unat h)) = t (b ! (unat h - s - 1))" using assms(1) unfolding table_rel_def by metis
      then show ?thesis using 2 by auto
    qed
  qed simp
next
  fix x assume "x \<in> insert no_bits (range before) \<union> range t"
  then consider "x = no_bits" | h where "x = before h" | n where "x = t n" by blast
  then show "x \<in> insert no_bits (range t')"
  proof cases
    case (2 h)
    then have "unat h \<le> s \<Longrightarrow> t' h = x" using assms(1) by (simp add: table_rel_def)
    then show ?thesis using 2 assms(3) by (metis insertCI not_le rangeI)
  next
    case (3 n)
    then show ?thesis
    proof (cases "n \<in> set b")
      case True
      then obtain j where "j < length b" "b ! j = n" by (auto simp: in_set_conv_nth)
      then have "t' (word_of_nat (s + j + 1)) = x" using 3 assms(1) unfolding table_rel_def by blast
      then show ?thesis by blast
    qed (use assms(1) in \<open>simp add: table_rel_def\<close>)
  qed simp
qed

text \<open>What the reports of an input are, when it can be wrapped.\<close>

definition parses_to :: "bool \<times> DescriptorItem list \<Rightarrow> (u8 \<Rightarrow> ReportBits) \<Rightarrow> bool" where
  "parses_to = (\<lambda>(imp, items) t. framed imp False [] items \<and> without_ids imp items
     \<and> (\<exists>p. for_each parse_item items parse_start = (Inr (), p) \<and> reports p = t))"

lemma sim_input:
  assumes "parses_to (imp, items) t" and "renumber imp (length ids) ids items = (js, ids')" and "length ids' \<le> 255"
    and "global_state q = global_default" and "global_stack q = []" and "\<forall>h. length ids < unat h \<longrightarrow> reports q h = no_bits"
  shows "\<exists>q'. for_each parse_item (plain_item PUSH_HEADER # js @ [plain_item POP_HEADER]) q = (Inr (), q')
    \<and> global_state q' = global_default \<and> global_stack q' = [] \<and> (\<forall>h. length ids' < unat h \<longrightarrow> reports q' h = no_bits)
    \<and> insert no_bits (range (reports q')) = insert no_bits (range (reports q)) \<union> range t"
proof -
  let ?s = "length ids"
  obtain p where p: "for_each parse_item items parse_start = (Inr (), p)" "reports p = t"
    and framed: "framed imp False [] items" "without_ids imp items" using assms(1) by (auto simp: parses_to_def)
  obtain new where new: "ids' = ids @ new" using renumber_prefix[of ?s ids imp items] assms(2) by auto
  define q1 where "q1 = q\<lparr>global_stack := [global_default]\<rparr>"
  have push: "parse_item (plain_item PUSH_HEADER) q = (Inr (), q1)"
    using assms(4,5) by (simp add: q1_def parse_item_def plain_item_def is_long_item_def LONG_ITEM_HEADER_def item_type_def
      item_tag_def global_item_def tag_defs MAX_PUSH_POP_STACK_DEPTH_def)
  have "parse_rel ?s (drop ?s ids) False [] (reports q) [global_default] parse_start q1"
    using assms(3,4) by (simp add: parse_rel_def q1_def parse_start_def state_rel_def table_rel_def new)
  moreover have "imp \<Longrightarrow> drop ?s ids = [] \<and> implicit_state parse_start"
    by (simp add: implicit_state_def parse_start_def global_default_def)
  ultimately obtain q2 decl where q2: "for_each parse_item js q1 = (Inr (), q2)"
    "parse_rel ?s new decl [] (reports q) [global_default] p q2"
    using sim_items[of ?s ids False "[]" "reports q" "[global_default]" parse_start q1 imp items js ids' p] assms(2,3,6) framed p(1)
    by (auto simp: new)
  have stack: "global_stack q2 = [global_default]"
    using q2(2) by (auto simp: parse_rel_def dest: stack_rel_length)
  define q3 where "q3 = q2\<lparr>global_state := global_default, global_stack := []\<rparr>"
  have "parse_item (plain_item POP_HEADER) q2 = (Inr (), q3)"
    using stack by (simp add: q3_def parse_item_def plain_item_def is_long_item_def LONG_ITEM_HEADER_def item_type_def
      item_tag_def global_item_def tag_defs)
  then have run: "for_each parse_item (plain_item PUSH_HEADER # js @ [plain_item POP_HEADER]) q = (Inr (), q3)"
    using push q2(1) by (simp add: for_each_append)
  have table: "table_rel ?s new (reports q) t (reports q3)" using q2(2) by (simp add: parse_rel_def q3_def p(2))
  have "length ids' = ?s + length new" by (simp add: new)
  then have "\<forall>h. length ids' < unat h \<longrightarrow> reports q3 h = no_bits" using table assms(6) by (simp add: table_rel_def)
  moreover have "insert no_bits (range (reports q3)) = insert no_bits (range (reports q)) \<union> range t"
    using table_rel_range[OF table] assms(3,6) by (simp add: new)
  ultimately show ?thesis using run by (intro exI[of _ q3]) (simp add: q3_def)
qed

lemma sim_inputs:
  assumes "list_all2 parses_to inputs ts" and "renumber_all ids inputs = (js, starts, ids')" and "length ids' \<le> 255"
    and "global_state q = global_default" and "global_stack q = []" and "\<forall>h. length ids < unat h \<longrightarrow> reports q h = no_bits"
  shows "\<exists>q'. for_each parse_item js q = (Inr (), q')
    \<and> insert no_bits (range (reports q')) = insert no_bits (range (reports q)) \<union> (\<Union>t \<in> set ts. range t)"
  using assms
proof (induction inputs ts arbitrary: ids js starts q rule: list_all2_induct)
  case Nil
  then show ?case by auto
next
  case (Cons input inputs t ts)
  obtain imp items where input: "input = (imp, items)" by (cases input)
  obtain js1 ids1 where r1: "renumber imp (length ids) ids items = (js1, ids1)" by (cases "renumber imp (length ids) ids items")
  obtain js2 starts2 where r2: "renumber_all ids1 inputs = (js2, starts2, ids')"
    and js: "js = (plain_item PUSH_HEADER # js1 @ [plain_item POP_HEADER]) @ js2"
    using Cons.prems(1) r1 by (auto simp: input split: prod.splits)
  obtain new where "ids' = ids1 @ new" using renumber_all_prefix[of ids1 inputs] r2 by auto
  then have "length ids1 \<le> 255" using Cons.prems(2) by simp
  from sim_input[OF Cons.hyps(1)[unfolded input] r1 this Cons.prems(3-5)]
  obtain q1 where q1: "for_each parse_item (plain_item PUSH_HEADER # js1 @ [plain_item POP_HEADER]) q = (Inr (), q1)"
    "global_state q1 = global_default" "global_stack q1 = []" "\<forall>h. length ids1 < unat h \<longrightarrow> reports q1 h = no_bits"
    "insert no_bits (range (reports q1)) = insert no_bits (range (reports q)) \<union> range t" by blast
  from Cons.IH[OF r2 Cons.prems(2) q1(2-4)] show ?case
    using q1(1,5) unfolding js for_each_append by auto
qed

end
