(* ===== verification/Hid_Map_Props.thy ===== *)
theory Hid_Map_Props
  imports Hid_Combine_Sizes
begin

text \<open>
  The properties of report descriptors and of the map of report IDs: reading and writing items, the failures
  of \<open>combine\<close>, the bijection between host-facing IDs and the reports of the devices, and the sizes.
\<close>

subsection \<open>Largest sizes\<close>

lemma max_bits_Max:
  assumes "field no_bits = 0"
  shows "max_bits field rs = Max (field ` insert no_bits (range rs))"
proof -
  have "max_bits field rs = fold max (map (\<lambda>i. field (rs (word_of_nat i))) [0..<256]) 0"
    unfolding max_bits_def fold_map comp_def by (rule List.fold_cong[OF refl refl], rule ext, rule max.commute)
  also have "\<dots> = Max (set (0 # map (\<lambda>i. field (rs (word_of_nat i))) [0..<256]))" by (rule Max.set_eq_fold[symmetric])
  also have "set (0 # map (\<lambda>i. field (rs (word_of_nat i))) [0..<256]) = field ` insert no_bits (rs ` word_of_nat ` {0..<256})"
    by (simp add: assms image_image)
  also have "word_of_nat ` {0..<256} = (UNIV :: u8 set)"
  proof (intro equalityI subset_UNIV subsetI)
    fix w :: u8
    have "w = word_of_nat (unat w)" by simp
    then show "w \<in> word_of_nat ` {0..<256}" using unat_u8_less[of w] by (intro image_eqI[of _ _ "unat w"]) simp_all
  qed
  finally show ?thesis .
qed

lemma mono_bytes: "mono bits_to_bytes"
  by (intro monoI) (simp add: bits_to_bytes_def word_le_nat_alt div_le_mono)

lemma finite_entries: "finite (range (t :: u8 \<Rightarrow> ReportBits))"
  by simp

lemma largest_of_all:
  fixes ts :: "(u8 \<Rightarrow> ReportBits) list"
  assumes "field no_bits = (0 :: u32)" and "insert no_bits (range rs) = insert no_bits (\<Union>t \<in> set ts. range t)"
  shows "bits_to_bytes (max_bits field rs) = Max (insert 0 ((\<lambda>t. bits_to_bytes (max_bits field t)) ` set ts))"
proof -
  have zero: "bits_to_bytes 0 = 0" by (simp add: bits_to_bytes_def)
  have each: "bits_to_bytes (max_bits field t) = Max (insert 0 ((\<lambda>r. bits_to_bytes (field r)) ` range t))" for t
    using mono_Max_commute[OF mono_bytes, of "field ` insert no_bits (range t)"]
    by (simp add: max_bits_Max[of field, OF assms(1)] assms(1) zero image_image)
  have "bits_to_bytes (max_bits field rs) = Max ((\<lambda>r. bits_to_bytes (field r)) ` insert no_bits (range rs))"
    using each[of rs] assms(1) zero by (simp add: image_image)
  also have "\<dots> = Max (insert 0 (\<Union>t \<in> set ts. (\<lambda>r. bits_to_bytes (field r)) ` range t))"
    unfolding assms(2) by (simp add: assms(1) zero image_UN)
  also have "\<dots> = Max (insert 0 ((\<lambda>t. bits_to_bytes (max_bits field t)) ` set ts))"
  proof (rule Max_eqI)
    fix y assume "y \<in> insert 0 (\<Union>t \<in> set ts. (\<lambda>r. bits_to_bytes (field r)) ` range t)"
    then consider "y = 0" | t r where "t \<in> set ts" "r \<in> range t" "y = bits_to_bytes (field r)" by blast
    then show "y \<le> Max (insert 0 ((\<lambda>t. bits_to_bytes (max_bits field t)) ` set ts))"
    proof cases
      case 2
      then have "y \<le> bits_to_bytes (max_bits field t)" unfolding each by (intro Max_ge) auto
      also have "\<dots> \<le> Max (insert 0 ((\<lambda>t. bits_to_bytes (max_bits field t)) ` set ts))" using 2 by (intro Max_ge) auto
      finally show ?thesis .
    qed simp
  next
    have "bits_to_bytes (max_bits field t) \<in> insert 0 ((\<lambda>r. bits_to_bytes (field r)) ` range t)" for t
      unfolding each by (intro Max_in) auto
    moreover have "Max (insert 0 ((\<lambda>t. bits_to_bytes (max_bits field t)) ` set ts))
        \<in> insert 0 ((\<lambda>t. bits_to_bytes (max_bits field t)) ` set ts)" by (intro Max_in) auto
    then have "Max (insert 0 ((\<lambda>t. bits_to_bytes (max_bits field t)) ` set ts)) = 0
      \<or> (\<exists>t \<in> set ts. Max (insert 0 ((\<lambda>t. bits_to_bytes (max_bits field t)) ` set ts)) = bits_to_bytes (max_bits field t))"
      by (simp only: insert_iff image_iff)
    ultimately show "Max (insert 0 ((\<lambda>t. bits_to_bytes (max_bits field t)) ` set ts))
        \<in> insert 0 (\<Union>t \<in> set ts. (\<lambda>r. bits_to_bytes (field r)) ` range t)" by (metis (lifting) UN_I insert_iff)
  qed simp
  finally show ?thesis .
qed

subsection \<open>Reading and writing items\<close>

text \<open>The bytes of a report descriptor are the raw bytes of the items that the iterator yields, one after
  the other and to the last byte, and reading the bytes of any well-formed items, long ones included, yields
  these items.\<close>

theorem descriptor_items_roundtrip:
  "(descriptor_items bytes = (items, None)) \<longleftrightarrow> (raw_bytes items = bytes \<and> list_all wf_item items)"
  using descriptor_items_sound[of bytes items] descriptor_items_complete[of items] by (auto simp: list_all_iff)

subsection \<open>What combining gives\<close>

definition id_count :: "HidReportDescriptor list \<Rightarrow> nat" where
  "id_count ds = sum_list (map (\<lambda>d. card (declared (report_ids_implicit d) (items_of d))) ds)"

definition wrappable :: "HidReportDescriptor \<Rightarrow> bool" where
  "wrappable d \<longleftrightarrow> accepted d \<and> framed (report_ids_implicit d) False [] (items_of d)"

lemma blocks_count:
  assumes "list_all2 (\<lambda>b d. distinct b \<and> set b = declared (report_ids_implicit d) (items_of d)) bss ds"
  shows "length (concat bss) = id_count ds"
  using assms by (induction rule: list_all2_induct) (auto simp: id_count_def dest: distinct_card)

lemma wrappable_tables:
  assumes "\<forall>d \<in> set ds. wrappable d"
  obtains ts where "list_all2 parses_to (inputs_of ds) ts" and "map (\<lambda>t. sizes_of t) ts = map max_report_sizes ds"
proof -
  have "\<exists>t. parses_to (report_ids_implicit d, items_of d) t \<and> sizes_of t = max_report_sizes d" if "d \<in> set ds" for d
    using assms that accepted_items(4)[of d] accepted_without_ids[of d] by (auto simp: wrappable_def parses_to_def)
  then obtain t where t: "\<forall>d \<in> set ds. parses_to (report_ids_implicit d, items_of d) (t d) \<and> sizes_of (t d) = max_report_sizes d"
    by metis
  show thesis
    by (rule that[of "map t ds"]) (use t in \<open>auto simp: inputs_of_def list_all2_conv_all_nth\<close>)
qed

lemma combine_wrappable:
  assumes "\<forall>d \<in> set ds. wrappable d" and "expected_size ds \<le> length out" and "id_count ds \<le> capacity" and "id_count ds \<le> 255"
  shows "\<exists>d m. combine capacity ds out = Inr (d, m)
    \<and> (\<forall>size \<in> {max_input, max_output, max_feature}.
        size (max_report_sizes d) = Max (insert 0 (set (map (\<lambda>d. size (max_report_sizes d)) ds))))"
proof -
  obtain ts where ts: "list_all2 parses_to (inputs_of ds) ts" "map (\<lambda>t. sizes_of t) ts = map max_report_sizes ds"
    using wrappable_tables[OF assms(1)] .
  have acc: "\<forall>d \<in> set ds. accepted d" using assms(1) by (simp add: wrappable_def)
  obtain js starts ids where r: "renumber_all [] (inputs_of ds) = (js, starts, ids)" by (cases "renumber_all [] (inputs_of ds)")
  from combine_outcome[OF acc assms(2), of capacity, unfolded r] obtain bss m where bss: "ids = concat bss"
    "list_all2 (\<lambda>b d. distinct b \<and> set b = declared (report_ids_implicit d) (items_of d)) bss ds"
    and result: "combine capacity ds out = map_sum (\<lambda>e. e) (\<lambda>d. (d, m)) (descriptor_new (raw_bytes js))"
    using blocks_count[of _ ds] assms(3,4) by (auto split: if_splits)
  have "length ids \<le> 255" using blocks_count[OF bss(2)] assms(4) bss(1) by simp
  moreover have "global_state parse_start = global_default" "global_stack parse_start = []"
    "\<forall>h. length [] < unat h \<longrightarrow> reports parse_start h = no_bits" by (simp_all add: parse_start_def)
  ultimately obtain q where q: "for_each parse_item js parse_start = (Inr (), q)"
    and entries: "insert no_bits (range (reports q)) = insert no_bits (range (reports parse_start)) \<union> (\<Union>t \<in> set ts. range t)"
    using sim_inputs[OF ts(1) r] by blast
  have "range (reports parse_start) = {no_bits}" by (auto simp: parse_start_def)
  then have same: "insert no_bits (range (reports q)) = insert no_bits (\<Union>t \<in> set ts. range t)" using entries by simp
  have "\<forall>j \<in> set js. wf_item j" using renumber_all_wf[OF acc, of "[]"] r by simp
  then obtain d where d: "descriptor_new (raw_bytes js) = Inr d" "max_report_sizes d = sizes_of (reports q)"
    using q unfolding descriptor_new_ok by (metis HidReportDescriptor.select_convs(3))
  have sizes: "set (map (\<lambda>d. f (max_report_sizes d)) ds) = set (map (\<lambda>t. f (sizes_of t)) ts)" for f :: "MaxReportSizes \<Rightarrow> nat"
    using arg_cong[OF ts(2), of "map f"] by (simp add: comp_def)
  have "no_bits\<lparr>input_bits := 0\<rparr> = no_bits" by (simp add: no_bits_def)
  show ?thesis
    unfolding result d(1) sizes
    using largest_of_all[of input_bits, OF _ same] largest_of_all[of output_bits, OF _ same] largest_of_all[of feature_bits, OF _ same]
    by (simp add: d(2) sizes_of_def no_bits_def)
qed

lemma too_many_ids:
  assumes "\<forall>d \<in> set ds. accepted d" and "expected_size ds \<le> length out" and "min capacity 255 < id_count ds"
  shows "combine capacity ds out = Inl TooManyReportIds"
  using combine_outcome[OF assms(1,2), of capacity] blocks_count[of _ ds] assms(3) by (auto split: if_splits)

text \<open>C20. The outcome of combining accepted descriptors that are \<open>wrappable\<close>: each pops what it pushes, leaves one level of
  the stack free, and declares every field of a report after its report ID (or, without IDs, in a collection). The
  buffer is checked first, then the number of report IDs against the table and the byte of an ID; with room for both
  they are combined, and the largest input, output and feature reports keep their sizes. An accepted descriptor
  that is not wrappable can fail in other ways.\<close>

theorem combine_results:
  assumes "\<forall>d \<in> set ds. wrappable d"
  shows "if length out < expected_size ds then combine capacity ds out = Inl (OutputBufferTooSmall (expected_size ds))
    else if min capacity 255 < id_count ds then combine capacity ds out = Inl TooManyReportIds
    else \<exists>d m. combine capacity ds out = Inr (d, m)
      \<and> (\<forall>size \<in> {max_input, max_output, max_feature}.
          size (max_report_sizes d) = Max (insert 0 (set (map (\<lambda>d. size (max_report_sizes d)) ds))))"
proof (cases "length out < expected_size ds")
  case True
  then show ?thesis by (simp add: combine_def)
next
  case room: False
  show ?thesis
  proof (cases "min capacity 255 < id_count ds")
    case True
    then show ?thesis using room too_many_ids[of ds out capacity] assms by (simp add: wrappable_def)
  next
    case False
    then show ?thesis using combine_wrappable[OF assms, of out capacity] room by simp
  qed
qed

text \<open>C21. In a map that \<open>combine\<close> returns the two lookups are inverse to each other: the host-facing IDs are the
  numbers from 1 to the length of the map, and they stand for the pairs of an input and one of the IDs that
  it declares, 0 for an input without IDs, each once.\<close>

theorem report_ids_translate:
  assumes "\<forall>d \<in> set ds. accepted d" and "combine capacity ds out = Inr (d, m)"
  shows "((route_report m h = Some (owner, n)) = (host_id m owner n = Some h))
    \<and> (\<exists>h. route_report m h = Some (owner, n)) =
      (owner < length ds \<and> n \<in> declared (report_ids_implicit (ds ! owner)) (items_of (ds ! owner)))
    \<and> (\<exists>owner n. route_report m h = Some (owner, n)) = (1 \<le> unat h \<and> unat h \<le> map_len m) \<and> map_len m = id_count ds"
proof (intro conjI)
  have room: "expected_size ds \<le> length out" using assms(2) by (auto simp: combine_def split: if_splits)
  obtain bss where bss: "maps_blocks bss m"
    "list_all2 (\<lambda>b d. distinct b \<and> set b = declared (report_ids_implicit d) (items_of d)) bss ds"
    using combine_outcome[OF assms(1) room, of capacity] assms(2)
    by (cases "descriptor_new (raw_bytes (fst (renumber_all [] (inputs_of ds))))") (auto split: if_splits)
  have distinct: "\<forall>b \<in> set bss. distinct b" using bss(2) by (auto simp: list_all2_conv_all_nth in_set_conv_nth)
  note lookups = route_numbered[OF bss(1)] host_id_numbered[OF bss(1) distinct]
  show "(route_report m h = Some (owner, n)) = (host_id m owner n = Some h)" by (simp add: lookups)
  have block: "set (bss ! owner) = declared (report_ids_implicit (ds ! owner)) (items_of (ds ! owner))" "length bss = length ds"
    if "owner < length bss" for owner
    using bss(2) that by (auto simp: list_all2_conv_all_nth)
  have few: "length (concat bss) \<le> 255" and len: "map_len m = length (concat bss)"
    using bss(1) by (simp_all add: maps_blocks_def map_len_def)
  show "(\<exists>h. route_report m h = Some (owner, n)) =
      (owner < length ds \<and> n \<in> declared (report_ids_implicit (ds ! owner)) (items_of (ds ! owner)))"
    unfolding lookups
    using numbered_once[of bss _ owner n] numbered_all[of owner bss n] few block(1)[of owner] list_all2_lengthD[OF bss(2)] by metis
  show "map_len m = id_count ds" using blocks_count[OF bss(2)] len by simp
  show "(\<exists>owner n. route_report m h = Some (owner, n)) = (1 \<le> unat h \<and> unat h \<le> map_len m)"
  proof
    assume "\<exists>owner n. route_report m h = Some (owner, n)"
    then obtain owner n where "index_of m h \<noteq> None" by (auto simp: route_report_def split: Option.bind_splits)
    then show "1 \<le> unat h \<and> unat h \<le> map_len m" by (auto simp: index_of_def split: if_splits)
  next
    assume h: "1 \<le> unat h \<and> unat h \<le> map_len m"
    then have less: "unat h - 1 < length (concat bss)" using len by linarith
    then obtain i j where "i < length bss" "j < length (bss ! i)" "unat h - 1 = length (concat (take i bss)) + j"
      using concat_position[OF less] by blast
    then have "numbered bss h i (bss ! i ! j)" using h by (auto simp: numbered_def)
    then show "\<exists>owner n. route_report m h = Some (owner, n)" using lookups(1) by blast
  qed
qed

text \<open>A device without report IDs and one with two.\<close>

definition plain_keyboard :: "u8 list" where
  "plain_keyboard = [0xA1, 1, 0x75, 8, 0x95, 2, 0x81, 2, 0xC0]"

definition two_reports :: "u8 list" where
  "two_reports = [0xA1, 1, 0x85, 7, 0x75, 8, 0x95, 3, 0x81, 2, 0x85, 3, 0x91, 2, 0xC0]"

lemma for_each_effects: "for_each parse_item items p = for_each apply_effect (map effect_of items) p"
  by (induction items arbitrary: p) (auto simp: parse_item_effect and_then_def split: prod.split sum.split)

lemma example_items:
  "fst (descriptor_items plain_keyboard) = map (\<lambda>(h, d). \<lparr>item_header = h, item_data = d, item_raw = h # d\<rparr>)
     [(0xA1, [1]), (0x75, [8]), (0x95, [2]), (0x81, [2]), (0xC0, [])]"
  "fst (descriptor_items two_reports) = map (\<lambda>(h, d). \<lparr>item_header = h, item_data = d, item_raw = h # d\<rparr>)
     [(0xA1, [1]), (0x85, [7]), (0x75, [8]), (0x95, [3]), (0x81, [2]), (0x85, [3]), (0x91, [2]), (0xC0, [])]"
  by code_simp+

lemma example_effects:
  "map effect_of (fst (descriptor_items plain_keyboard)) = [AddData 10, SetSize 8, SetCount 2, AddData 8, AddData 12]"
  "map effect_of (fst (descriptor_items two_reports))
    = [AddData 10, SetId 7, SetSize 8, SetCount 3, AddData 8, SetId 3, AddData 9, AddData 12]"
  by code_simp+

definition keyboard_descriptor :: HidReportDescriptor where
  "keyboard_descriptor = \<lparr>descriptor_bytes = plain_keyboard, report_ids_implicit = True,
     max_report_sizes = \<lparr>max_input = 2, max_output = 0, max_feature = 0\<rparr>\<rparr>"

definition two_reports_descriptor :: HidReportDescriptor where
  "two_reports_descriptor = \<lparr>descriptor_bytes = two_reports, report_ids_implicit = False,
     max_report_sizes = \<lparr>max_input = 3, max_output = 3, max_feature = 0\<rparr>\<rparr>"

lemma no_bits_fields [simp]: "input_bits no_bits = 0" "output_bits no_bits = 0" "feature_bits no_bits = 0"
  by (simp_all add: no_bits_def)

lemma max_bits_empty: "field no_bits = 0 \<Longrightarrow> max_bits field (\<lambda>_. no_bits) = 0"
  by (simp add: max_bits_Max)

lemma max_bits_upd:
  assumes "field no_bits = 0" and "rs k = no_bits"
  shows "max_bits field (rs(k := r)) = max (field r) (max_bits field rs)"
proof -
  have "insert no_bits (range (rs(k := r))) = insert r (insert no_bits (range rs))"
    using assms(2) by (auto simp: fun_upd_def image_iff)
  then show ?thesis using assms(1) by (simp add: max_bits_Max max.left_commute)
qed

lemma example_sizes:
  "sizes_of ((\<lambda>_. no_bits)(0 := no_bits\<lparr>input_bits := 16\<rparr>)) = max_report_sizes keyboard_descriptor"
  "sizes_of ((\<lambda>_. no_bits)(7 := no_bits\<lparr>input_bits := 24\<rparr>, 3 := no_bits\<lparr>output_bits := 24\<rparr>)) = max_report_sizes two_reports_descriptor"
  by (simp_all add: sizes_of_def max_bits_upd max_bits_empty max_def bits_to_bytes_def keyboard_descriptor_def two_reports_descriptor_def)

lemma example_parses:
  "\<exists>p. for_each parse_item (fst (descriptor_items plain_keyboard)) parse_start = (Inr (), p) \<and> ids_implicit p
     \<and> reports p = (\<lambda>_. no_bits)(0 := no_bits\<lparr>input_bits := 16\<rparr>)"
  "\<exists>p. for_each parse_item (fst (descriptor_items two_reports)) parse_start = (Inr (), p) \<and> \<not> ids_implicit p
     \<and> reports p = (\<lambda>_. no_bits)(7 := no_bits\<lparr>input_bits := 24\<rparr>, 3 := no_bits\<lparr>output_bits := 24\<rparr>)"
  unfolding for_each_effects example_effects
  by (simp_all add: parse_start_def global_default_def sat_mul_def sat_add_def add_bits_def tag_defs no_bits_def fun_upd_idem
      fun_eq_iff)

lemma accepted_by:
  assumes "descriptor_items (descriptor_bytes d) = (items, None)" and "for_each parse_item items parse_start = (Inr (), p)"
    and "report_ids_implicit d = ids_implicit p" and "max_report_sizes d = sizes_of (reports p)"
  shows "accepted d"
proof -
  have "d = \<lparr>descriptor_bytes = descriptor_bytes d, report_ids_implicit = ids_implicit p, max_report_sizes = sizes_of (reports p)\<rparr>"
    using assms(3,4) by simp
  then show ?thesis using descriptor_items_sound[OF assms(1)] assms(2) unfolding accepted_def descriptor_new_ok by blast
qed

lemma example_wrappable: "wrappable keyboard_descriptor" "wrappable two_reports_descriptor"
proof -
  have "snd (descriptor_items plain_keyboard) = None" "snd (descriptor_items two_reports) = None" by code_simp+
  then have items: "descriptor_items plain_keyboard = (fst (descriptor_items plain_keyboard), None)"
      "descriptor_items two_reports = (fst (descriptor_items two_reports), None)"
    by (metis prod.collapse)+
  have bytes: "descriptor_bytes keyboard_descriptor = plain_keyboard" "descriptor_bytes two_reports_descriptor = two_reports"
    "report_ids_implicit keyboard_descriptor" "\<not> report_ids_implicit two_reports_descriptor"
    by (simp_all add: keyboard_descriptor_def two_reports_descriptor_def)
  obtain p where p: "for_each parse_item (fst (descriptor_items plain_keyboard)) parse_start = (Inr (), p)" "ids_implicit p"
    "reports p = (\<lambda>_. no_bits)(0 := no_bits\<lparr>input_bits := 16\<rparr>)" using example_parses(1) by blast
  obtain q where q: "for_each parse_item (fst (descriptor_items two_reports)) parse_start = (Inr (), q)" "\<not> ids_implicit q"
    "reports q = (\<lambda>_. no_bits)(7 := no_bits\<lparr>input_bits := 24\<rparr>, 3 := no_bits\<lparr>output_bits := 24\<rparr>)" using example_parses(2) by blast
  have "accepted keyboard_descriptor" using accepted_by[of keyboard_descriptor, unfolded bytes, OF items(1) p(1)] p(2,3) bytes
    by (simp add: example_sizes)
  moreover have "accepted two_reports_descriptor"
    using accepted_by[of two_reports_descriptor, unfolded bytes, OF items(2) q(1)] q(2,3) bytes by (simp add: example_sizes)
  moreover have "framed True False [] (fst (descriptor_items plain_keyboard))" "framed False False [] (fst (descriptor_items two_reports))"
    by code_simp+
  ultimately show "wrappable keyboard_descriptor" "wrappable two_reports_descriptor"
    using bytes by (simp_all add: wrappable_def items_of_def)
qed

lemma example_declared:
  "declared True (fst (descriptor_items plain_keyboard)) = {0}" "declared False (fst (descriptor_items two_reports)) = {7, 3}"
  by code_simp+

lemma example_count:
  "id_count [keyboard_descriptor, two_reports_descriptor] = 3" "expected_size [keyboard_descriptor, two_reports_descriptor] = 32"
proof -
  show "id_count [keyboard_descriptor, two_reports_descriptor] = 3"
    by (simp add: id_count_def items_of_def keyboard_descriptor_def two_reports_descriptor_def example_declared)
qed (simp add: expected_size_def MAX_DESCRIPTOR_FRAMING_OVERHEAD_def keyboard_descriptor_def two_reports_descriptor_def plain_keyboard_def two_reports_def)

lemma combine_results_witness:
  "\<exists>d m. combine 3 [keyboard_descriptor, two_reports_descriptor] (replicate 32 0) = Inr (d, m) \<and> max_input (max_report_sizes d) = 3
    \<and> combine 2 [keyboard_descriptor, two_reports_descriptor] (replicate 32 0) = Inl TooManyReportIds"
proof -
  let ?ds = "[keyboard_descriptor, two_reports_descriptor]"
  have ok: "\<forall>d \<in> set ?ds. wrappable d" using example_wrappable by simp
  obtain d m where "combine 3 ?ds (replicate 32 0) = Inr (d, m)"
    "max_input (max_report_sizes d) = Max (insert 0 (set (map (\<lambda>d. max_input (max_report_sizes d)) ?ds)))"
    using combine_results[OF ok, of "replicate 32 0" 3] by (auto simp: example_count)
  moreover have "combine 2 ?ds (replicate 32 0) = Inl TooManyReportIds"
    using combine_results[OF ok, of "replicate 32 0" 2] by (simp add: example_count)
  ultimately show ?thesis by (simp add: keyboard_descriptor_def two_reports_descriptor_def)
qed

lemma report_ids_translate_witness:
  "\<exists>d m. combine 3 [keyboard_descriptor, two_reports_descriptor] (replicate 32 0) = Inr (d, m)
    \<and> map_len m = 3 \<and> (\<exists>h. route_report m h = Some (1, 7))"
proof -
  let ?ds = "[keyboard_descriptor, two_reports_descriptor]"
  have ok: "\<forall>d \<in> set ?ds. wrappable d" and acc: "\<forall>d \<in> set ?ds. accepted d" using example_wrappable by (simp_all add: wrappable_def)
  have "declared False (items_of two_reports_descriptor) = {7, 3}"
    by (simp add: items_of_def two_reports_descriptor_def example_declared)
  moreover obtain d m where combined: "combine 3 ?ds (replicate 32 0) = Inr (d, m)"
    using combine_wrappable[OF ok, of "replicate 32 0" 3] by (auto simp: example_count)
  moreover have "\<not> report_ids_implicit two_reports_descriptor" by (simp add: two_reports_descriptor_def)
  moreover have "(\<exists>h. route_report m h = Some (1, 7)) \<and> map_len m = 3"
    using report_ids_translate[OF acc combined, of 0 1 7] calculation(1,3) by (simp add: example_count)
  ultimately show ?thesis by blast
qed

end
