(* ===== verification/Hid_Aggregate.thy ===== *)
theory Hid_Aggregate
  imports Hid_Device Hid_Map_Props
begin

text \<open>
  The aggregate device that \<open>impl_hid_aggregate_device!\<close> of \<open>embedded-service/src/relay/hid.rs\<close> generates: a
  device made of devices. The list \<open>devs\<close> holds the operations of the children, which the code selects by the
  variant of the child, and the state holds their states in the same order.
\<close>

subsection \<open>The generated device\<close>

record 'd Aggregate =
  children :: "'d list"
  agg_descriptor :: HidReportDescriptor
  agg_map :: ReportIdMap

definition DESCRIPTOR_BUF_LEN :: "'d hid_device list \<Rightarrow> nat" where
  "DESCRIPTOR_BUF_LEN devs = sum_list (map max_descriptor_len devs) + MAX_DESCRIPTOR_FRAMING_OVERHEAD * length devs"

definition aggregate_new :: "'d hid_device list \<Rightarrow> 'd list \<Rightarrow> (HidDescriptorError, 'd Aggregate) result" where
  "aggregate_new devs cs =
     (case combine (sum_list (map max_report_count devs)) (map (\<lambda>(dev, c). report_descriptor dev c) (zip devs cs))
             (replicate (DESCRIPTOR_BUF_LEN devs) 0) of
        Inl e \<Rightarrow> Inl e
      | Inr (d, m) \<Rightarrow> Inr \<lparr>children = cs, agg_descriptor = d, agg_map = m\<rparr>)"

text \<open>A call of a child, by index.\<close>

definition on_child ::
  "'d hid_device list \<Rightarrow> nat \<Rightarrow> ('d hid_device \<Rightarrow> ('d, HidError, 'a) action) \<Rightarrow> ('d Aggregate, HidError, 'a) action" where
  "on_child devs i f s =
     (if i < length devs \<and> i < length (children s)
      then (case f (devs ! i) (children s ! i) of (r, c) \<Rightarrow> (r, s\<lparr>children := (children s)[i := c]\<rparr>))
      else (Inl TriggerReset, s))"

definition aggregate_get_report ::
  "'d hid_device list \<Rightarrow> GetHidReportType \<Rightarrow> u8 \<Rightarrow> ('d Aggregate, HidError, GetHidReport) action" where
  "aggregate_get_report devs report_type i s =
     (case route_report (agg_map s) i of
        Some (index, native) \<Rightarrow> on_child devs index (\<lambda>dev. get_report dev report_type native) s
      | None \<Rightarrow> (Inl TriggerReset, s))"

definition aggregate_set_report :: "'d hid_device list \<Rightarrow> SetHidReport \<Rightarrow> ('d Aggregate, HidError, unit) action" where
  "aggregate_set_report devs report s =
     (case route_report (agg_map s) (set_id report) of
        Some (index, native) \<Rightarrow> on_child devs index (\<lambda>dev. set_report dev (relabel native report)) s
      | None \<Rightarrow> (Inl TriggerReset, s))"

text \<open>\<open>select_array\<close>: the first child whose wait ends; those that wait on are dropped.\<close>

fun first_ready :: "'d hid_device list \<Rightarrow> 'd list \<Rightarrow> 'd list option" where
  "first_ready (dev # devs) (c # cs) =
     (case wait_for_report dev c of Some c' \<Rightarrow> Some (c' # cs) | None \<Rightarrow> map_option ((#) c) (first_ready devs cs))"
| "first_ready _ _ = None"

definition aggregate_wait :: "'d hid_device list \<Rightarrow> 'd Aggregate \<Rightarrow> 'd Aggregate option" where
  "aggregate_wait devs s = map_option (\<lambda>cs. s\<lparr>children := cs\<rparr>) (first_ready devs (children s))"

text \<open>\<open>iter_mut().position(has_pending_input_report)\<close>, which stops at the first child that has a report.\<close>

fun first_pending :: "'d hid_device list \<Rightarrow> 'd list \<Rightarrow> nat option \<times> 'd list" where
  "first_pending (dev # devs) (c # cs) =
     (case has_pending dev c of
        (True, c') \<Rightarrow> (Some 0, c' # cs)
      | (False, c') \<Rightarrow> (case first_pending devs cs of (i, cs') \<Rightarrow> (map_option Suc i, c' # cs')))"
| "first_pending _ cs = (None, cs)"

definition aggregate_has_pending :: "'d hid_device list \<Rightarrow> 'd Aggregate \<Rightarrow> bool \<times> 'd Aggregate" where
  "aggregate_has_pending devs s =
     (case first_pending devs (children s) of (i, cs) \<Rightarrow> (i \<noteq> None, s\<lparr>children := cs\<rparr>))"

partial_function (option) find_pending :: "'d hid_device list \<Rightarrow> 'd list \<Rightarrow> (nat \<times> 'd list) option" where
  "find_pending devs cs =
     (case first_pending devs cs of
        (Some i, cs') \<Rightarrow> Some (i, cs')
      | (None, cs') \<Rightarrow> Option.bind (first_ready devs cs') (find_pending devs))"

text \<open>An ID that is not in the block of the child is passed on as it is.\<close>

definition to_host :: "ReportIdMap \<Rightarrow> nat \<Rightarrow> HidReport \<Rightarrow> HidReport" where
  "to_host m i report =
     \<lparr>hid_id = (case host_id m i (hid_id report) of Some h \<Rightarrow> h | None \<Rightarrow> hid_id report), hid_data = hid_data report\<rparr>"

definition aggregate_next_report ::
  "'d hid_device list \<Rightarrow> 'd Aggregate \<Rightarrow> ((HidError, HidReport) result \<times> 'd Aggregate) option" where
  "aggregate_next_report devs s =
     Option.bind (find_pending devs (children s)) (\<lambda>(i, cs).
       if i < length devs \<and> i < length cs then
         map_option (\<lambda>(r, c). (map_sum (\<lambda>e. e) (to_host (agg_map s) i) r, s\<lparr>children := cs[i := c]\<rparr>))
           (next_report (devs ! i) (cs ! i))
       else Some (Inl TriggerReset, s\<lparr>children := cs\<rparr>))"

text \<open>The first child that fails ends the change of the power state.\<close>

fun power_children ::
  "HidDevicePowerState \<Rightarrow> 'd hid_device list \<Rightarrow> 'd list \<Rightarrow> (HidError, unit) result \<times> 'd list" where
  "power_children p (dev # devs) (c # cs) =
     (case power_state dev p c of
        (Inl e, c') \<Rightarrow> (Inl e, c' # cs)
      | (Inr _, c') \<Rightarrow> (case power_children p devs cs of (r, cs') \<Rightarrow> (r, c' # cs')))"
| "power_children p _ cs = (Inr (), cs)"

definition aggregate_power :: "'d hid_device list \<Rightarrow> HidDevicePowerState \<Rightarrow> ('d Aggregate, HidError, unit) action" where
  "aggregate_power devs p s = (case power_children p devs (children s) of (r, cs) \<Rightarrow> (r, s\<lparr>children := cs\<rparr>))"

definition aggregate_reset :: "'d hid_device list \<Rightarrow> 'd Aggregate \<Rightarrow> 'd Aggregate" where
  "aggregate_reset devs s = s\<lparr>children := map (\<lambda>(dev, c). reset_device dev c) (zip devs (children s)) @ drop (length devs) (children s)\<rparr>"

definition aggregate :: "'d hid_device list \<Rightarrow> 'd Aggregate hid_device" where
  "aggregate devs =
     \<lparr>input_report_max = fold max (map input_report_max devs) 0, output_report_max = fold max (map output_report_max devs) 0,
      feature_report_max = fold max (map feature_report_max devs) 0, max_report_count = sum_list (map max_report_count devs),
      max_descriptor_len = DESCRIPTOR_BUF_LEN devs, report_descriptor = agg_descriptor,
      get_report = aggregate_get_report devs, set_report = aggregate_set_report devs, wait_for_report = aggregate_wait devs,
      has_pending = aggregate_has_pending devs, next_report = aggregate_next_report devs, power_state = aggregate_power devs,
      reset_device = aggregate_reset devs\<rparr>"

subsection \<open>An aggregate of devices is a device\<close>

lemma first_pending_again:
  assumes "\<forall>dev \<in> set devs. hid_device dev" and "first_pending devs cs = (i, cs')"
  shows "first_pending devs cs' = (i, cs')"
  using assms
proof (induction devs cs arbitrary: i cs' rule: first_pending.induct)
  case (1 dev devs c cs)
  obtain b c' where asked: "has_pending dev c = (b, c')" by fastforce
  then have again: "has_pending dev c' = (b, c')" using hid_device.pending_stable[of dev] "1.prems"(1) by simp
  show ?case
  proof (cases b)
    case True
    then show ?thesis using "1.prems"(2) asked again by auto
  next
    case False
    obtain j ds where rest: "first_pending devs cs = (j, ds)" by fastforce
    then have "first_pending devs ds = (j, ds)" using "1.IH"[OF asked[symmetric] _ _ rest] "1.prems"(1) False by simp
    then show ?thesis using "1.prems"(2) asked again False rest by auto
  qed
qed auto

lemma first_ready_pending:
  assumes "\<forall>dev \<in> set devs. hid_device dev" and "first_ready devs cs = Some cs'"
  shows "\<exists>i cs''. first_pending devs cs' = (Some i, cs'')"
  using assms
proof (induction devs cs arbitrary: cs' rule: first_ready.induct)
  case (1 dev devs c cs)
  show ?case
  proof (cases "wait_for_report dev c")
    case (Some c')
    then have "fst (has_pending dev c')" using hid_device.wait_gives_pending "1.prems"(1) by (metis list.set_intros(1))
    then show ?thesis using "1.prems"(2) Some by (auto split: prod.splits bool.splits)
  next
    case None
    then obtain ds where ds: "first_ready devs cs = Some ds" "cs' = c # ds" using "1.prems"(2) by auto
    then obtain i cs'' where "first_pending devs ds = (Some i, cs'')" using "1.IH"[OF None _ ds(1)] "1.prems"(1) by auto
    then show ?thesis by (auto simp: ds(2) split: prod.splits bool.splits)
  qed
qed auto

lemma first_pending_ready:
  assumes "\<forall>dev \<in> set devs. hid_device dev" and "first_pending devs cs = (Some i, cs')"
  shows "\<exists>ds. first_ready devs cs = Some ds"
  using assms
proof (induction devs cs arbitrary: i cs' rule: first_pending.induct)
  case (1 dev devs c cs)
  obtain b c' where asked: "has_pending dev c = (b, c')" by fastforce
  show ?case
  proof (cases b)
    case True
    then show ?thesis using hid_device.pending_ends_wait[of dev c] "1.prems"(1) asked by auto
  next
    case False
    then show ?thesis using "1.IH"[OF asked[symmetric]] "1.prems" asked by (auto split: prod.splits option.splits)
  qed
qed auto

lemma first_pending_index:
  "first_pending devs cs = (Some i, cs') \<Longrightarrow> i < length devs \<and> i < length cs' \<and> fst (has_pending (devs ! i) (cs ! i))
    \<and> cs' ! i = snd (has_pending (devs ! i) (cs ! i)) \<and> length cs' = length cs"
  by (induction devs cs arbitrary: i cs' rule: first_pending.induct) (auto split: prod.splits bool.splits)

lemma find_pending_pending: "first_pending devs cs = (Some i, cs') \<Longrightarrow> find_pending devs cs = Some (i, cs')"
  by (simp add: find_pending.simps)

lemma aggregate_is_device:
  assumes "\<forall>dev \<in> set devs. hid_device dev"
  shows "hid_device (aggregate devs)"
proof
  fix s s' :: "'a Aggregate" and b
  assume "has_pending (aggregate devs) s = (b, s')"
  then show "has_pending (aggregate devs) s' = (b, s')"
    using first_pending_again[OF assms] by (auto simp: aggregate_def aggregate_has_pending_def split: prod.splits)
next
  fix s s' :: "'a Aggregate"
  assume "wait_for_report (aggregate devs) s = Some s'"
  then show "fst (has_pending (aggregate devs) s')"
    using first_ready_pending[OF assms] by (fastforce simp: aggregate_def aggregate_has_pending_def aggregate_wait_def split: prod.splits)
next
  fix s :: "'a Aggregate"
  assume "fst (has_pending (aggregate devs) s)"
  then obtain i cs where pending: "first_pending devs (children s) = (Some i, cs)"
    by (auto simp: aggregate_def aggregate_has_pending_def split: prod.splits)
  then show "\<exists>s'. wait_for_report (aggregate devs) s = Some s'"
    using first_pending_ready[OF assms] by (auto simp: aggregate_def aggregate_wait_def)
  note index = first_pending_index[OF pending]
  then have "hid_device (devs ! i)" using assms by simp
  then obtain r where "next_report (devs ! i) (cs ! i) = Some r"
    using hid_device.asked_is_available index by (metis prod.collapse)
  then show "\<exists>r. next_report (aggregate devs) s = Some r"
    using index by (simp add: aggregate_def aggregate_next_report_def find_pending_pending[OF pending])
qed (auto simp: aggregate_def aggregate_has_pending_def aggregate_wait_def aggregate_next_report_def aggregate_get_report_def
    aggregate_set_report_def aggregate_power_def aggregate_reset_def on_child_def split: prod.splits option.splits
    Option.bind_splits if_splits)

end
