(* ===== verification/Hid_I2c_Bus.thy ===== *)
theory Hid_I2c_Bus
  imports Hid_Device Relay_Bytes
begin

text \<open>
  The I2C bus and the attention pin as the HID target uses them, of \<open>hidi2c-target-service/src\<close>: the wrapper
  with timeouts of \<open>service.rs\<close>, \<open>attn_pin_handler.rs\<close> and \<open>error.rs\<close>. What the bus and the pin of the platform
  do is part of the state: for each kind of call the outcomes that have come up to some moment, in any order and number,
  timeouts among them. A call for which nothing more has come has not returned by then, which \<open>Hangs\<close> stands for: a
  host that never stops is one for which every number of outcomes leaves the service waiting. The bytes offered to the
  host are recorded.
\<close>

subsection \<open>Errors\<close>

datatype HidProtocolError = InvalidData | InvalidSize | InvalidRegisterAddress | InvalidCommand | InvalidReportType | ProtocolTimeout

text \<open>Errors of the bus are only logged, so they carry nothing. \<open>Hangs\<close> is no error of the code but stands for a
  call of the bus or of the device that has not returned.\<close>

datatype I2cError = BusError | ProtocolFailed HidProtocolError | DeviceFailed HidError | Hangs

subsection \<open>The bus\<close>

datatype I2cRequest = WriteRequest | ReadRequest | RepeatedStart | OtherRequest

datatype WriteStatus = WriteStopped nat | WriteRestarted nat | BufferFull nat | OtherWriteStatus

datatype ReadStatus = NeedMore nat | OtherReadStatus

datatype 'a bus_outcome = TimedOut | BusFailed | BusDone 'a

record I2cBus =
  listens :: "I2cRequest bus_outcome list"
  host_writes :: "(WriteStatus \<times> u8 list) bus_outcome list"
  host_reads :: "ReadStatus bus_outcome list"
  recoveries :: "bool list"
  replies :: "u8 list list"

text \<open>\<open>recover\<close>, which is called after a timeout.\<close>

definition recover_bus :: "(I2cBus, I2cError, unit) action" where
  "recover_bus b =
     (case recoveries b of
        [] \<Rightarrow> (Inr (), b)
      | r # rs \<Rightarrow> (if r then Inr () else Inl BusError, b\<lparr>recoveries := rs\<rparr>))"

definition bus_timed_out :: "(I2cBus, I2cError, 'a) action" where
  "bus_timed_out = and_then recover_bus (\<lambda>_. err (ProtocolFailed ProtocolTimeout))"

text \<open>Repeated starts are skipped; this wait does not recover the bus.\<close>

function listen_for_response :: "(I2cBus, I2cError, I2cRequest) action" where
  "listen_for_response b =
     (case listens b of
        [] \<Rightarrow> (Inl Hangs, b)
      | TimedOut # ls \<Rightarrow> (Inl (ProtocolFailed ProtocolTimeout), b\<lparr>listens := ls\<rparr>)
      | BusFailed # ls \<Rightarrow> (Inl BusError, b\<lparr>listens := ls\<rparr>)
      | BusDone request # ls \<Rightarrow>
          if request = RepeatedStart then listen_for_response (b\<lparr>listens := ls\<rparr>) else (Inr request, b\<lparr>listens := ls\<rparr>))"
  by pat_completeness auto
termination
  by (relation "measure (\<lambda>b. length (listens b))") auto

declare listen_for_response.simps [simp del]

text \<open>\<open>respond_to_write\<close>: the outcome, if there is one, and the buffer with the bytes of the host at its front.\<close>

definition fill_buffer :: "u8 list \<Rightarrow> u8 list \<Rightarrow> u8 list" where
  "fill_buffer bytes buf = take (length buf) (bytes @ drop (length bytes) buf)"

definition respond_to_write :: "u8 list \<Rightarrow> I2cBus \<Rightarrow> WriteStatus bus_outcome option \<times> u8 list \<times> I2cBus" where
  "respond_to_write buf b =
     (case host_writes b of
        [] \<Rightarrow> (None, buf, b)
      | TimedOut # ws \<Rightarrow> (Some TimedOut, buf, b\<lparr>host_writes := ws\<rparr>)
      | BusFailed # ws \<Rightarrow> (Some BusFailed, buf, b\<lparr>host_writes := ws\<rparr>)
      | BusDone (status, bytes) # ws \<Rightarrow> (Some (BusDone status), fill_buffer bytes buf, b\<lparr>host_writes := ws\<rparr>))"

lemma respond_to_write_length: "respond_to_write buf b = (r, buf', b') \<Longrightarrow> length buf' = length buf"
  by (auto simp: respond_to_write_def fill_buffer_def split: list.splits bus_outcome.splits)

lemma respond_to_write_shrinks:
  "respond_to_write buf b = (Some s, buf', b') \<Longrightarrow> length (host_writes b') < length (host_writes b)"
  by (auto simp: respond_to_write_def split: bus_outcome.splits list.splits)

function discard_remaining_bytes :: "(I2cBus, I2cError, unit) action" where
  "discard_remaining_bytes b =
     (case respond_to_write (replicate 16 0) b of
        (None, _, b') \<Rightarrow> (Inl Hangs, b')
      | (Some TimedOut, _, b') \<Rightarrow> bus_timed_out b'
      | (Some BusFailed, _, b') \<Rightarrow> (Inl BusError, b')
      | (Some (BusDone (BufferFull _)), _, b') \<Rightarrow> discard_remaining_bytes b'
      | (Some (BusDone _), _, b') \<Rightarrow> (Inr (), b'))"
  by pat_completeness auto
termination
  by (relation "measure (\<lambda>b. length (host_writes b))") (auto dest: respond_to_write_shrinks[OF sym])

declare discard_remaining_bytes.simps [simp del]

text \<open>\<open>TimeoutBus::read\<close> into the buffer of the service: the bytes read and the buffer.\<close>

definition bus_read :: "u8 list \<Rightarrow> I2cBus \<Rightarrow> ((I2cError, u8 list) result \<times> u8 list) \<times> I2cBus" where
  "bus_read buf b =
     (case respond_to_write buf b of
        (None, buf', b') \<Rightarrow> ((Inl Hangs, buf'), b')
      | (Some TimedOut, buf', b') \<Rightarrow> (case bus_timed_out b' of (r, b'') \<Rightarrow> ((r, buf'), b''))
      | (Some BusFailed, buf', b') \<Rightarrow> ((Inl BusError, buf'), b')
      | (Some (BusDone (BufferFull _)), buf', b') \<Rightarrow>
          (case and_then discard_remaining_bytes (\<lambda>_. err (ProtocolFailed InvalidData)) b' of (r, b'') \<Rightarrow> ((r, buf'), b''))
      | (Some (BusDone OtherWriteStatus), buf', b') \<Rightarrow> ((Inl (ProtocolFailed InvalidData), buf'), b')
      | (Some (BusDone (WriteStopped n)), buf', b') \<Rightarrow>
          ((if n \<le> length buf' then Inr (take n buf') else Inl (ProtocolFailed InvalidData), buf'), b')
      | (Some (BusDone (WriteRestarted n)), buf', b') \<Rightarrow>
          ((if n \<le> length buf' then Inr (take n buf') else Inl (ProtocolFailed InvalidData), buf'), b'))"

text \<open>\<open>respond_to_read\<close>, and whether the host asks for more.\<close>

definition write_unterminated :: "u8 list \<Rightarrow> (I2cBus, I2cError, bool) action" where
  "write_unterminated bytes b =
     (let b' = b\<lparr>replies := replies b @ [bytes]\<rparr>
      in case host_reads b of
           [] \<Rightarrow> (Inl Hangs, b')
         | TimedOut # rs \<Rightarrow> bus_timed_out (b'\<lparr>host_reads := rs\<rparr>)
         | BusFailed # rs \<Rightarrow> (Inl BusError, b'\<lparr>host_reads := rs\<rparr>)
         | BusDone status # rs \<Rightarrow> (Inr (case status of NeedMore _ \<Rightarrow> True | OtherReadStatus \<Rightarrow> False), b'\<lparr>host_reads := rs\<rparr>))"

definition PADDING_BUFFER :: "u8 list" where "PADDING_BUFFER = replicate 8 0"

lemma timed_out_fails [simp]: "bus_timed_out b \<noteq> (Inr a, b')"
  by (auto simp: bus_timed_out_def and_then_def split: prod.splits sum.splits)

lemma write_unterminated_shrinks: "write_unterminated bytes b = (Inr again, b') \<Longrightarrow> length (host_reads b') < length (host_reads b)"
  by (auto simp: write_unterminated_def Let_def split: bus_outcome.splits list.splits)

function write_padded :: "u8 list \<Rightarrow> (I2cBus, I2cError, unit) action" where
  "write_padded bytes b =
     (case write_unterminated bytes b of
        (Inl e, b') \<Rightarrow> (Inl e, b')
      | (Inr again, b') \<Rightarrow> if again then write_padded PADDING_BUFFER b' else (Inr (), b'))"
  by pat_completeness auto
termination
  by (relation "measure (\<lambda>(_, b). length (host_reads b))") (auto dest: write_unterminated_shrinks[OF sym])

declare write_padded.simps [simp del]

subsection \<open>The attention pin\<close>

text \<open>\<open>pin_low\<close> is the level of the pin, unknown until it has been set once. \<open>pin_faults\<close> are the calls to come that
  fail, with the level that such a call leaves the pin at, whatever it is, and the calls that succeed.\<close>

datatype pin_outcome = PinSet | PinFails "bool option"

record AttnPin =
  pin_low :: "bool option"
  pin_faults :: "pin_outcome list"
  asserted :: bool

definition set_pin :: "bool \<Rightarrow> AttnPin \<Rightarrow> bool \<times> AttnPin" where
  "set_pin low p =
     (case pin_faults p of
        PinFails level # fs \<Rightarrow> (False, p\<lparr>pin_low := level, pin_faults := fs\<rparr>)
      | fs \<Rightarrow> (True, p\<lparr>pin_low := Some low, pin_faults := tl fs\<rparr>))"

definition clear_interrupt :: "AttnPin \<Rightarrow> AttnPin" where
  "clear_interrupt p = (case set_pin False p of (True, p') \<Rightarrow> p'\<lparr>asserted := False\<rparr> | (False, p') \<Rightarrow> p')"

definition assert_interrupt :: "AttnPin \<Rightarrow> AttnPin" where
  "assert_interrupt p = (case set_pin True p of (True, p') \<Rightarrow> p'\<lparr>asserted := True\<rparr> | (False, p') \<Rightarrow> p')"

definition attn_pin_new :: "bool option \<Rightarrow> pin_outcome list \<Rightarrow> AttnPin" where
  "attn_pin_new level faults = clear_interrupt \<lparr>pin_low = level, pin_faults = faults, asserted = False\<rparr>"

end
