(* ===== verification/Hid_I2c.thy ===== *)
theory Hid_I2c
  imports Hid_I2c_Bus
begin

text \<open>
  The HID target on I2C, of \<open>hidi2c-target-service/src\<close>: the device descriptor, the requests of the host and
  the events of the run loop. The HID device is a parameter.
\<close>

subsection \<open>Registers and the device descriptor\<close>

datatype HidI2cRegister = RegDeviceDescriptor | RegReportDescriptor | RegInput | RegOutput | RegCommand | RegData

definition register_address :: "HidI2cRegister \<Rightarrow> u16" where
  "register_address r =
     (case r of RegDeviceDescriptor \<Rightarrow> 1 | RegReportDescriptor \<Rightarrow> 2 | RegInput \<Rightarrow> 3 | RegOutput \<Rightarrow> 4 | RegCommand \<Rightarrow> 5 | RegData \<Rightarrow> 6)"

definition register_try_from :: "u16 \<Rightarrow> HidI2cRegister option" where
  "register_try_from a =
     (if a = 1 then Some RegDeviceDescriptor else if a = 2 then Some RegReportDescriptor else if a = 3 then Some RegInput
      else if a = 4 then Some RegOutput else if a = 5 then Some RegCommand else if a = 6 then Some RegData else None)"

record DeviceDescriptor =
  w_hid_desc_length :: u16
  bcd_version :: u16
  w_report_desc_length :: u16
  w_report_desc_register :: u16
  w_input_register :: u16
  w_max_input_length :: u16
  w_output_register :: u16
  w_max_output_length :: u16
  w_command_register :: u16
  w_data_register :: u16
  w_vendor_id :: u16
  w_product_id :: u16
  w_version_id :: u16

text \<open>\<open>as_bytes\<close>, on a little-endian target; the four reserved bytes are zero.\<close>

definition descriptor_as_bytes :: "DeviceDescriptor \<Rightarrow> u8 list" where
  "descriptor_as_bytes d =
     concat (map to_le_bytes16
       [w_hid_desc_length d, bcd_version d, w_report_desc_length d, w_report_desc_register d, w_input_register d,
        w_max_input_length d, w_output_register d, w_max_output_length d, w_command_register d, w_data_register d,
        w_vendor_id d, w_product_id d, w_version_id d]) @ [0, 0, 0, 0]"

record HardwareVersionInfo =
  vendor_id :: u16
  product_id :: u16
  version_id :: u16

text \<open>The vendor ID is not zero.\<close>

definition vendor_id_new :: "u16 \<Rightarrow> u16 option" where
  "vendor_id_new v = (if v = 0 then None else Some v)"

definition HID_REPORT_HEADER_SIZE_BYTES :: u16 where "HID_REPORT_HEADER_SIZE_BYTES = 2"
definition HID_REPORT_ID_SIZE_BYTES :: u16 where "HID_REPORT_ID_SIZE_BYTES = 1"

datatype DeviceDescriptorError =
    InputReportTooLarge nat nat | OutputReportTooLarge nat nat | FeatureReportTooLarge nat nat

definition device_descriptor_new ::
  "'d hid_device \<Rightarrow> 'd \<Rightarrow> HardwareVersionInfo \<Rightarrow> (DeviceDescriptorError, DeviceDescriptor) result" where
  "device_descriptor_new dev d hwinfo =
     (let descriptor = report_descriptor dev d; sizes = max_report_sizes descriptor;
          header = HID_REPORT_HEADER_SIZE_BYTES + (if report_ids_implicit descriptor then 0 else HID_REPORT_ID_SIZE_BYTES)
      in if input_report_max dev < max_input sizes then Inl (InputReportTooLarge (max_input sizes) (input_report_max dev))
         else if output_report_max dev < max_output sizes then Inl (OutputReportTooLarge (max_output sizes) (output_report_max dev))
         else if feature_report_max dev < max_feature sizes then Inl (FeatureReportTooLarge (max_feature sizes) (feature_report_max dev))
         else Inr \<lparr>w_hid_desc_length = 30, bcd_version = 0x0100,
                w_report_desc_length = word_of_nat (length (descriptor_bytes descriptor)),
                w_report_desc_register = register_address RegReportDescriptor, w_input_register = register_address RegInput,
                w_max_input_length = word_of_nat (input_report_max dev) + header,
                w_output_register = register_address RegOutput, w_max_output_length = word_of_nat (output_report_max dev) + header,
                w_command_register = register_address RegCommand, w_data_register = register_address RegData,
                w_vendor_id = vendor_id hwinfo, w_product_id = product_id hwinfo, w_version_id = version_id hwinfo\<rparr>)"

subsection \<open>The service\<close>

datatype Opcode = OpReset | OpGetReport | OpSetReport | OpSetPower

definition opcode_try_from :: "u8 \<Rightarrow> Opcode option" where
  "opcode_try_from b =
     (if b = 1 then Some OpReset else if b = 2 then Some OpGetReport else if b = 3 then Some OpSetReport
      else if b = 8 then Some OpSetPower else None)"

definition power_state_try_from :: "u8 \<Rightarrow> HidDevicePowerState option" where
  "power_state_try_from b = (if b = 0 then Some HidOn else if b = 1 then Some HidSleep else None)"

datatype HidI2cReportType = InputReport | OutputReport | FeatureReport

definition get_type :: "HidI2cReportType \<Rightarrow> (HidProtocolError, GetHidReportType) result" where
  "get_type t = (case t of InputReport \<Rightarrow> Inr GetInputType | FeatureReport \<Rightarrow> Inr GetFeatureType | OutputReport \<Rightarrow> Inl InvalidReportType)"

text \<open>\<open>try_from_command_byte\<close>: the type, and the ID unless it is in a byte of its own.\<close>

definition command_header :: "u8 \<Rightarrow> (HidProtocolError, HidI2cReportType \<times> u8 option) result" where
  "command_header b =
     (let t = drop_bit 4 b; i = (if b AND 0x0F = 0x0F then None else Some (b AND 0x0F))
      in if t = 1 then Inr (InputReport, i) else if t = 2 then Inr (OutputReport, i) else if t = 3 then Inr (FeatureReport, i)
         else Inl InvalidReportType)"

record 'd HidRunner =
  bus :: I2cBus
  attn_pin :: AttnPin
  hid_dev :: 'd
  device_descriptor :: DeviceDescriptor
  write_buf :: "u8 list"
  pending_reset :: bool
  reset_signal :: bool

definition write_buffer_size :: "'d hid_device \<Rightarrow> nat" where
  "write_buffer_size dev = max (feature_report_max dev) (output_report_max dev) + 9"

definition i2c_service_new ::
  "'d hid_device \<Rightarrow> I2cBus \<Rightarrow> bool option \<Rightarrow> pin_outcome list \<Rightarrow> 'd \<Rightarrow> HardwareVersionInfo \<Rightarrow> (DeviceDescriptorError, 'd HidRunner) result" where
  "i2c_service_new dev b level faults d hwinfo =
     (case device_descriptor_new dev d hwinfo of
        Inl e \<Rightarrow> Inl e
      | Inr dd \<Rightarrow> Inr \<lparr>bus = b, attn_pin = attn_pin_new level faults, hid_dev = d, device_descriptor = dd,
                   write_buf = replicate (write_buffer_size dev) 0, pending_reset = False, reset_signal = False\<rparr>)"

type_synonym ('d, 'a) i2c = "('d HidRunner, I2cError, 'a) action"

definition on_bus :: "(I2cBus, I2cError, 'a) action \<Rightarrow> ('d, 'a) i2c" where
  "on_bus m s = (case m (bus s) of (r, b) \<Rightarrow> (r, s\<lparr>bus := b\<rparr>))"

definition on_hid :: "('d, HidError, 'a) action \<Rightarrow> ('d, 'a) i2c" where
  "on_hid m s = (case m (hid_dev s) of (r, d) \<Rightarrow> (map_sum DeviceFailed (\<lambda>a. a) r, s\<lparr>hid_dev := d\<rparr>))"

definition protocol :: "HidProtocolError \<Rightarrow> ('d, 'a) i2c" where
  "protocol e = err (ProtocolFailed e)"

text \<open>\<open>?\<close> on a protocol error, and \<open>split_first\<close> and \<open>split_first_chunk::<2>\<close> with the error of the caller.\<close>

definition or_protocol :: "(HidProtocolError, 'a) result \<Rightarrow> ('a \<Rightarrow> ('d, 'b) i2c) \<Rightarrow> ('d, 'b) i2c" where
  "or_protocol r k = (case r of Inl e \<Rightarrow> protocol e | Inr a \<Rightarrow> k a)"

definition split_first :: "HidProtocolError \<Rightarrow> u8 list \<Rightarrow> (HidProtocolError, u8 \<times> u8 list) result" where
  "split_first e bytes = (case bytes of [] \<Rightarrow> Inl e | b # bs \<Rightarrow> Inr (b, bs))"

definition split_u16 :: "HidProtocolError \<Rightarrow> u8 list \<Rightarrow> (HidProtocolError, u16 \<times> u8 list) result" where
  "split_u16 e bytes = (if length bytes < 2 then Inl e else Inr (from_le_bytes16 (take 2 bytes), drop 2 bytes))"

definition get_range :: "nat \<Rightarrow> nat \<Rightarrow> u8 list \<Rightarrow> (HidProtocolError, u8 list) result" where
  "get_range start n bytes = (if start + n \<le> length bytes then Inr (take n (drop start bytes)) else Inl InvalidSize)"

subsection \<open>Input reports\<close>

definition clear_attn :: "'d HidRunner \<Rightarrow> 'd HidRunner" where
  "clear_attn s = s\<lparr>attn_pin := clear_interrupt (attn_pin s)\<rparr>"

definition ids_implicit_of :: "'d hid_device \<Rightarrow> 'd HidRunner \<Rightarrow> bool" where
  "ids_implicit_of dev s = report_ids_implicit (report_descriptor dev (hid_dev s))"

definition ask_pending :: "'d hid_device \<Rightarrow> ('d, bool) i2c" where
  "ask_pending dev = on_hid (\<lambda>d. case has_pending dev d of (b, d') \<Rightarrow> (Inr b, d'))"

definition take_report :: "'d hid_device \<Rightarrow> ('d, HidReport) i2c" where
  "take_report dev s =
     (case next_report dev (hid_dev s) of
        None \<Rightarrow> (Inl Hangs, s)
      | Some (r, d) \<Rightarrow> (map_sum DeviceFailed (\<lambda>a. a) r, s\<lparr>hid_dev := d\<rparr>))"

text \<open>The header that goes before an input report.\<close>

definition input_header :: "bool \<Rightarrow> HidReport \<Rightarrow> u8 list" where
  "input_header implicit report =
     to_le_bytes16 (word_of_nat (length (hid_data report)) + HID_REPORT_HEADER_SIZE_BYTES
       + (if implicit then 0 else HID_REPORT_ID_SIZE_BYTES))
     @ (if implicit then [] else [hid_id report])"

definition send_empty_report :: "('d, unit) i2c" where
  "send_empty_report = on_bus (write_padded [0, 0])"

definition reply_with_input_report :: "'d hid_device \<Rightarrow> ('d, unit) i2c" where
  "reply_with_input_report dev s =
     (if pending_reset s then
        and_then send_empty_report (\<lambda>_. modify (\<lambda>s. clear_attn (s\<lparr>pending_reset := False\<rparr>))) s
      else
        and_then (ask_pending dev) (\<lambda>pending.
          if \<not> pending then and_then send_empty_report (\<lambda>_. modify clear_attn)
          else
            (\<lambda>s. let implicit = ids_implicit_of dev s
                 in and_then (take_report dev) (\<lambda>report.
                    and_then (on_bus (write_unterminated (input_header implicit report))) (\<lambda>_.
                    and_then (on_bus (write_padded (hid_data report))) (\<lambda>_.
                    and_then (ask_pending dev) (\<lambda>pending.
                      if pending then ok () else modify clear_attn)))) s)) s)"

definition process_input_report_read :: "'d hid_device \<Rightarrow> ('d, unit) i2c" where
  "process_input_report_read dev =
     and_then (on_bus listen_for_response) (\<lambda>request.
       if request = ReadRequest then reply_with_input_report dev else protocol InvalidCommand)"

subsection \<open>Commands\<close>

definition get_io_command_report_header :: "u8 list \<Rightarrow> u8 \<Rightarrow> (HidProtocolError, HidI2cReportType \<times> u8 \<times> u8 list) result" where
  "get_io_command_report_header data command_byte =
     (case command_header command_byte of
       Inl e \<Rightarrow> Inl e
     | Inr (report_type, header_id) \<Rightarrow>
         (case (case header_id of Some i \<Rightarrow> Inr (i, data) | None \<Rightarrow> split_first InvalidSize data) of
            Inl e \<Rightarrow> Inl e
          | Inr (i, data) \<Rightarrow>
              (case split_u16 InvalidSize data of
                 Inl e \<Rightarrow> Inl e
               | Inr (address, data) \<Rightarrow>
                   if address \<noteq> register_address RegData then Inl InvalidRegisterAddress else Inr (report_type, i, data))))"

definition process_get_command :: "'d hid_device \<Rightarrow> u8 \<Rightarrow> u8 list \<Rightarrow> ('d, unit) i2c" where
  "process_get_command dev command_byte data =
     or_protocol (get_io_command_report_header data command_byte) (\<lambda>(report_type, i, _).
     and_then (on_bus listen_for_response) (\<lambda>request.
       if request \<noteq> ReadRequest then protocol InvalidCommand
       else or_protocol (get_type report_type) (\<lambda>t.
         and_then (on_hid (get_report dev t i)) (\<lambda>report.
         and_then (on_bus (write_unterminated
           (to_le_bytes16 (word_of_nat (length (get_report_data report)) + HID_REPORT_HEADER_SIZE_BYTES)))) (\<lambda>_.
         on_bus (write_padded (get_report_data report)))))))"

definition process_set_command :: "'d hid_device \<Rightarrow> u8 \<Rightarrow> u8 list \<Rightarrow> ('d, unit) i2c" where
  "process_set_command dev command_byte data s =
     or_protocol (get_io_command_report_header data command_byte) (\<lambda>(report_type, i, data).
     or_protocol (split_u16 InvalidSize data) (\<lambda>(len, data).
       if unat len < unat HID_REPORT_HEADER_SIZE_BYTES then protocol InvalidSize
       else or_protocol (get_range (if ids_implicit_of dev s then 0 else 1) (unat len - unat HID_REPORT_HEADER_SIZE_BYTES) data)
         (\<lambda>report_data.
           case report_type of
             InputReport \<Rightarrow> protocol InvalidReportType
           | OutputReport \<Rightarrow> on_hid (set_report dev (SetOutput \<lparr>hid_id = i, hid_data = report_data\<rparr>))
           | FeatureReport \<Rightarrow> on_hid (set_report dev (SetFeature \<lparr>hid_id = i, hid_data = report_data\<rparr>))))) s"

definition process_command :: "'d hid_device \<Rightarrow> u8 list \<Rightarrow> ('d, unit) i2c" where
  "process_command dev data =
     or_protocol (split_first InvalidCommand data) (\<lambda>(command_byte, data).
     or_protocol (split_first InvalidCommand data) (\<lambda>(opcode_byte, data).
       case opcode_try_from opcode_byte of
         None \<Rightarrow> protocol InvalidCommand
       | Some OpReset \<Rightarrow> err (DeviceFailed TriggerReset)
       | Some OpSetPower \<Rightarrow>
           (case power_state_try_from command_byte of
              None \<Rightarrow> protocol InvalidCommand
            | Some p \<Rightarrow> on_hid (power_state dev p))
       | Some OpGetReport \<Rightarrow> process_get_command dev command_byte data
       | Some OpSetReport \<Rightarrow> process_set_command dev command_byte data))"

subsection \<open>Register accesses\<close>

text \<open>A write to the output register: length, report ID if reports have one, and the report.\<close>

definition process_output :: "'d hid_device \<Rightarrow> u8 list \<Rightarrow> ('d, unit) i2c" where
  "process_output dev data s =
     or_protocol (split_u16 InvalidSize data) (\<lambda>(len, data).
     or_protocol (if ids_implicit_of dev s then Inr (0, data) else split_first InvalidSize data) (\<lambda>(i, data).
       let header = 2 + (if ids_implicit_of dev s then 0 else 1)
       in if unat len < header then protocol InvalidSize
          else or_protocol (get_range 0 (unat len - header) data)
            (\<lambda>report_data. on_hid (set_report dev (SetOutput \<lparr>hid_id = i, hid_data = report_data\<rparr>))))) s"

definition read_request :: "('d, u8 list) i2c" where
  "read_request s = (case bus_read (write_buf s) (bus s) of ((r, buf), b) \<Rightarrow> (r, s\<lparr>write_buf := buf, bus := b\<rparr>))"

text \<open>The answer to a read that follows the access to a descriptor register.\<close>

definition answer_read :: "('d HidRunner \<Rightarrow> u8 list) \<Rightarrow> ('d, unit) i2c" where
  "answer_read bytes =
     and_then (on_bus listen_for_response) (\<lambda>request.
       if request = ReadRequest then (\<lambda>s. on_bus (write_padded (bytes s)) s) else protocol InvalidRegisterAddress)"

definition access_register :: "'d hid_device \<Rightarrow> u8 list \<Rightarrow> ('d, unit) i2c" where
  "access_register dev data =
     or_protocol (split_u16 InvalidData data) (\<lambda>(address, data).
       case register_try_from address of
         None \<Rightarrow> protocol InvalidRegisterAddress
       | Some RegDeviceDescriptor \<Rightarrow> answer_read (\<lambda>s. descriptor_as_bytes (device_descriptor s))
       | Some RegReportDescriptor \<Rightarrow> answer_read (\<lambda>s. descriptor_bytes (report_descriptor dev (hid_dev s)))
       | Some RegInput \<Rightarrow> process_input_report_read dev
       | Some RegOutput \<Rightarrow> process_output dev data
       | Some RegCommand \<Rightarrow> process_command dev data
       | Some RegData \<Rightarrow> protocol InvalidRegisterAddress)"

definition process_register_access :: "'d hid_device \<Rightarrow> ('d, unit) i2c" where
  "process_register_access dev = and_then read_request (access_register dev)"

definition reset_runner :: "'d hid_device \<Rightarrow> 'd HidRunner \<Rightarrow> 'd HidRunner" where
  "reset_runner dev s =
     (let s = s\<lparr>hid_dev := reset_device dev (hid_dev s), pending_reset := True\<rparr>
      in s\<lparr>attn_pin := assert_interrupt (attn_pin s)\<rparr>)"

text \<open>The result of a request, and what the service does with it.\<close>

definition handle_request :: "'d hid_device \<Rightarrow> I2cRequest \<Rightarrow> ('d, unit) i2c" where
  "handle_request dev request =
     (case request of
        WriteRequest \<Rightarrow> process_register_access dev
      | ReadRequest \<Rightarrow> reply_with_input_report dev
      | _ \<Rightarrow> ok ())"

definition process_request :: "'d hid_device \<Rightarrow> I2cRequest \<Rightarrow> 'd HidRunner \<Rightarrow> 'd HidRunner" where
  "process_request dev request s =
     (case handle_request dev request s of
        (Inl (DeviceFailed TriggerReset), s') \<Rightarrow> reset_runner dev s'
      | (_, s') \<Rightarrow> s')"

subsection \<open>The run loop\<close>

text \<open>What \<open>select3\<close> yields: a request with what happens on the bus from then on, an error of the bus, a report of
  the device, which is waited for only while the pin is not asserted, or the signal of \<open>Service::reset\<close>.\<close>

text \<open>A request whose handling has not returned is not over: \<open>None\<close>.\<close>

datatype RunEvent = HostRequest I2cRequest I2cBus | ListenFailed | ReportReady | ResetSignalled

definition run_event :: "'d hid_device \<Rightarrow> RunEvent \<Rightarrow> 'd HidRunner \<Rightarrow> 'd HidRunner option" where
  "run_event dev e s =
     (case e of
        HostRequest request b \<Rightarrow>
          (let s = s\<lparr>bus := b\<lparr>replies := replies (bus s)\<rparr>\<rparr>
           in if fst (handle_request dev request s) = Inl Hangs then None else Some (process_request dev request s))
      | ListenFailed \<Rightarrow> Some s
      | ReportReady \<Rightarrow>
          (if asserted (attn_pin s) then None
           else map_option (\<lambda>d. s\<lparr>hid_dev := d, attn_pin := assert_interrupt (attn_pin s)\<rparr>) (wait_for_report dev (hid_dev s)))
      | ResetSignalled \<Rightarrow> (if reset_signal s then Some (reset_runner dev (s\<lparr>reset_signal := False\<rparr>)) else None))"

definition service_reset :: "'d HidRunner \<Rightarrow> 'd HidRunner" where
  "service_reset s = s\<lparr>reset_signal := True\<rparr>"

text \<open>Steps of the system: an event, \<open>Service::reset\<close>, or the device changing on its own, by \<open>env\<close>.\<close>

inductive i2c_step :: "'d hid_device \<Rightarrow> ('d \<Rightarrow> 'd \<Rightarrow> bool) \<Rightarrow> 'd HidRunner \<Rightarrow> 'd HidRunner \<Rightarrow> bool" for dev env where
  event: "run_event dev e s = Some s' \<Longrightarrow> i2c_step dev env s s'"
| signal: "i2c_step dev env s (service_reset s)"
| environment: "env (hid_dev s) d \<Longrightarrow> i2c_step dev env s (s\<lparr>hid_dev := d\<rparr>)"

end
