(* ===== verification/Hid_Keyboard.thy ===== *)
theory Hid_Keyboard
  imports Hid_Device Hid_Map_Props
begin

text \<open>
  The keyboard as a HID device, of \<open>keyboard-service/src/relay.rs\<close>, and the parts of
  \<open>keyboard-service/src/interface.rs\<close> it uses. The keyboard service is a parameter: a fallible call that
  sets the LEDs and one that sets the power state. The subscriber is the list of reports it has not taken.
\<close>

subsection \<open>Interface of keyboards\<close>

type_synonym KeyboardInputReport = "u8 list"

definition keyboard_report :: "u8 \<Rightarrow> u8 list \<Rightarrow> KeyboardInputReport" where
  "keyboard_report modifiers keys = [modifiers, 0, keys ! 0, keys ! 1, keys ! 2, keys ! 3, keys ! 4, keys ! 5]"

definition no_keys :: KeyboardInputReport where "no_keys = replicate 8 0"

definition error_report :: "u8 \<Rightarrow> KeyboardInputReport" where
  "error_report code = take 2 no_keys @ map (\<lambda>_. code) (drop 2 no_keys)"

datatype KeyboardPowerState = KeyboardOn | KeyboardSleep | KeyboardOff

record 's keyboard_service =
  set_leds :: "u8 \<Rightarrow> 's \<Rightarrow> bool \<times> 's"
  set_keyboard_power :: "KeyboardPowerState \<Rightarrow> 's \<Rightarrow> 's"

subsection \<open>The relay\<close>

definition REPORT_ID :: u8 where "REPORT_ID = 0"

definition REPORT_DESCRIPTOR :: "u8 list" where
  "REPORT_DESCRIPTOR =
     [0x05, 0x01, 0x09, 0x06, 0xA1, 0x01,
      0x05, 0x07, 0x19, 0xE0, 0x29, 0xE7, 0x15, 0x00, 0x25, 0x01, 0x75, 0x01, 0x95, 0x08, 0x81, 0x02,
      0x19, 0x00, 0x29, 0x91, 0x26, 0xFF, 0x00, 0x75, 0x08, 0x95, 0x06, 0x81, 0x00,
      0x05, 0x08, 0x19, 0x01, 0x29, 0x03, 0x75, 0x01, 0x95, 0x03, 0x25, 0x01, 0x91, 0x02,
      0x95, 0x05, 0x91, 0x01, 0xC0]"

record 's KeyboardHidRelay =
  kb_service :: 's
  kb_subscriber :: "KeyboardInputReport list"
  kb_descriptor :: HidReportDescriptor
  pending_input_report :: "KeyboardInputReport option"
  last_report :: KeyboardInputReport

datatype KeyboardHidRelayError = NoSubscriberSlotAvailable | InvalidReportDescriptor HidDescriptorError

definition keyboard_relay_new ::
  "bool \<Rightarrow> KeyboardInputReport list \<Rightarrow> 's \<Rightarrow> (KeyboardHidRelayError, 's KeyboardHidRelay) result" where
  "keyboard_relay_new slot_free subscriber service =
     (if \<not> slot_free then Inl NoSubscriberSlotAvailable
      else case descriptor_new REPORT_DESCRIPTOR of
             Inl e \<Rightarrow> Inl (InvalidReportDescriptor e)
           | Inr d \<Rightarrow> Inr \<lparr>kb_service = service, kb_subscriber = subscriber, kb_descriptor = d,
                        pending_input_report = None, last_report = no_keys\<rparr>)"

definition keyboard_get_report :: "GetHidReportType \<Rightarrow> u8 \<Rightarrow> ('s KeyboardHidRelay, HidError, GetHidReport) action" where
  "keyboard_get_report report_type i k =
     (if report_type = GetInputType \<and> i = REPORT_ID then (Inr (GetInput \<lparr>hid_id = i, hid_data = last_report k\<rparr>), k)
      else (Inl TriggerReset, k))"

text \<open>A failure to set the LEDs is only logged.\<close>

definition keyboard_set_report :: "'s keyboard_service \<Rightarrow> SetHidReport \<Rightarrow> ('s KeyboardHidRelay, HidError, unit) action" where
  "keyboard_set_report svc report k =
     (case report of
        SetOutput r \<Rightarrow>
          if hid_id r = REPORT_ID
          then (Inr (), k\<lparr>kb_service := snd (set_leds svc (case hid_data r of [] \<Rightarrow> 0 | b # _ \<Rightarrow> b) (kb_service k))\<rparr>)
          else (Inr (), k)
      | SetFeature _ \<Rightarrow> (Inr (), k))"

definition keyboard_wait :: "'s KeyboardHidRelay \<Rightarrow> 's KeyboardHidRelay option" where
  "keyboard_wait k =
     (case pending_input_report k of
        Some _ \<Rightarrow> Some k
      | None \<Rightarrow>
          (case kb_subscriber k of
             [] \<Rightarrow> None
           | r # rs \<Rightarrow> Some (k\<lparr>pending_input_report := Some r, kb_subscriber := rs\<rparr>)))"

definition keyboard_has_pending :: "'s KeyboardHidRelay \<Rightarrow> bool \<times> 's KeyboardHidRelay" where
  "keyboard_has_pending k = (pending_input_report k \<noteq> None \<or> kb_subscriber k \<noteq> [], k)"

definition keyboard_next_report :: "'s KeyboardHidRelay \<Rightarrow> ((HidError, HidReport) result \<times> 's KeyboardHidRelay) option" where
  "keyboard_next_report k =
     Option.bind (keyboard_wait k) (\<lambda>k.
     Option.bind (pending_input_report k) (\<lambda>report.
       Some (Inr \<lparr>hid_id = REPORT_ID, hid_data = report\<rparr>, k\<lparr>pending_input_report := None, last_report := report\<rparr>)))"

definition keyboard_power :: "'s keyboard_service \<Rightarrow> HidDevicePowerState \<Rightarrow> ('s KeyboardHidRelay, HidError, unit) action" where
  "keyboard_power svc state k =
     (Inr (), k\<lparr>kb_service := set_keyboard_power svc
        (case state of HidOn \<Rightarrow> KeyboardOn | HidSleep \<Rightarrow> KeyboardSleep | HidOff \<Rightarrow> KeyboardOff) (kb_service k)\<rparr>)"

definition keyboard_reset :: "'s KeyboardHidRelay \<Rightarrow> 's KeyboardHidRelay" where
  "keyboard_reset k = k\<lparr>pending_input_report := None, last_report := no_keys, kb_subscriber := []\<rparr>"

definition keyboard_device :: "'s keyboard_service \<Rightarrow> 's KeyboardHidRelay hid_device" where
  "keyboard_device svc =
     \<lparr>input_report_max = 8, output_report_max = 1, feature_report_max = 0, max_report_count = 1,
      max_descriptor_len = length REPORT_DESCRIPTOR, report_descriptor = kb_descriptor,
      get_report = keyboard_get_report, set_report = keyboard_set_report svc, wait_for_report = keyboard_wait,
      has_pending = keyboard_has_pending, next_report = keyboard_next_report, power_state = keyboard_power svc,
      reset_device = keyboard_reset\<rparr>"

interpretation keyboard: hid_device "keyboard_device svc" for svc
  by unfold_locales
    (auto simp: keyboard_device_def keyboard_has_pending_def keyboard_wait_def keyboard_next_report_def keyboard_get_report_def
      keyboard_set_report_def keyboard_power_def keyboard_reset_def neq_Nil_conv
      split: option.splits list.splits SetHidReport.splits Option.bind_splits)

subsection \<open>Its descriptor and its reports\<close>

definition keyboard_descriptor_of_relay :: HidReportDescriptor where
  "keyboard_descriptor_of_relay = \<lparr>descriptor_bytes = REPORT_DESCRIPTOR, report_ids_implicit = True,
     max_report_sizes = \<lparr>max_input = 7, max_output = 1, max_feature = 0\<rparr>\<rparr>"

lemma keyboard_effects:
  "filter (\<lambda>e. e \<noteq> Skip) (map effect_of (fst (descriptor_items REPORT_DESCRIPTOR)))
    = [AddData 10, SetSize 1, SetCount 8, AddData 8, SetSize 8, SetCount 6, AddData 8, SetSize 1, SetCount 3, AddData 9, SetCount 5,
       AddData 9, AddData 12]"
  by code_simp

lemma skip_effects: "for_each apply_effect (filter (\<lambda>e. e \<noteq> Skip) es) p = for_each apply_effect es p"
  by (induction es arbitrary: p) (auto simp: and_then_def split: prod.split sum.split)

lemma keyboard_parses:
  "\<exists>p. for_each parse_item (fst (descriptor_items REPORT_DESCRIPTOR)) parse_start = (Inr (), p) \<and> ids_implicit p
     \<and> reports p = (\<lambda>_. no_bits)(0 := \<lparr>input_bits = 56, output_bits = 8, feature_bits = 0\<rparr>)"
  unfolding for_each_effects skip_effects[symmetric, of "map effect_of _"] keyboard_effects
  by (simp add: parse_start_def global_default_def sat_mul_def sat_add_def add_bits_def tag_defs no_bits_def fun_upd_idem fun_eq_iff)

lemma keyboard_descriptor_new: "descriptor_new REPORT_DESCRIPTOR = Inr keyboard_descriptor_of_relay"
proof -
  obtain p where p: "for_each parse_item (fst (descriptor_items REPORT_DESCRIPTOR)) parse_start = (Inr (), p)" "ids_implicit p"
    "reports p = (\<lambda>_. no_bits)(0 := \<lparr>input_bits = 56, output_bits = 8, feature_bits = 0\<rparr>)" using keyboard_parses by blast
  have "snd (descriptor_items REPORT_DESCRIPTOR) = None" by code_simp
  then have items: "descriptor_items (descriptor_bytes keyboard_descriptor_of_relay) = (fst (descriptor_items REPORT_DESCRIPTOR), None)"
    by (metis HidReportDescriptor.select_convs(1) keyboard_descriptor_of_relay_def prod.collapse)
  have "sizes_of (reports p) = \<lparr>max_input = 7, max_output = 1, max_feature = 0\<rparr>"
    by (simp add: p(3) sizes_of_def max_bits_upd max_bits_empty max_def bits_to_bytes_def)
  then have "accepted keyboard_descriptor_of_relay"
    using accepted_by[OF items p(1)] p(2) by (simp add: keyboard_descriptor_of_relay_def)
  then show ?thesis by (simp add: accepted_def keyboard_descriptor_of_relay_def)
qed

text \<open>The relay starts whenever the service has a free subscriber, but the descriptor it presents declares
  input reports of seven bytes while every report of the keyboard has eight: the reserved byte after the
  modifiers is not declared.\<close>

theorem keyboard_reports_exceed_descriptor:
  "\<exists>k. keyboard_relay_new True rs s = Inr k \<and> report_descriptor (keyboard_device svc) k = keyboard_descriptor_of_relay
    \<and> max_input (max_report_sizes (report_descriptor (keyboard_device svc) k)) = 7 \<and> length (keyboard_report m keys) = 8
    \<and> length no_keys = 8 \<and> length (error_report code) = 8"
  by (simp add: keyboard_relay_new_def keyboard_descriptor_new keyboard_device_def keyboard_descriptor_of_relay_def keyboard_report_def
      no_keys_def error_report_def)

end
