(* ===== verification/Hid_I2c_Props.thy ===== *)
theory Hid_I2c_Props
  imports Hid_I2c Hid_Keyboard
begin

text \<open>
  What the HID target does: the attention pin follows the state in every run, malformed requests do not reach the
  device, and a report that the device has pending is announced and sent.
\<close>

subsection \<open>The attention pin\<close>

definition calls_work :: "pin_outcome list \<Rightarrow> bool" where "calls_work = list_all (\<lambda>c. c = PinSet)"

definition pin_works :: "AttnPin \<Rightarrow> bool" where "pin_works p \<longleftrightarrow> calls_work (pin_faults p)"

text \<open>If the pin never fails, the flag tells the level of the pin and a pending reset is announced.\<close>

definition attn_ok :: "bool \<Rightarrow> bool \<Rightarrow> AttnPin \<Rightarrow> bool" where
  "attn_ok works reset p \<longleftrightarrow> (works \<longrightarrow> pin_works p \<and> (asserted p \<longleftrightarrow> pin_low p = Some True) \<and> (reset \<longrightarrow> asserted p))"

lemma clear_ok: "attn_ok works reset p \<Longrightarrow> attn_ok works False (clear_interrupt p)"
  by (cases "pin_faults p") (auto simp: attn_ok_def clear_interrupt_def set_pin_def pin_works_def calls_work_def split: bool.splits pin_outcome.splits)

lemma assert_ok: "attn_ok works reset p \<Longrightarrow> attn_ok works reset' (assert_interrupt p)"
  by (cases "pin_faults p") (auto simp: attn_ok_def assert_interrupt_def set_pin_def pin_works_def calls_work_def split: bool.splits pin_outcome.splits)

lemma assert_works: "pin_works p \<Longrightarrow> asserted (assert_interrupt p) \<and> pin_works (assert_interrupt p)"
  by (cases "pin_faults p") (auto simp: assert_interrupt_def set_pin_def pin_works_def calls_work_def split: bool.splits pin_outcome.splits)

lemma attn_pin_new_ok: "(works \<Longrightarrow> calls_work faults) \<Longrightarrow> attn_ok works False (attn_pin_new level faults)"
  by (cases faults) (auto simp: attn_pin_new_def attn_ok_def clear_interrupt_def set_pin_def pin_works_def calls_work_def
      split: bool.splits pin_outcome.splits)

subsection \<open>Calls that leave the pin alone\<close>

definition runner_ok :: "bool \<Rightarrow> 'd hid_device \<Rightarrow> 'd HidRunner \<Rightarrow> bool" where
  "runner_ok works dev s \<longleftrightarrow> attn_ok works (pending_reset s) (attn_pin s) \<and> length (write_buf s) = write_buffer_size dev"

lemma keeps_on_bus [keeps_intros]: "(\<And>s b. P (s\<lparr>bus := b\<rparr>) = P s) \<Longrightarrow> keeps P (on_bus m)"
  by (simp add: keeps_def on_bus_def split: prod.splits)

lemma keeps_on_hid [keeps_intros]: "(\<And>s d. P (s\<lparr>hid_dev := d\<rparr>) = P s) \<Longrightarrow> keeps P (on_hid m)"
  by (simp add: keeps_def on_hid_def split: prod.splits)

lemma keeps_take_report [keeps_intros]: "(\<And>s d. P (s\<lparr>hid_dev := d\<rparr>) = P s) \<Longrightarrow> keeps P (take_report dev)"
  by (simp add: keeps_def take_report_def split: prod.splits option.splits)

lemma keeps_protocol [keeps_intros]: "keeps P (protocol e)"
  by (simp add: protocol_def keeps_intros)

lemma keeps_or_protocol [keeps_intros]: "(\<And>a. keeps P (k a)) \<Longrightarrow> keeps P (or_protocol r k)"
  by (simp add: or_protocol_def keeps_intros split: sum.split)

lemma runner_ok_updates [simp]:
  "runner_ok works dev (s\<lparr>bus := b\<rparr>) = runner_ok works dev s" "runner_ok works dev (s\<lparr>hid_dev := d\<rparr>) = runner_ok works dev s"
  "runner_ok works dev (s\<lparr>reset_signal := r\<rparr>) = runner_ok works dev s"
  by (simp_all add: runner_ok_def)

lemma runner_ok_clear: "runner_ok works dev s \<Longrightarrow> runner_ok works dev (clear_attn (s\<lparr>pending_reset := False\<rparr>))"
  using clear_ok by (auto simp: runner_ok_def clear_attn_def)

lemma keeps_ask_pending [keeps_intros]: "keeps (runner_ok works dev) (ask_pending dev')"
  by (simp add: ask_pending_def keeps_intros)

lemma keeps_send_empty [keeps_intros]: "keeps (runner_ok works dev) send_empty_report"
  by (simp add: send_empty_report_def keeps_intros)

text \<open>The pin is cleared only when no reset is pending.\<close>

definition no_reset :: "bool \<Rightarrow> 'd hid_device \<Rightarrow> 'd HidRunner \<Rightarrow> bool" where
  "no_reset works dev s \<longleftrightarrow> runner_ok works dev s \<and> \<not> pending_reset s"

lemma no_reset_updates [simp]:
  "no_reset works dev (s\<lparr>bus := b\<rparr>) = no_reset works dev s" "no_reset works dev (s\<lparr>hid_dev := d\<rparr>) = no_reset works dev s"
  by (simp_all add: no_reset_def)

lemma no_reset_clear: "no_reset works dev s \<Longrightarrow> no_reset works dev (clear_attn s)"
  using clear_ok by (fastforce simp: no_reset_def runner_ok_def clear_attn_def)

lemma keeps_reply: "keeps (runner_ok works dev) (reply_with_input_report dev)"
proof (rule keepsI)
  fix s assume ok: "runner_ok works dev s"
  show "runner_ok works dev (snd (reply_with_input_report dev s))"
  proof (cases "pending_reset s")
    case True
    have "keeps (runner_ok works dev) (and_then send_empty_report (\<lambda>_. modify (\<lambda>s. clear_attn (s\<lparr>pending_reset := False\<rparr>))))"
      by (intro keeps_intros runner_ok_clear)
    then show ?thesis using ok True by (simp add: reply_with_input_report_def keepsD)
  next
    case False
    have "keeps (no_reset works dev) (ask_pending dev)" "keeps (no_reset works dev) send_empty_report"
      by (simp_all add: ask_pending_def send_empty_report_def keeps_intros)
    note parts = this
    have inner: "keeps (no_reset works dev) (and_then (take_report dev) (\<lambda>report.
                    and_then (on_bus (write_unterminated (input_header implicit report))) (\<lambda>_.
                    and_then (on_bus (write_padded (hid_data report))) (\<lambda>_.
                    and_then (ask_pending dev) (\<lambda>pending.
                      if pending then ok () else modify clear_attn)))))" for implicit
      using parts by (auto intro!: keeps_intros no_reset_clear)
    have "keeps (no_reset works dev) (and_then (ask_pending dev) (\<lambda>pending.
          if \<not> pending then and_then send_empty_report (\<lambda>_. modify clear_attn)
          else
            (\<lambda>s. let implicit = ids_implicit_of dev s
                 in and_then (take_report dev) (\<lambda>report.
                    and_then (on_bus (write_unterminated (input_header implicit report))) (\<lambda>_.
                    and_then (on_bus (write_padded (hid_data report))) (\<lambda>_.
                    and_then (ask_pending dev) (\<lambda>pending.
                      if pending then ok () else modify clear_attn)))) s)))"
      unfolding Let_def using parts keeps_read[OF inner, of "ids_implicit_of dev"] by (auto intro!: keeps_intros no_reset_clear)
    moreover have "no_reset works dev s" using ok False by (simp add: no_reset_def)
    ultimately have "no_reset works dev (snd (reply_with_input_report dev s))"
      using False by (simp add: reply_with_input_report_def keepsD)
    then show ?thesis by (simp add: no_reset_def)
  qed
qed

lemma keeps_commands:
  "keeps (runner_ok works dev) (process_get_command dev c data)" "keeps (runner_ok works dev) (process_command dev data)"
  "keeps (runner_ok works dev) (process_output dev data)"
proof -
  show get: "keeps (runner_ok works dev) (process_get_command dev c data)" for c data
    by (auto simp: process_get_command_def intro!: keeps_intros split: prod.split)
  have set: "keeps (runner_ok works dev) (process_set_command dev c data)" for c data
    unfolding process_set_command_def
    by (rule keeps_read[where g = "ids_implicit_of dev"])
      (auto intro!: keeps_intros split: prod.split HidI2cReportType.split)
  show "keeps (runner_ok works dev) (process_command dev data)"
    by (auto simp: process_command_def intro!: keeps_intros get set split: prod.split option.split Opcode.split)
  show "keeps (runner_ok works dev) (process_output dev data)"
    unfolding process_output_def
    by (rule keeps_read[where g = "ids_implicit_of dev"]) (auto simp: Let_def intro!: keeps_intros split: prod.split)
qed

lemma bus_read_length: "bus_read buf b = ((r, buf'), b') \<Longrightarrow> length buf' = length buf"
  by (auto simp: bus_read_def dest: respond_to_write_length split: prod.splits option.splits bus_outcome.splits WriteStatus.splits)

lemma keeps_read_request [keeps_intros]: "keeps (runner_ok works dev) read_request"
  by (auto simp: keeps_def read_request_def runner_ok_def dest: bus_read_length split: prod.splits)

lemma keeps_handle_request: "keeps (runner_ok works dev) (handle_request dev request)"
proof -
  have "keeps (runner_ok works dev) (\<lambda>s. on_bus (write_padded (f s)) s)" for f :: "'a HidRunner \<Rightarrow> u8 list"
    by (rule keeps_read[of _ "\<lambda>bytes. on_bus (write_padded bytes)" f]) (simp add: keeps_intros)
  then have answer: "keeps (runner_ok works dev) (answer_read f)" for f
    unfolding answer_read_def by (auto intro!: keeps_intros)
  have "keeps (runner_ok works dev) (process_register_access dev)"
    by (auto simp: process_register_access_def access_register_def process_input_report_read_def
        intro!: keeps_intros answer keeps_commands keeps_reply split: prod.split option.split HidI2cRegister.split)
  then show ?thesis by (auto simp: handle_request_def intro!: keeps_intros keeps_reply split: I2cRequest.split)
qed

subsection \<open>Every run\<close>

lemma reset_runner_ok: "runner_ok works dev s \<Longrightarrow> runner_ok works dev (reset_runner dev s)"
  by (auto simp: reset_runner_def runner_ok_def Let_def intro: assert_ok)

lemma process_request_ok:
  assumes "runner_ok works dev s"
  shows "runner_ok works dev (process_request dev request s)"
proof -
  obtain r s' where handled: "handle_request dev request s = (r, s')" by fastforce
  have "runner_ok works dev s'" using keepsD_eq[OF keeps_handle_request assms handled] .
  then show ?thesis
    by (auto simp: process_request_def handled reset_runner_ok split: sum.split I2cError.split HidError.split)
qed

lemma run_host_request:
  "run_event dev (HostRequest request b) s = Some s' \<longleftrightarrow>
     fst (handle_request dev request (s\<lparr>bus := b\<lparr>replies := replies (bus s)\<rparr>\<rparr>)) \<noteq> Inl Hangs
     \<and> s' = process_request dev request (s\<lparr>bus := b\<lparr>replies := replies (bus s)\<rparr>\<rparr>)"
  by (auto simp: run_event_def Let_def)

lemma run_event_ok:
  assumes "run_event dev e s = Some s'" and "runner_ok works dev s"
  shows "runner_ok works dev s'"
proof (cases e)
  case (HostRequest request b)
  then show ?thesis using assms by (simp add: run_host_request process_request_ok)
next
  case ReportReady
  then show ?thesis using assms by (auto simp: run_event_def runner_ok_def split: if_splits intro: assert_ok)
qed (use assms in \<open>auto simp: run_event_def reset_runner_ok split: if_splits\<close>)

inductive i2c_reachable :: "'d hid_device \<Rightarrow> ('d \<Rightarrow> 'd \<Rightarrow> bool) \<Rightarrow> 'd HidRunner \<Rightarrow> 'd HidRunner \<Rightarrow> bool" for dev env s0 where
  start: "i2c_reachable dev env s0 s0"
| step: "i2c_reachable dev env s0 s \<Longrightarrow> i2c_step dev env s s' \<Longrightarrow> i2c_reachable dev env s0 s'"

lemma reachable_ok: "i2c_reachable dev env s0 s \<Longrightarrow> runner_ok works dev s0 \<Longrightarrow> runner_ok works dev s"
proof (induction rule: i2c_reachable.induct)
  case (step s s')
  then have "runner_ok works dev s" by simp
  with step(2) show ?case by (cases rule: i2c_step.cases) (auto simp: service_reset_def dest: run_event_ok)
qed

lemma service_new_ok:
  assumes "i2c_service_new dev b level faults d hwinfo = Inr s" and "works \<Longrightarrow> calls_work faults"
  shows "runner_ok works dev s"
  using assms attn_pin_new_ok[of works faults level] by (auto simp: i2c_service_new_def runner_ok_def split: sum.splits)

text \<open>A keyboard on the bus, with one report that it has not announced.\<close>

definition example_keyboard :: "u8 KeyboardHidRelay hid_device" where
  "example_keyboard = keyboard_device \<lparr>set_leds = (\<lambda>flags s. (True, flags)), set_keyboard_power = (\<lambda>p s. s)\<rparr>"

definition typed_keyboard :: "u8 KeyboardHidRelay" where
  "typed_keyboard = \<lparr>kb_service = 0, kb_subscriber = [[0, 0, 4, 0, 0, 0, 0, 0]], kb_descriptor = keyboard_descriptor_of_relay,
     pending_input_report = None, last_report = no_keys\<rparr>"

definition quiet_bus :: I2cBus where
  "quiet_bus = \<lparr>listens = [], host_writes = [], host_reads = [], recoveries = [], replies = []\<rparr>"

definition example_runner :: "u8 KeyboardHidRelay HidRunner" where
  "example_runner = projr (i2c_service_new example_keyboard quiet_bus None [] typed_keyboard \<lparr>vendor_id = 1, product_id = 2, version_id = 3\<rparr>)"

lemma example_lawful: "hid_device example_keyboard"
  unfolding example_keyboard_def by (rule keyboard.hid_device_axioms)

lemma example_new:
  "i2c_service_new example_keyboard quiet_bus None [] typed_keyboard \<lparr>vendor_id = 1, product_id = 2, version_id = 3\<rparr> = Inr example_runner"
  by (simp add: example_runner_def i2c_service_new_def device_descriptor_new_def example_keyboard_def keyboard_device_def Let_def
      typed_keyboard_def keyboard_descriptor_of_relay_def)

lemma example_runner_fields:
  "bus example_runner = quiet_bus" "hid_dev example_runner = typed_keyboard" "pending_reset example_runner = False"
  "attn_pin example_runner = \<lparr>pin_low = Some False, pin_faults = [], asserted = False\<rparr>" "length (write_buf example_runner) = 10"
  by (simp_all add: example_runner_def i2c_service_new_def device_descriptor_new_def example_keyboard_def keyboard_device_def Let_def
      typed_keyboard_def keyboard_descriptor_of_relay_def attn_pin_new_def clear_interrupt_def set_pin_def write_buffer_size_def)

text \<open>C22. Whatever the host, the bus and the device do, if the calls that set the attention pin succeed, the service
  believes the pin asserted exactly when it is pulled low, whatever its level was at the start, and a reset that the
  host has not read yet is announced on it; the buffer keeps its size.\<close>

theorem attention_follows_state:
  assumes "i2c_service_new dev b level faults d hwinfo = Inr s0" and "calls_work faults" and "i2c_reachable dev env s0 s"
  shows "(asserted (attn_pin s) \<longleftrightarrow> pin_low (attn_pin s) = Some True)
    \<and> (pending_reset s \<longrightarrow> asserted (attn_pin s)) \<and> length (write_buf s) = write_buffer_size dev"
proof -
  have "runner_ok True dev s" using reachable_ok[OF assms(3) service_new_ok[OF assms(1)]] assms(2) by simp
  then show ?thesis unfolding runner_ok_def attn_ok_def by blast
qed

lemma attention_follows_state_witness:
  "asserted (attn_pin (reset_runner example_keyboard (example_runner\<lparr>reset_signal := False\<rparr>)))"
proof -
  let ?s = "reset_runner example_keyboard (service_reset example_runner\<lparr>reset_signal := False\<rparr>)"
  have "i2c_step example_keyboard (\<lambda>_ _. False) (service_reset example_runner) ?s"
    by (rule i2c_step.event[of _ ResetSignalled]) (simp add: run_event_def service_reset_def)
  then have "i2c_reachable example_keyboard (\<lambda>_ _. False) example_runner ?s"
    using i2c_reachable.start i2c_reachable.step i2c_step.signal by metis
  note announced = attention_follows_state[OF example_new _ this, THEN conjunct2, THEN conjunct1]
  have "pending_reset ?s" by (simp add: reset_runner_def Let_def)
  then have "asserted (attn_pin ?s)" using announced by (simp add: calls_work_def)
  then show ?thesis by (simp add: service_reset_def)
qed

subsection \<open>Malformed requests\<close>

text \<open>\<open>untouched s0\<close>: nothing but the bus and the buffer has changed.\<close>

definition untouched :: "'d HidRunner \<Rightarrow> 'd HidRunner \<Rightarrow> bool" where
  "untouched s0 s \<longleftrightarrow> hid_dev s = hid_dev s0 \<and> attn_pin s = attn_pin s0 \<and> pending_reset s = pending_reset s0"

definition spares :: "('d, 'a) i2c \<Rightarrow> bool" where
  "spares m \<longleftrightarrow> (\<forall>s e s'. m s = (Inl (ProtocolFailed e), s') \<longrightarrow> e \<noteq> ProtocolTimeout \<longrightarrow> untouched s s')"

definition harmless :: "('d, 'a) i2c \<Rightarrow> bool" where
  "harmless m \<longleftrightarrow> (\<forall>s r s'. m s = (r, s') \<longrightarrow> untouched s s')"

definition well_formed :: "('d, 'a) i2c \<Rightarrow> bool" where
  "well_formed m \<longleftrightarrow> (\<forall>s e s'. m s = (Inl (ProtocolFailed e), s') \<longrightarrow> e = ProtocolTimeout)"

lemma untouched_refl [simp]: "untouched s s"
  by (simp add: untouched_def)

lemma spares_and_then: "harmless m \<Longrightarrow> (\<And>a. spares (k a)) \<Longrightarrow> spares (and_then m k)"
  by (fastforce simp: spares_def harmless_def and_then_def untouched_def split: prod.splits sum.splits)

lemma well_formed_spares: "well_formed m \<Longrightarrow> spares m"
  by (auto simp: spares_def well_formed_def)

lemma well_formed_and_then: "well_formed m \<Longrightarrow> (\<And>a. well_formed (k a)) \<Longrightarrow> well_formed (and_then m k)"
  by (fastforce simp: well_formed_def and_then_def split: prod.splits sum.splits)

lemma well_formed_simps [simp]: "well_formed (ok a)" "well_formed (modify f)" "well_formed (err (DeviceFailed e))"
  by (simp_all add: well_formed_def)

lemma spares_simps [simp]: "spares (ok a)" "spares (protocol e)" "spares (err (DeviceFailed TriggerReset))"
  by (auto simp: spares_def protocol_def)

lemma spares_or_protocol: "(\<And>a. r = Inr a \<Longrightarrow> spares (k a)) \<Longrightarrow> spares (or_protocol r k)"
  by (simp add: or_protocol_def split: sum.split)

lemma harmless_on_bus [simp]: "harmless (on_bus m)"
  by (auto simp: harmless_def on_bus_def untouched_def split: prod.splits)

lemma well_formed_on_hid [simp]: "well_formed (on_hid m)"
  unfolding well_formed_def
proof (intro allI impI)
  fix s e s'
  assume "on_hid m s = (Inl (ProtocolFailed e), s')"
  then show "e = ProtocolTimeout"
    by (cases "m (hid_dev s)"; cases "fst (m (hid_dev s))") (auto simp: on_hid_def)
qed

lemma write_unterminated_errors:
  "write_unterminated bytes b = (Inl e, b') \<Longrightarrow> e = BusError \<or> e = ProtocolFailed ProtocolTimeout \<or> e = Hangs"
  by (auto simp: write_unterminated_def bus_timed_out_def recover_bus_def and_then_def Let_def
      split: prod.splits bus_outcome.splits sum.splits list.splits if_splits)

lemma write_padded_errors:
  "write_padded bytes b = (Inl e, b') \<Longrightarrow> e = BusError \<or> e = ProtocolFailed ProtocolTimeout \<or> e = Hangs"
proof (induction bytes b rule: write_padded.induct)
  case (1 bytes b)
  then show ?case
    by (subst (asm) (2) write_padded.simps) (auto split: prod.splits sum.splits if_splits dest: write_unterminated_errors)
qed

lemma well_formed_on_bus:
  "(\<And>b e b'. m b = (Inl e, b') \<Longrightarrow> e = BusError \<or> e = ProtocolFailed ProtocolTimeout \<or> e = Hangs) \<Longrightarrow> well_formed (on_bus m)"
  by (fastforce simp: well_formed_def on_bus_def split: prod.splits)

lemmas well_formed_writes [simp] =
  well_formed_on_bus[of "write_unterminated bytes" for bytes, OF write_unterminated_errors]
  well_formed_on_bus[of "write_padded bytes" for bytes, OF write_padded_errors]

lemma well_formed_take [simp]: "well_formed (take_report dev)"
  unfolding well_formed_def
proof (intro allI impI)
  fix s e s'
  assume "take_report dev s = (Inl (ProtocolFailed e), s')"
  then show "e = ProtocolTimeout"
    by (cases "next_report dev (hid_dev s)"; cases "fst (the (next_report dev (hid_dev s)))") (auto simp: take_report_def)
qed

lemma well_formed_read: "(\<And>x. well_formed (f x)) \<Longrightarrow> well_formed (\<lambda>s. f (g s) s)"
  by (simp add: well_formed_def)

lemma spares_read: "(\<And>x. spares (f x)) \<Longrightarrow> spares (\<lambda>s. f (g s) s)"
  by (simp add: spares_def)

lemma well_formed_reply: "well_formed (reply_with_input_report dev)"
proof -
  have empty: "well_formed (send_empty_report :: ('a, unit) i2c)" by (simp add: send_empty_report_def)
  have ask: "well_formed (ask_pending dev)" by (simp add: ask_pending_def)
  have inner: "well_formed (and_then (take_report dev) (\<lambda>report.
                    and_then (on_bus (write_unterminated (input_header implicit report))) (\<lambda>_.
                    and_then (on_bus (write_padded (hid_data report))) (\<lambda>_.
                    and_then (ask_pending dev) (\<lambda>pending.
                      if pending then ok () else modify clear_attn)))))" for implicit
    by (intro well_formed_and_then) (simp_all add: ask)
  have "well_formed (\<lambda>s. if pending_reset s then
        and_then send_empty_report (\<lambda>_. modify (\<lambda>s. clear_attn (s\<lparr>pending_reset := False\<rparr>))) s
      else
        and_then (ask_pending dev) (\<lambda>pending.
          if \<not> pending then and_then send_empty_report (\<lambda>_. modify clear_attn)
          else
            (\<lambda>s. let implicit = ids_implicit_of dev s
                 in and_then (take_report dev) (\<lambda>report.
                    and_then (on_bus (write_unterminated (input_header implicit report))) (\<lambda>_.
                    and_then (on_bus (write_padded (hid_data report))) (\<lambda>_.
                    and_then (ask_pending dev) (\<lambda>pending.
                      if pending then ok () else modify clear_attn)))) s)) s)"
    (is "well_formed (\<lambda>s. if pending_reset s then ?reset s else ?reply s)")
  proof -
    have "well_formed ?reset" by (intro well_formed_and_then) (simp_all add: empty)
    moreover have "well_formed ?reply"
      unfolding Let_def
      by (rule well_formed_and_then[OF ask])
        (simp add: empty well_formed_and_then well_formed_read[OF inner, of "ids_implicit_of dev"])
    ultimately show ?thesis by (simp add: well_formed_def)
  qed
  then show ?thesis by (simp add: reply_with_input_report_def[abs_def])
qed

lemma spares_set_command: "spares (process_set_command dev c data)"
  unfolding process_set_command_def
  by (rule spares_read[where g = "ids_implicit_of dev"])
    (auto intro!: spares_or_protocol simp: well_formed_spares split: HidI2cReportType.split)

lemma spares_get_command: "spares (process_get_command dev c data)"
proof -
  have "well_formed (and_then (on_hid (get_report dev t i)) (\<lambda>report.
      and_then (on_bus (write_unterminated (to_le_bytes16 (word_of_nat (length (get_report_data report)) + HID_REPORT_HEADER_SIZE_BYTES))))
        (\<lambda>_. on_bus (write_padded (get_report_data report)))))" for t i
    by (intro well_formed_and_then) simp_all
  then show ?thesis
    
    unfolding process_get_command_def
    by (auto intro!: spares_or_protocol spares_and_then[OF harmless_on_bus] simp: well_formed_spares)
qed

lemma spares_output: "spares (process_output dev data)"
  unfolding process_output_def
  by (rule spares_read[where g = "ids_implicit_of dev"]) (auto intro!: spares_or_protocol simp: well_formed_spares Let_def)

lemma harmless_read_request: "harmless read_request"
  by (auto simp: harmless_def read_request_def untouched_def split: prod.splits)

lemma spares_handle_request: "spares (handle_request dev request)"
proof -
  have "spares (\<lambda>s. on_bus (write_padded (f s)) s)" for f :: "'a HidRunner \<Rightarrow> u8 list"
    by (rule spares_read[of "\<lambda>bytes. on_bus (write_padded bytes)" f]) (simp add: well_formed_spares)
  then have answer: "spares (answer_read f)" for f :: "'a HidRunner \<Rightarrow> u8 list"
    unfolding answer_read_def by (auto intro!: spares_and_then)
  have "spares (process_command dev data)" for data
    unfolding process_command_def
    by (auto intro!: spares_or_protocol spares_set_command spares_get_command simp: well_formed_spares
        split: option.split Opcode.split)
  then have "spares (access_register dev data)" for data
    unfolding access_register_def process_input_report_read_def
    by (auto intro!: spares_or_protocol spares_and_then answer spares_output well_formed_spares[OF well_formed_reply]
        split: option.split HidI2cRegister.split)
  then have "spares (process_register_access dev)"
    unfolding process_register_access_def by (intro spares_and_then harmless_read_request)
  then show ?thesis by (simp add: handle_request_def well_formed_spares well_formed_reply split: I2cRequest.split)
qed

text \<open>A request that is malformed in any way - too short or too long, of an unknown register, command or
  report type, with a wrong data register, or not followed by the read that it asks for - changes neither the
  device nor the attention pin nor a pending reset.\<close>

theorem malformed_request_changes_nothing:
  assumes "handle_request dev request s = (Inl (ProtocolFailed e), s')" and "e \<noteq> ProtocolTimeout"
  shows "hid_dev (process_request dev request s) = hid_dev s \<and> attn_pin (process_request dev request s) = attn_pin s
    \<and> pending_reset (process_request dev request s) = pending_reset s"
  using assms spares_handle_request[of dev request] by (auto simp: spares_def untouched_def process_request_def)

subsection \<open>Input reports\<close>

text \<open>A host that reads the header and then the rest, and one that reads once.\<close>

definition reads_twice :: "I2cBus \<Rightarrow> bool" where
  "reads_twice b \<longleftrightarrow> (\<exists>n. host_reads b = [BusDone (NeedMore n), BusDone OtherReadStatus])"

lemma write_padded_done:
  "host_reads b = [BusDone OtherReadStatus] \<Longrightarrow>
     write_padded bytes b = (Inr (), b\<lparr>replies := replies b @ [bytes], host_reads := []\<rparr>)"
  by (simp add: write_padded.simps write_unterminated_def)

lemma two_reads:
  assumes "reads_twice b"
  shows "\<exists>b'. write_unterminated header b = (Inr True, b') \<and>
    write_padded bytes b' = (Inr (), b\<lparr>replies := replies b @ [header, bytes], host_reads := []\<rparr>)"
  using assms by (auto simp: reads_twice_def write_unterminated_def write_padded_done)

text \<open>What a read of the host gets, in every state of the service.\<close>

lemma reset_is_acknowledged:
  assumes "pending_reset s" and "host_reads (bus s) = [BusDone OtherReadStatus]"
  shows "reply_with_input_report dev s = (Inr (), clear_attn (s\<lparr>bus := (bus s)\<lparr>replies := replies (bus s) @ [[0, 0]], host_reads := []\<rparr>,
    pending_reset := False\<rparr>))"
  using assms by (simp add: reply_with_input_report_def send_empty_report_def on_bus_def write_padded_done)

lemma empty_report_is_sent:
  assumes "\<not> pending_reset s" and "has_pending dev (hid_dev s) = (False, d)" and "host_reads (bus s) = [BusDone OtherReadStatus]"
  shows "reply_with_input_report dev s = (Inr (), clear_attn (s\<lparr>hid_dev := d,
    bus := (bus s)\<lparr>replies := replies (bus s) @ [[0, 0]], host_reads := []\<rparr>\<rparr>))"
  using assms by (simp add: reply_with_input_report_def send_empty_report_def on_bus_def on_hid_def ask_pending_def write_padded_done)

lemma report_is_sent:
  assumes "\<not> pending_reset s" and "has_pending dev (hid_dev s) = (True, d)" and "next_report dev d = Some (Inr report, d')"
    and "reads_twice (bus s)" and "has_pending dev d' = (again, d'')"
  shows "reply_with_input_report dev s = (Inr (), (if again then \<lambda>s. s else clear_attn) (s\<lparr>hid_dev := d'',
    bus := (bus s)\<lparr>replies := replies (bus s) @ [input_header (report_ids_implicit (report_descriptor dev d)) report, hid_data report],
      host_reads := []\<rparr>\<rparr>))"
proof -
  obtain b where b: "write_unterminated (input_header (report_ids_implicit (report_descriptor dev d)) report) (bus s) = (Inr True, b)"
    "write_padded (hid_data report) b = (Inr (), (bus s)\<lparr>replies := replies (bus s)
      @ [input_header (report_ids_implicit (report_descriptor dev d)) report, hid_data report], host_reads := []\<rparr>)"
    using two_reads[OF assms(4)] by blast
  show ?thesis
    using assms(1-3,5) b by (simp add: reply_with_input_report_def ask_pending_def on_hid_def on_bus_def take_report_def Let_def
      ids_implicit_of_def and_then_def clear_attn_def)
qed

lemma report_is_announced:
  assumes "hid_device dev" and "fst (has_pending dev (hid_dev s))" and "pin_faults (attn_pin s) = []"
  shows "\<exists>s1. (if asserted (attn_pin s) then s1 = s else run_event dev ReportReady s = Some s1) \<and> asserted (attn_pin s1)
    \<and> fst (has_pending dev (hid_dev s1)) \<and> bus s1 = bus s \<and> pending_reset s1 = pending_reset s
    \<and> report_descriptor dev (hid_dev s1) = report_descriptor dev (hid_dev s)"
proof (cases "asserted (attn_pin s)")
  case False
  obtain d where d: "wait_for_report dev (hid_dev s) = Some d" using hid_device.pending_ends_wait[OF assms(1,2)] by blast
  have "asserted (assert_interrupt (attn_pin s))" using assms(3) assert_works by (simp add: pin_works_def calls_work_def)
  then show ?thesis
    using False d hid_device.wait_gives_pending[OF assms(1) d] hid_device.descriptor_fixed(2)[OF assms(1) d]
    by (intro exI[of _ "s\<lparr>hid_dev := d, attn_pin := assert_interrupt (attn_pin s)\<rparr>"]) (simp add: run_event_def)
qed (use assms(2) in auto)

lemma input_header_bytes:
  "input_header implicit report = (if implicit then to_le_bytes16 (word_of_nat (length (hid_data report) + 2))
     else to_le_bytes16 (word_of_nat (length (hid_data report) + 3)) @ [hid_id report])"
  by (simp add: input_header_def HID_REPORT_HEADER_SIZE_BYTES_def HID_REPORT_ID_SIZE_BYTES_def add.commute)

text \<open>C23. A report that a device has pending reaches the host, if the calls of the attention pin succeed and the host
  reads all that it is given: the service asserts the pin if it is not asserted already; the next read of the host gets
  the two zero bytes that acknowledge a reset, if one is pending; and the read after that gets, if the device hands out
  the report, two bytes of its length, which count themselves and the ID, the ID if the reports have IDs, and the report.\<close>

theorem pending_report_is_sent:
  assumes "hid_device dev" and "fst (has_pending dev (hid_dev s))" and "pin_faults (attn_pin s) = []"
    and "host_reads ack = [BusDone OtherReadStatus]" and "reads_twice b"
  shows "\<exists>s1 s2 s3 d r d'. (if asserted (attn_pin s) then s1 = s else run_event dev ReportReady s = Some s1) \<and> asserted (attn_pin s1)
    \<and> (if pending_reset s then run_event dev (HostRequest ReadRequest ack) s1 = Some s2 \<and> replies (bus s2) = replies (bus s) @ [[0, 0]]
       else s2 = s1 \<and> replies (bus s2) = replies (bus s))
    \<and> run_event dev (HostRequest ReadRequest b) s2 = Some s3 \<and> has_pending dev (hid_dev s2) = (True, d)
    \<and> next_report dev d = Some (r, d')
    \<and> (\<forall>report. r = Inr report \<longrightarrow>
         replies (bus s3) = replies (bus s2) @
           [if report_ids_implicit (report_descriptor dev (hid_dev s)) then to_le_bytes16 (word_of_nat (length (hid_data report) + 2))
            else to_le_bytes16 (word_of_nat (length (hid_data report) + 3)) @ [hid_id report], hid_data report]
         \<and> hid_dev s3 = snd (has_pending dev d'))"
proof -
  obtain s1 where s1: "if asserted (attn_pin s) then s1 = s else run_event dev ReportReady s = Some s1" "asserted (attn_pin s1)"
    "fst (has_pending dev (hid_dev s1))" "bus s1 = bus s" "pending_reset s1 = pending_reset s"
    "report_descriptor dev (hid_dev s1) = report_descriptor dev (hid_dev s)"
    using report_is_announced[OF assms(1-3)] by blast
  obtain s2 where s2: "if pending_reset s then run_event dev (HostRequest ReadRequest ack) s1 = Some s2 \<and> replies (bus s2) = replies (bus s) @ [[0, 0]]
       else s2 = s1 \<and> replies (bus s2) = replies (bus s)" "\<not> pending_reset s2" "hid_dev s2 = hid_dev s1"
  proof (cases "pending_reset s")
    case True
    let ?s = "s1\<lparr>bus := ack\<lparr>replies := replies (bus s1)\<rparr>\<rparr>"
    have reply: "reply_with_input_report dev ?s = (Inr (), clear_attn (?s\<lparr>bus := (bus ?s)\<lparr>replies := replies (bus ?s) @ [[0, 0]], host_reads := []\<rparr>,
        pending_reset := False\<rparr>))"
      by (rule reset_is_acknowledged) (use True s1(5) assms(4) in simp_all)
    then show thesis
      using that[of "process_request dev ReadRequest ?s"] True s1(4)
      by (simp add: run_host_request process_request_def handle_request_def clear_attn_def)
  qed (use s1(4,5) that in simp)
  obtain d where d: "has_pending dev (hid_dev s2) = (True, d)" using s1(3) s2(3) by (cases "has_pending dev (hid_dev s1)") auto
  obtain r d' where r: "next_report dev d = Some (r, d')" using hid_device.asked_is_available[OF assms(1) d] by force
  have descriptor: "report_descriptor dev d = report_descriptor dev (hid_dev s)"
    using hid_device.descriptor_fixed(1)[OF assms(1), of "hid_dev s2"] d s1(6) s2(3) by simp
  obtain again d'' where again: "has_pending dev d' = (again, d'')" by fastforce
  let ?s = "s2\<lparr>bus := b\<lparr>replies := replies (bus s2)\<rparr>\<rparr>"
  have "replies (bus s3) = replies (bus s2) @ [input_header (report_ids_implicit (report_descriptor dev (hid_dev s))) report, hid_data report]
      \<and> hid_dev s3 = snd (has_pending dev d') \<and> fst (handle_request dev ReadRequest ?s) = Inr ()"
    if "s3 = process_request dev ReadRequest ?s" "r = Inr report" for s3 report
  proof -
    have "reads_twice (bus ?s)" using assms(5) by (simp add: reads_twice_def)
    from report_is_sent[OF _ _ r[unfolded that(2)] this again] s2(2) d show ?thesis
      by (simp add: that(1) process_request_def handle_request_def descriptor again clear_attn_def)
  qed
  note sent = this[OF refl]
  have "fst (handle_request dev ReadRequest ?s) \<noteq> Inl Hangs"
  proof (cases r)
    case (Inl e)
    then show ?thesis
      using s2(2) d r by (simp add: handle_request_def reply_with_input_report_def ask_pending_def on_hid_def take_report_def Let_def
        and_then_def)
  qed (use sent in simp)
  then have run: "run_event dev (HostRequest ReadRequest b) s2 = Some (process_request dev ReadRequest ?s)" by (simp add: run_host_request)
  show ?thesis
    by (rule exI[of _ s1], rule exI[of _ s2], rule exI[of _ "process_request dev ReadRequest ?s"], rule exI[of _ d], rule exI[of _ r],
        rule exI[of _ d'], intro conjI allI impI s1(1,2) s2(1) run d r) (use sent in \<open>simp_all add: input_header_bytes\<close>)
qed

lemma pending_report_is_sent_witness:
  "\<exists>s1 s3. run_event example_keyboard ReportReady example_runner = Some s1
    \<and> run_event example_keyboard (HostRequest ReadRequest (quiet_bus\<lparr>host_reads := [BusDone (NeedMore 8), BusDone OtherReadStatus]\<rparr>)) s1 = Some s3
    \<and> replies (bus s3) = [[10, 0], [0, 0, 4, 0, 0, 0, 0, 0]]"
proof -
  let ?ack = "quiet_bus\<lparr>host_reads := [BusDone OtherReadStatus]\<rparr>"
    and ?b = "quiet_bus\<lparr>host_reads := [BusDone (NeedMore 8), BusDone OtherReadStatus]\<rparr>"
  have "fst (has_pending example_keyboard (hid_dev example_runner))" "pin_faults (attn_pin example_runner) = []"
    by (simp_all add: example_runner_fields example_keyboard_def keyboard_device_def keyboard_has_pending_def typed_keyboard_def)
  from pending_report_is_sent[OF example_lawful this, of ?ack ?b]
  obtain s1 s2 s3 d r d' where s: "run_event example_keyboard ReportReady example_runner = Some s1" "s2 = s1" "replies (bus s2) = []"
      "run_event example_keyboard (HostRequest ReadRequest ?b) s2 = Some s3" "has_pending example_keyboard (hid_dev s2) = (True, d)"
      "next_report example_keyboard d = Some (r, d')"
    and sent: "\<And>report. r = Inr report \<Longrightarrow> replies (bus s3) = [to_le_bytes16 (word_of_nat (length (hid_data report) + 2)), hid_data report]"
    by (auto simp: reads_twice_def example_runner_fields quiet_bus_def example_keyboard_def keyboard_device_def typed_keyboard_def
        keyboard_descriptor_of_relay_def)
  have "hid_dev s1 = typed_keyboard\<lparr>pending_input_report := Some [0, 0, 4, 0, 0, 0, 0, 0], kb_subscriber := []\<rparr>"
    using s(1) by (auto simp: run_event_def example_runner_fields example_keyboard_def keyboard_device_def keyboard_wait_def typed_keyboard_def)
  then have "\<exists>k. next_report example_keyboard (hid_dev s1) = Some (Inr \<lparr>hid_id = 0, hid_data = [0, 0, 4, 0, 0, 0, 0, 0]\<rparr>, k)"
    by (simp add: example_keyboard_def keyboard_device_def keyboard_next_report_def keyboard_wait_def REPORT_ID_def)
  moreover have "d = hid_dev s1" using s(2,5) by (simp add: example_keyboard_def keyboard_device_def keyboard_has_pending_def)
  ultimately have "r = Inr \<lparr>hid_id = 0, hid_data = [0, 0, 4, 0, 0, 0, 0, 0]\<rparr>" using s(6) by auto
  then have "replies (bus s3) = [[10, 0], [0, 0, 4, 0, 0, 0, 0, 0]]"
    using sent by (simp add: to_le_bytes16_def u16_lsb_def u16_msb_def)
  then show ?thesis using s by blast
qed

lemma malformed_request_changes_nothing_witness:
  "hid_dev (process_request example_keyboard WriteRequest
     (example_runner\<lparr>bus := quiet_bus\<lparr>host_writes := [BusDone (WriteStopped 2, [9, 9])]\<rparr>\<rparr>)) = typed_keyboard"
proof -
  let ?s = "example_runner\<lparr>bus := quiet_bus\<lparr>host_writes := [BusDone (WriteStopped 2, [9, 9])]\<rparr>\<rparr>"
  have "fst (handle_request example_keyboard WriteRequest ?s) = Inl (ProtocolFailed InvalidRegisterAddress)"
    using example_runner_fields(5)
    by (simp add: handle_request_def process_register_access_def and_then_def read_request_def bus_read_def respond_to_write_def
        fill_buffer_def access_register_def split_u16_def or_protocol_def register_try_from_def protocol_def
        from_le_bytes16_def quiet_bus_def u16_from_be_bytes_def)
  then obtain s' where "handle_request example_keyboard WriteRequest ?s = (Inl (ProtocolFailed InvalidRegisterAddress), s')"
    by (metis prod.collapse)
  from malformed_request_changes_nothing[OF this] show ?thesis by (simp add: example_runner_fields)
qed

end
