(* ===== verification/Hid_I2c_Reports.thy ===== *)
theory Hid_I2c_Reports
  imports Hid_I2c_Props
begin

text \<open>
  Reports between the host and the device: the writes by which a host sends output and feature reports reach the
  device as the report that the host encoded, and the handling of a request ends once the host stops.
\<close>

subsection \<open>What the host writes\<close>

definition output_write :: "bool \<Rightarrow> HidReport \<Rightarrow> u8 list" where
  "output_write implicit r =
     to_le_bytes16 (register_address RegOutput)
     @ to_le_bytes16 (word_of_nat (length (hid_data r) + (if implicit then 2 else 3)))
     @ (if implicit then [] else [hid_id r]) @ hid_data r"

definition type_nibble :: "HidI2cReportType \<Rightarrow> u8" where
  "type_nibble t = (case t of InputReport \<Rightarrow> 1 | OutputReport \<Rightarrow> 2 | FeatureReport \<Rightarrow> 3)"

definition command_bytes :: "HidI2cReportType \<Rightarrow> u8 \<Rightarrow> u8 \<Rightarrow> u8 list" where
  "command_bytes t opcode i =
     to_le_bytes16 (register_address RegCommand)
     @ [push_bit 4 (type_nibble t) OR (if i < 15 then i else 15), opcode] @ (if i < 15 then [] else [i])
     @ to_le_bytes16 (register_address RegData)"

text \<open>A report with an ID repeats it before its bytes; the length counts only the report and itself.\<close>

definition set_type :: "SetHidReport \<Rightarrow> HidI2cReportType" where
  "set_type r = (case r of SetOutput _ \<Rightarrow> OutputReport | SetFeature _ \<Rightarrow> FeatureReport)"

definition set_command :: "bool \<Rightarrow> u8 \<Rightarrow> SetHidReport \<Rightarrow> u8 list" where
  "set_command implicit repeated r =
     command_bytes (set_type r) 3 (set_id r) @ to_le_bytes16 (word_of_nat (length (set_report_data r) + 2))
     @ (if implicit then [] else [repeated]) @ set_report_data r"

subsection \<open>Reading it\<close>

lemma split_u16_append: "split_u16 e (to_le_bytes16 v @ bytes) = Inr (v, bytes)"
  by (simp add: split_u16_def)

lemma split_first_Cons [simp]: "split_first e (b # bytes) = Inr (b, bytes)"
  by (simp add: split_first_def)

lemma unat_length: "k < 65536 \<Longrightarrow> unat (word_of_nat k :: u16) = k"
  by (simp add: unat_of_nat take_bit_nat_eq_self)

lemma get_range_append: "length bytes = n \<Longrightarrow> length pre = start \<Longrightarrow> get_range start n (pre @ bytes @ extra) = Inr bytes"
  by (simp add: get_range_def)

lemma or_protocol_simps [simp]: "or_protocol (Inr a) k = k a" "or_protocol (Inl e) k = protocol e"
  by (simp_all add: or_protocol_def)

lemma register_round [simp]: "register_try_from (register_address r) = Some r"
  by (cases r) (simp_all add: register_try_from_def register_address_def)

lemma read_request_ok:
  assumes "host_writes (bus s) = [BusDone (WriteStopped (length bytes), bytes)]" and "length bytes \<le> length (write_buf s)"
  shows "read_request s = (Inr bytes, s\<lparr>write_buf := fill_buffer bytes (write_buf s), bus := (bus s)\<lparr>host_writes := []\<rparr>\<rparr>)"
  using assms by (simp add: read_request_def bus_read_def respond_to_write_def fill_buffer_def)

lemma hid_report_eq [simp]: "\<lparr>hid_id = hid_id r, hid_data = hid_data r\<rparr> = r"
  by simp

lemma command_header_small:
  "list_all (\<lambda>k. command_header (push_bit 4 (type_nibble t) OR word_of_nat k) = Inr (t, Some (word_of_nat k))) [0..<15]"
proof -
  have "list_all (\<lambda>t. list_all (\<lambda>k. command_header (push_bit 4 (type_nibble t) OR word_of_nat k) = Inr (t, Some (word_of_nat k))) [0..<15])
      [InputReport, OutputReport, FeatureReport]" by code_simp
  then show ?thesis by (cases t) simp_all
qed

lemma command_header_round:
  "command_header (push_bit 4 (type_nibble t) OR (if i < 15 then i else 15)) = Inr (t, if i < 15 then Some i else None)"
proof (cases "i < 15")
  case True
  have "unat i < 15" using True by (simp add: word_less_nat_alt)
  then show ?thesis using True command_header_small[of t] by (auto simp: list_all_iff dest!: bspec[of _ _ "unat i"])
next
  case False
  have "list_all (\<lambda>t. command_header (push_bit 4 (type_nibble t) OR 15) = Inr (t, None)) [InputReport, OutputReport, FeatureReport]"
    by code_simp
  then have "command_header (push_bit 4 (type_nibble t) OR 15) = Inr (t, None)" by (cases t) simp_all
  then show ?thesis using False by simp
qed

lemma io_header_round:
  "get_io_command_report_header ((if i < 15 then [] else [i]) @ to_le_bytes16 (register_address RegData) @ bytes)
     (push_bit 4 (type_nibble t) OR (if i < 15 then i else 15)) = Inr (t, i, bytes)"
  by (simp add: get_io_command_report_header_def command_header_round split_u16_append split_first_def del: le_bytes16)

lemma access_output:
  assumes "report_ids_implicit (report_descriptor dev (hid_dev s)) = implicit" and "implicit \<Longrightarrow> hid_id r = 0"
    and "length (hid_data r) + 3 < 65536"
  shows "access_register dev (output_write implicit r @ extra) s = on_hid (set_report dev (SetOutput r)) s"
proof -
  have len: "unat (word_of_nat (length (hid_data r) + (if implicit then 2 else 3)) :: u16) = length (hid_data r) + (if implicit then 2 else 3)"
    using assms(3) by (intro unat_length) simp
  show ?thesis
  proof (cases implicit)
    case True
    then have "\<lparr>hid_id = 0, hid_data = hid_data r\<rparr> = r" using assms(2) by simp
    then show ?thesis
      using True assms(1) len
      by (simp add: access_register_def output_write_def split_u16_append process_output_def ids_implicit_of_def get_range_def Let_def)
  next
    case False
    then show ?thesis
      using assms(1) len
      by (simp add: access_register_def output_write_def split_u16_append process_output_def ids_implicit_of_def get_range_def Let_def)
  qed
qed

lemma access_set_command:
  assumes "report_ids_implicit (report_descriptor dev (hid_dev s)) = implicit" and "length (set_report_data r) + 2 < 65536"
  shows "access_register dev (set_command implicit repeated r @ extra) s = on_hid (set_report dev r) s"
proof -
  have len: "unat (word_of_nat (length (set_report_data r) + 2) :: u16) = length (set_report_data r) + 2" using assms(2) by (intro unat_length)
  have "access_register dev (set_command implicit repeated r @ extra) s
      = process_set_command dev (push_bit 4 (type_nibble (set_type r)) OR (if set_id r < 15 then set_id r else 15))
          ((if set_id r < 15 then [] else [set_id r]) @ to_le_bytes16 (register_address RegData)
            @ to_le_bytes16 (word_of_nat (length (set_report_data r) + 2)) @ (if implicit then [] else [repeated]) @ set_report_data r @ extra) s"
    by (simp add: access_register_def set_command_def command_bytes_def split_u16_append process_command_def opcode_try_from_def)
  also have "\<dots> = on_hid (set_report dev r) s"
    unfolding process_set_command_def io_header_round
    using assms(1) len
    by (cases r) (simp_all add: split_u16_append HID_REPORT_HEADER_SIZE_BYTES_def ids_implicit_of_def get_range_def set_type_def
        set_id_def set_report_data_def)
  finally show ?thesis .
qed

subsection \<open>Whole requests\<close>

lemma handle_write:
  assumes "host_writes (bus s) = [BusDone (WriteStopped (length bytes), bytes)]" and "length bytes \<le> length (write_buf s)"
  shows "handle_request dev WriteRequest s
    = access_register dev bytes (s\<lparr>write_buf := fill_buffer bytes (write_buf s), bus := (bus s)\<lparr>host_writes := []\<rparr>\<rparr>)"
  using read_request_ok[OF assms] by (simp add: handle_request_def process_register_access_def)

text \<open>C24. What the host sends in the encoding of the code arrives unchanged: for every report of less than 65533 bytes and with
  any ID, a single write to the output register, whose length counts the ID, and a single write of the set-report command
  for an output or a feature report, whose length does not count the ID that the data repeats, with any bytes behind
  it, that fits the buffer gives the device exactly the encoded report.\<close>

theorem sent_report_reaches_device:
  assumes "report_ids_implicit (report_descriptor dev (hid_dev s)) = implicit" and "length (set_report_data report) + 3 < 65536"
    and "bytes = set_command implicit repeated report @ extra
      \<or> (\<exists>r. report = SetOutput r \<and> (implicit \<longrightarrow> hid_id r = 0) \<and> bytes = output_write implicit r @ extra)"
    and "host_writes (bus s) = [BusDone (WriteStopped (length bytes), bytes)]" and "length bytes \<le> length (write_buf s)"
  shows "handle_request dev WriteRequest s
    = on_hid (set_report dev report) (s\<lparr>write_buf := fill_buffer bytes (write_buf s), bus := (bus s)\<lparr>host_writes := []\<rparr>\<rparr>)"
proof -
  let ?s = "s\<lparr>write_buf := fill_buffer bytes (write_buf s), bus := (bus s)\<lparr>host_writes := []\<rparr>\<rparr>"
  have implicit: "report_ids_implicit (report_descriptor dev (hid_dev ?s)) = implicit" using assms(1) by simp
  have "access_register dev bytes ?s = on_hid (set_report dev report) ?s"
    using assms(3)
  proof
    assume "bytes = set_command implicit repeated report @ extra"
    then show ?thesis using access_set_command[OF implicit, of report repeated extra] assms(2) by simp
  next
    assume "\<exists>r. report = SetOutput r \<and> (implicit \<longrightarrow> hid_id r = 0) \<and> bytes = output_write implicit r @ extra"
    then obtain r where r: "report = SetOutput r" "implicit \<Longrightarrow> hid_id r = 0" "bytes = output_write implicit r @ extra" by blast
    then show ?thesis using access_output[OF implicit r(2), of extra] assms(2) by (simp add: set_report_data_def)
  qed
  then show ?thesis using handle_write[OF assms(4,5)] by simp
qed

lemma sent_report_reaches_device_witness:
  "fst (handle_request example_keyboard WriteRequest
     (example_runner\<lparr>bus := quiet_bus\<lparr>host_writes := [BusDone (WriteStopped 5, [4, 0, 3, 0, 2])]\<rparr>\<rparr>)) = Inr ()"
proof -
  let ?s = "example_runner\<lparr>bus := quiet_bus\<lparr>host_writes := [BusDone (WriteStopped 5, [4, 0, 3, 0, 2])]\<rparr>\<rparr>"
    and ?r = "SetOutput \<lparr>hid_id = 0, hid_data = [2]\<rparr>"
  have "[4, 0, 3, 0, 2] = output_write True \<lparr>hid_id = 0, hid_data = [2]\<rparr> @ []"
    by (simp add: output_write_def to_le_bytes16_def u16_lsb_def u16_msb_def register_address_def)
  then have bytes: "\<exists>r. ?r = SetOutput r \<and> (True \<longrightarrow> hid_id r = 0) \<and> [4, 0, 3, 0, 2] = output_write True r @ []" by auto
  have implicit: "report_ids_implicit (report_descriptor example_keyboard (hid_dev ?s)) = True"
    by (simp add: example_runner_fields example_keyboard_def keyboard_device_def typed_keyboard_def keyboard_descriptor_of_relay_def)
  show ?thesis
    using sent_report_reaches_device[OF implicit, of ?r "[4, 0, 3, 0, 2]" 0 "[]"] bytes example_runner_fields(5)
    by (simp add: set_report_data_def on_hid_def example_keyboard_def keyboard_device_def keyboard_set_report_def REPORT_ID_def
        split: prod.split)
qed

text \<open>The convention matters: in set-report the length does not count the ID that the data repeats, while the output
  register and the input reports count theirs. A host that counts it here too is refused, and its report is lost.\<close>

lemma counted_id_is_rejected:
  assumes "\<not> report_ids_implicit (report_descriptor dev (hid_dev s))" and "length (set_report_data report) + 3 < 65536"
    and "bytes = command_bytes (set_type report) 3 (set_id report) @ to_le_bytes16 (word_of_nat (length (set_report_data report) + 3))
      @ [repeated] @ set_report_data report"
    and "host_writes (bus s) = [BusDone (WriteStopped (length bytes), bytes)]" and "length bytes \<le> length (write_buf s)"
  shows "fst (handle_request dev WriteRequest s) = Inl (ProtocolFailed InvalidSize)
    \<and> hid_dev (process_request dev WriteRequest s) = hid_dev s"
proof -
  let ?s = "s\<lparr>write_buf := fill_buffer bytes (write_buf s), bus := (bus s)\<lparr>host_writes := []\<rparr>\<rparr>"
  let ?data = "to_le_bytes16 (word_of_nat (length (set_report_data report) + 3)) @ [repeated] @ set_report_data report"
  have len: "unat (word_of_nat (length (set_report_data report) + 3) :: u16) = length (set_report_data report) + 3"
    using assms(2) by (rule unat_length)
  have "access_register dev bytes ?s
      = process_set_command dev (push_bit 4 (type_nibble (set_type report)) OR (if set_id report < 15 then set_id report else 15))
          ((if set_id report < 15 then [] else [set_id report]) @ to_le_bytes16 (register_address RegData) @ ?data) ?s"
    unfolding assms(3) by (simp add: access_register_def command_bytes_def split_u16_append process_command_def opcode_try_from_def)
  also have "\<dots> = (Inl (ProtocolFailed InvalidSize), ?s)"
    unfolding process_set_command_def io_header_round
    using assms(1) len
    by (simp add: split_u16_append HID_REPORT_HEADER_SIZE_BYTES_def ids_implicit_of_def get_range_def protocol_def err_def)
  finally have "handle_request dev WriteRequest s = (Inl (ProtocolFailed InvalidSize), ?s)"
    using handle_write[OF assms(4,5), of dev] by simp
  then show ?thesis by (simp add: process_request_def)
qed

text \<open>The write buffer is one byte too small: the set-report command for a report of the largest size whose ID
  takes a byte of its own, and that the data repeats, is longer than the buffer, and a host whose write fills it
  gets nothing but a protocol error; the report is lost.\<close>

theorem largest_report_is_rejected:
  assumes "\<not> report_ids_implicit (report_descriptor dev (hid_dev s))" and "15 \<le> set_id report"
    and "length (set_report_data report) = max (feature_report_max dev) (output_report_max dev)"
    and "host_writes (bus s) = [BusDone (BufferFull n, bytes), BusDone (WriteStopped k, more_bytes)]"
  shows "length (set_command False repeated report) = write_buffer_size dev + 1
    \<and> fst (handle_request dev WriteRequest s) = Inl (ProtocolFailed InvalidData)
    \<and> hid_dev (process_request dev WriteRequest s) = hid_dev s"
proof -
  have "\<not> set_id report < 15" using assms(2) by simp
  then have "length (set_command False repeated report) = write_buffer_size dev + 1"
    using assms(3) by (simp add: set_command_def command_bytes_def write_buffer_size_def)
  moreover have "fst (handle_request dev WriteRequest s) = Inl (ProtocolFailed InvalidData) \<and> hid_dev (process_request dev WriteRequest s) = hid_dev s"
    using assms(4)
    by (simp add: process_request_def handle_request_def process_register_access_def and_then_def read_request_def bus_read_def
        respond_to_write_def discard_remaining_bytes.simps)
  ultimately show ?thesis by simp
qed

text \<open>A device with two report IDs above 14, with the largest reports of five bytes.\<close>

definition wide_device :: "HidReportDescriptor hid_device" where
  "wide_device = \<lparr>input_report_max = 5, output_report_max = 5, feature_report_max = 5, max_report_count = 2, max_descriptor_len = 100,
     report_descriptor = (\<lambda>d. d), get_report = (\<lambda>t i d. (Inl TriggerReset, d)), set_report = (\<lambda>r d. (Inr (), d)),
     wait_for_report = (\<lambda>d. None), has_pending = (\<lambda>d. (False, d)), next_report = (\<lambda>d. None),
     power_state = (\<lambda>p d. (Inr (), d)), reset_device = (\<lambda>d. d)\<rparr>"

lemma largest_report_is_rejected_witness:
  "\<exists>s. length (set_command False 20 (SetFeature \<lparr>hid_id = 20, hid_data = [1, 2, 3, 4, 5]\<rparr>)) = write_buffer_size wide_device + 1
    \<and> fst (handle_request wide_device WriteRequest s) = Inl (ProtocolFailed InvalidData)"
proof -
  let ?r = "SetFeature \<lparr>hid_id = 20, hid_data = [1, 2, 3, 4, 5]\<rparr>"
  obtain s where s: "i2c_service_new wide_device (quiet_bus\<lparr>host_writes := [BusDone (BufferFull 14, []), BusDone (WriteStopped 1, [5])]\<rparr>) None []
      \<lparr>descriptor_bytes = [], report_ids_implicit = False, max_report_sizes = \<lparr>max_input = 5, max_output = 5, max_feature = 5\<rparr>\<rparr>
      \<lparr>vendor_id = 1, product_id = 2, version_id = 3\<rparr> = Inr s"
    by (simp add: i2c_service_new_def device_descriptor_new_def wide_device_def Let_def)
  then have "\<not> report_ids_implicit (report_descriptor wide_device (hid_dev s))"
    "host_writes (bus s) = [BusDone (BufferFull 14, []), BusDone (WriteStopped 1, [5])]"
    by (auto simp: i2c_service_new_def wide_device_def split: sum.splits)
  from largest_report_is_rejected[OF this(1), of ?r 14 "[]" 1 "[5]" 20] this(2) show ?thesis
    by (auto simp: set_id_def set_report_data_def wide_device_def)
qed

subsection \<open>Requests are answered once the host stops\<close>

text \<open>The loops of the service go on while the host repeats its start, fills the buffer that discards its bytes, or
  asks for more than it is given. A host stops if some outcome is none of these; of the reads it is one after the first,
  since a report takes two.\<close>

fun fills_buffer :: "(WriteStatus \<times> u8 list) bus_outcome \<Rightarrow> bool" where
  "fills_buffer (BusDone (BufferFull _, _)) = True"
| "fills_buffer _ = False"

fun asks_more :: "ReadStatus bus_outcome \<Rightarrow> bool" where
  "asks_more (BusDone (NeedMore _)) = True"
| "asks_more _ = False"

definition stops_repeating :: "I2cBus \<Rightarrow> bool" where
  "stops_repeating b \<longleftrightarrow> list_ex (\<lambda>x. x \<noteq> BusDone RepeatedStart) (listens b)"

definition stops_writing :: "I2cBus \<Rightarrow> bool" where
  "stops_writing b \<longleftrightarrow> list_ex (\<lambda>x. \<not> fills_buffer x) (host_writes b)"

definition stops_reading :: "I2cBus \<Rightarrow> bool" where
  "stops_reading b \<longleftrightarrow> list_ex (\<lambda>x. \<not> asks_more x) (host_reads b)"

definition stops_after_first :: "I2cBus \<Rightarrow> bool" where
  "stops_after_first b \<longleftrightarrow> list_ex (\<lambda>x. \<not> asks_more x) (tl (host_reads b))"

definition host_stops :: "I2cBus \<Rightarrow> bool" where
  "host_stops b \<longleftrightarrow> stops_repeating b \<and> stops_writing b \<and> stops_after_first b"

lemma stops_reading_once: "stops_after_first b \<Longrightarrow> stops_reading b"
  by (cases "host_reads b") (simp_all add: stops_reading_def stops_after_first_def)

text \<open>\<open>returns_from P m Q\<close>: from a bus with \<open>P\<close> the call returns, with a bus with \<open>Q\<close> unless it fails.\<close>

definition returns_from :: "(I2cBus \<Rightarrow> bool) \<Rightarrow> ('d, 'a) i2c \<Rightarrow> (I2cBus \<Rightarrow> bool) \<Rightarrow> bool" where
  "returns_from P m Q \<longleftrightarrow>
     (\<forall>s. P (bus s) \<longrightarrow> (case m s of (Inl e, _) \<Rightarrow> e \<noteq> Hangs | (Inr _, s') \<Rightarrow> Q (bus s')))"

definition bus_returns_from :: "(I2cBus \<Rightarrow> bool) \<Rightarrow> (I2cBus, I2cError, 'a) action \<Rightarrow> (I2cBus \<Rightarrow> bool) \<Rightarrow> bool" where
  "bus_returns_from P m Q \<longleftrightarrow> (\<forall>b. P b \<longrightarrow> (case m b of (Inl e, _) \<Rightarrow> e \<noteq> Hangs | (Inr _, b') \<Rightarrow> Q b'))"

lemma returns_and_then:
  "returns_from P m Q \<Longrightarrow> (\<And>a. returns_from Q (k a) R) \<Longrightarrow> returns_from P (and_then m k) R"
  by (fastforce simp: returns_from_def and_then_def split: prod.splits sum.splits)

lemma returns_weaken: "returns_from P' m Q \<Longrightarrow> (\<And>b. P b \<Longrightarrow> P' b) \<Longrightarrow> returns_from P m Q"
  by (auto simp: returns_from_def)

lemma returns_simps [simp]:
  "returns_from P (ok a) P" "returns_from P (protocol p) Q" "returns_from P (err (DeviceFailed e)) Q"
  "(\<And>s. bus (f s) = bus s) \<Longrightarrow> returns_from P (modify f) P"
  by (simp_all add: returns_from_def protocol_def)

lemma returns_forget: "returns_from P m Q \<Longrightarrow> returns_from P m (\<lambda>_. True)"
  by (auto simp: returns_from_def split: prod.splits sum.splits)

lemma returns_or_protocol: "(\<And>a. returns_from P (k a) Q) \<Longrightarrow> returns_from P (or_protocol r k) Q"
  by (simp add: or_protocol_def split: sum.split)

lemma returns_read: "(\<And>x. returns_from P (f x) Q) \<Longrightarrow> returns_from P (\<lambda>s. f (g s) s) Q"
  by (simp add: returns_from_def)

lemma returns_on_bus: "bus_returns_from P m Q \<Longrightarrow> returns_from P (on_bus m) Q"
  by (fastforce simp: returns_from_def bus_returns_from_def on_bus_def split: prod.splits sum.splits)

lemma returns_on_hid [simp]: "returns_from P (on_hid m) P"
  by (auto simp: returns_from_def on_hid_def map_sum_def split: prod.splits sum.splits)

lemma returns_on_hid_last [simp]: "returns_from P (on_hid m) (\<lambda>_. True)"
  by (rule returns_forget[OF returns_on_hid])

lemma timed_out_returns [simp]: "bus_timed_out b \<noteq> (Inl Hangs, b')"
  by (auto simp: bus_timed_out_def and_then_def recover_bus_def split: prod.splits sum.splits list.splits if_splits)

lemma listen_returns: "bus_returns_from (\<lambda>b. stops_repeating b \<and> stops_after_first b) listen_for_response (stops_after_first)"
proof -
  have "case listen_for_response b of (Inl e, _) \<Rightarrow> e \<noteq> Hangs | (Inr _, b') \<Rightarrow> stops_after_first b'"
    if "stops_repeating b" "stops_after_first b" for b
    using that
  proof (induction b rule: listen_for_response.induct)
    case (1 b)
    obtain x ls where listens: "listens b = x # ls" using "1.prems" by (cases "listens b") (simp_all add: stops_repeating_def)
    show ?case
    proof (cases "x = BusDone RepeatedStart")
      case True
      then have "listen_for_response b = listen_for_response (b\<lparr>listens := ls\<rparr>)" using listens by (simp add: listen_for_response.simps[of b])
      moreover have "stops_repeating (b\<lparr>listens := ls\<rparr>)" "stops_after_first (b\<lparr>listens := ls\<rparr>)"
        using "1.prems" listens True by (simp_all add: stops_repeating_def stops_reading_def stops_after_first_def)
      ultimately show ?thesis using "1.IH" listens True by simp
    qed (use "1.prems" listens in \<open>simp add: listen_for_response.simps[of b] stops_reading_def stops_after_first_def split: bus_outcome.split\<close>)
  qed
  then show ?thesis by (simp add: bus_returns_from_def)
qed

lemma write_once_returns: "bus_returns_from (stops_after_first) (write_unterminated bytes) (stops_reading)"
proof -
  have "case write_unterminated bytes b of (Inl e, _) \<Rightarrow> e \<noteq> Hangs | (Inr _, b') \<Rightarrow> stops_reading b'" if "stops_after_first b" for b
    using that by (auto simp: write_unterminated_def Let_def stops_reading_def stops_after_first_def split: list.splits bus_outcome.splits prod.splits sum.splits)
  then show ?thesis by (simp add: bus_returns_from_def)
qed

lemma write_padded_returns: "bus_returns_from (stops_reading) (write_padded bytes) (\<lambda>_. True)"
proof -
  have "case write_padded bytes b of (Inl e, _) \<Rightarrow> e \<noteq> Hangs | (Inr _, b') \<Rightarrow> True" if "stops_reading b" for b
    using that
  proof (induction bytes b rule: write_padded.induct)
    case (1 bytes b)
    obtain x rs where reads: "host_reads b = x # rs" using "1.prems" by (cases "host_reads b") (simp_all add: stops_reading_def stops_after_first_def)
    show ?case
    proof (cases "write_unterminated bytes b")
      case (Pair r b')
      have err: "e \<noteq> Hangs" if "r = Inl e" for e
        using Pair that reads by (auto simp: write_unterminated_def Let_def split: bus_outcome.splits)
      have rest: "stops_reading b'" if "r = Inr True"
        using Pair that reads "1.prems"
        by (auto simp: write_unterminated_def Let_def stops_reading_def stops_after_first_def split: bus_outcome.splits ReadStatus.splits)
      show ?thesis
        using Pair err rest "1.IH"[OF Pair[symmetric]]
        by (subst write_padded.simps) (auto split: sum.splits)
    qed
  qed
  then show ?thesis by (simp add: bus_returns_from_def)
qed

lemma timed_out_fst [simp]: "fst (bus_timed_out b) \<noteq> Inl Hangs"
  by (metis prod.collapse timed_out_returns)

lemma discard_returns: "stops_writing b \<Longrightarrow> fst (discard_remaining_bytes b) \<noteq> Inl Hangs"
proof (induction b rule: discard_remaining_bytes.induct)
  case (1 b)
  obtain x ws where writes: "host_writes b = x # ws" using "1.prems" by (cases "host_writes b") (simp_all add: stops_writing_def)
  show ?case
  proof (cases x)
    case (BusDone y)
    obtain status bytes where y: "y = (status, bytes)" by (cases y)
    show ?thesis
    proof (cases status)
      case (BufferFull n)
      have "respond_to_write (replicate 16 0) b = (Some (BusDone (BufferFull n)), fill_buffer bytes (replicate 16 0), b\<lparr>host_writes := ws\<rparr>)"
        using writes BusDone y BufferFull by (simp add: respond_to_write_def)
      moreover have "stops_writing (b\<lparr>host_writes := ws\<rparr>)"
        using "1.prems" writes BusDone y BufferFull by (simp add: stops_writing_def)
      ultimately show ?thesis using "1.IH"
        by (subst discard_remaining_bytes.simps) fastforce
    qed (use writes BusDone y in \<open>subst discard_remaining_bytes.simps, simp add: respond_to_write_def\<close>)+
  qed (use writes in \<open>subst discard_remaining_bytes.simps, simp add: respond_to_write_def\<close>)+
qed

lemma read_request_returns: "returns_from host_stops read_request (\<lambda>b. stops_repeating b \<and> stops_after_first b)"
proof -
  have "case read_request s of (Inl e, _) \<Rightarrow> e \<noteq> Hangs | (Inr _, s') \<Rightarrow> stops_repeating (bus s') \<and> stops_after_first (bus s')"
    if stops: "host_stops (bus s)" for s :: "'a HidRunner"
  proof -
    let ?b = "bus s"
    obtain x ws where writes: "host_writes ?b = x # ws"
      using stops by (cases "host_writes ?b") (simp_all add: host_stops_def stops_writing_def)
    have parts: "stops_repeating (?b\<lparr>host_writes := ws\<rparr>)" "stops_after_first (?b\<lparr>host_writes := ws\<rparr>)"
      using stops by (simp_all add: host_stops_def stops_repeating_def stops_reading_def stops_after_first_def)
    show ?thesis
    proof (cases x)
      case TimedOut
      then show ?thesis using writes timed_out_returns[of "?b\<lparr>host_writes := ws\<rparr>"]
        by (auto simp: read_request_def bus_read_def respond_to_write_def split: prod.split sum.split)
    next
      case BusFailed
      then show ?thesis using writes by (simp add: read_request_def bus_read_def respond_to_write_def)
    next
      case (BusDone y)
      obtain status bytes where y: "y = (status, bytes)" by (cases y)
      show ?thesis
      proof (cases status)
        case (BufferFull n)
        have "stops_writing (?b\<lparr>host_writes := ws\<rparr>)" using stops writes BusDone y BufferFull by (simp add: host_stops_def stops_writing_def)
        from discard_returns[OF this] show ?thesis
          using writes BusDone y BufferFull
          by (cases "discard_remaining_bytes (?b\<lparr>host_writes := ws\<rparr>)")
            (auto simp: read_request_def bus_read_def respond_to_write_def and_then_def split: sum.split)
      qed (use writes BusDone y parts in \<open>simp_all add: read_request_def bus_read_def respond_to_write_def\<close>)
    qed
  qed
  then show ?thesis by (simp add: returns_from_def)
qed

lemma send_returns: "returns_from (stops_reading) (on_bus (write_padded bytes)) (\<lambda>_. True)"
  by (rule returns_on_bus[OF write_padded_returns])

lemma send_twice_returns:
  "returns_from (stops_after_first) (and_then (on_bus (write_unterminated header)) (\<lambda>_. on_bus (write_padded bytes))) (\<lambda>_. True)"
  by (rule returns_and_then[OF returns_on_bus[OF write_once_returns] send_returns])

lemma empty_returns:
  assumes "\<And>s. bus (f s) = bus s"
  shows "returns_from (stops_after_first) (and_then send_empty_report (\<lambda>_. modify f)) (\<lambda>_. True)"
  unfolding send_empty_report_def
  by (rule returns_and_then[OF returns_weaken[OF send_returns stops_reading_once]]) (simp_all add: assms)

lemma take_after_asking:
  assumes "hid_device dev" and sends: "\<And>implicit report. returns_from (stops_after_first) (k implicit report) (\<lambda>_. True)"
  shows "returns_from (stops_after_first) (and_then (ask_pending dev) (\<lambda>pending. if \<not> pending then and_then send_empty_report (\<lambda>_. modify clear_attn)
    else (\<lambda>s. let implicit = ids_implicit_of dev s in and_then (take_report dev) (k implicit) s))) (\<lambda>_. True)"
    (is "returns_from _ ?m _")
proof -
  have "case ?m s of (Inl e, _) \<Rightarrow> e \<noteq> Hangs | (Inr _, _) \<Rightarrow> True" if stops: "stops_after_first (bus s)" for s
  proof -
    obtain b d where asked: "has_pending dev (hid_dev s) = (b, d)" by fastforce
    show ?thesis
    proof (cases b)
      case True
      then obtain r d' where taken: "next_report dev d = Some (r, d')"
        using hid_device.asked_is_available[OF assms(1)] asked by force
      show ?thesis
      proof (cases r)
        case (Inr report)
        have "case k (ids_implicit_of dev (s\<lparr>hid_dev := d\<rparr>)) report (s\<lparr>hid_dev := d'\<rparr>) of (Inl e, _) \<Rightarrow> e \<noteq> Hangs | (Inr _, _) \<Rightarrow> True"
          using sends stops by (simp add: returns_from_def)
        then show ?thesis
          using asked True taken Inr by (simp add: and_then_def ask_pending_def on_hid_def take_report_def Let_def)
      qed (use asked True taken in \<open>simp add: and_then_def ask_pending_def on_hid_def take_report_def Let_def\<close>)
    next
      case False
      have "returns_from (stops_after_first) (and_then send_empty_report (\<lambda>_. modify (clear_attn :: 'a HidRunner \<Rightarrow> _))) (\<lambda>_. True)"
        by (rule empty_returns) (simp add: clear_attn_def)
      then show ?thesis
        using asked False stops by (simp add: and_then_def[of "ask_pending dev"] ask_pending_def on_hid_def returns_from_def)
    qed
  qed
  then show ?thesis by (simp add: returns_from_def)
qed

lemma reply_returns:
  assumes "hid_device dev"
  shows "returns_from (stops_after_first) (reply_with_input_report dev) (\<lambda>_. True)"
proof -
  let ?rest = "\<lambda>implicit report. and_then (on_bus (write_unterminated (input_header implicit report))) (\<lambda>_.
                    and_then (on_bus (write_padded (hid_data report))) (\<lambda>_.
                    and_then (ask_pending dev) (\<lambda>pending. if pending then ok () else modify clear_attn)))"
  have last: "returns_from (\<lambda>_. True) (if pending then ok () else modify clear_attn) (\<lambda>_. True)" for pending
    by (simp add: clear_attn_def)
  have "returns_from (stops_after_first) (?rest implicit report) (\<lambda>_. True)" for implicit report
    by (rule returns_and_then[OF returns_on_bus[OF write_once_returns] returns_and_then[OF send_returns]])
      (rule returns_and_then[OF _ last], simp add: ask_pending_def)
  note reply = take_after_asking[OF assms, of ?rest, OF this]
  have "returns_from (stops_after_first)
      (and_then send_empty_report (\<lambda>_. modify (\<lambda>s :: 'a HidRunner. clear_attn (s\<lparr>pending_reset := False\<rparr>)))) (\<lambda>_. True)"
    by (rule empty_returns) (simp add: clear_attn_def)
  then show ?thesis
    using reply unfolding reply_with_input_report_def[abs_def] by (simp add: returns_from_def split: if_split)
qed

lemma get_returns:
  "returns_from (\<lambda>b. stops_repeating b \<and> stops_after_first b) (process_get_command dev c data) (\<lambda>_. True)"
  unfolding process_get_command_def
  by (auto intro!: returns_or_protocol returns_and_then[OF returns_on_bus[OF listen_returns]]
      returns_and_then[OF returns_on_hid] send_twice_returns split: prod.split)

lemma set_returns: "returns_from P (process_set_command dev c data) (\<lambda>_. True)"
  unfolding process_set_command_def
  by (rule returns_read[where g = "ids_implicit_of dev"]) (auto intro!: returns_or_protocol split: prod.split HidI2cReportType.split)

lemma output_returns: "returns_from P (process_output dev data) (\<lambda>_. True)"
  unfolding process_output_def
  by (rule returns_read[where g = "ids_implicit_of dev"]) (auto intro!: returns_or_protocol simp: Let_def split: prod.split)

lemma command_returns:
  "returns_from (\<lambda>b. stops_repeating b \<and> stops_after_first b) (process_command dev data) (\<lambda>_. True)"
  unfolding process_command_def
  by (auto intro!: returns_or_protocol get_returns set_returns split: prod.split option.split Opcode.split)

lemma answer_returns: "returns_from (\<lambda>b. stops_repeating b \<and> stops_after_first b) (answer_read f) (\<lambda>_. True)"
proof -
  have "returns_from (stops_after_first) (\<lambda>s. on_bus (write_padded (f s)) s) (\<lambda>_. True)"
    by (rule returns_read[of _ "\<lambda>bytes. on_bus (write_padded bytes)" _ f]) (rule returns_weaken[OF send_returns stops_reading_once])
  then show ?thesis unfolding answer_read_def by (auto intro!: returns_and_then[OF returns_on_bus[OF listen_returns]])
qed

lemma access_returns:
  assumes "hid_device dev"
  shows "returns_from (\<lambda>b. stops_repeating b \<and> stops_after_first b) (access_register dev data) (\<lambda>_. True)"
  unfolding access_register_def process_input_report_read_def
  by (auto intro!: returns_or_protocol answer_returns command_returns output_returns
      returns_and_then[OF returns_on_bus[OF listen_returns]] reply_returns[OF assms]
      split: prod.split option.split HidI2cRegister.split)

text \<open>C25. With a device that keeps the contract of the trait the handling of every request ends once the host stops: among
  the outcomes of the bus there is a timeout, an error or an answer that is not a repeated start, one that is not a full
  buffer, and after the first read one that does not ask for more. No other wait is left, and a report is taken from
  the device only when it is there.\<close>

theorem request_handling_ends:
  assumes "hid_device dev" and "host_stops (bus s)"
  shows "fst (handle_request dev request s) \<noteq> Inl Hangs"
proof -
  have "returns_from host_stops (handle_request dev request) (\<lambda>_. True)"
  proof (cases request)
    case WriteRequest
    then show ?thesis
      using returns_and_then[OF read_request_returns access_returns[OF assms(1)]] by (simp add: handle_request_def process_register_access_def)
  next
    case ReadRequest
    then show ?thesis
      using returns_weaken[OF reply_returns[OF assms(1)], of host_stops] by (simp add: handle_request_def host_stops_def)
  qed (simp_all add: handle_request_def returns_from_def)
  then show ?thesis using assms(2) by (cases "handle_request dev request s") (auto simp: returns_from_def split: sum.splits)
qed

text \<open>A host that reads a report descriptor with a repeated start and a timeout in between.\<close>

definition stopping_bus :: I2cBus where
  "stopping_bus = quiet_bus\<lparr>listens := [BusDone RepeatedStart, BusDone ReadRequest], host_writes := [BusDone (WriteRestarted 2, [2, 0])],
     host_reads := [BusDone (NeedMore 8), BusDone (NeedMore 8), BusDone OtherReadStatus]\<rparr>"

lemma request_handling_ends_witness:
  "fst (handle_request example_keyboard WriteRequest (example_runner\<lparr>bus := stopping_bus\<rparr>)) \<noteq> Inl Hangs"
proof (rule request_handling_ends[OF example_lawful])
  show "host_stops (bus (example_runner\<lparr>bus := stopping_bus\<rparr>))"
    by (simp add: host_stops_def stops_repeating_def stops_writing_def stops_reading_def stops_after_first_def stopping_bus_def quiet_bus_def)
qed

text \<open>A host that never stops is never refused: as long as it asks for more the service sends padding, and as long as it
  writes on the service discards; the waits themselves have timeouts, the requests have none.\<close>

theorem endless_host_holds_service:
  assumes "host_writes b = replicate n (BusDone (BufferFull k, bytes))" and "host_reads b = replicate m (BusDone (NeedMore j))"
  shows "fst (discard_remaining_bytes b) = Inl Hangs"
    and "write_padded answer b = (Inl Hangs, b\<lparr>host_reads := [], replies := replies b @ answer # replicate m PADDING_BUFFER\<rparr>)"
proof -
  show "fst (discard_remaining_bytes b) = Inl Hangs"
    using assms(1) by (induction n arbitrary: b) (simp_all add: discard_remaining_bytes.simps respond_to_write_def)
  have "write_padded answer b = (Inl Hangs, b\<lparr>host_reads := [], replies := replies b @ answer # replicate m PADDING_BUFFER\<rparr>)" for answer
    using assms(2)
  proof (induction m arbitrary: b answer)
    case 0
    then show ?case by (subst write_padded.simps) (simp add: write_unterminated_def Let_def)
  next
    case (Suc m)
    have "write_unterminated answer b = (Inr True, b\<lparr>host_reads := replicate m (BusDone (NeedMore j)), replies := replies b @ [answer]\<rparr>)"
      using Suc.prems by (simp add: write_unterminated_def Let_def)
    then show ?case using Suc.IH[of "b\<lparr>host_reads := replicate m (BusDone (NeedMore j)), replies := replies b @ [answer]\<rparr>" PADDING_BUFFER]
      by (subst write_padded.simps) simp
  qed
  then show "write_padded answer b = (Inl Hangs, b\<lparr>host_reads := [], replies := replies b @ answer # replicate m PADDING_BUFFER\<rparr>)" .
qed

end
