(* ===== verification/Hid_Aggregate_Props.thy ===== *)
theory Hid_Aggregate_Props
  imports Hid_Aggregate Hid_I2c_Reports
begin

text \<open>
  What the host sees of an aggregate: every report goes to, and comes from, the child that owns it, under the ID that
  this child declares, and the aggregate of well-sized devices can be built and presented on the bus.
\<close>

subsection \<open>Routing\<close>

definition child_descriptors :: "'d hid_device list \<Rightarrow> 'd list \<Rightarrow> HidReportDescriptor list" where
  "child_descriptors devs cs = map (\<lambda>(dev, c). report_descriptor dev c) (zip devs cs)"

lemma aggregate_new_ok:
  "aggregate_new devs cs = Inr s \<longleftrightarrow>
     (\<exists>d m. combine (sum_list (map max_report_count devs)) (child_descriptors devs cs) (replicate (DESCRIPTOR_BUF_LEN devs) 0) = Inr (d, m)
        \<and> s = \<lparr>children = cs, agg_descriptor = d, agg_map = m\<rparr>)"
  by (auto simp: aggregate_new_def child_descriptors_def split: sum.splits prod.splits)

lemma aggregate_calls_owner:
  assumes "route_report (agg_map s) h = Some (i, n)" and "i < length devs" and "length (children s) = length devs"
  shows "get_report (aggregate devs) t h s
      = (case get_report (devs ! i) t n (children s ! i) of (r, c) \<Rightarrow> (r, s\<lparr>children := (children s)[i := c]\<rparr>))"
    and "set_id report = h \<Longrightarrow> set_report (aggregate devs) report s
      = (case set_report (devs ! i) (relabel n report) (children s ! i) of (r, c) \<Rightarrow> (r, s\<lparr>children := (children s)[i := c]\<rparr>))"
  using assms by (simp_all add: aggregate_def aggregate_get_report_def aggregate_set_report_def on_child_def)

lemma aggregate_relabels:
  assumes "first_pending devs (children s) = (Some i, ds)" and "next_report (devs ! i) (ds ! i) = Some (Inr r, c)"
    and "host_id (agg_map s) i (hid_id r) = Some h"
  shows "next_report (aggregate devs) s = Some (Inr \<lparr>hid_id = h, hid_data = hid_data r\<rparr>, s\<lparr>children := ds[i := c]\<rparr>)"
  using assms first_pending_index[OF assms(1)]
  by (simp add: aggregate_def aggregate_next_report_def find_pending_pending[OF assms(1)] to_host_def)

text \<open>C26. In an aggregate a host-facing report ID stands for one report of one child: getting or setting it does to this
  child exactly what its own operation does with the native ID, and nothing to the others; an ID that is not assigned
  changes nothing and asks for a reset. A report that a child sends is relabelled such that its new ID leads back to
  this child and this report.\<close>

theorem aggregate_reaches_owner:
  assumes "aggregate_new devs cs = Inr s0" and "\<forall>d \<in> set (child_descriptors devs cs). accepted d" and "agg_map s = agg_map s0"
    and "length (children s) = length devs" and "length cs = length devs"
  shows "(case route_report (agg_map s) h of
      None \<Rightarrow> get_report (aggregate devs) t h s = (Inl TriggerReset, s)
        \<and> (set_id report = h \<longrightarrow> set_report (aggregate devs) report s = (Inl TriggerReset, s))
    | Some (i, n) \<Rightarrow>
        get_report (aggregate devs) t h s
          = (case get_report (devs ! i) t n (children s ! i) of (r, c) \<Rightarrow> (r, s\<lparr>children := (children s)[i := c]\<rparr>))
        \<and> (set_id report = h \<longrightarrow> set_report (aggregate devs) report s
          = (case set_report (devs ! i) (relabel n report) (children s ! i) of (r, c) \<Rightarrow> (r, s\<lparr>children := (children s)[i := c]\<rparr>))))
    \<and> (\<forall>i ds r c. first_pending devs (children s) = (Some i, ds) \<longrightarrow> next_report (devs ! i) (ds ! i) = Some (Inr r, c) \<longrightarrow>
        hid_id r \<in> declared (report_ids_implicit (child_descriptors devs cs ! i)) (items_of (child_descriptors devs cs ! i)) \<longrightarrow>
        (\<exists>i'. next_report (aggregate devs) s = Some (Inr \<lparr>hid_id = i', hid_data = hid_data r\<rparr>, s\<lparr>children := ds[i := c]\<rparr>)
          \<and> route_report (agg_map s) i' = Some (i, hid_id r)))"
proof -
  obtain d where made: "combine (sum_list (map max_report_count devs)) (child_descriptors devs cs) (replicate (DESCRIPTOR_BUF_LEN devs) 0)
      = Inr (d, agg_map s)"
    using assms(1,3) by (auto simp: aggregate_new_ok)
  have len: "length (child_descriptors devs cs) = length devs" using assms(5) by (simp add: child_descriptors_def)
  note ids = report_ids_translate[OF assms(2) made]
  have owner: "i < length devs" if "route_report (agg_map s) h = Some (i, n)" for i n
    using ids[of h i n] that len by auto
  show ?thesis
  proof (intro conjI allI impI)
    show "case route_report (agg_map s) h of
      None \<Rightarrow> get_report (aggregate devs) t h s = (Inl TriggerReset, s)
        \<and> (set_id report = h \<longrightarrow> set_report (aggregate devs) report s = (Inl TriggerReset, s))
    | Some (i, n) \<Rightarrow>
        get_report (aggregate devs) t h s
          = (case get_report (devs ! i) t n (children s ! i) of (r, c) \<Rightarrow> (r, s\<lparr>children := (children s)[i := c]\<rparr>))
        \<and> (set_id report = h \<longrightarrow> set_report (aggregate devs) report s
          = (case set_report (devs ! i) (relabel n report) (children s ! i) of (r, c) \<Rightarrow> (r, s\<lparr>children := (children s)[i := c]\<rparr>)))"
    proof (cases "route_report (agg_map s) h")
      case (Some owned)
      obtain i n where owned: "owned = (i, n)" by (cases owned)
      note Some[unfolded owned]
      from aggregate_calls_owner[OF this owner[OF this] assms(4)] show ?thesis by (simp add: Some owned)
    qed (simp add: aggregate_def aggregate_get_report_def aggregate_set_report_def)
  next
    fix i ds r c
    assume pending: "first_pending devs (children s) = (Some i, ds)" and taken: "next_report (devs ! i) (ds ! i) = Some (Inr r, c)"
      and declared: "hid_id r \<in> declared (report_ids_implicit (child_descriptors devs cs ! i)) (items_of (child_descriptors devs cs ! i))"
    have "i < length devs" using first_pending_index[OF pending] by simp
    then obtain h' where h': "route_report (agg_map s) h' = Some (i, hid_id r)"
      using ids[of 0 i "hid_id r", THEN conjunct2, THEN conjunct1] declared by (auto simp: len)
    then have "host_id (agg_map s) i (hid_id r) = Some h'" using ids[of h' i "hid_id r"] by simp
    from aggregate_relabels[OF pending taken this] h'
    show "\<exists>i'. next_report (aggregate devs) s = Some (Inr \<lparr>hid_id = i', hid_data = hid_data r\<rparr>, s\<lparr>children := ds[i := c]\<rparr>)
        \<and> route_report (agg_map s) i' = Some (i, hid_id r)" by blast
  qed
qed

subsection \<open>Building and presenting\<close>

text \<open>What a child says of itself, and its descriptor.\<close>

definition well_sized :: "'d hid_device \<Rightarrow> HidReportDescriptor \<Rightarrow> bool" where
  "well_sized dev d \<longleftrightarrow> wrappable d \<and> length (descriptor_bytes d) \<le> max_descriptor_len dev
     \<and> card (declared (report_ids_implicit d) (items_of d)) \<le> max_report_count dev
     \<and> max_input (max_report_sizes d) \<le> input_report_max dev \<and> max_output (max_report_sizes d) \<le> output_report_max dev
     \<and> max_feature (max_report_sizes d) \<le> feature_report_max dev"

lemma sums_le:
  assumes "list_all2 well_sized devs ds"
  shows "id_count ds \<le> sum_list (map max_report_count devs)" and "expected_size ds \<le> DESCRIPTOR_BUF_LEN devs"
  using assms
  by (induction rule: list_all2_induct) (auto simp: id_count_def expected_size_def DESCRIPTOR_BUF_LEN_def well_sized_def)

lemma largest_fits:
  fixes size :: "HidReportDescriptor \<Rightarrow> nat"
  assumes "list_all2 (\<lambda>dev d. size d \<le> limit dev) devs ds"
  shows "Max (insert 0 (set (map size ds))) \<le> fold max (map limit devs) 0"
proof -
  have "x \<le> fold max (map limit devs) 0" if "x \<in> insert 0 (set (map size ds))" for x
  proof -
    have "fold max (map limit devs) 0 = Max (insert 0 (set (map limit devs)))" by (simp add: Max.set_eq_fold[symmetric])
    moreover have "\<exists>y \<in> insert 0 (set (map limit devs)). x \<le> y"
      using that assms by (fastforce simp: in_set_conv_nth list_all2_conv_all_nth)
    ultimately show ?thesis by (metis (no_types, lifting) List.finite_set Max_ge finite.insertI le_trans)
  qed
  then show ?thesis by (intro Max.boundedI) auto
qed

text \<open>Devices whose descriptors keep to the sizes and numbers that they declare, with at most 255 reports in all, can
  be made into an aggregate, and the target presents it: its descriptor is accepted, and the lengths it announces are
  those of the largest child.\<close>

theorem aggregate_is_presented:
  assumes "list_all2 well_sized devs (child_descriptors devs cs)" and "length cs = length devs"
    and "sum_list (map max_report_count devs) \<le> 255"
  shows "\<exists>s dd. aggregate_new devs cs = Inr s \<and> device_descriptor_new (aggregate devs) s hwinfo = Inr dd
    \<and> w_max_output_length dd = word_of_nat (fold max (map output_report_max devs) 0) + HID_REPORT_HEADER_SIZE_BYTES
        + (if report_ids_implicit (agg_descriptor s) then 0 else HID_REPORT_ID_SIZE_BYTES)
    \<and> length (descriptor_as_bytes dd) = unat (w_hid_desc_length dd)"
proof -
  let ?ds = "child_descriptors devs cs"
  have wrap: "\<forall>d \<in> set ?ds. wrappable d"
    using assms(1) by (fastforce simp: well_sized_def list_all2_conv_all_nth in_set_conv_nth)
  have "expected_size ?ds \<le> length (replicate (DESCRIPTOR_BUF_LEN devs) (0 :: u8))" "id_count ?ds \<le> sum_list (map max_report_count devs)"
    "id_count ?ds \<le> 255"
    using sums_le[OF assms(1)] assms(3) by simp_all
  from combine_wrappable[OF wrap this] obtain d m where
    made: "combine (sum_list (map max_report_count devs)) ?ds (replicate (DESCRIPTOR_BUF_LEN devs) 0) = Inr (d, m)"
    and sizes: "\<forall>size \<in> {max_input, max_output, max_feature}.
        size (max_report_sizes d) = Max (insert 0 (set (map (\<lambda>d. size (max_report_sizes d)) ?ds)))"
    by blast
  define s where "s = \<lparr>children = cs, agg_descriptor = d, agg_map = m\<rparr>"
  have s: "aggregate_new devs cs = Inr s" using made by (auto simp: aggregate_new_ok s_def)
  have "list_all2 (\<lambda>dev d. max_input (max_report_sizes d) \<le> input_report_max dev) devs ?ds"
    "list_all2 (\<lambda>dev d. max_output (max_report_sizes d) \<le> output_report_max dev) devs ?ds"
    "list_all2 (\<lambda>dev d. max_feature (max_report_sizes d) \<le> feature_report_max dev) devs ?ds"
    using assms(1) by (auto simp: well_sized_def elim!: list_all2_mono)
  note fits = this[THEN largest_fits]
  have "max_input (max_report_sizes d) \<le> input_report_max (aggregate devs)" "max_output (max_report_sizes d) \<le> output_report_max (aggregate devs)"
    "max_feature (max_report_sizes d) \<le> feature_report_max (aggregate devs)"
    using sizes fits by (simp_all add: aggregate_def)
  then show ?thesis
    using s by (simp add: device_descriptor_new_def s_def Let_def not_less descriptor_as_bytes_def) (simp add: aggregate_def)
qed

subsection \<open>Two keyboards\<close>

lemma keyboard_wrappable: "wrappable keyboard_descriptor_of_relay"
proof -
  have "accepted keyboard_descriptor_of_relay"
    using keyboard_descriptor_new by (simp add: accepted_def keyboard_descriptor_of_relay_def)
  moreover have "framed True False [] (fst (descriptor_items REPORT_DESCRIPTOR))" by code_simp
  ultimately show ?thesis by (simp add: wrappable_def items_of_def keyboard_descriptor_of_relay_def)
qed

lemma two_keyboards:
  "child_descriptors [example_keyboard, example_keyboard] [typed_keyboard, typed_keyboard]
    = [keyboard_descriptor_of_relay, keyboard_descriptor_of_relay]"
  by (simp add: child_descriptors_def example_keyboard_def keyboard_device_def typed_keyboard_def)

lemma keyboard_declares: "declared (report_ids_implicit keyboard_descriptor_of_relay) (items_of keyboard_descriptor_of_relay) = {0}"
proof -
  have "declared True (fst (descriptor_items REPORT_DESCRIPTOR)) = {0}" by code_simp
  then show ?thesis by (simp add: items_of_def keyboard_descriptor_of_relay_def)
qed

lemma keyboard_well_sized: "well_sized example_keyboard keyboard_descriptor_of_relay"
  using keyboard_wrappable unfolding well_sized_def keyboard_declares
  by (simp add: example_keyboard_def keyboard_device_def keyboard_descriptor_of_relay_def)

lemma aggregate_is_presented_witness:
  "\<exists>s dd. aggregate_new [example_keyboard, example_keyboard] [typed_keyboard, typed_keyboard] = Inr s
    \<and> device_descriptor_new (aggregate [example_keyboard, example_keyboard]) s \<lparr>vendor_id = 1, product_id = 2, version_id = 3\<rparr> = Inr dd"
proof -
  have "list_all2 well_sized [example_keyboard, example_keyboard]
      (child_descriptors [example_keyboard, example_keyboard] [typed_keyboard, typed_keyboard])"
    using keyboard_well_sized by (simp add: two_keyboards)
  moreover have "sum_list (map max_report_count [example_keyboard, example_keyboard]) \<le> 255"
    by (simp add: example_keyboard_def keyboard_device_def)
  ultimately show ?thesis
    using aggregate_is_presented[of "[example_keyboard, example_keyboard]" "[typed_keyboard, typed_keyboard]"
        "\<lparr>vendor_id = 1, product_id = 2, version_id = 3\<rparr>"] by auto
qed

lemma aggregate_reaches_owner_witness:
  "\<exists>s h. aggregate_new [example_keyboard, example_keyboard] [typed_keyboard, typed_keyboard] = Inr s
    \<and> (\<exists>k. next_report (aggregate [example_keyboard, example_keyboard]) s = Some (Inr \<lparr>hid_id = h, hid_data = [0, 0, 4, 0, 0, 0, 0, 0]\<rparr>, k))
    \<and> route_report (agg_map s) h = Some (0, 0)"
proof -
  let ?devs = "[example_keyboard, example_keyboard]" and ?cs = "[typed_keyboard, typed_keyboard]"
  obtain s where s: "aggregate_new ?devs ?cs = Inr s" using aggregate_is_presented_witness by blast
  have children: "children s = ?cs" using s by (auto simp: aggregate_new_ok)
  have acc: "\<forall>d \<in> set (child_descriptors ?devs ?cs). accepted d" using keyboard_wrappable by (simp add: two_keyboards wrappable_def)
  have pending: "first_pending ?devs (children s) = (Some 0, ?cs)"
    by (simp add: children example_keyboard_def keyboard_device_def keyboard_has_pending_def typed_keyboard_def)
  have "\<exists>k. next_report (?devs ! 0) (?cs ! 0) = Some (Inr \<lparr>hid_id = 0, hid_data = [0, 0, 4, 0, 0, 0, 0, 0]\<rparr>, k)"
    by (simp add: example_keyboard_def keyboard_device_def keyboard_next_report_def keyboard_wait_def typed_keyboard_def REPORT_ID_def)
  then obtain k where k: "next_report (?devs ! 0) (?cs ! 0) = Some (Inr \<lparr>hid_id = 0, hid_data = [0, 0, 4, 0, 0, 0, 0, 0]\<rparr>, k)" by blast
  have declared: "hid_id \<lparr>hid_id = 0, hid_data = [0, 0, 4, 0, 0, 0, 0, 0]\<rparr>
      \<in> declared (report_ids_implicit (child_descriptors ?devs ?cs ! 0)) (items_of (child_descriptors ?devs ?cs ! 0))"
    by (simp add: two_keyboards keyboard_declares)
  have "length (children s) = length ?devs" "length ?cs = length ?devs" by (simp_all add: children)
  from aggregate_reaches_owner[OF s acc refl this, THEN conjunct2, rule_format, OF pending k declared] s
  show ?thesis by (metis (no_types, lifting) HidReport.select_convs(1) HidReport.select_convs(2))
qed

end
