(* ===== verification/Typec_Event.thy ===== *)
theory Typec_Event
  imports Prelude
begin

text \<open>
  The events of a Type-C port: the bitfields and the event type of
  \<open>type-c-interface/src/port/event.rs\<close>, the stream of events made of pending bitfields,
  \<open>PortEventStreamer\<close> of \<open>type-c-service/src/lib.rs\<close>, and the splitter of interrupts of
  \<open>type-c-service/src/controller/event_receiver.rs\<close>.

  A bitfield is its 16-bit word. The macro \<open>bitfield!\<close> makes a getter that reads the named bit and a
  setter that writes it and leaves the others.
\<close>

named_theorems event_bits \<open>the accessors of the event bitfields as bit operations\<close>

definition with_bit :: "nat \<Rightarrow> bool \<Rightarrow> u16 \<Rightarrow> u16" where
  "with_bit n b w = (if b then set_bit n w else unset_bit n w)"

lemma bit_with_bit [simp]: "n < 16 \<Longrightarrow> bit (with_bit n b w) m \<longleftrightarrow> (if m = n then b else bit w m)"
  using bit_imp_le_length[of w m] by (auto simp: with_bit_def bit_set_bit_iff bit_unset_bit_iff)

subsection \<open>Status events\<close>

datatype PortStatusEventBitfield = PortStatusEventBitfield (status_bits: u16)

definition status_none :: PortStatusEventBitfield where
  "status_none = PortStatusEventBitfield 0"

definition status_union :: "PortStatusEventBitfield \<Rightarrow> PortStatusEventBitfield \<Rightarrow> PortStatusEventBitfield" where
  "status_union a b = PortStatusEventBitfield (status_bits a OR status_bits b)"

definition plug_inserted_or_removed :: "PortStatusEventBitfield \<Rightarrow> bool" where
  [event_bits]: "plug_inserted_or_removed e \<longleftrightarrow> bit (status_bits e) 0"

definition set_plug_inserted_or_removed :: "bool \<Rightarrow> PortStatusEventBitfield \<Rightarrow> PortStatusEventBitfield" where
  [event_bits]: "set_plug_inserted_or_removed b e = PortStatusEventBitfield (with_bit 0 b (status_bits e))"

definition source_caps_received :: "PortStatusEventBitfield \<Rightarrow> bool" where
  [event_bits]: "source_caps_received e \<longleftrightarrow> bit (status_bits e) 1"

definition set_source_caps_received :: "bool \<Rightarrow> PortStatusEventBitfield \<Rightarrow> PortStatusEventBitfield" where
  [event_bits]: "set_source_caps_received b e = PortStatusEventBitfield (with_bit 1 b (status_bits e))"

definition new_power_contract_as_provider :: "PortStatusEventBitfield \<Rightarrow> bool" where
  [event_bits]: "new_power_contract_as_provider e \<longleftrightarrow> bit (status_bits e) 2"

definition set_new_power_contract_as_provider :: "bool \<Rightarrow> PortStatusEventBitfield \<Rightarrow> PortStatusEventBitfield" where
  [event_bits]: "set_new_power_contract_as_provider b e = PortStatusEventBitfield (with_bit 2 b (status_bits e))"

definition new_power_contract_as_consumer :: "PortStatusEventBitfield \<Rightarrow> bool" where
  [event_bits]: "new_power_contract_as_consumer e \<longleftrightarrow> bit (status_bits e) 3"

definition set_new_power_contract_as_consumer :: "bool \<Rightarrow> PortStatusEventBitfield \<Rightarrow> PortStatusEventBitfield" where
  [event_bits]: "set_new_power_contract_as_consumer b e = PortStatusEventBitfield (with_bit 3 b (status_bits e))"

definition sink_ready :: "PortStatusEventBitfield \<Rightarrow> bool" where
  [event_bits]: "sink_ready e \<longleftrightarrow> bit (status_bits e) 4"

definition set_sink_ready :: "bool \<Rightarrow> PortStatusEventBitfield \<Rightarrow> PortStatusEventBitfield" where
  [event_bits]: "set_sink_ready b e = PortStatusEventBitfield (with_bit 4 b (status_bits e))"

definition power_swap_completed :: "PortStatusEventBitfield \<Rightarrow> bool" where
  [event_bits]: "power_swap_completed e \<longleftrightarrow> bit (status_bits e) 5"

definition set_power_swap_completed :: "bool \<Rightarrow> PortStatusEventBitfield \<Rightarrow> PortStatusEventBitfield" where
  [event_bits]: "set_power_swap_completed b e = PortStatusEventBitfield (with_bit 5 b (status_bits e))"

definition data_swap_completed :: "PortStatusEventBitfield \<Rightarrow> bool" where
  [event_bits]: "data_swap_completed e \<longleftrightarrow> bit (status_bits e) 6"

definition set_data_swap_completed :: "bool \<Rightarrow> PortStatusEventBitfield \<Rightarrow> PortStatusEventBitfield" where
  [event_bits]: "set_data_swap_completed b e = PortStatusEventBitfield (with_bit 6 b (status_bits e))"

definition alt_mode_entered :: "PortStatusEventBitfield \<Rightarrow> bool" where
  [event_bits]: "alt_mode_entered e \<longleftrightarrow> bit (status_bits e) 7"

definition set_alt_mode_entered :: "bool \<Rightarrow> PortStatusEventBitfield \<Rightarrow> PortStatusEventBitfield" where
  [event_bits]: "set_alt_mode_entered b e = PortStatusEventBitfield (with_bit 7 b (status_bits e))"

definition pd_hard_reset :: "PortStatusEventBitfield \<Rightarrow> bool" where
  [event_bits]: "pd_hard_reset e \<longleftrightarrow> bit (status_bits e) 8"

definition set_pd_hard_reset :: "bool \<Rightarrow> PortStatusEventBitfield \<Rightarrow> PortStatusEventBitfield" where
  [event_bits]: "set_pd_hard_reset b e = PortStatusEventBitfield (with_bit 8 b (status_bits e))"

subsection \<open>Notification events\<close>

datatype PortNotificationEventBitfield = PortNotificationEventBitfield (notification_bits: u16)

definition notification_none :: PortNotificationEventBitfield where
  "notification_none = PortNotificationEventBitfield 0"

definition notification_union ::
  "PortNotificationEventBitfield \<Rightarrow> PortNotificationEventBitfield \<Rightarrow> PortNotificationEventBitfield" where
  "notification_union a b = PortNotificationEventBitfield (notification_bits a OR notification_bits b)"

definition alert :: "PortNotificationEventBitfield \<Rightarrow> bool" where
  [event_bits]: "alert e \<longleftrightarrow> bit (notification_bits e) 0"

definition set_alert :: "bool \<Rightarrow> PortNotificationEventBitfield \<Rightarrow> PortNotificationEventBitfield" where
  [event_bits]: "set_alert b e = PortNotificationEventBitfield (with_bit 0 b (notification_bits e))"

definition custom_mode_entered :: "PortNotificationEventBitfield \<Rightarrow> bool" where
  [event_bits]: "custom_mode_entered e \<longleftrightarrow> bit (notification_bits e) 1"

definition set_custom_mode_entered ::
  "bool \<Rightarrow> PortNotificationEventBitfield \<Rightarrow> PortNotificationEventBitfield" where
  [event_bits]: "set_custom_mode_entered b e = PortNotificationEventBitfield (with_bit 1 b (notification_bits e))"

definition custom_mode_exited :: "PortNotificationEventBitfield \<Rightarrow> bool" where
  [event_bits]: "custom_mode_exited e \<longleftrightarrow> bit (notification_bits e) 2"

definition set_custom_mode_exited ::
  "bool \<Rightarrow> PortNotificationEventBitfield \<Rightarrow> PortNotificationEventBitfield" where
  [event_bits]: "set_custom_mode_exited b e = PortNotificationEventBitfield (with_bit 2 b (notification_bits e))"

definition custom_mode_attention_received :: "PortNotificationEventBitfield \<Rightarrow> bool" where
  [event_bits]: "custom_mode_attention_received e \<longleftrightarrow> bit (notification_bits e) 3"

definition set_custom_mode_attention_received ::
  "bool \<Rightarrow> PortNotificationEventBitfield \<Rightarrow> PortNotificationEventBitfield" where
  [event_bits]:
    "set_custom_mode_attention_received b e = PortNotificationEventBitfield (with_bit 3 b (notification_bits e))"

definition custom_mode_other_vdm_received :: "PortNotificationEventBitfield \<Rightarrow> bool" where
  [event_bits]: "custom_mode_other_vdm_received e \<longleftrightarrow> bit (notification_bits e) 4"

definition set_custom_mode_other_vdm_received ::
  "bool \<Rightarrow> PortNotificationEventBitfield \<Rightarrow> PortNotificationEventBitfield" where
  [event_bits]:
    "set_custom_mode_other_vdm_received b e = PortNotificationEventBitfield (with_bit 4 b (notification_bits e))"

definition discover_mode_completed :: "PortNotificationEventBitfield \<Rightarrow> bool" where
  [event_bits]: "discover_mode_completed e \<longleftrightarrow> bit (notification_bits e) 5"

definition set_discover_mode_completed ::
  "bool \<Rightarrow> PortNotificationEventBitfield \<Rightarrow> PortNotificationEventBitfield" where
  [event_bits]: "set_discover_mode_completed b e = PortNotificationEventBitfield (with_bit 5 b (notification_bits e))"

definition usb_mux_error_recovery :: "PortNotificationEventBitfield \<Rightarrow> bool" where
  [event_bits]: "usb_mux_error_recovery e \<longleftrightarrow> bit (notification_bits e) 6"

definition set_usb_mux_error_recovery ::
  "bool \<Rightarrow> PortNotificationEventBitfield \<Rightarrow> PortNotificationEventBitfield" where
  [event_bits]: "set_usb_mux_error_recovery b e = PortNotificationEventBitfield (with_bit 6 b (notification_bits e))"

definition dp_status_update :: "PortNotificationEventBitfield \<Rightarrow> bool" where
  [event_bits]: "dp_status_update e \<longleftrightarrow> bit (notification_bits e) 15"

definition set_dp_status_update ::
  "bool \<Rightarrow> PortNotificationEventBitfield \<Rightarrow> PortNotificationEventBitfield" where
  [event_bits]: "set_dp_status_update b e = PortNotificationEventBitfield (with_bit 15 b (notification_bits e))"

subsection \<open>Events\<close>

datatype VdmNotification = VdmEntered | VdmExited | AttentionReceived | OtherReceived

datatype PortEvent =
    StatusChanged PortStatusEventBitfield
  | Alert
  | Vdm VdmNotification
  | DiscoverModeCompleted
  | UsbMuxErrorRecovery
  | DpStatusUpdate

text \<open>\<open>impl Iterator for PortNotificationEventBitfield\<close>: one event per set bit, which is cleared.\<close>

definition next_notification ::
  "PortNotificationEventBitfield \<Rightarrow> PortEvent option \<times> PortNotificationEventBitfield" where
  "next_notification e =
     (if alert e then (Some Alert, set_alert False e)
      else if custom_mode_entered e then (Some (Vdm VdmEntered), set_custom_mode_entered False e)
      else if custom_mode_exited e then (Some (Vdm VdmExited), set_custom_mode_exited False e)
      else if custom_mode_attention_received e
        then (Some (Vdm AttentionReceived), set_custom_mode_attention_received False e)
      else if custom_mode_other_vdm_received e
        then (Some (Vdm OtherReceived), set_custom_mode_other_vdm_received False e)
      else if discover_mode_completed e then (Some DiscoverModeCompleted, set_discover_mode_completed False e)
      else if usb_mux_error_recovery e then (Some UsbMuxErrorRecovery, set_usb_mux_error_recovery False e)
      else if dp_status_update e then (Some DpStatusUpdate, set_dp_status_update False e)
      else (None, e))"

record PortEventBitfield =
  status_event :: PortStatusEventBitfield
  notification_event :: PortNotificationEventBitfield

definition port_event_none :: PortEventBitfield where
  "port_event_none = \<lparr>status_event = status_none, notification_event = notification_none\<rparr>"

definition port_event_union :: "PortEventBitfield \<Rightarrow> PortEventBitfield \<Rightarrow> PortEventBitfield" where
  "port_event_union a b =
     \<lparr>status_event = status_union (status_event a) (status_event b),
      notification_event = notification_union (notification_event a) (notification_event b)\<rparr>"

definition port_event_from_status :: "PortStatusEventBitfield \<Rightarrow> PortEventBitfield" where
  "port_event_from_status e = \<lparr>status_event = e, notification_event = notification_none\<rparr>"

definition port_event_from_notification :: "PortNotificationEventBitfield \<Rightarrow> PortEventBitfield" where
  "port_event_from_notification e = \<lparr>status_event = status_none, notification_event = e\<rparr>"

subsection \<open>The streamer\<close>

record PortEventStreamer =
  port_iter :: "(nat \<times> PortEventBitfield) list"
  pending_notifications :: "(nat \<times> PortNotificationEventBitfield) option"

definition streamer_new :: "PortEventBitfield list \<Rightarrow> PortEventStreamer" where
  "streamer_new bs = \<lparr>port_iter = enumerate 0 bs, pending_notifications = None\<rparr>"

text \<open>The first step of the loop of \<open>next\<close>: a pending notification, if there is one.\<close>

definition take_pending :: "PortEventStreamer \<Rightarrow> (nat \<times> PortEvent) option \<times> PortEventStreamer" where
  "take_pending s =
     (case pending_notifications s of
        Some (i, n) \<Rightarrow>
          (case next_notification n of
             (Some e, n') \<Rightarrow> (Some (i, e), s\<lparr>pending_notifications := Some (i, n')\<rparr>)
           | (None, n') \<Rightarrow> (None, s\<lparr>pending_notifications := Some (i, n')\<rparr>))
      | None \<Rightarrow> (None, s))"

lemma port_iter_take_pending [simp]: "port_iter (snd (take_pending s)) = port_iter s"
  by (simp add: take_pending_def split: option.split prod.split)

text \<open>The second step, with the next port.\<close>

definition take_port :: "nat \<Rightarrow> PortEventBitfield \<Rightarrow> PortEventStreamer \<Rightarrow> PortEventStreamer" where
  "take_port i b s =
     s\<lparr>port_iter := tl (port_iter s),
       pending_notifications :=
         (if notification_event b \<noteq> notification_none then Some (i, notification_event b) else None)\<rparr>"

lemma take_port_shorter:
  assumes "(x, t) = take_pending s" and "port_iter t = (i, b) # ys"
  shows "length (port_iter (take_port i b t)) < length (port_iter s)"
  using arg_cong[OF assms(1), of "port_iter \<circ> snd"] assms(2)
  by (cases "port_iter s") (auto simp: take_port_def)

function streamer_next :: "PortEventStreamer \<Rightarrow> (nat \<times> PortEvent) option \<times> PortEventStreamer" where
  "streamer_next s =
     (case take_pending s of
        (Some x, s') \<Rightarrow> (Some x, s')
      | (None, s') \<Rightarrow>
          (case port_iter s' of
             [] \<Rightarrow> (None, s')
           | (i, b) # _ \<Rightarrow>
               if status_event b \<noteq> status_none
               then (Some (i, StatusChanged (status_event b)), take_port i b s')
               else streamer_next (take_port i b s')))"
  by pat_completeness auto
termination
  by (relation "measure (length \<circ> port_iter)") (auto simp del: port_iter_take_pending dest: take_port_shorter)

declare streamer_next.simps [simp del]

subsection \<open>What the streamer yields\<close>

definition notification_table :: "(nat \<times> PortEvent) list" where
  "notification_table =
     [(0, Alert), (1, Vdm VdmEntered), (2, Vdm VdmExited), (3, Vdm AttentionReceived), (4, Vdm OtherReceived),
      (5, DiscoverModeCompleted), (6, UsbMuxErrorRecovery), (15, DpStatusUpdate)]"

definition notification_events :: "PortNotificationEventBitfield \<Rightarrow> PortEvent list" where
  "notification_events n = map snd (filter (\<lambda>(k, _). bit (notification_bits n) k) notification_table)"

definition port_events :: "nat \<Rightarrow> PortEventBitfield \<Rightarrow> (nat \<times> PortEvent) list" where
  "port_events i b =
     (if status_event b \<noteq> status_none then [(i, StatusChanged (status_event b))] else [])
     @ map (Pair i) (notification_events (notification_event b))"

definition remaining :: "PortEventStreamer \<Rightarrow> (nat \<times> PortEvent) list" where
  "remaining s =
     (case pending_notifications s of None \<Rightarrow> [] | Some (i, n) \<Rightarrow> map (Pair i) (notification_events n))
     @ concat (map (\<lambda>(i, b). port_events i b) (port_iter s))"

lemma next_notification_cases:
  "(case notification_events n of
      [] \<Rightarrow> next_notification n = (None, n)
    | e # es \<Rightarrow> fst (next_notification n) = Some e \<and> notification_events (snd (next_notification n)) = es)"
  by (simp add: notification_events_def notification_table_def next_notification_def event_bits)

lemma notification_events_none [simp]: "notification_events notification_none = []"
  by (simp add: notification_events_def notification_table_def notification_none_def)

lemma take_pending_cases:
  "(case take_pending s of
      (Some x, s') \<Rightarrow> remaining s = x # remaining s'
    | (None, s') \<Rightarrow> remaining s' = remaining s
        \<and> remaining s = concat (map (\<lambda>(i, b). port_events i b) (port_iter s)))"
proof (cases "pending_notifications s")
  case None
  then show ?thesis by (simp add: take_pending_def remaining_def)
next
  case (Some q)
  then obtain i n where q: "pending_notifications s = Some (i, n)" by (cases q) auto
  show ?thesis
    using next_notification_cases[of n] q
    by (cases "notification_events n"; cases "next_notification n") (auto simp: take_pending_def remaining_def)
qed

lemma remaining_take_port:
  assumes "port_iter s = (i, b) # ps"
  shows "(if status_event b \<noteq> status_none then [(i, StatusChanged (status_event b))] else [])
       @ remaining (take_port i b s)
     = concat (map (\<lambda>(i, b). port_events i b) (port_iter s))"
  using assms by (auto simp: remaining_def take_port_def port_events_def)

lemma streamer_next_cases:
  "(case remaining s of
      [] \<Rightarrow> fst (streamer_next s) = None \<and> remaining (snd (streamer_next s)) = []
    | x # xs \<Rightarrow> fst (streamer_next s) = Some x \<and> remaining (snd (streamer_next s)) = xs)"
proof (induction s rule: streamer_next.induct)
  case (1 s)
  obtain o1 s1 where t: "take_pending s = (o1, s1)" by fastforce
  show ?case
  proof (cases o1)
    case (Some x)
    then show ?thesis using take_pending_cases[of s] t by (simp add: streamer_next.simps[of s])
  next
    case None
    have rem: "remaining s = concat (map (\<lambda>(i, b). port_events i b) (port_iter s1))" "remaining s1 = remaining s"
      using take_pending_cases[of s] port_iter_take_pending[of s] t None by simp_all
    show ?thesis
    proof (cases "port_iter s1")
      case Nil
      then show ?thesis using t None rem by (simp add: streamer_next.simps[of s])
    next
      case (Cons ib ps)
      obtain i b where ib: "port_iter s1 = (i, b) # ps" using Cons by (cases ib) auto
      show ?thesis
      proof (cases "status_event b = status_none")
        case True
        have next_eq: "streamer_next s = streamer_next (take_port i b s1)"
          using t None ib True by (simp add: streamer_next.simps[of s])
        have "remaining s = remaining (take_port i b s1)"
          using remaining_take_port[OF ib] rem(1) True by simp
        then show ?thesis
          unfolding next_eq using 1[OF t[symmetric] None ib refl] True by simp
      next
        case False
        have "remaining s = (i, StatusChanged (status_event b)) # remaining (take_port i b s1)"
          unfolding rem(1) remaining_take_port[OF ib, symmetric] using False by simp
        then show ?thesis using t None ib False by (simp add: streamer_next.simps[of s])
      qed
    qed
  qed
qed

lemma streamer_next_shorter:
  assumes "(Some y, t) = streamer_next s"
  shows "length (remaining t) < length (remaining s)"
  using streamer_next_cases[of s] by (cases "remaining s") (simp_all add: assms[symmetric])

text \<open>Everything a client gets from the iterator.\<close>

function stream_all :: "PortEventStreamer \<Rightarrow> (nat \<times> PortEvent) list" where
  "stream_all s = (case streamer_next s of (None, _) \<Rightarrow> [] | (Some x, s') \<Rightarrow> x # stream_all s')"
  by pat_completeness auto
termination
  by (relation "measure (length \<circ> remaining)") (auto dest: streamer_next_shorter)

declare stream_all.simps [simp del]

lemma stream_all_remaining: "stream_all s = remaining s"
proof (induction s rule: stream_all.induct)
  case (1 s)
  then show ?case
    using streamer_next_cases[of s]
    by (cases "streamer_next s"; cases "remaining s") (auto simp: stream_all.simps[of s])
qed

text \<open>C27. The stream of a list of pending bitfields ends, and it yields, for the ports in order, the status
  event of the port if any status bit is set, and then one event for each notification bit that is set, in
  the order of the bits; bits that stand for no notification yield nothing.\<close>

theorem streamer_yields_pending_events:
  "stream_all (streamer_new bs) = concat (map (\<lambda>(i, b). port_events i b) (enumerate 0 bs))"
  by (simp add: stream_all_remaining remaining_def streamer_new_def)

subsection \<open>Splitting interrupts\<close>

definition process_interrupts ::
  "(PortEventBitfield \<Rightarrow> 'q \<Rightarrow> bool \<times> 'q) \<Rightarrow> PortEventBitfield list \<Rightarrow> 'q list \<Rightarrow> 'q list" where
  "process_interrupts try_send interrupts senders =
     map (\<lambda>(interrupt, q). if interrupt \<noteq> port_event_none then snd (try_send interrupt q) else q)
       (zip interrupts senders)"

end
