(* ===== verification/Typec_Receiver.thy ===== *)
theory Typec_Receiver
  imports Typec_Event
begin

text \<open>
  The event receiver of one Type-C port: \<open>EventReceiver::wait_event\<close> of
  \<open>type-c-service/src/controller/event_receiver.rs\<close>, with the state it shares with the port,
  \<open>controller/state.rs\<close>, and the loopback events of \<open>controller/event.rs\<close>.

  The receiver waits for an interrupt, for the sink-ready deadline or for a loopback event. What ends each wait
  is chosen by the environment: \<open>typec_wait_event\<close> reads a list of wake-ups. The arm of the deadline can end the wait
  only while a deadline is pending, as the code makes that arm wait for ever otherwise. When the list is used up
  the receiver is still waiting. Times are natural numbers. The code reads the deadline when it starts to wait;
  while it waits other tasks only ever set a deadline, and then send a loopback event that makes it read again
  (if the loopback channel is full, that event is lost and the receiver reads the new deadline at the next event).
\<close>

record TypecShared =
  sink_ready_deadline :: "nat option"

definition typec_shared_new :: TypecShared where
  "typec_shared_new = \<lparr>sink_ready_deadline = None\<rparr>"

datatype Loopback = LoopbackPortEvent PortEventBitfield | SinkReadyDeadlineInvalidated

datatype typec_wake = Interrupt PortEventBitfield | DeadlineReached | LoopedBack Loopback

record TypecReceiver =
  streaming_state :: "PortEventStreamer option"
  receiver_shared :: TypecShared

definition typec_receiver_new :: "TypecShared \<Rightarrow> TypecReceiver" where
  "typec_receiver_new sh = \<lparr>streaming_state = None, receiver_shared = sh\<rparr>"

definition sink_ready_event :: PortStatusEventBitfield where
  "sink_ready_event = set_sink_ready True status_none"

function typec_wait_event :: "typec_wake list \<Rightarrow> TypecReceiver \<Rightarrow> PortEvent option \<times> typec_wake list \<times> TypecReceiver" where
  "typec_wait_event ws r =
     (case streaming_state r of
        Some st \<Rightarrow>
          (case streamer_next st of
             (Some (_, e), st') \<Rightarrow> (Some e, ws, r\<lparr>streaming_state := Some st'\<rparr>)
           | (None, _) \<Rightarrow> typec_wait_event ws (r\<lparr>streaming_state := None\<rparr>))
      | None \<Rightarrow>
          (case ws of
             [] \<Rightarrow> (None, [], r)
           | Interrupt b # ws' \<Rightarrow> typec_wait_event ws' (r\<lparr>streaming_state := Some (streamer_new [b])\<rparr>)
           | DeadlineReached # ws' \<Rightarrow>
               (case sink_ready_deadline (receiver_shared r) of
                  Some _ \<Rightarrow> (Some (StatusChanged sink_ready_event), ws',
                            r\<lparr>receiver_shared := (receiver_shared r)\<lparr>sink_ready_deadline := None\<rparr>\<rparr>)
                | None \<Rightarrow> typec_wait_event ws' r)
           | LoopedBack (LoopbackPortEvent b) # ws' \<Rightarrow>
               typec_wait_event ws' (r\<lparr>streaming_state := Some (streamer_new [b])\<rparr>)
           | LoopedBack SinkReadyDeadlineInvalidated # ws' \<Rightarrow> typec_wait_event ws' r))"
  by pat_completeness auto
termination
  by (relation "measures [\<lambda>(ws, _). length ws, \<lambda>(_, r). of_bool (streaming_state r \<noteq> None)]") auto

declare typec_wait_event.simps [simp del]

end
