(* ===== verification/Typec_Port.thy ===== *)
theory Typec_Port
  imports Typec_Receiver Psu
begin

text \<open>
  A Type-C port: the wrapper \<open>Port\<close> of \<open>type-c-service/src/controller\<close> (\<open>mod.rs\<close>, \<open>power.rs\<close>, \<open>pd.rs\<close>,
  \<open>max_sink_voltage.rs\<close>, \<open>config.rs\<close>), with the port status and the contracts of
  \<open>type-c-interface/src/control/pd.rs\<close>.

  The PD controller behind the port is a parameter, the record \<open>pd_controller\<close>: each method acts on the
  controller's state in any way and may fail. Data of the USB-PD crate that the code only stores and compares
  has the type parameter \<open>'d\<close>; of the enums and records of that crate the values and fields that the code
  names are written out, and one more constructor or field stands for the others. A port records what it hands
  to its two notifiers and to the loopback sender, oldest first; an error of any of them is only logged. Times
  are natural numbers, in milliseconds.
\<close>

subsection \<open>Contracts and port status\<close>

datatype PdError = PdFailed | PdBusy | PdTimeout | PdInvalidPort | PdInvalidMode | OtherPdError nat

record 'd SourceFixedData =
  src_dual_role_power :: bool
  src_usb_suspend_supported :: bool
  src_unconstrained_power :: bool
  src_usb_comms_capable :: bool
  src_dual_role_data :: bool
  src_unchunked_extended_messages_support :: bool
  src_epr_capable :: bool
  src_other_fields :: 'd

record 'd SinkFixedData =
  snk_dual_role_power :: bool
  snk_higher_capability :: bool
  snk_unconstrained_power :: bool
  snk_usb_comms_capable :: bool
  snk_dual_role_data :: bool
  snk_frs_required_current :: 'd
  snk_other_fields :: 'd

record 'd PdSourceInfo =
  source_rx_fixed :: "'d SinkFixedData option"
  source_pdo :: 'd
  source_rdo :: 'd

record 'd SourceContract =
  source_capability :: PowerCapability
  source_pd :: "'d PdSourceInfo option"

definition source_from_capability :: "PowerCapability \<Rightarrow> 'd SourceContract" where
  "source_from_capability c = \<lparr>source_capability = c, source_pd = None\<rparr>"

definition source_fixed :: "'d SourceContract \<Rightarrow> 'd SinkFixedData option" where
  "source_fixed c = Option.bind (source_pd c) source_rx_fixed"

definition source_flag :: "('d SinkFixedData \<Rightarrow> bool) \<Rightarrow> 'd SourceContract \<Rightarrow> bool" where
  "source_flag f c = (case source_fixed c of Some d \<Rightarrow> f d | None \<Rightarrow> False)"

definition source_dual_role_power :: "'d SourceContract \<Rightarrow> bool" where
  "source_dual_role_power = source_flag snk_dual_role_power"

definition source_higher_capability :: "'d SourceContract \<Rightarrow> bool" where
  "source_higher_capability = source_flag snk_higher_capability"

definition source_unconstrained_power :: "'d SourceContract \<Rightarrow> bool" where
  "source_unconstrained_power = source_flag snk_unconstrained_power"

definition source_usb_comms_capable :: "'d SourceContract \<Rightarrow> bool" where
  "source_usb_comms_capable = source_flag snk_usb_comms_capable"

definition source_dual_role_data :: "'d SourceContract \<Rightarrow> bool" where
  "source_dual_role_data = source_flag snk_dual_role_data"

definition source_frs_required_current :: "'d SourceContract \<Rightarrow> 'd option" where
  "source_frs_required_current c = map_option snk_frs_required_current (source_fixed c)"

record 'd PdSinkInfo =
  sink_rx_fixed :: "'d SourceFixedData"
  sink_pdo :: 'd
  sink_rdo :: 'd

record 'd SinkContract =
  sink_capability :: PowerCapability
  sink_pd :: "'d PdSinkInfo option"

definition sink_from_capability :: "PowerCapability \<Rightarrow> 'd SinkContract" where
  "sink_from_capability c = \<lparr>sink_capability = c, sink_pd = None\<rparr>"

definition sink_flag :: "('d SourceFixedData \<Rightarrow> bool) \<Rightarrow> 'd SinkContract \<Rightarrow> bool" where
  "sink_flag f c = (case sink_pd c of Some pd \<Rightarrow> f (sink_rx_fixed pd) | None \<Rightarrow> False)"

definition sink_dual_role_power :: "'d SinkContract \<Rightarrow> bool" where
  "sink_dual_role_power = sink_flag src_dual_role_power"

definition sink_usb_suspend_supported :: "'d SinkContract \<Rightarrow> bool" where
  "sink_usb_suspend_supported = sink_flag src_usb_suspend_supported"

definition sink_unconstrained_power :: "'d SinkContract \<Rightarrow> bool" where
  "sink_unconstrained_power = sink_flag src_unconstrained_power"

definition sink_usb_comms_capable :: "'d SinkContract \<Rightarrow> bool" where
  "sink_usb_comms_capable = sink_flag src_usb_comms_capable"

definition sink_dual_role_data :: "'d SinkContract \<Rightarrow> bool" where
  "sink_dual_role_data = sink_flag src_dual_role_data"

definition sink_unchunked_extended_messages_support :: "'d SinkContract \<Rightarrow> bool" where
  "sink_unchunked_extended_messages_support = sink_flag src_unchunked_extended_messages_support"

definition sink_epr_capable :: "'d SinkContract \<Rightarrow> bool" where
  "sink_epr_capable = sink_flag src_epr_capable"

datatype 'd ConnectionState = ConnAttached | ConnDebugAccessory | ConnAudioAccessory | OtherConnection 'd

datatype 'd PowerRole = RoleSink | OtherRole 'd

record 'd PortStatus =
  available_source_contract :: "'d SourceContract option"
  available_sink_contract :: "'d SinkContract option"
  connection_state :: "'d ConnectionState option"
  plug_orientation :: 'd
  power_role :: "'d PowerRole"
  data_role :: 'd
  alt_mode :: 'd
  power_path :: 'd

record 'd pd_constants =
  orientation_cc1 :: 'd
  role_dfp :: 'd
  alt_mode_none :: 'd
  power_path_none :: 'd

definition port_status_new :: "'d pd_constants \<Rightarrow> 'd PortStatus" where
  "port_status_new k =
     \<lparr>available_source_contract = None, available_sink_contract = None, connection_state = None,
      plug_orientation = orientation_cc1 k, power_role = RoleSink, data_role = role_dfp k,
      alt_mode = alt_mode_none k, power_path = power_path_none k\<rparr>"

definition is_connected :: "'d PortStatus \<Rightarrow> bool" where
  "is_connected st =
     (case connection_state st of
        Some ConnAttached \<Rightarrow> True
      | Some ConnDebugAccessory \<Rightarrow> True
      | Some ConnAudioAccessory \<Rightarrow> True
      | _ \<Rightarrow> False)"

definition is_debug_accessory :: "'d PortStatus \<Rightarrow> bool" where
  "is_debug_accessory st = (case connection_state st of Some ConnDebugAccessory \<Rightarrow> True | _ \<Rightarrow> False)"

subsection \<open>Events for the Type-C service\<close>

record OtherVdm = other_vdm_data :: "u8 list"
record AttnVdm = attn_vdm_data :: "u8 list"

record DpPinConfig =
  pin_c :: bool
  pin_d :: bool
  pin_e :: bool

record DpStatus =
  dp_alt_mode_entered :: bool
  dfp_d_pin_cfg :: DpPinConfig

datatype VdmData =
    DataEntered OtherVdm
  | DataExited OtherVdm
  | DataReceivedOther OtherVdm
  | DataReceivedAttn AttnVdm

record 'd StatusChangedData =
  changed_event :: PortStatusEventBitfield
  previous_status :: "'d PortStatus"
  current_status :: "'d PortStatus"

datatype 'd PortEventData =
    DataStatusChanged "'d StatusChangedData"
  | DataAlert 'd
  | DataVdm VdmData
  | DataDiscoverModeCompleted
  | DataUsbMuxErrorRecovery
  | DataDpStatusUpdate DpStatus

subsection \<open>The port\<close>

type_synonym ('h, 'a) pd_call = "('h, PdError, 'a) action"

record ('d, 'h) pd_controller =
  pd_get_port_status :: "('h, 'd PortStatus) pd_call"
  pd_enable_sink_path :: "bool \<Rightarrow> ('h, unit) pd_call"
  pd_get_alert :: "('h, 'd option) pd_call"
  pd_set_unconstrained_power :: "bool \<Rightarrow> ('h, unit) pd_call"
  pd_get_other_vdm :: "('h, OtherVdm) pd_call"
  pd_get_attn_vdm :: "('h, AttnVdm) pd_call"
  pd_get_dp_status :: "('h, DpStatus) pd_call"
  pd_set_max_sink_voltage :: "u16 option \<Rightarrow> ('h, unit) pd_call"
  transition_spr_ms :: nat
  transition_epr_ms :: nat

datatype UnconstrainedSink = UnconstrainedAuto | PowerThresholdMilliwatts u32 | UnconstrainedNever

record ('d, 'h) Port =
  controller_state :: 'h
  port_psu :: State
  cached_status :: "'d PortStatus"
  unconstrained_sink :: UnconstrainedSink
  port_shared :: TypecShared
  port_notices :: "'d PortEventData list"
  power_notices :: "PsuEventData list"
  loopback_sent :: "Loopback list"

definition port_new :: "'d pd_constants \<Rightarrow> UnconstrainedSink \<Rightarrow> 'h \<Rightarrow> ('d, 'h) Port" where
  "port_new k cfg h =
     \<lparr>controller_state = h, port_psu = psu_default, cached_status = port_status_new k,
      unconstrained_sink = cfg, port_shared = typec_shared_new, port_notices = [], power_notices = [],
      loopback_sent = []\<rparr>"

type_synonym ('d, 'h, 'a) port_action = "(('d, 'h) Port, PdError, 'a) action"

definition on_controller :: "('h, 'a) pd_call \<Rightarrow> ('d, 'h, 'a) port_action" where
  "on_controller m p = (case m (controller_state p) of (r, h) \<Rightarrow> (r, p\<lparr>controller_state := h\<rparr>))"

text \<open>\<open>if let Err(e) = self.psu_state....\<close>: the outcome of a call on the PSU state, for the caller to look at.\<close>

definition on_port_psu :: "(State, PsuError, unit) action \<Rightarrow> ('d, 'h, (PsuError, unit) result) port_action" where
  "on_port_psu m p = (case m (port_psu p) of (r, st) \<Rightarrow> (Inr r, p\<lparr>port_psu := st\<rparr>))"

definition psu_or_failed :: "(State, PsuError, unit) action \<Rightarrow> ('d, 'h, unit) port_action" where
  "psu_or_failed m = and_then (on_port_psu m) (\<lambda>r. if is_ok r then ok () else err PdFailed)"

definition tell_power :: "PsuEventData \<Rightarrow> ('d, 'h, unit) port_action" where
  "tell_power e = modify (\<lambda>p. p\<lparr>power_notices := power_notices p @ [e]\<rparr>)"

definition tell_service :: "'d PortEventData \<Rightarrow> ('d, 'h, unit) port_action" where
  "tell_service e = modify (\<lambda>p. p\<lparr>port_notices := port_notices p @ [e]\<rparr>)"

definition send_loopback :: "Loopback \<Rightarrow> ('d, 'h, unit) port_action" where
  "send_loopback l = modify (\<lambda>p. p\<lparr>loopback_sent := loopback_sent p @ [l]\<rparr>)"

definition set_deadline :: "nat option \<Rightarrow> ('d, 'h, unit) port_action" where
  "set_deadline d = modify (\<lambda>p. p\<lparr>port_shared := (port_shared p)\<lparr>sink_ready_deadline := d\<rparr>\<rparr>)"

abbreviation port_deadline :: "('d, 'h) Port \<Rightarrow> nat option" where
  "port_deadline p \<equiv> sink_ready_deadline (port_shared p)"

text \<open>A step that looks at the port first.\<close>

definition with_port :: "(('d, 'h) Port \<Rightarrow> ('d, 'h, 'a) port_action) \<Rightarrow> ('d, 'h, 'a) port_action" where
  "with_port f p = f p p"

lemmas port_step_defs [action_simps] =
  on_controller_def on_port_psu_def psu_or_failed_def tell_power_def tell_service_def send_loopback_def
  set_deadline_def with_port_def

subsection \<open>Power contracts\<close>

definition is_unconstrained_sink :: "UnconstrainedSink \<Rightarrow> 'd PortStatus \<Rightarrow> bool" where
  "is_unconstrained_sink cfg st =
     (case available_sink_contract st of
        None \<Rightarrow> False
      | Some c \<Rightarrow>
          (case cfg of
             UnconstrainedAuto \<Rightarrow> sink_unconstrained_power c
           | PowerThresholdMilliwatts t \<Rightarrow> t \<le> max_power_mw (sink_capability c)
           | UnconstrainedNever \<Rightarrow> False))"

definition reports_unconstrained_power :: "('d, 'h) Port \<Rightarrow> bool" where
  "reports_unconstrained_power p = is_unconstrained_sink (unconstrained_sink p) (cached_status p)"

definition offered_consumer :: "UnconstrainedSink \<Rightarrow> 'd PortStatus \<Rightarrow> ConsumerPowerCapability option" where
  "offered_consumer cfg st =
     map_option (\<lambda>c. \<lparr>consumer_capability = sink_capability c,
         consumer_flags = consumer_flags_default\<lparr>unconstrained_power := is_unconstrained_sink cfg st,
           consumer_psu_type := Some TypeC\<rparr>\<rparr>)
       (available_sink_contract st)"

definition process_new_consumer_contract :: "'d PortStatus \<Rightarrow> ('d, 'h, unit) port_action" where
  "process_new_consumer_contract st = with_port (\<lambda>p.
     let cap = offered_consumer (unconstrained_sink p) st in
     and_then (psu_or_failed (update_consumer_power_capability cap)) (\<lambda>_.
     tell_power (UpdatedConsumerCapability cap)))"

definition requested_provider :: "'d PortStatus \<Rightarrow> ProviderPowerCapability option" where
  "requested_provider st =
     map_option (\<lambda>c. \<lparr>provider_capability = source_capability c,
         provider_flags = provider_flags_default\<lparr>provider_psu_type := Some TypeC\<rparr>\<rparr>)
       (available_source_contract st)"

definition process_new_provider_contract :: "'d PortStatus \<Rightarrow> ('d, 'h, unit) port_action" where
  "process_new_provider_contract st =
     (let cap = requested_provider st in
      and_then (psu_or_failed (update_requested_provider_power_capability cap)) (\<lambda>_.
      tell_power (RequestedProviderCapability cap)))"

definition process_power_role_swap ::
  "('d, 'h) pd_controller \<Rightarrow> 'd PortStatus \<Rightarrow> ('d, 'h, unit) port_action" where
  "process_power_role_swap pd st = with_port (\<lambda>p.
     if \<not> is_connected st then ok ()
     else
       let tear_down = \<lambda>was_consumer.
         and_then (if was_consumer then on_controller (pd_enable_sink_path pd False) else ok ()) (\<lambda>_.
         and_then (on_port_psu (disconnect True)) (\<lambda>_.
         tell_power (EvDisconnected \<lparr>reason = Some RoleSwap\<rparr>)))
       in case psu_state (port_psu p) of
            ConnectedConsumer _ \<Rightarrow> tear_down True
          | ConnectedProvider _ \<Rightarrow> tear_down False
          | _ \<Rightarrow> ok ())"

definition in_power_role :: "State \<Rightarrow> bool" where
  "in_power_role s = (case psu_state s of ConnectedConsumer _ \<Rightarrow> True | ConnectedProvider _ \<Rightarrow> True | _ \<Rightarrow> False)"

definition process_hard_reset :: "('d, 'h, unit) port_action" where
  "process_hard_reset =
     and_then (set_deadline None) (\<lambda>_.
     and_then (modify (\<lambda>p. p\<lparr>cached_status := (cached_status p)\<lparr>available_sink_contract := None\<rparr>\<rparr>)) (\<lambda>_.
     and_then (modify (\<lambda>p. p\<lparr>cached_status := (cached_status p)\<lparr>available_source_contract := None\<rparr>\<rparr>)) (\<lambda>_.
     with_port (\<lambda>p.
       if \<not> in_power_role (port_psu p) then ok ()
       else
         and_then (on_port_psu (disconnect True)) (\<lambda>_.
         tell_power (EvDisconnected \<lparr>reason = Some ReasonReset\<rparr>))))))"

definition sink_ready_timeout :: "('d, 'h) pd_controller \<Rightarrow> bool \<Rightarrow> nat" where
  "sink_ready_timeout pd epr = (if epr then transition_epr_ms pd else transition_spr_ms pd) * 2"

definition contract_is_epr :: "'d PortStatus \<Rightarrow> bool" where
  "contract_is_epr st = (case available_sink_contract st of Some c \<Rightarrow> sink_epr_capable c | None \<Rightarrow> False)"

definition check_sink_ready_timeout ::
  "('d, 'h) pd_controller \<Rightarrow> nat \<Rightarrow> 'd PortStatus \<Rightarrow> bool \<Rightarrow> bool \<Rightarrow> ('d, 'h, unit) port_action" where
  "check_sink_ready_timeout pd now st new_contract ready = with_port (\<lambda>p.
     let contract_changed = available_sink_contract (cached_status p) \<noteq> available_sink_contract st in
     if new_contract \<and> \<not> ready \<and> contract_changed
     then set_deadline (Some (now + sink_ready_timeout pd (contract_is_epr st)))
     else if port_deadline p \<noteq> None \<and> (\<not> is_connected st \<or> available_sink_contract st = None \<or> ready)
     then set_deadline None
     else ok ())"

subsection \<open>Port events\<close>

definition process_plug_event :: "'d PortStatus \<Rightarrow> ('d, 'h, unit) port_action" where
  "process_plug_event st =
     (if is_connected st
      then
        and_then (with_port (\<lambda>p. if psu_state (port_psu p) \<noteq> Detached
            then modify (\<lambda>p. p\<lparr>port_psu := detach (port_psu p)\<rparr>) else ok ())) (\<lambda>_.
        and_then (psu_or_failed attach) (\<lambda>_.
        tell_power EvAttached))
      else
        and_then (modify (\<lambda>p. p\<lparr>port_psu := detach (port_psu p)\<rparr>)) (\<lambda>_.
        tell_power EvDetached))"

abbreviation do_when :: "bool \<Rightarrow> ('s, 'e, unit) action \<Rightarrow> ('s, 'e, unit) action" where
  "do_when b m \<equiv> (if b then m else ok ())"

definition publish_status ::
  "PortStatusEventBitfield \<Rightarrow> 'd PortStatus \<Rightarrow> ('d, 'h, 'd PortEventData) port_action" where
  "publish_status ev st = with_port (\<lambda>p.
     let changed = \<lparr>changed_event = ev, previous_status = cached_status p, current_status = st\<rparr> in
     and_then (modify (\<lambda>p. p\<lparr>cached_status := st\<rparr>)) (\<lambda>_.
     and_then (tell_service (DataStatusChanged changed)) (\<lambda>_.
     ok (DataStatusChanged changed))))"

text \<open>What follows the plug event: tearing down, then the new contracts.\<close>

definition offer_contracts ::
  "('d, 'h) pd_controller \<Rightarrow> nat \<Rightarrow> PortStatusEventBitfield \<Rightarrow> 'd PortStatus \<Rightarrow> ('d, 'h, 'd PortEventData) port_action"
where
  "offer_contracts pd now ev st =
     and_then (do_when (sink_ready ev) (process_new_consumer_contract st)) (\<lambda>_.
     and_then (with_port (\<lambda>p. do_when
         (is_connected st \<and> available_source_contract st \<noteq> available_source_contract (cached_status p))
         (process_new_provider_contract st))) (\<lambda>_.
     and_then (check_sink_ready_timeout pd now st (new_power_contract_as_consumer ev) (sink_ready ev)) (\<lambda>_.
     publish_status ev st)))"

definition update_contracts ::
  "('d, 'h) pd_controller \<Rightarrow> nat \<Rightarrow> PortStatusEventBitfield \<Rightarrow> 'd PortStatus \<Rightarrow> ('d, 'h, 'd PortEventData) port_action"
where
  "update_contracts pd now ev st =
     and_then (do_when (pd_hard_reset ev) process_hard_reset) (\<lambda>_.
     and_then (do_when (power_swap_completed ev) (process_power_role_swap pd st)) (\<lambda>_.
     offer_contracts pd now ev st))"

definition process_port_status_changed ::
  "('d, 'h) pd_controller \<Rightarrow> nat \<Rightarrow> PortStatusEventBitfield \<Rightarrow> ('d, 'h, 'd PortEventData) port_action" where
  "process_port_status_changed pd now ev =
     and_then (on_controller (pd_get_port_status pd)) (\<lambda>st.
     and_then (do_when (plug_inserted_or_removed ev) (process_plug_event st)) (\<lambda>_.
     update_contracts pd now ev st))"

definition process_vdm_event ::
  "('d, 'h) pd_controller \<Rightarrow> VdmNotification \<Rightarrow> ('d, 'h, 'd PortEventData option) port_action" where
  "process_vdm_event pd ev =
     (let announce = \<lambda>d. and_then (tell_service (DataVdm d)) (\<lambda>_. ok (Some (DataVdm d))) in
      case ev of
        VdmEntered \<Rightarrow> and_then (on_controller (pd_get_other_vdm pd)) (\<lambda>v. announce (DataEntered v))
      | VdmExited \<Rightarrow> and_then (on_controller (pd_get_other_vdm pd)) (\<lambda>v. announce (DataExited v))
      | OtherReceived \<Rightarrow> and_then (on_controller (pd_get_other_vdm pd)) (\<lambda>v. announce (DataReceivedOther v))
      | AttentionReceived \<Rightarrow> and_then (on_controller (pd_get_attn_vdm pd)) (\<lambda>v. announce (DataReceivedAttn v)))"

definition process_dp_status_update :: "('d, 'h) pd_controller \<Rightarrow> ('d, 'h, 'd PortEventData) port_action" where
  "process_dp_status_update pd =
     and_then (on_controller (pd_get_dp_status pd)) (\<lambda>st.
     and_then (tell_service (DataDpStatusUpdate st)) (\<lambda>_. ok (DataDpStatusUpdate st)))"

definition process_pd_alert :: "('d, 'h) pd_controller \<Rightarrow> ('d, 'h, 'd PortEventData option) port_action" where
  "process_pd_alert pd =
     and_then (on_controller (pd_get_alert pd)) (\<lambda>ado.
     case ado of
       Some a \<Rightarrow> and_then (tell_service (DataAlert a)) (\<lambda>_. ok (Some (DataAlert a)))
     | None \<Rightarrow> ok None)"

fun process_port_event ::
  "('d, 'h) pd_controller \<Rightarrow> nat \<Rightarrow> PortEvent \<Rightarrow> ('d, 'h, 'd PortEventData option) port_action" where
  "process_port_event pd now (StatusChanged ev) =
     and_then (process_port_status_changed pd now ev) (\<lambda>d. ok (Some d))"
| "process_port_event pd now Alert = process_pd_alert pd"
| "process_port_event pd now (Vdm ev) = process_vdm_event pd ev"
| "process_port_event pd now DpStatusUpdate = and_then (process_dp_status_update pd) (\<lambda>d. ok (Some d))"
| "process_port_event pd now DiscoverModeCompleted = ok None"
| "process_port_event pd now UsbMuxErrorRecovery = ok None"

definition sync_state :: "('d, 'h) pd_controller \<Rightarrow> ('d, 'h, unit) port_action" where
  "sync_state pd =
     and_then (on_controller (pd_get_port_status pd)) (\<lambda>st. with_port (\<lambda>p.
       let prev = cached_status p;
           s0 = status_none;
           s1 = (if is_connected prev \<noteq> is_connected st then set_plug_inserted_or_removed True s0 else s0);
           s2 = (if available_sink_contract prev \<noteq> available_sink_contract st
                 then set_new_power_contract_as_consumer True s1 else s1);
           s3 = (if available_source_contract prev \<noteq> available_source_contract st
                 then set_new_power_contract_as_provider True s2 else s2);
           ev = \<lparr>status_event = s3, notification_event = notification_none\<rparr>
       in do_when (ev \<noteq> port_event_none) (send_loopback (LoopbackPortEvent ev))))"

subsection \<open>Maximum sink voltage\<close>

definition must_disable_sink_path :: "u16 option \<Rightarrow> State \<Rightarrow> bool" where
  "must_disable_sink_path mv s =
     (case psu_state s of
        ConnectedConsumer c \<Rightarrow> mv = None \<or> mv \<noteq> Some (voltage_mv (consumer_capability c))
      | _ \<Rightarrow> False)"

definition arm_deadline :: "('d, 'h) pd_controller \<Rightarrow> nat \<Rightarrow> ('d, 'h, unit) port_action" where
  "arm_deadline pd now = with_port (\<lambda>p. do_when (port_deadline p = None)
     (set_deadline (Some (now + sink_ready_timeout pd (contract_is_epr (cached_status p))))))"

definition leave_consumer ::
  "('d, 'h) pd_controller \<Rightarrow> nat \<Rightarrow> ('d, 'h, unit) port_action" where
  "leave_consumer pd now =
     and_then (on_controller (pd_enable_sink_path pd False)) (\<lambda>_.
     and_then (arm_deadline pd now) (\<lambda>_.
     and_then (send_loopback SinkReadyDeadlineInvalidated) (\<lambda>_.
     and_then (on_port_psu (disconnect True)) (\<lambda>_.
     tell_power (EvDisconnected \<lparr>reason = Some ManualRenegotiation\<rparr>)))))"

definition set_max_sink_voltage ::
  "('d, 'h) pd_controller \<Rightarrow> nat \<Rightarrow> u16 option \<Rightarrow> ('d, 'h, unit) port_action" where
  "set_max_sink_voltage pd now mv =
     and_then (with_port (\<lambda>p. do_when (must_disable_sink_path mv (port_psu p)) (leave_consumer pd now))) (\<lambda>_.
     on_controller (pd_set_max_sink_voltage pd mv))"

end
