(* ===== verification/Typec_Service.thy ===== *)
theory Typec_Service
  imports Typec_Port Power_State
begin

text \<open>
  The Type-C service: \<open>type-c-service/src/service\<close> (\<open>mod.rs\<close>, \<open>ucsi.rs\<close>, \<open>power.rs\<close>, \<open>config.rs\<close>,
  \<open>registration.rs\<close>).

  Ports are known by their identity, as the code compares references; a UCSI port number is an index into the
  list of registered ports, in eight bits. What the service calls on its ports is a parameter, the record
  \<open>typec_port_ops\<close>, over a common state of all ports; \<open>port_ops\<close> makes one of the ports of
  \<open>Typec_Port\<close>. The PPM state machine and the bitfields of the USB-PD crate are the record \<open>ucsi_crate\<close>. The
  queue and the set of the UCSI state hold at most four ports: an insertion into a full one fails and leaves it.
  What the service sends to its notifiers is recorded, oldest first.
\<close>

subsection \<open>Configuration\<close>

datatype BatteryChargingCapabilityStatus = Nominal | Slow | VerySlow | NotCharging

record UcsiBatteryChargingThresholdConfig =
  not_charging_mw :: "u32 option"
  very_slow_mw :: "u32 option"
  slow_mw :: "u32 option"

definition misordered :: "u32 option \<Rightarrow> u32 option \<Rightarrow> bool" where
  "misordered a b = (case (a, b) of (Some x, Some y) \<Rightarrow> y \<le> x | _ \<Rightarrow> False)"

definition try_new_thresholds ::
  "u32 option \<Rightarrow> u32 option \<Rightarrow> u32 option \<Rightarrow> UcsiBatteryChargingThresholdConfig option" where
  "try_new_thresholds nc vs sl =
     (if misordered nc vs then None
      else if misordered vs sl then None
      else if misordered nc sl then None
      else Some \<lparr>not_charging_mw = nc, very_slow_mw = vs, slow_mw = sl\<rparr>)"

definition thresholds_default :: UcsiBatteryChargingThresholdConfig where
  "thresholds_default = \<lparr>not_charging_mw = None, very_slow_mw = None, slow_mw = None\<rparr>"

definition below :: "u32 \<Rightarrow> u32 option \<Rightarrow> bool" where
  "below mw t = (case t of Some x \<Rightarrow> mw < x | None \<Rightarrow> False)"

definition status_of :: "UcsiBatteryChargingThresholdConfig \<Rightarrow> u32 \<Rightarrow> BatteryChargingCapabilityStatus" where
  "status_of c mw =
     (if below mw (not_charging_mw c) then NotCharging
      else if below mw (very_slow_mw c) then VerySlow
      else if below mw (slow_mw c) then Slow
      else Nominal)"

subsection \<open>UCSI data\<close>

record 'd PpmCapability =
  num_connectors :: u8
  other_capabilities :: 'd

record 'd TypecConfig =
  ucsi_capabilities :: "'d PpmCapability"
  ucsi_port_capabilities :: "'d option"
  ucsi_battery_charging_config :: UcsiBatteryChargingThresholdConfig

record 'd ConnectedStatus =
  battery_charging_status :: "BatteryChargingCapabilityStatus option"
  other_connected_status :: 'd

record 'd ConnectorStatus =
  battery_charging_status_change :: bool
  connected_status :: "'d ConnectedStatus option"
  other_connector_status :: 'd

datatype 'd LpmResponse =
    ConnectorCapability 'd
  | ConnectorStatusResponse "'d ConnectorStatus"
  | OtherLpmResponse 'd

datatype 'd LpmOperation = GetConnectorCapability | GetConnectorStatus | OtherLpmOperation 'd

record 'd LpmCommand =
  lpm_port :: u8
  lpm_operation :: "'d LpmOperation"

datatype ('d, 'n) PpmCommand = SetNotificationEnable 'n | GetCapability | OtherPpmCommand 'd

datatype ('d, 'n) GlobalCommand = PpmCommand "('d, 'n) PpmCommand" | LpmCommand "'d LpmCommand"

datatype 'd UcsiResponseData = PpmCapabilityData "'d PpmCapability" | LpmData "'d LpmResponse"

record 'd Cci =
  cci_connector_change :: u8
  cci_cmd_complete :: bool
  cci_error :: bool
  cci_ack_command :: bool
  cci_busy :: bool
  cci_other :: 'd

record Ack =
  acks_command_complete :: bool
  acks_connector_change :: bool

datatype ('d, 'n) PpmInput = InCommand "('d, 'n) GlobalCommand" | InCommandComplete

datatype ('d, 'n) PpmOutput =
    ExecuteCommand "('d, 'n) GlobalCommand"
  | OpmNotifyCommandComplete
  | AckComplete Ack
  | ResetComplete
  | OpmNotifyBusy

text \<open>The bits of a connector status change that the service sets.\<close>

record ConnectorStatusChange =
  connect_change :: bool
  power_direction_changed :: bool
  pd_reset_complete :: bool
  connector_partner_changed :: bool
  negotiated_power_level_change :: bool
  power_op_mode_change :: bool
  external_supply_change :: bool
  battery_status_change :: bool

record ('d, 'n, 'm) ucsi_crate =
  ppm_consume :: "('d, 'n) PpmInput \<Rightarrow> 'm \<Rightarrow> (unit, ('d, 'n) PpmOutput option) result \<times> 'm"
  ne_default :: 'n
  ne_cmd_complete :: "'n \<Rightarrow> bool"
  ne_battery_charge_change :: "'n \<Rightarrow> bool"
  ne_is_empty :: "'n \<Rightarrow> bool"
  ne_filtered_empty :: "'n \<Rightarrow> ConnectorStatusChange \<Rightarrow> bool"
  cci_default :: "'d Cci"
  cci_new_error :: "'d Cci"
  cci_new_reset_complete :: "'d Cci"

record 'd UcsiResponse =
  notify_opm :: bool
  response_cci :: "'d Cci"
  response_data :: "(PdError, 'd UcsiResponseData option) result"

definition MAX_SUPPORTED_PORTS :: nat where
  "MAX_SUPPORTED_PORTS = 4"

record ('n, 'm) UcsiState =
  ppm_machine :: 'm
  notifications_enabled :: 'n
  pending_ports :: "u8 list"
  valid_battery_charging_capability :: "u8 list"
  psu_connected :: bool

definition ucsi_state_new :: "('d, 'n, 'm) ucsi_crate \<Rightarrow> 'm \<Rightarrow> ('n, 'm) UcsiState" where
  "ucsi_state_new uc m =
     \<lparr>ppm_machine = m, notifications_enabled = ne_default uc, pending_ports = [],
      valid_battery_charging_capability = [], psu_connected = False\<rparr>"

definition deque_push_back :: "u8 \<Rightarrow> u8 list \<Rightarrow> bool \<times> u8 list" where
  "deque_push_back x q = (if length q < MAX_SUPPORTED_PORTS then (True, q @ [x]) else (False, q))"

definition id_set_insert :: "u8 \<Rightarrow> u8 list \<Rightarrow> u8 list" where
  "id_set_insert x s = (if x \<in> set s then s else if length s < MAX_SUPPORTED_PORTS then s @ [x] else s)"

subsection \<open>The service\<close>

type_synonym port_ref = nat

record TypecRegistration =
  typec_ports :: "port_ref list"
  port_data :: "u8 option list"

datatype TypecNotice =
    DebugAccessory port_ref bool
  | UcsiChangeIndicator port_ref u8 bool

record ('d, 'h) typec_port_ops =
  op_get_port_status :: "port_ref \<Rightarrow> ('h, 'd PortStatus) pd_call"
  op_set_unconstrained_power :: "port_ref \<Rightarrow> bool \<Rightarrow> ('h, unit) pd_call"
  op_reports_unconstrained_power :: "port_ref \<Rightarrow> 'h \<Rightarrow> bool"
  op_execute_lpm_command :: "port_ref \<Rightarrow> u8 \<Rightarrow> 'd LpmOperation \<Rightarrow> ('h, 'd LpmResponse option) pd_call"

record ('d, 'n, 'm, 'h) TypecService =
  ucsi :: "('n, 'm) UcsiState"
  typec_config :: "'d TypecConfig"
  typec_registration :: TypecRegistration
  typec_notices :: "TypecNotice list"
  port_states :: 'h

definition typec_service_new ::
  "('d, 'n, 'm) ucsi_crate \<Rightarrow> 'm \<Rightarrow> 'd TypecConfig \<Rightarrow> TypecRegistration \<Rightarrow> 'h \<Rightarrow> ('d, 'n, 'm, 'h) TypecService" where
  "typec_service_new uc m cfg reg h =
     \<lparr>ucsi = ucsi_state_new uc m, typec_config = cfg, typec_registration = reg, typec_notices = [],
      port_states = h\<rparr>"

type_synonym ('d, 'n, 'm, 'h, 'a) typec_action = "(('d, 'n, 'm, 'h) TypecService, PdError, 'a) action"

abbreviation ports_of :: "('d, 'n, 'm, 'h) TypecService \<Rightarrow> port_ref list" where
  "ports_of s \<equiv> typec_ports (typec_registration s)"

definition on_ports :: "('h, 'a) pd_call \<Rightarrow> ('d, 'n, 'm, 'h, 'a) typec_action" where
  "on_ports m s = (case m (port_states s) of (r, h) \<Rightarrow> (r, s\<lparr>port_states := h\<rparr>))"

definition set_ucsi ::
  "(('n, 'm) UcsiState \<Rightarrow> ('n, 'm) UcsiState) \<Rightarrow> ('d, 'n, 'm, 'h) TypecService \<Rightarrow> ('d, 'n, 'm, 'h) TypecService" where
  "set_ucsi f s = s\<lparr>ucsi := f (ucsi s)\<rparr>"

definition notify :: "TypecNotice \<Rightarrow> ('d, 'n, 'm, 'h) TypecService \<Rightarrow> ('d, 'n, 'm, 'h) TypecService" where
  "notify e s = s\<lparr>typec_notices := typec_notices s @ [e]\<rparr>"

fun index_from :: "nat \<Rightarrow> port_ref \<Rightarrow> port_ref list \<Rightarrow> nat option" where
  "index_from i p [] = None"
| "index_from i p (q # qs) = (if q = p then Some i else index_from (Suc i) p qs)"

definition get_port_index :: "port_ref \<Rightarrow> ('d, 'n, 'm, 'h, nat) typec_action" where
  "get_port_index p s = (case index_from 0 p (ports_of s) of Some i \<Rightarrow> (Inr i, s) | None \<Rightarrow> (Inl PdInvalidPort, s))"

definition lookup_port :: "u8 \<Rightarrow> ('d, 'n, 'm, 'h, port_ref) typec_action" where
  "lookup_port i s =
     (if unat i < length (ports_of s) then (Inr (ports_of s ! unat i), s) else (Inl PdInvalidPort, s))"

definition ucsi_local_port_id :: "TypecRegistration \<Rightarrow> u8 \<Rightarrow> u8 option" where
  "ucsi_local_port_id reg i = (if unat i < length (port_data reg) then port_data reg ! unat i else None)"

subsection \<open>Pending port changes\<close>

definition pend_ucsi_port ::
  "port_ref \<Rightarrow> u8 \<Rightarrow> ('d, 'n, 'm, 'h) TypecService \<Rightarrow> ('d, 'n, 'm, 'h) TypecService" where
  "pend_ucsi_port port i s =
     (if i \<in> set (pending_ports (ucsi s)) then s
      else
        let notify_opm = (pending_ports (ucsi s) = []) in
        case deque_push_back i (pending_ports (ucsi s)) of
          (True, q) \<Rightarrow> notify (UcsiChangeIndicator port i notify_opm) (set_ucsi (\<lambda>u. u\<lparr>pending_ports := q\<rparr>) s)
        | (False, _) \<Rightarrow> s)"

definition pend_if_connected ::
  "('d, 'h) typec_port_ops \<Rightarrow> nat \<times> port_ref \<Rightarrow> ('d, 'n, 'm, 'h) TypecService \<Rightarrow> ('d, 'n, 'm, 'h) TypecService" where
  "pend_if_connected ops ip s =
     (case on_ports (op_get_port_status ops (snd ip)) s of
        (Inr st, s') \<Rightarrow> if is_connected st then pend_ucsi_port (snd ip) (word_of_nat (fst ip)) s' else s'
      | (Inl _, s') \<Rightarrow> s')"

definition pend_ucsi_connected_ports ::
  "('d, 'h) typec_port_ops \<Rightarrow> ('d, 'n, 'm, 'h) TypecService \<Rightarrow> ('d, 'n, 'm, 'h) TypecService" where
  "pend_ucsi_connected_ports ops s = fold (pend_if_connected ops) (enumerate 0 (ports_of s)) s"

definition connector_change_of :: "PortStatusEventBitfield \<Rightarrow> ConnectorStatusChange" where
  "connector_change_of ev =
     (let c = \<lparr>connect_change = plug_inserted_or_removed ev, power_direction_changed = power_swap_completed ev,
               pd_reset_complete = pd_hard_reset ev,
               connector_partner_changed = data_swap_completed ev \<or> alt_mode_entered ev,
               negotiated_power_level_change = False, power_op_mode_change = False,
               external_supply_change = False, battery_status_change = False\<rparr>
      in if new_power_contract_as_consumer ev \<or> new_power_contract_as_provider ev \<or> sink_ready ev
         then c\<lparr>negotiated_power_level_change := True, power_op_mode_change := True,
                external_supply_change := True, power_direction_changed := True, battery_status_change := True\<rparr>
         else c)"

definition handle_ucsi_port_event ::
  "('d, 'n, 'm) ucsi_crate \<Rightarrow> port_ref \<Rightarrow> u8 \<Rightarrow> PortStatusEventBitfield \<Rightarrow> 'd PortStatus
     \<Rightarrow> ('d, 'n, 'm, 'h) TypecService \<Rightarrow> ('d, 'n, 'm, 'h) TypecService" where
  "handle_ucsi_port_event uc port i ev st s =
     (let s1 = (if new_power_contract_as_consumer ev \<or> new_power_contract_as_provider ev \<or> sink_ready ev
                then set_ucsi (\<lambda>u. u\<lparr>valid_battery_charging_capability :=
                       id_set_insert i (valid_battery_charging_capability u)\<rparr>) s
                else s);
          s2 = (if \<not> is_connected st
                then set_ucsi (\<lambda>u. u\<lparr>valid_battery_charging_capability :=
                       remove1 i (valid_battery_charging_capability u)\<rparr>) s1
                else s1)
      in if ne_filtered_empty uc (notifications_enabled (ucsi s2)) (connector_change_of ev) then s2
         else pend_ucsi_port port i s2)"

subsection \<open>Events\<close>

definition process_port_status_event ::
  "('d, 'n, 'm) ucsi_crate \<Rightarrow> port_ref \<Rightarrow> PortStatusEventBitfield \<Rightarrow> 'd PortStatus \<Rightarrow> 'd PortStatus
     \<Rightarrow> ('d, 'n, 'm, 'h, unit) typec_action" where
  "process_port_status_event uc port ev new_st old_st =
     and_then (do_when (is_connected new_st \<noteq> is_connected old_st
         \<and> (is_debug_accessory new_st \<or> is_debug_accessory old_st))
       (modify (notify (DebugAccessory port (is_connected new_st))))) (\<lambda>_.
     and_then (get_port_index port) (\<lambda>i.
     modify (handle_ucsi_port_event uc port (word_of_nat i) ev new_st)))"

fun typec_port_event ::
  "('d, 'n, 'm) ucsi_crate \<Rightarrow> port_ref \<Rightarrow> 'd PortEventData \<Rightarrow> ('d, 'n, 'm, 'h, unit) typec_action" where
  "typec_port_event uc port (DataStatusChanged d) =
     process_port_status_event uc port (changed_event d) (current_status d) (previous_status d)"
| "typec_port_event uc port (DataAlert _) = ok ()"
| "typec_port_event uc port (DataVdm _) = ok ()"
| "typec_port_event uc port DataDiscoverModeCompleted = ok ()"
| "typec_port_event uc port DataUsbMuxErrorRecovery = ok ()"
| "typec_port_event uc port (DataDpStatusUpdate _) = ok ()"

definition set_unconstrained_all ::
  "('d, 'h) typec_port_ops \<Rightarrow> bool \<Rightarrow> ('d, 'n, 'm, 'h, unit) typec_action" where
  "set_unconstrained_all ops b s =
     for_each (\<lambda>p. on_ports (op_set_unconstrained_power ops p b)) (ports_of s) s"

definition process_unconstrained_state_change ::
  "('d, 'h) typec_port_ops \<Rightarrow> UnconstrainedState \<Rightarrow> ('d, 'n, 'm, 'h, unit) typec_action" where
  "process_unconstrained_state_change ops u s =
     (if unconstrained u then
        if 1 < available u then set_unconstrained_all ops True s
        else
          (case List.find (\<lambda>p. op_reports_unconstrained_power ops p (port_states s)) (ports_of s) of
             Some q \<Rightarrow> for_each (\<lambda>p. on_ports (op_set_unconstrained_power ops p (p \<noteq> q))) (ports_of s) s
           | None \<Rightarrow> set_unconstrained_all ops True s)
      else set_unconstrained_all ops False s)"

definition psu_connection_changed ::
  "('d, 'n, 'm) ucsi_crate \<Rightarrow> ('d, 'h) typec_port_ops \<Rightarrow> bool \<Rightarrow> ('d, 'n, 'm, 'h, unit) typec_action" where
  "psu_connection_changed uc ops b =
     modify (\<lambda>s. let s1 = set_ucsi (\<lambda>u. u\<lparr>psu_connected := b\<rparr>) s in
       if ne_battery_charge_change uc (notifications_enabled (ucsi s1))
       then pend_ucsi_connected_ports ops s1 else s1)"

fun process_power_policy_event ::
  "('d, 'n, 'm) ucsi_crate \<Rightarrow> ('d, 'h) typec_port_ops \<Rightarrow> ServiceEvent \<Rightarrow> ('d, 'n, 'm, 'h, unit) typec_action" where
  "process_power_policy_event uc ops (UnconstrainedChanged u) = process_unconstrained_state_change ops u"
| "process_power_policy_event uc ops (ConsumerDisconnected _ _) = psu_connection_changed uc ops False"
| "process_power_policy_event uc ops (ConsumerConnected _ _) = psu_connection_changed uc ops True"
| "process_power_policy_event uc ops _ = ok ()"

datatype 'd TypecEvent = TypecPortEvent port_ref "'d PortEventData" | TypecPowerPolicy ServiceEvent

fun typec_process_event ::
  "('d, 'n, 'm) ucsi_crate \<Rightarrow> ('d, 'h) typec_port_ops \<Rightarrow> 'd TypecEvent \<Rightarrow> ('d, 'n, 'm, 'h, unit) typec_action" where
  "typec_process_event uc ops (TypecPortEvent p d) = typec_port_event uc p d"
| "typec_process_event uc ops (TypecPowerPolicy e) = process_power_policy_event uc ops e"

subsection \<open>UCSI commands\<close>

definition process_ppm_reset ::
  "('d, 'n, 'm) ucsi_crate \<Rightarrow> ('d, 'n, 'm, 'h) TypecService \<Rightarrow> ('d, 'n, 'm, 'h) TypecService" where
  "process_ppm_reset uc = set_ucsi (\<lambda>u. u\<lparr>notifications_enabled := ne_default uc, pending_ports := [],
     valid_battery_charging_capability := []\<rparr>)"

definition process_get_capabilities :: "('d, 'n, 'm, 'h) TypecService \<Rightarrow> 'd PpmCapability" where
  "process_get_capabilities s =
     (ucsi_capabilities (typec_config s))\<lparr>num_connectors := word_of_nat (length (ports_of s))\<rparr>"

fun process_ppm_command ::
  "('d, 'n) PpmCommand \<Rightarrow> ('d, 'n, 'm, 'h, 'd UcsiResponseData option) typec_action" where
  "process_ppm_command (SetNotificationEnable n) =
     and_then (modify (set_ucsi (\<lambda>u. u\<lparr>notifications_enabled := n\<rparr>))) (\<lambda>_. ok None)"
| "process_ppm_command GetCapability =
     (\<lambda>s. (Inr (Some (PpmCapabilityData (process_get_capabilities s))), s))"
| "process_ppm_command (OtherPpmCommand _) = ok None"

definition determine_battery_charging_capability_status ::
  "('d, 'n, 'm, 'h) TypecService \<Rightarrow> u8 \<Rightarrow> 'd PortStatus \<Rightarrow> BatteryChargingCapabilityStatus option" where
  "determine_battery_charging_capability_status s i st =
     (case power_role st of
        RoleSink \<Rightarrow>
          if i \<in> set (valid_battery_charging_capability (ucsi s)) \<and> \<not> psu_connected (ucsi s)
          then
            let mw = (case available_sink_contract st of
                        Some c \<Rightarrow> max_power_mw (sink_capability c) | None \<Rightarrow> 0)
            in Some (status_of (ucsi_battery_charging_config (typec_config s)) mw)
          else Some Nominal
      | _ \<Rightarrow> None)"

definition with_battery_status ::
  "BatteryChargingCapabilityStatus option \<Rightarrow> 'd ConnectorStatus \<Rightarrow> 'd ConnectorStatus" where
  "with_battery_status b c =
     c\<lparr>connected_status := map_option (\<lambda>x. x\<lparr>battery_charging_status := b\<rparr>) (connected_status c),
       battery_charging_status_change := (b \<noteq> None)\<rparr>"

definition get_connector_status ::
  "('d, 'h) typec_port_ops \<Rightarrow> port_ref \<Rightarrow> u8 \<Rightarrow> u8 \<Rightarrow> ('d, 'n, 'm, 'h, 'd LpmResponse option) typec_action" where
  "get_connector_status ops port i l =
     and_then (on_ports (op_execute_lpm_command ops port l GetConnectorStatus)) (\<lambda>resp.
     case resp of
       Some (ConnectorStatusResponse c) \<Rightarrow>
         (if connected_status c = None then ok resp
          else
            and_then (on_ports (op_get_port_status ops port)) (\<lambda>st s.
              (Inr (Some (ConnectorStatusResponse
                 (with_battery_status (determine_battery_charging_capability_status s i st) c))), s)))
     | _ \<Rightarrow> ok resp)"

definition local_port_id :: "u8 \<Rightarrow> ('d, 'n, 'm, 'h, u8) typec_action" where
  "local_port_id i s =
     (case ucsi_local_port_id (typec_registration s) i of Some l \<Rightarrow> (Inr l, s) | None \<Rightarrow> (Inl PdInvalidPort, s))"

definition process_lpm_command ::
  "('d, 'h) typec_port_ops \<Rightarrow> 'd LpmCommand \<Rightarrow> ('d, 'n, 'm, 'h, 'd LpmResponse option) typec_action" where
  "process_lpm_command ops c =
     and_then (lookup_port (lpm_port c)) (\<lambda>port.
     and_then (local_port_id (lpm_port c)) (\<lambda>l.
     case lpm_operation c of
       GetConnectorCapability \<Rightarrow>
         (\<lambda>s. case ucsi_port_capabilities (typec_config s) of
                Some cap \<Rightarrow> (Inr (Some (ConnectorCapability cap)), s)
              | None \<Rightarrow> on_ports (op_execute_lpm_command ops port l GetConnectorCapability) s)
     | GetConnectorStatus \<Rightarrow> get_connector_status ops port (lpm_port c) l
     | OtherLpmOperation x \<Rightarrow> on_ports (op_execute_lpm_command ops port l (OtherLpmOperation x))))"

definition set_cci_connector_change :: "('d, 'n, 'm, 'h) TypecService \<Rightarrow> 'd Cci \<Rightarrow> 'd Cci" where
  "set_cci_connector_change s c =
     (case pending_ports (ucsi s) of
        p # _ \<Rightarrow> c\<lparr>cci_connector_change := p + 1\<rparr>
      | [] \<Rightarrow> c\<lparr>cci_connector_change := 0\<rparr>)"

definition ack_connector_change ::
  "'d Cci \<Rightarrow> ('d, 'n, 'm, 'h) TypecService \<Rightarrow> 'd Cci \<times> ('d, 'n, 'm, 'h) TypecService" where
  "ack_connector_change c s =
     (case pending_ports (ucsi s) of
        [] \<Rightarrow> (c, s)
      | _ # rest_ports \<Rightarrow>
          let s1 = set_ucsi (\<lambda>u. u\<lparr>pending_ports := rest_ports\<rparr>) s in
          (case rest_ports of
             [] \<Rightarrow> (c, s1)
           | nxt # _ \<Rightarrow>
               (case lookup_port nxt s1 of
                  (Inl _, s1) \<Rightarrow> (c, s1)
                | (Inr port, s1) \<Rightarrow>
                    let s2 = notify (UcsiChangeIndicator port nxt False) s1
                    in (set_cci_connector_change s2 c, s2))))"

definition execute_command ::
  "('d, 'h) typec_port_ops \<Rightarrow> ('d, 'n) GlobalCommand \<Rightarrow> ('d, 'n, 'm, 'h, 'd UcsiResponseData option) typec_action" where
  "execute_command ops c =
     (case c of
        PpmCommand p \<Rightarrow> process_ppm_command p
      | LpmCommand l \<Rightarrow> and_then (process_lpm_command ops l) (\<lambda>r. ok (map_option LpmData r)))"

definition consume_input ::
  "('d, 'n, 'm) ucsi_crate \<Rightarrow> ('d, 'n) PpmInput \<Rightarrow> ('d, 'n, 'm, 'h) TypecService
     \<Rightarrow> (unit, ('d, 'n) PpmOutput option) result \<times> ('d, 'n, 'm, 'h) TypecService" where
  "consume_input uc i s =
     (case ppm_consume uc i (ppm_machine (ucsi s)) of (r, m) \<Rightarrow> (r, set_ucsi (\<lambda>u. u\<lparr>ppm_machine := m\<rparr>) s))"

definition error_response :: "('d, 'n, 'm) ucsi_crate \<Rightarrow> PdError \<Rightarrow> 'd UcsiResponse" where
  "error_response uc e = \<lparr>notify_opm = True, response_cci = cci_new_error uc, response_data = Inl e\<rparr>"

text \<open>The answer to an acknowledgement.\<close>

definition ack_response ::
  "('d, 'n, 'm) ucsi_crate \<Rightarrow> Ack \<Rightarrow> 'd UcsiResponse \<Rightarrow> ('d, 'n, 'm, 'h) TypecService
     \<Rightarrow> 'd UcsiResponse \<times> ('d, 'n, 'm, 'h) TypecService" where
  "ack_response uc ack resp s =
     (let c = (if acks_command_complete ack then (response_cci resp)\<lparr>cci_ack_command := True\<rparr> else response_cci resp);
          (c', s') = (if acks_connector_change ack then ack_connector_change c s else (c, s))
      in (resp\<lparr>notify_opm := ne_cmd_complete uc (notifications_enabled (ucsi s)), response_cci := c'\<rparr>, s'))"

text \<open>One pass of the loop: \<open>Inl\<close> returns, \<open>Inr\<close> makes the next pass with \<open>CommandComplete\<close>.\<close>

definition ucsi_pass ::
  "('d, 'n, 'm) ucsi_crate \<Rightarrow> ('d, 'h) typec_port_ops \<Rightarrow> ('d, 'n) PpmInput \<Rightarrow> 'd UcsiResponse
     \<Rightarrow> ('d, 'n, 'm, 'h) TypecService
     \<Rightarrow> ('d UcsiResponse + 'd UcsiResponse) \<times> ('d, 'n, 'm, 'h) TypecService" where
  "ucsi_pass uc ops input resp s0 =
     (case consume_input uc input s0 of
        (Inl _, s) \<Rightarrow> (Inl (error_response uc PdFailed), s)
      | (Inr None, s) \<Rightarrow>
          (Inl \<lparr>notify_opm = False, response_cci = set_cci_connector_change s (cci_default uc),
                response_data = Inr None\<rparr>, s)
      | (Inr (Some (ExecuteCommand c)), s) \<Rightarrow>
          (case execute_command ops c s of (r, s') \<Rightarrow> (Inr (resp\<lparr>response_data := r\<rparr>), s'))
      | (Inr (Some OpmNotifyCommandComplete), s) \<Rightarrow>
          (Inl (resp\<lparr>notify_opm := ne_cmd_complete uc (notifications_enabled (ucsi s)),
                response_cci := set_cci_connector_change s
                  ((response_cci resp)\<lparr>cci_cmd_complete := True, cci_error := \<not> is_ok (response_data resp)\<rparr>)\<rparr>), s)
      | (Inr (Some (AckComplete ack)), s) \<Rightarrow> (case ack_response uc ack resp s of (r, s') \<Rightarrow> (Inl r, s'))
      | (Inr (Some ResetComplete), s) \<Rightarrow>
          (let s' = process_ppm_reset uc s in
           (Inl (resp\<lparr>notify_opm := False,
                 response_cci := set_cci_connector_change s' (cci_new_reset_complete uc)\<rparr>), s'))
      | (Inr (Some OpmNotifyBusy), s) \<Rightarrow>
          (Inl (resp\<lparr>notify_opm := \<not> ne_is_empty uc (notifications_enabled (ucsi s)),
                response_cci := set_cci_connector_change s ((response_cci resp)\<lparr>cci_busy := True\<rparr>)\<rparr>), s))"

partial_function (option) ucsi_loop ::
  "('d, 'n, 'm) ucsi_crate \<Rightarrow> ('d, 'h) typec_port_ops \<Rightarrow> ('d, 'n) PpmInput option \<Rightarrow> 'd UcsiResponse
     \<Rightarrow> ('d, 'n, 'm, 'h) TypecService \<Rightarrow> ('d UcsiResponse \<times> ('d, 'n, 'm, 'h) TypecService) option" where
  "ucsi_loop uc ops input resp s =
     (case input of
        None \<Rightarrow> Some (error_response uc PdInvalidMode, s)
      | Some i \<Rightarrow>
          (case ucsi_pass uc ops i resp s of
             (Inl r, s') \<Rightarrow> Some (r, s')
           | (Inr r, s') \<Rightarrow> ucsi_loop uc ops (Some InCommandComplete) r s'))"

definition process_ucsi_command ::
  "('d, 'n, 'm) ucsi_crate \<Rightarrow> ('d, 'h) typec_port_ops \<Rightarrow> ('d, 'n) GlobalCommand \<Rightarrow> ('d, 'n, 'm, 'h) TypecService
     \<Rightarrow> ('d UcsiResponse \<times> ('d, 'n, 'm, 'h) TypecService) option" where
  "process_ucsi_command uc ops c s =
     ucsi_loop uc ops (Some (InCommand c)) \<lparr>notify_opm = False, response_cci = cci_default uc, response_data = Inr None\<rparr> s"

subsection \<open>The ports of the controllers as the ports of the service\<close>

definition at_port :: "port_ref \<Rightarrow> ('d, 'h, 'a) port_action \<Rightarrow> (port_ref \<Rightarrow> ('d, 'h) Port, 'a) pd_call" where
  "at_port p m ps = (case m (ps p) of (r, q) \<Rightarrow> (r, ps(p := q)))"

definition port_ops ::
  "('d, 'h) pd_controller \<Rightarrow> (u8 \<Rightarrow> 'd LpmOperation \<Rightarrow> ('h, 'd LpmResponse option) pd_call)
     \<Rightarrow> ('d, port_ref \<Rightarrow> ('d, 'h) Port) typec_port_ops" where
  "port_ops pd lpm =
     \<lparr>op_get_port_status = (\<lambda>p. at_port p (on_controller (pd_get_port_status pd))),
      op_set_unconstrained_power = (\<lambda>p b. at_port p (on_controller (pd_set_unconstrained_power pd b))),
      op_reports_unconstrained_power = (\<lambda>p ps. reports_unconstrained_power (ps p)),
      op_execute_lpm_command = (\<lambda>p l c. at_port p (on_controller (lpm l c)))\<rparr>"

end
