(* ===== verification/Typec_Service_Props.thy ===== *)
theory Typec_Service_Props
  imports Typec_Service
begin

text \<open>
  Properties of the Type-C service: the port numbers in its UCSI state, the end of the command loop and the battery
  charging status.
\<close>

subsection \<open>Port numbers\<close>

definition port_number_list :: "port_ref list \<Rightarrow> u8 list \<Rightarrow> bool" where
  "port_number_list ps is \<longleftrightarrow>
     distinct is \<and> length is \<le> MAX_SUPPORTED_PORTS \<and> (\<forall>i\<in>set is. unat i < length ps)"

definition ucsi_typed :: "port_ref list \<Rightarrow> ('d, 'n, 'm, 'h) TypecService \<Rightarrow> bool" where
  "ucsi_typed ps s \<longleftrightarrow> ports_of s = ps \<and> port_number_list ps (pending_ports (ucsi s))
     \<and> port_number_list ps (valid_battery_charging_capability (ucsi s))"

lemma port_number_list_Nil [simp]: "port_number_list ps []"
  by (simp add: port_number_list_def)

lemma port_number_list_push:
  "port_number_list ps q \<Longrightarrow> i \<notin> set q \<Longrightarrow> unat i < length ps \<Longrightarrow> port_number_list ps (snd (deque_push_back i q))"
  by (auto simp: port_number_list_def deque_push_back_def)

lemma port_number_list_insert:
  "port_number_list ps q \<Longrightarrow> unat i < length ps \<Longrightarrow> port_number_list ps (id_set_insert i q)"
  by (auto simp: port_number_list_def id_set_insert_def)

lemma port_number_list_remove1: "port_number_list ps q \<Longrightarrow> port_number_list ps (remove1 i q)"
  unfolding port_number_list_def using set_remove1_subset[of i q] length_remove1[of i q]
  by (auto simp: subset_iff split: if_splits)

lemma port_number_list_tl: "port_number_list ps (i # q) \<Longrightarrow> port_number_list ps q"
  by (auto simp: port_number_list_def)

lemma unat_port_number: "i < n \<Longrightarrow> unat (word_of_nat i :: u8) < n"
  by (metis le_unat_uoi linorder_not_less order_less_le_trans unat_of_nat mod_less_eq_dividend le_less_trans)

lemma index_from_less: "index_from k p ps = Some i \<Longrightarrow> i < k + length ps \<and> k \<le> i \<and> ps ! (i - k) = p"
  by (induction k p ps rule: index_from.induct) (auto split: if_splits simp: nth_Cons' Suc_diff_le)

lemma pend_typed:
  assumes "ucsi_typed ps s" and "unat i < length ps"
  shows "ucsi_typed ps (pend_ucsi_port p i s)"
  using assms port_number_list_push[of ps "pending_ports (ucsi s)" i]
  by (auto simp: ucsi_typed_def pend_ucsi_port_def notify_def set_ucsi_def Let_def split: prod.split bool.split)

lemma on_ports_typed: "ucsi_typed ps (snd (on_ports m s)) \<longleftrightarrow> ucsi_typed ps s"
  by (auto simp: ucsi_typed_def on_ports_def split: prod.split)

lemma keeps_on_ports [keeps_intros]: "keeps (ucsi_typed ps) (on_ports m)"
  by (simp add: keeps_def on_ports_typed)

lemma pend_if_connected_typed:
  assumes "ucsi_typed ps s" and "fst ip < length ps"
  shows "ucsi_typed ps (pend_if_connected ops ip s)"
proof -
  obtain r t where o: "on_ports (op_get_port_status ops (snd ip)) s = (r, t)" by fastforce
  then have "ucsi_typed ps t" using on_ports_typed[of ps "op_get_port_status ops (snd ip)" s] assms(1) by simp
  then show ?thesis
    using o assms(2) by (auto simp: pend_if_connected_def pend_typed unat_port_number split: sum.split)
qed

lemma fold_pend_typed:
  "ucsi_typed ps s \<Longrightarrow> \<forall>ip\<in>set ips. fst ip < length ps \<Longrightarrow> ucsi_typed ps (fold (pend_if_connected ops) ips s)"
  by (induction ips arbitrary: s) (auto simp: pend_if_connected_typed)

lemma pend_connected_typed: "ucsi_typed ps s \<Longrightarrow> ucsi_typed ps (pend_ucsi_connected_ports ops s)"
  unfolding pend_ucsi_connected_ports_def
  by (rule fold_pend_typed) (auto simp: ucsi_typed_def in_set_enumerate_eq)

lemma handle_ucsi_typed:
  "ucsi_typed ps s \<Longrightarrow> unat i < length ps \<Longrightarrow> ucsi_typed ps (handle_ucsi_port_event uc p i ev st s)"
  by (auto simp: handle_ucsi_port_event_def Let_def intro!: pend_typed)
    (auto simp: ucsi_typed_def set_ucsi_def port_number_list_insert port_number_list_remove1)

lemma get_port_index_ok: "get_port_index p s = (Inr i, t) \<Longrightarrow> t = s \<and> i < length (ports_of s) \<and> ports_of s ! i = p"
  by (auto simp: get_port_index_def dest!: index_from_less split: option.splits)

lemma index_event_typed:
  assumes "ucsi_typed ps s"
  shows "ucsi_typed ps (snd (and_then (get_port_index p)
     (\<lambda>i. modify (handle_ucsi_port_event uc p (word_of_nat i) ev st)) s))"
proof -
  obtain r t where g: "get_port_index p s = (r, t)" by fastforce
  show ?thesis
  proof (cases r)
    case (Inl e)
    then show ?thesis using g assms by (auto simp: and_then_def get_port_index_def split: option.splits)
  next
    case (Inr i)
    have "t = s" "i < length ps" using get_port_index_ok[of p s i t] g assms Inr by (auto simp: ucsi_typed_def)
    then show ?thesis using g assms Inr by (simp add: handle_ucsi_typed unat_port_number)
  qed
qed

lemma notify_typed [simp]: "ucsi_typed ps (notify n s) \<longleftrightarrow> ucsi_typed ps s"
  by (simp add: ucsi_typed_def notify_def)

lemma status_event_typed: "keeps (ucsi_typed ps) (process_port_status_event uc p ev st0 st1)"
  unfolding process_port_status_event_def
  by (rule keeps_and_then) (auto simp: keeps_def index_event_typed)

lemma typec_port_event_typed: "keeps (ucsi_typed ps) (typec_port_event uc p d)"
  by (cases d) (simp_all add: status_event_typed keeps_ok)

lemma for_ports_typed: "ucsi_typed ps s \<Longrightarrow> ucsi_typed ps (snd (for_each (\<lambda>p. on_ports (f p)) xs s))"
  by (rule keepsD[OF keeps_for_each]) (rule keeps_on_ports)

lemma unconstrained_typed: "keeps (ucsi_typed ps) (process_unconstrained_state_change ops u)"
  by (simp add: keeps_def process_unconstrained_state_change_def set_unconstrained_all_def for_ports_typed
      split: option.split)

lemma psu_connection_typed: "keeps (ucsi_typed ps) (psu_connection_changed uc ops b)"
  unfolding psu_connection_changed_def
  by (intro keeps_intros) (auto simp: Let_def intro!: pend_connected_typed, auto simp: ucsi_typed_def set_ucsi_def)

lemma policy_event_typed: "keeps (ucsi_typed ps) (process_power_policy_event uc ops e)"
  by (cases e) (simp_all add: unconstrained_typed psu_connection_typed keeps_ok)

lemma event_typed: "keeps (ucsi_typed ps) (typec_process_event uc ops e)"
  by (cases e) (simp_all add: typec_port_event_typed policy_event_typed)

lemma ack_typed: "ucsi_typed ps s \<Longrightarrow> ucsi_typed ps (snd (ack_connector_change c s))"
  by (auto simp: ack_connector_change_def Let_def lookup_port_def split: list.split)
    (auto simp: ucsi_typed_def set_ucsi_def dest: port_number_list_tl)

lemma ppm_command_typed: "keeps (ucsi_typed ps) (process_ppm_command c)"
  by (cases c) (auto simp: keeps_def ucsi_typed_def set_ucsi_def)

lemma keeps_lookup_port [keeps_intros]: "keeps P (lookup_port i)"
  by (simp add: keeps_def lookup_port_def)

lemma keeps_local_port_id [keeps_intros]: "keeps P (local_port_id i)"
  by (simp add: keeps_def local_port_id_def split: option.split)

lemma connector_status_typed: "keeps (ucsi_typed ps) (get_connector_status ops port i l)"
  unfolding get_connector_status_def
  by (intro keeps_intros) (auto split: option.split LpmResponse.split intro!: keeps_intros, simp add: keeps_def)

lemma lpm_command_typed: "keeps (ucsi_typed ps) (process_lpm_command ops c)"
  unfolding process_lpm_command_def
  by (intro keeps_intros)
    (auto split: LpmOperation.split intro!: keeps_intros connector_status_typed,
     auto simp: keeps_def on_ports_typed split: option.split)

lemma execute_typed: "keeps (ucsi_typed ps) (execute_command ops c)"
  by (cases c) (auto simp: execute_command_def ppm_command_typed intro!: keeps_intros lpm_command_typed)

lemma consume_typed: "ucsi_typed ps (snd (consume_input uc i s)) \<longleftrightarrow> ucsi_typed ps s"
  by (auto simp: consume_input_def set_ucsi_def ucsi_typed_def split: prod.split)

lemma ucsi_pass_typed:
  assumes "ucsi_typed ps s"
  shows "ucsi_typed ps (snd (ucsi_pass uc ops i resp s))"
proof -
  obtain r t where c: "consume_input uc i s = (r, t)" by fastforce
  have t: "ucsi_typed ps t" using consume_typed[of ps uc i s] assms c by simp
  have reset: "ucsi_typed ps (process_ppm_reset uc t)"
    using t by (simp add: process_ppm_reset_def set_ucsi_def ucsi_typed_def)
  have ex: "ucsi_typed ps (snd (execute_command ops g t))" for g
    using keepsD[OF execute_typed t] .
  have ack: "ucsi_typed ps (snd (ack_response uc a resp t))" for a
    using t by (auto simp: ack_response_def Let_def split: prod.split) (metis ack_typed snd_conv)+
  show ?thesis
    using t reset ex ack by (auto simp: ucsi_pass_def c Let_def split: prod.split sum.split option.split PpmOutput.split)
      (metis snd_conv)+
qed

lemma ucsi_loop_typed:
  assumes "ucsi_loop uc ops input resp s = Some y" and "ucsi_typed ps s"
  shows "ucsi_typed ps (snd y)"
proof -
  have "ucsi_typed ps s \<longrightarrow> ucsi_typed ps (snd y)"
  proof (rule ucsi_loop.raw_induct[OF _ assms(1)], goal_cases)
    case (1 loop uc ops input resp s y)
    show ?case
    proof (cases input)
      case None
      then show ?thesis using 1(2) by auto
    next
      case (Some i)
      obtain q t where pass: "ucsi_pass uc ops i resp s = (q, t)" by fastforce
      have "ucsi_typed ps s \<Longrightarrow> ucsi_typed ps t" using ucsi_pass_typed[of ps s uc ops i resp] pass by simp
      then show ?thesis using 1(2) Some pass by (cases q) (auto dest: 1(1))
    qed
  qed
  then show ?thesis using assms(2) by simp
qed

inductive typec_step ::
  "('d, 'n, 'm) ucsi_crate \<Rightarrow> ('d, 'h) typec_port_ops
     \<Rightarrow> ('d, 'n, 'm, 'h) TypecService \<Rightarrow> ('d, 'n, 'm, 'h) TypecService \<Rightarrow> bool"
  for uc ops where
  service_event: "typec_step uc ops s (snd (typec_process_event uc ops e s))"
| service_command: "process_ucsi_command uc ops c s = Some (r, s') \<Longrightarrow> typec_step uc ops s s'"
| ports_change: "typec_step uc ops s (s\<lparr>port_states := h\<rparr>)"

lemma typec_step_typed: "typec_step uc ops s t \<Longrightarrow> ucsi_typed ps s \<Longrightarrow> ucsi_typed ps t"
proof (induction rule: typec_step.induct)
  case (service_event s e)
  then show ?case by (rule keepsD[OF event_typed])
next
  case (service_command c s r s')
  then show ?case unfolding process_ucsi_command_def by (auto dest: ucsi_loop_typed)
qed (simp add: ucsi_typed_def)

text \<open>C31. In every run of the service each port number in its UCSI state, pending or with a valid battery status, is
  the number of a registered port, no number is stored twice, and never more than four are stored; so every
  pending number can be looked up, sent and acknowledged.\<close>

theorem ucsi_port_numbers_are_valid:
  assumes "(typec_step uc ops)\<^sup>*\<^sup>* (typec_service_new uc m cfg reg h) s"
  shows "port_number_list (typec_ports reg) (pending_ports (ucsi s))
    \<and> port_number_list (typec_ports reg) (valid_battery_charging_capability (ucsi s))"
proof -
  have "ucsi_typed (typec_ports reg) s"
    using assms
  proof (induction rule: rtranclp_induct)
    case base
    show ?case by (simp add: ucsi_typed_def typec_service_new_def ucsi_state_new_def)
  qed (rule typec_step_typed)
  then show ?thesis by (simp add: ucsi_typed_def)
qed

subsection \<open>The command loop ends\<close>

text \<open>A PPM state machine that does not answer the completion of a command with another one.\<close>

definition completes_commands :: "('d, 'n, 'm) ucsi_crate \<Rightarrow> bool" where
  "completes_commands uc \<longleftrightarrow> (\<forall>m c. fst (ppm_consume uc InCommandComplete m) \<noteq> Inr (Some (ExecuteCommand c)))"

lemma ucsi_pass_returns:
  assumes "completes_commands uc"
  shows "\<exists>r t. ucsi_pass uc ops InCommandComplete resp s = (Inl r, t)"
proof -
  obtain q t where c: "consume_input uc InCommandComplete s = (q, t)" by fastforce
  have "q \<noteq> Inr (Some (ExecuteCommand g))" for g
    using assms c by (auto simp: completes_commands_def consume_input_def split: prod.splits) (metis fst_conv)
  then show ?thesis
    by (auto simp: ucsi_pass_def c Let_def split: sum.split option.split PpmOutput.split prod.split)
qed

text \<open>With a PPM state machine that ends the commands it starts, the loop of every UCSI command ends: the second
  pass returns at the latest, and if it is needed, it is the one that answers the command.\<close>

theorem ucsi_command_returns:
  assumes "completes_commands uc"
  shows "\<exists>r t. process_ucsi_command uc ops c s = Some (r, t) \<and>
    (case ucsi_pass uc ops (InCommand c) \<lparr>notify_opm = False, response_cci = cci_default uc, response_data = Inr None\<rparr> s of
       (Inl r1, s1) \<Rightarrow> r = r1 \<and> t = s1
     | (Inr r1, s1) \<Rightarrow> ucsi_pass uc ops InCommandComplete r1 s1 = (Inl r, t))"
proof -
  let ?r0 = "\<lparr>notify_opm = False, response_cci = cci_default uc, response_data = Inr None\<rparr>"
  obtain q s1 where p: "ucsi_pass uc ops (InCommand c) ?r0 s = (q, s1)" by fastforce
  show ?thesis
  proof (cases q)
    case (Inl r)
    then show ?thesis using p by (simp add: process_ucsi_command_def ucsi_loop.simps)
  next
    case (Inr r1)
    obtain r t where "ucsi_pass uc ops InCommandComplete r1 s1 = (Inl r, t)"
      using ucsi_pass_returns[OF assms] by metis
    then show ?thesis
      using p Inr by (simp add: process_ucsi_command_def ucsi_loop.simps[of uc ops "Some (InCommand c)"]
          ucsi_loop.simps[of uc ops "Some InCommandComplete"])
  qed
qed

subsection \<open>Battery charging status\<close>

fun charging_level :: "BatteryChargingCapabilityStatus \<Rightarrow> nat" where
  "charging_level NotCharging = 0"
| "charging_level VerySlow = 1"
| "charging_level Slow = 2"
| "charging_level Nominal = 3"

lemma level_bounds:
  "0 < charging_level (status_of c p) \<longleftrightarrow> \<not> below p (not_charging_mw c)"
  "1 < charging_level (status_of c p) \<longleftrightarrow> \<not> below p (not_charging_mw c) \<and> \<not> below p (very_slow_mw c)"
  "2 < charging_level (status_of c p)
     \<longleftrightarrow> \<not> below p (not_charging_mw c) \<and> \<not> below p (very_slow_mw c) \<and> \<not> below p (slow_mw c)"
  "charging_level (status_of c p) \<le> 3"
  by (simp_all add: status_of_def)

lemma below_mono: "p \<le> q \<Longrightarrow> below q t \<Longrightarrow> below p t"
  by (auto simp: below_def split: option.splits)

lemma below_ordered: "\<not> misordered a b \<Longrightarrow> a \<noteq> None \<Longrightarrow> below p a \<Longrightarrow> b \<noteq> None \<Longrightarrow> below p b"
  by (auto simp: below_def misordered_def not_le split: option.splits)

text \<open>With thresholds that passed the check of their order, more power never gives a worse battery charging
  status, and each threshold that is set is reached exactly by the powers whose status is better than its own.\<close>

theorem charging_status_follows_power:
  assumes "try_new_thresholds nc vs sl = Some c"
  shows "(p \<le> q \<longrightarrow> charging_level (status_of c p) \<le> charging_level (status_of c q))
    \<and> (\<forall>t. nc = Some t \<longrightarrow> (t \<le> p \<longleftrightarrow> 0 < charging_level (status_of c p)))
    \<and> (\<forall>t. vs = Some t \<longrightarrow> (t \<le> p \<longleftrightarrow> 1 < charging_level (status_of c p)))
    \<and> (\<forall>t. sl = Some t \<longrightarrow> (t \<le> p \<longleftrightarrow> 2 < charging_level (status_of c p)))"
proof -
  have c: "c = \<lparr>not_charging_mw = nc, very_slow_mw = vs, slow_mw = sl\<rparr>"
      and order: "\<not> misordered nc vs" "\<not> misordered vs sl" "\<not> misordered nc sl"
    using assms by (auto simp: try_new_thresholds_def split: if_splits)
  have "charging_level (status_of c p) \<le> charging_level (status_of c q)" if "p \<le> q"
    using below_mono[OF that, of nc] below_mono[OF that, of vs] below_mono[OF that, of sl] by (simp add: c status_of_def)
  moreover have "t \<le> p \<longleftrightarrow> 0 < charging_level (status_of c p)" if "nc = Some t" for t
    unfolding level_bounds(1) using that by (auto simp: c below_def)
  moreover have "t \<le> p \<longleftrightarrow> 1 < charging_level (status_of c p)" if "vs = Some t" for t
    unfolding level_bounds(2) using that below_ordered[OF order(1), of p]
    by (cases nc) (auto simp: c below_def)
  moreover have "t \<le> p \<longleftrightarrow> 2 < charging_level (status_of c p)" if "sl = Some t" for t
    unfolding level_bounds(3) using that below_ordered[OF order(2), of p] below_ordered[OF order(3), of p]
    by (cases nc; cases vs) (auto simp: c below_def)
  ultimately show ?thesis by blast
qed

end
