(* ===== verification/Typec_Port_Props.thy ===== *)
theory Typec_Port_Props
  imports Typec_Port
begin

text \<open>
  Properties of a Type-C port: what the power policy hears of it in any run, the tear-down of contracts, and
  the sink-ready timeout, which the port and its event receiver make together.
\<close>

subsection \<open>What the power policy hears\<close>

text \<open>The protocol of the notices: capabilities and disconnects are announced only between an attach and the
  next detach. The view after a list of notices is whether the device is attached, \<open>None\<close> once the protocol
  was violated.\<close>

fun hear_notice :: "PsuEventData \<Rightarrow> bool option \<Rightarrow> bool option" where
  "hear_notice e None = None"
| "hear_notice EvAttached (Some _) = Some True"
| "hear_notice EvDetached (Some _) = Some False"
| "hear_notice _ (Some a) = (if a then Some True else None)"

definition policy_view :: "PsuEventData list \<Rightarrow> bool option" where
  "policy_view es = fold hear_notice es (Some False)"

lemma policy_view_append [simp]: "policy_view (es @ [e]) = hear_notice e (policy_view es)"
  by (simp add: policy_view_def)

definition policy_informed :: "('d, 'h) Port \<Rightarrow> bool" where
  "policy_informed p \<longleftrightarrow> policy_view (power_notices p) = Some (psu_state (port_psu p) \<noteq> Detached)"

definition informed_of :: "'d PortStatus \<Rightarrow> ('d, 'h) Port \<Rightarrow> bool" where
  "informed_of st p \<longleftrightarrow> policy_informed p \<and> (is_connected st \<longrightarrow> psu_state (port_psu p) \<noteq> Detached)"

lemma keeps_with_port [keeps_intros]: "(\<And>p. P p \<Longrightarrow> P (snd (f p p))) \<Longrightarrow> keeps P (with_port f)"
  by (simp add: keeps_def with_port_def)

lemma keeps_on_controller [keeps_intros]:
  "keeps policy_informed (on_controller m)" "keeps (informed_of st) (on_controller m)"
  by (auto simp: keeps_def on_controller_def informed_of_def policy_informed_def split: prod.split)

lemma keeps_quiet [keeps_intros]:
  "keeps policy_informed (tell_service d)" "keeps (informed_of st) (tell_service d)"
  "keeps policy_informed (send_loopback l)" "keeps (informed_of st) (send_loopback l)"
  "keeps policy_informed (set_deadline t)" "keeps (informed_of st) (set_deadline t)"
  by (auto simp: keeps_def tell_service_def send_loopback_def set_deadline_def informed_of_def policy_informed_def)

lemma keeps_do_when [keeps_intros]: "(b \<Longrightarrow> keeps P m) \<Longrightarrow> keeps P (do_when b m)"
  by (simp add: keeps_def)

lemma keeps_new_consumer: "keeps (informed_of st) (process_new_consumer_contract st')"
  by (auto simp: keeps_def process_new_consumer_contract_def informed_of_def policy_informed_def Let_def
      update_consumer_power_capability_def action_simps split: PsuState.splits)

lemma keeps_new_provider: "is_connected st \<Longrightarrow> keeps (informed_of st) (process_new_provider_contract st)"
  by (auto simp: keeps_def process_new_provider_contract_def informed_of_def policy_informed_def Let_def
      update_requested_provider_power_capability_def action_simps split: PsuState.splits)

lemma keeps_tear_down:
  assumes "\<And>p. P p \<longleftrightarrow> informed_of st p"
  shows "P p \<Longrightarrow> in_power_role (port_psu p) \<Longrightarrow>
     P (snd (and_then (on_port_psu (disconnect True)) (\<lambda>_. tell_power (EvDisconnected f)) p))"
  by (auto simp: assms informed_of_def policy_informed_def in_power_role_def disconnect_def Let_def action_simps
      split: PsuState.splits)

lemma keeps_hard_reset: "keeps (informed_of st) process_hard_reset"
  unfolding process_hard_reset_def
  by (intro keeps_intros)
    (auto simp: informed_of_def policy_informed_def in_power_role_def disconnect_def Let_def action_simps
      split: PsuState.splits)

lemma keeps_role_swap: "keeps (informed_of st) (process_power_role_swap pd st')"
  unfolding process_power_role_swap_def
  by (intro keeps_intros)
    (auto simp: informed_of_def policy_informed_def disconnect_def Let_def action_simps
      split: PsuState.splits prod.splits sum.splits)

lemma keeps_timeout_check: "keeps (informed_of st) (check_sink_ready_timeout pd now st' a b)"
  unfolding check_sink_ready_timeout_def Let_def
  by (rule keeps_with_port) (auto simp: informed_of_def policy_informed_def action_simps)

lemma plug_event_informs:
  assumes "policy_informed p" and "plug \<or> (is_connected st \<longrightarrow> psu_state (port_psu p) \<noteq> Detached)"
  shows "informed_of st (snd (do_when plug (process_plug_event st) p))"
    and "fst (do_when plug (process_plug_event st) p) = Inr ()"
  using assms
  by (auto simp: informed_of_def policy_informed_def process_plug_event_def attach_def detach_def action_simps)

lemma publish_status_informs: "informed_of st p \<Longrightarrow> informed_of st (snd (publish_status ev st' p))"
  by (simp add: publish_status_def with_port_def Let_def tell_service_def informed_of_def policy_informed_def
      and_then_def)

lemma keeps_publish_status [keeps_intros]: "keeps (informed_of st) (publish_status ev st')"
  by (rule keepsI) (rule publish_status_informs)

lemma keeps_update_contracts: "keeps (informed_of st) (update_contracts pd now ev st)"
  unfolding update_contracts_def offer_contracts_def
  by (intro keeps_intros keeps_hard_reset keeps_role_swap keeps_new_consumer keeps_timeout_check)
    (auto simp: keepsD[OF keeps_new_provider] publish_status_informs)

text \<open>What is assumed of the controller: when it reports a connected port whose device is still detached, the event that
  is being processed tells of the plug.\<close>

definition plug_reported :: "('d, 'h) pd_controller \<Rightarrow> PortEvent \<Rightarrow> ('d, 'h) Port \<Rightarrow> bool" where
  "plug_reported pd e p \<longleftrightarrow>
     (\<forall>ev st h. e = StatusChanged ev \<longrightarrow> pd_get_port_status pd (controller_state p) = (Inr st, h) \<longrightarrow> is_connected st
        \<longrightarrow> psu_state (port_psu p) = Detached \<longrightarrow> plug_inserted_or_removed ev)"

text \<open>The environment of a port: events and calls of the power policy in any order, and the controller changing on
  its own. Two things are assumed: plugs are reported, and the power policy does not disconnect a device that is detached.\<close>

inductive port_step :: "('d, 'h) pd_controller \<Rightarrow> ('d, 'h) Port \<Rightarrow> ('d, 'h) Port \<Rightarrow> bool"
  for pd where
  port_event: "plug_reported pd e p \<Longrightarrow> port_step pd p (snd (process_port_event pd now e p))"
| port_sync: "port_step pd p (snd (sync_state pd p))"
| port_voltage: "port_step pd p (snd (set_max_sink_voltage pd now mv p))"
| port_connect_consumer: "port_step pd p (p\<lparr>port_psu := snd (connect_consumer c (port_psu p)), controller_state := h\<rparr>)"
| port_connect_provider: "port_step pd p (p\<lparr>port_psu := snd (connect_provider c' (port_psu p)), controller_state := h\<rparr>)"
| port_disconnect:
    "psu_state (port_psu p) \<noteq> Detached
     \<Longrightarrow> port_step pd p (p\<lparr>port_psu := snd (disconnect False (port_psu p)), controller_state := h\<rparr>)"
| port_hardware: "port_step pd p (p\<lparr>controller_state := h\<rparr>)"
| port_deadline_taken: "port_step pd p (p\<lparr>port_shared := sh\<rparr>)"

lemma process_event_informs:
  assumes "policy_informed p" and "plug_reported pd e p"
  shows "policy_informed (snd (process_port_event pd now e p))"
proof (cases e)
  case (StatusChanged ev)
  obtain r h where g: "pd_get_port_status pd (controller_state p) = (r, h)" by fastforce
  let ?p = "p\<lparr>controller_state := h\<rparr>"
  show ?thesis
  proof (cases r)
    case (Inl x)
    then show ?thesis using assms(1) g StatusChanged
      by (simp add: process_port_status_changed_def on_controller_def and_then_def policy_informed_def)
  next
    case (Inr st)
    let ?q = "snd (do_when (plug_inserted_or_removed ev) (process_plug_event st) ?p)"
    have inf: "informed_of st ?q" and okq: "fst (do_when (plug_inserted_or_removed ev) (process_plug_event st) ?p) = Inr ()"
      by (rule plug_event_informs; use assms g StatusChanged Inr in \<open>auto simp: policy_informed_def plug_reported_def\<close>)+
    have eq: "do_when (plug_inserted_or_removed ev) (process_plug_event st) ?p = (Inr (), ?q)"
      using okq by (metis prod.collapse)
    have "and_then (do_when (plug_inserted_or_removed ev) (process_plug_event st)) (\<lambda>_. update_contracts pd now ev st) ?p
        = update_contracts pd now ev st ?q"
      by (rule and_then_Inr) (rule eq)
    then have "process_port_status_changed pd now ev p = update_contracts pd now ev st ?q"
      using g Inr by (simp add: process_port_status_changed_def on_controller_def)
    moreover have "informed_of st (snd (update_contracts pd now ev st ?q))"
      by (rule keepsD[OF keeps_update_contracts inf])
    ultimately show ?thesis
      using StatusChanged by (auto simp: informed_of_def and_then_def split: prod.split sum.split)
  qed
qed (use assms(1) in \<open>auto simp: process_pd_alert_def process_vdm_event_def process_dp_status_update_def Let_def
    policy_informed_def action_simps split: prod.splits sum.splits option.splits VdmNotification.splits\<close>)

lemma sync_informs: "policy_informed p \<Longrightarrow> policy_informed (snd (sync_state pd p))"
  by (auto simp: sync_state_def policy_informed_def Let_def action_simps split: prod.splits sum.splits)

lemma voltage_informs: "policy_informed p \<Longrightarrow> policy_informed (snd (set_max_sink_voltage pd now mv p))"
  by (auto simp: set_max_sink_voltage_def leave_consumer_def arm_deadline_def must_disable_sink_path_def
      policy_informed_def disconnect_def Let_def action_simps split: prod.splits sum.splits PsuState.splits)

lemma port_step_informs: "port_step pd p q \<Longrightarrow> policy_informed p \<Longrightarrow> policy_informed q"
proof (induction rule: port_step.induct)
  case (port_event e p now)
  then show ?case by (blast intro: process_event_informs)
next
  case (port_sync p)
  then show ?case by (rule sync_informs)
next
  case (port_voltage p now mv)
  then show ?case by (rule voltage_informs)
qed (auto simp: sync_informs voltage_informs policy_informed_def psu_op_defs split: PsuState.splits)

text \<open>C28. In every run of a port in which the controller reports the plug with the first status of a connected port
  and the power policy disconnects no detached device, whatever they do otherwise, the power policy hears of an
  attach, a detach, a capability or a disconnect only in their place: capabilities and disconnects come
  between an attach and the next detach, and after each step the last notices tell whether the device of the
  port is attached.\<close>

theorem power_policy_is_informed:
  assumes "(port_step pd)\<^sup>*\<^sup>* (port_new k cfg h) p"
  shows "policy_view (power_notices p) = Some (psu_state (port_psu p) \<noteq> Detached)"
proof -
  have "policy_informed p"
    using assms
  proof (induction rule: rtranclp_induct)
    case base
    show ?case by (simp add: policy_informed_def port_new_def psu_default_def policy_view_def)
  qed (rule port_step_informs)
  then show ?thesis by (simp add: policy_informed_def)
qed

subsection \<open>Tear-down of a contract\<close>

definition offers_contract :: "PsuEventData \<Rightarrow> bool" where
  "offers_contract e =
     (case e of UpdatedConsumerCapability _ \<Rightarrow> True | RequestedProviderCapability _ \<Rightarrow> True | _ \<Rightarrow> False)"

text \<open>After the tear-down only new contracts are announced.\<close>

definition torn_down :: "PsuEventData list \<Rightarrow> ('d, 'h) Port \<Rightarrow> bool" where
  "torn_down es p \<longleftrightarrow>
     psu_state (port_psu p) = Idle \<and> (\<exists>ns. power_notices p = es @ ns \<and> (\<forall>e\<in>set ns. offers_contract e))"

lemma torn_down_start: "psu_state (port_psu p) = Idle \<Longrightarrow> torn_down (power_notices p) p"
  by (auto simp: torn_down_def)

lemma torn_down_tell: "torn_down es p \<Longrightarrow> offers_contract e \<Longrightarrow> torn_down es (p\<lparr>power_notices := power_notices p @ [e]\<rparr>)"
  by (fastforce simp: torn_down_def)

lemma torn_down_cong:
  "psu_state (port_psu p) = psu_state (port_psu q) \<Longrightarrow> power_notices p = power_notices q
     \<Longrightarrow> torn_down es p \<longleftrightarrow> torn_down es q"
  by (simp add: torn_down_def)

lemma keeps_torn_down:
  "keeps (torn_down es) (process_new_consumer_contract st)"
  "keeps (torn_down es) (process_new_provider_contract st)"
  "keeps (torn_down es) (check_sink_ready_timeout pd now st a b)"
  "keeps (torn_down es) (publish_status ev st)"
  "keeps (torn_down es) (process_power_role_swap pd st)"
  by (auto simp: keeps_def process_new_consumer_contract_def process_new_provider_contract_def
      check_sink_ready_timeout_def publish_status_def process_power_role_swap_def
      update_consumer_power_capability_def update_requested_provider_power_capability_def Let_def torn_down_def
      action_simps offers_contract_def)

lemma keeps_offer_contracts: "keeps (torn_down es) (offer_contracts pd now ev st)"
  unfolding offer_contracts_def
  by (intro keeps_intros keeps_torn_down) (simp add: keepsD[OF keeps_torn_down(2)])

lemma hard_reset_tears_down:
  assumes "in_power_role (port_psu p)"
  shows "fst (process_hard_reset p) = Inr ()"
    and "torn_down (power_notices p @ [EvDisconnected \<lparr>reason = Some ReasonReset\<rparr>]) (snd (process_hard_reset p))"
  using assms
  by (auto simp: process_hard_reset_def in_power_role_def disconnect_def Let_def action_simps torn_down_def
      split: PsuState.splits)

lemma role_swap_tears_down:
  assumes "in_power_role (port_psu p)" and "is_connected st" and "process_power_role_swap pd st p = (Inr u, p')"
  shows "torn_down (power_notices p @ [EvDisconnected \<lparr>reason = Some RoleSwap\<rparr>]) p'"
  using assms
  by (auto simp: process_power_role_swap_def in_power_role_def disconnect_def Let_def action_simps torn_down_def
      split: PsuState.splits prod.splits sum.splits)

definition tear_down_reason :: "PortStatusEventBitfield \<Rightarrow> DisconnectReason" where
  "tear_down_reason ev = (if pd_hard_reset ev then ReasonReset else RoleSwap)"

lemma update_contracts_tears_down:
  assumes role: "in_power_role (port_psu p)"
    and ev: "pd_hard_reset ev \<or> power_swap_completed ev \<and> is_connected st"
    and run: "update_contracts pd now ev st p = (Inr d, p')"
  shows "torn_down (power_notices p @ [EvDisconnected \<lparr>reason = Some (tear_down_reason ev)\<rparr>]) p'"
proof -
  let ?es = "power_notices p @ [EvDisconnected \<lparr>reason = Some (tear_down_reason ev)\<rparr>]"
  from run obtain u1 p1 u2 p2 where
      p1: "do_when (pd_hard_reset ev) process_hard_reset p = (Inr u1, p1)"
    and p2: "do_when (power_swap_completed ev) (process_power_role_swap pd st) p1 = (Inr u2, p2)"
    and tail: "offer_contracts pd now ev st p2 = (Inr d, p')"
    unfolding update_contracts_def and_then_ok_iff by blast
  have "torn_down ?es p2"
  proof (cases "pd_hard_reset ev")
    case True
    then have "torn_down ?es p1"
      using p1 hard_reset_tears_down(2)[OF role] by (simp add: tear_down_reason_def)
    then show ?thesis
      using p2 keepsD_eq[OF keeps_torn_down(5)] by (auto split: if_splits)
  next
    case False
    then show ?thesis
      using p1 p2 ev role_swap_tears_down[OF role] by (auto simp: tear_down_reason_def)
  qed
  then show ?thesis
    by (rule keepsD_eq[OF keeps_offer_contracts _ tail])
qed

text \<open>C29. When a port in a power role handles an event without a plug change that tells of a hard reset, or of a role
  swap with the port still connected, and the status is read and the processing succeeds, the power policy first hears of
  the disconnect with its reason, and then only of new contracts; the device of the port has left its role.\<close>

theorem old_role_ends_first:
  assumes "in_power_role (port_psu p)" and "\<not> plug_inserted_or_removed ev"
    and "pd_get_port_status pd (controller_state p) = (Inr st, h)"
    and "pd_hard_reset ev \<or> power_swap_completed ev \<and> is_connected st"
    and "process_port_status_changed pd now ev p = (Inr d, p')"
  shows "psu_state (port_psu p') = Idle \<and>
    (\<exists>ns. power_notices p' = power_notices p @ EvDisconnected \<lparr>reason = Some (tear_down_reason ev)\<rparr> # ns
      \<and> (\<forall>e\<in>set ns. offers_contract e))"
proof -
  have "update_contracts pd now ev st (p\<lparr>controller_state := h\<rparr>) = (Inr d, p')"
    using assms(2,3,5) by (simp add: process_port_status_changed_def on_controller_def and_then_def)
  then show ?thesis
    using update_contracts_tears_down[of "p\<lparr>controller_state := h\<rparr>" ev st pd now d p'] assms(1,4)
    by (auto simp: torn_down_def)
qed

subsection \<open>The sink-ready timeout\<close>

text \<open>A round of the task of a port: wait for an event, then process it.\<close>

definition port_round ::
  "('d, 'h) pd_controller \<Rightarrow> nat \<Rightarrow> typec_wake list \<Rightarrow> TypecReceiver \<Rightarrow> ('d, 'h) Port
     \<Rightarrow> (PdError, 'd PortEventData option) result \<times> typec_wake list \<times> TypecReceiver \<times> ('d, 'h) Port" where
  "port_round pd now ws r p =
     (case typec_wait_event ws (r\<lparr>receiver_shared := port_shared p\<rparr>) of (e, ws', r') \<Rightarrow>
        let p1 = p\<lparr>port_shared := receiver_shared r'\<rparr> in
        case e of
          None \<Rightarrow> (Inr None, ws', r', p1)
        | Some e \<Rightarrow> (case process_port_event pd now e p1 of (res, p2) \<Rightarrow>
            (res, ws', r'\<lparr>receiver_shared := port_shared p2\<rparr>, p2)))"

lemma sink_ready_event_bits [simp]:
  "sink_ready sink_ready_event" "\<not> plug_inserted_or_removed sink_ready_event" "\<not> pd_hard_reset sink_ready_event"
  "\<not> power_swap_completed sink_ready_event" "\<not> new_power_contract_as_consumer sink_ready_event"
  by (simp_all add: sink_ready_event_def event_bits status_none_def)

lemma attached_updates:
  assumes "psu_state s \<noteq> Detached"
  shows "update_consumer_power_capability c s = (Inr (), s\<lparr>psu_consumer_capability := c\<rparr>)"
    and "update_requested_provider_power_capability c' s = (Inr (), s\<lparr>requested_provider_capability := c'\<rparr>)"
  using assms
  by (auto simp: update_consumer_power_capability_def update_requested_provider_power_capability_def
      split: PsuState.split)

lemma new_provider_attached:
  assumes "psu_state (port_psu p) \<noteq> Detached"
  shows "process_new_provider_contract st p =
     (Inr (), p\<lparr>port_psu := (port_psu p)\<lparr>requested_provider_capability := requested_provider st\<rparr>,
        power_notices := power_notices p @ [RequestedProviderCapability (requested_provider st)]\<rparr>)"
  using assms by (simp add: process_new_provider_contract_def Let_def attached_updates action_simps)

lemma new_consumer_attached:
  assumes "psu_state (port_psu p) \<noteq> Detached"
  shows "process_new_consumer_contract st p =
     (Inr (), p\<lparr>port_psu := (port_psu p)\<lparr>psu_consumer_capability := offered_consumer (unconstrained_sink p) st\<rparr>,
        power_notices := power_notices p @ [UpdatedConsumerCapability (offered_consumer (unconstrained_sink p) st)]\<rparr>)"
  using assms by (simp add: process_new_consumer_contract_def Let_def attached_updates action_simps)

lemma deadline_announces_contract:
  assumes "streaming_state r = None" and "port_deadline p \<noteq> None" and "psu_state (port_psu p) \<noteq> Detached"
    and "pd_get_port_status pd (controller_state p) = (Inr st, h)"
  shows "\<exists>d r' p'. port_round pd now (DeadlineReached # ws) r p = (Inr (Some d), ws, r', p')
    \<and> port_deadline p' = None \<and> cached_status p' = st
    \<and> psu_consumer_capability (port_psu p') = offered_consumer (unconstrained_sink p) st
    \<and> (\<exists>ns. power_notices p'
         = power_notices p @ UpdatedConsumerCapability (offered_consumer (unconstrained_sink p) st) # ns)"
  using assms
  by (auto simp: port_round_def typec_wait_event.simps[of "DeadlineReached # ws"] Let_def process_port_status_changed_def
      update_contracts_def offer_contracts_def on_controller_def new_consumer_attached new_provider_attached with_port_def
      check_sink_ready_timeout_def publish_status_def tell_service_def and_then_def)

lemma timeout_check_starts:
  assumes "new_power_contract_as_consumer ev" and "\<not> sink_ready ev"
    and "available_sink_contract (cached_status p) \<noteq> available_sink_contract st"
    and "offer_contracts pd now ev st p = (Inr d, p')"
  shows "port_deadline p' = Some (now + sink_ready_timeout pd (contract_is_epr st))"
  using assms
  by (auto simp: offer_contracts_def check_sink_ready_timeout_def process_new_provider_contract_def
      publish_status_def Let_def and_then_def with_port_def psu_or_failed_def on_port_psu_def tell_power_def
      tell_service_def set_deadline_def split: if_splits prod.splits sum.splits)

lemma role_swap_cached:
  "process_power_role_swap pd st p = (r, p') \<Longrightarrow> cached_status p' = cached_status p"
  by (auto simp: process_power_role_swap_def Let_def action_simps split: if_splits prod.splits sum.splits PsuState.splits)

lemma plug_event_cached: "process_plug_event st p = (r, p') \<Longrightarrow> cached_status p' = cached_status p"
  by (auto simp: process_plug_event_def Let_def action_simps split: if_splits prod.splits sum.splits)

text \<open>A port that waits for its contract: the controller reported a new sink contract without sink ready, or
  the limit of the sink voltage was changed under a consuming port.\<close>

inductive awaits_contract :: "('d, 'h) pd_controller \<Rightarrow> ('d, 'h) Port \<Rightarrow> ('d, 'h) Port \<Rightarrow> bool" for pd where
  contract_reported:
    "pd_get_port_status pd (controller_state p) = (Inr st, h)
     \<Longrightarrow> new_power_contract_as_consumer ev \<Longrightarrow> \<not> sink_ready ev \<Longrightarrow> \<not> pd_hard_reset ev
     \<Longrightarrow> available_sink_contract (cached_status p) \<noteq> available_sink_contract st
     \<Longrightarrow> process_port_status_changed pd now ev p = (Inr d, p') \<Longrightarrow> awaits_contract pd p p'"
| limit_changed:
    "psu_state (port_psu p) = ConnectedConsumer c \<Longrightarrow> mv \<noteq> Some (voltage_mv (consumer_capability c))
     \<Longrightarrow> set_max_sink_voltage pd now mv p = (Inr u, p') \<Longrightarrow> awaits_contract pd p p'"

inductive_cases awaits_contractE: "awaits_contract pd p p'"

lemma keeps_deadline:
  "keeps (\<lambda>p. port_deadline p \<noteq> None) (on_controller m)"
  "keeps (\<lambda>p. port_deadline p \<noteq> None) (send_loopback l)"
  "keeps (\<lambda>p. port_deadline p \<noteq> None) (on_port_psu m')"
  "keeps (\<lambda>p. port_deadline p \<noteq> None) (tell_power e)"
  by (auto simp: keeps_def port_step_defs split: prod.split)

lemma deadline_stays:
  "keeps (\<lambda>p. port_deadline p \<noteq> None) (and_then (send_loopback l) (\<lambda>_.
     and_then (on_port_psu m) (\<lambda>_. tell_power e)))"
  by (intro keeps_and_then keeps_deadline)

lemma arm_deadline_pends: "port_deadline (snd (arm_deadline pd now p)) \<noteq> None"
  by (simp add: arm_deadline_def with_port_def set_deadline_def)

lemma voltage_change_deadline:
  assumes "must_disable_sink_path mv (port_psu p)" and "set_max_sink_voltage pd now mv p = (Inr u, p')"
  shows "port_deadline p' \<noteq> None"
proof -
  obtain u1 p1 where leave: "leave_consumer pd now p = (Inr u1, p1)"
      and limit: "on_controller (pd_set_max_sink_voltage pd mv) p1 = (Inr u, p')"
    using assms by (auto simp: set_max_sink_voltage_def and_then_ok_iff with_port_def)
  from leave obtain u2 p2 u3 p3 where armed: "arm_deadline pd now p2 = (Inr u3, p3)"
      and later: "and_then (send_loopback SinkReadyDeadlineInvalidated) (\<lambda>_.
        and_then (on_port_psu (disconnect True)) (\<lambda>_.
        tell_power (EvDisconnected \<lparr>reason = Some ManualRenegotiation\<rparr>))) p3 = (Inr u1, p1)"
    unfolding leave_consumer_def and_then_ok_iff by blast
  have "port_deadline p3 \<noteq> None"
    using arm_deadline_pends[of pd now p2] armed by simp
  then have "port_deadline p1 \<noteq> None"
    using keepsD[OF deadline_stays[of SinkReadyDeadlineInvalidated "disconnect True"
        "EvDisconnected \<lparr>reason = Some ManualRenegotiation\<rparr>"], of p3] later by simp
  then show ?thesis
    using keepsD[OF keeps_deadline(1)[of "pd_set_max_sink_voltage pd mv"], of p1] limit by simp
qed

lemma awaits_contract_deadline:
  assumes "awaits_contract pd p p'"
  shows "port_deadline p' \<noteq> None"
  using assms
proof cases
  case (contract_reported st h ev now d)
  let ?p = "p\<lparr>controller_state := h\<rparr>"
  have "and_then (do_when (plug_inserted_or_removed ev) (process_plug_event st)) (\<lambda>_. update_contracts pd now ev st) ?p
      = (Inr d, p')"
    using contract_reported(1,6) by (simp add: process_port_status_changed_def on_controller_def and_then_def)
  then obtain u1 p1 u2 p2 where p1: "do_when (plug_inserted_or_removed ev) (process_plug_event st) ?p = (Inr u1, p1)"
    and p2: "do_when (power_swap_completed ev) (process_power_role_swap pd st) p1 = (Inr u2, p2)"
    and offer: "offer_contracts pd now ev st p2 = (Inr d, p')"
    using contract_reported(4) by (auto simp: update_contracts_def and_then_ok_iff)
  have "cached_status p2 = cached_status p"
    using p1 p2 by (auto dest!: plug_event_cached role_swap_cached split: if_splits)
  then show ?thesis
    using timeout_check_starts[OF contract_reported(2,3) _ offer] contract_reported(5) by simp
next
  case (limit_changed c mv now u)
  then have "must_disable_sink_path mv (port_psu p)" by (simp add: must_disable_sink_path_def)
  then show ?thesis using limit_changed(3) by (rule voltage_change_deadline)
qed

text \<open>C30. A sink contract is not lost when the controller never says that the sink is ready: whenever a port
  waits for a contract a deadline is pending, and when it is reached, and the device is still attached and
  the status readable, the contract found is offered to the power policy and kept as the capability of the
  device.\<close>

theorem awaited_contract_is_announced:
  assumes "awaits_contract pd p0 p" and "streaming_state r = None" and "psu_state (port_psu p) \<noteq> Detached"
    and "pd_get_port_status pd (controller_state p) = (Inr st, h)"
  shows "port_deadline p \<noteq> None
    \<and> (\<exists>d r' p'. port_round pd now (DeadlineReached # ws) r p = (Inr (Some d), ws, r', p')
      \<and> port_deadline p' = None \<and> cached_status p' = st
      \<and> psu_consumer_capability (port_psu p') = offered_consumer (unconstrained_sink p) st
      \<and> (\<exists>ns. power_notices p'
           = power_notices p @ UpdatedConsumerCapability (offered_consumer (unconstrained_sink p) st) # ns))"
  using deadline_announces_contract[OF assms(2) awaits_contract_deadline[OF assms(1)] assms(3,4)]
    awaits_contract_deadline[OF assms(1)] by simp

subsection \<open>Concrete runs\<close>

text \<open>A controller whose state is the port status that it reports.\<close>

definition demo_status :: "nat PortStatus" where
  "demo_status =
     \<lparr>available_source_contract = None,
      available_sink_contract = Some \<lparr>sink_capability = \<lparr>voltage_mv = 5000, current_ma = 3000\<rparr>, sink_pd = None\<rparr>,
      connection_state = Some ConnAttached, plug_orientation = 0, power_role = RoleSink, data_role = 0, alt_mode = 0,
      power_path = 0\<rparr>"

definition demo_pd :: "(nat, nat PortStatus) pd_controller" where
  "demo_pd =
     \<lparr>pd_get_port_status = (\<lambda>st. (Inr st, st)), pd_enable_sink_path = (\<lambda>_ st. (Inr (), st)),
      pd_get_alert = (\<lambda>st. (Inr None, st)), pd_set_unconstrained_power = (\<lambda>_ st. (Inr (), st)),
      pd_get_other_vdm = (\<lambda>st. (Inr \<lparr>other_vdm_data = replicate 29 0\<rparr>, st)),
      pd_get_attn_vdm = (\<lambda>st. (Inr \<lparr>attn_vdm_data = replicate 9 0\<rparr>, st)),
      pd_get_dp_status = (\<lambda>st. (Inr \<lparr>dp_alt_mode_entered = False,
         dfp_d_pin_cfg = \<lparr>pin_c = False, pin_d = False, pin_e = False\<rparr>\<rparr>, st)),
      pd_set_max_sink_voltage = (\<lambda>_ st. (Inr (), st)), transition_spr_ms = 550, transition_epr_ms = 1020\<rparr>"

definition demo_port_new :: "(nat, nat PortStatus) Port" where
  "demo_port_new = port_new \<lparr>orientation_cc1 = 0, role_dfp = 0, alt_mode_none = 0, power_path_none = 0\<rparr>
     UnconstrainedAuto demo_status"

definition demo_plugged_port :: "(nat, nat PortStatus) Port" where
  "demo_plugged_port = snd (process_port_event demo_pd 0
     (StatusChanged (set_new_power_contract_as_consumer True (set_plug_inserted_or_removed True status_none)))
     demo_port_new)"

definition demo_consuming_port :: "(nat, nat PortStatus) Port" where
  "demo_consuming_port = demo_plugged_port\<lparr>port_psu := (port_psu demo_plugged_port)
     \<lparr>psu_state := ConnectedConsumer \<lparr>consumer_capability = \<lparr>voltage_mv = 5000, current_ma = 3000\<rparr>,
        consumer_flags = consumer_flags_default\<rparr>\<rparr>\<rparr>"

lemma demo_plugged_step: "port_step demo_pd demo_port_new demo_plugged_port"
  unfolding demo_plugged_port_def
  by (rule port_step.port_event) (auto simp: plug_reported_def event_bits status_none_def)

lemma demo_port_run: "(port_step demo_pd)\<^sup>*\<^sup>* demo_port_new demo_plugged_port"
  by (rule r_into_rtranclp) (rule demo_plugged_step)

theorem power_policy_is_informed_witness:
  "policy_view (power_notices demo_plugged_port) = Some True \<and> psu_state (port_psu demo_plugged_port) = Idle"
proof -
  have "psu_state (port_psu demo_plugged_port) = Idle" by code_simp
  then show ?thesis
    using power_policy_is_informed[OF demo_port_run[unfolded demo_port_new_def]] by simp
qed

theorem old_role_ends_first_witness:
  "\<exists>ns. power_notices (snd (process_port_status_changed demo_pd 9 (set_pd_hard_reset True status_none) demo_consuming_port))
     = power_notices demo_consuming_port @ EvDisconnected \<lparr>reason = Some ReasonReset\<rparr> # ns"
proof -
  let ?ev = "set_pd_hard_reset True status_none"
  have "in_power_role (port_psu demo_consuming_port)" by code_simp
  moreover have "\<not> plug_inserted_or_removed ?ev" by code_simp
  moreover have "pd_get_port_status demo_pd (controller_state demo_consuming_port) = (Inr demo_status, demo_status)"
    by code_simp
  moreover have "pd_hard_reset ?ev" by code_simp
  moreover have "process_port_status_changed demo_pd 9 ?ev demo_consuming_port
      = (Inr (projr (fst (process_port_status_changed demo_pd 9 ?ev demo_consuming_port))),
         snd (process_port_status_changed demo_pd 9 ?ev demo_consuming_port))"
    by code_simp
  ultimately show ?thesis
    using old_role_ends_first[of demo_consuming_port ?ev demo_pd demo_status demo_status 9
        "projr (fst (process_port_status_changed demo_pd 9 ?ev demo_consuming_port))"
        "snd (process_port_status_changed demo_pd 9 ?ev demo_consuming_port)"]
    by (auto simp: tear_down_reason_def)
qed

lemma demo_awaits: "awaits_contract demo_pd demo_port_new demo_plugged_port"
proof (rule awaits_contract.contract_reported)
  let ?ev = "set_new_power_contract_as_consumer True (set_plug_inserted_or_removed True status_none)"
  show "pd_get_port_status demo_pd (controller_state demo_port_new) = (Inr demo_status, demo_status)" by code_simp
  show "new_power_contract_as_consumer ?ev" "\<not> sink_ready ?ev" "\<not> pd_hard_reset ?ev"
    "available_sink_contract (cached_status demo_port_new) \<noteq> available_sink_contract demo_status"
    by code_simp+
  show "process_port_status_changed demo_pd 0 ?ev demo_port_new
      = (Inr (projr (fst (process_port_status_changed demo_pd 0 ?ev demo_port_new))), demo_plugged_port)"
    by code_simp
qed

theorem awaited_contract_is_announced_witness:
  "\<exists>d r' p' ns. port_round demo_pd 1100 [DeadlineReached] (typec_receiver_new typec_shared_new) demo_plugged_port
      = (Inr (Some d), [], r', p')
    \<and> power_notices p' = [EvAttached, UpdatedConsumerCapability (offered_consumer UnconstrainedAuto demo_status)] @ ns"
proof -
  have "psu_state (port_psu demo_plugged_port) \<noteq> Detached" by code_simp
  moreover have "pd_get_port_status demo_pd (controller_state demo_plugged_port) = (Inr demo_status, demo_status)"
    by code_simp
  moreover have "power_notices demo_plugged_port = [EvAttached]" by code_simp
  moreover have "unconstrained_sink demo_plugged_port = UnconstrainedAuto" by code_simp
  ultimately show ?thesis
    using awaited_contract_is_announced[OF demo_awaits, of "typec_receiver_new typec_shared_new" demo_status demo_status
        1100 "[]"]
    by (fastforce simp: typec_receiver_new_def)
qed

end
