(* ===== verification/Typec_Ucsi_Props.thy ===== *)
theory Typec_Ucsi_Props
  imports Typec_Service_Props Typec_Port_Props
begin

text \<open>
  How port changes reach the operating system's policy manager: announced by the events, walked through by its
  acknowledgements; and how the unconstrained state reaches the ports.
\<close>

subsection \<open>Announcements\<close>

definition indicators :: "TypecNotice list \<Rightarrow> (u8 \<times> bool) list" where
  "indicators ns = concat (map (\<lambda>n. case n of UcsiChangeIndicator _ i b \<Rightarrow> [(i, b)] | _ \<Rightarrow> []) ns)"

lemma indicators_simps [simp]:
  "indicators [] = []" "indicators (ms @ ns) = indicators ms @ indicators ns"
  "indicators [UcsiChangeIndicator p i b] = [(i, b)]" "indicators [DebugAccessory p c] = []"
  by (simp_all add: indicators_def)

fun announce :: "bool \<Rightarrow> u8 list \<Rightarrow> (u8 \<times> bool) list" where
  "announce b [] = []"
| "announce b (i # is) = (i, b) # announce False is"

lemma announce_append: "announce b (xs @ ys) = announce b xs @ announce (b \<and> xs = []) ys"
  by (induction b xs rule: announce.induct) auto

definition announces :: "('d, 'n, 'm, 'h) TypecService \<Rightarrow> ('d, 'n, 'm, 'h) TypecService \<Rightarrow> bool" where
  "announces s t \<longleftrightarrow> (\<exists>new. pending_ports (ucsi t) = pending_ports (ucsi s) @ new
     \<and> indicators (typec_notices t) = indicators (typec_notices s) @ announce (pending_ports (ucsi s) = []) new)"

lemma announces_refl [simp]: "announces s s"
  by (auto simp: announces_def)

lemma announces_trans:
  assumes "announces s t" and "announces t u"
  shows "announces s u"
proof -
  obtain xs ys where
      "pending_ports (ucsi t) = pending_ports (ucsi s) @ xs" "pending_ports (ucsi u) = pending_ports (ucsi t) @ ys"
      "indicators (typec_notices t) = indicators (typec_notices s) @ announce (pending_ports (ucsi s) = []) xs"
      "indicators (typec_notices u) = indicators (typec_notices t) @ announce (pending_ports (ucsi t) = []) ys"
    using assms unfolding announces_def by blast
  then show ?thesis
    unfolding announces_def by (intro exI[of _ "xs @ ys"]) (simp add: announce_append)
qed

lemma announces_same:
  "pending_ports (ucsi t) = pending_ports (ucsi s) \<Longrightarrow> indicators (typec_notices t) = indicators (typec_notices s)
     \<Longrightarrow> announces s t"
  by (auto simp: announces_def)

lemma pend_announces: "announces s (pend_ucsi_port p i s)"
  by (auto simp: announces_def pend_ucsi_port_def notify_def set_ucsi_def deque_push_back_def Let_def
      split: prod.split bool.split)

lemma on_ports_announces: "announces s (snd (on_ports m s))"
  by (rule announces_same) (auto simp: on_ports_def split: prod.split)

lemma pend_if_connected_announces: "announces s (pend_if_connected ops ip s)"
proof -
  obtain r t where "on_ports (op_get_port_status ops (snd ip)) s = (r, t)" by fastforce
  moreover have "announces s t"
    using on_ports_announces[of s "op_get_port_status ops (snd ip)"] calculation by simp
  ultimately show ?thesis
    by (auto simp: pend_if_connected_def split: sum.split intro: announces_trans pend_announces)
qed

lemma fold_pend_announces: "announces s (fold (pend_if_connected ops) ips s)"
  by (induction ips arbitrary: s) (auto intro: announces_trans pend_if_connected_announces)

lemma set_ucsi_announces: "pending_ports (f (ucsi s)) = pending_ports (ucsi s) \<Longrightarrow> announces s (set_ucsi f s)"
  by (rule announces_same) (simp_all add: set_ucsi_def)

lemma battery_announces:
  "announces s (if b then set_ucsi (\<lambda>u. u\<lparr>valid_battery_charging_capability := g u\<rparr>) s else s)"
  by (simp add: set_ucsi_announces)

lemma handle_ucsi_announces: "announces s (handle_ucsi_port_event uc p i ev st s)"
proof -
  define s1 where "s1 = (if new_power_contract_as_consumer ev \<or> new_power_contract_as_provider ev \<or> sink_ready ev
    then set_ucsi (\<lambda>u. u\<lparr>valid_battery_charging_capability := id_set_insert i (valid_battery_charging_capability u)\<rparr>) s
    else s)"
  define s2 where "s2 = (if \<not> is_connected st
    then set_ucsi (\<lambda>u. u\<lparr>valid_battery_charging_capability := remove1 i (valid_battery_charging_capability u)\<rparr>) s1
    else s1)"
  have "announces s s2"
    unfolding s2_def by (rule announces_trans[OF _ battery_announces]) (simp add: s1_def set_ucsi_announces)
  moreover have "handle_ucsi_port_event uc p i ev st s = s2 \<or> handle_ucsi_port_event uc p i ev st s = pend_ucsi_port p i s2"
    unfolding handle_ucsi_port_event_def Let_def s1_def[symmetric] s2_def[symmetric] by simp
  ultimately show ?thesis
    using announces_trans[OF _ pend_announces] by fastforce
qed

lemma keeps_announces_modify: "(\<And>t. announces t (f t)) \<Longrightarrow> keeps (announces s) (modify f)"
  by (rule keeps_modify) (rule announces_trans)

lemma keeps_announces_on_ports: "keeps (announces s) (on_ports m)"
  by (rule keepsI) (rule announces_trans[OF _ on_ports_announces])

lemma keeps_announces_for_ports: "keeps (announces s) (for_each (\<lambda>p. on_ports (f p)) xs)"
  by (rule keeps_for_each) (rule keeps_announces_on_ports)

lemma for_ports_announces: "announces s (snd (for_each (\<lambda>p. on_ports (f p)) xs s))"
  by (rule keepsD[OF keeps_announces_for_ports announces_refl])

lemma keeps_get_port_index: "keeps P (get_port_index p)"
  by (simp add: keeps_def get_port_index_def split: option.split)

lemma status_event_announces: "keeps (announces s) (process_port_status_event uc p ev st0 st1)"
  unfolding process_port_status_event_def
  by (intro keeps_and_then keeps_get_port_index keeps_announces_modify handle_ucsi_announces)
    (auto intro!: keeps_announces_modify keeps_ok announces_same simp: notify_def)

lemma psu_connection_announces: "keeps (announces s) (psu_connection_changed uc ops b)"
  unfolding psu_connection_changed_def pend_ucsi_connected_ports_def Let_def
  by (rule keeps_announces_modify)
    (auto intro: announces_trans[OF set_ucsi_announces fold_pend_announces] set_ucsi_announces)

lemma event_announces: "announces s (snd (typec_process_event uc ops e s))"
proof (cases e)
  case (TypecPortEvent p d)
  then show ?thesis
    using keepsD[OF status_event_announces announces_refl] by (cases d) simp_all
next
  case (TypecPowerPolicy pe)
  then show ?thesis
    using keepsD[OF psu_connection_announces announces_refl]
    by (cases pe) (simp_all add: process_unconstrained_state_change_def set_unconstrained_all_def for_ports_announces
        split: option.split)
qed

lemma fold_event_announces: "announces s (fold (\<lambda>e t. snd (typec_process_event uc ops e t)) es s)"
  by (induction es arbitrary: s) (auto intro: announces_trans event_announces)

text \<open>Which port numbers an event changes. A status change of a registered port counts unless the enabled notifications
  filter all of its bits; a connected or lost consumer of the power policy counts for each port that is connected when it
  is asked in turn, if the change of the charging status is enabled; nothing else counts.\<close>

definition connected_number :: "('d, 'h) typec_port_ops \<Rightarrow> nat \<times> port_ref \<Rightarrow> 'h \<Rightarrow> u8 list \<times> 'h" where
  "connected_number ops ip h =
     (case op_get_port_status ops (snd ip) h of
        (Inr st, h') \<Rightarrow> (if is_connected st then [word_of_nat (fst ip)] else [], h')
      | (Inl _, h') \<Rightarrow> ([], h'))"

primrec connected_numbers :: "('d, 'h) typec_port_ops \<Rightarrow> (nat \<times> port_ref) list \<Rightarrow> 'h \<Rightarrow> u8 list" where
  "connected_numbers ops [] h = []"
| "connected_numbers ops (ip # ips) h = (case connected_number ops ip h of (is, h') \<Rightarrow> is @ connected_numbers ops ips h')"

definition charging_changes :: "('d, 'n, 'm) ucsi_crate \<Rightarrow> ('d, 'h) typec_port_ops \<Rightarrow> ('d, 'n, 'm, 'h) TypecService \<Rightarrow> u8 list" where
  "charging_changes uc ops s =
     (if ne_battery_charge_change uc (notifications_enabled (ucsi s))
      then connected_numbers ops (enumerate 0 (ports_of s)) (port_states s) else [])"

definition event_changes ::
  "('d, 'n, 'm) ucsi_crate \<Rightarrow> ('d, 'h) typec_port_ops \<Rightarrow> 'd TypecEvent \<Rightarrow> ('d, 'n, 'm, 'h) TypecService \<Rightarrow> u8 list" where
  "event_changes uc ops e s =
     (case e of
        TypecPortEvent p (DataStatusChanged d) \<Rightarrow>
          (case index_from 0 p (ports_of s) of
             Some i \<Rightarrow> if ne_filtered_empty uc (notifications_enabled (ucsi s)) (connector_change_of (changed_event d)) then []
                       else [word_of_nat i]
           | None \<Rightarrow> [])
      | TypecPowerPolicy (ConsumerConnected _ _) \<Rightarrow> charging_changes uc ops s
      | TypecPowerPolicy (ConsumerDisconnected _ _) \<Rightarrow> charging_changes uc ops s
      | _ \<Rightarrow> [])"

primrec all_changes ::
  "('d, 'n, 'm) ucsi_crate \<Rightarrow> ('d, 'h) typec_port_ops \<Rightarrow> 'd TypecEvent list \<Rightarrow> ('d, 'n, 'm, 'h) TypecService \<Rightarrow> u8 list" where
  "all_changes uc ops [] s = []"
| "all_changes uc ops (e # es) s = event_changes uc ops e s @ all_changes uc ops es (snd (typec_process_event uc ops e s))"

text \<open>A number is queued once, while there is room for it.\<close>

definition queue_number :: "u8 \<Rightarrow> u8 list \<Rightarrow> u8 list" where
  "queue_number i q = (if i \<in> set q \<or> length q = 4 then q else q @ [i])"

abbreviation pending_of :: "('d, 'n, 'm, 'h) TypecService \<Rightarrow> u8 list" where
  "pending_of s \<equiv> pending_ports (ucsi s)"

lemma pend_queues:
  "length (pending_of s) \<le> 4 \<Longrightarrow> pending_of (pend_ucsi_port p i s) = queue_number i (pending_of s)"
  "port_states (pend_ucsi_port p i s) = port_states s"
  by (auto simp: pend_ucsi_port_def queue_number_def deque_push_back_def MAX_SUPPORTED_PORTS_def notify_def set_ucsi_def Let_def)

lemma queue_short: "length q \<le> 4 \<Longrightarrow> length (queue_number i q) \<le> 4"
  by (auto simp: queue_number_def)

lemma fold_queue_short: "length q \<le> 4 \<Longrightarrow> length (fold queue_number is q) \<le> 4"
  by (induction "is" arbitrary: q) (simp_all add: queue_short)

lemma pend_if_connected_queues:
  assumes "length (pending_of s) \<le> 4" and "connected_number ops ip (port_states s) = (is, h)"
  shows "pending_of (pend_if_connected ops ip s) = fold queue_number is (pending_of s)"
    and "port_states (pend_if_connected ops ip s) = h"
  using assms
  by (auto simp: connected_number_def pend_if_connected_def on_ports_def pend_queues split: prod.splits sum.splits if_splits)

lemma fold_connected_queues:
  "length (pending_of s) \<le> 4 \<Longrightarrow> pending_of (fold (pend_if_connected ops) ips s)
     = fold queue_number (connected_numbers ops ips (port_states s)) (pending_of s)"
proof (induction ips arbitrary: s)
  case (Cons ip ips)
  obtain "is" h where c: "connected_number ops ip (port_states s) = (is, h)" by fastforce
  note one = pend_if_connected_queues[OF Cons.prems c]
  show ?case
    using Cons.IH[of "pend_if_connected ops ip s"] one c fold_queue_short[OF Cons.prems, of "is"] by simp
qed simp

lemma handle_queues:
  assumes "length (pending_of s) \<le> 4"
  shows "pending_of (handle_ucsi_port_event uc p i ev st s)
    = fold queue_number (if ne_filtered_empty uc (notifications_enabled (ucsi s)) (connector_change_of ev) then [] else [i]) (pending_of s)"
  using assms by (auto simp: handle_ucsi_port_event_def Let_def pend_queues set_ucsi_def)

lemma charging_queues:
  assumes "length (pending_of s) \<le> 4"
  shows "pending_of (snd (psu_connection_changed uc ops b s)) = fold queue_number (charging_changes uc ops s) (pending_of s)"
  using assms fold_connected_queues[of "set_ucsi (\<lambda>u. u\<lparr>psu_connected := b\<rparr>) s" ops "enumerate 0 (ports_of s)"]
  by (simp add: psu_connection_changed_def charging_changes_def pend_ucsi_connected_ports_def Let_def set_ucsi_def)

lemma for_ports_pending: "pending_of (snd (for_each (\<lambda>p. on_ports (f p)) xs s)) = pending_of s"
proof -
  have "keeps (\<lambda>t. pending_of t = pending_of s) (for_each (\<lambda>p. on_ports (f p)) xs)"
    by (rule keeps_for_each) (simp add: keeps_def on_ports_def split: prod.split)
  then show ?thesis by (rule keepsD) simp
qed

lemma event_queues:
  assumes "length (pending_of s) \<le> 4"
  shows "pending_of (snd (typec_process_event uc ops e s)) = fold queue_number (event_changes uc ops e s) (pending_of s)"
proof (cases e)
  case (TypecPortEvent p d)
  then show ?thesis
    using assms
    by (cases d) (auto simp: event_changes_def process_port_status_event_def and_then_def get_port_index_def notify_def
        handle_queues split: option.split)
next
  case (TypecPowerPolicy pe)
  then show ?thesis
    using assms
    by (cases pe) (auto simp: event_changes_def charging_queues process_unconstrained_state_change_def set_unconstrained_all_def
        for_ports_pending split: option.split)
qed

lemma fold_event_queues:
  "length (pending_of s) \<le> 4 \<Longrightarrow> pending_of (fold (\<lambda>e t. snd (typec_process_event uc ops e t)) es s)
     = fold queue_number (all_changes uc ops es s) (pending_of s)"
proof (induction es arbitrary: s)
  case (Cons e es)
  then show ?case using event_queues[OF Cons.prems, of uc ops e] fold_queue_short[OF Cons.prems] by simp
qed simp

text \<open>C32. Whatever events the service handles between two commands, exactly the ports they change are queued behind those
  that are pending, in their order, each once and as long as there is room for four; each newly queued port is announced
  once, in the order of the queue, and the policy manager of the operating system is to be notified only of
  the first, and only if the queue was empty.\<close>

theorem policy_manager_is_notified_once:
  assumes "length (pending_ports (ucsi s)) \<le> 4" and "t = fold (\<lambda>e t. snd (typec_process_event uc ops e t)) es s"
  shows "pending_ports (ucsi t) = fold queue_number (all_changes uc ops es s) (pending_ports (ucsi s))
    \<and> (\<exists>new. pending_ports (ucsi t) = pending_ports (ucsi s) @ new
      \<and> indicators (typec_notices t) = indicators (typec_notices s) @ announce (pending_ports (ucsi s) = []) new)"
  using fold_event_announces[of s uc ops es] fold_event_queues[OF assms(1), of uc ops es] assms(2) by (simp add: announces_def)

subsection \<open>Acknowledgements\<close>

text \<open>The connector numbers in the answers to a number of equal commands.\<close>

primrec ucsi_acks ::
  "('d, 'n, 'm) ucsi_crate \<Rightarrow> ('d, 'h) typec_port_ops \<Rightarrow> ('d, 'n) GlobalCommand \<Rightarrow> nat
     \<Rightarrow> ('d, 'n, 'm, 'h) TypecService \<Rightarrow> (u8 list \<times> ('d, 'n, 'm, 'h) TypecService) option" where
  "ucsi_acks uc ops c 0 s = Some ([], s)"
| "ucsi_acks uc ops c (Suc n) s =
     (case process_ucsi_command uc ops c s of
        None \<Rightarrow> None
      | Some (r, s') \<Rightarrow>
          map_option (\<lambda>(l, t). (cci_connector_change (response_cci r) # l, t)) (ucsi_acks uc ops c n s'))"

lemma ack_step:
  assumes "\<And>m. fst (ppm_consume uc (InCommand c) m) = Inr (Some (AckComplete ack))" and "acks_connector_change ack"
    and "\<forall>i\<in>set q. unat i < length (ports_of s)" and "pending_ports (ucsi s) = j # q"
  shows "\<exists>r t. process_ucsi_command uc ops c s = Some (r, t) \<and> pending_ports (ucsi t) = q \<and> ports_of t = ports_of s
    \<and> (case q of
         [] \<Rightarrow> cci_connector_change (response_cci r) = cci_connector_change (cci_default uc)
           \<and> typec_notices t = typec_notices s
       | i # _ \<Rightarrow> cci_connector_change (response_cci r) = i + 1
           \<and> typec_notices t = typec_notices s @ [UcsiChangeIndicator (ports_of s ! unat i) i False])"
proof -
  obtain m' where "ppm_consume uc (InCommand c) (ppm_machine (ucsi s)) = (Inr (Some (AckComplete ack)), m')"
    using assms(1)[of "ppm_machine (ucsi s)"] by (metis prod.collapse)
  then show ?thesis
    using assms(2-4)
    by (cases q) (simp_all add: process_ucsi_command_def ucsi_loop.simps ucsi_pass_def consume_input_def ack_response_def
        ack_connector_change_def set_ucsi_def lookup_port_def notify_def set_cci_connector_change_def Let_def)
qed

lemma acks_walk:
  assumes "\<And>m. fst (ppm_consume uc (InCommand c) m) = Inr (Some (AckComplete ack))" and "acks_connector_change ack"
    and "\<forall>i\<in>set q. unat i < length (ports_of s)" and "pending_ports (ucsi s) = j # q"
  shows "\<exists>t. ucsi_acks uc ops c (Suc (length q)) s
      = Some (map (\<lambda>i. i + 1) q @ [cci_connector_change (cci_default uc)], t)
    \<and> pending_ports (ucsi t) = [] \<and> indicators (typec_notices t) = indicators (typec_notices s) @ announce False q"
  using assms(3,4)
proof (induction q arbitrary: j s)
  case Nil
  then show ?case using ack_step[OF assms(1,2), of "[]" s j ops] by auto
next
  case (Cons i q)
  obtain r t where step: "process_ucsi_command uc ops c s = Some (r, t)" "pending_ports (ucsi t) = i # q"
      "ports_of t = ports_of s" "cci_connector_change (response_cci r) = i + 1"
      "typec_notices t = typec_notices s @ [UcsiChangeIndicator (ports_of s ! unat i) i False]"
    using ack_step[OF assms(1,2) Cons.prems, of ops] by auto
  obtain t' where "ucsi_acks uc ops c (Suc (length q)) t = Some (map (\<lambda>i. i + 1) q @ [cci_connector_change (cci_default uc)], t')"
      "pending_ports (ucsi t') = []" "indicators (typec_notices t') = indicators (typec_notices t) @ announce False q"
    using Cons.IH[of t i] Cons.prems(1) step(2,3) by auto
  then show ?case
    using step(1,4,5) by (auto simp del: ucsi_acks.simps simp: ucsi_acks.simps(2)[of _ _ _ "Suc (length q)"])
qed

text \<open>Acknowledging connector changes walks through the queue: with as many acknowledgements as ports are
  pending, the answers name the connectors of the second port, the third and so on, each port is announced
  without a notification of its own, and in the end no port is pending.\<close>

theorem acknowledgements_walk_queue:
  assumes "\<And>m. fst (ppm_consume uc (InCommand c) m) = Inr (Some (AckComplete ack))" and "acks_connector_change ack"
    and "port_number_list (ports_of s) (pending_ports (ucsi s))" and "pending_ports (ucsi s) = j # q"
  shows "\<exists>t. ucsi_acks uc ops c (Suc (length q)) s
      = Some (map (\<lambda>i. i + 1) q @ [cci_connector_change (cci_default uc)], t)
    \<and> pending_ports (ucsi t) = [] \<and> indicators (typec_notices t) = indicators (typec_notices s) @ announce False q"
  by (rule acks_walk[OF assms(1,2) _ assms(4)]) (use assms(3,4) in \<open>auto simp: port_number_list_def\<close>)

subsection \<open>Unconstrained power\<close>

lemma for_each_set_unconstrained:
  assumes law: "\<And>p b h h'. op_set_unconstrained_power ops p b h = (Inr (), h') \<Longrightarrow>
      flag p h' = b \<and> (\<forall>q. q \<noteq> p \<longrightarrow> flag q h' = flag q h)"
    and "for_each (\<lambda>p. on_ports (op_set_unconstrained_power ops p (f p))) ps s = (Inr x, s')"
  shows "flag p (port_states s') = (if p \<in> set ps then f p else flag p (port_states s))"
  using assms(2)
proof (induction ps arbitrary: s)
  case (Cons q ps)
  then obtain t where t: "on_ports (op_set_unconstrained_power ops q (f q)) s = (Inr (), t)"
      "for_each (\<lambda>p. on_ports (op_set_unconstrained_power ops p (f p))) ps t = (Inr x, s')"
    by (auto simp: and_then_ok_iff)
  have "flag p (port_states t) = (if p = q then f p else flag p (port_states s))"
    using t(1) law[of q "f q" "port_states s" "port_states t"] by (auto simp: on_ports_def split: prod.splits)
  then show ?case using Cons.IH[OF t(2)] by auto
qed simp

text \<open>After a successful change of the unconstrained state each registered port is set unconstrained exactly
  when the system is unconstrained and does not depend on this very port: the port that alone reports
  unconstrained power is set constrained, as it could no longer supply the system if it became a source.\<close>

theorem unconstrained_state_reaches_ports:
  assumes "\<And>p b h h'. op_set_unconstrained_power ops p b h = (Inr (), h') \<Longrightarrow>
      flag p h' = b \<and> (\<forall>q. q \<noteq> p \<longrightarrow> flag q h' = flag q h)"
    and "process_unconstrained_state_change ops u s = (Inr x, s')" and "p \<in> set (ports_of s)"
  shows "flag p (port_states s') \<longleftrightarrow> unconstrained u \<and>
    (1 < available u \<or> List.find (\<lambda>p. op_reports_unconstrained_power ops p (port_states s)) (ports_of s) \<noteq> Some p)"
proof -
  have reached: "flag p (port_states s') = f p"
    if "for_each (\<lambda>p. on_ports (op_set_unconstrained_power ops p (f p))) (ports_of s) s = (Inr x, s')" for f
    using for_each_set_unconstrained[of ops flag f "ports_of s" s x s' p] assms(1,3) that by simp
  show ?thesis
    using assms(2) reached[of "\<lambda>_. True"] reached[of "\<lambda>_. False"] reached[of "\<lambda>p. p \<noteq> _"]
    by (auto simp: process_unconstrained_state_change_def set_unconstrained_all_def split: if_splits option.splits)
qed

subsection \<open>Concrete runs\<close>

text \<open>A PPM that answers the other PPM commands as acknowledgements and executes the rest in two passes, and
  ports whose state is their unconstrained flag.\<close>

definition demo_cci :: "nat Cci" where
  "demo_cci = \<lparr>cci_connector_change = 0, cci_cmd_complete = False, cci_error = False, cci_ack_command = False,
     cci_busy = False, cci_other = 0\<rparr>"

fun demo_consume :: "(nat, bool) PpmInput \<Rightarrow> unit \<Rightarrow> (unit, (nat, bool) PpmOutput option) result \<times> unit" where
  "demo_consume (InCommand (PpmCommand (OtherPpmCommand _))) m =
     (Inr (Some (AckComplete \<lparr>acks_command_complete = False, acks_connector_change = True\<rparr>)), m)"
| "demo_consume (InCommand c) m = (Inr (Some (ExecuteCommand c)), m)"
| "demo_consume InCommandComplete m = (Inr (Some OpmNotifyCommandComplete), m)"

definition demo_uc :: "(nat, bool, unit) ucsi_crate" where
  "demo_uc =
     \<lparr>ppm_consume = demo_consume, ne_default = False, ne_cmd_complete = (\<lambda>n. n), ne_battery_charge_change = (\<lambda>n. n),
      ne_is_empty = Not, ne_filtered_empty = (\<lambda>n _. \<not> n), cci_default = demo_cci,
      cci_new_error = demo_cci\<lparr>cci_error := True\<rparr>, cci_new_reset_complete = demo_cci\<lparr>cci_other := 1\<rparr>\<rparr>"

definition demo_port_ops :: "(nat, port_ref \<Rightarrow> bool) typec_port_ops" where
  "demo_port_ops =
     \<lparr>op_get_port_status = (\<lambda>_ h. (Inr demo_status, h)),
      op_set_unconstrained_power = (\<lambda>p b h. (Inr (), h(p := b))),
      op_reports_unconstrained_power = (\<lambda>p _. p = 21),
      op_execute_lpm_command = (\<lambda>_ _ _ h. (Inr None, h))\<rparr>"

definition demo_registration :: TypecRegistration where
  "demo_registration = \<lparr>typec_ports = [20, 21, 22], port_data = [Some 0, Some 1, Some 0]\<rparr>"

definition demo_typec :: "(nat, bool, unit, port_ref \<Rightarrow> bool) TypecService" where
  "demo_typec = typec_service_new demo_uc ()
     \<lparr>ucsi_capabilities = \<lparr>num_connectors = 0, other_capabilities = 0\<rparr>, ucsi_port_capabilities = None,
      ucsi_battery_charging_config = thresholds_default\<rparr>
     demo_registration (\<lambda>_. False)"

definition demo_enabled :: "(nat, bool, unit, port_ref \<Rightarrow> bool) TypecService" where
  "demo_enabled = set_ucsi (\<lambda>u. u\<lparr>notifications_enabled := True\<rparr>) demo_typec"

definition demo_pending :: "(nat, bool, unit, port_ref \<Rightarrow> bool) TypecService" where
  "demo_pending = snd (typec_process_event demo_uc demo_port_ops
     (TypecPowerPolicy (ConsumerConnected 7 (consumer_from_capability \<lparr>voltage_mv = 5000, current_ma = 3000\<rparr>)))
     demo_enabled)"

theorem ucsi_port_numbers_are_valid_witness:
  "port_number_list (typec_ports demo_registration) (pending_ports (ucsi (snd (typec_process_event demo_uc demo_port_ops
     (TypecPowerPolicy (ProviderDisconnected 7)) demo_typec))))"
proof -
  have "(typec_step demo_uc demo_port_ops)\<^sup>*\<^sup>* demo_typec
      (snd (typec_process_event demo_uc demo_port_ops (TypecPowerPolicy (ProviderDisconnected 7)) demo_typec))"
    by (rule r_into_rtranclp) (rule typec_step.service_event)
  from this[unfolded demo_typec_def] show ?thesis
    unfolding demo_typec_def by (rule ucsi_port_numbers_are_valid[THEN conjunct1])
qed

theorem ucsi_command_returns_witness:
  "\<exists>r t. process_ucsi_command demo_uc demo_port_ops (PpmCommand (SetNotificationEnable True)) demo_typec = Some (r, t)"
proof -
  have "completes_commands demo_uc" by (simp add: completes_commands_def demo_uc_def)
  from ucsi_command_returns[OF this, of demo_port_ops "PpmCommand (SetNotificationEnable True)" demo_typec]
  show ?thesis by blast
qed

theorem policy_manager_is_notified_once_witness:
  "indicators (typec_notices demo_pending) = [(0, True), (1, False), (2, False)]"
proof -
  have "pending_ports (ucsi demo_pending) = [0, 1, 2] \<and> pending_ports (ucsi demo_enabled) = []
      \<and> indicators (typec_notices demo_enabled) = []" by code_simp
  then show ?thesis
    using policy_manager_is_notified_once[of demo_enabled demo_pending demo_uc demo_port_ops
        "[TypecPowerPolicy (ConsumerConnected 7 (consumer_from_capability \<lparr>voltage_mv = 5000, current_ma = 3000\<rparr>))]"]
    by (auto simp: demo_pending_def)
qed

theorem charging_status_follows_power_witness:
  "charging_level (status_of \<lparr>not_charging_mw = Some 1000, very_slow_mw = None, slow_mw = Some 3000\<rparr> 2000)
     \<le> charging_level (status_of \<lparr>not_charging_mw = Some 1000, very_slow_mw = None, slow_mw = Some 3000\<rparr> 3000)"
proof -
  have "try_new_thresholds (Some 1000) None (Some 3000)
      = Some \<lparr>not_charging_mw = Some 1000, very_slow_mw = None, slow_mw = Some 3000\<rparr>"
    by code_simp
  moreover have "(2000 :: u32) \<le> 3000" by simp
  ultimately show ?thesis using charging_status_follows_power by blast
qed

theorem acknowledgements_walk_queue_witness:
  "\<exists>t. ucsi_acks demo_uc demo_port_ops (PpmCommand (OtherPpmCommand 4)) 3 demo_pending = Some ([2, 3, 0], t)
     \<and> pending_ports (ucsi t) = []"
proof -
  have pend: "pending_ports (ucsi demo_pending) = [0, 1, 2]" by code_simp
  have num: "port_number_list (ports_of demo_pending) (pending_ports (ucsi demo_pending))" by code_simp
  have cci: "cci_connector_change (cci_default demo_uc) = 0" by code_simp
  have ack: "fst (ppm_consume demo_uc (InCommand (PpmCommand (OtherPpmCommand 4))) m)
      = Inr (Some (AckComplete \<lparr>acks_command_complete = False, acks_connector_change = True\<rparr>))" for m
    by (simp add: demo_uc_def)
  show ?thesis
    using acknowledgements_walk_queue[OF ack _ num pend, of demo_port_ops]
    by (auto simp: cci numeral_3_eq_3 simp del: ucsi_acks.simps)
qed

theorem unconstrained_state_reaches_ports_witness:
  "port_states (snd (process_unconstrained_state_change demo_port_ops \<lparr>unconstrained = True, available = 1\<rparr> demo_typec)) 20
   \<and> \<not> port_states (snd (process_unconstrained_state_change demo_port_ops \<lparr>unconstrained = True, available = 1\<rparr> demo_typec)) 21"
proof -
  let ?u = "\<lparr>unconstrained = True, available = 1\<rparr>"
  let ?s = "snd (process_unconstrained_state_change demo_port_ops ?u demo_typec)"
  have law: "h' p = b \<and> (\<forall>q. q \<noteq> p \<longrightarrow> h' q = h q)"
    if "op_set_unconstrained_power demo_port_ops p b h = (Inr (), h')" for p b h h'
    using that by (auto simp: demo_port_ops_def)
  have "fst (process_unconstrained_state_change demo_port_ops ?u demo_typec) = Inr ()" by code_simp
  then have "process_unconstrained_state_change demo_port_ops ?u demo_typec = (Inr (), ?s)" by (metis prod.collapse)
  from unconstrained_state_reaches_ports[of demo_port_ops "\<lambda>p h. h p", OF law this]
  have "p \<in> set (ports_of demo_typec) \<Longrightarrow> port_states ?s p \<longleftrightarrow>
      List.find (\<lambda>p. op_reports_unconstrained_power demo_port_ops p (port_states demo_typec)) (ports_of demo_typec) \<noteq> Some p"
    for p by simp
  moreover have "List.find (\<lambda>p. op_reports_unconstrained_power demo_port_ops p (port_states demo_typec))
      (ports_of demo_typec) = Some 21" by code_simp
  moreover have "ports_of demo_typec = [20, 21, 22]" by code_simp
  ultimately show ?thesis by simp
qed

end
