(* ===== verification/Battery_Data.thy ===== *)
theory Battery_Data
  imports Relay_Bytes Capability
begin

text \<open>
  The data of the battery service: the ACPI structures it answers with and the cache of a fuel gauge with its
  state machine, of \<open>battery-service-interface\<close>. The ACPI and Smart Battery types belong to the crate
  \<open>embedded_batteries_async\<close>: an enumeration and a set of flags is its code here, and which codes there
  are is a parameter.
\<close>

subsection \<open>The types of the ACPI crate\<close>

record acpi_types =
  is_PowerUnit :: "u32 \<Rightarrow> bool"
  is_BatteryTechnology :: "u32 \<Rightarrow> bool"
  is_BatterySwapCapability :: "u32 \<Rightarrow> bool"
  is_PowerSource :: "u32 \<Rightarrow> bool"
  is_ThresholdId :: "u32 \<Rightarrow> bool"
  PowerUnit_MilliWatts :: u32
  PowerUnit_MilliAmps :: u32
  BatteryTechnology_Secondary :: u32
  BatterySwapCapability_NonSwappable :: u32
  PowerSource_Online :: u32
  PowerSource_Offline :: u32
  BatteryState_CHARGING :: u32
  BatteryState_DISCHARGING :: u32
  BatteryState_all :: u32
  PowerSourceState_all :: u32
  PowerThresholdSupport_all :: u32
  BmdStatusFlags_all :: u32
  BmdCapabilityFlags_all :: u32
  StaReturn_all :: u32
  capacity_mode :: "u16 \<Rightarrow> bool"
  with_capacity_mode :: "bool \<Rightarrow> u16 \<Rightarrow> u16"
  BatteryModeFields_default :: u16
  ManufactureDate_default :: u16

text \<open>What the crate promises of its constants: they are members of their enumeration or set of flags.\<close>

definition has_bits :: "u32 \<Rightarrow> u32 \<Rightarrow> bool" where
  "has_bits all w \<longleftrightarrow> w AND NOT all = 0"

definition acpi_constants_valid :: "acpi_types \<Rightarrow> bool" where
  "acpi_constants_valid A \<longleftrightarrow>
     is_PowerUnit A (PowerUnit_MilliWatts A) \<and> is_PowerUnit A (PowerUnit_MilliAmps A)
     \<and> is_BatteryTechnology A (BatteryTechnology_Secondary A)
     \<and> is_BatterySwapCapability A (BatterySwapCapability_NonSwappable A)
     \<and> is_PowerSource A (PowerSource_Online A) \<and> is_PowerSource A (PowerSource_Offline A)
     \<and> has_bits (BatteryState_all A) (BatteryState_CHARGING A)
     \<and> has_bits (BatteryState_all A) (BatteryState_DISCHARGING A)"

text \<open>Structures of the crate. Those with one field are this field.\<close>

record BstReturn =
  bst_battery_state :: u32
  bst_battery_present_rate :: u32
  bst_battery_remaining_capacity :: u32
  bst_battery_present_voltage :: u32

record Bps =
  bps_revision :: u32
  bps_instantaneous_peak_power_level :: u32
  bps_instantaneous_peak_power_period :: u32
  bps_sustainable_peak_power_level :: u32
  bps_sustainable_peak_power_period :: u32

record Bpc =
  bpc_revision :: u32
  bpc_power_threshold_support :: u32
  bpc_max_instantaneous_peak_power_threshold :: u32
  bpc_max_sustainable_peak_power_threshold :: u32

record Bmd =
  bmd_status_flags :: u32
  bmd_capability_flags :: u32
  bmd_recalibrate_count :: u32
  bmd_quick_recalibrate_time :: u32
  bmd_slow_recalibrate_time :: u32

record Bpt =
  bpt_revision :: u32
  bpt_threshold_id :: u32
  bpt_threshold_value :: u32

datatype CapacityModeValue = MilliAmpUnsigned u16 | CentiWattUnsigned u16
datatype CapacityModeSignedValue = MilliAmpSigned u16 | CentiWattSigned u16

subsection \<open>What the service answers with\<close>

definition STD_BIX_MODEL_SIZE :: nat where "STD_BIX_MODEL_SIZE = 8"
definition STD_BIX_SERIAL_SIZE :: nat where "STD_BIX_SERIAL_SIZE = 8"
definition STD_BIX_BATTERY_SIZE :: nat where "STD_BIX_BATTERY_SIZE = 8"
definition STD_BIX_OEM_SIZE :: nat where "STD_BIX_OEM_SIZE = 8"
definition STD_PIF_MODEL_SIZE :: nat where "STD_PIF_MODEL_SIZE = 8"
definition STD_PIF_SERIAL_SIZE :: nat where "STD_PIF_SERIAL_SIZE = 8"
definition STD_PIF_OEM_SIZE :: nat where "STD_PIF_OEM_SIZE = 8"

lemmas string_sizes = STD_BIX_MODEL_SIZE_def STD_BIX_SERIAL_SIZE_def STD_BIX_BATTERY_SIZE_def STD_BIX_OEM_SIZE_def
  STD_PIF_MODEL_SIZE_def STD_PIF_SERIAL_SIZE_def STD_PIF_OEM_SIZE_def

record BixFixedStrings =
  bix_revision :: u32
  bix_power_unit :: u32
  bix_design_capacity :: u32
  bix_last_full_charge_capacity :: u32
  bix_battery_technology :: u32
  bix_design_voltage :: u32
  bix_design_cap_of_warning :: u32
  bix_design_cap_of_low :: u32
  bix_cycle_count :: u32
  bix_measurement_accuracy :: u32
  bix_max_sampling_time :: u32
  bix_min_sampling_time :: u32
  bix_max_averaging_interval :: u32
  bix_min_averaging_interval :: u32
  bix_battery_capacity_granularity_1 :: u32
  bix_battery_capacity_granularity_2 :: u32
  bix_model_number :: "u8 list"
  bix_serial_number :: "u8 list"
  bix_battery_type :: "u8 list"
  bix_oem_info :: "u8 list"
  bix_battery_swapping_capability :: u32

record PifFixedStrings =
  pif_power_source_state :: u32
  pif_max_output_power :: u32
  pif_max_input_power :: u32
  pif_model_number :: "u8 list"
  pif_serial_number :: "u8 list"
  pif_oem_info :: "u8 list"

datatype BatteryError = BatteryUnknownDeviceId | BatteryUnspecifiedFailure

text \<open>\<open>trait BatteryService\<close>: a battery is named by its \<open>DeviceId\<close>, a byte.\<close>

record 'v battery_service =
  svc_battery_charge_time :: "u8 \<Rightarrow> u32 \<Rightarrow> ('v, BatteryError, u32) action"
  svc_battery_info :: "u8 \<Rightarrow> ('v, BatteryError, BixFixedStrings) action"
  svc_set_measurement_averaging_interval :: "u8 \<Rightarrow> u32 \<Rightarrow> ('v, BatteryError, unit) action"
  svc_battery_maintenance_control :: "u8 \<Rightarrow> u32 \<Rightarrow> ('v, BatteryError, unit) action"
  svc_battery_maintenance_data :: "u8 \<Rightarrow> ('v, BatteryError, Bmd) action"
  svc_set_measurement_sampling_time :: "u8 \<Rightarrow> u32 \<Rightarrow> ('v, BatteryError, unit) action"
  svc_battery_power_characteristics :: "u8 \<Rightarrow> ('v, BatteryError, Bpc) action"
  svc_battery_power_state :: "u8 \<Rightarrow> ('v, BatteryError, Bps) action"
  svc_set_battery_power_threshold :: "u8 \<Rightarrow> Bpt \<Rightarrow> ('v, BatteryError, unit) action"
  svc_battery_status :: "u8 \<Rightarrow> ('v, BatteryError, BstReturn) action"
  svc_battery_time_to_empty :: "u8 \<Rightarrow> u32 \<Rightarrow> ('v, BatteryError, u32) action"
  svc_set_battery_trip_point :: "u8 \<Rightarrow> u32 \<Rightarrow> ('v, BatteryError, unit) action"
  svc_is_psu_in_use :: "u8 \<Rightarrow> ('v, BatteryError, u32) action"
  svc_power_source_information :: "u8 \<Rightarrow> ('v, BatteryError, PifFixedStrings) action"
  svc_device_status :: "u8 \<Rightarrow> ('v, BatteryError, u32) action"

subsection \<open>The cache of a fuel gauge\<close>

definition MANUFACTURER_NAME_SIZE :: nat where "MANUFACTURER_NAME_SIZE = 21"
definition DEVICE_NAME_SIZE :: nat where "DEVICE_NAME_SIZE = 21"
definition DEVICE_CHEMISTRY_SIZE :: nat where "DEVICE_CHEMISTRY_SIZE = 5"
definition DEVICE_CHEMISTRY_ID_SIZE :: nat where "DEVICE_CHEMISTRY_ID_SIZE = 2"
definition SERIAL_NUM_SIZE :: nat where "SERIAL_NUM_SIZE = 4"

lemmas cache_sizes = MANUFACTURER_NAME_SIZE_def DEVICE_NAME_SIZE_def DEVICE_CHEMISTRY_SIZE_def
  DEVICE_CHEMISTRY_ID_SIZE_def SERIAL_NUM_SIZE_def

record StaticBatteryMsgs =
  s_manufacturer_name :: "u8 list"
  s_device_name :: "u8 list"
  s_device_chemistry :: "u8 list"
  s_design_capacity :: CapacityModeValue
  s_design_voltage :: u16
  s_device_chemistry_id :: "u8 list"
  s_serial_num :: "u8 list"
  s_battery_mode :: u16
  s_design_cap_warning :: CapacityModeValue
  s_design_cap_low :: CapacityModeValue
  s_measurement_accuracy :: u32
  s_max_sample_time_ms :: u32
  s_min_sample_time_ms :: u32
  s_max_averaging_interval_ms :: u32
  s_min_averaging_interval_ms :: u32
  s_cap_granularity_1 :: CapacityModeValue
  s_cap_granularity_2 :: CapacityModeValue
  s_power_threshold_support :: u32
  s_max_instant_pwr_threshold_mw :: u32
  s_max_sus_pwr_threshold_mw :: u32
  s_bmc_flags :: u32
  s_bmd_capability :: u32
  s_bmd_recalibrate_count :: u32
  s_bmd_quick_recalibrate_time_s :: u32
  s_bmd_slow_recalibrate_time_s :: u32
  s_manufacture_date :: u16
  s_specification_info :: u16
  s_remaining_capacity_alarm :: CapacityModeValue
  s_remaining_time_alarm :: u16

definition static_battery_default :: "acpi_types \<Rightarrow> StaticBatteryMsgs" where
  "static_battery_default A =
     \<lparr>s_manufacturer_name = replicate MANUFACTURER_NAME_SIZE 0, s_device_name = replicate DEVICE_NAME_SIZE 0,
      s_device_chemistry = replicate DEVICE_CHEMISTRY_SIZE 0, s_design_capacity = MilliAmpUnsigned 0,
      s_design_voltage = 0, s_device_chemistry_id = replicate DEVICE_CHEMISTRY_ID_SIZE 0,
      s_serial_num = replicate SERIAL_NUM_SIZE 0, s_battery_mode = BatteryModeFields_default A,
      s_design_cap_warning = MilliAmpUnsigned 0, s_design_cap_low = MilliAmpUnsigned 0,
      s_measurement_accuracy = 0, s_max_sample_time_ms = 0, s_min_sample_time_ms = 0,
      s_max_averaging_interval_ms = 0, s_min_averaging_interval_ms = 0,
      s_cap_granularity_1 = MilliAmpUnsigned 0, s_cap_granularity_2 = MilliAmpUnsigned 0,
      s_power_threshold_support = 0, s_max_instant_pwr_threshold_mw = 0, s_max_sus_pwr_threshold_mw = 0,
      s_bmc_flags = 0, s_bmd_capability = 0, s_bmd_recalibrate_count = 0, s_bmd_quick_recalibrate_time_s = 0,
      s_bmd_slow_recalibrate_time_s = 0, s_manufacture_date = ManufactureDate_default A, s_specification_info = 0,
      s_remaining_capacity_alarm = MilliAmpUnsigned 0, s_remaining_time_alarm = 0\<rparr>"

text \<open>Signed values (\<open>i16\<close>) are words whose reading is the signed one.\<close>

record DynamicBatteryMsgs =
  d_max_power_mw :: u32
  d_sus_power_mw :: u32
  d_turbo_vload :: u16
  d_turbo_rhf_effective_mohm :: u32
  d_full_charge_capacity :: CapacityModeValue
  d_remaining_capacity :: CapacityModeValue
  d_relative_soc :: u8
  d_cycle_count :: u16
  d_voltage :: u16
  d_max_error :: u8
  d_battery_status :: u16
  d_charging_voltage :: u16
  d_charging_current :: u16
  d_battery_temp :: u16
  d_current :: u16
  d_average_current :: u16
  d_bmd_status :: u32
  d_absolute_soc :: u8
  d_at_rate :: CapacityModeSignedValue
  d_at_rate_ok :: bool
  d_at_rate_time_to_full :: u16
  d_at_rate_time_to_empty :: u16
  d_run_time_to_empty :: u16
  d_average_time_to_empty :: u16
  d_average_time_to_full :: u16

definition dynamic_battery_default :: DynamicBatteryMsgs where
  "dynamic_battery_default =
     \<lparr>d_max_power_mw = 0, d_sus_power_mw = 0, d_turbo_vload = 0, d_turbo_rhf_effective_mohm = 0,
      d_full_charge_capacity = MilliAmpUnsigned 0, d_remaining_capacity = MilliAmpUnsigned 0, d_relative_soc = 0,
      d_cycle_count = 0, d_voltage = 0, d_max_error = 0, d_battery_status = 0, d_charging_voltage = 0,
      d_charging_current = 0, d_battery_temp = 0, d_current = 0, d_average_current = 0, d_bmd_status = 0,
      d_absolute_soc = 0, d_at_rate = MilliAmpSigned 0, d_at_rate_ok = False, d_at_rate_time_to_full = 0,
      d_at_rate_time_to_empty = 0, d_run_time_to_empty = 0, d_average_time_to_empty = 0, d_average_time_to_full = 0\<rparr>"

text \<open>An OEM may cache more than the standard data: \<open>trait StaticBatteryData\<close> and \<open>DynamicBatteryData\<close> are the
  functions that read the standard part of a type of the OEM.\<close>

record ('s, 'd) battery_data =
  standard_static :: "'s \<Rightarrow> StaticBatteryMsgs"
  standard_dynamic :: "'d \<Rightarrow> DynamicBatteryMsgs"

definition standard_data :: "(StaticBatteryMsgs, DynamicBatteryMsgs) battery_data" where
  "standard_data = \<lparr>standard_static = (\<lambda>s. s), standard_dynamic = (\<lambda>d. d)\<rparr>"

subsection \<open>The state machine of a fuel gauge\<close>

datatype FuelGaugeError = Timeout | BusError

datatype OperationalSubstate = GaugeInit | GaugePolling
datatype PresentSubstate = NotOperational | Operational OperationalSubstate
datatype GaugeInternalState = NotPresent | Present PresentSubstate

record ('s, 'd) GaugeState =
  gauge_state :: GaugeInternalState
  static_cache :: 's
  dynamic_cache :: 'd

definition gauge_state_default :: "'s \<Rightarrow> 'd \<Rightarrow> ('s, 'd) GaugeState" where
  "gauge_state_default s d = \<lparr>gauge_state = NotPresent, static_cache = s, dynamic_cache = d\<rparr>"

definition is_present :: "('s, 'd) GaugeState \<Rightarrow> bool" where
  "is_present g = (case gauge_state g of Present _ \<Rightarrow> True | NotPresent \<Rightarrow> False)"

definition is_operational :: "('s, 'd) GaugeState \<Rightarrow> bool" where
  "is_operational g = (case gauge_state g of Present (Operational _) \<Rightarrow> True | _ \<Rightarrow> False)"

definition is_polling :: "('s, 'd) GaugeState \<Rightarrow> bool" where
  "is_polling g = (gauge_state g = Present (Operational GaugePolling))"

definition gauge_on_initialized :: "('s, 'd) GaugeState \<Rightarrow> ('s, 'd) GaugeState" where
  "gauge_on_initialized g = g\<lparr>gauge_state := Present (Operational GaugeInit)\<rparr>"

definition on_static_data :: "('s \<Rightarrow> 's) \<Rightarrow> ('s, 'd) GaugeState \<Rightarrow> ('s, 'd) GaugeState" where
  "on_static_data update g =
     (let g = g\<lparr>static_cache := update (static_cache g)\<rparr>
      in if is_operational g then g\<lparr>gauge_state := Present (Operational GaugePolling)\<rparr> else g)"

definition on_dynamic_data :: "('d \<Rightarrow> 'd) \<Rightarrow> ('s, 'd) GaugeState \<Rightarrow> ('s, 'd) GaugeState" where
  "on_dynamic_data update g = g\<lparr>dynamic_cache := update (dynamic_cache g)\<rparr>"

definition gauge_on_timeout :: "('s, 'd) GaugeState \<Rightarrow> ('s, 'd) GaugeState" where
  "gauge_on_timeout g = (if is_present g then g\<lparr>gauge_state := Present NotOperational\<rparr> else g)"

definition gauge_on_recovered :: "('s, 'd) GaugeState \<Rightarrow> ('s, 'd) GaugeState" where
  "gauge_on_recovered g =
     (if gauge_state g = Present NotOperational then g\<lparr>gauge_state := Present (Operational GaugeInit)\<rparr> else g)"

end
