(* ===== verification/Battery_Service.thy ===== *)
theory Battery_Service
  imports Battery_Data
begin

text \<open>
  The battery service, \<open>battery-service/src/acpi.rs\<close>, \<open>lib.rs\<close> and \<open>registration.rs\<close>: ACPI answers computed from
  the cache of the fuel gauge that a request names, and the bring-up and recovery helpers of \<open>mock.rs\<close> over the
  operations that the driver of a fuel gauge supplies.
\<close>

subsection \<open>ACPI answers from the cached data\<close>

record BatteryPsuState =
  psu_connected :: bool
  psu_power_capability :: "PowerCapability option"

definition psu_state_default :: BatteryPsuState where
  "psu_state_default = \<lparr>psu_connected = False, psu_power_capability = None\<rparr>"

fun capacity_raw :: "CapacityModeValue \<Rightarrow> u32" where
  "capacity_raw (MilliAmpUnsigned v) = ucast v"
| "capacity_raw (CentiWattUnsigned v) = ucast v"

definition unsigned_abs :: "u16 \<Rightarrow> u16" where
  "unsigned_abs w = (if sint w < 0 then - w else w)"

definition compute_bst :: "acpi_types \<Rightarrow> ('s, 'd) battery_data \<Rightarrow> 'd \<Rightarrow> BstReturn" where
  "compute_bst A B dynamic =
     (let cache = standard_dynamic B dynamic;
          charging = (if d_battery_status cache AND 0x40 = 0 then BatteryState_CHARGING A else BatteryState_DISCHARGING A)
      in \<lparr>bst_battery_state = charging, bst_battery_present_rate = ucast (unsigned_abs (d_current cache)),
          bst_battery_remaining_capacity = capacity_raw (d_remaining_capacity cache),
          bst_battery_present_voltage = ucast (d_voltage cache)\<rparr>)"

text \<open>\<open>dst.get_mut(..n).ok_or(())?.copy_from_slice(src.get(..n).ok_or(())?)\<close>.\<close>

definition copy_prefix :: "nat \<Rightarrow> u8 list \<Rightarrow> u8 list \<Rightarrow> (unit, u8 list) result" where
  "copy_prefix n src dst = (if n \<le> length dst \<and> n \<le> length src then Inr (take n src @ drop n dst) else Inl ())"

definition compute_bix ::
  "acpi_types \<Rightarrow> ('s, 'd) battery_data \<Rightarrow> 's \<Rightarrow> 'd \<Rightarrow> (unit, BixFixedStrings) result" where
  "compute_bix A B stat dynamic =
     (let s = standard_static B stat; d = standard_dynamic B dynamic;
          bix = \<lparr>bix_revision = 1,
            bix_power_unit = (if capacity_mode A (s_battery_mode s) then PowerUnit_MilliWatts A else PowerUnit_MilliAmps A),
            bix_design_capacity = capacity_raw (s_design_capacity s),
            bix_last_full_charge_capacity = capacity_raw (d_full_charge_capacity d),
            bix_battery_technology = BatteryTechnology_Secondary A,
            bix_design_voltage = ucast (s_design_voltage s),
            bix_design_cap_of_warning = capacity_raw (s_design_cap_warning s),
            bix_design_cap_of_low = capacity_raw (s_design_cap_low s),
            bix_cycle_count = ucast (d_cycle_count d),
            bix_measurement_accuracy = s_measurement_accuracy s,
            bix_max_sampling_time = s_max_sample_time_ms s,
            bix_min_sampling_time = s_min_sample_time_ms s,
            bix_max_averaging_interval = s_max_averaging_interval_ms s,
            bix_min_averaging_interval = s_min_averaging_interval_ms s,
            bix_battery_capacity_granularity_1 = capacity_raw (s_cap_granularity_1 s),
            bix_battery_capacity_granularity_2 = capacity_raw (s_cap_granularity_2 s),
            bix_model_number = replicate STD_BIX_MODEL_SIZE 0,
            bix_serial_number = replicate STD_BIX_SERIAL_SIZE 0,
            bix_battery_type = replicate STD_BIX_BATTERY_SIZE 0,
            bix_oem_info = replicate STD_BIX_OEM_SIZE 0,
            bix_battery_swapping_capability = BatterySwapCapability_NonSwappable A\<rparr>
      in then_read (copy_prefix (min (STD_BIX_MODEL_SIZE - 1) (length (s_device_name s) - 1))
           (s_device_name s) (bix_model_number bix)) (\<lambda>model.
         then_read (copy_prefix (min (STD_BIX_SERIAL_SIZE - 1) (length (s_serial_num s) - 1))
           (s_serial_num s) (bix_serial_number bix)) (\<lambda>serial.
         then_read (copy_prefix (min (STD_BIX_BATTERY_SIZE - 1) (length (s_device_chemistry s) - 1))
           (s_device_chemistry s) (bix_battery_type bix)) (\<lambda>battery.
         then_read (copy_prefix (min (STD_BIX_OEM_SIZE - 1) (length (s_manufacturer_name s) - 1))
           (s_manufacturer_name s) (bix_oem_info bix)) (\<lambda>oem.
         Inr (bix\<lparr>bix_model_number := model, bix_serial_number := serial, bix_battery_type := battery,
           bix_oem_info := oem\<rparr>))))))"

definition compute_bps :: "('s, 'd) battery_data \<Rightarrow> 'd \<Rightarrow> Bps" where
  "compute_bps B dynamic =
     (let d = standard_dynamic B dynamic
      in \<lparr>bps_revision = 1, bps_instantaneous_peak_power_level = d_max_power_mw d,
          bps_instantaneous_peak_power_period = 10, bps_sustainable_peak_power_level = d_sus_power_mw d,
          bps_sustainable_peak_power_period = 10000\<rparr>)"

definition compute_bpc :: "('s, 'd) battery_data \<Rightarrow> 's \<Rightarrow> Bpc" where
  "compute_bpc B stat =
     (let s = standard_static B stat
      in \<lparr>bpc_revision = 1, bpc_power_threshold_support = s_power_threshold_support s,
          bpc_max_instantaneous_peak_power_threshold = s_max_instant_pwr_threshold_mw s,
          bpc_max_sustainable_peak_power_threshold = s_max_sus_pwr_threshold_mw s\<rparr>)"

definition compute_bmd :: "('s, 'd) battery_data \<Rightarrow> 's \<Rightarrow> 'd \<Rightarrow> Bmd" where
  "compute_bmd B stat dynamic =
     (let s = standard_static B stat; d = standard_dynamic B dynamic
      in \<lparr>bmd_status_flags = d_bmd_status d, bmd_capability_flags = s_bmd_capability s,
          bmd_recalibrate_count = s_bmd_recalibrate_count s,
          bmd_quick_recalibrate_time = s_bmd_quick_recalibrate_time_s s,
          bmd_slow_recalibrate_time = s_bmd_slow_recalibrate_time_s s\<rparr>)"

text \<open>The charge level and the discharge rate are echoed.\<close>

definition compute_bct :: "u32 \<Rightarrow> 'd \<Rightarrow> u32" where "compute_bct charge_level_percent d = charge_level_percent"
definition compute_btm :: "u32 \<Rightarrow> 'd \<Rightarrow> u32" where "compute_btm discharge_rate d = discharge_rate"

definition compute_sta :: "acpi_types \<Rightarrow> u32" where "compute_sta A = StaReturn_all A"

definition compute_psr :: "acpi_types \<Rightarrow> BatteryPsuState \<Rightarrow> u32" where
  "compute_psr A p = (if psu_connected p then PowerSource_Online A else PowerSource_Offline A)"

definition compute_pif :: "BatteryPsuState \<Rightarrow> PifFixedStrings" where
  "compute_pif p =
     (let capability = (case psu_power_capability p of Some c \<Rightarrow> c | None \<Rightarrow> \<lparr>voltage_mv = 0, current_ma = 0\<rparr>)
      in \<lparr>pif_power_source_state = 0, pif_max_output_power = max_power_mw capability,
          pif_max_input_power = max_power_mw capability, pif_model_number = replicate STD_PIF_MODEL_SIZE 0,
          pif_serial_number = replicate STD_PIF_SERIAL_SIZE 0, pif_oem_info = replicate STD_PIF_OEM_SIZE 0\<rparr>)"

subsection \<open>The service\<close>

text \<open>What the service uses of the type of the registered fuel gauges.\<close>

record ('g, 's, 'd) fuel_gauge_type =
  data_of :: "('s, 'd) battery_data"
  state_of :: "'g \<Rightarrow> ('s, 'd) GaugeState"

record 'g ArrayRegistration =
  fuel_gauges :: "'g list"

record 'g BatteryService =
  registration :: "'g ArrayRegistration"

definition battery_service_new :: "'g ArrayRegistration \<Rightarrow> 'g BatteryService" where
  "battery_service_new r = \<lparr>registration = r\<rparr>"

definition get_fuel_gauge :: "u8 \<Rightarrow> 'g ArrayRegistration \<Rightarrow> 'g option" where
  "get_fuel_gauge i r = (if unat i < length (fuel_gauges r) then Some (fuel_gauges r ! unat i) else None)"

definition fuel_gauge :: "u8 \<Rightarrow> 'g BatteryService \<Rightarrow> (BatteryError, 'g) result" where
  "fuel_gauge i v = (case get_fuel_gauge i (registration v) of None \<Rightarrow> Inl BatteryUnknownDeviceId | Some g \<Rightarrow> Inr g)"

text \<open>A query that takes the fuel gauge.\<close>

definition gauge_battery_charge_time :: "('g, 's, 'd) fuel_gauge_type \<Rightarrow> u32 \<Rightarrow> 'g \<Rightarrow> (BatteryError, u32) result" where
  "gauge_battery_charge_time G bct g = Inr (compute_bct bct (dynamic_cache (state_of G g)))"

definition gauge_battery_info ::
  "acpi_types \<Rightarrow> ('g, 's, 'd) fuel_gauge_type \<Rightarrow> 'g \<Rightarrow> (BatteryError, BixFixedStrings) result" where
  "gauge_battery_info A G g =
     map_sum (\<lambda>_. BatteryUnspecifiedFailure) (\<lambda>b. b)
       (compute_bix A (data_of G) (static_cache (state_of G g)) (dynamic_cache (state_of G g)))"

text \<open>Settings are logged and otherwise ignored.\<close>

definition gauge_set_averaging_interval :: "u32 \<Rightarrow> 'g \<Rightarrow> (BatteryError, unit) result" where
  "gauge_set_averaging_interval bma g = Inr ()"

definition gauge_battery_maintenance_control :: "u32 \<Rightarrow> 'g \<Rightarrow> (BatteryError, unit) result" where
  "gauge_battery_maintenance_control bmc g = Inr ()"

definition gauge_set_sampling_time :: "u32 \<Rightarrow> 'g \<Rightarrow> (BatteryError, unit) result" where
  "gauge_set_sampling_time bms g = Inr ()"

definition gauge_set_battery_trip_point :: "u32 \<Rightarrow> 'g \<Rightarrow> (BatteryError, unit) result" where
  "gauge_set_battery_trip_point btp g = Inr ()"

definition gauge_battery_maintenance_data :: "('g, 's, 'd) fuel_gauge_type \<Rightarrow> 'g \<Rightarrow> (BatteryError, Bmd) result" where
  "gauge_battery_maintenance_data G g =
     Inr (compute_bmd (data_of G) (static_cache (state_of G g)) (dynamic_cache (state_of G g)))"

definition gauge_battery_power_characteristics :: "('g, 's, 'd) fuel_gauge_type \<Rightarrow> 'g \<Rightarrow> (BatteryError, Bpc) result" where
  "gauge_battery_power_characteristics G g = Inr (compute_bpc (data_of G) (static_cache (state_of G g)))"

definition gauge_battery_power_state :: "('g, 's, 'd) fuel_gauge_type \<Rightarrow> 'g \<Rightarrow> (BatteryError, Bps) result" where
  "gauge_battery_power_state G g = Inr (compute_bps (data_of G) (dynamic_cache (state_of G g)))"

definition gauge_set_battery_power_threshold :: "Bpt \<Rightarrow> 'g \<Rightarrow> (BatteryError, unit) result" where
  "gauge_set_battery_power_threshold bpt g = Inr ()"

definition gauge_battery_status ::
  "acpi_types \<Rightarrow> ('g, 's, 'd) fuel_gauge_type \<Rightarrow> 'g \<Rightarrow> (BatteryError, BstReturn) result" where
  "gauge_battery_status A G g = Inr (compute_bst A (data_of G) (dynamic_cache (state_of G g)))"

definition gauge_battery_time_to_empty :: "('g, 's, 'd) fuel_gauge_type \<Rightarrow> u32 \<Rightarrow> 'g \<Rightarrow> (BatteryError, u32) result" where
  "gauge_battery_time_to_empty G btm g = Inr (compute_btm btm (dynamic_cache (state_of G g)))"

definition gauge_is_psu_in_use :: "acpi_types \<Rightarrow> 'g \<Rightarrow> (BatteryError, u32) result" where
  "gauge_is_psu_in_use A g = Inr (compute_psr A psu_state_default)"

definition gauge_power_source_information :: "'g \<Rightarrow> (BatteryError, PifFixedStrings) result" where
  "gauge_power_source_information g = Inr (compute_pif psu_state_default)"

definition gauge_device_status :: "acpi_types \<Rightarrow> 'g \<Rightarrow> (BatteryError, u32) result" where
  "gauge_device_status A g = Inr (compute_sta A)"

text \<open>\<open>impl BatteryService for Service\<close>: the fuel gauge is looked up and locked, and its cache is only read.\<close>

definition on_gauge :: "u8 \<Rightarrow> ('g \<Rightarrow> (BatteryError, 'a) result) \<Rightarrow> ('g BatteryService, BatteryError, 'a) action" where
  "on_gauge i q v = (then_read (fuel_gauge i v) q, v)"

definition battery_service_impl ::
  "acpi_types \<Rightarrow> ('g, 's, 'd) fuel_gauge_type \<Rightarrow> 'g BatteryService battery_service" where
  "battery_service_impl A G =
     \<lparr>svc_battery_charge_time = (\<lambda>i bct. on_gauge i (gauge_battery_charge_time G bct)),
      svc_battery_info = (\<lambda>i. on_gauge i (gauge_battery_info A G)),
      svc_set_measurement_averaging_interval = (\<lambda>i bma. on_gauge i (gauge_set_averaging_interval bma)),
      svc_battery_maintenance_control = (\<lambda>i bmc. on_gauge i (gauge_battery_maintenance_control bmc)),
      svc_battery_maintenance_data = (\<lambda>i. on_gauge i (gauge_battery_maintenance_data G)),
      svc_set_measurement_sampling_time = (\<lambda>i bms. on_gauge i (gauge_set_sampling_time bms)),
      svc_battery_power_characteristics = (\<lambda>i. on_gauge i (gauge_battery_power_characteristics G)),
      svc_battery_power_state = (\<lambda>i. on_gauge i (gauge_battery_power_state G)),
      svc_set_battery_power_threshold = (\<lambda>i bpt. on_gauge i (gauge_set_battery_power_threshold bpt)),
      svc_battery_status = (\<lambda>i. on_gauge i (gauge_battery_status A G)),
      svc_battery_time_to_empty = (\<lambda>i btm. on_gauge i (gauge_battery_time_to_empty G btm)),
      svc_set_battery_trip_point = (\<lambda>i btp. on_gauge i (gauge_set_battery_trip_point btp)),
      svc_is_psu_in_use = (\<lambda>i. on_gauge i (gauge_is_psu_in_use A)),
      svc_power_source_information = (\<lambda>i. on_gauge i gauge_power_source_information),
      svc_device_status = (\<lambda>i. on_gauge i (gauge_device_status A))\<rparr>"

subsection \<open>Bring-up and recovery\<close>

text \<open>The operations of \<open>trait FuelGauge\<close> that the driver supplies.\<close>

record ('g, 'e) fuel_gauge_driver =
  fg_initialize :: "('g, 'e, unit) action"
  fg_ping :: "('g, 'e, unit) action"
  fg_update_static_data :: "('g, 'e, unit) action"
  fg_update_dynamic_data :: "('g, 'e, unit) action"

definition init_state_machine :: "('g, 'e) fuel_gauge_driver \<Rightarrow> ('g, 'e, unit) action" where
  "init_state_machine D =
     and_then (fg_initialize D) (\<lambda>_. and_then (fg_update_static_data D) (\<lambda>_.
       and_then (fg_update_dynamic_data D) (\<lambda>_. ok ())))"

text \<open>\<open>recover_state_machine\<close>: the loop, with the number of retries left; each backs off for ten seconds.\<close>

function recover_loop :: "('g, 'e) fuel_gauge_driver \<Rightarrow> u32 \<Rightarrow> 'g \<Rightarrow> (unit, unit) result \<times> 'g" where
  "recover_loop D retries g =
     (case fg_ping D g of
        (Inr _, g) \<Rightarrow> (Inr (), g)
      | (Inl _, g) \<Rightarrow>
          let retries = (if retries = 0 then 0 else retries - 1)
          in if retries = 0 then (Inl (), g) else recover_loop D retries g)"
  by pat_completeness auto

lemma retries_decrease: "(x :: u32) \<noteq> 0 \<Longrightarrow> unat (x - 1) < unat x"
  by (simp add: measure_unat)

termination recover_loop
  by (relation "measure (\<lambda>(D, retries, g). unat retries)") (auto split: if_splits dest: retries_decrease)

declare recover_loop.simps [simp del]

definition recover_state_machine :: "('g, 'e) fuel_gauge_driver \<Rightarrow> 'g \<Rightarrow> (unit, unit) result \<times> 'g" where
  "recover_state_machine D g = recover_loop D 5 g"

subsection \<open>Recovery as a bounded search\<close>

text \<open>The reference: at most \<open>n\<close> pings, up to the first that is answered.\<close>

primrec recover_tries :: "('g, 'e) fuel_gauge_driver \<Rightarrow> nat \<Rightarrow> 'g \<Rightarrow> (unit, unit) result \<times> 'g" where
  "recover_tries D 0 g = (Inl (), g)"
| "recover_tries D (Suc n) g = (case fg_ping D g of (Inr _, g) \<Rightarrow> (Inr (), g) | (Inl _, g) \<Rightarrow> recover_tries D n g)"

lemma recover_loop_tries: "unat retries = Suc n \<Longrightarrow> recover_loop D retries g = recover_tries D (Suc n) g"
proof (induction n arbitrary: retries g)
  case 0
  then have "retries = 1" by (simp add: word_unat_eq_iff)
  then show ?case by (subst recover_loop.simps) (simp split: prod.split sum.split)
next
  case (Suc n)
  then have nz: "retries \<noteq> 0" by auto
  then have less: "unat (retries - 1) = Suc n" using Suc.prems by (simp add: unat_minus_one)
  then have "retries - 1 \<noteq> 0" by auto
  with nz show ?case by (subst recover_loop.simps) (simp add: Suc.IH[OF less] split: prod.split sum.split)
qed

lemma recover_state_machine_tries: "recover_state_machine D g = recover_tries D 5 g"
  using recover_loop_tries[of 5 4 D g] by (simp add: recover_state_machine_def)

text \<open>The gauge after \<open>n\<close> pings.\<close>

primrec pinged_gauge :: "('g, 'e) fuel_gauge_driver \<Rightarrow> nat \<Rightarrow> 'g \<Rightarrow> 'g" where
  "pinged_gauge D 0 g = g"
| "pinged_gauge D (Suc n) g = pinged_gauge D n (snd (fg_ping D g))"

definition ping_answered :: "('g, 'e) fuel_gauge_driver \<Rightarrow> 'g \<Rightarrow> nat \<Rightarrow> bool" where
  "ping_answered D g k \<longleftrightarrow> is_ok (fst (fg_ping D (pinged_gauge D k g)))"

lemma ping_answered_Suc: "ping_answered D g (Suc k) = ping_answered D (snd (fg_ping D g)) k"
  by (simp add: ping_answered_def)

lemma recover_tries_outcome:
  "is_ok (fst (recover_tries D n g)) \<longleftrightarrow> (\<exists>k < n. ping_answered D g k)"
proof (induction n arbitrary: g)
  case (Suc n)
  obtain q g1 where ping: "fg_ping D g = (q, g1)" by fastforce
  have split: "(\<exists>k < Suc n. ping_answered D g k) \<longleftrightarrow> ping_answered D g 0 \<or> (\<exists>k < n. ping_answered D g1 k)"
    using ping by (auto simp: less_Suc_eq_0_disj ping_answered_Suc)
  show ?case using ping by (cases q) (simp_all add: split Suc.IH, simp_all add: ping_answered_def)
qed simp

text \<open>No ping follows an answered one, and a failure has made all of them.\<close>

lemma recover_tries_state:
  "snd (recover_tries D n g) =
     pinged_gauge D (if \<exists>k < n. ping_answered D g k then Suc (LEAST k. ping_answered D g k) else n) g"
proof (induction n arbitrary: g)
  case (Suc n)
  obtain q g1 where ping: "fg_ping D g = (q, g1)" by fastforce
  show ?case
  proof (cases q)
    case (Inr u)
    then have "ping_answered D g 0" using ping by (simp add: ping_answered_def)
    then have "(LEAST k. ping_answered D g k) = 0" "\<exists>k < Suc n. ping_answered D g k" by (auto intro: Least_equality)
    then show ?thesis using ping Inr by simp
  next
    case (Inl e)
    then have no: "\<not> ping_answered D g 0" using ping by (simp add: ping_answered_def)
    have least: "(LEAST k. ping_answered D g k) = Suc (LEAST k. ping_answered D g1 k)" if "ping_answered D g1 m" for m
      using Least_Suc[of "ping_answered D g" "Suc m"] no that ping by (simp add: ping_answered_Suc)
    show ?thesis using Suc.IH[of g1] ping Inl no least
      by (auto simp: ping_answered_Suc less_Suc_eq_0_disj split: if_splits)
  qed
qed simp

end
