(* ===== verification/Battery_Relay.thy ===== *)
theory Battery_Relay
  imports Battery_Service
begin

text \<open>
  The battery service over MCTP: \<open>battery-service-relay/src/serialization.rs\<close> and \<open>lib.rs\<close>. The handler serves any
  \<open>BatteryService\<close>, which is a record of its operations.
\<close>

subsection \<open>Messages\<close>

datatype AcpiBatteryRequest =
    GetBixRequest u8
  | GetBstRequest u8
  | GetPsrRequest u8
  | GetPifRequest u8
  | GetBpsRequest u8
  | SetBtpRequest u8 u32
  | SetBptRequest u8 Bpt
  | GetBpcRequest u8
  | SetBmcRequest u8 u32
  | GetBmdRequest u8
  | GetBctRequest u8 u32
  | GetBtmRequest u8 u32
  | SetBmsRequest u8 u32
  | SetBmaRequest u8 u32
  | GetStaRequest u8

datatype AcpiBatteryResponse =
    GetBixResponse BixFixedStrings
  | GetBstResponse BstReturn
  | GetPsrResponse u32
  | GetPifResponse PifFixedStrings
  | GetBpsResponse Bps
  | SetBtpResponse
  | SetBptResponse
  | GetBpcResponse Bpc
  | SetBmcResponse
  | GetBmdResponse Bmd
  | GetBctResponse u32
  | GetBtmResponse u32
  | SetBmsResponse u32
  | SetBmaResponse u32
  | GetStaResponse u32

datatype AcpiBatteryError = AcpiUnknownDeviceId | AcpiUnspecifiedFailure

fun battery_request_cmd :: "AcpiBatteryRequest \<Rightarrow> u16" where
  "battery_request_cmd (GetBixRequest _) = 1"
| "battery_request_cmd (GetBstRequest _) = 2"
| "battery_request_cmd (GetPsrRequest _) = 3"
| "battery_request_cmd (GetPifRequest _) = 4"
| "battery_request_cmd (GetBpsRequest _) = 5"
| "battery_request_cmd (SetBtpRequest _ _) = 6"
| "battery_request_cmd (SetBptRequest _ _) = 7"
| "battery_request_cmd (GetBpcRequest _) = 8"
| "battery_request_cmd (SetBmcRequest _ _) = 9"
| "battery_request_cmd (GetBmdRequest _) = 10"
| "battery_request_cmd (GetBctRequest _ _) = 11"
| "battery_request_cmd (GetBtmRequest _ _) = 12"
| "battery_request_cmd (SetBmsRequest _ _) = 13"
| "battery_request_cmd (SetBmaRequest _ _) = 14"
| "battery_request_cmd (GetStaRequest _) = 15"

fun battery_response_cmd :: "AcpiBatteryResponse \<Rightarrow> u16" where
  "battery_response_cmd (GetBixResponse _) = 1"
| "battery_response_cmd (GetBstResponse _) = 2"
| "battery_response_cmd (GetPsrResponse _) = 3"
| "battery_response_cmd (GetPifResponse _) = 4"
| "battery_response_cmd (GetBpsResponse _) = 5"
| "battery_response_cmd SetBtpResponse = 6"
| "battery_response_cmd SetBptResponse = 7"
| "battery_response_cmd (GetBpcResponse _) = 8"
| "battery_response_cmd SetBmcResponse = 9"
| "battery_response_cmd (GetBmdResponse _) = 10"
| "battery_response_cmd (GetBctResponse _) = 11"
| "battery_response_cmd (GetBtmResponse _) = 12"
| "battery_response_cmd (SetBmsResponse _) = 13"
| "battery_response_cmd (SetBmaResponse _) = 14"
| "battery_response_cmd (GetStaResponse _) = 15"

fun battery_error_code :: "AcpiBatteryError \<Rightarrow> u16" where
  "battery_error_code AcpiUnknownDeviceId = 1"
| "battery_error_code AcpiUnspecifiedFailure = 2"

subsection \<open>Writing\<close>

definition BIX_MODEL_NUM_START_IDX :: nat where "BIX_MODEL_NUM_START_IDX = 64"
definition BIX_SERIAL_NUM_START_IDX :: nat where
  "BIX_SERIAL_NUM_START_IDX = BIX_MODEL_NUM_START_IDX + STD_BIX_MODEL_SIZE"
definition BIX_BATTERY_TYPE_START_IDX :: nat where
  "BIX_BATTERY_TYPE_START_IDX = BIX_SERIAL_NUM_START_IDX + STD_BIX_SERIAL_SIZE"
definition BIX_OEM_INFO_START_IDX :: nat where
  "BIX_OEM_INFO_START_IDX = BIX_BATTERY_TYPE_START_IDX + STD_BIX_BATTERY_SIZE"
definition BIX_OEM_INFO_END_IDX :: nat where "BIX_OEM_INFO_END_IDX = BIX_OEM_INFO_START_IDX + STD_BIX_OEM_SIZE"
definition PIF_MODEL_NUM_START_IDX :: nat where "PIF_MODEL_NUM_START_IDX = 12"
definition PIF_SERIAL_NUM_START_IDX :: nat where
  "PIF_SERIAL_NUM_START_IDX = PIF_MODEL_NUM_START_IDX + STD_PIF_MODEL_SIZE"
definition PIF_OEM_INFO_START_IDX :: nat where
  "PIF_OEM_INFO_START_IDX = PIF_SERIAL_NUM_START_IDX + STD_PIF_SERIAL_SIZE"
definition PIF_OEM_INFO_END_IDX :: nat where "PIF_OEM_INFO_END_IDX = PIF_OEM_INFO_START_IDX + STD_PIF_OEM_SIZE"

lemmas battery_indices = BIX_MODEL_NUM_START_IDX_def BIX_SERIAL_NUM_START_IDX_def BIX_BATTERY_TYPE_START_IDX_def
  BIX_OEM_INFO_START_IDX_def BIX_OEM_INFO_END_IDX_def PIF_MODEL_NUM_START_IDX_def PIF_SERIAL_NUM_START_IDX_def
  PIF_OEM_INFO_START_IDX_def PIF_OEM_INFO_END_IDX_def string_sizes

definition bix_puts :: "BixFixedStrings \<Rightarrow> (nat \<times> u8 list) list" where
  "bix_puts b =
     [(0, to_le_bytes (bix_revision b)), (4, to_le_bytes (bix_power_unit b)), (8, to_le_bytes (bix_design_capacity b)),
      (12, to_le_bytes (bix_last_full_charge_capacity b)), (16, to_le_bytes (bix_battery_technology b)),
      (20, to_le_bytes (bix_design_voltage b)), (24, to_le_bytes (bix_design_cap_of_warning b)),
      (28, to_le_bytes (bix_design_cap_of_low b)), (32, to_le_bytes (bix_cycle_count b)),
      (36, to_le_bytes (bix_measurement_accuracy b)), (40, to_le_bytes (bix_max_sampling_time b)),
      (44, to_le_bytes (bix_min_sampling_time b)), (48, to_le_bytes (bix_max_averaging_interval b)),
      (52, to_le_bytes (bix_min_averaging_interval b)), (56, to_le_bytes (bix_battery_capacity_granularity_1 b)),
      (60, to_le_bytes (bix_battery_capacity_granularity_2 b)), (BIX_MODEL_NUM_START_IDX, bix_model_number b),
      (BIX_SERIAL_NUM_START_IDX, bix_serial_number b), (BIX_BATTERY_TYPE_START_IDX, bix_battery_type b),
      (BIX_OEM_INFO_START_IDX, bix_oem_info b), (BIX_OEM_INFO_END_IDX, to_le_bytes (bix_battery_swapping_capability b))]"

definition bix_to_bytes :: "BixFixedStrings \<Rightarrow> message_writer" where
  "bix_to_bytes b dst = (if length dst < BIX_OEM_INFO_END_IDX + 4 then Inl BufferTooSmall else puts (bix_puts b) dst)"

definition pif_puts :: "PifFixedStrings \<Rightarrow> (nat \<times> u8 list) list" where
  "pif_puts p =
     [(0, to_le_bytes (pif_power_source_state p)), (4, to_le_bytes (pif_max_output_power p)),
      (8, to_le_bytes (pif_max_input_power p)), (PIF_MODEL_NUM_START_IDX, pif_model_number p),
      (PIF_SERIAL_NUM_START_IDX, pif_serial_number p), (PIF_OEM_INFO_START_IDX, pif_oem_info p)]"

definition pif_to_bytes :: "PifFixedStrings \<Rightarrow> message_writer" where
  "pif_to_bytes p dst = (if length dst < PIF_OEM_INFO_END_IDX then Inl BufferTooSmall else puts (pif_puts p) dst)"

text \<open>The bytes each message writes, and at which index.\<close>

fun battery_response_puts :: "AcpiBatteryResponse \<Rightarrow> (nat \<times> u8 list) list" where
  "battery_response_puts (GetBixResponse b) = bix_puts b"
| "battery_response_puts (GetBstResponse b) =
     [(0, to_le_bytes (bst_battery_state b)), (4, to_le_bytes (bst_battery_present_rate b)),
      (8, to_le_bytes (bst_battery_remaining_capacity b)), (12, to_le_bytes (bst_battery_present_voltage b))]"
| "battery_response_puts (GetPsrResponse source) = [(0, to_le_bytes source)]"
| "battery_response_puts (GetPifResponse p) = pif_puts p"
| "battery_response_puts (GetBpsResponse b) =
     [(0, to_le_bytes (bps_revision b)), (4, to_le_bytes (bps_instantaneous_peak_power_level b)),
      (8, to_le_bytes (bps_instantaneous_peak_power_period b)), (12, to_le_bytes (bps_sustainable_peak_power_level b)),
      (16, to_le_bytes (bps_sustainable_peak_power_period b))]"
| "battery_response_puts SetBtpResponse = []"
| "battery_response_puts SetBptResponse = []"
| "battery_response_puts (GetBpcResponse b) =
     [(0, to_le_bytes (bpc_revision b)), (4, to_le_bytes (bpc_power_threshold_support b)),
      (8, to_le_bytes (bpc_max_instantaneous_peak_power_threshold b)),
      (12, to_le_bytes (bpc_max_sustainable_peak_power_threshold b))]"
| "battery_response_puts SetBmcResponse = []"
| "battery_response_puts (GetBmdResponse b) =
     [(0, to_le_bytes (bmd_status_flags b)), (4, to_le_bytes (bmd_capability_flags b)),
      (8, to_le_bytes (bmd_recalibrate_count b)), (12, to_le_bytes (bmd_quick_recalibrate_time b)),
      (16, to_le_bytes (bmd_slow_recalibrate_time b))]"
| "battery_response_puts (GetBctResponse v) = [(0, to_le_bytes v)]"
| "battery_response_puts (GetBtmResponse v) = [(0, to_le_bytes v)]"
| "battery_response_puts (SetBmsResponse status) = [(0, to_le_bytes status)]"
| "battery_response_puts (SetBmaResponse status) = [(0, to_le_bytes status)]"
| "battery_response_puts (GetStaResponse sta) = [(0, to_le_bytes sta)]"

definition battery_response_serialize :: "AcpiBatteryResponse \<Rightarrow> message_writer" where
  "battery_response_serialize m =
     (case m of GetBixResponse b \<Rightarrow> bix_to_bytes b | GetPifResponse p \<Rightarrow> pif_to_bytes p
      | _ \<Rightarrow> puts (battery_response_puts m))"

fun battery_request_puts :: "AcpiBatteryRequest \<Rightarrow> (nat \<times> u8 list) list" where
  "battery_request_puts (GetBixRequest i) = [(0, [i])]"
| "battery_request_puts (GetBstRequest i) = [(0, [i])]"
| "battery_request_puts (GetPsrRequest i) = [(0, [i])]"
| "battery_request_puts (GetPifRequest i) = [(0, [i])]"
| "battery_request_puts (GetBpsRequest i) = [(0, [i])]"
| "battery_request_puts (SetBtpRequest i btp) = [(0, [i]), (1, to_le_bytes btp)]"
| "battery_request_puts (SetBptRequest i bpt) =
     [(0, [i]), (1, to_le_bytes (bpt_revision bpt)), (5, to_le_bytes (bpt_threshold_id bpt)),
      (9, to_le_bytes (bpt_threshold_value bpt))]"
| "battery_request_puts (GetBpcRequest i) = [(0, [i])]"
| "battery_request_puts (SetBmcRequest i bmc) = [(0, [i]), (1, to_le_bytes bmc)]"
| "battery_request_puts (GetBmdRequest i) = [(0, [i])]"
| "battery_request_puts (GetBctRequest i bct) = [(0, [i]), (1, to_le_bytes bct)]"
| "battery_request_puts (GetBtmRequest i btm) = [(0, [i]), (1, to_le_bytes btm)]"
| "battery_request_puts (SetBmsRequest i bms) = [(0, [i]), (1, to_le_bytes bms)]"
| "battery_request_puts (SetBmaRequest i bma) = [(0, [i]), (1, to_le_bytes bma)]"
| "battery_request_puts (GetStaRequest i) = [(0, [i])]"

subsection \<open>Reading\<close>

text \<open>\<open>from_bits(..).ok_or(..)\<close> and \<open>try_into().map_err(..)\<close>: a code is checked against what the crate knows.\<close>

definition get_code :: "(u32 \<Rightarrow> bool) \<Rightarrow> string \<Rightarrow> u8 list \<Rightarrow> nat \<Rightarrow> (MessageSerializationError, u32) result" where
  "get_code known problem b i =
     then_read (get_dword b i) (\<lambda>w. if known w then Inr w else Inl (InvalidPayload problem))"

definition bix_from_bytes :: "acpi_types \<Rightarrow> u8 list \<Rightarrow> (MessageSerializationError, BixFixedStrings) result" where
  "bix_from_bytes A b =
     then_read (get_dword b 0) (\<lambda>revision.
     then_read (get_code (is_PowerUnit A) ''Invalid PowerUnit'' b 4) (\<lambda>power_unit.
     then_read (get_dword b 8) (\<lambda>design_capacity.
     then_read (get_dword b 12) (\<lambda>last_full.
     then_read (get_code (is_BatteryTechnology A) ''Invalid BatteryTechnology'' b 16) (\<lambda>technology.
     then_read (get_dword b 20) (\<lambda>design_voltage.
     then_read (get_dword b 24) (\<lambda>warning.
     then_read (get_dword b 28) (\<lambda>low.
     then_read (get_dword b 32) (\<lambda>cycles.
     then_read (get_dword b 36) (\<lambda>accuracy.
     then_read (get_dword b 40) (\<lambda>max_sampling.
     then_read (get_dword b 44) (\<lambda>min_sampling.
     then_read (get_dword b 48) (\<lambda>max_averaging.
     then_read (get_dword b 52) (\<lambda>min_averaging.
     then_read (get_dword b 56) (\<lambda>granularity_1.
     then_read (get_dword b 60) (\<lambda>granularity_2.
     then_read (get_bytes b BIX_MODEL_NUM_START_IDX STD_BIX_MODEL_SIZE) (\<lambda>model.
     then_read (get_bytes b BIX_SERIAL_NUM_START_IDX STD_BIX_SERIAL_SIZE) (\<lambda>serial.
     then_read (get_bytes b BIX_BATTERY_TYPE_START_IDX STD_BIX_BATTERY_SIZE) (\<lambda>battery_type.
     then_read (get_bytes b BIX_OEM_INFO_START_IDX STD_BIX_OEM_SIZE) (\<lambda>oem.
     then_read (get_code (is_BatterySwapCapability A) ''Invalid BatterySwappingCapability'' b BIX_OEM_INFO_END_IDX) (\<lambda>swap.
     Inr \<lparr>bix_revision = revision, bix_power_unit = power_unit, bix_design_capacity = design_capacity,
       bix_last_full_charge_capacity = last_full, bix_battery_technology = technology,
       bix_design_voltage = design_voltage, bix_design_cap_of_warning = warning, bix_design_cap_of_low = low,
       bix_cycle_count = cycles, bix_measurement_accuracy = accuracy, bix_max_sampling_time = max_sampling,
       bix_min_sampling_time = min_sampling, bix_max_averaging_interval = max_averaging,
       bix_min_averaging_interval = min_averaging, bix_battery_capacity_granularity_1 = granularity_1,
       bix_battery_capacity_granularity_2 = granularity_2, bix_model_number = model, bix_serial_number = serial,
       bix_battery_type = battery_type, bix_oem_info = oem, bix_battery_swapping_capability = swap\<rparr>)))))))))))))))))))))"

definition pif_from_bytes :: "acpi_types \<Rightarrow> u8 list \<Rightarrow> (MessageSerializationError, PifFixedStrings) result" where
  "pif_from_bytes A b =
     then_read (get_code (has_bits (PowerSourceState_all A)) ''Invalid PowerSourceState'' b 0) (\<lambda>state.
     then_read (get_dword b 4) (\<lambda>max_output.
     then_read (get_dword b 8) (\<lambda>max_input.
     then_read (get_bytes b PIF_MODEL_NUM_START_IDX STD_PIF_MODEL_SIZE) (\<lambda>model.
     then_read (get_bytes b PIF_SERIAL_NUM_START_IDX STD_PIF_SERIAL_SIZE) (\<lambda>serial.
     then_read (get_bytes b PIF_OEM_INFO_START_IDX STD_PIF_OEM_SIZE) (\<lambda>oem.
     Inr \<lparr>pif_power_source_state = state, pif_max_output_power = max_output, pif_max_input_power = max_input,
       pif_model_number = model, pif_serial_number = serial, pif_oem_info = oem\<rparr>))))))"

definition battery_response_deserialize ::
  "acpi_types \<Rightarrow> u16 \<Rightarrow> u8 list \<Rightarrow> (MessageSerializationError, AcpiBatteryResponse) result" where
  "battery_response_deserialize A d b =
     (if d = 1 then map_sum (\<lambda>e. e) GetBixResponse (bix_from_bytes A b)
      else if d = 2 then
        then_read (get_code (has_bits (BatteryState_all A)) ''Invalid BatteryState'' b 0) (\<lambda>state.
        then_read (get_dword b 4) (\<lambda>rate. then_read (get_dword b 8) (\<lambda>capacity. then_read (get_dword b 12) (\<lambda>voltage.
        Inr (GetBstResponse \<lparr>bst_battery_state = state, bst_battery_present_rate = rate,
          bst_battery_remaining_capacity = capacity, bst_battery_present_voltage = voltage\<rparr>)))))
      else if d = 3 then map_sum (\<lambda>e. e) GetPsrResponse (get_code (is_PowerSource A) ''Invalid PowerSource'' b 0)
      else if d = 4 then map_sum (\<lambda>e. e) GetPifResponse (pif_from_bytes A b)
      else if d = 5 then
        then_read (get_dword b 0) (\<lambda>revision. then_read (get_dword b 4) (\<lambda>peak. then_read (get_dword b 8) (\<lambda>peak_period.
        then_read (get_dword b 12) (\<lambda>sustainable. then_read (get_dword b 16) (\<lambda>sustainable_period.
        Inr (GetBpsResponse \<lparr>bps_revision = revision, bps_instantaneous_peak_power_level = peak,
          bps_instantaneous_peak_power_period = peak_period, bps_sustainable_peak_power_level = sustainable,
          bps_sustainable_peak_power_period = sustainable_period\<rparr>))))))
      else if d = 6 then Inr SetBtpResponse
      else if d = 7 then Inr SetBptResponse
      else if d = 8 then
        then_read (get_dword b 0) (\<lambda>revision.
        then_read (get_code (has_bits (PowerThresholdSupport_all A)) ''Invalid BpcThresholdSupport'' b 4) (\<lambda>support.
        then_read (get_dword b 8) (\<lambda>peak. then_read (get_dword b 12) (\<lambda>sustainable.
        Inr (GetBpcResponse \<lparr>bpc_revision = revision, bpc_power_threshold_support = support,
          bpc_max_instantaneous_peak_power_threshold = peak, bpc_max_sustainable_peak_power_threshold = sustainable\<rparr>)))))
      else if d = 9 then Inr SetBmcResponse
      else if d = 10 then
        then_read (get_code (has_bits (BmdStatusFlags_all A)) ''Invalid BmdStatusFlags'' b 0) (\<lambda>status.
        then_read (get_code (has_bits (BmdCapabilityFlags_all A)) ''Invalid BmdCapabilityFlags'' b 4) (\<lambda>capability.
        then_read (get_dword b 8) (\<lambda>count. then_read (get_dword b 12) (\<lambda>quick. then_read (get_dword b 16) (\<lambda>slow.
        Inr (GetBmdResponse \<lparr>bmd_status_flags = status, bmd_capability_flags = capability, bmd_recalibrate_count = count,
          bmd_quick_recalibrate_time = quick, bmd_slow_recalibrate_time = slow\<rparr>))))))
      else if d = 11 then map_sum (\<lambda>e. e) GetBctResponse (get_dword b 0)
      else if d = 12 then map_sum (\<lambda>e. e) GetBtmResponse (get_dword b 0)
      else if d = 13 then map_sum (\<lambda>e. e) SetBmsResponse (get_dword b 0)
      else if d = 14 then map_sum (\<lambda>e. e) SetBmaResponse (get_dword b 0)
      else if d = 15 then map_sum (\<lambda>e. e) GetStaResponse (get_code (has_bits (StaReturn_all A)) ''Invalid STA flags'' b 0)
      else Inl (UnknownMessageDiscriminant d))"

text \<open>The battery of a request, then one of its arguments.\<close>

definition get_battery :: "u8 list \<Rightarrow> (u8 \<Rightarrow> AcpiBatteryRequest) \<Rightarrow> (MessageSerializationError, AcpiBatteryRequest) result" where
  "get_battery b request = map_sum (\<lambda>e. e) request (get_u8 b 0)"

definition get_battery_dword ::
  "u8 list \<Rightarrow> (u8 \<Rightarrow> u32 \<Rightarrow> AcpiBatteryRequest) \<Rightarrow> (MessageSerializationError, AcpiBatteryRequest) result" where
  "get_battery_dword b request = then_read (get_u8 b 0) (\<lambda>i. map_sum (\<lambda>e. e) (request i) (get_dword b 1))"

definition battery_request_deserialize ::
  "acpi_types \<Rightarrow> u16 \<Rightarrow> u8 list \<Rightarrow> (MessageSerializationError, AcpiBatteryRequest) result" where
  "battery_request_deserialize A d b =
     (if d = 1 then get_battery b GetBixRequest
      else if d = 2 then get_battery b GetBstRequest
      else if d = 3 then get_battery b GetPsrRequest
      else if d = 4 then get_battery b GetPifRequest
      else if d = 5 then get_battery b GetBpsRequest
      else if d = 6 then get_battery_dword b SetBtpRequest
      else if d = 7 then
        then_read (get_u8 b 0) (\<lambda>i. then_read (get_dword b 1) (\<lambda>revision.
        then_read (get_code (is_ThresholdId A) ''Invalid ThresholdId'' b 5) (\<lambda>threshold. then_read (get_dword b 9) (\<lambda>v.
        Inr (SetBptRequest i \<lparr>bpt_revision = revision, bpt_threshold_id = threshold, bpt_threshold_value = v\<rparr>)))))
      else if d = 8 then get_battery b GetBpcRequest
      else if d = 9 then get_battery_dword b SetBmcRequest
      else if d = 10 then get_battery b GetBmdRequest
      else if d = 11 then get_battery_dword b GetBctRequest
      else if d = 12 then get_battery_dword b GetBtmRequest
      else if d = 13 then get_battery_dword b SetBmsRequest
      else if d = 14 then get_battery_dword b SetBmaRequest
      else if d = 15 then get_battery b GetStaRequest
      else Inl (UnknownMessageDiscriminant d))"

definition battery_error_deserialize :: "u16 \<Rightarrow> u8 list \<Rightarrow> (MessageSerializationError, AcpiBatteryError) result" where
  "battery_error_deserialize d b =
     (if d = 1 then Inr AcpiUnknownDeviceId else if d = 2 then Inr AcpiUnspecifiedFailure
      else Inl (UnknownMessageDiscriminant d))"

definition battery_request :: "acpi_types \<Rightarrow> AcpiBatteryRequest serializable" where
  "battery_request A = \<lparr>sm_serialize = (\<lambda>m. puts (battery_request_puts m)), sm_discriminant = battery_request_cmd,
     sm_deserialize = battery_request_deserialize A\<rparr>"

definition battery_response :: "acpi_types \<Rightarrow> AcpiBatteryResponse serializable" where
  "battery_response A = \<lparr>sm_serialize = battery_response_serialize, sm_discriminant = battery_response_cmd,
     sm_deserialize = battery_response_deserialize A\<rparr>"

definition battery_error :: "AcpiBatteryError serializable" where
  "battery_error = \<lparr>sm_serialize = (\<lambda>_ buffer. Inr (0, buffer)), sm_discriminant = battery_error_code,
     sm_deserialize = battery_error_deserialize\<rparr>"

subsection \<open>The handler\<close>

fun acpi_error_from :: "BatteryError \<Rightarrow> AcpiBatteryError" where
  "acpi_error_from BatteryUnknownDeviceId = AcpiUnknownDeviceId"
| "acpi_error_from BatteryUnspecifiedFailure = AcpiUnspecifiedFailure"

text \<open>\<open>service.call(..).await?\<close>, and the response made of what it returns.\<close>

definition relay_call :: "('v, BatteryError, 'a) action \<Rightarrow> ('a \<Rightarrow> AcpiBatteryResponse)
    \<Rightarrow> ('v, AcpiBatteryError, AcpiBatteryResponse) action" where
  "relay_call m response v = (case m v of (r, v) \<Rightarrow> (map_sum acpi_error_from response r, v))"

fun battery_process_request ::
  "'v battery_service \<Rightarrow> AcpiBatteryRequest \<Rightarrow> ('v, AcpiBatteryError, AcpiBatteryResponse) action" where
  "battery_process_request S (GetBixRequest i) = relay_call (svc_battery_info S i) GetBixResponse"
| "battery_process_request S (GetBstRequest i) = relay_call (svc_battery_status S i) GetBstResponse"
| "battery_process_request S (GetPsrRequest i) = relay_call (svc_is_psu_in_use S i) GetPsrResponse"
| "battery_process_request S (GetPifRequest i) = relay_call (svc_power_source_information S i) GetPifResponse"
| "battery_process_request S (GetBpsRequest i) = relay_call (svc_battery_power_state S i) GetBpsResponse"
| "battery_process_request S (SetBtpRequest i btp) = relay_call (svc_set_battery_trip_point S i btp) (\<lambda>_. SetBtpResponse)"
| "battery_process_request S (SetBptRequest i bpt) =
     relay_call (svc_set_battery_power_threshold S i bpt) (\<lambda>_. SetBptResponse)"
| "battery_process_request S (GetBpcRequest i) = relay_call (svc_battery_power_characteristics S i) GetBpcResponse"
| "battery_process_request S (SetBmcRequest i bmc) =
     relay_call (svc_battery_maintenance_control S i bmc) (\<lambda>_. SetBmcResponse)"
| "battery_process_request S (GetBmdRequest i) = relay_call (svc_battery_maintenance_data S i) GetBmdResponse"
| "battery_process_request S (GetBctRequest i bct) = relay_call (svc_battery_charge_time S i bct) GetBctResponse"
| "battery_process_request S (GetBtmRequest i btm) = relay_call (svc_battery_time_to_empty S i btm) GetBtmResponse"
| "battery_process_request S (SetBmsRequest i bms) =
     relay_call (svc_set_measurement_sampling_time S i bms) (\<lambda>_. SetBmsResponse 0)"
| "battery_process_request S (SetBmaRequest i bma) =
     relay_call (svc_set_measurement_averaging_interval S i bma) (\<lambda>_. SetBmaResponse 0)"
| "battery_process_request S (GetStaRequest i) = relay_call (svc_device_status S i) GetStaResponse"

subsection \<open>The contract of the message types\<close>

text \<open>A message fits if its codes are known to the crate and its strings have their lengths.\<close>

definition bix_fits :: "acpi_types \<Rightarrow> BixFixedStrings \<Rightarrow> bool" where
  "bix_fits A b \<longleftrightarrow> is_PowerUnit A (bix_power_unit b) \<and> is_BatteryTechnology A (bix_battery_technology b)
     \<and> is_BatterySwapCapability A (bix_battery_swapping_capability b) \<and> length (bix_model_number b) = 8
     \<and> length (bix_serial_number b) = 8 \<and> length (bix_battery_type b) = 8 \<and> length (bix_oem_info b) = 8"

definition pif_fits :: "acpi_types \<Rightarrow> PifFixedStrings \<Rightarrow> bool" where
  "pif_fits A p \<longleftrightarrow> has_bits (PowerSourceState_all A) (pif_power_source_state p) \<and> length (pif_model_number p) = 8
     \<and> length (pif_serial_number p) = 8 \<and> length (pif_oem_info p) = 8"

fun battery_response_fits :: "acpi_types \<Rightarrow> AcpiBatteryResponse \<Rightarrow> bool" where
  "battery_response_fits A (GetBixResponse b) \<longleftrightarrow> bix_fits A b"
| "battery_response_fits A (GetBstResponse b) \<longleftrightarrow> has_bits (BatteryState_all A) (bst_battery_state b)"
| "battery_response_fits A (GetPsrResponse source) \<longleftrightarrow> is_PowerSource A source"
| "battery_response_fits A (GetPifResponse p) \<longleftrightarrow> pif_fits A p"
| "battery_response_fits A (GetBpcResponse b) \<longleftrightarrow> has_bits (PowerThresholdSupport_all A) (bpc_power_threshold_support b)"
| "battery_response_fits A (GetBmdResponse b) \<longleftrightarrow> has_bits (BmdStatusFlags_all A) (bmd_status_flags b)
     \<and> has_bits (BmdCapabilityFlags_all A) (bmd_capability_flags b)"
| "battery_response_fits A (GetStaResponse sta) \<longleftrightarrow> has_bits (StaReturn_all A) sta"
| "battery_response_fits A _ \<longleftrightarrow> True"

fun battery_request_fits :: "acpi_types \<Rightarrow> AcpiBatteryRequest \<Rightarrow> bool" where
  "battery_request_fits A (SetBptRequest _ bpt) \<longleftrightarrow> is_ThresholdId A (bpt_threshold_id bpt)"
| "battery_request_fits A _ \<longleftrightarrow> True"

lemmas byte_gets = get_u8_def get_dword_def get_bytes_def

lemma get_code_known: "get_dword b i = Inr w \<Longrightarrow> known w \<Longrightarrow> get_code known problem b i = Inr w"
  by (simp add: get_code_def)

lemma bix_adjacent: "bix_fits A b \<Longrightarrow> adjacent 0 (bix_puts b)"
  by (simp add: bix_fits_def bix_puts_def battery_indices)

lemma pif_adjacent: "pif_fits A p \<Longrightarrow> adjacent 0 (pif_puts p)"
  by (simp add: pif_fits_def pif_puts_def battery_indices)

lemma length_bix: "bix_fits A b \<Longrightarrow> length (content (bix_puts b)) = 100"
  by (simp add: bix_fits_def bix_puts_def)

lemma length_pif: "pif_fits A p \<Longrightarrow> length (content (pif_puts p)) = 36"
  by (simp add: pif_fits_def pif_puts_def)

lemma bix_read: "bix_fits A b \<Longrightarrow> bix_from_bytes A (content (bix_puts b)) = Inr b"
  by (simp add: bix_fits_def bix_puts_def bix_from_bytes_def get_code_def byte_gets battery_indices)

lemma pif_read: "pif_fits A p \<Longrightarrow> pif_from_bytes A (content (pif_puts p)) = Inr p"
  by (simp add: pif_fits_def pif_puts_def pif_from_bytes_def get_code_def byte_gets battery_indices)

interpretation battery_request:
  serializable_message "battery_request A" "battery_request_fits A" "\<lambda>m. content (battery_request_puts m)" for A
proof
  fix m :: AcpiBatteryRequest and buffer :: "u8 list"
  assume fits: "battery_request_fits A m"
  have "adjacent 0 (battery_request_puts m)" by (cases m) simp_all
  then show "length (content (battery_request_puts m)) \<le> length buffer \<Longrightarrow>
      sm_serialize (battery_request A) m buffer = Inr (length (content (battery_request_puts m)),
        content (battery_request_puts m) @ drop (length (content (battery_request_puts m))) buffer)"
    using puts_content by (simp add: battery_request_def)
  show "sm_deserialize (battery_request A) (sm_discriminant (battery_request A) m) (content (battery_request_puts m)) = Inr m"
    using fits
    by (cases m) (simp_all add: battery_request_def battery_request_deserialize_def get_battery_def
        get_battery_dword_def get_code_def byte_gets)
  show "sm_discriminant (battery_request A) m AND 0x7FFF = sm_discriminant (battery_request A) m"
    by (cases m) (simp_all add: battery_request_def)
qed

lemma battery_response_written:
  assumes "battery_response_fits A m" and "length (content (battery_response_puts m)) \<le> length buffer"
  shows "battery_response_serialize m buffer = puts (battery_response_puts m) buffer"
  using assms
  by (cases m) (simp_all add: battery_response_serialize_def bix_to_bytes_def pif_to_bytes_def length_bix length_pif
      battery_indices)

interpretation battery_response:
  serializable_message "battery_response A" "battery_response_fits A" "\<lambda>m. content (battery_response_puts m)" for A
proof
  fix m :: AcpiBatteryResponse and buffer :: "u8 list"
  assume fits: "battery_response_fits A m"
  then have "adjacent 0 (battery_response_puts m)" by (cases m) (simp_all add: bix_adjacent pif_adjacent)
  then show "length (content (battery_response_puts m)) \<le> length buffer \<Longrightarrow>
      sm_serialize (battery_response A) m buffer = Inr (length (content (battery_response_puts m)),
        content (battery_response_puts m) @ drop (length (content (battery_response_puts m))) buffer)"
    using puts_content battery_response_written[OF fits] by (simp add: battery_response_def)
  show "sm_deserialize (battery_response A) (sm_discriminant (battery_response A) m)
      (content (battery_response_puts m)) = Inr m"
    using fits
    by (cases m) (simp_all add: battery_response_def battery_response_deserialize_def bix_read pif_read
        get_code_def byte_gets)
  show "sm_discriminant (battery_response A) m AND 0x7FFF = sm_discriminant (battery_response A) m"
    by (cases m) (simp_all add: battery_response_def)
qed

interpretation battery_error: serializable_message battery_error "\<lambda>_. True" "\<lambda>_. []"
proof
  fix m :: AcpiBatteryError
  show "sm_deserialize battery_error (sm_discriminant battery_error m) [] = Inr m"
    by (cases m) (simp_all add: battery_error_def battery_error_deserialize_def)
  show "sm_discriminant battery_error m AND 0x7FFF = sm_discriminant battery_error m"
    by (cases m) (simp_all add: battery_error_def)
qed (simp add: battery_error_def)

end
