(* ===== verification/Battery_Mock.thy ===== *)
theory Battery_Mock
  imports Battery_Service
begin

text \<open>
  The mock fuel gauge of \<open>battery-service/src/mock.rs\<close>, whose battery is its own cache, and the contract of a
  driver that the comments of \<open>trait FuelGauge\<close> state: which transition of its state each operation makes.
\<close>

subsection \<open>The mock\<close>

type_synonym MockFuelGauge = "(StaticBatteryMsgs, DynamicBatteryMsgs) GaugeState"

text \<open>Values of the crate that the mock names: flags, and bit fields built with setters.\<close>

record mock_types =
  INSTANTANEOUS :: u32
  SUSTAINABLE :: u32
  AML_CALIBRATION_SUPPORTED :: u32
  CHARGER_DISABLE_SUPPORTED :: u32
  BatteryModeFields_new :: u16
  date_2025_10_16 :: u16
  specification_1_1 :: u16
  status_initialized_discharging :: u16

definition padded :: "nat \<Rightarrow> u8 list \<Rightarrow> u8 list" where
  "padded n bytes = take n bytes @ replicate (n - length bytes) 0"

definition mock_power_mw :: "u16 \<Rightarrow> u32 \<Rightarrow> u32" where
  "mock_power_mw design_voltage drawn_ma = drawn_ma * ucast design_voltage div 1000"

definition with_series_cells :: "acpi_types \<Rightarrow> mock_types \<Rightarrow> u16 \<Rightarrow> u8 list \<Rightarrow> MockFuelGauge" where
  "with_series_cells A T cells device_name =
     (let design_voltage = cells * 3700; full_charge_voltage = cells * 4200; terminal_voltage = cells * 3950;
          cutoff_voltage = cells * 3000; power_mw = mock_power_mw design_voltage
      in \<lparr>gauge_state = NotPresent,
          static_cache =
            \<lparr>s_manufacturer_name =
               padded MANUFACTURER_NAME_SIZE [0x4F, 0x44, 0x50, 0x20, 0x42, 0x61, 0x74, 0x74, 0x65, 0x72, 0x69, 0x65, 0x73],
             s_device_name = device_name, s_device_chemistry = padded DEVICE_CHEMISTRY_SIZE [0x4C, 0x49, 0x4F, 0x4E],
             s_design_capacity = MilliAmpUnsigned 3000, s_design_voltage = design_voltage,
             s_device_chemistry_id = [0x4C, 0x49], s_serial_num = [0x34, 0x12, 0x00, 0x00],
             s_battery_mode = with_capacity_mode A False (BatteryModeFields_new T),
             s_design_cap_warning = MilliAmpUnsigned 300, s_design_cap_low = MilliAmpUnsigned 150,
             s_measurement_accuracy = 99000, s_max_sample_time_ms = 1000, s_min_sample_time_ms = 31,
             s_max_averaging_interval_ms = 4250, s_min_averaging_interval_ms = 25,
             s_cap_granularity_1 = MilliAmpUnsigned 10, s_cap_granularity_2 = MilliAmpUnsigned 10,
             s_power_threshold_support = INSTANTANEOUS T OR SUSTAINABLE T,
             s_max_instant_pwr_threshold_mw = power_mw 5400, s_max_sus_pwr_threshold_mw = power_mw 3150,
             s_bmc_flags = 0, s_bmd_capability = AML_CALIBRATION_SUPPORTED T OR CHARGER_DISABLE_SUPPORTED T,
             s_bmd_recalibrate_count = 2, s_bmd_quick_recalibrate_time_s = 120, s_bmd_slow_recalibrate_time_s = 600,
             s_manufacture_date = date_2025_10_16 T, s_specification_info = specification_1_1 T,
             s_remaining_capacity_alarm = MilliAmpUnsigned 300, s_remaining_time_alarm = 10\<rparr>,
          dynamic_cache =
            \<lparr>d_max_power_mw = power_mw 4500, d_sus_power_mw = power_mw 2700, d_turbo_vload = cutoff_voltage,
             d_turbo_rhf_effective_mohm = 150, d_full_charge_capacity = MilliAmpUnsigned 2880,
             d_remaining_capacity = MilliAmpUnsigned 2304, d_relative_soc = 80, d_cycle_count = 150,
             d_voltage = terminal_voltage, d_max_error = 1, d_battery_status = status_initialized_discharging T,
             d_charging_voltage = full_charge_voltage, d_charging_current = 1500, d_battery_temp = 3031,
             d_current = - 1500, d_average_current = - 1450, d_bmd_status = 0, d_absolute_soc = 77,
             d_at_rate = MilliAmpSigned (- 1500), d_at_rate_ok = True, d_at_rate_time_to_full = 65535,
             d_at_rate_time_to_empty = 86, d_run_time_to_empty = 86, d_average_time_to_empty = 88,
             d_average_time_to_full = 65535\<rparr>\<rparr>)"

definition mock_new :: "acpi_types \<Rightarrow> mock_types \<Rightarrow> MockFuelGauge" where
  "mock_new A T = with_series_cells A T 3
     (padded DEVICE_NAME_SIZE [0x4F, 0x44, 0x50, 0x2D, 0x33, 0x53, 0x2D, 0x33, 0x30, 0x30, 0x30])"

definition mock_new_2s :: "acpi_types \<Rightarrow> mock_types \<Rightarrow> MockFuelGauge" where
  "mock_new_2s A T = with_series_cells A T 2
     (padded DEVICE_NAME_SIZE [0x4F, 0x44, 0x50, 0x2D, 0x32, 0x53, 0x2D, 0x33, 0x30, 0x30, 0x30])"

definition mock_new_4s :: "acpi_types \<Rightarrow> mock_types \<Rightarrow> MockFuelGauge" where
  "mock_new_4s A T = with_series_cells A T 4
     (padded DEVICE_NAME_SIZE [0x4F, 0x44, 0x50, 0x2D, 0x34, 0x53, 0x2D, 0x33, 0x30, 0x30, 0x30])"

datatype MockBatteryError = MockBatteryError

definition fuel_gauge_error_from_mock :: "MockBatteryError \<Rightarrow> FuelGaugeError" where
  "fuel_gauge_error_from_mock e = BusError"

text \<open>Reading a string of the cache into a buffer: as much as fits.\<close>

definition read_into :: "u8 list \<Rightarrow> u8 list \<Rightarrow> u8 list" where
  "read_into bytes buffer = (let n = min (length bytes) (length buffer) in take n bytes @ drop n buffer)"

definition set_battery_mode :: "u16 \<Rightarrow> (MockFuelGauge, MockBatteryError, unit) action" where
  "set_battery_mode flags = modify (\<lambda>g. g\<lparr>static_cache := (static_cache g)\<lparr>s_battery_mode := flags\<rparr>\<rparr>)"

definition set_capacity_bit :: "acpi_types \<Rightarrow> bool \<Rightarrow> (MockFuelGauge, MockBatteryError, unit) action" where
  "set_capacity_bit A mwh g =
     and_then (set_battery_mode (with_capacity_mode A mwh (s_battery_mode (static_cache g)))) (\<lambda>_. ok ()) g"

definition mock_initialize :: "acpi_types \<Rightarrow> (MockFuelGauge, MockBatteryError, unit) action" where
  "mock_initialize A = and_then (set_capacity_bit A False) (\<lambda>_. modify gauge_on_initialized)"

text \<open>The ping reads the charging voltage, which the mock always has.\<close>

definition mock_ping :: "(MockFuelGauge, MockBatteryError, unit) action" where
  "mock_ping = and_then (\<lambda>g. (Inr (d_charging_voltage (dynamic_cache g)), g)) (\<lambda>_. modify gauge_on_recovered)"

definition mock_update_dynamic_data :: "(MockFuelGauge, MockBatteryError, unit) action" where
  "mock_update_dynamic_data g =
     (let r = dynamic_cache g
      in modify (on_dynamic_data (\<lambda>d. d\<lparr>
           d_average_current := d_average_current r, d_battery_status := d_battery_status r, d_max_power_mw := 100,
           d_battery_temp := d_battery_temp r, d_sus_power_mw := 42, d_charging_current := d_charging_current r,
           d_charging_voltage := d_charging_voltage r, d_voltage := d_voltage r, d_current := d_current r,
           d_full_charge_capacity := d_full_charge_capacity r, d_remaining_capacity := d_remaining_capacity r,
           d_relative_soc := d_relative_soc r, d_cycle_count := d_cycle_count r, d_max_error := d_max_error r,
           d_bmd_status := 0, d_turbo_vload := 0, d_turbo_rhf_effective_mohm := 0,
           d_absolute_soc := d_absolute_soc r, d_at_rate := d_at_rate r, d_at_rate_ok := d_at_rate_ok r,
           d_at_rate_time_to_full := d_at_rate_time_to_full r, d_at_rate_time_to_empty := d_at_rate_time_to_empty r,
           d_run_time_to_empty := d_run_time_to_empty r, d_average_time_to_empty := d_average_time_to_empty r,
           d_average_time_to_full := d_average_time_to_full r\<rparr>)) g)"

definition mock_update_static_data :: "(MockFuelGauge, MockBatteryError, unit) action" where
  "mock_update_static_data g =
     (let r = static_cache g;
          design_capacity_value = capacity_raw (s_design_capacity r);
          max_error = ucast (d_max_error (dynamic_cache g)) :: u32;
          measurement_accuracy = (if max_error \<le> 100 then 100 - max_error else 0) * 1000;
          serial_number = from_le_bytes16 [s_serial_num r ! 0, s_serial_num r ! 1];
          serial_bytes = to_le_bytes16 serial_number
      in modify (on_static_data (\<lambda>s. s\<lparr>
           s_manufacturer_name := read_into (s_manufacturer_name r) (replicate MANUFACTURER_NAME_SIZE 0),
           s_device_name := read_into (s_device_name r) (replicate DEVICE_NAME_SIZE 0),
           s_device_chemistry := read_into (s_device_chemistry r) (replicate DEVICE_CHEMISTRY_SIZE 0),
           s_design_capacity := s_design_capacity r, s_design_voltage := s_design_voltage r,
           s_device_chemistry_id := read_into (s_device_chemistry r) (replicate DEVICE_CHEMISTRY_ID_SIZE 0),
           s_serial_num := serial_bytes @ [0, 0], s_battery_mode := s_battery_mode r,
           s_design_cap_warning := MilliAmpUnsigned (ucast (design_capacity_value div 4)),
           s_design_cap_low := MilliAmpUnsigned (ucast (design_capacity_value div 10)),
           s_measurement_accuracy := measurement_accuracy, s_max_sample_time_ms := 0, s_min_sample_time_ms := 0,
           s_max_averaging_interval_ms := 0, s_min_averaging_interval_ms := 0,
           s_cap_granularity_1 := MilliAmpUnsigned 0, s_cap_granularity_2 := MilliAmpUnsigned 0,
           s_power_threshold_support := 0, s_max_instant_pwr_threshold_mw := 0, s_max_sus_pwr_threshold_mw := 0,
           s_bmc_flags := 0, s_bmd_capability := 0, s_bmd_recalibrate_count := 0,
           s_bmd_quick_recalibrate_time_s := 0, s_bmd_slow_recalibrate_time_s := 0,
           s_manufacture_date := s_manufacture_date r, s_specification_info := s_specification_info r,
           s_remaining_capacity_alarm := s_remaining_capacity_alarm r,
           s_remaining_time_alarm := s_remaining_time_alarm r\<rparr>)) g)"

definition mock_driver :: "acpi_types \<Rightarrow> (MockFuelGauge, MockBatteryError) fuel_gauge_driver" where
  "mock_driver A = \<lparr>fg_initialize = mock_initialize A, fg_ping = mock_ping,
     fg_update_static_data = mock_update_static_data, fg_update_dynamic_data = mock_update_dynamic_data\<rparr>"

definition mock_type :: "(MockFuelGauge, StaticBatteryMsgs, DynamicBatteryMsgs) fuel_gauge_type" where
  "mock_type = \<lparr>data_of = standard_data, state_of = (\<lambda>g. g)\<rparr>"

subsection \<open>The contract of a driver\<close>

text \<open>An operation that succeeds has made its transition; one that fails has left the state as it was or timed out.\<close>

locale fuel_gauge_laws =
  fixes D :: "('g, 'e) fuel_gauge_driver" and state :: "'g \<Rightarrow> ('s, 'd) GaugeState"
  assumes initialized: "fg_initialize D g = (Inr u, g') \<Longrightarrow> gauge_state (state g') = Present (Operational GaugeInit)"
    and static_read: "fg_update_static_data D g = (Inr u, g') \<Longrightarrow> \<exists>update. state g' = on_static_data update (state g)"
    and dynamic_read: "fg_update_dynamic_data D g = (Inr u, g') \<Longrightarrow> \<exists>update. state g' = on_dynamic_data update (state g)"
    and pinged: "fg_ping D g = (Inr u, g') \<Longrightarrow> state g' = gauge_on_recovered (state g)"
    and ping_failed: "fg_ping D g = (Inl e, g') \<Longrightarrow> state g' = state g \<or> state g' = gauge_on_timeout (state g)"
begin

lemma brought_up: "init_state_machine D g = (Inr u, g') \<Longrightarrow> is_polling (state g')"
proof -
  assume "init_state_machine D g = (Inr u, g')"
  then obtain a b c g1 g2 where i: "fg_initialize D g = (Inr a, g1)" and s: "fg_update_static_data D g1 = (Inr b, g2)"
    and d: "fg_update_dynamic_data D g2 = (Inr c, g')"
    by (auto simp: init_state_machine_def and_then_ok_iff)
  obtain f h where "state g2 = on_static_data f (state g1)" "state g' = on_dynamic_data h (state g2)"
    using static_read[OF s] dynamic_read[OF d] by blast
  then show ?thesis
    using initialized[OF i] by (simp add: on_static_data_def on_dynamic_data_def is_operational_def is_polling_def Let_def)
qed

text \<open>A gauge that was lost and is recovered has to read its static data again.\<close>

lemma lost_gauge_is_reread:
  "recover_tries D n g = (r, g') \<Longrightarrow> gauge_state (state g) = Present NotOperational \<Longrightarrow>
    gauge_state (state g') = Present (if is_ok r then Operational GaugeInit else NotOperational)"
proof (induction n arbitrary: g)
  case (Suc n)
  show ?case
  proof (cases "fg_ping D g")
    case (Pair q g1)
    show ?thesis
    proof (cases q)
      case (Inl e)
      then have "gauge_state (state g1) = Present NotOperational"
        using ping_failed[of g e g1] Pair Suc.prems(2) by (auto simp: gauge_on_timeout_def)
      then show ?thesis using Suc Pair Inl by simp
    next
      case (Inr u)
      then have "state g1 = gauge_on_recovered (state g)" using pinged[of g u g1] Pair by simp
      then show ?thesis using Suc.prems Pair Inr by (auto simp: gauge_on_recovered_def)
    qed
  qed
qed auto

end

interpretation mock: fuel_gauge_laws "mock_driver A" "\<lambda>g. g" for A
proof
  fix g :: MockFuelGauge and u :: unit and e :: MockBatteryError and g'
  show "fg_initialize (mock_driver A) g = (Inr u, g') \<Longrightarrow> gauge_state g' = Present (Operational GaugeInit)"
    by (auto simp: mock_driver_def mock_initialize_def set_capacity_bit_def set_battery_mode_def and_then_ok_iff
        gauge_on_initialized_def)
  show "fg_update_static_data (mock_driver A) g = (Inr u, g') \<Longrightarrow> \<exists>update. g' = on_static_data update g"
    unfolding mock_driver_def mock_update_static_data_def Let_def by auto
  show "fg_update_dynamic_data (mock_driver A) g = (Inr u, g') \<Longrightarrow> \<exists>update. g' = on_dynamic_data update g"
    unfolding mock_driver_def mock_update_dynamic_data_def Let_def by auto
  show "fg_ping (mock_driver A) g = (Inr u, g') \<Longrightarrow> g' = gauge_on_recovered g"
    "fg_ping (mock_driver A) g = (Inl e, g') \<Longrightarrow> g' = g \<or> g' = gauge_on_timeout g"
    by (auto simp: mock_driver_def mock_ping_def and_then_def)
qed

end
