(* ===== verification/Battery_Props.thy ===== *)
theory Battery_Props
  imports Battery_Relay Battery_Mock
begin

text \<open>
  What holds of the battery service: every ACPI answer can be sent to the host and is read there as it was, a fuel
  gauge is polled only after its static data was read, and recovery gives up after five pings. And what the answers
  lose of the cached data.
\<close>

subsection \<open>Answers fit\<close>

text \<open>The arrays of a cache have their lengths and its flags are known to the crate.\<close>

definition cache_fits :: "acpi_types \<Rightarrow> StaticBatteryMsgs \<Rightarrow> DynamicBatteryMsgs \<Rightarrow> bool" where
  "cache_fits A s d \<longleftrightarrow> length (s_manufacturer_name s) = MANUFACTURER_NAME_SIZE
     \<and> length (s_device_name s) = DEVICE_NAME_SIZE \<and> length (s_device_chemistry s) = DEVICE_CHEMISTRY_SIZE
     \<and> length (s_serial_num s) = SERIAL_NUM_SIZE
     \<and> has_bits (PowerThresholdSupport_all A) (s_power_threshold_support s)
     \<and> has_bits (BmdCapabilityFlags_all A) (s_bmd_capability s) \<and> has_bits (BmdStatusFlags_all A) (d_bmd_status d)"

definition gauge_fits :: "acpi_types \<Rightarrow> ('g, 's, 'd) fuel_gauge_type \<Rightarrow> 'g \<Rightarrow> bool" where
  "gauge_fits A G g \<longleftrightarrow> cache_fits A (standard_static (data_of G) (static_cache (state_of G g)))
     (standard_dynamic (data_of G) (dynamic_cache (state_of G g)))"

lemma has_bits_simps [simp]: "has_bits all 0" "has_bits all all"
  by (simp_all add: has_bits_def)

lemma copy_prefix_ok: "n \<le> length dst \<Longrightarrow> n \<le> length src \<Longrightarrow> copy_prefix n src dst = Inr (take n src @ drop n dst)"
  by (simp add: copy_prefix_def)

lemma compute_bix_ok:
  assumes "acpi_constants_valid A" and "cache_fits A (standard_static B stat) (standard_dynamic B dynamic)"
  obtains b where "compute_bix A B stat dynamic = Inr b" "bix_fits A b"
proof -
  have "\<exists>b. compute_bix A B stat dynamic = Inr b \<and> bix_fits A b"
    using assms by (simp add: compute_bix_def Let_def copy_prefix_ok cache_fits_def cache_sizes string_sizes
        acpi_constants_valid_def bix_fits_def)
  then show thesis using that by blast
qed

lemma compute_fits:
  assumes "acpi_constants_valid A"
  shows "has_bits (BatteryState_all A) (bst_battery_state (compute_bst A B dynamic))"
    "is_PowerSource A (compute_psr A p)" "pif_fits A (compute_pif psu_state_default)"
  using assms by (simp_all add: acpi_constants_valid_def compute_bst_def Let_def compute_psr_def pif_fits_def
      compute_pif_def psu_state_default_def string_sizes)

subsection \<open>The request of a battery\<close>

fun request_battery :: "AcpiBatteryRequest \<Rightarrow> u8" where
  "request_battery (GetBixRequest i) = i"
| "request_battery (GetBstRequest i) = i"
| "request_battery (GetPsrRequest i) = i"
| "request_battery (GetPifRequest i) = i"
| "request_battery (GetBpsRequest i) = i"
| "request_battery (SetBtpRequest i _) = i"
| "request_battery (SetBptRequest i _) = i"
| "request_battery (GetBpcRequest i) = i"
| "request_battery (SetBmcRequest i _) = i"
| "request_battery (GetBmdRequest i) = i"
| "request_battery (GetBctRequest i _) = i"
| "request_battery (GetBtmRequest i _) = i"
| "request_battery (SetBmsRequest i _) = i"
| "request_battery (SetBmaRequest i _) = i"
| "request_battery (GetStaRequest i) = i"

lemma service_ops:
  "svc_battery_charge_time (battery_service_impl A G) i x = on_gauge i (gauge_battery_charge_time G x)"
  "svc_battery_info (battery_service_impl A G) i = on_gauge i (gauge_battery_info A G)"
  "svc_set_measurement_averaging_interval (battery_service_impl A G) i x = on_gauge i (gauge_set_averaging_interval x)"
  "svc_battery_maintenance_control (battery_service_impl A G) i x = on_gauge i (gauge_battery_maintenance_control x)"
  "svc_battery_maintenance_data (battery_service_impl A G) i = on_gauge i (gauge_battery_maintenance_data G)"
  "svc_set_measurement_sampling_time (battery_service_impl A G) i x = on_gauge i (gauge_set_sampling_time x)"
  "svc_battery_power_characteristics (battery_service_impl A G) i = on_gauge i (gauge_battery_power_characteristics G)"
  "svc_battery_power_state (battery_service_impl A G) i = on_gauge i (gauge_battery_power_state G)"
  "svc_set_battery_power_threshold (battery_service_impl A G) i t = on_gauge i (gauge_set_battery_power_threshold t)"
  "svc_battery_status (battery_service_impl A G) i = on_gauge i (gauge_battery_status A G)"
  "svc_battery_time_to_empty (battery_service_impl A G) i x = on_gauge i (gauge_battery_time_to_empty G x)"
  "svc_set_battery_trip_point (battery_service_impl A G) i x = on_gauge i (gauge_set_battery_trip_point x)"
  "svc_is_psu_in_use (battery_service_impl A G) i = on_gauge i (gauge_is_psu_in_use A)"
  "svc_power_source_information (battery_service_impl A G) i = on_gauge i gauge_power_source_information"
  "svc_device_status (battery_service_impl A G) i = on_gauge i (gauge_device_status A)"
  by (simp_all add: battery_service_impl_def)

lemma relay_on_gauge:
  "relay_call (on_gauge i q) response v =
     (case get_fuel_gauge i (registration v) of
        None \<Rightarrow> (Inl AcpiUnknownDeviceId, v) | Some g \<Rightarrow> (map_sum acpi_error_from response (q g), v))"
  by (simp add: relay_call_def on_gauge_def fuel_gauge_def split: option.split)

lemma unknown_battery:
  "get_fuel_gauge (request_battery m) (registration v) = None \<Longrightarrow>
    battery_process_request (battery_service_impl A G) m v = (Inl AcpiUnknownDeviceId, v)"
  by (cases m) (simp_all add: service_ops relay_on_gauge)

lemmas gauge_queries = gauge_battery_charge_time_def gauge_battery_info_def gauge_set_averaging_interval_def
  gauge_battery_maintenance_control_def gauge_set_sampling_time_def gauge_set_battery_trip_point_def
  gauge_battery_maintenance_data_def gauge_battery_power_characteristics_def gauge_battery_power_state_def
  gauge_set_battery_power_threshold_def gauge_battery_status_def gauge_battery_time_to_empty_def
  gauge_is_psu_in_use_def gauge_power_source_information_def gauge_device_status_def

lemma known_battery:
  assumes "get_fuel_gauge (request_battery m) (registration v) = Some g" and "acpi_constants_valid A" and "gauge_fits A G g"
  obtains r where "battery_process_request (battery_service_impl A G) m v = (Inr r, v)" "battery_response_fits A r"
    "battery_response_cmd r = battery_request_cmd m"
proof -
  obtain b where bix: "compute_bix A (data_of G) (static_cache (state_of G g)) (dynamic_cache (state_of G g)) = Inr b" "bix_fits A b"
    by (rule compute_bix_ok[OF assms(2) assms(3)[unfolded gauge_fits_def]])
  have flags: "has_bits (PowerThresholdSupport_all A) (bpc_power_threshold_support (compute_bpc (data_of G) (static_cache (state_of G g))))"
    "has_bits (BmdStatusFlags_all A) (bmd_status_flags (compute_bmd (data_of G) (static_cache (state_of G g)) (dynamic_cache (state_of G g))))"
    "has_bits (BmdCapabilityFlags_all A) (bmd_capability_flags (compute_bmd (data_of G) (static_cache (state_of G g)) (dynamic_cache (state_of G g))))"
    using assms(3) by (simp_all add: gauge_fits_def cache_fits_def compute_bpc_def compute_bmd_def Let_def)
  note answers = service_ops relay_on_gauge gauge_queries
  have "\<exists>r. battery_process_request (battery_service_impl A G) m v = (Inr r, v) \<and> battery_response_fits A r
      \<and> battery_response_cmd r = battery_request_cmd m"
    using assms(1) by (cases m) (simp_all add: answers bix flags compute_fits[OF assms(2)] compute_sta_def)
  then show thesis using that by blast
qed

lemma battery_response_length: "battery_response_fits A r \<Longrightarrow> length (content (battery_response_puts r)) \<le> 100"
  by (cases r) (simp_all add: length_bix length_pif)

lemma battery_response_travels:
  assumes "battery_response_fits A r" and "100 \<le> length buffer"
  shows "\<exists>n buf. sm_serialize (battery_response A) r buffer = Inr (n, buf)
    \<and> sm_deserialize (battery_response A) (battery_response_cmd r) (take n buf) = Inr r"
  using battery_response.message_written[OF assms(1), of buffer] battery_response.message_read[OF assms(1)]
    battery_response_length[OF assms(1)] assms(2)
  by (simp add: battery_response_def)

lemma battery_error_travels:
  "\<exists>n buf. sm_serialize battery_error e buffer = Inr (n, buf)
    \<and> sm_deserialize battery_error (battery_error_code e) (take n buf) = Inr e"
  by (cases e) (simp_all add: battery_error_def battery_error_deserialize_def)

subsection \<open>The life of a fuel gauge\<close>

text \<open>What a driver may do to the state: the transitions, and writing a cache.\<close>

datatype ('s, 'd) gauge_call =
    CallInitialized
  | CallStaticData "'s \<Rightarrow> 's"
  | CallDynamicData "'d \<Rightarrow> 'd"
  | CallTimeout
  | CallRecovered
  | WriteStatic "'s \<Rightarrow> 's"
  | WriteDynamic "'d \<Rightarrow> 'd"

fun gauge_step :: "('s, 'd) gauge_call \<Rightarrow> ('s, 'd) GaugeState \<Rightarrow> ('s, 'd) GaugeState" where
  "gauge_step CallInitialized g = gauge_on_initialized g"
| "gauge_step (CallStaticData f) g = on_static_data f g"
| "gauge_step (CallDynamicData f) g = on_dynamic_data f g"
| "gauge_step CallTimeout g = gauge_on_timeout g"
| "gauge_step CallRecovered g = gauge_on_recovered g"
| "gauge_step (WriteStatic f) g = g\<lparr>static_cache := f (static_cache g)\<rparr>"
| "gauge_step (WriteDynamic f) g = g\<lparr>dynamic_cache := f (dynamic_cache g)\<rparr>"

definition gauge_run :: "('s, 'd) gauge_call list \<Rightarrow> ('s, 'd) GaugeState \<Rightarrow> ('s, 'd) GaugeState" where
  "gauge_run cs g = fold gauge_step cs g"

lemma gauge_run_simps [simp]: "gauge_run [] g = g" "gauge_run (cs @ [c]) g = gauge_step c (gauge_run cs g)"
  by (simp_all add: gauge_run_def)

lemmas gauge_transitions = gauge_on_initialized_def on_static_data_def on_dynamic_data_def gauge_on_timeout_def
  gauge_on_recovered_def is_present_def is_operational_def is_polling_def Let_def

definition keeps_polling :: "('s, 'd) gauge_call \<Rightarrow> bool" where
  "keeps_polling c \<longleftrightarrow> c \<noteq> CallInitialized \<and> c \<noteq> CallTimeout"

lemma polling_step:
  "is_polling (gauge_step c g) \<longleftrightarrow> is_polling g \<and> keeps_polling c \<or> is_operational g \<and> (\<exists>f. c = CallStaticData f)"
  by (cases c) (auto simp: gauge_transitions keeps_polling_def split: GaugeInternalState.splits PresentSubstate.splits)

lemma present_step: "is_present (gauge_step c g) \<longleftrightarrow> is_present g \<or> c = CallInitialized"
  by (cases c) (auto simp: gauge_transitions split: GaugeInternalState.splits PresentSubstate.splits)

lemma polling_run:
  "is_polling (gauge_run cs g) \<longleftrightarrow> is_polling g \<and> (\<forall>c \<in> set cs. keeps_polling c)
    \<or> (\<exists>pre f post. cs = pre @ CallStaticData f # post \<and> is_operational (gauge_run pre g) \<and> (\<forall>c \<in> set post. keeps_polling c))"
proof (induction cs rule: rev_induct)
  case (snoc c cs)
  have last: "(\<exists>pre f post. cs @ [c] = pre @ CallStaticData f # post \<and> P pre \<and> Q post)
      \<longleftrightarrow> (\<exists>f. c = CallStaticData f \<and> P cs \<and> Q []) \<or> (\<exists>pre f post. cs = pre @ CallStaticData f # post \<and> P pre \<and> Q (post @ [c]))"
    for P Q
  proof (intro iffI; elim disjE exE conjE)
    fix pre f post
    assume eq: "cs @ [c] = pre @ CallStaticData f # post" and P: "P pre" and Q: "Q post"
    show "(\<exists>f. c = CallStaticData f \<and> P cs \<and> Q []) \<or> (\<exists>pre f post. cs = pre @ CallStaticData f # post \<and> P pre \<and> Q (post @ [c]))"
    proof (cases post rule: rev_cases)
      case Nil
      then show ?thesis using eq P Q by simp
    next
      case (snoc ys y)
      then show ?thesis using eq P Q by auto
    qed
  next
    fix f assume "c = CallStaticData f" "P cs" "Q []"
    then show "\<exists>pre f post. cs @ [c] = pre @ CallStaticData f # post \<and> P pre \<and> Q post" by blast
  next
    fix pre f post assume "cs = pre @ CallStaticData f # post" "P pre" "Q (post @ [c])"
    then show "\<exists>pre f post. cs @ [c] = pre @ CallStaticData f # post \<and> P pre \<and> Q post" by fastforce
  qed
  let ?E = "\<exists>pre f post. cs = pre @ CallStaticData f # post \<and> is_operational (gauge_run pre g) \<and> (\<forall>c \<in> set post. keeps_polling c)"
  have "(\<exists>pre f post. cs @ [c] = pre @ CallStaticData f # post \<and> is_operational (gauge_run pre g) \<and> (\<forall>c \<in> set post. keeps_polling c))
      \<longleftrightarrow> (\<exists>f. c = CallStaticData f) \<and> is_operational (gauge_run cs g) \<or> ?E \<and> keeps_polling c"
    unfolding last[of "\<lambda>pre. is_operational (gauge_run pre g)" "\<lambda>post. \<forall>c \<in> set post. keeps_polling c"] by simp blast
  then show ?case using polling_step[of c "gauge_run cs g"] snoc.IH by simp blast
qed simp

lemma present_run: "is_present (gauge_run cs g) \<longleftrightarrow> is_present g \<or> CallInitialized \<in> set cs"
  by (induction cs rule: rev_induct) (auto simp: present_step)

subsection \<open>What an answer loses\<close>

text \<open>The last byte of a string is taken for its terminator. The serial number has none, so one of its bytes is lost.\<close>

lemma serial_number_is_cut:
  assumes "s_serial_num s = [a, b, c, e]" and "compute_bix A standard_data s d = Inr bix"
  shows "bix_serial_number bix = [a, b, c, 0, 0, 0, 0, 0]"
proof -
  have "copy_prefix (min (STD_BIX_SERIAL_SIZE - 1) (length (s_serial_num s) - 1)) (s_serial_num s)
      (replicate STD_BIX_SERIAL_SIZE 0) = Inr [a, b, c, 0, 0, 0, 0, 0]"
    by (simp add: assms(1) copy_prefix_def numeral_eq_Suc string_sizes)
  then show ?thesis
    using assms(2) by (auto simp: compute_bix_def Let_def standard_data_def then_read_def split: sum.splits)
qed

text \<open>A capacity in units of ten milliwatt hours is answered unchanged, in milliwatts.\<close>

lemma capacity_off_by_ten:
  assumes "capacity_mode A (s_battery_mode s)" and "s_design_capacity s = CentiWattUnsigned c"
    and "compute_bix A standard_data s d = Inr bix"
  shows "bix_power_unit bix = PowerUnit_MilliWatts A \<and> bix_design_capacity bix = ucast c"
  using assms by (auto simp: compute_bix_def Let_def standard_data_def then_read_def split: sum.splits)

text \<open>A battery is charging or discharging, never at rest; the power source is never in use.\<close>

lemma battery_never_rests:
  "bst_battery_state (compute_bst A B d) = BatteryState_CHARGING A \<or> bst_battery_state (compute_bst A B d) = BatteryState_DISCHARGING A"
  "gauge_is_psu_in_use A g = Inr (PowerSource_Offline A)"
  by (simp_all add: compute_bst_def Let_def gauge_is_psu_in_use_def compute_psr_def psu_state_default_def)

text \<open>Bringing the mock up overwrites the thresholds it was made with.\<close>

lemma mock_thresholds_overwritten:
  "s_design_cap_warning (static_cache (mock_new A T)) = MilliAmpUnsigned 300"
  "s_design_cap_warning (static_cache (snd (init_state_machine (mock_driver A) (mock_new A T)))) = MilliAmpUnsigned 750"
  by (simp_all add: mock_new_def with_series_cells_def Let_def init_state_machine_def mock_driver_def mock_initialize_def
      set_capacity_bit_def set_battery_mode_def and_then_def mock_update_static_data_def mock_update_dynamic_data_def
      on_static_data_def on_dynamic_data_def gauge_on_initialized_def is_operational_def)

subsection \<open>Properties\<close>

text \<open>C33. A request of the host is answered without changing anything. A battery that is not registered is an
  unknown device; a registered one has an answer of the kind asked for, never a failure. Either result can be written
  to a buffer of 100 bytes, and is read back by the host as it was.\<close>

theorem battery_answers_reach_host:
  assumes "acpi_constants_valid A" and "\<forall>g \<in> set (fuel_gauges (registration v)). gauge_fits A G g"
    and "100 \<le> length buffer"
  shows "\<exists>result n buf. battery_process_request (battery_service_impl A G) m v = (result, v)
    \<and> (case get_fuel_gauge (request_battery m) (registration v) of
         None \<Rightarrow> result = Inl AcpiUnknownDeviceId
       | Some g \<Rightarrow> \<exists>r. result = Inr r \<and> battery_response_cmd r = battery_request_cmd m)
    \<and> result_serialize (battery_response A) battery_error result buffer = Inr (n, buf)
    \<and> result_deserialize (battery_response A) battery_error (\<not> is_ok result)
        (result_discriminant (battery_response A) battery_error result) (take n buf) = Inr result"
proof (cases "get_fuel_gauge (request_battery m) (registration v)")
  case None
  then show ?thesis
    using unknown_battery[OF None, of A G] battery_error_travels[of AcpiUnknownDeviceId buffer]
    by (auto simp: result_serialize_def result_deserialize_def result_discriminant_def battery_error_def)
next
  case (Some g)
  then have "gauge_fits A G g" using assms(2) by (auto simp: get_fuel_gauge_def split: if_splits)
  with Some obtain r where r: "battery_process_request (battery_service_impl A G) m v = (Inr r, v)"
      "battery_response_fits A r" "battery_response_cmd r = battery_request_cmd m"
    using known_battery[OF Some assms(1)] by blast
  have disc: "sm_discriminant (battery_response A) r = battery_response_cmd r" by (simp add: battery_response_def)
  obtain n buf where "sm_serialize (battery_response A) r buffer = Inr (n, buf)"
      "sm_deserialize (battery_response A) (battery_response_cmd r) (take n buf) = Inr r"
    using battery_response_travels[OF r(2) assms(3)] by blast
  then show ?thesis
    using r(1,3) Some by (simp add: result_serialize_def result_deserialize_def result_discriminant_def disc)
qed

text \<open>C34. A fuel gauge is polled exactly if its static data was read while it was operational, and it was neither
  initialised again nor lost since; and it is present exactly if it was ever initialised.\<close>

theorem gauge_polls_after_static_data:
  "is_polling (gauge_run cs (gauge_state_default s d)) =
     (\<exists>pre f post. cs = pre @ CallStaticData f # post \<and> is_operational (gauge_run pre (gauge_state_default s d))
        \<and> CallInitialized \<notin> set post \<and> CallTimeout \<notin> set post)
   \<and> is_present (gauge_run cs (gauge_state_default s d)) = (CallInitialized \<in> set cs)"
proof -
  have fresh: "\<not> is_polling (gauge_state_default s d)" "\<not> is_present (gauge_state_default s d)"
    by (simp_all add: gauge_state_default_def is_polling_def is_present_def)
  have kept: "(\<forall>c \<in> set post. keeps_polling c) = (CallInitialized \<notin> set post \<and> CallTimeout \<notin> set post)"
    for post :: "('a, 'b) gauge_call list"
    unfolding keeps_polling_def by blast
  show ?thesis by (simp add: polling_run present_run fresh kept)
qed

text \<open>Recovery ends: it succeeds exactly if one of the first five pings is answered, the first of which is the
  last one sent, and gives up after the fifth. Bringing up a mock gauge succeeds and leaves it polling.\<close>

theorem recovery_is_bounded:
  "is_ok (fst (recover_state_machine D g)) = (\<exists>k < 5. ping_answered D g k)
   \<and> snd (recover_state_machine D g) =
       pinged_gauge D (if \<exists>k < 5. ping_answered D g k then Suc (LEAST k. ping_answered D g k) else 5) g
   \<and> (\<exists>m'. init_state_machine (mock_driver A) m = (Inr (), m') \<and> is_polling m')"
proof -
  have "init_state_machine (mock_driver A) m = (Inr (), snd (init_state_machine (mock_driver A) m))"
    by (simp add: init_state_machine_def mock_driver_def mock_initialize_def set_capacity_bit_def set_battery_mode_def
        and_then_def mock_update_static_data_def mock_update_dynamic_data_def Let_def)
  moreover from this have "is_polling (snd (init_state_machine (mock_driver A) m))" by (rule mock.brought_up)
  ultimately show ?thesis
    using recover_tries_outcome[of D 5 g] recover_tries_state[of D 5 g] by (auto simp: recover_state_machine_tries)
qed

subsection \<open>The properties on concrete inputs\<close>

definition demo_acpi :: acpi_types where
  "demo_acpi = \<lparr>is_PowerUnit = (\<lambda>w. w < 2), is_BatteryTechnology = (\<lambda>w. w < 2), is_BatterySwapCapability = (\<lambda>w. w < 3),
     is_PowerSource = (\<lambda>w. w < 2), is_ThresholdId = (\<lambda>w. w < 3), PowerUnit_MilliWatts = 0, PowerUnit_MilliAmps = 1,
     BatteryTechnology_Secondary = 1, BatterySwapCapability_NonSwappable = 0, PowerSource_Online = 1,
     PowerSource_Offline = 0, BatteryState_CHARGING = 2, BatteryState_DISCHARGING = 1, BatteryState_all = 0x1F,
     PowerSourceState_all = 0x1F, PowerThresholdSupport_all = 3, BmdStatusFlags_all = 0x1F,
     BmdCapabilityFlags_all = 0x1F, StaReturn_all = 0x1F, capacity_mode = (\<lambda>m. m AND 0x8000 \<noteq> 0),
     with_capacity_mode = (\<lambda>b m. if b then m OR 0x8000 else m AND 0x7FFF), BatteryModeFields_default = 0,
     ManufactureDate_default = 0\<rparr>"

definition demo_mock_types :: mock_types where
  "demo_mock_types = \<lparr>INSTANTANEOUS = 1, SUSTAINABLE = 2, AML_CALIBRATION_SUPPORTED = 1, CHARGER_DISABLE_SUPPORTED = 2,
     BatteryModeFields_new = 0, date_2025_10_16 = 0x5B50, specification_1_1 = 0x11, status_initialized_discharging = 0xC0\<rparr>"

definition demo_batteries :: "MockFuelGauge BatteryService" where
  "demo_batteries = battery_service_new \<lparr>fuel_gauges = [mock_new demo_acpi demo_mock_types]\<rparr>"

theorem battery_answers_reach_host_witness:
  "\<exists>result n buf. battery_process_request (battery_service_impl demo_acpi mock_type) (GetBixRequest 0) demo_batteries
      = (result, demo_batteries)
    \<and> (\<exists>r. result = Inr r \<and> battery_response_cmd r = 1)
    \<and> result_serialize (battery_response demo_acpi) battery_error result (replicate 100 0) = Inr (n, buf)
    \<and> result_deserialize (battery_response demo_acpi) battery_error (\<not> is_ok result)
        (result_discriminant (battery_response demo_acpi) battery_error result) (take n buf) = Inr result"
proof -
  have "acpi_constants_valid demo_acpi" by (simp add: acpi_constants_valid_def demo_acpi_def has_bits_def)
  moreover have "\<forall>g \<in> set (fuel_gauges (registration demo_batteries)). gauge_fits demo_acpi mock_type g"
    by (simp add: demo_batteries_def battery_service_new_def gauge_fits_def mock_type_def standard_data_def mock_new_def
        with_series_cells_def Let_def cache_fits_def cache_sizes padded_def demo_acpi_def demo_mock_types_def has_bits_def)
  moreover have "get_fuel_gauge 0 (registration demo_batteries) = Some (mock_new demo_acpi demo_mock_types)"
    by (simp add: demo_batteries_def battery_service_new_def get_fuel_gauge_def)
  ultimately show ?thesis
    using battery_answers_reach_host [of demo_acpi demo_batteries mock_type "replicate 100 0" "GetBixRequest 0"]
    by simp
qed

end
