(* ===== verification/Partition_Manifest.thy ===== *)
theory Partition_Manifest
  imports Prelude "HOL-Library.List_Lexorder" "HOL-Library.Char_ord"
begin

text \<open>
  The partition manifest and its checks, \<open>partition-manager/generation/src/lib.rs\<close>. A \<open>BTreeMap\<close> is the list of its
  entries in the order of the keys. Numbers are unsigned words, whose addition wraps as in a release build.
\<close>

datatype GenError =
    NotAlignedTo string u32
  | PartitionsOverlap string string
  | OverDiskEdge string
  | VariantNotDefined string
  | DuplicateKey string
  | DivisionByZero

record Disk =
  disk_size :: "u32 option"
  disk_alignment :: "u32 option"

datatype Variant = Any | Other string
datatype Access = RO | RW

record PartitionEntry =
  entry_access :: "(Variant \<times> Access) list"
  entry_offset :: u32
  entry_size :: u32

record GeneratedPartition =
  gen_name :: string
  gen_access :: Access
  gen_offset :: u32
  gen_size :: u32

record Manifest =
  manifest_variants :: "Variant list"
  manifest_disk :: Disk
  manifest_partitions :: "(string \<times> PartitionEntry) list"

definition variant_from :: "string \<Rightarrow> Variant" where
  "variant_from s = (if s = ''any'' then Any else Other s)"

text \<open>\<open>deserialize_partitions\<close>: the entries in the order of the file.\<close>

fun visit_map ::
  "(string \<times> PartitionEntry) list \<Rightarrow> (string \<times> PartitionEntry) list
     \<Rightarrow> (GenError, (string \<times> PartitionEntry) list) result" where
  "visit_map [] kept = Inr kept"
| "visit_map ((key, p) # entries) kept =
     (if key \<in> fst ` set kept then Inl (DuplicateKey key) else visit_map entries (insort_key fst (key, p) kept))"

definition deserialize_partitions ::
  "(string \<times> PartitionEntry) list \<Rightarrow> (GenError, (string \<times> PartitionEntry) list) result" where
  "deserialize_partitions entries = visit_map entries []"

definition entry_range :: "PartitionEntry \<Rightarrow> u32 \<times> u32" where
  "entry_range p = (entry_offset p, entry_offset p + entry_size p)"

definition ranges_overlap :: "u32 \<times> u32 \<Rightarrow> u32 \<times> u32 \<Rightarrow> bool" where
  "ranges_overlap l r \<longleftrightarrow> fst l < snd r \<and> fst r < snd l"

definition overlaps :: "PartitionEntry \<Rightarrow> PartitionEntry \<Rightarrow> bool" where
  "overlaps p q = ranges_overlap (entry_range p) (entry_range q)"

subsection \<open>Checks\<close>

fun check_aligned :: "u32 \<Rightarrow> (string \<times> PartitionEntry) list \<Rightarrow> (GenError, unit) result" where
  "check_aligned alignment [] = Inr ()"
| "check_aligned alignment ((name, p) # ps) =
     (if alignment = 0 then Inl DivisionByZero
      else if entry_offset p mod alignment \<noteq> 0 \<or> entry_size p mod alignment \<noteq> 0 then Inl (NotAlignedTo name alignment)
      else check_aligned alignment ps)"

definition validate_alignment :: "Manifest \<Rightarrow> (GenError, unit) result" where
  "validate_alignment m =
     (case disk_alignment (manifest_disk m) of
        None \<Rightarrow> Inr () | Some alignment \<Rightarrow> check_aligned alignment (manifest_partitions m))"

fun overlap_with :: "string \<times> PartitionEntry \<Rightarrow> (string \<times> PartitionEntry) list \<Rightarrow> (GenError, unit) result" where
  "overlap_with x [] = Inr ()"
| "overlap_with x (y # ys) =
     (if overlaps (snd x) (snd y) then Inl (PartitionsOverlap (fst x) (fst y)) else overlap_with x ys)"

fun check_overlaps :: "(string \<times> PartitionEntry) list \<Rightarrow> (GenError, unit) result" where
  "check_overlaps [] = Inr ()"
| "check_overlaps (x # xs) = (case overlap_with x xs of Inl e \<Rightarrow> Inl e | Inr _ \<Rightarrow> check_overlaps xs)"

definition validate_overlap :: "Manifest \<Rightarrow> (GenError, unit) result" where
  "validate_overlap m = check_overlaps (sort_key (\<lambda>(_, p). entry_offset p) (manifest_partitions m))"

fun check_sizes :: "u32 \<Rightarrow> (string \<times> PartitionEntry) list \<Rightarrow> (GenError, unit) result" where
  "check_sizes edge [] = Inr ()"
| "check_sizes edge ((name, p) # ps) =
     (if edge < entry_offset p + entry_size p then Inl (OverDiskEdge name) else check_sizes edge ps)"

definition validate_size :: "Manifest \<Rightarrow> (GenError, unit) result" where
  "validate_size m =
     (case disk_size (manifest_disk m) of None \<Rightarrow> Inr () | Some edge \<Rightarrow> check_sizes edge (manifest_partitions m))"

definition check_consistency :: "Manifest \<Rightarrow> (GenError, unit) result" where
  "check_consistency m =
     (case validate_size m of Inl e \<Rightarrow> Inl e | Inr _ \<Rightarrow>
      case validate_overlap m of Inl e \<Rightarrow> Inl e | Inr _ \<Rightarrow>
      case validate_alignment m of Inl e \<Rightarrow> Inl e | Inr _ \<Rightarrow> Inr ())"

text \<open>The closure of \<open>filter_map\<close>: nothing is emitted where the variant has no access.\<close>

definition generated_access :: "Variant \<Rightarrow> PartitionEntry \<Rightarrow> Access option" where
  "generated_access variant p =
     (case (case map_of (entry_access p) variant of Some a \<Rightarrow> Some a | None \<Rightarrow> map_of (entry_access p) Any) of
        Some a \<Rightarrow> Some a | None \<Rightarrow> if entry_access p = [] then Some RW else None)"

definition generated :: "Variant \<Rightarrow> string \<times> PartitionEntry \<Rightarrow> GeneratedPartition option" where
  "generated variant e =
     map_option (\<lambda>a. \<lparr>gen_name = fst e, gen_access = a, gen_offset = entry_offset (snd e), gen_size = entry_size (snd e)\<rparr>)
       (generated_access variant (snd e))"

definition generate_partitions :: "string option \<Rightarrow> Manifest \<Rightarrow> (GenError, GeneratedPartition list) result" where
  "generate_partitions variant_name m =
     (case check_consistency m of
        Inl e \<Rightarrow> Inl e
      | Inr _ \<Rightarrow>
          case variant_name of
            Some v \<Rightarrow>
              if Other v \<notin> set (manifest_variants m) then Inl (VariantNotDefined v)
              else Inr (List.map_filter (generated (Other v)) (manifest_partitions m))
          | None \<Rightarrow> Inr (List.map_filter (generated Any) (manifest_partitions m)))"

subsection \<open>What the checks establish\<close>

text \<open>The bytes of a partition, and that its end does not wrap.\<close>

definition span :: "u32 \<Rightarrow> u32 \<Rightarrow> nat set" where
  "span offset extent = {unat offset ..< unat offset + unat extent}"

definition unwrapped :: "u32 \<Rightarrow> u32 \<Rightarrow> bool" where
  "unwrapped offset extent \<longleftrightarrow> unat offset + unat extent < 2 ^ 32"

lemma unat_end: "unwrapped offset extent \<Longrightarrow> unat (offset + extent) = unat offset + unat extent"
  by (simp add: unwrapped_def unat_word_ariths)

lemma overlaps_sym: "overlaps p q = overlaps q p"
  by (auto simp: overlaps_def ranges_overlap_def)

lemma overlap_with_ok: "overlap_with x ys = Inr u \<longleftrightarrow> (\<forall>y \<in> set ys. \<not> overlaps (snd x) (snd y))"
  by (induction ys) auto

lemma check_overlaps_ok: "check_overlaps xs = Inr u \<longleftrightarrow> sorted_wrt (\<lambda>x y. \<not> overlaps (snd x) (snd y)) xs"
proof (induction xs)
  case (Cons x xs)
  then show ?case using overlap_with_ok[of x xs] by (cases "overlap_with x xs") auto
qed simp

lemma sorted_wrt_pair:
  "sorted_wrt P xs \<Longrightarrow> x \<in> set xs \<Longrightarrow> y \<in> set xs \<Longrightarrow> x \<noteq> y \<Longrightarrow> P x y \<or> P y x"
  by (induction xs) auto

lemma validate_overlap_ok:
  assumes "validate_overlap m = Inr u" and "x \<in> set (manifest_partitions m)" and "y \<in> set (manifest_partitions m)" and "x \<noteq> y"
  shows "\<not> overlaps (snd x) (snd y)"
proof -
  have "sorted_wrt (\<lambda>x y. \<not> overlaps (snd x) (snd y)) (sort_key (\<lambda>(_, p). entry_offset p) (manifest_partitions m))"
    using assms(1) by (simp add: validate_overlap_def check_overlaps_ok)
  from sorted_wrt_pair[OF this, of x y] show ?thesis using assms(2-4) overlaps_sym by auto
qed

lemma no_overlap_disjoint:
  assumes "\<not> overlaps p q" and "unwrapped (entry_offset p) (entry_size p)" and "unwrapped (entry_offset q) (entry_size q)"
  shows "span (entry_offset p) (entry_size p) \<inter> span (entry_offset q) (entry_size q) = {}"
  using assms(1) unat_end[OF assms(2)] unat_end[OF assms(3)]
  by (auto simp: overlaps_def ranges_overlap_def entry_range_def span_def word_less_nat_alt)

lemma check_sizes_ok: "check_sizes edge ps = Inr u \<longleftrightarrow> (\<forall>(name, p) \<in> set ps. entry_offset p + entry_size p \<le> edge)"
  by (induction ps) (auto simp: not_less split: if_splits)

lemma check_consistency_ok:
  "check_consistency m = Inr u \<longleftrightarrow> validate_size m = Inr () \<and> validate_overlap m = Inr () \<and> validate_alignment m = Inr ()"
  by (auto simp: check_consistency_def split: sum.splits)

lemma generated_entry:
  assumes "generate_partitions v m = Inr gs" and "g \<in> set gs"
  obtains p where "(gen_name g, p) \<in> set (manifest_partitions m)" "entry_offset p = gen_offset g" "entry_size p = gen_size g"
    "check_consistency m = Inr ()"
proof -
  obtain variant where gs: "gs = List.map_filter (generated variant) (manifest_partitions m)"
    and ok: "check_consistency m = Inr ()"
    using assms(1) by (auto simp: generate_partitions_def split: sum.splits option.splits if_splits)
  then obtain e where e: "e \<in> set (manifest_partitions m)" "generated variant e = Some g"
    using assms(2) by (auto simp: List.map_filter_def)
  then have "(gen_name g, snd e) \<in> set (manifest_partitions m)" "entry_offset (snd e) = gen_offset g"
      "entry_size (snd e) = gen_size g"
    by (auto simp: generated_def)
  then show thesis using that ok by blast
qed

lemma generated_disjoint:
  assumes "generate_partitions v m = Inr gs" and "g \<in> set gs" and "h \<in> set gs" and "gen_name g \<noteq> gen_name h"
    and "unwrapped (gen_offset g) (gen_size g)" and "unwrapped (gen_offset h) (gen_size h)"
  shows "span (gen_offset g) (gen_size g) \<inter> span (gen_offset h) (gen_size h) = {}"
proof -
  obtain p where p: "(gen_name g, p) \<in> set (manifest_partitions m)" "entry_offset p = gen_offset g"
      "entry_size p = gen_size g" "check_consistency m = Inr ()"
    by (rule generated_entry[OF assms(1,2)])
  obtain q where q: "(gen_name h, q) \<in> set (manifest_partitions m)" "entry_offset q = gen_offset h"
      "entry_size q = gen_size h" "check_consistency m = Inr ()"
    by (rule generated_entry[OF assms(1,3)])
  have "validate_overlap m = Inr ()" using p(4) by (simp add: check_consistency_ok)
  from validate_overlap_ok[OF this p(1) q(1)] have "\<not> overlaps p q" using assms(4) by simp
  then show ?thesis using no_overlap_disjoint[of p q] p q assms(5,6) by simp
qed

lemma generated_on_disk:
  assumes "generate_partitions v m = Inr gs" and "g \<in> set gs" and "disk_size (manifest_disk m) = Some edge"
    and "unwrapped (gen_offset g) (gen_size g)"
  shows "span (gen_offset g) (gen_size g) \<subseteq> {..< unat edge}"
proof -
  obtain p where p: "(gen_name g, p) \<in> set (manifest_partitions m)" "entry_offset p = gen_offset g"
      "entry_size p = gen_size g" "check_consistency m = Inr ()"
    by (rule generated_entry[OF assms(1,2)])
  then have "gen_offset g + gen_size g \<le> edge"
    using assms(3) by (auto simp: check_consistency_ok validate_size_def check_sizes_ok)
  then show ?thesis using unat_end[OF assms(4)] by (auto simp: span_def word_le_nat_alt)
qed

text \<open>The entries that reach the manifest are in the order of their names, and no name is there twice.\<close>

lemma visit_map_sorted:
  "visit_map entries kept = Inr ps \<Longrightarrow> sorted (map fst kept) \<Longrightarrow> distinct (map fst kept) \<Longrightarrow>
    sorted (map fst ps) \<and> distinct (map fst ps) \<and> set ps = set entries \<union> set kept"
proof (induction entries arbitrary: kept)
  case (Cons e es)
  obtain key p where e: "e = (key, p)" by (cases e)
  have new: "key \<notin> fst ` set kept" and run: "visit_map es (insort_key fst (key, p) kept) = Inr ps"
    using Cons.prems(1) e by (auto split: if_splits)
  have "sorted (map fst (insort_key fst (key, p) kept))" using Cons.prems(2) by (simp add: sorted_insort_key)
  moreover have "distinct (map fst (insort_key fst (key, p) kept))"
    using Cons.prems(3) new by (simp add: distinct_map distinct_insort inj_on_def set_insort_key) force
  ultimately show ?case using Cons.IH[OF run] e by (auto simp: set_insort_key)
qed simp

text \<open>A partition whose end wraps passes every check, although it covers another one and leaves the disk.\<close>

definition wrapping_manifest :: Manifest where
  "wrapping_manifest = \<lparr>manifest_variants = [], manifest_disk = \<lparr>disk_size = Some 0x100, disk_alignment = Some 8\<rparr>,
     manifest_partitions =
       [(''a'', \<lparr>entry_access = [], entry_offset = 0x10, entry_size = 0xFFFFFFF8\<rparr>),
        (''b'', \<lparr>entry_access = [], entry_offset = 0x20, entry_size = 0x10\<rparr>)]\<rparr>"

lemma wrapping_manifest_accepted: "check_consistency wrapping_manifest = Inr ()"
  by code_simp

end
