(* ===== verification/Partition_Access.thy ===== *)
theory Partition_Access
  imports Partition_Manifest
begin

text \<open>
  Partitions of a storage device, \<open>partition-manager/src/lib.rs\<close>, \<open>ext/esa.rs\<close> and \<open>ext/bdd.rs\<close>. The device is a
  record of the operations of \<open>NorFlash\<close> or of \<open>BlockDevice\<close> on its state \<open>'f\<close>. The lock of the device is held for one
  operation, so an operation of a partition is the operation of its guard. The type-level marker is a field; an operation
  that the type of a read-only partition does not have is \<open>None\<close>.
\<close>

datatype 'e PartitionError = PartOutOfBounds | PartNotAligned | PartReadOnly | PartInner 'e

definition checked_add :: "u32 \<Rightarrow> u32 \<Rightarrow> u32 option" where
  "checked_add a b = (if unat a + unat b < 2 ^ 32 then Some (a + b) else None)"

definition checked_sub :: "u32 \<Rightarrow> u32 \<Rightarrow> u32 option" where
  "checked_sub a b = (if b \<le> a then Some (a - b) else None)"

definition checked_mul :: "u32 \<Rightarrow> u32 \<Rightarrow> u32 option" where
  "checked_mul a b = (if unat a * unat b < 2 ^ 32 then Some (a * b) else None)"

record Partition =
  part_offset :: u32
  part_size :: u32
  part_marker :: Access

definition partition_new :: "u32 \<Rightarrow> u32 \<Rightarrow> Access \<Rightarrow> Partition" where
  "partition_new offset extent marker = \<lparr>part_offset = offset, part_size = extent, part_marker = marker\<rparr>"

text \<open>The constructor that the generated code calls for each partition of the map.\<close>

definition partition_of :: "GeneratedPartition \<Rightarrow> Partition" where
  "partition_of g = partition_new (gen_offset g) (gen_size g) (gen_access g)"

definition within_bounds :: "Partition \<Rightarrow> u32 \<Rightarrow> nat \<Rightarrow> bool" where
  "within_bounds g offset n =
     (if 2 ^ 32 - 1 < n then False
      else case checked_add offset (of_nat n) of Some finish \<Rightarrow> finish \<le> part_size g | None \<Rightarrow> False)"

subsection \<open>NOR flash\<close>

record ('f, 'e) nor_flash =
  flash_read :: "u32 \<Rightarrow> nat \<Rightarrow> ('f, 'e, u8 list) action"
  flash_write :: "u32 \<Rightarrow> u8 list \<Rightarrow> ('f, 'e, unit) action"
  flash_erase :: "u32 \<Rightarrow> u32 \<Rightarrow> ('f, 'e, unit) action"

text \<open>\<open>.await.map_err(Error::Inner)\<close>.\<close>

definition inner :: "('f, 'e, 'a) action \<Rightarrow> ('f, 'e PartitionError, 'a) action" where
  "inner m f = (case m f of (r, f) \<Rightarrow> (map_sum PartInner (\<lambda>a. a) r, f))"

definition or_out_of_bounds ::
  "'a option \<Rightarrow> ('a \<Rightarrow> ('f, 'e PartitionError, 'b) action) \<Rightarrow> ('f, 'e PartitionError, 'b) action" where
  "or_out_of_bounds v k = (case v of None \<Rightarrow> err PartOutOfBounds | Some a \<Rightarrow> k a)"

definition guard_read :: "('f, 'e) nor_flash \<Rightarrow> Partition \<Rightarrow> u32 \<Rightarrow> nat \<Rightarrow> ('f, 'e PartitionError, u8 list) action" where
  "guard_read F g offset n =
     (if \<not> within_bounds g offset n then err PartOutOfBounds
      else or_out_of_bounds (checked_add offset (part_offset g)) (\<lambda>a. inner (flash_read F a n)))"

text \<open>\<open>NorFlash\<close> is implemented for a partition with the marker \<open>RW\<close> only.\<close>

definition guard_erase ::
  "('f, 'e) nor_flash \<Rightarrow> Partition \<Rightarrow> u32 \<Rightarrow> u32 \<Rightarrow> ('f, 'e PartitionError, unit) action option" where
  "guard_erase F g start finish =
     (case part_marker g of
        RO \<Rightarrow> None
      | RW \<Rightarrow> Some (or_out_of_bounds (checked_sub finish start) (\<lambda>n.
          if \<not> within_bounds g start (unat n) then err PartOutOfBounds
          else or_out_of_bounds (checked_add start (part_offset g)) (\<lambda>a.
            or_out_of_bounds (checked_add finish (part_offset g)) (\<lambda>b. inner (flash_erase F a b))))))"

definition guard_write ::
  "('f, 'e) nor_flash \<Rightarrow> Partition \<Rightarrow> u32 \<Rightarrow> u8 list \<Rightarrow> ('f, 'e PartitionError, unit) action option" where
  "guard_write F g offset bytes =
     (case part_marker g of
        RO \<Rightarrow> None
      | RW \<Rightarrow> Some (if \<not> within_bounds g offset (length bytes) then err PartOutOfBounds
          else or_out_of_bounds (checked_add offset (part_offset g)) (\<lambda>a. inner (flash_write F a bytes))))"

definition flash_capacity :: "Partition \<Rightarrow> nat" where
  "flash_capacity p = unat (part_size p)"

subsection \<open>Block devices\<close>

record ('f, 'e) block_device =
  block_read :: "u32 \<Rightarrow> nat \<Rightarrow> ('f, 'e, u8 list list) action"
  block_write :: "u32 \<Rightarrow> u8 list list \<Rightarrow> ('f, 'e, unit) action"

definition part_start_block :: "Partition \<Rightarrow> u32 \<Rightarrow> u32 option" where
  "part_start_block g block_size = (if part_offset g mod block_size \<noteq> 0 then None else Some (part_offset g div block_size))"

text \<open>\<open>SIZE\<close> is the constant of the device, and \<open>n\<close> the number of blocks.\<close>

definition check_access :: "Partition \<Rightarrow> u32 \<Rightarrow> u32 \<Rightarrow> nat \<Rightarrow> ('e PartitionError, unit) result" where
  "check_access g SIZE block_address n =
     (case checked_mul block_address SIZE of
        None \<Rightarrow> Inl PartOutOfBounds
      | Some offset \<Rightarrow>
          if 2 ^ 32 - 1 < n then Inl PartOutOfBounds
          else case checked_mul (of_nat n) SIZE of
            None \<Rightarrow> Inl PartOutOfBounds
          | Some extent \<Rightarrow> if \<not> within_bounds g offset (unat extent) then Inl PartOutOfBounds else Inr ())"

definition at_block ::
  "Partition \<Rightarrow> u32 \<Rightarrow> u32 \<Rightarrow> nat \<Rightarrow> (u32 \<Rightarrow> ('f, 'e, 'a) action) \<Rightarrow> ('f, 'e PartitionError, 'a) action" where
  "at_block g SIZE block_address n k =
     (case check_access g SIZE block_address n of
        Inl e \<Rightarrow> err e
      | Inr _ \<Rightarrow>
          case part_start_block g SIZE of
            None \<Rightarrow> err PartNotAligned
          | Some first \<Rightarrow> or_out_of_bounds (checked_add first block_address) (\<lambda>b. inner (k b)))"

definition guard_block_read ::
  "('f, 'e) block_device \<Rightarrow> u32 \<Rightarrow> Partition \<Rightarrow> u32 \<Rightarrow> nat \<Rightarrow> ('f, 'e PartitionError, u8 list list) action" where
  "guard_block_read D SIZE g block_address n = at_block g SIZE block_address n (\<lambda>b. block_read D b n)"

definition guard_block_write ::
  "('f, 'e) block_device \<Rightarrow> u32 \<Rightarrow> Partition \<Rightarrow> u32 \<Rightarrow> u8 list list \<Rightarrow> ('f, 'e PartitionError, unit) action" where
  "guard_block_write D SIZE g block_address blocks =
     (case part_marker g of
        RO \<Rightarrow> err PartReadOnly
      | RW \<Rightarrow> at_block g SIZE block_address (length blocks) (\<lambda>b. block_write D b blocks))"

definition block_device_size :: "Partition \<Rightarrow> u64" where
  "block_device_size p = ucast (part_size p)"

subsection \<open>Where the device is accessed\<close>

abbreviation part_fits :: "Partition \<Rightarrow> bool" where
  "part_fits g \<equiv> unwrapped (part_offset g) (part_size g)"

lemma checked_add_cases:
  "(checked_add a b = None \<longleftrightarrow> 2 ^ 32 \<le> unat a + unat b)"
  "checked_add a b = Some c \<longleftrightarrow> unat a + unat b < 2 ^ 32 \<and> c = a + b"
  by (auto simp: checked_add_def)

lemma unat_checked_add: "checked_add a b = Some c \<Longrightarrow> unat c = unat a + unat b"
  by (auto simp: checked_add_def unat_word_ariths split: if_splits)

lemma unat_checked_mul: "checked_mul a b = Some c \<Longrightarrow> unat c = unat a * unat b"
  by (auto simp: checked_mul_def unat_word_ariths split: if_splits)

lemma within_bounds_iff: "within_bounds g offset n \<longleftrightarrow> unat offset + n \<le> unat (part_size g)"
proof (cases "n < 2 ^ 32")
  case True
  then have n: "unat (of_nat n :: u32) = n" by (simp add: unat_of_nat take_bit_nat_eq_self)
  show ?thesis
  proof (cases "checked_add offset (of_nat n)")
    case None
    then have "2 ^ 32 \<le> unat offset + n" by (simp add: checked_add_cases n)
    then show ?thesis using None True unat_u32_less[of "part_size g"] by (auto simp: within_bounds_def)
  next
    case (Some c)
    then show ?thesis using True unat_checked_add[OF Some] by (auto simp: within_bounds_def n word_le_nat_alt)
  qed
next
  case False
  then show ?thesis using unat_u32_less[of "part_size g"] by (auto simp: within_bounds_def)
qed

lemma in_part_add:
  assumes "part_fits g" and "unat offset \<le> unat (part_size g)"
  shows "checked_add offset (part_offset g) = Some (offset + part_offset g)"
    "unat (offset + part_offset g) = unat offset + unat (part_offset g)"
proof -
  show *: "checked_add offset (part_offset g) = Some (offset + part_offset g)"
    using assms by (simp add: checked_add_cases unwrapped_def)
  show "unat (offset + part_offset g) = unat offset + unat (part_offset g)" by (rule unat_checked_add[OF *])
qed

lemma guard_read_eq:
  assumes "part_fits g"
  shows "guard_read F g offset n = (if unat offset + n \<le> unat (part_size g)
    then inner (flash_read F (offset + part_offset g) n) else err PartOutOfBounds)"
  using in_part_add[OF assms, of offset] by (simp add: guard_read_def within_bounds_iff or_out_of_bounds_def)

lemma guard_write_eq:
  assumes "part_fits g"
  shows "guard_write F g offset bytes = (if part_marker g = RO then None else Some (if unat offset + length bytes \<le> unat (part_size g)
    then inner (flash_write F (offset + part_offset g) bytes) else err PartOutOfBounds))"
  using in_part_add[OF assms, of offset]
  by (cases "part_marker g") (simp_all add: guard_write_def within_bounds_iff or_out_of_bounds_def)

lemma guard_erase_eq:
  assumes "part_fits g"
  shows "guard_erase F g start finish = (if part_marker g = RO then None else Some (if start \<le> finish \<and> finish \<le> part_size g
    then inner (flash_erase F (start + part_offset g) (finish + part_offset g)) else err PartOutOfBounds))"
proof (cases "part_marker g = RW \<and> start \<le> finish")
  case True
  then have "unat start + unat (finish - start) = unat finish" by (simp add: unat_sub word_le_nat_alt)
  then show ?thesis
    using True in_part_add[OF assms, of start] in_part_add[OF assms, of finish]
    by (auto simp: guard_erase_def checked_sub_def or_out_of_bounds_def within_bounds_iff word_le_nat_alt)
next
  case False
  then show ?thesis by (cases "part_marker g") (simp_all add: guard_erase_def checked_sub_def or_out_of_bounds_def)
qed

lemma check_access_ok:
  assumes "0 < SIZE"
  shows "(check_access g SIZE b n :: ('e PartitionError, unit) result) =
    (if (unat b + n) * unat SIZE \<le> unat (part_size g) then Inr () else Inl PartOutOfBounds)"
proof -
  have less: "unat (part_size g) < 2 ^ 32" using unat_u32_less[of "part_size g"] by simp
  have pos: "0 < unat SIZE" using assms by (simp add: word_less_nat_alt)
  have n_le: "n \<le> n * unat SIZE" using pos by simp
  show ?thesis
  proof (cases "(unat b + n) * unat SIZE \<le> unat (part_size g)")
    case True
    then have b: "unat b * unat SIZE < 2 ^ 32" and ns: "n * unat SIZE < 2 ^ 32"
      using less by (auto simp: algebra_simps)
    have n: "n < 2 ^ 32" by (rule le_less_trans[OF n_le ns])
    have un: "unat (of_nat n :: u32) = n" using n by (simp add: unat_of_nat take_bit_nat_eq_self)
    have "checked_mul b SIZE = Some (b * SIZE)" "checked_mul (of_nat n) SIZE = Some (of_nat n * SIZE)"
      using b ns by (simp_all add: checked_mul_def un)
    then show ?thesis
      using True n unat_checked_mul[of b SIZE] unat_checked_mul[of "of_nat n" SIZE]
      by (simp add: check_access_def within_bounds_iff un algebra_simps)
  next
    case False
    let ?c = "check_access g SIZE b n :: ('e PartitionError, unit) result"
    have "?c \<noteq> Inr ()"
    proof
      assume "?c = Inr ()"
      then obtain offset extent where mul: "checked_mul b SIZE = Some offset" "checked_mul (of_nat n) SIZE = Some extent"
        and n: "\<not> 2 ^ 32 - 1 < n" and bound: "unat offset + unat extent \<le> unat (part_size g)"
        by (auto simp: check_access_def within_bounds_iff split: option.splits if_splits)
      have "unat (of_nat n :: u32) = n" using n by (simp add: unat_of_nat take_bit_nat_eq_self)
      then show False using False bound unat_checked_mul[OF mul(1)] unat_checked_mul[OF mul(2)] by (simp add: algebra_simps)
    qed
    moreover have "?c = Inr () \<or> ?c = Inl PartOutOfBounds" by (auto simp: check_access_def split: option.split)
    ultimately show ?thesis using False by simp
  qed
qed

lemma at_block_eq:
  assumes "part_fits g" and "0 < SIZE"
  shows "at_block g SIZE b n k = (if (unat b + n) * unat SIZE \<le> unat (part_size g)
    then if part_offset g mod SIZE = 0 then inner (k (part_offset g div SIZE + b)) else err PartNotAligned
    else err PartOutOfBounds)"
    and "(unat b + n) * unat SIZE \<le> unat (part_size g) \<Longrightarrow> part_offset g mod SIZE = 0 \<Longrightarrow>
      unat (part_offset g div SIZE + b) * unat SIZE = unat (part_offset g) + unat b * unat SIZE"
proof -
  have pos: "0 < unat SIZE" using assms(2) by (simp add: word_less_nat_alt)
  let ?first = "part_offset g div SIZE"
  have first: "unat ?first * unat SIZE = unat (part_offset g)" if "part_offset g mod SIZE = 0"
    using that by (simp add: unat_div unat_mod word_unat_eq_iff) (metis dvd_div_mult_self mod_0_imp_dvd)
  have add: "checked_add ?first b = Some (?first + b)"
    if "(unat b + n) * unat SIZE \<le> unat (part_size g)" and "part_offset g mod SIZE = 0"
  proof -
    have "(unat ?first + unat b) * unat SIZE < 2 ^ 32"
      using assms(1) that(1) first[OF that(2)] by (simp add: unwrapped_def algebra_simps)
    moreover have "unat ?first + unat b \<le> (unat ?first + unat b) * unat SIZE" using pos by simp
    ultimately have "unat ?first + unat b < 2 ^ 32" by (rule le_less_trans[rotated])
    then show ?thesis by (simp add: checked_add_cases)
  qed
  show "at_block g SIZE b n k = (if (unat b + n) * unat SIZE \<le> unat (part_size g)
    then if part_offset g mod SIZE = 0 then inner (k (part_offset g div SIZE + b)) else err PartNotAligned
    else err PartOutOfBounds)"
    using add by (auto simp: at_block_def check_access_ok[OF assms(2)] part_start_block_def or_out_of_bounds_def)
  show "unat (?first + b) * unat SIZE = unat (part_offset g) + unat b * unat SIZE"
    if "(unat b + n) * unat SIZE \<le> unat (part_size g)" and "part_offset g mod SIZE = 0"
    using unat_checked_add[OF add[OF that]] first[OF that(2)] by (simp add: algebra_simps)
qed

end
