(* ===== verification/Partition_Props.thy ===== *)
theory Partition_Props
  imports Partition_Access
begin

text \<open>
  Partitions are separate: an operation of a partition reaches the device inside the partition or not at all, and what
  it does there leaves the bytes of every other partition of a checked manifest as they are.
\<close>

subsection \<open>Operations of a partition\<close>

datatype flash_op = FlashRead u32 nat | FlashWrite u32 "u8 list" | FlashErase u32 u32

datatype block_op = BlockRead u32 nat | BlockWrite u32 "u8 list list"

text \<open>The device after an operation, whatever its result; an operation that the partition does not have changes nothing.\<close>

definition device_after :: "('f, 'e, 'a) action option \<Rightarrow> 'f \<Rightarrow> 'f" where
  "device_after m f = (case m of None \<Rightarrow> f | Some m \<Rightarrow> snd (m f))"

fun flash_after :: "('f, 'e) nor_flash \<Rightarrow> Partition \<Rightarrow> flash_op \<Rightarrow> 'f \<Rightarrow> 'f" where
  "flash_after F g (FlashRead offset n) f = snd (guard_read F g offset n f)"
| "flash_after F g (FlashWrite offset bytes) f = device_after (guard_write F g offset bytes) f"
| "flash_after F g (FlashErase start finish) f = device_after (guard_erase F g start finish) f"

fun block_after :: "('f, 'e) block_device \<Rightarrow> u32 \<Rightarrow> Partition \<Rightarrow> block_op \<Rightarrow> 'f \<Rightarrow> 'f" where
  "block_after D SIZE g (BlockRead b n) f = snd (guard_block_read D SIZE g b n f)"
| "block_after D SIZE g (BlockWrite b blocks) f = snd (guard_block_write D SIZE g b blocks f)"

text \<open>What the traits of the devices promise: reading changes no byte, writing and erasing only those they name.
  \<open>content f a\<close> is the byte at address \<open>a\<close>.\<close>

definition flash_local :: "('f \<Rightarrow> nat \<Rightarrow> u8) \<Rightarrow> ('f, 'e) nor_flash \<Rightarrow> bool" where
  "flash_local content F \<longleftrightarrow>
     (\<forall>f a n i. content (snd (flash_read F a n f)) i = content f i)
     \<and> (\<forall>f a bytes i. i \<notin> {unat a ..< unat a + length bytes} \<longrightarrow> content (snd (flash_write F a bytes f)) i = content f i)
     \<and> (\<forall>f a b i. i \<notin> {unat a ..< unat b} \<longrightarrow> content (snd (flash_erase F a b f)) i = content f i)"

definition block_local :: "('f \<Rightarrow> nat \<Rightarrow> u8) \<Rightarrow> u32 \<Rightarrow> ('f, 'e) block_device \<Rightarrow> bool" where
  "block_local content SIZE D \<longleftrightarrow>
     (\<forall>f b n i. content (snd (block_read D b n f)) i = content f i)
     \<and> (\<forall>f b blocks i. i \<notin> {unat b * unat SIZE ..< unat b * unat SIZE + length blocks * unat SIZE}
          \<longrightarrow> content (snd (block_write D b blocks f)) i = content f i)"

lemma snd_inner [simp]: "snd (inner m f) = snd (m f)"
  by (simp add: inner_def split: prod.split)

abbreviation part_span :: "Partition \<Rightarrow> nat set" where
  "part_span g \<equiv> span (part_offset g) (part_size g)"

lemma flash_after_outside:
  assumes "flash_local content F" and "part_fits g" and "i \<notin> part_span g"
  shows "content (flash_after F g op f) i = content f i"
proof (cases op)
  case (FlashRead offset n)
  then show ?thesis using assms(1) by (simp add: guard_read_eq[OF assms(2)] flash_local_def)
next
  case (FlashWrite offset bytes)
  show ?thesis
  proof (cases "unat offset + length bytes \<le> unat (part_size g)")
    case True
    then have "i \<notin> {unat (offset + part_offset g) ..< unat (offset + part_offset g) + length bytes}"
      using assms(3) in_part_add(2)[OF assms(2), of offset] by (auto simp: span_def)
    then show ?thesis using FlashWrite True assms(1) by (simp add: guard_write_eq[OF assms(2)] flash_local_def device_after_def)
  qed (simp add: FlashWrite guard_write_eq[OF assms(2)] device_after_def)
next
  case (FlashErase start finish)
  show ?thesis
  proof (cases "start \<le> finish \<and> finish \<le> part_size g")
    case True
    then have "unat start \<le> unat finish" "unat finish \<le> unat (part_size g)" by (simp_all add: word_le_nat_alt)
    then have "i \<notin> {unat (start + part_offset g) ..< unat (finish + part_offset g)}"
      using assms(3) in_part_add(2)[OF assms(2), of start] in_part_add(2)[OF assms(2), of finish] by (auto simp: span_def)
    then show ?thesis using FlashErase True assms(1) by (simp add: guard_erase_eq[OF assms(2)] flash_local_def device_after_def)
  qed (auto simp: FlashErase guard_erase_eq[OF assms(2)] device_after_def)
qed

lemma block_after_outside:
  assumes "block_local content SIZE D" and "0 < SIZE" and "part_fits g" and "i \<notin> part_span g"
  shows "content (block_after D SIZE g op f) i = content f i"
proof (cases op)
  case (BlockRead b n)
  then show ?thesis
    using assms(1) by (simp add: guard_block_read_def at_block_eq(1)[OF assms(3,2)] block_local_def)
next
  case (BlockWrite b blocks)
  let ?n = "length blocks"
  show ?thesis
  proof (cases "part_marker g = RW \<and> (unat b + ?n) * unat SIZE \<le> unat (part_size g) \<and> part_offset g mod SIZE = 0")
    case True
    let ?b = "part_offset g div SIZE + b"
    have "unat ?b * unat SIZE = unat (part_offset g) + unat b * unat SIZE"
      by (rule at_block_eq(2)[OF assms(3,2), of _ ?n]) (use True in simp_all)
    moreover have "unat b * unat SIZE + ?n * unat SIZE \<le> unat (part_size g)" using True by (simp add: add_mult_distrib)
    ultimately have "i \<notin> {unat ?b * unat SIZE ..< unat ?b * unat SIZE + ?n * unat SIZE}"
      using assms(4) by (auto simp: span_def)
    then show ?thesis
      using BlockWrite True assms(1)
      by (simp add: guard_block_write_def at_block_eq(1)[OF assms(3,2)] block_local_def)
  next
    case False
    then show ?thesis
      by (cases "part_marker g") (auto simp: BlockWrite guard_block_write_def at_block_eq(1)[OF assms(3,2)])
  qed
qed

subsection \<open>Properties\<close>

text \<open>C35. Partitions are isolated. From a manifest that passes its checks, an operation of one partition, on a flash
  or on a block device, changes no byte of a partition of another name, and none beyond the size that the manifest
  gives of the disk, provided that the ends of the partitions do not wrap.\<close>

theorem partitions_are_isolated:
  assumes "generate_partitions v m = Inr gs" and "g \<in> set gs" and "h \<in> set gs" and "gen_name g \<noteq> gen_name h"
    and "unwrapped (gen_offset g) (gen_size g)" and "unwrapped (gen_offset h) (gen_size h)"
    and "disk_size (manifest_disk m) = Some edge" and "i \<in> part_span (partition_of h) \<or> unat edge \<le> i"
  shows "(\<forall>F op f. flash_local content F \<longrightarrow> content (flash_after F (partition_of g) op f) i = content f i)
    \<and> (\<forall>D SIZE op f. 0 < SIZE \<longrightarrow> block_local content SIZE D \<longrightarrow>
         content (block_after D SIZE (partition_of g) op f) i = content f i)"
proof -
  have spans: "part_span (partition_of x) = span (gen_offset x) (gen_size x)" for x
    by (simp add: partition_of_def partition_new_def)
  have "i \<notin> part_span (partition_of g)"
    using assms(8) generated_disjoint[OF assms(1-6)] generated_on_disk[OF assms(1,2,7,5)] unfolding spans by auto
  moreover have "part_fits (partition_of g)" using assms(5) by (simp add: partition_of_def partition_new_def)
  ultimately show ?thesis by (auto intro!: flash_after_outside block_after_outside)
qed

text \<open>C36. In a partition whose end does not wrap, an operation inside the partition is the operation of the device at the
  offset of the partition, and every other operation is refused without reaching the device: an erase whose end is
  before its start, an access over the end, a block write to a read-only partition, and any block access of a partition
  that does not start at a block. A read-only partition of a flash has no write and no erase.\<close>

theorem accesses_stay_in_partition:
  assumes "part_fits g" and "0 < SIZE"
  shows "guard_read F g offset n = (if unat offset + n \<le> unat (part_size g)
      then inner (flash_read F (offset + part_offset g) n) else err PartOutOfBounds)
    \<and> guard_write F g offset bytes = (if part_marker g = RO then None else Some (if unat offset + length bytes \<le> unat (part_size g)
      then inner (flash_write F (offset + part_offset g) bytes) else err PartOutOfBounds))
    \<and> guard_erase F g start finish = (if part_marker g = RO then None else Some (if start \<le> finish \<and> finish \<le> part_size g
      then inner (flash_erase F (start + part_offset g) (finish + part_offset g)) else err PartOutOfBounds))
    \<and> guard_block_read D SIZE g b m = (if (unat b + m) * unat SIZE \<le> unat (part_size g)
      then if part_offset g mod SIZE = 0 then inner (block_read D (part_offset g div SIZE + b) m) else err PartNotAligned
      else err PartOutOfBounds)
    \<and> guard_block_write D SIZE g b blocks = (if part_marker g = RO then err PartReadOnly
      else if (unat b + length blocks) * unat SIZE \<le> unat (part_size g)
      then if part_offset g mod SIZE = 0 then inner (block_write D (part_offset g div SIZE + b) blocks) else err PartNotAligned
      else err PartOutOfBounds)"
  using guard_read_eq[OF assms(1), of F offset n] guard_write_eq[OF assms(1), of F offset bytes]
    guard_erase_eq[OF assms(1), of F start finish] at_block_eq(1)[OF assms, of b "length blocks" "\<lambda>c. block_write D c blocks"]
    at_block_eq(1)[OF assms, of b m "\<lambda>c. block_read D c m"]
  by (cases "part_marker g") (simp_all add: guard_block_write_def guard_block_read_def)

subsection \<open>The properties on concrete inputs\<close>

text \<open>The manifest of the crate's guide, and a disk in memory.\<close>

definition demo_manifest :: Manifest where
  "demo_manifest = \<lparr>manifest_variants = [Other ''application'', Other ''bootloader''],
     manifest_disk = \<lparr>disk_size = Some 0x4000, disk_alignment = Some 0x100\<rparr>,
     manifest_partitions =
       [(''factory'', \<lparr>entry_access = [(Any, RO)], entry_offset = 0, entry_size = 0x100\<rparr>),
        (''settings'', \<lparr>entry_access = [(Any, RO), (Other ''bootloader'', RW)], entry_offset = 0x100, entry_size = 0x200\<rparr>),
        (''slot_a'', \<lparr>entry_access = [], entry_offset = 0x1000, entry_size = 0x1000\<rparr>),
        (''slot_b'', \<lparr>entry_access = [], entry_offset = 0x2000, entry_size = 0x1000\<rparr>)]\<rparr>"

definition demo_flash :: "(nat \<Rightarrow> u8, unit) nor_flash" where
  "demo_flash =
     \<lparr>flash_read = (\<lambda>a n f. (Inr (map (\<lambda>i. f (unat a + i)) [0..<n]), f)),
      flash_write = (\<lambda>a bytes f. (Inr (), \<lambda>i. if i \<in> {unat a ..< unat a + length bytes} then bytes ! (i - unat a) else f i)),
      flash_erase = (\<lambda>a b f. (Inr (), \<lambda>i. if i \<in> {unat a ..< unat b} then 0xFF else f i))\<rparr>"

definition demo_settings :: GeneratedPartition where
  "demo_settings = \<lparr>gen_name = ''settings'', gen_access = RW, gen_offset = 0x100, gen_size = 0x200\<rparr>"

definition demo_slot_a :: GeneratedPartition where
  "demo_slot_a = \<lparr>gen_name = ''slot_a'', gen_access = RW, gen_offset = 0x1000, gen_size = 0x1000\<rparr>"

lemma demo_generated:
  "generate_partitions (Some ''bootloader'') demo_manifest = Inr
     [\<lparr>gen_name = ''factory'', gen_access = RO, gen_offset = 0, gen_size = 0x100\<rparr>, demo_settings, demo_slot_a,
      \<lparr>gen_name = ''slot_b'', gen_access = RW, gen_offset = 0x2000, gen_size = 0x1000\<rparr>]"
  unfolding demo_settings_def demo_slot_a_def by code_simp

definition demo_blocks :: "(nat \<Rightarrow> u8, unit) block_device" where
  "demo_blocks =
     \<lparr>block_read = (\<lambda>b n f. (Inr (map (\<lambda>k. map (\<lambda>i. f (unat b * 0x100 + k * 0x100 + i)) [0..<0x100]) [0..<n]), f)),
      block_write = (\<lambda>b blocks f. (Inr (), \<lambda>i. if i \<in> {unat b * 0x100 ..< unat b * 0x100 + length blocks * 0x100}
        then concat blocks ! (i - unat b * 0x100) else f i))\<rparr>"

theorem partitions_are_isolated_witness:
  "flash_local (\<lambda>f. f) demo_flash \<and> block_local (\<lambda>f. f) 0x100 demo_blocks
    \<and> flash_after demo_flash (partition_of demo_slot_a) (FlashErase 0 0x1000) (\<lambda>_. 0) 0x100 = (0 :: u8)
    \<and> block_after demo_blocks 0x100 (partition_of demo_slot_a) (BlockWrite 15 [replicate 0x100 1]) (\<lambda>_. 0) 0x100 = (0 :: u8)"
proof -
  have local: "flash_local (\<lambda>f. f) demo_flash" "block_local (\<lambda>f. f) 0x100 demo_blocks"
    by (auto simp: flash_local_def demo_flash_def block_local_def demo_blocks_def)
  note isolated = partitions_are_isolated [OF demo_generated, of demo_slot_a demo_settings "0x4000" "0x100" "\<lambda>f. f"]
  note names = demo_slot_a_def demo_settings_def demo_manifest_def unwrapped_def span_def partition_of_def partition_new_def
  show ?thesis
    using local isolated [THEN conjunct1, rule_format, of demo_flash "FlashErase 0 0x1000" "\<lambda>_. 0"]
      isolated [THEN conjunct2, rule_format, of "0x100" demo_blocks "BlockWrite 15 [replicate 0x100 1]" "\<lambda>_. 0"]
    by (simp add: names)
qed

theorem accesses_stay_in_partition_witness:
  "guard_erase demo_flash (partition_of demo_settings) 0x80 0x180 = Some (inner (flash_erase demo_flash 0x180 0x280))
    \<and> guard_block_read demo_blocks 0x100 (partition_of demo_settings) 1 2 = err PartOutOfBounds"
  using accesses_stay_in_partition [where g = "partition_of demo_settings" and SIZE = "0x100" and F = demo_flash
        and start = "0x80" and finish = "0x180", THEN conjunct2, THEN conjunct2, THEN conjunct1]
    accesses_stay_in_partition [where g = "partition_of demo_settings" and SIZE = "0x100" and D = demo_blocks
        and b = 1 and m = 2, THEN conjunct2, THEN conjunct2, THEN conjunct2, THEN conjunct1]
  by (simp add: demo_settings_def unwrapped_def partition_of_def partition_new_def)

end
