(* ===== verification/Shared_Buffer.thy ===== *)
theory Shared_Buffer
  imports Prelude
begin

text \<open>
  Buffers that are borrowed at run time, \<open>embedded-service/src/buffer.rs\<close>. A buffer is its contents and its status; a
  reference or a guard is the range of the buffer it stands for. The buffers are cells of one thread, so each call is
  one step.
\<close>

datatype BufferError = BorrowedImmutably | BorrowedMutably | InvalidRange | BufferPoisoned

datatype BorrowStatus = Unborrowed | Mutable | Immutable u32 | Poisoned

record 't Buffer =
  buffer_contents :: "'t list"
  borrow_status :: BorrowStatus

type_synonym ('t, 'a) buffer_action = "('t Buffer, BufferError, 'a) action"

definition buffer_new :: "'t list \<Rightarrow> 't Buffer" where
  "buffer_new raw = \<lparr>buffer_contents = raw, borrow_status = Unborrowed\<rparr>"

definition buffer_len :: "'t Buffer \<Rightarrow> nat" where
  "buffer_len b = length (buffer_contents b)"

definition borrow :: "bool \<Rightarrow> ('t, unit) buffer_action" where
  "borrow mutable b =
     (let status = (case (borrow_status b, mutable) of
        (Unborrowed, False) \<Rightarrow> Inr (Immutable 1)
      | (Unborrowed, True) \<Rightarrow> Inr Mutable
      | (Mutable, _) \<Rightarrow> Inl BorrowedMutably
      | (Immutable count, False) \<Rightarrow> Inr (Immutable (count + 1))
      | (Immutable _, True) \<Rightarrow> Inl BorrowedImmutably
      | (Poisoned, _) \<Rightarrow> Inl BufferPoisoned)
      in case status of Inl e \<Rightarrow> (Inl e, b) | Inr s \<Rightarrow> (Inr (), b\<lparr>borrow_status := s\<rparr>))"

definition drop_borrow :: "'t Buffer \<Rightarrow> 't Buffer" where
  "drop_borrow b = b\<lparr>borrow_status :=
     (case borrow_status b of
        Unborrowed \<Rightarrow> Poisoned
      | Mutable \<Rightarrow> Unborrowed
      | Immutable count \<Rightarrow> if count = 0 then Poisoned else if count = 1 then Unborrowed else Immutable (count - 1)
      | Poisoned \<Rightarrow> Poisoned)\<rparr>"

subsection \<open>References and guards\<close>

text \<open>\<open>core::ops::Range\<close>, whose length is 0 when it ends before it starts.\<close>

type_synonym slice_range = "nat \<times> nat"

definition range_len :: "slice_range \<Rightarrow> nat" where
  "range_len r = snd r - fst r"

definition access_mut_new :: "('t, unit) buffer_action" where
  "access_mut_new = borrow True"

definition access_new :: "slice_range \<Rightarrow> ('t, slice_range) buffer_action" where
  "access_new r b =
     (if buffer_len b \<le> fst r \<or> buffer_len b < snd r then (Inl InvalidRange, b)
      else and_then (borrow False) (\<lambda>_. ok r) b)"

text \<open>The slice of a guard: indexing by a range that ends before it starts panics.\<close>

definition access_borrow :: "slice_range \<Rightarrow> 't Buffer \<Rightarrow> 't list option" where
  "access_borrow r b =
     (if snd r < fst r \<or> buffer_len b < snd r then None else Some (take (snd r - fst r) (drop (fst r) (buffer_contents b))))"

definition access_mut_borrow_mut :: "('t list \<Rightarrow> 't list) \<Rightarrow> 't Buffer \<Rightarrow> 't Buffer" where
  "access_mut_borrow_mut f b = b\<lparr>buffer_contents := f (buffer_contents b)\<rparr>"

definition new_full_len :: "'t Buffer \<Rightarrow> slice_range" where
  "new_full_len b = (0, buffer_len b)"

definition shared_ref_new :: "slice_range \<Rightarrow> 't Buffer \<Rightarrow> (BufferError, slice_range) result" where
  "shared_ref_new r b = (if buffer_len b \<le> fst r \<or> buffer_len b < snd r then Inl InvalidRange else Inr r)"

definition shared_borrow :: "slice_range \<Rightarrow> ('t, slice_range) buffer_action" where
  "shared_borrow r = access_new r"

definition shared_slice :: "slice_range \<Rightarrow> slice_range \<Rightarrow> 't Buffer \<Rightarrow> (BufferError, slice_range) result" where
  "shared_slice s r b =
     (if range_len s \<le> fst r \<or> range_len s < snd r then Inl InvalidRange
      else let start = fst s + fst r; finish = start + range_len r in shared_ref_new (start, finish) b)"

definition owned_reference :: "'t Buffer \<Rightarrow> slice_range" where
  "owned_reference b = new_full_len b"

definition owned_borrow :: "('t, slice_range) buffer_action" where
  "owned_borrow b = access_new (0, buffer_len b) b"

definition owned_borrow_mut :: "('t, unit) buffer_action" where
  "owned_borrow_mut = access_mut_new"

subsection \<open>The guards that are alive\<close>

text \<open>A buffer with its guards. Safe code drops each guard once, and only a guard can be dropped.\<close>

record 't borrowed =
  the_buffer :: "'t Buffer"
  shared_guards :: "slice_range list"
  mut_guards :: nat

datatype 't buffer_call =
    BorrowShared slice_range
  | BorrowOwned
  | BorrowMut
  | WriteThrough "'t list \<Rightarrow> 't list"
  | DropShared nat
  | DropMut

definition borrowed_new :: "'t list \<Rightarrow> 't borrowed" where
  "borrowed_new raw = \<lparr>the_buffer = buffer_new raw, shared_guards = [], mut_guards = 0\<rparr>"

definition on_access :: "(BufferError, slice_range) result \<times> 't Buffer \<Rightarrow> 't borrowed \<Rightarrow> 't borrowed" where
  "on_access x w = (case x of (Inl _, b) \<Rightarrow> w\<lparr>the_buffer := b\<rparr>
     | (Inr r, b) \<Rightarrow> w\<lparr>the_buffer := b, shared_guards := r # shared_guards w\<rparr>)"

fun borrow_step :: "'t buffer_call \<Rightarrow> 't borrowed \<Rightarrow> 't borrowed" where
  "borrow_step (BorrowShared r) w = on_access (shared_borrow r (the_buffer w)) w"
| "borrow_step BorrowOwned w = on_access (owned_borrow (the_buffer w)) w"
| "borrow_step BorrowMut w =
     (case owned_borrow_mut (the_buffer w) of
        (Inl _, b) \<Rightarrow> w\<lparr>the_buffer := b\<rparr> | (Inr _, b) \<Rightarrow> w\<lparr>the_buffer := b, mut_guards := Suc (mut_guards w)\<rparr>)"
| "borrow_step (WriteThrough f) w =
     (if mut_guards w = 0 \<or> length (f (buffer_contents (the_buffer w))) \<noteq> buffer_len (the_buffer w) then w
      else w\<lparr>the_buffer := access_mut_borrow_mut f (the_buffer w)\<rparr>)"
| "borrow_step (DropShared i) w =
     (if i < length (shared_guards w)
      then w\<lparr>the_buffer := drop_borrow (the_buffer w), shared_guards := take i (shared_guards w) @ drop (Suc i) (shared_guards w)\<rparr>
      else w)"
| "borrow_step DropMut w =
     (if mut_guards w = 0 then w
      else w\<lparr>the_buffer := drop_borrow (the_buffer w), mut_guards := mut_guards w - 1\<rparr>)"

definition borrow_run :: "'t buffer_call list \<Rightarrow> 't borrowed \<Rightarrow> 't borrowed" where
  "borrow_run cs w = fold borrow_step cs w"

text \<open>The status tells which guards are alive: one that writes, or some that read.\<close>

definition borrow_status_of :: "nat \<Rightarrow> nat \<Rightarrow> BorrowStatus" where
  "borrow_status_of shared muts = (if muts = 0 then (if shared = 0 then Unborrowed else Immutable (of_nat shared)) else Mutable)"

definition exclusive :: "'t borrowed \<Rightarrow> bool" where
  "exclusive w \<longleftrightarrow> borrow_status (the_buffer w) = borrow_status_of (length (shared_guards w)) (mut_guards w)
     \<and> (mut_guards w = 0 \<or> mut_guards w = 1 \<and> shared_guards w = [])"

definition guards_inside :: "'t borrowed \<Rightarrow> bool" where
  "guards_inside w \<longleftrightarrow> (\<forall>r \<in> set (shared_guards w). fst r < buffer_len (the_buffer w) \<and> snd r \<le> buffer_len (the_buffer w))"

lemma of_nat_u32_eq: "n < 2 ^ 32 \<Longrightarrow> m < 2 ^ 32 \<Longrightarrow> (of_nat n :: u32) = of_nat m \<longleftrightarrow> n = m"
  by (simp add: word_unat_eq_iff unat_of_nat take_bit_nat_eq_self)

lemma drop_shared_status:
  assumes "0 < n" and "n < 2 ^ 32" and "borrow_status b = borrow_status_of n 0"
  shows "borrow_status (drop_borrow b) = borrow_status_of (n - 1) 0"
proof -
  have "(of_nat n :: u32) \<noteq> 0" using of_nat_u32_eq[of n 0] assms(1,2) by simp
  moreover have "(of_nat n :: u32) = 1 \<longleftrightarrow> n = 1" using of_nat_u32_eq[of n 1] assms(2) by simp
  moreover have "(of_nat n :: u32) - 1 = of_nat (n - 1)" using assms(1) by (simp add: of_nat_diff)
  ultimately show ?thesis using assms(1,3) by (simp add: drop_borrow_def borrow_status_of_def)
qed

lemma borrow_shared_status:
  assumes "borrow_status b = borrow_status_of n 0"
  shows "borrow False b = (Inr (), b\<lparr>borrow_status := borrow_status_of (Suc n) 0\<rparr>)"
  using assms by (auto simp: borrow_def borrow_status_of_def add.commute)

lemma borrow_shared_mut: "borrow_status b = Mutable \<Longrightarrow> borrow m b = (Inl BorrowedMutably, b)"
  by (simp add: borrow_def)

lemma drop_borrow_contents [simp]: "buffer_contents (drop_borrow b) = buffer_contents b" "buffer_len (drop_borrow b) = buffer_len b"
  by (simp_all add: drop_borrow_def buffer_len_def)

lemma on_access_exclusive:
  assumes "exclusive w" and "guards_inside w"
  shows "exclusive (on_access (access_new r (the_buffer w)) w) \<and> guards_inside (on_access (access_new r (the_buffer w)) w)
    \<and> length (shared_guards (on_access (access_new r (the_buffer w)) w)) \<le> Suc (length (shared_guards w))"
proof (cases "buffer_len (the_buffer w) \<le> fst r \<or> buffer_len (the_buffer w) < snd r")
  case True
  then show ?thesis using assms by (simp add: access_new_def on_access_def)
next
  case inside: False
  show ?thesis
  proof (cases "mut_guards w = 0")
    case True
    then have "borrow_status (the_buffer w) = borrow_status_of (length (shared_guards w)) 0" using assms(1) by (simp add: exclusive_def)
    note borrowed = borrow_shared_status[OF this]
    show ?thesis
      using inside assms(2) True
      by (auto simp: access_new_def on_access_def borrowed exclusive_def guards_inside_def buffer_len_def)
  next
    case False
    then have "borrow_status (the_buffer w) = Mutable" using assms(1) by (simp add: exclusive_def borrow_status_of_def)
    then show ?thesis using inside assms by (simp add: access_new_def on_access_def and_then_def borrow_shared_mut)
  qed
qed

lemma borrow_step_exclusive:
  assumes "exclusive w" and "guards_inside w" and "length (shared_guards w) < 2 ^ 32"
  shows "exclusive (borrow_step c w) \<and> guards_inside (borrow_step c w)
    \<and> length (shared_guards (borrow_step c w)) \<le> Suc (length (shared_guards w))"
proof (cases c)
  case (BorrowShared r)
  then show ?thesis using on_access_exclusive[OF assms(1,2)] by (simp add: shared_borrow_def)
next
  case BorrowOwned
  then show ?thesis using on_access_exclusive[OF assms(1,2)] by (simp add: owned_borrow_def)
next
  case BorrowMut
  show ?thesis
  proof (cases "mut_guards w = 0 \<and> shared_guards w = []")
    case True
    then have "borrow True (the_buffer w) = (Inr (), (the_buffer w)\<lparr>borrow_status := Mutable\<rparr>)"
      using assms(1) by (simp add: exclusive_def borrow_status_of_def borrow_def)
    then show ?thesis
      using True BorrowMut by (simp add: owned_borrow_mut_def access_mut_new_def exclusive_def borrow_status_of_def guards_inside_def)
  next
    case False
    then have "fst (borrow True (the_buffer w)) \<noteq> Inr () \<and> snd (borrow True (the_buffer w)) = the_buffer w"
      using assms(1) by (auto simp: exclusive_def borrow_status_of_def borrow_def)
    then obtain e where "borrow True (the_buffer w) = (Inl e, the_buffer w)"
      by (cases "borrow True (the_buffer w)"; cases "fst (borrow True (the_buffer w))") auto
    then show ?thesis using assms BorrowMut by (simp add: owned_borrow_mut_def access_mut_new_def)
  qed
next
  case (WriteThrough f)
  then show ?thesis using assms by (auto simp: access_mut_borrow_mut_def exclusive_def guards_inside_def buffer_len_def)
next
  case (DropShared i)
  show ?thesis
  proof (cases "i < length (shared_guards w)")
    case True
    then have no_mut: "mut_guards w = 0" and some: "0 < length (shared_guards w)" using assms(1) by (auto simp: exclusive_def)
    have "borrow_status (the_buffer w) = borrow_status_of (length (shared_guards w)) 0" using assms(1) no_mut by (simp add: exclusive_def)
    note dropped = drop_shared_status[OF some assms(3) this]
    have len: "length (take i (shared_guards w) @ drop (Suc i) (shared_guards w)) = length (shared_guards w) - 1"
      using True by simp
    show ?thesis
      using True assms(2) DropShared dropped len no_mut
      by (auto simp: exclusive_def guards_inside_def dest: in_set_takeD in_set_dropD)
  qed (use DropShared assms in simp)
next
  case DropMut
  then show ?thesis using assms
    by (auto simp: exclusive_def borrow_status_of_def drop_borrow_def guards_inside_def buffer_len_def)
qed

lemma borrow_run_exclusive:
  assumes "exclusive w" and "guards_inside w" and "length (shared_guards w) + length cs < 2 ^ 32"
  shows "exclusive (borrow_run cs w) \<and> guards_inside (borrow_run cs w)"
  using assms
proof (induction cs arbitrary: w)
  case (Cons c cs)
  have "length (shared_guards w) < 2 ^ 32" using Cons.prems(3) by simp
  note step = borrow_step_exclusive[OF Cons.prems(1,2) this, of c]
  then have "length (shared_guards (borrow_step c w)) + length cs < 2 ^ 32" using Cons.prems(3) by simp
  then show ?case using Cons.IH[of "borrow_step c w"] step by (simp add: borrow_run_def)
qed (simp add: borrow_run_def)

text \<open>A guard whose range ends before it starts passes the checks and panics when it is read; a buffer without
  elements cannot be borrowed to be read.\<close>

lemma reversed_slice_panics:
  "finish < start \<Longrightarrow> start < buffer_len b \<Longrightarrow> shared_ref_new (start, finish) b = Inr (start, finish) \<and> access_borrow (start, finish) b = None"
  by (simp add: shared_ref_new_def access_borrow_def)

lemma empty_buffer_not_borrowed: "fst (owned_borrow (buffer_new [])) = Inl InvalidRange"
  by (simp add: owned_borrow_def access_new_def buffer_len_def buffer_new_def)

text \<open>A slice of a slice is the part of its contents.\<close>

lemma slice_of_slice:
  assumes "access_borrow s b = Some xs" and "shared_slice s r b = Inr t" and "fst r \<le> snd r"
  shows "access_borrow t b = Some (take (snd r - fst r) (drop (fst r) xs))"
proof -
  obtain p q where r: "r = (p, q)" by (cases r)
  obtain i j where s: "s = (i, j)" by (cases s)
  have xs: "xs = take (j - i) (drop i (buffer_contents b))" and ij: "i \<le> j" "j \<le> buffer_len b"
    using assms(1) s by (auto simp: access_borrow_def split: if_splits)
  have t: "t = (i + p, i + p + (q - p))" and pq: "p \<le> q" "q \<le> j - i" and inside: "i + p + (q - p) \<le> buffer_len b"
    using assms(2,3) s r by (auto simp: shared_slice_def shared_ref_new_def range_len_def Let_def split: if_splits)
  have "take (q - p) (drop p xs) = take (q - p) (drop (i + p) (buffer_contents b))"
    using pq by (simp add: xs drop_take min_absorb1 add.commute)
  then show ?thesis using inside by (simp add: t r access_borrow_def)
qed

subsection \<open>Properties\<close>

text \<open>C37. However a buffer is borrowed, written and given back, a guard that writes is the only guard alive, the status
  counts the guards, so that no drop ever poisons the buffer, and every guard lies inside the buffer. The number of
  calls is below \<open>2 ^ 32\<close>, where the count of the guards would wrap.\<close>

theorem buffer_borrows_are_exclusive:
  assumes "length cs < 2 ^ 32"
  shows "let w = borrow_run cs (borrowed_new raw) in
      (mut_guards w = 0 \<or> mut_guards w = 1 \<and> shared_guards w = [])
      \<and> borrow_status (the_buffer w) = borrow_status_of (length (shared_guards w)) (mut_guards w)
      \<and> borrow_status (the_buffer w) \<noteq> Poisoned
      \<and> list_all (\<lambda>r. fst r < buffer_len (the_buffer w) \<and> snd r \<le> buffer_len (the_buffer w)) (shared_guards w)"
proof -
  have "exclusive (borrowed_new raw)" "guards_inside (borrowed_new raw)"
    by (simp_all add: borrowed_new_def buffer_new_def exclusive_def borrow_status_of_def guards_inside_def)
  then have run: "exclusive (borrow_run cs (borrowed_new raw))" "guards_inside (borrow_run cs (borrowed_new raw))"
    using borrow_run_exclusive[of "borrowed_new raw" cs] assms by (simp_all add: borrowed_new_def)
  have "borrow_status_of n k \<noteq> Poisoned" for n k by (simp add: borrow_status_of_def)
  with run show ?thesis unfolding Let_def exclusive_def guards_inside_def list_all_iff by metis
qed

theorem buffer_borrows_are_exclusive_witness:
  "let w = borrow_run [BorrowShared (1, 3), BorrowOwned, BorrowMut, DropShared 0] (borrowed_new [1, 2, 3, 4 :: u8]) in
    shared_guards w = [(1, 3)] \<and> borrow_status (the_buffer w) = borrow_status_of 1 0"
proof -
  have "shared_guards (borrow_run [BorrowShared (1, 3), BorrowOwned, BorrowMut, DropShared 0] (borrowed_new [1, 2, 3, 4 :: u8])) = [(1, 3)]
    \<and> mut_guards (borrow_run [BorrowShared (1, 3), BorrowOwned, BorrowMut, DropShared 0] (borrowed_new [1, 2, 3, 4 :: u8])) = 0"
    by code_simp
  then show ?thesis
    using buffer_borrows_are_exclusive [of "[BorrowShared (1, 3), BorrowOwned, BorrowMut, DropShared 0]" "[1, 2, 3, 4 :: u8]"]
    by (simp add: Let_def)
qed

end
