(* ===== verification/Hid_Command.thy ===== *)
theory Hid_Command
  imports Shared_Buffer Relay_Bytes
begin

text \<open>
  HID commands of the older I2C interface: \<open>embedded-service/src/hid/command.rs\<close>, the descriptor of \<open>hid/mod.rs\<close>, and how
  the host side of \<open>hid-service/src/i2c/host.rs\<close> reads a command. The data of a report is a slice of a buffer. An encoder
  returns the bytes it counts, where the remaining slice starts, and the slice as it is then.
\<close>

datatype CmdError =
    CmdInvalidData
  | CmdInvalidSize nat nat
  | CmdInvalidRegisterAddress
  | CmdInvalidDevice
  | CmdInvalidCommand
  | RequiresReportId
  | RequiresData
  | CmdInvalidReportType
  | CmdInvalidReportFreq
  | CmdTransport
  | CmdTimeout
  | CmdSerialize

datatype CmdReportType = CmdInput | CmdOutput | CmdFeature
datatype CmdPowerState = CmdOn | CmdSleep
datatype ReportFreq = Infinite | Msecs u16
datatype HidProtocol = BootProtocol | ReportProtocol

datatype CmdOpcode =
    CoReset | CoGetReport | CoSetReport | CoGetIdle | CoSetIdle | CoGetProtocol | CoSetProtocol | CoSetPower | CoVendor

definition FEATURE_MASK :: u16 where "FEATURE_MASK = 0x30"
definition FEATURE_SHIFT :: nat where "FEATURE_SHIFT = 4"
definition EXTENDED_REPORT_CMD_LEN :: nat where "EXTENDED_REPORT_CMD_LEN = 3"
definition STANDARD_REPORT_CMD_LEN :: nat where "STANDARD_REPORT_CMD_LEN = 2"
definition BASIC_CMD_LEN :: nat where "BASIC_CMD_LEN = 2"
definition REGISTER_LEN :: nat where "REGISTER_LEN = 2"
definition LENGTH_VALUE_LEN :: nat where "LENGTH_VALUE_LEN = 4"
definition VALUE_LEN :: nat where "VALUE_LEN = 2"
definition POWER_STATE_MASK :: u16 where "POWER_STATE_MASK = 0x3"
definition OPCODE_MASK :: u16 where "OPCODE_MASK = 0xF00"
definition OPCODE_SHIFT :: nat where "OPCODE_SHIFT = 8"
definition EXTENDED_REPORT_ID :: u8 where "EXTENDED_REPORT_ID = 0xF"
definition REPORT_ID_MASK :: u16 where "REPORT_ID_MASK = 0xF"

lemmas cmd_lengths = EXTENDED_REPORT_CMD_LEN_def STANDARD_REPORT_CMD_LEN_def BASIC_CMD_LEN_def REGISTER_LEN_def
  LENGTH_VALUE_LEN_def VALUE_LEN_def
lemmas cmd_masks = FEATURE_MASK_def FEATURE_SHIFT_def POWER_STATE_MASK_def OPCODE_MASK_def OPCODE_SHIFT_def
  EXTENDED_REPORT_ID_def REPORT_ID_MASK_def

subsection \<open>Codes\<close>

definition report_type_try_from :: "u16 \<Rightarrow> (CmdError, CmdReportType) result" where
  "report_type_try_from v =
     (let t = drop_bit FEATURE_SHIFT (v AND FEATURE_MASK)
      in if t = 1 then Inr CmdInput else if t = 2 then Inr CmdOutput else if t = 3 then Inr CmdFeature else Inl CmdSerialize)"

fun report_type_code :: "CmdReportType \<Rightarrow> u16" where
  "report_type_code CmdInput = push_bit FEATURE_SHIFT 1"
| "report_type_code CmdOutput = push_bit FEATURE_SHIFT 2"
| "report_type_code CmdFeature = push_bit FEATURE_SHIFT 3"

definition cmd_power_try_from :: "u16 \<Rightarrow> (CmdError, CmdPowerState) result" where
  "cmd_power_try_from v =
     (let s = v AND POWER_STATE_MASK in if s = 0 then Inr CmdOn else if s = 1 then Inr CmdSleep else Inl CmdSerialize)"

fun cmd_power_code :: "CmdPowerState \<Rightarrow> u16" where
  "cmd_power_code CmdOn = 0"
| "cmd_power_code CmdSleep = 1"

definition report_freq_try_from :: "u16 \<Rightarrow> (CmdError, ReportFreq) result" where
  "report_freq_try_from v = (if v = 0 then Inr Infinite else Inr (Msecs v))"

fun report_freq_code :: "ReportFreq \<Rightarrow> u16" where
  "report_freq_code Infinite = 0"
| "report_freq_code (Msecs v) = v"

definition protocol_try_from :: "u16 \<Rightarrow> (CmdError, HidProtocol) result" where
  "protocol_try_from v = (if v = 0 then Inr BootProtocol else if v = 1 then Inr ReportProtocol else Inl CmdSerialize)"

fun protocol_code :: "HidProtocol \<Rightarrow> u16" where
  "protocol_code BootProtocol = 0"
| "protocol_code ReportProtocol = 1"

definition cmd_opcode_try_from :: "u16 \<Rightarrow> (CmdError, CmdOpcode) result" where
  "cmd_opcode_try_from v =
     (let o1 = drop_bit OPCODE_SHIFT (v AND OPCODE_MASK)
      in if o1 = 1 then Inr CoReset else if o1 = 2 then Inr CoGetReport else if o1 = 3 then Inr CoSetReport
         else if o1 = 4 then Inr CoGetIdle else if o1 = 5 then Inr CoSetIdle else if o1 = 6 then Inr CoGetProtocol
         else if o1 = 7 then Inr CoSetProtocol else if o1 = 8 then Inr CoSetPower else if o1 = 14 then Inr CoVendor
         else Inl CmdSerialize)"

fun cmd_opcode_code :: "CmdOpcode \<Rightarrow> u16" where
  "cmd_opcode_code CoReset = push_bit OPCODE_SHIFT 1"
| "cmd_opcode_code CoGetReport = push_bit OPCODE_SHIFT 2"
| "cmd_opcode_code CoSetReport = push_bit OPCODE_SHIFT 3"
| "cmd_opcode_code CoGetIdle = push_bit OPCODE_SHIFT 4"
| "cmd_opcode_code CoSetIdle = push_bit OPCODE_SHIFT 5"
| "cmd_opcode_code CoGetProtocol = push_bit OPCODE_SHIFT 6"
| "cmd_opcode_code CoSetProtocol = push_bit OPCODE_SHIFT 7"
| "cmd_opcode_code CoSetPower = push_bit OPCODE_SHIFT 8"
| "cmd_opcode_code CoVendor = push_bit OPCODE_SHIFT 14"

definition requires_host_data :: "CmdOpcode \<Rightarrow> bool" where
  "requires_host_data c \<longleftrightarrow> c = CoSetReport \<or> c = CoSetIdle \<or> c = CoVendor"

definition requires_report_id :: "CmdOpcode \<Rightarrow> bool" where
  "requires_report_id c \<longleftrightarrow> c = CoGetReport \<or> c = CoSetReport \<or> c = CoGetIdle \<or> c = CoSetIdle"

definition cmd_has_response :: "CmdOpcode \<Rightarrow> bool" where
  "cmd_has_response c \<longleftrightarrow> c = CoGetReport \<or> c = CoGetIdle \<or> c = CoGetProtocol"

definition report_id_from_command :: "u16 \<Rightarrow> u8" where
  "report_id_from_command v = ucast (v AND REPORT_ID_MASK)"

definition has_extended_report_id :: "u16 \<Rightarrow> bool" where
  "has_extended_report_id v \<longleftrightarrow> report_id_from_command v = EXTENDED_REPORT_ID"

subsection \<open>Commands\<close>

text \<open>A \<open>SharedRef\<close>: the buffer as it is when it is read, and the slice.\<close>

type_synonym shared_ref = "u8 Buffer \<times> slice_range"

datatype HidCommand =
    CommandReset
  | CommandGetReport CmdReportType u8 "u16 option"
  | CommandSetReport CmdReportType u8 shared_ref
  | CommandGetIdle u8
  | CommandSetIdle u8 ReportFreq
  | CommandGetProtocol
  | CommandSetProtocol HidProtocol
  | CommandSetPower CmdPowerState
  | CommandVendor

fun opcode_of :: "HidCommand \<Rightarrow> CmdOpcode" where
  "opcode_of CommandReset = CoReset"
| "opcode_of (CommandGetReport _ _ _) = CoGetReport"
| "opcode_of (CommandSetReport _ _ _) = CoSetReport"
| "opcode_of (CommandGetIdle _) = CoGetIdle"
| "opcode_of (CommandSetIdle _ _) = CoSetIdle"
| "opcode_of CommandGetProtocol = CoGetProtocol"
| "opcode_of (CommandSetProtocol _) = CoSetProtocol"
| "opcode_of (CommandSetPower _) = CoSetPower"
| "opcode_of CommandVendor = CoVendor"

definition ok_or :: "'a option \<Rightarrow> 'e \<Rightarrow> ('e, 'a) result" where
  "ok_or x e = (case x of None \<Rightarrow> Inl e | Some a \<Rightarrow> Inr a)"

definition map_err :: "('e \<Rightarrow> 'f) \<Rightarrow> ('e, 'a) result \<Rightarrow> ('f, 'a) result" where
  "map_err f r = map_sum f (\<lambda>a. a) r"

definition command_new ::
  "u16 \<Rightarrow> CmdOpcode \<Rightarrow> CmdReportType option \<Rightarrow> u8 option \<Rightarrow> shared_ref option \<Rightarrow> u16 option
     \<Rightarrow> (CmdError, HidCommand) result" where
  "command_new cmd opcode report_type report data expected =
     (if requires_report_id opcode \<and> report = None then Inl RequiresReportId
      else if requires_host_data opcode \<and> data = None \<and> opcode \<noteq> CoVendor then Inl RequiresData
      else let report_type = ok_or report_type CmdInvalidReportType
      in case opcode of
           CoReset \<Rightarrow> Inr CommandReset
         | CoGetReport \<Rightarrow>
             then_read report_type (\<lambda>t.
               if t = CmdInput \<or> t = CmdFeature
               then then_read (ok_or report RequiresReportId) (\<lambda>i. Inr (CommandGetReport t i expected))
               else Inl CmdInvalidReportType)
         | CoSetReport \<Rightarrow>
             then_read report_type (\<lambda>t.
               if t = CmdOutput \<or> t = CmdFeature
               then then_read (ok_or report RequiresReportId) (\<lambda>i. then_read (ok_or data RequiresData) (\<lambda>d.
                 Inr (CommandSetReport t i d)))
               else Inl CmdInvalidReportType)
         | CoGetIdle \<Rightarrow> then_read (ok_or report RequiresReportId) (\<lambda>i. Inr (CommandGetIdle i))
         | CoSetIdle \<Rightarrow>
             then_read (ok_or report RequiresReportId) (\<lambda>i.
             then_read (map_err (\<lambda>_. CmdInvalidReportFreq) (report_freq_try_from cmd)) (\<lambda>freq. Inr (CommandSetIdle i freq)))
         | CoGetProtocol \<Rightarrow> Inr CommandGetProtocol
         | CoSetProtocol \<Rightarrow>
             then_read (map_err (\<lambda>_. CmdInvalidData) (protocol_try_from cmd)) (\<lambda>p. Inr (CommandSetProtocol p))
         | CoSetPower \<Rightarrow>
             then_read (map_err (\<lambda>_. CmdInvalidData) (cmd_power_try_from cmd)) (\<lambda>s. Inr (CommandSetPower s))
         | CoVendor \<Rightarrow> Inr CommandVendor)"

subsection \<open>Encoding\<close>

type_synonym encoder = "u8 list \<Rightarrow> (CmdError, nat \<times> nat \<times> u8 list) result"

text \<open>Bytes at the start of the slice, if it has room for them.\<close>

definition put_front :: "nat \<Rightarrow> u8 list \<Rightarrow> encoder" where
  "put_front n bytes buf =
     (if length buf < n then Inl (CmdInvalidSize n (length buf)) else Inr (n, n, bytes @ drop (length bytes) buf))"

text \<open>\<open>let (n, buf) = first?; len += n;\<close>, then the rest on the remaining slice.\<close>

definition enc_then :: "encoder \<Rightarrow> encoder \<Rightarrow> encoder" where
  "enc_then first second buf =
     (case first buf of
        Inl e \<Rightarrow> Inl e
      | Inr (n, pos, buf) \<Rightarrow>
          (case second (drop pos buf) of
             Inl e \<Rightarrow> Inl e
           | Inr (m, pos', remaining) \<Rightarrow> Inr (n + m, pos + pos', take pos buf @ remaining)))"

definition encode_common :: "CmdOpcode \<Rightarrow> CmdReportType option \<Rightarrow> u8 \<Rightarrow> encoder" where
  "encode_common opcode report_type report =
     (let v = cmd_opcode_code opcode OR (case report_type of None \<Rightarrow> 0 | Some t \<Rightarrow> report_type_code t)
      in if EXTENDED_REPORT_ID \<le> report
         then put_front EXTENDED_REPORT_CMD_LEN (to_le_bytes16 (v OR ucast EXTENDED_REPORT_ID) @ [report])
         else put_front STANDARD_REPORT_CMD_LEN (to_le_bytes16 (v OR ucast report)))"

definition encode_basic_op :: "CmdOpcode \<Rightarrow> encoder" where
  "encode_basic_op opcode = put_front BASIC_CMD_LEN (to_le_bytes16 (cmd_opcode_code opcode))"

definition encode_register :: "u16 option \<Rightarrow> encoder" where
  "encode_register reg buf =
     (case reg of Some r \<Rightarrow> put_front REGISTER_LEN (to_le_bytes16 r) buf | None \<Rightarrow> Inr (0, 0, buf))"

definition encode_value :: "u16 \<Rightarrow> encoder" where
  "encode_value v = put_front LENGTH_VALUE_LEN (to_le_bytes16 4 @ to_le_bytes16 v)"

text \<open>The slice returned starts within the data, where the length prefix is not counted; no caller uses it.\<close>

definition encode_data :: "u8 list \<Rightarrow> encoder" where
  "encode_data data buf =
     (let total_len = length data + 2
      in if length buf < total_len then Inl (CmdInvalidSize total_len (length buf))
         else Inr (total_len, length data, to_le_bytes16 (of_nat total_len) @ data @ drop total_len buf))"

definition encode_power :: "CmdPowerState \<Rightarrow> encoder" where
  "encode_power s = put_front 2 (to_le_bytes16 (cmd_opcode_code CoSetPower OR cmd_power_code s))"

text \<open>\<open>data.borrow().map_err(..)?\<close>: the guard is dropped again when the command is written.\<close>

definition ref_data :: "shared_ref \<Rightarrow> u8 list option" where
  "ref_data d = (case fst (shared_borrow (snd d) (fst d)) of Inl _ \<Rightarrow> None | Inr r \<Rightarrow> access_borrow r (fst d))"

fun encode_command :: "u16 option \<Rightarrow> HidCommand \<Rightarrow> encoder" where
  "encode_command reg CommandReset = encode_basic_op CoReset"
| "encode_command reg (CommandGetReport t i _) = enc_then (encode_common CoGetReport (Some t) i) (encode_register reg)"
| "encode_command reg (CommandSetReport t i d) =
     (case ref_data d of
        None \<Rightarrow> \<lambda>_. Inl CmdInvalidData
      | Some data \<Rightarrow> enc_then (encode_common CoSetReport (Some t) i) (enc_then (encode_register reg) (encode_data data)))"
| "encode_command reg (CommandGetIdle i) = enc_then (encode_common CoGetIdle None i) (encode_register reg)"
| "encode_command reg (CommandSetIdle i freq) =
     enc_then (encode_common CoSetIdle None i) (enc_then (encode_register reg) (encode_value (report_freq_code freq)))"
| "encode_command reg CommandGetProtocol = enc_then (encode_basic_op CoGetProtocol) (encode_register reg)"
| "encode_command reg (CommandSetProtocol p) =
     enc_then (encode_basic_op CoSetProtocol) (enc_then (encode_register reg) (encode_value (protocol_code p)))"
| "encode_command reg (CommandSetPower s) = encode_power s"
| "encode_command reg CommandVendor = encode_basic_op CoVendor"

definition encode_into_slice ::
  "HidCommand \<Rightarrow> u16 option \<Rightarrow> u16 option \<Rightarrow> u8 list \<Rightarrow> (CmdError, nat \<times> u8 list) result" where
  "encode_into_slice c command_reg data_reg buf =
     map_sum (\<lambda>e. e) (\<lambda>(n, _, b). (n, b)) (enc_then (encode_register command_reg) (encode_command data_reg c) buf)"

subsection \<open>The descriptor\<close>

definition DESCRIPTOR_LEN :: nat where "DESCRIPTOR_LEN = 30"

record HidI2cDescriptor =
  w_hid_desc_length :: u16
  bcd_version :: u16
  w_report_desc_length :: u16
  w_report_desc_register :: u16
  w_input_register :: u16
  w_max_input_length :: u16
  w_output_register :: u16
  w_max_output_length :: u16
  w_command_register :: u16
  w_data_register :: u16
  w_vendor_id :: u16
  w_product_id :: u16
  w_version_id :: u16

definition descriptor_bytes :: "HidI2cDescriptor \<Rightarrow> u8 list" where
  "descriptor_bytes d =
     to_le_bytes16 (w_hid_desc_length d) @ to_le_bytes16 (bcd_version d) @ to_le_bytes16 (w_report_desc_length d)
     @ to_le_bytes16 (w_report_desc_register d) @ to_le_bytes16 (w_input_register d) @ to_le_bytes16 (w_max_input_length d)
     @ to_le_bytes16 (w_output_register d) @ to_le_bytes16 (w_max_output_length d) @ to_le_bytes16 (w_command_register d)
     @ to_le_bytes16 (w_data_register d) @ to_le_bytes16 (w_vendor_id d) @ to_le_bytes16 (w_product_id d)
     @ to_le_bytes16 (w_version_id d) @ [0, 0, 0, 0]"

definition descriptor_encode :: "HidI2cDescriptor \<Rightarrow> u8 list \<Rightarrow> (CmdError, nat \<times> u8 list) result" where
  "descriptor_encode d buf =
     (if length buf < DESCRIPTOR_LEN then Inl (CmdInvalidSize DESCRIPTOR_LEN (length buf))
      else Inr (30, descriptor_bytes d @ drop 30 buf))"

definition u16_at :: "u8 list \<Rightarrow> nat \<Rightarrow> u16" where
  "u16_at buf i = from_le_bytes16 [buf ! i, buf ! (i + 1)]"

definition descriptor_decode :: "u8 list \<Rightarrow> (CmdError, HidI2cDescriptor) result" where
  "descriptor_decode buf =
     (if length buf < DESCRIPTOR_LEN then Inl (CmdInvalidSize DESCRIPTOR_LEN (length buf))
      else if take 4 (drop 26 buf) \<noteq> [0, 0, 0, 0] then Inl CmdInvalidData
      else Inr \<lparr>w_hid_desc_length = u16_at buf 0, bcd_version = u16_at buf 2, w_report_desc_length = u16_at buf 4,
        w_report_desc_register = u16_at buf 6, w_input_register = u16_at buf 8, w_max_input_length = u16_at buf 10,
        w_output_register = u16_at buf 12, w_max_output_length = u16_at buf 14, w_command_register = u16_at buf 16,
        w_data_register = u16_at buf 18, w_vendor_id = u16_at buf 20, w_product_id = u16_at buf 22,
        w_version_id = u16_at buf 24\<rparr>)"

subsection \<open>The host side reads a command\<close>

record RegisterFile =
  hid_desc_reg :: u16
  report_desc_reg :: u16
  input_reg :: u16
  output_reg :: u16
  command_reg :: u16
  data_reg :: u16

definition register_file_default :: RegisterFile where
  "register_file_default = \<lparr>hid_desc_reg = 1, report_desc_reg = 2, input_reg = 3, output_reg = 4, command_reg = 5, data_reg = 6\<rparr>"

datatype HostError = HostHid CmdError | HostBus | HostBuffer BufferError

text \<open>The bus is what the host is about to write: bytes, and \<open>None\<close> where the bus fails. A read that outlasts them times
  out.\<close>

record hid_host =
  host_bus :: "u8 option list"
  host_buffer :: "u8 Buffer"

definition host_read_bus :: "nat \<Rightarrow> (hid_host, HostError, u8 list) action" where
  "host_read_bus n h =
     (let bytes = take n (host_bus h)
      in if length bytes < n then (Inl (HostHid CmdTimeout), h)
         else let h = h\<lparr>host_bus := drop n (host_bus h)\<rparr>
              in if None \<in> set bytes then (Inl HostBus, h) else (Inr (map the bytes), h))"

text \<open>A read into a part of the borrowed buffer.\<close>

definition read_into_buffer :: "nat \<Rightarrow> nat \<Rightarrow> (hid_host, HostError, unit) action" where
  "read_into_buffer start finish h =
     (let n = buffer_len (host_buffer h)
      in if finish < start \<or> n < finish then (Inl (HostHid (CmdInvalidSize finish n)), h)
         else and_then (host_read_bus (finish - start)) (\<lambda>bytes. modify (\<lambda>h. h\<lparr>host_buffer :=
           access_mut_borrow_mut (\<lambda>c. take start c @ bytes @ drop finish c) (host_buffer h)\<rparr>)) h)"

definition read_host_data :: "(hid_host, HostError, shared_ref) action" where
  "read_host_data =
     and_then (read_into_buffer 0 2) (\<lambda>_ h.
       let len = unat (u16_at (buffer_contents (host_buffer h)) 0)
       in and_then (read_into_buffer 2 len) (\<lambda>_ h.
         (case shared_slice (owned_reference (host_buffer h)) (2, len) (host_buffer h) of
            Inl e \<Rightarrow> (Inl (HostBuffer e), h) | Inr r \<Rightarrow> (Inr (host_buffer h, r), h))) h)"

text \<open>The mutable borrow of the buffer lasts until the data is read, or an error is returned; the reference is used
  after it is dropped.\<close>

definition with_borrowed_buffer :: "(hid_host, HostError, shared_ref) action \<Rightarrow> (hid_host, HostError, shared_ref) action" where
  "with_borrowed_buffer m h =
     (case owned_borrow_mut (host_buffer h) of
        (Inl e, b) \<Rightarrow> (Inl (HostBuffer e), h\<lparr>host_buffer := b\<rparr>)
      | (Inr _, b) \<Rightarrow>
          (case m (h\<lparr>host_buffer := b\<rparr>) of
             (r, h) \<Rightarrow>
               let b = drop_borrow (host_buffer h) in (map_sum (\<lambda>e. e) (\<lambda>d. (b, snd d)) r, h\<lparr>host_buffer := b\<rparr>)))"

definition read_report_id :: "u16 \<Rightarrow> CmdOpcode \<Rightarrow> (hid_host, HostError, u8 option) action" where
  "read_report_id cmd opcode =
     (if requires_report_id opcode
      then if has_extended_report_id cmd then and_then (host_read_bus 1) (\<lambda>bytes. ok (Some (bytes ! 0)))
           else ok (Some (report_id_from_command cmd))
      else ok None)"

definition read_command_data :: "RegisterFile \<Rightarrow> CmdOpcode \<Rightarrow> (hid_host, HostError, shared_ref option) action" where
  "read_command_data regs opcode =
     (if requires_host_data opcode \<or> cmd_has_response opcode
      then and_then (host_read_bus 2) (\<lambda>addr.
        if from_le_bytes16 addr \<noteq> data_reg regs then err (HostHid CmdInvalidRegisterAddress)
        else if requires_host_data opcode
        then and_then (with_borrowed_buffer read_host_data) (\<lambda>d. ok (Some d))
        else ok None)
      else ok None)"

definition host_process_command :: "RegisterFile \<Rightarrow> (hid_host, HostError, HidCommand) action" where
  "host_process_command regs =
     and_then (host_read_bus 2) (\<lambda>bytes.
       let cmd = from_le_bytes16 bytes
       in case cmd_opcode_try_from cmd of
            Inl e \<Rightarrow> err (HostHid e)
          | Inr opcode \<Rightarrow>
              and_then (read_report_id cmd opcode) (\<lambda>report.
              and_then (read_command_data regs opcode) (\<lambda>data.
                let report_type = (case report_type_try_from cmd of Inr t \<Rightarrow> Some t | Inl _ \<Rightarrow> None)
                in case command_new cmd opcode report_type report data None of
                     Inr c \<Rightarrow> ok c | Inl _ \<Rightarrow> err (HostHid CmdInvalidCommand))))"

end
