(* ===== verification/Hid_Command_Props.thy ===== *)
theory Hid_Command_Props
  imports Hid_Command
begin

text \<open>
  Which commands survive the way from the encoder to the host side that reads them: all but the two that carry an
  argument in the data register, whose argument is read from the command word.
\<close>

subsection \<open>The command word\<close>

lemma low_nibble_masks:
  fixes w :: u16
  assumes "w AND NOT 0xF = 0"
  shows "w AND 0xF00 = 0" "w AND 0x30 = 0" "w AND 0xF = w"
proof -
  have w: "w = w AND 0xF" using assms by (metis bit.conj_disj_distrib bit.disj_cancel_right bit.disj_zero_right bit.conj_one_right)
  show "w AND 0xF = w" using w by simp
  have "(w AND 0xF) AND 0xF00 = 0" "(w AND 0xF) AND 0x30 = 0" by (simp_all add: and.assoc)
  then show "w AND 0xF00 = 0" "w AND 0x30 = 0" using w by simp_all
qed

definition type_bits :: "CmdReportType option \<Rightarrow> u16" where
  "type_bits t = (case t of None \<Rightarrow> 0 | Some t \<Rightarrow> report_type_code t)"

definition command_word :: "CmdOpcode \<Rightarrow> CmdReportType option \<Rightarrow> u16 \<Rightarrow> u16" where
  "command_word c t low = cmd_opcode_code c OR type_bits t OR low"

lemma command_word_fields:
  assumes "low AND NOT 0xF = 0"
  shows "cmd_opcode_try_from (command_word c t low) = Inr c"
    "t = Some t' \<Longrightarrow> report_type_try_from (command_word c t low) = Inr t'"
    "command_word c t low AND 0xF = low"
proof -
  note masks = low_nibble_masks[OF assms]
  have type: "type_bits t AND 0xF00 = 0" "type_bits t AND 0xF = 0"
    by (cases t; (cases "the t")?; simp add: type_bits_def cmd_masks)+
  have "command_word c t low AND 0xF00 = cmd_opcode_code c AND 0xF00"
    by (simp add: command_word_def bit.conj_disj_distrib2 masks type)
  then show "cmd_opcode_try_from (command_word c t low) = Inr c"
    by (cases c) (simp_all add: cmd_opcode_try_from_def cmd_masks)
  have "cmd_opcode_code c AND 0x30 = 0" "cmd_opcode_code c AND 0xF = 0" by (cases c; simp add: cmd_masks)+
  then have both: "command_word c t low AND 0x30 = type_bits t AND 0x30" "command_word c t low AND 0xF = low"
    by (simp_all add: command_word_def bit.conj_disj_distrib2 masks type)
  show "command_word c t low AND 0xF = low" by (rule both(2))
  show "report_type_try_from (command_word c t low) = Inr t'" if "t = Some t'"
    using both(1) that by (cases t') (simp_all add: report_type_try_from_def type_bits_def cmd_masks)
qed

subsection \<open>What an encoder writes\<close>

text \<open>\<open>writes\<close>: these bytes, with the rest of the slice left over; \<open>writes_last\<close>: the slice that is left over is not used.\<close>

definition writes :: "encoder \<Rightarrow> u8 list \<Rightarrow> bool" where
  "writes m bs \<longleftrightarrow> (\<forall>buf. length bs \<le> length buf \<longrightarrow> m buf = Inr (length bs, length bs, bs @ drop (length bs) buf))"

definition writes_last :: "encoder \<Rightarrow> u8 list \<Rightarrow> bool" where
  "writes_last m bs \<longleftrightarrow> (\<forall>buf. length bs \<le> length buf \<longrightarrow> (\<exists>pos. m buf = Inr (length bs, pos, bs @ drop (length bs) buf)))"

lemma writes_put_front: "length bs = n \<Longrightarrow> writes (put_front n bs) bs"
  by (simp add: writes_def put_front_def)

lemma writes_imp_last: "writes m bs \<Longrightarrow> writes_last m bs"
  by (auto simp: writes_def writes_last_def)

lemma writes_then: "writes m a \<Longrightarrow> writes_last k b \<Longrightarrow> writes_last (enc_then m k) (a @ b)"
proof (unfold writes_last_def, intro allI impI)
  fix buf :: "u8 list"
  assume m: "writes m a" and k: "\<forall>buf. length b \<le> length buf \<longrightarrow> (\<exists>pos. k buf = Inr (length b, pos, b @ drop (length b) buf))"
    and room: "length (a @ b) \<le> length buf"
  then obtain pos where "k (drop (length a) buf) = Inr (length b, pos, b @ drop (length b) (drop (length a) buf))"
    by (metis add_le_imp_le_diff add.commute length_append length_drop)
  then show "\<exists>pos. enc_then m k buf = Inr (length (a @ b), pos, (a @ b) @ drop (length (a @ b)) buf)"
    using m room by (simp add: enc_then_def writes_def add.commute)
qed

lemma writes_register: "writes (encode_register (Some r)) (to_le_bytes16 r)" "writes (encode_register None) []"
  by (simp_all add: encode_register_def writes_def put_front_def cmd_lengths)

definition word_bytes :: "CmdOpcode \<Rightarrow> CmdReportType option \<Rightarrow> u8 \<Rightarrow> u8 list" where
  "word_bytes c t i =
     (if 15 \<le> i then to_le_bytes16 (command_word c t 15) @ [i] else to_le_bytes16 (command_word c t (ucast i)))"

lemma writes_common: "writes (encode_common c t i) (word_bytes c t i)"
proof -
  have v: "cmd_opcode_code c OR (case t of None \<Rightarrow> 0 | Some t \<Rightarrow> report_type_code t) OR low = command_word c t low" for low
    by (simp add: command_word_def type_bits_def)
  show ?thesis
    using v[of 15] v[of "ucast i"]
    by (auto simp: encode_common_def Let_def word_bytes_def EXTENDED_REPORT_ID_def cmd_lengths or.assoc intro!: writes_put_front)
qed

lemma writes_basic: "writes (encode_basic_op c) (to_le_bytes16 (command_word c None 0))"
  by (simp add: encode_basic_op_def cmd_lengths command_word_def type_bits_def writes_put_front)

lemma writes_data: "writes_last (encode_data data) (to_le_bytes16 (of_nat (length data + 2)) @ data)"
  by (auto simp: writes_last_def encode_data_def Let_def)

subsection \<open>Commands that are relayed\<close>

text \<open>The commands without an argument in the data register, but for the report itself.\<close>

fun relayable :: "HidCommand \<Rightarrow> bool" where
  "relayable CommandReset = True"
| "relayable (CommandGetReport t _ expected) = (t \<noteq> CmdOutput \<and> expected = None)"
| "relayable (CommandSetReport t _ d) = (t \<noteq> CmdInput \<and> ref_data d \<noteq> None)"
| "relayable (CommandGetIdle _) = True"
| "relayable CommandGetProtocol = True"
| "relayable (CommandSetPower _) = True"
| "relayable _ = False"

definition report_data :: "HidCommand \<Rightarrow> u8 list" where
  "report_data c = (case c of CommandSetReport _ _ d \<Rightarrow> the (ref_data d) | _ \<Rightarrow> [])"

fun same_command :: "HidCommand \<Rightarrow> HidCommand \<Rightarrow> bool" where
  "same_command (CommandSetReport t i d) c =
     (case c of CommandSetReport t' i' d' \<Rightarrow> t = t' \<and> i = i' \<and> ref_data d = ref_data d' | _ \<Rightarrow> False)"
| "same_command c c' = (c = c')"

fun encoded_command :: "u16 \<Rightarrow> HidCommand \<Rightarrow> u8 list" where
  "encoded_command reg CommandReset = to_le_bytes16 (command_word CoReset None 0)"
| "encoded_command reg (CommandGetReport t i _) = word_bytes CoGetReport (Some t) i @ to_le_bytes16 reg"
| "encoded_command reg (CommandSetReport t i d) = word_bytes CoSetReport (Some t) i @ to_le_bytes16 reg
     @ to_le_bytes16 (of_nat (length (the (ref_data d)) + 2)) @ the (ref_data d)"
| "encoded_command reg (CommandGetIdle i) = word_bytes CoGetIdle None i @ to_le_bytes16 reg"
| "encoded_command reg CommandGetProtocol = to_le_bytes16 (command_word CoGetProtocol None 0) @ to_le_bytes16 reg"
| "encoded_command reg (CommandSetPower s) = to_le_bytes16 (command_word CoSetPower None (cmd_power_code s))"
| "encoded_command reg _ = []"

lemma writes_command: "relayable c \<Longrightarrow> writes_last (encode_command (Some reg) c) (encoded_command reg c)"
proof (cases c)
  case (CommandSetReport t i d)
  assume "relayable c"
  then obtain data where data: "ref_data d = Some data" using CommandSetReport by auto
  have "writes_last (enc_then (encode_register (Some reg)) (encode_data data))
      (to_le_bytes16 reg @ to_le_bytes16 (of_nat (length data + 2)) @ data)"
    by (rule writes_then[OF writes_register(1) writes_data])
  then show ?thesis using writes_then[OF writes_common] by (simp add: CommandSetReport data)
next
  case (CommandSetPower s)
  then show ?thesis
    by (auto simp: encode_power_def command_word_def type_bits_def intro!: writes_imp_last writes_put_front)
qed (simp_all add: writes_then writes_common writes_basic writes_register writes_imp_last)

lemma length_encoded_command: "length (encoded_command reg c) \<le> 7 + length (report_data c)"
  by (cases c) (auto simp: word_bytes_def report_data_def)

lemma encode_relayable:
  assumes "relayable c" and "7 + length (report_data c) \<le> length buf"
  shows "encode_into_slice c None (Some reg) buf =
    Inr (length (encoded_command reg c), encoded_command reg c @ drop (length (encoded_command reg c)) buf)"
proof -
  have "length (encoded_command reg c) \<le> length buf" using length_encoded_command[of reg c] assms(2) by simp
  moreover have "writes_last (enc_then (encode_register None) (encode_command (Some reg) c)) ([] @ encoded_command reg c)"
    by (rule writes_then[OF writes_register(2) writes_command[OF assms(1)]])
  ultimately obtain pos where "enc_then (encode_register None) (encode_command (Some reg) c) buf
      = Inr (length (encoded_command reg c), pos, encoded_command reg c @ drop (length (encoded_command reg c)) buf)"
    by (auto simp: writes_last_def)
  then show ?thesis by (simp add: encode_into_slice_def)
qed

subsection \<open>How the host side reads them\<close>

lemma host_read_bytes:
  "host_bus h = map Some bs @ later \<Longrightarrow> length bs = n \<Longrightarrow> host_read_bus n h = (Inr bs, h\<lparr>host_bus := later\<rparr>)"
  by (auto simp: host_read_bus_def Let_def comp_def)

lemma read_report_id_bytes:
  assumes "requires_report_id c"
  shows "host_bus h = map Some (word_bytes c t i) @ later \<Longrightarrow>
    \<exists>w bs. host_read_bus 2 h = (Inr bs, h\<lparr>host_bus := map Some (drop 2 (word_bytes c t i)) @ later\<rparr>)
      \<and> from_le_bytes16 bs = w \<and> cmd_opcode_try_from w = Inr c \<and> (\<forall>t'. t = Some t' \<longrightarrow> report_type_try_from w = Inr t')
      \<and> read_report_id w c (h\<lparr>host_bus := map Some (drop 2 (word_bytes c t i)) @ later\<rparr>) = (Inr (Some i), h\<lparr>host_bus := later\<rparr>)"
proof (cases "15 \<le> i")
  case True
  assume bus: "host_bus h = map Some (word_bytes c t i) @ later"
  let ?w = "command_word c t 15"
  have low: "(15 :: u16) AND NOT 0xF = 0" by simp
  note fields = command_word_fields[where c = c and t = t, OF low]
  have "report_id_from_command ?w = 15" using fields(3) by (simp add: report_id_from_command_def REPORT_ID_MASK_def)
  then have ext: "has_extended_report_id ?w" by (simp add: has_extended_report_id_def EXTENDED_REPORT_ID_def)
  have bytes: "word_bytes c t i = to_le_bytes16 ?w @ [i]" using True by (simp add: word_bytes_def)
  have "host_read_bus 2 h = (Inr (to_le_bytes16 ?w), h\<lparr>host_bus := map Some (drop 2 (word_bytes c t i)) @ later\<rparr>)"
    using bus bytes by (intro host_read_bytes) simp_all
  moreover have "read_report_id ?w c (h\<lparr>host_bus := map Some (drop 2 (word_bytes c t i)) @ later\<rparr>) = (Inr (Some i), h\<lparr>host_bus := later\<rparr>)"
    using host_read_bytes[of "h\<lparr>host_bus := Some i # later\<rparr>" "[i]" later 1] by (simp add: read_report_id_def assms ext bytes)
  ultimately show ?thesis using fields by auto
next
  case False
  assume bus: "host_bus h = map Some (word_bytes c t i) @ later"
  let ?w = "command_word c t (ucast i)"
  have small: "unat i < 15" using False by (simp add: word_le_nat_alt)
  have low: "(ucast i :: u16) AND NOT 0xF = 0"
  proof -
    have "(ucast i :: u16) = of_nat (unat i)" by simp
    moreover have "\<forall>n < 15. (of_nat n :: u16) AND NOT 0xF = 0" by code_simp
    ultimately show ?thesis using small by metis
  qed
  note fields = command_word_fields[where c = c and t = t, OF low]
  have "ucast (ucast i :: u16) = i" by (rule bit_word_eqI) (simp add: bit_simps)
  then have i: "report_id_from_command ?w = i" using fields(3) by (simp add: report_id_from_command_def REPORT_ID_MASK_def)
  then have ext: "\<not> has_extended_report_id ?w" using False by (auto simp: has_extended_report_id_def EXTENDED_REPORT_ID_def)
  have bytes: "word_bytes c t i = to_le_bytes16 ?w" using False by (simp add: word_bytes_def)
  have "host_read_bus 2 h = (Inr (to_le_bytes16 ?w), h\<lparr>host_bus := map Some (drop 2 (word_bytes c t i)) @ later\<rparr>)"
    using bus bytes by (intro host_read_bytes) simp_all
  moreover have "read_report_id ?w c (h\<lparr>host_bus := map Some (drop 2 (word_bytes c t i)) @ later\<rparr>) = (Inr (Some i), h\<lparr>host_bus := later\<rparr>)"
    by (simp add: read_report_id_def assms ext bytes i)
  ultimately show ?thesis using fields by auto
qed

text \<open>The data of a report, from the length to the slice of the host's buffer.\<close>

lemma read_into_buffer_bytes:
  assumes "host_bus h = map Some bs @ later" and "start + length bs \<le> buffer_len (host_buffer h)"
  shows "read_into_buffer start (start + length bs) h = (Inr (), h\<lparr>host_bus := later,
    host_buffer := access_mut_borrow_mut (\<lambda>c. take start c @ bs @ drop (start + length bs) c) (host_buffer h)\<rparr>)"
  using assms host_read_bytes[OF assms(1) refl]
  by (simp add: read_into_buffer_def Let_def and_then_def modify_def)

definition filled_buffer :: "u8 list \<Rightarrow> u8 Buffer \<Rightarrow> u8 Buffer" where
  "filled_buffer bs b = b\<lparr>buffer_contents := bs @ drop (length bs) (buffer_contents b)\<rparr>"

lemma filled_buffer_len: "length bs \<le> buffer_len b \<Longrightarrow> buffer_len (filled_buffer bs b) = buffer_len b"
  by (simp add: filled_buffer_def buffer_len_def)

lemma filled_buffer_twice:
  assumes "length a + length d \<le> buffer_len b"
  shows "access_mut_borrow_mut (\<lambda>c. take (length a) c @ d @ drop (length a + length d) c) (filled_buffer a b) = filled_buffer (a @ d) b"
  using assms by (simp add: access_mut_borrow_mut_def filled_buffer_def add.commute)

lemma read_host_data_bytes:
  assumes bus: "host_bus h = map Some (to_le_bytes16 (of_nat (length d + 2)) @ d) @ later"
    and short: "length d + 2 < 2 ^ 16" and room: "length d + 2 \<le> buffer_len (host_buffer h)" and some: "2 < buffer_len (host_buffer h)"
  shows "\<exists>b. read_host_data h = (Inr (b, (2, length d + 2)), h\<lparr>host_bus := later, host_buffer := b\<rparr>)
    \<and> b = filled_buffer (to_le_bytes16 (of_nat (length d + 2)) @ d) (host_buffer h)"
proof -
  define l where "l = to_le_bytes16 (of_nat (length d + 2))"
  have l2: "length l = 2" by (simp add: l_def)
  have bus: "host_bus h = map Some (l @ d) @ later" using bus by (simp add: l_def)
  let ?part = "filled_buffer l (host_buffer h)"
  let ?mid = "h\<lparr>host_bus := map Some d @ later, host_buffer := ?part\<rparr>"
  have "read_into_buffer 0 (0 + length l) h = (Inr (), h\<lparr>host_bus := map Some d @ later,
    host_buffer := access_mut_borrow_mut (\<lambda>c. take 0 c @ l @ drop (0 + length l) c) (host_buffer h)\<rparr>)"
    using bus room l2 by (intro read_into_buffer_bytes) simp_all
  then have first: "read_into_buffer 0 2 h = (Inr (), ?mid)" by (simp add: access_mut_borrow_mut_def filled_buffer_def l2 numeral_2_eq_2)
  have len: "buffer_len ?part = buffer_len (host_buffer h)" using room l2 by (intro filled_buffer_len) simp
  have "u16_at (buffer_contents ?part) 0 = of_nat (length d + 2)"
    using le_bytes16(1)[of "of_nat (length d + 2)"] by (simp add: u16_at_def filled_buffer_def l_def to_le_bytes16_def)
  moreover have "unat (of_nat (length d + 2) :: u16) = length d + 2"
    using short by (simp only: unat_of_nat take_bit_nat_eq_self len_num1 len_bit0) simp
  ultimately have n: "unat (u16_at (buffer_contents ?part) 0) = length d + 2" by simp
  have "read_into_buffer 2 (2 + length d) ?mid = (Inr (), ?mid\<lparr>host_bus := later,
    host_buffer := access_mut_borrow_mut (\<lambda>c. take 2 c @ d @ drop (2 + length d) c) ?part\<rparr>)"
    using read_into_buffer_bytes[of ?mid d later 2] room len by simp
  moreover have "access_mut_borrow_mut (\<lambda>c. take 2 c @ d @ drop (2 + length d) c) ?part = filled_buffer (l @ d) (host_buffer h)"
    using filled_buffer_twice[of l d "host_buffer h"] room l2 by simp
  ultimately have second: "read_into_buffer 2 (length d + 2) ?mid =
      (Inr (), h\<lparr>host_bus := later, host_buffer := filled_buffer (l @ d) (host_buffer h)\<rparr>)"
    by (simp add: add.commute)
  have "buffer_len (filled_buffer (l @ d) (host_buffer h)) = buffer_len (host_buffer h)"
    using room l2 by (intro filled_buffer_len) simp
  then have "shared_slice (owned_reference (filled_buffer (l @ d) (host_buffer h))) (2, length d + 2)
      (filled_buffer (l @ d) (host_buffer h)) = Inr (2, length d + 2)"
    using room some
    by (simp add: owned_reference_def new_full_len_def shared_slice_def shared_ref_new_def range_len_def)
  then have "read_host_data h = (Inr (filled_buffer (l @ d) (host_buffer h), (2, length d + 2)),
      h\<lparr>host_bus := later, host_buffer := filled_buffer (l @ d) (host_buffer h)\<rparr>)"
    using first second n by (simp add: read_host_data_def and_then_def)
  then show ?thesis by (simp add: l_def)
qed

lemma borrowed_host_data:
  assumes bus: "host_bus h = map Some (to_le_bytes16 (of_nat (length d + 2)) @ d) @ later"
    and short: "length d + 2 < 2 ^ 16" and room: "length d + 2 \<le> buffer_len (host_buffer h)" and some: "2 < buffer_len (host_buffer h)"
    and free: "borrow_status (host_buffer h) = Unborrowed"
  shows "\<exists>b. with_borrowed_buffer read_host_data h = (Inr (b, (2, length d + 2)), h\<lparr>host_bus := later, host_buffer := b\<rparr>)
    \<and> ref_data (b, (2, length d + 2)) = Some d \<and> borrow_status b = Unborrowed"
proof -
  let ?l = "to_le_bytes16 (of_nat (length d + 2))"
  let ?held = "(host_buffer h)\<lparr>borrow_status := Mutable\<rparr>"
  let ?b = "drop_borrow (filled_buffer (?l @ d) ?held)"
  have b0: "owned_borrow_mut (host_buffer h) = (Inr (), ?held)"
    using free by (simp add: owned_borrow_mut_def access_mut_new_def borrow_def)
  have "read_host_data (h\<lparr>host_buffer := ?held\<rparr>) = (Inr (filled_buffer (?l @ d) ?held, (2, length d + 2)),
      h\<lparr>host_buffer := ?held, host_bus := later, host_buffer := filled_buffer (?l @ d) ?held\<rparr>)"
    using read_host_data_bytes[of "h\<lparr>host_buffer := ?held\<rparr>" d later] bus short room some by (simp add: buffer_len_def)
  then have run: "with_borrowed_buffer read_host_data h = (Inr (?b, (2, length d + 2)), h\<lparr>host_bus := later, host_buffer := ?b\<rparr>)"
    by (simp add: with_borrowed_buffer_def b0 Let_def)
  have status: "borrow_status ?b = Unborrowed" by (simp add: drop_borrow_def filled_buffer_def)
  have len: "buffer_len ?b = buffer_len (host_buffer h)"
    using room by (simp add: filled_buffer_def buffer_len_def)
  have cont: "buffer_contents ?b = ?l @ d @ drop (length d + 2) (buffer_contents (host_buffer h))"
    by (simp add: filled_buffer_def)
  have "fst (shared_borrow (2, length d + 2) ?b) = Inr (2, length d + 2)"
    using len room some status by (simp add: shared_borrow_def access_new_def and_then_def borrow_def ok_def)
  moreover have "access_borrow (2, length d + 2) ?b = Some d" using len room cont by (simp add: access_borrow_def)
  ultimately have "ref_data (?b, (2, length d + 2)) = Some d" by (simp add: ref_data_def)
  with run status show ?thesis by blast
qed

lemma register_then_data:
  assumes "host_bus h = map Some (to_le_bytes16 (data_reg regs)) @ later"
  shows "requires_host_data c \<or> cmd_has_response c \<Longrightarrow> read_command_data regs c h =
    (if requires_host_data c then and_then (with_borrowed_buffer read_host_data) (\<lambda>d. ok (Some d)) (h\<lparr>host_bus := later\<rparr>)
     else (Inr None, h\<lparr>host_bus := later\<rparr>))"
  using host_read_bytes[OF assms, of 2] by (simp add: read_command_data_def and_then_def ok_def)

lemma host_after_data:
  assumes "host_read_bus 2 h = (Inr bs, h1)" and "cmd_opcode_try_from (from_le_bytes16 bs) = Inr c"
    and "read_report_id (from_le_bytes16 bs) c h1 = (Inr i, h2)" and "read_command_data regs c h2 = (Inr d, h3)"
  shows "host_process_command regs h =
    (case command_new (from_le_bytes16 bs) c (case report_type_try_from (from_le_bytes16 bs) of Inr t \<Rightarrow> Some t | Inl _ \<Rightarrow> None) i d None of
       Inr c \<Rightarrow> (Inr c, h3) | Inl _ \<Rightarrow> (Inl (HostHid CmdInvalidCommand), h3))"
  using assms by (simp add: host_process_command_def and_then_def Let_def ok_def err_def split: sum.split)

text \<open>A command with a report number: its word, then the data register, and what is behind it.\<close>

lemma host_reads_report_command:
  assumes id: "requires_report_id c" and bus: "host_bus h = map Some (word_bytes c t i @ to_le_bytes16 (data_reg regs)) @ later"
    and data: "read_command_data regs c (h\<lparr>host_bus := map Some (to_le_bytes16 (data_reg regs)) @ later\<rparr>) = (Inr d, h')"
  shows "\<exists>w t'. (\<forall>u. t = Some u \<longrightarrow> t' = Some u) \<and> host_process_command regs h =
    (case command_new w c t' (Some i) d None of Inr c \<Rightarrow> (Inr c, h') | Inl _ \<Rightarrow> (Inl (HostHid CmdInvalidCommand), h'))"
proof -
  have "host_bus h = map Some (word_bytes c t i) @ (map Some (to_le_bytes16 (data_reg regs)) @ later)" using bus by simp
  from read_report_id_bytes[OF id this] obtain w bs where *:
    "host_read_bus 2 h = (Inr bs, h\<lparr>host_bus := map Some (drop 2 (word_bytes c t i)) @ map Some (to_le_bytes16 (data_reg regs)) @ later\<rparr>)"
    "from_le_bytes16 bs = w" "cmd_opcode_try_from w = Inr c" "\<forall>t'. t = Some t' \<longrightarrow> report_type_try_from w = Inr t'"
    "read_report_id w c (h\<lparr>host_bus := map Some (drop 2 (word_bytes c t i)) @ map Some (to_le_bytes16 (data_reg regs)) @ later\<rparr>)
      = (Inr (Some i), h\<lparr>host_bus := map Some (to_le_bytes16 (data_reg regs)) @ later\<rparr>)"
    by (elim exE conjE) (rule that)
  show ?thesis
    by (rule exI[of _ w], rule exI[of _ "case report_type_try_from w of Inr t \<Rightarrow> Some t | Inl _ \<Rightarrow> None"])
      (use host_after_data[OF *(1) _ _ data] *(2-5) in simp)
qed

lemma host_reads_basic_command:
  assumes no_id: "\<not> requires_report_id c" and bus: "host_bus h = map Some (to_le_bytes16 (command_word c None low)) @ later"
    and low: "low AND NOT 0xF = 0" and data: "read_command_data regs c (h\<lparr>host_bus := later\<rparr>) = (Inr d, h')"
  shows "\<exists>t. host_process_command regs h =
    (case command_new (command_word c None low) c t None d None of Inr c \<Rightarrow> (Inr c, h') | Inl _ \<Rightarrow> (Inl (HostHid CmdInvalidCommand), h'))"
  using host_after_data[OF host_read_bytes[OF bus, of 2] _ _ data] command_word_fields(1)[OF low, of c None] no_id
  by (auto simp: read_report_id_def ok_def)

subsection \<open>Properties\<close>

text \<open>A command is read again, with the rest of the bus left and the buffer free.\<close>

definition relayed :: "HidCommand \<Rightarrow> u8 option list \<Rightarrow> (HostError, HidCommand) result \<times> hid_host \<Rightarrow> bool" where
  "relayed c later x =
     (case x of (Inl _, _) \<Rightarrow> False
      | (Inr c', h) \<Rightarrow> same_command c c' \<and> host_bus h = later \<and> borrow_status (host_buffer h) = Unborrowed)"

lemma basic_command_relayed:
  assumes "borrow_status (host_buffer h) = Unborrowed"
    and "host_bus h = map Some (encoded_command (data_reg regs) c) @ later"
    and "c = CommandReset \<or> c = CommandGetProtocol \<or> c = CommandSetPower s"
  shows "relayed c later (host_process_command regs h)"
proof -
  have low: "(0 :: u16) AND NOT 0xF = 0" "cmd_power_code s AND NOT 0xF = 0" by (simp, cases s) simp_all
  have none: "read_command_data regs c (h\<lparr>host_bus := later\<rparr>) = (Inr None, h\<lparr>host_bus := later\<rparr>)"
    if "\<not> requires_host_data c" "\<not> cmd_has_response c" for c
    using that by (simp add: read_command_data_def ok_def)
  consider (reset) "c = CommandReset" | (protocol) "c = CommandGetProtocol" | (power) "c = CommandSetPower s" using assms(3) by blast
  then show ?thesis
  proof cases
    case reset
    then show ?thesis
      using host_reads_basic_command[OF _ _ low(1) none, where c = CoReset] assms(1,2)
      by (auto simp: requires_report_id_def requires_host_data_def cmd_has_response_def command_new_def relayed_def)
  next
    case protocol
    let ?h = "h\<lparr>host_bus := map Some (to_le_bytes16 (data_reg regs)) @ later\<rparr>"
    have "read_command_data regs CoGetProtocol ?h = (Inr None, h\<lparr>host_bus := later\<rparr>)"
      using register_then_data[of ?h regs later CoGetProtocol] by (simp add: requires_host_data_def cmd_has_response_def)
    then show ?thesis
      using host_reads_basic_command[of CoGetProtocol h 0 "map Some (to_le_bytes16 (data_reg regs)) @ later" regs] assms(1,2) low(1) protocol
      by (auto simp: requires_report_id_def requires_host_data_def command_new_def relayed_def)
  next
    case power
    have state: "cmd_power_try_from (command_word CoSetPower None (cmd_power_code s)) = Inr s"
      by (cases s) (simp_all add: cmd_power_try_from_def command_word_def type_bits_def cmd_masks Let_def)
    show ?thesis
      using host_reads_basic_command[OF _ _ low(2) none, where c = CoSetPower] assms(1,2) power state
      by (auto simp: requires_report_id_def requires_host_data_def cmd_has_response_def command_new_def relayed_def then_read_def map_err_def)
  qed
qed

lemma get_command_relayed:
  assumes "borrow_status (host_buffer h) = Unborrowed"
    and "host_bus h = map Some (encoded_command (data_reg regs) c) @ later" and "relayable c"
    and "c = CommandGetReport t i e \<or> c = CommandGetIdle i"
  shows "relayed c later (host_process_command regs h)"
proof -
  have none: "read_command_data regs c (h\<lparr>host_bus := map Some (to_le_bytes16 (data_reg regs)) @ later\<rparr>) = (Inr None, h\<lparr>host_bus := later\<rparr>)"
    if "\<not> requires_host_data c" "cmd_has_response c" for c
    using register_then_data[of "h\<lparr>host_bus := map Some (to_le_bytes16 (data_reg regs)) @ later\<rparr>" regs later c] that by simp
  consider (report) "c = CommandGetReport t i e" | (idle) "c = CommandGetIdle i" using assms(4) by blast
  then show ?thesis
  proof cases
    case report
    then have t: "t = CmdInput \<or> t = CmdFeature" and e: "e = None" using assms(3) by (cases t; simp)+
    have "host_bus h = map Some (word_bytes CoGetReport (Some t) i @ to_le_bytes16 (data_reg regs)) @ later" using assms(2) report by simp
    from host_reads_report_command[OF _ this none] show ?thesis using t e report assms(1)
      by (auto simp: requires_report_id_def requires_host_data_def cmd_has_response_def command_new_def relayed_def then_read_def ok_or_def)
  next
    case idle
    have "host_bus h = map Some (word_bytes CoGetIdle None i @ to_le_bytes16 (data_reg regs)) @ later" using assms(2) idle by simp
    from host_reads_report_command[OF _ this none] show ?thesis using idle assms(1)
      by (auto simp: requires_report_id_def requires_host_data_def cmd_has_response_def command_new_def relayed_def then_read_def ok_or_def)
  qed
qed

lemma set_report_relayed:
  assumes free: "borrow_status (host_buffer h) = Unborrowed"
    and bus: "host_bus h = map Some (encoded_command (data_reg regs) (CommandSetReport t i d)) @ later"
    and t: "t \<noteq> CmdInput" and d: "ref_data d = Some bs"
    and short: "length bs + 2 < 2 ^ 16" and room: "length bs + 2 \<le> buffer_len (host_buffer h)" and some: "2 < buffer_len (host_buffer h)"
  shows "relayed (CommandSetReport t i d) later (host_process_command regs h)"
proof -
  let ?later = "map Some (to_le_bytes16 (of_nat (length bs + 2)) @ bs) @ later"
  let ?h = "h\<lparr>host_bus := map Some (to_le_bytes16 (data_reg regs)) @ ?later\<rparr>"
  obtain b where b: "with_borrowed_buffer read_host_data (h\<lparr>host_bus := ?later\<rparr>)
      = (Inr (b, (2, length bs + 2)), h\<lparr>host_bus := ?later, host_bus := later, host_buffer := b\<rparr>)"
    "ref_data (b, (2, length bs + 2)) = Some bs" "borrow_status b = Unborrowed"
    using borrowed_host_data[of "h\<lparr>host_bus := ?later\<rparr>" bs later] short room some free by auto
  have data: "read_command_data regs CoSetReport ?h = (Inr (Some (b, (2, length bs + 2))), h\<lparr>host_bus := later, host_buffer := b\<rparr>)"
    using register_then_data[of ?h regs ?later CoSetReport] b(1) by (simp add: requires_host_data_def and_then_def ok_def)
  have "host_bus h = map Some (word_bytes CoSetReport (Some t) i @ to_le_bytes16 (data_reg regs)) @ ?later" using bus d by simp
  from host_reads_report_command[OF _ this data] show ?thesis using t d b(2,3)
    by (cases t) (auto simp: requires_report_id_def command_new_def relayed_def then_read_def ok_or_def)
qed

lemma relayable_command_relayed:
  assumes "relayable c" and free: "borrow_status (host_buffer h) = Unborrowed"
    and bus: "host_bus h = map Some (encoded_command (data_reg regs) c) @ later"
    and short: "length (report_data c) + 2 < 2 ^ 16" and room: "length (report_data c) + 2 \<le> buffer_len (host_buffer h)"
    and some: "2 < buffer_len (host_buffer h)"
  shows "relayed c later (host_process_command regs h)"
proof (cases c)
  case (CommandSetReport t i d)
  then obtain bs where "ref_data d = Some bs" "t \<noteq> CmdInput" using assms(1) by auto
  then show ?thesis
    using set_report_relayed[OF free, of regs t i d later bs] bus short room some CommandSetReport by (simp add: report_data_def)
qed (use assms(1) basic_command_relayed[OF free bus] get_command_relayed[OF free bus] in simp_all)

text \<open>The argument of the two other commands is read from the command word, where the opcode is.\<close>

lemma set_arguments_are_lost:
  assumes "cmd_opcode_try_from w = Inr op"
  shows "command_new w op t r d e \<noteq> Inr (CommandSetProtocol p)"
    "command_new w op t r d e = Inr (CommandSetIdle i f) \<Longrightarrow> f = Msecs w"
proof -
  have "w \<noteq> 0 \<and> w \<noteq> 1" if "op = CoSetProtocol \<or> op = CoSetIdle"
    using assms that by (auto simp: cmd_opcode_try_from_def cmd_masks)
  then show "command_new w op t r d e \<noteq> Inr (CommandSetProtocol p)"
    "command_new w op t r d e = Inr (CommandSetIdle i f) \<Longrightarrow> f = Msecs w"
    by (cases op; auto simp: command_new_def Let_def then_read_def ok_or_def map_err_def protocol_try_from_def report_freq_try_from_def
        split: option.splits sum.splits if_splits)+
qed

lemma descriptor_roundtrip:
  "30 \<le> length buf \<Longrightarrow> \<exists>b. descriptor_encode d buf = Inr (30, b) \<and> descriptor_decode b = Inr d"
proof -
  have "u16_from_be_bytes (u16_msb v) (u16_lsb v) = v" for v
    using le_bytes16(1)[of v] by (simp add: to_le_bytes16_def from_le_bytes16_def)
  then show "30 \<le> length buf \<Longrightarrow> ?thesis"
    by (cases d) (simp add: descriptor_encode_def descriptor_decode_def DESCRIPTOR_LEN_def descriptor_bytes_def u16_at_def
        to_le_bytes16_def from_le_bytes16_def)
qed

text \<open>C38. A reset, the get of an input or a feature report, the set of an output or a feature report, the get of the idle
  rate or of the protocol and a power state are read by the host side as they were encoded, with the rest of the
  bus left to the next command and the buffer given back. The buffer of the encoder has seven bytes more than the data of the
  report, the length of the data and its prefix fits 16 bits and the buffer of the host, which has more than two bytes
  and is not borrowed. The set of the idle rate or of the protocol and the vendor command are not among them.\<close>

theorem commands_are_relayed:
  assumes "relayable c" and "7 + length (report_data c) \<le> length buf"
    and "length (report_data c) + 2 < 2 ^ 16" and "length (report_data c) + 2 \<le> buffer_len (host_buffer h)"
    and "2 < buffer_len (host_buffer h)" and "borrow_status (host_buffer h) = Unborrowed"
  shows "case encode_into_slice c None (Some (data_reg regs)) buf of
      Inl _ \<Rightarrow> False
    | Inr (n, b) \<Rightarrow> relayed c later (host_process_command regs (h\<lparr>host_bus := map Some (take n b) @ later\<rparr>))"
  using encode_relayable[OF assms(1,2), of "data_reg regs"]
    relayable_command_relayed[of c "h\<lparr>host_bus := map Some (encoded_command (data_reg regs) c) @ later\<rparr>" regs later] assms
  by simp

definition demo_host :: hid_host where
  "demo_host = \<lparr>host_bus = [], host_buffer = buffer_new (replicate 16 0)\<rparr>"

definition demo_set_report :: HidCommand where
  "demo_set_report = CommandSetReport CmdOutput 20 (buffer_new [9, 8, 7, 6, 5], (1, 4))"

theorem commands_are_relayed_witness:
  "ref_data (buffer_new [9, 8, 7, 6, 5 :: u8], (1, 4)) = Some [8, 7, 6]
    \<and> (case encode_into_slice demo_set_report None (Some (data_reg register_file_default)) (replicate 12 0) of
      Inl _ \<Rightarrow> False
    | Inr (n, b) \<Rightarrow> relayed demo_set_report [Some 1]
        (host_process_command register_file_default (demo_host\<lparr>host_bus := map Some (take n b) @ [Some 1]\<rparr>)))"
proof -
  have data: "ref_data (buffer_new [9, 8, 7, 6, 5 :: u8], (1, 4)) = Some [8, 7, 6]" by code_simp
  then have "report_data demo_set_report = [8, 7, 6]" "relayable demo_set_report"
    by (simp_all add: demo_set_report_def report_data_def)
  then show ?thesis
    using data commands_are_relayed [where c = demo_set_report and buf = "replicate 12 0" and h = demo_host
          and regs = register_file_default and later = "[Some 1]"]
    by (simp add: demo_host_def buffer_new_def buffer_len_def)
qed

end
