(* ===== verification/Power_Button.thy ===== *)
theory Power_Button
  imports Prelude
begin

text \<open>
  The power button: \<open>power-button-service/src/debounce.rs\<close>, \<open>button.rs\<close> and \<open>button_interpreter.rs\<close>. Times are
  milliseconds, and a timer wakes exactly when it is due. The pin is the list of what it reads, one entry for each
  sample and \<open>None\<close> where it fails; a wait that outlasts the list is \<open>None\<close>.
\<close>

datatype ActiveState = ActiveLow | ActiveHigh

record Debouncer =
  integrator :: u8
  threshold :: u8
  sample_interval :: nat
  active_state :: ActiveState
  button_pressed :: bool

definition debouncer_new :: "u8 \<Rightarrow> nat \<Rightarrow> ActiveState \<Rightarrow> Debouncer" where
  "debouncer_new thr interval active =
     \<lparr>integrator = 0, threshold = thr, sample_interval = interval, active_state = active, button_pressed = False\<rparr>"

definition debouncer_default :: Debouncer where
  "debouncer_default = \<lparr>integrator = 0, threshold = 3, sample_interval = 10, active_state = ActiveLow, button_pressed = False\<rparr>"

type_synonym pin_sample = "bool option"

definition is_low :: "pin_sample \<Rightarrow> bool option" where "is_low s = map_option Not s"
definition is_high :: "pin_sample \<Rightarrow> bool option" where "is_high s = s"

definition unwrap_or :: "'a \<Rightarrow> 'a option \<Rightarrow> 'a" where
  "unwrap_or d x = (case x of None \<Rightarrow> d | Some a \<Rightarrow> a)"

definition sampled :: "Debouncer \<Rightarrow> pin_sample \<Rightarrow> bool" where
  "sampled d s = (case active_state d of ActiveLow \<Rightarrow> unwrap_or False (is_low s) | ActiveHigh \<Rightarrow> unwrap_or False (is_high s))"

text \<open>One round of the loop of \<open>debounce\<close>, up to the timer: the state that is returned, if one is.\<close>

definition integrate :: "bool \<Rightarrow> Debouncer \<Rightarrow> Debouncer" where
  "integrate is_pressed d =
     (if is_pressed then (if integrator d < threshold d then d\<lparr>integrator := integrator d + 1\<rparr> else d)
      else if 0 < integrator d then d\<lparr>integrator := integrator d - 1\<rparr> else d)"

definition debounce_round :: "pin_sample \<Rightarrow> Debouncer \<Rightarrow> bool option \<times> Debouncer" where
  "debounce_round s d =
     (let d = integrate (sampled d s) d
      in if threshold d \<le> integrator d \<and> \<not> button_pressed d then (Some True, d\<lparr>button_pressed := True\<rparr>)
         else if integrator d = 0 \<and> button_pressed d then (Some False, d\<lparr>button_pressed := False\<rparr>)
         else (None, d))"

text \<open>The debouncer, the time, and what the pin reads from then on.\<close>

type_synonym button_world = "Debouncer \<times> nat \<times> pin_sample list"

fun debounce :: "Debouncer \<Rightarrow> nat \<Rightarrow> pin_sample list \<Rightarrow> (bool \<times> button_world) option" where
  "debounce d t [] = None"
| "debounce d t (s # ss) =
     (case debounce_round s d of
        (Some e, d) \<Rightarrow> Some (e, d, t, ss)
      | (None, d) \<Rightarrow> debounce d (t + sample_interval d) ss)"

subsection \<open>The button\<close>

record ButtonConfig =
  debouncer :: Debouncer
  short_press_threshold :: nat
  press_timeout :: nat

datatype ButtonState = ButtonReleased nat | ButtonPressed nat

definition button_config_default :: ButtonConfig where
  "button_config_default = \<lparr>debouncer = debouncer_default, short_press_threshold = 2000, press_timeout = 5000\<rparr>"

definition get_button_state :: "button_world \<Rightarrow> (ButtonState \<times> button_world) option" where
  "get_button_state w = (case w of (d, t, ss) \<Rightarrow>
     map_option (\<lambda>(pressed, d, t, ss). (if pressed then ButtonPressed t else ButtonReleased t, d, t, ss)) (debounce d t ss))"

text \<open>\<open>with_timeout\<close> of the loop that waits for the release: the loop is polled first, so a sample that is due at the
  deadline is taken. After a sample without an answer the loop sleeps, and the deadline ends the sleep.\<close>

fun release_future :: "nat \<Rightarrow> Debouncer \<Rightarrow> nat \<Rightarrow> pin_sample list \<Rightarrow> (nat option \<times> button_world) option" where
  "release_future deadline d t [] = None"
| "release_future deadline d t (s # ss) =
     (case debounce_round s d of
        (Some False, d) \<Rightarrow> Some (Some t, d, t, ss)
      | (Some True, d) \<Rightarrow>
          if t < deadline \<and> t + 10 \<le> deadline then release_future deadline d (t + 10) ss
          else Some (None, d, max t deadline, ss)
      | (None, d) \<Rightarrow>
          if t < deadline \<and> t + sample_interval d \<le> deadline then release_future deadline d (t + sample_interval d) ss
          else Some (None, d, max t deadline, ss))"

definition get_press_duration :: "nat \<Rightarrow> button_world \<Rightarrow> (nat option \<times> button_world) option" where
  "get_press_duration timeout w =
     (case get_button_state w of
        None \<Rightarrow> None
      | Some (ButtonReleased _, w) \<Rightarrow> Some (None, w)
      | Some (ButtonPressed _, d, start, ss) \<Rightarrow>
          (case release_future (start + timeout) d start ss of
             None \<Rightarrow> None
           | Some (Some released, w) \<Rightarrow> Some (Some (released - start), w)
           | Some (None, d, t, ss) \<Rightarrow> Some (Some (t - start), d, t, ss)))"

datatype ButtonMessage = LongPress | ShortPress | PressAndHold

definition check_button_press :: "ButtonConfig \<Rightarrow> nat \<Rightarrow> pin_sample list \<Rightarrow> (ButtonMessage option \<times> ButtonConfig \<times> nat \<times> pin_sample list) option" where
  "check_button_press c t ss =
     (case get_press_duration (press_timeout c) (debouncer c, t, ss) of
        None \<Rightarrow> None
      | Some (duration, d, t, ss) \<Rightarrow>
          Some (map_option (\<lambda>duration. if press_timeout c \<le> duration then PressAndHold
                  else if short_press_threshold c \<le> duration then LongPress else ShortPress) duration,
            c\<lparr>debouncer := d\<rparr>, t, ss))"

subsection \<open>One sample\<close>

text \<open>A debouncer that counts \<open>k\<close> samples.\<close>

definition counting :: "Debouncer \<Rightarrow> nat \<Rightarrow> bool \<Rightarrow> Debouncer" where
  "counting d k p = d\<lparr>integrator := of_nat k, button_pressed := p\<rparr>"

lemma of_nat_u8: "k \<le> unat (x :: u8) \<Longrightarrow> unat (of_nat k :: u8) = k"
  using unsigned_less[of x, where ?'a = nat] by (simp add: unat_of_nat take_bit_nat_eq_self)

lemma counting_less: "k \<le> unat (threshold d) \<Longrightarrow> (of_nat k :: u8) < threshold d \<longleftrightarrow> k < unat (threshold d)"
  by (simp add: word_less_nat_alt of_nat_u8)

lemma counting_zero: "k \<le> unat (threshold d) \<Longrightarrow> (of_nat k :: u8) = 0 \<longleftrightarrow> k = 0"
  using of_nat_u8[of k "threshold d"] by (auto simp: word_unat_eq_iff)

lemma counting_simps [simp]:
  "sampled (counting d k p) s = sampled d s" "sample_interval (counting d k p) = sample_interval d"
  "threshold (counting d k p) = threshold d"
  by (simp_all add: sampled_def counting_def)

lemmas round_defs = sampled_def counting_def

lemma round_down:
  assumes "k \<le> unat (threshold d)" and "\<not> sampled d s" and "0 < k"
  shows "debounce_round s (counting d k True) =
    (if k = 1 then (Some False, counting d 0 False) else (None, counting d (k - 1) True))"
proof -
  have "(of_nat k :: u8) \<noteq> 0" using counting_zero[OF assms(1)] assms(3) by simp
  then have "(of_nat k :: u8) > 0" by (simp add: word_gt_0)
  moreover have "(of_nat k :: u8) - 1 = of_nat (k - 1)" using assms(3) by (simp add: of_nat_diff)
  moreover have "(of_nat (k - 1) :: u8) = 0 \<longleftrightarrow> k = 1"
    using counting_zero[of "k - 1" d] assms(1,3) by auto
  ultimately show ?thesis using assms(2) by (simp add: debounce_round_def integrate_def Let_def round_defs)
qed

lemma round_bounce_down:
  assumes "k < unat (threshold d)" and "\<not> sampled d s"
  shows "debounce_round s (counting d k False) = (None, counting d (k - 1) False)"
proof (cases "k = 0")
  case True
  then have "(0 :: u8) < threshold d" using assms(1) by (simp add: word_less_nat_alt)
  moreover have "\<not> sampled d s" by (rule assms(2))
  ultimately show ?thesis using True assms(2) by (simp add: debounce_round_def integrate_def Let_def round_defs not_le)
next
  case False
  then have "(of_nat k :: u8) > 0" using counting_zero[of k d] assms(1) by (simp add: word_gt_0)
  moreover have "(of_nat k :: u8) - 1 = of_nat (k - 1)" using False by (simp add: of_nat_diff)
  moreover have "(of_nat (k - 1) :: u8) < threshold d" using counting_less[of "k - 1" d] assms(1) by simp
  ultimately show ?thesis using assms(2) by (simp add: debounce_round_def integrate_def Let_def round_defs not_le)
qed

lemma round_up:
  assumes "k < unat (threshold d)" and "sampled d s"
  shows "debounce_round s (counting d k False) =
    (if Suc k = unat (threshold d) then (Some True, counting d (Suc k) True) else (None, counting d (Suc k) False))"
proof -
  have "(of_nat k :: u8) < threshold d" using counting_less[of k d] assms(1) by simp
  moreover have "(of_nat (Suc k) :: u8) < threshold d \<longleftrightarrow> Suc k < unat (threshold d)" using counting_less[of "Suc k" d] assms(1) by simp
  then have "threshold d \<le> of_nat (Suc k) \<longleftrightarrow> Suc k = unat (threshold d)" using assms(1) by (auto simp: not_less[symmetric])
  moreover have "(of_nat (Suc k) :: u8) \<noteq> 0" using counting_zero[of "Suc k" d] assms(1) by simp
  moreover have "(1 + of_nat k :: u8) = of_nat (unat (threshold d))" if "Suc k = unat (threshold d)"
    unfolding that[symmetric] by simp
  ultimately show ?thesis using assms(2)
    by (cases "Suc k = unat (threshold d)") (simp_all add: debounce_round_def integrate_def Let_def round_defs add.commute)
qed

lemma round_held:
  assumes "0 < unat (threshold d)" and "sampled d s"
  shows "debounce_round s (counting d (unat (threshold d)) True) = (None, counting d (unat (threshold d)) True)"
  using assms by (auto simp: debounce_round_def integrate_def Let_def round_defs word_less_nat_alt)

subsection \<open>Runs of samples\<close>

lemma debounce_step: "debounce_round s d = (None, d') \<Longrightarrow> debounce d t (s # ss) = debounce d' (t + sample_interval d') ss"
  by simp

lemma release_step:
  "debounce_round s d = (None, d') \<Longrightarrow> 0 < sample_interval d' \<Longrightarrow> t + sample_interval d' \<le> deadline \<Longrightarrow>
    release_future deadline d t (s # ss) = release_future deadline d' (t + sample_interval d') ss"
  by simp

lemma release_sleeps:
  "debounce_round s d = (None, d') \<Longrightarrow> t \<le> deadline \<Longrightarrow> deadline < t + sample_interval d' \<Longrightarrow>
    release_future deadline d t (s # ss) = Some (None, d', deadline, ss)"
  by simp

lemma replicate_run: "replicate (Suc m) s @ ss = s # replicate m s @ ss"
  by simp

lemma debounce_idle:
  assumes "0 < unat (threshold d)" and "\<not> sampled d s"
  shows "debounce (counting d 0 False) t (replicate n s @ ss) = debounce (counting d 0 False) (t + n * sample_interval d) ss"
  using round_bounce_down[of 0 d s] assms by (induction n arbitrary: t) (simp_all add: add.assoc)

lemma debounce_up:
  assumes "sampled d s"
  shows "k + Suc m = unat (threshold d) \<Longrightarrow> debounce (counting d k False) t (replicate (Suc m) s @ ss) =
    Some (True, counting d (unat (threshold d)) True, t + m * sample_interval d, ss)"
proof (induction m arbitrary: k t)
  case 0
  then have "k < unat (threshold d)" "Suc k = unat (threshold d)" by simp_all
  then show ?case using round_up[of k d s] assms by simp
next
  case (Suc m)
  have "k < unat (threshold d)" "Suc k \<noteq> unat (threshold d)" using Suc.prems by simp_all
  then have "debounce_round s (counting d k False) = (None, counting d (Suc k) False)" using round_up[of k d s] assms by simp
  moreover have "Suc k + Suc m = unat (threshold d)" using Suc.prems by simp
  ultimately show ?case
    using Suc.IH[of "Suc k" "t + sample_interval d"] debounce_step[of s "counting d k False"]
    by (simp only: replicate_run[of "Suc m"] counting_simps) (simp add: add.assoc)
qed

text \<open>The button bounces for fewer samples than the threshold: nothing is returned, and nothing is left of them.\<close>

lemma debounce_partly_up:
  assumes "sampled d s"
  shows "k + m < unat (threshold d) \<Longrightarrow>
    debounce (counting d k False) t (replicate m s @ ss) = debounce (counting d (k + m) False) (t + m * sample_interval d) ss"
proof (induction m arbitrary: k t)
  case (Suc m)
  then show ?case using round_up[of k d s] assms Suc.IH[of "Suc k" "t + sample_interval d"] by (simp add: algebra_simps)
qed simp

lemma debounce_partly_down:
  assumes "\<not> sampled d s"
  shows "k < unat (threshold d) \<Longrightarrow>
    debounce (counting d k False) t (replicate m s @ ss) = debounce (counting d (k - m) False) (t + m * sample_interval d) ss"
proof (induction m arbitrary: k t)
  case (Suc m)
  then show ?case using round_bounce_down[of k d s] assms Suc.IH[of "k - 1" "t + sample_interval d"] by (simp add: algebra_simps)
qed simp

lemma bounce_is_ignored:
  assumes "b < unat (threshold d)" and "sampled d s" and "\<not> sampled d r"
  shows "debounce (counting d 0 False) t (replicate b s @ replicate b r @ ss) =
    debounce (counting d 0 False) (t + b * sample_interval d + b * sample_interval d) ss"
  using debounce_partly_up[OF assms(2), of 0 b t] debounce_partly_down[OF assms(3), of b "t + b * sample_interval d" b] assms(1)
  by simp

lemma release_held:
  assumes "0 < unat (threshold d)" and "sampled d s" and "0 < sample_interval d"
  shows "t + m * sample_interval d \<le> deadline \<Longrightarrow>
    release_future deadline (counting d (unat (threshold d)) True) t (replicate m s @ ss) =
    release_future deadline (counting d (unat (threshold d)) True) (t + m * sample_interval d) ss"
proof (induction m arbitrary: t)
  case (Suc m)
  have "t < deadline" "t + sample_interval d \<le> deadline" "t + sample_interval d + m * sample_interval d \<le> deadline"
    using Suc.prems assms(3) by simp_all
  then show ?case using round_held[OF assms(1,2)] Suc.IH[of "t + sample_interval d"] by (simp add: algebra_simps)
qed simp

lemma release_down:
  assumes "\<not> sampled d s" and "0 < sample_interval d"
  shows "Suc m \<le> unat (threshold d) \<Longrightarrow> t + m * sample_interval d \<le> deadline \<Longrightarrow>
    release_future deadline (counting d (Suc m) True) t (replicate (Suc m) s @ ss) =
    Some (Some (t + m * sample_interval d), counting d 0 False, t + m * sample_interval d, ss)"
proof (induction m arbitrary: t)
  case 0
  then show ?case using round_down[of 1 d s] assms(1) by simp
next
  case (Suc m)
  have later: "t + sample_interval d + m * sample_interval d \<le> deadline" using Suc.prems(2) by simp
  then have "t + sample_interval d \<le> deadline" by simp
  moreover have "debounce_round s (counting d (Suc (Suc m)) True) = (None, counting d (Suc m) True)"
    using round_down[OF Suc.prems(1) assms(1)] by simp
  ultimately have "release_future deadline (counting d (Suc (Suc m)) True) t (replicate (Suc (Suc m)) s @ ss)
      = release_future deadline (counting d (Suc m) True) (t + sample_interval d) (replicate (Suc m) s @ ss)"
    using release_step[of s "counting d (Suc (Suc m)) True" "counting d (Suc m) True" t deadline "replicate (Suc m) s @ ss"] assms(2)
    by (simp only: replicate_run[of "Suc m"] counting_simps)
  then show ?case
    using Suc.IH[of "t + sample_interval d"] Suc.prems(1) later by (simp add: add.assoc)
qed

text \<open>Samples that cannot end in a release before the deadline end at the deadline.\<close>

lemma release_timeout_down:
  assumes "\<not> sampled d s" and "0 < sample_interval d"
  shows "Suc m \<le> unat (threshold d) \<Longrightarrow> t \<le> deadline \<Longrightarrow> deadline < t + m * sample_interval d \<Longrightarrow>
    \<exists>d' rest'. release_future deadline (counting d (Suc m) True) t (replicate (Suc m) s @ ss) = Some (None, d', deadline, rest')"
proof (induction m arbitrary: t)
  case (Suc m)
  have round: "debounce_round s (counting d (Suc (Suc m)) True) = (None, counting d (Suc m) True)"
    using round_down[OF Suc.prems(1) assms(1)] by simp
  show ?case
  proof (cases "t + sample_interval d \<le> deadline")
    case True
    have "release_future deadline (counting d (Suc (Suc m)) True) t (replicate (Suc (Suc m)) s @ ss)
        = release_future deadline (counting d (Suc m) True) (t + sample_interval d) (replicate (Suc m) s @ ss)"
      using release_step[OF round, of t deadline "replicate (Suc m) s @ ss"] assms(2) True
      by (simp only: replicate_run[of "Suc m"] counting_simps)
    then show ?thesis using Suc.IH[of "t + sample_interval d"] Suc.prems True by (simp add: add.assoc)
  next
    case False
    then show ?thesis
      using release_sleeps[OF round, of t deadline "replicate (Suc m) s @ ss"] Suc.prems(2)
      by (auto simp only: replicate_run[of "Suc m"] counting_simps not_le)
  qed
qed simp

lemma release_timeout_held:
  assumes "0 < unat (threshold d)" and "sampled d s" and "0 < sample_interval d"
  shows "t \<le> deadline \<Longrightarrow> deadline < t + m * sample_interval d \<Longrightarrow>
    \<exists>d' rest'. release_future deadline (counting d (unat (threshold d)) True) t (replicate m s @ ss) = Some (None, d', deadline, rest')"
proof (induction m arbitrary: t)
  case (Suc m)
  note round = round_held[OF assms(1,2)]
  show ?case
  proof (cases "t + sample_interval d \<le> deadline")
    case True
    then show ?thesis
      using release_step[OF round, of t deadline "replicate m s @ ss"] assms(3) Suc.IH[of "t + sample_interval d"] Suc.prems
      by (simp add: add.assoc)
  next
    case False
    then show ?thesis using release_sleeps[OF round, of t deadline "replicate m s @ ss"] Suc.prems(1) by simp
  qed
qed simp

text \<open>An answer changes the state that the debouncer reports.\<close>

lemma debounce_alternates:
  "debounce d t ss = Some (e, d', t', ss') \<Longrightarrow> e = (\<not> button_pressed d) \<and> button_pressed d' = e"
proof (induction ss arbitrary: d t)
  case (Cons s ss)
  obtain r d1 where round: "debounce_round s d = (r, d1)" by fastforce
  then have "r = None \<longrightarrow> button_pressed d1 = button_pressed d" "\<And>e. r = Some e \<Longrightarrow> e = (\<not> button_pressed d) \<and> button_pressed d1 = e"
    by (auto simp: debounce_round_def integrate_def Let_def split: if_splits)
  then show ?case using Cons round by (cases r) auto
qed simp

subsection \<open>A press\<close>

definition press_message :: "ButtonConfig \<Rightarrow> nat \<Rightarrow> ButtonMessage" where
  "press_message c duration =
     (if press_timeout c \<le> duration then PressAndHold
      else if short_press_threshold c \<le> duration then LongPress else ShortPress)"

text \<open>What the pin reads of a press: \<open>i\<close> samples before it, as many as the threshold until it is seen, \<open>h\<close> more, and
  those of the release.\<close>

definition press_samples :: "Debouncer \<Rightarrow> nat \<Rightarrow> nat \<Rightarrow> pin_sample \<Rightarrow> pin_sample \<Rightarrow> pin_sample list" where
  "press_samples d i h down up =
     replicate i up @ replicate (unat (threshold d)) down @ replicate h down @ replicate (unat (threshold d)) up"

lemma release_duration:
  fixes h :: nat
  assumes thr: "0 < unat (threshold d)" and int: "0 < sample_interval d" and down: "sampled d s" and up: "\<not> sampled d r"
  defines "D \<equiv> (h + unat (threshold d) - 1) * sample_interval d"
  shows "\<exists>d' rest'. release_future (t + timeout) (counting d (unat (threshold d)) True) t
      (replicate h s @ replicate (unat (threshold d)) r @ ss) =
    Some (if D \<le> timeout then (Some (t + D), d', t + D, rest') else (None, d', t + timeout, rest'))"
proof -
  obtain m where m: "unat (threshold d) = Suc m" using thr by (cases "unat (threshold d)") simp_all
  have D: "D = h * sample_interval d + m * sample_interval d" by (simp add: D_def m algebra_simps)
  show ?thesis
  proof (cases "h * sample_interval d \<le> timeout")
    case True
    then have held: "release_future (t + timeout) (counting d (unat (threshold d)) True) t (replicate h s @ replicate (unat (threshold d)) r @ ss)
        = release_future (t + timeout) (counting d (Suc m) True) (t + h * sample_interval d) (replicate (Suc m) r @ ss)"
      using release_held[OF thr down int, of t h "t + timeout"] m by simp
    show ?thesis
    proof (cases "D \<le> timeout")
      case True
      then show ?thesis using held release_down[OF up int, of m "t + h * sample_interval d" "t + timeout" ss] m D by (simp add: add.assoc)
    next
      case False
      then show ?thesis
        using held release_timeout_down[OF up int, of m "t + h * sample_interval d" "t + timeout" ss] m D \<open>h * sample_interval d \<le> timeout\<close>
        by (simp add: add.assoc)
    qed
  next
    case False
    then show ?thesis using release_timeout_held[OF thr down int, of t "t + timeout" h] D by simp
  qed
qed

text \<open>The release of a press that was held gives no message.\<close>

lemma release_after_hold:
  assumes "button_pressed (debouncer c)" and "check_button_press c t ss = Some (msg, w)"
  shows "msg = None"
proof -
  obtain e d' t' ss' where "debounce (debouncer c) t ss = Some (e, d', t', ss')"
    using assms(2) by (auto simp: check_button_press_def get_press_duration_def get_button_state_def split: option.splits)
  moreover from this have "\<not> e" using debounce_alternates assms(1) by blast
  ultimately show ?thesis using assms(2) by (simp add: check_button_press_def get_press_duration_def get_button_state_def)
qed

text \<open>C39. A press is reported by the time that it lasts. From a button at rest whose pin reads the press and its release
  without bouncing, the message is the one of the duration from the sample at which the press is seen to the one at which
  its release is seen: a short press below the threshold of the configuration, a long one from there on, and a press that
  is held where it reaches the timeout, even if the release comes later.\<close>

theorem press_is_classified:
  assumes "0 < threshold d" and "0 < sample_interval d" and "sampled d down" and "\<not> sampled d up"
    and "debouncer c = d\<lparr>integrator := 0, button_pressed := False\<rparr>"
  shows "map_option fst (check_button_press c t (press_samples d i h down up @ later)) =
    Some (Some (press_message c ((h + unat (threshold d) - 1) * sample_interval d)))"
proof -
  have thr: "0 < unat (threshold d)" using assms(1) by (simp add: word_less_nat_alt)
  then obtain m where m: "unat (threshold d) = Suc m" by (cases "unat (threshold d)") simp_all
  let ?D = "(h + unat (threshold d) - 1) * sample_interval d"
  let ?t = "t + i * sample_interval d + m * sample_interval d"
  let ?later = "replicate h down @ replicate (unat (threshold d)) up @ later"
  have start: "debouncer c = counting d 0 False" using assms(5) by (simp add: counting_def)
  have "debounce (debouncer c) t (press_samples d i h down up @ later)
      = Some (True, counting d (unat (threshold d)) True, ?t, ?later)"
    using debounce_up[OF assms(3), of 0 m "t + i * sample_interval d" ?later] m
    by (simp add: start press_samples_def debounce_idle[OF thr assms(4)])
  then have pressed: "get_button_state (debouncer c, t, press_samples d i h down up @ later)
      = Some (ButtonPressed ?t, counting d (unat (threshold d)) True, ?t, ?later)"
    by (simp add: get_button_state_def)
  obtain d' rest' where "release_future (?t + press_timeout c) (counting d (unat (threshold d)) True) ?t ?later
      = Some (if ?D \<le> press_timeout c then (Some (?t + ?D), d', ?t + ?D, rest') else (None, d', ?t + press_timeout c, rest'))"
    using release_duration[OF thr assms(2-4), of ?t "press_timeout c" h later] by blast
  then show ?thesis using pressed
    by (cases "?D \<le> press_timeout c") (simp_all add: check_button_press_def get_press_duration_def press_message_def)
qed

theorem press_is_classified_witness:
  "map_option fst (check_button_press button_config_default 0 (press_samples debouncer_default 4 298 (Some False) (Some True) @ []))
    = Some (Some LongPress)"
  using press_is_classified [of debouncer_default "Some False" "Some True" button_config_default 0 4 298 "[]"]
  by (simp add: debouncer_default_def button_config_default_def sampled_def unwrap_or_def is_low_def press_message_def)

end
