(* ===== verification/Gpio_Keyboard.thy ===== *)
theory Gpio_Keyboard
  imports Hid_Keyboard
begin

text \<open>
  The keyboard over a matrix of pins, \<open>keyboard-service/src/gpio_kb.rs\<close>: the ghost detection, the runner that scans
  the matrix, and the handle that the relay calls. Keyberon is a parameter: a record of its operations on its state
  \<open>'k\<close> and its events \<open>'v\<close>. The runner goes from one await to the next; between two of its turns the host may call the handle and the
  one subscriber, the relay, which is there from the start, may take a report.
\<close>

subsection \<open>Ghosts\<close>

type_synonym u128 = "128 word"

text \<open>One column: the keys counted so far, and the bits of the rows that are pressed.\<close>

fun pack_column :: "nat \<Rightarrow> bool list \<Rightarrow> nat \<times> u128 \<Rightarrow> nat \<times> u128" where
  "pack_column r [] acc = acc"
| "pack_column r (key # keys) (count, bits) =
     pack_column (Suc r) keys (if key then (count + 1, bits OR push_bit r 1) else (count, bits))"

fun pack_columns :: "bool list list \<Rightarrow> nat \<Rightarrow> nat \<times> u128 list" where
  "pack_columns [] count = (count, [])"
| "pack_columns (col # cols) count =
     (case pack_column 0 col (count, 0) of
        (count, bits) \<Rightarrow> case pack_columns cols count of (count, packed) \<Rightarrow> (count, bits # packed))"

definition count_ones :: "u128 \<Rightarrow> nat" where
  "count_ones w = length (filter (bit w) [0..<128])"

fun shared_rows :: "u128 list \<Rightarrow> bool" where
  "shared_rows [] = False"
| "shared_rows (c1 # cs) = (list_ex (\<lambda>c2. 2 \<le> count_ones (c1 AND c2)) cs \<or> shared_rows cs)"

definition has_ghost :: "bool list list \<Rightarrow> bool" where
  "has_ghost pressed = (case pack_columns pressed 0 of (count, bits) \<Rightarrow> if count \<le> 2 then False else shared_rows bits)"

subsection \<open>Keyberon\<close>

record ('k, 'e, 'v) keyberon =
  scan_matrix :: "'k \<Rightarrow> ('e, bool list list) result \<times> 'k"
  debounce_events :: "bool list list \<Rightarrow> 'k \<Rightarrow> 'v list \<times> 'k"
  event_transform :: "(u8 \<Rightarrow> u8 \<Rightarrow> u8 \<times> u8) \<Rightarrow> 'v \<Rightarrow> 'v"
  layout_event :: "'v \<Rightarrow> 'k \<Rightarrow> 'k"
  layout_tick :: "'k \<Rightarrow> 'k"
  layout_report :: "'k \<Rightarrow> KeyboardInputReport"

subsection \<open>The service\<close>

datatype KeyboardError = KeyboardScan

datatype 'e KeyboardInitError = InitMatrix 'e | TooManyRowsForDeghosting

datatype ScanError = RollOver | ScanUndefined

fun scan_error_code :: "ScanError \<Rightarrow> u8" where
  "scan_error_code RollOver = 1"
| "scan_error_code ScanUndefined = 3"

datatype ScanOutcome = ScanReport KeyboardInputReport | Unpowered | ScanFailed ScanError

definition REPORT_QUEUE_DEPTH :: nat where "REPORT_QUEUE_DEPTH = 8"

text \<open>Where the runner waits: not at all, for a change of the power state, for its timer in and after a cycle, or for
  room in the queue of reports.\<close>

datatype runner_place =
    AtTop
  | AtGate
  | BetweenScans
  | AfterFailure
  | PublishReport KeyboardInputReport
  | PublishError KeyboardInputReport

record 'l led_config =
  num_lock :: "'l option"
  caps_lock :: "'l option"
  scroll_lock :: "'l option"

record ('k, 'l) gpio_keyboard =
  gpio_power :: KeyboardPowerState
  power_changed :: bool
  report_queue :: "KeyboardInputReport list"
  kb_place :: runner_place
  kb_state :: 'k
  kb_deghost :: bool
  led_cfg :: "'l led_config"

definition gpio_keyboard_new ::
  "nat \<Rightarrow> bool \<Rightarrow> ('e, 'k) result \<Rightarrow> 'l led_config \<Rightarrow> ('e KeyboardInitError, ('k, 'l) gpio_keyboard) result" where
  "gpio_keyboard_new nrows deghost matrix leds =
     (if deghost \<and> 128 < nrows then Inl TooManyRowsForDeghosting
      else case matrix of
             Inl e \<Rightarrow> Inl (InitMatrix e)
           | Inr k \<Rightarrow> Inr \<lparr>gpio_power = KeyboardSleep, power_changed = False, report_queue = [], kb_place = AtTop,
               kb_state = k, kb_deghost = deghost, led_cfg = leds\<rparr>)"

definition is_powered_on :: "('k, 'l) gpio_keyboard \<Rightarrow> bool" where
  "is_powered_on g \<longleftrightarrow> gpio_power g = KeyboardOn"

definition gpio_set_power_state :: "KeyboardPowerState \<Rightarrow> ('k, 'l) gpio_keyboard \<Rightarrow> ('k, 'l) gpio_keyboard" where
  "gpio_set_power_state state g = g\<lparr>gpio_power := state, power_changed := True\<rparr>"

text \<open>The operations of a pin return whether they succeed.\<close>

record 'l output_pin =
  pin_set_high :: "'l \<Rightarrow> bool \<times> 'l"
  pin_set_low :: "'l \<Rightarrow> bool \<times> 'l"

definition set_led :: "'l output_pin \<Rightarrow> bool \<Rightarrow> ('l option, KeyboardError, unit) action" where
  "set_led P cond led =
     (case led of
        None \<Rightarrow> (Inr (), None)
      | Some l \<Rightarrow> (case (if cond then pin_set_high P l else pin_set_low P l) of
          (done, l) \<Rightarrow> (if done then Inr () else Inl KeyboardScan, Some l)))"

definition on_num_lock :: "('l option, 'e, unit) action \<Rightarrow> ('l led_config, 'e, unit) action" where
  "on_num_lock m c = (case m (num_lock c) of (r, l) \<Rightarrow> (r, c\<lparr>num_lock := l\<rparr>))"
definition on_caps_lock :: "('l option, 'e, unit) action \<Rightarrow> ('l led_config, 'e, unit) action" where
  "on_caps_lock m c = (case m (caps_lock c) of (r, l) \<Rightarrow> (r, c\<lparr>caps_lock := l\<rparr>))"
definition on_scroll_lock :: "('l option, 'e, unit) action \<Rightarrow> ('l led_config, 'e, unit) action" where
  "on_scroll_lock m c = (case m (scroll_lock c) of (r, l) \<Rightarrow> (r, c\<lparr>scroll_lock := l\<rparr>))"

definition apply_leds :: "'l output_pin \<Rightarrow> u8 \<Rightarrow> ('l led_config, KeyboardError, unit) action" where
  "apply_leds P flags =
     and_then (on_num_lock (set_led P (bit flags 0))) (\<lambda>_.
     and_then (on_caps_lock (set_led P (bit flags 1))) (\<lambda>_.
     on_scroll_lock (set_led P (bit flags 2))))"

definition gpio_service :: "'l output_pin \<Rightarrow> ('k, 'l) gpio_keyboard keyboard_service" where
  "gpio_service P =
     \<lparr>set_leds = (\<lambda>flags g. case apply_leds P flags (led_cfg g) of (r, c) \<Rightarrow> (is_ok r, g\<lparr>led_cfg := c\<rparr>)),
      set_keyboard_power = gpio_set_power_state\<rparr>"

subsection \<open>The runner\<close>

text \<open>One round of the loop of \<open>scan_cycle\<close>, up to the timer.\<close>

definition process_key_event :: "('k, 'e, 'v) keyberon \<Rightarrow> 'v \<Rightarrow> 'k \<Rightarrow> 'k" where
  "process_key_event K e k = layout_tick K (layout_event K (event_transform K (\<lambda>x y. (y, x)) e) k)"

definition scan_round ::
  "('k, 'e, 'v) keyberon \<Rightarrow> ('k, 'l) gpio_keyboard \<Rightarrow> ScanOutcome option \<times> ('k, 'l) gpio_keyboard" where
  "scan_round K g =
     (if \<not> is_powered_on g then (Some Unpowered, g)
      else case scan_matrix K (kb_state g) of
             (Inl _, k) \<Rightarrow> (Some (ScanFailed ScanUndefined), g\<lparr>kb_state := k\<rparr>)
           | (Inr pressed, k) \<Rightarrow>
               if kb_deghost g \<and> has_ghost pressed then (Some (ScanFailed RollOver), g\<lparr>kb_state := k\<rparr>)
               else case debounce_events K pressed k of
                      (events, k) \<Rightarrow>
                        let k = fold (process_key_event K) events k
                        in (if events \<noteq> [] then Some (ScanReport (layout_report K k)) else None, g\<lparr>kb_state := k\<rparr>))"

definition publish_input :: "KeyboardInputReport \<Rightarrow> runner_place \<Rightarrow> runner_place \<Rightarrow> ('k, 'l) gpio_keyboard \<Rightarrow> ('k, 'l) gpio_keyboard" where
  "publish_input r waiting afterwards g =
     (if length (report_queue g) < REPORT_QUEUE_DEPTH then g\<lparr>report_queue := report_queue g @ [r], kb_place := afterwards\<rparr>
      else g\<lparr>kb_place := waiting\<rparr>)"

definition publish_report :: "KeyboardInputReport \<Rightarrow> ('k, 'l) gpio_keyboard \<Rightarrow> ('k, 'l) gpio_keyboard" where
  "publish_report r = publish_input r (PublishReport r) AtTop"

definition publish_error :: "KeyboardInputReport \<Rightarrow> ('k, 'l) gpio_keyboard \<Rightarrow> ('k, 'l) gpio_keyboard" where
  "publish_error r = publish_input r (PublishError r) AfterFailure"

text \<open>A signal that is there when the runner starts to wait is consumed, and the power state checked again.\<close>

definition wait_at_gate :: "('k, 'l) gpio_keyboard \<Rightarrow> ('k, 'l) gpio_keyboard" where
  "wait_at_gate g = g\<lparr>power_changed := False, kb_place := AtGate\<rparr>"

definition scan_on :: "('k, 'e, 'v) keyberon \<Rightarrow> ('k, 'l) gpio_keyboard \<Rightarrow> ('k, 'l) gpio_keyboard" where
  "scan_on K g =
     (case scan_round K g of
        (None, g) \<Rightarrow> g\<lparr>kb_place := BetweenScans\<rparr>
      | (Some (ScanReport r), g) \<Rightarrow> publish_report r g
      | (Some Unpowered, g) \<Rightarrow> wait_at_gate g
      | (Some (ScanFailed e), g) \<Rightarrow> publish_error (error_report (scan_error_code e)) g)"

definition runner_top :: "('k, 'e, 'v) keyberon \<Rightarrow> ('k, 'l) gpio_keyboard \<Rightarrow> ('k, 'l) gpio_keyboard" where
  "runner_top K g = (if is_powered_on g then scan_on K g else wait_at_gate g)"

definition runner_turn :: "('k, 'e, 'v) keyberon \<Rightarrow> ('k, 'l) gpio_keyboard \<Rightarrow> ('k, 'l) gpio_keyboard" where
  "runner_turn K g =
     (case kb_place g of
        AtTop \<Rightarrow> runner_top K g
      | AtGate \<Rightarrow> if power_changed g then runner_top K (g\<lparr>power_changed := False\<rparr>) else g
      | BetweenScans \<Rightarrow> scan_on K g
      | AfterFailure \<Rightarrow> runner_top K g
      | PublishReport r \<Rightarrow> publish_report r g
      | PublishError r \<Rightarrow> publish_error r g)"

datatype keyboard_turn = SetPower KeyboardPowerState | SetLeds u8 | TakeReport | RunnerTurn

fun keyboard_step :: "('k, 'e, 'v) keyberon \<Rightarrow> 'l output_pin \<Rightarrow> keyboard_turn \<Rightarrow> ('k, 'l) gpio_keyboard \<Rightarrow> ('k, 'l) gpio_keyboard" where
  "keyboard_step K P (SetPower s) g = set_keyboard_power (gpio_service P) s g"
| "keyboard_step K P (SetLeds flags) g = snd (set_leds (gpio_service P) flags g)"
| "keyboard_step K P TakeReport g = g\<lparr>report_queue := drop 1 (report_queue g)\<rparr>"
| "keyboard_step K P RunnerTurn g = runner_turn K g"

definition keyboard_run :: "('k, 'e, 'v) keyberon \<Rightarrow> 'l output_pin \<Rightarrow> keyboard_turn list \<Rightarrow> ('k, 'l) gpio_keyboard \<Rightarrow> ('k, 'l) gpio_keyboard" where
  "keyboard_run K P turns g = fold (keyboard_step K P) turns g"

end
