(* ===== verification/Gpio_Keyboard_Props.thy ===== *)
theory Gpio_Keyboard_Props
  imports Gpio_Keyboard
begin

text \<open>
  The ghost detection finds exactly the rectangles of pressed keys, the runner never misses that the keyboard was powered
  on, scans only while it is, and reports a ghost without giving it to the debouncer.
\<close>

subsection \<open>Ghosts are rectangles\<close>

definition column_count :: "bool list \<Rightarrow> nat" where
  "column_count col = length (filter (\<lambda>key. key) col)"

lemma pack_column_count: "fst (pack_column r col (count, bits)) = count + column_count col"
  by (induction col arbitrary: r count bits) (simp_all add: column_count_def)

lemma pack_column_bit:
  "bit (snd (pack_column r col (count, bits))) n \<longleftrightarrow>
     bit bits n \<or> (r \<le> n \<and> n < r + length col \<and> n < 128 \<and> col ! (n - r))"
proof (induction col arbitrary: r count bits)
  case (Cons key keys)
  have here: "bit (bits OR push_bit r 1) n \<longleftrightarrow> bit bits n \<or> (n = r \<and> n < 128)" for bits :: u128
    by (auto simp: bit_simps simp del: push_bit_of_1)
  have split: "r \<le> n \<and> n < r + length (key # keys) \<and> n < 128 \<and> (key # keys) ! (n - r) \<longleftrightarrow>
      (n = r \<and> n < 128 \<and> key) \<or> (Suc r \<le> n \<and> n < Suc r + length keys \<and> n < 128 \<and> keys ! (n - Suc r))"
    by (cases "n = r") (auto simp: nth_Cons' Suc_diff_Suc)
  show ?case
  proof (cases key)
    case True
    have "bit (snd (pack_column r (key # keys) (count, bits))) n \<longleftrightarrow>
        bit (snd (pack_column (Suc r) keys (count + 1, bits OR push_bit r 1))) n" using True by simp
    then show ?thesis unfolding split Cons.IH here using True by blast
  next
    case False
    then show ?thesis unfolding split using Cons.IH[of "Suc r" count bits] by simp
  qed
qed auto

definition column_bits :: "bool list \<Rightarrow> u128" where
  "column_bits col = snd (pack_column 0 col (0, 0))"

lemma pack_column_bits: "snd (pack_column 0 col (count, 0)) = column_bits col"
  by (rule bit_word_eqI) (simp add: column_bits_def pack_column_bit)

lemma column_bits_bit: "length col \<le> 128 \<Longrightarrow> bit (column_bits col) n \<longleftrightarrow> n < length col \<and> col ! n"
  by (auto simp: column_bits_def pack_column_bit)

lemma pack_columns_eq: "pack_columns cols count = (count + sum_list (map column_count cols), map column_bits cols)"
proof (induction cols arbitrary: count)
  case (Cons col cols)
  have "pack_column 0 col (count, 0) = (count + column_count col, column_bits col)"
    using pack_column_count[of 0 col count 0] pack_column_bits[of col count] by (simp add: prod_eq_iff)
  then show ?case using Cons.IH by simp
qed simp

lemma count_ones_card: "count_ones w = card {n. bit w n}"
proof -
  have "set (filter (bit w) [0..<128]) = {n. bit w n}" using bit_imp_le_length[of w] by fastforce
  then show ?thesis unfolding count_ones_def by (metis distinct_card distinct_filter distinct_upt)
qed

lemma count_ones_two: "2 \<le> count_ones w \<longleftrightarrow> (\<exists>a b. a < b \<and> bit w a \<and> bit w b)"
proof -
  let ?S = "{n. bit w n}"
  have fin: "finite ?S" by simp
  have "2 \<le> card ?S \<longleftrightarrow> (\<exists>a \<in> ?S. \<exists>b \<in> ?S. a \<noteq> b)"
    using card_le_Suc0_iff_eq[OF fin] by (auto simp: not_le[symmetric] numeral_2_eq_2 Suc_le_eq)
  then show ?thesis unfolding count_ones_card by (auto simp: neq_iff)
qed

lemma shared_rows_iff: "shared_rows cs \<longleftrightarrow> (\<exists>i j. i < j \<and> j < length cs \<and> 2 \<le> count_ones (cs ! i AND cs ! j))"
proof (induction cs)
  case (Cons c cs)
  have "(\<exists>i j. i < j \<and> j < length (c # cs) \<and> 2 \<le> count_ones ((c # cs) ! i AND (c # cs) ! j)) \<longleftrightarrow>
    (\<exists>j < length cs. 2 \<le> count_ones (c AND cs ! j)) \<or> (\<exists>i j. i < j \<and> j < length cs \<and> 2 \<le> count_ones (cs ! i AND cs ! j))"
    (is "?L \<longleftrightarrow> ?A \<or> ?B")
  proof
    assume ?L
    then obtain i j where ij: "i < j" "j < length (c # cs)" "2 \<le> count_ones ((c # cs) ! i AND (c # cs) ! j)" by blast
    then obtain j' where j: "j = Suc j'" by (cases j) simp_all
    show "?A \<or> ?B"
    proof (cases i)
      case 0
      then show ?thesis using ij j by auto
    next
      case (Suc i')
      then show ?thesis using ij j by (intro disjI2 exI[of _ i'] exI[of _ j']) simp
    qed
  next
    assume "?A \<or> ?B"
    then show ?L
    proof
      assume ?A
      then obtain j where "j < length cs" "2 \<le> count_ones (c AND cs ! j)" by blast
      then show ?L by (intro exI[of _ 0] exI[of _ "Suc j"]) simp
    next
      assume ?B
      then obtain i j where "i < j" "j < length cs" "2 \<le> count_ones (cs ! i AND cs ! j)" by blast
      then show ?L by (intro exI[of _ "Suc i"] exI[of _ "Suc j"]) simp
    qed
  qed
  moreover have "list_ex (\<lambda>c2. 2 \<le> count_ones (c AND c2)) cs \<longleftrightarrow> (\<exists>j < length cs. 2 \<le> count_ones (c AND cs ! j))"
    by (simp add: list_ex_length)
  ultimately show ?case using Cons.IH by simp
qed simp

text \<open>The reference: two columns in which the same two rows are pressed.\<close>

definition pressed_at :: "bool list list \<Rightarrow> nat \<Rightarrow> nat \<Rightarrow> bool" where
  "pressed_at pressed col row \<longleftrightarrow> col < length pressed \<and> row < length (pressed ! col) \<and> pressed ! col ! row"

definition rectangle :: "bool list list \<Rightarrow> bool" where
  "rectangle pressed \<longleftrightarrow> (\<exists>i j a b. i < j \<and> a < b \<and> pressed_at pressed i a \<and> pressed_at pressed i b
     \<and> pressed_at pressed j a \<and> pressed_at pressed j b)"

lemma column_count_two:
  assumes "a < b" and "b < length col" and "col ! a" and "col ! b"
  shows "2 \<le> column_count col"
proof -
  have "column_count col = card {n. n < length col \<and> col ! n}" unfolding column_count_def by (rule length_filter_conv_card)
  moreover have "{a, b} \<subseteq> {n. n < length col \<and> col ! n}" using assms by auto
  ultimately show ?thesis using card_mono[of "{n. n < length col \<and> col ! n}" "{a, b}"] assms(1) by simp
qed

lemma sum_list_two:
  assumes "i < j" and "j < length xs"
  shows "xs ! i + xs ! j \<le> sum_list (xs :: nat list)"
proof -
  have "xs ! i \<in> set (take j xs)" using assms by (auto simp: in_set_conv_nth intro!: exI[of _ i])
  then have "xs ! i \<le> sum_list (take j xs)" by (simp add: member_le_sum_list)
  moreover have "xs ! j \<le> sum_list (drop j xs)" using assms(2) by (intro member_le_sum_list) (auto simp: in_set_conv_nth intro!: exI[of _ 0])
  moreover have "sum_list (take j xs) + sum_list (drop j xs) = sum_list xs" by (metis append_take_drop_id sum_list_append)
  ultimately show ?thesis by simp
qed

lemma shared_rows_rectangle:
  assumes "list_all (\<lambda>col. length col \<le> 128) pressed"
  shows "shared_rows (map column_bits pressed) \<longleftrightarrow> rectangle pressed"
proof -
  have len: "length (pressed ! i) \<le> 128" if "i < length pressed" for i using assms that by (simp add: list_all_length)
  have "bit (column_bits (pressed ! i)) n \<longleftrightarrow> pressed_at pressed i n" if "i < length pressed" for i n
    using column_bits_bit[OF len[OF that]] that by (simp add: pressed_at_def)
  then have "2 \<le> count_ones (map column_bits pressed ! i AND map column_bits pressed ! j) \<longleftrightarrow>
      (\<exists>a b. a < b \<and> (pressed_at pressed i a \<and> pressed_at pressed j a) \<and> pressed_at pressed i b \<and> pressed_at pressed j b)"
    if "i < j" "j < length pressed" for i j
    using that by (simp add: count_ones_two bit_and_iff)
  moreover have "j < length pressed" if "pressed_at pressed j a" for j a using that by (simp add: pressed_at_def)
  ultimately show ?thesis unfolding shared_rows_iff rectangle_def by (metis length_map)
qed

lemma rectangle_count:
  assumes "rectangle pressed"
  shows "2 < sum_list (map column_count pressed)"
proof -
  obtain i j a b where r: "i < j" "a < b" "pressed_at pressed i a" "pressed_at pressed i b" "pressed_at pressed j a" "pressed_at pressed j b"
    using assms unfolding rectangle_def by blast
  then have "2 \<le> column_count (pressed ! i)" "2 \<le> column_count (pressed ! j)"
    using column_count_two by (auto simp: pressed_at_def)
  moreover have "j < length pressed" using r by (simp add: pressed_at_def)
  ultimately show ?thesis using sum_list_two[of i j "map column_count pressed"] r(1) by simp
qed

lemma has_ghost_rectangle: "list_all (\<lambda>col. length col \<le> 128) pressed \<Longrightarrow> has_ghost pressed = rectangle pressed"
  using shared_rows_rectangle[of pressed] rectangle_count[of pressed]
  by (auto simp: has_ghost_def pack_columns_eq)

subsection \<open>The runner follows the power state\<close>

text \<open>A runner that waits at the gate has a signal ahead whenever the keyboard is on.\<close>

definition gate_watched :: "('k, 'l) gpio_keyboard \<Rightarrow> bool" where
  "gate_watched g \<longleftrightarrow> (kb_place g = AtGate \<and> is_powered_on g \<longrightarrow> power_changed g)"

lemma publish_watched: "waiting \<noteq> AtGate \<Longrightarrow> afterwards \<noteq> AtGate \<Longrightarrow> gate_watched (publish_input r waiting afterwards g)"
  by (simp add: publish_input_def gate_watched_def)

lemma scan_round_off: "\<not> is_powered_on g \<Longrightarrow> scan_round K g = (Some Unpowered, g)"
  by (simp add: scan_round_def)

lemma scan_round_on: "is_powered_on g \<Longrightarrow> fst (scan_round K g) \<noteq> Some Unpowered"
  by (auto simp: scan_round_def Let_def split: prod.splits sum.splits)

lemma scan_on_watched: "gate_watched (scan_on K g)"
proof (cases "is_powered_on g")
  case True
  obtain r h where scan: "scan_round K g = (r, h)" by fastforce
  have "r \<noteq> Some Unpowered" using scan_round_on[OF True, of K] scan by simp
  then show ?thesis
    by (auto simp: scan_on_def scan publish_report_def publish_error_def intro: publish_watched split: option.split ScanOutcome.split)
      (simp add: gate_watched_def)
qed (simp add: scan_on_def scan_round_off wait_at_gate_def gate_watched_def is_powered_on_def)

lemma runner_top_watched: "gate_watched (runner_top K g)"
  by (auto simp: runner_top_def scan_on_watched) (simp add: wait_at_gate_def gate_watched_def is_powered_on_def)

lemma keyboard_step_watched: "gate_watched g \<Longrightarrow> gate_watched (keyboard_step K P turn g)"
proof (cases turn)
  case (SetLeds flags)
  then show "gate_watched g \<Longrightarrow> ?thesis" by (simp add: gpio_service_def gate_watched_def is_powered_on_def split: prod.split)
next
  case RunnerTurn
  then show "gate_watched g \<Longrightarrow> ?thesis"
    by (auto simp: runner_turn_def runner_top_watched scan_on_watched publish_report_def publish_error_def intro: publish_watched
        split: runner_place.split)
qed (simp_all add: gpio_service_def gpio_set_power_state_def gate_watched_def is_powered_on_def)

lemma keyboard_run_watched: "gate_watched g \<Longrightarrow> gate_watched (keyboard_run K P turns g)"
  unfolding keyboard_run_def by (induction turns arbitrary: g) (simp_all add: keyboard_step_watched)

text \<open>However the host, the subscriber and the runner take their turns, a runner with no report to publish_input scans the matrix
  in its next turn if the keyboard is on, and neither scans nor reports if it is not.\<close>

theorem runner_follows_power:
  assumes "gpio_keyboard_new nrows deghost matrix leds = Inr g0" and "g = keyboard_run K P turns g0"
    and "\<forall>r. kb_place g \<noteq> PublishReport r \<and> kb_place g \<noteq> PublishError r"
  shows "if is_powered_on g then \<exists>c. runner_turn K g = scan_on K (g\<lparr>power_changed := c\<rparr>)
    else kb_state (runner_turn K g) = kb_state g \<and> report_queue (runner_turn K g) = report_queue g"
proof -
  have "gate_watched g0" using assms(1) by (auto simp: gpio_keyboard_new_def gate_watched_def split: if_splits sum.splits)
  then have watched: "gate_watched g" unfolding assms(2) by (rule keyboard_run_watched)
  have same: "g = g\<lparr>power_changed := power_changed g\<rparr>" by simp
  show ?thesis
  proof (cases "is_powered_on g")
    case True
    have on: "is_powered_on (g\<lparr>power_changed := False\<rparr>)" using True by (simp add: is_powered_on_def)
    have "runner_turn K g = scan_on K g \<or> runner_turn K g = scan_on K (g\<lparr>power_changed := False\<rparr>)"
      using watched True on assms(3) by (cases "kb_place g") (simp_all add: runner_turn_def runner_top_def gate_watched_def)
    then show ?thesis using True same by (auto intro: exI[of _ "power_changed g"])
  next
    case False
    then have off: "\<not> is_powered_on (g\<lparr>power_changed := False\<rparr>)" by (simp add: is_powered_on_def)
    show ?thesis
      using False off assms(3)
      by (cases "kb_place g") (simp_all add: runner_turn_def runner_top_def scan_on_def scan_round_off wait_at_gate_def)
  qed
qed

text \<open>C40. The ghost detection on packed bits finds exactly the rectangles: with at most 128 rows, as the service demands, a
  scan that is checked for ghosts ends the cycle with a rollover report and without the debouncer or the layout seeing it
  if two columns have the same two rows pressed, and goes to the debouncer otherwise.\<close>

theorem ghosts_are_reported:
  assumes "kb_deghost g" and "is_powered_on g" and "scan_matrix K (kb_state g) = (Inr pressed, k)"
    and "list_all (\<lambda>col. length col \<le> 128) pressed"
  shows "if rectangle pressed then scan_on K g = publish_error (error_report 1) (g\<lparr>kb_state := k\<rparr>)
    else scan_on K g = (case debounce_events K pressed k of (events, k') \<Rightarrow>
      let k' = fold (process_key_event K) events k'
      in if events = [] then g\<lparr>kb_state := k', kb_place := BetweenScans\<rparr> else publish_report (layout_report K k') (g\<lparr>kb_state := k'\<rparr>))"
  using has_ghost_rectangle[OF assms(4)] assms(1-3) by (auto simp: scan_on_def scan_round_def Let_def split: prod.split)

text \<open>A matrix of two columns whose state is the scan, with a debouncer that takes every scan for the press of a key.\<close>

definition plain_keyberon :: "(bool list list, unit, unit) keyberon" where
  "plain_keyberon = \<lparr>scan_matrix = (\<lambda>k. (Inr k, k)), debounce_events = (\<lambda>pressed k. ([()], k)), event_transform = (\<lambda>_ e. e), layout_event = (\<lambda>_ k. k),
     layout_tick = (\<lambda>k. k), layout_report = (\<lambda>_. no_keys)\<rparr>"

definition two_columns :: "bool list list \<Rightarrow> (bool list list, unit) gpio_keyboard" where
  "two_columns pressed = \<lparr>gpio_power = KeyboardOn, power_changed = False, report_queue = [], kb_place = AtTop, kb_state = pressed,
     kb_deghost = True, led_cfg = \<lparr>num_lock = None, caps_lock = None, scroll_lock = None\<rparr>\<rparr>"

lemma ghosts_are_reported_witness:
  "report_queue (scan_on plain_keyberon (two_columns [[True, True, False], [True, True, True]])) = [error_report 1]
    \<and> report_queue (scan_on plain_keyberon (two_columns [[True, True, False], [True, False, True]])) = [no_keys]"
proof -
  let ?g = "\<lambda>pressed. two_columns pressed"
  have hyp: "kb_deghost (?g p)" "is_powered_on (?g p)" "scan_matrix plain_keyberon (kb_state (?g p)) = (Inr p, p)" for p
    by (simp_all add: two_columns_def is_powered_on_def plain_keyberon_def)
  have "rectangle [[True, True, False], [True, True, True]]"
    unfolding rectangle_def pressed_at_def by (rule exI[of _ 0], rule exI[of _ 1], rule exI[of _ 0], rule exI[of _ 1]) simp
  moreover have "\<not> rectangle [[True, True, False], [True, False, True]]"
    unfolding rectangle_def pressed_at_def by (auto simp: less_Suc_eq nth_Cons')
  ultimately show ?thesis
    using ghosts_are_reported[OF hyp, of "[[True, True, False], [True, True, True]]"]
      ghosts_are_reported[OF hyp, of "[[True, True, False], [True, False, True]]"]
    by (simp add: publish_error_def publish_report_def publish_input_def REPORT_QUEUE_DEPTH_def two_columns_def plain_keyberon_def Let_def)
qed

end
