(* ===== verification/Spec2Isabelle.thy ===== *)
theory Spec2Isabelle
  imports Power_Policy_Props Time_Alarm_Props Uart_Relay Thermal_Relay_Props Cfu_Updater_Props Cfu_Splitter Cfu_Buffer Hid_Aggregate_Props
    Typec_Ucsi_Props Battery_Props Partition_Props Hid_Command_Props Power_Button
    Gpio_Keyboard_Props
begin

text \<open>
  A model of the embedded services (Rust), a set of firmware services for an embedded controller. Every theory names the
  files that it models; paths are relative to the root of the repository.

  \<^bold>\<open>The program.\<close> Services run as asynchronous tasks, register statically, and call each other under locks or through
  notifiers. The \<^emph>\<open>power policy\<close> decides which device consumes power and what providers get; the devices (PSUs)
  and chargers have state machines of their own, and the Type-C ports are the PSUs of the firmware. The \<^emph>\<open>Type-C
  service\<close> turns events of its ports into UCSI notifications and answers UCSI commands; it listens to the power policy. The host
  speaks MCTP: \<open>mctp-rs\<close> splits and assembles packets on a serial or SMBus/eSPI medium, the \<^emph>\<open>UART service\<close> reads a frame,
  hands the request to a \<^emph>\<open>relay handler\<close> and writes the answer; the relayed services are thermal, time-alarm and
  battery. The \<^emph>\<open>CFU services\<close> take firmware content from the host, split it between devices, buffer it for a slow component, or
  write it to a device through an updater with a timer. \<^emph>\<open>HID devices\<close>, like the keyboard, are aggregated behind one
  descriptor and presented by the I2C target service. Beside these are the fan and sensor tasks, the partition manager of a
  storage device, the power button, and the shared parts of \<open>embedded-service\<close>: intrusive registration lists,
  message routing, shared buffers.

  \<^bold>\<open>Conventions\<close> (\<open>Prelude\<close>). A struct is a record, an enum a datatype, \<open>u8\<close> to \<open>u64\<close> are words, a fallible method is
  an \<open>action\<close>: from a state to a result, \<open>Inl\<close> an error, and a state, so that what an early return has done stays. \<open>and_then\<close> is
  the question mark. \<open>keeps P m\<close> says that \<open>m\<close> preserves \<open>P\<close>, and \<open>triple\<close> relates the states before and after; their rules are
  collected in \<open>keeps_intros\<close>. What is not under version control here (drivers, hardware, the USB-PD, CFU and HAL crates) is a
  parameter: a record of functions or a stream of outcomes, with the documented behaviour it must have as a locale or
  a named hypothesis. A task that awaits is a state with one step per way in which the await can end, and a run is any
  sequence of such steps, so that interleavings are all there.

  \<^bold>\<open>Power policy.\<close> \<open>Capability\<close>, \<open>Psu\<close>, \<open>Charger\<close> (\<open>power-policy-interface\<close>: the state machines of a PSU and a charger, each
  call as a method of the code, and the state diagrams they refine), \<open>Power_State\<close> (the data of \<open>power-policy-service\<close> and what
  drivers must do), \<open>Power_Selection\<close> (\<open>find_best_consumer_default\<close>), \<open>Power_Consumer\<close> and \<open>Power_Provider\<close> (\<open>consumer.rs\<close>,
  \<open>provider.rs\<close>), \<open>Power_Policy\<close> (the event handlers, steps and runs), \<open>Type_C_Psu\<close> (the port as a PSU, which is an
  interpretation of the driver contract). \<open>Power_Consumer_Props\<close> and \<open>Power_Policy_Props\<close> show that listeners can
  reconstruct the current consumer, the providers and the unconstrained state, that at most one device consumes, what a
  provider is granted, and how a failed disconnect leaves two consumers.

  \<^bold>\<open>MCTP and relays.\<close> \<open>Mctp_Types\<close>, \<open>Mctp_Encoding\<close>, \<open>Mctp_Medium\<close>, \<open>Mctp_Serial\<close>, \<open>Mctp_Smbus\<close>, \<open>Mctp_Context\<close>, \<open>Mctp_Messages\<close>,
  \<open>Mctp_Transfer\<close>, \<open>Mctp_Framing\<close> (\<open>mctp-rs/src\<close>: identifiers and headers, byte stuffing, the media, the packet context with
  \<open>BUF_SIZE\<close> bytes, message types, whole transfers, frames on a byte stream); \<open>Relay_Mctp\<close> (\<open>embedded-service/src/relay/mctp.rs\<close>),
  \<open>Relay_Bytes\<close>, and per service \<open>Time_Alarm_Relay\<close>, \<open>Thermal_Relay\<close>, \<open>Battery_Relay\<close> (the \<open>serialization.rs\<close> of the relay crates);
  \<open>Uart_Service\<close> and \<open>Uart_Relay\<close> (\<open>uart-service\<close>, and the handler of the RT685S board). Shown: packets and messages round-trip on
  both media, a message that fits the receiver arrives, every message is sent in finitely many packets, and one round of
  the UART service answers a request.

  \<^bold>\<open>Time, thermal, battery.\<close> \<open>Acpi_Timestamp\<close>, \<open>Alarm_Timer\<close>, \<open>Time_Alarm\<close>, \<open>Time_Alarm_Props\<close> (\<open>time-alarm-service\<close> and its interface: the ACPI
  data, one wake timer with its waiting task, the service with two tasks, a power source task, clients and time);
  \<open>Float32\<close>, \<open>Thermal_Sensor\<close>, \<open>Thermal_Fan\<close>, \<open>Thermal_Fan_Props\<close>, \<open>Thermal_Relay_Props\<close> (\<open>thermal-service\<close>); \<open>Battery_Data\<close>, \<open>Battery_Service\<close>,
  \<open>Battery_Mock\<close>, \<open>Battery_Props\<close> (\<open>battery-service\<close>: the fuel gauge state machine, recovery, ACPI answers). Shown: timers are watched, a
  wake is due, a timer rings after exactly its time; sensor events alternate, the fan settles; gauges are polled after static
  data, and answers reach the host.

  \<^bold>\<open>Firmware update.\<close> \<open>Cfu_Data\<close>, \<open>Cfu_Updater\<close>, \<open>Cfu_Updater_Props\<close>, \<open>Cfu_Splitter\<close>, \<open>Cfu_Buffer\<close> (\<open>cfu-service\<close>): a started update is watched by
  its timer, a silent host is aborted, content is handed on in order, and the buffer can block for good.

  \<^bold>\<open>HID.\<close> \<open>Hid_Descriptor\<close>, \<open>Hid_Combine\<close>, \<open>Hid_Device\<close>, \<open>Hid_Aggregate\<close> with \<open>Hid_Descriptor_Props\<close>, \<open>Hid_Combine_Props\<close>, \<open>Hid_Combine_Sizes\<close>,
  \<open>Hid_Map_Props\<close>, \<open>Hid_Aggregate_Props\<close> (\<open>embedded-service/src/relay/hid.rs\<close>: reading descriptors, combining them, the map of report
  IDs, the trait of a device, the aggregate that the macro generates); \<open>Hid_Keyboard\<close>, \<open>Gpio_Keyboard\<close>, \<open>Gpio_Keyboard_Props\<close>
  (\<open>keyboard-service/src/relay.rs\<close> and \<open>gpio_kb.rs\<close>: ghosts are rectangles, the scanner follows the power state); \<open>Hid_I2c_Bus\<close>,
  \<open>Hid_I2c\<close>, \<open>Hid_I2c_Props\<close>, \<open>Hid_I2c_Reports\<close> (\<open>hidi2c-target-service\<close>); \<open>Hid_Command\<close>, \<open>Hid_Command_Props\<close> (the older \<open>embedded-service/src/hid\<close> and
  the host side in \<open>hid-service/src/i2c/host.rs\<close>). Shown: what combining yields, that IDs and children correspond, that reports travel in
  both directions, that the attention pin follows the state, and that requests end once the host stops.

  \<^bold>\<open>Type-C.\<close> \<open>Typec_Event\<close> (bitfields and the stream of pending events), \<open>Typec_Receiver\<close>, \<open>Typec_Port\<close> (\<open>type-c-service/src/controller\<close>),
  \<open>Typec_Service\<close> (\<open>type-c-service/src/service\<close>), \<open>Typec_Port_Props\<close>, \<open>Typec_Service_Props\<close>, \<open>Typec_Ucsi_Props\<close>: what the power policy hears of a port,
  the tear-down of contracts, the sink-ready deadline, UCSI port numbers, the queue of changed ports.

  \<^bold>\<open>Shared parts and storage.\<close> \<open>Intrusive_List\<close>, \<open>Comms\<close>, \<open>Shared_Buffer\<close> (\<open>embedded-service/src\<close>), \<open>Partition_Manifest\<close>, \<open>Partition_Access\<close>, \<open>Partition_Props\<close>
  (\<open>partition-manager\<close>), \<open>Power_Button\<close> (\<open>power-button-service\<close>): pointer lists refine lists, borrows are exclusive, partitions are isolated,
  a press is classified by its exact length.

  \<^bold>\<open>Interfaces.\<close> The contracts that one part relies on are locales, interpreted on the model: \<open>power_drivers\<close> (port), \<open>index_set\<close>
  (set of fixed capacity), \<open>consumer_comparison\<close> (default comparison), \<open>buffer_encoding\<close> (pass-through, serial), \<open>lawful_medium\<close>, \<open>packet_transfer\<close>
  (serial, SMBus), \<open>framed_medium\<close> (serial), \<open>lawful_header_codec\<close> and \<open>lawful_smbus_codec\<close> (the layouts), \<open>message_codec\<close> (control, vendor, and
  by \<open>sublocale\<close> the requests and results of \<open>relay_services\<close>), \<open>serializable_message\<close> (time, thermal, battery), \<open>relay_services\<close> (the board),
  \<open>lawful_calendar\<close> (Gregorian), \<open>lawful_hal\<close> (mock hardware), \<open>registration_lists\<close> (intrusive lists), \<open>hid_device\<close> (keyboard),
  \<open>fuel_gauge_laws\<close> (mock gauge).

  \<^bold>\<open>Bounds, fuel and assumptions.\<close>
  \<^item> Loops that consume something are recursive with a measure. \<open>process_response\<close> has fuel \<open>BUF_SIZE\<close>, as each packet carries a byte
    of the body; \<open>send_all\<close> has fuel, and it is shown that enough exists. \<open>ucsi_loop\<close> is a partial function: whether it ends is up to the
    PPM state machine, which is not part of the repository; it does in two passes if that machine completes its commands. The
    recovery loop of the battery service is structural in its retries.
  \<^item> Integer arithmetic wraps as in a release build where the code does not check; that the partition ends and the alarm
    times do not wrap is a hypothesis of the properties that need it. \<open>f32\<close> (\<open>Float32\<close>) is IEEE single precision on
    rationals, with infinities and NaN but one zero. Instants are natural numbers.
  \<^item> Locks are uncontended: a method under a lock is one step. Notifiers record what they are sent; their failures are only
    logged by the code.
  \<^item> The I2C bus and the attention pin of the HID target are streams of outcomes of any order and number; when a stream is used up
    the call has not returned (\<open>Hangs\<close>), so a host that never stops is every length of stream. A failing call of the
    pin leaves any level. A HID device hands out its reports through the record \<open>hid_device\<close>.
  \<^item> A port is assumed to report a plug with the first connected status of a detached device (\<open>plug_reported\<close>), and the power
    policy not to disconnect a detached device; only then is \<open>power_policy_is_informed\<close> stated.
  \<^item> A buffer is used in fewer than \<open>2 ^ 32\<close> calls. The pin of the power button is the list of its samples, with exact timers.
  \<^item> Where an ACPI or UCSI type comes from a crate that is not part of the repository, its values are carried as codes or in a parameter.

  \<^bold>\<open>Not modelled.\<close> Methods that only forward a call (retimer, DisplayPort, USB and Thunderbolt control of a port, wrappers of tasks), the device and
  pass-through sides of the superseded I2C HID, inter-process calls, cells and synchronisation of \<open>embedded-service\<close>,
  the eSPI, debug and platform services, which drive hardware registers or log buffers, the procedural macros and their
  token streams, mocks, tests and examples.
\<close>

end
